(* ===== verification/Prelude.thy ===== *)
theory Prelude
  imports Main "HOL-Library.Multiset" "HOL-Library.Word"
begin

text \<open>
  Shared vocabulary of the development: Go's machine integers and truncating division, the
  order in which a Go map is iterated, and generic lemmas on lists and maps. Nothing here
  models code of the repository; every component theory builds on it.
\<close>

named_theorems go_int \<comment> \<open>facts about Go's fixed-width integers\<close>

section \<open>Integers\<close>

text \<open>
  Go's \<open>int\<close> and \<open>int64\<close> are 64-bit two's complement. A value of the model is an \<open>int\<close>;
  \<open>i64\<close> wraps the result of an operation into range where the code could overflow.
  Instants (\<open>time.Time\<close>) and durations are nanoseconds.
\<close>

type_synonym instant = int
type_synonym duration = int

definition i64 :: "int \<Rightarrow> int" where
  "i64 x = (x + 2 ^ 63) mod 2 ^ 64 - 2 ^ 63"

definition i32 :: "int \<Rightarrow> int" where
  "i32 x = (x + 2 ^ 31) mod 2 ^ 32 - 2 ^ 31"

definition in_i64 :: "int \<Rightarrow> bool" where
  "in_i64 x \<longleftrightarrow> - (2 ^ 63) \<le> x \<and> x < 2 ^ 63"

lemma i64_id [go_int]: "in_i64 x \<Longrightarrow> i64 x = x"
  by (simp add: i64_def in_i64_def)

lemma i64_id_nonneg [go_int]: "0 \<le> x \<Longrightarrow> x < 2 ^ 63 \<Longrightarrow> i64 x = x"
  by (simp add: i64_def)

lemma i64_range: "in_i64 (i64 x)"
proof -
  have "0 \<le> (x + 2 ^ 63) mod (2 ^ 64 :: int)" and "(x + 2 ^ 63) mod (2 ^ 64 :: int) < 2 ^ 64"
    by simp_all
  then show ?thesis by (simp add: i64_def in_i64_def)
qed

lemma i32_id [go_int]: "- (2 ^ 31) \<le> x \<Longrightarrow> x < 2 ^ 31 \<Longrightarrow> i32 x = x"
  by (simp add: i32_def)

text \<open>Go's \<open>/\<close> and \<open>%\<close> truncate towards zero; a zero divisor panics, which callers write out.\<close>

definition go_div :: "int \<Rightarrow> int \<Rightarrow> int" where
  "go_div a b = sgn a * sgn b * (\<bar>a\<bar> div \<bar>b\<bar>)"

definition go_rem :: "int \<Rightarrow> int \<Rightarrow> int" where
  "go_rem a b = a - b * go_div a b"

lemma go_div_nonneg [go_int]: "0 \<le> a \<Longrightarrow> 0 < b \<Longrightarrow> go_div a b = a div b"
  by (cases "a = 0") (simp_all add: go_div_def)

lemma go_rem_nonneg [go_int]: "0 \<le> a \<Longrightarrow> 0 < b \<Longrightarrow> go_rem a b = a mod b"
  by (simp add: go_rem_def go_div_nonneg minus_mult_div_eq_mod)

text \<open>Run-time panics of Go that the modelled code can raise.\<close>

datatype panic = DivideByZero | IndexOutOfRange | NilDereference | MakeSliceRange

section \<open>Maps and iteration order\<close>

text \<open>
  \<open>range\<close> over a Go map visits every key once, in an unspecified order. A function that
  iterates takes the order as an argument, and its lemmas assume only \<open>iter_order\<close>.
\<close>

definition iter_order :: "'k list \<Rightarrow> ('k \<rightharpoonup> 'v) \<Rightarrow> bool" where
  "iter_order ks m \<longleftrightarrow> distinct ks \<and> set ks = dom m"

lemma iter_order_finite: "iter_order ks m \<Longrightarrow> finite (dom m)"
  by (metis List.finite_set iter_order_def)

lemma iter_order_mem: "iter_order ks m \<Longrightarrow> k \<in> set ks \<longleftrightarrow> m k \<noteq> None"
  by (auto simp: iter_order_def)

lemma iter_order_length: "iter_order ks m \<Longrightarrow> length ks = card (dom m)"
  by (metis distinct_card iter_order_def)

text \<open>The values of a map in iteration order.\<close>

definition map_values :: "'k list \<Rightarrow> ('k \<rightharpoonup> 'v) \<Rightarrow> 'v list" where
  "map_values ks m = map (\<lambda>k. the (m k)) ks"

lemma set_map_values: "iter_order ks m \<Longrightarrow> set (map_values ks m) = ran m"
  by (force simp: map_values_def iter_order_def ran_def)

lemma length_map_values [simp]: "length (map_values ks m) = length ks"
  by (simp add: map_values_def)

section \<open>Lists\<close>

definition list_swap :: "'a list \<Rightarrow> nat \<Rightarrow> nat \<Rightarrow> 'a list" where
  "list_swap xs i j = xs[i := xs ! j, j := xs ! i]"

lemma length_list_swap [simp]: "length (list_swap xs i j) = length xs"
  by (simp add: list_swap_def)

lemma nth_list_swap:
  "i < length xs \<Longrightarrow> j < length xs \<Longrightarrow> k < length xs \<Longrightarrow>
   list_swap xs i j ! k = xs ! (if k = j then i else if k = i then j else k)"
  by (auto simp: list_swap_def nth_list_update)

lemma mset_list_swap:
  "i < length xs \<Longrightarrow> j < length xs \<Longrightarrow> mset (list_swap xs i j) = mset xs"
  by (simp add: list_swap_def mset_swap)

lemma strictly_sorted_unique:
  fixes f :: "'a \<Rightarrow> 'k::linorder"
  assumes "sorted_wrt (<) (map f xs)" "sorted (map f ys)" "mset ys = mset xs"
  shows "ys = xs"
  using assms
proof (induction xs arbitrary: ys)
  case Nil
  then show ?case by simp
next
  case (Cons x xs)
  from Cons.prems(3) have "ys \<noteq> []" by auto
  then obtain y ys' where ys: "ys = y # ys'" by (cases ys) auto
  have "x \<in> set ys" "y \<in> set (x # xs)"
    using Cons.prems(3) by (metis list.set_intros(1) set_mset_mset, metis ys list.set_intros(1) set_mset_mset)
  with Cons.prems(1,2) ys have "y = x" by (auto simp: order.strict_iff_not)
  with Cons ys show ?case by simp
qed

lemma card_Collect_insert_iff:
  "finite {x. P x} \<Longrightarrow> \<not> P a \<Longrightarrow> card {x. P x \<or> x = a} = Suc (card {x. P x})"
  by (simp add: Collect_disj_eq)

end
