(* ===== verification/GoString.thy ===== *)
theory GoString
  imports Prelude
begin

text \<open>
  Go strings as byte strings: lower-casing, search, trimming, splitting and hexadecimal
  formatting, as the modelled code uses them from \<open>strings\<close>, \<open>encoding/hex\<close> and \<open>fmt\<close>.
  Case mapping and white space are the ASCII cases of the library functions.
\<close>

section \<open>Characters\<close>

definition to_lower_char :: "char \<Rightarrow> char" where
  "to_lower_char c =
     (let n = of_char c :: nat in if 65 \<le> n \<and> n \<le> 90 then char_of (n + 32) else c)"

definition to_lower :: "string \<Rightarrow> string" where
  "to_lower s = map to_lower_char s"

text \<open>\<open>strings.EqualFold\<close> on ASCII text.\<close>

definition equal_fold :: "string \<Rightarrow> string \<Rightarrow> bool" where
  "equal_fold a b \<longleftrightarrow> to_lower a = to_lower b"

text \<open>\<open>unicode.IsSpace\<close> on ASCII: tab, newline, vertical tab, form feed, carriage return, blank.\<close>

definition is_space :: "char \<Rightarrow> bool" where
  "is_space c = (let n = of_char c :: nat in n = 32 \<or> (9 \<le> n \<and> n \<le> 13))"

definition is_digit :: "char \<Rightarrow> bool" where
  "is_digit c = (let n = of_char c :: nat in 48 \<le> n \<and> n \<le> 57)"

definition is_lower_alpha :: "char \<Rightarrow> bool" where
  "is_lower_alpha c = (let n = of_char c :: nat in 97 \<le> n \<and> n \<le> 122)"

definition is_upper_alpha :: "char \<Rightarrow> bool" where
  "is_upper_alpha c = (let n = of_char c :: nat in 65 \<le> n \<and> n \<le> 90)"

section \<open>Searching and trimming\<close>

fun has_prefix :: "string \<Rightarrow> string \<Rightarrow> bool" where
  "has_prefix s [] = True"
| "has_prefix [] (c # cs) = False"
| "has_prefix (d # ds) (c # cs) = (c = d \<and> has_prefix ds cs)"

definition has_suffix :: "string \<Rightarrow> string \<Rightarrow> bool" where
  "has_suffix s p = has_prefix (rev s) (rev p)"

fun contains :: "string \<Rightarrow> string \<Rightarrow> bool" where
  "contains [] p = has_prefix [] p"
| "contains (c # cs) p = (has_prefix (c # cs) p \<or> contains cs p)"

definition trim_space :: "string \<Rightarrow> string" where
  "trim_space s = rev (dropWhile is_space (rev (dropWhile is_space s)))"

text \<open>\<open>strings.Fields\<close>: the maximal runs of non-space characters.\<close>

fun fields_from :: "string \<Rightarrow> string \<Rightarrow> string list" where
  "fields_from w [] = (if w = [] then [] else [w])"
| "fields_from w (c # cs) =
     (if is_space c then (if w = [] then fields_from [] cs else w # fields_from [] cs)
      else fields_from (w @ [c]) cs)"

definition fields :: "string \<Rightarrow> string list" where
  "fields s = fields_from [] s"

text \<open>\<open>strings.Split\<close> at a one-character separator: never empty.\<close>

fun split_on :: "char \<Rightarrow> string \<Rightarrow> string list" where
  "split_on d [] = [[]]"
| "split_on d (c # cs) =
     (if c = d then [] # split_on d cs
      else (c # hd (split_on d cs)) # tl (split_on d cs))"

text \<open>\<open>filepath.Ext\<close>: the suffix from the last dot of the last path element.\<close>

definition path_ext :: "string \<Rightarrow> string" where
  "path_ext s =
     (let tl = takeWhile (\<lambda>c. c \<noteq> CHR ''.'' \<and> c \<noteq> CHR ''/'') (rev s);
          rest = dropWhile (\<lambda>c. c \<noteq> CHR ''.'' \<and> c \<noteq> CHR ''/'') (rev s)
      in case rest of [] \<Rightarrow> [] | c # _ \<Rightarrow> if c = CHR ''.'' then c # rev tl else [])"

text \<open>\<open>strings.ReplaceAll\<close> for a two-character pattern.\<close>

fun replace2 :: "char \<Rightarrow> char \<Rightarrow> string \<Rightarrow> string \<Rightarrow> string" where
  "replace2 a b r [] = []"
| "replace2 a b r [c] = [c]"
| "replace2 a b r (c # d # cs) =
     (if c = a \<and> d = b then r @ replace2 a b r cs else c # replace2 a b r (d # cs))"

section \<open>Numbers\<close>

definition digit_value :: "char \<Rightarrow> nat" where
  "digit_value c = of_char c - 48"

text \<open>\<open>strconv.Atoi\<close>: an optional sign, then at least one decimal digit, in the range of \<open>int\<close>.\<close>

definition atoi_digits :: "string \<Rightarrow> int option" where
  "atoi_digits s =
     (if s = [] \<or> \<not> list_all is_digit s then None
      else Some (int (foldl (\<lambda>n c. 10 * n + digit_value c) 0 s)))"

definition atoi :: "string \<Rightarrow> int option" where
  "atoi s =
     (let v = (case s of
          [] \<Rightarrow> None
        | c # cs \<Rightarrow> if c = CHR ''-'' then map_option uminus (atoi_digits cs)
                    else if c = CHR ''+'' then atoi_digits cs else atoi_digits s)
      in case v of None \<Rightarrow> None | Some n \<Rightarrow> if in_i64 n then Some n else None)"

text \<open>\<open>fmt\<close> of an integer in decimal.\<close>

fun digits_of :: "nat \<Rightarrow> string" where
  "digits_of n = (if n < 10 then [char_of (48 + n)] else digits_of (n div 10) @ [char_of (48 + n mod 10)])"

declare digits_of.simps [simp del]

definition show_int :: "int \<Rightarrow> string" where
  "show_int i = (if i < 0 then CHR ''-'' # digits_of (nat (- i)) else digits_of (nat i))"

definition hex_digit :: "nat \<Rightarrow> char" where
  "hex_digit n = ''0123456789abcdef'' ! n"

definition hex_byte :: "8 word \<Rightarrow> string" where
  "hex_byte b = [hex_digit (unat b div 16), hex_digit (unat b mod 16)]"

definition hex_encode :: "8 word list \<Rightarrow> string" where
  "hex_encode bs = concat (map hex_byte bs)"

section \<open>Facts\<close>

lemma length_hex_encode [simp]: "length (hex_encode bs) = 2 * length bs"
  by (induction bs) (simp_all add: hex_encode_def hex_byte_def)

lemma hex_encode_Nil [simp]: "hex_encode [] = []"
  by (simp add: hex_encode_def)

lemma hex_encode_Cons [simp]:
  "hex_encode (b # bs) = hex_digit (unat b div 16) # hex_digit (unat b mod 16) # hex_encode bs"
  by (simp add: hex_encode_def hex_byte_def)

lemma split_on_nonempty [simp]: "split_on d s \<noteq> []"
  by (cases s) simp_all

lemma split_on_append: "d \<notin> set xs \<Longrightarrow> split_on d (xs @ d # ys) = xs # split_on d ys"
  by (induction xs) auto

lemma split_on_join: "split_on d (xs @ d # ys) = split_on d xs @ split_on d ys"
  by (induction xs) auto

lemma split_on_parts: "w \<in> set (split_on d s) \<Longrightarrow> d \<notin> set w"
proof (induction s arbitrary: w)
  case (Cons a s)
  have "hd (split_on d s) \<in> set (split_on d s)" by simp
  moreover have "x \<in> set (split_on d s)" if "x \<in> set (tl (split_on d s))" for x
    using that list.set_sel(2) [OF split_on_nonempty] by metis
  ultimately show ?case using Cons by (auto split: if_splits)
qed simp

lemma split_on_single: "d \<notin> set xs \<Longrightarrow> split_on d xs = [xs]"
  by (induction xs) auto

lemma to_lower_char_idem [simp]: "to_lower_char (to_lower_char c) = to_lower_char c"
proof -
  let ?n = "of_char c :: nat"
  have "of_char (char_of (?n + 32) :: char) = ?n + 32" if "?n \<le> 90"
    using that by (simp add: of_char_of)
  then show ?thesis by (auto simp: to_lower_char_def Let_def)
qed

lemma to_lower_idem [simp]: "to_lower (to_lower s) = to_lower s"
  by (simp add: to_lower_def)

lemma equal_fold_refl [simp]: "equal_fold a a"
  by (simp add: equal_fold_def)

lemma equal_fold_sym: "equal_fold a b = equal_fold b a"
  by (auto simp: equal_fold_def)

lemma equal_fold_to_lower [simp]: "equal_fold (to_lower a) b = equal_fold a b"
  by (simp add: equal_fold_def)

lemma has_prefix_iff: "has_prefix s p \<longleftrightarrow> (\<exists>t. s = p @ t)"
  by (induction s p rule: has_prefix.induct) auto

lemma has_suffix_iff: "has_suffix s p \<longleftrightarrow> (\<exists>t. s = t @ p)"
  unfolding has_suffix_def has_prefix_iff by (metis rev_append rev_rev_ident)

lemma fields_from_nonempty: "w \<in> set (fields_from v s) \<Longrightarrow> w \<noteq> []"
  by (induction v s rule: fields_from.induct) (auto split: if_splits)

lemma fields_nonempty: "w \<in> set (fields s) \<Longrightarrow> w \<noteq> []"
  unfolding fields_def by (rule fields_from_nonempty)

section \<open>Printing and reading numbers\<close>

lemma digits_of_value: "foldl (\<lambda>n c. 10 * n + digit_value c) 0 (digits_of n) = n"
proof (induction n rule: digits_of.induct)
  case (1 n)
  have d: "digit_value (char_of (48 + k)) = k" if "k < 10" for k :: nat
    using that by (simp add: digit_value_def of_char_of)
  show ?case
  proof (cases "n < 10")
    case True
    then show ?thesis by (simp add: digits_of.simps [of n] d)
  next
    case False
    with 1 show ?thesis by (simp add: digits_of.simps [of n] d)
  qed
qed

lemma digits_of_digits: "c \<in> set (digits_of n) \<Longrightarrow> is_digit c"
proof (induction n rule: digits_of.induct)
  case (1 n)
  have "is_digit (char_of (48 + k))" if "k < 10" for k :: nat
    using that by (simp add: is_digit_def Let_def of_char_of)
  with 1 show ?case by (auto simp: digits_of.simps [of n] split: if_splits)
qed

lemma digits_of_nonempty [simp]: "digits_of n \<noteq> []"
  by (simp add: digits_of.simps [of n])

lemma digit_no_sign: "is_digit c \<Longrightarrow> c \<noteq> CHR ''-'' \<and> c \<noteq> CHR ''+''"
  by (auto simp: is_digit_def)

lemma atoi_digits_of: "atoi_digits (digits_of n) = Some (int n)"
  using digits_of_digits by (auto simp: atoi_digits_def digits_of_value list_all_iff)

lemma atoi_show_int: "in_i64 n \<Longrightarrow> atoi (show_int n) = Some n"
proof -
  assume n: "in_i64 n"
  obtain c cs where d: "digits_of (nat n) = c # cs" by (cases "digits_of (nat n)") auto
  have "c \<noteq> CHR ''-'' \<and> c \<noteq> CHR ''+''" using digits_of_digits [of c "nat n"] d digit_no_sign by simp
  then show ?thesis
    using n atoi_digits_of [of "nat n"] atoi_digits_of [of "nat (- n)"] d
    by (auto simp: atoi_def show_int_def)
qed

end
