(* ===== verification/GoFloat.thy ===== *)
theory GoFloat
  imports Complex_Main Prelude "HOL-Library.Log_Nat"
begin

text \<open>
  Go's \<open>float64\<close> arithmetic as exact rational arithmetic followed by rounding to 53
  significant bits, ties to even. Exponent overflow and subnormal numbers are left out: every
  value the modelled code computes is a rate, a time in seconds or a ratio of two byte counts.
\<close>

definition round_half_even :: "rat \<Rightarrow> int" where
  "round_half_even q =
     (let f = \<lfloor>q\<rfloor>; d = q - of_int f in
      if d < 1 / 2 then f else if d > 1 / 2 then f + 1 else if even f then f else f + 1)"

text \<open>The \<open>k\<close> with \<open>2 ^ k \<le> a < 2 ^ (k + 1)\<close>.\<close>

definition binade :: "rat \<Rightarrow> int" where
  "binade a =
     (let k = bitlen (fst (quotient_of a)) - bitlen (snd (quotient_of a)) in
      if power_int 2 k \<le> a then k else k - 1)"

definition round_pos :: "rat \<Rightarrow> rat" where
  "round_pos a =
     (let u = power_int 2 (binade a - 52) in of_int (round_half_even (a / u)) * u)"

definition f64 :: "rat \<Rightarrow> rat" where
  "f64 x = (if x = 0 then 0 else if 0 < x then round_pos x else - round_pos (- x))"

text \<open>Go's conversion \<open>int64(x)\<close> drops the fraction.\<close>

definition f64_to_int :: "rat \<Rightarrow> int" where
  "f64_to_int x = (if 0 \<le> x then \<lfloor>x\<rfloor> else \<lceil>x\<rceil>)"

text \<open>\<open>time.Duration.Seconds\<close>: whole seconds plus the rest divided by \<open>1e9\<close>, in floating point.\<close>

definition duration_seconds :: "duration \<Rightarrow> rat" where
  "duration_seconds d =
     f64 (f64 (of_int (go_div d 1000000000)) + f64 (f64 (of_int (go_rem d 1000000000)) / 1000000000))"

section \<open>Rounding is monotone and keeps small integers\<close>

lemma round_half_even_bounds: "\<lfloor>q\<rfloor> \<le> round_half_even q" "round_half_even q \<le> \<lfloor>q\<rfloor> + 1"
  by (auto simp: round_half_even_def Let_def)

lemma round_half_even_mono: "q \<le> r \<Longrightarrow> round_half_even q \<le> round_half_even r"
proof -
  assume le: "q \<le> r"
  then have fl: "\<lfloor>q\<rfloor> \<le> \<lfloor>r\<rfloor>" by (rule floor_mono)
  show ?thesis
  proof (cases "\<lfloor>q\<rfloor> = \<lfloor>r\<rfloor>")
    case True
    with le show ?thesis by (auto simp: round_half_even_def Let_def)
  next
    case False
    with fl have "\<lfloor>q\<rfloor> + 1 \<le> \<lfloor>r\<rfloor>" by simp
    with round_half_even_bounds [of q] round_half_even_bounds [of r] show ?thesis by linarith
  qed
qed

lemma round_half_even_of_int [simp]: "round_half_even (of_int n) = n"
  by (simp add: round_half_even_def)

lemma binade_bounds:
  assumes "0 < a"
  shows "power_int 2 (binade a) \<le> a \<and> a < power_int 2 (binade a + 1)"
proof -
  obtain p q where pq: "quotient_of a = (p, q)" by (cases "quotient_of a")
  have q: "0 < q" using quotient_of_denom_pos [OF pq] .
  have a: "a = of_int p / of_int q" using quotient_of_div [OF pq] .
  have p: "0 < p" using assms q unfolding a by (simp add: zero_less_divide_iff)
  have pw: "(2::rat) ^ nat n = power_int 2 n" if "0 \<le> n" for n
    using that by (simp add: power_int_def)
  have bp: "0 < bitlen p" "0 < bitlen q" using p q by (simp_all add: bitlen_def floorlog_eq_zero_iff zero_less_iff_neq_zero)
  have P: "power_int 2 (bitlen p - 1) \<le> (of_int p :: rat)" "(of_int p :: rat) < power_int 2 (bitlen p)"
    using bitlen_bounds [OF p] bp
    by (metis (mono_tags) int_one_le_iff_zero_less le_diff_eq of_int_le_iff of_int_numeral of_int_power pw add_0,
        metis (mono_tags) of_int_less_iff of_int_numeral of_int_power pw less_imp_le)
  have Q: "power_int 2 (bitlen q - 1) \<le> (of_int q :: rat)" "(of_int q :: rat) < power_int 2 (bitlen q)"
    using bitlen_bounds [OF q] bp
    by (metis (mono_tags) int_one_le_iff_zero_less le_diff_eq of_int_le_iff of_int_numeral of_int_power pw add_0,
        metis (mono_tags) of_int_less_iff of_int_numeral of_int_power pw less_imp_le)
  let ?k = "bitlen p - bitlen q"
  have up: "a < power_int 2 (?k + 1)"
  proof -
    have "a < power_int 2 (bitlen p) / of_int q" unfolding a using P q by (simp add: divide_strict_right_mono)
    also have "\<dots> \<le> power_int 2 (bitlen p) / power_int 2 (bitlen q - 1)"
      using Q q by (intro divide_left_mono) simp_all
    also have "\<dots> = power_int 2 (?k + 1)" by (simp flip: power_int_diff add: algebra_simps)
    finally show ?thesis .
  qed
  have lo: "power_int 2 (?k - 1) \<le> a"
  proof -
    have "power_int 2 (?k - 1) = power_int 2 (bitlen p - 1) / (power_int 2 (bitlen q) :: rat)"
      by (simp flip: power_int_diff add: algebra_simps)
    also have "\<dots> \<le> of_int p / power_int 2 (bitlen q)" using P by (simp add: divide_right_mono)
    also have "\<dots> \<le> a" unfolding a using Q p q by (intro divide_left_mono) simp_all
    finally show ?thesis .
  qed
  show ?thesis using up lo by (auto simp: binade_def pq Let_def)
qed

lemma binade_mono:
  assumes "0 < a" "a \<le> b"
  shows "binade a \<le> binade b"
proof (rule ccontr)
  assume "\<not> ?thesis"
  then have "binade b + 1 \<le> binade a" by simp
  then have "power_int 2 (binade b + 1) \<le> (power_int 2 (binade a) :: rat)"
    by (intro power_int_increasing) simp_all
  with binade_bounds [of a] binade_bounds [of b] assms show False by simp
qed

lemma round_pos_binade:
  assumes "0 < a"
  shows "power_int 2 (binade a) \<le> round_pos a \<and> round_pos a \<le> power_int 2 (binade a + 1)"
proof -
  define u where "u = (power_int 2 (binade a - 52) :: rat)"
  have u: "0 < u" by (simp add: u_def)
  have e: "power_int 2 (binade a) = of_int (2 ^ 52) * u" "power_int 2 (binade a + 1) = of_int (2 ^ 53) * u"
    unfolding u_def by (simp_all add: power_int_diff power_int_add)
  have "of_int (2 ^ 52) \<le> a / u" "a / u \<le> of_int (2 ^ 53)"
    using binade_bounds [OF assms] u unfolding e by (simp_all add: pos_le_divide_eq pos_divide_le_eq)
  then have "2 ^ 52 \<le> round_half_even (a / u)" "round_half_even (a / u) \<le> 2 ^ 53"
    using round_half_even_mono round_half_even_of_int by metis+
  then have "of_int (2 ^ 52) * u \<le> of_int (round_half_even (a / u)) * u"
    "of_int (round_half_even (a / u)) * u \<le> of_int (2 ^ 53) * u"
    using u by (intro mult_right_mono; simp only: of_int_le_iff; simp)+
  then show ?thesis unfolding e round_pos_def Let_def u_def [symmetric] by simp
qed

lemma round_pos_mono:
  assumes "0 < a" "a \<le> b"
  shows "round_pos a \<le> round_pos b"
proof (cases "binade a = binade b")
  case True
  define u where "u = (power_int 2 (binade a - 52) :: rat)"
  have u: "0 < u" by (simp add: u_def)
  then have "a / u \<le> b / u" using assms by (simp add: divide_right_mono)
  then have "of_int (round_half_even (a / u)) * u \<le> of_int (round_half_even (b / u)) * u"
    using u by (intro mult_right_mono) (simp_all add: round_half_even_mono)
  then show ?thesis by (simp add: round_pos_def Let_def True u_def)
next
  case False
  with binade_mono [OF assms] have "binade a + 1 \<le> binade b" by simp
  then have "power_int 2 (binade a + 1) \<le> (power_int 2 (binade b) :: rat)"
    by (intro power_int_increasing) simp_all
  with round_pos_binade [of a] round_pos_binade [of b] assms show ?thesis by simp
qed

lemma round_pos_pos: "0 < a \<Longrightarrow> 0 < round_pos a"
  using round_pos_binade [of a] by (meson less_le_trans zero_less_numeral zero_less_power_int)

lemma f64_mono: "x \<le> y \<Longrightarrow> f64 x \<le> f64 y"
  using round_pos_mono [of x y] round_pos_mono [of "- y" "- x"] round_pos_pos [of y] round_pos_pos [of "- x"]
  by (auto simp: f64_def)

lemma f64_0 [simp]: "f64 0 = 0"
  by (simp add: f64_def)

lemma f64_nonneg: "0 \<le> x \<Longrightarrow> 0 \<le> f64 x"
  using f64_mono [of 0 x] by simp

lemma f64_pos: "0 < x \<Longrightarrow> 0 < f64 x"
  by (simp add: f64_def round_pos_pos)

lemma f64_uminus: "f64 (- x) = - f64 x"
  by (simp add: f64_def)

lemma f64_of_int_pos:
  assumes "0 < n" "n < 2 ^ 53"
  shows "f64 (of_int n) = of_int n"
proof -
  let ?k = "binade (of_int n)"
  have b: "power_int 2 ?k \<le> (of_int n :: rat)" using binade_bounds [of "of_int n"] assms by simp
  have "?k < 53"
  proof (rule ccontr)
    assume "\<not> ?thesis"
    then have "power_int 2 53 \<le> (power_int 2 ?k :: rat)" by (intro power_int_increasing) simp_all
    with b have "(of_int (2 ^ 53) :: rat) \<le> of_int n" by (simp add: power_int_def)
    then show False using assms by (simp only: of_int_le_iff)
  qed
  define e where "e = nat (52 - ?k)"
  with \<open>?k < 53\<close> have "?k - 52 = - int e" by simp
  then have d: "power_int 2 (?k - 52) = 1 / (2 ^ e :: rat)"
    by (simp only: power_int_minus power_int_of_nat inverse_eq_divide)
  define m where "m = n * 2 ^ e"
  have "of_int n / power_int 2 (?k - 52) = (of_int m :: rat)" by (simp add: d m_def)
  then have "round_pos (of_int n) = of_int m * power_int 2 (?k - 52)"
    by (simp add: round_pos_def Let_def)
  also have "\<dots> = of_int n" by (simp add: d m_def)
  finally show ?thesis using assms by (simp add: f64_def)
qed

lemma f64_of_int: "\<bar>n\<bar> < 2 ^ 53 \<Longrightarrow> f64 (of_int n) = of_int n"
  using f64_of_int_pos [of n] f64_of_int_pos [of "- n"] f64_uminus [of "of_int n"]
  by (cases "n = 0"; cases "0 < n") auto

lemma f64_le_of_int: "\<bar>n\<bar> < 2 ^ 53 \<Longrightarrow> x \<le> of_int n \<Longrightarrow> f64 x \<le> of_int n"
  using f64_mono [of x "of_int n"] f64_of_int [of n] by simp

lemma f64_ge_of_int: "\<bar>n\<bar> < 2 ^ 53 \<Longrightarrow> of_int n \<le> x \<Longrightarrow> of_int n \<le> f64 x"
  using f64_mono [of "of_int n" x] f64_of_int [of n] by simp

lemma f64_to_int_nonneg: "0 \<le> x \<Longrightarrow> 0 \<le> f64_to_int x"
  by (simp add: f64_to_int_def)

lemma duration_seconds_nonneg: "0 \<le> d \<Longrightarrow> 0 \<le> duration_seconds d"
  by (auto simp: duration_seconds_def go_int intro!: f64_nonneg add_nonneg_nonneg divide_nonneg_pos)


section \<open>Relative error\<close>

text \<open>Rounding moves a value by at most half a unit in the last place.\<close>

lemma round_half_even_le: "of_int (round_half_even q) \<le> q + 1 / 2"
proof -
  have "of_int \<lfloor>q\<rfloor> \<le> q" by (rule of_int_floor_le)
  moreover have "round_half_even q = \<lfloor>q\<rfloor> \<or> (round_half_even q = \<lfloor>q\<rfloor> + 1 \<and> q - of_int \<lfloor>q\<rfloor> \<ge> 1 / 2)"
    unfolding round_half_even_def Let_def by (simp split: if_split)
  ultimately show ?thesis by (elim disjE conjE; simp only: of_int_add of_int_1; linarith)
qed

lemma f64_upper:
  assumes "0 \<le> x"
  shows "f64 x \<le> x * (1 + 1 / 2 ^ 53)"
proof (cases "x = 0")
  case False
  with assms have x: "0 < x" by simp
  define u where "u = (power_int 2 (binade x - 52) :: rat)"
  have u: "0 < u" by (simp add: u_def)
  have "u * 2 ^ 52 = power_int 2 (binade x)" by (simp add: u_def power_int_diff)
  then have ux: "u * 2 ^ 52 \<le> x" using binade_bounds [OF x] by simp
  have "f64 x = of_int (round_half_even (x / u)) * u" using x by (simp add: f64_def round_pos_def u_def Let_def)
  also have "\<dots> \<le> (x / u + 1 / 2) * u" using u round_half_even_le by (intro mult_right_mono) simp_all
  also have "\<dots> = x + u / 2" using u by (simp add: distrib_right)
  also have "\<dots> \<le> x + x / 2 ^ 53" using ux by simp
  finally show ?thesis by (simp add: distrib_left)
qed simp

lemma f64_upper_trans: "0 \<le> x \<Longrightarrow> x \<le> y \<Longrightarrow> f64 x \<le> y * (1 + 1 / 2 ^ 53)"
  by (rule order_trans [OF f64_upper]) (simp_all add: mult_right_mono)

lemma duration_seconds_upper:
  assumes "0 \<le> d"
  shows "duration_seconds d \<le> of_int d / 1000000000 * (1 + 1 / 2 ^ 53) ^ 3"
proof -
  let ?e = "1 + 1 / 2 ^ 53 :: rat"
  let ?q = "of_int (d div 1000000000) :: rat" and ?r = "of_int (d mod 1000000000) :: rat"
  have q: "0 \<le> ?q" "0 \<le> ?r" using assms by (simp_all add: pos_imp_zdiv_nonneg_iff)
  have sum: "?q + ?r / 1000000000 = of_int d / 1000000000"
  proof -
    have "of_int d = ?q * 1000000000 + ?r"
      by (metis (no_types) div_mult_mod_eq of_int_add of_int_mult of_int_numeral)
    then show ?thesis by (simp add: field_simps)
  qed
  have a: "f64 ?q \<le> ?q * ?e ^ 2"
    using f64_upper [OF q(1)] mult_left_mono [of ?e "?e ^ 2" ?q] q(1) by (simp add: power2_eq_square)
  have "f64 ?r / 1000000000 \<le> ?r / 1000000000 * ?e" using f64_upper [OF q(2)] by simp
  moreover have "0 \<le> f64 ?r / 1000000000" using f64_nonneg [OF q(2)] by simp
  ultimately have b: "f64 (f64 ?r / 1000000000) \<le> ?r / 1000000000 * ?e ^ 2"
    using f64_upper_trans [of "f64 ?r / 1000000000" "?r / 1000000000 * ?e"] by (simp add: power2_eq_square)
  have "f64 ?q + f64 (f64 ?r / 1000000000) \<le> (?q + ?r / 1000000000) * ?e ^ 2"
    using a b by (simp only: distrib_right)
  moreover have "0 \<le> f64 ?q + f64 (f64 ?r / 1000000000)"
    using q f64_nonneg [of ?q] f64_nonneg [of "f64 ?r / 1000000000"] f64_nonneg [of ?r] by simp
  ultimately have "f64 (f64 ?q + f64 (f64 ?r / 1000000000)) \<le> (?q + ?r / 1000000000) * ?e ^ 2 * ?e"
    by (intro f64_upper_trans)
  then show ?thesis
    using assms by (simp add: duration_seconds_def go_int sum power3_eq_cube power2_eq_square mult.assoc)
qed

lemma duration_seconds_ge: "0 \<le> k \<Longrightarrow> k < 2 ^ 53 \<Longrightarrow> k * 1000000000 \<le> d \<Longrightarrow> d < 2 ^ 62 \<Longrightarrow> of_int k \<le> duration_seconds d"
proof -
  assume k: "0 \<le> k" "k < 2 ^ 53" "k * 1000000000 \<le> d" "d < 2 ^ 62"
  then have d: "0 \<le> d" by simp
  have q: "k \<le> d div 1000000000" using k by (simp add: zdiv_mono1 [of "k * 1000000000", simplified])
  have "d div 1000000000 < 2 ^ 53"
  proof -
    have "d div 1000000000 \<le> 2 ^ 62 div 1000000000" using k(4) by (intro zdiv_mono1) simp_all
    then show ?thesis by simp
  qed
  moreover have "0 \<le> d div 1000000000" using d by (simp add: pos_imp_zdiv_nonneg_iff)
  ultimately have "f64 (of_int (d div 1000000000)) = of_int (d div 1000000000)" by (intro f64_of_int) simp
  moreover have "0 \<le> f64 (f64 (of_int (d mod 1000000000)) / 1000000000)"
    by (intro f64_nonneg divide_nonneg_pos) simp_all
  ultimately have "of_int k \<le> f64 (of_int (d div 1000000000)) + f64 (f64 (of_int (d mod 1000000000)) / 1000000000)"
    using q by (metis add_increasing2 of_int_le_iff)
  from f64_ge_of_int [OF _ this] k show ?thesis using d by (simp add: duration_seconds_def go_int)
qed

end
