(* ===== verification/TaskModel.thy ===== *)
theory TaskModel
  imports GoString GoFloat
begin

text \<open>
  The task record of \<open>internal/task/model.go\<close>: its status, its identifier, and the methods that
  read and write it. Every method holds the task's own lock for its whole body, so each is one
  atomic function on the record; \<open>time.Now()\<close> is the argument \<open>now\<close>.
\<close>

unbundle bit_operations_syntax

section \<open>Data\<close>

datatype task_status =
    StatusPending | StatusDownloading | StatusPaused | StatusDone | StatusFailed | StatusCancelled

text \<open>The wire names of the constants.\<close>

fun status_name :: "task_status \<Rightarrow> string" where
  "status_name StatusPending = ''pending''"
| "status_name StatusDownloading = ''downloading''"
| "status_name StatusPaused = ''paused''"
| "status_name StatusDone = ''done''"
| "status_name StatusFailed = ''failed''"
| "status_name StatusCancelled = ''cancelled''"

record chunk_info =
  ci_index :: int
  ci_start :: int
  ci_end :: int
  ci_downloaded :: int
  ci_status :: task_status

text \<open>
  \<open>t_ctx\<close> and \<open>t_cancel\<close> are the private context and cancel function, as opaque handles; the
  mutex has no counterpart.
\<close>

record task =
  t_id :: string
  t_url :: string
  t_output :: string
  t_status :: task_status
  t_total :: int
  t_downloaded :: int
  t_speed :: int
  t_created :: instant
  t_updated :: instant
  t_target :: string
  t_protocol :: string
  t_metadata :: "string \<rightharpoonup> string"
  t_chunks :: "chunk_info list"
  t_error :: string
  t_priority :: int
  t_cktype :: string
  t_ckvalue :: string
  t_ctx :: "nat option"
  t_cancel :: "nat option"

section \<open>Identifiers\<close>

text \<open>
  \<open>crypto\<close> is what \<open>crypto/rand.Read\<close> delivered (\<open>None\<close> for its error), \<open>ts\<close> the nanosecond
  clock and \<open>rnd i\<close> the value of the fallback generator for byte \<open>i\<close>.
\<close>

definition id_bytes :: "8 word list option \<Rightarrow> int \<Rightarrow> (nat \<Rightarrow> nat) \<Rightarrow> 8 word list" where
  "id_bytes crypto ts rnd =
     (case crypto of
        Some b \<Rightarrow> b
      | None \<Rightarrow> map (\<lambda>i. if i < 8 then word_of_int (ts div 2 ^ (8 * i)) else word_of_nat (rnd i)) [0..<16])"

definition stamp_version :: "8 word list \<Rightarrow> 8 word list" where
  "stamp_version b = b[6 := (b ! 6 AND 0x0f) OR 0x40, 8 := (b ! 8 AND 0x3f) OR 0x80]"

definition format_id :: "8 word list \<Rightarrow> string" where
  "format_id b =
     hex_encode (take 4 b) @ ''-'' @ hex_encode (take 2 (drop 4 b)) @ ''-'' @
     hex_encode (take 2 (drop 6 b)) @ ''-'' @ hex_encode (take 2 (drop 8 b)) @ ''-'' @
     hex_encode (take 6 (drop 10 b))"

definition generate_id :: "8 word list option \<Rightarrow> int \<Rightarrow> (nat \<Rightarrow> nat) \<Rightarrow> string" where
  "generate_id crypto ts rnd = format_id (stamp_version (id_bytes crypto ts rnd))"

section \<open>Methods\<close>

definition new_task :: "string \<Rightarrow> instant \<Rightarrow> string \<Rightarrow> string \<Rightarrow> task" where
  "new_task fresh now url output =
     \<lparr>t_id = fresh, t_url = url, t_output = output, t_status = StatusPending,
      t_total = 0, t_downloaded = 0, t_speed = 0, t_created = now, t_updated = now,
      t_target = '''', t_protocol = '''', t_metadata = Map.empty, t_chunks = [],
      t_error = '''', t_priority = 0, t_cktype = '''', t_ckvalue = '''',
      t_ctx = None, t_cancel = None\<rparr>"

definition progress_percent :: "task \<Rightarrow> rat" where
  "progress_percent t =
     (if t_total t = 0 then 0
      else f64 (f64 (f64 (of_int (t_downloaded t)) / f64 (of_int (t_total t))) * 100))"

definition is_completed :: "task \<Rightarrow> bool" where
  "is_completed t \<longleftrightarrow>
     t_status t = StatusDone \<or> t_status t = StatusFailed \<or> t_status t = StatusCancelled"

definition is_active :: "task \<Rightarrow> bool" where
  "is_active t \<longleftrightarrow> t_status t = StatusPending \<or> t_status t = StatusDownloading"

definition set_status :: "instant \<Rightarrow> task_status \<Rightarrow> task \<Rightarrow> task" where
  "set_status now st t = t\<lparr>t_status := st, t_updated := now\<rparr>"

definition set_target_node :: "instant \<Rightarrow> string \<Rightarrow> task \<Rightarrow> task" where
  "set_target_node now node t = t\<lparr>t_target := node, t_updated := now\<rparr>"

definition get_target_node :: "task \<Rightarrow> string" where
  "get_target_node t = t_target t"

definition set_error :: "instant \<Rightarrow> string \<Rightarrow> task \<Rightarrow> task" where
  "set_error now err t = t\<lparr>t_error := err, t_status := StatusFailed, t_updated := now\<rparr>"

definition set_priority :: "instant \<Rightarrow> int \<Rightarrow> task \<Rightarrow> task" where
  "set_priority now p t = t\<lparr>t_priority := p, t_updated := now\<rparr>"

definition set_metadata :: "instant \<Rightarrow> (string \<rightharpoonup> string) \<Rightarrow> task \<Rightarrow> task" where
  "set_metadata now md t = t\<lparr>t_metadata := md, t_updated := now\<rparr>"

definition update_progress :: "instant \<Rightarrow> int \<Rightarrow> int \<Rightarrow> int \<Rightarrow> task \<Rightarrow> task" where
  "update_progress now dl tot speed t =
     (let d = (if dl < 0 then 0 else dl);
          n = (if tot < 0 then 0 else tot)
      in t\<lparr>t_downloaded := d, t_total := n, t_speed := speed, t_updated := now\<rparr>)"

definition add_chunk :: "int \<Rightarrow> int \<Rightarrow> int \<Rightarrow> task \<Rightarrow> task" where
  "add_chunk i s e t =
     t\<lparr>t_chunks := t_chunks t @
        [\<lparr>ci_index = i, ci_start = s, ci_end = e, ci_downloaded = 0, ci_status = StatusPending\<rparr>]\<rparr>"

definition get_status :: "task \<Rightarrow> task_status" where
  "get_status t = t_status t"

text \<open>The copy leaves the private context and cancel function behind.\<close>

definition get_safe :: "task \<Rightarrow> task" where
  "get_safe t =
     \<lparr>t_id = t_id t, t_url = t_url t, t_output = t_output t, t_status = t_status t,
      t_total = t_total t, t_downloaded = t_downloaded t, t_speed = t_speed t,
      t_created = t_created t, t_updated = t_updated t, t_target = t_target t,
      t_protocol = t_protocol t, t_metadata = t_metadata t, t_chunks = t_chunks t,
      t_error = t_error t, t_priority = t_priority t, t_cktype = t_cktype t,
      t_ckvalue = t_ckvalue t, t_ctx = None, t_cancel = None\<rparr>"

definition set_context :: "nat option \<Rightarrow> task \<Rightarrow> task" where
  "set_context c t = t\<lparr>t_ctx := c\<rparr>"

definition get_context :: "task \<Rightarrow> nat option" where
  "get_context t = t_ctx t"

definition set_cancel :: "nat option \<Rightarrow> task \<Rightarrow> task" where
  "set_cancel c t = t\<lparr>t_cancel := c\<rparr>"

text \<open>\<open>Cancel\<close> answers the task and the cancel function it called, if any.\<close>

definition cancel_task :: "task \<Rightarrow> task \<times> nat option" where
  "cancel_task t =
     (if t_status t = StatusDone \<or> t_status t = StatusFailed \<or> t_status t = StatusCancelled
      then (t, None)
      else (t\<lparr>t_status := StatusCancelled\<rparr>, t_cancel t))"

section \<open>Properties of the methods\<close>

lemmas task_write_defs =
  set_status_def set_target_node_def set_error_def set_priority_def set_metadata_def
  update_progress_def add_chunk_def set_context_def set_cancel_def Let_def

lemma t_id_writes [simp]:
  "t_id (set_status now st t) = t_id t"
  "t_id (set_target_node now node t) = t_id t"
  "t_id (set_error now err t) = t_id t"
  "t_id (set_priority now p t) = t_id t"
  "t_id (set_metadata now md t) = t_id t"
  "t_id (update_progress now d n sp t) = t_id t"
  "t_id (add_chunk i s e t) = t_id t"
  "t_id (fst (cancel_task t)) = t_id t"
  by (simp_all add: task_write_defs cancel_task_def)

lemma t_status_writes [simp]:
  "t_status (set_status now st t) = st"
  "t_status (set_error now err t) = StatusFailed"
  "t_status (set_target_node now node t) = t_status t"
  "t_status (update_progress now d n sp t) = t_status t"
  by (simp_all add: task_write_defs)

lemma cancel_task_completed: "is_completed (fst (cancel_task t))"
  by (simp add: cancel_task_def is_completed_def)

lemma cancel_task_final: "is_completed t \<Longrightarrow> cancel_task t = (t, None)"
  by (auto simp: cancel_task_def is_completed_def)

lemma get_safe_idem [simp]: "get_safe (get_safe t) = get_safe t"
  by (simp add: get_safe_def)

text \<open>Shape of an identifier: version nibble 4, variant bits 10.\<close>

lemma version_nibble: "unat ((w AND 0x0f) OR 0x40 :: 8 word) div 16 = 4"
proof -
  have "drop_bit 4 ((w AND 0x0f) OR 0x40 :: 8 word) = 4"
  proof (rule bit_word_eqI)
    fix n assume "n < LENGTH(8)"
    then have "n \<in> {0, 1, 2, 3, 4, 5, 6, 7}" by auto
    then show "bit (drop_bit 4 ((w AND 0x0f) OR 0x40 :: 8 word)) n = bit (4 :: 8 word) n"
      by (auto simp: bit_simps)
  qed
  then have "unat (drop_bit 4 ((w AND 0x0f) OR 0x40 :: 8 word)) = 4" by simp
  then show ?thesis by (simp add: drop_bit_eq_div unat_div)
qed

lemma variant_bits: "unat ((w AND 0x3f) OR 0x80 :: 8 word) div 64 = 2"
proof -
  have "drop_bit 6 ((w AND 0x3f) OR 0x80 :: 8 word) = 2"
  proof (rule bit_word_eqI)
    fix n assume "n < LENGTH(8)"
    then have "n \<in> {0, 1, 2, 3, 4, 5, 6, 7}" by auto
    then show "bit (drop_bit 6 ((w AND 0x3f) OR 0x80 :: 8 word)) n = bit (2 :: 8 word) n"
      by (auto simp: bit_simps)
  qed
  then have "unat (drop_bit 6 ((w AND 0x3f) OR 0x80 :: 8 word)) = 2" by simp
  then show ?thesis by (simp add: drop_bit_eq_div unat_div)
qed

lemma variant_nibble: "unat ((w AND 0x3f) OR 0x80 :: 8 word) div 16 \<in> {8, 9, 10, 11}"
proof -
  have "unat ((w AND 0x3f) OR 0x80 :: 8 word) div 16 div 4 = 2"
    using variant_bits [of w] by (simp add: div_mult2_eq [symmetric])
  then show ?thesis by auto
qed

lemma length_id_bytes:
  "(\<And>b. crypto = Some b \<Longrightarrow> length b = 16) \<Longrightarrow> length (id_bytes crypto ts rnd) = 16"
  by (cases crypto) (simp_all add: id_bytes_def)

lemma list16:
  assumes "length b = 16"
  obtains a0 a1 a2 a3 a4 a5 a6 a7 a8 a9 a10 a11 a12 a13 a14 a15
  where "b = [a0, a1, a2, a3, a4, a5, a6, a7, a8, a9, a10, a11, a12, a13, a14, a15]"
  using assms by (auto simp: eval_nat_numeral length_Suc_conv)

text \<open>
  whatever bytes the entropy source delivers, and also on its failure path, the
  identifier is a 36-character UUID with dashes at the fixed places, version digit 4 and a
  variant digit among 8, 9, a, b.
\<close>

theorem generate_id_is_uuid4:
  assumes "\<And>b. crypto = Some b \<Longrightarrow> length b = 16"
  shows "length (generate_id crypto ts rnd) = 36 \<and>
    (\<forall>i \<in> {8, 13, 18, 23}. generate_id crypto ts rnd ! i = CHR ''-'') \<and>
    generate_id crypto ts rnd ! 14 = CHR ''4'' \<and>
    generate_id crypto ts rnd ! 19 \<in> set ''89ab''"
proof -
  obtain a0 a1 a2 a3 a4 a5 a6 a7 a8 a9 a10 a11 a12 a13 a14 a15
    where b: "id_bytes crypto ts rnd =
      [a0, a1, a2, a3, a4, a5, a6, a7, a8, a9, a10, a11, a12, a13, a14, a15]"
    by (rule list16 [of "id_bytes crypto ts rnd"]) (use length_id_bytes assms in blast)
  have v: "hex_digit (unat ((a8 AND 0x3f) OR 0x80 :: 8 word) div 16) \<in> set ''89ab''"
    using variant_nibble [of a8] by (auto simp: hex_digit_def)
  have n: "hex_digit (unat ((a6 AND 0x0f) OR 0x40 :: 8 word) div 16) = CHR ''4''"
    by (simp add: version_nibble hex_digit_def)
  show ?thesis
    using v n by (simp add: generate_id_def b stamp_version_def format_id_def)
qed

theorem generate_id_is_uuid4_witness:
  "length (generate_id None 0 (\<lambda>_. 255)) = 36 \<and>
   generate_id (Some (replicate 16 0)) 0 (\<lambda>_. 0) ! 14 = CHR ''4''"
  using generate_id_is_uuid4 [of None 0 "\<lambda>_. 255"]
    generate_id_is_uuid4 [of "Some (replicate 16 0)" 0 "\<lambda>_. 0"] by simp

text \<open>
  after any call of \<open>UpdateProgress\<close> the sizes are not negative, and when the caller's
  count does not exceed its total the reported percentage lies between 0 and 100, rounding
  included.
\<close>

theorem progress_percent_range:
  assumes "dl \<le> tot" "tot < 2 ^ 53"
  shows "0 \<le> progress_percent (update_progress now dl tot sp t) \<and>
    progress_percent (update_progress now dl tot sp t) \<le> 100"
proof (cases "tot \<le> 0")
  case True
  then show ?thesis by (simp add: update_progress_def progress_percent_def Let_def)
next
  case False
  define d where "d = (if dl < 0 then 0 else dl)"
  have d: "0 \<le> d" "d \<le> tot" "\<bar>d\<bar> < 2 ^ 53" "\<bar>tot\<bar> < 2 ^ 53"
    using assms False by (auto simp: d_def)
  define q where "q = f64 (f64 (of_int d) / f64 (of_int tot))"
  have "of_int d / of_int tot \<le> (of_int 1 :: rat)" "0 \<le> of_int d / (of_int tot :: rat)"
    using d False by simp_all
  then have q: "0 \<le> q" "q \<le> of_int 1"
    unfolding q_def f64_of_int [OF d(3)] f64_of_int [OF d(4)]
    by (intro f64_nonneg f64_le_of_int; simp)+
  then have "0 \<le> q * 100" "q * 100 \<le> of_int 100" by simp_all
  then have "0 \<le> f64 (q * 100)" "f64 (q * 100) \<le> of_int 100"
    by (intro f64_nonneg f64_le_of_int; simp)+
  moreover have "progress_percent (update_progress now dl tot sp t) = f64 (q * 100)"
    using False by (simp add: update_progress_def progress_percent_def Let_def q_def d_def)
  ultimately show ?thesis by simp
qed

theorem progress_percent_range_witness:
  "0 \<le> progress_percent (update_progress 5 50 200 0 (new_task ''a'' 0 ''u'' ''o'')) \<and>
   progress_percent (update_progress 5 50 200 0 (new_task ''a'' 0 ''u'' ''o'')) \<le> 100"
  using progress_percent_range [of 50 200 5 0 "new_task ''a'' 0 ''u'' ''o''"] by simp

end
