(* ===== verification/GoHeap.thy ===== *)
theory GoHeap
  imports Prelude
begin

text \<open>
  Go's \<open>container/heap\<close>, the standard-library algorithm the task queue runs on: sift up, sift
  down, \<open>Init\<close>, \<open>Push\<close>, \<open>Pop\<close> and \<open>Remove\<close>, parametric in the client's \<open>Less\<close>, \<open>Swap\<close>,
  \<open>Push\<close> and \<open>Pop\<close> methods. The locale \<open>indexed_heap\<close> states what a client with an index
  field promises of these methods; inside it the heap order, the contents and the stored
  indices are shown to be kept by every operation, once for all clients.
\<close>

section \<open>The algorithm\<close>

type_synonym 'a less = "'a list \<Rightarrow> nat \<Rightarrow> nat \<Rightarrow> bool"
type_synonym 'a swap = "'a list \<Rightarrow> nat \<Rightarrow> nat \<Rightarrow> 'a list"

function heap_up :: "'a less \<Rightarrow> 'a swap \<Rightarrow> 'a list \<Rightarrow> nat \<Rightarrow> 'a list" where
  "heap_up lt swap h j =
     (let i = (j - 1) div 2 in
      if i = j \<or> \<not> lt h j i then h
      else heap_up lt swap (swap h i j) i)"
  by pat_completeness auto
termination
  by (relation "measure (\<lambda>(lt, swap, h, j). j)") auto

text \<open>\<open>down\<close> answers the heap and the final position; Go's boolean is whether that moved.\<close>

function heap_down :: "'a less \<Rightarrow> 'a swap \<Rightarrow> 'a list \<Rightarrow> nat \<Rightarrow> nat \<Rightarrow> 'a list \<times> nat" where
  "heap_down lt swap h i n =
     (let j1 = 2 * i + 1 in
      if j1 \<ge> n then (h, i)
      else let j = (if j1 + 1 < n \<and> lt h (j1 + 1) j1 then j1 + 1 else j1) in
        if \<not> lt h j i then (h, i)
        else heap_down lt swap (swap h i j) j n)"
  by pat_completeness auto
termination
  by (relation "measure (\<lambda>(lt, swap, h, i, n). n - i)") (auto simp: Let_def)

declare heap_up.simps [simp del] heap_down.simps [simp del]

fun heap_init_from :: "'a less \<Rightarrow> 'a swap \<Rightarrow> 'a list \<Rightarrow> nat \<Rightarrow> 'a list" where
  "heap_init_from lt swap h 0 = h"
| "heap_init_from lt swap h (Suc i) =
     heap_init_from lt swap (fst (heap_down lt swap h i (length h))) i"

definition heap_init :: "'a less \<Rightarrow> 'a swap \<Rightarrow> 'a list \<Rightarrow> 'a list" where
  "heap_init lt swap h = heap_init_from lt swap h (length h div 2)"

definition heap_push ::
  "'a less \<Rightarrow> 'a swap \<Rightarrow> ('a list \<Rightarrow> 'a \<Rightarrow> 'a list) \<Rightarrow> 'a list \<Rightarrow> 'a \<Rightarrow> 'a list" where
  "heap_push lt swap push h x =
     (let h1 = push h x in heap_up lt swap h1 (length h1 - 1))"

definition heap_pop ::
  "'a less \<Rightarrow> 'a swap \<Rightarrow> ('a list \<Rightarrow> 'a \<times> 'a list) \<Rightarrow> 'a list \<Rightarrow> 'a \<times> 'a list" where
  "heap_pop lt swap pop h =
     (let n = length h - 1; h1 = swap h 0 n in pop (fst (heap_down lt swap h1 0 n)))"

definition heap_remove ::
  "'a less \<Rightarrow> 'a swap \<Rightarrow> ('a list \<Rightarrow> 'a \<times> 'a list) \<Rightarrow> 'a list \<Rightarrow> nat \<Rightarrow> 'a \<times> 'a list" where
  "heap_remove lt swap pop h i =
     (let n = length h - 1 in
      if n \<noteq> i then
        let h1 = swap h i n; r = heap_down lt swap h1 i n in
        pop (if snd r > i then fst r else heap_up lt swap (fst r) i)
      else pop h)"

section \<open>The client's interface and the algorithm's correctness\<close>

text \<open>
  \<open>core\<close> is what an item carries besides its stored position \<open>idx\<close>; \<open>key\<close> is the part of it
  that \<open>lt\<close> compares.
\<close>

locale indexed_heap =
  fixes lt :: "'a list \<Rightarrow> nat \<Rightarrow> nat \<Rightarrow> bool"
    and swap :: "'a list \<Rightarrow> nat \<Rightarrow> nat \<Rightarrow> 'a list"
    and push :: "'a list \<Rightarrow> 'a \<Rightarrow> 'a list"
    and pop :: "'a list \<Rightarrow> 'a \<times> 'a list"
    and core :: "'a \<Rightarrow> 'c"
    and key :: "'c \<Rightarrow> 'k::linorder"
    and idx :: "'a \<Rightarrow> int"
  assumes less_iff: "i < length h \<Longrightarrow> j < length h \<Longrightarrow>
      lt h i j \<longleftrightarrow> key (core (h ! i)) < key (core (h ! j))"
    and swap_core: "i < length h \<Longrightarrow> j < length h \<Longrightarrow>
      map core (swap h i j) = list_swap (map core h) i j"
    and swap_idx: "i < length h \<Longrightarrow> j < length h \<Longrightarrow>
      map idx (swap h i j) = (map idx h)[i := int i, j := int j]"
    and push_core: "map core (push h x) = map core h @ [core x]"
    and push_idx: "map idx (push h x) = map idx h @ [int (length h)]"
    and pop_item: "h \<noteq> [] \<Longrightarrow> core (fst (pop h)) = core (last h)"
    and pop_rest: "h \<noteq> [] \<Longrightarrow> snd (pop h) = butlast h"
begin

definition kf :: "'a list \<Rightarrow> nat \<Rightarrow> 'k" where
  "kf h i = key (core (h ! i))"

definition ordered :: "nat \<Rightarrow> 'a list \<Rightarrow> bool" where
  "ordered n h \<longleftrightarrow> (\<forall>j. 0 < j \<and> j < n \<longrightarrow> kf h ((j - 1) div 2) \<le> kf h j)"

definition tracked :: "'a list \<Rightarrow> bool" where
  "tracked h \<longleftrightarrow> (\<forall>k < length h. idx (h ! k) = int k)"

definition contents :: "'a list \<Rightarrow> 'c multiset" where
  "contents h = mset (map core h)"

text \<open>All edges are in order except those at \<open>i\<close>; the grandparent edge across \<open>i\<close> is.\<close>

definition around :: "nat \<Rightarrow> nat \<Rightarrow> 'a list \<Rightarrow> bool" where
  "around i n h \<longleftrightarrow>
     (\<forall>k. 0 < k \<and> k < n \<and> k \<noteq> i \<and> (k - 1) div 2 \<noteq> i \<longrightarrow> kf h ((k - 1) div 2) \<le> kf h k) \<and>
     (\<forall>k. 0 < k \<and> k < n \<and> (k - 1) div 2 = i \<and> 0 < i \<longrightarrow> kf h ((i - 1) div 2) \<le> kf h k)"

definition above_ok :: "nat \<Rightarrow> 'a list \<Rightarrow> bool" where
  "above_ok i h \<longleftrightarrow> (0 < i \<longrightarrow> kf h ((i - 1) div 2) \<le> kf h i)"

definition below_ok :: "nat \<Rightarrow> nat \<Rightarrow> 'a list \<Rightarrow> bool" where
  "below_ok i n h \<longleftrightarrow> (\<forall>k. 0 < k \<and> k < n \<and> (k - 1) div 2 = i \<longrightarrow> kf h i \<le> kf h k)"

lemma parent_less: "0 < i \<Longrightarrow> (i - 1) div 2 < (i::nat)"
  by auto

lemma ordered_iff: "ordered n h \<Longrightarrow> i < n \<Longrightarrow> around i n h \<and> above_ok i h \<and> below_ok i n h"
  unfolding ordered_def around_def above_ok_def below_ok_def
  by (intro conjI allI impI) (auto intro: order_trans)

lemma orderedI: "around i n h \<Longrightarrow> above_ok i h \<Longrightarrow> below_ok i n h \<Longrightarrow> ordered n h"
  unfolding ordered_def around_def above_ok_def below_ok_def by metis

lemma length_swap [simp]:
  "i < length h \<Longrightarrow> j < length h \<Longrightarrow> length (swap h i j) = length h"
  using swap_core [of i h j] by (metis length_list_swap length_map)

lemma kf_swap:
  assumes "i < length h" "j < length h" "k < length h"
  shows "kf (swap h i j) k = kf h (if k = j then i else if k = i then j else k)"
proof -
  have "map core (swap h i j) ! k = list_swap (map core h) i j ! k"
    using swap_core assms by simp
  then show ?thesis
    using assms by (auto simp: kf_def nth_list_swap split: if_splits)
qed

lemma contents_swap: "i < length h \<Longrightarrow> j < length h \<Longrightarrow> contents (swap h i j) = contents h"
  by (simp add: contents_def swap_core mset_list_swap del: mset_map)

lemma tracked_swap:
  assumes "i < length h" "j < length h" "tracked h"
  shows "tracked (swap h i j)"
  unfolding tracked_def
proof (intro allI impI)
  fix k
  assume "k < length (swap h i j)"
  with assms have k: "k < length h" by simp
  have "map idx (swap h i j) ! k = (map idx h)[i := int i, j := int j] ! k"
    using swap_idx assms by simp
  with k assms show "idx (swap h i j ! k) = int k"
    by (auto simp: nth_list_update tracked_def split: if_splits)
qed

lemma core_swap_outside:
  assumes "i < length h" "j < length h" "k < length h" "k \<noteq> i" "k \<noteq> j"
  shows "core (swap h i j ! k) = core (h ! k)"
proof -
  have "map core (swap h i j) ! k = list_swap (map core h) i j ! k"
    using swap_core assms by simp
  with assms show ?thesis by (simp add: nth_list_swap)
qed

subsection \<open>Sifting up\<close>

lemma up_frame:
  assumes "j < length h"
  shows "length (heap_up lt swap h j) = length h \<and>
    contents (heap_up lt swap h j) = contents h \<and>
    (tracked h \<longrightarrow> tracked (heap_up lt swap h j)) \<and>
    (\<forall>k. j < k \<and> k < length h \<longrightarrow> core (heap_up lt swap h j ! k) = core (h ! k))"
  using assms
proof (induction j arbitrary: h rule: less_induct)
  case (less j)
  let ?i = "(j - 1) div 2"
  show ?case
  proof (cases "?i = j \<or> \<not> lt h j ?i")
    case True
    then show ?thesis by (subst (1 2 3 4) heap_up.simps) (simp add: Let_def)
  next
    case False
    then have lti: "?i < j" by auto
    with less.prems have b: "?i < length h" by simp
    have eq: "heap_up lt swap h j = heap_up lt swap (swap h ?i j) ?i"
      using False by (simp add: heap_up.simps [of lt swap h j] Let_def)
    have "?i < length (swap h ?i j)" using b less.prems by simp
    note IH = less.IH [OF lti this]
    show ?thesis
      unfolding eq using IH b less.prems lti
      by (auto simp: contents_swap tracked_swap core_swap_outside)
  qed
qed

lemma up_ordered:
  assumes "j < n" "n \<le> length h" "around j n h" "below_ok j n h"
  shows "ordered n (heap_up lt swap h j)"
  using assms
proof (induction j arbitrary: h rule: less_induct)
  case (less j)
  let ?i = "(j - 1) div 2"
  have jl: "j < length h" using less.prems by simp
  show ?case
  proof (cases "?i = j \<or> \<not> lt h j ?i")
    case True
    have "above_ok j h"
      using True jl by (auto simp: above_ok_def less_iff kf_def)
    with less.prems have "ordered n h" by (blast intro: orderedI)
    with True show ?thesis by (simp add: heap_up.simps [of lt swap h j] Let_def)
  next
    case False
    then have lti: "?i < j" by auto
    have il: "?i < length h" using lti jl by simp
    have lt: "kf h j < kf h ?i" using False jl il by (simp add: less_iff kf_def)
    let ?h = "swap h ?i j"
    have kf': "kf ?h k = kf h (if k = j then ?i else if k = ?i then j else k)" if "k < n" for k
      using kf_swap [of ?i h j k] il jl less.prems(2) that by auto
    have ar: "around ?i n ?h"
      unfolding around_def
    proof (intro conjI allI impI)
      fix k assume k: "0 < k \<and> k < n \<and> k \<noteq> ?i \<and> (k - 1) div 2 \<noteq> ?i"
      then have kj: "k \<noteq> j" by auto
      have pk: "(k - 1) div 2 < n" using k by auto
      show "kf ?h ((k - 1) div 2) \<le> kf ?h k"
      proof (cases "(k - 1) div 2 = j")
        case True
        then have "kf h ?i \<le> kf h k" using less.prems(3) k lti unfolding around_def by auto
        with True k kj pk show ?thesis using kf' [OF pk] kf' [of k] by auto
      next
        case False
        with k kj have "kf h ((k - 1) div 2) \<le> kf h k" using less.prems(3) unfolding around_def by auto
        with False k kj pk show ?thesis using kf' [OF pk] kf' [of k] by auto
      qed
    next
      fix k assume k: "0 < k \<and> k < n \<and> (k - 1) div 2 = ?i \<and> 0 < ?i"
      let ?g = "(?i - 1) div 2"
      have gi: "?g < ?i" by (rule parent_less) (use k in blast)
      have a: "kf h ?g \<le> kf h ?i"
        using less.prems(3) k lti gi less.prems(1) unfolding around_def
        by (metis (no_types, lifting) less_trans nat_neq_iff)
      have g: "kf ?h ?g = kf h ?g" using kf' [of ?g] gi lti less.prems(1) by auto
      show "kf ?h ((?i - 1) div 2) \<le> kf ?h k"
      proof (cases "k = j")
        case True
        with a g kf' [of k] k show ?thesis by simp
      next
        case False
        have "kf h ?i \<le> kf h k"
          using less.prems(3) k False lti unfolding around_def by (metis nat_neq_iff)
        moreover have "k \<noteq> ?i" using k gi by (metis nat_neq_iff)
        ultimately show ?thesis using a g kf' [of k] k False by simp
      qed
    qed
    have be: "below_ok ?i n ?h"
      unfolding below_ok_def
    proof (intro allI impI)
      fix k assume k: "0 < k \<and> k < n \<and> (k - 1) div 2 = ?i"
      have i: "kf ?h ?i = kf h j" using kf' [of ?i] lti less.prems(1) by auto
      show "kf ?h ?i \<le> kf ?h k"
      proof (cases "k = j \<or> k = ?i")
        case True
        with k have "k = j" using parent_less [of k] by (metis nat_neq_iff)
        with i kf' [of k] k lt show ?thesis by simp
      next
        case False
        then have "kf h ?i \<le> kf h k"
          using less.prems(3) k lti unfolding around_def by (metis nat_neq_iff)
        with i kf' [of k] k lt False show ?thesis by simp
      qed
    qed
    have "ordered n (heap_up lt swap ?h ?i)"
      using less.IH [OF lti _ _ ar be] lti less.prems il jl by simp
    with False show ?thesis by (simp add: heap_up.simps [of lt swap h j] Let_def)
  qed
qed

subsection \<open>Sifting down\<close>

lemma down_frame:
  assumes "i < n" "n \<le> length h"
  shows "length (fst (heap_down lt swap h i n)) = length h \<and>
    contents (fst (heap_down lt swap h i n)) = contents h \<and>
    (tracked h \<longrightarrow> tracked (fst (heap_down lt swap h i n))) \<and>
    (\<forall>k. n \<le> k \<and> k < length h \<longrightarrow> core (fst (heap_down lt swap h i n) ! k) = core (h ! k)) \<and>
    i \<le> snd (heap_down lt swap h i n)"
  using assms
proof (induction "n - i" arbitrary: h i rule: less_induct)
  case less
  define j where "j = (if 2 * i + 2 < n \<and> lt h (2 * i + 2) (2 * i + 1) then 2 * i + 2 else 2 * i + 1)"
  show ?case
  proof (cases "2 * i + 1 \<ge> n \<or> \<not> lt h j i")
    case True
    then have "heap_down lt swap h i n = (h, i)"
      by (auto simp: heap_down.simps [of lt swap h i n] Let_def j_def)
    then show ?thesis by simp
  next
    case False
    then have ij: "i < j" "j < n" by (auto simp: j_def)
    have eq: "heap_down lt swap h i n = heap_down lt swap (swap h i j) j n"
      using False by (auto simp: heap_down.simps [of lt swap h i n] Let_def j_def)
    have b: "i < length h" "j < length h" using ij less.prems by simp_all
    have "n - j < n - i" using ij by simp
    note IH = less.hyps [OF this, of "swap h i j"]
    show ?thesis
      unfolding eq using IH b ij less.prems
      by (auto simp: contents_swap tracked_swap core_swap_outside)
  qed
qed

text \<open>Where nothing moved, the children of \<open>i\<close> were already no smaller.\<close>

lemma down_stay:
  assumes "i < n" "n \<le> length h" "snd (heap_down lt swap h i n) = i"
  shows "fst (heap_down lt swap h i n) = h \<and> below_ok i n h"
proof -
  define j where "j = (if 2 * i + 2 < n \<and> lt h (2 * i + 2) (2 * i + 1) then 2 * i + 2 else 2 * i + 1)"
  have stop: "2 * i + 1 \<ge> n \<or> \<not> lt h j i"
  proof (rule ccontr)
    assume go: "\<not> ?thesis"
    then have ij: "i < j" "j < n" by (auto simp: j_def)
    have eq: "heap_down lt swap h i n = heap_down lt swap (swap h i j) j n"
      using go by (auto simp: heap_down.simps [of lt swap h i n] Let_def j_def)
    have "j \<le> snd (heap_down lt swap h i n)"
      unfolding eq using down_frame [of j n "swap h i j"] ij assms(1,2) by simp
    with assms(3) ij show False by simp
  qed
  then have "heap_down lt swap h i n = (h, i)"
    by (auto simp: heap_down.simps [of lt swap h i n] Let_def j_def)
  moreover have "below_ok i n h"
    unfolding below_ok_def
  proof (intro allI impI)
    fix k assume k: "0 < k \<and> k < n \<and> (k - 1) div 2 = i"
    then have "k = 2 * i + 1 \<or> k = 2 * i + 2" by presburger
    with k stop assms(1,2) show "kf h i \<le> kf h k"
      by (auto simp: j_def less_iff kf_def not_less split: if_splits)
  qed
  ultimately show ?thesis by simp
qed

lemma down_ordered:
  assumes "i < n" "n \<le> length h" "around i n h" "above_ok i h"
  shows "ordered n (fst (heap_down lt swap h i n))"
  using assms
proof (induction "n - i" arbitrary: h i rule: less_induct)
  case less
  define j where "j = (if 2 * i + 2 < n \<and> lt h (2 * i + 2) (2 * i + 1) then 2 * i + 2 else 2 * i + 1)"
  have children: "k = 2 * i + 1 \<or> k = 2 * i + 2" if "0 < k" "(k - 1) div 2 = i" for k
    using that by presburger
  show ?case
  proof (cases "2 * i + 1 \<ge> n \<or> \<not> lt h j i")
    case True
    then have eq: "heap_down lt swap h i n = (h, i)"
      by (auto simp: heap_down.simps [of lt swap h i n] Let_def j_def)
    then have "below_ok i n h" using down_stay [of i n h] less.prems by simp
    with eq less.prems show ?thesis by (auto intro: orderedI)
  next
    case False
    then have ij: "i < j" "j < n" and pj: "(j - 1) div 2 = i" by (auto simp: j_def)
    have b: "i < length h" "j < length h" using ij less.prems by simp_all
    have lt: "kf h j < kf h i" using False b by (simp add: less_iff kf_def)
    have jmin: "kf h j \<le> kf h k" if "0 < k" "k < n" "(k - 1) div 2 = i" for k
      using children [OF that(1,3)] that less.prems(2)
      by (auto simp: j_def less_iff kf_def not_less split: if_splits)
    let ?h = "swap h i j"
    have kf': "kf ?h k = kf h (if k = j then i else if k = i then j else k)" if "k < n" for k
      using kf_swap [of i h j k] b less.prems(2) that by auto
    have ar: "around j n ?h"
      unfolding around_def
    proof (intro conjI allI impI)
      fix k assume k: "0 < k \<and> k < n \<and> k \<noteq> j \<and> (k - 1) div 2 \<noteq> j"
      have pk: "(k - 1) div 2 < n" using k by auto
      consider "k = i" | "(k - 1) div 2 = i" | "k \<noteq> i" "(k - 1) div 2 \<noteq> i" by blast
      then show "kf ?h ((k - 1) div 2) \<le> kf ?h k"
      proof cases
        case 1
        have p: "(i - 1) div 2 < i" using 1 k parent_less by blast
        have "kf h ((i - 1) div 2) \<le> kf h j"
          using less.prems(3) ij pj 1 k unfolding around_def by (metis gr_implies_not0 gr0I)
        with 1 k kf' [OF pk] kf' [of k] p ij show ?thesis by auto
      next
        case 2
        then have "k \<noteq> i" using k parent_less [of k] by auto
        with 2 k kf' [OF pk] kf' [of k] jmin [of k] ij show ?thesis by auto
      next
        case 3
        with k have "kf h ((k - 1) div 2) \<le> kf h k"
          using less.prems(3) unfolding around_def by blast
        with 3 k kf' [OF pk] kf' [of k] show ?thesis by auto
      qed
    next
      fix k assume k: "0 < k \<and> k < n \<and> (k - 1) div 2 = j \<and> 0 < j"
      then have jk: "j < k" using parent_less [of k] by auto
      have kn: "k < n" using k by simp
      have pk: "(k - 1) div 2 = j" using k by blast
      have "kf h ((k - 1) div 2) \<le> kf h k" if "k \<noteq> i" "(k - 1) div 2 \<noteq> i"
        using less.prems(3) that kn jk unfolding around_def by (metis gr_implies_not0 gr0I)
      then have "kf h j \<le> kf h k" unfolding pk using jk ij(1) by linarith
      moreover have "kf ?h i = kf h j" using kf' [OF less.prems(1)] ij(1) by simp
      moreover have "kf ?h k = kf h k" using kf' [OF kn] jk ij(1) by simp
      ultimately show "kf ?h ((j - 1) div 2) \<le> kf ?h k" unfolding pj by metis
    qed
    have ab: "above_ok j ?h"
      using kf' [of i] kf' [of j] ij pj lt by (auto simp: above_ok_def)
    have "ordered n (fst (heap_down lt swap ?h j n))"
      using less.hyps [of j ?h] ar ab ij b less.prems(2) by simp
    with False show ?thesis by (auto simp: heap_down.simps [of lt swap h i n] Let_def j_def)
  qed
qed

text \<open>If the item at \<open>i\<close> sinks at all, the edge above \<open>i\<close> was in order.\<close>

lemma down_moved_above:
  assumes "i < n" "n \<le> length h" "around i n h" "snd (heap_down lt swap h i n) > i"
  shows "above_ok i h"
proof -
  define j where "j = (if 2 * i + 2 < n \<and> lt h (2 * i + 2) (2 * i + 1) then 2 * i + 2 else 2 * i + 1)"
  have go: "2 * i + 1 < n \<and> lt h j i"
  proof (rule ccontr)
    assume "\<not> ?thesis"
    then have "heap_down lt swap h i n = (h, i)"
      by (auto simp: heap_down.simps [of lt swap h i n] Let_def j_def)
    with assms(4) show False by simp
  qed
  then have ij: "0 < j" "j < n" "(j - 1) div 2 = i" by (auto simp: j_def)
  then have "kf h j < kf h i" using go assms(1,2) by (simp add: less_iff kf_def)
  moreover have "0 < i \<longrightarrow> kf h ((i - 1) div 2) \<le> kf h j"
    using assms(3) ij unfolding around_def by blast
  ultimately show ?thesis unfolding above_ok_def by auto
qed

subsection \<open>The public operations\<close>

definition heap_inv :: "'a list \<Rightarrow> bool" where
  "heap_inv h \<longleftrightarrow> ordered (length h) h \<and> tracked h"

lemma heap_inv_Nil [simp]: "heap_inv []"
  by (simp add: heap_inv_def ordered_def tracked_def)

lemma contents_Nil [simp]: "contents [] = {#}"
  by (simp add: contents_def)

lemma kf_cong: "core (h ! k) = core (h' ! k') \<Longrightarrow> kf h k = kf h' k'"
  by (simp add: kf_def)

lemma root_least:
  assumes "ordered n h" "k < n"
  shows "kf h 0 \<le> kf h k"
  using assms(2)
proof (induction k rule: less_induct)
  case (less k)
  show ?case
  proof (cases "k = 0")
    case False
    then have p: "(k - 1) div 2 < k" by (simp add: parent_less)
    with less have "kf h 0 \<le> kf h ((k - 1) div 2)" by simp
    also have "\<dots> \<le> kf h k" using assms(1) False less.prems by (simp add: ordered_def)
    finally show ?thesis .
  qed simp
qed

theorem heap_push_ok:
  assumes "heap_inv h"
  shows "heap_inv (heap_push lt swap push h x)"
    and "contents (heap_push lt swap push h x) = add_mset (core x) (contents h)"
    and "length (heap_push lt swap push h x) = Suc (length h)"
proof -
  let ?h = "push h x" and ?n = "length h"
  have len: "length ?h = Suc ?n" using push_core [of h x] by (metis length_append_singleton length_map)
  have old: "core (?h ! k) = core (h ! k)" if "k < ?n" for k
  proof -
    have "map core ?h ! k = (map core h @ [core x]) ! k" by (simp add: push_core)
    with that len show ?thesis by (simp add: nth_append)
  qed
  have tr: "tracked ?h"
    unfolding tracked_def
  proof (intro allI impI)
    fix k assume k: "k < length ?h"
    have "map idx ?h ! k = (map idx h @ [int ?n]) ! k" by (simp add: push_idx)
    with k len assms show "idx (?h ! k) = int k"
      by (auto simp: nth_append heap_inv_def tracked_def less_Suc_eq split: if_splits)
  qed
  have kf': "kf ?h k = kf h k" if "k < ?n" for k using old [OF that] by (rule kf_cong)
  have kn: "(k - 1) div 2 < ?n" if "0 < k" "k < Suc ?n" for k using that by auto
  have ar: "around ?n (Suc ?n) ?h"
    unfolding around_def
  proof (intro conjI allI impI)
    fix k assume k: "0 < k \<and> k < Suc ?n \<and> k \<noteq> ?n \<and> (k - 1) div 2 \<noteq> ?n"
    then have "k < ?n" by simp
    then show "kf ?h ((k - 1) div 2) \<le> kf ?h k"
      using assms k kn [of k] kf' by (simp add: heap_inv_def ordered_def)
  next
    fix k assume "0 < k \<and> k < Suc ?n \<and> (k - 1) div 2 = ?n \<and> 0 < ?n"
    then show "kf ?h ((?n - 1) div 2) \<le> kf ?h k" by auto
  qed
  have be: "below_ok ?n (Suc ?n) ?h" by (auto simp: below_ok_def)
  have "ordered (Suc ?n) (heap_up lt swap ?h ?n)"
    using up_ordered [of ?n "Suc ?n" ?h] ar be len by simp
  moreover have fr: "length (heap_up lt swap ?h ?n) = Suc ?n"
    "contents (heap_up lt swap ?h ?n) = contents ?h" "tracked (heap_up lt swap ?h ?n)"
    using up_frame [of ?n ?h] len tr by auto
  ultimately show "heap_inv (heap_push lt swap push h x)"
    by (simp add: heap_push_def heap_inv_def Let_def len)
  show "contents (heap_push lt swap push h x) = add_mset (core x) (contents h)"
    using fr(2) by (simp add: heap_push_def Let_def len) (simp add: contents_def push_core del: mset_map)
  show "length (heap_push lt swap push h x) = Suc (length h)"
    using fr(1) by (simp add: heap_push_def Let_def len)
qed

text \<open>Dropping the last slot of a heap that is in order below it.\<close>

lemma butlast_inv:
  assumes "h \<noteq> []" "ordered (length h - 1) h" "tracked h"
  shows "heap_inv (butlast h)"
  using assms
  by (auto simp: heap_inv_def ordered_def tracked_def kf_def nth_butlast)

lemma contents_butlast: "h \<noteq> [] \<Longrightarrow> contents h = add_mset (core (last h)) (contents (butlast h))"
  by (cases h rule: rev_cases) (simp_all add: contents_def)

text \<open>\<open>Pop\<close> shortens any non-empty slice by one, in heap order or not.\<close>

lemma heap_pop_length:
  assumes "h \<noteq> []"
  shows "length (snd (heap_pop lt swap pop h)) = length h - 1"
proof -
  let ?n = "length h - 1"
  let ?h1 = "swap h 0 ?n"
  have len1: "length ?h1 = length h" using assms by simp
  have "length (fst (heap_down lt swap ?h1 0 ?n)) = length h"
  proof (cases "?n = 0")
    case True
    then have "heap_down lt swap ?h1 0 ?n = (?h1, 0)"
      by (subst heap_down.simps) (simp add: Let_def)
    with len1 show ?thesis by simp
  next
    case False
    with down_frame [of 0 ?n ?h1] len1 show ?thesis by simp
  qed
  moreover from this assms have "fst (heap_down lt swap ?h1 0 ?n) \<noteq> []" by auto
  ultimately show ?thesis by (simp add: heap_pop_def Let_def pop_rest)
qed

theorem heap_pop_ok:
  assumes "heap_inv h" "h \<noteq> []"
  shows "heap_inv (snd (heap_pop lt swap pop h))"
    and "core (fst (heap_pop lt swap pop h)) = core (h ! 0)"
    and "contents h = add_mset (core (fst (heap_pop lt swap pop h))) (contents (snd (heap_pop lt swap pop h)))"
    and "length (snd (heap_pop lt swap pop h)) = length h - 1"
proof -
  let ?n = "length h - 1"
  let ?h1 = "swap h 0 ?n"
  let ?h2 = "fst (heap_down lt swap ?h1 0 ?n)"
  have b: "0 < length h" "?n < length h" using assms(2) by simp_all
  have ord: "ordered (length h) h" and trk: "tracked h" using assms(1) by (auto simp: heap_inv_def)
  have len1: "length ?h1 = length h" using b by simp
  have kf1: "kf ?h1 k = kf h k" if "0 < k" "k < ?n" for k
    using kf_swap [of 0 h ?n k] b that by simp
  have last1: "core (?h1 ! ?n) = core (h ! 0)"
  proof -
    have "map core ?h1 ! ?n = list_swap (map core h) 0 ?n ! ?n" using swap_core b by simp
    with b show ?thesis by (simp add: nth_list_swap)
  qed
  have ar: "around 0 ?n ?h1" unfolding around_def
  proof (intro conjI allI impI)
    fix k assume k: "0 < k \<and> k < ?n \<and> k \<noteq> 0 \<and> (k - 1) div 2 \<noteq> 0"
    then show "kf ?h1 ((k - 1) div 2) \<le> kf ?h1 k"
      using kf1 [of k] kf1 [of "(k - 1) div 2"] parent_less [of k] ord k
      by (auto simp: ordered_def)
  qed simp
  have fr: "length ?h2 = length h \<and> contents ?h2 = contents h \<and> tracked ?h2 \<and>
      core (?h2 ! ?n) = core (h ! 0) \<and> ordered ?n ?h2"
  proof (cases "?n = 0")
    case True
    then have "heap_down lt swap ?h1 0 ?n = (?h1, 0)"
      by (subst heap_down.simps) (simp add: Let_def)
    with True len1 last1 b trk show ?thesis
      by (simp add: contents_swap tracked_swap ordered_def)
  next
    case False
    then have p: "0 < ?n" "?n \<le> length ?h1" using len1 by simp_all
    have "ordered ?n ?h2" using down_ordered [OF p ar] by (simp add: above_ok_def)
    with down_frame [OF p] len1 last1 b trk show ?thesis
      by (simp add: contents_swap tracked_swap)
  qed
  then have ne: "?h2 \<noteq> []" using b by auto
  have lst: "last ?h2 = ?h2 ! ?n" using ne fr by (simp add: last_conv_nth)
  have eq: "heap_pop lt swap pop h = pop ?h2" by (simp add: heap_pop_def Let_def)
  show "heap_inv (snd (heap_pop lt swap pop h))"
    unfolding eq pop_rest [OF ne] using fr ne by (intro butlast_inv) simp_all
  show c: "core (fst (heap_pop lt swap pop h)) = core (h ! 0)"
    unfolding eq pop_item [OF ne] lst using fr by simp
  show "contents h = add_mset (core (fst (heap_pop lt swap pop h))) (contents (snd (heap_pop lt swap pop h)))"
  proof -
    have "contents h = contents ?h2" using fr by metis
    also have "\<dots> = add_mset (core (last ?h2)) (contents (butlast ?h2))"
      by (rule contents_butlast [OF ne])
    finally show ?thesis unfolding eq pop_rest [OF ne] pop_item [OF ne] .
  qed
  show "length (snd (heap_pop lt swap pop h)) = length h - 1"
    unfolding eq pop_rest [OF ne] using fr by simp
qed

theorem heap_pop_least:
  assumes "heap_inv h" "h \<noteq> []" "c \<in># contents h"
  shows "key (core (fst (heap_pop lt swap pop h))) \<le> key c"
proof -
  from assms(3) obtain k where k: "k < length h" "c = core (h ! k)"
    by (auto simp: contents_def in_set_conv_nth)
  have "kf h 0 \<le> kf h k"
    using root_least assms(1) k by (auto simp: heap_inv_def)
  with k heap_pop_ok(2) [OF assms(1,2)] show ?thesis by (simp add: kf_def)
qed

theorem heap_remove_ok:
  assumes "heap_inv h" "i < length h"
  shows "heap_inv (snd (heap_remove lt swap pop h i))"
    and "core (fst (heap_remove lt swap pop h i)) = core (h ! i)"
    and "contents h = add_mset (core (h ! i)) (contents (snd (heap_remove lt swap pop h i)))"
    and "length (snd (heap_remove lt swap pop h i)) = length h - 1"
proof -
  let ?n = "length h - 1"
  let ?h1 = "swap h i ?n"
  define r where "r = heap_down lt swap ?h1 i ?n"
  define h2 where
    "h2 = (if i = ?n then h else if snd r > i then fst r else heap_up lt swap (fst r) i)"
  have b: "i < length h" "?n < length h" "h \<noteq> []" using assms(2) by auto
  have ord: "ordered (length h) h" and trk: "tracked h" using assms(1) by (auto simp: heap_inv_def)
  have eq: "heap_remove lt swap pop h i = pop h2"
    by (auto simp: heap_remove_def Let_def h2_def r_def)
  have fr: "length h2 = length h \<and> contents h2 = contents h \<and> tracked h2 \<and>
      core (h2 ! ?n) = core (h ! i) \<and> ordered ?n h2"
  proof (cases "i = ?n")
    case True
    then show ?thesis using ord trk by (auto simp: h2_def ordered_def)
  next
    case False
    have len1: "length ?h1 = length h" using b by simp
    have p: "i < ?n" "?n \<le> length ?h1" using False b len1 by auto
    have last1: "core (?h1 ! ?n) = core (h ! i)"
    proof -
      have "map core ?h1 ! ?n = list_swap (map core h) i ?n ! ?n" using swap_core b by simp
      with b show ?thesis by (simp add: nth_list_swap)
    qed
    have kf1: "kf ?h1 k = kf h k" if "k \<noteq> i" "k < ?n" for k
      using kf_swap [of i h ?n k] b that by simp
    have "ordered ?n h" using ord unfolding ordered_def by auto
    then have old: "around i ?n h" using ordered_iff p(1) by blast
    have ar: "around i ?n ?h1" unfolding around_def
    proof (intro conjI allI impI)
      fix k assume k: "0 < k \<and> k < ?n \<and> k \<noteq> i \<and> (k - 1) div 2 \<noteq> i"
      then have "kf ?h1 ((k - 1) div 2) = kf h ((k - 1) div 2)" "kf ?h1 k = kf h k"
        using parent_less [of k] by (intro kf1; linarith)+
      with k old show "kf ?h1 ((k - 1) div 2) \<le> kf ?h1 k" unfolding around_def by metis
    next
      fix k assume k: "0 < k \<and> k < ?n \<and> (k - 1) div 2 = i \<and> 0 < i"
      then have "kf ?h1 ((i - 1) div 2) = kf h ((i - 1) div 2)" "kf ?h1 k = kf h k"
        using parent_less [of k] parent_less [of i] p by (intro kf1; linarith)+
      with k old show "kf ?h1 ((i - 1) div 2) \<le> kf ?h1 k" unfolding around_def by metis
    qed
    have fd: "length (fst r) = length h" "contents (fst r) = contents h" "tracked (fst r)"
      "core (fst r ! ?n) = core (h ! i)" "i \<le> snd r"
      using down_frame [OF p] len1 last1 b trk by (simp_all add: r_def contents_swap tracked_swap)
    show ?thesis
    proof (cases "snd r > i")
      case True
      then have "above_ok i ?h1" using down_moved_above [OF p ar] by (simp add: r_def)
      then have "ordered ?n (fst r)" using down_ordered [OF p ar] by (simp add: r_def)
      with True False fd show ?thesis by (simp add: h2_def)
    next
      case stay: False
      then have "snd r = i" using fd(5) by simp
      then have st: "fst r = ?h1" "below_ok i ?n ?h1" using down_stay [OF p] by (simp_all add: r_def)
      have "ordered ?n (heap_up lt swap ?h1 i)"
        by (rule up_ordered [OF p ar st(2)])
      moreover have "i < length (fst r)" using fd(1) b by simp
      note up_frame [OF this]
      ultimately show ?thesis using stay False fd p len1 st(1) by (simp add: h2_def)
    qed
  qed
  then have ne: "h2 \<noteq> []" using b by auto
  have lst: "last h2 = h2 ! ?n" using ne fr by (simp add: last_conv_nth)
  show "heap_inv (snd (heap_remove lt swap pop h i))"
    unfolding eq pop_rest [OF ne] using fr ne by (intro butlast_inv) simp_all
  show "core (fst (heap_remove lt swap pop h i)) = core (h ! i)"
    unfolding eq pop_item [OF ne] lst using fr by simp
  show "contents h = add_mset (core (h ! i)) (contents (snd (heap_remove lt swap pop h i)))"
    unfolding eq pop_rest [OF ne] using contents_butlast [OF ne] fr lst by metis
  show "length (snd (heap_remove lt swap pop h i)) = length h - 1"
    unfolding eq pop_rest [OF ne] using fr by simp
qed

end

end
