(* ===== verification/PriorityQueue.thy ===== *)
theory PriorityQueue
  imports GoHeap
begin

text \<open>
  The waiting list of \<open>internal/task/queue.go\<close>: \<open>priorityItem\<close>, the \<open>heap.Interface\<close> methods of
  \<open>priorityQueue\<close>, and the interpretation of the heap interface by them. An item refers to its
  task by address; \<open>pi_index\<close> is the position the \<open>Swap\<close> and \<open>Push\<close> methods store.
\<close>

record pitem =
  pi_task :: nat
  pi_prio :: int
  pi_index :: int

type_synonym priority_queue = "pitem list"

definition pq_len :: "priority_queue \<Rightarrow> nat" where
  "pq_len pq = length pq"

definition pq_less :: "priority_queue \<Rightarrow> nat \<Rightarrow> nat \<Rightarrow> bool" where
  "pq_less pq i j \<longleftrightarrow> pi_prio (pq ! i) < pi_prio (pq ! j)"

definition pq_swap :: "priority_queue \<Rightarrow> nat \<Rightarrow> nat \<Rightarrow> priority_queue" where
  "pq_swap pq i j =
     pq[i := (pq ! j)\<lparr>pi_index := int i\<rparr>, j := (pq ! i)\<lparr>pi_index := int j\<rparr>]"

definition pq_push :: "priority_queue \<Rightarrow> pitem \<Rightarrow> priority_queue" where
  "pq_push pq x = pq @ [x\<lparr>pi_index := int (length pq)\<rparr>]"

definition pq_pop :: "priority_queue \<Rightarrow> pitem \<times> priority_queue" where
  "pq_pop pq = ((last pq)\<lparr>pi_index := -1\<rparr>, butlast pq)"

text \<open>What an item carries besides its position.\<close>

definition pi_core :: "pitem \<Rightarrow> nat \<times> int" where
  "pi_core x = (pi_task x, pi_prio x)"

lemma pi_core_index [simp]: "pi_core (x\<lparr>pi_index := i\<rparr>) = pi_core x"
  by (simp add: pi_core_def)

interpretation pqh: indexed_heap pq_less pq_swap pq_push pq_pop pi_core snd pi_index
proof unfold_locales
  fix i j :: nat and h :: priority_queue
  show "pq_less h i j \<longleftrightarrow> snd (pi_core (h ! i)) < snd (pi_core (h ! j))"
    by (simp add: pq_less_def pi_core_def)
  assume "i < length h" "j < length h"
  then show "map pi_core (pq_swap h i j) = list_swap (map pi_core h) i j"
    and "map pi_index (pq_swap h i j) = (map pi_index h)[i := int i, j := int j]"
    by (simp_all add: pq_swap_def list_swap_def map_update)
next
  fix h :: priority_queue and x
  show "map pi_core (pq_push h x) = map pi_core h @ [pi_core x]"
    and "map pi_index (pq_push h x) = map pi_index h @ [int (length h)]"
    by (simp_all add: pq_push_def)
  assume "h \<noteq> []"
  then show "pi_core (fst (pq_pop h)) = pi_core (last h)" "snd (pq_pop h) = butlast h"
    by (simp_all add: pq_pop_def)
qed

text \<open>The heap operations the queue calls.\<close>

abbreviation hpush :: "priority_queue \<Rightarrow> pitem \<Rightarrow> priority_queue" where
  "hpush \<equiv> heap_push pq_less pq_swap pq_push"

abbreviation hpop :: "priority_queue \<Rightarrow> pitem \<times> priority_queue" where
  "hpop \<equiv> heap_pop pq_less pq_swap pq_pop"

abbreviation hremove :: "priority_queue \<Rightarrow> nat \<Rightarrow> pitem \<times> priority_queue" where
  "hremove \<equiv> heap_remove pq_less pq_swap pq_pop"

text \<open>The tasks that have an entry.\<close>

definition pq_refs :: "priority_queue \<Rightarrow> nat set" where
  "pq_refs pq = pi_task ` set pq"

lemma pq_refs_contents: "pq_refs pq = fst ` set_mset (pqh.contents pq)"
  by (force simp: pq_refs_def pqh.contents_def pi_core_def)

lemma pq_refs_Nil [simp]: "pq_refs [] = {}"
  by (simp add: pq_refs_def)

lemma pq_refs_push: "pqh.heap_inv pq \<Longrightarrow> pq_refs (hpush pq x) = insert (pi_task x) (pq_refs pq)"
  by (simp add: pq_refs_contents pqh.heap_push_ok pi_core_def)

lemma pq_refs_pop:
  assumes "pqh.heap_inv pq" "pq \<noteq> []"
  shows "pq_refs pq = insert (pi_task (fst (hpop pq))) (pq_refs (snd (hpop pq)))"
proof -
  have "pqh.contents pq = add_mset (pi_core (fst (hpop pq))) (pqh.contents (snd (hpop pq)))"
    using assms by (rule pqh.heap_pop_ok(3))
  then show ?thesis by (simp add: pq_refs_contents pi_core_def)
qed

lemma pq_refs_remove:
  assumes "pqh.heap_inv pq" "i < length pq"
  shows "pq_refs pq = insert (pi_task (pq ! i)) (pq_refs (snd (hremove pq i)))"
proof -
  have "pqh.contents pq = add_mset (pi_core (pq ! i)) (pqh.contents (snd (hremove pq i)))"
    using assms by (rule pqh.heap_remove_ok(3))
  then show ?thesis by (simp add: pq_refs_contents pi_core_def)
qed

section \<open>Draining\<close>

text \<open>Popping until the heap is empty, as \<open>ChangePosition\<close> does.\<close>

function pq_drain :: "priority_queue \<Rightarrow> pitem list" where
  "pq_drain pq = (if pq = [] then [] else fst (hpop pq) # pq_drain (snd (hpop pq)))"
  by pat_completeness auto
termination
  by (relation "measure length") (auto simp: pqh.heap_pop_length)

declare pq_drain.simps [simp del]

text \<open>Pushing a list of items one after the other.\<close>

definition pq_push_all :: "pitem list \<Rightarrow> priority_queue \<Rightarrow> priority_queue" where
  "pq_push_all items pq = foldl hpush pq items"

lemma pq_drain_mset:
  "pqh.heap_inv pq \<Longrightarrow> mset (map pi_core (pq_drain pq)) = pqh.contents pq"
proof (induction pq rule: pq_drain.induct)
  case (1 pq)
  show ?case
  proof (cases "pq = []")
    case True
    then show ?thesis by (simp add: pq_drain.simps)
  next
    case False
    have "pqh.heap_inv (snd (hpop pq))" using 1 False by (simp add: pqh.heap_pop_ok)
    with 1 False show ?thesis
      using pqh.heap_pop_ok(3) [OF "1.prems" False] by (simp add: pq_drain.simps [of pq])
  qed
qed

lemma pq_drain_sorted: "pqh.heap_inv pq \<Longrightarrow> sorted (map pi_prio (pq_drain pq))"
proof (induction pq rule: pq_drain.induct)
  case (1 pq)
  show ?case
  proof (cases "pq = []")
    case True
    then show ?thesis by (simp add: pq_drain.simps)
  next
    case False
    let ?r = "snd (hpop pq)"
    have inv: "pqh.heap_inv ?r" using 1 False by (simp add: pqh.heap_pop_ok)
    have "pi_prio (fst (hpop pq)) \<le> p" if "p \<in> set (map pi_prio (pq_drain ?r))" for p
    proof -
      from that obtain x where x: "x \<in> set (pq_drain ?r)" "p = pi_prio x" by auto
      have "pi_core x \<in># pqh.contents ?r"
        using x(1) unfolding pq_drain_mset [OF inv, symmetric] by simp
      then have "pi_core x \<in># pqh.contents pq"
        using pqh.heap_pop_ok(3) [OF "1.prems" False] by (metis union_iff add_mset_add_single)
      from pqh.heap_pop_least [OF "1.prems" False this] x(2) show ?thesis
        by (simp add: pi_core_def)
    qed
    then show ?thesis using 1 False inv by (simp add: pq_drain.simps [of pq])
  qed
qed

lemma pq_push_all_ok:
  "pqh.heap_inv pq \<Longrightarrow> pqh.heap_inv (pq_push_all items pq) \<and>
     pqh.contents (pq_push_all items pq) = mset (map pi_core items) + pqh.contents pq"
proof (induction items arbitrary: pq)
  case Nil
  then show ?case by (simp add: pq_push_all_def)
next
  case (Cons x items)
  have "pqh.heap_inv (hpush pq x)" using Cons.prems by (rule pqh.heap_push_ok)
  from Cons.IH [OF this] show ?case
    by (simp add: pq_push_all_def pqh.heap_push_ok [OF Cons.prems])
qed

lemma pq_refs_push_all:
  "pqh.heap_inv pq \<Longrightarrow> pq_refs (pq_push_all items pq) = pi_task ` set items \<union> pq_refs pq"
  by (auto simp: pq_refs_contents pq_push_all_ok pi_core_def image_Un image_image)

lemma pq_drain_refs: "pqh.heap_inv pq \<Longrightarrow> pi_task ` set (pq_drain pq) = pq_refs pq"
proof -
  assume inv: "pqh.heap_inv pq"
  have "pq_refs pq = fst ` set_mset (mset (map pi_core (pq_drain pq)))"
    by (simp only: pq_refs_contents pq_drain_mset [OF inv])
  then show ?thesis by (force simp: pi_core_def)
qed

text \<open>With strictly increasing priorities the pop order is the list itself.\<close>

lemma pq_drain_push_all:
  assumes "sorted_wrt (<) (map pi_prio items)"
  shows "map pi_core (pq_drain (pq_push_all items [])) = map pi_core items"
proof -
  let ?pq = "pq_push_all items []"
  have inv: "pqh.heap_inv ?pq" and con: "pqh.contents ?pq = mset (map pi_core items)"
    using pq_push_all_ok [of "[]" items] by simp_all
  have ms: "mset (map pi_core (pq_drain ?pq)) = mset (map pi_core items)"
    using pq_drain_mset [OF inv] con by simp
  have prios: "map snd (map pi_core xs) = map pi_prio xs" for xs
    by (simp add: pi_core_def)
  have "sorted (map snd (map pi_core (pq_drain ?pq)))"
    unfolding prios by (rule pq_drain_sorted [OF inv])
  moreover have "sorted_wrt (<) (map snd (map pi_core items))"
    unfolding prios by (rule assms)
  ultimately show ?thesis using ms strictly_sorted_unique by metis
qed

end
