(* ===== verification/TaskQueue.thy ===== *)
theory TaskQueue
  imports TaskModel PriorityQueue
begin

text \<open>
  The scheduler of local downloads, \<open>TaskQueue\<close> of \<open>internal/task/queue.go\<close>. Tasks are shared
  pointers, so the state has a store from addresses to tasks; the map \<open>tq_tasks\<close> and the heap
  hold addresses. A method that releases the lock and takes it again is a composition of its
  critical sections (\<open>queue_add_enter\<close> then \<open>start_task\<close>), so that runs in which another method
  comes between them can be stated too. Callbacks and cancelled contexts are recorded in
  \<open>tq_log\<close>, in the order the code calls them; the \<open>tq_cb\<close> flags say which callbacks are set.
\<close>

section \<open>State\<close>

datatype effect =
    OnTaskStart nat | OnTaskProgress nat | OnTaskComplete nat | OnTaskError nat | CancelFunc nat

record tqueue =
  tq_store :: "nat \<Rightarrow> task"
  tq_tasks :: "string \<rightharpoonup> nat"
  tq_pq :: priority_queue
  tq_max :: int
  tq_active :: int
  tq_cb_start :: bool
  tq_cb_progress :: bool
  tq_cb_complete :: bool
  tq_cb_error :: bool
  tq_log :: "effect list"

datatype queue_error =
    AlreadyExists string | TaskNotFound string | NotDownloading string | NotPaused string
  | StillActive string | PausedNotRemovable string | NotWaiting string | NotInHeap string
  | InvalidHow string

text \<open>Writing through a task pointer, and appending to the log.\<close>

definition write_task :: "nat \<Rightarrow> (task \<Rightarrow> task) \<Rightarrow> tqueue \<Rightarrow> tqueue" where
  "write_task r f q = q\<lparr>tq_store := (tq_store q)(r := f (tq_store q r))\<rparr>"

definition emit :: "bool \<Rightarrow> effect list \<Rightarrow> tqueue \<Rightarrow> tqueue" where
  "emit registered es q = (if registered then q\<lparr>tq_log := tq_log q @ es\<rparr> else q)"

section \<open>Operations\<close>

definition new_task_queue :: "int \<Rightarrow> (nat \<Rightarrow> task) \<Rightarrow> tqueue" where
  "new_task_queue mx store =
     \<lparr>tq_store = store, tq_tasks = Map.empty, tq_pq = heap_init pq_less pq_swap [],
      tq_max = mx, tq_active = 0, tq_cb_start = False, tq_cb_progress = False,
      tq_cb_complete = False, tq_cb_error = False, tq_log = []\<rparr>"

definition start_task :: "instant \<Rightarrow> nat \<Rightarrow> tqueue \<Rightarrow> tqueue" where
  "start_task now r q =
     (let q1 = (write_task r (set_status now StatusDownloading) q)\<lparr>tq_active := tq_active q + 1\<rparr>
      in emit (tq_cb_start q1) [OnTaskStart r] q1)"

definition push_waiting :: "nat \<Rightarrow> tqueue \<Rightarrow> tqueue" where
  "push_waiting r q =
     q\<lparr>tq_pq := hpush (tq_pq q)
         \<lparr>pi_task = r, pi_prio = t_priority (tq_store q r), pi_index = 0\<rparr>\<rparr>"

text \<open>First critical section of \<open>Add\<close>; on success it answers whether the task is to be started.\<close>

definition queue_add_enter :: "nat \<Rightarrow> tqueue \<Rightarrow> tqueue \<times> (queue_error + bool)" where
  "queue_add_enter r q =
     (let tid = t_id (tq_store q r) in
      if tq_tasks q tid \<noteq> None then (q, Inl (AlreadyExists tid))
      else
        let q1 = q\<lparr>tq_tasks := (tq_tasks q)(tid \<mapsto> r)\<rparr>;
            start = (tq_active q1 < tq_max q1 \<and> get_status (tq_store q1 r) = StatusPending)
        in (if start then q1 else push_waiting r q1, Inr start))"

definition queue_add :: "instant \<Rightarrow> nat \<Rightarrow> tqueue \<Rightarrow> tqueue \<times> (queue_error + unit)" where
  "queue_add now r q =
     (case queue_add_enter r q of
        (q1, Inl e) \<Rightarrow> (q1, Inl e)
      | (q1, Inr start) \<Rightarrow> (if start then start_task now r q1 else q1, Inr ()))"

fun find_pq_index :: "(nat \<Rightarrow> task) \<Rightarrow> priority_queue \<Rightarrow> string \<Rightarrow> int" where
  "find_pq_index store [] tid = -1"
| "find_pq_index store (x # xs) tid =
     (if t_id (store (pi_task x)) = tid then pi_index x else find_pq_index store xs tid)"

definition drop_waiting :: "string \<Rightarrow> tqueue \<Rightarrow> tqueue" where
  "drop_waiting tid q =
     (let i = find_pq_index (tq_store q) (tq_pq q) tid in
      if i \<ge> 0 then q\<lparr>tq_pq := snd (hremove (tq_pq q) (nat i))\<rparr> else q)"

definition queue_remove :: "string \<Rightarrow> tqueue \<Rightarrow> tqueue \<times> (queue_error + unit)" where
  "queue_remove tid q =
     (case tq_tasks q tid of
        None \<Rightarrow> (q, Inl (TaskNotFound tid))
      | Some r \<Rightarrow>
          let wasActive = (get_status (tq_store q r) = StatusDownloading);
              q1 = drop_waiting tid (q\<lparr>tq_tasks := (tq_tasks q)(tid := None)\<rparr>);
              q2 = (if wasActive then q1\<lparr>tq_active := tq_active q1 - 1\<rparr> else q1);
              c = cancel_task (tq_store q2 r);
              q3 = write_task r (\<lambda>_. fst c) q2
          in (case snd c of None \<Rightarrow> q3 | Some f \<Rightarrow> emit True [CancelFunc f] q3, Inr ()))"

text \<open>The loop of \<open>tryStartNext\<close>, and the callbacks it makes after the lock is released.\<close>

function try_start_loop :: "instant \<Rightarrow> tqueue \<Rightarrow> nat list \<Rightarrow> tqueue \<times> nat list" where
  "try_start_loop now q started =
     (if tq_active q < tq_max q \<and> tq_pq q \<noteq> [] then
        let item = fst (hpop (tq_pq q)); q1 = q\<lparr>tq_pq := snd (hpop (tq_pq q))\<rparr>; r = pi_task item in
        if get_status (tq_store q1 r) \<noteq> StatusPending then try_start_loop now q1 started
        else try_start_loop now
          ((write_task r (set_status now StatusDownloading) q1)\<lparr>tq_active := tq_active q1 + 1\<rparr>)
          (started @ [r])
      else (q, started))"
  by pat_completeness auto
termination
  by (relation "measure (\<lambda>(now, q, started). length (tq_pq q))")
    (auto simp: pqh.heap_pop_length write_task_def)

declare try_start_loop.simps [simp del]

definition try_start_next :: "instant \<Rightarrow> tqueue \<Rightarrow> tqueue" where
  "try_start_next now q =
     (let r = try_start_loop now q []
      in emit (tq_cb_start (fst r)) (map OnTaskStart (snd r)) (fst r))"

definition queue_pause :: "instant \<Rightarrow> string \<Rightarrow> tqueue \<Rightarrow> tqueue \<times> (queue_error + unit)" where
  "queue_pause now tid q =
     (case tq_tasks q tid of
        None \<Rightarrow> (q, Inl (TaskNotFound tid))
      | Some r \<Rightarrow>
          if get_status (tq_store q r) \<noteq> StatusDownloading then (q, Inl (NotDownloading tid))
          else
            let q1 = (write_task r (set_status now StatusPaused) q)\<lparr>tq_active := tq_active q - 1\<rparr>
            in (try_start_next now q1, Inr ()))"

definition queue_resume_enter :: "instant \<Rightarrow> string \<Rightarrow> tqueue \<Rightarrow> tqueue \<times> (queue_error + nat \<times> bool)" where
  "queue_resume_enter now tid q =
     (case tq_tasks q tid of
        None \<Rightarrow> (q, Inl (TaskNotFound tid))
      | Some r \<Rightarrow>
          if get_status (tq_store q r) \<noteq> StatusPaused then (q, Inl (NotPaused tid))
          else
            let q1 = write_task r (set_status now StatusPending) q;
                start = (tq_active q1 < tq_max q1)
            in (if start then q1 else push_waiting r q1, Inr (r, start)))"

definition queue_resume :: "instant \<Rightarrow> string \<Rightarrow> tqueue \<Rightarrow> tqueue \<times> (queue_error + unit)" where
  "queue_resume now tid q =
     (case queue_resume_enter now tid q of
        (q1, Inl e) \<Rightarrow> (q1, Inl e)
      | (q1, Inr (r, start)) \<Rightarrow> (if start then start_task now r q1 else q1, Inr ()))"

definition queue_get :: "string \<Rightarrow> tqueue \<Rightarrow> queue_error + nat" where
  "queue_get tid q = (case tq_tasks q tid of None \<Rightarrow> Inl (TaskNotFound tid) | Some r \<Rightarrow> Inr r)"

definition queue_list :: "string list \<Rightarrow> tqueue \<Rightarrow> nat list" where
  "queue_list order q = map_values order (tq_tasks q)"

definition active_count :: "tqueue \<Rightarrow> int" where
  "active_count q = tq_active q"

definition total_count :: "tqueue \<Rightarrow> nat" where
  "total_count q = card (dom (tq_tasks q))"

definition set_max_concurrent :: "instant \<Rightarrow> int \<Rightarrow> tqueue \<Rightarrow> tqueue" where
  "set_max_concurrent now mx q = try_start_next now (q\<lparr>tq_max := mx\<rparr>)"

definition release_slot :: "tqueue \<Rightarrow> tqueue" where
  "release_slot q =
     (let a = tq_active q - 1 in q\<lparr>tq_active := (if a < 0 then 0 else a)\<rparr>)"

definition complete_task :: "instant \<Rightarrow> string \<Rightarrow> tqueue \<Rightarrow> tqueue" where
  "complete_task now tid q =
     (case tq_tasks q tid of
        None \<Rightarrow> q
      | Some r \<Rightarrow>
          if get_status (tq_store q r) \<noteq> StatusDownloading then q
          else
            let q1 = release_slot (write_task r (set_status now StatusDone) q);
                q2 = q1\<lparr>tq_tasks := (tq_tasks q1)(tid := None)\<rparr>
            in try_start_next now (emit (tq_cb_complete q2) [OnTaskComplete r] q2))"

definition fail_task :: "instant \<Rightarrow> string \<Rightarrow> string \<Rightarrow> tqueue \<Rightarrow> tqueue" where
  "fail_task now tid msg q =
     (case tq_tasks q tid of
        None \<Rightarrow> q
      | Some r \<Rightarrow>
          if get_status (tq_store q r) \<noteq> StatusDownloading then q
          else
            let q1 = release_slot (write_task r (set_error now msg) q);
                q2 = q1\<lparr>tq_tasks := (tq_tasks q1)(tid := None)\<rparr>
            in try_start_next now (emit (tq_cb_error q2) [OnTaskError r] q2))"

definition notify_progress :: "nat \<Rightarrow> tqueue \<Rightarrow> tqueue" where
  "notify_progress r q = emit (tq_cb_progress q) [OnTaskProgress r] q"

text \<open>
  \<open>PurgeStopped\<close> visits the keys in \<open>order\<close>; deleting the visited key does not disturb Go's
  iteration over the others.
\<close>

fun purge_loop :: "string list \<Rightarrow> tqueue \<Rightarrow> nat \<Rightarrow> tqueue \<times> nat" where
  "purge_loop [] q cnt = (q, cnt)"
| "purge_loop (tid # ids) q cnt =
     (case tq_tasks q tid of
        None \<Rightarrow> purge_loop ids q cnt
      | Some r \<Rightarrow>
          let st = get_status (tq_store q r) in
          if st = StatusDone \<or> st = StatusFailed \<or> st = StatusCancelled
          then purge_loop ids (drop_waiting tid (q\<lparr>tq_tasks := (tq_tasks q)(tid := None)\<rparr>)) (cnt + 1)
          else purge_loop ids q cnt)"

definition purge_stopped :: "string list \<Rightarrow> tqueue \<Rightarrow> tqueue \<times> nat" where
  "purge_stopped order q = purge_loop order q 0"

definition remove_stopped :: "string \<Rightarrow> tqueue \<Rightarrow> tqueue \<times> (queue_error + unit)" where
  "remove_stopped tid q =
     (case tq_tasks q tid of
        None \<Rightarrow> (q, Inl (TaskNotFound tid))
      | Some r \<Rightarrow>
          let st = get_status (tq_store q r) in
          if st = StatusDownloading \<or> st = StatusPending then (q, Inl (StillActive tid))
          else if st = StatusPaused then (q, Inl (PausedNotRemovable tid))
          else (drop_waiting tid (q\<lparr>tq_tasks := (tq_tasks q)(tid := None)\<rparr>), Inr ()))"

definition max_concurrent :: "tqueue \<Rightarrow> int" where
  "max_concurrent q = tq_max q"

section \<open>Changing a position\<close>

fun position_of :: "(nat \<Rightarrow> task) \<Rightarrow> pitem list \<Rightarrow> string \<Rightarrow> nat option" where
  "position_of store [] tid = None"
| "position_of store (x # xs) tid =
     (if t_id (store (pi_task x)) = tid then Some 0 else map_option Suc (position_of store xs tid))"

text \<open>The requested position before clamping; \<open>None\<close> for an unknown \<open>how\<close>.\<close>

definition wanted_position :: "string \<Rightarrow> int \<Rightarrow> nat \<Rightarrow> nat \<Rightarrow> int option" where
  "wanted_position how pos cur n =
     (if how = ''POS_SET'' then Some pos
      else if how = ''POS_CUR'' then Some (i64 (int cur + pos))
      else if how = ''POS_END'' then Some (i64 (int n - 1 + pos))
      else None)"

definition clamp_position :: "int \<Rightarrow> nat \<Rightarrow> nat" where
  "clamp_position p n =
     (let p1 = (if p < 0 then 0 else p); p2 = (if p1 \<ge> int n then int n - 1 else p1) in nat p2)"

text \<open>The two \<open>copy\<close> calls that shift the elements between the old and the new place.\<close>

definition move_item :: "'a list \<Rightarrow> nat \<Rightarrow> nat \<Rightarrow> 'a list" where
  "move_item items cur new =
     (let moved = items ! cur;
          shifted =
            (if new > cur
             then take cur items @ take (new - cur) (drop (cur + 1) items) @ drop new items
             else take (new + 1) items @ take (cur - new) (drop new items) @ drop (cur + 1) items)
      in shifted[new := moved])"

text \<open>The final loop: item \<open>i\<close> and its task get priority \<open>i\<close>, then the item is pushed.\<close>

fun renumber :: "pitem list \<Rightarrow> nat \<Rightarrow> tqueue \<Rightarrow> tqueue" where
  "renumber [] i q = q"
| "renumber (x # xs) i q =
     (let q1 = write_task (pi_task x) (\<lambda>t. t\<lparr>t_priority := int i\<rparr>) q
      in renumber xs (Suc i) (q1\<lparr>tq_pq := hpush (tq_pq q1) (x\<lparr>pi_prio := int i\<rparr>)\<rparr>))"

definition change_position ::
  "string \<Rightarrow> int \<Rightarrow> string \<Rightarrow> tqueue \<Rightarrow> tqueue \<times> (queue_error + nat)" where
  "change_position tid pos how q =
     (case tq_tasks q tid of
        None \<Rightarrow> (q, Inl (TaskNotFound tid))
      | Some r \<Rightarrow>
          if get_status (tq_store q r) \<noteq> StatusPending then (q, Inl (NotWaiting tid))
          else
            let items = pq_drain (tq_pq q); restored = q\<lparr>tq_pq := pq_push_all items []\<rparr> in
            (case position_of (tq_store q) items tid of
               None \<Rightarrow> (restored, Inl (NotInHeap tid))
             | Some cur \<Rightarrow>
                 (case wanted_position how pos cur (length items) of
                    None \<Rightarrow> (restored, Inl (InvalidHow how))
                  | Some p \<Rightarrow>
                      let new = clamp_position p (length items)
                      in (renumber (move_item items cur new) 0 (q\<lparr>tq_pq := []\<rparr>), Inr new))))"

end
