(* ===== verification/TaskQueueInv.thy ===== *)
theory TaskQueueInv
  imports TaskQueue
begin

text \<open>
  The invariant of the task queue and its preservation. \<open>P\<close> collects the tasks whose \<open>Add\<close> or
  \<open>Resume\<close> has left its first critical section and will start the task in its second.
\<close>

section \<open>The invariant\<close>

definition downloading :: "tqueue \<Rightarrow> string set" where
  "downloading q =
     {tid. \<exists>r. tq_tasks q tid = Some r \<and> t_status (tq_store q r) = StatusDownloading}"

definition ids_ok :: "tqueue \<Rightarrow> bool" where
  "ids_ok q \<longleftrightarrow> (\<forall>tid r. tq_tasks q tid = Some r \<longrightarrow> t_id (tq_store q r) = tid)"

definition count_ok :: "tqueue \<Rightarrow> bool" where
  "count_ok q \<longleftrightarrow> finite (dom (tq_tasks q)) \<and> tq_active q = int (card (downloading q))"

definition waiting_ok :: "nat set \<Rightarrow> tqueue \<Rightarrow> bool" where
  "waiting_ok P q \<longleftrightarrow> (\<forall>tid r. tq_tasks q tid = Some r \<and> t_status (tq_store q r) = StatusPending \<and> r \<notin> P
     \<longrightarrow> r \<in> pq_refs (tq_pq q))"

definition live_ok :: "tqueue \<Rightarrow> bool" where
  "live_ok q \<longleftrightarrow> (\<forall>r \<in> pq_refs (tq_pq q). t_status (tq_store q r) = StatusPending
     \<longrightarrow> tq_tasks q (t_id (tq_store q r)) = Some r)"

definition queue_inv :: "nat set \<Rightarrow> tqueue \<Rightarrow> bool" where
  "queue_inv P q \<longleftrightarrow>
     pqh.heap_inv (tq_pq q) \<and> ids_ok q \<and> count_ok q \<and> waiting_ok P q \<and> live_ok q"

lemma queue_invI:
  "pqh.heap_inv (tq_pq q) \<Longrightarrow> ids_ok q \<Longrightarrow> count_ok q \<Longrightarrow> waiting_ok P q \<Longrightarrow> live_ok q \<Longrightarrow> queue_inv P q"
  by (simp add: queue_inv_def)

lemma queue_invD:
  assumes "queue_inv P q"
  shows "pqh.heap_inv (tq_pq q)" "ids_ok q" "finite (dom (tq_tasks q))"
    "tq_active q = int (card (downloading q))" "waiting_ok P q" "live_ok q"
  using assms by (simp_all add: queue_inv_def count_ok_def)

lemma tracked_unique:
  "ids_ok q \<Longrightarrow> tq_tasks q a = Some r \<Longrightarrow> tq_tasks q b = Some r \<Longrightarrow> a = b"
  unfolding ids_ok_def by blast

lemmas inv_defs = queue_inv_def ids_ok_def count_ok_def waiting_ok_def live_ok_def

lemma downloading_finite: "finite (dom (tq_tasks q)) \<Longrightarrow> finite (downloading q)"
  by (rule finite_subset [of _ "dom (tq_tasks q)"]) (auto simp: downloading_def)

lemma active_nonneg: "queue_inv P q \<Longrightarrow> 0 \<le> tq_active q"
  by (simp add: queue_inv_def count_ok_def)

lemma active_pos:
  assumes "queue_inv P q" "tq_tasks q tid = Some r" "t_status (tq_store q r) = StatusDownloading"
  shows "0 < tq_active q"
proof -
  have "tid \<in> downloading q" using assms(2,3) by (auto simp: downloading_def)
  moreover have "finite (downloading q)"
    using assms(1) by (simp add: queue_inv_def count_ok_def downloading_finite)
  ultimately show ?thesis using assms(1) by (auto simp: queue_inv_def count_ok_def card_gt_0_iff)
qed

section \<open>One task changes its status\<close>

text \<open>The general frame: a tracked task is rewritten, nothing else.\<close>

lemma downloading_write:
  assumes "ids_ok q" "tq_tasks q tid = Some r" "\<And>t. t_id (f t) = t_id t"
  shows "downloading (write_task r f q) =
    (if t_status (f (tq_store q r)) = StatusDownloading then insert tid (downloading q)
     else downloading q - {tid})"
proof -
  have other: "r' \<noteq> r" if "tq_tasks q x = Some r'" "x \<noteq> tid" for x r'
    using tracked_unique [OF assms(1,2)] that by blast
  have mem: "x \<in> downloading (write_task r f q) \<longleftrightarrow>
      (if x = tid then t_status (f (tq_store q r)) = StatusDownloading else x \<in> downloading q)" for x
    using assms(2) other [of x] by (cases "tq_tasks q x") (auto simp: downloading_def write_task_def)
  show ?thesis unfolding set_eq_iff by (simp add: mem)
qed

lemma ids_ok_write: "ids_ok q \<Longrightarrow> (\<And>t. t_id (f t) = t_id t) \<Longrightarrow> ids_ok (write_task r f q)"
  by (auto simp: ids_ok_def write_task_def)

lemma downloading_cong:
  "tq_tasks q' = tq_tasks q \<Longrightarrow> tq_store q' = tq_store q \<Longrightarrow> downloading q' = downloading q"
  by (simp add: downloading_def)

text \<open>The invariant reads the store, the map, the heap and the counter only.\<close>

lemma queue_inv_cong:
  assumes "tq_tasks q' = tq_tasks q" "tq_store q' = tq_store q" "tq_pq q' = tq_pq q"
    "tq_active q' = tq_active q"
  shows "queue_inv P q' = queue_inv P q"
  using assms downloading_cong [OF assms(1,2)] by (simp add: inv_defs)

lemma queue_inv_emit [simp]: "queue_inv P (emit b es q) = queue_inv P q"
  by (rule queue_inv_cong) (simp_all add: emit_def)

lemma queue_inv_max [simp]: "queue_inv P (q\<lparr>tq_max := m\<rparr>) = queue_inv P q"
  by (rule queue_inv_cong) simp_all

lemma write_task_fields [simp]:
  "tq_tasks (write_task r f q) = tq_tasks q" "tq_pq (write_task r f q) = tq_pq q"
  "tq_active (write_task r f q) = tq_active q" "tq_max (write_task r f q) = tq_max q"
  "tq_log (write_task r f q) = tq_log q" "tq_cb_start (write_task r f q) = tq_cb_start q"
  "tq_store (write_task r f q) = (tq_store q)(r := f (tq_store q r))"
  by (simp_all add: write_task_def)

lemma emit_fields [simp]:
  "tq_tasks (emit b es q) = tq_tasks q" "tq_pq (emit b es q) = tq_pq q"
  "tq_active (emit b es q) = tq_active q" "tq_max (emit b es q) = tq_max q"
  "tq_store (emit b es q) = tq_store q" "tq_cb_start (emit b es q) = tq_cb_start q"
  by (simp_all add: emit_def)

lemma downloading_fields [simp]:
  "downloading (q\<lparr>tq_active := a\<rparr>) = downloading q"
  "downloading (q\<lparr>tq_pq := h\<rparr>) = downloading q"
  by (simp_all add: downloading_def)

text \<open>Entering the downloading state takes a slot.\<close>

lemma inv_begin_download:
  assumes inv: "queue_inv P q" and tr: "tq_tasks q tid = Some r"
    and st: "t_status (tq_store q r) \<noteq> StatusDownloading"
  shows "queue_inv (P - {r})
    ((write_task r (set_status now StatusDownloading) q)\<lparr>tq_active := tq_active q + 1\<rparr>)"
proof -
  let ?w = "write_task r (set_status now StatusDownloading) q"
  have ids: "ids_ok q" and fin: "finite (dom (tq_tasks q))" using inv by (simp_all add: inv_defs)
  have dl: "downloading ?w = insert tid (downloading q)"
    using downloading_write [OF ids tr, of "set_status now StatusDownloading"] by simp
  have "tid \<notin> downloading q" using tr st by (auto simp: downloading_def)
  then have card: "card (downloading ?w) = Suc (card (downloading q))"
    using dl downloading_finite [OF fin] by simp
  show ?thesis
  proof (rule queue_invI)
    show "ids_ok (?w\<lparr>tq_active := tq_active q + 1\<rparr>)"
      using ids_ok_write [OF ids, of "set_status now StatusDownloading" r] by (simp add: ids_ok_def)
    show "count_ok (?w\<lparr>tq_active := tq_active q + 1\<rparr>)"
      using card fin queue_invD(4) [OF inv] by (simp add: count_ok_def)
    show "waiting_ok (P - {r}) (?w\<lparr>tq_active := tq_active q + 1\<rparr>)"
      using queue_invD(5) [OF inv] by (auto simp: waiting_ok_def split: if_splits)
    show "live_ok (?w\<lparr>tq_active := tq_active q + 1\<rparr>)"
      using queue_invD(6) [OF inv] by (auto simp: live_ok_def split: if_splits)
  qed (use queue_invD(1) [OF inv] in simp)
qed

lemma inv_start_task:
  assumes "queue_inv P q" "tq_tasks q tid = Some r" "t_status (tq_store q r) \<noteq> StatusDownloading"
  shows "queue_inv (P - {r}) (start_task now r q)"
  using inv_begin_download [OF assms] by (simp add: start_task_def Let_def)

text \<open>Leaving it frees the slot; the task may stay tracked or be forgotten.\<close>

lemma inv_end_download:
  assumes inv: "queue_inv P q" and tr: "tq_tasks q tid = Some r"
    and st: "t_status (tq_store q r) = StatusDownloading"
    and f: "\<And>t. t_id (f t) = t_id t"
    and new: "t_status (f (tq_store q r)) \<notin> {StatusDownloading, StatusPending}"
  shows "queue_inv P ((write_task r f q)\<lparr>tq_active := tq_active q - 1\<rparr>)"
proof -
  have ids: "ids_ok q" and fin: "finite (dom (tq_tasks q))" using inv by (simp_all add: inv_defs)
  have dl: "downloading (write_task r f q) = downloading q - {tid}"
    using downloading_write [OF ids tr f] new by simp
  have "tid \<in> downloading q" using tr st by (auto simp: downloading_def)
  then have card: "int (card (downloading (write_task r f q))) = int (card (downloading q)) - 1"
    using dl downloading_finite [OF fin] card_Suc_Diff1 [of "downloading q" tid] by simp
  show ?thesis
  proof (rule queue_invI)
    show "ids_ok ((write_task r f q)\<lparr>tq_active := tq_active q - 1\<rparr>)"
      using ids_ok_write [OF ids f, of r] by (simp add: ids_ok_def)
    show "count_ok ((write_task r f q)\<lparr>tq_active := tq_active q - 1\<rparr>)"
      using card fin queue_invD(4) [OF inv] by (simp add: count_ok_def)
    show "waiting_ok P ((write_task r f q)\<lparr>tq_active := tq_active q - 1\<rparr>)"
      using queue_invD(5) [OF inv] new by (auto simp: waiting_ok_def split: if_splits)
    show "live_ok ((write_task r f q)\<lparr>tq_active := tq_active q - 1\<rparr>)"
      using queue_invD(6) [OF inv] new f by (auto simp: live_ok_def split: if_splits)
  qed (use queue_invD(1) [OF inv] in simp)
qed

lemma inv_forget:
  assumes inv: "queue_inv P q" and tr: "tq_tasks q tid = Some r"
    and st: "t_status (tq_store q r) \<notin> {StatusDownloading, StatusPending}"
  shows "queue_inv P (q\<lparr>tq_tasks := (tq_tasks q)(tid := None)\<rparr>)"
proof -
  let ?q = "q\<lparr>tq_tasks := (tq_tasks q)(tid := None)\<rparr>"
  have "downloading ?q = downloading q" using tr st by (auto simp: downloading_def)
  with inv have "count_ok ?q" by (simp add: count_ok_def queue_inv_def)
  moreover have "ids_ok ?q" using queue_invD(2) [OF inv] by (simp add: ids_ok_def)
  moreover have "waiting_ok P ?q" using queue_invD(5) [OF inv] by (auto simp: waiting_ok_def)
  moreover have "live_ok ?q"
    unfolding live_ok_def
  proof (intro ballI impI)
    fix r' assume r': "r' \<in> pq_refs (tq_pq ?q)" "t_status (tq_store ?q r') = StatusPending"
    with queue_invD(6) [OF inv] have "tq_tasks q (t_id (tq_store q r')) = Some r'"
      by (simp add: live_ok_def)
    moreover have "r' \<noteq> r" using r' st by auto
    ultimately show "tq_tasks ?q (t_id (tq_store ?q r')) = Some r'" using tr by auto
  qed
  ultimately show ?thesis using queue_invD(1) [OF inv] by (simp add: queue_invI)
qed

section \<open>Heap entries\<close>

lemma inv_push:
  assumes inv: "queue_inv (insert r P) q"
    and live: "t_status (tq_store q r) = StatusPending \<Longrightarrow> tq_tasks q (t_id (tq_store q r)) = Some r"
  shows "queue_inv P (push_waiting r q)"
proof -
  have d: "downloading (push_waiting r q) = downloading q"
    by (rule downloading_cong) (simp_all add: push_waiting_def)
  have refs: "pq_refs (tq_pq (push_waiting r q)) = insert r (pq_refs (tq_pq q))"
    by (simp add: push_waiting_def pq_refs_push [OF queue_invD(1) [OF inv]])
  have f: "tq_tasks (push_waiting r q) = tq_tasks q" "tq_store (push_waiting r q) = tq_store q"
    "tq_active (push_waiting r q) = tq_active q"
    by (simp_all add: push_waiting_def)
  show ?thesis
  proof (rule queue_invI)
    show "pqh.heap_inv (tq_pq (push_waiting r q))"
      by (simp add: push_waiting_def pqh.heap_push_ok(1) [OF queue_invD(1) [OF inv]])
    show "waiting_ok P (push_waiting r q)"
      using queue_invD(5) [OF inv] by (auto simp: waiting_ok_def f refs)
    show "live_ok (push_waiting r q)"
      using queue_invD(6) [OF inv] live by (auto simp: live_ok_def f refs)
  qed (use queue_invD(2-4) [OF inv] d in \<open>simp_all add: ids_ok_def count_ok_def f\<close>)
qed

text \<open>The index found is that of an entry of the wanted task, so \<open>heap.Remove\<close> is in range.\<close>

lemma find_pq_index_nth:
  "find_pq_index store pq tid = i \<Longrightarrow> 0 \<le> i \<Longrightarrow>
   \<exists>k < length pq. pi_index (pq ! k) = i \<and> t_id (store (pi_task (pq ! k))) = tid"
proof (induction pq)
  case Nil
  then show ?case by simp
next
  case (Cons x xs)
  show ?case
  proof (cases "t_id (store (pi_task x)) = tid")
    case True
    with Cons.prems show ?thesis by (intro exI [of _ 0]) simp
  next
    case False
    with Cons show ?thesis by (metis find_pq_index.simps(2) length_Cons not_less_eq nth_Cons_Suc)
  qed
qed

lemma find_pq_index_ok:
  assumes "pqh.heap_inv pq" "find_pq_index store pq tid = i" "0 \<le> i"
  shows "nat i < length pq \<and> t_id (store (pi_task (pq ! nat i))) = tid"
proof -
  from find_pq_index_nth [OF assms(2,3)] obtain k
    where k: "k < length pq" "pi_index (pq ! k) = i" "t_id (store (pi_task (pq ! k))) = tid" by blast
  with assms(1) have "i = int k" by (auto simp: pqh.heap_inv_def pqh.tracked_def)
  with k show ?thesis by simp
qed

lemma find_pq_index_none:
  "find_pq_index store pq tid < 0 \<Longrightarrow> pqh.tracked pq \<Longrightarrow> x \<in> set pq \<Longrightarrow> t_id (store (pi_task x)) \<noteq> tid"
proof -
  assume tr: "pqh.tracked pq" and neg: "find_pq_index store pq tid < 0" and x: "x \<in> set pq"
  have "\<forall>y \<in> set pq. 0 \<le> pi_index y"
    using tr by (auto simp: pqh.tracked_def in_set_conv_nth)
  with neg x show ?thesis by (induction pq) (auto split: if_splits)
qed

lemma drop_waiting_fields [simp]:
  "tq_tasks (drop_waiting tid q) = tq_tasks q" "tq_store (drop_waiting tid q) = tq_store q"
  "tq_active (drop_waiting tid q) = tq_active q" "tq_max (drop_waiting tid q) = tq_max q"
  "tq_log (drop_waiting tid q) = tq_log q"
  by (simp_all add: drop_waiting_def Let_def)

lemma drop_waiting_refs:
  assumes "pqh.heap_inv (tq_pq q)"
  shows "pqh.heap_inv (tq_pq (drop_waiting tid q)) \<and>
    pq_refs (tq_pq (drop_waiting tid q)) \<subseteq> pq_refs (tq_pq q) \<and>
    (\<forall>r \<in> pq_refs (tq_pq q). t_id (tq_store q r) \<noteq> tid \<longrightarrow> r \<in> pq_refs (tq_pq (drop_waiting tid q)))"
proof (cases "0 \<le> find_pq_index (tq_store q) (tq_pq q) tid")
  case True
  then have k: "nat (find_pq_index (tq_store q) (tq_pq q) tid) < length (tq_pq q)"
    and t: "t_id (tq_store q (pi_task (tq_pq q ! nat (find_pq_index (tq_store q) (tq_pq q) tid)))) = tid"
    using find_pq_index_ok [OF assms refl] by blast+
  show ?thesis
    using True pq_refs_remove [OF assms k] pqh.heap_remove_ok(1) [OF assms k] t
    by (auto simp: drop_waiting_def Let_def)
next
  case False
  then show ?thesis using assms by (simp add: drop_waiting_def Let_def)
qed

lemma inv_drop:
  assumes inv: "queue_inv P q" and gone: "tq_tasks q tid = None"
  shows "queue_inv P (drop_waiting tid q)"
proof -
  have d: "downloading (drop_waiting tid q) = downloading q" by (rule downloading_cong) simp_all
  have "pqh.heap_inv (tq_pq q)" using inv by (simp add: queue_inv_def)
  from drop_waiting_refs [OF this, of tid] inv gone d show ?thesis
    by (simp add: inv_defs) (metis option.distinct(1) subsetD)
qed

section \<open>Starting waiting tasks\<close>

lemma inv_weaken: "queue_inv P q \<Longrightarrow> P \<subseteq> P' \<Longrightarrow> queue_inv P' q"
  by (auto simp: queue_inv_def waiting_ok_def)

lemma inv_settled: "queue_inv (insert r P) q \<Longrightarrow> t_status (tq_store q r) \<noteq> StatusPending \<Longrightarrow> queue_inv P q"
  by (auto simp: queue_inv_def waiting_ok_def)

lemma inv_pop:
  assumes inv: "queue_inv P q" and ne: "tq_pq q \<noteq> []"
  shows "queue_inv (insert (pi_task (fst (hpop (tq_pq q)))) P) (q\<lparr>tq_pq := snd (hpop (tq_pq q))\<rparr>)"
proof -
  note refs = pq_refs_pop [OF queue_invD(1) [OF inv] ne]
  show ?thesis
  proof (rule queue_invI)
    show "pqh.heap_inv (tq_pq (q\<lparr>tq_pq := snd (hpop (tq_pq q))\<rparr>))"
      using pqh.heap_pop_ok(1) [OF queue_invD(1) [OF inv] ne] by simp
    show "waiting_ok (insert (pi_task (fst (hpop (tq_pq q)))) P) (q\<lparr>tq_pq := snd (hpop (tq_pq q))\<rparr>)"
      using queue_invD(5) [OF inv] refs by (auto simp: waiting_ok_def)
    show "live_ok (q\<lparr>tq_pq := snd (hpop (tq_pq q))\<rparr>)"
      using queue_invD(6) [OF inv] refs by (auto simp: live_ok_def)
  qed (use queue_invD(2-4) [OF inv] in \<open>simp_all add: ids_ok_def count_ok_def\<close>)
qed

text \<open>One turn of the loop, split by what is popped.\<close>

lemma try_start_loop_stop:
  "\<not> (tq_active q < tq_max q \<and> tq_pq q \<noteq> []) \<Longrightarrow> try_start_loop now q started = (q, started)"
  by (subst try_start_loop.simps) auto

lemma try_start_loop_skip:
  assumes "tq_active q < tq_max q" "tq_pq q \<noteq> []"
    "t_status (tq_store q (pi_task (fst (hpop (tq_pq q))))) \<noteq> StatusPending"
  shows "try_start_loop now q started = try_start_loop now (q\<lparr>tq_pq := snd (hpop (tq_pq q))\<rparr>) started"
  using assms by (subst try_start_loop.simps) (simp add: Let_def get_status_def)

lemma try_start_loop_go:
  assumes "tq_active q < tq_max q" "tq_pq q \<noteq> []" "r = pi_task (fst (hpop (tq_pq q)))"
    "t_status (tq_store q r) = StatusPending" "q1 = q\<lparr>tq_pq := snd (hpop (tq_pq q))\<rparr>"
  shows "try_start_loop now q started = try_start_loop now
    ((write_task r (set_status now StatusDownloading) q1)\<lparr>tq_active := tq_active q1 + 1\<rparr>) (started @ [r])"
  using assms by (subst try_start_loop.simps) (simp add: Let_def get_status_def)

lemma inv_try_start_loop:
  "queue_inv P q \<Longrightarrow> queue_inv P (fst (try_start_loop now q started))"
proof (induction "length (tq_pq q)" arbitrary: q started rule: less_induct)
  case less
  show ?case
  proof (cases "tq_active q < tq_max q \<and> tq_pq q \<noteq> []")
    case False
    then show ?thesis using less.prems by (simp add: try_start_loop_stop)
  next
    case True
    let ?r = "pi_task (fst (hpop (tq_pq q)))" and ?q1 = "q\<lparr>tq_pq := snd (hpop (tq_pq q))\<rparr>"
    have short: "length (tq_pq ?q1) < length (tq_pq q)" using True by (simp add: pqh.heap_pop_length)
    have inv1: "queue_inv (insert ?r P) ?q1" using inv_pop [OF less.prems] True by simp
    show ?thesis
    proof (cases "t_status (tq_store q ?r) = StatusPending")
      case False
      then have "queue_inv P ?q1" using inv_settled [OF inv1] by simp
      from less.hyps [OF short this] True False show ?thesis by (simp add: try_start_loop_skip)
    next
      case pend: True
      have "?r \<in> pq_refs (tq_pq q)"
        using pq_refs_pop [OF queue_invD(1) [OF less.prems]] True by simp
      then have tr: "tq_tasks ?q1 (t_id (tq_store q ?r)) = Some ?r"
        using queue_invD(6) [OF less.prems] pend by (simp add: live_ok_def)
      let ?q2 = "(write_task ?r (set_status now StatusDownloading) ?q1)\<lparr>tq_active := tq_active ?q1 + 1\<rparr>"
      have "queue_inv (insert ?r P - {?r}) ?q2"
        by (rule inv_begin_download [OF inv1 tr]) (simp add: pend)
      then have "queue_inv P ?q2" by (rule inv_weaken) auto
      moreover have "length (tq_pq ?q2) < length (tq_pq q)" using short by simp
      ultimately show ?thesis
        using less.hyps True pend by (simp add: try_start_loop_go [OF _ _ refl _ refl])
    qed
  qed
qed

lemma inv_try_start_next: "queue_inv P q \<Longrightarrow> queue_inv P (try_start_next now q)"
  by (simp add: try_start_next_def Let_def inv_try_start_loop)

text \<open>What a run of the loop leaves alone, and the bound on the counter.\<close>

lemma try_start_loop_frame:
  "tq_tasks (fst (try_start_loop now q started)) = tq_tasks q \<and>
   tq_max (fst (try_start_loop now q started)) = tq_max q \<and>
   tq_log (fst (try_start_loop now q started)) = tq_log q \<and>
   tq_cb_start (fst (try_start_loop now q started)) = tq_cb_start q \<and>
   tq_active q \<le> tq_active (fst (try_start_loop now q started)) \<and>
   tq_active (fst (try_start_loop now q started)) \<le> max (tq_active q) (tq_max q) \<and>
   (tq_active (fst (try_start_loop now q started)) < tq_max q \<longrightarrow>
      tq_pq (fst (try_start_loop now q started)) = [])"
proof (induction "length (tq_pq q)" arbitrary: q started rule: less_induct)
  case less
  show ?case
  proof (cases "tq_active q < tq_max q \<and> tq_pq q \<noteq> []")
    case False
    then show ?thesis by (auto simp: try_start_loop_stop)
  next
    case True
    let ?r = "pi_task (fst (hpop (tq_pq q)))" and ?q1 = "q\<lparr>tq_pq := snd (hpop (tq_pq q))\<rparr>"
    have short: "length (tq_pq ?q1) < length (tq_pq q)" using True by (simp add: pqh.heap_pop_length)
    show ?thesis
    proof (cases "t_status (tq_store q ?r) = StatusPending")
      case False
      from less.hyps [OF short] True False show ?thesis by (simp add: try_start_loop_skip)
    next
      case pend: True
      let ?q2 = "(write_task ?r (set_status now StatusDownloading) ?q1)\<lparr>tq_active := tq_active ?q1 + 1\<rparr>"
      have "length (tq_pq ?q2) < length (tq_pq q)" using short by simp
      from less.hyps [OF this, of "started @ [?r]"] True pend show ?thesis
        by (auto simp: try_start_loop_go [OF _ _ refl _ refl])
    qed
  qed
qed

lemma try_start_next_frame [simp]:
  "tq_tasks (try_start_next now q) = tq_tasks q" "tq_max (try_start_next now q) = tq_max q"
  by (simp_all add: try_start_next_def Let_def try_start_loop_frame)

lemma try_start_next_active:
  "tq_active q \<le> tq_active (try_start_next now q)"
  "tq_active (try_start_next now q) \<le> max (tq_active q) (tq_max q)"
  "tq_active (try_start_next now q) < tq_max q \<Longrightarrow> tq_pq (try_start_next now q) = []"
  using try_start_loop_frame [of now q "[]"] by (simp_all add: try_start_next_def Let_def)

section \<open>Every operation keeps the invariant\<close>

lemma inv_add_enter:
  assumes inv: "queue_inv P q" and st: "t_status (tq_store q r) \<noteq> StatusDownloading"
    and res: "queue_add_enter r q = (q1, Inr start)"
  shows "queue_inv (if start then insert r P else P) q1 \<and>
    tq_tasks q1 (t_id (tq_store q r)) = Some r \<and> tq_store q1 = tq_store q \<and>
    (start \<longrightarrow> t_status (tq_store q1 r) = StatusPending \<and> tq_active q1 < tq_max q1 \<and> tq_active q1 = tq_active q)"
proof -
  let ?id = "t_id (tq_store q r)"
  let ?q1 = "q\<lparr>tq_tasks := (tq_tasks q)(?id \<mapsto> r)\<rparr>"
  from res have none: "tq_tasks q ?id = None"
    by (auto simp: queue_add_enter_def Let_def split: if_splits)
  have "downloading ?q1 = downloading q" using none st by (auto simp: downloading_def)
  then have "count_ok ?q1" using queue_invD(3,4) [OF inv] by (simp add: count_ok_def)
  moreover have "ids_ok ?q1" using queue_invD(2) [OF inv] by (simp add: ids_ok_def)
  moreover have "waiting_ok (insert r P) ?q1" using queue_invD(5) [OF inv] by (auto simp: waiting_ok_def)
  moreover have "live_ok ?q1" using queue_invD(6) [OF inv] none by (auto simp: live_ok_def)
  ultimately have inv1: "queue_inv (insert r P) ?q1" using queue_invD(1) [OF inv] by (simp add: queue_invI)
  moreover have "queue_inv P (push_waiting r ?q1)" by (rule inv_push [OF inv1]) simp
  ultimately show ?thesis
    using res none by (auto simp: queue_add_enter_def Let_def get_status_def push_waiting_def)
qed

lemma inv_add:
  assumes inv: "queue_inv {} q" and st: "t_status (tq_store q r) \<noteq> StatusDownloading"
  shows "queue_inv {} (fst (queue_add now r q))"
proof (cases "queue_add_enter r q")
  case (Pair q1 res)
  show ?thesis
  proof (cases res)
    case (Inl e)
    with Pair have "q1 = q" by (auto simp: queue_add_enter_def Let_def split: if_splits)
    with Pair Inl inv show ?thesis by (simp add: queue_add_def)
  next
    case (Inr start)
    note e = inv_add_enter [OF inv st Pair [unfolded Inr]]
    show ?thesis
    proof (cases start)
      case True
      with e have "queue_inv ({r} - {r}) (start_task now r q1)"
        by (intro inv_start_task [where tid = "t_id (tq_store q r)"]) auto
      with Pair Inr True show ?thesis by (simp add: queue_add_def)
    next
      case False
      with e Pair Inr show ?thesis by (simp add: queue_add_def)
    qed
  qed
qed

lemma inv_resume:
  assumes inv: "queue_inv {} q"
  shows "queue_inv {} (fst (queue_resume now tid q))"
proof (cases "\<exists>r. tq_tasks q tid = Some r \<and> t_status (tq_store q r) = StatusPaused")
  case False
  then have "fst (queue_resume now tid q) = q"
    by (auto simp: queue_resume_def queue_resume_enter_def get_status_def split: option.splits)
  with inv show ?thesis by simp
next
  case True
  then obtain r where r: "tq_tasks q tid = Some r" "t_status (tq_store q r) = StatusPaused" by blast
  let ?w = "write_task r (set_status now StatusPending) q"
  note ids = queue_invD(2) [OF inv]
  have tid: "t_id (tq_store q r) = tid" using ids r by (simp add: ids_ok_def)
  have "downloading ?w = downloading q"
    using downloading_write [OF ids r(1), of "set_status now StatusPending"] r by (auto simp: downloading_def)
  then have "count_ok ?w" using queue_invD(3,4) [OF inv] by (simp add: count_ok_def)
  moreover have "ids_ok ?w" using ids by (rule ids_ok_write) simp
  moreover have "waiting_ok {r} ?w" using queue_invD(5) [OF inv] by (auto simp: waiting_ok_def)
  moreover have "live_ok ?w" using queue_invD(6) [OF inv] r tid by (auto simp: live_ok_def)
  ultimately have inv1: "queue_inv {r} ?w" using queue_invD(1) [OF inv] by (simp add: queue_invI)
  have "queue_inv ({r} - {r}) (start_task now r ?w)"
    by (rule inv_start_task [OF inv1, of tid]) (use r in simp_all)
  moreover have "queue_inv {} (push_waiting r ?w)"
    by (rule inv_push) (use inv1 r tid in simp_all)
  ultimately show ?thesis
    using r by (simp add: queue_resume_def queue_resume_enter_def Let_def get_status_def)
qed

lemma inv_pause:
  assumes inv: "queue_inv P q"
  shows "queue_inv P (fst (queue_pause now tid q))"
proof (cases "\<exists>r. tq_tasks q tid = Some r \<and> t_status (tq_store q r) = StatusDownloading")
  case False
  then have "fst (queue_pause now tid q) = q"
    by (auto simp: queue_pause_def get_status_def split: option.splits)
  with inv show ?thesis by simp
next
  case True
  then obtain r where r: "tq_tasks q tid = Some r" "t_status (tq_store q r) = StatusDownloading" by blast
  have "queue_inv P ((write_task r (set_status now StatusPaused) q)\<lparr>tq_active := tq_active q - 1\<rparr>)"
    by (rule inv_end_download [OF inv r]) simp_all
  then show ?thesis
    using r inv_try_start_next by (simp add: queue_pause_def Let_def get_status_def)
qed

text \<open>The common part of completing and failing: the floor at zero is never needed.\<close>

lemma inv_finish:
  assumes inv: "queue_inv P q" and r: "tq_tasks q tid = Some r" "t_status (tq_store q r) = StatusDownloading"
    and f: "\<And>t. t_id (f t) = t_id t" "\<And>t. t_status (f t) \<notin> {StatusDownloading, StatusPending}"
  shows "queue_inv P ((release_slot (write_task r f q))
    \<lparr>tq_tasks := (tq_tasks (release_slot (write_task r f q)))(tid := None)\<rparr>)"
proof -
  have "release_slot (write_task r f q) = (write_task r f q)\<lparr>tq_active := tq_active q - 1\<rparr>"
    using active_pos [OF inv r] by (simp add: release_slot_def)
  moreover have "queue_inv P ((write_task r f q)\<lparr>tq_active := tq_active q - 1\<rparr>)"
    by (rule inv_end_download [OF inv r f(1) f(2)])
  ultimately show ?thesis
    using inv_forget [of P "(write_task r f q)\<lparr>tq_active := tq_active q - 1\<rparr>" tid r] r f(2) by simp
qed

lemma inv_complete:
  assumes inv: "queue_inv P q"
  shows "queue_inv P (complete_task now tid q)"
proof (cases "\<exists>r. tq_tasks q tid = Some r \<and> t_status (tq_store q r) = StatusDownloading")
  case False
  then have "complete_task now tid q = q"
    by (auto simp: complete_task_def get_status_def split: option.splits)
  with inv show ?thesis by simp
next
  case True
  then obtain r where r: "tq_tasks q tid = Some r" "t_status (tq_store q r) = StatusDownloading" by blast
  from inv_finish [OF inv r, of "set_status now StatusDone"] r show ?thesis
    by (simp add: complete_task_def Let_def get_status_def inv_try_start_next)
qed

lemma inv_fail:
  assumes inv: "queue_inv P q"
  shows "queue_inv P (fail_task now tid msg q)"
proof (cases "\<exists>r. tq_tasks q tid = Some r \<and> t_status (tq_store q r) = StatusDownloading")
  case False
  then have "fail_task now tid msg q = q"
    by (auto simp: fail_task_def get_status_def split: option.splits)
  with inv show ?thesis by simp
next
  case True
  then obtain r where r: "tq_tasks q tid = Some r" "t_status (tq_store q r) = StatusDownloading" by blast
  from inv_finish [OF inv r, of "set_error now msg"] r show ?thesis
    by (simp add: fail_task_def Let_def get_status_def inv_try_start_next)
qed

lemma find_pq_index_cong:
  "(\<And>x. t_id (s' x) = t_id (s x)) \<Longrightarrow> find_pq_index s' pq tid = find_pq_index s pq tid"
  by (induction pq) simp_all

lemma drop_waiting_pq_cong:
  "tq_pq q' = tq_pq q \<Longrightarrow> (\<And>x. t_id (tq_store q' x) = t_id (tq_store q x)) \<Longrightarrow>
   tq_pq (drop_waiting tid q') = tq_pq (drop_waiting tid q)"
  using find_pq_index_cong [of "tq_store q'" "tq_store q"] by (simp add: drop_waiting_def Let_def)

lemma inv_retire:
  assumes inv: "queue_inv P q" and tr: "tq_tasks q tid = Some r"
    and st: "t_status (tq_store q r) \<noteq> StatusDownloading"
    and f: "\<And>t. t_id (f t) = t_id t"
    and new: "t_status (f (tq_store q r)) \<notin> {StatusDownloading, StatusPending}"
  shows "queue_inv P (write_task r f q)"
proof -
  have "tid \<notin> downloading q" using tr st by (auto simp: downloading_def)
  then have "downloading (write_task r f q) = downloading q"
    using downloading_write [OF queue_invD(2) [OF inv] tr f] new by auto
  then have "count_ok (write_task r f q)" using queue_invD(3,4) [OF inv] by (simp add: count_ok_def)
  moreover have "ids_ok (write_task r f q)" using queue_invD(2) [OF inv] f by (rule ids_ok_write)
  moreover have "waiting_ok P (write_task r f q)"
    using queue_invD(5) [OF inv] new by (auto simp: waiting_ok_def split: if_splits)
  moreover have "live_ok (write_task r f q)"
    using queue_invD(6) [OF inv] new f by (auto simp: live_ok_def split: if_splits)
  ultimately show ?thesis using queue_invD(1) [OF inv] by (simp add: queue_invI)
qed

lemma cancel_task_status: "t_status (fst (cancel_task t)) \<notin> {StatusDownloading, StatusPending}"
  by (simp add: cancel_task_def)

lemma inv_remove:
  assumes inv: "queue_inv P q"
  shows "queue_inv P (fst (queue_remove tid q))"
proof (cases "tq_tasks q tid")
  case None
  then show ?thesis using inv by (simp add: queue_remove_def)
next
  case (Some r)
  let ?f = "\<lambda>t. fst (cancel_task t)"
  let ?a = "if t_status (tq_store q r) = StatusDownloading then tq_active q - 1 else tq_active q"
  let ?w = "(write_task r ?f q)\<lparr>tq_active := ?a\<rparr>"
  have 1: "queue_inv P ?w"
  proof (cases "t_status (tq_store q r) = StatusDownloading")
    case True
    then show ?thesis using inv_end_download [OF inv Some True, of ?f] cancel_task_status by simp
  next
    case False
    have "queue_inv P (write_task r ?f q)"
      by (rule inv_retire [OF inv Some False _ cancel_task_status]) simp
    moreover have "?w = write_task r ?f q" using False by (simp add: write_task_def)
    ultimately show ?thesis by simp
  qed
  have 2: "queue_inv P (?w\<lparr>tq_tasks := (tq_tasks ?w)(tid := None)\<rparr>)"
    by (rule inv_forget [OF 1, of tid r]) (use Some cancel_task_status in simp_all)
  have 3: "queue_inv P (drop_waiting tid (?w\<lparr>tq_tasks := (tq_tasks ?w)(tid := None)\<rparr>))"
    by (rule inv_drop [OF 2]) simp
  have pq: "tq_pq (drop_waiting tid (q\<lparr>tq_tasks := (tq_tasks q)(tid := None)\<rparr>)) =
      tq_pq (drop_waiting tid (?w\<lparr>tq_tasks := (tq_tasks ?w)(tid := None)\<rparr>))"
    by (rule drop_waiting_pq_cong) (simp_all add: fun_upd_def)
  show ?thesis
    by (rule queue_inv_cong [THEN iffD2, OF _ _ _ _ 3])
      (use Some pq in \<open>simp_all add: queue_remove_def Let_def get_status_def split: option.splits\<close>)
qed

lemma inv_discard:
  assumes inv: "queue_inv P q" and tr: "tq_tasks q tid = Some r"
    and st: "t_status (tq_store q r) \<notin> {StatusDownloading, StatusPending}"
  shows "queue_inv P (drop_waiting tid (q\<lparr>tq_tasks := (tq_tasks q)(tid := None)\<rparr>))"
  by (rule inv_drop [OF inv_forget [OF assms]]) simp

lemma inv_purge_loop: "queue_inv P q \<Longrightarrow> queue_inv P (fst (purge_loop ids q n))"
proof (induction ids arbitrary: q n)
  case Nil
  then show ?case by simp
next
  case (Cons tid ids)
  then show ?case
    using inv_discard [of P q tid] by (auto simp: Let_def get_status_def split: option.splits)
qed

lemma inv_remove_stopped: "queue_inv P q \<Longrightarrow> queue_inv P (fst (remove_stopped tid q))"
  using inv_discard [of P q tid]
  by (auto simp: remove_stopped_def Let_def get_status_def split: option.splits)

lemma inv_set_max: "queue_inv P q \<Longrightarrow> queue_inv P (set_max_concurrent now m q)"
  by (simp add: set_max_concurrent_def inv_try_start_next)

section \<open>Changing a position\<close>

lemma inv_replace_heap:
  assumes inv: "queue_inv P q" and h: "pqh.heap_inv h" "pq_refs h = pq_refs (tq_pq q)"
  shows "queue_inv P (q\<lparr>tq_pq := h\<rparr>)"
  using assms queue_invD [OF inv]
  by (auto intro!: queue_invI simp: ids_ok_def count_ok_def waiting_ok_def live_ok_def)

text \<open>\<open>move_item\<close> as removal and insertion.\<close>

lemma move_item_eq:
  assumes "cur < length xs" "new < length xs"
  shows "move_item xs cur new =
    (let ys = take cur xs @ drop (Suc cur) xs in take new ys @ [xs ! cur] @ drop new ys)"
proof -
  define A B m where "A = take cur xs" and "B = drop (Suc cur) xs" and "m = xs ! cur"
  have lA: "length A = cur" using assms by (simp add: A_def)
  show ?thesis
  proof (cases "new > cur")
    case True
    then have n: "new - cur \<le> length B" using assms by (simp add: B_def)
    have dn: "drop new xs = xs ! new # drop (Suc new) xs" using assms by (simp add: Cons_nth_drop_Suc)
    have db: "drop (new - cur) B = drop (Suc new) xs" using True by (simp add: B_def)
    have "move_item xs cur new = (A @ take (new - cur) B @ drop new xs)[new := m]"
      using True by (simp add: move_item_def Let_def A_def B_def m_def)
    also have "\<dots> = A @ take (new - cur) B @ m # drop (Suc new) xs"
      using True lA n by (simp add: dn list_update_append)
    finally show ?thesis
      using True lA db by (simp add: Let_def A_def [symmetric] B_def [symmetric] m_def [symmetric])
  next
    case False
    then have n: "new \<le> cur" by simp
    have tn: "take (Suc new) xs = take new xs @ [xs ! new]" using assms by (simp add: take_Suc_conv_app_nth)
    have tA: "take new A = take new xs" using n by (simp add: A_def min_absorb1)
    have da: "drop new A = take (cur - new) (drop new xs)" using n by (simp add: A_def drop_take)
    have "move_item xs cur new = (take (Suc new) xs @ take (cur - new) (drop new xs) @ B)[new := m]"
      using False by (simp add: move_item_def Let_def B_def m_def)
    also have "\<dots> = take new xs @ m # take (cur - new) (drop new xs) @ B"
      using assms by (simp add: tn list_update_append)
    finally show ?thesis
      using n lA da tA by (simp add: Let_def A_def [symmetric] B_def [symmetric] m_def [symmetric])
  qed
qed

lemma mset_move_item:
  assumes "cur < length xs" "new < length xs"
  shows "mset (move_item xs cur new) = mset xs"
proof -
  let ?ys = "take cur xs @ drop (Suc cur) xs"
  have "mset (move_item xs cur new) = mset (take new ?ys @ drop new ?ys) + {#xs ! cur#}"
    by (simp add: move_item_eq [OF assms] Let_def del: append_take_drop_id)
  also have "\<dots> = mset (take cur xs @ xs ! cur # drop (Suc cur) xs)"
    by (simp only: append_take_drop_id) simp
  also have "take cur xs @ xs ! cur # drop (Suc cur) xs = xs"
    using assms by (simp add: id_take_nth_drop [symmetric])
  finally show ?thesis .
qed

end
