(* ===== verification/TaskQueueProps.thy ===== *)
theory TaskQueueProps
  imports TaskQueueInv
begin

text \<open>
  The properties of the task queue: its invariant over every reachable state, the concurrency
  bound, the order in which waiting tasks start, the effect of \<open>ChangePosition\<close>, and what two
  callers outside the queue's discipline do to the slot count.
\<close>

section \<open>Renumbering\<close>

fun numbered :: "pitem list \<Rightarrow> nat \<Rightarrow> pitem list" where
  "numbered [] i = []"
| "numbered (x # xs) i = x\<lparr>pi_prio := int i\<rparr> # numbered xs (Suc i)"

lemma numbered_maps [simp]:
  "map pi_task (numbered xs i) = map pi_task xs"
  "map pi_prio (numbered xs i) = map int [i..<i + length xs]"
  by (induction xs arbitrary: i) (simp_all add: upt_conv_Cons del: upt_Suc)

lemma pi_task_numbered [simp]: "pi_task ` set (numbered xs i) = pi_task ` set xs"
  by (metis list.set_map numbered_maps(1))

lemma numbered_sorted: "sorted_wrt (<) (map pi_prio (numbered xs i))"
  unfolding numbered_maps by (simp add: sorted_wrt_map)

lemma renumber_frame:
  "tq_tasks (renumber xs i q) = tq_tasks q \<and> tq_active (renumber xs i q) = tq_active q \<and>
   tq_max (renumber xs i q) = tq_max q \<and>
   (\<forall>r. t_id (tq_store (renumber xs i q) r) = t_id (tq_store q r) \<and>
        t_status (tq_store (renumber xs i q) r) = t_status (tq_store q r))"
  by (induction xs arbitrary: i q) (simp_all add: Let_def)

lemma renumber_pq: "tq_pq (renumber xs i q) = pq_push_all (numbered xs i) (tq_pq q)"
  by (induction xs arbitrary: i q) (simp_all add: Let_def pq_push_all_def)

lemma clamp_position_less: "0 < n \<Longrightarrow> clamp_position p n < n"
  by (auto simp: clamp_position_def Let_def nat_less_iff)

lemma position_of_Some:
  "position_of store xs tid = Some i \<Longrightarrow> i < length xs \<and> t_id (store (pi_task (xs ! i))) = tid"
  by (induction xs arbitrary: i) (auto split: if_splits)

lemma inv_status_cong:
  assumes "tq_tasks q' = tq_tasks q" "tq_active q' = tq_active q"
    and "\<And>r. t_id (tq_store q' r) = t_id (tq_store q r) \<and> t_status (tq_store q' r) = t_status (tq_store q r)"
    and "pqh.heap_inv (tq_pq q')" "pq_refs (tq_pq q') = pq_refs (tq_pq q)"
    and "queue_inv P q"
  shows "queue_inv P q'"
proof -
  have "downloading q' = downloading q" using assms(1,3) by (simp add: downloading_def)
  then show ?thesis
    using assms(1-5) queue_invD [OF assms(6)]
    by (auto intro!: queue_invI simp: ids_ok_def count_ok_def waiting_ok_def live_ok_def)
qed

text \<open>The three ways \<open>ChangePosition\<close> ends once it holds a pending task.\<close>

lemma change_position_cases:
  assumes "change_position tid pos how q = (q', res)"
  obtains (unchanged) "q' = q" "\<exists>e. res = Inl e"
  | (restored) e where "q' = q\<lparr>tq_pq := pq_push_all (pq_drain (tq_pq q)) []\<rparr>" "res = Inl e"
  | (moved) cur p where "position_of (tq_store q) (pq_drain (tq_pq q)) tid = Some cur"
      "wanted_position how pos cur (length (pq_drain (tq_pq q))) = Some p"
      "q' = renumber (move_item (pq_drain (tq_pq q)) cur (clamp_position p (length (pq_drain (tq_pq q))))) 0
         (q\<lparr>tq_pq := []\<rparr>)"
      "res = Inr (clamp_position p (length (pq_drain (tq_pq q))))"
proof (cases "\<exists>r. tq_tasks q tid = Some r \<and> get_status (tq_store q r) = StatusPending")
  case False
  then have "q' = q \<and> (\<exists>e. res = Inl e)"
    using assms by (auto simp: change_position_def split: option.splits)
  then show ?thesis using unchanged by blast
next
  case True
  let ?items = "pq_drain (tq_pq q)"
  have eq: "(q', res) = (case position_of (tq_store q) ?items tid of
      None \<Rightarrow> (q\<lparr>tq_pq := pq_push_all ?items []\<rparr>, Inl (NotInHeap tid))
    | Some cur \<Rightarrow> (case wanted_position how pos cur (length ?items) of
        None \<Rightarrow> (q\<lparr>tq_pq := pq_push_all ?items []\<rparr>, Inl (InvalidHow how))
      | Some p \<Rightarrow> (renumber (move_item ?items cur (clamp_position p (length ?items))) 0 (q\<lparr>tq_pq := []\<rparr>),
          Inr (clamp_position p (length ?items)))))"
    using assms True by (auto simp: change_position_def Let_def split: option.splits)
  show ?thesis
  proof (cases "position_of (tq_store q) ?items tid")
    case None
    with eq restored show ?thesis by simp
  next
    case (Some cur)
    with eq restored moved show ?thesis
      by (cases "wanted_position how pos cur (length ?items)") simp_all
  qed
qed

lemma inv_change_position:
  assumes inv: "queue_inv P q"
  shows "queue_inv P (fst (change_position tid pos how q))"
proof (cases "change_position tid pos how q")
  case (Pair q' res)
  let ?items = "pq_drain (tq_pq q)"
  note h = queue_invD(1) [OF inv]
  from Pair show ?thesis
  proof (cases rule: change_position_cases)
    case unchanged
    with Pair inv show ?thesis by simp
  next
    case restored
    have "pqh.heap_inv (pq_push_all ?items [])" using pq_push_all_ok [of "[]"] by simp
    moreover have "pq_refs (pq_push_all ?items []) = pq_refs (tq_pq q)"
      using pq_refs_push_all [of "[]" ?items] pq_drain_refs [OF h] by simp
    ultimately show ?thesis using Pair restored inv_replace_heap [OF inv] by simp
  next
    case (moved cur p)
    let ?new = "clamp_position p (length ?items)"
    let ?xs = "move_item ?items cur ?new"
    have len: "cur < length ?items" using position_of_Some [OF moved(1)] by simp
    then have "0 < length ?items" by linarith
    then have len: "cur < length ?items" "?new < length ?items" using len clamp_position_less by blast+
    have "set ?xs = set ?items" using mset_move_item [OF len] by (rule mset_eq_setD)
    then have refs: "pq_refs (tq_pq q') = pq_refs (tq_pq q)"
      using pq_refs_push_all [of "[]" "numbered ?xs 0"] pq_drain_refs [OF h]
      by (simp add: moved(3) renumber_pq)
    have "pqh.heap_inv (tq_pq q')"
      using pq_push_all_ok [of "[]"] by (simp add: moved(3) renumber_pq)
    with refs have "queue_inv P q'"
      by (intro inv_status_cong [OF _ _ _ _ _ inv]) (simp_all add: moved(3) renumber_frame)
    with Pair show ?thesis by simp
  qed
qed

section \<open>Reachable states\<close>

datatype queue_op =
    OpAdd nat | OpRemove string | OpPause string | OpResume string | OpSetMax int
  | OpComplete string | OpFail string string | OpPurge "string list" | OpRemoveStopped string
  | OpChangePosition string int string | OpNotify nat

fun exec_op :: "instant \<Rightarrow> queue_op \<Rightarrow> tqueue \<Rightarrow> tqueue" where
  "exec_op now (OpAdd r) q = fst (queue_add now r q)"
| "exec_op now (OpRemove tid) q = fst (queue_remove tid q)"
| "exec_op now (OpPause tid) q = fst (queue_pause now tid q)"
| "exec_op now (OpResume tid) q = fst (queue_resume now tid q)"
| "exec_op now (OpSetMax m) q = set_max_concurrent now m q"
| "exec_op now (OpComplete tid) q = complete_task now tid q"
| "exec_op now (OpFail tid msg) q = fail_task now tid msg q"
| "exec_op now (OpPurge ids) q = fst (purge_stopped ids q)"
| "exec_op now (OpRemoveStopped tid) q = fst (remove_stopped tid q)"
| "exec_op now (OpChangePosition tid pos how) q = fst (change_position tid pos how q)"
| "exec_op now (OpNotify r) q = notify_progress r q"

text \<open>The one obligation of a caller: it does not add a task that is already downloading.\<close>

fun op_ok :: "queue_op \<Rightarrow> tqueue \<Rightarrow> bool" where
  "op_ok (OpAdd r) q = (t_status (tq_store q r) \<noteq> StatusDownloading)"
| "op_ok _ q = True"

lemma exec_op_inv: "queue_inv {} q \<Longrightarrow> op_ok op q \<Longrightarrow> queue_inv {} (exec_op now op q)"
  by (cases op)
    (simp_all add: inv_add inv_remove inv_pause inv_resume inv_set_max inv_complete inv_fail
      purge_stopped_def inv_purge_loop inv_remove_stopped inv_change_position notify_progress_def)

text \<open>
  States reached from a new queue by whole methods, by callbacks being set, by allocation of
  tasks the queue does not know, and by task methods that touch neither identifier nor status
  (progress, target node, metadata).
\<close>

inductive queue_reach :: "tqueue \<Rightarrow> bool" where
  init: "queue_reach (new_task_queue mx store)"
| op: "queue_reach q \<Longrightarrow> op_ok a q \<Longrightarrow> queue_reach (exec_op now a q)"
| callback: "queue_reach q \<Longrightarrow> queue_reach (q\<lparr>tq_cb_start := b\<rparr>)"
| alloc: "queue_reach q \<Longrightarrow> r \<notin> ran (tq_tasks q) \<Longrightarrow> r \<notin> pq_refs (tq_pq q) \<Longrightarrow>
    queue_reach (write_task r (\<lambda>_. t) q)"
| edit: "queue_reach q \<Longrightarrow> (\<And>t. t_id (f t) = t_id t \<and> t_status (f t) = t_status t) \<Longrightarrow>
    queue_reach (write_task r f q)"

lemma inv_alloc:
  assumes inv: "queue_inv P q" and r: "r \<notin> ran (tq_tasks q)" "r \<notin> pq_refs (tq_pq q)"
  shows "queue_inv P (write_task r f q)"
proof -
  have ne: "tq_tasks q tid \<noteq> Some r" for tid using r(1) by (auto simp: ran_def)
  have "x \<in> downloading (write_task r f q) \<longleftrightarrow> x \<in> downloading q" for x
    using ne [of x] by (cases "tq_tasks q x") (auto simp: downloading_def)
  then have "downloading (write_task r f q) = downloading q" by blast
  then show ?thesis
    using queue_invD [OF inv] ne r(2)
    by (auto intro!: queue_invI simp: ids_ok_def count_ok_def waiting_ok_def live_ok_def split: if_splits)
qed

lemma queue_reach_inv: "queue_reach q \<Longrightarrow> queue_inv {} q"
proof (induction rule: queue_reach.induct)
  case (init mx store)
  show ?case
    by (simp add: new_task_queue_def heap_init_def inv_defs downloading_def)
next
  case (op q a now)
  then show ?case by (simp add: exec_op_inv)
next
  case (callback q b)
  moreover have "queue_inv {} (q\<lparr>tq_cb_start := b\<rparr>) = queue_inv {} q"
    by (rule queue_inv_cong) simp_all
  ultimately show ?case by simp
next
  case (alloc q r t)
  then show ?case by (simp add: inv_alloc)
next
  case (edit q f r)
  show ?case
    by (rule inv_status_cong [OF _ _ _ _ _ edit.IH])
      (use edit in \<open>simp_all add: queue_invD(1) [OF edit.IH]\<close>)
qed

section \<open>What a run of \<open>tryStartNext\<close> starts\<close>

lemma try_start_loop_starts:
  "pqh.heap_inv (tq_pq q) \<Longrightarrow>
   \<exists>rs. snd (try_start_loop now q started) = started @ rs \<and>
     tq_active (fst (try_start_loop now q started)) = tq_active q + int (length rs) \<and>
     pqh.contents (tq_pq (fst (try_start_loop now q started))) \<subseteq># pqh.contents (tq_pq q) \<and>
     (\<forall>r. t_status (tq_store q r) = StatusDownloading \<longrightarrow>
        t_status (tq_store (fst (try_start_loop now q started)) r) = StatusDownloading) \<and>
     (\<forall>r \<in> set rs. t_status (tq_store q r) = StatusPending \<and>
        t_status (tq_store (fst (try_start_loop now q started)) r) = StatusDownloading \<and>
        (\<exists>p. (r, p) \<in># pqh.contents (tq_pq q) \<and>
          (\<forall>c \<in># pqh.contents (tq_pq (fst (try_start_loop now q started))). p \<le> snd c)))"
proof (induction "length (tq_pq q)" arbitrary: q started rule: less_induct)
  case less
  show ?case
  proof (cases "tq_active q < tq_max q \<and> tq_pq q \<noteq> []")
    case False
    then show ?thesis by (simp add: try_start_loop_stop)
  next
    case True
    then have ne: "tq_pq q \<noteq> []" by simp
    let ?x = "fst (hpop (tq_pq q))" and ?q1 = "q\<lparr>tq_pq := snd (hpop (tq_pq q))\<rparr>"
    let ?r = "pi_task ?x"
    note ok = pqh.heap_pop_ok [OF less.prems ne]
    have short: "length (tq_pq ?q1) < length (tq_pq q)" using ne by (simp add: pqh.heap_pop_length)
    have con: "pqh.contents (tq_pq q) = add_mset (?r, pi_prio ?x) (pqh.contents (tq_pq ?q1))"
      using ok(3) by (simp add: pi_core_def)
    have sub: "A \<subseteq># pqh.contents (tq_pq ?q1) \<Longrightarrow> A \<subseteq># pqh.contents (tq_pq q)" for A
      unfolding con by (metis add_mset_add_single mset_subset_eq_add_left subset_mset.order_trans)
    have least: "pi_prio ?x \<le> snd c" if "A \<subseteq># pqh.contents (tq_pq ?q1)" "c \<in># A" for A c
      using pqh.heap_pop_least [OF less.prems ne, of c] sub [OF that(1)] that(2)
      by (auto simp: pi_core_def dest: mset_subset_eqD)
    have inv1: "pqh.heap_inv (tq_pq ?q1)" using ok(1) by simp
    show ?thesis
    proof (cases "t_status (tq_store q ?r) = StatusPending")
      case False
      from less.hyps [OF short inv1, of started] obtain rs where rs:
        "snd (try_start_loop now ?q1 started) = started @ rs"
        "tq_active (fst (try_start_loop now ?q1 started)) = tq_active q + int (length rs)"
        "pqh.contents (tq_pq (fst (try_start_loop now ?q1 started))) \<subseteq># pqh.contents (tq_pq ?q1)"
        "\<forall>r. t_status (tq_store q r) = StatusDownloading \<longrightarrow>
          t_status (tq_store (fst (try_start_loop now ?q1 started)) r) = StatusDownloading"
        "\<forall>r \<in> set rs. t_status (tq_store q r) = StatusPending \<and>
          t_status (tq_store (fst (try_start_loop now ?q1 started)) r) = StatusDownloading \<and>
          (\<exists>p. (r, p) \<in># pqh.contents (tq_pq ?q1) \<and>
            (\<forall>c \<in># pqh.contents (tq_pq (fst (try_start_loop now ?q1 started))). p \<le> snd c))"
        by auto
      have eq: "try_start_loop now q started = try_start_loop now ?q1 started"
        using True False by (simp add: try_start_loop_skip)
      show ?thesis
        unfolding eq using rs sub by (intro exI [of _ rs]) (auto simp: con)
    next
      case pend: True
      let ?q2 = "(write_task ?r (set_status now StatusDownloading) ?q1)\<lparr>tq_active := tq_active ?q1 + 1\<rparr>"
      have eq: "try_start_loop now q started = try_start_loop now ?q2 (started @ [?r])"
        using True pend by (simp add: try_start_loop_go [OF _ _ refl _ refl])
      have "length (tq_pq ?q2) < length (tq_pq q)" "pqh.heap_inv (tq_pq ?q2)"
        using short inv1 by simp_all
      from less.hyps [OF this, of "started @ [?r]"] obtain rs where rs:
        "snd (try_start_loop now ?q2 (started @ [?r])) = started @ ?r # rs"
        "tq_active (fst (try_start_loop now ?q2 (started @ [?r]))) = tq_active q + 1 + int (length rs)"
        "pqh.contents (tq_pq (fst (try_start_loop now ?q2 (started @ [?r])))) \<subseteq># pqh.contents (tq_pq ?q1)"
        "\<forall>r. t_status (tq_store ?q2 r) = StatusDownloading \<longrightarrow>
          t_status (tq_store (fst (try_start_loop now ?q2 (started @ [?r]))) r) = StatusDownloading"
        "\<forall>r \<in> set rs. t_status (tq_store ?q2 r) = StatusPending \<and>
          t_status (tq_store (fst (try_start_loop now ?q2 (started @ [?r]))) r) = StatusDownloading \<and>
          (\<exists>p. (r, p) \<in># pqh.contents (tq_pq ?q1) \<and>
            (\<forall>c \<in># pqh.contents (tq_pq (fst (try_start_loop now ?q2 (started @ [?r])))). p \<le> snd c))"
        by auto
      have st: "t_status (tq_store ?q2 r) = (if r = ?r then StatusDownloading else t_status (tq_store q r))" for r
        by simp
      have notr: "?r \<notin> set rs" using rs(5) st by force
      show ?thesis
        unfolding eq
      proof (intro exI [of _ "?r # rs"] conjI ballI)
        fix r assume r: "r \<in> set (?r # rs)"
        show "t_status (tq_store q r) = StatusPending"
          using r rs(5) st pend by (cases "r = ?r") auto
        show "t_status (tq_store (fst (try_start_loop now ?q2 (started @ [?r]))) r) = StatusDownloading"
          using r rs(4,5) st by (cases "r = ?r") auto
        show "\<exists>p. (r, p) \<in># pqh.contents (tq_pq q) \<and>
            (\<forall>c \<in># pqh.contents (tq_pq (fst (try_start_loop now ?q2 (started @ [?r])))). p \<le> snd c)"
        proof (cases "r = ?r")
          case True
          have "(?r, pi_prio ?x) \<in># pqh.contents (tq_pq q)" by (simp add: con)
          with True least [OF rs(3)] show ?thesis by blast
        next
          case False
          with r rs(5) obtain p where "(r, p) \<in># pqh.contents (tq_pq ?q1)"
            "\<forall>c \<in># pqh.contents (tq_pq (fst (try_start_loop now ?q2 (started @ [?r])))). p \<le> snd c"
            by auto
          then show ?thesis by (auto simp: con)
        qed
      qed (use rs(1,2,4) st sub [OF rs(3)] in auto)
    qed
  qed
qed

section \<open>A concrete queue for the witnesses\<close>

definition demo_store :: "nat \<Rightarrow> task" where
  "demo_store r =
     (new_task (if r = 0 then ''a'' else if r = 1 then ''b'' else ''c'') 0 ''u'' ''o'')
       \<lparr>t_priority := (if r = 1 then 5 else 3)\<rparr>"

text \<open>One slot, taken by task a; b and c wait.\<close>

definition demo_queue :: tqueue where
  "demo_queue = exec_op 3 (OpAdd 2) (exec_op 2 (OpAdd 1) (exec_op 1 (OpAdd 0)
     ((new_task_queue 1 demo_store)\<lparr>tq_cb_start := True\<rparr>)))"

lemma demo_reach: "queue_reach demo_queue"
proof -
  have 0: "queue_reach ((new_task_queue 1 demo_store)\<lparr>tq_cb_start := True\<rparr>)"
    by (intro queue_reach.callback queue_reach.init)
  have "op_ok (OpAdd 0) ((new_task_queue 1 demo_store)\<lparr>tq_cb_start := True\<rparr>)"
    by code_simp
  note 1 = queue_reach.op [OF 0 this, of 1]
  have "op_ok (OpAdd 1) (exec_op 1 (OpAdd 0) ((new_task_queue 1 demo_store)\<lparr>tq_cb_start := True\<rparr>))"
    by code_simp
  note 2 = queue_reach.op [OF 1 this, of 2]
  have "op_ok (OpAdd 2) (exec_op 2 (OpAdd 1) (exec_op 1 (OpAdd 0)
      ((new_task_queue 1 demo_store)\<lparr>tq_cb_start := True\<rparr>)))"
    by code_simp
  from queue_reach.op [OF 2 this, of 3] show ?thesis by (simp add: demo_queue_def)
qed

section \<open>Properties\<close>





text \<open>
  \<open>tryStartNext\<close> stops only when the slots are full or nothing waits; it announces exactly
  the tasks it started, each was pending and is now downloading, each takes one slot, and none
  has a larger priority number than an entry it left waiting.
\<close>

theorem try_start_next_spec:
  assumes "queue_reach q" "tq_cb_start q"
  shows "\<exists>rs. tq_log (try_start_next now q) = tq_log q @ map OnTaskStart rs \<and>
    tq_active (try_start_next now q) = tq_active q + int (length rs) \<and>
    (tq_active (try_start_next now q) \<ge> tq_max q \<or> tq_pq (try_start_next now q) = []) \<and>
    (\<forall>r \<in> set rs. t_status (tq_store q r) = StatusPending \<and>
       t_status (tq_store (try_start_next now q) r) = StatusDownloading \<and>
       (\<exists>x \<in> set (tq_pq q). pi_task x = r \<and>
          (\<forall>y \<in> set (tq_pq (try_start_next now q)). pi_prio x \<le> pi_prio y)))"
proof -
  have "pqh.heap_inv (tq_pq q)" using queue_reach_inv [OF assms(1)] by (simp add: queue_inv_def)
  from try_start_loop_starts [OF this, of now "[]"] obtain rs where rs:
    "snd (try_start_loop now q []) = rs"
    "tq_active (fst (try_start_loop now q [])) = tq_active q + int (length rs)"
    "\<forall>r \<in> set rs. t_status (tq_store q r) = StatusPending \<and>
       t_status (tq_store (fst (try_start_loop now q [])) r) = StatusDownloading \<and>
       (\<exists>p. (r, p) \<in># pqh.contents (tq_pq q) \<and>
         (\<forall>c \<in># pqh.contents (tq_pq (fst (try_start_loop now q []))). p \<le> snd c))"
    by auto
  have fr: "tq_log (fst (try_start_loop now q [])) = tq_log q"
    "tq_cb_start (fst (try_start_loop now q [])) = True"
    using try_start_loop_frame [of now q "[]"] assms(2) by simp_all
  have set: "set_mset (pqh.contents h) = pi_core ` set h" for h by (simp add: pqh.contents_def)
  have n: "try_start_next now q = (fst (try_start_loop now q []))
      \<lparr>tq_log := tq_log q @ map OnTaskStart rs\<rparr>"
    using rs(1) fr by (simp add: try_start_next_def Let_def emit_def)
  show ?thesis
  proof (intro exI [of _ rs] conjI ballI)
    show "tq_active (try_start_next now q) \<ge> tq_max q \<or> tq_pq (try_start_next now q) = []"
      using try_start_next_active(3) [of now q] by linarith
    fix r assume "r \<in> set rs"
    with rs(3) obtain p where p: "(r, p) \<in> pi_core ` set (tq_pq q)"
      "\<forall>c \<in> pi_core ` set (tq_pq (fst (try_start_loop now q []))). p \<le> snd c"
      unfolding set by blast
    from p(1) obtain x where "x \<in> set (tq_pq q)" "pi_task x = r" "pi_prio x = p"
      by (auto simp: pi_core_def)
    with p(2) show "\<exists>x \<in> set (tq_pq q). pi_task x = r \<and>
        (\<forall>y \<in> set (tq_pq (try_start_next now q)). pi_prio x \<le> pi_prio y)"
      by (intro bexI [of _ x]) (simp_all add: n pi_core_def)
  qed (use rs n in simp_all)
qed

theorem try_start_next_spec_witness:
  "\<exists>rs. tq_log (try_start_next 7 demo_queue) = tq_log demo_queue @ map OnTaskStart rs"
proof -
  have "tq_cb_start demo_queue" by code_simp
  with try_start_next_spec [OF demo_reach, of 7] show ?thesis by blast
qed

text \<open>
  C24: when \<open>ChangePosition\<close> succeeds, the pop order of the rebuilt heap is the old pop order
  with the requested task taken out and put back at the reported position; nothing else moves
  relative to each other.
\<close>

theorem change_position_order:
  assumes "queue_reach q" "change_position tid pos how q = (q', Inr new)"
  shows "\<exists>cur. cur < length (pq_drain (tq_pq q)) \<and> new < length (pq_drain (tq_pq q)) \<and>
    t_id (tq_store q (pi_task (pq_drain (tq_pq q) ! cur))) = tid \<and>
    map pi_task (pq_drain (tq_pq q')) =
      (let ts = map pi_task (pq_drain (tq_pq q)); rest = take cur ts @ drop (Suc cur) ts
       in take new rest @ [ts ! cur] @ drop new rest)"
  using assms(2)
proof (cases rule: change_position_cases)
  case (moved cur p)
  let ?items = "pq_drain (tq_pq q)"
  have new: "new = clamp_position p (length ?items)" using moved(4) by simp
  have l1: "cur < length ?items" and tid: "t_id (tq_store q (pi_task (?items ! cur))) = tid"
    using position_of_Some [OF moved(1)] by auto
  then have "0 < length ?items" by linarith
  then have l2: "new < length ?items" using clamp_position_less new by simp
  have core: "map fst (map pi_core xs) = map pi_task xs" for xs by (simp add: pi_core_def)
  have "map pi_core (pq_drain (tq_pq q')) = map pi_core (numbered (move_item ?items cur new) 0)"
    using pq_drain_push_all [OF numbered_sorted] by (simp add: moved(3) renumber_pq new)
  then have "map pi_task (pq_drain (tq_pq q')) = map pi_task (move_item ?items cur new)"
    by (metis core numbered_maps(1))
  with l1 l2 tid show ?thesis
    by (intro exI [of _ cur]) (simp add: move_item_eq [OF l1 l2] Let_def take_map drop_map)
qed auto

theorem change_position_order_witness:
  "map pi_task (pq_drain (tq_pq (fst (change_position ''b'' 0 ''POS_SET'' demo_queue)))) = [1, 2]"
proof -
  have d: "map pi_task (pq_drain (tq_pq demo_queue)) = [2, 1]"
    "length (pq_drain (tq_pq demo_queue)) = 2"
    "map (\<lambda>x. t_id (tq_store demo_queue (pi_task x))) (pq_drain (tq_pq demo_queue)) = [''c'', ''b'']"
    by code_simp+
  obtain q' where c: "change_position ''b'' 0 ''POS_SET'' demo_queue = (q', Inr 0)"
  proof -
    have "snd (change_position ''b'' 0 ''POS_SET'' demo_queue) = Inr 0" by code_simp
    then show ?thesis using that by (metis prod.collapse)
  qed
  from change_position_order [OF demo_reach c] obtain cur where cur: "cur < 2"
    "t_id (tq_store demo_queue (pi_task (pq_drain (tq_pq demo_queue) ! cur))) = ''b''"
    "map pi_task (pq_drain (tq_pq q')) =
      (let ts = [2, 1]; rest = take cur ts @ drop (Suc cur) ts in take 0 rest @ [ts ! cur] @ drop 0 rest)"
    unfolding d by blast
  have "map (\<lambda>x. t_id (tq_store demo_queue (pi_task x))) (pq_drain (tq_pq demo_queue)) ! cur = ''b''"
    using cur(1,2) d(2) by simp
  with d(3) cur(1) have "cur = 1" by (auto simp: less_2_cases_iff)
  with cur(3) c show ?thesis by simp
qed

text \<open>
  the index \<open>Remove\<close>, \<open>PurgeStopped\<close> and \<open>RemoveStopped\<close> hand to \<open>heap.Remove\<close> is in
  range and belongs to an entry of the wanted task; a missing entry is reported as \<open>-1\<close>.
\<close>

theorem find_pq_index_safe:
  assumes "queue_reach q"
  shows "if 0 \<le> find_pq_index (tq_store q) (tq_pq q) tid
    then nat (find_pq_index (tq_store q) (tq_pq q) tid) < length (tq_pq q) \<and>
      t_id (tq_store q (pi_task (tq_pq q ! nat (find_pq_index (tq_store q) (tq_pq q) tid)))) = tid
    else (\<forall>x \<in> set (tq_pq q). t_id (tq_store q (pi_task x)) \<noteq> tid)"
proof -
  have inv: "pqh.heap_inv (tq_pq q)" using queue_reach_inv [OF assms] by (simp add: queue_inv_def)
  then have "pqh.tracked (tq_pq q)" by (simp add: pqh.heap_inv_def)
  then show ?thesis
    using find_pq_index_ok [OF inv refl, of "tq_store q" tid]
      find_pq_index_none [of "tq_store q" "tq_pq q" tid] by auto
qed

theorem find_pq_index_safe_witness:
  "t_id (tq_store demo_queue (pi_task (tq_pq demo_queue ! nat (find_pq_index (tq_store demo_queue) (tq_pq demo_queue) ''b'')))) = ''b''"
proof -
  have "0 \<le> find_pq_index (tq_store demo_queue) (tq_pq demo_queue) ''b''" by code_simp
  with find_pq_index_safe [OF demo_reach, of "''b''"] show ?thesis by simp
qed

text \<open>
  two calls of \<open>Add\<close> that both leave their first critical section before either enters its
  second can overshoot the limit: with one slot left and two pending tasks, both decide to start.
\<close>

theorem interleaved_add_overshoots:
  assumes "tq_active q + 1 = tq_max q"
    and "queue_add_enter r1 q = (q1, Inr True)" "queue_add_enter r2 q1 = (q2, Inr b)"
    and "t_status (tq_store q r2) = StatusPending"
  shows "b \<and> tq_active (start_task now r2 (start_task now r1 q2)) = tq_max q + 1"
  using assms
  by (auto simp: queue_add_enter_def Let_def start_task_def get_status_def push_waiting_def split: if_splits)

theorem interleaved_add_overshoots_witness:
  "tq_active (start_task 1 1 (start_task 1 0
     (fst (queue_add_enter 1 (fst (queue_add_enter 0 (new_task_queue 1 demo_store))))))) = 2"
proof -
  let ?q = "new_task_queue 1 demo_store"
  have r: "snd (queue_add_enter 0 ?q) = Inr True"
    "snd (queue_add_enter 1 (fst (queue_add_enter 0 ?q))) = Inr True"
    "tq_active ?q + 1 = tq_max ?q" "t_status (tq_store ?q 1) = StatusPending" "tq_max ?q = 1"
    by code_simp+
  have "queue_add_enter 0 ?q = (fst (queue_add_enter 0 ?q), Inr True)"
    "queue_add_enter 1 (fst (queue_add_enter 0 ?q)) =
      (fst (queue_add_enter 1 (fst (queue_add_enter 0 ?q))), Inr True)"
    using r(1,2) by (metis prod.collapse)+
  from interleaved_add_overshoots [OF r(3) this r(4), of 1] r(5) show ?thesis by simp
qed

text \<open>
  \<open>Remove\<close> of a downloading task frees its slot but, unlike \<open>Pause\<close>, \<open>CompleteTask\<close> and
  \<open>FailTask\<close>, starts nothing: every other pending task stays pending and the slot stays idle.
\<close>

theorem remove_leaves_slot_idle:
  assumes "queue_reach q" "tq_active q \<le> tq_max q"
    and "tq_tasks q tid = Some r" "t_status (tq_store q r) = StatusDownloading"
    and "tq_tasks q tid2 = Some r2" "t_status (tq_store q r2) = StatusPending"
  shows "tq_active (fst (queue_remove tid q)) < tq_max (fst (queue_remove tid q)) \<and>
    tq_tasks (fst (queue_remove tid q)) tid2 = Some r2 \<and>
    t_status (tq_store (fst (queue_remove tid q)) r2) = StatusPending"
proof -
  have "r2 \<noteq> r" "tid2 \<noteq> tid" using assms by auto
  with assms show ?thesis
    by (auto simp: queue_remove_def Let_def get_status_def split: option.splits)
qed

theorem remove_leaves_slot_idle_witness:
  "tq_active (fst (queue_remove ''a'' demo_queue)) = 0 \<and>
   t_status (tq_store (fst (queue_remove ''a'' demo_queue)) 1) = StatusPending"
proof -
  have d: "tq_active demo_queue \<le> tq_max demo_queue" "tq_tasks demo_queue ''a'' = Some 0"
    "t_status (tq_store demo_queue 0) = StatusDownloading" "tq_tasks demo_queue ''b'' = Some 1"
    "t_status (tq_store demo_queue 1) = StatusPending" "tq_active (fst (queue_remove ''a'' demo_queue)) = 0"
    by code_simp+
  from remove_leaves_slot_idle [OF demo_reach d(1-5)] d(6) show ?thesis by simp
qed

end
