(* ===== verification/Bitfield.thy ===== *)
theory Bitfield
  imports Prelude
begin

text \<open>
  The block bitmap of \<open>internal/downloader/chunk.go\<close>, \<open>BitfieldMan\<close>: two byte arrays, one for
  completed blocks and one for blocks in use, and a counter of the completed ones. The locale
  \<open>bitmap\<close> is the interface both arrays offer; its laws are proved for each array at byte level.
\<close>

unbundle bit_operations_syntax

section \<open>State and operations\<close>

record bitfield_man =
  bm_num :: int
  bm_block :: int
  bm_total :: int
  bm_bits :: "8 word list"
  bm_use :: "8 word list"
  bm_done :: int

definition new_bitfield_man :: "int \<Rightarrow> int \<Rightarrow> int \<Rightarrow> bitfield_man" where
  "new_bitfield_man num blk tot =
     (let n = nat (go_div (num + 7) 8) in
      \<lparr>bm_num = num, bm_block = blk, bm_total = tot,
       bm_bits = replicate n 0, bm_use = replicate n 0, bm_done = 0\<rparr>)"

text \<open>The byte index and the mask \<open>1 << (uint(idx) % 8)\<close> of a block.\<close>

definition byte_index :: "int \<Rightarrow> nat" where
  "byte_index idx = nat (idx div 8)"

definition bit_mask :: "int \<Rightarrow> 8 word" where
  "bit_mask idx = push_bit (nat (idx mod 8)) 1"

definition bm_num_blocks :: "bitfield_man \<Rightarrow> int" where
  "bm_num_blocks b = bm_num b"

definition bm_block_length :: "bitfield_man \<Rightarrow> int \<Rightarrow> int" where
  "bm_block_length b idx =
     (let r = go_rem (bm_total b) (bm_block b) in
      if idx = bm_num b - 1 \<and> r \<noteq> 0 then r else bm_block b)"

definition bm_set_bit :: "bitfield_man \<Rightarrow> int \<Rightarrow> bitfield_man" where
  "bm_set_bit b idx =
     (if idx < 0 \<or> idx \<ge> bm_num b then b
      else let w = bm_bits b ! byte_index idx in
        b\<lparr>bm_done := (if w AND bit_mask idx = 0 then bm_done b + 1 else bm_done b),
          bm_bits := (bm_bits b)[byte_index idx := w OR bit_mask idx]\<rparr>)"

definition bm_clear_bit :: "bitfield_man \<Rightarrow> int \<Rightarrow> bitfield_man" where
  "bm_clear_bit b idx =
     (if idx < 0 \<or> idx \<ge> bm_num b then b
      else let w = bm_bits b ! byte_index idx in
        b\<lparr>bm_done := (if w AND bit_mask idx \<noteq> 0 then bm_done b - 1 else bm_done b),
          bm_bits := (bm_bits b)[byte_index idx := w AND NOT (bit_mask idx)]\<rparr>)"

definition bm_unset_use_bit :: "bitfield_man \<Rightarrow> int \<Rightarrow> bitfield_man" where
  "bm_unset_use_bit b idx =
     (if idx \<ge> 0 \<and> idx < bm_num b
      then b\<lparr>bm_use := (bm_use b)[byte_index idx := bm_use b ! byte_index idx AND NOT (bit_mask idx)]\<rparr>
      else b)"

definition bm_set_use_bit :: "bitfield_man \<Rightarrow> int \<Rightarrow> bitfield_man" where
  "bm_set_use_bit b idx =
     (if idx \<ge> 0 \<and> idx < bm_num b
      then b\<lparr>bm_use := (bm_use b)[byte_index idx := bm_use b ! byte_index idx OR bit_mask idx]\<rparr>
      else b)"

definition bm_is_bit_set :: "bitfield_man \<Rightarrow> int \<Rightarrow> bool" where
  "bm_is_bit_set b idx \<longleftrightarrow>
     (if idx < 0 \<or> idx \<ge> bm_num b then False else bm_bits b ! byte_index idx AND bit_mask idx \<noteq> 0)"

definition bm_is_use_bit_set :: "bitfield_man \<Rightarrow> int \<Rightarrow> bool" where
  "bm_is_use_bit_set b idx \<longleftrightarrow>
     (if idx < 0 \<or> idx \<ge> bm_num b then False else bm_use b ! byte_index idx AND bit_mask idx \<noteq> 0)"

definition bm_is_all_bit_set :: "bitfield_man \<Rightarrow> bool" where
  "bm_is_all_bit_set b \<longleftrightarrow> bm_done b = bm_num b"

text \<open>The search loops: the first index from \<open>i\<close> on, among \<open>n\<close>, that passes, or \<open>-1\<close>.\<close>

fun scan_first :: "(int \<Rightarrow> bool) \<Rightarrow> int \<Rightarrow> nat \<Rightarrow> int" where
  "scan_first p i 0 = -1"
| "scan_first p i (Suc n) = (if p i then i else scan_first p (i + 1) n)"

definition bm_first_missing_unused :: "bitfield_man \<Rightarrow> int" where
  "bm_first_missing_unused b =
     scan_first (\<lambda>i. \<not> bm_is_bit_set b i \<and> \<not> bm_is_use_bit_set b i) 0 (nat (bm_num b))"

definition bm_first_missing :: "bitfield_man \<Rightarrow> int" where
  "bm_first_missing b = scan_first (\<lambda>i. \<not> bm_is_bit_set b i) 0 (nat (bm_num b))"

definition bm_count_missing :: "bitfield_man \<Rightarrow> int" where
  "bm_count_missing b = sum_list (map (\<lambda>i. if bm_is_bit_set b i then 0 else 1) [0..bm_num b - 1])"

definition bm_completed_length :: "bitfield_man \<Rightarrow> int" where
  "bm_completed_length b =
     sum_list (map (\<lambda>i. if bm_is_bit_set b i then bm_block_length b i else 0) [0..bm_num b - 1])"

definition bm_remaining_length :: "bitfield_man \<Rightarrow> int" where
  "bm_remaining_length b = bm_total b - bm_completed_length b"

definition bm_get_bitfield :: "bitfield_man \<Rightarrow> 8 word list" where
  "bm_get_bitfield b = bm_bits b"

definition bm_set_bitfield :: "bitfield_man \<Rightarrow> 8 word list \<Rightarrow> bitfield_man" where
  "bm_set_bitfield b bf =
     (if length bf \<noteq> length (bm_bits b) then b
      else let b1 = b\<lparr>bm_bits := bf\<rparr> in
        b1\<lparr>bm_done := sum_list (map (\<lambda>i. if bm_is_bit_set b1 i then 1 else 0) [0..bm_num b - 1])\<rparr>)"

section \<open>The interface of a bitmap\<close>

locale bitmap =
  fixes mem :: "'s \<Rightarrow> int \<Rightarrow> bool"
    and add :: "'s \<Rightarrow> int \<Rightarrow> 's"
    and del :: "'s \<Rightarrow> int \<Rightarrow> 's"
    and size :: "'s \<Rightarrow> int"
    and wf :: "'s \<Rightarrow> bool"
  assumes mem_range: "mem s i \<Longrightarrow> 0 \<le> i \<and> i < size s"
    and mem_add: "wf s \<Longrightarrow> mem (add s i) j \<longleftrightarrow> mem s j \<or> (j = i \<and> 0 \<le> i \<and> i < size s)"
    and mem_del: "wf s \<Longrightarrow> mem (del s i) j \<longleftrightarrow> mem s j \<and> j \<noteq> i"
    and wf_add: "wf s \<Longrightarrow> wf (add s i)"
    and wf_del: "wf s \<Longrightarrow> wf (del s i)"
    and size_add: "size (add s i) = size s"
    and size_del: "size (del s i) = size s"
begin

definition members :: "'s \<Rightarrow> int set" where
  "members s = {i. mem s i}"

lemma members_range: "members s \<subseteq> {0..<size s}"
  by (auto simp: members_def dest: mem_range)

lemma finite_members [simp]: "finite (members s)"
  by (rule finite_subset [OF members_range]) simp

lemma members_add: "wf s \<Longrightarrow> 0 \<le> i \<Longrightarrow> i < size s \<Longrightarrow> members (add s i) = insert i (members s)"
  by (auto simp: members_def mem_add)

lemma members_del: "wf s \<Longrightarrow> members (del s i) = members s - {i}"
  by (auto simp: members_def mem_del)

lemma card_members_le: "0 \<le> size s \<Longrightarrow> int (card (members s)) \<le> size s"
  using card_mono [OF _ members_range [of s]] by simp

lemma full_iff: "0 \<le> size s \<Longrightarrow> int (card (members s)) = size s \<longleftrightarrow> (\<forall>i. 0 \<le> i \<and> i < size s \<longrightarrow> mem s i)"
proof
  assume "0 \<le> size s" "int (card (members s)) = size s"
  then have "card (members s) = card {0..<size s}" by simp
  then have "members s = {0..<size s}" by (intro card_subset_eq members_range) simp_all
  then show "\<forall>i. 0 \<le> i \<and> i < size s \<longrightarrow> mem s i" by (auto simp: members_def)
next
  assume "0 \<le> size s" "\<forall>i. 0 \<le> i \<and> i < size s \<longrightarrow> mem s i"
  then have "members s = {0..<size s}" using mem_range by (auto simp: members_def)
  with \<open>0 \<le> size s\<close> show "int (card (members s)) = size s" by simp
qed

lemma del_fold: "wf s \<Longrightarrow> mem (foldl del s is) j \<longleftrightarrow> mem s j \<and> j \<notin> set is"
  by (induction "is" arbitrary: s) (auto simp: mem_del wf_del)

end

section \<open>The byte arrays implement it\<close>

text \<open>Shape of the arrays; the counter is part of the invariant of the completion bitmap.\<close>

definition bm_shape :: "bitfield_man \<Rightarrow> bool" where
  "bm_shape b \<longleftrightarrow> 0 \<le> bm_num b \<and> length (bm_bits b) = nat ((bm_num b + 7) div 8) \<and>
     length (bm_use b) = nat ((bm_num b + 7) div 8)"

lemma byte_index_less: "0 \<le> i \<Longrightarrow> i < n \<Longrightarrow> byte_index i < nat ((n + 7) div 8)"
  by (simp add: byte_index_def) linarith

lemma mod8_nat: "nat (i mod 8) = nat (j mod 8) \<longleftrightarrow> i mod 8 = j mod (8 :: int)"
  by (intro eq_nat_nat_iff pos_mod_sign) simp_all

lemma mask_and: "w AND bit_mask i \<noteq> 0 \<longleftrightarrow> bit w (nat (i mod 8))"
proof -
  have k: "nat (i mod 8) < 8" by (simp add: nat_less_iff)
  have "bit (w AND bit_mask i) n \<longleftrightarrow> n = nat (i mod 8) \<and> bit w n" for n
    using k by (auto simp: bit_mask_def bit_simps)
  then show ?thesis by (metis bit_0_eq bot_apply bot_bool_def bit_eqI)
qed

lemma bit_set_mask: "bit (w OR bit_mask i) (nat (j mod 8)) \<longleftrightarrow>
    bit w (nat (j mod 8)) \<or> i mod 8 = j mod 8"
proof -
  have "nat (i mod 8) < 8" "nat (j mod 8) < 8" by (simp_all add: nat_less_iff)
  with mod8_nat [of i j] show ?thesis by (auto simp: bit_mask_def bit_simps)
qed

lemma bit_clear_mask: "bit (w AND NOT (bit_mask i)) (nat (j mod 8)) \<longleftrightarrow>
    bit w (nat (j mod 8)) \<and> i mod 8 \<noteq> j mod 8"
proof -
  have "nat (i mod 8) < 8" "nat (j mod 8) < 8" by (simp_all add: nat_less_iff)
  with mod8_nat [of i j] show ?thesis by (auto simp: bit_mask_def bit_simps)
qed

lemma same_place: "0 \<le> i \<Longrightarrow> 0 \<le> j \<Longrightarrow> byte_index i = byte_index j \<Longrightarrow> i mod 8 = j mod 8 \<Longrightarrow> i = j"
  by (simp add: byte_index_def) (metis div_mult_mod_eq eq_nat_nat_iff pos_imp_zdiv_nonneg_iff zero_less_numeral)

lemmas bm_bit_defs =
  bm_set_bit_def bm_clear_bit_def bm_set_use_bit_def bm_unset_use_bit_def
  bm_is_bit_set_def bm_is_use_bit_set_def bm_shape_def

interpretation used: bitmap bm_is_use_bit_set bm_set_use_bit bm_unset_use_bit bm_num bm_shape
proof unfold_locales
  fix s i j
  assume wf: "bm_shape s"
  show "bm_is_use_bit_set (bm_set_use_bit s i) j \<longleftrightarrow>
      bm_is_use_bit_set s j \<or> (j = i \<and> 0 \<le> i \<and> i < bm_num s)"
    using wf byte_index_less [of i "bm_num s"] byte_index_less [of j "bm_num s"] same_place [of i j]
    by (cases "byte_index i = byte_index j")
      (auto simp: bm_bit_defs mask_and bit_set_mask nth_list_update)
  show "bm_is_use_bit_set (bm_unset_use_bit s i) j \<longleftrightarrow> bm_is_use_bit_set s j \<and> j \<noteq> i"
    using wf byte_index_less [of i "bm_num s"] byte_index_less [of j "bm_num s"] same_place [of i j]
    by (cases "byte_index i = byte_index j")
      (auto simp: bm_bit_defs mask_and bit_clear_mask nth_list_update)
qed (auto simp: bm_bit_defs split: if_splits)

interpretation completed: bitmap bm_is_bit_set bm_set_bit bm_clear_bit bm_num bm_shape
proof unfold_locales
  fix s i j
  assume wf: "bm_shape s"
  show "bm_is_bit_set (bm_set_bit s i) j \<longleftrightarrow> bm_is_bit_set s j \<or> (j = i \<and> 0 \<le> i \<and> i < bm_num s)"
    using wf byte_index_less [of i "bm_num s"] byte_index_less [of j "bm_num s"] same_place [of i j]
    by (cases "byte_index i = byte_index j")
      (auto simp: bm_bit_defs mask_and bit_set_mask nth_list_update Let_def)
  show "bm_is_bit_set (bm_clear_bit s i) j \<longleftrightarrow> bm_is_bit_set s j \<and> j \<noteq> i"
    using wf byte_index_less [of i "bm_num s"] byte_index_less [of j "bm_num s"] same_place [of i j]
    by (cases "byte_index i = byte_index j")
      (auto simp: bm_bit_defs mask_and bit_clear_mask nth_list_update Let_def)
qed (auto simp: bm_bit_defs Let_def split: if_splits)

section \<open>Counter, searches and byte counts\<close>

definition bm_ok :: "bitfield_man \<Rightarrow> bool" where
  "bm_ok b \<longleftrightarrow> bm_shape b \<and> bm_done b = int (card (completed.members b)) \<and> 0 < bm_block b"

lemma bm_okD: "bm_ok b \<Longrightarrow> bm_shape b" "bm_ok b \<Longrightarrow> 0 \<le> bm_num b" "bm_ok b \<Longrightarrow> 0 < bm_block b"
  "bm_ok b \<Longrightarrow> bm_done b = int (card (completed.members b))"
  by (simp_all add: bm_ok_def bm_shape_def)

lemma new_bitfield_man_ok: "0 \<le> num \<Longrightarrow> 0 < blk \<Longrightarrow> bm_ok (new_bitfield_man num blk tot)"
proof -
  assume "0 \<le> num" "0 < blk"
  then have none: "\<not> bm_is_bit_set (new_bitfield_man num blk tot) i" for i
    using byte_index_less [of i num]
    by (simp add: new_bitfield_man_def bm_is_bit_set_def Let_def go_int)
  with \<open>0 \<le> num\<close> \<open>0 < blk\<close> show ?thesis
    by (simp add: bm_ok_def completed.members_def)
      (simp add: new_bitfield_man_def bm_shape_def Let_def go_int)
qed

lemma bm_frames [simp]:
  "bm_num (bm_set_bit b i) = bm_num b" "bm_block (bm_set_bit b i) = bm_block b"
  "bm_total (bm_set_bit b i) = bm_total b" "bm_use (bm_set_bit b i) = bm_use b"
  "bm_num (bm_set_use_bit b i) = bm_num b" "bm_block (bm_set_use_bit b i) = bm_block b"
  "bm_total (bm_set_use_bit b i) = bm_total b" "bm_bits (bm_set_use_bit b i) = bm_bits b"
  "bm_done (bm_set_use_bit b i) = bm_done b"
  "bm_num (bm_unset_use_bit b i) = bm_num b" "bm_block (bm_unset_use_bit b i) = bm_block b"
  "bm_total (bm_unset_use_bit b i) = bm_total b" "bm_bits (bm_unset_use_bit b i) = bm_bits b"
  "bm_done (bm_unset_use_bit b i) = bm_done b"
  by (simp_all add: bm_set_bit_def bm_set_use_bit_def bm_unset_use_bit_def Let_def)

text \<open>The two arrays are independent.\<close>

lemma bm_cross [simp]:
  "bm_is_bit_set (bm_set_use_bit b i) = bm_is_bit_set b"
  "bm_is_bit_set (bm_unset_use_bit b i) = bm_is_bit_set b"
  "bm_is_use_bit_set (bm_set_bit b i) = bm_is_use_bit_set b"
  by (simp_all add: fun_eq_iff bm_is_bit_set_def bm_is_use_bit_set_def)

lemma bm_members_use [simp]:
  "completed.members (bm_set_use_bit b i) = completed.members b"
  "completed.members (bm_unset_use_bit b i) = completed.members b"
  by (simp_all add: completed.members_def)

lemma bm_set_use_ok: "bm_ok b \<Longrightarrow> bm_ok (bm_set_use_bit b i)"
  by (simp add: bm_ok_def used.wf_add)

lemma bm_unset_use_ok: "bm_ok b \<Longrightarrow> bm_ok (bm_unset_use_bit b i)"
  by (simp add: bm_ok_def used.wf_del)

lemma bm_set_bit_done:
  "bm_done (bm_set_bit b i) =
     (if 0 \<le> i \<and> i < bm_num b \<and> \<not> bm_is_bit_set b i then bm_done b + 1 else bm_done b)"
  by (auto simp: bm_set_bit_def bm_is_bit_set_def Let_def)

lemma bm_clear_bit_done:
  "bm_done (bm_clear_bit b i) = (if bm_is_bit_set b i then bm_done b - 1 else bm_done b)"
  by (auto simp: bm_clear_bit_def bm_is_bit_set_def Let_def)

lemma bm_set_bit_ok:
  assumes "bm_ok b"
  shows "bm_ok (bm_set_bit b i)"
proof (cases "0 \<le> i \<and> i < bm_num b")
  case True
  have "completed.members (bm_set_bit b i) = insert i (completed.members b)"
    using completed.members_add [OF bm_okD(1) [OF assms]] True by simp
  moreover have "i \<in> completed.members b \<longleftrightarrow> bm_is_bit_set b i" by (simp add: completed.members_def)
  ultimately have "bm_done (bm_set_bit b i) = int (card (completed.members (bm_set_bit b i)))"
    using True bm_okD(4) [OF assms] by (simp add: bm_set_bit_done insert_absorb)
  then show ?thesis using assms completed.wf_add [OF bm_okD(1) [OF assms], of i] by (simp add: bm_ok_def)
next
  case False
  then have "bm_set_bit b i = b" by (auto simp: bm_set_bit_def)
  with assms show ?thesis by simp
qed

lemma bm_clear_bit_ok:
  assumes "bm_ok b"
  shows "bm_ok (bm_clear_bit b i)"
proof -
  have m: "completed.members (bm_clear_bit b i) = completed.members b - {i}"
    using completed.members_del [OF bm_okD(1) [OF assms]] .
  have "bm_done (bm_clear_bit b i) = int (card (completed.members (bm_clear_bit b i)))"
  proof (cases "bm_is_bit_set b i")
    case True
    then have "i \<in> completed.members b" by (simp add: completed.members_def)
    then have "Suc (card (completed.members b - {i})) = card (completed.members b)"
      by (rule card_Suc_Diff1 [OF completed.finite_members])
    with True m bm_okD(4) [OF assms] show ?thesis by (simp add: bm_clear_bit_done)
  next
    case False
    then have "i \<notin> completed.members b" by (simp add: completed.members_def)
    with False m bm_okD(4) [OF assms] show ?thesis by (simp add: bm_clear_bit_done)
  qed
  moreover have "bm_block (bm_clear_bit b i) = bm_block b" by (simp add: bm_clear_bit_def Let_def)
  ultimately show ?thesis
    using completed.wf_del [OF bm_okD(1) [OF assms], of i] bm_okD(3) [OF assms] by (simp add: bm_ok_def)
qed

lemma bm_all_iff: "bm_ok b \<Longrightarrow> bm_is_all_bit_set b \<longleftrightarrow> (\<forall>i. 0 \<le> i \<and> i < bm_num b \<longrightarrow> bm_is_bit_set b i)"
  using completed.full_iff [of b] bm_okD [of b] by (simp add: bm_is_all_bit_set_def)

lemma scan_first_cases:
  "(scan_first p i n = -1 \<and> (\<forall>j. i \<le> j \<and> j < i + int n \<longrightarrow> \<not> p j)) \<or>
   (i \<le> scan_first p i n \<and> scan_first p i n < i + int n \<and> p (scan_first p i n) \<and>
     (\<forall>j. i \<le> j \<and> j < scan_first p i n \<longrightarrow> \<not> p j))"
proof (induction n arbitrary: i)
  case 0
  then show ?case by auto
next
  case (Suc n)
  show ?case
  proof (cases "p i")
    case True
    then show ?thesis by auto
  next
    case False
    have split: "(\<forall>j. i \<le> j \<and> j < k \<longrightarrow> \<not> p j) \<longleftrightarrow> (\<forall>j. i + 1 \<le> j \<and> j < k \<longrightarrow> \<not> p j)" for k
      using False by (metis order_le_less zless_imp_add1_zle add1_zle_eq)
    have le: "i + 1 \<le> x \<Longrightarrow> i \<le> x" for x by simp
    have len: "i + int (Suc n) = i + 1 + int n" by simp
    show ?thesis
      using Suc.IH [of "i + 1"] False le by (simp only: scan_first.simps if_False len split) blast
  qed
qed

lemma bm_first_missing_cases:
  "0 \<le> bm_num b \<Longrightarrow>
   (bm_first_missing b = -1 \<and> (\<forall>j. 0 \<le> j \<and> j < bm_num b \<longrightarrow> bm_is_bit_set b j)) \<or>
   (0 \<le> bm_first_missing b \<and> bm_first_missing b < bm_num b \<and> \<not> bm_is_bit_set b (bm_first_missing b) \<and>
     (\<forall>j. 0 \<le> j \<and> j < bm_first_missing b \<longrightarrow> bm_is_bit_set b j))"
  using scan_first_cases [of "\<lambda>i. \<not> bm_is_bit_set b i" 0 "nat (bm_num b)"]
  by (simp add: bm_first_missing_def)

lemma bm_first_missing_unused_cases:
  "0 \<le> bm_num b \<Longrightarrow>
   (bm_first_missing_unused b = -1 \<and>
     (\<forall>j. 0 \<le> j \<and> j < bm_num b \<longrightarrow> bm_is_bit_set b j \<or> bm_is_use_bit_set b j)) \<or>
   (0 \<le> bm_first_missing_unused b \<and> bm_first_missing_unused b < bm_num b \<and>
     \<not> bm_is_bit_set b (bm_first_missing_unused b) \<and> \<not> bm_is_use_bit_set b (bm_first_missing_unused b) \<and>
     (\<forall>j. 0 \<le> j \<and> j < bm_first_missing_unused b \<longrightarrow> bm_is_bit_set b j \<or> bm_is_use_bit_set b j))"
  using scan_first_cases [of "\<lambda>i. \<not> bm_is_bit_set b i \<and> \<not> bm_is_use_bit_set b i" 0 "nat (bm_num b)"]
  by (simp add: bm_first_missing_unused_def)

text \<open>Loops that sum over all blocks, as finite sums.\<close>

lemma sum_list_blocks: "sum_list (map f [0..n - 1]) = sum f {0..<(n::int)}"
proof -
  have "sum_list (map f [0..n - 1]) = sum f (set [0..n - 1])"
    by (rule sum_list_distinct_conv_sum_set) simp
  also have "set [0..n - 1] = {0..<n}" by auto
  finally show ?thesis .
qed

lemma bm_sum_members:
  "(\<Sum>i\<in>{0..<bm_num b}. if bm_is_bit_set b i then f i else 0) = sum f (completed.members b)"
proof -
  have "completed.members b = {i \<in> {0..<bm_num b}. bm_is_bit_set b i}"
    using completed.mem_range by (auto simp: completed.members_def)
  then show ?thesis by (simp only: sum.inter_filter finite_atLeastLessThan_int)
qed

lemma bm_count_missing_eq: "bm_ok b \<Longrightarrow> bm_count_missing b = bm_num b - bm_done b"
proof -
  assume ok: "bm_ok b"
  have "bm_count_missing b = (\<Sum>i\<in>{0..<bm_num b}. 1 - (if bm_is_bit_set b i then 1 else 0))"
    unfolding bm_count_missing_def sum_list_blocks by (rule sum.cong) auto
  also have "\<dots> = bm_num b - int (card (completed.members b))"
    using bm_okD(2) [OF ok] by (simp add: sum_subtractf bm_sum_members)
  finally show ?thesis using ok by (simp add: bm_ok_def)
qed

lemma bm_set_bitfield_ok:
  assumes "bm_ok b"
  shows "bm_ok (bm_set_bitfield b bf)"
proof (cases "length bf = length (bm_bits b)")
  case True
  let ?b1 = "b\<lparr>bm_bits := bf\<rparr>"
  let ?b2 = "bm_set_bitfield b bf"
  have m: "completed.members ?b2 = completed.members ?b1"
    using True by (simp add: bm_set_bitfield_def Let_def completed.members_def bm_is_bit_set_def)
  have "bm_done ?b2 = sum (\<lambda>_. 1) (completed.members ?b1)"
    using True bm_sum_members [of ?b1 "\<lambda>_. 1"]
    by (simp add: bm_set_bitfield_def Let_def sum_list_blocks del: sum_constant)
  with m True assms show ?thesis by (simp add: bm_ok_def bm_shape_def bm_set_bitfield_def Let_def)
next
  case False
  then show ?thesis using assms by (simp add: bm_set_bitfield_def)
qed

text \<open>The blocks tile the total length.\<close>

definition bm_fits :: "bitfield_man \<Rightarrow> bool" where
  "bm_fits b \<longleftrightarrow> bm_ok b \<and> 0 < bm_total b \<and>
     bm_num b = bm_total b div bm_block b + (if bm_total b mod bm_block b \<noteq> 0 then 1 else 0)"

lemma bm_block_length_pos: "bm_fits b \<Longrightarrow> 0 < bm_block_length b i"
  by (auto simp: bm_fits_def bm_block_length_def Let_def go_int bm_okD(3) order_less_le
      dest: bm_okD(3))

lemma bm_blocks_sum:
  assumes "bm_fits b"
  shows "(\<Sum>i\<in>{0..<bm_num b}. bm_block_length b i) = bm_total b"
proof -
  let ?n = "bm_num b" and ?l = "bm_block b" and ?t = "bm_total b"
  have l: "0 < ?l" and t: "0 < ?t" using assms by (auto simp: bm_fits_def dest: bm_okD(3))
  have dm: "?t = ?t div ?l * ?l + ?t mod ?l" by simp
  have r: "go_rem ?t ?l = ?t mod ?l" using l t by (simp add: go_int)
  have q: "0 \<le> ?t div ?l" using l t by (simp add: pos_imp_zdiv_nonneg_iff)
  have "?t mod ?l = 0 \<Longrightarrow> ?t div ?l \<noteq> 0" using t dm by auto
  with q have n: "0 < ?n" using assms by (auto simp: bm_fits_def)
  have "{0..<?n} = insert (?n - 1) {0..<?n - 1}" using n by auto
  then have "(\<Sum>i\<in>{0..<?n}. bm_block_length b i) =
      bm_block_length b (?n - 1) + (\<Sum>i\<in>{0..<?n - 1}. bm_block_length b i)" by simp
  also have "(\<Sum>i\<in>{0..<?n - 1}. bm_block_length b i) = (\<Sum>i\<in>{0..<?n - 1}. ?l)"
    by (rule sum.cong) (auto simp: bm_block_length_def)
  also have "\<dots> = (?n - 1) * ?l" using n by simp
  also have "bm_block_length b (?n - 1) + (?n - 1) * ?l = ?t"
    using assms dm by (auto simp: bm_block_length_def r Let_def bm_fits_def algebra_simps)
  finally show ?thesis .
qed

lemma bm_completed_length_eq:
  "bm_completed_length b = sum (bm_block_length b) (completed.members b)"
  unfolding bm_completed_length_def sum_list_blocks bm_sum_members ..

lemma bm_completed_length_bounds:
  assumes "bm_fits b"
  shows "0 \<le> bm_completed_length b" "bm_completed_length b \<le> bm_total b"
    "bm_is_all_bit_set b \<longleftrightarrow> bm_completed_length b = bm_total b"
proof -
  have ok: "bm_ok b" using assms by (simp add: bm_fits_def)
  note pos = bm_block_length_pos [OF assms]
  have sub: "completed.members b \<subseteq> {0..<bm_num b}" by (rule completed.members_range)
  show "0 \<le> bm_completed_length b"
    unfolding bm_completed_length_eq using pos by (intro sum_nonneg) (simp add: less_imp_le)
  show "bm_completed_length b \<le> bm_total b"
    unfolding bm_completed_length_eq bm_blocks_sum [OF assms, symmetric]
    using sub pos by (intro sum_mono2) (simp_all add: less_imp_le)
  show "bm_is_all_bit_set b \<longleftrightarrow> bm_completed_length b = bm_total b"
  proof
    assume "bm_is_all_bit_set b"
    then have "completed.members b = {0..<bm_num b}"
      using bm_all_iff [OF ok] sub by (auto simp: completed.members_def)
    then show "bm_completed_length b = bm_total b"
      by (simp add: bm_completed_length_eq bm_blocks_sum [OF assms])
  next
    assume eq: "bm_completed_length b = bm_total b"
    show "bm_is_all_bit_set b"
    proof (rule ccontr)
      assume "\<not> bm_is_all_bit_set b"
      then obtain i where i: "0 \<le> i" "i < bm_num b" "i \<notin> completed.members b"
        using bm_all_iff [OF ok] by (auto simp: completed.members_def)
      have "bm_completed_length b + bm_block_length b i = sum (bm_block_length b) (insert i (completed.members b))"
        using i by (simp add: bm_completed_length_eq)
      also have "\<dots> \<le> bm_total b"
        unfolding bm_blocks_sum [OF assms, symmetric]
        using sub i pos by (intro sum_mono2) (auto simp: less_imp_le)
      finally show False using eq pos [of i] by simp
    qed
  qed
qed


section \<open>Every sequence of operations\<close>

lemma bm_clear_frames [simp]:
  "bm_num (bm_clear_bit b i) = bm_num b" "bm_block (bm_clear_bit b i) = bm_block b"
  "bm_total (bm_clear_bit b i) = bm_total b" "bm_use (bm_clear_bit b i) = bm_use b"
  by (simp_all add: bm_clear_bit_def Let_def)

lemma bm_load_frames [simp]:
  "bm_num (bm_set_bitfield b bf) = bm_num b" "bm_block (bm_set_bitfield b bf) = bm_block b"
  "bm_total (bm_set_bitfield b bf) = bm_total b" "bm_use (bm_set_bitfield b bf) = bm_use b"
  by (simp_all add: bm_set_bitfield_def Let_def)

datatype bm_op = OpSet int | OpClear int | OpUse int | OpUnuse int | OpLoad "8 word list"

fun bm_exec :: "bitfield_man \<Rightarrow> bm_op \<Rightarrow> bitfield_man" where
  "bm_exec b (OpSet i) = bm_set_bit b i"
| "bm_exec b (OpClear i) = bm_clear_bit b i"
| "bm_exec b (OpUse i) = bm_set_use_bit b i"
| "bm_exec b (OpUnuse i) = bm_unset_use_bit b i"
| "bm_exec b (OpLoad bf) = bm_set_bitfield b bf"

lemma bm_exec_ok: "bm_ok b \<Longrightarrow> bm_ok (bm_exec b x)"
  by (cases x) (simp_all add: bm_set_bit_ok bm_clear_bit_ok bm_set_use_ok bm_unset_use_ok bm_set_bitfield_ok)

lemma bm_exec_frames [simp]:
  "bm_num (bm_exec b x) = bm_num b" "bm_block (bm_exec b x) = bm_block b"
  "bm_total (bm_exec b x) = bm_total b"
  by (cases x; simp)+

lemma bm_exec_fits: "bm_fits b \<Longrightarrow> bm_fits (bm_exec b x)"
  by (simp add: bm_fits_def bm_exec_ok)

lemmas bm_fits_ops =
  bm_exec_fits [of _ "OpSet _", simplified] bm_exec_fits [of _ "OpClear _", simplified]
  bm_exec_fits [of _ "OpUse _", simplified] bm_exec_fits [of _ "OpUnuse _", simplified]
  bm_exec_fits [of _ "OpLoad _", simplified]

lemma bm_fits_okD: "bm_fits b \<Longrightarrow> bm_ok b"
  by (simp add: bm_fits_def)

text \<open>
  Whatever calls are made on a bitmap that was sized for its length (set, clear, reserve,
  release, load a saved bitmap), the cached counter stays right: \<open>IsAllBitSet\<close> holds exactly when
  every block is set, \<open>CountMissing\<close> is the number of blocks less the counter, and the completed
  byte count lies between zero and the total, which it reaches exactly when all blocks are set.
\<close>
theorem bm_run_consistent:
  assumes "bm_fits b"
  shows "let r = foldl bm_exec b ops in
    (bm_is_all_bit_set r \<longleftrightarrow> (\<forall>i. 0 \<le> i \<and> i < bm_num b \<longrightarrow> bm_is_bit_set r i)) \<and>
    bm_count_missing r = bm_num b - bm_done r \<and>
    0 \<le> bm_completed_length r \<and> bm_completed_length r \<le> bm_total b \<and>
    bm_remaining_length r = bm_total b - bm_completed_length r \<and>
    (bm_is_all_bit_set r \<longleftrightarrow> bm_completed_length r = bm_total b)"
proof -
  have fits: "bm_fits (foldl bm_exec b ops)" using assms
    by (induction ops arbitrary: b) (simp_all add: bm_exec_fits)
  have frame: "bm_num (foldl bm_exec b ops) = bm_num b \<and> bm_total (foldl bm_exec b ops) = bm_total b"
    by (induction ops arbitrary: b) simp_all
  show ?thesis
    using frame bm_all_iff [OF bm_fits_okD [OF fits]] bm_count_missing_eq [OF bm_fits_okD [OF fits]]
      bm_completed_length_bounds [OF fits]
    by (simp add: Let_def bm_remaining_length_def)
qed

lemma new_bitfield_man_fits:
  assumes "0 < tot" "0 < blk" "num = tot div blk + (if tot mod blk \<noteq> 0 then 1 else 0)"
  shows "bm_fits (new_bitfield_man num blk tot)"
proof -
  have "0 \<le> tot div blk" using assms by (simp add: pos_imp_zdiv_nonneg_iff)
  then have "0 \<le> num" using assms(3) by simp
  with assms show ?thesis by (simp add: bm_fits_def new_bitfield_man_ok) (simp add: new_bitfield_man_def Let_def)
qed

text \<open>Ten blocks of four bytes and a last one of two.\<close>

lemma bm_run_consistent_witness:
  "let r = foldl bm_exec (new_bitfield_man 11 4 42) [OpSet 10, OpUse 3, OpSet 3, OpSet 3, OpClear 10, OpSet 0] in
     (bm_is_all_bit_set r \<longleftrightarrow> (\<forall>i. 0 \<le> i \<and> i < 11 \<longrightarrow> bm_is_bit_set r i)) \<and>
     bm_count_missing r = 11 - bm_done r \<and> bm_done r = 2 \<and> bm_completed_length r = 8"
proof -
  have f: "bm_fits (new_bitfield_man 11 4 42)" by (rule new_bitfield_man_fits) simp_all
  have n: "bm_num (new_bitfield_man 11 4 42) = 11" by (simp add: new_bitfield_man_def Let_def)
  have v: "let r = foldl bm_exec (new_bitfield_man 11 4 42) [OpSet 10, OpUse 3, OpSet 3, OpSet 3, OpClear 10, OpSet 0] in
      bm_done r = 2 \<and> bm_completed_length r = 8" by code_simp
  show ?thesis
    using v bm_run_consistent [OF f, of "[OpSet 10, OpUse 3, OpSet 3, OpSet 3, OpClear 10, OpSet 0]"] n
    by (simp only: Let_def)
qed

end
