(* ===== verification/Base64.thy ===== *)
theory Base64
  imports Prelude
begin

text \<open>
  \<open>encoding/base64.StdEncoding\<close>, as \<open>SerializePieceBitfields\<close> and \<open>RestorePieceBitfields\<close> use it:
  the standard alphabet with padding; the decoder skips carriage returns and newlines and
  ignores the unused bits of the last quantum. The file ends with the round trip.
\<close>

section \<open>Alphabet\<close>

text \<open>\<open>A\<close> to \<open>Z\<close>, \<open>a\<close> to \<open>z\<close>, \<open>0\<close> to \<open>9\<close>, then \<open>+\<close> and \<open>/\<close>.\<close>

definition b64_char :: "nat \<Rightarrow> char" where
  "b64_char n = char_of
     (if n < 26 then n + 65 else if n < 52 then n + 71 else if n < 62 then n - 4
      else if n = 62 then 43 else 47)"

definition b64_value :: "char \<Rightarrow> nat option" where
  "b64_value c =
     (let n = of_char c :: nat in
      if 65 \<le> n \<and> n \<le> 90 then Some (n - 65)
      else if 97 \<le> n \<and> n \<le> 122 then Some (n - 71)
      else if 48 \<le> n \<and> n \<le> 57 then Some (n + 4)
      else if n = 43 then Some 62 else if n = 47 then Some 63 else None)"

lemma b64_value_char: "n < 64 \<Longrightarrow> b64_value (b64_char n) = Some n"
  by (auto simp: b64_value_def b64_char_def of_char_of Let_def)

lemma b64_char_plain: "n < 64 \<Longrightarrow> b64_char n \<notin> {CHR ''='', CHR 0x0A, CHR 0x0D}"
proof -
  have "b64_value CHR ''='' = None" "b64_value CHR 0x0A = None" "b64_value CHR 0x0D = None"
    by (simp_all add: b64_value_def)
  then show "n < 64 \<Longrightarrow> b64_char n \<notin> {CHR ''='', CHR 0x0A, CHR 0x0D}"
    using b64_value_char [of n] by auto
qed

section \<open>Encoder and decoder\<close>

fun b64_encode :: "8 word list \<Rightarrow> string" where
  "b64_encode [] = []"
| "b64_encode [a] =
     [b64_char (unat a div 4), b64_char (unat a mod 4 * 16), CHR ''='', CHR ''='']"
| "b64_encode [a, b] =
     [b64_char (unat a div 4), b64_char (unat a mod 4 * 16 + unat b div 16),
      b64_char (unat b mod 16 * 4), CHR ''='']"
| "b64_encode (a # b # c # cs) =
     b64_char (unat a div 4) # b64_char (unat a mod 4 * 16 + unat b div 16) #
     b64_char (unat b mod 16 * 4 + unat c div 64) # b64_char (unat c mod 64) # b64_encode cs"

fun b64_quanta :: "string \<Rightarrow> 8 word list option" where
  "b64_quanta [] = Some []"
| "b64_quanta (p # q # r # s # rest) =
     (case (b64_value p, b64_value q) of
        (Some x, Some y) \<Rightarrow>
          if r = CHR ''='' then
            (if s = CHR ''='' \<and> rest = [] then Some [word_of_nat (x * 4 + y div 16)] else None)
          else (case b64_value r of
              None \<Rightarrow> None
            | Some z \<Rightarrow>
                if s = CHR ''='' then
                  (if rest = [] then
                     Some [word_of_nat (x * 4 + y div 16), word_of_nat (y mod 16 * 16 + z div 4)]
                   else None)
                else (case (b64_value s, b64_quanta rest) of
                    (Some w, Some bs) \<Rightarrow>
                      Some (word_of_nat (x * 4 + y div 16) # word_of_nat (y mod 16 * 16 + z div 4) #
                            word_of_nat (z mod 4 * 64 + w) # bs)
                  | _ \<Rightarrow> None))
      | _ \<Rightarrow> None)"
| "b64_quanta _ = None"

definition b64_decode :: "string \<Rightarrow> 8 word list option" where
  "b64_decode s = b64_quanta (filter (\<lambda>c. c \<noteq> CHR 0x0A \<and> c \<noteq> CHR 0x0D) s)"

section \<open>Round trip\<close>

lemma unat_byte: "unat (w :: 8 word) < 256"
  using unsigned_less [of w, where ?'a = nat] by simp

lemma b64_ranges [simp]:
  "unat (a :: 8 word) div 4 < 64"
  "unat a mod 4 * 16 < 64"
  "unat a mod 4 * 16 + unat (b :: 8 word) div 16 < 64"
  "unat b mod 16 * 4 < 64"
  "unat b mod 16 * 4 + unat (c :: 8 word) div 64 < 64"
  "unat c mod 64 < 64"
proof -
  have u: "unat a div 4 < 64" "unat b div 16 < 16" "unat c div 64 < 4"
    using unat_byte [of a] unat_byte [of b] unat_byte [of c] by (simp_all add: less_mult_imp_div_less)
  have m: "unat a mod 4 < 4" "unat b mod 16 < 16" by simp_all
  show "unat a div 4 < 64" "unat a mod 4 * 16 < 64" "unat a mod 4 * 16 + unat b div 16 < 64"
    "unat b mod 16 * 4 < 64" "unat b mod 16 * 4 + unat c div 64 < 64" "unat c mod 64 < 64"
    using u m by linarith+
qed

lemma b64_plain [simp]: "n < 64 \<Longrightarrow> b64_char n \<noteq> CHR ''=''"
  using b64_char_plain [of n] by simp

lemma pack_nat: "r < k \<Longrightarrow> (q * k + r) div k = q \<and> (q * k + r) mod k = (r :: nat)"
  by simp

lemma b64_join:
  "unat (a :: 8 word) div 4 * 4 + (unat a mod 4 * 16 + unat (b :: 8 word) div 16) div 16 = unat a"
  "(unat a mod 4 * 16 + unat b div 16) mod 16 * 16 + (unat b mod 16 * 4 + unat (c :: 8 word) div 64) div 4 = unat b"
  "(unat b mod 16 * 4 + unat c div 64) mod 4 * 64 + unat c mod 64 = unat c"
proof -
  have u: "unat b div 16 < 16" "unat c div 64 < 4"
    using unat_byte [of b] unat_byte [of c] by (simp_all add: less_mult_imp_div_less)
  note p = pack_nat [OF u(1), of "unat a mod 4"] pack_nat [OF u(2), of "unat b mod 16"]
  show "unat a div 4 * 4 + (unat a mod 4 * 16 + unat b div 16) div 16 = unat a"
    "(unat a mod 4 * 16 + unat b div 16) mod 16 * 16 + (unat b mod 16 * 4 + unat c div 64) div 4 = unat b"
    "(unat b mod 16 * 4 + unat c div 64) mod 4 * 64 + unat c mod 64 = unat c"
    using p by (simp_all only: div_mult_mod_eq)
qed

lemma b64_quanta_encode: "b64_quanta (b64_encode bs) = Some bs"
proof (induction bs rule: b64_encode.induct)
  case (2 a)
  show ?case using b64_join(1) [of a 0] by (simp add: b64_value_char)
next
  case (3 a b)
  show ?case using b64_join(1) [of a b] b64_join(2) [of a b 0] by (simp add: b64_value_char)
next
  case (4 a b c cs)
  then show ?case
    using b64_join(1) [of a b] b64_join(2) [of a b c] b64_join(3) [of b c] by (simp add: b64_value_char)
qed simp

lemma b64_encode_chars: "c \<in> set (b64_encode bs) \<Longrightarrow> c \<noteq> CHR 0x0A \<and> c \<noteq> CHR 0x0D"
proof (induction bs rule: b64_encode.induct)
  case (4 a b c cs)
  then show ?case using b64_char_plain b64_ranges by auto
qed (use b64_char_plain b64_ranges in auto)

lemma b64_roundtrip [simp]: "b64_decode (b64_encode bs) = Some bs"
proof -
  have "filter (\<lambda>c. c \<noteq> CHR 0x0A \<and> c \<noteq> CHR 0x0D) (b64_encode bs) = b64_encode bs"
    using b64_encode_chars by (intro filter_True) blast
  then show ?thesis by (simp add: b64_decode_def b64_quanta_encode)
qed

end
