(* ===== verification/Pieces.thy ===== *)
theory Pieces
  imports Bitfield Base64
begin

text \<open>
  Pieces and their manager, \<open>internal/downloader/chunk.go\<close>: a file is cut into pieces, a piece
  into blocks tracked by a bitmap; workers claim idle pieces, reserve blocks, and steal the tail
  of a piece that another worker is downloading. A \<open>*Piece\<close> handed to a worker is a position
  in the manager's slice. Locks are implicit: every method is atomic.
\<close>

section \<open>Pieces\<close>

datatype piece_status = PieceIdle | PieceActive | PieceComplete

record piece =
  p_index :: int
  p_start :: int
  p_length :: int
  p_status :: piece_status
  p_blocks :: bitfield_man
  p_owner :: int

definition default_block_length :: int where
  "default_block_length = 256 * 1024"

definition block_count :: "int \<Rightarrow> int \<Rightarrow> int" where
  "block_count len blk =
     (let n = go_div len blk + (if go_rem len blk \<noteq> 0 then 1 else 0) in if n = 0 then 1 else n)"

text \<open>The block length is \<open>default_block_length\<close> at every call, so the division never panics.\<close>

definition new_piece :: "int \<Rightarrow> int \<Rightarrow> int \<Rightarrow> int \<Rightarrow> piece" where
  "new_piece idx start len blk =
     \<lparr>p_index = idx, p_start = start, p_length = len, p_status = PieceIdle,
      p_blocks = new_bitfield_man (block_count len blk) blk len, p_owner = 0\<rparr>"

text \<open>Absolute offset and length of a block nobody has or downloads, now reserved; \<open>(-1, 0)\<close> if none.\<close>

definition next_unused_block :: "piece \<Rightarrow> piece \<times> int \<times> int" where
  "next_unused_block p =
     (let b = p_blocks p; idx = bm_first_missing_unused b in
      if idx < 0 then (p, -1, 0)
      else (p\<lparr>p_blocks := bm_set_use_bit b idx\<rparr>, p_start p + idx * bm_block b, bm_block_length b idx))"

definition complete_block :: "piece \<Rightarrow> int \<Rightarrow> piece" where
  "complete_block p i =
     (let b = bm_unset_use_bit (bm_set_bit (p_blocks p) i) i in
      p\<lparr>p_blocks := b, p_status := (if bm_is_all_bit_set b then PieceComplete else p_status p)\<rparr>)"

definition cancel_block :: "piece \<Rightarrow> int \<Rightarrow> piece" where
  "cancel_block p i = p\<lparr>p_blocks := bm_unset_use_bit (p_blocks p) i\<rparr>"

definition is_complete :: "piece \<Rightarrow> bool" where
  "is_complete p = bm_is_all_bit_set (p_blocks p)"

definition completed_length :: "piece \<Rightarrow> int" where
  "completed_length p = bm_completed_length (p_blocks p)"

definition remaining_length :: "piece \<Rightarrow> int" where
  "remaining_length p = p_length p - completed_length p"

definition set_owner :: "piece \<Rightarrow> int \<Rightarrow> piece" where
  "set_owner p cuid = p\<lparr>p_owner := cuid\<rparr>"

definition get_owner :: "piece \<Rightarrow> int" where
  "get_owner p = p_owner p"

definition set_piece_status :: "piece \<Rightarrow> piece_status \<Rightarrow> piece" where
  "set_piece_status p s = p\<lparr>p_status := s\<rparr>"

definition get_piece_status :: "piece \<Rightarrow> piece_status" where
  "get_piece_status p = p_status p"

text \<open>The loop of \<open>StealableRange\<close>: release the unfinished blocks from \<open>s\<close> on.\<close>

definition release_missing :: "bitfield_man \<Rightarrow> int \<Rightarrow> bitfield_man" where
  "release_missing b s =
     foldl (\<lambda>b i. if bm_is_bit_set b i then b else bm_unset_use_bit b i) b [s..bm_num b - 1]"

definition stealable_range :: "piece \<Rightarrow> int \<Rightarrow> piece \<times> int \<times> int" where
  "stealable_range p min_size =
     (let b = p_blocks p in
      if bm_remaining_length b < min_size then (p, -1, 0)
      else let first = bm_first_missing b in
        if first < 0 then (p, -1, 0)
        else let s0 = first + go_div (bm_count_missing b) 2;
                 s = (if s0 \<le> first then first else s0);
                 p' = p\<lparr>p_blocks := release_missing b s\<rparr>;
                 offset = p_start p + s * bm_block b;
                 len = p_length p - s * bm_block b in
          if len < 0 then (p', -1, 0)
          else if len < min_size then (p', -1, 0)
          else (p', offset, len))"

definition block_index_for_offset :: "piece \<Rightarrow> int \<Rightarrow> int" where
  "block_index_for_offset p offset =
     (let idx = go_div (offset - p_start p) (bm_block (p_blocks p)) in
      if idx \<ge> bm_num (p_blocks p) then bm_num (p_blocks p) - 1 else idx)"

section \<open>Splitting a file\<close>

text \<open>The fields of \<open>config.DownloadConfig\<close> that decide the split.\<close>

record chunk_cfg =
  default_chunk_size :: int
  min_chunk_size :: int
  max_chunk_size :: int
  max_connections :: int

text \<open>What \<open>DownloadConfig.Validate\<close> asks of them.\<close>

definition chunk_cfg_valid :: "chunk_cfg \<Rightarrow> bool" where
  "chunk_cfg_valid c \<longleftrightarrow>
     \<not> (max_connections c < 1 \<or> max_connections c > 64) \<and> \<not> min_chunk_size c < 0 \<and>
     \<not> max_chunk_size c < min_chunk_size c \<and>
     \<not> (default_chunk_size c < min_chunk_size c \<or> default_chunk_size c > max_chunk_size c)"

definition clamp_piece_size :: "chunk_cfg \<Rightarrow> int" where
  "clamp_piece_size cfg =
     (let s = default_chunk_size cfg;
          s = (if s < min_chunk_size cfg then min_chunk_size cfg else s)
      in if s > max_chunk_size cfg then max_chunk_size cfg else s)"

definition num_pieces :: "int \<Rightarrow> int \<Rightarrow> int" where
  "num_pieces fsize ps = go_div fsize ps + (if go_rem fsize ps \<noteq> 0 then 1 else 0)"

definition choose_piece_size :: "int \<Rightarrow> chunk_cfg \<Rightarrow> panic + int" where
  "choose_piece_size fsize cfg =
     (let ps = clamp_piece_size cfg in
      if ps = 0 then Inl DivideByZero
      else if max_connections cfg > 0 \<and> num_pieces fsize ps < max_connections cfg \<and> ps > min_chunk_size cfg
      then (let adj = go_div fsize (max_connections cfg) in
        if adj \<ge> min_chunk_size cfg then (if adj = 0 then Inl DivideByZero else Inr adj) else Inr ps)
      else Inr ps)"

definition piece_at :: "int \<Rightarrow> int \<Rightarrow> int \<Rightarrow> piece" where
  "piece_at fsize ps i =
     (let start = i * ps; len = (if i64 (start + ps) > fsize then fsize - start else ps)
      in new_piece i start len default_block_length)"

definition split_file_into_pieces :: "int \<Rightarrow> chunk_cfg \<Rightarrow> panic + piece list" where
  "split_file_into_pieces fsize cfg =
     (if fsize \<le> 0 then Inr [new_piece 0 0 0 default_block_length]
      else case choose_piece_size fsize cfg of
          Inl e \<Rightarrow> Inl e
        | Inr ps \<Rightarrow>
            let n = num_pieces fsize ps in
            if n < 0 then Inl MakeSliceRange
            else Inr (map (piece_at fsize ps) [0..n - 1]))"

text \<open>The older \<open>Chunk\<close> view of the same split.\<close>

datatype chunk_status = ChunkPending | ChunkDownloading | ChunkDone | ChunkFailed

record chunk =
  c_start :: int
  c_end :: int
  c_downloaded :: int
  c_status :: chunk_status

definition chunk_size :: "chunk \<Rightarrow> int" where
  "chunk_size c = c_end c - c_start c + 1"

definition chunk_remaining :: "chunk \<Rightarrow> int" where
  "chunk_remaining c = chunk_size c - c_downloaded c"

definition chunk_of_piece :: "piece \<Rightarrow> chunk" where
  "chunk_of_piece p =
     \<lparr>c_start = p_start p, c_end = p_start p + p_length p - 1, c_downloaded = 0, c_status = ChunkPending\<rparr>"

definition split_file_into_chunks :: "int \<Rightarrow> chunk_cfg \<Rightarrow> panic + chunk list" where
  "split_file_into_chunks fsize cfg = map_sum (\<lambda>e. e) (map chunk_of_piece) (split_file_into_pieces fsize cfg)"

section \<open>The piece manager\<close>

record piece_manager =
  pm_pieces :: "piece list"
  pm_file_size :: int
  pm_cuid_seq :: int
  pm_selector :: string

definition new_piece_manager :: "piece list \<Rightarrow> int \<Rightarrow> string \<Rightarrow> piece_manager" where
  "new_piece_manager ps fsize sel = \<lparr>pm_pieces = ps, pm_file_size = fsize, pm_cuid_seq = 0, pm_selector = sel\<rparr>"

definition next_cuid :: "piece_manager \<Rightarrow> piece_manager \<times> int" where
  "next_cuid pm = (let n = i64 (pm_cuid_seq pm + 1) in (pm\<lparr>pm_cuid_seq := n\<rparr>, n))"

definition piece_idle_at :: "piece list \<Rightarrow> int \<Rightarrow> bool" where
  "piece_idle_at ps i \<longleftrightarrow> 0 \<le> i \<and> i < int (length ps) \<and> p_status (ps ! nat i) = PieceIdle"

fun first_idle :: "piece list \<Rightarrow> int list \<Rightarrow> int option" where
  "first_idle ps [] = None"
| "first_idle ps (i # is) = (if piece_idle_at ps i then Some i else first_idle ps is)"

definition geom_index :: "int \<Rightarrow> int \<Rightarrow> int" where
  "geom_index tot i =
     (let mid = go_div tot 2 in
      if go_rem i 2 = 0 then mid - go_div i 2 else mid + go_div (i + 1) 2)"

text \<open>\<open>rnd n\<close> is the value \<open>rand.Intn(n)\<close> returns.\<close>

definition select_piece :: "piece_manager \<Rightarrow> (int \<Rightarrow> int) \<Rightarrow> int option" where
  "select_piece pm rnd =
     (let ps = pm_pieces pm; tot = int (length ps) in
      if pm_selector pm = ''geom'' then first_idle ps (map (geom_index tot) [0..tot - 1])
      else if pm_selector pm = ''random'' then
        (let idle = filter (piece_idle_at ps) [0..tot - 1] in
         if idle = [] then None else Some (idle ! nat (rnd (int (length idle)))))
      else first_idle ps [0..tot - 1])"

definition update_piece :: "piece_manager \<Rightarrow> int \<Rightarrow> piece \<Rightarrow> piece_manager" where
  "update_piece pm i p = pm\<lparr>pm_pieces := (pm_pieces pm)[nat i := p]\<rparr>"

definition get_piece_for_download :: "piece_manager \<Rightarrow> (int \<Rightarrow> int) \<Rightarrow> int \<Rightarrow> piece_manager \<times> int option" where
  "get_piece_for_download pm rnd cuid =
     (case select_piece pm rnd of
        None \<Rightarrow> (pm, None)
      | Some i \<Rightarrow>
          (update_piece pm i (set_owner (set_piece_status (pm_pieces pm ! nat i) PieceActive) cuid), Some i))"

fun try_steal_loop :: "int \<Rightarrow> int \<Rightarrow> int \<Rightarrow> piece list \<Rightarrow> piece list \<times> int \<times> int \<times> int option" where
  "try_steal_loop cuid mn i [] = ([], -1, -1, None)"
| "try_steal_loop cuid mn i (p # ps) =
     (if get_piece_status p = PieceActive \<and> get_owner p \<noteq> cuid then
        (case stealable_range p mn of (p', offset, len) \<Rightarrow>
           if offset \<ge> 0 \<and> len \<ge> mn then (p' # ps, offset, offset + len - 1, Some i)
           else case try_steal_loop cuid mn (i + 1) ps of (ps', r) \<Rightarrow> (p' # ps', r))
      else case try_steal_loop cuid mn (i + 1) ps of (ps', r) \<Rightarrow> (p # ps', r))"

definition try_steal_piece :: "piece_manager \<Rightarrow> int \<Rightarrow> int \<Rightarrow> piece_manager \<times> int \<times> int \<times> int option" where
  "try_steal_piece pm cuid mn =
     (case try_steal_loop cuid mn 0 (pm_pieces pm) of (ps, r) \<Rightarrow> (pm\<lparr>pm_pieces := ps\<rparr>, r))"

definition complete_piece :: "piece_manager \<Rightarrow> int \<Rightarrow> piece_manager" where
  "complete_piece pm i =
     (if i \<ge> 0 \<and> i < int (length (pm_pieces pm))
      then update_piece pm i (set_piece_status (pm_pieces pm ! nat i) PieceComplete) else pm)"

definition all_complete :: "piece_manager \<Rightarrow> bool" where
  "all_complete pm = list_all is_complete (pm_pieces pm)"

definition total_completed_length :: "piece_manager \<Rightarrow> int" where
  "total_completed_length pm = sum_list (map completed_length (pm_pieces pm))"

definition get_end_offset :: "piece_manager \<Rightarrow> int \<Rightarrow> panic + int" where
  "get_end_offset pm i =
     (let ps = pm_pieces pm; nxt = i + 1 in
      if nxt < int (length ps) then
        (if nxt < 0 then Inl IndexOutOfRange
         else if p_status (ps ! nat nxt) = PieceActive then
           (if i < 0 then Inl IndexOutOfRange
            else Inr (p_start (ps ! nat i) + p_length (ps ! nat i) - 1))
         else Inr (pm_file_size pm - 1))
      else Inr (pm_file_size pm - 1))"

definition get_piece_by_index :: "piece_manager \<Rightarrow> int \<Rightarrow> piece option" where
  "get_piece_by_index pm i =
     (if i \<ge> 0 \<and> i < int (length (pm_pieces pm)) then Some (pm_pieces pm ! nat i) else None)"

definition piece_count :: "piece_manager \<Rightarrow> int" where
  "piece_count pm = int (length (pm_pieces pm))"

definition active_piece_count :: "piece_manager \<Rightarrow> int" where
  "active_piece_count pm = int (length (filter (\<lambda>p. p_status p = PieceActive) (pm_pieces pm)))"

text \<open>\<open>task.PieceBitfieldEntry\<close>: a piece number and the base64 of its completion bitmap.\<close>

record piece_bitfield_entry =
  pe_index :: int
  pe_bitfield :: string

definition serialize_piece :: "piece \<Rightarrow> piece_bitfield_entry list" where
  "serialize_piece p =
     (let bf = bm_get_bitfield (p_blocks p) in
      if list_ex (\<lambda>w. w \<noteq> 0) bf then [\<lparr>pe_index = p_index p, pe_bitfield = b64_encode bf\<rparr>] else [])"

definition serialize_piece_bitfields :: "piece_manager \<Rightarrow> piece_bitfield_entry list" where
  "serialize_piece_bitfields pm = concat (map serialize_piece (pm_pieces pm))"

definition restore_piece :: "piece \<Rightarrow> 8 word list \<Rightarrow> piece" where
  "restore_piece p bf =
     (let b = bm_set_bitfield (p_blocks p) bf in
      p\<lparr>p_blocks := b, p_status := (if bm_is_all_bit_set b then PieceComplete else p_status p)\<rparr>)"

definition restore_entry :: "piece_manager \<Rightarrow> piece_bitfield_entry \<Rightarrow> piece_manager" where
  "restore_entry pm e =
     (if pe_index e < 0 \<or> pe_index e \<ge> int (length (pm_pieces pm)) then pm
      else case b64_decode (pe_bitfield e) of
          None \<Rightarrow> pm
        | Some bf \<Rightarrow> update_piece pm (pe_index e) (restore_piece (pm_pieces pm ! nat (pe_index e)) bf))"

definition restore_piece_bitfields :: "piece_manager \<Rightarrow> piece_bitfield_entry list \<Rightarrow> piece_manager" where
  "restore_piece_bitfields pm es = foldl restore_entry pm es"

end
