(* ===== verification/PieceProps.thy ===== *)
theory PieceProps
  imports Pieces
begin

text \<open>
  Properties of pieces and of the piece manager: the split is a partition of the file, block
  reservation and stealing act on the bitmap as promised, the selectors claim idle pieces only,
  and saved bitmaps restore the progress they were taken from.
\<close>

section \<open>Well-formed pieces\<close>

definition piece_wf :: "piece \<Rightarrow> bool" where
  "piece_wf p \<longleftrightarrow> bm_fits (p_blocks p) \<and> bm_total (p_blocks p) = p_length p \<and> 0 \<le> p_start p"

lemma piece_wfD: "piece_wf p \<Longrightarrow> bm_fits (p_blocks p)" "piece_wf p \<Longrightarrow> bm_ok (p_blocks p)"
  "piece_wf p \<Longrightarrow> 0 < bm_block (p_blocks p)" "piece_wf p \<Longrightarrow> 0 \<le> bm_num (p_blocks p)"
  "piece_wf p \<Longrightarrow> 0 < p_length p" "piece_wf p \<Longrightarrow> bm_total (p_blocks p) = p_length p"
  "piece_wf p \<Longrightarrow> bm_shape (p_blocks p)"
  by (auto simp: piece_wf_def bm_fits_def dest: bm_okD)

lemma piece_wf_blocks:
  "piece_wf p \<Longrightarrow> bm_fits b \<Longrightarrow> bm_total b = bm_total (p_blocks p) \<Longrightarrow> piece_wf (p\<lparr>p_blocks := b\<rparr>)"
  by (simp add: piece_wf_def)

lemma piece_wf_status [simp]: "piece_wf (p\<lparr>p_status := s\<rparr>) = piece_wf p" "piece_wf (p\<lparr>p_owner := c\<rparr>) = piece_wf p"
  by (simp_all add: piece_wf_def)

lemma block_count_pos: "0 < len \<Longrightarrow> 0 < blk \<Longrightarrow>
    block_count len blk = len div blk + (if len mod blk \<noteq> 0 then 1 else 0)"
  using pos_imp_zdiv_nonneg_iff [of blk len] div_mult_mod_eq [of len blk]
  by (auto simp: block_count_def go_int Let_def)

lemma new_piece_wf: "0 \<le> start \<Longrightarrow> 0 < len \<Longrightarrow> piece_wf (new_piece idx start len default_block_length)"
proof -
  assume a: "0 \<le> start" "0 < len"
  then have "bm_fits (new_bitfield_man (block_count len default_block_length) default_block_length len)"
    by (intro new_bitfield_man_fits) (simp_all add: default_block_length_def block_count_pos)
  with a show ?thesis by (simp add: piece_wf_def new_piece_def) (simp add: new_bitfield_man_def Let_def)
qed

text \<open>Where a block lies inside its piece.\<close>

lemma block_end:
  assumes "bm_fits b" "0 \<le> i" "i < bm_num b"
  shows "i * bm_block b + bm_block_length b i = min ((i + 1) * bm_block b) (bm_total b)"
proof -
  let ?l = "bm_block b" and ?t = "bm_total b" and ?n = "bm_num b"
  have l: "0 < ?l" "0 < ?t" and n: "?n = ?t div ?l + (if ?t mod ?l \<noteq> 0 then 1 else 0)"
    using assms(1) by (auto simp: bm_fits_def dest: bm_okD(3))
  have m: "0 \<le> ?t mod ?l" "?t mod ?l < ?l" using l by simp_all
  show ?thesis
  proof (cases "i = ?n - 1 \<and> ?t mod ?l \<noteq> 0")
    case True
    then have i: "i = ?t div ?l" using n by simp
    have e: "i * ?l + ?t mod ?l = ?t" unfolding i by simp
    have "(i + 1) * ?l = i * ?l + ?l" by (simp add: distrib_right)
    moreover have "bm_block_length b i = ?t mod ?l" using True l by (simp add: bm_block_length_def go_int)
    ultimately show ?thesis using e m by linarith
  next
    case False
    then have "i + 1 \<le> ?t div ?l" using assms(3) n by (cases "?t mod ?l = 0") simp_all
    then have "(i + 1) * ?l \<le> ?t div ?l * ?l" using l by (intro mult_right_mono) simp_all
    with m have "(i + 1) * ?l \<le> ?t" using div_mult_mod_eq [of ?t ?l] by linarith
    moreover have "bm_block_length b i = ?l" using False l by (auto simp: bm_block_length_def go_int Let_def)
    moreover have "(i + 1) * ?l = i * ?l + ?l" by (simp add: distrib_right)
    ultimately show ?thesis by linarith
  qed
qed

lemma block_inside:
  assumes "bm_fits b" "0 \<le> i" "i < bm_num b"
  shows "0 \<le> i * bm_block b" "i * bm_block b < bm_total b" "i * bm_block b + bm_block_length b i \<le> bm_total b"
    "0 < bm_block_length b i"
proof -
  have l: "0 < bm_block b" using assms(1) by (auto simp: bm_fits_def dest: bm_okD(3))
  show p: "0 < bm_block_length b i" using assms(1) by (rule bm_block_length_pos)
  show e: "i * bm_block b + bm_block_length b i \<le> bm_total b" using block_end [OF assms] by simp
  show "0 \<le> i * bm_block b" using l assms(2) by simp
  show "i * bm_block b < bm_total b" using e p by linarith
qed

lemma offset_block:
  assumes "piece_wf p" "0 \<le> i" "i < bm_num (p_blocks p)" "0 \<le> d" "d < bm_block_length (p_blocks p) i"
  shows "block_index_for_offset p (p_start p + i * bm_block (p_blocks p) + d) = i"
proof -
  let ?b = "p_blocks p"
  have l: "0 < bm_block ?b" using assms(1) by (rule piece_wfD)
  have "bm_block_length ?b i \<le> bm_block ?b"
    using block_end [OF piece_wfD(1) [OF assms(1)] assms(2,3)] by (simp add: algebra_simps)
  with assms(5) have "d < bm_block ?b" by simp
  moreover have "0 \<le> i * bm_block ?b + d" using l assms by simp
  ultimately show ?thesis using l assms
    by (simp add: block_index_for_offset_def go_int Let_def add.commute)
qed

section \<open>Reserving blocks\<close>

text \<open>
  \<open>NextUnusedBlock\<close> hands out a block that was neither complete nor reserved, as a non-empty byte
  range inside the piece from which \<open>BlockIndexForOffset\<close> recovers the block, and reserves exactly
  that block; it answers \<open>(-1, 0)\<close>, changing nothing, only if every block is complete or reserved.
\<close>
theorem next_unused_block_spec:
  assumes "piece_wf p"
  shows "case next_unused_block p of (p', off, len) \<Rightarrow>
    let b = p_blocks p; b' = p_blocks p' in
    (off = -1 \<and> len = 0 \<and> p' = p \<and>
       (\<forall>i. 0 \<le> i \<and> i < bm_num b \<longrightarrow> bm_is_bit_set b i \<or> bm_is_use_bit_set b i)) \<or>
    (\<exists>i. 0 \<le> i \<and> i < bm_num b \<and> \<not> bm_is_bit_set b i \<and> \<not> bm_is_use_bit_set b i \<and>
       block_index_for_offset p off = i \<and> off = p_start p + i * bm_block b \<and>
       0 < len \<and> p_start p \<le> off \<and> off + len \<le> p_start p + p_length p \<and>
       bm_is_bit_set b' = bm_is_bit_set b \<and>
       (\<forall>j. bm_is_use_bit_set b' j \<longleftrightarrow> bm_is_use_bit_set b j \<or> j = i))"
proof -
  let ?b = "p_blocks p"
  note D = piece_wfD [OF assms]
  consider
    (none) "bm_first_missing_unused ?b = -1"
      "\<forall>j. 0 \<le> j \<and> j < bm_num ?b \<longrightarrow> bm_is_bit_set ?b j \<or> bm_is_use_bit_set ?b j"
  | (some) i where "bm_first_missing_unused ?b = i" "0 \<le> i" "i < bm_num ?b" "\<not> bm_is_bit_set ?b i"
      "\<not> bm_is_use_bit_set ?b i"
    using bm_first_missing_unused_cases [OF D(4)] by blast
  then show ?thesis
  proof cases
    case none
    then show ?thesis by (simp add: next_unused_block_def)
  next
    case some
    note ins = block_inside [OF D(1) some(2,3)]
    have "block_index_for_offset p (p_start p + i * bm_block ?b + 0) = i"
      using ins by (intro offset_block assms some) simp_all
    moreover have "bm_is_use_bit_set (bm_set_use_bit ?b i) j \<longleftrightarrow> bm_is_use_bit_set ?b j \<or> j = i" for j
      using used.mem_add [OF D(7)] some by auto
    ultimately show ?thesis using some ins D(6)
      by (simp add: next_unused_block_def Let_def)
  qed
qed

definition demo_piece :: piece where
  "demo_piece = new_piece 1 1000000 600000 default_block_length"

lemma demo_piece_wf: "piece_wf demo_piece"
  unfolding demo_piece_def by (rule new_piece_wf) simp_all

lemma next_unused_block_spec_witness:
  "\<exists>i. i = 0 \<and> block_index_for_offset demo_piece 1000000 = i \<and>
     (\<forall>j. bm_is_use_bit_set (p_blocks (fst (next_unused_block demo_piece))) j \<longleftrightarrow>
        bm_is_use_bit_set (p_blocks demo_piece) j \<or> j = i)"
proof -
  have v: "snd (next_unused_block demo_piece) = (1000000, 262144)" by code_simp
  have b: "block_index_for_offset demo_piece 1000000 = 0" by code_simp
  show ?thesis
    using next_unused_block_spec [OF demo_piece_wf] v b
    by (cases "next_unused_block demo_piece") (auto simp: Let_def)
qed


section \<open>Stealing\<close>

lemma release_fold:
  "bm_fits b \<Longrightarrow>
   let r = foldl (\<lambda>b i. if bm_is_bit_set b i then b else bm_unset_use_bit b i) b is in
     bm_fits r \<and> bm_is_bit_set r = bm_is_bit_set b \<and> bm_num r = bm_num b \<and> bm_block r = bm_block b \<and>
     bm_total r = bm_total b \<and>
     (\<forall>j. bm_is_use_bit_set r j \<longleftrightarrow> bm_is_use_bit_set b j \<and> (j \<in> set is \<longrightarrow> bm_is_bit_set b j))"
proof (induction "is" arbitrary: b)
  case Nil
  then show ?case by simp
next
  case (Cons i "is")
  let ?b = "if bm_is_bit_set b i then b else bm_unset_use_bit b i"
  have f: "bm_fits ?b" using Cons.prems bm_fits_ops(4) by simp
  have u: "bm_is_use_bit_set ?b j \<longleftrightarrow> bm_is_use_bit_set b j \<and> (j = i \<longrightarrow> bm_is_bit_set b i)" for j
    using used.mem_del [OF bm_okD(1) [OF bm_fits_okD [OF Cons.prems]]] by auto
  have fr: "bm_is_bit_set ?b = bm_is_bit_set b" "bm_num ?b = bm_num b" "bm_block ?b = bm_block b"
    "bm_total ?b = bm_total b" by simp_all
  note IH = Cons.IH [OF f, unfolded Let_def fr]
  have "bm_is_use_bit_set (foldl (\<lambda>b i. if bm_is_bit_set b i then b else bm_unset_use_bit b i) ?b is) j
      \<longleftrightarrow> bm_is_use_bit_set b j \<and> (j \<in> set (i # is) \<longrightarrow> bm_is_bit_set b j)" for j
    using IH u [of j] by auto
  then show ?case unfolding Let_def foldl_Cons using IH by (intro conjI allI) simp_all
qed

lemma release_missing_spec:
  assumes "bm_fits b"
  shows "bm_fits (release_missing b s)" "bm_is_bit_set (release_missing b s) = bm_is_bit_set b"
    "bm_num (release_missing b s) = bm_num b" "bm_block (release_missing b s) = bm_block b"
    "bm_total (release_missing b s) = bm_total b"
    "bm_is_use_bit_set (release_missing b s) j \<longleftrightarrow>
       bm_is_use_bit_set b j \<and> (s \<le> j \<longrightarrow> bm_is_bit_set b j)"
proof -
  note r = release_fold [OF assms, of "[s..bm_num b - 1]", folded release_missing_def, unfolded Let_def]
  from r show "bm_fits (release_missing b s)" "bm_is_bit_set (release_missing b s) = bm_is_bit_set b"
    "bm_num (release_missing b s) = bm_num b" "bm_block (release_missing b s) = bm_block b"
    "bm_total (release_missing b s) = bm_total b" by simp_all
  have "bm_is_use_bit_set b j \<Longrightarrow> j < bm_num b" using used.mem_range by blast
  with r show "bm_is_use_bit_set (release_missing b s) j \<longleftrightarrow>
       bm_is_use_bit_set b j \<and> (s \<le> j \<longrightarrow> bm_is_bit_set b j)" by auto
qed

text \<open>The block at which a theft starts.\<close>

definition steal_start :: "bitfield_man \<Rightarrow> int" where
  "steal_start b = bm_first_missing b + bm_count_missing b div 2"

lemma count_missing_bounds:
  assumes "bm_fits b" "0 \<le> bm_first_missing b"
  shows "0 < bm_count_missing b" "bm_count_missing b \<le> bm_num b - bm_first_missing b"
proof -
  let ?f = "bm_first_missing b"
  note ok = bm_fits_okD [OF assms(1)]
  have f: "?f < bm_num b" "\<not> bm_is_bit_set b ?f" "\<And>j. 0 \<le> j \<Longrightarrow> j < ?f \<Longrightarrow> bm_is_bit_set b j"
    using bm_first_missing_cases [OF bm_okD(2) [OF ok]] assms(2) by auto
  have c: "bm_count_missing b = bm_num b - int (card (completed.members b))"
    using bm_count_missing_eq [OF ok] bm_okD(4) [OF ok] by simp
  have "card (completed.members b) \<le> card ({0..<bm_num b} - {?f})"
    using completed.members_range [of b] f(2) by (intro card_mono) (auto simp: completed.members_def)
  also have "\<dots> = nat (bm_num b) - 1" using f(1) assms(2) by (simp add: card_Diff_singleton)
  finally show "0 < bm_count_missing b" using c f(1) assms(2) by linarith
  have "card {0..<?f} \<le> card (completed.members b)"
    using f(3) by (intro card_mono completed.finite_members) (auto simp: completed.members_def)
  then show "bm_count_missing b \<le> bm_num b - ?f" using c assms(2) by simp
qed

lemma steal_start_range:
  assumes "bm_fits b" "0 \<le> bm_first_missing b"
  shows "bm_first_missing b \<le> steal_start b" "steal_start b < bm_num b"
  using count_missing_bounds [OF assms] by (simp_all add: steal_start_def)

lemma stealable_range_eq:
  assumes "piece_wf p"
  shows "stealable_range p m =
     (let b = p_blocks p; p' = p\<lparr>p_blocks := release_missing b (steal_start b)\<rparr>;
          len = p_length p - steal_start b * bm_block b in
      if bm_remaining_length b < m \<or> bm_first_missing b < 0 then (p, -1, 0)
      else if len < m then (p', -1, 0)
      else (p', p_start p + steal_start b * bm_block b, len))"
proof (cases "bm_first_missing (p_blocks p) < 0")
  case True
  then show ?thesis by (simp add: stealable_range_def Let_def)
next
  case False
  note D = piece_wfD [OF assms]
  have f: "0 \<le> bm_first_missing (p_blocks p)" using False by simp
  note c = count_missing_bounds [OF D(1) f]
  note st = steal_start_range [OF D(1) f]
  have d: "go_div (bm_count_missing (p_blocks p)) 2 = bm_count_missing (p_blocks p) div 2"
    using c by (simp add: go_int)
  have s: "(if bm_first_missing (p_blocks p) + bm_count_missing (p_blocks p) div 2 \<le> bm_first_missing (p_blocks p)
      then bm_first_missing (p_blocks p)
      else bm_first_missing (p_blocks p) + bm_count_missing (p_blocks p) div 2) = steal_start (p_blocks p)"
    using c by (simp add: steal_start_def)
  have "0 \<le> steal_start (p_blocks p)" using st f by simp
  from block_inside(2) [OF D(1) this st(2)] have "\<not> p_length p - steal_start (p_blocks p) * bm_block (p_blocks p) < 0"
    using D(6) by simp
  with False show ?thesis unfolding stealable_range_def Let_def d s by simp
qed

text \<open>
  \<open>StealableRange\<close> never loses downloaded data: completion bits, status, owner and extent of the piece
  are kept. A theft that is granted is the tail of the piece from a block at or after the first
  missing one, it is at least as long as asked, and from there on exactly the unfinished blocks
  lose their reservation.
\<close>
theorem stealable_range_spec:
  assumes "piece_wf p"
  shows "case stealable_range p m of (p', off, len) \<Rightarrow>
    let b = p_blocks p; b' = p_blocks p' in
    piece_wf p' \<and> bm_is_bit_set b' = bm_is_bit_set b \<and> p_start p' = p_start p \<and> p_length p' = p_length p \<and>
    p_status p' = p_status p \<and> p_owner p' = p_owner p \<and>
    (off \<noteq> -1 \<longrightarrow>
      (\<exists>s. bm_first_missing b \<le> s \<and> 0 \<le> s \<and> s < bm_num b \<and> off = p_start p + s * bm_block b \<and>
         off + len = p_start p + p_length p \<and> m \<le> len \<and>
         (\<forall>j. bm_is_use_bit_set b' j \<longleftrightarrow> bm_is_use_bit_set b j \<and> (s \<le> j \<longrightarrow> bm_is_bit_set b j))))"
proof -
  let ?b = "p_blocks p" and ?s = "steal_start (p_blocks p)"
  note D = piece_wfD [OF assms]
  note r = release_missing_spec [OF D(1), of ?s]
  have w: "piece_wf (p\<lparr>p_blocks := release_missing ?b ?s\<rparr>)"
    using assms r by (intro piece_wf_blocks) simp_all
  show ?thesis
  proof (cases "bm_remaining_length ?b < m \<or> bm_first_missing ?b < 0")
    case True
    then show ?thesis using assms by (simp add: stealable_range_eq [OF assms] Let_def)
  next
    case False
    then have "0 \<le> bm_first_missing ?b" by simp
    from steal_start_range [OF D(1) this] this False w r show ?thesis
      by (simp add: stealable_range_eq [OF assms] Let_def) (intro impI exI [of _ ?s], simp)
  qed
qed

lemma stealable_range_spec_witness:
  "let (p', off, len) = stealable_range demo_piece 300000 in
     off = 1262144 \<and> len = 337856 \<and> piece_wf p' \<and> bm_is_bit_set (p_blocks p') = bm_is_bit_set (p_blocks demo_piece)"
proof -
  have v: "snd (stealable_range demo_piece 300000) = (1262144, 337856)" by code_simp
  show ?thesis
    using stealable_range_spec [OF demo_piece_wf, of 300000] v
    by (cases "stealable_range demo_piece 300000") (simp add: Let_def)
qed

text \<open>
  A refused theft still gives away reservations: when all blocks of a piece are reserved and none is
  finished, a worker that asks for more than the second half gets nothing, but the blocks of
  that half are free afterwards and the next \<open>NextUnusedBlock\<close> hands one of them out again, although
  its first owner is still downloading it.
\<close>
theorem refused_steal_releases:
  assumes "piece_wf p" "2 \<le> bm_num (p_blocks p)"
    and all: "\<forall>i. 0 \<le> i \<and> i < bm_num (p_blocks p) \<longrightarrow>
      bm_is_use_bit_set (p_blocks p) i \<and> \<not> bm_is_bit_set (p_blocks p) i"
    and m: "p_length p - bm_num (p_blocks p) div 2 * bm_block (p_blocks p) < m" "m \<le> p_length p"
  shows "\<exists>p'. stealable_range p m = (p', -1, 0) \<and> next_unused_block p = (p, -1, 0) \<and>
    fst (snd (next_unused_block p')) = p_start p + bm_num (p_blocks p) div 2 * bm_block (p_blocks p)"
proof -
  let ?b = "p_blocks p" and ?n = "bm_num (p_blocks p)"
  note D = piece_wfD [OF assms(1)]
  have none: "completed.members ?b = {}"
    using all completed.mem_range by (auto simp: completed.members_def)
  have first: "bm_first_missing ?b = 0"
    using bm_first_missing_cases [OF D(4)] all assms(2) by (smt (verit))
  have cnt: "bm_count_missing ?b = ?n"
    using bm_count_missing_eq [OF D(2)] bm_okD(4) [OF D(2)] none by simp
  have st: "steal_start ?b = ?n div 2" by (simp add: steal_start_def first cnt)
  have rem: "bm_remaining_length ?b = p_length p"
    using D(6) by (simp add: bm_remaining_length_def bm_completed_length_eq none)
  let ?r = "release_missing ?b (?n div 2)"
  note r = release_missing_spec [OF D(1), of "?n div 2"]
  have eq: "stealable_range p m = (p\<lparr>p_blocks := ?r\<rparr>, -1, 0)"
    using m by (simp add: stealable_range_eq [OF assms(1)] Let_def rem first st)
  have busy: "bm_first_missing_unused ?b = -1"
    using bm_first_missing_unused_cases [OF D(4)] all by blast
  have h: "0 \<le> ?n div 2" "?n div 2 < ?n" using assms(2) by simp_all
  have fu: "\<not> bm_is_bit_set ?r j \<and> \<not> bm_is_use_bit_set ?r j \<longleftrightarrow> ?n div 2 \<le> j" if "0 \<le> j" "j < ?n" for j
    using r(2,6) all that by auto
  have "bm_first_missing_unused ?r = ?n div 2"
    using bm_first_missing_unused_cases [of ?r] r(3) h fu
    by (smt (verit, best))
  then show ?thesis using eq busy h r(4) by (simp add: next_unused_block_def Let_def)
qed

definition busy_piece :: piece where
  "busy_piece = fst (next_unused_block (fst (next_unused_block (fst (next_unused_block demo_piece)))))"

lemma refused_steal_releases_witness:
  "\<exists>p'. stealable_range busy_piece 400000 = (p', -1, 0) \<and> fst (snd (next_unused_block p')) = 1262144"
proof -
  have step: "piece_wf (fst (next_unused_block p))" if "piece_wf p" for p
    using that bm_fits_ops(3) [OF piece_wfD(1) [OF that]]
    by (auto simp: next_unused_block_def Let_def intro!: piece_wf_blocks)
  have w: "piece_wf busy_piece" unfolding busy_piece_def by (intro step demo_piece_wf)
  have v: "bm_num (p_blocks busy_piece) = 3" "p_length busy_piece = 600000" "p_start busy_piece = 1000000"
    "bm_block (p_blocks busy_piece) = 262144" by code_simp+
  have "list_all (\<lambda>i. bm_is_use_bit_set (p_blocks busy_piece) i \<and> \<not> bm_is_bit_set (p_blocks busy_piece) i) [0..2]"
    by code_simp
  then have "\<forall>i. 0 \<le> i \<and> i < bm_num (p_blocks busy_piece) \<longrightarrow>
      bm_is_use_bit_set (p_blocks busy_piece) i \<and> \<not> bm_is_bit_set (p_blocks busy_piece) i"
    by (auto simp: list_all_iff v)
  from refused_steal_releases [OF w _ this, of 400000] show ?thesis by (auto simp: v)
qed

end
