(* ===== verification/PieceManagerProps.thy ===== *)
theory PieceManagerProps
  imports PieceProps
begin

text \<open>
  The piece manager: the split partitions the file, the selectors claim idle pieces only, progress
  totals are exact, and saved bitmaps restore the progress they were taken from.
\<close>

section \<open>The split\<close>

lemma num_pieces_facts:
  assumes "0 < fs" "0 < s"
  shows "0 < num_pieces fs s" "(num_pieces fs s - 1) * s < fs" "fs \<le> num_pieces fs s * s"
    "num_pieces fs s \<le> fs"
proof -
  have q: "0 \<le> fs div s" using assms by (simp add: pos_imp_zdiv_nonneg_iff)
  have m: "0 \<le> fs mod s" "fs mod s < s" using assms by simp_all
  have e: "fs div s * s + fs mod s = fs" by simp
  have qs: "fs div s \<le> fs div s * s" using q assms mult_left_mono [of 1 s "fs div s"] by simp
  have n: "num_pieces fs s = fs div s + (if fs mod s \<noteq> 0 then 1 else 0)"
    using assms by (simp add: num_pieces_def go_int)
  show "0 < num_pieces fs s" "num_pieces fs s \<le> fs"
    using q e m qs assms by (cases "fs mod s = 0"; cases "fs div s = 0"; simp add: n; linarith)+
  show "(num_pieces fs s - 1) * s < fs" "fs \<le> num_pieces fs s * s"
    using e m assms by (cases "fs mod s = 0"; simp add: n left_diff_distrib distrib_right; linarith)+
qed

lemma choose_piece_size_ok:
  assumes "chunk_cfg_valid cfg" "0 < fs" "0 < default_chunk_size cfg"
    "0 < min_chunk_size cfg \<or> max_connections cfg \<le> fs"
  shows "\<exists>s. choose_piece_size fs cfg = Inr s \<and> 0 < s \<and> s \<le> max_chunk_size cfg \<and> min_chunk_size cfg \<le> s"
proof -
  let ?d = "default_chunk_size cfg" and ?adj = "fs div max_connections cfg"
  have c: "clamp_piece_size cfg = ?d" and v: "0 < max_connections cfg" "?d \<le> max_chunk_size cfg"
    "min_chunk_size cfg \<le> ?d"
    using assms(1) by (auto simp: chunk_cfg_valid_def clamp_piece_size_def Let_def)
  have adj: "go_div fs (max_connections cfg) = ?adj" using assms v by (simp add: go_int)
  have "?adj \<le> ?d" if "num_pieces fs ?d < max_connections cfg"
  proof -
    have "fs \<le> num_pieces fs ?d * ?d" using num_pieces_facts(3) assms by simp
    also have "\<dots> \<le> max_connections cfg * ?d" using that assms by (intro mult_right_mono) simp_all
    finally show ?thesis using zdiv_mono1 [of fs "max_connections cfg * ?d" "max_connections cfg"] v by simp
  qed
  moreover have "0 < ?adj" if "min_chunk_size cfg \<le> ?adj"
    using that assms(4) v pos_imp_zdiv_pos_iff [of "max_connections cfg" fs] by auto
  ultimately show ?thesis
    using assms v by (auto simp: choose_piece_size_def c adj Let_def)
qed

definition piece_bytes :: "piece \<Rightarrow> int list" where
  "piece_bytes p = [p_start p..p_start p + p_length p - 1]"

lemma piece_at_fields:
  assumes "0 < fs" "0 < s" "fs + s < 2 ^ 63" "0 \<le> i" "i < num_pieces fs s"
  shows "p_start (piece_at fs s i) = i * s" "p_start (piece_at fs s i) + p_length (piece_at fs s i) = min ((i + 1) * s) fs"
    "0 < p_length (piece_at fs s i)" "p_length (piece_at fs s i) \<le> s" "piece_wf (piece_at fs s i)"
    "p_index (piece_at fs s i) = i" "p_status (piece_at fs s i) = PieceIdle"
proof -
  have "i * s \<le> (num_pieces fs s - 1) * s" using assms by (intro mult_right_mono) simp_all
  then have lt: "i * s < fs" using num_pieces_facts(2) [OF assms(1,2)] by simp
  have nn: "0 \<le> i * s" using assms by simp
  have i64: "i64 (i * s + s) = i * s + s" using lt nn assms by (intro i64_id_nonneg) linarith+
  have pa: "piece_at fs s i = new_piece i (i * s) (min s (fs - i * s)) default_block_length"
    using lt by (auto simp: piece_at_def i64 Let_def min_def)
  show "p_start (piece_at fs s i) = i * s" "0 < p_length (piece_at fs s i)" "p_length (piece_at fs s i) \<le> s"
    "p_index (piece_at fs s i) = i" "p_status (piece_at fs s i) = PieceIdle"
    using lt assms(2) by (simp_all add: pa new_piece_def)
  show "p_start (piece_at fs s i) + p_length (piece_at fs s i) = min ((i + 1) * s) fs"
    using lt by (simp add: pa new_piece_def distrib_right)
  show "piece_wf (piece_at fs s i)" unfolding pa using lt nn assms(2) by (intro new_piece_wf) simp_all
qed

lemma pieces_tile:
  assumes "0 < fs" "0 < s" "fs + s < 2 ^ 63" "int k \<le> num_pieces fs s"
  shows "concat (map piece_bytes (map (piece_at fs s) [0..int k - 1])) = [0..min (int k * s) fs - 1]"
  using assms(4)
proof (induction k)
  case 0
  then show ?case using assms(1) by simp
next
  case (Suc k)
  then have k: "int k < num_pieces fs s" by simp
  note f = piece_at_fields [OF assms(1-3) _ k]
  have up: "[0..int (Suc k) - 1] = [0..int k - 1] @ [int k]" by (simp add: upto_rec2)
  have "int k * s \<le> (num_pieces fs s - 1) * s" using k assms(2) by (intro mult_right_mono) simp_all
  also have "\<dots> < fs" using num_pieces_facts(2) [OF assms(1,2)] by simp
  finally have lt: "int k * s < fs" "0 \<le> int k * s" using assms(2) by simp_all
  have "concat (map piece_bytes (map (piece_at fs s) [0..int (Suc k) - 1])) =
      [0..int k * s - 1] @ [int k * s..min ((int k + 1) * s) fs - 1]"
  proof -
    have "piece_bytes (piece_at fs s (int k)) = [int k * s..min ((int k + 1) * s) fs - 1]"
      using f(1,2) by (simp add: piece_bytes_def)
    with Suc.IH k lt show ?thesis unfolding up map_append concat_append by simp
  qed
  also have "\<dots> = [0..min ((int k + 1) * s) fs - 1]"
    using lt assms(2) by (intro upto_split1 [symmetric]) (simp_all add: distrib_right)
  finally show ?case by (simp add: add.commute)
qed

text \<open>A positive piece size tiles the file.\<close>

lemma split_of_size:
  assumes "0 < fs" "choose_piece_size fs cfg = Inr s" "0 < s" "s \<le> max_chunk_size cfg"
    "fs + max_chunk_size cfg < 2 ^ 63"
  shows "\<exists>ps. split_file_into_pieces fs cfg = Inr ps \<and> concat (map piece_bytes ps) = [0..fs - 1] \<and>
    map p_index ps = [0..int (length ps) - 1] \<and>
    (\<forall>p \<in> set ps. piece_wf p \<and> p_status p = PieceIdle \<and> p_length p \<le> max_chunk_size cfg)"
proof -
  let ?n = "num_pieces fs s"
  note n = num_pieces_facts [OF assms(1,3)]
  have b: "fs + s < 2 ^ 63" using assms(4,5) by simp
  note f = piece_at_fields [OF assms(1,3) b]
  have "concat (map piece_bytes (map (piece_at fs s) [0..int (nat ?n) - 1])) = [0..min (int (nat ?n) * s) fs - 1]"
    by (rule pieces_tile [OF assms(1,3) b]) (use n in simp)
  then have tile: "concat (map piece_bytes (map (piece_at fs s) [0..?n - 1])) = [0..fs - 1]"
    using n by simp
  have idx: "map p_index (map (piece_at fs s) [0..?n - 1]) = [0..int (length (map (piece_at fs s) [0..?n - 1])) - 1]"
    using n(1) f(6) by simp (rule map_idI, simp)
  have all: "\<forall>p \<in> set (map (piece_at fs s) [0..?n - 1]).
      piece_wf p \<and> p_status p = PieceIdle \<and> p_length p \<le> max_chunk_size cfg"
    using f(4,5,7) assms(4) by fastforce
  have "split_file_into_pieces fs cfg = Inr (map (piece_at fs s) [0..?n - 1])"
    using assms(1,2) n(1) by (simp add: split_file_into_pieces_def)
  with tile idx all show ?thesis by blast
qed

text \<open>
  C10: \<open>SplitFileIntoPieces\<close> cuts a non-empty file into pieces that tile it: read off in order, their byte
  ranges are exactly \<open>0..size-1\<close>, so nothing is downloaded twice or missed. Every piece is idle, carries its
  position, has a bitmap sized for its length and is no longer than the configured maximum.
\<close>
theorem split_partitions_file:
  assumes "chunk_cfg_valid cfg" "0 < min_chunk_size cfg" "0 < fs" "fs + max_chunk_size cfg < 2 ^ 63"
  shows "\<exists>ps. split_file_into_pieces fs cfg = Inr ps \<and> concat (map piece_bytes ps) = [0..fs - 1] \<and>
    map p_index ps = [0..int (length ps) - 1] \<and>
    (\<forall>p \<in> set ps. piece_wf p \<and> p_status p = PieceIdle \<and> p_length p \<le> max_chunk_size cfg)"
proof -
  have "0 < default_chunk_size cfg" using assms(1,2) by (auto simp: chunk_cfg_valid_def)
  from choose_piece_size_ok [OF assms(1,3) this] assms(2) obtain s
    where "choose_piece_size fs cfg = Inr s" "0 < s" "s \<le> max_chunk_size cfg" by blast
  from split_of_size [OF assms(3) this assms(4)] show ?thesis .
qed

definition default_chunk_cfg :: chunk_cfg where
  "default_chunk_cfg = \<lparr>default_chunk_size = 10 * 1024 * 1024, min_chunk_size = 1024 * 1024,
     max_chunk_size = 50 * 1024 * 1024, max_connections = 8\<rparr>"

lemma split_partitions_file_witness:
  "\<exists>ps. split_file_into_pieces 100000000 default_chunk_cfg = Inr ps \<and>
     concat (map piece_bytes ps) = [0..99999999]"
  using split_partitions_file [of default_chunk_cfg 100000000]
  by (auto simp: chunk_cfg_valid_def default_chunk_cfg_def)

text \<open>Exactly which validated configurations crash the split.\<close>

lemma split_panics_iff:
  assumes "chunk_cfg_valid cfg"
  shows "split_file_into_pieces fs cfg = Inl DivideByZero \<longleftrightarrow>
    0 < fs \<and> (default_chunk_size cfg = 0 \<or> min_chunk_size cfg = 0 \<and> fs < max_connections cfg)"
proof (cases "0 < fs \<and> 0 < default_chunk_size cfg")
  case False
  have "clamp_piece_size cfg = default_chunk_size cfg" "0 \<le> default_chunk_size cfg"
    using assms by (auto simp: chunk_cfg_valid_def clamp_piece_size_def Let_def)
  with False show ?thesis by (auto simp: split_file_into_pieces_def choose_piece_size_def)
next
  case True
  show ?thesis
  proof (cases "0 < min_chunk_size cfg \<or> max_connections cfg \<le> fs")
    case ok: True
    from choose_piece_size_ok [OF assms] True ok obtain s where "choose_piece_size fs cfg = Inr s" by blast
    with True ok show ?thesis by (auto simp: split_file_into_pieces_def Let_def)
  next
    case False
    then have z: "min_chunk_size cfg = 0" "fs < max_connections cfg"
      using assms by (auto simp: chunk_cfg_valid_def)
    have "clamp_piece_size cfg = default_chunk_size cfg"
      using assms by (auto simp: chunk_cfg_valid_def clamp_piece_size_def Let_def)
    moreover have "num_pieces fs (default_chunk_size cfg) < max_connections cfg"
      using num_pieces_facts(4) [of fs "default_chunk_size cfg"] True z by simp
    moreover have "go_div fs (max_connections cfg) = 0" using True z by (simp add: go_int)
    ultimately show ?thesis using True z by (simp add: split_file_into_pieces_def choose_piece_size_def)
  qed
qed


section \<open>Claiming pieces\<close>

lemma first_idle_Some: "first_idle ps is = Some i \<Longrightarrow> i \<in> set is \<and> piece_idle_at ps i"
  by (induction "is") (auto split: if_splits)

lemma first_idle_None: "first_idle ps is = None \<longleftrightarrow> (\<forall>i \<in> set is. \<not> piece_idle_at ps i)"
  by (induction "is") auto

lemma select_piece_idle:
  assumes "\<forall>n. 0 < n \<longrightarrow> 0 \<le> rnd n \<and> rnd n < n" "select_piece pm rnd = Some i"
  shows "piece_idle_at (pm_pieces pm) i"
proof (cases "pm_selector pm = ''random''")
  case True
  let ?idle = "filter (piece_idle_at (pm_pieces pm)) [0..int (length (pm_pieces pm)) - 1]"
  have ne: "?idle \<noteq> []" and i: "i = ?idle ! nat (rnd (int (length ?idle)))"
    using assms(2) True by (auto simp: select_piece_def Let_def split: if_splits)
  have "0 < int (length ?idle)" using ne by simp
  with assms(1) have "nat (rnd (int (length ?idle))) < length ?idle" by (simp add: nat_less_iff)
  then have "i \<in> set ?idle" unfolding i by (rule nth_mem)
  then show ?thesis by simp
next
  case False
  then show ?thesis using assms(2)
    by (auto simp: select_piece_def Let_def split: if_splits dest!: first_idle_Some)
qed

text \<open>
  Whatever the selector, \<open>GetPieceForDownload\<close> gives a worker only a piece that was idle, marks it active
  with that worker as owner and touches no other piece, so two workers never hold the same piece;
  in the \<open>inorder\<close> and \<open>random\<close> modes it answers nil exactly when no piece is idle.
\<close>
theorem get_piece_claims:
  assumes rnd: "\<forall>n. 0 < n \<longrightarrow> 0 \<le> rnd n \<and> rnd n < n"
  shows "case get_piece_for_download pm rnd cuid of
      (pm', Some i) \<Rightarrow>
        piece_idle_at (pm_pieces pm) i \<and> p_status (pm_pieces pm' ! nat i) = PieceActive \<and>
        p_owner (pm_pieces pm' ! nat i) = cuid \<and> p_blocks (pm_pieces pm' ! nat i) = p_blocks (pm_pieces pm ! nat i) \<and>
        length (pm_pieces pm') = length (pm_pieces pm) \<and>
        (\<forall>j. j \<noteq> nat i \<longrightarrow> pm_pieces pm' ! j = pm_pieces pm ! j)
    | (pm', None) \<Rightarrow>
        pm' = pm \<and> (pm_selector pm \<noteq> ''geom'' \<longrightarrow> (\<forall>p \<in> set (pm_pieces pm). p_status p \<noteq> PieceIdle))"
proof (cases "select_piece pm rnd")
  case None
  have "\<not> piece_idle_at (pm_pieces pm) (int k)" if "pm_selector pm \<noteq> ''geom''" "k < length (pm_pieces pm)" for k
    using None that by (auto simp: select_piece_def Let_def first_idle_None filter_empty_conv split: if_splits)
  then have "\<forall>p \<in> set (pm_pieces pm). p_status p \<noteq> PieceIdle" if "pm_selector pm \<noteq> ''geom''"
    using that by (auto simp: piece_idle_at_def in_set_conv_nth)
  with None show ?thesis by (simp add: get_piece_for_download_def)
next
  case (Some i)
  with select_piece_idle [OF rnd Some] show ?thesis
    by (simp add: get_piece_for_download_def update_piece_def piece_idle_at_def set_owner_def
        set_piece_status_def nat_less_iff)
qed

definition demo_manager :: piece_manager where
  "demo_manager = new_piece_manager (map (\<lambda>i. new_piece i (i * 500000) 500000 default_block_length) [0..3]) 2000000 ''random''"

lemma get_piece_claims_witness:
  "case get_piece_for_download demo_manager (\<lambda>n. n - 1) 7 of (pm', r) \<Rightarrow>
     r = Some 3 \<and> p_owner (pm_pieces pm' ! 3) = 7 \<and> pm_pieces pm' ! 2 = pm_pieces demo_manager ! 2"
proof -
  have r: "snd (get_piece_for_download demo_manager (\<lambda>n. n - 1) 7) = Some 3" by code_simp
  show ?thesis
    using get_piece_claims [of "\<lambda>n. n - 1" demo_manager 7] r
    by (cases "get_piece_for_download demo_manager (\<lambda>n. n - 1) 7") simp
qed

lemma geom_index_even:
  assumes "even n" "0 \<le> i" "i < n"
  shows "geom_index n i \<noteq> 0"
proof -
  from assms(1) obtain m where n: "n = 2 * m" by blast
  have d: "go_div n 2 = m" "go_rem i 2 = i mod 2" "go_div i 2 = i div 2" "go_div (i + 1) 2 = (i + 1) div 2"
    using assms n by (simp_all add: go_int)
  show ?thesis
  proof (cases "i mod 2 = 0")
    case True
    then have "i div 2 < m" using assms n by presburger
    with True show ?thesis by (simp add: geom_index_def d)
  next
    case False
    then have "0 \<le> (i + 1) div 2" "0 \<le> m" using assms n by presburger+
    moreover have "0 < (i + 1) div 2" using False assms(2) by presburger
    ultimately show ?thesis using False by (simp add: geom_index_def d)
  qed
qed

text \<open>
  The \<open>geom\<close> selector never selects the first piece of a file with an even number of pieces, whatever the
  states of the pieces: the start of the file is not downloaded in that mode, although the worker
  loop that gets nil from the selector takes it to mean that nothing is left to do.
\<close>
theorem geom_even_skips_first:
  assumes "pm_selector pm = ''geom''" "even (length (pm_pieces pm))"
  shows "snd (get_piece_for_download pm rnd cuid) \<noteq> Some 0"
proof -
  have "select_piece pm rnd \<noteq> Some 0"
  proof
    assume "select_piece pm rnd = Some 0"
    then have "0 \<in> set (map (geom_index (int (length (pm_pieces pm)))) [0..int (length (pm_pieces pm)) - 1])"
      using assms(1) by (auto simp: select_piece_def Let_def dest!: first_idle_Some)
    with geom_index_even [of "int (length (pm_pieces pm))"] assms(2) show False by auto
  qed
  then show ?thesis by (cases "select_piece pm rnd") (auto simp: get_piece_for_download_def)
qed

lemma geom_even_skips_first_witness:
  "snd (get_piece_for_download (new_piece_manager [new_piece 0 0 10 default_block_length, new_piece 1 10 10 default_block_length] 20 ''geom'') (\<lambda>n. 0) 1) \<noteq> Some 0"
  using geom_even_skips_first
    [of "new_piece_manager [new_piece 0 0 10 default_block_length, new_piece 1 10 10 default_block_length] 20 ''geom''"]
  by (simp add: new_piece_manager_def)

text \<open>
  The \<open>geom\<close> order of a file with an odd number of pieces reaches every piece, so in that case the selector
  answers nil only when no piece is idle.
\<close>
theorem geom_odd_complete:
  assumes "pm_selector pm = ''geom''" "odd (length (pm_pieces pm))"
    "snd (get_piece_for_download pm rnd cuid) = None"
  shows "\<forall>p \<in> set (pm_pieces pm). p_status p \<noteq> PieceIdle"
proof -
  let ?n = "int (length (pm_pieces pm))"
  from assms(2) have "odd ?n" by simp
  then obtain m where n: "?n = 2 * m + 1" by (rule oddE)
  have reach: "\<exists>i. 0 \<le> i \<and> i \<le> ?n - 1 \<and> geom_index ?n i = k" if k: "0 \<le> k" "k < ?n" for k
  proof (cases "k \<le> m")
    case True
    then have "geom_index ?n (2 * (m - k)) = k" using n k by (simp add: geom_index_def go_int)
    with True n k show ?thesis by (intro exI [of _ "2 * (m - k)"]) simp
  next
    case False
    then have "geom_index ?n (2 * (k - m) - 1) = k"
    proof -
      have "go_rem (2 * (k - m) - 1) 2 \<noteq> 0" using False go_rem_nonneg [of "2 * (k - m) - 1" 2] by presburger
      moreover have "go_div (2 * (k - m) - 1 + 1) 2 = k - m" using False by (simp add: go_int)
      moreover have "go_div ?n 2 = m" using n k by (simp add: go_int)
      ultimately show ?thesis by (simp add: geom_index_def)
    qed
    with False n k show ?thesis by (intro exI [of _ "2 * (k - m) - 1"]) simp
  qed
  have none: "first_idle (pm_pieces pm) (map (geom_index ?n) [0..?n - 1]) = None"
    using assms(1,3) by (simp add: get_piece_for_download_def select_piece_def Let_def split: option.splits)
  have "p_status (pm_pieces pm ! k) \<noteq> PieceIdle" if "k < length (pm_pieces pm)" for k
  proof -
    from reach [of "int k"] that obtain i where "i \<in> set [0..?n - 1]" "geom_index ?n i = int k" by auto
    with none have "\<not> piece_idle_at (pm_pieces pm) (int k)" unfolding first_idle_None by (metis imageI list.set_map)
    with that show ?thesis by (simp add: piece_idle_at_def)
  qed
  then show ?thesis by (auto simp: in_set_conv_nth)
qed

section \<open>Totals\<close>

lemma sum_list_le_eq:
  fixes f :: "'a \<Rightarrow> int"
  assumes "\<forall>x \<in> set xs. f x \<le> g x"
  shows "sum_list (map f xs) \<le> sum_list (map g xs)"
    "sum_list (map f xs) = sum_list (map g xs) \<longleftrightarrow> (\<forall>x \<in> set xs. f x = g x)"
proof -
  show le: "sum_list (map f xs) \<le> sum_list (map g xs)" using assms by (intro sum_list_mono) simp
  have "sum_list (map f xs) = sum_list (map g xs) \<Longrightarrow> (\<forall>x \<in> set xs. f x = g x)" using assms
  proof (induction xs)
    case (Cons x xs)
    have "sum_list (map f xs) \<le> sum_list (map g xs)" using Cons.prems(2) by (intro sum_list_mono) simp
    with Cons show ?case by (auto simp: order_antisym_conv)
  qed simp
  moreover have "(\<forall>x \<in> set xs. f x = g x) \<Longrightarrow> sum_list (map f xs) = sum_list (map g xs)"
    by (simp cong: map_cong)
  ultimately show "sum_list (map f xs) = sum_list (map g xs) \<longleftrightarrow> (\<forall>x \<in> set xs. f x = g x)" by blast
qed

text \<open>
  The manager's byte total lies between zero and the combined length of its pieces and reaches it exactly
  when \<open>AllComplete\<close> holds: progress reported as full means every block of every piece is in.
\<close>
theorem total_completed_exact:
  assumes "\<forall>p \<in> set (pm_pieces pm). piece_wf p"
  shows "0 \<le> total_completed_length pm"
    "total_completed_length pm \<le> sum_list (map p_length (pm_pieces pm))"
    "all_complete pm \<longleftrightarrow> total_completed_length pm = sum_list (map p_length (pm_pieces pm))"
proof -
  have b: "0 \<le> completed_length p \<and> completed_length p \<le> p_length p \<and>
      (is_complete p \<longleftrightarrow> completed_length p = p_length p)" if "p \<in> set (pm_pieces pm)" for p
    using bm_completed_length_bounds [OF piece_wfD(1)] piece_wfD(6) assms that
    by (simp add: completed_length_def is_complete_def)
  show "0 \<le> total_completed_length pm"
    using b by (auto simp: total_completed_length_def intro!: sum_list_nonneg)
  show "total_completed_length pm \<le> sum_list (map p_length (pm_pieces pm))"
    unfolding total_completed_length_def using b by (intro sum_list_le_eq) blast
  show "all_complete pm \<longleftrightarrow> total_completed_length pm = sum_list (map p_length (pm_pieces pm))"
    unfolding total_completed_length_def using b
    by (subst sum_list_le_eq(2)) (auto simp: all_complete_def list_all_iff)
qed

lemma total_completed_exact_witness:
  "all_complete (new_piece_manager [demo_piece] 600000 ''inorder'') \<longleftrightarrow>
   total_completed_length (new_piece_manager [demo_piece] 600000 ''inorder'') = 600000"
  using total_completed_exact(3) [of "new_piece_manager [demo_piece] 600000 ''inorder''"] demo_piece_wf
  by (simp add: new_piece_manager_def) (simp add: demo_piece_def new_piece_def)

section \<open>Saving and restoring progress\<close>

text \<open>A freshly split manager: pieces carry their position, and no block is complete.\<close>

definition fresh_pieces :: "piece list \<Rightarrow> bool" where
  "fresh_pieces ps \<longleftrightarrow> map p_index ps = [0..int (length ps) - 1] \<and>
     (\<forall>p \<in> set ps. bm_done (p_blocks p) = 0 \<and> list_all (\<lambda>w. w = 0) (bm_bits (p_blocks p)))"

definition same_shape :: "piece \<Rightarrow> piece \<Rightarrow> bool" where
  "same_shape p q \<longleftrightarrow> p_index p = p_index q \<and> length (bm_bits (p_blocks p)) = length (bm_bits (p_blocks q)) \<and>
     bm_num (p_blocks p) = bm_num (p_blocks q)"

lemma restore_fold_length [simp]: "length (pm_pieces (foldl restore_entry pm es)) = length (pm_pieces pm)"
  by (induction es arbitrary: pm) (simp_all add: restore_entry_def update_piece_def split: option.split)

lemma bits_after_restore:
  "length bf = length (bm_bits (p_blocks p)) \<Longrightarrow> bm_bits (p_blocks (restore_piece p bf)) = bf"
  by (simp add: restore_piece_def bm_set_bitfield_def Let_def)

text \<open>Restoring the entries of the pieces from \<open>k\<close> on rewrites just those pieces.\<close>

lemma restore_from:
  assumes "list_all2 same_shape (drop k (pm_pieces pm)) qs" "k \<le> length (pm_pieces pm)"
    "map p_index qs = [int k..int (length (pm_pieces pm)) - 1]"
    "\<forall>p \<in> set (drop k (pm_pieces pm)). list_all (\<lambda>w. w = 0) (bm_bits (p_blocks p))"
  shows "let r = pm_pieces (foldl restore_entry pm (concat (map serialize_piece qs))) in
    take k r = take k (pm_pieces pm) \<and> map (\<lambda>p. bm_bits (p_blocks p)) (drop k r) = map (\<lambda>q. bm_bits (p_blocks q)) qs"
  using assms
proof (induction qs arbitrary: k pm rule: list.induct)
  case Nil
  then show ?case by simp
next
  case (Cons q qs)
  let ?n = "length (pm_pieces pm)"
  have kn: "k < ?n"
  proof (rule ccontr)
    assume "\<not> k < ?n"
    then have e: "drop k (pm_pieces pm) = []" by simp
    show False using Cons.prems(1) unfolding e by simp
  qed
  then have d: "drop k (pm_pieces pm) = (pm_pieces pm ! k) # drop (Suc k) (pm_pieces pm)"
    by (simp add: Cons_nth_drop_Suc)
  have sh: "same_shape (pm_pieces pm ! k) q" and rest: "list_all2 same_shape (drop (Suc k) (pm_pieces pm)) qs"
    using Cons.prems(1) d by simp_all
  have up: "[int k..int ?n - 1] = int k # [int k + 1..int ?n - 1]" using kn by (intro upto_rec1) simp
  have qi: "p_index q = int k" and qs: "map p_index qs = [int (Suc k)..int ?n - 1]"
    using Cons.prems(3) up by (simp_all add: add.commute)
  let ?pm = "foldl restore_entry pm (serialize_piece q)"
  have step: "take k (pm_pieces ?pm) = take k (pm_pieces pm) \<and> drop (Suc k) (pm_pieces ?pm) = drop (Suc k) (pm_pieces pm) \<and>
      bm_bits (p_blocks (pm_pieces ?pm ! k)) = bm_bits (p_blocks q)"
  proof (cases "list_ex (\<lambda>w. w \<noteq> 0) (bm_bits (p_blocks q))")
    case True
    then show ?thesis using kn sh
      by (simp add: serialize_piece_def Let_def bm_get_bitfield_def restore_entry_def qi update_piece_def
          same_shape_def bits_after_restore)
  next
    case False
    then have z: "bm_bits (p_blocks q) = replicate (length (bm_bits (p_blocks q))) 0"
      by (auto simp: list_ex_iff intro: replicate_eqI)
    have "list_all (\<lambda>w. w = 0) (bm_bits (p_blocks (pm_pieces pm ! k)))" using Cons.prems(4) d by simp
    then have "bm_bits (p_blocks (pm_pieces pm ! k)) = replicate (length (bm_bits (p_blocks q))) 0"
      using sh by (auto simp: list_all_iff same_shape_def intro: replicate_eqI)
    with z False show ?thesis by (simp add: serialize_piece_def Let_def bm_get_bitfield_def)
  qed
  let ?r = "pm_pieces (foldl restore_entry ?pm (concat (map serialize_piece qs)))"
  have len: "length (pm_pieces ?pm) = ?n" by simp
  have "take (Suc k) ?r = take (Suc k) (pm_pieces ?pm) \<and>
      map (\<lambda>p. bm_bits (p_blocks p)) (drop (Suc k) ?r) = map (\<lambda>q. bm_bits (p_blocks q)) qs"
    using Cons.IH [of "Suc k" ?pm] rest qs kn step Cons.prems(4) d len by (simp add: Let_def)
  moreover have "k < length ?r" using kn by simp
  moreover from calculation have "?r ! k = pm_pieces ?pm ! k" by (metis lessI nth_take)
  ultimately show ?case using step kn
    by (simp add: Let_def Cons_nth_drop_Suc [symmetric] take_Suc_conv_app_nth)
qed

text \<open>
  C13: Saved progress survives a restart: after \<open>SerializePieceBitfields\<close> on a manager and \<open>RestorePieceBitfields\<close> on a
  fresh split of the same shape, every piece has the completion bitmap it had when it was saved
  (through the base64 text), and so the same completed blocks.
\<close>
theorem restore_serialize_roundtrip:
  assumes "fresh_pieces (pm_pieces fresh)" "list_all2 same_shape (pm_pieces fresh) (pm_pieces pm)"
  shows "let r = restore_piece_bitfields fresh (serialize_piece_bitfields pm) in
    map (\<lambda>p. bm_bits (p_blocks p)) (pm_pieces r) = map (\<lambda>p. bm_bits (p_blocks p)) (pm_pieces pm)"
proof -
  have "map p_index (pm_pieces pm) = map p_index (pm_pieces fresh)"
    using assms(2) by (induction rule: list_all2_induct) (simp_all add: same_shape_def)
  then have "map p_index (pm_pieces pm) = [int 0..int (length (pm_pieces fresh)) - 1]"
    using assms(1) by (simp add: fresh_pieces_def)
  with restore_from [of 0 fresh "pm_pieces pm"] assms show ?thesis
    by (simp add: fresh_pieces_def restore_piece_bitfields_def serialize_piece_bitfields_def Let_def)
qed

definition saved_manager :: piece_manager where
  "saved_manager = update_piece demo_manager 2 (complete_block (pm_pieces demo_manager ! 2) 1)"

lemma restore_serialize_roundtrip_witness:
  "map (\<lambda>p. bm_bits (p_blocks p)) (pm_pieces (restore_piece_bitfields demo_manager (serialize_piece_bitfields saved_manager)))
     = [[0], [0], [2], [0]]"
proof -
  have f: "fresh_pieces (pm_pieces demo_manager)" by code_simp
  have s: "list_all2 same_shape (pm_pieces demo_manager) (pm_pieces saved_manager)" by code_simp
  have v: "map (\<lambda>p. bm_bits (p_blocks p)) (pm_pieces saved_manager) = [[0], [0], [2], [0]]" by code_simp
  show ?thesis using restore_serialize_roundtrip [OF f s] v by (simp add: Let_def)
qed

end
