(* ===== verification/Retry.thy ===== *)
theory Retry
  imports GoString GoFloat
begin

text \<open>
  Error values and the retry helper of \<open>internal/downloader/retry.go\<close>. A Go error is a chain: wrapped
  errors, \<open>RetryableError\<close>, \<open>HTTPError\<close>, \<open>*url.Error\<close> and the \<open>net.Error\<close> implementations the code tells apart.
  The context and the timer are parameters of the retry loop, which also returns the back-off
  intervals it waited and the messages it logged.
\<close>

section \<open>Errors\<close>

datatype net_kind = DNSError | AddrError | OtherNetError

text \<open>
  \<open>NetErr kind timeout text\<close> stands for a \<open>net.Error\<close> at the end of a chain, the expired context
  included; \<open>UrlErr\<close> carries the printed operation and URL; \<open>Wrapped\<close> is \<open>fmt.Errorf\<close> with \<open>%w\<close> last.
\<close>

datatype go_error =
    Plain string
  | Wrapped string go_error
  | RetryableError go_error bool
  | HTTPError int string
  | UrlErr string go_error
  | NetErr net_kind bool string

fun error_text :: "go_error \<Rightarrow> string" where
  "error_text (Plain s) = s"
| "error_text (Wrapped s e) = s @ '': '' @ error_text e"
| "error_text (RetryableError e b) = error_text e"
| "error_text (HTTPError c m) = ''http error: '' @ show_int c @ '' - '' @ m"
| "error_text (UrlErr s e) = s @ '': '' @ error_text e"
| "error_text (NetErr k t s) = s"

text \<open>\<open>errors.As\<close> for the three targets the code asks for: the first match along the chain.\<close>

fun as_retryable :: "go_error \<Rightarrow> bool option" where
  "as_retryable (RetryableError e b) = Some b"
| "as_retryable (Wrapped s e) = as_retryable e"
| "as_retryable (UrlErr s e) = as_retryable e"
| "as_retryable _ = None"

fun as_http :: "go_error \<Rightarrow> int option" where
  "as_http (HTTPError c m) = Some c"
| "as_http (Wrapped s e) = as_http e"
| "as_http (RetryableError e b) = as_http e"
| "as_http (UrlErr s e) = as_http e"
| "as_http _ = None"

text \<open>\<open>url.Error.Timeout\<close> asks only the error it holds directly.\<close>

fun has_timeout :: "go_error \<Rightarrow> bool" where
  "has_timeout (NetErr k t s) = t"
| "has_timeout (UrlErr s e) = has_timeout e"
| "has_timeout _ = False"

fun as_net :: "go_error \<Rightarrow> (net_kind option \<times> bool) option" where
  "as_net (NetErr k t s) = Some (Some k, t)"
| "as_net (UrlErr s e) = Some (None, has_timeout e)"
| "as_net (Wrapped s e) = as_net e"
| "as_net (RetryableError e b) = as_net e"
| "as_net _ = None"

section \<open>Classification\<close>

fun is_retryable_error :: "go_error \<Rightarrow> bool" where
  "is_retryable_error err =
     (case as_retryable err of
        Some b \<Rightarrow> b
      | None \<Rightarrow>
          let low = to_lower (error_text err) in
          if contains low ''timeout'' \<or> contains low ''context deadline exceeded'' then True
          else if (case as_net err of
                None \<Rightarrow> False
              | Some (k, t) \<Rightarrow> t \<or> k = Some DNSError \<or>
                  (k = Some AddrError \<and> contains low ''connection refused'')) then True
          else (case err of
              UrlErr s e \<Rightarrow> is_retryable_error e
            | _ \<Rightarrow> (case as_http err of
                  Some c \<Rightarrow> c \<ge> 500 \<or> c = 429
                | None \<Rightarrow> False)))"

declare is_retryable_error.simps [simp del]

definition is_permanent_error :: "go_error \<Rightarrow> bool" where
  "is_permanent_error err =
     (if \<not> is_retryable_error err then True
      else case as_http err of
          Some c \<Rightarrow> c \<ge> 400 \<and> c < 500 \<and> c \<noteq> 429
        | None \<Rightarrow> False)"

text \<open>Both predicates answer \<open>false\<close> for a nil error.\<close>

definition is_permanent :: "go_error option \<Rightarrow> bool" where
  "is_permanent e = (case e of None \<Rightarrow> False | Some err \<Rightarrow> is_permanent_error err)"

definition is_retryable :: "go_error option \<Rightarrow> bool" where
  "is_retryable e = (case e of None \<Rightarrow> False | Some err \<Rightarrow> is_retryable_error err)"

definition new_retryable_error :: "go_error \<Rightarrow> bool \<Rightarrow> go_error" where
  "new_retryable_error e b = RetryableError e b"

definition new_http_error :: "int \<Rightarrow> string \<Rightarrow> go_error" where
  "new_http_error c m = HTTPError c m"

definition is_http_error :: "go_error \<Rightarrow> bool" where
  "is_http_error e \<longleftrightarrow> as_http e \<noteq> None"

definition get_http_status_code :: "go_error \<Rightarrow> int" where
  "get_http_status_code e = (case as_http e of Some c \<Rightarrow> c | None \<Rightarrow> 0)"

section \<open>Retrying\<close>

record retry_config =
  max_retries :: int
  initial_interval :: duration
  max_interval :: duration
  multiplier :: rat

definition default_retry_config :: retry_config where
  "default_retry_config =
     \<lparr>max_retries = 3, initial_interval = 1000000000, max_interval = 60000000000, multiplier = 2\<rparr>"

definition next_backoff :: "retry_config \<Rightarrow> duration \<Rightarrow> duration" where
  "next_backoff cfg interval =
     (let b = f64_to_int (f64 (f64 (of_int interval) * multiplier cfg)) in
      if b > max_interval cfg then max_interval cfg else b)"

text \<open>
  The world of one call: the function retried, the state of the context (its error once done) and
  the wait for a timer, which the end of the context interrupts.
\<close>

record 's retry_env =
  call :: "'s \<Rightarrow> 's \<times> go_error option"
  ctx_err :: "'s \<Rightarrow> go_error option"
  wait :: "duration \<Rightarrow> 's \<Rightarrow> 's \<times> go_error option"

definition retries_exceeded :: "retry_config \<Rightarrow> go_error \<Rightarrow> go_error" where
  "retries_exceeded cfg e = Wrapped (''max retries ('' @ show_int (max_retries cfg) @ '') exceeded'') e"

text \<open>\<open>n\<close> is the number of attempts left after this one.\<close>

fun retry_loop :: "'s retry_env \<Rightarrow> retry_config \<Rightarrow> nat \<Rightarrow> duration \<Rightarrow> 's \<Rightarrow> 's \<times> go_error option \<times> duration list" where
  "retry_loop env cfg n interval s =
     (case ctx_err env s of
        Some e \<Rightarrow> (s, Some e, [])
      | None \<Rightarrow> (case call env s of
            (s1, None) \<Rightarrow> (s1, None, [])
          | (s1, Some e) \<Rightarrow>
              if is_permanent_error e then (s1, Some e, [])
              else (case n of
                  0 \<Rightarrow> (s1, Some (retries_exceeded cfg e), [])
                | Suc m \<Rightarrow>
                    let backoff = next_backoff cfg interval in
                    (case wait env backoff s1 of
                       (s2, Some ce) \<Rightarrow> (s2, Some ce, [backoff])
                     | (s2, None) \<Rightarrow>
                         (case retry_loop env cfg m backoff s2 of
                            (s3, r, ws) \<Rightarrow> (s3, r, backoff # ws))))))"

definition do_with_retry :: "'s retry_env \<Rightarrow> retry_config \<Rightarrow> 's \<Rightarrow> 's \<times> go_error option \<times> duration list" where
  "do_with_retry env cfg s =
     (if max_retries cfg \<le> 0 then (case call env s of (s1, r) \<Rightarrow> (s1, r, []))
      else retry_loop env cfg (nat (max_retries cfg)) (initial_interval cfg) s)"

datatype retry_log =
    RetrySucceeded int
  | PermanentError go_error
  | RetryingAfter int int duration go_error

text \<open>The logging variant repeats the loop; \<open>a\<close> is the attempt number it prints.\<close>

fun retry_log_loop ::
  "'s retry_env \<Rightarrow> retry_config \<Rightarrow> nat \<Rightarrow> int \<Rightarrow> duration \<Rightarrow> 's \<Rightarrow>
     's \<times> go_error option \<times> duration list \<times> retry_log list" where
  "retry_log_loop env cfg n a interval s =
     (case ctx_err env s of
        Some e \<Rightarrow> (s, Some e, [], [])
      | None \<Rightarrow> (case call env s of
            (s1, None) \<Rightarrow> (s1, None, [], if a > 0 then [RetrySucceeded (a + 1)] else [])
          | (s1, Some e) \<Rightarrow>
              if is_permanent_error e then (s1, Some e, [], [PermanentError e])
              else (case n of
                  0 \<Rightarrow> (s1, Some (retries_exceeded cfg e), [], [])
                | Suc m \<Rightarrow>
                    let backoff = next_backoff cfg interval;
                        l = RetryingAfter (a + 1) (max_retries cfg) backoff e in
                    (case wait env backoff s1 of
                       (s2, Some ce) \<Rightarrow> (s2, Some ce, [backoff], [l])
                     | (s2, None) \<Rightarrow>
                         (case retry_log_loop env cfg m (a + 1) backoff s2 of
                            (s3, r, ws, ls) \<Rightarrow> (s3, r, backoff # ws, l # ls))))))"

definition do_with_retry_with_logger ::
  "'s retry_env \<Rightarrow> retry_config \<Rightarrow> 's \<Rightarrow> 's \<times> go_error option \<times> duration list \<times> retry_log list" where
  "do_with_retry_with_logger env cfg s =
     (if max_retries cfg \<le> 0 then (case call env s of (s1, r) \<Rightarrow> (s1, r, [], []))
      else retry_log_loop env cfg (nat (max_retries cfg)) 0 (initial_interval cfg) s)"

declare retry_loop.simps [simp del] retry_log_loop.simps [simp del]

section \<open>Properties of the retry loop\<close>

text \<open>How often the function runs in a run of the loop.\<close>

fun retry_calls :: "'s retry_env \<Rightarrow> retry_config \<Rightarrow> nat \<Rightarrow> duration \<Rightarrow> 's \<Rightarrow> nat" where
  "retry_calls env cfg n interval s =
     (case ctx_err env s of
        Some e \<Rightarrow> 0
      | None \<Rightarrow> (case call env s of
            (s1, None) \<Rightarrow> 1
          | (s1, Some e) \<Rightarrow>
              if is_permanent_error e then 1
              else (case n of 0 \<Rightarrow> 1
                | Suc m \<Rightarrow> (case wait env (next_backoff cfg interval) s1 of
                       (s2, Some ce) \<Rightarrow> 1
                     | (s2, None) \<Rightarrow> Suc (retry_calls env cfg m (next_backoff cfg interval) s2)))))"

declare retry_calls.simps [simp del]

lemma retry_loop_bounds:
  "retry_loop env cfg n interval s = (s', r, ws) \<Longrightarrow>
   length ws \<le> n \<and> (\<forall>w \<in> set ws. w \<le> max_interval cfg) \<and> retry_calls env cfg n interval s \<le> Suc n"
proof (induction n arbitrary: interval s s' r ws)
  case 0
  then show ?case
    by (subst (asm) retry_loop.simps, subst retry_calls.simps)
      (auto split: option.splits prod.splits if_splits)
next
  case (Suc n)
  note IH = Suc.IH
  have b: "next_backoff cfg interval \<le> max_interval cfg" by (simp add: next_backoff_def Let_def)
  show ?case
    using Suc.prems b
    by (subst (asm) retry_loop.simps, subst retry_calls.simps)
      (auto simp: Let_def split: option.splits prod.splits if_splits dest!: IH)
qed

text \<open>The end of the run, seen from its last call.\<close>

lemma retry_loop_result:
  "retry_loop env cfg n interval s = (s', r, ws) \<Longrightarrow>
   (r = None \<longrightarrow> (\<exists>t. call env t = (s', None))) \<and>
   (\<forall>e. r = Some e \<longrightarrow>
      (\<exists>t. ctx_err env t = Some e) \<or> (\<exists>d t. wait env d t = (s', Some e)) \<or>
      (\<exists>t. call env t = (s', Some e) \<and> is_permanent_error e) \<or>
      (\<exists>t e'. call env t = (s', Some e') \<and> \<not> is_permanent_error e' \<and> e = retries_exceeded cfg e' \<and> length ws = n))"
proof (induction n arbitrary: interval s s' r ws)
  case 0
  then show ?case
    by (subst (asm) retry_loop.simps) (auto split: option.splits prod.splits if_splits)
next
  case (Suc n)
  show ?case
  proof (cases "ctx_err env s")
    case (Some e)
    with Suc.prems show ?thesis by (subst (asm) retry_loop.simps) auto
  next
    case none: None
    obtain s1 c where c: "call env s = (s1, c)" by (cases "call env s")
    show ?thesis
    proof (cases c)
      case None
      with none c Suc.prems show ?thesis by (subst (asm) retry_loop.simps) auto
    next
      case (Some e)
      show ?thesis
      proof (cases "is_permanent_error e")
        case True
        with none c Some Suc.prems show ?thesis by (subst (asm) retry_loop.simps) auto
      next
        case False
        obtain s2 w where w: "wait env (next_backoff cfg interval) s1 = (s2, w)"
          by (cases "wait env (next_backoff cfg interval) s1")
        show ?thesis
        proof (cases w)
          case (Some ce)
          with none c \<open>c = Some e\<close> False w Suc.prems show ?thesis
            by (subst (asm) retry_loop.simps) (auto simp: Let_def)
        next
          case None
          obtain s3 r3 ws3 where l: "retry_loop env cfg n (next_backoff cfg interval) s2 = (s3, r3, ws3)"
            by (cases "retry_loop env cfg n (next_backoff cfg interval) s2") auto
          with none c \<open>c = Some e\<close> False w None Suc.prems
          have "s' = s3 \<and> r = r3 \<and> ws = next_backoff cfg interval # ws3"
            by (subst (asm) retry_loop.simps) (simp add: Let_def)
          with Suc.IH [OF l] show ?thesis by auto
        qed
      qed
    qed
  qed
qed

lemma do_with_retry_spec_parts:
  assumes "0 < max_retries cfg" "do_with_retry env cfg s = (s', r, ws)"
  shows "int (length ws) \<le> max_retries cfg" "\<forall>w \<in> set ws. w \<le> max_interval cfg"
    "int (retry_calls env cfg (nat (max_retries cfg)) (initial_interval cfg) s) \<le> max_retries cfg + 1"
    "r = None \<Longrightarrow> \<exists>t. call env t = (s', None)"
    "r = Some e \<Longrightarrow>
      (\<exists>t. ctx_err env t = Some e) \<or> (\<exists>d t. wait env d t = (s', Some e)) \<or>
      (\<exists>t. call env t = (s', Some e) \<and> is_permanent_error e) \<or>
      (\<exists>t e'. call env t = (s', Some e') \<and> \<not> is_permanent_error e' \<and> e = retries_exceeded cfg e' \<and>
         int (length ws) = max_retries cfg)"
proof -
  have l: "retry_loop env cfg (nat (max_retries cfg)) (initial_interval cfg) s = (s', r, ws)"
    using assms by (simp add: do_with_retry_def)
  from retry_loop_bounds [OF l] assms(1)
  show "int (length ws) \<le> max_retries cfg" "\<forall>w \<in> set ws. w \<le> max_interval cfg"
    "int (retry_calls env cfg (nat (max_retries cfg)) (initial_interval cfg) s) \<le> max_retries cfg + 1"
    by linarith+
  have len: "length ws = nat (max_retries cfg) \<Longrightarrow> int (length ws) = max_retries cfg" using assms(1) by simp
  from retry_loop_result [OF l] len
  show "r = None \<Longrightarrow> \<exists>t. call env t = (s', None)"
    "r = Some e \<Longrightarrow>
      (\<exists>t. ctx_err env t = Some e) \<or> (\<exists>d t. wait env d t = (s', Some e)) \<or>
      (\<exists>t. call env t = (s', Some e) \<and> is_permanent_error e) \<or>
      (\<exists>t e'. call env t = (s', Some e') \<and> \<not> is_permanent_error e' \<and> e = retries_exceeded cfg e' \<and>
         int (length ws) = max_retries cfg)"
    by blast+
qed

text \<open>
  C32: \<open>DoWithRetry\<close> gives up in bounded time and never invents a result: it waits at most \<open>MaxRetries\<close> times,
  each time at most \<open>MaxInterval\<close>, runs the function at most \<open>MaxRetries+1\<close> times, succeeds only when
  the function did, and fails only with the context's error, with a permanent error unchanged, or,
  after all \<open>MaxRetries\<close> waits, with the last error wrapped.
\<close>
theorem do_with_retry_spec:
  assumes "0 < max_retries cfg" "do_with_retry env cfg s = (s', r, ws)"
  shows "int (length ws) \<le> max_retries cfg \<and> (\<forall>w \<in> set ws. w \<le> max_interval cfg) \<and>
    int (retry_calls env cfg (nat (max_retries cfg)) (initial_interval cfg) s) \<le> max_retries cfg + 1 \<and>
    (case r of
       None \<Rightarrow> \<exists>t. call env t = (s', None)
     | Some e \<Rightarrow>
         (\<exists>t. ctx_err env t = Some e) \<or> (\<exists>d t. wait env d t = (s', Some e)) \<or>
         (\<exists>t. call env t = (s', Some e) \<and> is_permanent_error e) \<or>
         (\<exists>t e'. call env t = (s', Some e') \<and> \<not> is_permanent_error e' \<and> e = retries_exceeded cfg e' \<and>
            int (length ws) = max_retries cfg))"
proof -
  note parts = do_with_retry_spec_parts [OF assms]
  show ?thesis using parts(1-3) parts(4) parts(5) [of "the r"] by (cases r) simp_all
qed

text \<open>A server that answers 503, 503 and then well.\<close>

definition flaky_env :: "go_error option list retry_env" where
  "flaky_env = \<lparr>call = (\<lambda>s. case s of [] \<Rightarrow> ([], None) | x # xs \<Rightarrow> (xs, x)),
     ctx_err = (\<lambda>s. None), wait = (\<lambda>d s. (s, None))\<rparr>"

lemma do_with_retry_spec_witness:
  "\<exists>ws. do_with_retry flaky_env default_retry_config [Some (HTTPError 503 []), Some (HTTPError 503 []), None] = ([], None, ws) \<and>
     ws = [2000000000, 4000000000] \<and> (\<forall>w \<in> set ws. w \<le> 60000000000)"
proof -
  have v: "do_with_retry flaky_env default_retry_config [Some (HTTPError 503 []), Some (HTTPError 503 []), None] =
      ([], None, [2000000000, 4000000000])" by code_simp
  have "0 < max_retries default_retry_config" by (simp add: default_retry_config_def)
  from do_with_retry_spec [OF this v] v show ?thesis by (simp add: default_retry_config_def)
qed

lemma retry_log_loop_eq:
  "(case retry_log_loop env cfg n a interval s of (s', r, ws, ls) \<Rightarrow> (s', r, ws)) = retry_loop env cfg n interval s"
proof (induction n arbitrary: a interval s)
  case 0
  then show ?case
    by (subst retry_log_loop.simps, subst retry_loop.simps) (simp split: option.split prod.split)
next
  case (Suc n)
  have IH: "retry_loop env cfg n i t = (case retry_log_loop env cfg n b i t of (s', r, ws, ls) \<Rightarrow> (s', r, ws))" for b i t
    using Suc.IH by simp
  show ?case
    by (subst retry_log_loop.simps, subst retry_loop.simps)
      (simp add: Let_def IH [of _ _ "a + 1"] split: option.split prod.split)
qed

text \<open>
  The logging variant that \<open>Downloader.Download\<close> calls behaves like \<open>DoWithRetry\<close>: same calls, same waits,
  same result.
\<close>
theorem retry_with_logger_agrees:
  "(case do_with_retry_with_logger env cfg s of (s', r, ws, ls) \<Rightarrow> (s', r, ws)) = do_with_retry env cfg s"
  by (simp add: do_with_retry_with_logger_def do_with_retry_def retry_log_loop_eq split: prod.split)

section \<open>What counts as permanent\<close>

lemma http_error_retryable:
  assumes "as_retryable e = None" "as_http e = Some c" "as_net e = None"
    "\<not> contains (to_lower (error_text e)) ''timeout''"
    "\<not> contains (to_lower (error_text e)) ''context deadline exceeded''"
  shows "is_retryable_error e \<longleftrightarrow> c \<ge> 500 \<or> c = 429"
proof -
  have "(case e of UrlErr s x \<Rightarrow> P s x | _ \<Rightarrow> Q) = Q" for P and Q :: bool using assms(3) by (cases e) simp_all
  with assms show ?thesis by (subst is_retryable_error.simps) (simp add: Let_def)
qed

text \<open>
  An HTTP failure reported as \<open>HTTPError\<close> is retried exactly when it is a server error or 429, however
  deeply it is wrapped: client errors are permanent even if their text mentions a timeout.
\<close>
theorem http_error_permanent_iff:
  assumes "as_retryable e = None" "as_http e = Some c" "as_net e = None"
    "\<not> contains (to_lower (error_text e)) ''timeout'' \<or> (400 \<le> c \<and> c < 500)"
    "\<not> contains (to_lower (error_text e)) ''context deadline exceeded'' \<or> (400 \<le> c \<and> c < 500)"
  shows "is_permanent_error e \<longleftrightarrow> \<not> (c \<ge> 500 \<or> c = 429)"
proof (cases "contains (to_lower (error_text e)) ''timeout'' \<or>
    contains (to_lower (error_text e)) ''context deadline exceeded''")
  case True
  then have c: "400 \<le> c" "c < 500" using assms(4,5) by auto
  have "is_retryable_error e" using True assms(1) by (subst is_retryable_error.simps) (auto simp: Let_def)
  with c assms(2) show ?thesis by (auto simp: is_permanent_error_def)
next
  case False
  with http_error_retryable [OF assms(1-3)] assms(2) show ?thesis by (auto simp: is_permanent_error_def)
qed

lemma http_error_permanent_iff_witness:
  "is_permanent_error (Wrapped ''request'' (HTTPError 408 ''Request Timeout''))"
  "\<not> is_permanent_error (Wrapped ''request'' (HTTPError 503 ''Service Unavailable''))"
proof -
  show "is_permanent_error (Wrapped ''request'' (HTTPError 408 ''Request Timeout''))"
    using http_error_permanent_iff [of "Wrapped ''request'' (HTTPError 408 ''Request Timeout'')" 408] by simp
  have "\<not> contains (to_lower (error_text (Wrapped ''request'' (HTTPError 503 ''Service Unavailable'')))) ''timeout''"
    "\<not> contains (to_lower (error_text (Wrapped ''request'' (HTTPError 503 ''Service Unavailable'')))) ''context deadline exceeded''"
    by code_simp+
  then show "\<not> is_permanent_error (Wrapped ''request'' (HTTPError 503 ''Service Unavailable''))"
    using http_error_permanent_iff [of "Wrapped ''request'' (HTTPError 503 ''Service Unavailable'')" 503] by simp
qed

end
