(* ===== verification/PieceDownload.thy ===== *)
theory PieceDownload
  imports PieceManagerProps Retry
begin

text \<open>
  The inner loops of the multi-connection download, \<open>internal/downloader/downloader.go\<close>: one attempt at a
  piece (\<open>downloadPieceOnceFromURL\<close>), one attempt at a stolen range (\<open>downloadRangeOnceFromURL\<close>) and the
  loops over sources and retries around them. The server is a function from the requested range to
  a script of reads; clock, rate limiter, context and disk errors are part of the script. Saving
  progress and speed sampling do not touch this state and are left out.
\<close>

section \<open>State\<close>

text \<open>\<open>dl_file\<close> maps file offsets to the bytes written there; \<open>dl_total\<close> is \<open>totalDownloaded\<close>.\<close>

record download_state =
  dl_pm :: piece_manager
  dl_file :: "int \<rightharpoonup> 8 word"
  dl_total :: int

definition piece_of :: "download_state \<Rightarrow> int \<Rightarrow> piece" where
  "piece_of s k = pm_pieces (dl_pm s) ! nat k"

definition with_piece :: "download_state \<Rightarrow> int \<Rightarrow> piece \<Rightarrow> download_state" where
  "with_piece s k p = s\<lparr>dl_pm := update_piece (dl_pm s) k p\<rparr>"

definition finish_piece :: "download_state \<Rightarrow> int \<Rightarrow> download_state" where
  "finish_piece s k = s\<lparr>dl_pm := complete_piece (dl_pm s) (p_index (piece_of s k))\<rparr>"

definition write_at :: "(int \<rightharpoonup> 8 word) \<Rightarrow> int \<Rightarrow> 8 word list \<Rightarrow> (int \<rightharpoonup> 8 word)" where
  "write_at f off bs = (\<lambda>x. if off \<le> x \<and> x < off + int (length bs) then Some (bs ! nat (x - off)) else f x)"

text \<open>The local variables of the read loop.\<close>

record reader =
  rd_offset :: int
  rd_block :: int
  rd_remaining :: int
  rd_low_bytes :: int
  rd_low_start :: instant
  rd_total :: int

datatype read_end = MoreData | EndOfBody | ReadError go_error

text \<open>
  One \<open>Read\<close>: the bytes, the error that came with them, the answers of the rate limiter and of \<open>WriteAt\<close>
  (with the number of bytes written before the error), the clock and the context afterwards.
\<close>

record read_event =
  ev_data :: "8 word list"
  ev_end :: read_end
  ev_limit :: "go_error option"
  ev_write :: "(nat \<times> go_error) option"
  ev_now :: instant
  ev_ctx :: "go_error option"

datatype verdict = GoOn | LeaveInner bool | Return "go_error option"

record speed_floor =
  min_speed :: int
  min_speed_timeout :: duration

definition err_range_not_supported :: go_error where
  "err_range_not_supported = Plain ''server does not support range requests; fall back to single-thread''"

definition err_low_speed :: go_error where
  "err_low_speed = Plain ''low speed detected, connection closed for retry''"

definition err_status :: "int \<Rightarrow> string \<Rightarrow> go_error" where
  "err_status c t = Plain (''unexpected status code: '' @ show_int c @ '' '' @ t)"

definition err_short_read :: "int \<Rightarrow> int \<Rightarrow> go_error" where
  "err_short_read b r =
     Plain (''short read: block '' @ show_int b @ '' incomplete, '' @ show_int r @ '' bytes remaining'')"

section \<open>The read loop of a piece\<close>

definition low_speed_check :: "speed_floor \<Rightarrow> reader \<Rightarrow> int \<Rightarrow> instant \<Rightarrow> reader \<times> bool" where
  "low_speed_check fl r n now =
     (if min_speed fl > 0 then
        let low = rd_low_bytes r + n; elapsed = now - rd_low_start r; r1 = r\<lparr>rd_low_bytes := low\<rparr> in
        if elapsed \<ge> 1000000000 then
          (if go_div low (f64_to_int (duration_seconds elapsed)) < min_speed fl
           then (r1, elapsed \<ge> min_speed_timeout fl)
           else (r\<lparr>rd_low_bytes := 0, rd_low_start := now\<rparr>, False))
        else (r1, False)
      else (r, False))"

text \<open>The current block is full: mark it, and go on with the next one if the stream continues there.\<close>

definition block_advance :: "download_state \<Rightarrow> int \<Rightarrow> reader \<Rightarrow> download_state \<times> reader \<times> verdict" where
  "block_advance s k r =
     (let p = complete_block (piece_of s k) (rd_block r); s1 = with_piece s k p in
      if is_complete p then (finish_piece s1 k, r, Return None)
      else case next_unused_block p of (p2, off, len) \<Rightarrow>
        let s2 = with_piece s1 k p2 in
        if off < 0 then (s2, r, LeaveInner False)
        else if off \<noteq> rd_offset r then (s2, r, LeaveInner False)
        else (s2, r\<lparr>rd_block := block_index_for_offset p2 off, rd_remaining := len\<rparr>, GoOn))"

definition cancel_current :: "download_state \<Rightarrow> int \<Rightarrow> reader \<Rightarrow> download_state" where
  "cancel_current s k r = with_piece s k (cancel_block (piece_of s k) (rd_block r))"

definition read_data :: "speed_floor \<Rightarrow> int \<Rightarrow> download_state \<Rightarrow> reader \<Rightarrow> read_event \<Rightarrow>
    download_state \<times> reader \<times> verdict" where
  "read_data fl k s r ev =
     (let n = int (length (ev_data ev)) in
      case ev_limit ev of
        Some e \<Rightarrow> (cancel_current s k r, r, Return (Some (Wrapped ''rate limit'' e)))
      | None \<Rightarrow> (case ev_write ev of
          Some (j, e) \<Rightarrow>
            (cancel_current (s\<lparr>dl_file := write_at (dl_file s) (rd_offset r) (take j (ev_data ev))\<rparr>) k r, r,
             Return (Some (Wrapped ''write piece'' e)))
        | None \<Rightarrow>
            let s1 = s\<lparr>dl_file := write_at (dl_file s) (rd_offset r) (ev_data ev), dl_total := dl_total s + n\<rparr>;
                r1 = r\<lparr>rd_offset := rd_offset r + n, rd_remaining := rd_remaining r - n, rd_total := rd_total r + n\<rparr>
            in case low_speed_check fl r1 n (ev_now ev) of (r2, slow) \<Rightarrow>
              if slow then (cancel_current s1 k r2, r2, LeaveInner True)
              else if rd_remaining r2 \<le> 0 then block_advance s1 k r2
              else (s1, r2, GoOn)))"

definition read_finish :: "int \<Rightarrow> download_state \<Rightarrow> reader \<Rightarrow> read_event \<Rightarrow> download_state \<times> reader \<times> verdict" where
  "read_finish k s r ev =
     (case ev_end ev of
        MoreData \<Rightarrow> (s, r, GoOn)
      | EndOfBody \<Rightarrow>
          if rd_remaining r > 0 then (s, r, Return (Some (err_short_read (rd_block r) (rd_remaining r))))
          else let p = complete_block (piece_of s k) (rd_block r); s1 = with_piece s k p in
            ((if is_complete p then finish_piece s1 k else s1), r, Return None)
      | ReadError e \<Rightarrow>
          (case ev_ctx ev of
             Some ce \<Rightarrow> (cancel_current s k r, r, Return (Some ce))
           | None \<Rightarrow> (cancel_current s k r, r, Return (Some (Wrapped ''read piece'' e)))))"

definition read_step :: "speed_floor \<Rightarrow> int \<Rightarrow> download_state \<Rightarrow> reader \<Rightarrow> read_event \<Rightarrow>
    download_state \<times> reader \<times> verdict" where
  "read_step fl k s r ev =
     (case (if ev_data ev \<noteq> [] then read_data fl k s r ev else (s, r, GoOn)) of
        (s1, r1, GoOn) \<Rightarrow> read_finish k s1 r1 ev
      | x \<Rightarrow> x)"

text \<open>A script that ends while the loop goes on leaves it waiting for the next read.\<close>

fun read_loop :: "speed_floor \<Rightarrow> int \<Rightarrow> download_state \<Rightarrow> reader \<Rightarrow> read_event list \<Rightarrow>
    download_state \<times> reader \<times> verdict" where
  "read_loop fl k s r [] = (s, r, GoOn)"
| "read_loop fl k s r (ev # evs) =
     (case read_step fl k s r ev of
        (s1, r1, GoOn) \<Rightarrow> read_loop fl k s1 r1 evs
      | x \<Rightarrow> x)"

section \<open>One attempt at a piece\<close>

text \<open>
  What one round of the outer loop meets: the context at its head and during the wait for a block,
  the errors of building and sending the request, the answer, and the reads its body gives for
  the requested range.
\<close>

record exchange =
  ex_ctx :: "go_error option"
  ex_wait_ctx :: "go_error option"
  ex_create :: "go_error option"
  ex_do :: "go_error option"
  ex_status :: int
  ex_status_text :: string
  ex_start :: instant
  ex_body :: "int \<Rightarrow> int \<Rightarrow> read_event list"

definition requested_end :: "int \<Rightarrow> int \<Rightarrow> int \<Rightarrow> int \<Rightarrow> int" where
  "requested_end off len end_offset fsize =
     (let e = off + len - 1; e1 = (if end_offset > e then end_offset else e)
      in if e1 > fsize - 1 then fsize - 1 else e1)"

definition send_request :: "speed_floor \<Rightarrow> int \<Rightarrow> int \<Rightarrow> int \<Rightarrow> download_state \<Rightarrow> int \<Rightarrow> exchange \<Rightarrow> int \<Rightarrow> int \<Rightarrow>
    download_state \<times> int \<times> verdict" where
  "send_request fl k end_offset fsize s tot ex off len =
     (let i = block_index_for_offset (piece_of s k) off;
          cancelled = with_piece s k (cancel_block (piece_of s k) i);
          rend = requested_end off len end_offset fsize in
      case ex_create ex of
        Some e \<Rightarrow> (cancelled, tot, Return (Some (Wrapped ''create request'' e)))
      | None \<Rightarrow> (case ex_do ex of
          Some e \<Rightarrow> (cancelled, tot, Return (Some (Wrapped ''request'' e)))
        | None \<Rightarrow>
            if ex_status ex = 416 then (cancelled, tot, Return (Some err_range_not_supported))
            else if ex_status ex = 200 then (cancelled, tot, Return (Some err_range_not_supported))
            else if ex_status ex \<noteq> 206
            then (cancelled, tot, Return (Some (err_status (ex_status ex) (ex_status_text ex))))
            else case read_loop fl k s
                \<lparr>rd_offset = off, rd_block = i, rd_remaining = len, rd_low_bytes = 0,
                 rd_low_start = ex_start ex, rd_total = tot\<rparr> (ex_body ex off rend) of
              (s1, r1, LeaveInner slow) \<Rightarrow>
                (s1, rd_total r1, if slow then Return (Some err_low_speed) else GoOn)
            | (s1, r1, Return e) \<Rightarrow> (s1, rd_total r1, Return e)
            | (s1, r1, GoOn) \<Rightarrow> (s1, rd_total r1, LeaveInner False)))"

text \<open>
  A round; \<open>GoOn\<close> starts the next one. \<open>LeaveInner False\<close> marks a round whose body has given no end yet:
  the attempt is still blocked in \<open>Read\<close>.
\<close>

definition piece_round :: "speed_floor \<Rightarrow> int \<Rightarrow> int \<Rightarrow> int \<Rightarrow> download_state \<Rightarrow> int \<Rightarrow> exchange \<Rightarrow>
    download_state \<times> int \<times> verdict" where
  "piece_round fl k end_offset fsize s tot ex =
     (case ex_ctx ex of
        Some e \<Rightarrow> (s, tot, Return (Some e))
      | None \<Rightarrow>
          if is_complete (piece_of s k) then (finish_piece s k, tot, Return None)
          else case next_unused_block (piece_of s k) of (p, off, len) \<Rightarrow>
            let s1 = with_piece s k p in
            if off < 0 then
              (if is_complete p then (finish_piece s1 k, tot, Return None)
               else case ex_wait_ctx ex of
                   Some e \<Rightarrow> (s1, tot, Return (Some e))
                 | None \<Rightarrow> (s1, tot, GoOn))
            else send_request fl k end_offset fsize s1 tot ex off len)"

fun piece_loop :: "speed_floor \<Rightarrow> int \<Rightarrow> int \<Rightarrow> int \<Rightarrow> download_state \<Rightarrow> int \<Rightarrow> exchange list \<Rightarrow>
    download_state \<times> int \<times> verdict" where
  "piece_loop fl k end_offset fsize s tot [] = (s, tot, GoOn)"
| "piece_loop fl k end_offset fsize s tot (ex # exs) =
     (case piece_round fl k end_offset fsize s tot ex of
        (s1, tot1, GoOn) \<Rightarrow> piece_loop fl k end_offset fsize s1 tot1 exs
      | x \<Rightarrow> x)"

definition download_piece_once :: "speed_floor \<Rightarrow> int \<Rightarrow> int \<Rightarrow> int \<Rightarrow> download_state \<Rightarrow> exchange list \<Rightarrow>
    download_state \<times> int \<times> verdict" where
  "download_piece_once fl k end_offset fsize s exs = piece_loop fl k end_offset fsize s 0 exs"

text \<open>The deferred report to the server statistics.\<close>

datatype server_note = NoNote | NoteFailure | NoteSpeed int

fun error_is :: "go_error \<Rightarrow> go_error \<Rightarrow> bool" where
  "error_is target (Wrapped s e) = (Wrapped s e = target \<or> error_is target e)"
| "error_is target (RetryableError e b) = (RetryableError e b = target \<or> error_is target e)"
| "error_is target (UrlErr s e) = (UrlErr s e = target \<or> error_is target e)"
| "error_is target e = (e = target)"

definition ctx_canceled :: go_error where
  "ctx_canceled = Plain ''context canceled''"

definition ctx_deadline_exceeded :: go_error where
  "ctx_deadline_exceeded = NetErr OtherNetError True ''context deadline exceeded''"

definition attempt_note :: "bool \<Rightarrow> go_error option \<Rightarrow> int \<Rightarrow> duration \<Rightarrow> server_note" where
  "attempt_note have_stats err tot elapsed =
     (if \<not> have_stats then NoNote
      else case err of
          Some e \<Rightarrow>
            if \<not> error_is ctx_canceled e \<and> \<not> error_is ctx_deadline_exceeded e then NoteFailure else NoNote
        | None \<Rightarrow>
            if tot > 0 \<and> elapsed > 0
            then NoteSpeed (f64_to_int (f64 (f64 (of_int tot) / duration_seconds elapsed)))
            else NoNote)"

section \<open>One attempt at a stolen range\<close>

text \<open>The blocks from the first to the last byte written are marked complete.\<close>

definition mark_range :: "piece \<Rightarrow> int \<Rightarrow> int \<Rightarrow> piece" where
  "mark_range p start final =
     foldl complete_block p [block_index_for_offset p start..block_index_for_offset p final]"

definition range_finish :: "int \<Rightarrow> int \<Rightarrow> download_state \<Rightarrow> int \<Rightarrow> download_state \<times> go_error option" where
  "range_finish k start s off =
     (let final = off - 1;
          s1 = (if final \<ge> start then with_piece s k (mark_range (piece_of s k) start final) else s) in
      if \<not> is_complete (piece_of s1 k)
      then (s1, Some (Plain (''unexpected EOF, piece '' @ show_int (p_index (piece_of s1 k)) @ '' incomplete'')))
      else (finish_piece s1 k, None))"

text \<open>The result is \<open>None\<close> while the loop waits for more of the body.\<close>

fun range_loop :: "int \<Rightarrow> int \<Rightarrow> download_state \<Rightarrow> int \<Rightarrow> read_event list \<Rightarrow>
    download_state \<times> int \<times> go_error option option" where
  "range_loop k start s off [] = (s, off, None)"
| "range_loop k start s off (ev # evs) =
     (let n = int (length (ev_data ev)) in
      if ev_data ev \<noteq> [] \<and> ev_limit ev \<noteq> None
      then (s, off, Some (Some (Wrapped ''rate limit'' (the (ev_limit ev)))))
      else if ev_data ev \<noteq> [] \<and> ev_write ev \<noteq> None
      then (case the (ev_write ev) of (j, e) \<Rightarrow>
        (s\<lparr>dl_file := write_at (dl_file s) off (take j (ev_data ev))\<rparr>, off, Some (Some (Wrapped ''write range'' e))))
      else let s1 = s\<lparr>dl_file := write_at (dl_file s) off (ev_data ev), dl_total := dl_total s + n\<rparr>;
               off1 = off + n in
        case ev_end ev of
          MoreData \<Rightarrow> range_loop k start s1 off1 evs
        | EndOfBody \<Rightarrow> (case range_finish k start s1 off1 of (s2, e) \<Rightarrow> (s2, off1, Some e))
        | ReadError e \<Rightarrow> (case ev_ctx ev of
              Some ce \<Rightarrow> (s1, off1, Some (Some ce))
            | None \<Rightarrow> (s1, off1, Some (Some (Wrapped ''read range'' e)))))"

definition download_range_once :: "int \<Rightarrow> int \<Rightarrow> int \<Rightarrow> download_state \<Rightarrow> exchange \<Rightarrow>
    download_state \<times> int \<times> go_error option option" where
  "download_range_once k start end_offset s ex =
     (case ex_create ex of
        Some e \<Rightarrow> (s, start, Some (Some (Wrapped ''create request'' e)))
      | None \<Rightarrow> (case ex_do ex of
          Some e \<Rightarrow> (s, start, Some (Some (Wrapped ''request'' e)))
        | None \<Rightarrow>
            if ex_status ex = 416 \<or> ex_status ex = 200 then (s, start, Some (Some err_range_not_supported))
            else if ex_status ex \<noteq> 206 then (s, start, Some (Some (err_status (ex_status ex) (ex_status_text ex))))
            else range_loop k start s start (ex_body ex start end_offset)))"

section \<open>Sources and retries\<close>

text \<open>\<open>downloadPiece\<close> and \<open>downloadRange\<close> wrap their attempt in the same two loops.\<close>

record 's source_env =
  try_source :: "string \<Rightarrow> 's \<Rightarrow> 's \<times> go_error option"
  source_ctx :: "'s \<Rightarrow> go_error option"
  source_wait :: "duration \<Rightarrow> 's \<Rightarrow> 's \<times> go_error option"

datatype source_result = Finished "go_error option" | Exhausted duration "go_error option"

definition grow_backoff :: "duration \<Rightarrow> duration" where
  "grow_backoff b =
     (let b1 = f64_to_int (f64 (f64 (of_int b) * (3 / 2))) in if b1 > 30000000000 then 30000000000 else b1)"

text \<open>\<open>n\<close> attempts are left; \<open>again\<close> is set from the second attempt on, which waits first.\<close>

fun source_loop :: "'s source_env \<Rightarrow> string \<Rightarrow> nat \<Rightarrow> bool \<Rightarrow> duration \<Rightarrow> go_error option \<Rightarrow> 's \<Rightarrow> 's \<times> source_result" where
  "source_loop env url 0 again backoff prev s = (s, Exhausted backoff prev)"
| "source_loop env url (Suc n) again backoff prev s =
     (case (if again then source_wait env backoff s else (s, None)) of
        (s1, Some e) \<Rightarrow> (s1, Finished (Some e))
      | (s1, None) \<Rightarrow>
          let backoff1 = (if again then grow_backoff backoff else backoff) in
          (case try_source env url s1 of
             (s2, None) \<Rightarrow> (s2, Finished None)
           | (s2, Some e) \<Rightarrow>
               (case source_ctx env s2 of
                  Some ce \<Rightarrow> (s2, Finished (Some ce))
                | None \<Rightarrow>
                    if is_permanent_error e then (s2, Exhausted backoff1 (Some e))
                    else source_loop env url n True backoff1 (Some e) s2)))"

definition all_sources_failed :: "string \<Rightarrow> go_error option \<Rightarrow> go_error" where
  "all_sources_failed what prev =
     (case prev of
        Some e \<Rightarrow> Wrapped (what @ '' download failed from all sources'') e
      | None \<Rightarrow> Plain (what @ '' download failed from all sources: %!w(<nil>)''))"

fun sources_loop :: "'s source_env \<Rightarrow> string \<Rightarrow> int \<Rightarrow> string list \<Rightarrow> duration \<Rightarrow> go_error option \<Rightarrow> 's \<Rightarrow>
    's \<times> go_error option" where
  "sources_loop env what retries [] backoff prev s = (s, Some (all_sources_failed what prev))"
| "sources_loop env what retries (u # us) backoff prev s =
     (case source_loop env u (nat (retries + 1)) False backoff prev s of
        (s1, Finished r) \<Rightarrow> (s1, r)
      | (s1, Exhausted b l) \<Rightarrow> sources_loop env what retries us b l s1)"

definition download_piece :: "'s source_env \<Rightarrow> int \<Rightarrow> string list \<Rightarrow> 's \<Rightarrow> 's \<times> go_error option" where
  "download_piece env retries urls s = sources_loop env ''piece'' retries urls 1000000000 None s"

definition download_range :: "'s source_env \<Rightarrow> int \<Rightarrow> string list \<Rightarrow> 's \<Rightarrow> 's \<times> go_error option" where
  "download_range env retries urls s = sources_loop env ''range'' retries urls 1000000000 None s"

end
