(* ===== verification/PieceDownloadProps.thy ===== *)
theory PieceDownloadProps
  imports PieceDownload
begin

text \<open>
  What one attempt at a piece guarantees. Safety: a block is only ever marked complete when its
  bytes are on disk and right, whatever errors, low speed or cancellations occur. And the cases in
  which the loop loses a block: a reserved block that nobody downloads is never completed again.
\<close>

section \<open>Bytes on disk\<close>

text \<open>\<open>content\<close> is the remote file.\<close>

definition block_start :: "piece \<Rightarrow> int \<Rightarrow> int" where
  "block_start p i = p_start p + i * bm_block (p_blocks p)"

definition block_on_disk :: "(int \<Rightarrow> 8 word) \<Rightarrow> (int \<rightharpoonup> 8 word) \<Rightarrow> piece \<Rightarrow> int \<Rightarrow> bool" where
  "block_on_disk content f p i \<longleftrightarrow>
     (\<forall>x. block_start p i \<le> x \<and> x < block_start p i + bm_block_length (p_blocks p) i \<longrightarrow> f x = Some (content x))"

definition piece_good :: "(int \<Rightarrow> 8 word) \<Rightarrow> (int \<rightharpoonup> 8 word) \<Rightarrow> piece \<Rightarrow> bool" where
  "piece_good content f p \<longleftrightarrow> piece_wf p \<and> (\<forall>i. bm_is_bit_set (p_blocks p) i \<longrightarrow> block_on_disk content f p i)"

definition disk_good :: "(int \<Rightarrow> 8 word) \<Rightarrow> download_state \<Rightarrow> bool" where
  "disk_good content s \<longleftrightarrow> (\<forall>p \<in> set (pm_pieces (dl_pm s)). piece_good content (dl_file s) p)"

definition keeps_good :: "(int \<Rightarrow> 8 word) \<Rightarrow> (int \<rightharpoonup> 8 word) \<Rightarrow> (int \<rightharpoonup> 8 word) \<Rightarrow> bool" where
  "keeps_good content f g \<longleftrightarrow> (\<forall>x. f x = Some (content x) \<longrightarrow> g x = Some (content x))"

lemma keeps_good_refl [simp]: "keeps_good content f f"
  by (simp add: keeps_good_def)

lemma piece_good_mono: "piece_good content f p \<Longrightarrow> keeps_good content f g \<Longrightarrow> piece_good content g p"
  by (auto simp: piece_good_def block_on_disk_def keeps_good_def)

lemma disk_good_file: "disk_good content s \<Longrightarrow> keeps_good content (dl_file s) g \<Longrightarrow>
    disk_good content (s\<lparr>dl_file := g, dl_total := t\<rparr>)"
  by (auto simp: disk_good_def intro: piece_good_mono)

lemma disk_good_piece_of: "disk_good content s \<Longrightarrow> 0 \<le> k \<Longrightarrow> k < int (length (pm_pieces (dl_pm s))) \<Longrightarrow>
    piece_good content (dl_file s) (piece_of s k)"
  by (simp add: disk_good_def piece_of_def nat_less_iff)

lemma disk_good_with_piece: "disk_good content s \<Longrightarrow> piece_good content (dl_file s) p \<Longrightarrow>
    disk_good content (with_piece s k p)"
  by (auto simp: disk_good_def with_piece_def update_piece_def dest: set_update_subset_insert [THEN subsetD])

lemma with_piece_simps [simp]:
  "dl_file (with_piece s k p) = dl_file s" "dl_total (with_piece s k p) = dl_total s"
  "length (pm_pieces (dl_pm (with_piece s k p))) = length (pm_pieces (dl_pm s))"
  "0 \<le> k \<Longrightarrow> k < int (length (pm_pieces (dl_pm s))) \<Longrightarrow> piece_of (with_piece s k p) k = p"
  "with_piece (with_piece s k p) k q = with_piece s k q"
  by (simp_all add: with_piece_def update_piece_def piece_of_def nat_less_iff)

lemma finish_piece_simps [simp]:
  "dl_file (finish_piece s k) = dl_file s"
  "length (pm_pieces (dl_pm (finish_piece s k))) = length (pm_pieces (dl_pm s))"
  by (simp_all add: finish_piece_def complete_piece_def update_piece_def)

lemma piece_good_status: "piece_good content f p \<Longrightarrow> piece_good content f (set_piece_status p st)"
  by (simp add: piece_good_def set_piece_status_def block_on_disk_def block_start_def)

lemma disk_good_finish: "disk_good content s \<Longrightarrow> disk_good content (finish_piece s k)"
  by (auto simp: disk_good_def finish_piece_def complete_piece_def update_piece_def nat_less_iff
      intro!: piece_good_status dest!: set_update_subset_insert [THEN subsetD])

text \<open>Bytes of the remote file written anywhere never hurt.\<close>

lemma write_at_keeps: "\<forall>j < length bs. bs ! j = content (off + int j) \<Longrightarrow> keeps_good content f (write_at f off bs)"
  by (auto simp: keeps_good_def write_at_def)

lemma write_at_written: "\<forall>j < length bs. bs ! j = content (off + int j) \<Longrightarrow> off \<le> x \<Longrightarrow> x < off + int (length bs) \<Longrightarrow>
    write_at f off bs x = Some (content x)"
  by (auto simp: write_at_def nat_less_iff)

section \<open>Operations on a good piece\<close>

lemma good_blocks:
  assumes "piece_good content f p" "bm_fits b" "bm_num b = bm_num (p_blocks p)"
    "bm_block b = bm_block (p_blocks p)" "bm_total b = bm_total (p_blocks p)"
    "\<And>i. bm_is_bit_set b i \<Longrightarrow> bm_is_bit_set (p_blocks p) i \<or> block_on_disk content f p i"
  shows "piece_good content f (p\<lparr>p_blocks := b\<rparr>)"
proof -
  have "bm_block_length b i = bm_block_length (p_blocks p) i" for i
    by (simp add: bm_block_length_def Let_def assms)
  with assms show ?thesis
    by (simp add: piece_good_def block_on_disk_def block_start_def piece_wf_def) blast
qed

lemma good_cancel: "piece_good content f p \<Longrightarrow> piece_good content f (cancel_block p i)"
  unfolding cancel_block_def
  by (rule good_blocks) (auto simp: piece_good_def intro: bm_fits_ops(4) dest: piece_wfD)

lemma good_next_unused: "piece_good content f p \<Longrightarrow> piece_good content f (fst (next_unused_block p))"
proof -
  assume g: "piece_good content f p"
  have "piece_good content f (p\<lparr>p_blocks := bm_set_use_bit (p_blocks p) i\<rparr>)" for i
    by (rule good_blocks [OF g]) (use g in \<open>auto simp: piece_good_def intro: bm_fits_ops(3) dest: piece_wfD\<close>)
  with g show ?thesis by (simp add: next_unused_block_def Let_def)
qed

lemma good_complete:
  assumes "piece_good content f p" "0 \<le> i \<Longrightarrow> i < bm_num (p_blocks p) \<Longrightarrow> block_on_disk content f p i"
  shows "piece_good content f (complete_block p i)"
proof -
  let ?b = "bm_unset_use_bit (bm_set_bit (p_blocks p) i) i"
  have f: "bm_fits (p_blocks p)" using assms(1) by (simp add: piece_good_def piece_wf_def)
  note sh = bm_okD(1) [OF bm_fits_okD [OF f]]
  have "piece_good content f (p\<lparr>p_blocks := ?b\<rparr>)"
    by (rule good_blocks [OF assms(1)])
      (use f assms(2) completed.mem_add [OF sh] in \<open>auto intro: bm_fits_ops(1,4)\<close>)
  then show ?thesis
    by (simp add: complete_block_def Let_def piece_good_def block_on_disk_def block_start_def piece_wf_def)
qed

lemma piece_frames [simp]:
  "p_start (complete_block p i) = p_start p" "p_length (complete_block p i) = p_length p"
  "bm_num (p_blocks (complete_block p i)) = bm_num (p_blocks p)"
  "bm_block (p_blocks (complete_block p i)) = bm_block (p_blocks p)"
  "bm_total (p_blocks (complete_block p i)) = bm_total (p_blocks p)"
  "p_start (cancel_block p i) = p_start p" "p_length (cancel_block p i) = p_length p"
  "bm_num (p_blocks (cancel_block p i)) = bm_num (p_blocks p)"
  "bm_block (p_blocks (cancel_block p i)) = bm_block (p_blocks p)"
  "bm_total (p_blocks (cancel_block p i)) = bm_total (p_blocks p)"
  by (simp_all add: complete_block_def cancel_block_def Let_def)

text \<open>The two answers of \<open>NextUnusedBlock\<close>, for case analysis.\<close>

lemma next_unused_cases:
  assumes "piece_wf p"
  obtains (none) "next_unused_block p = (p, -1, 0)"
      "\<And>i. 0 \<le> i \<Longrightarrow> i < bm_num (p_blocks p) \<Longrightarrow> bm_is_bit_set (p_blocks p) i \<or> bm_is_use_bit_set (p_blocks p) i"
    | (block) i where "0 \<le> i" "i < bm_num (p_blocks p)" "\<not> bm_is_bit_set (p_blocks p) i"
      "\<not> bm_is_use_bit_set (p_blocks p) i"
      "next_unused_block p = (p\<lparr>p_blocks := bm_set_use_bit (p_blocks p) i\<rparr>, block_start p i, bm_block_length (p_blocks p) i)"
      "block_index_for_offset p (block_start p i) = i" "0 \<le> block_start p i" "0 < bm_block_length (p_blocks p) i"
proof (cases "bm_first_missing_unused (p_blocks p) = -1")
  case True
  with bm_first_missing_unused_cases [OF piece_wfD(4) [OF assms]] show ?thesis
    by (intro none) (auto simp: next_unused_block_def)
next
  case False
  let ?i = "bm_first_missing_unused (p_blocks p)"
  have i: "0 \<le> ?i" "?i < bm_num (p_blocks p)" "\<not> bm_is_bit_set (p_blocks p) ?i" "\<not> bm_is_use_bit_set (p_blocks p) ?i"
    using False bm_first_missing_unused_cases [OF piece_wfD(4) [OF assms]] by auto
  note ins = block_inside [OF piece_wfD(1) [OF assms] i(1,2)]
  have "block_index_for_offset p (p_start p + ?i * bm_block (p_blocks p) + 0) = ?i"
    using ins by (intro offset_block assms i) simp_all
  moreover have "0 \<le> p_start p" using assms by (simp add: piece_wf_def)
  ultimately show ?thesis using i ins
    by (intro block [of ?i]) (simp_all add: next_unused_block_def Let_def block_start_def)
qed

lemma block_index_use [simp]:
  "block_index_for_offset (p\<lparr>p_blocks := bm_set_use_bit (p_blocks p) i\<rparr>) x = block_index_for_offset p x"
  "block_start (p\<lparr>p_blocks := bm_set_use_bit (p_blocks p) i\<rparr>) j = block_start p j"
  by (simp_all add: block_index_for_offset_def block_start_def Let_def)

lemma block_length_use [simp]:
  "bm_block_length (bm_set_use_bit b i) j = bm_block_length b j"
  by (simp add: bm_block_length_def Let_def)

section \<open>The read loop\<close>

text \<open>
  The reader stands inside its block, what it has read of the block is on disk, and something of it
  is still missing.
\<close>

definition reader_at :: "(int \<Rightarrow> 8 word) \<Rightarrow> (int \<rightharpoonup> 8 word) \<Rightarrow> piece \<Rightarrow> reader \<Rightarrow> bool" where
  "reader_at content f p r \<longleftrightarrow>
     0 \<le> rd_block r \<and> rd_block r < bm_num (p_blocks p) \<and>
     rd_offset r + rd_remaining r = block_start p (rd_block r) + bm_block_length (p_blocks p) (rd_block r) \<and>
     block_start p (rd_block r) \<le> rd_offset r \<and>
     (\<forall>x. block_start p (rd_block r) \<le> x \<and> x < rd_offset r \<longrightarrow> f x = Some (content x))"

fun honest :: "(int \<Rightarrow> 8 word) \<Rightarrow> int \<Rightarrow> read_event list \<Rightarrow> bool" where
  "honest content off [] = True"
| "honest content off (ev # evs) =
     ((\<forall>j < length (ev_data ev). ev_data ev ! j = content (off + int j)) \<and>
      honest content (off + int (length (ev_data ev))) evs)"

definition piece_slot :: "download_state \<Rightarrow> int \<Rightarrow> bool" where
  "piece_slot s k \<longleftrightarrow> 0 \<le> k \<and> k < int (length (pm_pieces (dl_pm s)))"

lemma piece_slotD: "piece_slot s k \<Longrightarrow> 0 \<le> k" "piece_slot s k \<Longrightarrow> k < int (length (pm_pieces (dl_pm s)))"
  by (simp_all add: piece_slot_def)

lemma low_speed_frame: "low_speed_check fl r n now = (r', slow) \<Longrightarrow>
   rd_offset r' = rd_offset r \<and> rd_block r' = rd_block r \<and> rd_remaining r' = rd_remaining r \<and> rd_total r' = rd_total r"
  by (auto simp: low_speed_check_def Let_def split: if_splits)

lemma cancel_current_good:
  "disk_good content s \<Longrightarrow> piece_slot s k \<Longrightarrow> disk_good content (cancel_current s k r)"
  unfolding cancel_current_def piece_slot_def
  by (intro disk_good_with_piece good_cancel disk_good_piece_of) simp_all

text \<open>Finishing a block whose bytes are all there.\<close>

lemma block_advance_good:
  assumes "disk_good content s" "piece_slot s k" "reader_at content (dl_file s) (piece_of s k) r" "rd_remaining r \<le> 0"
    "block_advance s k r = (s', r', v)"
  shows "disk_good content s'" "piece_slot s' k" "dl_file s' = dl_file s"
    "v = GoOn \<Longrightarrow> reader_at content (dl_file s') (piece_of s' k) r' \<and> 0 < rd_remaining r' \<and> rd_offset r' = rd_offset r"
proof -
  let ?p = "piece_of s k" and ?q = "complete_block (piece_of s k) (rd_block r)"
  note k = piece_slotD [OF assms(2)]
  have "block_on_disk content (dl_file s) ?p (rd_block r)"
    using assms(3,4) by (auto simp: reader_at_def block_on_disk_def)
  with disk_good_piece_of [OF assms(1) k] have q: "piece_good content (dl_file s) ?q" by (intro good_complete)
  then have wq: "piece_wf ?q" by (simp add: piece_good_def)
  have all: "disk_good content s' \<and> piece_slot s' k \<and> dl_file s' = dl_file s \<and>
      (v = GoOn \<longrightarrow> reader_at content (dl_file s') (piece_of s' k) r' \<and> 0 < rd_remaining r' \<and> rd_offset r' = rd_offset r)"
  proof (cases "is_complete ?q")
    case True
    then have "s' = finish_piece (with_piece s k ?q) k" "v = Return None"
      using assms(5) by (auto simp: block_advance_def Let_def)
    then show ?thesis using True q assms(1,2)
      by (simp add: piece_slot_def disk_good_finish disk_good_with_piece)
  next
    case False
    from wq show ?thesis
    proof (cases rule: next_unused_cases)
      case none
      with False assms(5) have "s' = with_piece s k ?q" "v = LeaveInner False"
        by (auto simp: block_advance_def Let_def)
      then show ?thesis using q assms(1,2) by (simp add: piece_slot_def disk_good_with_piece)
    next
      case (block i)
      let ?q' = "?q\<lparr>p_blocks := bm_set_use_bit (p_blocks ?q) i\<rparr>"
      have q': "piece_good content (dl_file s) ?q'" using good_next_unused [OF q] block(5) by simp
      have s': "s' = with_piece s k ?q'"
        using block(5,7) False assms(5) by (auto simp: block_advance_def Let_def split: if_splits)
      have "reader_at content (dl_file s) ?q' r' \<and> 0 < rd_remaining r' \<and> rd_offset r' = rd_offset r" if "v = GoOn"
      proof -
        have "block_start ?q i = rd_offset r" "r' = r\<lparr>rd_block := i, rd_remaining := bm_block_length (p_blocks ?q) i\<rparr>"
          using that block(5,6,7) False assms(5) by (auto simp: block_advance_def Let_def split: if_splits)
        with block show ?thesis by (auto simp: reader_at_def)
      qed
      then show ?thesis using s' q' assms(1,2) k by (simp add: piece_slot_def disk_good_with_piece)
    qed
  qed
  then show "disk_good content s'" "piece_slot s' k" "dl_file s' = dl_file s"
    "v = GoOn \<Longrightarrow> reader_at content (dl_file s') (piece_of s' k) r' \<and> 0 < rd_remaining r' \<and> rd_offset r' = rd_offset r" by blast+
qed


definition reader_ok :: "(int \<Rightarrow> 8 word) \<Rightarrow> download_state \<Rightarrow> int \<Rightarrow> reader \<Rightarrow> bool" where
  "reader_ok content s k r \<longleftrightarrow> disk_good content s \<and> piece_slot s k \<and>
     reader_at content (dl_file s) (piece_of s k) r \<and> 0 < rd_remaining r"

lemma reader_at_cong:
  "reader_at content f p r \<Longrightarrow> rd_block r' = rd_block r \<Longrightarrow> rd_offset r' = rd_offset r \<Longrightarrow>
   rd_remaining r' = rd_remaining r \<Longrightarrow> reader_at content f p r'"
  by (simp add: reader_at_def)

lemma read_data_good:
  assumes "reader_ok content s k r" "ev_data ev \<noteq> []"
    "\<forall>j < length (ev_data ev). ev_data ev ! j = content (rd_offset r + int j)"
    "read_data fl k s r ev = (s', r', v)"
  shows "disk_good content s'" "piece_slot s' k"
    "v = GoOn \<Longrightarrow> reader_ok content s' k r' \<and> rd_offset r' = rd_offset r + int (length (ev_data ev))"
proof -
  let ?n = "int (length (ev_data ev))"
  have g: "disk_good content s" and k: "piece_slot s k" and at: "reader_at content (dl_file s) (piece_of s k) r"
    using assms(1) by (simp_all add: reader_ok_def)
  have all: "disk_good content s' \<and> piece_slot s' k \<and>
      (v = GoOn \<longrightarrow> reader_ok content s' k r' \<and> rd_offset r' = rd_offset r + ?n)"
  proof (cases "ev_limit ev")
    case (Some e)
    with assms(4) have "s' = cancel_current s k r" "v = Return (Some (Wrapped ''rate limit'' e))"
      by (auto simp: read_data_def Let_def)
    then show ?thesis using cancel_current_good [OF g k] k by (simp add: piece_slot_def cancel_current_def)
  next
    case None
    note nolimit = None
    show ?thesis
    proof (cases "ev_write ev")
      case (Some we)
      obtain j e where we: "we = (j, e)" by (cases we)
      let ?f = "write_at (dl_file s) (rd_offset r) (take j (ev_data ev))"
      have "keeps_good content (dl_file s) ?f" using assms(3) by (intro write_at_keeps) simp
      from disk_good_file [OF g this, of "dl_total s"] have "disk_good content (s\<lparr>dl_file := ?f\<rparr>)" by simp
      moreover have "piece_slot (s\<lparr>dl_file := ?f\<rparr>) k" using k by (simp add: piece_slot_def)
      moreover have "s' = cancel_current (s\<lparr>dl_file := ?f\<rparr>) k r" "v = Return (Some (Wrapped ''write piece'' e))"
        using assms(4) nolimit Some we by (auto simp: read_data_def Let_def)
      ultimately show ?thesis using cancel_current_good [of content "s\<lparr>dl_file := ?f\<rparr>" k r]
        by (simp add: piece_slot_def cancel_current_def)
    next
      case None
      let ?s1 = "s\<lparr>dl_file := write_at (dl_file s) (rd_offset r) (ev_data ev), dl_total := dl_total s + ?n\<rparr>"
      let ?r1 = "r\<lparr>rd_offset := rd_offset r + ?n, rd_remaining := rd_remaining r - ?n, rd_total := rd_total r + ?n\<rparr>"
      obtain r2 slow where ls: "low_speed_check fl ?r1 ?n (ev_now ev) = (r2, slow)"
        by (cases "low_speed_check fl ?r1 ?n (ev_now ev)")
      note fr = low_speed_frame [OF ls]
      have kg: "keeps_good content (dl_file s) (dl_file ?s1)" using write_at_keeps [OF assms(3)] by simp
      then have g1: "disk_good content ?s1" by (intro disk_good_file g) simp
      have k1: "piece_slot ?s1 k" using k by (simp add: piece_slot_def)
      have p1: "piece_of ?s1 k = piece_of s k" by (simp add: piece_of_def)
      have bytes: "dl_file ?s1 x = Some (content x)"
        if "block_start (piece_of s k) (rd_block r) \<le> x" "x < rd_offset r + ?n" for x
      proof (cases "x < rd_offset r")
        case True
        then show ?thesis using at kg that(1) by (auto simp: reader_at_def keeps_good_def)
      next
        case False
        then show ?thesis using write_at_written [OF assms(3)] that(2) by simp
      qed
      have at1: "reader_at content (dl_file ?s1) (piece_of ?s1 k) ?r1"
        using at bytes unfolding p1 by (auto simp: reader_at_def)
      then have at2: "reader_at content (dl_file ?s1) (piece_of ?s1 k) r2"
        by (rule reader_at_cong) (use fr in simp_all)
      have off2: "rd_offset r2 = rd_offset r + ?n" "rd_block r2 = rd_block r" using fr by simp_all
      consider (slow) "slow" "s' = cancel_current ?s1 k r2" "v = LeaveInner True"
        | (full) "\<not> slow" "rd_remaining r2 \<le> 0" "block_advance ?s1 k r2 = (s', r', v)"
        | (more) "\<not> slow" "0 < rd_remaining r2" "s' = ?s1" "r' = r2" "v = GoOn"
        using assms(4) nolimit None ls by (auto simp: read_data_def Let_def split: if_splits)
      then show ?thesis
      proof cases
        case slow
        then show ?thesis using cancel_current_good [OF g1 k1] k1 by (simp add: piece_slot_def cancel_current_def)
      next
        case full
        note ba = block_advance_good [OF g1 k1 at2 full(2,3)]
        show ?thesis using ba off2 p1 unfolding reader_ok_def by metis
      next
        case more
        then show ?thesis using g1 k1 at2 off2 by (simp add: reader_ok_def)
      qed
    qed
  qed
  then show "disk_good content s'" "piece_slot s' k"
    "v = GoOn \<Longrightarrow> reader_ok content s' k r' \<and> rd_offset r' = rd_offset r + ?n"
    by blast+
qed

text \<open>From a good reader the end of the body is always a short read: a full block was left before.\<close>

lemma read_finish_good:
  assumes "reader_ok content s k r" "read_finish k s r ev = (s', r', v)"
  shows "disk_good content s'" "piece_slot s' k" "v = GoOn \<Longrightarrow> s' = s \<and> r' = r" "v \<noteq> Return None"
  using assms cancel_current_good [of content s k r]
  by (auto simp: read_finish_def reader_ok_def piece_slot_def cancel_current_def Let_def
      split: read_end.splits option.splits if_splits)

lemma read_step_good:
  assumes "reader_ok content s k r" "\<forall>j < length (ev_data ev). ev_data ev ! j = content (rd_offset r + int j)"
    "read_step fl k s r ev = (s', r', v)"
  shows "disk_good content s' \<and> piece_slot s' k \<and>
    (v = GoOn \<longrightarrow> reader_ok content s' k r' \<and> rd_offset r' = rd_offset r + int (length (ev_data ev)))"
proof (cases "ev_data ev = []")
  case True
  with assms(3) have "read_finish k s r ev = (s', r', v)" by (simp add: read_step_def)
  from read_finish_good [OF assms(1) this] assms(1) True show ?thesis by (cases "v = GoOn") simp_all
next
  case False
  obtain s1 r1 v1 where d: "read_data fl k s r ev = (s1, r1, v1)" by (cases "read_data fl k s r ev") auto
  note g = read_data_good [OF assms(1) False assms(2) d]
  show ?thesis
  proof (cases "v1 = GoOn")
    case True
    with assms(3) False d have f: "read_finish k s1 r1 ev = (s', r', v)" by (simp add: read_step_def)
    from True g(3) have ok: "reader_ok content s1 k r1" "rd_offset r1 = rd_offset r + int (length (ev_data ev))" by simp_all
    from read_finish_good [OF ok(1) f] ok show ?thesis by (cases "v = GoOn") simp_all
  next
    case no: False
    with assms(3) False d have "s' = s1 \<and> v = v1" by (cases v1) (auto simp: read_step_def)
    with g no show ?thesis by simp
  qed
qed

lemma read_loop_good:
  assumes "reader_ok content s k r" "honest content (rd_offset r) evs" "read_loop fl k s r evs = (s', r', v)"
  shows "disk_good content s' \<and> piece_slot s' k"
  using assms
proof (induction evs arbitrary: s r)
  case Nil
  then show ?case by (simp add: reader_ok_def)
next
  case (Cons ev evs)
  obtain s1 r1 v1 where st: "read_step fl k s r ev = (s1, r1, v1)" by (cases "read_step fl k s r ev") auto
  have h: "\<forall>j < length (ev_data ev). ev_data ev ! j = content (rd_offset r + int j)" using Cons.prems(2) by simp
  note g = read_step_good [OF Cons.prems(1) h st]
  show ?case
  proof (cases "v1 = GoOn")
    case True
    with g have "reader_ok content s1 k r1" "honest content (rd_offset r1) evs" using Cons.prems(2) by simp_all
    moreover have "read_loop fl k s1 r1 evs = (s', r', v)" using Cons.prems(3) st True by simp
    ultimately show ?thesis by (rule Cons.IH)
  next
    case False
    with Cons.prems(3) st g show ?thesis by (cases v1) auto
  qed
qed

section \<open>Rounds\<close>

text \<open>A server that answers 206 sends the bytes of the range it was asked for.\<close>

definition honest_exchange :: "(int \<Rightarrow> 8 word) \<Rightarrow> exchange \<Rightarrow> bool" where
  "honest_exchange content ex \<longleftrightarrow> ex_status ex = 206 \<longrightarrow> (\<forall>a b. honest content a (ex_body ex a b))"

lemma send_request_good:
  assumes "disk_good content s" "piece_slot s k" "honest_exchange content ex"
    "0 \<le> i" "i < bm_num (p_blocks (piece_of s k))" "off = block_start (piece_of s k) i"
    "len = bm_block_length (p_blocks (piece_of s k)) i"
    "send_request fl k eo fsize s tot ex off len = (s', t', v)"
  shows "disk_good content s' \<and> piece_slot s' k"
proof -
  note k = piece_slotD [OF assms(2)]
  have pg: "piece_good content (dl_file s) (piece_of s k)" by (rule disk_good_piece_of [OF assms(1) k])
  then have w: "piece_wf (piece_of s k)" by (simp add: piece_good_def)
  note ins = block_inside [OF piece_wfD(1) [OF w] assms(4,5)]
  have idx: "block_index_for_offset (piece_of s k) off = i"
    using offset_block [OF w assms(4,5), of 0] ins assms(6) by (simp add: block_start_def)
  let ?c = "with_piece s k (cancel_block (piece_of s k) i)"
  have c: "disk_good content ?c \<and> piece_slot ?c k"
    using disk_good_with_piece [OF assms(1) good_cancel [OF pg]] assms(2) by (simp add: piece_slot_def)
  show ?thesis
  proof (cases "ex_create ex = None \<and> ex_do ex = None \<and> ex_status ex = 206")
    case False
    then have "s' = ?c" using assms(8) by (auto simp: send_request_def idx Let_def split: option.splits if_splits)
    with c show ?thesis by simp
  next
    case True
    let ?r = "\<lparr>rd_offset = off, rd_block = i, rd_remaining = len, rd_low_bytes = 0, rd_low_start = ex_start ex, rd_total = tot\<rparr>"
    obtain s1 r1 v1 where l: "read_loop fl k s ?r (ex_body ex off (requested_end off len eo fsize)) = (s1, r1, v1)"
      by (cases "read_loop fl k s ?r (ex_body ex off (requested_end off len eo fsize))") auto
    have "reader_ok content s k ?r"
      using assms ins(4) by (auto simp: reader_ok_def reader_at_def)
    moreover have "honest content (rd_offset ?r) (ex_body ex off (requested_end off len eo fsize))"
      using assms(3) True by (simp add: honest_exchange_def)
    ultimately have "disk_good content s1 \<and> piece_slot s1 k" using l by (rule read_loop_good)
    moreover have "s' = s1" using assms(8) True l
      by (auto simp: send_request_def idx Let_def split: verdict.splits)
    ultimately show ?thesis by simp
  qed
qed

lemma piece_round_good:
  assumes "disk_good content s" "piece_slot s k" "honest_exchange content ex"
    "piece_round fl k eo fsize s tot ex = (s', t', v)"
  shows "disk_good content s' \<and> piece_slot s' k"
proof (cases "ex_ctx ex \<noteq> None \<or> is_complete (piece_of s k)")
  case True
  then have "s' = s \<or> s' = finish_piece s k"
    using assms(4) by (auto simp: piece_round_def split: option.splits if_splits)
  with assms(1,2) disk_good_finish [OF assms(1), of k] show ?thesis by (auto simp: piece_slot_def)
next
  case False
  note k = piece_slotD [OF assms(2)]
  have pg: "piece_good content (dl_file s) (piece_of s k)" by (rule disk_good_piece_of [OF assms(1) k])
  then have w: "piece_wf (piece_of s k)" by (simp add: piece_good_def)
  then show ?thesis
  proof (cases rule: next_unused_cases)
    case none
    have same: "with_piece s k (piece_of s k) = s"
      by (simp add: with_piece_def piece_of_def update_piece_def)
    from none assms(4) False have "s' = s" by (auto simp: piece_round_def Let_def same split: option.splits)
    with assms(1,2) show ?thesis by simp
  next
    case (block i)
    let ?p = "(piece_of s k)\<lparr>p_blocks := bm_set_use_bit (p_blocks (piece_of s k)) i\<rparr>"
    let ?s1 = "with_piece s k ?p"
    have g1: "disk_good content ?s1" using good_next_unused [OF pg] block(5) assms(1)
      by (intro disk_good_with_piece) simp_all
    have k1: "piece_slot ?s1 k" using assms(2) by (simp add: piece_slot_def)
    have p1: "piece_of ?s1 k = ?p" using k by simp
    have send: "send_request fl k eo fsize ?s1 tot ex (block_start (piece_of s k) i)
        (bm_block_length (p_blocks (piece_of s k)) i) = (s', t', v)"
      using assms(4) False block(5,7) by (simp add: piece_round_def Let_def split: option.splits)
    show ?thesis
      by (rule send_request_good [OF g1 k1 assms(3) block(1) _ _ _ send]) (use block(2) in \<open>simp_all add: p1\<close>)
  qed
qed

text \<open>
  C3: Safety of the piece download. If the server sends, for every range it answers with 206, the bytes of
  the remote file at that range, then whatever sequence of refused, failed, cancelled, slow or
  truncated exchanges an attempt meets, every block marked complete in any piece has exactly its
  bytes on disk afterwards, provided that was so before.
\<close>
theorem piece_download_safe:
  assumes "disk_good content s" "0 \<le> k" "k < int (length (pm_pieces (dl_pm s)))"
    "\<forall>ex \<in> set exs. honest_exchange content ex"
    "download_piece_once fl k end_offset fsize s exs = (s', tot, v)"
  shows "disk_good content s'"
proof -
  have "disk_good content s' \<and> piece_slot s' k"
    if "piece_loop fl k end_offset fsize s t exs = (s', tot, v)" "disk_good content s" "piece_slot s k"
      "\<forall>ex \<in> set exs. honest_exchange content ex" for t
    using that
  proof (induction exs arbitrary: s t)
    case Nil
    then show ?case by simp
  next
    case (Cons ex exs)
    obtain s1 t1 v1 where r: "piece_round fl k end_offset fsize s t ex = (s1, t1, v1)"
      by (cases "piece_round fl k end_offset fsize s t ex") auto
    have g: "disk_good content s1 \<and> piece_slot s1 k"
      by (rule piece_round_good [OF Cons.prems(2,3) _ r]) (use Cons.prems(4) in simp)
    with Cons.IH [of s1 t1] Cons.prems r show ?case by (cases v1) auto
  qed
  then show ?thesis using assms by (simp add: download_piece_once_def piece_slot_def)
qed


text \<open>Three blocks; the first body stops early, the second carries the whole range.\<close>

definition plain_read :: "8 word list \<Rightarrow> read_end \<Rightarrow> read_event" where
  "plain_read bs e = \<lparr>ev_data = bs, ev_end = e, ev_limit = None, ev_write = None, ev_now = 0, ev_ctx = None\<rparr>"

definition answer_206 :: "(int \<Rightarrow> int \<Rightarrow> read_event list) \<Rightarrow> exchange" where
  "answer_206 body = \<lparr>ex_ctx = None, ex_wait_ctx = None, ex_create = None, ex_do = None, ex_status = 206,
     ex_status_text = ''206 Partial Content'', ex_start = 0, ex_body = body\<rparr>"

definition tiny_piece :: piece where
  "tiny_piece = new_piece 0 0 10 4"

definition tiny_state :: download_state where
  "tiny_state = \<lparr>dl_pm = new_piece_manager [tiny_piece] 10 ''inorder'', dl_file = Map.empty, dl_total = 0\<rparr>"

definition tiny_content :: "int \<Rightarrow> 8 word" where
  "tiny_content x = word_of_int (x * 7 + 1)"

definition tiny_body :: "int \<Rightarrow> int \<Rightarrow> int \<Rightarrow> read_event list" where
  "tiny_body step a b =
     map (\<lambda>i. plain_read (map tiny_content [a + i * step..min (a + (i + 1) * step - 1) b]) MoreData)
       [0..(b - a) div step] @ [plain_read [] EndOfBody]"

definition no_floor :: speed_floor where
  "no_floor = \<lparr>min_speed = 0, min_speed_timeout = 0\<rparr>"

lemma map_upto_nth: "\<forall>j < length (map c [x..y]). map c [x..y] ! j = c (x + int j)"
  by (auto simp: nth_upto)

lemma honest_pieces:
  assumes "0 < step"
  shows "honest tiny_content (a + i * step)
    (map (\<lambda>i. plain_read (map tiny_content [a + i * step..min (a + (i + 1) * step - 1) b]) MoreData) [i..(b - a) div step] @
      [plain_read [] EndOfBody])"
proof (induction "nat ((b - a) div step + 1 - i)" arbitrary: i)
  case 0
  then show ?case by (simp add: plain_read_def)
next
  case (Suc n)
  then have le: "i \<le> (b - a) div step" by simp
  then have "i * step \<le> (b - a) div step * step" using assms by (intro mult_right_mono) simp_all
  then have ib: "i * step \<le> b - a"
    using div_mult_mod_eq [of "b - a" step] pos_mod_sign [OF assms, of "b - a"] by linarith
  have IH: "honest tiny_content (a + (i + 1) * step)
      (map (\<lambda>i. plain_read (map tiny_content [a + i * step..min (a + (i + 1) * step - 1) b]) MoreData)
        [i + 1..(b - a) div step] @ [plain_read [] EndOfBody])"
    using Suc by (intro Suc.hyps(1)) simp
  show ?case
  proof (cases "i = (b - a) div step")
    case True
    then have "[i + 1..(b - a) div step] = []" by simp
    then show ?thesis using le map_upto_nth [of tiny_content "a + i * step" "min (a + (i + 1) * step - 1) b"]
      by (simp add: upto_rec1 plain_read_def del: length_map nth_map)
  next
    case False
    then have "(i + 1) * step \<le> (b - a) div step * step" using le assms by (intro mult_right_mono) simp_all
    then have "(i + 1) * step \<le> b - a"
      using div_mult_mod_eq [of "b - a" step] pos_mod_sign [OF assms, of "b - a"] by linarith
    then have "min (a + (i + 1) * step - 1) b = a + (i + 1) * step - 1" by simp
    moreover have "(i + 1) * step = i * step + step" by (simp add: distrib_right)
    moreover have "int (length (map tiny_content [a + i * step..a + (i + 1) * step - 1])) = step"
      using assms by (simp add: distrib_right)
    ultimately show ?thesis
      using IH le map_upto_nth [of tiny_content "a + i * step" "a + (i + 1) * step - 1"]
      by (simp add: upto_rec1 plain_read_def add.assoc del: length_map nth_map)
  qed
qed

lemma tiny_body_honest: "0 < step \<Longrightarrow> honest_exchange tiny_content (answer_206 (tiny_body step))"
  using honest_pieces [of step _ 0] by (simp add: honest_exchange_def answer_206_def tiny_body_def)

lemma tiny_state_good: "disk_good tiny_content tiny_state"
proof -
  have f: "bm_fits (new_bitfield_man 3 4 10)" by (rule new_bitfield_man_fits) simp_all
  have "p_blocks tiny_piece = new_bitfield_man 3 4 10" by code_simp
  moreover have "bm_total (new_bitfield_man 3 4 10) = 10" "bm_num (new_bitfield_man 3 4 10) = 3"
    "bm_bits (new_bitfield_man 3 4 10) = [0]" by code_simp+
  moreover have "p_length tiny_piece = 10" "p_start tiny_piece = 0" by (simp_all add: tiny_piece_def new_piece_def)
  ultimately show ?thesis using f
    by (auto simp: disk_good_def tiny_state_def new_piece_manager_def piece_good_def piece_wf_def bm_is_bit_set_def byte_index_def)
qed

lemma piece_download_safe_witness:
  "case download_piece_once no_floor 0 9 10 tiny_state [answer_206 (tiny_body 4)] of (s', tot, v) \<Rightarrow>
     v = Return None \<and> tot = 10 \<and> disk_good tiny_content s' \<and> all_complete (dl_pm s')"
proof -
  have v: "case download_piece_once no_floor 0 9 10 tiny_state [answer_206 (tiny_body 4)] of (s', tot, v) \<Rightarrow>
      v = Return None \<and> tot = 10 \<and> all_complete (dl_pm s')" by code_simp
  have l: "length (pm_pieces (dl_pm tiny_state)) = 1" by (simp add: tiny_state_def new_piece_manager_def)
  show ?thesis
    using piece_download_safe [OF tiny_state_good, of 0 "[answer_206 (tiny_body 4)]" no_floor 9 10]
      tiny_body_honest [of 4] v l
    by (cases "download_piece_once no_floor 0 9 10 tiny_state [answer_206 (tiny_body 4)]") auto
qed

section \<open>Lost blocks\<close>

text \<open>Reserved, not complete, and nobody is downloading it.\<close>

definition lost_in :: "piece \<Rightarrow> int \<Rightarrow> bool" where
  "lost_in p j \<longleftrightarrow> 0 \<le> j \<and> j < bm_num (p_blocks p) \<and> bm_is_use_bit_set (p_blocks p) j \<and> \<not> bm_is_bit_set (p_blocks p) j"

lemma lost_cancel: "piece_wf p \<Longrightarrow> lost_in p j \<Longrightarrow> i \<noteq> j \<Longrightarrow> lost_in (cancel_block p i) j"
  by (simp add: lost_in_def cancel_block_def used.mem_del [OF piece_wfD(7)])

lemma lost_complete: "piece_wf p \<Longrightarrow> lost_in p j \<Longrightarrow> i \<noteq> j \<Longrightarrow> lost_in (complete_block p i) j"
  using used.mem_del [OF completed.wf_add [OF piece_wfD(7)]] completed.mem_add [OF piece_wfD(7)]
  by (simp add: lost_in_def complete_block_def Let_def)

lemma lost_use: "piece_wf p \<Longrightarrow> lost_in p j \<Longrightarrow> lost_in (p\<lparr>p_blocks := bm_set_use_bit (p_blocks p) i\<rparr>) j"
  by (simp add: lost_in_def used.mem_add [OF piece_wfD(7)])

lemma lost_incomplete: "piece_wf p \<Longrightarrow> lost_in p j \<Longrightarrow> \<not> is_complete p"
  using bm_all_iff [OF piece_wfD(2)] by (auto simp: lost_in_def is_complete_def)

lemma wf_complete: "piece_wf p \<Longrightarrow> piece_wf (complete_block p i)"
  by (simp add: complete_block_def Let_def piece_wf_def bm_fits_ops)

lemma wf_cancel: "piece_wf p \<Longrightarrow> piece_wf (cancel_block p i)"
  by (simp add: cancel_block_def piece_wf_def bm_fits_ops)

lemma piece_of_wf: "disk_good content s \<Longrightarrow> piece_slot s k \<Longrightarrow> piece_wf (piece_of s k)"
  using disk_good_piece_of [of content s k] by (simp add: piece_good_def piece_slot_def)

lemma lost_cancel_current:
  "disk_good content s \<Longrightarrow> piece_slot s k \<Longrightarrow> lost_in (piece_of s k) j \<Longrightarrow> rd_block r \<noteq> j \<Longrightarrow>
   lost_in (piece_of (cancel_current s k r) k) j"
  using lost_cancel [OF piece_of_wf] by (simp add: cancel_current_def piece_slot_def)

lemma block_advance_lost:
  assumes "piece_wf (piece_of s k)" "piece_slot s k" "lost_in (piece_of s k) j" "rd_block r \<noteq> j"
    "block_advance s k r = (s', r', v)"
  shows "lost_in (piece_of s' k) j \<and> v \<noteq> Return None \<and> (v = GoOn \<longrightarrow> rd_block r' \<noteq> j)"
proof -
  let ?q = "complete_block (piece_of s k) (rd_block r)"
  have w: "piece_wf ?q" and l: "lost_in ?q j" using assms by (simp_all add: wf_complete lost_complete)
  have nc: "\<not> is_complete ?q" using lost_incomplete [OF w l] .
  from w show ?thesis
  proof (cases rule: next_unused_cases)
    case none
    with nc l assms(2,5) show ?thesis by (auto simp: block_advance_def Let_def piece_slot_def)
  next
    case (block i)
    have "i \<noteq> j" using block(4) l by (auto simp: lost_in_def)
    with nc lost_use [OF w l] block(5,6,7) assms(2,5) show ?thesis
      by (auto simp: block_advance_def Let_def piece_slot_def split: if_splits)
  qed
qed

lemma read_step_lost:
  assumes "reader_ok content s k r" "\<forall>j < length (ev_data ev). ev_data ev ! j = content (rd_offset r + int j)"
    "lost_in (piece_of s k) j" "rd_block r \<noteq> j" "read_step fl k s r ev = (s', r', v)"
  shows "lost_in (piece_of s' k) j \<and> v \<noteq> Return None \<and> (v = GoOn \<longrightarrow> rd_block r' \<noteq> j)"
proof -
  have g: "disk_good content s" and k: "piece_slot s k" using assms(1) by (simp_all add: reader_ok_def)
  have fin: "lost_in (piece_of s2 k) j \<and> v2 \<noteq> Return None \<and> (v2 = GoOn \<longrightarrow> rd_block r2 \<noteq> j)"
    if "reader_ok content s1 k r1" "lost_in (piece_of s1 k) j" "rd_block r1 \<noteq> j" "read_finish k s1 r1 ev = (s2, r2, v2)"
    for s1 r1 s2 r2 v2
    using that lost_cancel_current [of content s1 k j r1]
    by (auto simp: read_finish_def reader_ok_def Let_def split: read_end.splits option.splits if_splits)
  show ?thesis
  proof (cases "ev_data ev = []")
    case True
    then have "read_finish k s r ev = (s', r', v)" using assms(5) by (simp add: read_step_def)
    from fin [OF assms(1,3,4) this] show ?thesis .
  next
    case False
    obtain s1 r1 v1 where d: "read_data fl k s r ev = (s1, r1, v1)" by (cases "read_data fl k s r ev") auto
    have same: "piece_of (s\<lparr>dl_file := f, dl_total := t\<rparr>) k = piece_of s k" "piece_of (s\<lparr>dl_file := f\<rparr>) k = piece_of s k"
      for f t by (simp_all add: piece_of_def)
    have slot: "piece_slot (s\<lparr>dl_file := f, dl_total := t\<rparr>) k" "piece_slot (s\<lparr>dl_file := f\<rparr>) k"
      for f t using k by (simp_all add: piece_slot_def)
    have w: "piece_wf (piece_of s k)" using piece_of_wf [OF g k] .
    have cc: "lost_in (piece_of (cancel_current (s\<lparr>dl_file := f, dl_total := t\<rparr>) k r2) k) j"
      "lost_in (piece_of (cancel_current (s\<lparr>dl_file := f\<rparr>) k r2) k) j" "lost_in (piece_of (cancel_current s k r2) k) j"
      if "rd_block r2 = rd_block r" for f t r2
      using lost_cancel [OF w assms(3)] assms(4) that k slot same
      by (simp_all add: cancel_current_def piece_slot_def)
    have one: "lost_in (piece_of s1 k) j \<and> v1 \<noteq> Return None \<and> (v1 = GoOn \<longrightarrow> rd_block r1 \<noteq> j)"
    proof -
      have ba: "lost_in (piece_of s2 k) j \<and> v2 \<noteq> Return None \<and> (v2 = GoOn \<longrightarrow> rd_block r2' \<noteq> j)"
        if "rd_block r2 = rd_block r" "block_advance (s\<lparr>dl_file := f, dl_total := t\<rparr>) k r2 = (s2, r2', v2)" for f t r2 s2 r2' v2
        by (rule block_advance_lost [OF _ slot(1) _ _ that(2)]) (use w assms(3,4) that(1) in \<open>simp_all add: same\<close>)
      let ?n = "int (length (ev_data ev))"
      let ?s1 = "s\<lparr>dl_file := write_at (dl_file s) (rd_offset r) (ev_data ev), dl_total := dl_total s + ?n\<rparr>"
      let ?r1 = "r\<lparr>rd_offset := rd_offset r + ?n, rd_remaining := rd_remaining r - ?n, rd_total := rd_total r + ?n\<rparr>"
      obtain r2 slow where ls: "low_speed_check fl ?r1 ?n (ev_now ev) = (r2, slow)"
        by (cases "low_speed_check fl ?r1 ?n (ev_now ev)")
      have b2: "rd_block r2 = rd_block r" using low_speed_frame [OF ls] by simp
      show ?thesis
      proof (cases "ev_limit ev")
        case (Some e)
        then have "s1 = cancel_current s k r \<and> v1 = Return (Some (Wrapped ''rate limit'' e))"
          using d by (auto simp: read_data_def Let_def)
        then show ?thesis using cc(3) [of r] by simp
      next
        case nolimit: None
        show ?thesis
        proof (cases "ev_write ev")
          case (Some we)
          obtain i e where we: "we = (i, e)" by (cases we)
          have "s1 = cancel_current (s\<lparr>dl_file := write_at (dl_file s) (rd_offset r) (take i (ev_data ev))\<rparr>) k r \<and>
              v1 = Return (Some (Wrapped ''write piece'' e))"
            using d nolimit Some we by (auto simp: read_data_def Let_def)
          then show ?thesis using cc(2) [of r] by simp
        next
          case None
          have rd: "read_data fl k s r ev =
              (if slow then (cancel_current ?s1 k r2, r2, LeaveInner True)
               else if rd_remaining r2 \<le> 0 then block_advance ?s1 k r2 else (?s1, r2, GoOn))"
            unfolding read_data_def Let_def nolimit None ls by simp
          note eq = d [unfolded rd]
          show ?thesis
          proof (cases slow)
            case True
            then have "s1 = cancel_current ?s1 k r2 \<and> v1 = LeaveInner True" using eq by auto
            then show ?thesis using cc(1) [OF b2] by simp
          next
            case fast: False
            show ?thesis
            proof (cases "rd_remaining r2 \<le> 0")
              case True
              then have "block_advance ?s1 k r2 = (s1, r1, v1)" using eq fast by simp
              then show ?thesis by (rule ba [OF b2])
            next
              case False
              then have "s1 = ?s1 \<and> r1 = r2 \<and> v1 = GoOn" using eq fast by auto
              then show ?thesis using assms(3,4) b2 same by simp
            qed
          qed
        qed
      qed
    qed
    show ?thesis
    proof (cases "v1 = GoOn")
      case True
      with assms(5) False d have f: "read_finish k s1 r1 ev = (s', r', v)" by (simp add: read_step_def)
      show ?thesis using read_data_good(3) [OF assms(1) False assms(2) d True] one True by (intro fin [OF _ _ _ f]) simp_all
    next
      case no: False
      with assms(5) False d have "s' = s1 \<and> v = v1" by (cases v1) (auto simp: read_step_def)
      with one no show ?thesis by simp
    qed
  qed
qed

lemma read_loop_lost:
  assumes "reader_ok content s k r" "honest content (rd_offset r) evs" "lost_in (piece_of s k) j" "rd_block r \<noteq> j"
    "read_loop fl k s r evs = (s', r', v)"
  shows "lost_in (piece_of s' k) j \<and> v \<noteq> Return None"
  using assms
proof (induction evs arbitrary: s r)
  case Nil
  then show ?case by auto
next
  case (Cons ev evs)
  obtain s1 r1 v1 where st: "read_step fl k s r ev = (s1, r1, v1)" by (cases "read_step fl k s r ev") auto
  have h: "\<forall>j < length (ev_data ev). ev_data ev ! j = content (rd_offset r + int j)" using Cons.prems(2) by simp
  note g = read_step_good [OF Cons.prems(1) h st] and l = read_step_lost [OF Cons.prems(1) h Cons.prems(3,4) st]
  show ?case
  proof (cases "v1 = GoOn")
    case True
    have "honest content (rd_offset r1) evs" using g True Cons.prems(2) by simp
    with g l True Cons.prems(5) st show ?thesis by (intro Cons.IH [of s1 r1]) simp_all
  next
    case False
    with Cons.prems(5) st l show ?thesis by (cases v1) auto
  qed
qed


lemma send_request_lost:
  assumes "disk_good content s" "piece_slot s k" "honest_exchange content ex"
    "0 \<le> i" "i < bm_num (p_blocks (piece_of s k))" "off = block_start (piece_of s k) i"
    "len = bm_block_length (p_blocks (piece_of s k)) i"
    "lost_in (piece_of s k) j" "i \<noteq> j" "send_request fl k eo fsize s tot ex off len = (s', t', v)"
  shows "lost_in (piece_of s' k) j \<and> v \<noteq> Return None"
proof -
  have w: "piece_wf (piece_of s k)" using piece_of_wf [OF assms(1,2)] .
  note ins = block_inside [OF piece_wfD(1) [OF w] assms(4,5)]
  have idx: "block_index_for_offset (piece_of s k) off = i"
    using offset_block [OF w assms(4,5), of 0] ins assms(6) by (simp add: block_start_def)
  let ?c = "with_piece s k (cancel_block (piece_of s k) i)"
  have c: "lost_in (piece_of ?c k) j"
    using lost_cancel [OF w assms(8,9)] piece_slotD [OF assms(2)] by simp
  show ?thesis
  proof (cases "ex_create ex = None \<and> ex_do ex = None \<and> ex_status ex = 206")
    case False
    then have "s' = ?c \<and> v \<noteq> Return None"
      using assms(10) by (auto simp: send_request_def idx Let_def split: option.splits if_splits)
    with c show ?thesis by simp
  next
    case True
    let ?r = "\<lparr>rd_offset = off, rd_block = i, rd_remaining = len, rd_low_bytes = 0, rd_low_start = ex_start ex, rd_total = tot\<rparr>"
    obtain s1 r1 v1 where l: "read_loop fl k s ?r (ex_body ex off (requested_end off len eo fsize)) = (s1, r1, v1)"
      by (cases "read_loop fl k s ?r (ex_body ex off (requested_end off len eo fsize))") auto
    have "reader_ok content s k ?r"
      using assms ins(4) by (auto simp: reader_ok_def reader_at_def)
    moreover have "honest content (rd_offset ?r) (ex_body ex off (requested_end off len eo fsize))"
      using assms(3) True by (simp add: honest_exchange_def)
    ultimately have "lost_in (piece_of s1 k) j \<and> v1 \<noteq> Return None"
      by (rule read_loop_lost [OF _ _ assms(8) _ l]) (use assms(9) in simp)
    moreover have "s' = s1 \<and> (v = Return None \<longrightarrow> v1 = Return None)" using assms(10) True l
      by (auto simp: send_request_def idx Let_def split: verdict.splits if_splits)
    ultimately show ?thesis by blast
  qed
qed

lemma piece_round_lost:
  assumes "disk_good content s" "piece_slot s k" "honest_exchange content ex" "lost_in (piece_of s k) j"
    "piece_round fl k eo fsize s tot ex = (s', t', v)"
  shows "lost_in (piece_of s' k) j \<and> v \<noteq> Return None"
proof -
  note k = piece_slotD [OF assms(2)]
  have pg: "piece_good content (dl_file s) (piece_of s k)" by (rule disk_good_piece_of [OF assms(1) k])
  then have w: "piece_wf (piece_of s k)" by (simp add: piece_good_def)
  have nc: "\<not> is_complete (piece_of s k)" by (rule lost_incomplete [OF w assms(4)])
  show ?thesis
  proof (cases "ex_ctx ex")
    case (Some e)
    with assms(4,5) show ?thesis by (auto simp: piece_round_def)
  next
    case ctx: None
    from w show ?thesis
    proof (cases rule: next_unused_cases)
      case none
      have same: "with_piece s k (piece_of s k) = s"
        by (simp add: with_piece_def piece_of_def update_piece_def)
      from none nc ctx assms(4,5) show ?thesis by (auto simp: piece_round_def Let_def same split: option.splits)
    next
      case (block i)
      let ?p = "(piece_of s k)\<lparr>p_blocks := bm_set_use_bit (p_blocks (piece_of s k)) i\<rparr>"
      let ?s1 = "with_piece s k ?p"
      have g1: "disk_good content ?s1" using good_next_unused [OF pg] block(5) assms(1)
        by (intro disk_good_with_piece) simp_all
      have k1: "piece_slot ?s1 k" using assms(2) by (simp add: piece_slot_def)
      have p1: "piece_of ?s1 k = ?p" using k by simp
      have ij: "i \<noteq> j" using block(4) assms(4) by (auto simp: lost_in_def)
      have send: "send_request fl k eo fsize ?s1 tot ex (block_start (piece_of s k) i)
          (bm_block_length (p_blocks (piece_of s k)) i) = (s', t', v)"
        using assms(5) ctx nc block(5,7) by (simp add: piece_round_def Let_def)
      show ?thesis
        by (rule send_request_lost [OF g1 k1 assms(3) block(1) _ _ _ _ ij send])
          (use block(2) lost_use [OF w assms(4)] in \<open>simp_all add: p1\<close>)
    qed
  qed
qed

lemma piece_loop_lost:
  assumes "piece_loop fl k eo fsize s t exs = (s', tot, v)" "disk_good content s" "piece_slot s k"
    "\<forall>ex \<in> set exs. honest_exchange content ex" "lost_in (piece_of s k) j"
  shows "lost_in (piece_of s' k) j \<and> v \<noteq> Return None"
  using assms
proof (induction exs arbitrary: s t)
  case Nil
  then show ?case by auto
next
  case (Cons ex exs)
  obtain s1 t1 v1 where r: "piece_round fl k eo fsize s t ex = (s1, t1, v1)"
    by (cases "piece_round fl k eo fsize s t ex") auto
  have h: "honest_exchange content ex" using Cons.prems(4) by simp
  note g = piece_round_good [OF Cons.prems(2,3) h r] and l = piece_round_lost [OF Cons.prems(2,3) h Cons.prems(5) r]
  with Cons.IH [of s1 t1] Cons.prems r show ?case by (cases v1) auto
qed

text \<open>
  A read that crosses the end of a block makes the piece undownloadable. The loop completes the block and
  reserves the next free one, finds that its start is not the current position, and drops the
  connection without giving the reservation back. From then on no number of exchanges of any
  attempt, with the best of servers, completes the piece.
\<close>
theorem straddling_read_never_finishes:
  assumes ok: "reader_ok content s k r"
    and data: "\<forall>j < length (ev_data ev). ev_data ev ! j = content (rd_offset r + int j)"
    and cross: "rd_remaining r < int (length (ev_data ev))"
    and clean: "ev_limit ev = None" "ev_write ev = None" "min_speed fl \<le> 0"
    and next_block: "next_unused_block (complete_block (piece_of s k) (rd_block r)) = (p2, off, len)"
      "0 \<le> off" "off \<noteq> rd_offset r + int (length (ev_data ev))"
    and later: "\<forall>ex \<in> set exs. honest_exchange content ex"
  shows "\<exists>s1 r1. read_step fl k s r ev = (s1, r1, LeaveInner False) \<and>
    (\<exists>j. lost_in (piece_of s1 k) j) \<and>
    snd (snd (download_piece_once fl k end_offset fsize s1 exs)) \<noteq> Return None"
proof -
  let ?n = "int (length (ev_data ev))"
  let ?s1 = "s\<lparr>dl_file := write_at (dl_file s) (rd_offset r) (ev_data ev), dl_total := dl_total s + ?n\<rparr>"
  let ?r1 = "r\<lparr>rd_offset := rd_offset r + ?n, rd_remaining := rd_remaining r - ?n, rd_total := rd_total r + ?n\<rparr>"
  let ?q = "complete_block (piece_of s k) (rd_block r)"
  have g: "disk_good content s" and k: "piece_slot s k" using ok by (simp_all add: reader_ok_def)
  have ne: "ev_data ev \<noteq> []" using cross ok by (auto simp: reader_ok_def)
  have w: "piece_wf ?q" using piece_of_wf [OF g k] by (rule wf_complete)
  obtain i where i: "0 \<le> i" "i < bm_num (p_blocks ?q)" "\<not> bm_is_bit_set (p_blocks ?q) i" "off = block_start ?q i"
    "p2 = ?q\<lparr>p_blocks := bm_set_use_bit (p_blocks ?q) i\<rparr>"
    using w
  proof (cases rule: next_unused_cases)
    case none
    with next_block(1,2) show ?thesis by simp
  next
    case (block i)
    with next_block(1) show ?thesis by (intro that [of i]) simp_all
  qed
  have nc: "\<not> is_complete ?q"
    using bm_all_iff [OF piece_wfD(2) [OF w]] i(1-3) by (auto simp: is_complete_def)
  have po: "piece_of ?s1 k = piece_of s k" by (simp add: piece_of_def)
  have step: "read_step fl k s r ev = (with_piece ?s1 k p2, ?r1, LeaveInner False)"
    using ne clean cross next_block nc
    by (simp add: read_step_def read_data_def low_speed_check_def block_advance_def po Let_def)
  have good: "disk_good content (with_piece ?s1 k p2)" "piece_slot (with_piece ?s1 k p2) k"
    using read_step_good [OF ok data step] by simp_all
  have "lost_in p2 i" using i used.mem_add [OF piece_wfD(7) [OF w]] by (simp add: lost_in_def)
  then have lost: "lost_in (piece_of (with_piece ?s1 k p2) k) i" using k by (simp add: piece_slot_def)
  obtain s2 t2 v2 where run: "piece_loop fl k end_offset fsize (with_piece ?s1 k p2) 0 exs = (s2, t2, v2)"
    by (cases "piece_loop fl k end_offset fsize (with_piece ?s1 k p2) 0 exs") auto
  from piece_loop_lost [OF run good later lost] step lost run show ?thesis
    by (auto simp: download_piece_once_def)
qed

definition tiny_start :: reader where
  "tiny_start = \<lparr>rd_offset = 0, rd_block = 0, rd_remaining = 4, rd_low_bytes = 0, rd_low_start = 0, rd_total = 0\<rparr>"

definition tiny_claimed :: download_state where
  "tiny_claimed = with_piece tiny_state 0 (fst (next_unused_block tiny_piece))"

lemma tiny_claimed_ok: "reader_ok tiny_content tiny_claimed 0 tiny_start"
proof -
  have k: "piece_slot tiny_state 0" by (simp add: piece_slot_def tiny_state_def new_piece_manager_def)
  have p: "piece_of tiny_state 0 = tiny_piece" by (simp add: piece_of_def tiny_state_def new_piece_manager_def)
  have "piece_good tiny_content (dl_file tiny_state) tiny_piece"
    using disk_good_piece_of [OF tiny_state_good, of 0] k p by (simp add: piece_slot_def)
  then have "disk_good tiny_content tiny_claimed"
    unfolding tiny_claimed_def by (intro disk_good_with_piece tiny_state_good good_next_unused)
  moreover have "piece_slot tiny_claimed 0" using k by (simp add: tiny_claimed_def piece_slot_def)
  moreover have q: "piece_of tiny_claimed 0 = fst (next_unused_block tiny_piece)"
    using k by (simp add: tiny_claimed_def piece_slot_def)
  moreover have "bm_num (p_blocks (fst (next_unused_block tiny_piece))) = 3"
    "block_start (fst (next_unused_block tiny_piece)) 0 = 0"
    "bm_block_length (p_blocks (fst (next_unused_block tiny_piece))) 0 = 4" by code_simp+
  ultimately show ?thesis by (auto simp: reader_ok_def reader_at_def tiny_start_def)
qed

lemma straddling_read_never_finishes_witness:
  "\<exists>s1 r1. read_step no_floor 0 tiny_claimed tiny_start (plain_read (map tiny_content [0..4]) MoreData) = (s1, r1, LeaveInner False) \<and>
     snd (snd (download_piece_once no_floor 0 9 10 s1 (replicate 7 (answer_206 (tiny_body 4))))) \<noteq> Return None"
proof -
  let ?ev = "plain_read (map tiny_content [0..4]) MoreData"
  have n: "snd (next_unused_block (complete_block (piece_of tiny_claimed 0) (rd_block tiny_start))) = (4, 4)" by code_simp
  then obtain p2 where n2: "next_unused_block (complete_block (piece_of tiny_claimed 0) (rd_block tiny_start)) = (p2, 4, 4)"
    by (cases "next_unused_block (complete_block (piece_of tiny_claimed 0) (rd_block tiny_start))") auto
  have d: "\<forall>j < length (ev_data ?ev). ev_data ?ev ! j = tiny_content (rd_offset tiny_start + int j)"
    using map_upto_nth [of tiny_content 0 4] by (simp add: plain_read_def tiny_start_def del: length_map nth_map)
  have l: "int (length (ev_data ?ev)) = 5" "rd_remaining tiny_start = 4" "rd_offset tiny_start = 0"
    by (simp_all add: plain_read_def tiny_start_def)
  have c: "ev_limit ?ev = None" "ev_write ?ev = None" "min_speed no_floor \<le> 0" by (simp_all add: plain_read_def no_floor_def)
  have h: "\<forall>ex \<in> set (replicate 7 (answer_206 (tiny_body 4))). honest_exchange tiny_content ex"
    using tiny_body_honest [of 4] by simp
  show ?thesis
    using straddling_read_never_finishes [OF tiny_claimed_ok d _ c n2 _ _ h, of 9 10] l by auto
qed

text \<open>
  A body that ends early has the same effect: the attempt fails with a short read but keeps its block
  reserved, and no later attempt at the piece ever completes it.
\<close>
theorem short_read_never_finishes:
  assumes "reader_ok content s k r" "ev_data ev = []" "ev_end ev = EndOfBody"
    "bm_is_use_bit_set (p_blocks (piece_of s k)) (rd_block r)" "\<not> bm_is_bit_set (p_blocks (piece_of s k)) (rd_block r)"
    "\<forall>ex \<in> set exs. honest_exchange content ex"
  shows "read_step fl k s r ev = (s, r, Return (Some (err_short_read (rd_block r) (rd_remaining r)))) \<and>
    snd (snd (download_piece_once fl k end_offset fsize s exs)) \<noteq> Return None"
proof -
  have g: "disk_good content s" "piece_slot s k" and r: "0 < rd_remaining r" "reader_at content (dl_file s) (piece_of s k) r"
    using assms(1) by (simp_all add: reader_ok_def)
  have l: "lost_in (piece_of s k) (rd_block r)" using assms(4,5) r(2) by (simp add: lost_in_def reader_at_def)
  obtain s2 t2 v2 where run: "piece_loop fl k end_offset fsize s 0 exs = (s2, t2, v2)"
    by (cases "piece_loop fl k end_offset fsize s 0 exs") auto
  from piece_loop_lost [OF run g assms(6) l] run assms(2,3) r(1) show ?thesis
    by (simp add: download_piece_once_def read_step_def read_finish_def)
qed

lemma short_read_never_finishes_witness:
  "snd (snd (download_piece_once no_floor 0 9 10 tiny_claimed (replicate 5 (answer_206 (tiny_body 4))))) \<noteq> Return None"
proof -
  have h: "\<forall>ex \<in> set (replicate 5 (answer_206 (tiny_body 4))). honest_exchange tiny_content ex"
    using tiny_body_honest [of 4] by simp
  have u: "bm_is_use_bit_set (p_blocks (piece_of tiny_claimed 0)) (rd_block tiny_start)"
    "\<not> bm_is_bit_set (p_blocks (piece_of tiny_claimed 0)) (rd_block tiny_start)" by code_simp+
  have e: "ev_data (plain_read [] EndOfBody) = []" "ev_end (plain_read [] EndOfBody) = EndOfBody"
    by (simp_all add: plain_read_def)
  show ?thesis using short_read_never_finishes [OF tiny_claimed_ok e u h] by blast
qed


section \<open>Stolen ranges\<close>

lemma block_start_complete [simp]: "block_start (complete_block p i) j = block_start p j"
  by (simp add: block_start_def)

lemma block_on_disk_complete [simp]: "block_on_disk content f (complete_block p i) j = block_on_disk content f p j"
proof -
  have "bm_block_length (p_blocks (complete_block p i)) j = bm_block_length (p_blocks p) j"
    by (simp add: bm_block_length_def Let_def)
  then show ?thesis by (simp add: block_on_disk_def)
qed

lemma mark_fold_good:
  "piece_good content f p \<Longrightarrow> \<forall>i \<in> set is. 0 \<le> i \<and> i < bm_num (p_blocks p) \<longrightarrow> block_on_disk content f p i \<Longrightarrow>
   piece_good content f (foldl complete_block p is)"
  by (induction "is" arbitrary: p) (simp_all add: good_complete)

lemma mark_fold_set:
  "piece_wf p \<Longrightarrow> bm_num (p_blocks (foldl complete_block p is)) = bm_num (p_blocks p) \<and>
   piece_wf (foldl complete_block p is) \<and>
   (bm_is_bit_set (p_blocks (foldl complete_block p is)) j \<longleftrightarrow>
     bm_is_bit_set (p_blocks p) j \<or> (j \<in> set is \<and> 0 \<le> j \<and> j < bm_num (p_blocks p)))"
proof (induction "is" arbitrary: p)
  case Nil
  then show ?case by simp
next
  case (Cons i "is")
  have "bm_is_bit_set (p_blocks (complete_block p i)) j \<longleftrightarrow>
      bm_is_bit_set (p_blocks p) j \<or> (j = i \<and> 0 \<le> i \<and> i < bm_num (p_blocks p))"
    using completed.mem_add [OF piece_wfD(7) [OF Cons.prems]] by (simp add: complete_block_def Let_def)
  with Cons.IH [OF wf_complete [OF Cons.prems]] show ?case by auto
qed

text \<open>The blocks between two block borders lie inside the bytes read.\<close>

lemma blocks_between:
  assumes "piece_wf p" "0 \<le> i0" "i0 \<le> i" "i \<le> il" "il < bm_num (p_blocks p)"
  shows "block_start p i0 \<le> block_start p i"
    "block_start p i + bm_block_length (p_blocks p) i \<le> block_start p il + bm_block_length (p_blocks p) il"
proof -
  note f = piece_wfD(1) [OF assms(1)] and l = piece_wfD(3) [OF assms(1)]
  show "block_start p i0 \<le> block_start p i"
    using l assms(3) by (simp add: block_start_def mult_right_mono)
  have e: "i * bm_block (p_blocks p) + bm_block_length (p_blocks p) i = min ((i + 1) * bm_block (p_blocks p)) (bm_total (p_blocks p))"
    "il * bm_block (p_blocks p) + bm_block_length (p_blocks p) il = min ((il + 1) * bm_block (p_blocks p)) (bm_total (p_blocks p))"
    using assms by (intro block_end f; simp)+
  have "(i + 1) * bm_block (p_blocks p) \<le> (il + 1) * bm_block (p_blocks p)"
    using l assms(4) by (intro mult_right_mono) simp_all
  with e show "block_start p i + bm_block_length (p_blocks p) i \<le> block_start p il + bm_block_length (p_blocks p) il"
    by (simp add: block_start_def)
qed

text \<open>What one read of the range loop leads to.\<close>

lemma range_loop_step:
  assumes "range_loop k start s off (ev # evs) = (s', off', r)"
  shows "let n = int (length (ev_data ev));
      s1 = s\<lparr>dl_file := write_at (dl_file s) off (ev_data ev), dl_total := dl_total s + n\<rparr> in
    (s' = s \<or> (\<exists>j. s' = s\<lparr>dl_file := write_at (dl_file s) off (take j (ev_data ev))\<rparr>)) \<or>
    (ev_end ev = MoreData \<and> range_loop k start s1 (off + n) evs = (s', off', r)) \<or>
    (\<exists>e. range_finish k start s1 (off + n) = (s', e) \<and> off' = off + n) \<or> s' = s1"
proof (cases "ev_data ev \<noteq> [] \<and> ev_limit ev \<noteq> None")
  case True
  with assms show ?thesis by (simp add: Let_def)
next
  case lim: False
  show ?thesis
  proof (cases "ev_data ev \<noteq> [] \<and> ev_write ev \<noteq> None")
    case True
    then obtain j e where "ev_write ev = Some (j, e)" by auto
    with True lim assms have "s' = s\<lparr>dl_file := write_at (dl_file s) off (take j (ev_data ev))\<rparr>" by auto
    then show ?thesis by (auto simp: Let_def)
  next
    case False
    let ?s1 = "s\<lparr>dl_file := write_at (dl_file s) off (ev_data ev), dl_total := dl_total s + int (length (ev_data ev))\<rparr>"
    have run: "range_loop k start s off (ev # evs) =
      (case ev_end ev of
          MoreData \<Rightarrow> range_loop k start ?s1 (off + int (length (ev_data ev))) evs
        | EndOfBody \<Rightarrow> (case range_finish k start ?s1 (off + int (length (ev_data ev))) of
              (s2, e) \<Rightarrow> (s2, off + int (length (ev_data ev)), Some e))
        | ReadError e \<Rightarrow> (case ev_ctx ev of
              Some ce \<Rightarrow> (?s1, off + int (length (ev_data ev)), Some (Some ce))
            | None \<Rightarrow> (?s1, off + int (length (ev_data ev)), Some (Some (Wrapped ''read range'' e)))))"
      using lim False by (simp only: range_loop.simps Let_def if_False)
    show ?thesis
    proof (cases "ev_end ev")
      case MoreData
      with assms run show ?thesis by (simp add: Let_def)
    next
      case EndOfBody
      obtain s2 e where "range_finish k start ?s1 (off + int (length (ev_data ev))) = (s2, e)"
        by (cases "range_finish k start ?s1 (off + int (length (ev_data ev)))")
      with EndOfBody assms run show ?thesis by (simp add: Let_def)
    next
      case (ReadError e)
      then have "s' = ?s1" using assms run by (cases "ev_ctx ev") simp_all
      then show ?thesis by (simp add: Let_def)
    qed
  qed
qed

lemma range_loop_good:
  assumes "range_loop k start s off evs = (s', off', r)" "disk_good content s" "piece_slot s k" "honest content off evs"
    "\<forall>x. start \<le> x \<and> x < off \<longrightarrow> dl_file s x = Some (content x)" "start \<le> off"
    "start = block_start (piece_of s k) i0" "0 \<le> i0" "i0 < bm_num (p_blocks (piece_of s k))"
    "off' = start \<or> (\<exists>il. i0 \<le> il \<and> il < bm_num (p_blocks (piece_of s k)) \<and>
       off' = block_start (piece_of s k) il + bm_block_length (p_blocks (piece_of s k)) il)"
  shows "disk_good content s'"
  using assms
proof (induction evs arbitrary: s off)
  case Nil
  then show ?case by simp
next
  case (Cons ev evs)
  let ?n = "int (length (ev_data ev))"
  let ?s1 = "s\<lparr>dl_file := write_at (dl_file s) off (ev_data ev), dl_total := dl_total s + ?n\<rparr>"
  let ?p = "piece_of s k"
  note k = piece_slotD [OF Cons.prems(3)]
  have h: "\<forall>j < length (ev_data ev). ev_data ev ! j = content (off + int j)" using Cons.prems(4) by simp
  have kg: "keeps_good content (dl_file s) (dl_file ?s1)" using write_at_keeps [OF h] by simp
  have g1: "disk_good content ?s1" using kg by (intro disk_good_file Cons.prems(2)) simp
  have k1: "piece_slot ?s1 k" using Cons.prems(3) by (simp add: piece_slot_def)
  have p1: "piece_of ?s1 k = ?p" by (simp add: piece_of_def)
  have bytes: "dl_file ?s1 x = Some (content x)" if "start \<le> x" "x < off + ?n" for x
  proof (cases "x < off")
    case True
    then show ?thesis using Cons.prems(5) kg that(1) by (auto simp: keeps_good_def)
  next
    case False
    then show ?thesis using write_at_written [OF h] that(2) by simp
  qed
  consider (stop) "s' = s \<or> (\<exists>j. s' = s\<lparr>dl_file := write_at (dl_file s) off (take j (ev_data ev))\<rparr>)"
    | (more) "ev_end ev = MoreData" "range_loop k start ?s1 (off + ?n) evs = (s', off', r)"
    | (eof) e where "range_finish k start ?s1 (off + ?n) = (s', e)" "off' = off + ?n"
    | (err) "s' = ?s1"
    using range_loop_step [OF Cons.prems(1), unfolded Let_def] by blast
  then show ?case
  proof cases
    case stop
    then show ?thesis
    proof (elim disjE exE)
      fix j
      assume "s' = s\<lparr>dl_file := write_at (dl_file s) off (take j (ev_data ev))\<rparr>"
      moreover have "keeps_good content (dl_file s) (write_at (dl_file s) off (take j (ev_data ev)))"
        using h by (intro write_at_keeps) simp
      ultimately show ?thesis using disk_good_file [OF Cons.prems(2), of _ "dl_total s"] by simp
    qed (use Cons.prems(2) in simp)
  next
    case more
    show ?thesis
      by (rule Cons.IH [OF more(2) g1 k1]) (use Cons.prems(4,6-10) bytes p1 in simp_all)
  next
    case err
    with g1 show ?thesis by simp
  next
    case eof
    show ?thesis
    proof (cases "off' = start")
      case True
      then have "s' = ?s1 \<or> s' = finish_piece ?s1 k"
        using eof by (auto simp: range_finish_def Let_def split: if_splits)
      with g1 disk_good_finish [OF g1] show ?thesis by auto
    next
      case False
      then obtain il where il: "i0 \<le> il" "il < bm_num (p_blocks ?p)"
        "off' = block_start ?p il + bm_block_length (p_blocks ?p) il" using Cons.prems(10) by blast
      have pg: "piece_good content (dl_file ?s1) ?p" using disk_good_piece_of [OF g1, of k] k p1 by simp
      then have w: "piece_wf ?p" by (simp add: piece_good_def)
      have il0: "0 \<le> il" using il Cons.prems(8) by simp
      note insl = block_inside [OF piece_wfD(1) [OF w] il0 il(2)]
      note ins0 = block_inside [OF piece_wfD(1) [OF w] Cons.prems(8,9)]
      have last: "block_index_for_offset ?p (off' - 1) = il"
        using offset_block [OF w il0 il(2), of "bm_block_length (p_blocks ?p) il - 1"] insl il(3)
        by (simp add: block_start_def algebra_simps)
      have first: "block_index_for_offset ?p start = i0"
        using offset_block [OF w Cons.prems(8,9), of 0] ins0 Cons.prems(7) by (simp add: block_start_def)
      have "\<forall>i \<in> set [i0..il]. 0 \<le> i \<and> i < bm_num (p_blocks ?p) \<longrightarrow> block_on_disk content (dl_file ?s1) ?p i"
      proof (intro ballI impI)
        fix i
        assume "i \<in> set [i0..il]"
        then have i: "i0 \<le> i" "i \<le> il" by simp_all
        note bb = blocks_between [OF w Cons.prems(8) i il(2)]
        show "block_on_disk content (dl_file ?s1) ?p i"
          unfolding block_on_disk_def using bytes bb il(3) eof(2) Cons.prems(7) by auto
      qed
      then have m: "piece_good content (dl_file ?s1) (mark_range ?p start (off' - 1))"
        unfolding mark_range_def first last by (rule mark_fold_good [OF pg])
      have "start \<le> off' - 1" using blocks_between(1) [OF w Cons.prems(8) il(1) order_refl il(2)] insl(4) il(3) Cons.prems(7) by simp
      then have "s' = with_piece ?s1 k (mark_range ?p start (off' - 1)) \<or>
          s' = finish_piece (with_piece ?s1 k (mark_range ?p start (off' - 1))) k"
        using eof p1 by (auto simp: range_finish_def Let_def split: if_splits)
      moreover have "disk_good content (with_piece ?s1 k (mark_range ?p start (off' - 1)))"
        using m by (intro disk_good_with_piece g1) simp
      ultimately show ?thesis using disk_good_finish by auto
    qed
  qed
qed

text \<open>
  A stolen range is recorded correctly when its body ends on a block border: every block marked
  complete has its bytes on disk, whatever error ended the attempt otherwise.
\<close>
theorem range_download_safe:
  assumes "disk_good content s" "piece_slot s k" "honest_exchange content ex"
    "0 \<le> i0" "i0 < bm_num (p_blocks (piece_of s k))"
    "download_range_once k (block_start (piece_of s k) i0) end_offset s ex = (s', off', r)"
    "off' = block_start (piece_of s k) i0 \<or>
       (\<exists>il. i0 \<le> il \<and> il < bm_num (p_blocks (piece_of s k)) \<and>
          off' = block_start (piece_of s k) il + bm_block_length (p_blocks (piece_of s k)) il)"
  shows "disk_good content s'"
proof (cases "ex_create ex = None \<and> ex_do ex = None \<and> ex_status ex = 206")
  case True
  then have "range_loop k (block_start (piece_of s k) i0) s (block_start (piece_of s k) i0)
      (ex_body ex (block_start (piece_of s k) i0) end_offset) = (s', off', r)"
    using assms(6) by (simp add: download_range_once_def)
  moreover have "\<forall>x. block_start (piece_of s k) i0 \<le> x \<and> x < block_start (piece_of s k) i0 \<longrightarrow> dl_file s x = Some (content x)"
    by auto
  moreover have "honest content (block_start (piece_of s k) i0) (ex_body ex (block_start (piece_of s k) i0) end_offset)"
    using assms(3) True by (simp add: honest_exchange_def)
  ultimately show ?thesis by (intro range_loop_good [OF _ assms(1,2) _ _ order_refl refl assms(4,5,7)])
next
  case False
  then have "s' = s" using assms(6) by (auto simp: download_range_once_def split: option.splits if_splits)
  with assms(1) show ?thesis by simp
qed

lemma range_download_safe_witness:
  "case download_range_once 0 4 9 tiny_state (answer_206 (tiny_body 3)) of (s', off', r) \<Rightarrow>
     off' = 10 \<and> disk_good tiny_content s'"
proof -
  have k: "piece_slot tiny_state 0" by (simp add: piece_slot_def tiny_state_def new_piece_manager_def)
  have v: "bm_num (p_blocks (piece_of tiny_state 0)) = 3" "block_start (piece_of tiny_state 0) 1 = 4"
    "block_start (piece_of tiny_state 0) 2 = 8" "bm_block_length (p_blocks (piece_of tiny_state 0)) 2 = 2"
    by code_simp+
  have o: "fst (snd (download_range_once 0 4 9 tiny_state (answer_206 (tiny_body 3)))) = 10" by code_simp
  obtain s' r where d: "download_range_once 0 4 9 tiny_state (answer_206 (tiny_body 3)) = (s', 10, r)"
    using o by (cases "download_range_once 0 4 9 tiny_state (answer_206 (tiny_body 3))") auto
  have "\<exists>il. 1 \<le> il \<and> il < bm_num (p_blocks (piece_of tiny_state 0)) \<and>
      10 = block_start (piece_of tiny_state 0) il + bm_block_length (p_blocks (piece_of tiny_state 0)) il"
    by (rule exI [of _ 2]) (simp add: v)
  with range_download_safe [OF tiny_state_good k tiny_body_honest [of 3], of 1 9 s' 10 r] d v
  show ?thesis by simp
qed

text \<open>
  When the body of a stolen range stops in the middle of a block, that block is marked complete although
  its last bytes were never written; if it was the last one missing, the attempt even reports
  success and the piece counts as downloaded.
\<close>
theorem range_eof_marks_partial:
  assumes w: "piece_wf (piece_of s k)" and k: "piece_slot s k"
    and i: "0 \<le> i" "i < bm_num (p_blocks (piece_of s k))" and st: "start = block_start (piece_of s k) i"
    and m: "ev_data ev \<noteq> []" "int (length (ev_data ev)) < bm_block_length (p_blocks (piece_of s k)) i"
    and ev: "ev_limit ev = None" "ev_write ev = None" "ev_end ev = EndOfBody"
    and hole: "dl_file s (start + int (length (ev_data ev))) = None"
    and ex: "ex_create ex = None" "ex_do ex = None" "ex_status ex = 206" "ex_body ex start end_offset = [ev]"
  shows "\<exists>s' off r. download_range_once k start end_offset s ex = (s', off, Some r) \<and>
    bm_is_bit_set (p_blocks (piece_of s' k)) i \<and> dl_file s' (start + int (length (ev_data ev))) = None \<and>
    ((\<forall>j. 0 \<le> j \<and> j < bm_num (p_blocks (piece_of s k)) \<and> j \<noteq> i \<longrightarrow> bm_is_bit_set (p_blocks (piece_of s k)) j) \<longrightarrow>
       r = None)"
proof -
  let ?n = "int (length (ev_data ev))" and ?p = "piece_of s k"
  let ?s1 = "s\<lparr>dl_file := write_at (dl_file s) start (ev_data ev), dl_total := dl_total s + ?n\<rparr>"
  have n: "0 < ?n" using m(1) by simp
  note ins = block_inside [OF piece_wfD(1) [OF w] i]
  have p1: "piece_of ?s1 k = ?p" by (simp add: piece_of_def)
  have first: "block_index_for_offset ?p start = i"
    using offset_block [OF w i, of 0] ins st by (simp add: block_start_def)
  have final: "block_index_for_offset ?p (start + ?n - 1) = i"
    using offset_block [OF w i, of "?n - 1"] n m(2) st by (simp add: block_start_def algebra_simps)
  let ?q = "complete_block ?p i"
  have mark: "mark_range ?p start (start + ?n - 1) = ?q" by (simp add: mark_range_def first final)
  let ?s2 = "with_piece ?s1 k ?q"
  have p2: "piece_of ?s2 k = ?q" using k by (simp add: piece_slot_def)
  have bit: "bm_is_bit_set (p_blocks ?q) j \<longleftrightarrow> bm_is_bit_set (p_blocks ?p) j \<or> j = i" for j
    using mark_fold_set [OF w, of "[i]" j] i by auto
  have hole2: "dl_file ?s2 (start + ?n) = None" using hole by (simp add: write_at_def)
  have run: "download_range_once k start end_offset s ex =
      (case range_finish k start ?s1 (start + ?n) of (s2, e) \<Rightarrow> (s2, start + ?n, Some e))"
    using ex ev by (simp add: download_range_once_def Let_def)
  show ?thesis
  proof (cases "is_complete ?q")
    case True
    have "p_blocks (piece_of (finish_piece ?s2 k) k) = p_blocks ?q"
      using k p2 by (auto simp: finish_piece_def complete_piece_def update_piece_def piece_of_def piece_slot_def
          set_piece_status_def nat_less_iff nth_list_update)
    with True n show ?thesis using run p1 p2 mark bit hole2 by (simp add: range_finish_def Let_def)
  next
    case False
    have "\<not> (\<forall>j. 0 \<le> j \<and> j < bm_num (p_blocks ?p) \<and> j \<noteq> i \<longrightarrow> bm_is_bit_set (p_blocks ?p) j)"
      using False bm_all_iff [OF piece_wfD(2) [OF wf_complete [OF w]], of i] bit by (auto simp: is_complete_def)
    with False n show ?thesis using run p1 p2 mark bit hole2 by (simp add: range_finish_def Let_def)
  qed
qed

lemma range_eof_marks_partial_witness:
  "\<exists>s' off r. download_range_once 0 8 9 tiny_state (answer_206 (\<lambda>a b. [plain_read [57] EndOfBody])) = (s', off, Some r) \<and>
     bm_is_bit_set (p_blocks (piece_of s' 0)) 2 \<and> dl_file s' 9 = None"
proof -
  have k: "piece_slot tiny_state 0" by (simp add: piece_slot_def tiny_state_def new_piece_manager_def)
  have w: "piece_wf (piece_of tiny_state 0)" by (rule piece_of_wf [OF tiny_state_good k])
  have v: "bm_num (p_blocks (piece_of tiny_state 0)) = 3" "block_start (piece_of tiny_state 0) 2 = 8"
    "bm_block_length (p_blocks (piece_of tiny_state 0)) 2 = 2" by code_simp+
  let ?ev = "plain_read [57] EndOfBody" and ?ex = "answer_206 (\<lambda>a b. [plain_read [57] EndOfBody])"
  have e: "ev_data ?ev \<noteq> []" "int (length (ev_data ?ev)) = 1" "ev_limit ?ev = None" "ev_write ?ev = None"
    "ev_end ?ev = EndOfBody" by (simp_all add: plain_read_def)
  have x: "ex_create ?ex = None" "ex_do ?ex = None" "ex_status ?ex = 206" "ex_body ?ex 8 9 = [?ev]"
    by (simp_all add: answer_206_def)
  have f: "dl_file tiny_state (8 + 1) = None" by (simp add: tiny_state_def)
  show ?thesis
    using range_eof_marks_partial [OF w k _ _ _ e(1) _ e(3-5) _ x, of 2] e(2) f by (fastforce simp: v)
qed

section \<open>Sources and retries\<close>

text \<open>
  The failures these loops are written to retry are not retried: an error without a retryable mark, an
  HTTP error or a network error in it, and without a timeout in its text, counts as permanent, so
  the source is given up after a single attempt. The low-speed and short-read errors and an
  answer of 503 are of this kind.
\<close>
theorem plain_failures_not_retried:
  assumes "try_source env u s = (s', Some (Plain t))" "source_ctx env s' = None"
    "\<not> contains (to_lower t) ''timeout''" "\<not> contains (to_lower t) ''context deadline exceeded''"
  shows "source_loop env u (Suc n) False backoff prev s = (s', Exhausted backoff (Some (Plain t)))"
proof -
  have "is_permanent_error (Plain t)"
    using assms(3,4) by (simp add: is_permanent_error_def is_retryable_error.simps Let_def)
  with assms(1,2) show ?thesis by simp
qed

definition slow_env :: "nat source_env" where
  "slow_env = \<lparr>try_source = (\<lambda>u c. (Suc c, Some err_low_speed)), source_ctx = (\<lambda>c. None), source_wait = (\<lambda>d c. (c, None))\<rparr>"

lemma plain_failures_not_retried_witness:
  "source_loop slow_env ''http://a/'' 4 False 1000000000 None 0 = (1, Exhausted 1000000000 (Some err_low_speed))"
proof -
  let ?t = "''low speed detected, connection closed for retry''"
  have t: "try_source slow_env ''http://a/'' 0 = (1, Some (Plain ?t))" "source_ctx slow_env 1 = None"
    by (simp_all add: slow_env_def err_low_speed_def)
  have c: "\<not> contains (to_lower ?t) ''timeout''" "\<not> contains (to_lower ?t) ''context deadline exceeded''" by code_simp+
  show ?thesis
    using plain_failures_not_retried [OF t c, of 3 1000000000 None] by (simp add: err_low_speed_def numeral_eq_Suc)
qed

lemma grow_backoff_le: "grow_backoff b \<le> 30000000000"
  by (simp add: grow_backoff_def Let_def)

lemma source_loop_backoff:
  "source_loop env u n again b prev s = (s', Exhausted b' l) \<Longrightarrow> b \<le> 30000000000 \<Longrightarrow> b' \<le> 30000000000"
  by (induction env u n again b prev s rule: source_loop.induct)
    (auto simp: grow_backoff_le Let_def split: prod.splits option.splits if_splits)

lemma source_loop_finished:
  "source_loop env u n again b prev s = (s', Finished None) \<Longrightarrow> \<exists>t. try_source env u t = (s', None)"
  by (induction env u n again b prev s rule: source_loop.induct)
    (auto simp: Let_def split: prod.splits option.splits if_splits)

text \<open>
  A download from several sources reports success only when an attempt at one of them succeeded, and in
  the state that attempt left.
\<close>
theorem download_piece_result:
  assumes "download_piece env retries urls s = (s', None)"
  shows "\<exists>u \<in> set urls. \<exists>t. try_source env u t = (s', None)"
proof -
  have "\<exists>u \<in> set urls. \<exists>t. try_source env u t = (s', None)"
    if "sources_loop env what retries urls b prev s = (s', None)" for what b prev s
    using that
    by (induction env what retries urls b prev s rule: sources_loop.induct)
      (auto split: prod.splits source_result.splits intro: source_loop_finished)
  then show ?thesis using assms by (simp add: download_piece_def)
qed

lemma download_piece_result_witness:
  "\<exists>u \<in> set [''a'', ''b'']. \<exists>t. try_source (slow_env\<lparr>try_source := (\<lambda>u c. if u = ''b'' then (Suc c, None) else (Suc c, Some err_low_speed))\<rparr>) u t = (2, None)"
proof (rule download_piece_result)
  show "download_piece (slow_env\<lparr>try_source := (\<lambda>u c. if u = ''b'' then (Suc c, None) else (Suc c, Some err_low_speed))\<rparr>) 3 [''a'', ''b''] 0 = (2, None)"
    by code_simp
qed

end
