(* ===== verification/RateLimiter.thy ===== *)
theory RateLimiter
  imports GoString GoFloat
begin

text \<open>
  The token bucket of \<open>internal/downloader/ratelimit.go\<close>, its blocking \<open>Wait\<close>, and the global limiter with
  its per-task buckets and daily schedule. Clock readings, other users of the bucket and the end of
  the context are the script a waiting call runs against.
\<close>

section \<open>Token bucket\<close>

record rate_limiter =
  rl_rate :: int
  rl_burst :: int
  rl_tokens :: int
  rl_last :: instant

definition new_rate_limiter :: "int \<Rightarrow> int \<Rightarrow> instant \<Rightarrow> rate_limiter" where
  "new_rate_limiter rate burst now =
     (let b = (if burst \<le> 0 then rate else burst);
          b = (if b \<le> 0 then 1024 * 1024 else b)
      in \<lparr>rl_rate = rate, rl_burst = b, rl_tokens = b, rl_last = now\<rparr>)"

text \<open>\<open>now\<close> is the clock when \<open>refill\<close> measures the elapsed time, \<open>later\<close> when it stores the new mark.\<close>

definition tokens_for :: "int \<Rightarrow> duration \<Rightarrow> int" where
  "tokens_for rate d = f64_to_int (f64 (f64 (of_int rate) * duration_seconds d))"

definition refill :: "rate_limiter \<Rightarrow> instant \<Rightarrow> instant \<Rightarrow> rate_limiter" where
  "refill r now later =
     (let d = now - rl_last r in
      if d \<le> 0 then r
      else let t = rl_tokens r + tokens_for (rl_rate r) d in
        r\<lparr>rl_tokens := (if t > rl_burst r then rl_burst r else t), rl_last := later\<rparr>)"

definition allow :: "rate_limiter \<Rightarrow> int \<Rightarrow> instant \<Rightarrow> instant \<Rightarrow> rate_limiter \<times> bool" where
  "allow r n now later =
     (let r1 = refill r now later in
      if rl_tokens r1 \<ge> n then (r1\<lparr>rl_tokens := rl_tokens r1 - n\<rparr>, True) else (r1, False))"

definition set_rate :: "rate_limiter \<Rightarrow> int \<Rightarrow> rate_limiter" where
  "set_rate r rate =
     (let r1 = r\<lparr>rl_rate := rate\<rparr> in if rate \<le> 0 then r1\<lparr>rl_tokens := rl_burst r\<rparr> else r1)"

definition get_rate :: "rate_limiter \<Rightarrow> int" where
  "get_rate r = rl_rate r"

text \<open>\<open>inf_d\<close> is what the platform makes of the infinite duration a rate of zero leads to.\<close>

definition wait_time :: "duration \<Rightarrow> rate_limiter \<Rightarrow> int \<Rightarrow> duration" where
  "wait_time inf_d r n =
     (let needed = n - rl_tokens r in
      if rl_rate r = 0 then inf_d
      else f64_to_int (f64 (f64 (f64 (of_int needed) / f64 (of_int (rl_rate r))) * 1000000000)))"

text \<open>What can happen while a call sleeps between two rounds of its loop.\<close>

datatype wait_event =
    Awake instant instant
  | RateSet int
  | OthersTook int instant instant
  | CtxDone

datatype wait_result = WaitGranted | WaitCancelled | WaitPending

fun wait_sleep :: "rate_limiter \<Rightarrow> int \<Rightarrow> wait_event list \<Rightarrow> rate_limiter \<times> wait_result" where
  "wait_sleep r n [] = (r, WaitPending)"
| "wait_sleep r n (Awake now later # es) =
     (case allow r n now later of (r1, ok) \<Rightarrow> if ok then (r1, WaitGranted) else wait_sleep r1 n es)"
| "wait_sleep r n (RateSet q # es) = wait_sleep (set_rate r q) n es"
| "wait_sleep r n (OthersTook m now later # es) = wait_sleep (fst (allow r m now later)) n es"
| "wait_sleep r n (CtxDone # es) = (r, WaitCancelled)"

definition limiter_wait :: "rate_limiter \<Rightarrow> int \<Rightarrow> instant \<Rightarrow> instant \<Rightarrow> wait_event list \<Rightarrow> rate_limiter \<times> wait_result" where
  "limiter_wait r n now later es =
     (if rl_rate r \<le> 0 then (r, WaitGranted)
      else case allow r n now later of (r1, ok) \<Rightarrow> if ok then (r1, WaitGranted) else wait_sleep r1 n es)"

section \<open>The global limiter\<close>

record schedule_limit =
  sl_start :: string
  sl_end :: string
  sl_limit :: int
  sl_weekday :: "int option"

text \<open>\<open>g_running\<close> says whether a schedule goroutine has been started and not cancelled.\<close>

record global_limiter =
  g_limiter :: "rate_limiter option"
  g_tasks :: "string \<rightharpoonup> rate_limiter"
  g_limits :: "schedule_limit list"
  g_default :: int
  g_active :: bool
  g_running :: bool

definition global_limiter_init :: "instant \<Rightarrow> global_limiter" where
  "global_limiter_init now =
     \<lparr>g_limiter = Some (new_rate_limiter 0 (1024 * 1024) now), g_tasks = Map.empty, g_limits = [],
      g_default = 0, g_active = False, g_running = False\<rparr>"

text \<open>Go compares strings byte by byte.\<close>

fun string_less :: "string \<Rightarrow> string \<Rightarrow> bool" where
  "string_less [] [] = False"
| "string_less [] (d # ds) = True"
| "string_less (c # cs) [] = False"
| "string_less (c # cs) (d # ds) = (if c = d then string_less cs ds else (of_char c :: nat) < of_char d)"

definition schedule_applies :: "int \<Rightarrow> string \<Rightarrow> schedule_limit \<Rightarrow> bool" where
  "schedule_applies weekday clock l \<longleftrightarrow>
     \<not> (case sl_weekday l of None \<Rightarrow> False | Some w \<Rightarrow> w \<noteq> weekday) \<and>
     \<not> string_less clock (sl_start l) \<and> string_less clock (sl_end l)"

fun schedule_rate :: "int \<Rightarrow> string \<Rightarrow> schedule_limit list \<Rightarrow> int \<Rightarrow> int" where
  "schedule_rate weekday clock [] dflt = dflt"
| "schedule_rate weekday clock (l # ls) dflt =
     (if schedule_applies weekday clock l then sl_limit l else schedule_rate weekday clock ls dflt)"

text \<open>A nil limiter is dereferenced; it never is nil in the instance the program uses.\<close>

definition check_schedule :: "int \<Rightarrow> string \<Rightarrow> global_limiter \<Rightarrow> panic + global_limiter" where
  "check_schedule weekday clock g =
     (case g_limiter g of
        None \<Rightarrow> Inl NilDereference
      | Some r \<Rightarrow>
          let q = schedule_rate weekday clock (g_limits g) (g_default g) in
          Inr (if get_rate r \<noteq> q then g\<lparr>g_limiter := Some (set_rate r q)\<rparr> else g))"

definition set_schedule_limits :: "schedule_limit list \<Rightarrow> int \<Rightarrow> global_limiter \<Rightarrow> global_limiter" where
  "set_schedule_limits limits dflt g =
     (let g1 = g\<lparr>g_limits := limits, g_default := dflt, g_running := False\<rparr> in
      if limits = [] then g1 else g1\<lparr>g_active := True, g_running := True\<rparr>)"

definition stop_schedule :: "global_limiter \<Rightarrow> global_limiter" where
  "stop_schedule g = (if g_running g then g\<lparr>g_running := False, g_active := False\<rparr> else g)"

definition set_global_rate :: "int \<Rightarrow> instant \<Rightarrow> global_limiter \<Rightarrow> global_limiter" where
  "set_global_rate rate now g =
     (case g_limiter g of
        None \<Rightarrow> g\<lparr>g_limiter := Some (new_rate_limiter rate rate now)\<rparr>
      | Some r \<Rightarrow> g\<lparr>g_limiter := Some (set_rate r rate)\<rparr>)"

definition get_global_rate :: "global_limiter \<Rightarrow> int" where
  "get_global_rate g = (case g_limiter g of None \<Rightarrow> 0 | Some r \<Rightarrow> get_rate r)"

definition set_task_rate :: "string \<Rightarrow> int \<Rightarrow> instant \<Rightarrow> global_limiter \<Rightarrow> global_limiter" where
  "set_task_rate tid rate now g =
     (if rate \<le> 0 then g\<lparr>g_tasks := (g_tasks g)(tid := None)\<rparr>
      else case g_tasks g tid of
          None \<Rightarrow> g\<lparr>g_tasks := (g_tasks g)(tid \<mapsto> new_rate_limiter rate rate now)\<rparr>
        | Some r \<Rightarrow> g\<lparr>g_tasks := (g_tasks g)(tid \<mapsto> set_rate r rate)\<rparr>)"

definition get_task_rate :: "string \<Rightarrow> global_limiter \<Rightarrow> int" where
  "get_task_rate tid g = (case g_tasks g tid of None \<Rightarrow> 0 | Some r \<Rightarrow> get_rate r)"

definition remove_task_limit :: "string \<Rightarrow> global_limiter \<Rightarrow> global_limiter" where
  "remove_task_limit tid g = g\<lparr>g_tasks := (g_tasks g)(tid := None)\<rparr>"

text \<open>A waiting call works on the bucket it looked up, which stays shared with the map.\<close>

definition wait_task :: "string \<Rightarrow> int \<Rightarrow> instant \<Rightarrow> instant \<Rightarrow> wait_event list \<Rightarrow> global_limiter \<Rightarrow> global_limiter \<times> wait_result" where
  "wait_task tid n now later es g =
     (case g_tasks g tid of
        None \<Rightarrow> (g, WaitGranted)
      | Some r \<Rightarrow> (case limiter_wait r n now later es of
          (r1, res) \<Rightarrow> (g\<lparr>g_tasks := (g_tasks g)(tid \<mapsto> r1)\<rparr>, res)))"

definition wait_global :: "int \<Rightarrow> instant \<Rightarrow> instant \<Rightarrow> wait_event list \<Rightarrow> global_limiter \<Rightarrow> global_limiter \<times> wait_result" where
  "wait_global n now later es g =
     (case g_limiter g of
        None \<Rightarrow> (g, WaitGranted)
      | Some r \<Rightarrow> (case limiter_wait r n now later es of
          (r1, res) \<Rightarrow> (g\<lparr>g_limiter := Some r1\<rparr>, res)))"

definition global_wait ::
  "string \<Rightarrow> int \<Rightarrow> instant \<times> instant \<times> wait_event list \<Rightarrow> instant \<times> instant \<times> wait_event list \<Rightarrow>
     global_limiter \<Rightarrow> global_limiter \<times> wait_result" where
  "global_wait tid n a b g =
     (case (if tid \<noteq> [] then (case a of (now, later, es) \<Rightarrow> wait_task tid n now later es g) else (g, WaitGranted)) of
        (g1, WaitGranted) \<Rightarrow> (case b of (now, later, es) \<Rightarrow> wait_global n now later es g1)
      | x \<Rightarrow> x)"

section \<open>The bucket never overflows\<close>

lemma new_rate_limiter_burst: "rl_tokens (new_rate_limiter rate burst now) = rl_burst (new_rate_limiter rate burst now)"
  "0 < rl_burst (new_rate_limiter rate burst now)"
  by (simp_all add: new_rate_limiter_def Let_def)

lemma refill_bucket: "rl_tokens r \<le> rl_burst r \<Longrightarrow> rl_tokens (refill r a b) \<le> rl_burst r"
  "rl_burst (refill r a b) = rl_burst r" "rl_rate (refill r a b) = rl_rate r"
  by (simp_all add: refill_def Let_def)

lemma allow_bucket:
  assumes "rl_tokens r \<le> rl_burst r" "0 \<le> n" "allow r n a b = (r', ok)"
  shows "rl_tokens r' \<le> rl_burst r'" "rl_burst r' = rl_burst r" "rl_rate r' = rl_rate r"
  using assms refill_bucket [of r a b] by (auto simp: allow_def Let_def split: if_splits)

lemma set_rate_bucket: "rl_tokens r \<le> rl_burst r \<Longrightarrow> rl_tokens (set_rate r q) \<le> rl_burst r"
  "rl_burst (set_rate r q) = rl_burst r"
  by (simp_all add: set_rate_def Let_def)

lemma allow_needs_burst: "rl_tokens r \<le> rl_burst r \<Longrightarrow> allow r n a b = (r', True) \<Longrightarrow> n \<le> rl_burst r"
  using refill_bucket(1) [of r a b] by (auto simp: allow_def Let_def split: if_splits)

fun event_ok :: "wait_event \<Rightarrow> bool" where
  "event_ok (OthersTook m a b) = (0 \<le> m)"
| "event_ok CtxDone = False"
| "event_ok _ = True"

lemma wait_sleep_too_big:
  "rl_tokens r \<le> rl_burst r \<Longrightarrow> rl_burst r < n \<Longrightarrow> 0 \<le> n \<Longrightarrow> \<forall>e \<in> set es. event_ok e \<Longrightarrow>
   snd (wait_sleep r n es) = WaitPending"
proof (induction r n es rule: wait_sleep.induct)
  case (2 r n now later es)
  obtain r1 ok where a: "allow r n now later = (r1, ok)" by (cases "allow r n now later")
  have "\<not> ok" using allow_needs_burst [OF 2(2), of n now later r1] a 2(3) by auto
  with 2 a allow_bucket [OF 2(2,4) a] show ?case by simp
next
  case (4 r n m now later es)
  obtain r1 ok where a: "allow r m now later = (r1, ok)" by (cases "allow r m now later")
  have "0 \<le> m" using 4(5) by simp
  with 4 a allow_bucket [OF 4(2) _ a] show ?case by simp
qed (simp_all add: set_rate_bucket)

text \<open>
  A request larger than the bucket never returns: \<open>Wait(n)\<close> with \<open>n\<close> above the burst stays in its loop
  whatever time passes, whatever others take and however often the rate is changed in between. The
  buckets built with their rate as burst hang this way on every read larger than the rate.
\<close>
theorem wait_above_burst_never_returns:
  assumes "0 < rl_rate r" "rl_tokens r \<le> rl_burst r" "rl_burst r < n" "0 \<le> n" "\<forall>e \<in> set es. event_ok e"
  shows "snd (limiter_wait r n now later es) = WaitPending"
proof -
  obtain r1 ok where a: "allow r n now later = (r1, ok)" by (cases "allow r n now later")
  have "\<not> ok" using allow_needs_burst [OF assms(2), of n now later r1] a assms(3) by auto
  with a assms wait_sleep_too_big [of r1 n es] allow_bucket [OF assms(2,4) a]
  show ?thesis by (simp add: limiter_wait_def)
qed

text \<open>A task limited to 10000 bytes a second that reads 32 KiB at a time.\<close>

lemma wait_above_burst_never_returns_witness:
  "snd (limiter_wait (new_rate_limiter 10000 10000 0) 32768 0 0
     [Awake 5000000000 5000000000, RateSet 1000000, Awake 60000000000 60000000000]) = WaitPending"
  by (rule wait_above_burst_never_returns) (simp_all add: new_rate_limiter_def Let_def)

text \<open>
  A request that fits the bucket is granted as soon as a round of the loop comes \<open>k\<close> seconds after the
  last refill with \<open>k\<close> times the rate covering it: \<open>Wait\<close> then returns, whatever floating point
  rounding does on the way.
\<close>
theorem wait_returns:
  assumes "0 < rl_rate r" "rl_rate r * k < 2 ^ 53" "0 < k" "n \<le> rl_rate r * k" "n \<le> rl_burst r" "0 \<le> rl_tokens r"
    "k * 1000000000 \<le> now - rl_last r" "now - rl_last r < 2 ^ 62"
  shows "snd (wait_sleep r n (Awake now later # es)) = WaitGranted"
proof -
  let ?d = "now - rl_last r"
  have rk: "rl_rate r \<le> rl_rate r * k" "k \<le> rl_rate r * k"
    using assms(1,3) mult_left_mono [of 1 k "rl_rate r"] mult_right_mono [of 1 "rl_rate r" k] by simp_all
  then have b: "rl_rate r < 2 ^ 53" "k < 2 ^ 53" using assms(2) by simp_all
  have s: "of_int k \<le> duration_seconds ?d" using assms b by (intro duration_seconds_ge) simp_all
  have f: "f64 (of_int (rl_rate r)) = of_int (rl_rate r)" using assms(1) b by (intro f64_of_int) simp
  have "of_int (rl_rate r * k) \<le> (of_int (rl_rate r) * duration_seconds ?d :: rat)"
    using s assms(1) by (simp add: mult_left_mono)
  from f64_ge_of_int [OF _ this] assms(1-3)
  have "of_int (rl_rate r * k) \<le> f64 (f64 (of_int (rl_rate r)) * duration_seconds ?d)" unfolding f by simp
  moreover from this have "0 \<le> f64 (f64 (of_int (rl_rate r)) * duration_seconds ?d)"
    using assms(1,3) by (metis of_int_0_le_iff order_trans mult_nonneg_nonneg order_less_imp_le)
  ultimately have "rl_rate r * k \<le> tokens_for (rl_rate r) ?d"
    by (simp add: tokens_for_def f64_to_int_def le_floor_iff)
  moreover have "0 < ?d" using assms(3,7) by simp
  ultimately have "n \<le> rl_tokens (refill r now later)" using assms by (simp add: refill_def Let_def)
  then show ?thesis by (simp add: allow_def Let_def)
qed

lemma wait_returns_witness:
  "snd (wait_sleep ((new_rate_limiter 1000 5000 0)\<lparr>rl_tokens := 0\<rparr>) 2500 [Awake 3000000000 3000000001]) = WaitGranted"
  using wait_returns [of "(new_rate_limiter 1000 5000 0)\<lparr>rl_tokens := 0\<rparr>" 3 2500 3000000000 3000000001 "[]"]
  by (simp add: new_rate_limiter_def Let_def)

section \<open>Throughput\<close>

text \<open>A run of non-blocking acquisitions: the two clock readings and the amount of each.\<close>

fun allow_run :: "rate_limiter \<Rightarrow> (instant \<times> instant \<times> int) list \<Rightarrow> rate_limiter \<times> int" where
  "allow_run r [] = (r, 0)"
| "allow_run r ((now, later, n) # xs) =
     (case allow r n now later of (r1, ok) \<Rightarrow>
        case allow_run r1 xs of (r2, got) \<Rightarrow> (r2, (if ok then n else 0) + got))"

fun clock_runs :: "instant \<Rightarrow> (instant \<times> instant \<times> int) list \<Rightarrow> instant \<Rightarrow> bool" where
  "clock_runs t [] stop = (t \<le> stop)"
| "clock_runs t ((now, later, n) # xs) stop = (t \<le> now \<and> now \<le> later \<and> 0 \<le> n \<and> clock_runs later xs stop)"

definition float_slack :: rat where
  "float_slack = (1 + 1 / 2 ^ 53) ^ 5"

lemma tokens_for_upper:
  assumes "0 \<le> rate" "0 \<le> d"
  shows "of_int (tokens_for rate d) \<le> of_int rate * (of_int d / 1000000000) * float_slack"
proof -
  let ?e = "1 + 1 / 2 ^ 53 :: rat"
  have s: "0 \<le> duration_seconds d" using assms(2) by (rule duration_seconds_nonneg)
  have f: "f64 (of_int rate) \<le> of_int rate * ?e" "0 \<le> f64 (of_int rate)"
    using f64_upper [of "of_int rate"] f64_nonneg [of "of_int rate"] assms(1) by (simp_all only: of_int_0_le_iff)
  have "f64 (of_int rate) * duration_seconds d \<le> (of_int rate * ?e) * (of_int d / 1000000000 * ?e ^ 3)"
    using f s assms duration_seconds_upper [OF assms(2)] by (intro mult_mono) simp_all
  moreover have "0 \<le> f64 (of_int rate) * duration_seconds d" using f s by simp
  ultimately have "f64 (f64 (of_int rate) * duration_seconds d) \<le> (of_int rate * ?e) * (of_int d / 1000000000 * ?e ^ 3) * ?e"
    by (intro f64_upper_trans)
  also have "\<dots> = of_int rate * (of_int d / 1000000000) * float_slack"
    by (simp add: float_slack_def power_numeral_reduce mult_ac)
  finally have up: "f64 (f64 (of_int rate) * duration_seconds d) \<le> of_int rate * (of_int d / 1000000000) * float_slack" .
  have "0 \<le> f64 (f64 (of_int rate) * duration_seconds d)" using f s by (simp add: f64_nonneg)
  then have "of_int (tokens_for rate d) \<le> f64 (f64 (of_int rate) * duration_seconds d)"
    by (simp add: tokens_for_def f64_to_int_def)
  with up show ?thesis by simp
qed

lemma refill_credit:
  assumes "0 \<le> rl_rate r" "rl_last r \<le> now" "now \<le> later"
  shows "of_int (rl_tokens (refill r now later)) \<le>
      of_int (rl_tokens r) + of_int (rl_rate r) * (of_int (rl_last (refill r now later) - rl_last r) / 1000000000) * float_slack"
    "rl_last (refill r now later) \<le> later" "rl_last r \<le> rl_last (refill r now later)"
proof -
  have sl: "(0 :: rat) \<le> float_slack" by (simp add: float_slack_def)
  show "rl_last (refill r now later) \<le> later" "rl_last r \<le> rl_last (refill r now later)"
    using assms by (simp_all add: refill_def Let_def)
  show "of_int (rl_tokens (refill r now later)) \<le>
      of_int (rl_tokens r) + of_int (rl_rate r) * (of_int (rl_last (refill r now later) - rl_last r) / 1000000000) * float_slack"
  proof (cases "now - rl_last r \<le> 0")
    case True
    then show ?thesis by (simp add: refill_def)
  next
    case False
    let ?d = "now - rl_last r"
    have "rl_tokens (refill r now later) \<le> rl_tokens r + tokens_for (rl_rate r) ?d"
      using False by (simp add: refill_def Let_def)
    then have "(of_int (rl_tokens (refill r now later)) :: rat) \<le> of_int (rl_tokens r + tokens_for (rl_rate r) ?d)"
      by (simp only: of_int_le_iff)
    also have "\<dots> \<le> of_int (rl_tokens r) + of_int (rl_rate r) * (of_int ?d / 1000000000) * float_slack"
      using tokens_for_upper [OF assms(1), of ?d] False by simp
    also have "\<dots> \<le> of_int (rl_tokens r) + of_int (rl_rate r) * (of_int (later - rl_last r) / 1000000000) * float_slack"
      using assms sl by (intro add_left_mono mult_right_mono mult_left_mono divide_right_mono) simp_all
    finally show ?thesis using False by (simp add: refill_def Let_def)
  qed
qed

lemma throughput_bound_parts:
  assumes "0 \<le> rl_rate r" "clock_runs (rl_last r) xs stop" "allow_run r xs = (r', got)"
  shows "of_int got + of_int (rl_tokens r') \<le>
      of_int (rl_tokens r) + of_int (rl_rate r) * (of_int (stop - rl_last r) / 1000000000) * float_slack"
    "float_slack \<le> 1 + 1 / 2 ^ 50"
proof -
  have sl: "(0 :: rat) \<le> float_slack" by (simp add: float_slack_def)
  show "float_slack \<le> 1 + 1 / 2 ^ 50" by (simp add: float_slack_def power_divide)
  have "of_int got + of_int (rl_tokens r') \<le>
      of_int (rl_tokens r) + of_int (rl_rate r) * (of_int (stop - rl_last r) / 1000000000) * float_slack"
    if "clock_runs t xs stop" "rl_last r \<le> t" "0 \<le> rl_rate r" "allow_run r xs = (r', got)" for t
    using that
  proof (induction xs arbitrary: r t got)
    case Nil
    have "(0 :: rat) \<le> of_int (rl_rate r) * (of_int (stop - rl_last r) / 1000000000) * float_slack"
      using Nil sl by (intro mult_nonneg_nonneg divide_nonneg_pos) simp_all
    with Nil show ?case by simp
  next
    case (Cons x xs)
    obtain now later n where x: "x = (now, later, n)" by (cases x)
    obtain r1 ok where a: "allow r n now later = (r1, ok)" by (cases "allow r n now later")
    obtain got1 where g: "allow_run r1 xs = (r', got1)" "got = (if ok then n else 0) + got1"
      using Cons.prems(4) x a by (cases "allow_run r1 xs") auto
    have t: "rl_last r \<le> now" "now \<le> later" "clock_runs later xs stop" using Cons.prems(1,2) x by simp_all
    note c = refill_credit [OF Cons.prems(3) t(1,2)]
    have r1: "rl_last r1 = rl_last (refill r now later)" "rl_rate r1 = rl_rate r"
      "(if ok then n else 0) + rl_tokens r1 = rl_tokens (refill r now later)"
      using a refill_bucket(3) [of r now later] by (auto simp: allow_def Let_def split: if_splits)
    have ih: "of_int got1 + of_int (rl_tokens r') \<le>
        of_int (rl_tokens r1) + of_int (rl_rate r) * (of_int (stop - rl_last r1) / 1000000000) * float_slack"
      using Cons.IH [of later r1 got1] t(3) c(2) r1 Cons.prems(3) g(1) by simp
    have split: "of_int (rl_rate r) * (of_int (stop - rl_last r1) / 1000000000) * float_slack +
        of_int (rl_rate r) * (of_int (rl_last r1 - rl_last r) / 1000000000) * float_slack =
        of_int (rl_rate r) * (of_int (stop - rl_last r) / 1000000000) * (float_slack :: rat)"
      by (simp add: field_simps)
    have "(of_int ((if ok then n else 0) + rl_tokens r1) :: rat) = of_int (rl_tokens (refill r now later))" using r1(3) by simp
    then have "of_int got + of_int (rl_tokens r') \<le> of_int (rl_tokens (refill r now later)) +
        of_int (rl_rate r) * (of_int (stop - rl_last r1) / 1000000000) * float_slack"
      using ih g(2) by simp
    with c(1) split r1(1) show ?case by simp
  qed
  from this [OF assms(2) order_refl assms(1,3)]
  show "of_int got + of_int (rl_tokens r') \<le>
      of_int (rl_tokens r) + of_int (rl_rate r) * (of_int (stop - rl_last r) / 1000000000) * float_slack" .
qed

text \<open>
  C21: The bucket holds back: over any run of acquisitions the bytes granted are at most the tokens at its
  start plus the rate times the time passed, up to a relative rounding slack below \<open>2 ^ -50\<close>.
\<close>
theorem throughput_bound:
  assumes "0 \<le> rl_rate r" "clock_runs (rl_last r) xs stop" "allow_run r xs = (r', got)"
  shows "of_int got + of_int (rl_tokens r') \<le>
      of_int (rl_tokens r) + of_int (rl_rate r) * (of_int (stop - rl_last r) / 1000000000) * float_slack \<and>
    float_slack \<le> 1 + 1 / 2 ^ 50"
  using throughput_bound_parts [OF assms] by (rule conjI)

lemma throughput_bound_witness:
  "snd (allow_run (new_rate_limiter 100 100 0) [(0, 0, 100), (500000000, 500000000, 40), (600000000, 600000001, 30)]) = 140 \<and>
   (140 :: rat) + 20 \<le> 100 + 100 * (600000001 / 1000000000) * float_slack"
proof -
  let ?xs = "[(0, 0, 100), (500000000, 500000000, 40), (600000000, 600000001, 30)]"
  have v: "allow_run (new_rate_limiter 100 100 0) ?xs =
      (\<lparr>rl_rate = 100, rl_burst = 100, rl_tokens = 20, rl_last = 600000001\<rparr>, 140)" by code_simp
  have c: "clock_runs (rl_last (new_rate_limiter 100 100 0)) ?xs 600000001" "0 \<le> rl_rate (new_rate_limiter 100 100 0)"
    by (simp_all add: new_rate_limiter_def Let_def)
  from throughput_bound [OF c(2,1) v, THEN conjunct1] v show ?thesis by (simp add: new_rate_limiter_def Let_def)
qed

section \<open>The schedule\<close>

text \<open>Minutes of the day as \<open>time.Format\<close> prints them.\<close>

definition two_digits :: "nat \<Rightarrow> string" where
  "two_digits n = [char_of (48 + n div 10), char_of (48 + n mod 10)]"

definition clock_text :: "nat \<Rightarrow> string" where
  "clock_text m = two_digits (m div 60) @ '':'' @ two_digits (m mod 60)"

lemma two_digits_less:
  assumes "a < 100" "b < 100"
  shows "string_less (two_digits a @ s) (two_digits b @ t) \<longleftrightarrow> a < b \<or> (a = b \<and> string_less s t)"
proof -
  have ab: "a div 10 < 10" "a mod 10 < 10" "b div 10 < 10" "b mod 10 < 10" using assms by simp_all
  have c: "(char_of (48 + x) = (char_of (48 + y) :: char)) = (x = y)" "(of_char (char_of (48 + x) :: char) :: nat) = 48 + x"
    if "x < 10" "y < 10" for x y :: nat
  proof -
    show o: "(of_char (char_of (48 + x) :: char) :: nat) = 48 + x" using that by (simp add: of_char_of)
    have "(of_char (char_of (48 + y) :: char) :: nat) = 48 + y" using that by (simp add: of_char_of)
    with o show "(char_of (48 + x) = (char_of (48 + y) :: char)) = (x = y)" by (metis add_left_cancel)
  qed
  have e: "a = b \<longleftrightarrow> a div 10 = b div 10 \<and> a mod 10 = b mod 10" by (metis div_mult_mod_eq)
  have "a < b \<longleftrightarrow> a div 10 < b div 10 \<or> (a div 10 = b div 10 \<and> a mod 10 < b mod 10)"
    using div_mult_mod_eq [of a 10] div_mult_mod_eq [of b 10] ab by linarith
  then show ?thesis using ab by (auto simp: two_digits_def c e)
qed

lemma clock_text_less:
  assumes "a < 1440" "b < 1440"
  shows "string_less (clock_text a) (clock_text b) \<longleftrightarrow> a < b"
proof -
  have d: "a div 60 < 100" "b div 60 < 100" "a mod 60 < 100" "b mod 60 < 100"
    using assms mod_less_divisor [of 60 a] mod_less_divisor [of 60 b] by linarith+
  have m: "string_less ('':'' @ two_digits (a mod 60)) ('':'' @ two_digits (b mod 60)) \<longleftrightarrow> a mod 60 < b mod 60"
    using two_digits_less [OF d(3,4), of "[]" "[]"] by simp
  have "a < b \<longleftrightarrow> a div 60 < b div 60 \<or> (a div 60 = b div 60 \<and> a mod 60 < b mod 60)"
    using div_mult_mod_eq [of a 60] div_mult_mod_eq [of b 60] mod_less_divisor [of 60 a] mod_less_divisor [of 60 b]
    by linarith
  then show ?thesis unfolding clock_text_def two_digits_less [OF d(1,2)] m by simp
qed

lemma schedule_first_match_parts:
  assumes "sl_start l = clock_text a" "sl_end l = clock_text b" "a < 1440" "b < 1440" "m < 1440"
  shows "schedule_rate w (clock_text m) (l # ls) dflt =
    (if (sl_weekday l = None \<or> sl_weekday l = Some w) \<and> a \<le> m \<and> m < b then sl_limit l
     else schedule_rate w (clock_text m) ls dflt)"
    "b \<le> a \<Longrightarrow> schedule_rate w (clock_text m) (l # ls) dflt = schedule_rate w (clock_text m) ls dflt"
proof -
  have "schedule_applies w (clock_text m) l \<longleftrightarrow> (sl_weekday l = None \<or> sl_weekday l = Some w) \<and> a \<le> m \<and> m < b"
    using assms by (auto simp: schedule_applies_def clock_text_less not_less split: option.splits)
  then show "schedule_rate w (clock_text m) (l # ls) dflt =
      (if (sl_weekday l = None \<or> sl_weekday l = Some w) \<and> a \<le> m \<and> m < b then sl_limit l
       else schedule_rate w (clock_text m) ls dflt)"
    "b \<le> a \<Longrightarrow> schedule_rate w (clock_text m) (l # ls) dflt = schedule_rate w (clock_text m) ls dflt"
    by simp_all
qed

text \<open>
  The schedule picks the limit of the first entry whose weekday fits and whose window, start included and
  end excluded, contains the minute of the day, else the default rate; comparing the printed times
  as strings is comparing minutes. An entry whose window crosses midnight is never picked.
\<close>
theorem schedule_first_match:
  assumes "sl_start l = clock_text a" "sl_end l = clock_text b" "a < 1440" "b < 1440" "m < 1440"
  shows "schedule_rate w (clock_text m) (l # ls) dflt =
      (if (sl_weekday l = None \<or> sl_weekday l = Some w) \<and> a \<le> m \<and> m < b then sl_limit l
       else schedule_rate w (clock_text m) ls dflt) \<and>
    (b \<le> a \<longrightarrow> schedule_rate w (clock_text m) (l # ls) dflt = schedule_rate w (clock_text m) ls dflt)"
  using schedule_first_match_parts [OF assms] by (intro conjI impI)

lemma schedule_first_match_witness:
  "schedule_rate 1 (clock_text 1380) [\<lparr>sl_start = clock_text 1320, sl_end = clock_text 360, sl_limit = 5, sl_weekday = None\<rparr>] 9 = 9"
  using schedule_first_match [of "\<lparr>sl_start = clock_text 1320, sl_end = clock_text 360, sl_limit = 5, sl_weekday = None\<rparr>" 1320 360 1380 1 "[]" 9]
  by simp

end
