(* ===== verification/GoUrl.thy ===== *)
theory GoUrl
  imports GoString
begin

text \<open>
  \<open>net/url.Parse\<close> as far as the modelled code looks at its result: whether it fails, the scheme, the host
  with its port, and the path. Query and fragment are cut off; a fragment or path with a broken
  percent escape is an error.
\<close>

section \<open>Pieces of the parser\<close>

definition char_code :: "char \<Rightarrow> nat" where
  "char_code c = of_char c"

definition is_ctl :: "char \<Rightarrow> bool" where
  "is_ctl c \<longleftrightarrow> char_code c < 32 \<or> char_code c = 127"

definition is_alpha :: "char \<Rightarrow> bool" where
  "is_alpha c \<longleftrightarrow> is_lower_alpha c \<or> is_upper_alpha c"

definition is_hex :: "char \<Rightarrow> bool" where
  "is_hex c \<longleftrightarrow> is_digit c \<or> (97 \<le> char_code c \<and> char_code c \<le> 102) \<or> (65 \<le> char_code c \<and> char_code c \<le> 70)"

definition unhex :: "char \<Rightarrow> nat" where
  "unhex c =
     (if is_digit c then char_code c - 48 else if 97 \<le> char_code c then char_code c - 87 else char_code c - 55)"

text \<open>Text before and after the first or last occurrence of a character.\<close>

definition before :: "char \<Rightarrow> string \<Rightarrow> string" where
  "before d s = takeWhile (\<lambda>c. c \<noteq> d) s"

definition after :: "char \<Rightarrow> string \<Rightarrow> string" where
  "after d s = tl (dropWhile (\<lambda>c. c \<noteq> d) s)"

definition after_last :: "char \<Rightarrow> string \<Rightarrow> string" where
  "after_last d s = rev (before d (rev s))"

definition before_last :: "char \<Rightarrow> string \<Rightarrow> string" where
  "before_last d s = rev (after d (rev s))"

text \<open>Percent decoding; \<open>None\<close> on a broken escape. In a host only non-ASCII bytes may be escaped.\<close>

fun unescape :: "bool \<Rightarrow> string \<Rightarrow> string option" where
  "unescape host [] = Some []"
| "unescape host (c # cs) =
     (if c = CHR ''%'' then
        (case cs of
           a # b # rest \<Rightarrow>
             if is_hex a \<and> is_hex b \<and> (host \<longrightarrow> unhex a \<ge> 8 \<or> (a = CHR ''2'' \<and> b = CHR ''5''))
             then map_option (Cons (char_of (16 * unhex a + unhex b))) (unescape host rest) else None
         | _ \<Rightarrow> None)
      else map_option (Cons c) (unescape host cs))"

definition host_char :: "char \<Rightarrow> bool" where
  "host_char c \<longleftrightarrow> char_code c \<ge> 128 \<or> is_alpha c \<or> is_digit c \<or> c \<in> set ''-_.~!$&()*+,;=:[]<>%'' \<or> char_code c = 39 \<or> char_code c = 34"

definition valid_optional_port :: "string \<Rightarrow> bool" where
  "valid_optional_port p \<longleftrightarrow> p = [] \<or> (hd p = CHR '':'' \<and> list_all is_digit (tl p))"

definition parse_host :: "string \<Rightarrow> string option" where
  "parse_host h =
     (let ok = (if h \<noteq> [] \<and> hd h = CHR ''['' then
           CHR '']'' \<in> set h \<and> valid_optional_port (after_last CHR '']'' h)
         else CHR '':'' \<in> set h \<longrightarrow> valid_optional_port (CHR '':'' # after_last CHR '':'' h))
      in if ok \<and> list_all host_char h then unescape True h else None)"

definition userinfo_char :: "char \<Rightarrow> bool" where
  "userinfo_char c \<longleftrightarrow> is_alpha c \<or> is_digit c \<or> c \<in> set ''-._:~!$&()*+,;=%@'' \<or> char_code c = 39"

definition parse_authority :: "string \<Rightarrow> string option" where
  "parse_authority a =
     (if CHR ''@'' \<in> set a then
        (case parse_host (after_last CHR ''@'' a) of
           None \<Rightarrow> None
         | Some h \<Rightarrow>
             if list_all userinfo_char (before_last CHR ''@'' a) \<and> unescape False (before_last CHR ''@'' a) \<noteq> None
             then Some h else None)
      else parse_host a)"

text \<open>The scheme and the rest; \<open>None\<close> when the text starts with a colon.\<close>

fun get_scheme :: "string \<Rightarrow> string \<Rightarrow> string \<Rightarrow> (string \<times> string) option" where
  "get_scheme raw seen [] = Some ([], raw)"
| "get_scheme raw seen (c # cs) =
     (if is_alpha c then get_scheme raw (seen @ [c]) cs
      else if is_digit c \<or> c \<in> set ''+-.'' then
        (if seen = [] then Some ([], raw) else get_scheme raw (seen @ [c]) cs)
      else if c = CHR '':'' then (if seen = [] then None else Some (seen, cs))
      else Some ([], raw))"

section \<open>The parser\<close>

record url =
  u_scheme :: string
  u_host :: string
  u_path :: string

definition url_parse :: "string \<Rightarrow> url option" where
  "url_parse raw =
     (let u = before CHR ''#'' raw; frag = after CHR ''#'' raw in
      if list_ex is_ctl u then None
      else if unescape False frag = None then None
      else if u = ''*'' then Some \<lparr>u_scheme = [], u_host = [], u_path = ''*''\<rparr>
      else case get_scheme u [] u of
          None \<Rightarrow> None
        | Some (sch, rest0) \<Rightarrow>
            let scheme = to_lower sch; rest = before CHR ''?'' rest0 in
            if \<not> has_prefix rest ''/'' \<and> scheme \<noteq> [] then Some \<lparr>u_scheme = scheme, u_host = [], u_path = []\<rparr>
            else if \<not> has_prefix rest ''/'' \<and> CHR '':'' \<in> set (before CHR ''/'' rest) then None
            else
              (let auth = (scheme \<noteq> [] \<or> \<not> has_prefix rest ''///'') \<and> has_prefix rest ''//'';
                   a = before CHR ''/'' (drop 2 rest);
                   path = (if auth then drop (2 + length a) rest else rest) in
               case (if auth then parse_authority a else Some []) of
                 None \<Rightarrow> None
               | Some h \<Rightarrow>
                   (case unescape False path of
                      None \<Rightarrow> None
                    | Some p \<Rightarrow> Some \<lparr>u_scheme = scheme, u_host = h, u_path = p\<rparr>)))"

text \<open>\<open>URL.Hostname\<close>: the host without a port and without the brackets of an IPv6 address.\<close>

definition url_hostname :: "url \<Rightarrow> string" where
  "url_hostname u =
     (let h = u_host u;
          h1 = (if CHR '':'' \<in> set h \<and> valid_optional_port (CHR '':'' # after_last CHR '':'' h)
                then before_last CHR '':'' h else h)
      in if has_prefix h1 ''['' \<and> has_suffix h1 '']'' then butlast (tl h1) else h1)"

end
