(* ===== verification/ServerStat.thy ===== *)
theory ServerStat
  imports GoUrl "HOL-Library.Product_Lexorder"
begin

text \<open>
  Speed statistics per server and the ordering of mirror URLs by them,
  \<open>internal/downloader/serverstat.go\<close>. \<open>sort.Slice\<close> promises a sorted permutation and nothing about equal
  elements: the locale \<open>slice_sorter\<close> is that contract, and the sort itself an argument.
\<close>

section \<open>Statistics\<close>

record server_stat =
  ss_url :: string
  ss_speed :: int
  ss_connections :: int
  ss_fails :: int
  ss_update :: instant
  ss_samples :: "int list"

type_synonym server_stats = "string \<rightharpoonup> server_stat"

definition new_server_stat_man :: server_stats where
  "new_server_stat_man = Map.empty"

definition extract_server :: "string \<Rightarrow> string" where
  "extract_server raw = (case url_parse raw of Some u \<Rightarrow> u_scheme u @ ''://'' @ u_host u | None \<Rightarrow> raw)"

definition stat_for :: "server_stats \<Rightarrow> string \<Rightarrow> server_stat" where
  "stat_for m server =
     (case m server of
        Some st \<Rightarrow> st
      | None \<Rightarrow> \<lparr>ss_url = server, ss_speed = 0, ss_connections = 0, ss_fails = 0, ss_update = 0, ss_samples = []\<rparr>)"

definition record_speed :: "server_stats \<Rightarrow> string \<Rightarrow> int \<Rightarrow> instant \<Rightarrow> server_stats" where
  "record_speed m raw speed now =
     (let server = extract_server raw; st = stat_for m server;
          s0 = ss_samples st @ [speed];
          samples = (if length s0 > 10 then tl s0 else s0);
          tot = foldl (\<lambda>a x. i64 (a + x)) 0 samples
      in m(server \<mapsto> st\<lparr>ss_samples := samples, ss_speed := go_div tot (int (length samples)),
                        ss_update := now, ss_fails := 0\<rparr>))"

definition record_failure :: "server_stats \<Rightarrow> string \<Rightarrow> server_stats" where
  "record_failure m raw =
     (let server = extract_server raw; st = stat_for m server
      in m(server \<mapsto> st\<lparr>ss_fails := ss_fails st + 1\<rparr>))"

definition get_speed :: "server_stats \<Rightarrow> string \<Rightarrow> int" where
  "get_speed m raw = (case m (extract_server raw) of Some st \<Rightarrow> ss_speed st | None \<Rightarrow> 0)"

definition get_fail_count :: "server_stats \<Rightarrow> string \<Rightarrow> int" where
  "get_fail_count m raw = (case m (extract_server raw) of Some st \<Rightarrow> ss_fails st | None \<Rightarrow> 0)"

section \<open>Ordering URLs\<close>

definition feedback_less :: "server_stats \<Rightarrow> string \<Rightarrow> string \<Rightarrow> bool" where
  "feedback_less m a b =
     (let si = get_speed m a; sj = get_speed m b in
      if si \<noteq> sj then si > sj else get_fail_count m a < get_fail_count m b)"

definition adaptive_less :: "server_stats \<Rightarrow> string \<Rightarrow> string \<Rightarrow> bool" where
  "adaptive_less m a b =
     (let si = get_speed m a; sj = get_speed m b in
      if si = 0 \<and> sj > 0 then True
      else if si > 0 \<and> sj = 0 then False
      else if si \<noteq> sj then si > sj
      else get_fail_count m a < get_fail_count m b)"

type_synonym url_sort = "(string \<Rightarrow> string \<Rightarrow> bool) \<Rightarrow> string list \<Rightarrow> string list"

definition sort_urls_by_selector :: "url_sort \<Rightarrow> server_stats \<Rightarrow> string list \<Rightarrow> string \<Rightarrow> string list" where
  "sort_urls_by_selector sort_slice m urls selector =
     (if length urls \<le> 1 then urls
      else if selector = ''inorder'' \<or> selector = [] then urls
      else if selector = ''feedback'' then sort_slice (feedback_less m) urls
      else if selector = ''adaptive'' then sort_slice (adaptive_less m) urls
      else urls)"

section \<open>The contract of a sort\<close>

definition strict_weak :: "('a \<Rightarrow> 'a \<Rightarrow> bool) \<Rightarrow> bool" where
  "strict_weak lt \<longleftrightarrow>
     (\<forall>a b. lt a b \<longrightarrow> \<not> lt b a) \<and> (\<forall>a b c. \<not> lt a b \<longrightarrow> \<not> lt b c \<longrightarrow> \<not> lt a c)"

lemma strict_weak_asym: "strict_weak lt \<Longrightarrow> lt a b \<Longrightarrow> \<not> lt b a"
  unfolding strict_weak_def by blast

lemma strict_weak_irrefl: "strict_weak lt \<Longrightarrow> \<not> lt a a"
  using strict_weak_asym [of lt a a] by auto

lemma strict_weak_trans: "strict_weak lt \<Longrightarrow> \<not> lt a b \<Longrightarrow> \<not> lt b c \<Longrightarrow> \<not> lt a c"
  unfolding strict_weak_def by blast

locale slice_sorter =
  fixes srt :: "('a \<Rightarrow> 'a \<Rightarrow> bool) \<Rightarrow> 'a list \<Rightarrow> 'a list"
  assumes permutes: "mset (srt lt xs) = mset xs"
    and sorts: "strict_weak lt \<Longrightarrow> sorted_wrt (\<lambda>a b. \<not> lt b a) (srt lt xs)"
begin

lemma same_elements: "set (srt lt xs) = set xs"
  by (metis permutes set_mset_mset)

lemma same_length: "length (srt lt xs) = length xs"
  by (metis permutes size_mset)

lemma head_least: "strict_weak lt \<Longrightarrow> xs \<noteq> [] \<Longrightarrow> x \<in> set xs \<Longrightarrow> \<not> lt x (hd (srt lt xs))"
proof -
  assume sw: "strict_weak lt" and x: "xs \<noteq> []" "x \<in> set xs"
  have "x \<in> set (srt lt xs)" using x(2) same_elements by simp
  with sorts [OF sw, of xs] strict_weak_irrefl [OF sw, of x] show ?thesis by (cases "srt lt xs") auto
qed

end

text \<open>Insertion sort, which \<open>sort.Slice\<close> uses for up to twelve elements, keeps it.\<close>

fun insert_by :: "('a \<Rightarrow> 'a \<Rightarrow> bool) \<Rightarrow> 'a \<Rightarrow> 'a list \<Rightarrow> 'a list" where
  "insert_by lt x [] = [x]"
| "insert_by lt x (y # ys) = (if lt y x then y # insert_by lt x ys else x # y # ys)"

fun insertion_sort :: "('a \<Rightarrow> 'a \<Rightarrow> bool) \<Rightarrow> 'a list \<Rightarrow> 'a list" where
  "insertion_sort lt [] = []"
| "insertion_sort lt (x # xs) = insert_by lt x (insertion_sort lt xs)"

lemma mset_insert_by [simp]: "mset (insert_by lt x xs) = add_mset x (mset xs)"
  by (induction xs) simp_all

lemma set_insert_by [simp]: "set (insert_by lt x xs) = insert x (set xs)"
  by (induction xs) auto

lemma sorted_insert_by:
  assumes "strict_weak lt" "sorted_wrt (\<lambda>a b. \<not> lt b a) xs"
  shows "sorted_wrt (\<lambda>a b. \<not> lt b a) (insert_by lt x xs)"
  using assms(2)
proof (induction xs)
  case (Cons y ys)
  show ?case
  proof (cases "lt y x")
    case True
    with Cons strict_weak_asym [OF assms(1)] show ?thesis by simp
  next
    case False
    then have "\<not> lt z x" if "z \<in> set ys" for z
      using Cons.prems that strict_weak_trans [OF assms(1), of z y x] by simp
    with False Cons show ?thesis by simp
  qed
qed simp

interpretation isort: slice_sorter insertion_sort
proof unfold_locales
  show "mset (insertion_sort lt xs) = mset xs" for lt :: "'a \<Rightarrow> 'a \<Rightarrow> bool" and xs
    by (induction xs) simp_all
  show "strict_weak lt \<Longrightarrow> sorted_wrt (\<lambda>a b. \<not> lt b a) (insertion_sort lt xs)" for lt :: "'a \<Rightarrow> 'a \<Rightarrow> bool" and xs
    by (induction xs) (simp_all add: sorted_insert_by)
qed

section \<open>Properties\<close>

text \<open>Both comparisons compare a key in a linear order.\<close>

lemma strict_weak_key: "(\<And>a b. lt a b \<longleftrightarrow> key a < (key b :: 'k :: linorder)) \<Longrightarrow> strict_weak lt"
  by (auto simp: strict_weak_def)

lemma feedback_strict_weak: "strict_weak (feedback_less m)"
  by (rule strict_weak_key [of _ "\<lambda>u. (- get_speed m u, get_fail_count m u)"])
    (auto simp: feedback_less_def less_prod_def Let_def)

lemma adaptive_strict_weak:
  assumes "\<forall>u. 0 \<le> get_speed m u"
  shows "strict_weak (adaptive_less m)"
proof (rule strict_weak_key [of _ "\<lambda>u. (get_speed m u \<noteq> 0, - get_speed m u, get_fail_count m u)"])
  fix a b
  show "adaptive_less m a b \<longleftrightarrow>
      (get_speed m a \<noteq> 0, - get_speed m a, get_fail_count m a) < (get_speed m b \<noteq> 0, - get_speed m b, get_fail_count m b)"
    using assms [rule_format, of a] assms [rule_format, of b]
    by (auto simp: adaptive_less_def less_prod_def Let_def)
qed

lemma feedback_order_parts:
  assumes "slice_sorter srt" "u \<in> set urls" "1 < length urls"
  shows "mset (sort_urls_by_selector srt m urls sel) = mset urls"
    "sorted_wrt (\<lambda>a b. get_speed m a > get_speed m b \<or>
        (get_speed m a = get_speed m b \<and> get_fail_count m a \<le> get_fail_count m b))
      (sort_urls_by_selector srt m urls ''feedback'')"
proof -
  show "mset (sort_urls_by_selector srt m urls sel) = mset urls"
    using slice_sorter.permutes [OF assms(1)] by (simp add: sort_urls_by_selector_def)
  have "sorted_wrt (\<lambda>a b. \<not> feedback_less m b a) (srt (feedback_less m) urls)"
    by (rule slice_sorter.sorts [OF assms(1) feedback_strict_weak])
  moreover have "sort_urls_by_selector srt m urls ''feedback'' = srt (feedback_less m) urls"
    using assms(3) by (simp add: sort_urls_by_selector_def)
  ultimately show "sorted_wrt (\<lambda>a b. get_speed m a > get_speed m b \<or>
      (get_speed m a = get_speed m b \<and> get_fail_count m a \<le> get_fail_count m b))
    (sort_urls_by_selector srt m urls ''feedback'')"
    by (auto simp: feedback_less_def Let_def elim!: sorted_wrt_mono_rel [rotated] split: if_splits)
qed

text \<open>
  Reordering mirrors never loses or duplicates one, and with any sort that keeps \<open>sort.Slice\<close>'s contract
  the \<open>feedback\<close> order puts faster servers first and, among equally fast ones, those that failed less.
\<close>
theorem feedback_order:
  assumes "slice_sorter srt" "u \<in> set urls" "1 < length urls"
  shows "mset (sort_urls_by_selector srt m urls sel) = mset urls \<and>
    sorted_wrt (\<lambda>a b. get_speed m a > get_speed m b \<or>
        (get_speed m a = get_speed m b \<and> get_fail_count m a \<le> get_fail_count m b))
      (sort_urls_by_selector srt m urls ''feedback'')"
  using feedback_order_parts [OF assms] by (rule conjI)

definition demo_stats :: server_stats where
  "demo_stats = record_failure (record_speed (record_speed new_server_stat_man ''http://a/x'' 100 1) ''https://B:81/y'' 300 2) ''http://c/''"

lemma feedback_order_witness:
  "sorted_wrt (\<lambda>a b. get_speed demo_stats a > get_speed demo_stats b \<or>
        (get_speed demo_stats a = get_speed demo_stats b \<and> get_fail_count demo_stats a \<le> get_fail_count demo_stats b))
      (sort_urls_by_selector insertion_sort demo_stats [''http://c/z'', ''http://a/x'', ''https://B:81/q''] ''feedback'')"
  by (rule feedback_order [OF isort.slice_sorter_axioms, of "''http://a/x''", THEN conjunct2]) simp_all

text \<open>
  In the \<open>adaptive\<close> order a server that has never delivered anything precedes every server with a measured
  speed however often it has failed: failures only break ties, so a dead mirror stays first.
\<close>
theorem adaptive_dead_server_first:
  assumes "slice_sorter srt" "\<forall>u. 0 \<le> get_speed m u" "1 < length urls"
    "dead \<in> set urls" "get_speed m dead = 0"
  shows "get_speed m (hd (sort_urls_by_selector srt m urls ''adaptive'')) = 0"
proof -
  have eq: "sort_urls_by_selector srt m urls ''adaptive'' = srt (adaptive_less m) urls"
    using assms(3) by (simp add: sort_urls_by_selector_def)
  let ?h = "hd (srt (adaptive_less m) urls)"
  have "urls \<noteq> []" using assms(3) by auto
  then have "\<not> adaptive_less m dead ?h"
    using slice_sorter.head_least [OF assms(1) adaptive_strict_weak [OF assms(2)] _ assms(4)] by blast
  with assms(2,5) show ?thesis
    unfolding eq by (auto simp: adaptive_less_def Let_def order_less_le split: if_splits)
qed

lemma adaptive_dead_server_first_witness:
  "get_speed demo_stats (hd (sort_urls_by_selector insertion_sort demo_stats [''http://a/x'', ''http://c/z''] ''adaptive'')) = 0"
proof (rule adaptive_dead_server_first [OF isort.slice_sorter_axioms])
  have d: "demo_stats = [''http://a'' \<mapsto> \<lparr>ss_url = ''http://a'', ss_speed = 100, ss_connections = 0, ss_fails = 0, ss_update = 1, ss_samples = [100]\<rparr>,
      ''https://B:81'' \<mapsto> \<lparr>ss_url = ''https://B:81'', ss_speed = 300, ss_connections = 0, ss_fails = 0, ss_update = 2, ss_samples = [300]\<rparr>,
      ''http://c'' \<mapsto> \<lparr>ss_url = ''http://c'', ss_speed = 0, ss_connections = 0, ss_fails = 1, ss_update = 0, ss_samples = []\<rparr>]"
  proof -
    have e: "extract_server ''http://a/x'' = ''http://a''" "extract_server ''https://B:81/y'' = ''https://B:81''"
      "extract_server ''http://c/'' = ''http://c''" by code_simp+
    show ?thesis
      by (simp add: demo_stats_def record_failure_def record_speed_def new_server_stat_man_def e stat_for_def Let_def go_int)
  qed
  show "\<forall>u. 0 \<le> get_speed demo_stats u" by (simp add: d get_speed_def)
  show "get_speed demo_stats ''http://c/z'' = 0" by code_simp
qed simp_all

lemma foldl_i64_sum:
  "\<forall>x \<in> set xs. 0 \<le> x \<Longrightarrow> 0 \<le> a \<Longrightarrow> a + sum_list xs < 2 ^ 63 \<Longrightarrow> foldl (\<lambda>a x. i64 (a + x)) a xs = a + sum_list xs"
proof (induction xs arbitrary: a)
  case (Cons x xs)
  have "0 \<le> sum_list xs" using Cons.prems(1) by (intro sum_list_nonneg) simp
  then have "i64 (a + x) = a + x" using Cons.prems by (intro i64_id_nonneg) simp_all
  with Cons show ?case by (simp add: add.assoc)
qed simp

text \<open>
  \<open>RecordSpeed\<close> keeps the last ten samples of the server, reports their average rounded down, and clears
  its failures; other servers are untouched.
\<close>
theorem record_speed_spec:
  assumes "m (extract_server raw) = Some st" "length (ss_samples st) \<le> 10"
    "\<forall>x \<in> set (speed # ss_samples st). 0 \<le> x \<and> x < 2 ^ 59"
  shows "\<exists>st'. record_speed m raw speed now (extract_server raw) = Some st' \<and>
      ss_samples st' = drop (length (ss_samples st) + 1 - 10) (ss_samples st @ [speed]) \<and>
      length (ss_samples st') \<le> 10 \<and> ss_fails st' = 0 \<and>
      ss_speed st' = sum_list (ss_samples st') div int (length (ss_samples st'))"
    "k \<noteq> extract_server raw \<Longrightarrow> record_speed m raw speed now k = m k"
proof -
  let ?full = "ss_samples st @ [speed]"
  let ?s = "if length ?full > 10 then tl ?full else ?full"
  have s: "?s = drop (length (ss_samples st) + 1 - 10) ?full"
  proof (cases "length (ss_samples st) = 10")
    case True
    then have e: "length (ss_samples st) + 1 - 10 = Suc 0" by simp
    have "drop (Suc 0) ?full = tl ?full" by (cases ?full) simp_all
    moreover have "length ?full > 10" using True by simp
    ultimately show ?thesis unfolding e by (simp only: if_True)
  next
    case False
    then show ?thesis using assms(2) by simp
  qed
  have sub: "set ?s \<subseteq> set ?full" unfolding s by (rule set_drop_subset)
  then have r: "\<forall>x \<in> set ?s. 0 \<le> x \<and> x < 2 ^ 59" using assms(3) by auto
  have "length ?s = (if length (ss_samples st) = 10 then 10 else length (ss_samples st) + 1)" using assms(2) by simp
  then have len: "length ?s \<le> 10" "0 < length ?s" using assms(2) by (simp_all only: split: if_split) auto
  have "sum_list ?s \<le> int (length ?s) * 2 ^ 59"
    using sum_list_mono [of ?s "\<lambda>x. x" "\<lambda>_. 2 ^ 59"] r by (simp add: sum_list_triv order_less_imp_le)
  also have "\<dots> \<le> 10 * 2 ^ 59" using len(1) by (intro mult_right_mono) simp_all
  finally have tot: "foldl (\<lambda>a x. i64 (a + x)) 0 ?s = sum_list ?s"
    using foldl_i64_sum [of ?s 0] r by simp
  have "0 \<le> sum_list ?s" using r by (intro sum_list_nonneg) simp
  then have d: "go_div (sum_list ?s) (int (length ?s)) = sum_list ?s div int (length ?s)"
    using len(2) by (intro go_div_nonneg) simp_all
  show "\<exists>st'. record_speed m raw speed now (extract_server raw) = Some st' \<and>
      ss_samples st' = drop (length (ss_samples st) + 1 - 10) (ss_samples st @ [speed]) \<and>
      length (ss_samples st') \<le> 10 \<and> ss_fails st' = 0 \<and>
      ss_speed st' = sum_list (ss_samples st') div int (length (ss_samples st'))"
  proof -
    define samples where "samples = ?s"
    have "record_speed m raw speed now = m(extract_server raw \<mapsto>
        st\<lparr>ss_samples := samples, ss_speed := go_div (foldl (\<lambda>a x. i64 (a + x)) 0 samples) (int (length samples)),
           ss_update := now, ss_fails := 0\<rparr>)"
      by (simp only: record_speed_def Let_def stat_for_def assms(1) option.case samples_def)
    with tot d len(1) show ?thesis unfolding s [symmetric] samples_def [symmetric] by simp
  qed
  show "k \<noteq> extract_server raw \<Longrightarrow> record_speed m raw speed now k = m k"
    by (simp add: record_speed_def Let_def)
qed

end
