(* ===== verification/Adaptive.thy ===== *)
theory Adaptive
  imports GoFloat
begin

text \<open>
  The controller of the number of download threads, \<open>internal/downloader/adaptive.go\<close>: a ring buffer of
  speed samples, an atomic thread counter, and the decision to add or drop a thread. Atomic loads and
  compare-and-swap loops are single steps.
\<close>

section \<open>State\<close>

record speed_sample =
  sample_time :: instant
  sample_bytes :: int

record adaptive_controller =
  ac_samples :: "speed_sample list"
  ac_window :: int
  ac_head :: int
  ac_count :: int
  ac_active :: int
  ac_max :: int
  ac_min :: int
  ac_total :: int
  ac_last_bytes :: int
  ac_last_time :: instant
  ac_threshold :: int
  ac_improve :: rat
  ac_interval :: duration
  ac_last_adjust :: instant

text \<open>\<open>zero\<close> is the zero \<open>time.Time\<close>; \<open>time.Since\<close> saturates at the largest duration.\<close>

definition go_since :: "instant \<Rightarrow> instant \<Rightarrow> duration" where
  "go_since now t =
     (if now - t \<ge> 2 ^ 63 then 2 ^ 63 - 1 else if now - t < - (2 ^ 63) then - (2 ^ 63) else now - t)"

definition new_adaptive_controller :: "instant \<Rightarrow> int \<Rightarrow> int \<Rightarrow> adaptive_controller" where
  "new_adaptive_controller zero max_threads min_threads =
     (let mn = (if min_threads < 1 then 1 else min_threads);
          mx = (if max_threads < mn then mn else max_threads)
      in \<lparr>ac_samples = replicate 20 \<lparr>sample_time = zero, sample_bytes = 0\<rparr>, ac_window = 20, ac_head = 0,
          ac_count = 0, ac_active = 0, ac_max = i32 mx, ac_min = i32 mn, ac_total = 0, ac_last_bytes = 0,
          ac_last_time = zero, ac_threshold = 50 * 1024, ac_improve = f64 (12 / 10),
          ac_interval = 3000000000, ac_last_adjust = 0\<rparr>)"

definition add_sample :: "adaptive_controller \<Rightarrow> int \<Rightarrow> instant \<Rightarrow> adaptive_controller" where
  "add_sample ac bytes now =
     ac\<lparr>ac_samples := (ac_samples ac)[nat (ac_head ac) := \<lparr>sample_time = now, sample_bytes = bytes\<rparr>],
        ac_head := go_rem (ac_head ac + 1) (ac_window ac),
        ac_count := (if ac_count ac < ac_window ac then ac_count ac + 1 else ac_count ac),
        ac_total := i64 (ac_total ac + bytes)\<rparr>"

definition oldest_index :: "adaptive_controller \<Rightarrow> int" where
  "oldest_index ac = go_rem (ac_head ac - ac_count ac + ac_window ac) (ac_window ac)"

definition window_total :: "adaptive_controller \<Rightarrow> int" where
  "window_total ac =
     foldl (\<lambda>a i. i64 (a + sample_bytes (ac_samples ac ! nat (go_rem (oldest_index ac + i) (ac_window ac))))) 0
       [0..ac_count ac - 1]"

definition current_speed :: "adaptive_controller \<Rightarrow> instant \<Rightarrow> int" where
  "current_speed ac now =
     (if ac_count ac = 0 then 0
      else let d = go_since now (sample_time (ac_samples ac ! nat (oldest_index ac))) in
        if d \<le> 0 then 0 else f64_to_int (f64 (f64 (of_int (window_total ac)) / duration_seconds d)))"

definition thread_count :: "adaptive_controller \<Rightarrow> int" where
  "thread_count ac = ac_active ac"

definition increment_threads :: "adaptive_controller \<Rightarrow> adaptive_controller \<times> int" where
  "increment_threads ac =
     (if ac_active ac \<ge> ac_max ac then (ac, ac_active ac)
      else (ac\<lparr>ac_active := ac_active ac + 1\<rparr>, ac_active ac + 1))"

definition decrement_threads :: "adaptive_controller \<Rightarrow> adaptive_controller \<times> int" where
  "decrement_threads ac =
     (if ac_active ac \<le> ac_min ac then (ac, ac_active ac)
      else (ac\<lparr>ac_active := ac_active ac - 1\<rparr>, ac_active ac - 1))"

definition set_thread_count :: "adaptive_controller \<Rightarrow> int \<Rightarrow> adaptive_controller" where
  "set_thread_count ac n = ac\<lparr>ac_active := n\<rparr>"

text \<open>The speed since the last check, and whether one thread fewer would do.\<close>

definition interval_speed :: "adaptive_controller \<Rightarrow> instant \<Rightarrow> int" where
  "interval_speed ac now =
     (let e = duration_seconds (go_since now (ac_last_time ac)); e = (if e \<le> 0 then f64 (1 / 1000) else e)
      in f64_to_int (f64 (f64 (of_int (i64 (ac_total ac - ac_last_bytes ac))) / e)))"

definition can_shed :: "int \<Rightarrow> int \<Rightarrow> bool" where
  "can_shed speed current \<longleftrightarrow>
     i64 (go_div speed current * (current - 1)) > f64_to_int (f64 (f64 (of_int speed) * f64 (9 / 10)))"

text \<open>The reads of the clock in one call are taken as one instant.\<close>

definition should_adjust :: "adaptive_controller \<Rightarrow> instant \<Rightarrow> adaptive_controller \<times> bool \<times> int" where
  "should_adjust ac now =
     (if ac_last_adjust ac \<noteq> 0 \<and> go_since now (ac_last_adjust ac) < ac_interval ac then (ac, False, 0)
      else
        let speed = interval_speed ac now;
            ac1 = ac\<lparr>ac_last_bytes := ac_total ac, ac_last_time := now, ac_last_adjust := now\<rparr>;
            current = ac_active ac in
        if speed < ac_threshold ac \<and> current < ac_max ac then
          (case increment_threads ac1 of (ac2, n) \<Rightarrow> (ac2, True, n))
        else if current > ac_min ac \<and> speed > ac_threshold ac \<and> can_shed speed current \<and> current > 2 then
          (case decrement_threads ac1 of (ac2, n) \<Rightarrow> (ac2, True, n))
        else (ac1, False, current))"

definition adaptive_reset :: "adaptive_controller \<Rightarrow> instant \<Rightarrow> adaptive_controller" where
  "adaptive_reset ac now =
     ac\<lparr>ac_head := 0, ac_count := 0, ac_last_bytes := 0, ac_last_time := now, ac_last_adjust := 0\<rparr>"

section \<open>The ring buffer holds the last samples\<close>

text \<open>The samples in order of arrival, oldest first.\<close>

definition window :: "adaptive_controller \<Rightarrow> speed_sample list" where
  "window ac = map (\<lambda>i. ac_samples ac ! nat ((oldest_index ac + i) mod ac_window ac)) [0..ac_count ac - 1]"

definition ring_ok :: "adaptive_controller \<Rightarrow> bool" where
  "ring_ok ac \<longleftrightarrow> 0 < ac_window ac \<and> length (ac_samples ac) = nat (ac_window ac) \<and>
     0 \<le> ac_head ac \<and> ac_head ac < ac_window ac \<and> 0 \<le> ac_count ac \<and> ac_count ac \<le> ac_window ac"

lemma ring_ok_new: "ring_ok (new_adaptive_controller zero mx mn)"
  by (simp add: ring_ok_def new_adaptive_controller_def Let_def)

lemma ring_okD: "ring_ok ac \<Longrightarrow> 0 < ac_window ac" "ring_ok ac \<Longrightarrow> length (ac_samples ac) = nat (ac_window ac)"
  "ring_ok ac \<Longrightarrow> 0 \<le> ac_head ac" "ring_ok ac \<Longrightarrow> ac_head ac < ac_window ac" "ring_ok ac \<Longrightarrow> 0 \<le> ac_count ac"
  "ring_ok ac \<Longrightarrow> ac_count ac \<le> ac_window ac"
  by (simp_all add: ring_ok_def)

lemma oldest_mod: "ring_ok ac \<Longrightarrow> oldest_index ac = (ac_head ac - ac_count ac) mod ac_window ac"
  by (simp add: oldest_index_def ring_ok_def go_int)

lemma window_index: "ring_ok ac \<Longrightarrow> (oldest_index ac + i) mod ac_window ac = (ac_head ac - ac_count ac + i) mod ac_window ac"
  by (simp add: oldest_mod mod_add_left_eq)

lemma add_sample_ring: "ring_ok ac \<Longrightarrow> ring_ok (add_sample ac b now)"
  by (auto simp: ring_ok_def add_sample_def go_int)

lemma slot_distinct:
  fixes h w i :: int
  assumes "0 < w" "0 \<le> h" "h < w" "0 < i" "i < w"
  shows "(h - i) mod w \<noteq> h"
proof
  assume "(h - i) mod w = h"
  then have "(h - i) mod w = h mod w" using assms by simp
  then have "w dvd i" by (metis diff_diff_eq2 add_diff_cancel_left' mod_eq_dvd_iff minus_diff_eq dvd_minus_iff)
  with assms(4,5) show False by (simp add: zdvd_not_zless)
qed

lemma add_sample_window:
  assumes "ring_ok ac"
  shows "window (add_sample ac b now) =
    (if ac_count ac < ac_window ac then window ac else tl (window ac)) @ [\<lparr>sample_time = now, sample_bytes = b\<rparr>]"
proof -
  let ?w = "ac_window ac" and ?h = "ac_head ac" and ?c = "ac_count ac"
  let ?ac = "add_sample ac b now"
  note D = ring_okD [OF assms]
  define slot where "slot k = ac_samples ac ! nat (k mod ?w)" for k
  have h': "ac_head ?ac = (?h + 1) mod ?w" using D by (simp add: add_sample_def go_int)
  have w': "ac_window ?ac = ?w" by (simp add: add_sample_def)
  have c': "ac_count ?ac = (if ?c < ?w then ?c + 1 else ?c)" by (simp add: add_sample_def)
  have win: "window ac = map (\<lambda>i. slot (?h - ?c + i)) [0..?c - 1]"
    by (simp add: window_def window_index [OF assms] slot_def)
  have m: "((?h + 1) mod ?w - n + i) mod ?w = (?h + 1 - n + i) mod ?w" for n i
    by (metis mod_add_left_eq mod_diff_left_eq)
  have win': "window ?ac = map (\<lambda>i. ac_samples ?ac ! nat ((?h + 1 - ac_count ?ac + i) mod ?w)) [0..ac_count ?ac - 1]"
    using window_index [OF add_sample_ring [OF assms, of b now]]
    by (simp only: window_def h' w' m)
  have last: "ac_samples ?ac ! nat (?h mod ?w) = \<lparr>sample_time = now, sample_bytes = b\<rparr>"
    using D by (simp add: add_sample_def nat_less_iff)
  have other: "ac_samples ?ac ! nat ((?h - i) mod ?w) = slot (?h - i)" if "0 < i" "i < ?w" for i
  proof -
    have "(?h - i) mod ?w \<noteq> ?h" using slot_distinct [OF D(1,3,4) that] .
    moreover have "0 \<le> (?h - i) mod ?w" using D(1) by simp
    ultimately show ?thesis using D by (simp add: add_sample_def slot_def nth_list_update eq_nat_nat_iff)
  qed
  let ?n = "ac_count ?ac"
  have n: "0 < ?n" "?n \<le> ?w" "?n - 1 \<le> ?c" using D c' by auto
  have "window ?ac = map (\<lambda>i. ac_samples ?ac ! nat ((?h + 1 - ?n + i) mod ?w)) [0..?n - 2] @ [\<lparr>sample_time = now, sample_bytes = b\<rparr>]"
  proof -
    have "[0..?n - 1] = [0..?n - 2] @ [?n - 1]" using upto_rec2 [of 0 "?n - 1"] n(1) by simp
    then show ?thesis unfolding win' using last by simp
  qed
  also have "map (\<lambda>i. ac_samples ?ac ! nat ((?h + 1 - ?n + i) mod ?w)) [0..?n - 2] = map (\<lambda>i. slot (?h + 1 - ?n + i)) [0..?n - 2]"
  proof (rule map_cong [OF refl])
    fix i
    assume "i \<in> set [0..?n - 2]"
    then have "0 < ?n - 1 - i" "?n - 1 - i < ?w" using n by auto
    from other [OF this] show "ac_samples ?ac ! nat ((?h + 1 - ?n + i) mod ?w) = slot (?h + 1 - ?n + i)"
      by (simp add: algebra_simps)
  qed
  also have "\<dots> = (if ?c < ?w then window ac else tl (window ac))"
  proof (cases "?c < ?w")
    case True
    then show ?thesis by (simp add: win c')
  next
    case False
    then have "?c = ?w" "0 < ?c" using D by simp_all
    moreover have "[0..?c - 1] = 0 # [1..?c - 1]" using \<open>0 < ?c\<close> by (simp add: upto_rec1)
    moreover have "[1..?c - 1] = map (\<lambda>i. i + 1) [0..?c - 2]"
      by (rule nth_equalityI) (simp_all add: nth_upto)
    ultimately show ?thesis using False by (simp add: win c' comp_def algebra_simps)
  qed
  finally show ?thesis .
qed

text \<open>
  The ring buffer is a window of the latest samples: after any samples added to a fresh controller it
  holds the last twenty of them, oldest first.
\<close>
theorem samples_are_last_twenty:
  "window (foldl (\<lambda>ac (b, t). add_sample ac b t) (new_adaptive_controller zero mx mn) xs) =
     map (\<lambda>(b, t). \<lparr>sample_time = t, sample_bytes = b\<rparr>) (drop (length xs - 20) xs)"
proof -
  let ?add = "\<lambda>ac (b, t). add_sample ac b t" and ?new = "new_adaptive_controller zero mx mn"
  let ?f = "\<lambda>(b, t). \<lparr>sample_time = t, sample_bytes = b\<rparr>"
  have "ring_ok (foldl ?add ?new xs) \<and> ac_window (foldl ?add ?new xs) = 20 \<and>
      ac_count (foldl ?add ?new xs) = min 20 (int (length xs)) \<and>
      window (foldl ?add ?new xs) = map ?f (drop (length xs - 20) xs)"
  proof (induction xs rule: rev_induct)
    case Nil
    show ?case using ring_ok_new [of zero mx mn] by (simp add: window_def) (simp add: new_adaptive_controller_def Let_def)
  next
    case (snoc x xs)
    obtain b t where x: "x = (b, t)" by (cases x)
    let ?ac = "foldl ?add ?new xs"
    have ok: "ring_ok ?ac" and w: "ac_window ?ac = 20" and c: "ac_count ?ac = min 20 (int (length xs))"
      and win: "window ?ac = map ?f (drop (length xs - 20) xs)" using snoc.IH by simp_all
    have step: "foldl ?add ?new (xs @ [x]) = add_sample ?ac b t" by (simp add: x)
    have "window (add_sample ?ac b t) = map ?f (drop (length (xs @ [x]) - 20) (xs @ [x]))"
    proof (cases "length xs < 20")
      case True
      then show ?thesis using add_sample_window [OF ok, of b t] w c win x by simp
    next
      case False
      then have k: "length (xs @ [x]) - 20 = Suc (length xs - 20)" by simp
      have "drop (length (xs @ [x]) - 20) (xs @ [x]) = tl (drop (length xs - 20) xs) @ [x]"
        unfolding k using False by (simp add: drop_Suc tl_drop)
      then show ?thesis using False add_sample_window [OF ok, of b t] w c win x by (simp add: map_tl)
    qed
    moreover have "ac_window (add_sample ?ac b t) = 20" "ac_count (add_sample ?ac b t) = min 20 (int (length (xs @ [x])))"
      using w c by (simp_all add: add_sample_def)
    ultimately show ?case using add_sample_ring [OF ok] step by simp
  qed
  then show ?thesis by blast
qed

section \<open>Thread bounds\<close>

definition threads_ok :: "adaptive_controller \<Rightarrow> bool" where
  "threads_ok ac \<longleftrightarrow> ac_min ac \<le> ac_active ac \<and> ac_active ac \<le> ac_max ac"

lemma threads_ok_steps:
  assumes "threads_ok ac"
  shows "threads_ok (fst (increment_threads ac))" "threads_ok (fst (decrement_threads ac))"
    "threads_ok (add_sample ac b now)" "threads_ok (adaptive_reset ac now)"
  using assms by (simp_all add: threads_ok_def increment_threads_def decrement_threads_def add_sample_def adaptive_reset_def)

lemma threads_ok_adjust:
  assumes "threads_ok ac"
  shows "threads_ok (fst (should_adjust ac now))"
  using assms
  by (auto simp: threads_ok_def should_adjust_def increment_threads_def decrement_threads_def Let_def)

datatype adaptive_op = AddSample int instant | Adjust instant | ResetWindow instant

fun adaptive_exec :: "adaptive_controller \<Rightarrow> adaptive_op \<Rightarrow> adaptive_controller" where
  "adaptive_exec ac (AddSample b t) = add_sample ac b t"
| "adaptive_exec ac (Adjust t) = fst (should_adjust ac t)"
| "adaptive_exec ac (ResetWindow t) = adaptive_reset ac t"

lemma shed_needs_eleven:
  assumes "0 < speed" "speed < 2 ^ 53" "0 < current" "current \<le> 10"
  shows "\<not> can_shed speed current"
proof -
  let ?q = "speed div current"
  have q: "0 \<le> ?q" "?q * current \<le> speed"
  proof -
    show "0 \<le> ?q" using assms by (simp add: pos_imp_zdiv_nonneg_iff)
    show "?q * current \<le> speed"
      using div_mult_mod_eq [of speed current] pos_mod_sign [OF assms(3), of speed] by linarith
  qed
  have qs: "?q \<le> speed" using q assms(3) mult_left_mono [of 1 current ?q] by simp
  have p: "0 \<le> ?q * (current - 1)" "?q * (current - 1) \<le> ?q * current"
    using q assms(3) by (simp_all add: mult_left_mono)
  have lt: "?q * (current - 1) < 2 ^ 53" using p(2) q(2) assms(2) by linarith
  have c9: "10 * (?q * (current - 1)) \<le> 9 * speed"
  proof -
    have "10 * (current - 1) \<le> 9 * current" using assms(4) by simp
    then have "?q * (10 * (current - 1)) \<le> ?q * (9 * current)" using q(1) by (rule mult_left_mono)
    then show ?thesis using q(2) by (simp add: algebra_simps)
  qed
  have nine: "(9 / 10 :: rat) \<le> f64 (9 / 10)" by code_simp
  have "f64 (of_int speed) = of_int speed" using assms(1,2) by (intro f64_of_int) simp
  moreover have "of_int (?q * (current - 1)) \<le> (of_int speed * f64 (9 / 10) :: rat)"
  proof -
    have "(of_int (10 * (?q * (current - 1))) :: rat) \<le> of_int (9 * speed)" using c9 by (simp only: of_int_le_iff)
    then have "of_int (?q * (current - 1)) \<le> (of_int speed * (9 / 10) :: rat)" by simp
    also have "\<dots> \<le> of_int speed * f64 (9 / 10)" using nine assms(1) by (intro mult_left_mono) simp_all
    finally show ?thesis .
  qed
  ultimately have "of_int (?q * (current - 1)) \<le> f64 (f64 (of_int speed) * f64 (9 / 10))"
    using lt p(1) by (intro f64_ge_of_int) simp_all
  moreover from this p(1) have "0 \<le> f64 (f64 (of_int speed) * f64 (9 / 10))"
    by (metis of_int_0_le_iff order_trans)
  ultimately have "?q * (current - 1) \<le> f64_to_int (f64 (f64 (of_int speed) * f64 (9 / 10)))"
    by (simp add: f64_to_int_def le_floor_iff)
  moreover have "i64 (go_div speed current * (current - 1)) = ?q * (current - 1)"
    using assms p(1) lt by (simp add: go_int)
  ultimately show ?thesis by (simp add: can_shed_def)
qed

lemma thread_bounds_parts:
  assumes "threads_ok ac"
  shows "threads_ok (foldl adaptive_exec ac ops)"
    "0 < ac_active ac \<Longrightarrow> ac_active ac \<le> 10 \<Longrightarrow> interval_speed ac now < 2 ^ 53 \<Longrightarrow> 0 \<le> ac_threshold ac \<Longrightarrow>
     ac_active ac \<le> ac_active (fst (should_adjust ac now))"
proof -
  show "threads_ok (foldl adaptive_exec ac ops)"
    using assms
  proof (induction ops arbitrary: ac)
    case (Cons x xs)
    have "threads_ok (adaptive_exec ac x)"
      using Cons.prems by (cases x) (simp_all add: threads_ok_steps threads_ok_adjust)
    with Cons.IH show ?case by simp
  qed simp
  assume a: "0 < ac_active ac" "ac_active ac \<le> 10" "interval_speed ac now < 2 ^ 53" "0 \<le> ac_threshold ac"
  have "\<not> (interval_speed ac now > ac_threshold ac \<and> can_shed (interval_speed ac now) (ac_active ac))"
    using shed_needs_eleven [of "interval_speed ac now" "ac_active ac"] a by auto
  then show "ac_active ac \<le> ac_active (fst (should_adjust ac now))"
    by (auto simp: should_adjust_def increment_threads_def Let_def)
qed

text \<open>
  The thread count stays within its limits whatever is sampled or decided, and it never falls while it is
  ten or less: one thread fewer is predicted to keep at most 9/10 of the speed, which is not above
  the 90 percent asked for.
\<close>
theorem thread_bounds:
  assumes "threads_ok ac"
  shows "threads_ok (foldl adaptive_exec ac ops) \<and>
    (0 < ac_active ac \<and> ac_active ac \<le> 10 \<and> interval_speed ac now < 2 ^ 53 \<and> 0 \<le> ac_threshold ac \<longrightarrow>
     ac_active ac \<le> ac_active (fst (should_adjust ac now)))"
  using thread_bounds_parts [OF assms] by blast

lemma thread_bounds_witness:
  "threads_ok (foldl adaptive_exec (set_thread_count (new_adaptive_controller 0 8 1) 1)
     [AddSample 100 5, Adjust 4000000000, AddSample 90000000 6, Adjust 9000000000])"
  by (rule thread_bounds [THEN conjunct1]) (simp add: threads_ok_def set_thread_count_def new_adaptive_controller_def go_int)

end
