(* ===== verification/ClusterNode.thy ===== *)
theory ClusterNode
  imports Prelude GoString Retry
begin

text \<open>
  Cluster nodes, \<open>internal/cluster/node.go\<close>, and the membership table with its bounded event channel,
  \<open>internal/cluster/membership.go\<close>. Handlers are opaque names; \<open>ms_delivered\<close> records every call made to
  one of them. The interfaces of the machine are an argument of the address resolution.
\<close>

section \<open>Nodes\<close>

datatype node_status = StatusOnline | StatusOffline

record node =
  n_id :: string
  n_name :: string
  n_addr :: string
  n_grpc_port :: int
  n_api_port :: int
  n_status :: node_status
  n_load :: int
  n_tags :: "string \<rightharpoonup> string"
  n_last_seen :: instant

definition is_online :: "node \<Rightarrow> bool" where
  "is_online n \<longleftrightarrow> n_status n = StatusOnline"

definition full_addr :: "node \<Rightarrow> string" where
  "full_addr n = n_addr n @ '':'' @ show_int (n_grpc_port n)"

definition update_seen :: "instant \<Rightarrow> node \<Rightarrow> node" where
  "update_seen now n = n\<lparr>n_last_seen := now, n_status := StatusOnline\<rparr>"

definition mark_offline :: "node \<Rightarrow> node" where
  "mark_offline n = n\<lparr>n_status := StatusOffline\<rparr>"

definition get_load :: "node \<Rightarrow> int" where
  "get_load n = n_load n"

definition set_load :: "int \<Rightarrow> node \<Rightarrow> node" where
  "set_load l n = n\<lparr>n_load := l\<rparr>"

definition get_node_status :: "node \<Rightarrow> node_status" where
  "get_node_status n = n_status n"

section \<open>The local node\<close>

record local_node =
  ln_node :: node
  ln_info_node :: node
  ln_started :: instant
  ln_version :: string
  ln_resolved :: string
  ln_local_ip :: string

text \<open>One address of a network interface: skipped ones, and usable ones with their IPv4 text if any.\<close>

datatype iface_addr = OtherAddr | LocalScope | Usable "string option"

fun first_ipv4 :: "iface_addr list \<Rightarrow> string option" where
  "first_ipv4 [] = None"
| "first_ipv4 (Usable (Some ip) # as) = Some ip"
| "first_ipv4 (_ # as) = first_ipv4 as"

definition resolve_addr :: "iface_addr list option \<Rightarrow> local_node \<Rightarrow> local_node" where
  "resolve_addr addrs lnode =
     (let ln1 = lnode\<lparr>ln_resolved := ''0.0.0.0''\<rparr> in
      case addrs of
        None \<Rightarrow> ln1
      | Some as \<Rightarrow> (case first_ipv4 as of
          None \<Rightarrow> ln1
        | Some ip \<Rightarrow> ln1\<lparr>ln_resolved := ip, ln_local_ip := ip, ln_node := (ln_node ln1)\<lparr>n_addr := ip\<rparr>\<rparr>))"

definition new_local_node ::
  "iface_addr list option \<Rightarrow> instant \<Rightarrow> string \<Rightarrow> string \<Rightarrow> int \<Rightarrow> int \<Rightarrow> (string \<rightharpoonup> string) \<Rightarrow> local_node" where
  "new_local_node addrs now nid nm gport aport tags =
     (let n = \<lparr>n_id = nid, n_name = nm, n_addr = [], n_grpc_port = gport, n_api_port = aport,
               n_status = StatusOnline, n_load = 0, n_tags = tags, n_last_seen = now\<rparr>;
          lnode = resolve_addr addrs \<lparr>ln_node = n, ln_info_node = n, ln_started = now, ln_version = ''0.1.0'',
                ln_resolved = [], ln_local_ip = []\<rparr>
      in lnode\<lparr>ln_info_node := ln_node lnode\<rparr>)"

definition local_set_load :: "int \<Rightarrow> local_node \<Rightarrow> local_node" where
  "local_set_load l lnode =
     (let l = (if l < 0 then 0 else l); l = (if l > 100 then 100 else l)
      in lnode\<lparr>ln_node := (ln_node lnode)\<lparr>n_load := l\<rparr>\<rparr>)"

definition local_set_tag :: "string \<Rightarrow> string \<Rightarrow> local_node \<Rightarrow> local_node" where
  "local_set_tag k v lnode = lnode\<lparr>ln_node := (ln_node lnode)\<lparr>n_tags := (n_tags (ln_node lnode))(k \<mapsto> v)\<rparr>\<rparr>"

definition local_set_addr :: "string \<Rightarrow> local_node \<Rightarrow> local_node" where
  "local_set_addr a lnode = lnode\<lparr>ln_node := (ln_node lnode)\<lparr>n_addr := a\<rparr>\<rparr>"

definition local_update_last_seen :: "instant \<Rightarrow> local_node \<Rightarrow> local_node" where
  "local_update_last_seen now lnode = lnode\<lparr>ln_node := (ln_node lnode)\<lparr>n_last_seen := now\<rparr>\<rparr>"

definition local_node_info :: "local_node \<Rightarrow> node \<times> instant \<times> string" where
  "local_node_info lnode = (ln_node lnode, ln_started lnode, ln_version lnode)"

section \<open>Membership\<close>

datatype cluster_event_type = EventNodeJoin | EventNodeLeave | EventNodeUpdate

record cluster_event =
  ce_type :: cluster_event_type
  ce_node :: node
  ce_time :: instant

record 'h membership =
  ms_members :: "string \<rightharpoonup> node"
  ms_events :: "cluster_event list"
  ms_handlers :: "'h list"
  ms_local :: string
  ms_stopped :: bool
  ms_delivered :: "('h \<times> cluster_event) list"

definition new_membership :: "string \<Rightarrow> 'h membership" where
  "new_membership me = \<lparr>ms_members = Map.empty, ms_events = [], ms_handlers = [], ms_local = me,
     ms_stopped = False, ms_delivered = []\<rparr>"

definition event_capacity :: nat where
  "event_capacity = 256"

definition emit_event :: "cluster_event \<Rightarrow> 'h membership \<Rightarrow> 'h membership" where
  "emit_event e m =
     (if ms_stopped m then m
      else if length (ms_events m) < event_capacity then m\<lparr>ms_events := ms_events m @ [e]\<rparr>
      else m)"

text \<open>A handler that panics is recovered and the next one runs: every handler gets the event.\<close>

definition dispatch_event :: "cluster_event \<Rightarrow> 'h membership \<Rightarrow> 'h membership" where
  "dispatch_event e m = m\<lparr>ms_delivered := ms_delivered m @ map (\<lambda>h. (h, e)) (ms_handlers m)\<rparr>"

text \<open>One turn of the event loop.\<close>

definition event_step :: "'h membership \<Rightarrow> 'h membership" where
  "event_step m =
     (case ms_events m of [] \<Rightarrow> m | e # es \<Rightarrow> dispatch_event e (m\<lparr>ms_events := es\<rparr>))"

definition refresh_member :: "node \<Rightarrow> instant \<Rightarrow> node \<Rightarrow> node" where
  "refresh_member n now old =
     update_seen now (set_load (n_load n)
       (old\<lparr>n_addr := n_addr n, n_grpc_port := n_grpc_port n, n_api_port := n_api_port n, n_tags := n_tags n\<rparr>))"

definition add_member :: "node \<Rightarrow> instant \<Rightarrow> 'h membership \<Rightarrow> 'h membership" where
  "add_member n now m =
     (case ms_members m (n_id n) of
        Some old \<Rightarrow>
          let new = refresh_member n now old in
          emit_event \<lparr>ce_type = EventNodeUpdate, ce_node = new, ce_time = now\<rparr>
            (m\<lparr>ms_members := (ms_members m)(n_id n \<mapsto> new)\<rparr>)
      | None \<Rightarrow>
          let new = update_seen now n in
          emit_event \<lparr>ce_type = EventNodeJoin, ce_node = new, ce_time = now\<rparr>
            (m\<lparr>ms_members := (ms_members m)(n_id n \<mapsto> new)\<rparr>))"

definition remove_member :: "string \<Rightarrow> instant \<Rightarrow> 'h membership \<Rightarrow> 'h membership" where
  "remove_member nid now m =
     (case ms_members m nid of
        None \<Rightarrow> m
      | Some n \<Rightarrow>
          emit_event \<lparr>ce_type = EventNodeLeave, ce_node = mark_offline n, ce_time = now\<rparr>
            (m\<lparr>ms_members := (ms_members m)(nid := None)\<rparr>))"

definition get_member :: "string \<Rightarrow> 'h membership \<Rightarrow> node option" where
  "get_member nid m = ms_members m nid"

text \<open>\<open>ks\<close> is the order in which the map is iterated.\<close>

definition members :: "string list \<Rightarrow> 'h membership \<Rightarrow> node list" where
  "members ks m = map_values ks (ms_members m)"

definition member_count :: "'h membership \<Rightarrow> int" where
  "member_count m = int (card (dom (ms_members m)))"

definition online_members :: "string list \<Rightarrow> 'h membership \<Rightarrow> node list" where
  "online_members ks m = filter is_online (members ks m)"

definition online_count :: "string list \<Rightarrow> 'h membership \<Rightarrow> int" where
  "online_count ks m = int (length (online_members ks m))"

fun merge_members :: "node list \<Rightarrow> instant \<Rightarrow> 'h membership \<Rightarrow> 'h membership" where
  "merge_members [] now m = m"
| "merge_members (n # ns) now m =
     merge_members ns now (if n_id n = ms_local m then m else add_member n now m)"

definition expired_ids :: "string list \<Rightarrow> duration \<Rightarrow> instant \<Rightarrow> 'h membership \<Rightarrow> string list" where
  "expired_ids ks timeout now m =
     filter (\<lambda>k. case ms_members m k of
         None \<Rightarrow> False | Some n \<Rightarrow> is_online n \<and> now - n_last_seen n > timeout) ks"

definition check_timeouts :: "string list \<Rightarrow> duration \<Rightarrow> instant \<Rightarrow> 'h membership \<Rightarrow> 'h membership \<times> string list" where
  "check_timeouts ks timeout now m =
     (let gone = expired_ids ks timeout now m;
          events = map (\<lambda>k. \<lparr>ce_type = EventNodeLeave, ce_node = mark_offline (the (ms_members m k)), ce_time = now\<rparr>) gone;
          m1 = m\<lparr>ms_members := (\<lambda>k. if k \<in> set gone then None else ms_members m k)\<rparr>
      in (fold emit_event events m1, gone))"

definition on_event :: "'h \<Rightarrow> 'h membership \<Rightarrow> 'h membership" where
  "on_event h m = m\<lparr>ms_handlers := ms_handlers m @ [h]\<rparr>"

text \<open>\<open>Shutdown\<close> stops new events and waits until the loop has drained the channel.\<close>

definition shutdown_members :: "'h membership \<Rightarrow> 'h membership" where
  "shutdown_members m =
     (if ms_stopped m then m
      else fold (\<lambda>_. event_step) [0..<length (ms_events m)] (m\<lparr>ms_stopped := True\<rparr>))"

section \<open>Runs\<close>

datatype member_op =
    AddMember node instant
  | RemoveMember string instant
  | MergeMembers "node list" instant
  | CheckTimeouts "string list" duration instant
  | EventTurn

fun member_exec :: "'h membership \<Rightarrow> member_op \<Rightarrow> 'h membership" where
  "member_exec m (AddMember n t) = add_member n t m"
| "member_exec m (RemoveMember nid t) = remove_member nid t m"
| "member_exec m (MergeMembers ns t) = merge_members ns t m"
| "member_exec m (CheckTimeouts ks d t) = fst (check_timeouts ks d t m)"
| "member_exec m EventTurn = event_step m"

definition members_ok :: "'h membership \<Rightarrow> bool" where
  "members_ok m \<longleftrightarrow> finite (dom (ms_members m)) \<and>
     (\<forall>k n. ms_members m k = Some n \<longrightarrow> n_id n = k \<and> is_online n)"

lemma emit_event_members [simp]: "ms_members (emit_event e m) = ms_members m" "ms_local (emit_event e m) = ms_local m"
  "ms_stopped (emit_event e m) = ms_stopped m" "ms_delivered (emit_event e m) = ms_delivered m"
  by (simp_all add: emit_event_def)

lemma fold_emit_members [simp]: "ms_members (fold emit_event es m) = ms_members m"
  by (induction es arbitrary: m) simp_all

lemma members_ok_emit [simp]: "members_ok (emit_event e m) = members_ok m"
  by (simp add: members_ok_def)

lemma members_ok_add: "members_ok m \<Longrightarrow> members_ok (add_member n t m)"
  by (auto simp: add_member_def Let_def members_ok_def refresh_member_def update_seen_def set_load_def is_online_def
      split: option.split)

lemma members_ok_merge: "members_ok m \<Longrightarrow> members_ok (merge_members ns t m)"
  by (induction ns t m rule: merge_members.induct) (simp_all add: members_ok_add)

lemma members_ok_event_step: "members_ok m \<Longrightarrow> members_ok (event_step m)"
  by (simp add: event_step_def dispatch_event_def members_ok_def split: list.split)

lemma members_ok_exec: "members_ok m \<Longrightarrow> members_ok (member_exec m x)"
proof (cases x)
  case (RemoveMember nid t)
  then show "members_ok m \<Longrightarrow> ?thesis"
    by (auto simp: remove_member_def members_ok_def split: option.split)
next
  case (CheckTimeouts ks d t)
  assume ok: "members_ok m"
  have "dom (\<lambda>k. if k \<in> set (expired_ids ks d t m) then None else ms_members m k) \<subseteq> dom (ms_members m)"
    by (auto split: if_splits)
  then have "finite (dom (\<lambda>k. if k \<in> set (expired_ids ks d t m) then None else ms_members m k))"
    using ok finite_subset by (auto simp: members_ok_def)
  with CheckTimeouts ok show ?thesis by (simp add: check_timeouts_def Let_def members_ok_def)
qed (simp_all add: members_ok_add members_ok_merge members_ok_event_step)

text \<open>
  A member of the table is always online and stored under its own name: nodes that time out or leave are
  deleted at once. So \<open>OnlineCount\<close> always equals \<open>MemberCount\<close>, and the number of offline nodes that
  the statistics derive from the two is always zero.
\<close>
theorem members_always_online:
  assumes "iter_order ks (ms_members (foldl member_exec (new_membership me :: 'h membership) ops))"
  shows "let m = foldl member_exec (new_membership me :: 'h membership) ops in
    (\<forall>n \<in> set (members ks m). is_online n) \<and> online_count ks m = member_count m"
proof -
  have ok: "members_ok (foldl member_exec m ops)" if "members_ok m" for m :: "'h membership"
    using that by (induction ops arbitrary: m) (simp_all add: members_ok_exec)
  have "members_ok (new_membership me :: 'h membership)" by (simp add: members_ok_def new_membership_def)
  from ok [OF this] have on: "n \<in> ran (ms_members (foldl member_exec (new_membership me :: 'h membership) ops)) \<Longrightarrow> is_online n" for n
    by (auto simp: members_ok_def ran_def)
  then have all: "\<forall>n \<in> set (members ks (foldl member_exec (new_membership me :: 'h membership) ops)). is_online n"
    using set_map_values [OF assms] by (metis members_def)
  then have "online_members ks (foldl member_exec (new_membership me :: 'h membership) ops) = members ks (foldl member_exec (new_membership me :: 'h membership) ops)"
    by (simp add: online_members_def)
  with all show ?thesis using iter_order_length [OF assms]
    by (simp add: Let_def online_count_def member_count_def members_def)
qed

definition demo_node :: "string \<Rightarrow> int \<Rightarrow> node" where
  "demo_node nid l = \<lparr>n_id = nid, n_name = nid, n_addr = ''10.0.0.1'', n_grpc_port = 9000, n_api_port = 8080,
     n_status = StatusOffline, n_load = l, n_tags = Map.empty, n_last_seen = 0\<rparr>"

lemma members_always_online_witness:
  "online_count [''b''] (foldl member_exec (new_membership ''x'' :: nat membership)
      [AddMember (demo_node ''a'' 1) 5, AddMember (demo_node ''b'' 2) 70, CheckTimeouts [''b'', ''a''] 60 100]) = 1"
proof -
  let ?m = "foldl member_exec (new_membership ''x'' :: nat membership)
      [AddMember (demo_node ''a'' 1) 5, AddMember (demo_node ''b'' 2) 70, CheckTimeouts [''b'', ''a''] 60 100]"
  have "ms_members ?m = [''b'' \<mapsto> update_seen 70 (demo_node ''b'' 2)]"
    by (auto simp: new_membership_def add_member_def check_timeouts_def expired_ids_def demo_node_def update_seen_def
        is_online_def Let_def fun_eq_iff emit_event_def)
  then have i: "iter_order [''b''] (ms_members ?m)" and c: "member_count ?m = 1"
    by (simp_all add: iter_order_def member_count_def)
  from members_always_online [OF i] have "online_count [''b''] ?m = member_count ?m" by (simp only: Let_def simp_thms)
  then show ?thesis unfolding c .
qed

text \<open>Replaying the events of a run on a set of names.\<close>

fun replay :: "string set \<Rightarrow> cluster_event list \<Rightarrow> string set" where
  "replay s [] = s"
| "replay s (e # es) =
     replay (case ce_type e of
         EventNodeJoin \<Rightarrow> insert (n_id (ce_node e)) s
       | EventNodeLeave \<Rightarrow> s - {n_id (ce_node e)}
       | EventNodeUpdate \<Rightarrow> s) es"

lemma replay_append: "replay s (es @ fs) = replay (replay s es) fs"
  by (induction es arbitrary: s) simp_all

text \<open>The events one operation sends, and whether they all find room in the channel.\<close>

fun fits :: "'h membership \<Rightarrow> member_op \<Rightarrow> bool" where
  "fits m (AddMember n t) = (length (ms_events m) < event_capacity)"
| "fits m (RemoveMember nid t) = (length (ms_events m) < event_capacity)"
| "fits m (MergeMembers ns t) = (length (ms_events m) + length ns \<le> event_capacity)"
| "fits m (CheckTimeouts ks d t) = (length (ms_events m) + length (expired_ids ks d t m) \<le> event_capacity \<and> distinct ks)"
| "fits m EventTurn = True"

text \<open>With a single handler the delivered events and the queued ones are the events accepted so far.\<close>

definition accepted :: "'h membership \<Rightarrow> cluster_event list" where
  "accepted m = map snd (ms_delivered m) @ ms_events m"

definition in_step :: "'h membership \<Rightarrow> bool" where
  "in_step m \<longleftrightarrow> members_ok m \<and> \<not> ms_stopped m \<and> length (ms_handlers m) = 1 \<and>
     replay {} (accepted m) = dom (ms_members m)"

lemma emit_accepted: "\<not> ms_stopped m \<Longrightarrow> length (ms_events m) < event_capacity \<Longrightarrow>
    accepted (emit_event e m) = accepted m @ [e] \<and> length (ms_events (emit_event e m)) = Suc (length (ms_events m)) \<and>
    ms_handlers (emit_event e m) = ms_handlers m"
  by (simp add: accepted_def emit_event_def)

lemma accepted_members [simp]: "accepted (m\<lparr>ms_members := f\<rparr>) = accepted m"
  by (simp add: accepted_def)

lemma add_in_step:
  assumes "in_step m" "length (ms_events m) < event_capacity"
  shows "in_step (add_member n t m) \<and> length (ms_events (add_member n t m)) = Suc (length (ms_events m))"
proof -
  have ok: "members_ok (add_member n t m)" using assms(1) by (simp add: in_step_def members_ok_add)
  show ?thesis
  proof (cases "ms_members m (n_id n)")
    case None
    let ?e = "\<lparr>ce_type = EventNodeJoin, ce_node = update_seen t n, ce_time = t\<rparr>"
    let ?m = "m\<lparr>ms_members := (ms_members m)(n_id n \<mapsto> update_seen t n)\<rparr>"
    have a: "add_member n t m = emit_event ?e ?m" using None by (simp add: add_member_def Let_def)
    from emit_accepted [of ?m ?e] assms ok show ?thesis
      unfolding a by (auto simp: in_step_def replay_append update_seen_def)
  next
    case (Some old)
    let ?new = "refresh_member n t old"
    let ?e = "\<lparr>ce_type = EventNodeUpdate, ce_node = ?new, ce_time = t\<rparr>"
    let ?m = "m\<lparr>ms_members := (ms_members m)(n_id n \<mapsto> ?new)\<rparr>"
    have a: "add_member n t m = emit_event ?e ?m" using Some by (simp add: add_member_def Let_def)
    have "n_id n \<in> dom (ms_members m)" using Some by auto
    with emit_accepted [of ?m ?e] assms ok show ?thesis
      unfolding a by (auto simp: in_step_def replay_append)
  qed
qed

lemma merge_in_step:
  "in_step m \<Longrightarrow> length (ms_events m) + length ns \<le> event_capacity \<Longrightarrow> in_step (merge_members ns t m)"
proof (induction ns arbitrary: m)
  case (Cons n ns)
  show ?case
  proof (cases "n_id n = ms_local m")
    case True
    with Cons show ?thesis by simp
  next
    case False
    with Cons add_in_step [OF Cons.prems(1), of n t] show ?thesis by simp
  qed
qed simp

lemma leave_events:
  assumes "\<not> ms_stopped m" "length (ms_events m) + length gone \<le> event_capacity"
  shows "accepted (fold emit_event (map f gone) m) = accepted m @ map f gone \<and>
    \<not> ms_stopped (fold emit_event (map f gone) m) \<and> ms_handlers (fold emit_event (map f gone) m) = ms_handlers m"
  using assms
proof (induction gone arbitrary: m)
  case (Cons g gone)
  then have "length (ms_events m) < event_capacity" by simp
  with emit_accepted [of m "f g"] Cons show ?case by simp
qed simp

lemma replay_leaves:
  "\<forall>e \<in> set es. ce_type e = EventNodeLeave \<Longrightarrow> replay s es = s - (n_id \<circ> ce_node) ` set es"
  by (induction es arbitrary: s) auto

lemma exec_in_step:
  assumes "in_step m" "fits m x"
  shows "in_step (member_exec m x)"
proof (cases x)
  case (AddMember n t)
  with add_in_step [OF assms(1)] assms(2) show ?thesis by simp
next
  case (RemoveMember nid t)
  have ok: "members_ok (remove_member nid t m)" using members_ok_exec [of m x] assms(1) RemoveMember by (simp add: in_step_def)
  show ?thesis
  proof (cases "ms_members m nid")
    case None
    with assms(1) RemoveMember show ?thesis by (simp add: remove_member_def)
  next
    case (Some n)
    let ?e = "\<lparr>ce_type = EventNodeLeave, ce_node = mark_offline n, ce_time = t\<rparr>"
    let ?m = "m\<lparr>ms_members := (ms_members m)(nid := None)\<rparr>"
    have a: "remove_member nid t m = emit_event ?e ?m" using Some by (simp add: remove_member_def)
    have "n_id n = nid" using Some assms(1) by (auto simp: in_step_def members_ok_def)
    with emit_accepted [of ?m ?e] assms ok RemoveMember show ?thesis
      unfolding a by (auto simp: in_step_def replay_append mark_offline_def a)
  qed
next
  case (MergeMembers ns t)
  with merge_in_step [OF assms(1)] assms(2) show ?thesis by simp
next
  case (CheckTimeouts ks d t)
  let ?gone = "expired_ids ks d t m"
  let ?f = "\<lambda>k. \<lparr>ce_type = EventNodeLeave, ce_node = mark_offline (the (ms_members m k)), ce_time = t\<rparr>"
  let ?m = "m\<lparr>ms_members := (\<lambda>k. if k \<in> set ?gone then None else ms_members m k)\<rparr>"
  have ok: "members_ok (member_exec m x)" by (rule members_ok_exec) (use assms(1) in \<open>simp add: in_step_def\<close>)
  have l: "accepted (fold emit_event (map ?f ?gone) ?m) = accepted m @ map ?f ?gone \<and>
      \<not> ms_stopped (fold emit_event (map ?f ?gone) ?m) \<and> ms_handlers (fold emit_event (map ?f ?gone) ?m) = ms_handlers m"
    using leave_events [of ?m ?gone ?f] assms CheckTimeouts by (simp add: in_step_def)
  have ids: "(n_id \<circ> ce_node) ` set (map ?f ?gone) = set ?gone"
  proof -
    have "n_id (the (ms_members m k)) = k" if "k \<in> set ?gone" for k
      using that assms(1) by (auto simp: expired_ids_def in_step_def members_ok_def split: option.splits)
    then show ?thesis by (force simp: mark_offline_def image_image)
  qed
  have "replay (dom (ms_members m)) (map ?f ?gone) = dom (ms_members m) - set ?gone"
    unfolding ids [symmetric] by (rule replay_leaves) simp
  moreover have "dom (\<lambda>k. if k \<in> set ?gone then None else ms_members m k) = dom (ms_members m) - set ?gone"
    by (auto split: if_splits)
  ultimately show ?thesis
    using l ok assms(1) CheckTimeouts by (simp add: in_step_def check_timeouts_def Let_def replay_append)
next
  case EventTurn
  show ?thesis
  proof (cases "ms_events m")
    case Nil
    with EventTurn assms(1) show ?thesis by (simp add: event_step_def)
  next
    case (Cons e es)
    obtain h where "ms_handlers m = [h]" using assms(1) by (auto simp: in_step_def length_Suc_conv)
    with Cons EventTurn assms(1) show ?thesis
      by (simp add: in_step_def event_step_def dispatch_event_def accepted_def members_ok_def)
  qed
qed

text \<open>Every operation of the run finds room for its events.\<close>

fun no_overflow :: "'h membership \<Rightarrow> member_op list \<Rightarrow> bool" where
  "no_overflow m [] = True"
| "no_overflow m (x # xs) = (fits m x \<and> no_overflow (member_exec m x) xs)"



end
