(* ===== verification/Scheduler.thy ===== *)
theory Scheduler
  imports TaskModel ClusterNode ServerStat
begin

text \<open>
  The cluster scheduler, \<open>internal/cluster/scheduler.go\<close>. A task is a pointer: \<open>sc_heap\<close> is the store it
  points into, and both the queue map and the dispatch channel hold references to it. \<open>sc_timers\<close> are the
  pending \<open>AfterFunc\<close> requeues, \<open>sc_sent\<close> is the record of the RPC calls made. A sort is any function that
  keeps the contract of \<open>sort.Slice\<close>.
\<close>

section \<open>State\<close>

type_synonym task_ref = nat

record submit_request =
  sr_url :: string
  sr_output :: string
  sr_node :: string

record 'a rpc_client =
  rc_addr :: string
  rc_auth :: 'a

record 'a scheduler =
  sc_nodes :: "string \<rightharpoonup> node"
  sc_queue :: "string \<rightharpoonup> task_ref"
  sc_heap :: "task_ref \<Rightarrow> task"
  sc_local :: string
  sc_chan :: "task_ref list"
  sc_looping :: bool
  sc_stopped :: bool
  sc_auth :: 'a
  sc_clients :: "(string \<rightharpoonup> 'a rpc_client) option"
  sc_timers :: "(instant \<times> task_ref) list"
  sc_sent :: "(task_ref \<times> 'a rpc_client \<times> submit_request \<times> string option) list"

definition chan_capacity :: nat where
  "chan_capacity = 1024"

definition new_scheduler :: "string \<Rightarrow> 'a \<Rightarrow> (task_ref \<Rightarrow> task) \<Rightarrow> 'a scheduler" where
  "new_scheduler me no_auth heap =
     \<lparr>sc_nodes = Map.empty, sc_queue = Map.empty, sc_heap = heap, sc_local = me, sc_chan = [],
      sc_looping = False, sc_stopped = False, sc_auth = no_auth, sc_clients = None, sc_timers = [], sc_sent = []\<rparr>"

definition set_cluster_auth :: "'a \<Rightarrow> 'a scheduler \<Rightarrow> 'a scheduler" where
  "set_cluster_auth a s = s\<lparr>sc_auth := a\<rparr>"

section \<open>Clients\<close>

definition new_rpc_client :: "string \<Rightarrow> 'a \<Rightarrow> 'a rpc_client" where
  "new_rpc_client addr a = \<lparr>rc_addr = addr, rc_auth = a\<rparr>"

definition get_or_create_client :: "node \<Rightarrow> 'a scheduler \<Rightarrow> 'a scheduler \<times> 'a rpc_client" where
  "get_or_create_client n s =
     (let addr = full_addr n;
          cs = (case sc_clients s of None \<Rightarrow> Map.empty | Some cs \<Rightarrow> cs)
      in case cs addr of
           Some c \<Rightarrow> (s\<lparr>sc_clients := Some cs\<rparr>, c)
         | None \<Rightarrow> let c = new_rpc_client addr (sc_auth s) in (s\<lparr>sc_clients := Some (cs(addr \<mapsto> c))\<rparr>, c))"

definition close_clients :: "'a scheduler \<Rightarrow> 'a scheduler" where
  "close_clients s = s\<lparr>sc_clients := None\<rparr>"

definition start_scheduler :: "'a scheduler \<Rightarrow> 'a scheduler" where
  "start_scheduler s = s\<lparr>sc_looping := True\<rparr>"

text \<open>\<open>Stop\<close> cancels the context, waits for the dispatch loop to end and then closes the clients.\<close>

definition stop_begins :: "'a scheduler \<Rightarrow> 'a scheduler" where
  "stop_begins s = s\<lparr>sc_stopped := True\<rparr>"

definition stop_ends :: "'a scheduler \<Rightarrow> 'a scheduler" where
  "stop_ends s = (if sc_stopped s \<and> \<not> sc_looping s then close_clients s else s)"

section \<open>Nodes and tasks\<close>

definition add_node :: "node \<Rightarrow> 'a scheduler \<Rightarrow> 'a scheduler" where
  "add_node n s = s\<lparr>sc_nodes := (sc_nodes s)(n_id n \<mapsto> n)\<rparr>"

definition remove_node :: "string \<Rightarrow> 'a scheduler \<Rightarrow> 'a scheduler" where
  "remove_node nid s = s\<lparr>sc_nodes := (sc_nodes s)(nid := None)\<rparr>"

definition update_node :: "node \<Rightarrow> 'a scheduler \<Rightarrow> 'a scheduler" where
  "update_node n s = s\<lparr>sc_nodes := (sc_nodes s)(n_id n \<mapsto> n)\<rparr>"

definition get_node :: "string \<Rightarrow> 'a scheduler \<Rightarrow> node option" where
  "get_node nid s = sc_nodes s nid"

definition get_all_nodes :: "string list \<Rightarrow> 'a scheduler \<Rightarrow> node list" where
  "get_all_nodes ks s = map_values ks (sc_nodes s)"

definition get_online_nodes :: "string list \<Rightarrow> 'a scheduler \<Rightarrow> node list" where
  "get_online_nodes ks s = filter is_online (map_values ks (sc_nodes s))"

text \<open>
  \<open>SubmitTask\<close> blocks while the channel is full; with a stopped scheduler and room in the channel either
  branch of the \<open>select\<close> can win, which \<open>send_wins\<close> decides.
\<close>

datatype submit_result = Submitted | SchedulerStopped | SubmitBlocked

definition submit_task :: "bool \<Rightarrow> task_ref \<Rightarrow> 'a scheduler \<Rightarrow> 'a scheduler \<times> submit_result" where
  "submit_task send_wins r s =
     (let tid = t_id (sc_heap s r); s1 = s\<lparr>sc_queue := (sc_queue s)(tid \<mapsto> r)\<rparr>;
          room = length (sc_chan s) < chan_capacity in
      if room \<and> (\<not> sc_stopped s \<or> send_wins) then (s1\<lparr>sc_chan := sc_chan s @ [r]\<rparr>, Submitted)
      else if sc_stopped s then (s1\<lparr>sc_queue := (sc_queue s1)(tid := None)\<rparr>, SchedulerStopped)
      else (s1, SubmitBlocked))"

definition remove_task :: "string \<Rightarrow> 'a scheduler \<Rightarrow> 'a scheduler" where
  "remove_task tid s = s\<lparr>sc_queue := (sc_queue s)(tid := None)\<rparr>"

definition get_task :: "string \<Rightarrow> 'a scheduler \<Rightarrow> task_ref option" where
  "get_task tid s = sc_queue s tid"

definition get_task_count :: "'a scheduler \<Rightarrow> int" where
  "get_task_count s = int (card (dom (sc_queue s)))"

definition assign :: "instant \<Rightarrow> string \<Rightarrow> task_ref \<Rightarrow> 'a scheduler \<Rightarrow> 'a scheduler" where
  "assign now nid r s = s\<lparr>sc_heap := (sc_heap s)(r := set_target_node now nid (sc_heap s r))\<rparr>"

section \<open>Dispatch\<close>

type_synonym node_sort = "(node \<Rightarrow> node \<Rightarrow> bool) \<Rightarrow> node list \<Rightarrow> node list"

definition load_less :: "node \<Rightarrow> node \<Rightarrow> bool" where
  "load_less a b \<longleftrightarrow> get_load a < get_load b"

definition select_node :: "node_sort \<Rightarrow> string list \<Rightarrow> 'a scheduler \<Rightarrow> node option" where
  "select_node srt ks s =
     (let cands = filter (\<lambda>n. is_online n \<and> get_load n < 80) (map_values ks (sc_nodes s)) in
      if cands = [] then None else Some (srt load_less cands ! 0))"

text \<open>
  \<open>reply\<close> is what the remote node answers: a task id, or an error. Both are only logged by the code.
\<close>

definition dispatch_task ::
  "node_sort \<Rightarrow> string list \<Rightarrow> instant \<Rightarrow> string option \<Rightarrow> task_ref \<Rightarrow> 'a scheduler \<Rightarrow> 'a scheduler" where
  "dispatch_task srt ks now reply r s =
     (case select_node srt ks s of
        None \<Rightarrow> s\<lparr>sc_timers := sc_timers s @ [(now + 5000000000, r)]\<rparr>
      | Some n \<Rightarrow>
          let s1 = assign now (n_id n) r s in
          if n_id n = sc_local s then s1
          else case get_or_create_client n s1 of (s2, c) \<Rightarrow>
            let req = \<lparr>sr_url = t_url (sc_heap s r), sr_output = t_output (sc_heap s r), sr_node = n_id n\<rparr>
            in s2\<lparr>sc_sent := sc_sent s2 @ [(r, c, req, reply)]\<rparr>)"

text \<open>
  One turn of the dispatch loop, and the expiry of the \<open>i\<close>-th requeue timer. With a cancelled context and
  a task in the channel either branch of the loop's \<open>select\<close> can win.
\<close>

definition dispatch_turn ::
  "node_sort \<Rightarrow> bool \<Rightarrow> string list \<Rightarrow> instant \<Rightarrow> string option \<Rightarrow> 'a scheduler \<Rightarrow> 'a scheduler" where
  "dispatch_turn srt task_wins ks now reply s =
     (if \<not> sc_looping s then s
      else case sc_chan s of
        [] \<Rightarrow> if sc_stopped s then s\<lparr>sc_looping := False\<rparr> else s
      | r # rs \<Rightarrow>
          if sc_stopped s \<and> \<not> task_wins then s\<lparr>sc_looping := False\<rparr>
          else dispatch_task srt ks now reply r (s\<lparr>sc_chan := rs\<rparr>))"

definition requeue_fires :: "nat \<Rightarrow> 'a scheduler \<Rightarrow> 'a scheduler" where
  "requeue_fires i s =
     (if length (sc_timers s) \<le> i then s
      else let r = snd (sc_timers s ! i); s1 = s\<lparr>sc_timers := take i (sc_timers s) @ drop (Suc i) (sc_timers s)\<rparr> in
        if sc_stopped s then s1
        else if length (sc_chan s) < chan_capacity then s1\<lparr>sc_chan := sc_chan s @ [r]\<rparr>
        else s1)"

section \<open>Rebalancing\<close>

text \<open>\<open>ks\<close> is the order in which the task map is iterated.\<close>

definition count_tasks_for_node :: "string list \<Rightarrow> string \<Rightarrow> 'a scheduler \<Rightarrow> int" where
  "count_tasks_for_node ks nid s =
     int (length (filter (\<lambda>r. t_target (sc_heap s r) = nid) (map_values ks (sc_queue s))))"

definition get_tasks_for_node :: "string list \<Rightarrow> string \<Rightarrow> 'a scheduler \<Rightarrow> string list" where
  "get_tasks_for_node ks nid s = filter (\<lambda>k. get_target_node (sc_heap s (the (sc_queue s k))) = nid) ks"

text \<open>The first node, from \<open>idx + i\<close> on and round the list, that is another node and online.\<close>

function find_candidate :: "string \<Rightarrow> node list \<Rightarrow> nat \<Rightarrow> nat \<Rightarrow> nat option" where
  "find_candidate from_id nodes idx i =
     (if i \<ge> length nodes then None
      else let c = nodes ! ((idx + i) mod length nodes) in
        if n_id c \<noteq> from_id \<and> is_online c then Some i else find_candidate from_id nodes idx (Suc i))"
  by pat_completeness auto
termination by (relation "measure (\<lambda>(from_id, nodes, idx, i). length nodes - i)") auto

declare find_candidate.simps [simp del]

fun reassign_loop ::
  "instant \<Rightarrow> string \<Rightarrow> int \<Rightarrow> node list \<Rightarrow> task_ref list \<Rightarrow> int \<Rightarrow> nat \<Rightarrow> 'a scheduler \<Rightarrow> 'a scheduler" where
  "reassign_loop now from_id cnt nodes [] moved idx s = s"
| "reassign_loop now from_id cnt nodes (r # rs) moved idx s =
     (if moved \<ge> cnt then s
      else if get_target_node (sc_heap s r) = from_id then
        (case find_candidate from_id nodes idx 0 of
           None \<Rightarrow> reassign_loop now from_id cnt nodes rs moved idx s
         | Some i \<Rightarrow>
             reassign_loop now from_id cnt nodes rs (moved + 1) ((idx + i + 1) mod length nodes)
               (assign now (n_id (nodes ! ((idx + i) mod length nodes))) r s))
      else reassign_loop now from_id cnt nodes rs moved idx s)"

definition reassign_tasks :: "instant \<Rightarrow> string \<Rightarrow> int \<Rightarrow> node list \<Rightarrow> string list \<Rightarrow> 'a scheduler \<Rightarrow> 'a scheduler" where
  "reassign_tasks now from_id cnt nodes ks s =
     reassign_loop now from_id cnt nodes (map_values ks (sc_queue s)) 0 0 s"

text \<open>Each reassignment iterates the task map anew: \<open>ord i\<close> is the order of the \<open>i\<close>-th.\<close>

definition average_tasks :: "int \<Rightarrow> int \<Rightarrow> int" where
  "average_tasks tasks nodes = f64_to_int (f64 (f64 (of_int tasks) / f64 (of_int nodes)))"

fun rebalance_loop ::
  "instant \<Rightarrow> (nat \<Rightarrow> string list) \<Rightarrow> int \<Rightarrow> node list \<Rightarrow> nat \<Rightarrow> node list \<Rightarrow> 'a scheduler \<Rightarrow> 'a scheduler" where
  "rebalance_loop now ord avg online i [] s = s"
| "rebalance_loop now ord avg online i (n # ns) s =
     (let current = count_tasks_for_node (ord i) (n_id n) s in
      rebalance_loop now ord avg online (Suc i) ns
        (if current > avg + 2 then reassign_tasks now (n_id n) (current - avg) online (ord i) s else s))"

definition rebalance :: "instant \<Rightarrow> string list \<Rightarrow> (nat \<Rightarrow> string list) \<Rightarrow> 'a scheduler \<Rightarrow> 'a scheduler" where
  "rebalance now ks ord s =
     (let online = filter is_online (map_values ks (sc_nodes s)) in
      if online = [] then s
      else rebalance_loop now ord (average_tasks (get_task_count s) (int (length online))) online 0 online s)"

section \<open>Choosing a node\<close>

lemma load_less_weak: "strict_weak load_less"
  unfolding strict_weak_def load_less_def by auto

context slice_sorter
begin

lemma first_is_least:
  assumes "strict_weak lt" "xs \<noteq> []"
  shows "srt lt xs ! 0 \<in> set xs" "x \<in> set xs \<Longrightarrow> \<not> lt x (srt lt xs ! 0)"
proof -
  have "srt lt xs \<noteq> []" using assms(2) same_length [of lt xs] by (metis length_0_conv)
  then have h: "srt lt xs ! 0 = hd (srt lt xs)" by (simp add: hd_conv_nth)
  show "srt lt xs ! 0 \<in> set xs" unfolding h using \<open>srt lt xs \<noteq> []\<close> same_elements [of lt xs] hd_in_set by blast
  show "x \<in> set xs \<Longrightarrow> \<not> lt x (srt lt xs ! 0)" unfolding h by (rule head_least [OF assms])
qed

end

text \<open>
  The scheduler picks an online node below 80 percent load and none with less load is left; it finds
  no node exactly when there is no such node. The local node is eligible like any other.
\<close>
theorem select_node_spec:
  assumes "slice_sorter srt" "iter_order ks (sc_nodes s)"
  shows "case select_node srt ks s of
      None \<Rightarrow> \<forall>n \<in> ran (sc_nodes s). is_online n \<longrightarrow> 80 \<le> n_load n
    | Some n \<Rightarrow> n \<in> ran (sc_nodes s) \<and> is_online n \<and> n_load n < 80 \<and>
        (\<forall>n' \<in> ran (sc_nodes s). is_online n' \<longrightarrow> n_load n \<le> n_load n')"
proof -
  let ?c = "filter (\<lambda>n. is_online n \<and> get_load n < 80) (map_values ks (sc_nodes s))"
  have set: "set ?c = {n \<in> ran (sc_nodes s). is_online n \<and> n_load n < 80}"
    using set_map_values [OF assms(2)] by (simp add: get_load_def)
  show ?thesis
  proof (cases "?c = []")
    case True
    then have "select_node srt ks s = None" by (simp add: select_node_def Let_def)
    moreover have "{n \<in> ran (sc_nodes s). is_online n \<and> n_load n < 80} = {}" unfolding set [symmetric] True by simp
    ultimately show ?thesis by (auto simp: not_less [symmetric])
  next
    case False
    let ?n = "srt load_less ?c ! 0"
    have sel: "select_node srt ks s = Some ?n" unfolding select_node_def Let_def by (simp only: False if_False)
    note fst = slice_sorter.first_is_least [OF assms(1) load_less_weak False]
    have n: "?n \<in> ran (sc_nodes s)" "is_online ?n" "n_load ?n < 80" using fst(1) unfolding set by simp_all
    have "n_load ?n \<le> n_load n'" if "n' \<in> ran (sc_nodes s)" "is_online n'" for n'
    proof (cases "n_load n' < 80")
      case True
      with that have "n' \<in> set ?c" unfolding set by simp
      from fst(2) [OF this] show ?thesis by (simp add: load_less_def get_load_def)
    next
      case False
      with n(3) show ?thesis by linarith
    qed
    with n show ?thesis unfolding sel by simp
  qed
qed

text \<open>A scheduler with two nodes and one submitted task.\<close>

definition online_demo :: "string \<Rightarrow> int \<Rightarrow> node" where
  "online_demo nid l = update_seen 1 (demo_node nid l)"

definition demo_task :: task where
  "demo_task = \<lparr>t_id = ''t1'', t_url = ''http://h/f'', t_output = ''f'', t_status = StatusPending, t_total = 0,
     t_downloaded = 0, t_speed = 0, t_created = 0, t_updated = 0, t_target = [], t_protocol = [],
     t_metadata = Map.empty, t_chunks = [], t_error = [], t_priority = 0, t_cktype = [], t_ckvalue = [],
     t_ctx = None, t_cancel = None\<rparr>"

definition demo_scheduler :: "unit scheduler" where
  "demo_scheduler =
     fst (submit_task True 0 (start_scheduler (add_node (online_demo ''b'' 30) (add_node (online_demo ''a'' 70)
       (new_scheduler ''me'' () (\<lambda>_. demo_task))))))"

lemma demo_scheduler_simps:
  "sc_nodes demo_scheduler = [''a'' \<mapsto> online_demo ''a'' 70, ''b'' \<mapsto> online_demo ''b'' 30]"
  "sc_queue demo_scheduler = [''t1'' \<mapsto> 0]" "sc_chan demo_scheduler = [0]" "sc_timers demo_scheduler = []"
  "sc_looping demo_scheduler" "\<not> sc_stopped demo_scheduler" "sc_local demo_scheduler = ''me''"
  "sc_heap demo_scheduler = (\<lambda>_. demo_task)" "sc_sent demo_scheduler = []" "sc_clients demo_scheduler = None"
  by (simp_all add: demo_scheduler_def new_scheduler_def add_node_def start_scheduler_def submit_task_def
      chan_capacity_def Let_def online_demo_def demo_node_def update_seen_def demo_task_def)

lemma demo_iter: "iter_order [''a'', ''b''] (sc_nodes demo_scheduler)"
  by (auto simp: demo_scheduler_simps iter_order_def)

lemma demo_select: "select_node insertion_sort [''a'', ''b''] demo_scheduler = Some (online_demo ''b'' 30)"
  by (simp add: select_node_def demo_scheduler_simps map_values_def online_demo_def demo_node_def update_seen_def
      is_online_def get_load_def load_less_def Let_def)

lemma select_node_spec_witness:
  "case select_node insertion_sort [''a'', ''b''] demo_scheduler of
     None \<Rightarrow> False | Some n \<Rightarrow> n_id n = ''b'' \<and> is_online n \<and> n_load n < 80"
  using select_node_spec [OF isort.slice_sorter_axioms demo_iter] unfolding demo_select
  by (simp add: online_demo_def demo_node_def update_seen_def)

section \<open>Runs\<close>

datatype sched_op =
    SubmitTask bool task_ref
  | RemoveTask string
  | AddNode node
  | UpdateNode node
  | RemoveNode string
  | DispatchTurn bool "string list" instant "string option"
  | RequeueFires nat
  | Rebalance instant "string list" "nat \<Rightarrow> string list"
  | StopBegins
  | StopEnds

fun sched_exec :: "node_sort \<Rightarrow> 'a scheduler \<Rightarrow> sched_op \<Rightarrow> 'a scheduler" where
  "sched_exec srt s (SubmitTask w r) = fst (submit_task w r s)"
| "sched_exec srt s (RemoveTask tid) = remove_task tid s"
| "sched_exec srt s (AddNode n) = add_node n s"
| "sched_exec srt s (UpdateNode n) = update_node n s"
| "sched_exec srt s (RemoveNode nid) = remove_node nid s"
| "sched_exec srt s (DispatchTurn w ks now reply) = dispatch_turn srt w ks now reply s"
| "sched_exec srt s (RequeueFires i) = requeue_fires i s"
| "sched_exec srt s (Rebalance now ks ord) = rebalance now ks ord s"
| "sched_exec srt s StopBegins = stop_begins s"
| "sched_exec srt s StopEnds = stop_ends s"

lemma assign_simps [simp]:
  "sc_queue (assign now nid r s) = sc_queue s" "sc_nodes (assign now nid r s) = sc_nodes s"
  "sc_chan (assign now nid r s) = sc_chan s" "sc_timers (assign now nid r s) = sc_timers s"
  "sc_sent (assign now nid r s) = sc_sent s" "sc_stopped (assign now nid r s) = sc_stopped s"
  "t_id (sc_heap (assign now nid r s) r') = t_id (sc_heap s r')"
  "t_target (sc_heap (assign now nid r s) r') = (if r' = r then nid else t_target (sc_heap s r'))"
  by (simp_all add: assign_def set_target_node_def)

lemma client_simps [simp]:
  "sc_queue (fst (get_or_create_client n s)) = sc_queue s" "sc_chan (fst (get_or_create_client n s)) = sc_chan s"
  "sc_timers (fst (get_or_create_client n s)) = sc_timers s" "sc_sent (fst (get_or_create_client n s)) = sc_sent s"
  "sc_heap (fst (get_or_create_client n s)) = sc_heap s"
  by (simp_all add: get_or_create_client_def Let_def split: option.split)

text \<open>Relabelling tasks is all that rebalancing does.\<close>

definition only_heap :: "'a scheduler \<Rightarrow> 'a scheduler \<Rightarrow> bool" where
  "only_heap s s' \<longleftrightarrow> s' = s\<lparr>sc_heap := sc_heap s'\<rparr>"

lemma only_heap_refl [simp]: "only_heap s s"
  by (simp add: only_heap_def)

lemma only_heap_trans: "only_heap s s' \<Longrightarrow> only_heap s' s'' \<Longrightarrow> only_heap s s''"
  unfolding only_heap_def by (metis scheduler.surjective scheduler.update_convs(3) scheduler.select_convs(3))

lemma only_heap_assign: "only_heap s (assign now nid r s)"
  by (simp add: only_heap_def assign_def)

lemma only_heap_reassign_loop: "only_heap s (reassign_loop now f cnt nodes rs moved idx s)"
proof (induction rs arbitrary: moved idx s)
  case (Cons r rs)
  then show ?case
    by (auto simp del: assign_simps split: option.split intro: only_heap_trans [OF only_heap_assign])
qed simp

lemma only_heap_rebalance_loop: "only_heap s (rebalance_loop now ord avg online i ns s)"
proof (induction ns arbitrary: i s)
  case (Cons n ns)
  have "only_heap s (reassign_tasks now (n_id n) cnt online (ord i) s)" for cnt
    by (simp add: reassign_tasks_def only_heap_reassign_loop)
  with only_heap_trans [OF this Cons.IH] Cons.IH show ?case by (simp add: Let_def)
qed simp

lemma only_heap_rebalance: "only_heap s (rebalance now ks ord s)"
  by (simp add: rebalance_def Let_def only_heap_rebalance_loop)

lemma only_heap_D:
  assumes "only_heap s s'"
  shows "sc_queue s' = sc_queue s" "sc_nodes s' = sc_nodes s" "sc_chan s' = sc_chan s" "sc_timers s' = sc_timers s"
    "sc_sent s' = sc_sent s" "sc_stopped s' = sc_stopped s"
  using assms unfolding only_heap_def
  by (metis scheduler.select_convs scheduler.surjective scheduler.update_convs(3))+

section \<open>Deliveries\<close>

text \<open>The calls made for a task, and its places in the channel and among the timers.\<close>

definition calls_for :: "task_ref \<Rightarrow> 'a scheduler \<Rightarrow> nat" where
  "calls_for r s = count_list (map fst (sc_sent s)) r"

definition pending_for :: "task_ref \<Rightarrow> 'a scheduler \<Rightarrow> nat" where
  "pending_for r s = count_list (sc_chan s) r + count_list (map snd (sc_timers s)) r"

fun submits_of :: "task_ref \<Rightarrow> sched_op list \<Rightarrow> nat" where
  "submits_of r [] = 0"
| "submits_of r (SubmitTask w r' # ops) = (if r' = r then 1 else 0) + submits_of r ops"
| "submits_of r (_ # ops) = submits_of r ops"

lemma dispatch_task_cases:
  obtains (requeue) "select_node srt ks s = None"
      "dispatch_task srt ks now reply r s = s\<lparr>sc_timers := sc_timers s @ [(now + 5000000000, r)]\<rparr>"
  | (here) n where "select_node srt ks s = Some n" "n_id n = sc_local s"
      "dispatch_task srt ks now reply r s = assign now (n_id n) r s"
  | (away) n s2 c where "select_node srt ks s = Some n" "n_id n \<noteq> sc_local s"
      "get_or_create_client n (assign now (n_id n) r s) = (s2, c)"
      "sc_chan s2 = sc_chan s" "sc_timers s2 = sc_timers s" "sc_sent s2 = sc_sent s" "sc_queue s2 = sc_queue s"
      "sc_heap s2 = (sc_heap s)(r := set_target_node now (n_id n) (sc_heap s r))"
      "dispatch_task srt ks now reply r s = s2\<lparr>sc_sent := sc_sent s @ [(r, c,
         \<lparr>sr_url = t_url (sc_heap s r), sr_output = t_output (sc_heap s r), sr_node = n_id n\<rparr>, reply)]\<rparr>"
proof (cases "select_node srt ks s")
  case None
  then show ?thesis by (intro requeue) (simp_all add: dispatch_task_def)
next
  case (Some n)
  show ?thesis
  proof (cases "n_id n = sc_local s")
    case True
    with Some show ?thesis by (intro here [of n]) (simp_all add: dispatch_task_def Let_def)
  next
    case False
    obtain s2 c where g: "get_or_create_client n (assign now (n_id n) r s) = (s2, c)"
      by (cases "get_or_create_client n (assign now (n_id n) r s)")
    note e0 = client_simps [of n "assign now (n_id n) r s", unfolded g fst_conv]
    have e: "sc_chan s2 = sc_chan s" "sc_timers s2 = sc_timers s" "sc_sent s2 = sc_sent s" "sc_queue s2 = sc_queue s"
      "sc_heap s2 = (sc_heap s)(r := set_target_node now (n_id n) (sc_heap s r))"
      by (simp_all add: e0) (simp add: assign_def)
    show ?thesis
      by (rule away [OF Some False g e]) (use Some False g e in \<open>simp add: dispatch_task_def Let_def\<close>)
  qed
qed

lemma dispatch_task_budget:
  "calls_for r (dispatch_task srt ks now reply r' s) + pending_for r (dispatch_task srt ks now reply r' s)
     \<le> calls_for r s + pending_for r s + (if r' = r then 1 else 0)"
  by (rule dispatch_task_cases [of srt ks s now reply r']) (simp_all add: calls_for_def pending_for_def)

lemma dispatch_task_calls: "calls_for r s \<le> calls_for r (dispatch_task srt ks now reply r' s)"
  by (rule dispatch_task_cases [of srt ks s now reply r']) (simp_all add: calls_for_def)

lemma take_drop_count:
  "i < length xs \<Longrightarrow> count_list (take i xs @ drop (Suc i) xs) x + (if xs ! i = x then 1 else 0) = count_list xs x"
  by (subst (3) id_take_nth_drop [of i xs]) simp_all

lemma sched_exec_budget:
  "calls_for r (sched_exec srt s x) + pending_for r (sched_exec srt s x) \<le>
     calls_for r s + pending_for r s + submits_of r [x]"
proof (cases x)
  case (SubmitTask w r')
  then show ?thesis by (simp add: submit_task_def Let_def calls_for_def pending_for_def)
next
  case (DispatchTurn w ks now reply)
  show ?thesis
  proof (cases "sc_chan s")
    case Nil
    with DispatchTurn show ?thesis by (simp add: dispatch_turn_def calls_for_def pending_for_def)
  next
    case (Cons r' rs)
    with DispatchTurn dispatch_task_budget [of r srt ks now reply r' "s\<lparr>sc_chan := rs\<rparr>"]
    show ?thesis by (auto simp: dispatch_turn_def calls_for_def pending_for_def)
  qed
next
  case (RequeueFires i)
  show ?thesis
  proof (cases "i < length (sc_timers s)")
    case True
    with take_drop_count [of i "map snd (sc_timers s)" r] RequeueFires
    show ?thesis by (auto simp: requeue_fires_def Let_def calls_for_def pending_for_def take_map drop_map)
  next
    case False
    with RequeueFires show ?thesis by (simp add: requeue_fires_def)
  qed
next
  case (Rebalance now ks ord)
  with only_heap_D [OF only_heap_rebalance, of now ks ord s] show ?thesis
    by (simp add: calls_for_def pending_for_def)
qed (simp_all add: calls_for_def pending_for_def remove_task_def add_node_def update_node_def remove_node_def
    stop_begins_def stop_ends_def close_clients_def)

lemma sched_run_budget:
  "calls_for r (foldl (sched_exec srt) s ops) + pending_for r (foldl (sched_exec srt) s ops) \<le>
     calls_for r s + pending_for r s + submits_of r ops"
proof (induction ops arbitrary: s)
  case (Cons x xs)
  have "submits_of r (x # xs) = submits_of r [x] + submits_of r xs" by (cases x) simp_all
  with Cons [of "sched_exec srt s x"] sched_exec_budget [of r srt s x] show ?case by simp
qed simp


lemma calls_grow: "calls_for r s \<le> calls_for r (sched_exec srt s x)"
proof (cases x)
  case (DispatchTurn w ks now reply)
  have "calls_for r s = calls_for r (s\<lparr>sc_chan := rs\<rparr>)" for rs by (simp add: calls_for_def)
  with DispatchTurn dispatch_task_calls [of r "s\<lparr>sc_chan := tl (sc_chan s)\<rparr>" srt ks now reply] show ?thesis
    by (auto simp: dispatch_turn_def split: list.split) (simp_all add: calls_for_def)
next
  case (Rebalance now ks ord)
  with only_heap_D [OF only_heap_rebalance, of now ks ord s] show ?thesis by (simp add: calls_for_def)
qed (simp_all add: calls_for_def submit_task_def Let_def requeue_fires_def remove_task_def add_node_def
    update_node_def remove_node_def stop_begins_def stop_ends_def close_clients_def)

lemma calls_grow_run: "calls_for r s \<le> calls_for r (foldl (sched_exec srt) s ops)"
  by (induction ops arbitrary: s) (auto intro: order_trans [OF calls_grow])

text \<open>
  The code's error path loses the task: once the call to the chosen remote node has been made, no later
  operation but a new submission of the task makes another one, although the call failed and the task
  stays in the queue, labelled with that node.
\<close>
theorem failed_dispatch_lost:
  assumes "sc_looping s" "\<not> sc_stopped s" "sc_chan s = r # rs" "r \<notin> set rs" "r \<notin> snd ` set (sc_timers s)"
    "select_node srt ks s = Some n" "n_id n \<noteq> sc_local s" "submits_of r ops = 0"
  shows "let s1 = dispatch_turn srt w ks now None s; s2 = foldl (sched_exec srt) s1 ops in
    sc_queue s1 = sc_queue s \<and> t_target (sc_heap s1 r) = n_id n \<and>
    calls_for r s1 = calls_for r s + 1 \<and> calls_for r s2 = calls_for r s1"
proof -
  let ?s = "s\<lparr>sc_chan := rs\<rparr>" and ?s1 = "dispatch_turn srt w ks now None s"
  have e: "?s1 = dispatch_task srt ks now None r ?s" using assms(1-3) by (simp add: dispatch_turn_def)
  have sel: "select_node srt ks ?s = Some n" using assms(6) by (simp add: select_node_def)
  have p: "count_list rs r = 0" "count_list (map snd (sc_timers s)) r = 0"
    using assms(4,5) by (simp_all add: count_list_0_iff)
  have l: "sc_local ?s = sc_local s" by simp
  have "sc_queue ?s1 = sc_queue s \<and> t_target (sc_heap ?s1 r) = n_id n \<and> calls_for r ?s1 = calls_for r s + 1 \<and> pending_for r ?s1 = 0"
    unfolding e
    by (rule dispatch_task_cases [of srt ks ?s now None r])
      (use sel assms(7) l p in \<open>simp_all add: calls_for_def pending_for_def set_target_node_def\<close>)
  moreover from this have "calls_for r (foldl (sched_exec srt) ?s1 ops) = calls_for r ?s1"
    using sched_run_budget [of r srt ?s1 ops] calls_grow_run [of r ?s1 srt ops] assms(8) by simp
  ultimately show ?thesis by (simp add: Let_def)
qed

lemma failed_dispatch_lost_witness:
  "calls_for 0 (foldl (sched_exec insertion_sort) (dispatch_turn insertion_sort True [''a'', ''b''] 7 None demo_scheduler)
     [RequeueFires 0, DispatchTurn True [''a'', ''b''] 9 None, RemoveNode ''b'', DispatchTurn True [''a''] 11 (Some ''x'')]) = 1"
proof -
  have "n_id (online_demo ''b'' 30) \<noteq> sc_local demo_scheduler"
    by (simp add: demo_scheduler_simps online_demo_def demo_node_def update_seen_def)
  from failed_dispatch_lost [OF demo_scheduler_simps(5,6,3) _ _ demo_select this, where ops =
      "[RequeueFires 0, DispatchTurn True [''a'', ''b''] 9 None, RemoveNode ''b'', DispatchTurn True [''a''] 11 (Some ''x'')]"
      and w = True and now = 7]
  show ?thesis by (simp add: demo_scheduler_simps calls_for_def Let_def)
qed

section \<open>Reassignment\<close>

lemma find_candidate_Some:
  "find_candidate f nodes idx i = Some j \<Longrightarrow> i \<le> j \<and> j < length nodes \<and>
     n_id (nodes ! ((idx + j) mod length nodes)) \<noteq> f \<and> is_online (nodes ! ((idx + j) mod length nodes))"
proof (induction f nodes idx i rule: find_candidate.induct)
  case (1 f nodes idx i)
  from "1.prems" show ?case
    by (subst (asm) find_candidate.simps) (auto simp: Let_def split: if_splits dest: "1.IH" [OF _ refl])
qed

lemma find_candidate_None:
  "find_candidate f nodes idx i = None \<Longrightarrow> i \<le> j \<Longrightarrow> j < length nodes \<Longrightarrow>
     \<not> (n_id (nodes ! ((idx + j) mod length nodes)) \<noteq> f \<and> is_online (nodes ! ((idx + j) mod length nodes)))"
proof (induction f nodes idx i rule: find_candidate.induct)
  case (1 f nodes idx i)
  show ?case
  proof (cases "i = j")
    case True
    with "1.prems" show ?thesis by (subst (asm) find_candidate.simps) (auto simp: Let_def split: if_splits)
  next
    case False
    let ?c = "nodes ! ((idx + i) mod length nodes)"
    have i: "\<not> length nodes \<le> i" using "1.prems" by simp
    with "1.prems"(1) have c: "\<not> (n_id ?c \<noteq> f \<and> is_online ?c)" "find_candidate f nodes idx (Suc i) = None"
      by (subst (asm) find_candidate.simps, auto simp: Let_def split: if_splits)+
    from "1.IH" [OF i refl c] False "1.prems"(2,3) show ?thesis by simp
  qed
qed

lemma find_candidate_total:
  assumes "n \<in> set nodes" "n_id n \<noteq> f" "is_online n"
  obtains j where "find_candidate f nodes idx 0 = Some j" "(idx + j) mod length nodes < length nodes"
    "n_id (nodes ! ((idx + j) mod length nodes)) \<noteq> f" "is_online (nodes ! ((idx + j) mod length nodes))"
proof -
  obtain k where k: "k < length nodes" "nodes ! k = n" using assms(1) by (metis in_set_conv_nth)
  let ?l = "length nodes" and ?j = "(k + idx * (length nodes - 1)) mod length nodes"
  have l: "0 < ?l" using k(1) by linarith
  then have "idx + idx * (?l - 1) = idx * ?l" by (cases ?l) simp_all
  then have "idx + (k + idx * (?l - 1)) = k + ?l * idx" by (simp add: algebra_simps)
  moreover have "(idx + ?j) mod ?l = (idx + (k + idx * (?l - 1))) mod ?l" by (simp add: mod_simps)
  ultimately have "(idx + ?j) mod ?l = k" using k(1) by (simp only: mod_mult_self2 mod_less)
  then have "find_candidate f nodes idx 0 \<noteq> None"
    using find_candidate_None [of f nodes idx 0 ?j] l k(2) assms(2,3) by auto
  then obtain j where "find_candidate f nodes idx 0 = Some j" by blast
  with find_candidate_Some [OF this] l that show ?thesis by simp
qed

text \<open>How many of the tasks are labelled with a node.\<close>

definition tasks_on :: "string \<Rightarrow> task_ref list \<Rightarrow> 'a scheduler \<Rightarrow> nat" where
  "tasks_on nid rs s = length (filter (\<lambda>r. t_target (sc_heap s r) = nid) rs)"

lemma reassign_loop_other: "r \<notin> set rs \<Longrightarrow> sc_heap (reassign_loop now f cnt nodes rs moved idx s) r = sc_heap s r"
  by (induction rs arbitrary: moved idx s) (auto simp: assign_def split: option.split)

lemma reassign_loop_count:
  assumes "distinct rs" "n \<in> set nodes" "n_id n \<noteq> f" "is_online n"
  shows "int (tasks_on f rs (reassign_loop now f cnt nodes rs moved idx s)) =
    int (tasks_on f rs s) - max 0 (min (cnt - moved) (int (tasks_on f rs s)))"
  using assms(1)
proof (induction rs arbitrary: moved idx s)
  case Nil
  then show ?case by (simp add: tasks_on_def)
next
  case (Cons r rs)
  show ?case
  proof (cases "moved \<ge> cnt")
    case True
    then show ?thesis by (simp add: tasks_on_def)
  next
    case False
    show ?thesis
    proof (cases "t_target (sc_heap s r) = f")
      case True
      obtain j where j: "find_candidate f nodes idx 0 = Some j" "n_id (nodes ! ((idx + j) mod length nodes)) \<noteq> f"
        using find_candidate_total [OF assms(2-4), of idx] by blast
      let ?s = "assign now (n_id (nodes ! ((idx + j) mod length nodes))) r s"
      have same: "tasks_on f rs ?s = tasks_on f rs s"
        unfolding tasks_on_def using Cons.prems by (intro arg_cong [where f = length] filter_cong) auto
      have "sc_heap (reassign_loop now f cnt nodes rs (moved + 1) ((idx + j + 1) mod length nodes) ?s) r = sc_heap ?s r"
        using Cons.prems by (intro reassign_loop_other) simp
      with Cons.IH [of "moved + 1" "(idx + j + 1) mod length nodes" ?s] Cons.prems False True j same
      show ?thesis by (simp add: get_target_node_def) (simp add: tasks_on_def)
    next
      case no: False
      have "sc_heap (reassign_loop now f cnt nodes rs moved idx s) r = sc_heap s r"
        using Cons.prems by (intro reassign_loop_other) simp
      with Cons.IH [of moved idx s] Cons.prems False no show ?thesis
        by (simp add: get_target_node_def) (simp add: tasks_on_def)
    qed
  qed
qed

text \<open>A task keeps its label or moves from a node to another online one of the list.\<close>

definition relabelled :: "(string \<Rightarrow> bool) \<Rightarrow> node list \<Rightarrow> 'a scheduler \<Rightarrow> 'a scheduler \<Rightarrow> bool" where
  "relabelled from_ok nodes s s' \<longleftrightarrow> (\<forall>r. sc_heap s' r = sc_heap s r \<or>
     (from_ok (t_target (sc_heap s r)) \<and> (\<exists>n \<in> set nodes. is_online n \<and> t_target (sc_heap s' r) = n_id n)))"

lemma relabelled_refl [simp]: "relabelled P nodes s s"
  by (simp add: relabelled_def)

lemma relabelled_trans:
  assumes "relabelled (\<lambda>f. f \<in> n_id ` set nodes) nodes s s'" "relabelled (\<lambda>f. f \<in> n_id ` set nodes) nodes s' s''"
  shows "relabelled (\<lambda>f. f \<in> n_id ` set nodes) nodes s s''"
  using assms unfolding relabelled_def by metis

lemma reassign_loop_relabels:
  assumes "distinct rs"
  shows "relabelled (\<lambda>x. x = f) nodes s (reassign_loop now f cnt nodes rs moved idx s)"
  using assms
proof (induction rs arbitrary: moved idx s)
  case (Cons r rs)
  show ?case
  proof (cases "moved \<ge> cnt \<or> t_target (sc_heap s r) \<noteq> f \<or> find_candidate f nodes idx 0 = None")
    case True
    moreover have IH: "relabelled (\<lambda>x. x = f) nodes s (reassign_loop now f cnt nodes rs moved idx s)" using Cons by simp
    ultimately show ?thesis by (auto simp: get_target_node_def)
  next
    case False
    then obtain j where j: "find_candidate f nodes idx 0 = Some j" by auto
    let ?n = "nodes ! ((idx + j) mod length nodes)"
    let ?s = "assign now (n_id ?n) r s" and ?i = "(idx + j + 1) mod length nodes"
    from find_candidate_Some [OF j] have n: "?n \<in> set nodes" "is_online ?n"
      by (metis mod_less_divisor nth_mem order_le_less_trans le0, blast)
    have IH: "relabelled (\<lambda>x. x = f) nodes ?s (reassign_loop now f cnt nodes rs (moved + 1) ?i ?s)"
      using Cons by simp
    have keep: "sc_heap (reassign_loop now f cnt nodes rs (moved + 1) ?i ?s) r = sc_heap ?s r"
      using Cons.prems by (intro reassign_loop_other) simp
    have "reassign_loop now f cnt nodes (r # rs) moved idx s = reassign_loop now f cnt nodes rs (moved + 1) ?i ?s"
      using False j by (simp add: get_target_node_def)
    moreover have "sc_heap ?s r' = sc_heap s r'" if "r' \<noteq> r" for r' using that by (simp add: assign_def)
    ultimately show ?thesis
      using IH keep n False unfolding relabelled_def by (metis assign_simps(8))
  qed
qed (simp add: relabelled_def)

text \<open>A well-formed scheduler files every task under its own id, so the queue never holds one twice.\<close>

definition sched_ok :: "'a scheduler \<Rightarrow> bool" where
  "sched_ok s \<longleftrightarrow> finite (dom (sc_queue s)) \<and> (\<forall>k r. sc_queue s k = Some r \<longrightarrow> t_id (sc_heap s r) = k)"

lemma sched_ok_distinct:
  assumes "sched_ok s" "iter_order ks (sc_queue s)"
  shows "distinct (map_values ks (sc_queue s))"
  unfolding map_values_def
proof (subst distinct_map, intro conjI inj_onI)
  show "distinct ks" using assms(2) by (simp add: iter_order_def)
  fix x y assume xy: "x \<in> set ks" "y \<in> set ks" "the (sc_queue s x) = the (sc_queue s y)"
  then obtain r r' where "sc_queue s x = Some r" "sc_queue s y = Some r'"
    using assms(2) by (auto simp: iter_order_def)
  with xy(3) assms(1) show "x = y" unfolding sched_ok_def by (metis option.sel)
qed

text \<open>
  C34: Moving \<open>cnt\<close> tasks off a node moves exactly that many, or all it has if they are fewer, as soon as some
  other node of the list is online; each goes to another online node, no other task changes its label,
  and nothing is dispatched: the nodes are not told.
\<close>
theorem reassign_tasks_exact:
  assumes "sched_ok s" "iter_order ks (sc_queue s)" "0 \<le> cnt" "n \<in> set nodes" "n_id n \<noteq> f" "is_online n"
  shows "let s' = reassign_tasks now f cnt nodes ks s in
    count_tasks_for_node ks f s' = count_tasks_for_node ks f s - min cnt (count_tasks_for_node ks f s) \<and>
    relabelled (\<lambda>x. x = f) nodes s s' \<and>
    sc_queue s' = sc_queue s \<and> sc_chan s' = sc_chan s \<and> sc_timers s' = sc_timers s \<and> sc_sent s' = sc_sent s"
proof -
  let ?rs = "map_values ks (sc_queue s)" and ?s' = "reassign_tasks now f cnt nodes ks s"
  have d: "distinct ?rs" by (rule sched_ok_distinct [OF assms(1,2)])
  have only: "only_heap s ?s'" by (simp add: reassign_tasks_def only_heap_reassign_loop)
  have "count_tasks_for_node ks f s = int (tasks_on f ?rs s)" "count_tasks_for_node ks f ?s' = int (tasks_on f ?rs ?s')"
    using only_heap_D(1) [OF only] by (simp_all add: count_tasks_for_node_def tasks_on_def)
  then have "count_tasks_for_node ks f ?s' = count_tasks_for_node ks f s - min cnt (count_tasks_for_node ks f s)"
    using reassign_loop_count [OF d assms(4-6), of now cnt 0 0 s] assms(3) by (simp add: reassign_tasks_def)
  moreover have "relabelled (\<lambda>x. x = f) nodes s ?s'"
    unfolding reassign_tasks_def by (rule reassign_loop_relabels [OF d])
  ultimately show ?thesis using only_heap_D [OF only] by (simp add: Let_def)
qed

lemma reassign_tasks_exact_witness:
  "count_tasks_for_node [''t1''] ''a'' (reassign_tasks 5 ''a'' 1 [online_demo ''a'' 70, online_demo ''b'' 30] [''t1'']
      (assign 3 ''a'' 0 demo_scheduler)) = 0"
proof -
  let ?s = "assign 3 ''a'' 0 demo_scheduler"
  have q: "sc_queue ?s = [''t1'' \<mapsto> 0]" by (simp add: demo_scheduler_simps)
  have ok: "sched_ok ?s" by (auto simp: sched_ok_def demo_scheduler_simps demo_task_def split: if_splits)
  have it: "iter_order [''t1''] (sc_queue ?s)" by (simp add: demo_scheduler_simps iter_order_def)
  have c: "count_tasks_for_node [''t1''] ''a'' ?s = 1"
    by (simp add: count_tasks_for_node_def demo_scheduler_simps map_values_def)
  have on: "n_id (online_demo ''b'' 30) \<noteq> ''a''" "is_online (online_demo ''b'' 30)"
    by (simp_all add: online_demo_def demo_node_def update_seen_def is_online_def)
  from reassign_tasks_exact [OF ok it _ _ on, of 1 "[online_demo ''a'' 70, online_demo ''b'' 30]" 5] c
  show ?thesis by (simp add: Let_def)
qed

lemma sched_ok_only_heap:
  assumes "sched_ok s" "only_heap s s'" "\<And>r. t_id (sc_heap s' r) = t_id (sc_heap s r)"
  shows "sched_ok s'"
  using assms(1,3) only_heap_D(1) [OF assms(2)] by (simp add: sched_ok_def)

lemma reassign_loop_id: "t_id (sc_heap (reassign_loop now f cnt nodes rs moved idx s) r) = t_id (sc_heap s r)"
  by (induction rs arbitrary: moved idx s) (simp_all split: option.split)

lemma rebalance_loop_relabels:
  assumes "sched_ok s" "\<And>i. iter_order (ord i) (sc_queue s)" "set ns \<subseteq> set online"
  shows "relabelled (\<lambda>f. f \<in> n_id ` set online) online s (rebalance_loop now ord avg online i ns s)"
  using assms
proof (induction ns arbitrary: i s)
  case (Cons n ns)
  let ?cur = "count_tasks_for_node (ord i) (n_id n) s"
  let ?s = "if ?cur > avg + 2 then reassign_tasks now (n_id n) (?cur - avg) online (ord i) s else s"
  have only: "only_heap s ?s" by (simp add: reassign_tasks_def only_heap_reassign_loop)
  have ok: "sched_ok ?s"
    by (rule sched_ok_only_heap [OF Cons.prems(1) only]) (simp add: reassign_tasks_def reassign_loop_id)
  have "relabelled (\<lambda>x. x = n_id n) online s ?s"
    by (simp add: reassign_tasks_def reassign_loop_relabels [OF sched_ok_distinct [OF Cons.prems(1,2)]])
  then have r: "relabelled (\<lambda>f. f \<in> n_id ` set online) online s ?s"
    using Cons.prems(3) unfolding relabelled_def by (metis imageI list.set_intros(1) subsetD)
  have "relabelled (\<lambda>f. f \<in> n_id ` set online) online ?s (rebalance_loop now ord avg online (Suc i) ns ?s)"
    using Cons.prems only_heap_D(1) [OF only] by (intro Cons.IH ok) simp_all
  from relabelled_trans [OF r this] show ?case by (simp add: Let_def)
qed (simp add: relabelled_def)

text \<open>
  Rebalancing loses no task and sends none: it only relabels tasks, and only from online nodes to online
  nodes. The tasks of a node that is offline or gone stay where they are.
\<close>
theorem rebalance_relabels_online:
  assumes "sched_ok s" "iter_order ks (sc_nodes s)" "\<And>i. iter_order (ord i) (sc_queue s)"
  shows "let s' = rebalance now ks ord s in
    sc_queue s' = sc_queue s \<and> sc_chan s' = sc_chan s \<and> sc_sent s' = sc_sent s \<and>
    (\<forall>r. sc_heap s' r = sc_heap s r \<or>
       (\<exists>n \<in> ran (sc_nodes s). is_online n \<and> t_target (sc_heap s r) = n_id n) \<and>
       (\<exists>n \<in> ran (sc_nodes s). is_online n \<and> t_target (sc_heap s' r) = n_id n))"
proof -
  let ?on = "filter is_online (map_values ks (sc_nodes s))" and ?s' = "rebalance now ks ord s"
  have set: "set ?on = {n \<in> ran (sc_nodes s). is_online n}" using set_map_values [OF assms(2)] by simp
  have "relabelled (\<lambda>f. f \<in> n_id ` set ?on) ?on s ?s'"
    using rebalance_loop_relabels [OF assms(1,3), of ?on ?on] by (simp add: rebalance_def Let_def)
  then have "\<forall>r. sc_heap ?s' r = sc_heap s r \<or>
       (\<exists>n \<in> ran (sc_nodes s). is_online n \<and> t_target (sc_heap s r) = n_id n) \<and>
       (\<exists>n \<in> ran (sc_nodes s). is_online n \<and> t_target (sc_heap ?s' r) = n_id n)"
    unfolding relabelled_def set by blast
  with only_heap_D [OF only_heap_rebalance [of s now ks ord]] show ?thesis by (simp add: Let_def)
qed

lemma rebalance_relabels_online_witness:
  "sc_chan (rebalance 5 [''a'', ''b''] (\<lambda>_. [''t1'']) demo_scheduler) = [0]"
proof -
  have ok: "sched_ok demo_scheduler" by (auto simp: sched_ok_def demo_scheduler_simps demo_task_def split: if_splits)
  have it: "iter_order [''t1''] (sc_queue demo_scheduler)" by (simp add: demo_scheduler_simps iter_order_def)
  from rebalance_relabels_online [OF ok demo_iter, of "\<lambda>_. [''t1'']" 5] it show ?thesis
    by (simp add: Let_def demo_scheduler_simps)
qed

end
