(* ===== verification/Failover.thy ===== *)
theory Failover
  imports Scheduler
begin

text \<open>
  Failure detection and task reassignment, \<open>internal/cluster/failover.go\<close>. The failover manager owns a
  pointer to the scheduler, which is a field here. \<open>fo_timers\<close> are the pending \<open>AfterFunc\<close> reassignments
  and \<open>fo_calls\<close> the calls made to the reassignment callback, whose error is only logged.
\<close>

section \<open>State\<close>

record failover_config =
  fc_interval :: duration
  fc_timeout :: duration
  fc_max_retries :: int
  fc_delay :: duration

record failed_node =
  fn_id :: string
  fn_at :: instant
  fn_retry :: int
  fn_tasks :: "string list"
  fn_scheduled :: bool

record 'a failover =
  fo_config :: failover_config
  fo_sched :: "'a scheduler"
  fo_failed :: "string \<rightharpoonup> failed_node"
  fo_heartbeat :: "string \<rightharpoonup> instant"
  fo_stopped :: bool
  fo_has_fn :: bool
  fo_timers :: "(instant \<times> string list) list"
  fo_calls :: "(string \<times> string) list"

definition default_failover_config :: failover_config where
  "default_failover_config = \<lparr>fc_interval = 5000000000, fc_timeout = 15000000000, fc_max_retries = 3, fc_delay = 10000000000\<rparr>"

definition new_failover :: "'a scheduler \<Rightarrow> 'a failover" where
  "new_failover s = \<lparr>fo_config = default_failover_config, fo_sched = s, fo_failed = Map.empty,
     fo_heartbeat = Map.empty, fo_stopped = False, fo_has_fn = False, fo_timers = [], fo_calls = []\<rparr>"

definition set_task_reassign_fn :: "bool \<Rightarrow> 'a failover \<Rightarrow> 'a failover" where
  "set_task_reassign_fn non_nil f = f\<lparr>fo_has_fn := non_nil\<rparr>"

definition stop_failover :: "'a failover \<Rightarrow> 'a failover" where
  "stop_failover f = f\<lparr>fo_stopped := True\<rparr>"

definition record_heartbeat :: "string \<Rightarrow> instant \<Rightarrow> 'a failover \<Rightarrow> 'a failover" where
  "record_heartbeat nid now f = f\<lparr>fo_heartbeat := (fo_heartbeat f)(nid \<mapsto> now)\<rparr>"

definition is_node_healthy :: "string \<Rightarrow> instant \<Rightarrow> 'a failover \<Rightarrow> bool" where
  "is_node_healthy nid now f =
     (case fo_heartbeat f nid of None \<Rightarrow> False | Some h \<Rightarrow> now - h < fc_timeout (fo_config f))"

section \<open>Reassignment\<close>

text \<open>The \<open>i\<close>-th task goes to the \<open>i\<close>-th online node, round robin; a task that is no longer queued is skipped.\<close>

fun assign_round ::
  "instant \<Rightarrow> node list \<Rightarrow> nat \<Rightarrow> string list \<Rightarrow> 'a scheduler \<Rightarrow> 'a scheduler \<times> (string \<times> string) list" where
  "assign_round now online i [] s = (s, [])"
| "assign_round now online i (k # ks) s =
     (let target = n_id (online ! (i mod length online)) in
      case get_task k s of
        None \<Rightarrow> assign_round now online (Suc i) ks s
      | Some r \<Rightarrow>
          (case assign_round now online (Suc i) ks (assign now target r s) of
             (s1, items) \<Rightarrow> (s1, (k, target) # items)))"

definition failover_reassign :: "string list \<Rightarrow> instant \<Rightarrow> string list \<Rightarrow> 'a failover \<Rightarrow> 'a failover" where
  "failover_reassign ks now tasks f =
     (let online = get_online_nodes ks (fo_sched f) in
      if online = [] then f
      else case assign_round now online 0 tasks (fo_sched f) of (s1, items) \<Rightarrow>
        f\<lparr>fo_sched := s1, fo_calls := fo_calls f @ (if fo_has_fn f then items else [])\<rparr>)"

section \<open>Failure handling\<close>

text \<open>\<open>ks\<close> is the order in which \<open>GetTasksForNode\<close> iterates the task map.\<close>

definition handle_node_failure ::
  "string list \<Rightarrow> instant \<Rightarrow> string \<Rightarrow> 'a failover \<Rightarrow> 'a failover \<times> string list" where
  "handle_node_failure ks now nid f =
     (let failed = (case fo_failed f nid of
            Some fn \<Rightarrow> fn
          | None \<Rightarrow> \<lparr>fn_id = nid, fn_at = now, fn_retry = 0,
              fn_tasks = get_tasks_for_node ks nid (fo_sched f), fn_scheduled = False\<rparr>);
          failed = failed\<lparr>fn_retry := fn_retry failed + 1\<rparr> in
      if fn_retry failed \<ge> fc_max_retries (fo_config f) then
        (f\<lparr>fo_sched := remove_node nid (fo_sched f), fo_failed := (fo_failed f)(nid := None)\<rparr>, fn_tasks failed)
      else if \<not> fn_scheduled failed then
        (f\<lparr>fo_failed := (fo_failed f)(nid \<mapsto> failed\<lparr>fn_scheduled := True\<rparr>),
           fo_timers := fo_timers f @ [(now + fc_delay (fo_config f), fn_tasks failed)]\<rparr>, [])
      else (f\<lparr>fo_failed := (fo_failed f)(nid \<mapsto> failed)\<rparr>, []))"

definition heartbeat_lost :: "instant \<Rightarrow> string \<Rightarrow> 'a failover \<Rightarrow> bool" where
  "heartbeat_lost now nid f \<longleftrightarrow> nid \<noteq> [] \<and>
     (case fo_heartbeat f nid of None \<Rightarrow> False | Some h \<Rightarrow> now - h > fc_timeout (fo_config f))"

fun check_nodes ::
  "(string \<Rightarrow> string list) \<Rightarrow> instant \<Rightarrow> node list \<Rightarrow> 'a failover \<Rightarrow> 'a failover \<times> string list list" where
  "check_nodes ord now [] f = (f, [])"
| "check_nodes ord now (n # ns) f =
     (if heartbeat_lost now (n_id n) f then
        (case handle_node_failure (ord (n_id n)) now (n_id n) f of (f1, tasks) \<Rightarrow>
          case check_nodes ord now ns f1 of (f2, pending) \<Rightarrow>
            (f2, if tasks = [] then pending else tasks # pending))
      else check_nodes ord now ns f)"

text \<open>
  One tick of the monitor: \<open>kn\<close> and \<open>ord\<close> are the orders in which the nodes and, for each failing node, the
  tasks are iterated, \<open>kon i\<close> the order of the nodes in the \<open>i\<close>-th reassignment.
\<close>

fun reassign_all :: "(nat \<Rightarrow> string list) \<Rightarrow> instant \<Rightarrow> nat \<Rightarrow> string list list \<Rightarrow> 'a failover \<Rightarrow> 'a failover" where
  "reassign_all kon now i [] f = f"
| "reassign_all kon now i (tasks # pending) f =
     reassign_all kon now (Suc i) pending (failover_reassign (kon i) now tasks f)"

definition check_node_health ::
  "string list \<Rightarrow> (string \<Rightarrow> string list) \<Rightarrow> (nat \<Rightarrow> string list) \<Rightarrow> instant \<Rightarrow> 'a failover \<Rightarrow> 'a failover" where
  "check_node_health kn ord kon now f =
     (case check_nodes ord now (get_all_nodes kn (fo_sched f)) f of (f1, pending) \<Rightarrow>
        reassign_all kon now 0 pending f1)"

text \<open>The expiry of the \<open>i\<close>-th reassignment timer.\<close>

definition reassign_timer_fires :: "nat \<Rightarrow> string list \<Rightarrow> instant \<Rightarrow> 'a failover \<Rightarrow> 'a failover" where
  "reassign_timer_fires i ks now f =
     (if length (fo_timers f) \<le> i then f
      else let tasks = snd (fo_timers f ! i);
               f1 = f\<lparr>fo_timers := take i (fo_timers f) @ drop (Suc i) (fo_timers f)\<rparr> in
        if fo_stopped f then f1 else failover_reassign ks now tasks f1)"

definition get_failed_nodes :: "string list \<Rightarrow> 'a failover \<Rightarrow> failed_node list" where
  "get_failed_nodes ks f = map_values ks (fo_failed f)"

definition clear_failed_node :: "string \<Rightarrow> 'a failover \<Rightarrow> 'a failover" where
  "clear_failed_node nid f = f\<lparr>fo_failed := (fo_failed f)(nid := None)\<rparr>"

definition mark_node_recovered :: "string \<Rightarrow> instant \<Rightarrow> 'a failover \<Rightarrow> 'a failover" where
  "mark_node_recovered nid now f =
     f\<lparr>fo_failed := (fo_failed f)(nid := None), fo_heartbeat := (fo_heartbeat f)(nid \<mapsto> now)\<rparr>"

section \<open>Runs\<close>

text \<open>The operations a failover manager sees, with those of the scheduler it shares.\<close>

datatype failover_op =
    Heartbeat string instant
  | Check "string list" "string \<Rightarrow> string list" "nat \<Rightarrow> string list" instant
  | TimerFires nat "string list" instant
  | ClearFailed string
  | Recovered string instant
  | OnScheduler sched_op

fun failover_exec :: "node_sort \<Rightarrow> 'a failover \<Rightarrow> failover_op \<Rightarrow> 'a failover" where
  "failover_exec srt f (Heartbeat nid now) = record_heartbeat nid now f"
| "failover_exec srt f (Check kn ord kon now) = check_node_health kn ord kon now f"
| "failover_exec srt f (TimerFires i ks now) = reassign_timer_fires i ks now f"
| "failover_exec srt f (ClearFailed nid) = clear_failed_node nid f"
| "failover_exec srt f (Recovered nid now) = mark_node_recovered nid now f"
| "failover_exec srt f (OnScheduler x) = f\<lparr>fo_sched := sched_exec srt (fo_sched f) x\<rparr>"

section \<open>Three strikes\<close>

definition retries :: "string \<Rightarrow> 'a failover \<Rightarrow> int" where
  "retries nid f = (case fo_failed f nid of None \<Rightarrow> 0 | Some fn \<Rightarrow> fn_retry fn)"

text \<open>What a step can change about the standing of a node.\<close>

definition same_standing :: "string \<Rightarrow> 'a failover \<Rightarrow> 'a failover \<Rightarrow> bool" where
  "same_standing nid f f' \<longleftrightarrow> fo_failed f' nid = fo_failed f nid \<and>
     sc_nodes (fo_sched f') nid = sc_nodes (fo_sched f) nid"

definition struck :: "string \<Rightarrow> 'a failover \<Rightarrow> 'a failover \<Rightarrow> bool" where
  "struck nid f f' \<longleftrightarrow>
     (if retries nid f + 1 \<ge> fc_max_retries (fo_config f)
      then fo_failed f' nid = None \<and> sc_nodes (fo_sched f') nid = None
      else retries nid f' = retries nid f + 1 \<and> sc_nodes (fo_sched f') nid = sc_nodes (fo_sched f) nid)"

lemma same_standing_refl [simp]: "same_standing nid f f"
  by (simp add: same_standing_def)

lemma same_standing_trans: "same_standing nid f g \<Longrightarrow> same_standing nid g h \<Longrightarrow> same_standing nid f h"
  by (simp add: same_standing_def)

lemma struck_same:
  assumes "struck nid g h" "same_standing nid f g" "fo_config g = fo_config f"
  shows "struck nid f h"
proof -
  have "retries nid g = retries nid f" using assms(2) by (simp add: same_standing_def retries_def)
  with assms show ?thesis by (simp add: struck_def same_standing_def)
qed

lemma same_struck:
  assumes "struck nid f g" "same_standing nid g h"
  shows "struck nid f h"
proof -
  have "retries nid h = retries nid g" using assms(2) by (simp add: same_standing_def retries_def)
  with assms show ?thesis by (auto simp: struck_def same_standing_def split: if_splits)
qed

lemma handle_frame:
  assumes "handle_node_failure ks now nid f = (f', tasks)"
  shows "fo_heartbeat f' = fo_heartbeat f" "fo_config f' = fo_config f" "fo_stopped f' = fo_stopped f"
    "nid' \<noteq> nid \<Longrightarrow> same_standing nid' f f'" "struck nid f f'" "sc_queue (fo_sched f') = sc_queue (fo_sched f)"
    "sc_heap (fo_sched f') = sc_heap (fo_sched f)" "sc_nodes (fo_sched f') \<subseteq>\<^sub>m sc_nodes (fo_sched f)"
  using assms
  by (auto simp: handle_node_failure_def Let_def remove_node_def same_standing_def struck_def retries_def map_le_def
      split: if_splits option.splits)

lemma check_nodes_frame:
  "check_nodes ord now ns f = (f', pending) \<Longrightarrow>
     fo_heartbeat f' = fo_heartbeat f \<and> fo_config f' = fo_config f \<and> fo_stopped f' = fo_stopped f \<and>
     sc_queue (fo_sched f') = sc_queue (fo_sched f) \<and> sc_heap (fo_sched f') = sc_heap (fo_sched f) \<and>
     sc_nodes (fo_sched f') \<subseteq>\<^sub>m sc_nodes (fo_sched f)"
proof (induction ns arbitrary: f f' pending)
  case (Cons n ns)
  show ?case
  proof (cases "heartbeat_lost now (n_id n) f")
    case True
    obtain f1 ts where h: "handle_node_failure (ord (n_id n)) now (n_id n) f = (f1, ts)"
      by (cases "handle_node_failure (ord (n_id n)) now (n_id n) f")
    obtain f2 ps where c: "check_nodes ord now ns f1 = (f2, ps)" by (cases "check_nodes ord now ns f1")
    from Cons.prems True h c have "f' = f2" by simp
    with Cons.IH [OF c] handle_frame [OF h] map_le_trans show ?thesis by metis
  next
    case False
    with Cons show ?thesis by simp
  qed
qed simp

lemma heartbeat_lost_frame:
  "fo_heartbeat f' = fo_heartbeat f \<Longrightarrow> fo_config f' = fo_config f \<Longrightarrow> heartbeat_lost now nid f' = heartbeat_lost now nid f"
  by (auto simp: heartbeat_lost_def split: option.split)

lemma check_nodes_other:
  "check_nodes ord now ns f = (f', pending) \<Longrightarrow> nid \<notin> n_id ` set ns \<or> \<not> heartbeat_lost now nid f \<Longrightarrow> same_standing nid f f'"
proof (induction ns arbitrary: f f' pending)
  case (Cons n ns)
  show ?case
  proof (cases "heartbeat_lost now (n_id n) f")
    case True
    obtain f1 ts where h: "handle_node_failure (ord (n_id n)) now (n_id n) f = (f1, ts)"
      by (cases "handle_node_failure (ord (n_id n)) now (n_id n) f")
    obtain f2 ps where c: "check_nodes ord now ns f1 = (f2, ps)" by (cases "check_nodes ord now ns f1")
    from Cons.prems True h c have f': "f' = f2" by simp
    have "nid \<noteq> n_id n" using True Cons.prems(2) by auto
    from handle_frame(4) [OF h this] have "same_standing nid f f1" .
    moreover have "same_standing nid f1 f2"
      using Cons.IH [OF c] Cons.prems(2) heartbeat_lost_frame [OF handle_frame(1,2) [OF h], of now nid] by auto
    ultimately show ?thesis unfolding f' by (rule same_standing_trans)
  next
    case False
    with Cons.IH [of f f' pending] Cons.prems show ?thesis by auto
  qed
qed simp

lemma check_nodes_struck:
  "check_nodes ord now ns f = (f', pending) \<Longrightarrow> distinct (map n_id ns) \<Longrightarrow> nid \<in> n_id ` set ns \<Longrightarrow>
     heartbeat_lost now nid f \<Longrightarrow> struck nid f f'"
proof (induction ns arbitrary: f f' pending)
  case (Cons n ns)
  show ?case
  proof (cases "heartbeat_lost now (n_id n) f")
    case True
    obtain f1 ts where h: "handle_node_failure (ord (n_id n)) now (n_id n) f = (f1, ts)"
      by (cases "handle_node_failure (ord (n_id n)) now (n_id n) f")
    obtain f2 ps where c: "check_nodes ord now ns f1 = (f2, ps)" by (cases "check_nodes ord now ns f1")
    from Cons.prems True h c have f': "f' = f2" by simp
    note lost = heartbeat_lost_frame [OF handle_frame(1,2) [OF h], of now nid]
    show ?thesis
    proof (cases "nid = n_id n")
      case True
      then have "struck nid f f1" using handle_frame(5) [OF h] by simp
      moreover have "same_standing nid f1 f2"
        using check_nodes_other [OF c, of nid] Cons.prems(2) True by auto
      ultimately show ?thesis unfolding f' by (rule same_struck)
    next
      case False
      have "struck nid f1 f2" using Cons.IH [OF c] Cons.prems False lost by simp
      from struck_same [OF this handle_frame(4) [OF h False] handle_frame(2) [OF h]] show ?thesis unfolding f' .
    qed
  next
    case False
    with Cons.prems have "nid \<in> n_id ` set ns" by auto
    with Cons False show ?thesis by simp
  qed
qed simp

lemma assign_round_frame:
  "assign_round now online i ks s = (s', items) \<Longrightarrow> only_heap s s'"
proof (induction ks arbitrary: i s s' items)
  case (Cons k ks)
  show ?case
  proof (cases "get_task k s")
    case None
    with Cons show ?thesis by (simp add: Let_def)
  next
    case (Some r)
    let ?t = "n_id (online ! (i mod length online))"
    obtain s1 its where a: "assign_round now online (Suc i) ks (assign now ?t r s) = (s1, its)"
      by (cases "assign_round now online (Suc i) ks (assign now ?t r s)")
    with Cons.prems Some have "s' = s1" by (simp add: Let_def)
    with only_heap_trans [OF only_heap_assign Cons.IH [OF a]] show ?thesis by simp
  qed
qed simp

lemma failover_reassign_frame:
  "only_heap (fo_sched f) (fo_sched (failover_reassign ks now tasks f))"
  "fo_failed (failover_reassign ks now tasks f) = fo_failed f"
  "fo_heartbeat (failover_reassign ks now tasks f) = fo_heartbeat f"
  "fo_config (failover_reassign ks now tasks f) = fo_config f"
  by (auto simp: failover_reassign_def Let_def split: prod.split dest: assign_round_frame)

lemma failover_reassign_standing: "same_standing nid f (failover_reassign ks now tasks f)"
  using only_heap_D(2) [OF failover_reassign_frame(1) [where f = f and ks = ks and now = now and tasks = tasks]]
  by (simp add: same_standing_def failover_reassign_frame)

lemma reassign_all_frame:
  "same_standing nid f (reassign_all kon now i pending f) \<and> fo_config (reassign_all kon now i pending f) = fo_config f \<and>
   sc_nodes (fo_sched (reassign_all kon now i pending f)) = sc_nodes (fo_sched f) \<and>
   fo_heartbeat (reassign_all kon now i pending f) = fo_heartbeat f"
proof (induction pending arbitrary: i f)
  case (Cons tasks pending)
  let ?g = "failover_reassign (kon i) now tasks f"
  from Cons.IH [where i = "Suc i" and f = ?g]
    same_standing_trans [OF failover_reassign_standing [where f = f and ks = "kon i" and now = now and tasks = tasks]]
    only_heap_D(2) [OF failover_reassign_frame(1) [where f = f and ks = "kon i" and now = now and tasks = tasks]]
  show ?case by (simp add: failover_reassign_frame)
qed simp

lemma check_node_health_frame:
  assumes "iter_order kn (sc_nodes (fo_sched f))" "\<forall>k n. sc_nodes (fo_sched f) k = Some n \<longrightarrow> n_id n = k"
    "f' = check_node_health kn ord kon now f"
  shows "if sc_nodes (fo_sched f) nid \<noteq> None \<and> heartbeat_lost now nid f then struck nid f f' else same_standing nid f f'"
    "fo_config f' = fo_config f" "sc_nodes (fo_sched f') \<subseteq>\<^sub>m sc_nodes (fo_sched f)"
proof -
  let ?ns = "get_all_nodes kn (fo_sched f)"
  have ids: "map n_id ?ns = kn"
    using assms(1,2) by (auto simp: get_all_nodes_def map_values_def iter_order_def intro!: map_idI)
  have d: "distinct (map n_id ?ns)" unfolding ids using assms(1) by (simp add: iter_order_def)
  have mem: "nid \<in> n_id ` set ?ns \<longleftrightarrow> sc_nodes (fo_sched f) nid \<noteq> None"
    using arg_cong [OF ids, of set] assms(1) by (auto simp: iter_order_def)
  obtain f1 pending where c: "check_nodes ord now ?ns f = (f1, pending)" by (cases "check_nodes ord now ?ns f")
  then have f': "f' = reassign_all kon now 0 pending f1" by (simp add: assms(3) check_node_health_def)
  note r = reassign_all_frame [where f = f1 and kon = kon and now = now and i = 0 and pending = pending and nid = nid]
  show "if sc_nodes (fo_sched f) nid \<noteq> None \<and> heartbeat_lost now nid f then struck nid f f' else same_standing nid f f'"
    using check_nodes_struck [OF c d, of nid] check_nodes_other [OF c, of nid] mem r unfolding f'
    by (auto intro: same_struck same_standing_trans)
  show "fo_config f' = fo_config f" "sc_nodes (fo_sched f') \<subseteq>\<^sub>m sc_nodes (fo_sched f)"
    using check_nodes_frame [OF c] r unfolding f' by simp_all
qed

text \<open>Operations that add, replace, remove or pardon a node.\<close>

fun touches :: "string \<Rightarrow> failover_op \<Rightarrow> bool" where
  "touches nid (ClearFailed k) = (k = nid)"
| "touches nid (Recovered k now) = (k = nid)"
| "touches nid (OnScheduler (AddNode n)) = (n_id n = nid)"
| "touches nid (OnScheduler (UpdateNode n)) = (n_id n = nid)"
| "touches nid (OnScheduler (RemoveNode k)) = (k = nid)"
| "touches nid _ = False"

text \<open>Every check of a run iterates the nodes there are.\<close>

fun orders_ok :: "node_sort \<Rightarrow> 'a failover \<Rightarrow> failover_op list \<Rightarrow> bool" where
  "orders_ok srt f [] = True"
| "orders_ok srt f (x # xs) =
     ((case x of Check kn ord kon now \<Rightarrow> iter_order kn (sc_nodes (fo_sched f)) | _ \<Rightarrow> True) \<and>
      orders_ok srt (failover_exec srt f x) xs)"

text \<open>The checks of a run that find the node without a recent heartbeat.\<close>

fun strikes :: "node_sort \<Rightarrow> string \<Rightarrow> 'a failover \<Rightarrow> failover_op list \<Rightarrow> int" where
  "strikes srt nid f [] = 0"
| "strikes srt nid f (x # xs) =
     (case x of
        Check kn ord kon now \<Rightarrow> if sc_nodes (fo_sched f) nid \<noteq> None \<and> heartbeat_lost now nid f then 1 else 0
      | _ \<Rightarrow> 0) + strikes srt nid (failover_exec srt f x) xs"

definition nodes_filed :: "'a failover \<Rightarrow> bool" where
  "nodes_filed f \<longleftrightarrow> (\<forall>k n. sc_nodes (fo_sched f) k = Some n \<longrightarrow> n_id n = k)"

lemma nodes_filed_sub: "nodes_filed f \<Longrightarrow> sc_nodes (fo_sched f') \<subseteq>\<^sub>m sc_nodes (fo_sched f) \<Longrightarrow> nodes_filed f'"
  unfolding nodes_filed_def by (metis domI map_le_def)

lemma sched_exec_nodes:
  "sc_nodes (sched_exec srt s x) =
     (case x of AddNode n \<Rightarrow> (sc_nodes s)(n_id n \<mapsto> n) | UpdateNode n \<Rightarrow> (sc_nodes s)(n_id n \<mapsto> n)
      | RemoveNode k \<Rightarrow> (sc_nodes s)(k := None) | _ \<Rightarrow> sc_nodes s)"
proof (cases x)
  case (DispatchTurn w ks now reply)
  have c: "sc_nodes (fst (get_or_create_client n s)) = sc_nodes s" for n and s :: "'a scheduler"
    by (simp add: get_or_create_client_def Let_def split: option.split)
  have "sc_nodes (dispatch_task srt ks now reply r s) = sc_nodes s" for r and s :: "'a scheduler"
  proof (rule dispatch_task_cases [of srt ks s now reply r])
    fix n s2 c
    assume "get_or_create_client n (assign now (n_id n) r s) = (s2, c)"
      "dispatch_task srt ks now reply r s = s2\<lparr>sc_sent := sc_sent s @ [(r, c,
         \<lparr>sr_url = t_url (sc_heap s r), sr_output = t_output (sc_heap s r), sr_node = n_id n\<rparr>, reply)]\<rparr>"
    then show ?thesis using c [of n "assign now (n_id n) r s"] by simp
  qed simp_all
  with DispatchTurn show ?thesis by (simp add: dispatch_turn_def split: list.split)
next
  case (Rebalance now ks ord)
  with only_heap_D(2) [OF only_heap_rebalance] show ?thesis by simp
qed (simp_all add: submit_task_def remove_task_def add_node_def update_node_def remove_node_def requeue_fires_def
    stop_begins_def stop_ends_def close_clients_def Let_def)

lemma exec_other:
  assumes "\<not> touches nid x" "\<not> (\<exists>kn ord kon now. x = Check kn ord kon now)"
  shows "same_standing nid f (failover_exec srt f x)" "fo_config (failover_exec srt f x) = fo_config f"
    "nodes_filed f \<Longrightarrow> nodes_filed (failover_exec srt f x)"
proof -
  have t: "same_standing nid f (reassign_timer_fires i ks now f)" "fo_config (reassign_timer_fires i ks now f) = fo_config f"
    "sc_nodes (fo_sched (reassign_timer_fires i ks now f)) = sc_nodes (fo_sched f)" for i ks now
    using failover_reassign_standing [where f = "f\<lparr>fo_timers := take i (fo_timers f) @ drop (Suc i) (fo_timers f)\<rparr>"]
      only_heap_D(2) [OF failover_reassign_frame(1) [where f = "f\<lparr>fo_timers := take i (fo_timers f) @ drop (Suc i) (fo_timers f)\<rparr>"]]
    by (simp_all add: reassign_timer_fires_def Let_def same_standing_def failover_reassign_frame)
  show "same_standing nid f (failover_exec srt f x)"
    using assms t(1) by (cases x)
      (auto simp: same_standing_def record_heartbeat_def clear_failed_node_def mark_node_recovered_def sched_exec_nodes
        split: sched_op.split)
  show "fo_config (failover_exec srt f x) = fo_config f"
    using assms t(2) by (cases x) (auto simp: record_heartbeat_def clear_failed_node_def mark_node_recovered_def)
  show "nodes_filed f \<Longrightarrow> nodes_filed (failover_exec srt f x)"
    using assms t(3) by (cases x)
      (auto simp: nodes_filed_def record_heartbeat_def clear_failed_node_def mark_node_recovered_def sched_exec_nodes
        split: sched_op.split)
qed

lemma strikes_run:
  assumes "nodes_filed f" "fc_max_retries (fo_config f) = 3" "orders_ok srt f ops" "\<forall>x \<in> set ops. \<not> touches nid x"
    "retries nid f < 3" "0 \<le> retries nid f"
  shows "let f' = foldl (failover_exec srt) f ops; c = (if sc_nodes (fo_sched f) nid = None then 3 else retries nid f) in
    c + strikes srt nid f ops \<le> 3 \<and> (sc_nodes (fo_sched f') nid = None \<longleftrightarrow> c + strikes srt nid f ops = 3) \<and>
    (c + strikes srt nid f ops < 3 \<longrightarrow> retries nid f' = c + strikes srt nid f ops)"
  using assms
proof (induction ops arbitrary: f)
  case Nil
  then show ?case by (simp add: Let_def)
next
  case (Cons x xs)
  let ?g = "failover_exec srt f x"
  show ?case
  proof (cases "\<exists>kn ord kon now. x = Check kn ord kon now")
    case True
    then obtain kn ord kon now where x: "x = Check kn ord kon now" by blast
    have it: "iter_order kn (sc_nodes (fo_sched f))" using Cons.prems(3) x by simp
    note fr = check_node_health_frame [OF it Cons.prems(1) [unfolded nodes_filed_def] refl, where ord = ord and kon = kon and now = now]
    have g: "?g = check_node_health kn ord kon now f" by (simp add: x)
    have ok: "nodes_filed ?g" "fc_max_retries (fo_config ?g) = 3" "orders_ok srt ?g xs"
      using nodes_filed_sub [OF Cons.prems(1) fr(3)] fr(2) Cons.prems(2,3) g by simp_all
    show ?thesis
    proof (cases "sc_nodes (fo_sched f) nid \<noteq> None \<and> heartbeat_lost now nid f")
      case True
      with fr(1) [where nid = nid] have st: "struck nid f ?g" unfolding g by simp
      then have "retries nid ?g < 3" "0 \<le> retries nid ?g"
        using Cons.prems(2,5,6) by (auto simp: struck_def retries_def split: if_splits)
      from Cons.IH [OF ok _ this] Cons.prems(4) st True Cons.prems(2,5) show ?thesis
        by (auto simp: x struck_def Let_def split: if_splits)
    next
      case False
      with fr(1) [where nid = nid] have st: "same_standing nid f ?g" unfolding g by (simp only: if_False)
      then have r: "retries nid ?g = retries nid f" "sc_nodes (fo_sched ?g) nid = sc_nodes (fo_sched f) nid"
        by (simp_all add: same_standing_def retries_def)
      from Cons.IH [OF ok] Cons.prems(4,5,6) r False show ?thesis by (auto simp: x Let_def)
    qed
  next
    case False
    have nt: "\<not> touches nid x" using Cons.prems(4) by simp
    note o = exec_other [OF nt, where f = f and srt = srt]
    have st: "same_standing nid f ?g" "fo_config ?g = fo_config f" "nodes_filed ?g" using o False Cons.prems(1) by blast+
    then have r: "retries nid ?g = retries nid f" "sc_nodes (fo_sched ?g) nid = sc_nodes (fo_sched f) nid"
      by (simp_all add: same_standing_def retries_def)
    have z: "strikes srt nid f (x # xs) = strikes srt nid ?g xs" using False by (cases x) simp_all
    have "orders_ok srt ?g xs" using Cons.prems(3) by simp
    have "fc_max_retries (fo_config ?g) = 3" "\<forall>x \<in> set xs. \<not> touches nid x" "retries nid ?g < 3" "0 \<le> retries nid ?g"
      using Cons.prems st(2) r(1) by simp_all
    note ih = Cons.IH [OF st(3) this(1) \<open>orders_ok srt ?g xs\<close> this(2-4)]
    show ?thesis using ih unfolding z by (simp only: r foldl.simps)
  qed
qed

text \<open>
  Exactly the third check that finds a node without a recent heartbeat removes it from the scheduler. The
  count is of all such checks, not of consecutive ones: heartbeats and healthy checks in between do not
  reset it, only \<open>ClearFailedNode\<close> and \<open>MarkNodeRecovered\<close> do.
\<close>
theorem third_strike_removes:
  assumes "nodes_filed f" "fc_max_retries (fo_config f) = 3" "fo_failed f nid = None" "sc_nodes (fo_sched f) nid \<noteq> None"
    "orders_ok srt f ops" "\<forall>x \<in> set ops. \<not> touches nid x"
  shows "let f' = foldl (failover_exec srt) f ops in
    strikes srt nid f ops \<le> 3 \<and> (sc_nodes (fo_sched f') nid = None \<longleftrightarrow> strikes srt nid f ops = 3) \<and>
    (strikes srt nid f ops < 3 \<longrightarrow> retries nid f' = strikes srt nid f ops)"
proof -
  have "retries nid f = 0" using assms(3) by (simp add: retries_def)
  with strikes_run [OF assms(1,2,5,6)] assms(4) show ?thesis by (simp add: Let_def)
qed

text \<open>Three checks miss the node, each after a fresh heartbeat and a healthy check.\<close>

definition demo_failover :: "unit failover" where
  "demo_failover = new_failover (add_node (online_demo ''a'' 10) (new_scheduler ''me'' () (\<lambda>_. demo_task)))"

definition flapping :: "failover_op list" where
  "flapping =
     [Heartbeat ''a'' 0, Check [''a''] (\<lambda>_. []) (\<lambda>_. [''a'']) 20000000000,
      Heartbeat ''a'' 21000000000, Check [''a''] (\<lambda>_. []) (\<lambda>_. [''a'']) 22000000000,
      Check [''a''] (\<lambda>_. []) (\<lambda>_. [''a'']) 40000000000, Heartbeat ''a'' 41000000000,
      Check [''a''] (\<lambda>_. []) (\<lambda>_. [''a'']) 60000000000]"

lemma third_strike_removes_witness:
  "sc_nodes (fo_sched (foldl (failover_exec insertion_sort) demo_failover flapping)) ''a'' = None"
proof -
  have n: "sc_nodes (fo_sched demo_failover) = [''a'' \<mapsto> online_demo ''a'' 10]"
    by (simp add: demo_failover_def new_failover_def add_node_def new_scheduler_def online_demo_def update_seen_def demo_node_def)
  have ok: "nodes_filed demo_failover" "fc_max_retries (fo_config demo_failover) = 3" "fo_failed demo_failover ''a'' = None"
    "sc_nodes (fo_sched demo_failover) ''a'' \<noteq> None"
    by (auto simp: nodes_filed_def n online_demo_def update_seen_def demo_node_def split: if_splits)
      (simp_all add: demo_failover_def new_failover_def default_failover_config_def)
  have o: "orders_ok insertion_sort demo_failover flapping \<and> strikes insertion_sort ''a'' demo_failover flapping = 3"
    by (simp add: flapping_def demo_failover_def new_failover_def default_failover_config_def add_node_def new_scheduler_def
        online_demo_def update_seen_def demo_node_def iter_order_def record_heartbeat_def check_node_health_def
        get_all_nodes_def map_values_def heartbeat_lost_def handle_node_failure_def get_tasks_for_node_def remove_node_def Let_def)
  have t: "\<forall>x \<in> set flapping. \<not> touches ''a'' x" by (simp add: flapping_def)
  from third_strike_removes [OF ok conjunct1 [OF o] t] o show ?thesis by (simp add: Let_def)
qed

section \<open>What is reassigned\<close>

lemma assign_round_labels:
  assumes "assign_round now online i ks s = (s', items)"
    "\<forall>k r r'. sc_queue s k = Some r \<longrightarrow> (\<forall>k'. sc_queue s k' = Some r \<longrightarrow> k' = k)" "distinct ks"
  shows "\<forall>k r. sc_queue s k = Some r \<longrightarrow>
      (k \<notin> set ks \<longrightarrow> sc_heap s' r = sc_heap s r) \<and>
      (\<forall>j < length ks. ks ! j = k \<longrightarrow> t_target (sc_heap s' r) = n_id (online ! ((i + j) mod length online)))"
    "items = map (\<lambda>j. (ks ! j, n_id (online ! ((i + j) mod length online))))
      (filter (\<lambda>j. sc_queue s (ks ! j) \<noteq> None) [0..<length ks])"
proof -
  have up: "[0..<length (k # ks)] = 0 # map Suc [0..<length ks]" for k :: string and ks
    by (simp add: upt_conv_Cons map_Suc_upt del: upt_Suc)
  have "(\<forall>k r. sc_queue s k = Some r \<longrightarrow>
      (k \<notin> set ks \<longrightarrow> sc_heap s' r = sc_heap s r) \<and>
      (\<forall>j < length ks. ks ! j = k \<longrightarrow> t_target (sc_heap s' r) = n_id (online ! ((i + j) mod length online)))) \<and>
    items = map (\<lambda>j. (ks ! j, n_id (online ! ((i + j) mod length online))))
      (filter (\<lambda>j. sc_queue s (ks ! j) \<noteq> None) [0..<length ks])"
    using assms
  proof (induction ks arbitrary: i s s' items)
    case Nil
    then show ?case by simp
  next
    case (Cons k ks)
    show ?case
    proof (cases "get_task k s")
      case None
      then have q: "sc_queue s k = None" by (simp add: get_task_def)
      with Cons.prems(1) have "assign_round now online (Suc i) ks s = (s', items)" by (simp add: Let_def get_task_def)
      from Cons.IH [OF this Cons.prems(2)] Cons.prems(3) q show ?thesis
        unfolding up by (auto simp: filter_map comp_def less_Suc_eq_0_disj)
    next
      case (Some r)
      let ?t = "n_id (online ! (i mod length online))"
      have q: "sc_queue s k = Some r" using Some by (simp add: get_task_def)
      obtain s1 its where a: "assign_round now online (Suc i) ks (assign now ?t r s) = (s1, its)"
        by (cases "assign_round now online (Suc i) ks (assign now ?t r s)")
      with Cons.prems(1) Some have r: "s' = s1" "items = (k, ?t) # its" by (simp_all add: Let_def)
      have inj: "\<forall>k r r'. sc_queue (assign now ?t r0 s) k = Some r \<longrightarrow> (\<forall>k'. sc_queue (assign now ?t r0 s) k' = Some r \<longrightarrow> k' = k)" for r0
        using Cons.prems(2) by simp
      note ih = Cons.IH [OF a inj]
      have d: "distinct ks" "k \<notin> set ks" using Cons.prems(3) by simp_all
      have keep: "sc_heap (assign now ?t r s) r' = sc_heap s r'" if "r' \<noteq> r" for r' using that by (simp add: assign_def)
      have one: "r' \<noteq> r" if "sc_queue s k' = Some r'" "k' \<noteq> k" for k' r' using that q Cons.prems(2) by metis
      have hk: "t_target (sc_heap s' r) = ?t" using ih d q r(1) by simp
      show ?thesis
        using ih d q r hk keep one unfolding up by (auto simp: filter_map comp_def less_Suc_eq_0_disj)
    qed
  qed
  then show "\<forall>k r. sc_queue s k = Some r \<longrightarrow>
      (k \<notin> set ks \<longrightarrow> sc_heap s' r = sc_heap s r) \<and>
      (\<forall>j < length ks. ks ! j = k \<longrightarrow> t_target (sc_heap s' r) = n_id (online ! ((i + j) mod length online)))"
    "items = map (\<lambda>j. (ks ! j, n_id (online ! ((i + j) mod length online))))
      (filter (\<lambda>j. sc_queue s (ks ! j) \<noteq> None) [0..<length ks])" by blast+
qed

definition queue_injective :: "'a scheduler \<Rightarrow> bool" where
  "queue_injective s \<longleftrightarrow> (\<forall>k r. sc_queue s k = Some r \<longrightarrow> (\<forall>k'. sc_queue s k' = Some r \<longrightarrow> k' = k))"

lemma sched_ok_injective: "sched_ok s \<Longrightarrow> queue_injective s"
  by (auto simp: sched_ok_def queue_injective_def)

lemma assign_round_keeps:
  assumes "queue_injective s" "sc_queue s k = Some r" "k \<notin> set ks"
  shows "sc_heap (fst (assign_round now online i ks s)) r = sc_heap s r"
  using assms
proof (induction ks arbitrary: i s)
  case (Cons k1 ks)
  show ?case
  proof (cases "get_task k1 s")
    case None
    with Cons show ?thesis by (simp add: Let_def)
  next
    case (Some r1)
    let ?s = "assign now (n_id (online ! (i mod length online))) r1 s"
    have "r1 \<noteq> r" using Some Cons.prems by (auto simp: get_task_def queue_injective_def)
    then have "sc_heap ?s r = sc_heap s r" by (simp add: assign_def)
    moreover have "queue_injective ?s" using Cons.prems(1) by (simp add: queue_injective_def)
    ultimately show ?thesis
      using Cons.IH [of ?s "Suc i"] Cons.prems Some by (auto simp: Let_def split: prod.splits)
  qed
qed simp

lemma failover_reassign_keeps:
  assumes "queue_injective (fo_sched f)" "sc_queue (fo_sched f) k = Some r" "k \<notin> set tasks"
  shows "sc_heap (fo_sched (failover_reassign ks now tasks f)) r = sc_heap (fo_sched f) r"
  using assign_round_keeps [OF assms, of now "get_online_nodes ks (fo_sched f)" 0]
  by (auto simp: failover_reassign_def Let_def split: prod.splits)

lemma reassign_all_keeps:
  assumes "queue_injective (fo_sched f)" "sc_queue (fo_sched f) k = Some r" "\<forall>tasks \<in> set pending. k \<notin> set tasks"
  shows "sc_heap (fo_sched (reassign_all kon now i pending f)) r = sc_heap (fo_sched f) r"
  using assms
proof (induction pending arbitrary: i f)
  case (Cons tasks pending)
  let ?g = "failover_reassign (kon i) now tasks f"
  have q: "sc_queue (fo_sched ?g) = sc_queue (fo_sched f)"
    by (rule only_heap_D(1) [OF failover_reassign_frame(1)])
  then have "queue_injective (fo_sched ?g)" using Cons.prems(1) by (simp add: queue_injective_def)
  with Cons.IH [where f = ?g and i = "Suc i"] q Cons.prems failover_reassign_keeps [where f = f] show ?case by simp
qed simp

lemma check_nodes_pending:
  "check_nodes ord now ns f = (f', pending) \<Longrightarrow> distinct (map n_id ns) \<Longrightarrow> 2 \<le> fc_max_retries (fo_config f) \<Longrightarrow>
     \<forall>tasks \<in> set pending. \<exists>nid \<in> n_id ` set ns. \<exists>fn. fo_failed f nid = Some fn \<and> tasks = fn_tasks fn"
proof (induction ns arbitrary: f f' pending)
  case (Cons n ns)
  show ?case
  proof (cases "heartbeat_lost now (n_id n) f")
    case True
    obtain f1 ts where h: "handle_node_failure (ord (n_id n)) now (n_id n) f = (f1, ts)"
      by (cases "handle_node_failure (ord (n_id n)) now (n_id n) f")
    obtain f2 ps where c: "check_nodes ord now ns f1 = (f2, ps)" by (cases "check_nodes ord now ns f1")
    from Cons.prems(1) True h c have p: "set pending \<subseteq> set ps \<union> (if ts = [] then {} else {ts})"
      by (auto split: if_splits)
    have ts: "ts \<noteq> [] \<Longrightarrow> \<exists>fn. fo_failed f (n_id n) = Some fn \<and> ts = fn_tasks fn"
      using h Cons.prems(3) by (auto simp: handle_node_failure_def Let_def split: option.splits if_splits)
    have "\<exists>nid \<in> n_id ` set ns. \<exists>fn. fo_failed f nid = Some fn \<and> tasks = fn_tasks fn" if "tasks \<in> set ps" for tasks
    proof -
      from Cons.IH [OF c] Cons.prems(2,3) handle_frame(2) [OF h] that
      obtain nid fn where fn: "nid \<in> n_id ` set ns" "fo_failed f1 nid = Some fn" "tasks = fn_tasks fn" by fastforce
      moreover have "n_id n \<notin> n_id ` set ns" using Cons.prems(2) by simp
      ultimately have "nid \<noteq> n_id n" by metis
      from handle_frame(4) [OF h this] fn(2) have "fo_failed f nid = Some fn" by (simp add: same_standing_def)
      with fn(1,3) show ?thesis by blast
    qed
    with p ts show ?thesis by (force split: if_splits)
  next
    case False
    with Cons.prems have "check_nodes ord now ns f = (f', pending)" by simp
    from Cons.IH [OF this] Cons.prems(2,3) show ?thesis by auto
  qed
qed simp

text \<open>
  The tasks that are moved when a node is removed are those it had at its first missed check. A task that
  was given to the node later is not moved: it stays in the queue, labelled with a node that is gone.
\<close>
theorem late_tasks_lost:
  assumes "sched_ok (fo_sched f)" "nodes_filed f" "iter_order kn (sc_nodes (fo_sched f))" "fc_max_retries (fo_config f) = 3"
    "sc_nodes (fo_sched f) nid \<noteq> None" "heartbeat_lost now nid f" "retries nid f = 2"
    "sc_queue (fo_sched f) k = Some r" "t_target (sc_heap (fo_sched f) r) = nid"
    "\<forall>n fn. fo_failed f n = Some fn \<longrightarrow> k \<notin> set (fn_tasks fn)"
  shows "let f' = check_node_health kn ord kon now f in
    sc_nodes (fo_sched f') nid = None \<and> fo_failed f' nid = None \<and>
    sc_queue (fo_sched f') k = Some r \<and> t_target (sc_heap (fo_sched f') r) = nid"
proof -
  let ?ns = "get_all_nodes kn (fo_sched f)" and ?f' = "check_node_health kn ord kon now f"
  have "struck nid f ?f'"
    using check_node_health_frame(1) [OF assms(3) assms(2) [unfolded nodes_filed_def] refl, where nid = nid] assms(5,6) by simp
  then have gone: "sc_nodes (fo_sched ?f') nid = None \<and> fo_failed ?f' nid = None" using assms(4,7) by (simp add: struck_def)
  have ids: "map n_id ?ns = kn"
    using assms(2,3) by (auto simp: get_all_nodes_def map_values_def iter_order_def nodes_filed_def intro!: map_idI)
  obtain f1 pending where c: "check_nodes ord now ?ns f = (f1, pending)" by (cases "check_nodes ord now ?ns f")
  have no: "\<forall>tasks \<in> set pending. k \<notin> set tasks"
    using check_nodes_pending [OF c] ids assms(3,4,10) by (fastforce simp: iter_order_def)
  note same = check_nodes_frame [OF c]
  have inj: "queue_injective (fo_sched f1)" using sched_ok_injective [OF assms(1)] same by (simp add: queue_injective_def)
  have "sc_heap (fo_sched ?f') r = sc_heap (fo_sched f1) r"
    using reassign_all_keeps [OF inj _ no, of r] same assms(8) c by (simp add: check_node_health_def)
  moreover have "sc_queue (fo_sched (reassign_all kon now i pending g)) = sc_queue (fo_sched g)" for i and pending and g :: "'a failover"
    by (induction pending arbitrary: i g) (simp_all add: only_heap_D(1) [OF failover_reassign_frame(1)])
  then have "sc_queue (fo_sched ?f') = sc_queue (fo_sched f1)" by (simp add: check_node_health_def c)
  ultimately show ?thesis using gone same assms(8,9) by (simp add: Let_def)
qed

text \<open>
  A reassignment deals the tasks round robin: the \<open>j\<close>-th task of the list is labelled with the \<open>j\<close>-th
  online node, counted round the list, every other queued task keeps its label, and the callback is told
  exactly the tasks that are still queued, in order. Failed nodes are not excluded: a node that has missed
  one or two checks is still online for the scheduler and can be given its own tasks back.
\<close>
theorem failover_round_robin:
  assumes "sched_ok (fo_sched f)" "distinct tasks" "fo_has_fn f" "get_online_nodes ks (fo_sched f) \<noteq> []"
  shows "let f' = failover_reassign ks now tasks f; online = get_online_nodes ks (fo_sched f);
      target = (\<lambda>j. n_id (online ! (j mod length online))) in
    (\<forall>k r. sc_queue (fo_sched f) k = Some r \<longrightarrow>
      (k \<notin> set tasks \<longrightarrow> sc_heap (fo_sched f') r = sc_heap (fo_sched f) r) \<and>
      (\<forall>j < length tasks. tasks ! j = k \<longrightarrow> t_target (sc_heap (fo_sched f') r) = target j)) \<and>
    fo_calls f' = fo_calls f @ map (\<lambda>j. (tasks ! j, target j))
      (filter (\<lambda>j. sc_queue (fo_sched f) (tasks ! j) \<noteq> None) [0..<length tasks])"
proof -
  obtain s' items where a: "assign_round now (get_online_nodes ks (fo_sched f)) 0 tasks (fo_sched f) = (s', items)"
    by (cases "assign_round now (get_online_nodes ks (fo_sched f)) 0 tasks (fo_sched f)")
  have inj: "\<forall>k r r'. sc_queue (fo_sched f) k = Some r \<longrightarrow> (\<forall>k'. sc_queue (fo_sched f) k' = Some r \<longrightarrow> k' = k)"
    using sched_ok_injective [OF assms(1)] by (simp add: queue_injective_def)
  have e: "failover_reassign ks now tasks f = f\<lparr>fo_sched := s', fo_calls := fo_calls f @ items\<rparr>"
    using assms(3,4) a by (simp add: failover_reassign_def Let_def)
  from assign_round_labels [OF a inj assms(2)] show ?thesis by (simp add: e Let_def)
qed

lemma failover_round_robin_witness:
  "fo_calls (failover_reassign [''a'', ''b''] 5 [''t9'', ''t1''] (set_task_reassign_fn True (new_failover demo_scheduler))) = [(''t1'', ''b'')]"
proof -
  let ?f = "set_task_reassign_fn True (new_failover demo_scheduler)"
  have s: "fo_sched ?f = demo_scheduler" "fo_calls ?f = []" "fo_has_fn ?f" by (simp_all add: set_task_reassign_fn_def new_failover_def)
  have ok: "sched_ok (fo_sched ?f)" by (auto simp: s sched_ok_def demo_scheduler_simps demo_task_def split: if_splits)
  have on: "get_online_nodes [''a'', ''b''] (fo_sched ?f) = [online_demo ''a'' 70, online_demo ''b'' 30]"
    by (simp add: s get_online_nodes_def map_values_def demo_scheduler_simps online_demo_def update_seen_def is_online_def)
  from failover_round_robin [OF ok, of "[''t9'', ''t1'']" "[''a'', ''b'']" 5] s on show ?thesis
    by (simp add: Let_def demo_scheduler_simps online_demo_def update_seen_def demo_node_def upt_rec)
qed

text \<open>A task given to a node between its second and third missed check.\<close>

definition late_failover :: "unit failover" where
  "late_failover =
     (new_failover (assign 1 ''a'' 0 demo_scheduler))
       \<lparr>fo_heartbeat := [''a'' \<mapsto> 0],
        fo_failed := [''a'' \<mapsto> \<lparr>fn_id = ''a'', fn_at = 16000000000, fn_retry = 2, fn_tasks = [], fn_scheduled = True\<rparr>]\<rparr>"

lemma late_tasks_lost_witness:
  "t_target (sc_heap (fo_sched (check_node_health [''a'', ''b''] (\<lambda>_. [''t1'']) (\<lambda>_. [''b'']) 30000000000 late_failover)) 0) = ''a''"
proof -
  have q: "sc_queue (fo_sched late_failover) = [''t1'' \<mapsto> 0]" "sc_nodes (fo_sched late_failover) = sc_nodes demo_scheduler"
    by (simp_all add: late_failover_def new_failover_def demo_scheduler_simps)
  have ok: "sched_ok (fo_sched late_failover)" "nodes_filed late_failover"
    by (auto simp: sched_ok_def nodes_filed_def q late_failover_def new_failover_def demo_scheduler_simps demo_task_def
        online_demo_def update_seen_def demo_node_def split: if_splits)
  have it: "iter_order [''a'', ''b''] (sc_nodes (fo_sched late_failover))" unfolding q by (rule demo_iter)
  have more: "fc_max_retries (fo_config late_failover) = 3" "sc_nodes (fo_sched late_failover) ''a'' \<noteq> None"
    "heartbeat_lost 30000000000 ''a'' late_failover" "retries ''a'' late_failover = 2"
    "sc_queue (fo_sched late_failover) ''t1'' = Some 0" "t_target (sc_heap (fo_sched late_failover) 0) = ''a''"
    "\<forall>n fn. fo_failed late_failover n = Some fn \<longrightarrow> ''t1'' \<notin> set (fn_tasks fn)"
    by (simp_all add: q demo_scheduler_simps) (auto simp: late_failover_def new_failover_def default_failover_config_def
        heartbeat_lost_def retries_def split: if_splits)
  from late_tasks_lost [OF ok(1,2) it more, of "\<lambda>_. [''t1'']" "\<lambda>_. [''b'']"] show ?thesis by (simp add: Let_def)
qed

end
