(* ===== verification/StateSync.thy ===== *)
theory StateSync
  imports ClusterNode
begin

text \<open>
  Replicated cluster state, \<open>internal/cluster/sync.go\<close>. \<open>sync_peers\<close> is the callback that sends the state;
  its results are a list of errors, one per call. The merge iterates two maps, and no result depends on
  the order, so the merged maps are written as functions of the key.
\<close>

section \<open>State\<close>

record node_state =
  ns_id :: string
  ns_task_count :: int
  ns_load :: int
  ns_status :: node_status
  ns_last_sync :: instant
  ns_active :: "string \<rightharpoonup> string"

record cluster_state =
  cs_nodes :: "string \<rightharpoonup> node_state"
  cs_tasks :: "string \<rightharpoonup> string"
  cs_version :: int
  cs_updated :: instant

record sync_config =
  sy_interval :: duration
  sy_max_retries :: int
  sy_retry_delay :: duration

record state_sync =
  sy_config :: sync_config
  sy_local :: string
  sy_state :: cluster_state
  sy_has_fn :: bool

definition default_sync_config :: sync_config where
  "default_sync_config = \<lparr>sy_interval = 10000000000, sy_max_retries = 3, sy_retry_delay = 2000000000\<rparr>"

definition new_state_sync :: "string \<Rightarrow> instant \<Rightarrow> state_sync" where
  "new_state_sync me now = \<lparr>sy_config = default_sync_config, sy_local = me,
     sy_state = \<lparr>cs_nodes = Map.empty, cs_tasks = Map.empty, cs_version = 0, cs_updated = now\<rparr>, sy_has_fn = False\<rparr>"

definition set_sync_peers_fn :: "bool \<Rightarrow> state_sync \<Rightarrow> state_sync" where
  "set_sync_peers_fn non_nil s = s\<lparr>sy_has_fn := non_nil\<rparr>"

definition get_cluster_state :: "state_sync \<Rightarrow> cluster_state" where
  "get_cluster_state s = sy_state s"

text \<open>Every local change bumps the version.\<close>

definition bump :: "instant \<Rightarrow> cluster_state \<Rightarrow> cluster_state" where
  "bump now st = st\<lparr>cs_version := i64 (cs_version st + 1), cs_updated := now\<rparr>"

definition update_local_state :: "int \<Rightarrow> int \<Rightarrow> (string \<rightharpoonup> string) \<Rightarrow> instant \<Rightarrow> state_sync \<Rightarrow> state_sync" where
  "update_local_state task_count load active now s =
     s\<lparr>sy_state := bump now ((sy_state s)\<lparr>cs_nodes := (cs_nodes (sy_state s))(sy_local s \<mapsto>
       \<lparr>ns_id = sy_local s, ns_task_count = task_count, ns_load = load, ns_status = StatusOnline,
        ns_last_sync = now, ns_active = active\<rparr>)\<rparr>)\<rparr>"

definition update_task_mapping :: "string \<Rightarrow> string \<Rightarrow> instant \<Rightarrow> state_sync \<Rightarrow> state_sync" where
  "update_task_mapping tid nid now s =
     s\<lparr>sy_state := bump now ((sy_state s)\<lparr>cs_tasks := (cs_tasks (sy_state s))(tid \<mapsto> nid)\<rparr>)\<rparr>"

definition remove_task_mapping :: "string \<Rightarrow> instant \<Rightarrow> state_sync \<Rightarrow> state_sync" where
  "remove_task_mapping tid now s =
     s\<lparr>sy_state := bump now ((sy_state s)\<lparr>cs_tasks := (cs_tasks (sy_state s))(tid := None)\<rparr>)\<rparr>"

definition get_task_node :: "string \<Rightarrow> state_sync \<Rightarrow> string option" where
  "get_task_node tid s = cs_tasks (sy_state s) tid"

definition get_node_state :: "string \<Rightarrow> state_sync \<Rightarrow> node_state option" where
  "get_node_state nid s = cs_nodes (sy_state s) nid"

definition get_all_node_states :: "string list \<Rightarrow> state_sync \<Rightarrow> node_state list" where
  "get_all_node_states ks s = map_values ks (cs_nodes (sy_state s))"

section \<open>Sending\<close>

text \<open>The result, and how many attempts slept before the next one.\<close>

fun sync_attempts :: "nat \<Rightarrow> 'e option \<Rightarrow> 'e option list \<Rightarrow> 'e option \<times> nat" where
  "sync_attempts 0 last_err results = (last_err, 0)"
| "sync_attempts (Suc n) last_err [] = (last_err, 0)"
| "sync_attempts (Suc n) last_err (None # results) = (None, 0)"
| "sync_attempts (Suc n) last_err (Some e # results) =
     (case sync_attempts n (Some e) results of (r, k) \<Rightarrow> (r, Suc k))"

definition sync_with_retry :: "'e option list \<Rightarrow> state_sync \<Rightarrow> 'e option \<times> nat" where
  "sync_with_retry results s = sync_attempts (nat (sy_max_retries (sy_config s))) None results"

definition perform_sync :: "'e option list \<Rightarrow> state_sync \<Rightarrow> 'e option" where
  "perform_sync results s = (if sy_has_fn s then fst (sync_with_retry results s) else None)"

section \<open>Merging\<close>

definition merge_node :: "node_state option \<Rightarrow> node_state option \<Rightarrow> node_state option" where
  "merge_node mine theirs =
     (case theirs of
        None \<Rightarrow> mine
      | Some r \<Rightarrow> (case mine of None \<Rightarrow> Some r | Some l \<Rightarrow> if ns_last_sync r > ns_last_sync l then Some r else Some l))"

definition merge_task :: "string option \<Rightarrow> string option \<Rightarrow> string option" where
  "merge_task mine theirs = (case mine of Some n \<Rightarrow> Some n | None \<Rightarrow> theirs)"

definition merge_state :: "cluster_state \<Rightarrow> instant \<Rightarrow> state_sync \<Rightarrow> state_sync" where
  "merge_state remote now s =
     (let st = sy_state s in
      if cs_version remote \<le> cs_version st then s
      else s\<lparr>sy_state := st\<lparr>
        cs_nodes := (\<lambda>k. merge_node (cs_nodes st k) (cs_nodes remote k)),
        cs_tasks := (\<lambda>k. merge_task (cs_tasks st k) (cs_tasks remote k)),
        cs_version := cs_version remote, cs_updated := now\<rparr>\<rparr>)"

definition resolve_task_conflict :: "string \<Rightarrow> string \<Rightarrow> state_sync \<Rightarrow> string" where
  "resolve_task_conflict tid preferred s =
     (case cs_tasks (sy_state s) tid of
        None \<Rightarrow> preferred
      | Some current \<Rightarrow>
          (case cs_nodes (sy_state s) current of
             None \<Rightarrow> preferred
           | Some st \<Rightarrow> if ns_status st \<noteq> StatusOnline then preferred else current))"

section \<open>Merging never goes back\<close>

text \<open>\<open>newer_node a b\<close>: \<open>b\<close> knows at least what \<open>a\<close> knew of a node.\<close>

definition newer_node :: "node_state option \<Rightarrow> node_state option \<Rightarrow> bool" where
  "newer_node a b \<longleftrightarrow> (case a of None \<Rightarrow> True | Some x \<Rightarrow> (case b of None \<Rightarrow> False | Some y \<Rightarrow> ns_last_sync x \<le> ns_last_sync y))"

text \<open>The preorder of knowledge, and the merge as its upper bound.\<close>

locale merge_bound =
  fixes le :: "'a \<Rightarrow> 'a \<Rightarrow> bool" and mrg :: "'a \<Rightarrow> 'a \<Rightarrow> 'a"
  assumes refl: "le a a"
    and trans: "le a b \<Longrightarrow> le b c \<Longrightarrow> le a c"
    and left: "le a (mrg a b)"
    and right: "le b (mrg a b)"
    and picks: "mrg a b = a \<or> mrg a b = b"
    and absorbs: "le b a \<Longrightarrow> mrg a b = a"
begin

lemma idem: "mrg (mrg a b) b = mrg a b"
  using absorbs right by blast

lemma fold_grows: "le a (fold (\<lambda>b a. mrg a b) bs a)"
  by (induction bs arbitrary: a) (auto intro: refl trans [OF left])

lemma fold_bounds: "b \<in> set bs \<Longrightarrow> le b (fold (\<lambda>b a. mrg a b) bs a)"
proof (induction bs arbitrary: a)
  case (Cons c bs)
  show ?case
  proof (cases "b = c")
    case True
    with trans [OF right fold_grows] show ?thesis by simp
  next
    case False
    with Cons show ?thesis by simp
  qed
qed simp

end

interpretation nodes_merge: merge_bound newer_node merge_node
  by unfold_locales (auto simp: newer_node_def merge_node_def split: option.splits)

text \<open>For tasks the first mapping wins, so knowledge is only whether there is one.\<close>

definition known_task :: "string option \<Rightarrow> string option \<Rightarrow> bool" where
  "known_task a b \<longleftrightarrow> (a = None \<or> b \<noteq> None)"

interpretation tasks_merge: merge_bound known_task merge_task
  by unfold_locales (auto simp: known_task_def merge_task_def split: option.splits)

text \<open>
  C35: Merging remote states never loses knowledge: over any sequence of merges the version grows, every known
  node stays known with a synchronisation time that never goes back, every task keeps its mapping, and
  merging the same state again changes nothing.
\<close>
theorem merge_monotone:
  "let s' = fold (\<lambda>(r, t). merge_state r t) rs s in
    cs_version (sy_state s) \<le> cs_version (sy_state s') \<and>
    newer_node (get_node_state nid s) (get_node_state nid s') \<and>
    (get_task_node tid s = None \<or> get_task_node tid s' = get_task_node tid s) \<and>
    merge_state r t' (merge_state r t s') = merge_state r t s'"
proof -
  have "cs_version (sy_state s) \<le> cs_version (sy_state (fold (\<lambda>(r, t). merge_state r t) rs s)) \<and>
    newer_node (get_node_state nid s) (get_node_state nid (fold (\<lambda>(r, t). merge_state r t) rs s)) \<and>
    (get_task_node tid s = None \<or> get_task_node tid (fold (\<lambda>(r, t). merge_state r t) rs s) = get_task_node tid s)"
  proof (induction rs arbitrary: s)
    case Nil
    show ?case by (simp add: nodes_merge.refl)
  next
    case (Cons x rs)
    obtain r t where x: "x = (r, t)" by (cases x)
    let ?s = "merge_state r t s"
    have one: "cs_version (sy_state s) \<le> cs_version (sy_state ?s)" "newer_node (get_node_state nid s) (get_node_state nid ?s)"
      "get_task_node tid s = None \<or> get_task_node tid ?s = get_task_node tid s"
      by (auto simp: merge_state_def Let_def get_node_state_def get_task_node_def merge_task_def nodes_merge.left
          nodes_merge.refl split: option.split)
    from Cons.IH [of ?s] one nodes_merge.trans show ?case by (auto simp: x intro: order_trans)
  qed
  moreover have "merge_state r t' (merge_state r t s'') = merge_state r t s''" for s''
    by (simp add: merge_state_def Let_def)
  ultimately show ?thesis by (simp add: Let_def)
qed

section \<open>What the version check loses\<close>

datatype sync_op = UpdateLocal int int "string \<rightharpoonup> string" instant | MapTask string string instant | UnmapTask string instant

fun sync_exec :: "state_sync \<Rightarrow> sync_op \<Rightarrow> state_sync" where
  "sync_exec s (UpdateLocal c l a t) = update_local_state c l a t s"
| "sync_exec s (MapTask tid nid t) = update_task_mapping tid nid t s"
| "sync_exec s (UnmapTask tid t) = remove_task_mapping tid t s"

lemma version_counts_updates:
  "0 \<le> cs_version (sy_state s) \<Longrightarrow> cs_version (sy_state s) + int (length ops) < 2 ^ 63 \<Longrightarrow>
     cs_version (sy_state (foldl sync_exec s ops)) = cs_version (sy_state s) + int (length ops)"
proof (induction ops arbitrary: s)
  case (Cons x xs)
  have "cs_version (sy_state (sync_exec s x)) = i64 (cs_version (sy_state s) + 1)"
    by (cases x) (simp_all add: update_local_state_def update_task_mapping_def remove_task_mapping_def bump_def)
  then have "cs_version (sy_state (sync_exec s x)) = cs_version (sy_state s) + 1" using Cons.prems by (simp add: go_int)
  with Cons show ?case by simp
qed simp

text \<open>
  The version is a count of local updates, not an identity: two nodes that have each made the same number
  of updates, or the sender fewer, exchange nothing, whatever the updates were. Each keeps its own view
  of nodes and tasks for as long as the counts stay in that order.
\<close>
theorem concurrent_updates_not_merged:
  assumes "length ops2 \<le> length ops1" "length ops1 < 2 ^ 63"
  shows "let a = foldl sync_exec (new_state_sync me t1) ops1; b = foldl sync_exec (new_state_sync you t2) ops2 in
    merge_state (get_cluster_state b) now a = a"
proof -
  have "int (length ops1) < 2 ^ 63" "int (length ops2) < 2 ^ 63" using assms by (simp_all add: nat_less_iff zless_nat_eq_int_zless)
  with assms(1) show ?thesis
    by (simp add: merge_state_def Let_def get_cluster_state_def version_counts_updates new_state_sync_def)
qed

lemma concurrent_updates_not_merged_witness:
  "get_task_node ''t2'' (merge_state (get_cluster_state (foldl sync_exec (new_state_sync ''b'' 0) [MapTask ''t2'' ''b'' 1])) 5
     (foldl sync_exec (new_state_sync ''a'' 0) [MapTask ''t1'' ''a'' 2])) = None"
  using concurrent_updates_not_merged [of "[MapTask ''t2'' ''b'' 1]" "[MapTask ''t1'' ''a'' 2]" "''a''" 0 "''b''" 0 5]
  by (simp add: Let_def) (simp add: get_task_node_def update_task_mapping_def bump_def new_state_sync_def)

text \<open>
  Removing a task mapping does not last: the next accepted state that still has the mapping brings it back,
  and a mapping that was changed remotely is never updated.
\<close>
theorem removed_mapping_returns:
  assumes "cs_version (sy_state s) + 1 < cs_version remote" "0 \<le> cs_version (sy_state s)" "cs_version remote < 2 ^ 63"
    "cs_tasks remote tid = Some nid"
  shows "get_task_node tid (remove_task_mapping tid t s) = None \<and>
    get_task_node tid (merge_state remote now (remove_task_mapping tid t s)) = Some nid \<and>
    get_task_node tid (merge_state remote now (update_task_mapping tid mine t s)) = Some mine"
proof -
  have "i64 (cs_version (sy_state s) + 1) = cs_version (sy_state s) + 1" using assms by (simp add: go_int)
  with assms show ?thesis
    by (simp add: get_task_node_def remove_task_mapping_def update_task_mapping_def bump_def merge_state_def merge_task_def)
qed

lemma removed_mapping_returns_witness:
  "get_task_node ''t'' (merge_state \<lparr>cs_nodes = Map.empty, cs_tasks = [''t'' \<mapsto> ''n''], cs_version = 7, cs_updated = 3\<rparr> 9
     (remove_task_mapping ''t'' 4 (new_state_sync ''a'' 0))) = Some ''n''"
  using removed_mapping_returns [of "new_state_sync ''a'' 0"
      "\<lparr>cs_nodes = Map.empty, cs_tasks = [''t'' \<mapsto> ''n''], cs_version = 7, cs_updated = 3\<rparr>" "''t''" "''n''" 4 9 "''m''"]
  by (simp add: new_state_sync_def)

end
