(* ===== verification/GoPath.thy ===== *)
theory GoPath
  imports GoString
begin

text \<open>
  Unix paths as \<open>path/filepath\<close> handles them: cleaning, joining, the parent and the last element.
\<close>

section \<open>Cleaning\<close>

definition path_components :: "string \<Rightarrow> string list" where
  "path_components s = filter (\<lambda>c. c \<noteq> [] \<and> c \<noteq> ''.'') (split_on CHR ''/'' s)"

text \<open>Lexical resolution of \<open>..\<close>; the stack is reversed.\<close>

fun resolve_dots :: "bool \<Rightarrow> string list \<Rightarrow> string list \<Rightarrow> string list" where
  "resolve_dots rooted stack [] = rev stack"
| "resolve_dots rooted stack (c # cs) =
     (if c = ''..'' then
        (case stack of
           [] \<Rightarrow> resolve_dots rooted (if rooted then [] else [c]) cs
         | t # ts \<Rightarrow> if t = ''..'' then resolve_dots rooted (c # stack) cs else resolve_dots rooted ts cs)
      else resolve_dots rooted (c # stack) cs)"

fun join_with :: "char \<Rightarrow> string list \<Rightarrow> string" where
  "join_with d [] = []"
| "join_with d [x] = x"
| "join_with d (x # y # xs) = x @ d # join_with d (y # xs)"

definition path_is_abs :: "string \<Rightarrow> bool" where
  "path_is_abs s = has_prefix s ''/''"

definition path_clean :: "string \<Rightarrow> string" where
  "path_clean s =
     (let cs = resolve_dots (path_is_abs s) [] (path_components s);
          r = (if path_is_abs s then ''/'' else []) @ join_with CHR ''/'' cs
      in if r = [] then ''.'' else r)"

definition path_join :: "string \<Rightarrow> string \<Rightarrow> string" where
  "path_join a b =
     (if a = [] then (if b = [] then [] else path_clean b)
      else if b = [] then path_clean a else path_clean (a @ ''/'' @ b))"

text \<open>The elements of the cleaned path.\<close>

definition clean_elems :: "string \<Rightarrow> string list" where
  "clean_elems s = resolve_dots (path_is_abs s) [] (path_components s)"

text \<open>\<open>filepath.Dir\<close>: everything up to the last slash, cleaned.\<close>

definition path_dir :: "string \<Rightarrow> string" where
  "path_dir s = path_clean (rev (dropWhile (\<lambda>c. c \<noteq> CHR ''/'') (rev s)))"

definition path_abs :: "string \<Rightarrow> string \<Rightarrow> string" where
  "path_abs cwd p = (if path_is_abs p then path_clean p else path_join cwd p)"

definition path_base :: "string \<Rightarrow> string" where
  "path_base s =
     (if s = [] then ''.''
      else let t = rev (dropWhile (\<lambda>c. c = CHR ''/'') (rev s)) in
        if t = [] then ''/'' else rev (takeWhile (\<lambda>c. c \<noteq> CHR ''/'') (rev t)))"

section \<open>Facts\<close>

lemma path_components_join: "path_components (a @ CHR ''/'' # b) = path_components a @ path_components b"
  by (simp add: path_components_def split_on_join)

lemma path_components_ne: "c \<in> set (path_components s) \<Longrightarrow> c \<noteq> [] \<and> c \<noteq> ''.'' \<and> CHR ''/'' \<notin> set c"
  by (auto simp: path_components_def dest: split_on_parts)

lemma resolve_dots_append: "resolve_dots r st (as @ bs) = resolve_dots r (rev (resolve_dots r st as)) bs"
  by (induction r st as rule: resolve_dots.induct) (auto split: list.splits)

lemma resolve_dots_keeps: "''..'' \<in> set st \<Longrightarrow> ''..'' \<in> set (resolve_dots r st cs)"
  by (induction r st cs rule: resolve_dots.induct) (auto split: list.splits)

text \<open>A path whose cleaned elements hold no \<open>..\<close> never leaves the place where it starts.\<close>

lemma resolve_dots_below:
  "''..'' \<notin> set (resolve_dots False acc cs) \<Longrightarrow> resolve_dots r (acc @ st) cs = rev st @ resolve_dots False acc cs"
proof (induction cs arbitrary: acc)
  case (Cons c cs)
  have "''..'' \<notin> set acc" using Cons.prems resolve_dots_keeps [of acc False "c # cs"] by blast
  moreover have "resolve_dots False [] (''..'' # cs) = resolve_dots False [''..''] cs" by simp
  ultimately show ?case
    using Cons.prems Cons.IH [of "tl acc"] Cons.IH [of "c # acc"] resolve_dots_keeps [of "[''..'']" False cs]
    by (cases acc) auto
qed simp

lemma join_below:
  assumes "base \<noteq> []" "''..'' \<notin> set (clean_elems p)" "\<not> path_is_abs p"
  shows "clean_elems (base @ CHR ''/'' # p) = clean_elems base @ clean_elems p"
proof -
  have a: "path_is_abs (base @ CHR ''/'' # p) = path_is_abs base"
    using assms(1) by (cases base) (simp_all add: path_is_abs_def)
  show ?thesis
    unfolding clean_elems_def a path_components_join resolve_dots_append
    using resolve_dots_below [of "[]" "path_components p" "path_is_abs base"
        "rev (resolve_dots (path_is_abs base) [] (path_components base))"] assms(2,3)
    by (simp add: clean_elems_def)
qed

lemma resolve_dots_sub: "set (resolve_dots r st cs) \<subseteq> set st \<union> set cs"
  by (induction r st cs rule: resolve_dots.induct) (auto split: list.splits if_splits)

lemma split_join:
  "(\<And>x. x \<in> set xs \<Longrightarrow> d \<notin> set x) \<Longrightarrow> xs \<noteq> [] \<Longrightarrow> split_on d (join_with d xs) = xs"
  by (induction d xs rule: join_with.induct) (simp_all add: split_on_append split_on_single)

lemma clean_elems_plain: "c \<in> set (clean_elems s) \<Longrightarrow> c \<noteq> [] \<and> c \<noteq> ''.'' \<and> CHR ''/'' \<notin> set c"
  using resolve_dots_sub [of "path_is_abs s" "[]" "path_components s"] path_components_ne [of c s]
  by (auto simp: clean_elems_def)

lemma path_clean_parts:
  "split_on CHR ''/'' (path_clean s) =
     (if path_is_abs s then [] # (if clean_elems s = [] then [[]] else clean_elems s)
      else if clean_elems s = [] then [''.''] else clean_elems s)"
proof -
  have ne: "join_with d xs \<noteq> []" if "xs \<noteq> []" "hd xs \<noteq> []" for d xs
    using that by (induction d xs rule: join_with.induct) auto
  have "hd (clean_elems s) \<noteq> []" if "clean_elems s \<noteq> []" using that clean_elems_plain [of "hd (clean_elems s)" s] by simp
  then have j: "join_with CHR ''/'' (clean_elems s) \<noteq> []" if "clean_elems s \<noteq> []" using ne that by blast
  have sp: "split_on CHR ''/'' (join_with CHR ''/'' (clean_elems s)) = clean_elems s" if "clean_elems s \<noteq> []"
    using that clean_elems_plain by (intro split_join) blast+
  show ?thesis
    using j sp unfolding path_clean_def clean_elems_def [symmetric] Let_def by (cases "clean_elems s = []") auto
qed

lemma path_is_abs_parts: "path_is_abs t \<longleftrightarrow> (\<exists>x xs. split_on CHR ''/'' t = [] # x # xs)"
proof (cases t)
  case (Cons c cs)
  obtain x xs where "split_on CHR ''/'' cs = x # xs" by (cases "split_on CHR ''/'' cs") auto
  then show ?thesis using Cons by (simp add: path_is_abs_def)
qed (simp add: path_is_abs_def)

lemma clean_abs: "path_is_abs (path_clean s) = path_is_abs s"
  using clean_elems_plain [of "hd (clean_elems s)" s]
  unfolding path_is_abs_parts [of "path_clean s"] path_clean_parts by (cases "clean_elems s") auto

end
