(* ===== verification/Manager.thy ===== *)
theory Manager
  imports TaskQueueInv GoUrl GoPath RateLimiter
begin

text \<open>
  The download manager, \<open>internal/downloader/manager.go\<close>, on top of the task queue it reports to, wired as
  \<open>cmd/afd/main.go\<close> wires them: the queue's \<open>OnTaskStart\<close> calls \<open>StartDownload\<close>. The life of a download
  goroutine is cut at its lock sections: \<open>downloader_ready\<close>, \<open>download_ends\<close> with what the transfer
  returned, and \<open>goroutine_exits\<close> with its deferred calls. \<open>dm_log\<close> is what listeners are told.
\<close>

section \<open>Times of day\<close>

definition hms_part :: "string \<Rightarrow> int \<Rightarrow> int option" where
  "hms_part s hi = (case atoi s of None \<Rightarrow> None | Some n \<Rightarrow> if n < 0 \<or> n > hi then None else Some n)"

definition parse_day_seconds :: "string \<Rightarrow> int option" where
  "parse_day_seconds s =
     (let parts = split_on CHR '':'' s in
      if length parts < 2 \<or> length parts > 3 then None
      else case hms_part (parts ! 0) 23 of
        None \<Rightarrow> None
      | Some h \<Rightarrow> (case hms_part (parts ! 1) 59 of
          None \<Rightarrow> None
        | Some mi \<Rightarrow>
            if length parts = 3 then map_option (\<lambda>sec. h * 3600 + mi * 60 + sec) (hms_part (parts ! 2) 59)
            else Some (h * 3600 + mi * 60 + 0)))"

text \<open>\<open>sec\<close> is the second of the day of the current time, \<open>wd\<close> its weekday.\<close>

definition is_in_schedule :: "int \<Rightarrow> int \<Rightarrow> schedule_limit \<Rightarrow> bool" where
  "is_in_schedule wd sec l =
     (if (case sl_weekday l of None \<Rightarrow> False | Some d \<Rightarrow> wd \<noteq> d) then False
      else case (parse_day_seconds (sl_start l), parse_day_seconds (sl_end l)) of
        (Some a, Some b) \<Rightarrow> if a \<le> b then sec \<ge> a \<and> sec \<le> b else sec \<ge> a \<or> sec \<le> b
      | _ \<Rightarrow> False)"

fun matched_limit :: "int \<Rightarrow> int \<Rightarrow> schedule_limit list \<Rightarrow> int option" where
  "matched_limit wd sec [] = None"
| "matched_limit wd sec (l # ls) = (if is_in_schedule wd sec l then Some (sl_limit l) else matched_limit wd sec ls)"

section \<open>State\<close>

text \<open>\<open>ad_downloader\<close> is the rate limit last given to the downloader, once there is one.\<close>

record active_download =
  ad_task :: nat
  ad_low_since :: "instant option"
  ad_start :: instant
  ad_cancelled :: bool
  ad_downloader :: "int option option"

record manager_config =
  mc_speed_limit :: int
  mc_schedules :: "schedule_limit list"
  mc_min_speed :: int
  mc_min_speed_timeout :: duration
  mc_check_integrity :: bool
  mc_post_process :: "bool option"

text \<open>\<open>mc_post_process\<close> is the post-processing configuration, with its flag for extraction, if it is set.\<close>

datatype manager_event =
    EmitTaskStarted string string
  | EmitTaskFailed string string
  | EmitTaskPaused string
  | EmitTaskCompleted string string
  | EmitTaskProgress string int int
  | BroadcastNotification string string
  | BroadcastTaskUpdate nat
  | ProcessWithExtract string
  | ProcessOutput string

record manager =
  dm_queue :: tqueue
  dm_cfg :: manager_config
  dm_active :: "string \<rightharpoonup> active_download"
  dm_stopping :: bool
  dm_emitter :: bool
  dm_hub :: bool
  dm_post :: bool
  dm_log :: "manager_event list"

definition new_download_manager :: "tqueue \<Rightarrow> manager_config \<Rightarrow> bool \<Rightarrow> bool \<Rightarrow> bool \<Rightarrow> manager" where
  "new_download_manager q cfg emitter hub post =
     \<lparr>dm_queue = q, dm_cfg = cfg, dm_active = Map.empty, dm_stopping = False, dm_emitter = emitter,
      dm_hub = hub, dm_post = post, dm_log = []\<rparr>"

definition tell :: "bool \<Rightarrow> manager_event list \<Rightarrow> manager \<Rightarrow> manager" where
  "tell there es m = (if there then m\<lparr>dm_log := dm_log m @ es\<rparr> else m)"

definition dm_task :: "manager \<Rightarrow> nat \<Rightarrow> task" where
  "dm_task m r = tq_store (dm_queue m) r"

section \<open>Starting\<close>

text \<open>\<open>filepath.Join\<close> of the download directory and one path element.\<close>

definition join_downloads :: "string \<Rightarrow> string" where
  "join_downloads b =
     (if b = ''.'' \<or> b = ''/'' then ''data/downloads'' else if b = ''..'' then ''data'' else ''data/downloads/'' @ b)"

definition output_path :: "task \<Rightarrow> string" where
  "output_path t =
     (if t_output t \<noteq> [] then t_output t
      else case url_parse (t_url t) of
        Some u \<Rightarrow> join_downloads (path_base (u_path u))
      | None \<Rightarrow> join_downloads (path_base (t_url t)))"

definition start_download :: "instant \<Rightarrow> nat \<Rightarrow> manager \<Rightarrow> manager" where
  "start_download now r m =
     (let t = dm_task m r in
      if dm_stopping m then m
      else if dm_active m (t_id t) \<noteq> None then m
      else tell (dm_emitter m) [EmitTaskStarted (t_id t) (output_path t)]
        (m\<lparr>dm_active := (dm_active m)(t_id t \<mapsto> \<lparr>ad_task = r, ad_low_since = None, ad_start = now,
             ad_cancelled = False, ad_downloader = None\<rparr>)\<rparr>))"

text \<open>A call of the queue, with the downloads its \<open>OnTaskStart\<close> callbacks start.\<close>

definition new_starts :: "tqueue \<Rightarrow> tqueue \<Rightarrow> nat list" where
  "new_starts q q' =
     concat (map (\<lambda>e. case e of OnTaskStart r \<Rightarrow> [r] | _ \<Rightarrow> []) (drop (length (tq_log q)) (tq_log q')))"

definition on_queue :: "instant \<Rightarrow> (tqueue \<Rightarrow> tqueue) \<Rightarrow> manager \<Rightarrow> manager" where
  "on_queue now f m =
     fold (start_download now) (new_starts (dm_queue m) (f (dm_queue m))) (m\<lparr>dm_queue := f (dm_queue m)\<rparr>)"

definition write_manager_task :: "nat \<Rightarrow> (task \<Rightarrow> task) \<Rightarrow> manager \<Rightarrow> manager" where
  "write_manager_task r f m = m\<lparr>dm_queue := write_task r f (dm_queue m)\<rparr>"

text \<open>The goroutine has its downloader, and stores its context in the task.\<close>

definition downloader_ready :: "nat \<Rightarrow> nat \<Rightarrow> manager \<Rightarrow> manager" where
  "downloader_ready ctx r m =
     (let tid = t_id (dm_task m r);
          m1 = (case dm_active m tid of None \<Rightarrow> m
             | Some ad \<Rightarrow> m\<lparr>dm_active := (dm_active m)(tid \<mapsto> ad\<lparr>ad_downloader := Some None\<rparr>)\<rparr>);
          m2 = write_manager_task r (set_context (Some ctx)) m1
      in tell (dm_hub m) [BroadcastNotification ''aria2.onDownloadStart'' tid] m2)"

section \<open>Ending\<close>

definition manager_fail_task :: "instant \<Rightarrow> string \<Rightarrow> string \<Rightarrow> manager \<Rightarrow> manager" where
  "manager_fail_task now tid msg m =
     on_queue now (fail_task now tid msg)
       (tell (dm_hub m) [BroadcastNotification ''aria2.onDownloadError'' tid]
         (tell (dm_emitter m) [EmitTaskFailed tid msg] m))"

datatype verify_result = VerifyError string | Verified bool

datatype transfer =
    CreateFailed string
  | TransferFailed string
  | TransferDone verify_result

definition is_torrent_file :: "string \<Rightarrow> bool" where
  "is_torrent_file p = has_suffix (to_lower p) ''.torrent''"

definition is_magnet_link :: "string \<Rightarrow> bool" where
  "is_magnet_link s = has_prefix (to_lower s) ''magnet:?''"

definition is_archive :: "string \<Rightarrow> bool" where
  "is_archive p \<longleftrightarrow> path_ext p \<in> {''.zip'', ''.rar'', ''.7z'', ''.tar''} \<or>
     list_ex (has_suffix p) [''.tar.gz'', ''.tgz'', ''.tar.bz2'', ''.tbz2'', ''.tar.xz'', ''.txz'']"

definition post_process :: "string \<Rightarrow> manager \<Rightarrow> manager" where
  "post_process path m =
     (if \<not> dm_post m then m
      else case mc_post_process (dm_cfg m) of
        None \<Rightarrow> m
      | Some extract \<Rightarrow>
          if is_archive path \<and> extract then tell True [ProcessWithExtract path] m
          else tell True [ProcessOutput path] m)"

definition download_succeeds :: "instant \<Rightarrow> nat \<Rightarrow> string \<Rightarrow> manager \<Rightarrow> manager" where
  "download_succeeds now r path m =
     (let tid = t_id (dm_task m r); url = t_url (dm_task m r);
          m1 = tell (dm_emitter m) [EmitTaskCompleted tid path] (post_process path m);
          note = (if is_magnet_link url \<or> is_torrent_file url then ''aria2.onBtDownloadComplete''
                  else ''aria2.onDownloadComplete'')
      in on_queue now (complete_task now tid) (tell (dm_hub m) [BroadcastNotification note tid] m1))"

definition download_ends :: "instant \<Rightarrow> nat \<Rightarrow> string \<Rightarrow> transfer \<Rightarrow> manager \<Rightarrow> manager" where
  "download_ends now r path result m =
     (let tid = t_id (dm_task m r);
          cancelled = (case dm_active m tid of None \<Rightarrow> False | Some ad \<Rightarrow> ad_task ad = r \<and> ad_cancelled ad);
          failing = (\<lambda>shown msg. manager_fail_task now tid msg (write_manager_task r (set_error now shown) m)) in
      case result of
        CreateFailed e \<Rightarrow> failing (''failed to create downloader: '' @ e) e
      | TransferFailed e \<Rightarrow>
          if cancelled then
            tell (dm_hub m) [BroadcastNotification ''aria2.onDownloadStop'' tid] (tell (dm_emitter m) [EmitTaskPaused tid] m)
          else failing e e
      | TransferDone v \<Rightarrow>
          if \<not> mc_check_integrity (dm_cfg m) then download_succeeds now r path m
          else (case v of
              VerifyError e \<Rightarrow>
                on_queue now (fail_task now tid (''checksum verification failed: '' @ e))
                  (tell (dm_hub m) [BroadcastNotification ''aria2.onDownloadError'' tid]
                    (tell (dm_emitter m) [EmitTaskFailed tid e]
                      (write_manager_task r (set_error now (''checksum verification failed: '' @ e)) m)))
            | Verified ok \<Rightarrow>
                if \<not> ok then failing ''checksum mismatch'' ''checksum mismatch''
                else download_succeeds now r path m))"

definition goroutine_exits :: "string \<Rightarrow> manager \<Rightarrow> manager" where
  "goroutine_exits tid m = m\<lparr>dm_active := (dm_active m)(tid := None)\<rparr>"

section \<open>Control\<close>

definition cancel_download :: "string \<Rightarrow> manager \<Rightarrow> manager" where
  "cancel_download tid m =
     (case dm_active m tid of None \<Rightarrow> m
      | Some ad \<Rightarrow> m\<lparr>dm_active := (dm_active m)(tid \<mapsto> ad\<lparr>ad_cancelled := True\<rparr>)\<rparr>)"

text \<open>
  \<open>PauseDownload\<close> up to its wait for the goroutine, and after it. \<open>Stop\<close> cancels every download.
\<close>

definition pause_download_begins :: "string \<Rightarrow> manager \<Rightarrow> manager \<times> bool" where
  "pause_download_begins tid m =
     (case dm_active m tid of
        None \<Rightarrow> (m, False)
      | Some ad \<Rightarrow> (cancel_download tid (tell (dm_hub m) [BroadcastNotification ''aria2.onDownloadPause'' tid] m), True))"

definition pause_download_ends :: "string \<Rightarrow> manager \<Rightarrow> manager" where
  "pause_download_ends tid m = m\<lparr>dm_active := (dm_active m)(tid := None)\<rparr>"

definition stop_manager :: "manager \<Rightarrow> manager" where
  "stop_manager m = m\<lparr>dm_stopping := True, dm_active := (\<lambda>k. map_option (ad_cancelled_update (\<lambda>_. True)) (dm_active m k))\<rparr>"

definition apply_scheduled_speed_limit :: "int \<Rightarrow> int \<Rightarrow> manager \<Rightarrow> manager" where
  "apply_scheduled_speed_limit wd sec m =
     (let limit = (case matched_limit wd sec (mc_schedules (dm_cfg m)) of
            Some l \<Rightarrow> l | None \<Rightarrow> mc_speed_limit (dm_cfg m))
      in m\<lparr>dm_active := (\<lambda>k. map_option (\<lambda>ad. case ad_downloader ad of
             None \<Rightarrow> ad | Some old \<Rightarrow> ad\<lparr>ad_downloader := Some (Some limit)\<rparr>) (dm_active m k))\<rparr>)"

definition update_progress_all :: "string list \<Rightarrow> manager \<Rightarrow> manager" where
  "update_progress_all ks m = tell True (map (\<lambda>ad. BroadcastTaskUpdate (ad_task ad)) (map_values ks (dm_active m))) m"

definition get_active_downloads :: "string list \<Rightarrow> manager \<Rightarrow> string list" where
  "get_active_downloads ks m = filter (\<lambda>k. dm_active m k \<noteq> None) ks"

section \<open>The speed monitor\<close>

text \<open>The verdict on one reading of the speed: the new start of the slow phase, and whether to give up.\<close>

definition low_speed_verdict ::
  "manager_config \<Rightarrow> instant \<Rightarrow> int \<Rightarrow> active_download \<Rightarrow> active_download \<times> bool" where
  "low_speed_verdict cfg now speed ad =
     (if mc_min_speed cfg \<le> 0 \<or> now - ad_start ad < 30 * 1000000000 then (ad, False)
      else if speed < mc_min_speed cfg then
        (case ad_low_since ad of
           None \<Rightarrow> (ad\<lparr>ad_low_since := Some now\<rparr>, False)
         | Some since \<Rightarrow> (ad, now - since \<ge> mc_min_speed_timeout cfg))
      else (ad\<lparr>ad_low_since := None\<rparr>, False))"

text \<open>One tick; when it gives up the download is cancelled and \<open>True\<close> is answered.\<close>

definition monitor_tick :: "string \<Rightarrow> instant \<Rightarrow> int \<Rightarrow> int \<Rightarrow> manager \<Rightarrow> manager \<times> bool" where
  "monitor_tick tid now speed downloaded m =
     (let m1 = tell (dm_emitter m) [EmitTaskProgress tid speed downloaded] m in
      case dm_active m1 tid of
        None \<Rightarrow> (m1, False)
      | Some ad \<Rightarrow>
          (case low_speed_verdict (dm_cfg m1) now speed ad of
             (ad1, kill) \<Rightarrow>
               let m2 = m1\<lparr>dm_active := (dm_active m1)(tid \<mapsto> ad1)\<rparr>
               in if kill then (cancel_download tid m2, True) else (m2, False)))"

text \<open>What the monitor does when the cancelled goroutine is done.\<close>

definition monitor_fails :: "string \<Rightarrow> instant \<Rightarrow> manager \<Rightarrow> manager" where
  "monitor_fails tid now m =
     on_queue now (fail_task now tid ''download speed too low'') (m\<lparr>dm_active := (dm_active m)(tid := None)\<rparr>)"

end
