(* ===== verification/ManagerProps.thy ===== *)
theory ManagerProps
  imports Manager TaskQueueProps
begin

text \<open>
  Properties of the download manager: what each ending of a download does to the queue, what pausing does
  to a running transfer, the schedule windows and the low-speed monitor.
\<close>

section \<open>Frames\<close>

lemma tell_simps [simp]:
  "dm_queue (tell b es m) = dm_queue m" "dm_active (tell b es m) = dm_active m" "dm_cfg (tell b es m) = dm_cfg m"
  "dm_stopping (tell b es m) = dm_stopping m" "dm_task (tell b es m) = dm_task m"
  by (simp_all add: tell_def dm_task_def fun_eq_iff)

lemma post_process_simps [simp]:
  "dm_queue (post_process path m) = dm_queue m" "dm_active (post_process path m) = dm_active m"
  "dm_stopping (post_process path m) = dm_stopping m"
  by (simp_all add: post_process_def split: option.split)

lemma start_download_frame [simp]:
  "dm_queue (start_download now r m) = dm_queue m" "dm_stopping (start_download now r m) = dm_stopping m"
  "dm_cfg (start_download now r m) = dm_cfg m"
  by (simp_all add: start_download_def Let_def)

lemma start_download_active:
  "dm_active m \<subseteq>\<^sub>m dm_active (start_download now r m)"
  "\<not> dm_stopping m \<Longrightarrow> dom (dm_active (start_download now r m)) = insert (t_id (dm_task m r)) (dom (dm_active m))"
  by (auto simp: start_download_def Let_def map_le_def)

lemma starts_frame:
  "dm_queue (fold (start_download now) rs m) = dm_queue m \<and> dm_cfg (fold (start_download now) rs m) = dm_cfg m \<and>
   dm_active m \<subseteq>\<^sub>m dm_active (fold (start_download now) rs m)"
proof (induction rs arbitrary: m)
  case (Cons r rs)
  from Cons [of "start_download now r m"] map_le_trans [OF start_download_active(1) [of m now r]] show ?case by simp
qed simp

lemma starts_dom:
  "\<not> dm_stopping m \<Longrightarrow>
     dom (dm_active (fold (start_download now) rs m)) = (t_id \<circ> dm_task m) ` set rs \<union> dom (dm_active m)"
proof (induction rs arbitrary: m)
  case (Cons r rs)
  have "dm_task (start_download now r m) = dm_task m" by (simp add: dm_task_def fun_eq_iff)
  with Cons start_download_active(2) [OF Cons.prems] show ?case by auto
qed simp

lemma on_queue_frame:
  "dm_queue (on_queue now f m) = f (dm_queue m)" "dm_cfg (on_queue now f m) = dm_cfg m"
  "dm_active m \<subseteq>\<^sub>m dm_active (on_queue now f m)"
  using starts_frame [of now "new_starts (dm_queue m) (f (dm_queue m))" "m\<lparr>dm_queue := f (dm_queue m)\<rparr>"]
  by (simp_all add: on_queue_def)

lemma on_queue_dom:
  assumes "\<not> dm_stopping m"
  shows "dom (dm_active (on_queue now f m)) =
    (\<lambda>r. t_id (tq_store (f (dm_queue m)) r)) ` set (new_starts (dm_queue m) (f (dm_queue m))) \<union> dom (dm_active m)"
  using starts_dom [of "m\<lparr>dm_queue := f (dm_queue m)\<rparr>"] assms
  by (simp add: on_queue_def dm_task_def comp_def)

lemma new_starts_self [simp]: "new_starts q q = []"
  by (simp add: new_starts_def)

lemma on_queue_id: "f (dm_queue m) = dm_queue m \<Longrightarrow> on_queue now f m = m"
  by (simp add: on_queue_def)

section \<open>Failures\<close>

text \<open>The outcomes that end in \<open>FailTask\<close>, for a download that is not cancelled.\<close>

definition outcome_fails :: "manager \<Rightarrow> transfer \<Rightarrow> bool" where
  "outcome_fails m result \<longleftrightarrow>
     (case result of
        TransferDone v \<Rightarrow> mc_check_integrity (dm_cfg m) \<and> v \<noteq> Verified True
      | _ \<Rightarrow> True)"

definition not_cancelled :: "manager \<Rightarrow> nat \<Rightarrow> bool" where
  "not_cancelled m r \<longleftrightarrow>
     (case dm_active m (t_id (dm_task m r)) of None \<Rightarrow> True | Some ad \<Rightarrow> \<not> (ad_task ad = r \<and> ad_cancelled ad))"

lemma fail_task_noop:
  assumes "tq_tasks q tid = Some r" "t_status (tq_store q r) \<noteq> StatusDownloading"
  shows "fail_task now tid msg q = q" "complete_task now tid q = q"
  using assms by (simp_all add: fail_task_def complete_task_def get_status_def)

lemma failing_ends_queue:
  assumes "outcome_fails m result" "not_cancelled m r" "tq_tasks (dm_queue m) (t_id (dm_task m r)) = Some r"
  obtains msg where "dm_queue (download_ends now r path result m) = write_task r (set_error now msg) (dm_queue m)"
proof -
  let ?tid = "t_id (dm_task m r)"
  have noop: "fail_task now ?tid e (write_task r (set_error now s) (dm_queue m)) = write_task r (set_error now s) (dm_queue m)" for e s
    using assms(3) by (intro fail_task_noop(1) [of _ _ r]) simp_all
  have fail: "dm_queue (manager_fail_task now ?tid e (write_manager_task r (set_error now s) m)) =
      write_task r (set_error now s) (dm_queue m)" for e s
    by (simp add: manager_fail_task_def on_queue_frame write_manager_task_def noop)
  have nc: "\<not> (case dm_active m ?tid of None \<Rightarrow> False | Some ad \<Rightarrow> ad_task ad = r \<and> ad_cancelled ad)"
    using assms(2) by (simp add: not_cancelled_def split: option.splits)
  show ?thesis
  proof (cases result)
    case (CreateFailed e)
    then show ?thesis using that fail by (simp add: download_ends_def Let_def)
  next
    case (TransferFailed e)
    then show ?thesis using that fail nc by (simp add: download_ends_def Let_def)
  next
    case (TransferDone v)
    then show ?thesis using that fail assms(1) noop
      by (cases v) (auto simp: download_ends_def Let_def outcome_fails_def on_queue_frame write_manager_task_def)
  qed
qed

text \<open>
  A download that fails never gives its slot back: \<open>SetError\<close> has already marked the task failed when
  \<open>FailTask\<close> is called, which then takes it for a finished one and does nothing. The task stays tracked,
  the active count is one more than the running downloads, no waiting task is started, the error callback
  is not called, and no later \<open>FailTask\<close> or \<open>CompleteTask\<close> repairs it.
\<close>
theorem failed_download_leaks_slot:
  assumes "queue_inv {} (dm_queue m)" "tq_tasks (dm_queue m) (t_id (dm_task m r)) = Some r"
    "t_status (dm_task m r) = StatusDownloading" "outcome_fails m result" "not_cancelled m r"
  shows "let q = dm_queue m; q' = dm_queue (goroutine_exits (t_id (dm_task m r)) (download_ends now r path result m)) in
    t_status (tq_store q' r) = StatusFailed \<and> tq_tasks q' = tq_tasks q \<and> tq_pq q' = tq_pq q \<and> tq_log q' = tq_log q \<and>
    tq_active q' = tq_active q \<and> tq_active q' = int (card (downloading q')) + 1 \<and>
    fail_task now' (t_id (dm_task m r)) msg q' = q' \<and> complete_task now' (t_id (dm_task m r)) q' = q'"
proof -
  let ?q = "dm_queue m" and ?tid = "t_id (dm_task m r)"
  obtain e where e: "dm_queue (download_ends now r path result m) = write_task r (set_error now e) ?q"
    using failing_ends_queue [OF assms(4,5,2)] by blast
  let ?q' = "write_task r (set_error now e) ?q"
  have dl: "downloading ?q' = downloading ?q - {?tid}"
    using downloading_write [OF queue_invD(2) [OF assms(1)] assms(2), of "set_error now e"] by simp
  have mem: "?tid \<in> downloading ?q" using assms(2,3) by (auto simp: downloading_def dm_task_def)
  have fin: "finite (downloading ?q)" by (rule downloading_finite [OF queue_invD(3) [OF assms(1)]])
  have "int (card (downloading ?q)) = int (card (downloading ?q')) + 1"
    unfolding dl using card_Suc_Diff1 [OF fin mem] by linarith
  moreover have "tq_active ?q = int (card (downloading ?q))" by (rule queue_invD(4) [OF assms(1)])
  ultimately have "tq_active ?q' = int (card (downloading ?q')) + 1" by simp
  moreover have "fail_task now' ?tid msg ?q' = ?q'" "complete_task now' ?tid ?q' = ?q'"
    using assms(2) by (intro fail_task_noop [of _ _ r]; simp)+
  ultimately show ?thesis by (simp add: Let_def goroutine_exits_def e)
qed

text \<open>The queue of three tasks with one slot, and the manager that runs its first task.\<close>

definition demo_config :: manager_config where
  "demo_config = \<lparr>mc_speed_limit = 0, mc_schedules = [], mc_min_speed = 1000, mc_min_speed_timeout = 60000000000,
     mc_check_integrity = True, mc_post_process = None\<rparr>"

definition demo_manager :: manager where
  "demo_manager = start_download 5 0 (new_download_manager demo_queue demo_config True True False)"

lemma demo_manager_queue: "dm_queue demo_manager = demo_queue" "dm_cfg demo_manager = demo_config"
  "dm_task demo_manager = tq_store demo_queue"
  by (simp_all add: demo_manager_def new_download_manager_def dm_task_def fun_eq_iff)

lemma demo_queue_inv: "queue_inv {} demo_queue"
  using queue_reach_inv [OF demo_reach] by simp

lemma failed_download_leaks_slot_witness:
  "tq_active (dm_queue (goroutine_exits (t_id (dm_task demo_manager 0))
     (download_ends 9 0 ''f'' (TransferDone (Verified False)) demo_manager))) = 1"
proof -
  have i: "queue_inv {} (dm_queue demo_manager)" by (simp add: demo_manager_queue demo_queue_inv)
  have t: "tq_tasks (dm_queue demo_manager) (t_id (dm_task demo_manager 0)) = Some 0"
    "t_status (dm_task demo_manager 0) = StatusDownloading" "tq_active (dm_queue demo_manager) = 1"
    unfolding demo_manager_queue by code_simp+
  have o: "outcome_fails demo_manager (TransferDone (Verified False))"
    by (simp add: outcome_fails_def demo_manager_queue demo_config_def)
  have n: "not_cancelled demo_manager 0" by code_simp
  from failed_download_leaks_slot [OF i t(1,2) o n] t(3) show ?thesis by (simp add: Let_def)
qed

section \<open>Success\<close>

lemma succeeds_queue:
  "mc_check_integrity (dm_cfg m) \<longrightarrow> v = Verified True \<Longrightarrow>
     download_ends now r path (TransferDone v) m = download_succeeds now r path m"
  by (simp add: download_ends_def Let_def)

lemma succeeds_frame:
  "dm_queue (download_succeeds now r path m) = complete_task now (t_id (dm_task m r)) (dm_queue m)"
  "dm_active m \<subseteq>\<^sub>m dm_active (download_succeeds now r path m)"
  using on_queue_frame(3) [of "tell (dm_hub m) es (tell (dm_emitter m) es' (post_process path m))" for es es']
  by (simp_all add: download_succeeds_def Let_def on_queue_frame)

lemma succeeds_dom:
  assumes "\<not> dm_stopping m"
  shows "dom (dm_active (download_succeeds now r path m)) =
    (let q = dm_queue m; q' = complete_task now (t_id (dm_task m r)) q
     in (\<lambda>r. t_id (tq_store q' r)) ` set (new_starts q q') \<union> dom (dm_active m))"
  using assms by (simp add: download_succeeds_def Let_def on_queue_dom)



section \<open>Pausing\<close>

text \<open>Starting waiting tasks touches pending ones only.\<close>

lemma try_start_loop_others:
  "t_status (tq_store q r) \<noteq> StatusPending \<Longrightarrow> tq_store (fst (try_start_loop now q started)) r = tq_store q r"
proof (induction now q started rule: try_start_loop.induct)
  case (1 now q started)
  show ?case
  proof (cases "tq_active q < tq_max q \<and> tq_pq q \<noteq> []")
    case False
    then show ?thesis by (simp add: try_start_loop_stop)
  next
    case go: True
    let ?r = "pi_task (fst (hpop (tq_pq q)))" and ?q = "q\<lparr>tq_pq := snd (hpop (tq_pq q))\<rparr>"
    show ?thesis
    proof (cases "t_status (tq_store q ?r) = StatusPending")
      case True
      then have "r \<noteq> ?r" using "1.prems" by auto
      then show ?thesis
        using "1.IH"(2) [OF go refl refl refl] True "1.prems" go
        by (simp add: try_start_loop_go [OF _ _ refl _ refl] get_status_def)
    next
      case False
      with "1.IH"(1) [OF go refl refl refl] "1.prems" go show ?thesis
        by (simp add: try_start_loop_skip get_status_def)
    qed
  qed
qed

lemma try_start_next_others:
  "t_status (tq_store q r) \<noteq> StatusPending \<Longrightarrow> tq_store (try_start_next now q) r = tq_store q r"
  by (simp add: try_start_next_def Let_def try_start_loop_others)

lemma queue_pause_task:
  assumes "tq_tasks q tid = Some r" "t_status (tq_store q r) = StatusDownloading"
  shows "tq_store (fst (queue_pause now tid q)) r = set_status now StatusPaused (tq_store q r)"
    "tq_tasks (fst (queue_pause now tid q)) = tq_tasks q"
  using assms by (simp_all add: queue_pause_def get_status_def Let_def try_start_next_others)

text \<open>
  Pausing a task in the queue does not reach its transfer: the download of the task goes on, uncancelled,
  while the freed slot starts further tasks, so more transfers run than the limit allows. When the
  transfer then succeeds the queue is not changed: the task stays paused although its file is complete.
\<close>
theorem paused_download_keeps_running:
  assumes "dm_active m tid = Some ad" "\<not> dm_stopping m" "tq_tasks (dm_queue m) tid = Some (ad_task ad)"
    "t_id (dm_task m (ad_task ad)) = tid" "t_status (dm_task m (ad_task ad)) = StatusDownloading"
    "mc_check_integrity (dm_cfg m) \<longrightarrow> v = Verified True"
  shows "let m' = on_queue now (\<lambda>q. fst (queue_pause now tid q)) m; q' = dm_queue m' in
    dm_active m' tid = Some ad \<and>
    dom (dm_active m') = (\<lambda>r. t_id (tq_store q' r)) ` set (new_starts (dm_queue m) q') \<union> dom (dm_active m) \<and>
    dm_queue (download_ends now' (ad_task ad) path (TransferDone v) m') = q'"
proof -
  let ?f = "\<lambda>q. fst (queue_pause now tid q)" and ?r = "ad_task ad"
  let ?m' = "on_queue now ?f m" and ?q' = "fst (queue_pause now tid (dm_queue m))"
  have q': "dm_queue ?m' = ?q'" by (simp add: on_queue_frame)
  have keep: "dm_active ?m' tid = Some ad"
    using on_queue_frame(3) [of m now ?f] assms(1) unfolding map_le_def by (metis domI)
  have dom: "dom (dm_active ?m') = (\<lambda>r. t_id (tq_store ?q' r)) ` set (new_starts (dm_queue m) ?q') \<union> dom (dm_active m)"
    by (rule on_queue_dom [OF assms(2)])
  note pause = queue_pause_task [OF assms(3) assms(5) [unfolded dm_task_def], of now]
  have tr: "tq_tasks ?q' tid = Some ?r" using assms(3) by (simp add: pause)
  have id: "t_id (tq_store ?q' ?r) = tid" using assms(4) by (simp add: pause dm_task_def)
  have "dm_queue (download_ends now' ?r path (TransferDone v) ?m') = complete_task now' tid ?q'"
    using assms(6) succeeds_frame(1) [of now' ?r path ?m'] id
    by (simp add: succeeds_queue on_queue_frame dm_task_def)
  also have "\<dots> = ?q'" by (rule fail_task_noop(2) [OF tr]) (simp add: pause)
  finally show ?thesis using keep dom q' by (simp add: Let_def)
qed

text \<open>One slot, and after the pause two transfers.\<close>

lemma paused_download_keeps_running_witness:
  "dom (dm_active (on_queue 9 (\<lambda>q. fst (queue_pause 9 ''a'' q)) demo_manager)) = {''a'', ''c''} \<and> tq_max demo_queue = 1"
proof -
  have t: "tq_tasks (dm_queue demo_manager) ''a'' = Some 0" "t_id (dm_task demo_manager 0) = ''a''"
    "t_status (dm_task demo_manager 0) = StatusDownloading" "tq_max demo_queue = 1"
    unfolding demo_manager_queue by code_simp+
  obtain ad where ad: "dm_active demo_manager ''a'' = Some ad" "ad_task ad = 0"
    using t(2) by (simp add: demo_manager_def start_download_def new_download_manager_def dm_task_def tell_def Let_def)
  have s: "\<not> dm_stopping demo_manager" by (simp add: demo_manager_def new_download_manager_def)
  have d: "dom (dm_active demo_manager) = {''a''}"
    using start_download_active(2) [of "new_download_manager demo_queue demo_config True True False" 5 0] t(2)
    by (simp add: demo_manager_def new_download_manager_def dm_task_def)
  have n: "new_starts demo_queue (fst (queue_pause 9 ''a'' demo_queue)) = [2]"
    "t_id (tq_store (fst (queue_pause 9 ''a'' demo_queue)) 2) = ''c''" by code_simp+
  from paused_download_keeps_running [OF ad(1) s, unfolded ad(2), OF t(1-3), of "Verified True" 9] d n t(4)
  show ?thesis by (simp add: Let_def on_queue_frame demo_manager_queue)
qed

section \<open>Schedule windows\<close>

lemma digit_char:
  assumes "k < 10"
  shows "is_digit (char_of (48 + k))" "digit_value (char_of (48 + k)) = k"
    "char_of (48 + k) \<noteq> CHR ''-''" "char_of (48 + k) \<noteq> CHR ''+''" "char_of (48 + k) \<noteq> CHR '':''"
proof -
  have c: "of_char (char_of (48 + k) :: char) = 48 + k" using assms by (simp add: of_char_of)
  then show "is_digit (char_of (48 + k))" "digit_value (char_of (48 + k)) = k"
    using assms by (simp_all add: is_digit_def digit_value_def Let_def)
  have ne: "char_of (48 + k) \<noteq> d" if "of_char d \<noteq> 48 + k" for d :: char using c that by metis
  show "char_of (48 + k) \<noteq> CHR ''-''" "char_of (48 + k) \<noteq> CHR ''+''" "char_of (48 + k) \<noteq> CHR '':''"
    using assms by (intro ne; simp)+
qed

lemma two_digits_atoi:
  assumes "n < 60"
  shows "atoi (two_digits n) = Some (int n)" "CHR '':'' \<notin> set (two_digits n)"
proof -
  have k: "n div 10 < 10" "n mod 10 < 10" using assms by simp_all
  note h = digit_char [OF k(1)] and l = digit_char [OF k(2)]
  have "10 * (n div 10) + n mod 10 = n" by simp
  then have "atoi_digits (two_digits n) = Some (int n)"
    using h(1,2) l(1,2) by (simp add: atoi_digits_def two_digits_def del: of_nat_add of_nat_mult)
  then show "atoi (two_digits n) = Some (int n)"
    using h(3,4) assms by (simp add: atoi_def two_digits_def Let_def in_i64_def)
  show "CHR '':'' \<notin> set (two_digits n)" using h(5) l(5) by (simp add: two_digits_def)
qed

lemma parse_clock_text:
  assumes "m < 1440"
  shows "parse_day_seconds (clock_text m) = Some (60 * int m)"
proof -
  have d: "m div 60 < 60" "m div 60 \<le> 23" "m mod 60 < 60" using assms by simp_all
  note h = two_digits_atoi [OF d(1)] and mi = two_digits_atoi [OF d(3)]
  have "split_on CHR '':'' (clock_text m) = [two_digits (m div 60), two_digits (m mod 60)]"
    using h mi by (simp add: clock_text_def split_on_append split_on_single)
  moreover have "hms_part (two_digits (m div 60)) 23 = Some (int (m div 60))"
    "hms_part (two_digits (m mod 60)) 59 = Some (int (m mod 60))"
    using h mi d by (simp_all add: hms_part_def del: of_nat_div of_nat_mod)
  moreover have "int (m div 60) * 3600 + int (m mod 60) * 60 = 60 * int m"
    using div_mult_mod_eq [of m 60] by linarith
  ultimately show ?thesis by (simp add: parse_day_seconds_def Let_def del: of_nat_div of_nat_mod)
qed

text \<open>
  C36: A schedule window of the manager is the arc of the clock from its start to its end, both included, also
  when it crosses midnight; the weekday is that of the current moment on either side of midnight.
\<close>
theorem schedule_is_clock_arc:
  assumes "sl_start l = clock_text a" "sl_end l = clock_text b" "a < 1440" "b < 1440" "0 \<le> sec" "sec < 86400"
  shows "is_in_schedule wd sec l \<longleftrightarrow> (sl_weekday l = None \<or> sl_weekday l = Some wd) \<and>
    (sec - 60 * int a) mod 86400 \<le> (60 * int b - 60 * int a) mod 86400"
proof -
  have arc: "(x mod 86400 :: int) = (if x < 0 then x + 86400 else x)" if "- 86400 < x" "x < 86400" for x
  proof (cases "x < 0")
    case True
    have "x mod 86400 = (x + 86400) mod 86400" by simp
    also have "\<dots> = x + 86400" using True that by (intro mod_pos_pos_trivial) simp_all
    finally show ?thesis using True by simp
  next
    case False
    then show ?thesis using that by (simp add: mod_pos_pos_trivial)
  qed
  have r: "- 86400 < sec - 60 * int a" "sec - 60 * int a < 86400" "- 86400 < 60 * int b - 60 * int a" "60 * int b - 60 * int a < 86400"
    using assms(3-6) by linarith+
  have "is_in_schedule wd sec l \<longleftrightarrow> (sl_weekday l = None \<or> sl_weekday l = Some wd) \<and>
      (if 60 * int a \<le> 60 * int b then sec \<ge> 60 * int a \<and> sec \<le> 60 * int b else sec \<ge> 60 * int a \<or> sec \<le> 60 * int b)"
    using assms(1-4) by (auto simp: is_in_schedule_def parse_clock_text split: option.splits)
  also have "(if 60 * int a \<le> 60 * int b then sec \<ge> 60 * int a \<and> sec \<le> 60 * int b else sec \<ge> 60 * int a \<or> sec \<le> 60 * int b) \<longleftrightarrow>
      (sec - 60 * int a) mod 86400 \<le> (60 * int b - 60 * int a) mod 86400"
    unfolding arc [OF r(1,2)] arc [OF r(3,4)] using assms(3-6) by (simp split: if_split)
  finally show ?thesis .
qed

lemma schedule_is_clock_arc_witness:
  "is_in_schedule 2 82800 \<lparr>sl_start = clock_text 1320, sl_end = clock_text 360, sl_limit = 5, sl_weekday = None\<rparr>"
  using schedule_is_clock_arc [of "\<lparr>sl_start = clock_text 1320, sl_end = clock_text 360, sl_limit = 5, sl_weekday = None\<rparr>" 1320 360 82800 2]
  by simp

section \<open>The speed monitor\<close>

text \<open>The monitor's view of a download after a list of readings, and its verdict on the last one.\<close>

definition readings :: "manager_config \<Rightarrow> active_download \<Rightarrow> (instant \<times> int) list \<Rightarrow> active_download" where
  "readings cfg ad xs = foldl (\<lambda>ad (now, speed). fst (low_speed_verdict cfg now speed ad)) ad xs"

definition slow_reading :: "manager_config \<Rightarrow> instant \<Rightarrow> instant \<times> int \<Rightarrow> bool" where
  "slow_reading cfg start x \<longleftrightarrow> snd x < mc_min_speed cfg \<and> 30 * 1000000000 \<le> fst x - start"

lemma verdict_frame: "ad_start (fst (low_speed_verdict cfg now speed ad)) = ad_start ad"
  by (simp add: low_speed_verdict_def split: option.split)

lemma readings_slow:
  assumes "ad_low_since ad = None" "0 < mc_min_speed cfg"
    "sorted (map fst xs)"
  shows "ad_start (readings cfg ad xs) = ad_start ad \<and>
    (\<forall>t. ad_low_since (readings cfg ad xs) = Some t \<longrightarrow>
      (\<exists>pre speed post. xs = pre @ (t, speed) # post \<and> (\<forall>x \<in> set ((t, speed) # post). slow_reading cfg (ad_start ad) x)))"
  using assms(3)
proof (induction xs rule: rev_induct)
  case Nil
  then show ?case using assms(1) by (simp add: readings_def)
next
  case (snoc x xs)
  obtain now speed where x: "x = (now, speed)" by (cases x)
  let ?ad = "readings cfg ad xs"
  have step: "readings cfg ad (xs @ [x]) = fst (low_speed_verdict cfg now speed ?ad)" by (simp add: readings_def x)
  have IH: "ad_start ?ad = ad_start ad"
    "\<And>t. ad_low_since ?ad = Some t \<Longrightarrow> \<exists>pre speed post. xs = pre @ (t, speed) # post \<and>
        (\<forall>x \<in> set ((t, speed) # post). slow_reading cfg (ad_start ad) x)"
    using snoc by (simp_all add: sorted_append)
  have before: "\<forall>y \<in> set xs. fst y \<le> now" using snoc.prems x by (auto simp: sorted_append)
  have "\<exists>pre sp post. xs @ [x] = pre @ (t, sp) # post \<and> (\<forall>x \<in> set ((t, sp) # post). slow_reading cfg (ad_start ad) x)"
    if t: "ad_low_since (readings cfg ad (xs @ [x])) = Some t" for t
  proof (cases "now - ad_start ad < 30 * 1000000000")
    case True
    with t step IH(1) have "ad_low_since ?ad = Some t" by (simp add: low_speed_verdict_def)
    from IH(2) [OF this] obtain pre sp post where "xs = pre @ (t, sp) # post" "slow_reading cfg (ad_start ad) (t, sp)" by auto
    with before True show ?thesis by (auto simp: slow_reading_def)
  next
    case late: False
    then have slow: "speed < mc_min_speed cfg" using t step IH(1) assms(2)
      by (auto simp: low_speed_verdict_def split: if_splits)
    show ?thesis
    proof (cases "ad_low_since ?ad")
      case None
      with t step IH(1) late slow assms(2) have "t = now" by (simp add: low_speed_verdict_def)
      then show ?thesis using late slow x by (intro exI [of _ xs] exI [of _ speed] exI [of _ "[]"]) (simp add: slow_reading_def)
    next
      case (Some u)
      with t step IH(1) late slow assms(2) have u: "u = t" by (simp add: low_speed_verdict_def)
      from IH(2) [OF Some] obtain pre sp post where "xs = pre @ (t, sp) # post"
        "\<forall>x \<in> set ((t, sp) # post). slow_reading cfg (ad_start ad) x" unfolding u by auto
      then show ?thesis using late slow x
        by (intro exI [of _ pre] exI [of _ sp] exI [of _ "post @ [x]"]) (auto simp: slow_reading_def)
    qed
  qed
  with step verdict_frame [of cfg now speed ?ad] IH(1) show ?case by simp
qed

text \<open>
  The monitor gives a download up only for a reason: when it does, an unbroken run of slow readings reaches
  back at least the configured time, and none of them lies in the first thirty seconds of the download.
\<close>
theorem low_speed_kill_justified:
  assumes "ad_low_since ad = None" "sorted (map fst xs)" "snd (low_speed_verdict cfg now speed (readings cfg ad xs))"
  shows "\<exists>pre t sp post. xs = pre @ (t, sp) # post \<and> mc_min_speed_timeout cfg \<le> now - t \<and>
    (\<forall>x \<in> set ((t, sp) # post @ [(now, speed)]). slow_reading cfg (ad_start ad) x)"
proof -
  let ?ad = "readings cfg ad xs"
  from assms(3) have pos: "0 < mc_min_speed cfg" by (auto simp: low_speed_verdict_def split: if_splits)
  note r = readings_slow [OF assms(1) pos assms(2)]
  from assms(3) r obtain t where t: "ad_low_since ?ad = Some t" "mc_min_speed_timeout cfg \<le> now - t"
    "slow_reading cfg (ad_start ad) (now, speed)"
    by (auto simp: low_speed_verdict_def slow_reading_def split: if_splits option.splits)
  with r obtain pre sp post where "xs = pre @ (t, sp) # post"
    "\<forall>x \<in> set ((t, sp) # post). slow_reading cfg (ad_start ad) x" by blast
  with t show ?thesis by (intro exI [of _ pre] exI [of _ t] exI [of _ sp] exI [of _ post]) auto
qed

lemma low_speed_kill_justified_witness:
  "\<exists>pre t sp post. [(29000000000 :: int, 0), (31000000000, 5), (90000000000, 9 :: int)] = pre @ (t, sp) # post \<and> 60000000000 \<le> 91500000000 - t"
proof -
  let ?ad = "\<lparr>ad_task = 0, ad_low_since = None, ad_start = 0, ad_cancelled = False, ad_downloader = None\<rparr>"
  let ?xs = "[(29000000000 :: int, 0), (31000000000, 5), (90000000000, 9 :: int)]"
  have "snd (low_speed_verdict demo_config 91500000000 7 (readings demo_config ?ad ?xs))"
    by (simp add: readings_def low_speed_verdict_def demo_config_def)
  moreover have "ad_low_since ?ad = None" "sorted (map fst ?xs)" by simp_all
  ultimately obtain pre t sp post where "?xs = pre @ (t, sp) # post" "mc_min_speed_timeout demo_config \<le> 91500000000 - t"
    using low_speed_kill_justified [of ?ad ?xs demo_config 91500000000 7] by blast
  moreover have "mc_min_speed_timeout demo_config = 60000000000" by (simp add: demo_config_def)
  ultimately show ?thesis by metis
qed

end
