(* ===== verification/AppConfig.thy ===== *)
theory AppConfig
  imports RateLimiter
begin

text \<open>
  Configuration, \<open>pkg/config/config.go\<close> and \<open>postprocess_config.go\<close>: the structs, their defaults and
  validation, the files with their includes, and the environment overrides. The file system is a map from
  absolute paths to contents; the YAML and JSON decoders are arguments that fill a configuration and may
  fail half way. A float is a rational, with \<open>None\<close> for NaN, of which every comparison is false.
\<close>

section \<open>Structs\<close>

record proxy_config =
  px_type :: string
  px_host :: string
  px_port :: int
  px_username :: string
  px_password :: string
  px_exclude :: "string list"
  px_digest :: bool

record bt_config =
  bt_enabled :: bool
  bt_download_limit :: int
  bt_upload_limit :: int
  bt_port :: int
  bt_data_dir :: string
  bt_torrent_dir :: string
  bt_max_connections :: int
  bt_max_peers :: int
  bt_seed_ratio :: "rat option"
  bt_seed_time :: duration
  bt_trackers :: "string list"
  bt_dht :: bool
  bt_dht_nodes :: "string list"
  bt_disable_tcp :: bool
  bt_disable_utp :: bool
  bt_piece_length :: int
  bt_sequential :: bool
  bt_first_piece :: bool
  bt_upnp :: bool
  bt_lpd :: bool
  bt_seeding :: bool
  bt_require_encryption :: bool
  bt_min_crypto :: string
  bt_web_seeds :: "string list"

record events_config =
  ev_webhook :: string
  ev_webhook_headers :: "string \<rightharpoonup> string"
  ev_complete_cmd :: string
  ev_complete_args :: "string list"

record extract_config =
  ex_enabled :: bool
  ex_output_dir :: string
  ex_delete :: bool
  ex_overwrite :: bool
  ex_password :: string
  ex_strip :: int

record move_config =
  mv_enabled :: bool
  mv_destination :: string
  mv_overwrite :: bool
  mv_delete :: bool

record cleanup_config =
  cl_enabled :: bool
  cl_delete_source :: bool
  cl_delete_temp :: bool
  cl_patterns :: "string list"

record post_process_config =
  pp_extract :: extract_config
  pp_move :: move_config
  pp_cleanup :: cleanup_config

text \<open>The download settings, in two parts: the transfer and the HTTP options.\<close>

record http_options =
  ho_user_agent :: string
  ho_referer :: string
  ho_headers :: "string \<rightharpoonup> string"
  ho_username :: string
  ho_password :: string
  ho_no_netrc :: bool
  ho_accept_gzip :: bool
  ho_dry_run :: bool
  ho_remote_time :: bool
  ho_quiet :: bool
  ho_check_integrity :: bool
  ho_auto_save :: int
  ho_allocation :: string
  ho_piece_selector :: string
  ho_uri_selector :: string

record download_config =
  dc_url :: string
  dc_output :: string
  dc_max_connections :: int
  dc_min_chunk :: int
  dc_max_chunk :: int
  dc_default_chunk :: int
  dc_buffer :: int
  dc_timeout :: duration
  dc_retry :: int
  dc_speed_limit :: int
  dc_proxy :: "proxy_config option"
  dc_bt :: "bt_config option"
  dc_post :: "post_process_config option"
  dc_min_speed :: int
  dc_min_speed_timeout :: duration
  dc_preallocate :: bool
  dc_sparse :: bool
  dc_file_mode :: nat
  dc_include :: "string list"
  dc_max_per_server :: int
  dc_schedules :: "schedule_limit list"
  dc_digest :: bool
  dc_adaptive :: bool
  dc_insecure :: bool
  dc_conditional :: bool
  dc_http :: http_options

record node_config =
  nc_id :: string
  nc_name :: string
  nc_log_level :: string
  nc_data_dir :: string
  nc_proxy :: proxy_config

record api_config =
  ac_port :: int
  ac_host :: string
  ac_token :: string
  ac_rate_limit :: int
  ac_cors :: bool
  ac_origins :: "string list"
  ac_tls :: bool
  ac_cert :: string
  ac_key :: string
  ac_pprof :: "bool option"

record cluster_config =
  cc_grpc_port :: int
  cc_discovery_port :: int
  cc_peers :: "string list"
  cc_node_timeout :: duration

record nat_config =
  na_enabled :: bool
  na_stun :: string
  na_signaling :: string
  na_relay :: string
  na_stuns :: "string list"

record app_config =
  cf_node :: node_config
  cf_api :: api_config
  cf_cluster :: cluster_config
  cf_download :: download_config
  cf_events :: events_config
  cf_auto_save :: int

section \<open>Validation\<close>

definition proxy_valid :: "proxy_config option \<Rightarrow> bool" where
  "proxy_valid p =
     (case p of
        None \<Rightarrow> False
      | Some p \<Rightarrow>
          if px_host p = [] \<or> px_port p \<le> 0 \<or> px_port p > 65535 then False
          else px_type p \<in> {''http'', ''https'', ''socks5'', ''socks4'', ''socks4a''})"

definition proxy_should_exclude :: "string \<Rightarrow> proxy_config option \<Rightarrow> bool" where
  "proxy_should_exclude host p =
     (case p of None \<Rightarrow> False
      | Some p \<Rightarrow> list_ex (\<lambda>pat. host = pat \<or> has_suffix host (''.'' @ pat)) (px_exclude p))"

text \<open>The first failing check gives the message; a check is its condition and its message.\<close>

fun first_error :: "(bool \<times> string) list \<Rightarrow> string option" where
  "first_error [] = None"
| "first_error ((bad, msg) # cs) = (if bad then Some msg else first_error cs)"

definition float_outside :: "rat option \<Rightarrow> rat \<Rightarrow> rat \<Rightarrow> bool" where
  "float_outside x lo hi = (case x of None \<Rightarrow> False | Some r \<Rightarrow> r < lo \<or> r > hi)"

definition bt_validate :: "bt_config \<Rightarrow> string option" where
  "bt_validate c = first_error
     [(bt_port c < 0 \<or> bt_port c > 65535, ''bt port must be between 0 and 65535''),
      (bt_download_limit c < 0 \<or> bt_upload_limit c < 0, ''bt speed limits must be non-negative''),
      (bt_max_connections c < 0 \<or> bt_max_connections c > 1000, ''bt max_connections must be between 0 and 1000''),
      (bt_max_peers c < 0 \<or> bt_max_peers c > 1000, ''bt max_peers must be between 0 and 1000''),
      (float_outside (bt_seed_ratio c) 0 100, ''seed_ratio must be between 0 and 100'')]"

definition download_validate :: "download_config \<Rightarrow> string option" where
  "download_validate c =
     (case first_error
       [(dc_max_connections c < 1 \<or> dc_max_connections c > 64, ''max_connections must be between 1 and 64''),
        (dc_min_chunk c < 0, ''min_chunk_size must be non-negative''),
        (dc_max_chunk c < dc_min_chunk c, ''max_chunk_size must be >= min_chunk_size''),
        (dc_default_chunk c < dc_min_chunk c \<or> dc_default_chunk c > dc_max_chunk c,
         ''default_chunk_size must be between min_chunk_size and max_chunk_size''),
        (dc_buffer c < 1024, ''buffer_size must be at least 1024 bytes''),
        (dc_timeout c < 1000000000, ''timeout must be at least 1 second''),
        (dc_retry c < 0 \<or> dc_retry c > 100, ''retry_count must be between 0 and 100''),
        (dc_min_speed_timeout c < 0, ''min_speed_timeout must be non-negative''),
        (dc_max_per_server c < 0, ''max_per_server_conn must be non-negative''),
        (dc_speed_limit c < 0, ''speed_limit must be non-negative'')] of
        Some e \<Rightarrow> Some e
      | None \<Rightarrow> (case dc_bt c of
          None \<Rightarrow> None
        | Some b \<Rightarrow> map_option (\<lambda>e. ''bt config: '' @ e) (bt_validate b)))"

definition node_validate :: "node_config \<Rightarrow> string option" where
  "node_validate c = first_error
     [(nc_id c = [], ''node id cannot be empty''), (nc_name c = [], ''node name cannot be empty''),
      (nc_data_dir c = [], ''data_dir cannot be empty'')]"

definition api_validate :: "api_config \<Rightarrow> string option" where
  "api_validate c = first_error
     [(ac_port c < 1 \<or> ac_port c > 65535, ''port must be between 1 and 65535''),
      (ac_rate_limit c < 0, ''rate_limit must be non-negative''),
      (ac_tls c \<and> (ac_cert c = [] \<or> ac_key c = []), ''tls_enabled requires both tls_cert_file and tls_key_file'')]"

definition cluster_validate :: "cluster_config \<Rightarrow> string option" where
  "cluster_validate c = first_error
     [(cc_grpc_port c < 1 \<or> cc_grpc_port c > 65535, ''grpc_port must be between 1 and 65535''),
      (cc_discovery_port c < 1 \<or> cc_discovery_port c > 65535, ''discovery_port must be between 1 and 65535''),
      (cc_node_timeout c < 1000000000, ''node_timeout must be at least 1 second'')]"

definition nat_validate :: "nat_config \<Rightarrow> string option" where
  "nat_validate c =
     (if \<not> na_enabled c then None
      else first_error [(na_stun c = [] \<and> na_signaling c = [] \<and> na_relay c = [],
        ''NAT enabled but no STUN/signaling/relay server configured'')])"

definition config_validate :: "app_config \<Rightarrow> string option" where
  "config_validate c =
     (case node_validate (cf_node c) of
        Some e \<Rightarrow> Some (''node config: '' @ e)
      | None \<Rightarrow> (case api_validate (cf_api c) of
          Some e \<Rightarrow> Some (''api config: '' @ e)
        | None \<Rightarrow> (case cluster_validate (cf_cluster c) of
            Some e \<Rightarrow> Some (''cluster config: '' @ e)
          | None \<Rightarrow> map_option (\<lambda>e. ''download config: '' @ e) (download_validate (cf_download c)))))"

section \<open>Defaults\<close>

definition default_bt_config :: bt_config where
  "default_bt_config = \<lparr>bt_enabled = True, bt_download_limit = 0, bt_upload_limit = 0, bt_port = 6881,
     bt_data_dir = ''./bt-data'', bt_torrent_dir = ''./torrents'', bt_max_connections = 100, bt_max_peers = 100,
     bt_seed_ratio = Some 1, bt_seed_time = 24 * 3600 * 1000000000, bt_trackers = [], bt_dht = True,
     bt_dht_nodes = [''router.bittorrent.com:6881'', ''dht.transmissionbt.com:6881'', ''router.utorrent.com:6881''],
     bt_disable_tcp = False, bt_disable_utp = False, bt_piece_length = 0, bt_sequential = False,
     bt_first_piece = False, bt_upnp = True, bt_lpd = True, bt_seeding = True, bt_require_encryption = False,
     bt_min_crypto = [], bt_web_seeds = []\<rparr>"

definition default_extract_config :: extract_config where
  "default_extract_config = \<lparr>ex_enabled = False, ex_output_dir = [], ex_delete = False, ex_overwrite = False,
     ex_password = [], ex_strip = 0\<rparr>"

definition default_move_config :: move_config where
  "default_move_config = \<lparr>mv_enabled = False, mv_destination = [], mv_overwrite = False, mv_delete = False\<rparr>"

definition default_cleanup_config :: cleanup_config where
  "default_cleanup_config = \<lparr>cl_enabled = False, cl_delete_source = False, cl_delete_temp = False, cl_patterns = []\<rparr>"

definition default_post_process_config :: post_process_config where
  "default_post_process_config = \<lparr>pp_extract = default_extract_config, pp_move = default_move_config,
     pp_cleanup = default_cleanup_config\<rparr>"

definition default_download_config :: download_config where
  "default_download_config = \<lparr>dc_url = [], dc_output = [], dc_max_connections = 8, dc_min_chunk = 1024 * 1024,
     dc_max_chunk = 50 * 1024 * 1024, dc_default_chunk = 10 * 1024 * 1024, dc_buffer = 32 * 1024,
     dc_timeout = 30 * 1000000000, dc_retry = 3, dc_speed_limit = 0, dc_proxy = None,
     dc_bt = Some default_bt_config, dc_post = Some default_post_process_config, dc_min_speed = 0,
     dc_min_speed_timeout = 30 * 1000000000, dc_preallocate = False, dc_sparse = False, dc_file_mode = 420,
     dc_include = [], dc_max_per_server = 0, dc_schedules = [], dc_digest = False, dc_adaptive = False,
     dc_insecure = False, dc_conditional = False,
     dc_http = \<lparr>ho_user_agent = ''AFD/0.3'', ho_referer = [], ho_headers = Map.empty, ho_username = [],
       ho_password = [], ho_no_netrc = False, ho_accept_gzip = False, ho_dry_run = False, ho_remote_time = False,
       ho_quiet = False, ho_check_integrity = False, ho_auto_save = 60, ho_allocation = ''trunc'',
       ho_piece_selector = ''inorder'', ho_uri_selector = ''feedback''\<rparr>\<rparr>"

definition default_config :: app_config where
  "default_config = \<lparr>
     cf_node = \<lparr>nc_id = ''nexus-node-1'', nc_name = ''nexus-node'', nc_log_level = ''info'', nc_data_dir = ''./data'',
       nc_proxy = \<lparr>px_type = [], px_host = [], px_port = 0, px_username = [], px_password = [], px_exclude = [], px_digest = False\<rparr>\<rparr>,
     cf_api = \<lparr>ac_port = 8080, ac_host = ''0.0.0.0'', ac_token = [], ac_rate_limit = 100, ac_cors = True,
       ac_origins = [''http://localhost:5173'', ''http://127.0.0.1:5173''], ac_tls = False, ac_cert = [],
       ac_key = [], ac_pprof = None\<rparr>,
     cf_cluster = \<lparr>cc_grpc_port = 50051, cc_discovery_port = 50052, cc_peers = [], cc_node_timeout = 30 * 1000000000\<rparr>,
     cf_download = default_download_config,
     cf_events = \<lparr>ev_webhook = [], ev_webhook_headers = Map.empty, ev_complete_cmd = [], ev_complete_args = []\<rparr>,
     cf_auto_save = 0\<rparr>"

end
