(* ===== verification/ConfigLoad.thy ===== *)
theory ConfigLoad
  imports AppConfig GoPath
begin

text \<open>
  Loading the configuration, the second half of \<open>pkg/config/config.go\<close>: files with
  includes and the environment overrides. Recursion over includes takes fuel; \<open>load_total\<close> shows how much is always enough.
\<close>

section \<open>Files\<close>

text \<open>A decoder fills the configuration and may fail half way, with what it has changed so far.\<close>

type_synonym 'd decoder = "'d \<Rightarrow> app_config \<Rightarrow> app_config \<times> string option"

record 'd config_world =
  cw_cwd :: string
  cw_files :: "string \<rightharpoonup> 'd"
  cw_yaml :: "'d decoder"
  cw_json :: "'d decoder"
  cw_env :: "string \<Rightarrow> string"

definition parse_config :: "'d config_world \<Rightarrow> 'd \<Rightarrow> string \<Rightarrow> app_config \<Rightarrow> app_config \<times> string option" where
  "parse_config w data ext cfg =
     (let e = to_lower ext in
      if e = ''.yaml'' \<or> e = ''.yml'' then cw_yaml w data cfg
      else if e = ''.json'' then cw_json w data cfg
      else case cw_yaml w data cfg of
          (c1, None) \<Rightarrow> (c1, None)
        | (c1, Some _) \<Rightarrow> (case cw_json w data c1 of
            (c2, None) \<Rightarrow> (c2, None)
          | (c2, Some _) \<Rightarrow> (c2, Some (''unsupported config format: '' @ ext))))"

text \<open>The configuration, the paths loaded so far, and the error; \<open>None\<close> when the fuel is used up.\<close>

type_synonym load_result = "(app_config \<times> string set \<times> string option) option"

fun load_config_file :: "nat \<Rightarrow> 'd config_world \<Rightarrow> string \<Rightarrow> app_config \<Rightarrow> string set \<Rightarrow> load_result"
  and load_includes :: "nat \<Rightarrow> 'd config_world \<Rightarrow> string \<Rightarrow> string list \<Rightarrow> app_config \<Rightarrow> string set \<Rightarrow> load_result" where
  "load_config_file 0 w path cfg loaded = None"
| "load_config_file (Suc n) w path cfg loaded =
     (let p = path_abs (cw_cwd w) path in
      if p \<in> loaded then Some (cfg, loaded, Some (''circular include detected: '' @ p))
      else case cw_files w p of
        None \<Rightarrow> Some (cfg, insert p loaded, Some (''failed to read config file '' @ p))
      | Some data \<Rightarrow>
          (case parse_config w data (path_ext p) default_config of
             (temp, Some e) \<Rightarrow> Some (cfg, insert p loaded, Some (''failed to parse config file '' @ p @ '': '' @ e))
           | (temp, None) \<Rightarrow>
               (case load_includes n w (path_dir p) (dc_include (cf_download temp)) cfg (insert p loaded) of
                  None \<Rightarrow> None
                | Some (cfg1, loaded1, Some e) \<Rightarrow> Some (cfg1, loaded1, Some e)
                | Some (cfg1, loaded1, None) \<Rightarrow>
                    (case parse_config w data (path_ext p) cfg1 of
                       (cfg2, Some e) \<Rightarrow> Some (cfg2, loaded1, Some (''failed to parse config file '' @ p @ '': '' @ e))
                     | (cfg2, None) \<Rightarrow> Some (cfg2, loaded1, None)))))"
| "load_includes n w dir [] cfg loaded = Some (cfg, loaded, None)"
| "load_includes n w dir (p # ps) cfg loaded =
     (case load_config_file n w (if path_is_abs p then p else path_join dir p) cfg loaded of
        None \<Rightarrow> None
      | Some (cfg1, loaded1, Some e) \<Rightarrow> Some (cfg1, loaded1, Some e)
      | Some (cfg1, loaded1, None) \<Rightarrow> load_includes n w dir ps cfg1 loaded1)"

section \<open>Environment\<close>

text \<open>\<open>strconv.ParseBool\<close>.\<close>

definition parse_bool :: "string \<Rightarrow> bool option" where
  "parse_bool s =
     (if s \<in> {''1'', ''t'', ''T'', ''TRUE'', ''true'', ''True''} then Some True
      else if s \<in> {''0'', ''f'', ''F'', ''FALSE'', ''false'', ''False''} then Some False
      else None)"

text \<open>An override is ignored when the variable is empty or its text does not parse.\<close>

definition override :: "(string \<Rightarrow> 'v option) \<Rightarrow> string \<Rightarrow> ('v \<Rightarrow> app_config \<Rightarrow> app_config) \<Rightarrow> (string \<Rightarrow> string) \<Rightarrow> app_config \<Rightarrow> app_config" where
  "override parse var set_field env cfg =
     (let v = env var in
      if v = [] then cfg else case parse v of None \<Rightarrow> cfg | Some x \<Rightarrow> set_field x cfg)"

definition with_bt :: "(bt_config \<Rightarrow> bt_config) \<Rightarrow> app_config \<Rightarrow> app_config" where
  "with_bt f cfg =
     cfg\<lparr>cf_download := (cf_download cfg)\<lparr>dc_bt :=
       Some (f (case dc_bt (cf_download cfg) of None \<Rightarrow> default_bt_config | Some b \<Rightarrow> b))\<rparr>\<rparr>"

definition in_node :: "(node_config \<Rightarrow> node_config) \<Rightarrow> app_config \<Rightarrow> app_config" where
  "in_node f cfg = cfg\<lparr>cf_node := f (cf_node cfg)\<rparr>"

definition in_api :: "(api_config \<Rightarrow> api_config) \<Rightarrow> app_config \<Rightarrow> app_config" where
  "in_api f cfg = cfg\<lparr>cf_api := f (cf_api cfg)\<rparr>"

definition in_cluster :: "(cluster_config \<Rightarrow> cluster_config) \<Rightarrow> app_config \<Rightarrow> app_config" where
  "in_cluster f cfg = cfg\<lparr>cf_cluster := f (cf_cluster cfg)\<rparr>"

definition in_download :: "(download_config \<Rightarrow> download_config) \<Rightarrow> app_config \<Rightarrow> app_config" where
  "in_download f cfg = cfg\<lparr>cf_download := f (cf_download cfg)\<rparr>"

definition env_overrides :: "(string \<Rightarrow> string) \<Rightarrow> (app_config \<Rightarrow> app_config) list" where
  "env_overrides env =
     [override Some ''AFD_NODE_ID'' (\<lambda>v. in_node (nc_id_update (\<lambda>_. v))) env,
      override Some ''AFD_NODE_NAME'' (\<lambda>v. in_node (nc_name_update (\<lambda>_. v))) env,
      override Some ''AFD_NODE_LOG_LEVEL'' (\<lambda>v. in_node (nc_log_level_update (\<lambda>_. v))) env,
      override Some ''AFD_NODE_DATA_DIR'' (\<lambda>v. in_node (nc_data_dir_update (\<lambda>_. v))) env,
      override Some ''AFD_API_HOST'' (\<lambda>v. in_api (ac_host_update (\<lambda>_. v))) env,
      override atoi ''AFD_API_PORT'' (\<lambda>v. in_api (ac_port_update (\<lambda>_. v))) env,
      override Some ''AFD_API_AUTH_TOKEN'' (\<lambda>v. in_api (ac_token_update (\<lambda>_. v))) env,
      override atoi ''AFD_API_RATE_LIMIT'' (\<lambda>v. in_api (ac_rate_limit_update (\<lambda>_. v))) env,
      override parse_bool ''AFD_API_TLS_ENABLED'' (\<lambda>v. in_api (ac_tls_update (\<lambda>_. v))) env,
      override Some ''AFD_API_TLS_CERT_FILE'' (\<lambda>v. in_api (ac_cert_update (\<lambda>_. v))) env,
      override Some ''AFD_API_TLS_KEY_FILE'' (\<lambda>v. in_api (ac_key_update (\<lambda>_. v))) env,
      override parse_bool ''AFD_API_ENABLE_PPROF'' (\<lambda>v. in_api (ac_pprof_update (\<lambda>_. Some v))) env,
      override atoi ''AFD_CLUSTER_GRPC_PORT'' (\<lambda>v. in_cluster (cc_grpc_port_update (\<lambda>_. v))) env,
      override atoi ''AFD_CLUSTER_DISCOVERY_PORT'' (\<lambda>v. in_cluster (cc_discovery_port_update (\<lambda>_. v))) env,
      override atoi ''AFD_DOWNLOAD_MAX_CONNECTIONS'' (\<lambda>v. in_download (dc_max_connections_update (\<lambda>_. v))) env,
      override atoi ''AFD_DOWNLOAD_TIMEOUT'' (\<lambda>v. in_download (dc_timeout_update (\<lambda>_. i64 (v * 1000000000)))) env,
      override atoi ''AFD_DOWNLOAD_RETRY_COUNT'' (\<lambda>v. in_download (dc_retry_update (\<lambda>_. v))) env,
      override atoi ''AFD_DOWNLOAD_SPEED_LIMIT'' (\<lambda>v. in_download (dc_speed_limit_update (\<lambda>_. v))) env,
      override atoi ''AFD_AUTO_SAVE_INTERVAL'' (\<lambda>v. cf_auto_save_update (\<lambda>_. v)) env,
      override Some ''AFD_DOWNLOAD_BT_DATA_DIR'' (\<lambda>v. with_bt (bt_data_dir_update (\<lambda>_. v))) env,
      override Some ''AFD_DOWNLOAD_BT_TORRENT_FILES_DIR'' (\<lambda>v. with_bt (bt_torrent_dir_update (\<lambda>_. v))) env]"

definition apply_env_overrides :: "(string \<Rightarrow> string) \<Rightarrow> app_config \<Rightarrow> app_config" where
  "apply_env_overrides env cfg = foldl (\<lambda>c f. f c) cfg (env_overrides env)"

section \<open>Load\<close>

definition config_path :: "'d config_world \<Rightarrow> string \<Rightarrow> string" where
  "config_path w path =
     (let p1 = (if path = [] then cw_env w ''AFD_CONFIG_FILE'' else path) in
      if p1 \<noteq> [] then p1
      else case filter (\<lambda>c. cw_files w (path_abs (cw_cwd w) c) \<noteq> None)
             [''/etc/afd/config.yaml'', ''./config.yaml'', ''./config.yml''] of
          [] \<Rightarrow> [] | c # _ \<Rightarrow> c)"

definition load_config :: "nat \<Rightarrow> 'd config_world \<Rightarrow> string \<Rightarrow> (string + app_config) option" where
  "load_config n w path =
     (let p = config_path w path;
          r = (if p = [] then Some (default_config, {}, None) else load_config_file n w p default_config {})
      in case r of
           None \<Rightarrow> None
         | Some (cfg, loaded, Some e) \<Rightarrow> Some (Inl e)
         | Some (cfg, loaded, None) \<Rightarrow>
             let cfg1 = apply_env_overrides (cw_env w) cfg in
             (case config_validate cfg1 of
                Some e \<Rightarrow> Some (Inl (''invalid config: '' @ e))
              | None \<Rightarrow> Some (Inr cfg1)))"

section \<open>Loading ends\<close>

text \<open>Fuel above the number of files not yet loaded is enough, and loading only adds to the set.\<close>

lemma load_total:
  assumes "finite (dom (cw_files w))"
  shows "(\<forall>path cfg loaded. card (dom (cw_files w) - loaded) < n \<longrightarrow>
      (\<exists>c l e. load_config_file n w path cfg loaded = Some (c, l, e) \<and> loaded \<subseteq> l)) \<and>
    (\<forall>dir ps cfg loaded. card (dom (cw_files w) - loaded) < n \<longrightarrow>
      (\<exists>c l e. load_includes n w dir ps cfg loaded = Some (c, l, e) \<and> loaded \<subseteq> l))"
proof (induction n)
  case (Suc n)
  have files: "\<exists>c l e. load_config_file (Suc n) w path cfg loaded = Some (c, l, e) \<and> loaded \<subseteq> l"
    if fuel: "card (dom (cw_files w) - loaded) < Suc n" for path cfg loaded
  proof -
    let ?p = "path_abs (cw_cwd w) path"
    show ?thesis
    proof (cases "?p \<in> loaded \<or> cw_files w ?p = None")
      case True
      then show ?thesis by (auto simp: Let_def)
    next
      case False
      then obtain data where d: "?p \<notin> loaded" "cw_files w ?p = Some data" by auto
      then have "?p \<in> dom (cw_files w) - loaded" by auto
      then have "card (dom (cw_files w) - insert ?p loaded) < card (dom (cw_files w) - loaded)"
        using assms by (intro psubset_card_mono) auto
      then have small: "card (dom (cw_files w) - insert ?p loaded) < n" using fuel by linarith
      obtain temp e where t: "parse_config w data (path_ext ?p) default_config = (temp, e)"
        by (cases "parse_config w data (path_ext ?p) default_config")
      obtain c1 l1 e1 where i: "load_includes n w (path_dir ?p) (dc_include (cf_download temp)) cfg (insert ?p loaded) = Some (c1, l1, e1)"
        "insert ?p loaded \<subseteq> l1" using conjunct2 [OF Suc.IH, rule_format, OF small] by metis
      obtain c2 e2 where t2: "parse_config w data (path_ext ?p) c1 = (c2, e2)"
        by (cases "parse_config w data (path_ext ?p) c1")
      show ?thesis using d t i t2 by (cases e; cases e1; cases e2) (auto simp: Let_def)
    qed
  qed
  have "\<exists>c l e. load_includes (Suc n) w dir ps cfg loaded = Some (c, l, e) \<and> loaded \<subseteq> l"
    if "card (dom (cw_files w) - loaded) < Suc n" for dir ps cfg loaded
    using that
  proof (induction ps arbitrary: cfg loaded)
    case (Cons p ps)
    obtain c l e where f: "load_config_file (Suc n) w (if path_is_abs p then p else path_join dir p) cfg loaded = Some (c, l, e)"
      "loaded \<subseteq> l" using files [OF Cons.prems] by blast
    show ?case
    proof (cases e)
      case (Some m)
      with f show ?thesis by simp
    next
      case None
      have "card (dom (cw_files w) - l) \<le> card (dom (cw_files w) - loaded)"
        using f(2) assms by (intro card_mono) auto
      with Cons.IH [of l c] Cons.prems obtain c2 l2 e2 where
        "load_includes (Suc n) w dir ps c l = Some (c2, l2, e2)" "l \<subseteq> l2" by fastforce
      with f None show ?thesis by auto
    qed
  qed simp
  with files show ?case by blast
qed simp

text \<open>
  C37: Loading always ends, however the files include each other: with more fuel than there are files, every
  call answers a configuration or an error.
\<close>
theorem load_config_total:
  assumes "finite (dom (cw_files w))" "card (dom (cw_files w)) < n"
  shows "\<exists>r. load_config n w path = Some r"
proof -
  have "\<exists>c l e. load_config_file n w p default_config {} = Some (c, l, e)" for p
    using load_total [OF assms(1), of n] assms(2) by (metis Diff_empty)
  then obtain c l e where f: "load_config_file n w (config_path w path) default_config {} = Some (c, l, e)" by blast
  show ?thesis
  proof (cases "config_path w path = []")
    case True
    then show ?thesis by (simp add: load_config_def Let_def split: option.split)
  next
    case False
    with f show ?thesis by (cases e) (simp_all add: load_config_def Let_def split: option.split)
  qed
qed

text \<open>A directory of three files: \<open>a\<close> includes \<open>b\<close> and \<open>c\<close>, and both of them include \<open>d\<close>.\<close>

definition include_decoder :: "string list decoder" where
  "include_decoder data cfg = (in_download (dc_include_update (\<lambda>_. data)) cfg, None)"

definition demo_world :: "(string \<rightharpoonup> string list) \<Rightarrow> string list config_world" where
  "demo_world files = \<lparr>cw_cwd = ''/etc'', cw_files = files, cw_yaml = include_decoder, cw_json = include_decoder,
     cw_env = (\<lambda>_. [])\<rparr>"

definition diamond :: "string \<rightharpoonup> string list" where
  "diamond = [''/etc/a.yaml'' \<mapsto> [''b.yaml'', ''c.yaml''], ''/etc/b.yaml'' \<mapsto> [''d.yaml''],
     ''/etc/c.yaml'' \<mapsto> [''d.yaml''], ''/etc/d.yaml'' \<mapsto> []]"

lemma load_config_total_witness:
  "\<exists>r. load_config 5 (demo_world diamond) ''a.yaml'' = Some r"
proof (rule load_config_total)
  have d: "dom (cw_files (demo_world diamond)) = {''/etc/a.yaml'', ''/etc/b.yaml'', ''/etc/c.yaml'', ''/etc/d.yaml''}"
    by (auto simp: demo_world_def diamond_def)
  show "finite (dom (cw_files (demo_world diamond)))" "card (dom (cw_files (demo_world diamond))) < 5"
    unfolding d by simp_all
qed

section \<open>What a loaded configuration guarantees\<close>

lemma load_config_validated: "load_config n w path = Some (Inr c) \<Longrightarrow> config_validate c = None"
  by (auto simp: load_config_def Let_def split: option.splits if_splits)

text \<open>
  C26: A configuration that \<open>Load\<close> hands out is well formed, whatever the files and the environment say: the node
  is named, every port is a port, counts and limits are in range, chunk sizes are ordered, and TLS comes
  with its files.
\<close>
theorem load_config_well_formed:
  assumes "load_config n w path = Some (Inr c)"
  shows "nc_id (cf_node c) \<noteq> [] \<and> nc_name (cf_node c) \<noteq> [] \<and> nc_data_dir (cf_node c) \<noteq> [] \<and>
    ac_port (cf_api c) \<in> {1..65535} \<and> 0 \<le> ac_rate_limit (cf_api c) \<and>
    (ac_tls (cf_api c) \<longrightarrow> ac_cert (cf_api c) \<noteq> [] \<and> ac_key (cf_api c) \<noteq> []) \<and>
    cc_grpc_port (cf_cluster c) \<in> {1..65535} \<and> cc_discovery_port (cf_cluster c) \<in> {1..65535} \<and>
    1000000000 \<le> cc_node_timeout (cf_cluster c) \<and>
    dc_max_connections (cf_download c) \<in> {1..64} \<and> 0 \<le> dc_min_chunk (cf_download c) \<and>
    dc_min_chunk (cf_download c) \<le> dc_default_chunk (cf_download c) \<and>
    dc_default_chunk (cf_download c) \<le> dc_max_chunk (cf_download c) \<and> 1024 \<le> dc_buffer (cf_download c) \<and>
    1000000000 \<le> dc_timeout (cf_download c) \<and> dc_retry (cf_download c) \<in> {0..100} \<and>
    0 \<le> dc_speed_limit (cf_download c) \<and> 0 \<le> dc_max_per_server (cf_download c) \<and>
    0 \<le> dc_min_speed_timeout (cf_download c) \<and>
    (\<forall>b. dc_bt (cf_download c) = Some b \<longrightarrow> bt_port b \<in> {0..65535} \<and> bt_max_connections b \<in> {0..1000} \<and>
       bt_max_peers b \<in> {0..1000} \<and> 0 \<le> bt_download_limit b \<and> 0 \<le> bt_upload_limit b)"
proof -
  have parts: "node_validate (cf_node c) = None" "api_validate (cf_api c) = None"
    "cluster_validate (cf_cluster c) = None" "download_validate (cf_download c) = None"
    using load_config_validated [OF assms] by (auto simp: config_validate_def split: option.splits)
  have node: "nc_id (cf_node c) \<noteq> [] \<and> nc_name (cf_node c) \<noteq> [] \<and> nc_data_dir (cf_node c) \<noteq> []"
    using parts(1) by (auto simp: node_validate_def split: if_splits)
  have api: "ac_port (cf_api c) \<in> {1..65535} \<and> 0 \<le> ac_rate_limit (cf_api c) \<and>
    (ac_tls (cf_api c) \<longrightarrow> ac_cert (cf_api c) \<noteq> [] \<and> ac_key (cf_api c) \<noteq> [])"
    using parts(2) by (auto simp: api_validate_def split: if_splits)
  have cluster: "cc_grpc_port (cf_cluster c) \<in> {1..65535} \<and> cc_discovery_port (cf_cluster c) \<in> {1..65535} \<and>
    1000000000 \<le> cc_node_timeout (cf_cluster c)"
    using parts(3) by (auto simp: cluster_validate_def split: if_splits)
  let ?d = "cf_download c"
  have own: "dc_max_connections ?d \<in> {1..64} \<and> 0 \<le> dc_min_chunk ?d \<and> dc_min_chunk ?d \<le> dc_default_chunk ?d \<and>
    dc_default_chunk ?d \<le> dc_max_chunk ?d \<and> 1024 \<le> dc_buffer ?d \<and> 1000000000 \<le> dc_timeout ?d \<and>
    dc_retry ?d \<in> {0..100} \<and> 0 \<le> dc_speed_limit ?d \<and> 0 \<le> dc_max_per_server ?d \<and> 0 \<le> dc_min_speed_timeout ?d"
    using parts(4) by (simp add: download_validate_def split: if_splits)
  have bt: "bt_validate b = None" if "dc_bt ?d = Some b" for b
    using parts(4) that by (simp add: download_validate_def split: if_splits)
  have "bt_port b \<in> {0..65535} \<and> bt_max_connections b \<in> {0..1000} \<and>
       bt_max_peers b \<in> {0..1000} \<and> 0 \<le> bt_download_limit b \<and> 0 \<le> bt_upload_limit b" if "dc_bt ?d = Some b" for b
    using bt [OF that] by (simp add: bt_validate_def split: if_splits)
  with node api cluster own show ?thesis by blast
qed

lemma load_config_well_formed_witness:
  "ac_port (cf_api (apply_env_overrides ((\<lambda>_. [])(''AFD_API_PORT'' := ''9090'')) default_config)) \<in> {1..65535}"
proof -
  let ?w = "(demo_world Map.empty)\<lparr>cw_env := (\<lambda>_. [])(''AFD_API_PORT'' := ''9090'')\<rparr>"
  let ?c = "apply_env_overrides ((\<lambda>_. [])(''AFD_API_PORT'' := ''9090'')) default_config"
  have "config_validate ?c = None" by code_simp
  moreover have "config_path ?w [] = []" by (simp add: config_path_def demo_world_def)
  ultimately have "load_config 1 ?w [] = Some (Inr ?c)" by (simp add: load_config_def Let_def)
  from load_config_well_formed [OF this] show ?thesis by blast
qed

lemma load_grows:
  "(\<forall>p cfg loaded c l e. load_config_file m w p cfg loaded = Some (c, l, e) \<longrightarrow> loaded \<subseteq> l) \<and>
   (\<forall>dir ps cfg loaded c l e. load_includes m w dir ps cfg loaded = Some (c, l, e) \<longrightarrow> loaded \<subseteq> l)"
proof (induction m)
  case 0
  have "load_includes 0 w dir ps cfg loaded = Some (c, l, e) \<Longrightarrow> loaded \<subseteq> l" for dir ps cfg loaded c l e
    by (cases ps) simp_all
  then show ?case by simp
next
  case (Suc m)
  have IH: "load_includes m w dir ps cfg loaded = Some (c, l, e) \<Longrightarrow> loaded \<subseteq> l" for dir ps cfg loaded c l e
    using Suc by blast
  have files: "load_config_file (Suc m) w p cfg loaded = Some (c, l, e) \<Longrightarrow> loaded \<subseteq> l" for p cfg loaded c l e
    by (auto simp: Let_def split: if_splits option.splits prod.splits dest!: IH)
  have "load_includes (Suc m) w dir ps cfg loaded = Some (c, l, e) \<Longrightarrow> loaded \<subseteq> l" for dir ps cfg loaded c l e
  proof (induction ps arbitrary: cfg loaded)
    case (Cons p ps)
    from Cons.prems show ?case
      by (auto simp del: load_config_file.simps split: option.splits prod.splits dest!: files Cons.IH)
  qed simp
  with files show ?case by blast
qed

text \<open>
  What the code calls a circular include is any second include: a file that has been loaded once is
  refused wherever it is named again, also when no file includes itself, as in a diamond.
\<close>
theorem second_include_rejected:
  assumes "load_config_file (Suc n) w p cfg loaded = Some (c, l, None)" "path_abs (cw_cwd w) q = path_abs (cw_cwd w) p"
    "l \<subseteq> l'"
  shows "load_config_file (Suc k) w q cfg' l' = Some (cfg', l', Some (''circular include detected: '' @ path_abs (cw_cwd w) p))"
proof -
  have grows: "load_includes n w dir ps cfg loaded = Some (c, l, e) \<Longrightarrow> loaded \<subseteq> l" for dir ps cfg loaded c l e
    using load_grows [of n w] by blast
  have "path_abs (cw_cwd w) p \<in> l"
    using assms(1) by (auto simp: Let_def split: if_splits option.splits prod.splits dest!: grows)
  with assms(2,3) show ?thesis by (auto simp: Let_def)
qed

lemma second_include_rejected_witness:
  "(case load_config 5 (demo_world diamond) ''a.yaml'' of
      Some (Inl e) \<Rightarrow> e = ''circular include detected: /etc/d.yaml'' | _ \<Rightarrow> False) \<and>
   load_config_file 1 (demo_world diamond) ''/etc/d.yaml'' default_config {''/etc/d.yaml''} =
     Some (default_config, {''/etc/d.yaml''}, Some ''circular include detected: /etc/d.yaml'')"
proof -
  have l: "case load_config 5 (demo_world diamond) ''a.yaml'' of
      Some (Inl e) \<Rightarrow> e = ''circular include detected: /etc/d.yaml'' | _ \<Rightarrow> False" by code_simp
  have p: "path_abs ''/etc'' ''/etc/d.yaml'' = ''/etc/d.yaml''" "path_ext ''/etc/d.yaml'' = ''.yaml''" "to_lower ''.yaml'' = ''.yaml''"
    by code_simp+
  have "load_config_file (Suc 0) (demo_world diamond) ''/etc/d.yaml'' default_config {} =
      Some (in_download (dc_include_update (\<lambda>_. [])) default_config, {''/etc/d.yaml''}, None)"
    by (simp add: demo_world_def diamond_def p parse_config_def include_decoder_def Let_def in_download_def)
  from second_include_rejected [OF this refl subset_refl, of 0 default_config] l p(1) show ?thesis
    by (simp add: demo_world_def)
qed

end
