(* ===== verification/BitfieldSpec.thy ===== *)
theory BitfieldSpec
  imports Bitfield
begin

text \<open>
  What the block bitmap promises, as two finite sets of block numbers: the completed blocks and the
  blocks in use. The byte arrays with their masks and the cached counter of \<open>Bitfield\<close> refine this
  specification: every operation commutes with the abstraction, and every query is the query on sets.
\<close>

section \<open>The specification\<close>

record block_sets =
  bs_done :: "int set"
  bs_used :: "int set"

definition loaded_blocks :: "int \<Rightarrow> 8 word list \<Rightarrow> int set" where
  "loaded_blocks n bf = {i. 0 \<le> i \<and> i < n \<and> bit (bf ! nat (i div 8)) (nat (i mod 8))}"

fun set_exec :: "int \<Rightarrow> block_sets \<Rightarrow> bm_op \<Rightarrow> block_sets" where
  "set_exec n s (OpSet i) = (if i \<in> {0..<n} then s\<lparr>bs_done := insert i (bs_done s)\<rparr> else s)"
| "set_exec n s (OpClear i) = s\<lparr>bs_done := bs_done s - {i}\<rparr>"
| "set_exec n s (OpUse i) = (if i \<in> {0..<n} then s\<lparr>bs_used := insert i (bs_used s)\<rparr> else s)"
| "set_exec n s (OpUnuse i) = s\<lparr>bs_used := bs_used s - {i}\<rparr>"
| "set_exec n s (OpLoad bf) =
     (if int (length bf) = (n + 7) div 8 then s\<lparr>bs_done := loaded_blocks n bf\<rparr> else s)"

definition least_or_none :: "int set \<Rightarrow> int" where
  "least_or_none A = (if A = {} then -1 else Min A)"

definition bm_abs :: "bitfield_man \<Rightarrow> block_sets" where
  "bm_abs b = \<lparr>bs_done = completed.members b, bs_used = used.members b\<rparr>"

section \<open>Refinement of the operations\<close>

lemma used_members_frames [simp]:
  "used.members (bm_set_bit b i) = used.members b"
  "used.members (bm_clear_bit b i) = used.members b"
  "used.members (bm_set_bitfield b bf) = used.members b"
  by (simp_all add: used.members_def bm_is_use_bit_set_def)

lemma members_out_of_range:
  assumes "\<not> (0 \<le> i \<and> i < bm_num b)"
  shows "bm_set_bit b i = b" "bm_set_use_bit b i = b"
  using assms by (auto simp: bm_set_bit_def bm_set_use_bit_def)

lemma members_load:
  assumes "bm_shape b"
  shows "completed.members (bm_set_bitfield b bf) =
    (if int (length bf) = (bm_num b + 7) div 8 then loaded_blocks (bm_num b) bf else completed.members b)"
proof -
  have "length bf = length (bm_bits b) \<longleftrightarrow> int (length bf) = (bm_num b + 7) div 8"
    using assms by (auto simp: bm_shape_def)
  moreover have "completed.members (b\<lparr>bm_bits := bf, bm_done := k\<rparr>) = loaded_blocks (bm_num b) bf" for k
    by (auto simp: completed.members_def loaded_blocks_def bm_is_bit_set_def mask_and byte_index_def)
  ultimately show ?thesis by (auto simp: bm_set_bitfield_def Let_def)
qed

lemma bm_exec_shape: "bm_shape b \<Longrightarrow> bm_shape (bm_exec b x)"
  by (cases x, simp_all add: completed.wf_add completed.wf_del used.wf_add used.wf_del)
    (simp add: bm_shape_def bm_set_bitfield_def Let_def)

lemma bm_exec_refines:
  assumes "bm_shape b"
  shows "bm_abs (bm_exec b x) = set_exec (bm_num b) (bm_abs b) x"
proof (cases x)
  case (OpSet i)
  then show ?thesis using completed.members_add [OF assms, of i] members_out_of_range(1) [of i b]
    by (cases "0 \<le> i \<and> i < bm_num b") (auto simp: bm_abs_def)
next
  case (OpUse i)
  then show ?thesis using used.members_add [OF assms, of i] members_out_of_range(2) [of i b]
    by (cases "0 \<le> i \<and> i < bm_num b") (auto simp: bm_abs_def)
qed (simp_all add: bm_abs_def completed.members_del [OF assms] used.members_del [OF assms] members_load [OF assms])

lemma bm_run_refines:
  "bm_shape b \<Longrightarrow> bm_abs (foldl bm_exec b ops) = foldl (set_exec (bm_num b)) (bm_abs b) ops"
proof (induction ops arbitrary: b)
  case (Cons x xs)
  show ?case using Cons.IH [OF bm_exec_shape [OF Cons.prems, of x]]
    by (simp add: bm_exec_refines [OF Cons.prems])
qed simp

section \<open>Refinement of the queries\<close>

lemma least_or_noneI:
  assumes "finite A" "(x = -1 \<and> A = {}) \<or> (x \<in> A \<and> (\<forall>y \<in> A. x \<le> y))"
  shows "x = least_or_none A"
  using assms by (auto simp: least_or_none_def intro: Min_eqI [symmetric])

lemma bm_first_missing_least:
  assumes "0 \<le> bm_num b"
  shows "bm_first_missing b = least_or_none ({0..<bm_num b} - bs_done (bm_abs b))"
  using bm_first_missing_cases [OF assms]
  by (intro least_or_noneI) (auto simp: bm_abs_def completed.members_def not_less [symmetric])

lemma bm_first_missing_unused_least:
  assumes "0 \<le> bm_num b"
  shows "bm_first_missing_unused b =
    least_or_none ({0..<bm_num b} - bs_done (bm_abs b) - bs_used (bm_abs b))"
  using bm_first_missing_unused_cases [OF assms]
  by (intro least_or_noneI)
    (auto simp: bm_abs_def completed.members_def used.members_def not_less [symmetric])

lemma bm_count_missing_card:
  assumes "bm_ok b"
  shows "bm_count_missing b = int (card ({0..<bm_num b} - bs_done (bm_abs b)))"
proof -
  have "completed.members b \<subseteq> {0..<bm_num b}" by (rule completed.members_range)
  then have "card ({0..<bm_num b} - completed.members b) = nat (bm_num b) - card (completed.members b)"
    by (subst card_Diff_subset) simp_all
  then show ?thesis
    using bm_count_missing_eq [OF assms] bm_okD(2,4) [OF assms] completed.card_members_le [of b]
    by (simp add: bm_abs_def)
qed

text \<open>
  C14: The byte-level bitmap refines the set specification. From any consistent bitmap, after any
  sequence of set, clear, reserve, release and load calls, the completed and used blocks are
  exactly what the same calls give on sets, and the queries answer as the sets do: the first missing
  block and the first block neither completed nor used are the least such numbers (or \<open>-1\<close>), the
  missing count is the size of the complement, and \<open>IsAllBitSet\<close> is that the complement is empty.
\<close>
theorem bm_refines_sets:
  assumes "bm_ok b"
  shows "let r = foldl bm_exec b ops; s = foldl (set_exec (bm_num b)) (bm_abs b) ops;
             missing = {0..<bm_num b} - bs_done s in
    bm_abs r = s \<and>
    bm_first_missing r = least_or_none missing \<and>
    bm_first_missing_unused r = least_or_none (missing - bs_used s) \<and>
    bm_count_missing r = int (card missing) \<and>
    (bm_is_all_bit_set r \<longleftrightarrow> missing = {})"
proof -
  let ?r = "foldl bm_exec b ops"
  have ok: "bm_ok ?r" using assms by (induction ops arbitrary: b) (simp_all add: bm_exec_ok)
  have n: "bm_num ?r = bm_num b" by (induction ops arbitrary: b) simp_all
  note abs = bm_run_refines [OF bm_okD(1) [OF assms], of ops, symmetric]
  have all: "bm_is_all_bit_set ?r \<longleftrightarrow> {0..<bm_num b} - bs_done (bm_abs ?r) = {}"
    using bm_all_iff [OF ok] n by (auto simp: bm_abs_def completed.members_def)
  show ?thesis
    unfolding Let_def abs all
    using bm_first_missing_least [OF bm_okD(2) [OF ok]] bm_first_missing_unused_least [OF bm_okD(2) [OF ok]]
      bm_count_missing_card [OF ok] n by simp
qed

text \<open>Eleven blocks; block 2 is used, 0 and 1 completed, 1 lost again.\<close>

lemma bm_refines_sets_witness:
  "let r = foldl bm_exec (new_bitfield_man 11 4 42) [OpUse 2, OpSet 0, OpSet 1, OpClear 1, OpSet 99] in
     bm_abs r = \<lparr>bs_done = {0}, bs_used = {2}\<rparr> \<and> bm_count_missing r = 10 \<and> \<not> bm_is_all_bit_set r"
proof -
  let ?b = "new_bitfield_man 11 4 42"
  have ok: "bm_ok ?b" by (rule new_bitfield_man_ok) simp_all
  have n: "bm_num ?b = 11" by (simp add: new_bitfield_man_def Let_def)
  have none: "\<not> bm_is_bit_set ?b i" "\<not> bm_is_use_bit_set ?b i" for i
    using byte_index_less [of i 11]
    by (simp_all add: new_bitfield_man_def bm_is_bit_set_def bm_is_use_bit_set_def Let_def go_int)
  then have a: "bm_abs ?b = \<lparr>bs_done = {}, bs_used = {}\<rparr>"
    by (simp add: bm_abs_def completed.members_def used.members_def)
  have c: "card ({0..<11} - {0::int}) = 10" by (subst card_Diff_singleton) simp_all
  have e: "\<not> {0..<11} \<subseteq> {0::int}" by (auto simp: subset_iff intro: exI [of _ 1])
  show ?thesis
    using bm_refines_sets [OF ok, of "[OpUse 2, OpSet 0, OpSet 1, OpClear 1, OpSet 99]"] c e
    by (auto simp: n a Let_def)
qed

end
