(* ===== verification/FileSys.thy ===== *)
theory FileSys
  imports GoString
begin

text \<open>
  One directory of a POSIX file system, as the stores of \<open>internal/task\<close> use it through \<open>os\<close> and
  \<open>syscall\<close>: names point to inodes, inodes hold bytes and at most one \<open>flock\<close> owner, and a machine
  crash keeps only what \<open>fsync\<close> made durable. Nothing here models code of the repository.
\<close>

record fsys =
  fs_dir :: "string \<rightharpoonup> nat"
  fs_disk :: "string \<rightharpoonup> nat"  \<comment> \<open>the directory as of its last \<open>fsync\<close>\<close>
  fs_data :: "nat \<Rightarrow> string"
  fs_durable :: "nat \<Rightarrow> bool"
  fs_lock :: "nat \<rightharpoonup> nat"
  fs_next :: nat

definition empty_fs :: fsys where
  "empty_fs = \<lparr>fs_dir = Map.empty, fs_disk = Map.empty, fs_data = (\<lambda>_. []), fs_durable = (\<lambda>_. False),
     fs_lock = Map.empty, fs_next = 0\<rparr>"

text \<open>\<open>open(name, O_CREAT)\<close>: the inode of the name, made empty if there is none.\<close>

definition fs_create :: "string \<Rightarrow> fsys \<Rightarrow> fsys \<times> nat" where
  "fs_create n fs =
     (case fs_dir fs n of
        Some i \<Rightarrow> (fs, i)
      | None \<Rightarrow> let i = fs_next fs in
          (fs\<lparr>fs_dir := (fs_dir fs)(n \<mapsto> i), fs_data := (fs_data fs)(i := []),
              fs_durable := (fs_durable fs)(i := False), fs_lock := (fs_lock fs)(i := None),
              fs_next := i + 1\<rparr>, i))"

text \<open>\<open>flock(LOCK_EX | LOCK_NB)\<close> by the open file \<open>who\<close>.\<close>

definition fs_flock :: "nat \<Rightarrow> nat \<Rightarrow> fsys \<Rightarrow> fsys option" where
  "fs_flock who i fs =
     (if fs_lock fs i = None \<or> fs_lock fs i = Some who
      then Some (fs\<lparr>fs_lock := (fs_lock fs)(i \<mapsto> who)\<rparr>) else None)"

text \<open>\<open>flock(LOCK_UN)\<close>, and what closing the file does to its lock.\<close>

definition fs_unlock :: "nat \<Rightarrow> nat \<Rightarrow> fsys \<Rightarrow> fsys" where
  "fs_unlock who i fs =
     (if fs_lock fs i = Some who then fs\<lparr>fs_lock := (fs_lock fs)(i := None)\<rparr> else fs)"

definition fs_remove :: "string \<Rightarrow> fsys \<Rightarrow> fsys" where
  "fs_remove n fs = fs\<lparr>fs_dir := (fs_dir fs)(n := None)\<rparr>"

definition fs_append :: "nat \<Rightarrow> string \<Rightarrow> fsys \<Rightarrow> fsys" where
  "fs_append i bs fs = fs\<lparr>fs_data := (fs_data fs)(i := fs_data fs i @ bs),
     fs_durable := (fs_durable fs)(i := False)\<rparr>"

definition fs_sync :: "nat \<Rightarrow> fsys \<Rightarrow> fsys" where
  "fs_sync i fs = fs\<lparr>fs_durable := (fs_durable fs)(i := True)\<rparr>"

definition fs_sync_dir :: "fsys \<Rightarrow> fsys" where
  "fs_sync_dir fs = fs\<lparr>fs_disk := fs_dir fs\<rparr>"

definition fs_rename :: "string \<Rightarrow> string \<Rightarrow> fsys \<Rightarrow> fsys option" where
  "fs_rename a b fs =
     (case fs_dir fs a of
        None \<Rightarrow> None
      | Some i \<Rightarrow> Some (if a = b then fs else fs\<lparr>fs_dir := (fs_dir fs)(a := None, b \<mapsto> i)\<rparr>))"

text \<open>
  A crash: locks are gone, inodes that were not synced hold anything (\<open>junk\<close>), and the directory is
  the current one or the last synced one.
\<close>

definition fs_crash :: "bool \<Rightarrow> (nat \<Rightarrow> string) \<Rightarrow> fsys \<Rightarrow> fsys" where
  "fs_crash latest junk fs =
     fs\<lparr>fs_dir := (if latest then fs_dir fs else fs_disk fs),
        fs_disk := (if latest then fs_dir fs else fs_disk fs),
        fs_data := (\<lambda>i. if fs_durable fs i then fs_data fs i else junk i), fs_lock := Map.empty\<rparr>"

definition fs_content :: "fsys \<Rightarrow> string \<Rightarrow> string option" where
  "fs_content fs n = map_option (fs_data fs) (fs_dir fs n)"

section \<open>Extensions of names\<close>

lemma path_ext_append:
  assumes "CHR ''.'' \<notin> set e" "CHR ''/'' \<notin> set e"
  shows "path_ext (s @ CHR ''.'' # e) = CHR ''.'' # e"
proof -
  have "takeWhile (\<lambda>c. c \<noteq> CHR ''.'' \<and> c \<noteq> CHR ''/'') (rev e @ CHR ''.'' # rev s) = rev e"
    using assms by (subst takeWhile_append2) auto
  moreover have "dropWhile (\<lambda>c. c \<noteq> CHR ''.'' \<and> c \<noteq> CHR ''/'') (rev e @ CHR ''.'' # rev s) = CHR ''.'' # rev s"
    using assms by (subst dropWhile_append2) auto
  ultimately show ?thesis by (simp add: path_ext_def)
qed

lemma path_ext_known [simp]:
  "path_ext (s @ ''.json'') = ''.json''" "path_ext (s @ ''.ctl'') = ''.ctl''"
  "path_ext (s @ ''.lock'') = ''.lock''" "path_ext (s @ ''.tmp'') = ''.tmp''"
  by (simp_all add: path_ext_append)

end
