(* ===== verification/SaveProtocol.thy ===== *)
theory SaveProtocol
  imports FileSys
begin

text \<open>
  The atomic write that \<open>TaskStore.Save\<close> and \<open>ControlFileStore.Save\<close> of \<open>internal/task\<close> share: a
  lock file, a temporary file, \<open>fsync\<close>, \<open>rename\<close>, and the deferred clean-up, one system call per step, so
  that several processes can interleave and the machine can crash between any two calls.
\<close>

section \<open>One call of Save, step by step\<close>

datatype store_kind = TaskFiles | ControlFiles

text \<open>\<open>taskPath\<close> and \<open>filePath\<close>, relative to the directory of the store.\<close>

fun target_name :: "store_kind \<Rightarrow> string \<Rightarrow> string" where
  "target_name TaskFiles ident = ident @ ''.json''"
| "target_name ControlFiles ident = ident @ ''.ctl''"

fun target_ext :: "store_kind \<Rightarrow> string" where
  "target_ext TaskFiles = ''.json''"
| "target_ext ControlFiles = ''.ctl''"

definition lock_name :: "store_kind \<Rightarrow> string \<Rightarrow> string" where
  "lock_name k ident = target_name k ident @ ''.lock''"

text \<open>The pattern of \<open>os.CreateTemp\<close>, with the random part filled in.\<close>

fun temp_name :: "store_kind \<Rightarrow> string \<Rightarrow> string \<Rightarrow> string" where
  "temp_name TaskFiles ident rnd = ident @ ''.'' @ rnd @ ''.tmp''"
| "temp_name ControlFiles ident rnd = target_name ControlFiles ident @ ''.'' @ rnd @ ''.tmp''"

datatype save_error =
    ErrDir | ErrMarshal | ErrOpenLock | ErrLock | ErrCreateTemp | ErrWrite | ErrSync | ErrClose | ErrRename

datatype save_pc =
    EnsureDir | MkdirAgain | Marshal | OpenLock | TakeLock | CreateTemp | WriteTemp | SyncTemp | CloseTemp
  | RenameTemp | SyncDir | AbandonClose | RemoveTemp | DropLock | RemoveLock | CloseLock | Finished

record saver =
  sv_pc :: save_pc
  sv_id :: string
  sv_payload :: "string option"  \<comment> \<open>what \<open>json.MarshalIndent\<close> gives, \<open>None\<close> for its error\<close>
  sv_lock_ino :: nat
  sv_tmp :: string
  sv_tmp_ino :: nat
  sv_err :: "save_error option"

definition save_start :: "string \<Rightarrow> string option \<Rightarrow> saver" where
  "save_start ident payload = \<lparr>sv_pc = EnsureDir, sv_id = ident, sv_payload = payload, sv_lock_ino = 0,
     sv_tmp = [], sv_tmp_ino = 0, sv_err = None\<rparr>"

text \<open>
  How the operating system answers the call: it succeeds, or it fails (a failing write has written
  the first \<open>n\<close> bytes). The answer only matters for the calls whose error the code looks at.
\<close>

datatype outcome = Works | Fails nat

definition goto_pc :: "save_pc \<Rightarrow> saver \<Rightarrow> saver" where
  "goto_pc pc sv = sv\<lparr>sv_pc := pc\<rparr>"

definition fail_to :: "save_pc \<Rightarrow> save_error \<Rightarrow> saver \<Rightarrow> saver" where
  "fail_to pc e sv = sv\<lparr>sv_pc := pc, sv_err := Some e\<rparr>"

text \<open>
  One step of \<open>Save\<close> by \<open>who\<close>. The two stores differ in the second \<open>MkdirAll\<close> (\<open>TaskStore\<close> only) and
  in the clean-up of the temporary file, which \<open>ControlFileStore\<close> defers and so also attempts after
  a successful rename. An error of the call at \<open>AbandonClose\<close> and after it is ignored by the code.
\<close>

definition save_step :: "store_kind \<Rightarrow> nat \<Rightarrow> outcome \<Rightarrow> string \<Rightarrow> fsys \<times> saver \<Rightarrow> fsys \<times> saver" where
  "save_step k who out rnd = (\<lambda>(fs, sv). let ok = (out = Works); dst = target_name k (sv_id sv) in
     case sv_pc sv of
       EnsureDir \<Rightarrow> (fs, if ok then goto_pc (if k = TaskFiles then MkdirAgain else Marshal) sv
                        else fail_to Finished ErrDir sv)
     | MkdirAgain \<Rightarrow> (fs, if ok then goto_pc Marshal sv else fail_to Finished ErrDir sv)
     | Marshal \<Rightarrow> (fs, if sv_payload sv = None then fail_to Finished ErrMarshal sv else goto_pc OpenLock sv)
     | OpenLock \<Rightarrow>
         if ok then (let (fs', i) = fs_create (lock_name k (sv_id sv)) fs in
           (fs', sv\<lparr>sv_pc := TakeLock, sv_lock_ino := i\<rparr>))
         else (fs, fail_to Finished ErrOpenLock sv)
     | TakeLock \<Rightarrow>
         (case (if ok then fs_flock who (sv_lock_ino sv) fs else None) of
            Some fs' \<Rightarrow> (fs', goto_pc CreateTemp sv)
          | None \<Rightarrow> (fs, fail_to RemoveLock ErrLock sv))
     | CreateTemp \<Rightarrow>
         if ok then (let tmp = temp_name k (sv_id sv) rnd; (fs', i) = fs_create tmp fs in
           (fs', sv\<lparr>sv_pc := WriteTemp, sv_tmp := tmp, sv_tmp_ino := i\<rparr>))
         else (fs, fail_to DropLock ErrCreateTemp sv)
     | WriteTemp \<Rightarrow>
         (case out of
            Works \<Rightarrow> (fs_append (sv_tmp_ino sv) (the (sv_payload sv)) fs, goto_pc SyncTemp sv)
          | Fails n \<Rightarrow> (fs_append (sv_tmp_ino sv) (take n (the (sv_payload sv))) fs, fail_to AbandonClose ErrWrite sv))
     | SyncTemp \<Rightarrow>
         if ok then (fs_sync (sv_tmp_ino sv) fs, goto_pc CloseTemp sv) else (fs, fail_to AbandonClose ErrSync sv)
     | CloseTemp \<Rightarrow> (fs, if ok then goto_pc RenameTemp sv else fail_to RemoveTemp ErrClose sv)
     | RenameTemp \<Rightarrow>
         (case (if ok then fs_rename (sv_tmp sv) dst fs else None) of
            Some fs' \<Rightarrow> (fs', goto_pc SyncDir sv)
          | None \<Rightarrow> (fs, fail_to RemoveTemp ErrRename sv))
     | SyncDir \<Rightarrow> (if ok then fs_sync_dir fs else fs, goto_pc (if k = TaskFiles then DropLock else RemoveTemp) sv)
     | AbandonClose \<Rightarrow> (fs, goto_pc RemoveTemp sv)
     | RemoveTemp \<Rightarrow> (if ok then fs_remove (sv_tmp sv) fs else fs, goto_pc DropLock sv)
     | DropLock \<Rightarrow> (if ok then fs_unlock who (sv_lock_ino sv) fs else fs, goto_pc RemoveLock sv)
     | RemoveLock \<Rightarrow> (if ok then fs_remove (lock_name k (sv_id sv)) fs else fs, goto_pc CloseLock sv)
     | CloseLock \<Rightarrow> (fs_unlock who (sv_lock_ino sv) fs, goto_pc Finished sv)
     | Finished \<Rightarrow> (fs, sv))"

definition in_critical :: "saver \<Rightarrow> bool" where
  "in_critical sv \<longleftrightarrow> sv_pc sv \<in> {CreateTemp, WriteTemp, SyncTemp, CloseTemp, RenameTemp, SyncDir}"

text \<open>The step at each program counter.\<close>

lemma save_step_at:
  "sv_pc sv = EnsureDir \<Longrightarrow> save_step k who out rnd (fs, sv) =
     (fs, if out = Works then goto_pc (if k = TaskFiles then MkdirAgain else Marshal) sv else fail_to Finished ErrDir sv)"
  "sv_pc sv = MkdirAgain \<Longrightarrow> save_step k who out rnd (fs, sv) =
     (fs, if out = Works then goto_pc Marshal sv else fail_to Finished ErrDir sv)"
  "sv_pc sv = Marshal \<Longrightarrow> save_step k who out rnd (fs, sv) =
     (fs, if sv_payload sv = None then fail_to Finished ErrMarshal sv else goto_pc OpenLock sv)"
  "sv_pc sv = OpenLock \<Longrightarrow> save_step k who out rnd (fs, sv) =
     (if out = Works then (fst (fs_create (lock_name k (sv_id sv)) fs),
        sv\<lparr>sv_pc := TakeLock, sv_lock_ino := snd (fs_create (lock_name k (sv_id sv)) fs)\<rparr>)
      else (fs, fail_to Finished ErrOpenLock sv))"
  "sv_pc sv = TakeLock \<Longrightarrow> save_step k who out rnd (fs, sv) =
     (case (if out = Works then fs_flock who (sv_lock_ino sv) fs else None) of
        Some fs' \<Rightarrow> (fs', goto_pc CreateTemp sv) | None \<Rightarrow> (fs, fail_to RemoveLock ErrLock sv))"
  "sv_pc sv = CreateTemp \<Longrightarrow> save_step k who out rnd (fs, sv) =
     (if out = Works then (fst (fs_create (temp_name k (sv_id sv) rnd) fs),
        sv\<lparr>sv_pc := WriteTemp, sv_tmp := temp_name k (sv_id sv) rnd,
           sv_tmp_ino := snd (fs_create (temp_name k (sv_id sv) rnd) fs)\<rparr>)
      else (fs, fail_to DropLock ErrCreateTemp sv))"
  "sv_pc sv = WriteTemp \<Longrightarrow> save_step k who Works rnd (fs, sv) =
     (fs_append (sv_tmp_ino sv) (the (sv_payload sv)) fs, goto_pc SyncTemp sv)"
  "sv_pc sv = WriteTemp \<Longrightarrow> save_step k who (Fails n) rnd (fs, sv) =
     (fs_append (sv_tmp_ino sv) (take n (the (sv_payload sv))) fs, fail_to AbandonClose ErrWrite sv)"
  "sv_pc sv = SyncTemp \<Longrightarrow> save_step k who out rnd (fs, sv) =
     (if out = Works then (fs_sync (sv_tmp_ino sv) fs, goto_pc CloseTemp sv) else (fs, fail_to AbandonClose ErrSync sv))"
  "sv_pc sv = CloseTemp \<Longrightarrow> save_step k who out rnd (fs, sv) =
     (fs, if out = Works then goto_pc RenameTemp sv else fail_to RemoveTemp ErrClose sv)"
  "sv_pc sv = RenameTemp \<Longrightarrow> save_step k who out rnd (fs, sv) =
     (case (if out = Works then fs_rename (sv_tmp sv) (target_name k (sv_id sv)) fs else None) of
        Some fs' \<Rightarrow> (fs', goto_pc SyncDir sv) | None \<Rightarrow> (fs, fail_to RemoveTemp ErrRename sv))"
  "sv_pc sv = SyncDir \<Longrightarrow> save_step k who out rnd (fs, sv) =
     (if out = Works then fs_sync_dir fs else fs, goto_pc (if k = TaskFiles then DropLock else RemoveTemp) sv)"
  "sv_pc sv = AbandonClose \<Longrightarrow> save_step k who out rnd (fs, sv) = (fs, goto_pc RemoveTemp sv)"
  "sv_pc sv = RemoveTemp \<Longrightarrow> save_step k who out rnd (fs, sv) =
     (if out = Works then fs_remove (sv_tmp sv) fs else fs, goto_pc DropLock sv)"
  "sv_pc sv = DropLock \<Longrightarrow> save_step k who out rnd (fs, sv) =
     (if out = Works then fs_unlock who (sv_lock_ino sv) fs else fs, goto_pc RemoveLock sv)"
  "sv_pc sv = RemoveLock \<Longrightarrow> save_step k who out rnd (fs, sv) =
     (if out = Works then fs_remove (lock_name k (sv_id sv)) fs else fs, goto_pc CloseLock sv)"
  "sv_pc sv = CloseLock \<Longrightarrow> save_step k who out rnd (fs, sv) =
     (fs_unlock who (sv_lock_ino sv) fs, goto_pc Finished sv)"
  "sv_pc sv = Finished \<Longrightarrow> save_step k who out rnd (fs, sv) = (fs, sv)"
  by (simp_all add: save_step_def case_prod_unfold Let_def split: option.split)

lemma pc_sel [simp]:
  "sv_pc (goto_pc pc sv) = pc" "sv_pc (fail_to pc e sv) = pc" "sv_payload (goto_pc pc sv) = sv_payload sv"
  "sv_payload (fail_to pc e sv) = sv_payload sv" "sv_id (goto_pc pc sv) = sv_id sv" "sv_id (fail_to pc e sv) = sv_id sv"
  "sv_tmp (goto_pc pc sv) = sv_tmp sv" "sv_tmp (fail_to pc e sv) = sv_tmp sv"
  "sv_tmp_ino (goto_pc pc sv) = sv_tmp_ino sv" "sv_tmp_ino (fail_to pc e sv) = sv_tmp_ino sv"
  "sv_lock_ino (goto_pc pc sv) = sv_lock_ino sv" "sv_lock_ino (fail_to pc e sv) = sv_lock_ino sv"
  "sv_err (goto_pc pc sv) = sv_err sv" "sv_err (fail_to pc e sv) = Some e"
  by (simp_all add: goto_pc_def fail_to_def)

section \<open>Several processes and crashes\<close>

text \<open>
  In one process the store's mutex lets one \<open>Save\<close> run at a time, so a process has one saver. Other
  processes may call \<open>Delete\<close>, and the clean-up in \<open>LoadAll\<close> removes files ending in \<open>.tmp\<close>.
  \<open>ss_used\<close> collects the temporary names handed out: \<open>os.CreateTemp\<close> retries on a name that exists and
  draws its random part so that a name does not come back.
\<close>

record store_sys =
  ss_fs :: fsys
  ss_procs :: "nat \<rightharpoonup> saver"
  ss_used :: "string set"

datatype store_event =
    EvSave nat string "string option"
  | EvStep nat outcome string
  | EvDelete string
  | EvClean string
  | EvCrash bool "nat \<Rightarrow> string"

definition idle_proc :: "store_sys \<Rightarrow> nat \<Rightarrow> bool" where
  "idle_proc s p \<longleftrightarrow> (case ss_procs s p of None \<Rightarrow> True | Some sv \<Rightarrow> sv_pc sv = Finished)"

fun store_exec :: "store_kind \<Rightarrow> store_sys \<Rightarrow> store_event \<Rightarrow> store_sys" where
  "store_exec k s (EvSave p ident payload) =
     (if idle_proc s p then s\<lparr>ss_procs := (ss_procs s)(p \<mapsto> save_start ident payload)\<rparr> else s)"
| "store_exec k s (EvStep p out rnd) =
     (case ss_procs s p of
        None \<Rightarrow> s
      | Some sv \<Rightarrow>
          let tmp = temp_name k (sv_id sv) rnd; creates = (sv_pc sv = CreateTemp \<and> out = Works) in
          if creates \<and> (tmp \<in> ss_used s \<or> fs_dir (ss_fs s) tmp \<noteq> None) then s
          else (let (fs', sv') = save_step k p out rnd (ss_fs s, sv) in
            s\<lparr>ss_fs := fs', ss_procs := (ss_procs s)(p \<mapsto> sv'),
              ss_used := (if creates then insert tmp (ss_used s) else ss_used s)\<rparr>))"
| "store_exec k s (EvDelete ident) = s\<lparr>ss_fs := fs_remove (target_name k ident) (ss_fs s)\<rparr>"
| "store_exec k s (EvClean n) =
     (if path_ext n = ''.tmp'' then s\<lparr>ss_fs := fs_remove n (ss_fs s)\<rparr> else s)"
| "store_exec k s (EvCrash latest junk) =
     s\<lparr>ss_fs := fs_crash latest junk (ss_fs s), ss_procs := Map.empty\<rparr>"

definition store_run :: "store_kind \<Rightarrow> store_sys \<Rightarrow> store_event list \<Rightarrow> store_sys" where
  "store_run k s evs = foldl (store_exec k) s evs"


section \<open>The invariant\<close>

definition is_target :: "store_kind \<Rightarrow> string \<Rightarrow> bool" where
  "is_target k n \<longleftrightarrow> path_ext n = target_ext k"

lemma names_of_kind [simp]:
  "is_target k (target_name k ident)" "\<not> is_target k (lock_name k ident)" "\<not> is_target k (temp_name k ident rnd)"
  "path_ext (temp_name k ident rnd) = ''.tmp''" "path_ext (lock_name k ident) = ''.lock''"
proof -
  have t: "path_ext (temp_name k ident rnd) = ''.tmp''"
    by (cases k) (use path_ext_known(4) [of "ident @ ''.'' @ rnd"] path_ext_known(4) [of "ident @ ''.ctl.'' @ rnd"] in simp_all)
  have l: "path_ext (lock_name k ident) = ''.lock''" unfolding lock_name_def by (rule path_ext_known(3))
  show "is_target k (target_name k ident)" "\<not> is_target k (lock_name k ident)" "\<not> is_target k (temp_name k ident rnd)"
    "path_ext (temp_name k ident rnd) = ''.tmp''" "path_ext (lock_name k ident) = ''.lock''"
    using t l by (cases k; simp add: is_target_def)+
qed

lemma tmp_not_target: "path_ext n = ''.tmp'' \<Longrightarrow> \<not> is_target k n"
  by (cases k) (simp_all add: is_target_def)

text \<open>Every file of the store is durable and its content is allowed for its name by \<open>A\<close>.\<close>

definition files_ok :: "store_kind \<Rightarrow> (string \<Rightarrow> string \<Rightarrow> bool) \<Rightarrow> fsys \<Rightarrow> bool" where
  "files_ok k A fs \<longleftrightarrow>
     (\<forall>n i. fs_dir fs n = Some i \<or> fs_disk fs n = Some i \<longrightarrow>
        i < fs_next fs \<and> (is_target k n \<longrightarrow> fs_durable fs i \<and> A n (fs_data fs i)))"

text \<open>The temporary file of a running \<open>Save\<close> belongs to it alone.\<close>

definition temp_ok :: "store_kind \<Rightarrow> fsys \<Rightarrow> string \<Rightarrow> nat \<Rightarrow> bool" where
  "temp_ok k fs tmp i \<longleftrightarrow> path_ext tmp = ''.tmp'' \<and> i < fs_next fs \<and> fs_dir fs tmp \<in> {None, Some i} \<and>
     (\<forall>n. n \<noteq> tmp \<longrightarrow> fs_dir fs n \<noteq> Some i) \<and> (\<forall>n. is_target k n \<longrightarrow> fs_disk fs n \<noteq> Some i)"

lemmas fs_ops = fs_create_def fs_flock_def fs_unlock_def fs_remove_def fs_append_def fs_sync_def
  fs_sync_dir_def fs_rename_def fs_crash_def

lemma files_ok_ops:
  assumes "files_ok k A fs"
  shows "files_ok k A (fs_unlock w i fs)" "files_ok k A (fs_remove n fs)" "files_ok k A (fs_sync i fs)"
    "files_ok k A (fs_sync_dir fs)" "files_ok k A (fs_crash latest junk fs)"
    "fs_flock w i fs = Some fs' \<Longrightarrow> files_ok k A fs'"
  using assms by (auto simp: files_ok_def fs_ops split: if_splits)

lemma files_ok_create: "files_ok k A fs \<Longrightarrow> \<not> is_target k n \<Longrightarrow> files_ok k A (fst (fs_create n fs))"
  by (auto simp: files_ok_def fs_create_def Let_def less_Suc_eq split: option.splits)

lemma files_ok_append: "files_ok k A fs \<Longrightarrow> temp_ok k fs tmp i \<Longrightarrow> files_ok k A (fs_append i d fs)"
  using tmp_not_target [of tmp k] by (auto simp: files_ok_def temp_ok_def fs_append_def)

lemma files_ok_rename:
  assumes "files_ok k A fs" "temp_ok k fs tmp i" "fs_durable fs i" "A dst (fs_data fs i)" "fs_rename tmp dst fs = Some fs'"
  shows "files_ok k A fs'"
  using assms by (auto simp: files_ok_def temp_ok_def fs_rename_def split: option.splits if_splits)

lemma temp_ok_ops:
  assumes "temp_ok k fs tmp i"
  shows "temp_ok k (fs_unlock w j fs) tmp i" "temp_ok k (fs_remove n fs) tmp i" "temp_ok k (fs_sync j fs) tmp i"
    "temp_ok k (fs_sync_dir fs) tmp i" "temp_ok k (fs_append j d fs) tmp i"
    "fs_flock w j fs = Some fs' \<Longrightarrow> temp_ok k fs' tmp i"
    "fs_rename tmp' dst fs = Some fs' \<Longrightarrow> temp_ok k fs tmp' j \<Longrightarrow> tmp' \<noteq> tmp \<Longrightarrow> j \<noteq> i \<Longrightarrow> is_target k dst \<Longrightarrow>
       temp_ok k fs' tmp i"
  using assms tmp_not_target [of tmp k]
  by (auto simp: temp_ok_def fs_ops split: if_splits option.splits)

lemma temp_ok_data [simp]:
  "temp_ok k (fs\<lparr>fs_data := D, fs_durable := U\<rparr>) tmp i = temp_ok k fs tmp i"
  by (simp add: temp_ok_def)

lemma temp_ok_create:
  assumes "temp_ok k fs tmp i" "n \<noteq> tmp"
  shows "temp_ok k (fst (fs_create n fs)) tmp i"
  using assms by (auto simp: temp_ok_def fs_create_def Let_def split: option.splits)

lemma temp_ok_fresh:
  assumes "files_ok k A fs" "fs_dir fs tmp = None" "path_ext tmp = ''.tmp''" "fs_create tmp fs = (fs', i)"
  shows "temp_ok k fs' tmp i" "fs_data fs' i = []" "i = fs_next fs"
proof -
  have "fs_dir fs n \<noteq> Some (fs_next fs)" "fs_disk fs n \<noteq> Some (fs_next fs)" for n
    using assms(1) by (metis files_ok_def less_irrefl)+
  then show "temp_ok k fs' tmp i" "fs_data fs' i = []" "i = fs_next fs"
    using assms(2-4) by (auto simp: temp_ok_def fs_create_def Let_def)
qed

text \<open>What holds of a process, by its program counter.\<close>

definition owns_temp :: "saver \<Rightarrow> bool" where
  "owns_temp sv \<longleftrightarrow> sv_pc sv \<in> {WriteTemp, SyncTemp, CloseTemp, RenameTemp}"

definition saver_ok :: "store_kind \<Rightarrow> (string \<Rightarrow> string \<Rightarrow> bool) \<Rightarrow> string set \<Rightarrow> fsys \<Rightarrow> saver \<Rightarrow> bool" where
  "saver_ok k A used fs sv \<longleftrightarrow>
     (\<forall>d. sv_payload sv = Some d \<longrightarrow> A (target_name k (sv_id sv)) d) \<and>
     (sv_pc sv \<in> {OpenLock, TakeLock, CreateTemp, WriteTemp, SyncTemp, CloseTemp, RenameTemp} \<longrightarrow> sv_payload sv \<noteq> None) \<and>
     (owns_temp sv \<longrightarrow> temp_ok k fs (sv_tmp sv) (sv_tmp_ino sv) \<and> sv_tmp sv \<in> used \<and>
        fs_data fs (sv_tmp_ino sv) = (if sv_pc sv = WriteTemp then [] else the (sv_payload sv))) \<and>
     (sv_pc sv \<in> {CloseTemp, RenameTemp} \<longrightarrow> fs_durable fs (sv_tmp_ino sv)) \<and>
     (sv_pc sv \<in> {SyncDir, AbandonClose, RemoveTemp} \<longrightarrow> path_ext (sv_tmp sv) = ''.tmp'')"

definition store_inv :: "store_kind \<Rightarrow> (string \<Rightarrow> string \<Rightarrow> bool) \<Rightarrow> store_sys \<Rightarrow> bool" where
  "store_inv k A s \<longleftrightarrow> files_ok k A (ss_fs s) \<and>
     (\<forall>p sv. ss_procs s p = Some sv \<longrightarrow> saver_ok k A (ss_used s) (ss_fs s) sv) \<and>
     (\<forall>p q sv sw. ss_procs s p = Some sv \<longrightarrow> ss_procs s q = Some sw \<longrightarrow> p \<noteq> q \<longrightarrow> owns_temp sv \<longrightarrow> owns_temp sw \<longrightarrow>
        sv_tmp sv \<noteq> sv_tmp sw \<and> sv_tmp_ino sv \<noteq> sv_tmp_ino sw)"


section \<open>Every step keeps it\<close>

text \<open>What a step does to the temporary file of somebody else: nothing.\<close>

lemma fs_data_ops [simp]:
  "fs_data (fs_unlock w j fs) = fs_data fs" "fs_data (fs_remove n fs) = fs_data fs" "fs_data (fs_sync j fs) = fs_data fs"
  "fs_data (fs_sync_dir fs) = fs_data fs" "fs_durable (fs_unlock w j fs) = fs_durable fs"
  "fs_durable (fs_remove n fs) = fs_durable fs" "fs_durable (fs_sync_dir fs) = fs_durable fs"
  by (simp_all add: fs_ops)

lemma fs_data_partial:
  "fs_flock w j fs = Some fs' \<Longrightarrow> fs_data fs' = fs_data fs \<and> fs_durable fs' = fs_durable fs"
  "fs_rename a b fs = Some fs' \<Longrightarrow> fs_data fs' = fs_data fs \<and> fs_durable fs' = fs_durable fs"
  by (auto simp: fs_flock_def fs_rename_def split: if_splits option.splits)

lemma fs_create_frame:
  assumes "i < fs_next fs"
  shows "fs_data (fst (fs_create n fs)) i = fs_data fs i" "fs_durable (fst (fs_create n fs)) i = fs_durable fs i"
  using assms by (auto simp: fs_create_def Let_def split: option.splits)

lemma save_step_frame:
  assumes "save_step k who out rnd (fs, sv) = (fs', sv')" "temp_ok k fs tmp i"
    "owns_temp sv \<Longrightarrow> temp_ok k fs (sv_tmp sv) (sv_tmp_ino sv) \<and> sv_tmp sv \<noteq> tmp \<and> sv_tmp_ino sv \<noteq> i"
    "sv_pc sv = CreateTemp \<Longrightarrow> out = Works \<Longrightarrow> temp_name k (sv_id sv) rnd \<noteq> tmp"
  shows "temp_ok k fs' tmp i \<and> fs_data fs' i = fs_data fs i \<and> (fs_durable fs i \<longrightarrow> fs_durable fs' i)"
proof -
  have lock: "lock_name k (sv_id sv) \<noteq> tmp" using assms(2) names_of_kind(5) [of k "sv_id sv"] by (auto simp: temp_ok_def)
  have i: "i < fs_next fs" using assms(2) by (simp add: temp_ok_def)
  note keep = temp_ok_ops [OF assms(2)] temp_ok_create [OF assms(2)] fs_create_frame [OF i] fs_data_partial
  show ?thesis
  proof (cases "sv_pc sv")
    case OpenLock
    then show ?thesis using assms(1) keep(8) [OF lock] keep(9,10) [of "lock_name k (sv_id sv)"] assms(2)
      by (auto simp: save_step_at Let_def split: if_splits prod.splits)
  next
    case CreateTemp
    then show ?thesis using assms(1,4) keep(8) [of "temp_name k (sv_id sv) rnd"] keep(9,10) [of "temp_name k (sv_id sv) rnd"] assms(2)
      by (auto simp: save_step_at Let_def split: if_splits prod.splits)
  next
    case TakeLock
    then show ?thesis using assms(1,2) keep(6,11)
      by (auto simp: save_step_at Let_def split: if_splits option.splits)
  next
    case WriteTemp
    then have "sv_tmp_ino sv \<noteq> i" using assms(3) by (simp add: owns_temp_def)
    then show ?thesis using WriteTemp assms(1) keep(5)
      by (cases out) (auto simp: save_step_at fs_append_def)
  next
    case SyncTemp
    then show ?thesis using assms(1,2) keep(3)
      by (auto simp: save_step_at Let_def fs_sync_def split: if_splits)
  next
    case RenameTemp
    then have "temp_ok k fs (sv_tmp sv) (sv_tmp_ino sv)" "sv_tmp sv \<noteq> tmp" "sv_tmp_ino sv \<noteq> i"
      using assms(3) by (simp_all add: owns_temp_def)
    then show ?thesis using RenameTemp assms(1,2) keep(7,12)
      by (auto simp: save_step_at Let_def split: if_splits option.splits)
  qed (use assms(1,2) keep(1-4) in \<open>auto simp: save_step_at Let_def split: if_splits\<close>)
qed

text \<open>What a step does for the process itself.\<close>

lemma save_step_files:
  assumes "save_step k who out rnd (fs, sv) = (fs', sv')" "files_ok k A fs" "saver_ok k A used fs sv"
  shows "files_ok k A fs'"
proof (cases "sv_pc sv")
  case OpenLock
  then show ?thesis using assms(1,2) files_ok_create [OF assms(2), of "lock_name k (sv_id sv)"]
    by (auto simp: save_step_at Let_def split: if_splits prod.splits)
next
  case CreateTemp
  then show ?thesis using assms(1,2) files_ok_create [OF assms(2), of "temp_name k (sv_id sv) rnd"]
    by (auto simp: save_step_at Let_def split: if_splits prod.splits)
next
  case WriteTemp
  then have "temp_ok k fs (sv_tmp sv) (sv_tmp_ino sv)" using assms(3) by (simp add: saver_ok_def owns_temp_def)
  then show ?thesis using WriteTemp assms(1) files_ok_append [OF assms(2)]
    by (cases out) (auto simp: save_step_at)
next
  case TakeLock
  then show ?thesis using assms(1,2) files_ok_ops(6) [OF assms(2)]
    by (auto simp: save_step_at Let_def split: if_splits option.splits)
next
  case RenameTemp
  then have own: "temp_ok k fs (sv_tmp sv) (sv_tmp_ino sv)" "fs_durable fs (sv_tmp_ino sv)"
      "A (target_name k (sv_id sv)) (fs_data fs (sv_tmp_ino sv))"
    using assms(3) by (auto simp: saver_ok_def owns_temp_def)
  show ?thesis using RenameTemp assms(1,2) files_ok_rename [OF assms(2) own]
    by (auto simp: save_step_at Let_def split: if_splits option.splits)
qed (use assms(1,2) files_ok_ops(1-5) [OF assms(2)] in \<open>auto simp: save_step_at Let_def split: if_splits\<close>)

lemma saver_ok_plain:
  assumes "saver_ok k A used fs sv" "sv_payload sv' = sv_payload sv" "sv_id sv' = sv_id sv" "\<not> owns_temp sv'"
    "sv_pc sv' \<in> {OpenLock, TakeLock, CreateTemp} \<Longrightarrow> sv_payload sv \<noteq> None"
    "sv_pc sv' \<in> {SyncDir, AbandonClose, RemoveTemp} \<Longrightarrow> path_ext (sv_tmp sv') = ''.tmp''"
  shows "saver_ok k A used' fs' sv'"
  using assms by (simp add: saver_ok_def owns_temp_def)

lemma saver_okD:
  assumes "saver_ok k A used fs sv"
  shows "sv_pc sv \<in> {OpenLock, TakeLock, CreateTemp} \<Longrightarrow> sv_payload sv \<noteq> None"
    "sv_pc sv \<in> {SyncDir, AbandonClose, RemoveTemp} \<Longrightarrow> path_ext (sv_tmp sv) = ''.tmp''"
  using assms by (auto simp: saver_ok_def)

text \<open>Where the steps that do not touch the temporary file lead.\<close>

lemma save_step_plain:
  assumes "sv_pc sv \<notin> {CreateTemp, WriteTemp, SyncTemp, CloseTemp, RenameTemp}"
  shows "let sv' = snd (save_step k who out rnd (fs, sv)) in
    sv_payload sv' = sv_payload sv \<and> sv_id sv' = sv_id sv \<and> sv_tmp sv' = sv_tmp sv \<and> \<not> owns_temp sv' \<and>
    (sv_pc sv' \<in> {OpenLock, TakeLock, CreateTemp} \<longrightarrow> sv_payload sv \<noteq> None \<or> sv_pc sv \<in> {OpenLock, TakeLock}) \<and>
    (sv_pc sv' \<in> {SyncDir, AbandonClose, RemoveTemp} \<longrightarrow> sv_pc sv \<in> {SyncDir, AbandonClose, RemoveTemp})"
  using assms by (cases "sv_pc sv"; cases k)
    (simp_all add: save_step_at owns_temp_def split: option.split prod.split)

lemma save_step_saver:
  assumes "save_step k who out rnd (fs, sv) = (fs', sv')" "files_ok k A fs" "saver_ok k A used fs sv"
    "sv_pc sv = CreateTemp \<Longrightarrow> out = Works \<Longrightarrow> fs_dir fs (temp_name k (sv_id sv) rnd) = None"
    "used' = (if sv_pc sv = CreateTemp \<and> out = Works then insert (temp_name k (sv_id sv) rnd) used else used)"
  shows "saver_ok k A used' fs' sv'"
proof -
  have sv': "sv' = snd (save_step k who out rnd (fs, sv))" using assms(1) by simp
  have plain: "saver_ok k A used' fs' sv'"
    if "sv_pc sv \<notin> {CreateTemp, WriteTemp, SyncTemp, CloseTemp, RenameTemp}"
  proof (rule saver_ok_plain [OF assms(3)])
    note pl = save_step_plain [OF that, of k who out rnd fs, unfolded Let_def, folded sv']
    show "sv_payload sv' = sv_payload sv" "sv_id sv' = sv_id sv" "\<not> owns_temp sv'" using pl by blast+
    show "sv_payload sv \<noteq> None" if "sv_pc sv' \<in> {OpenLock, TakeLock, CreateTemp}"
      using pl that saver_okD(1) [OF assms(3)] by blast
    show "path_ext (sv_tmp sv') = ''.tmp''" if "sv_pc sv' \<in> {SyncDir, AbandonClose, RemoveTemp}"
      using pl that saver_okD(2) [OF assms(3)] by metis
  qed
  show ?thesis
proof (cases "sv_pc sv")
  case CreateTemp
  show ?thesis
  proof (cases "out = Works")
    case True
    let ?t = "temp_name k (sv_id sv) rnd"
    obtain f i where c: "fs_create ?t fs = (f, i)" by (cases "fs_create ?t fs")
    have "temp_ok k f ?t i" "fs_data f i = []"
      using temp_ok_fresh(1,2) [OF assms(2) assms(4) [OF CreateTemp True] _ c] by simp_all
    then show ?thesis using CreateTemp True c assms(1,3,5)
      by (auto simp: save_step_at saver_ok_def owns_temp_def Let_def)
  next
    case False
    then show ?thesis using CreateTemp assms(1,3,5)
      by (auto simp: save_step_at saver_ok_def owns_temp_def Let_def)
  qed
next
  case WriteTemp
  then have t: "temp_ok k fs (sv_tmp sv) (sv_tmp_ino sv)" "path_ext (sv_tmp sv) = ''.tmp''"
    using assms(3) by (auto simp: saver_ok_def owns_temp_def temp_ok_def)
  show ?thesis using WriteTemp assms(1,3,5) t temp_ok_ops(5) [OF t(1)]
    by (cases out) (auto simp: save_step_at saver_ok_def owns_temp_def fs_append_def)
next
  case SyncTemp
  then have t: "temp_ok k fs (sv_tmp sv) (sv_tmp_ino sv)" "path_ext (sv_tmp sv) = ''.tmp''"
    using assms(3) by (auto simp: saver_ok_def owns_temp_def temp_ok_def)
  show ?thesis using SyncTemp assms(1,3,5) t temp_ok_ops(3) [OF t(1)]
    by (auto simp: save_step_at saver_ok_def owns_temp_def fs_sync_def Let_def split: if_splits)
next
  case CloseTemp
  then have "path_ext (sv_tmp sv) = ''.tmp''" using assms(3) by (auto simp: saver_ok_def owns_temp_def temp_ok_def)
  then show ?thesis using CloseTemp assms(1,3,5)
    by (cases out) (auto simp: save_step_at saver_ok_def owns_temp_def Let_def)
next
  case RenameTemp
  then have "path_ext (sv_tmp sv) = ''.tmp''" using assms(3) by (auto simp: saver_ok_def owns_temp_def temp_ok_def)
  then show ?thesis using RenameTemp assms(1,3,5)
    by (cases out) (auto simp: save_step_at saver_ok_def owns_temp_def Let_def split: option.splits)
qed (use plain in simp_all)
qed


text \<open>What a step does to the temporary file it works on.\<close>

lemma save_step_keeps_tmp:
  "sv_pc sv \<noteq> CreateTemp \<Longrightarrow> sv_tmp (snd (save_step k who out rnd (fs, sv))) = sv_tmp sv \<and>
     sv_tmp_ino (snd (save_step k who out rnd (fs, sv))) = sv_tmp_ino sv"
  by (cases "sv_pc sv"; cases out)
    (simp_all add: save_step_at split: option.splits prod.splits)

lemma save_step_owns:
  "sv_pc sv \<noteq> CreateTemp \<Longrightarrow> owns_temp (snd (save_step k who out rnd (fs, sv))) \<Longrightarrow> owns_temp sv"
  by (cases "sv_pc sv"; cases out)
    (simp_all add: save_step_at owns_temp_def split: option.splits prod.splits if_splits)

lemma save_step_temp:
  assumes "save_step k who out rnd (fs, sv) = (fs', sv')" "owns_temp sv'"
  shows "(owns_temp sv \<and> sv_tmp sv' = sv_tmp sv \<and> sv_tmp_ino sv' = sv_tmp_ino sv) \<or>
    (sv_pc sv = CreateTemp \<and> out = Works \<and> sv_tmp sv' = temp_name k (sv_id sv) rnd \<and>
      fs_create (temp_name k (sv_id sv) rnd) fs = (fs', sv_tmp_ino sv'))"
proof (cases "sv_pc sv = CreateTemp")
  case True
  then show ?thesis using assms
    by (auto simp: save_step_at owns_temp_def Let_def split: if_splits prod.splits)
next
  case False
  then show ?thesis using assms save_step_keeps_tmp [OF False, of k who out rnd fs] save_step_owns [OF False, of k who out rnd fs]
    by simp
qed

lemma saver_ok_frame:
  assumes "saver_ok k A used fs sv" "used \<subseteq> used'"
    "owns_temp sv \<Longrightarrow> temp_ok k fs (sv_tmp sv) (sv_tmp_ino sv) \<Longrightarrow>
       temp_ok k fs' (sv_tmp sv) (sv_tmp_ino sv) \<and> fs_data fs' (sv_tmp_ino sv) = fs_data fs (sv_tmp_ino sv) \<and>
       (fs_durable fs (sv_tmp_ino sv) \<longrightarrow> fs_durable fs' (sv_tmp_ino sv))"
  shows "saver_ok k A used' fs' sv"
proof (cases "owns_temp sv")
  case True
  then have "temp_ok k fs (sv_tmp sv) (sv_tmp_ino sv)" using assms(1) by (simp add: saver_ok_def)
  note kept = assms(3) [OF True this]
  show ?thesis unfolding saver_ok_def
    using assms(1) [unfolded saver_ok_def] kept assms(2) by (simp add: subsetD)
next
  case False
  then have "sv_pc sv \<notin> {CloseTemp, RenameTemp}" by (auto simp: owns_temp_def)
  with False show ?thesis using assms(1) by (simp add: saver_ok_def)
qed

lemma store_inv_remove:
  assumes "store_inv k A s"
  shows "store_inv k A (s\<lparr>ss_fs := fs_remove n (ss_fs s)\<rparr>)"
proof -
  have "saver_ok k A (ss_used s) (fs_remove n (ss_fs s)) sv" if "ss_procs s p = Some sv" for p sv
    by (rule saver_ok_frame [of _ _ "ss_used s" "ss_fs s"])
      (use assms that temp_ok_ops(2) in \<open>auto simp: store_inv_def\<close>)
  then show ?thesis using assms files_ok_ops(2) [of k A "ss_fs s"] by (auto simp: store_inv_def)
qed

lemma store_inv_start:
  assumes "store_inv k A s" "\<And>d. payload = Some d \<Longrightarrow> A (target_name k ident) d"
  shows "store_inv k A (s\<lparr>ss_procs := (ss_procs s)(p \<mapsto> save_start ident payload)\<rparr>)"
proof -
  have "\<not> owns_temp (save_start ident payload)" by (simp add: owns_temp_def save_start_def)
  moreover have "saver_ok k A u fs (save_start ident payload)" for u fs
    using assms(2) by (simp add: saver_ok_def owns_temp_def save_start_def)
  ultimately show ?thesis using assms(1) by (auto simp: store_inv_def)
qed

lemma store_inv_step:
  assumes inv: "store_inv k A s" and p: "ss_procs s p = Some sv"
    and fresh: "\<not> (sv_pc sv = CreateTemp \<and> out = Works \<and>
      (temp_name k (sv_id sv) rnd \<in> ss_used s \<or> fs_dir (ss_fs s) (temp_name k (sv_id sv) rnd) \<noteq> None))"
    and step: "save_step k p out rnd (ss_fs s, sv) = (fs', sv')"
  shows "store_inv k A (s\<lparr>ss_fs := fs', ss_procs := (ss_procs s)(p \<mapsto> sv'),
    ss_used := (if sv_pc sv = CreateTemp \<and> out = Works then insert (temp_name k (sv_id sv) rnd) (ss_used s) else ss_used s)\<rparr>)"
    (is "store_inv k A ?s")
proof -
  have files: "files_ok k A (ss_fs s)" and ok: "\<And>q sw. ss_procs s q = Some sw \<Longrightarrow> saver_ok k A (ss_used s) (ss_fs s) sw"
    and apart: "\<And>q sw. ss_procs s q = Some sw \<Longrightarrow> q \<noteq> p \<Longrightarrow> owns_temp sv \<Longrightarrow> owns_temp sw \<Longrightarrow>
      sv_tmp sv \<noteq> sv_tmp sw \<and> sv_tmp_ino sv \<noteq> sv_tmp_ino sw"
    using inv p unfolding store_inv_def by blast+
  have own: "owns_temp sw \<Longrightarrow> ss_procs s q = Some sw \<Longrightarrow>
      temp_ok k (ss_fs s) (sv_tmp sw) (sv_tmp_ino sw) \<and> sv_tmp sw \<in> ss_used s" for q sw
    using ok by (simp add: saver_ok_def)
  have 1: "files_ok k A fs'" by (rule save_step_files [OF step files ok [OF p]])
  have 2: "saver_ok k A (ss_used ?s) fs' sv'"
    by (rule save_step_saver [OF step files ok [OF p]]) (use fresh in auto)
  have 3: "saver_ok k A (ss_used ?s) fs' sw" if q: "ss_procs s q = Some sw" "q \<noteq> p" for q sw
  proof (rule saver_ok_frame [OF ok [OF q(1)]])
    show "ss_used s \<subseteq> ss_used ?s" by auto
    assume o: "owns_temp sw" and t: "temp_ok k (ss_fs s) (sv_tmp sw) (sv_tmp_ino sw)"
    show "temp_ok k fs' (sv_tmp sw) (sv_tmp_ino sw) \<and> fs_data fs' (sv_tmp_ino sw) = fs_data (ss_fs s) (sv_tmp_ino sw) \<and>
       (fs_durable (ss_fs s) (sv_tmp_ino sw) \<longrightarrow> fs_durable fs' (sv_tmp_ino sw))"
      by (rule save_step_frame [OF step t]) (use apart [OF q] own [OF _ p] own [OF o q(1)] o fresh in auto)
  qed
  have 4: "sv_tmp sv' \<noteq> sv_tmp sw \<and> sv_tmp_ino sv' \<noteq> sv_tmp_ino sw"
    if q: "ss_procs s q = Some sw" "q \<noteq> p" and o: "owns_temp sv'" "owns_temp sw" for q sw
    using save_step_temp [OF step o(1)]
  proof
    assume "owns_temp sv \<and> sv_tmp sv' = sv_tmp sv \<and> sv_tmp_ino sv' = sv_tmp_ino sv"
    then show ?thesis using apart [OF q _ o(2)] by simp
  next
    assume c: "sv_pc sv = CreateTemp \<and> out = Works \<and> sv_tmp sv' = temp_name k (sv_id sv) rnd \<and>
      fs_create (temp_name k (sv_id sv) rnd) (ss_fs s) = (fs', sv_tmp_ino sv')"
    then have "sv_tmp_ino sv' = fs_next (ss_fs s)"
      using temp_ok_fresh(3) [OF files, of "temp_name k (sv_id sv) rnd"] fresh by auto
    then show ?thesis using own [OF o(2) q(1)] c fresh by (auto simp: temp_ok_def)
  qed
  have old: "\<And>a b sx sy. ss_procs s a = Some sx \<Longrightarrow> ss_procs s b = Some sy \<Longrightarrow> a \<noteq> b \<Longrightarrow> owns_temp sx \<Longrightarrow> owns_temp sy \<Longrightarrow>
      sv_tmp sx \<noteq> sv_tmp sy \<and> sv_tmp_ino sx \<noteq> sv_tmp_ino sy"
    using inv unfolding store_inv_def by blast
  have 5: "sv_tmp sx \<noteq> sv_tmp sy \<and> sv_tmp_ino sx \<noteq> sv_tmp_ino sy"
    if "ss_procs ?s a = Some sx" "ss_procs ?s b = Some sy" "a \<noteq> b" "owns_temp sx" "owns_temp sy" for a b sx sy
  proof (cases "a = p")
    case True
    then show ?thesis using that 4 [of b sy] by simp
  next
    case False
    then show ?thesis using that 4 [of a sx] old [of a sx b sy] by (cases "b = p") auto
  qed
  show ?thesis unfolding store_inv_def
    using 1 2 3 5 by (auto split: if_splits)
qed

text \<open>The calls of \<open>Save\<close> among the events offer only content that is allowed.\<close>

definition offers_ok :: "store_kind \<Rightarrow> (string \<Rightarrow> string \<Rightarrow> bool) \<Rightarrow> store_event \<Rightarrow> bool" where
  "offers_ok k A e \<longleftrightarrow> (\<forall>p ident d. e = EvSave p ident (Some d) \<longrightarrow> A (target_name k ident) d)"

lemma store_inv_exec:
  assumes "store_inv k A s" "offers_ok k A e"
  shows "store_inv k A (store_exec k s e)"
proof (cases e)
  case (EvSave p ident payload)
  then show ?thesis using assms store_inv_start [OF assms(1), of payload ident p]
    by (auto simp: offers_ok_def)
next
  case (EvStep p out rnd)
  show ?thesis
  proof (cases "ss_procs s p")
    case None
    then show ?thesis using EvStep assms(1) by simp
  next
    case (Some sv)
    obtain fs' sv' where step: "save_step k p out rnd (ss_fs s, sv) = (fs', sv')"
      by (cases "save_step k p out rnd (ss_fs s, sv)")
    show ?thesis
    proof (cases "sv_pc sv = CreateTemp \<and> out = Works \<and>
        (temp_name k (sv_id sv) rnd \<in> ss_used s \<or> fs_dir (ss_fs s) (temp_name k (sv_id sv) rnd) \<noteq> None)")
      case True
      then have "store_exec k s e = s" using EvStep Some by (simp add: Let_def)
      then show ?thesis using assms(1) by simp
    next
      case False
      then have "store_exec k s e = s\<lparr>ss_fs := fs', ss_procs := (ss_procs s)(p \<mapsto> sv'),
          ss_used := (if sv_pc sv = CreateTemp \<and> out = Works then insert (temp_name k (sv_id sv) rnd) (ss_used s) else ss_used s)\<rparr>"
        using EvStep Some step by (auto simp: Let_def)
      then show ?thesis using store_inv_step [OF assms(1) Some False step] by simp
    qed
  qed
next
  case (EvCrash latest junk)
  then show ?thesis using assms(1) files_ok_ops(5) [of k A "ss_fs s"] by (simp add: store_inv_def)
qed (use assms(1) store_inv_remove in auto)

lemma store_inv_run:
  "store_inv k A s \<Longrightarrow> (\<And>e. e \<in> set evs \<Longrightarrow> offers_ok k A e) \<Longrightarrow> store_inv k A (store_run k s evs)"
  unfolding store_run_def by (induction evs arbitrary: s) (simp_all add: store_inv_exec)

end
