(* ===== verification/TaskStore.thy ===== *)
theory TaskStore
  imports SaveProtocol TaskModel Pieces
begin

text \<open>
  The two stores of \<open>internal/task\<close>: \<open>store.go\<close> keeps a JSON file per task and \<open>controlfile.go\<close> a
  control file per download. Both save with \<open>SaveProtocol\<close>. The JSON codec is an argument: \<open>enc\<close> is
  \<open>MarshalIndent\<close> (\<open>None\<close> for its error) and \<open>dec\<close> is \<open>Unmarshal\<close>. A metadata object that is absent decodes
  to the empty map, so the code's replacement of a nil map changes nothing here.
\<close>

section \<open>Loading one file\<close>

datatype load_error = NoSuchFile | OpenFailed | LockFailed | ReadFailed | DecodeFailed | DeleteFailed | ListFailed

text \<open>\<open>OpenFile\<close>, \<open>flockFile\<close>, then \<open>ReadAll\<close> and the deferred \<open>unflockFile\<close>; \<open>who\<close> is the open file.\<close>

definition load_open :: "bool \<Rightarrow> fsys \<Rightarrow> string \<Rightarrow> load_error + nat" where
  "load_open ok fs n =
     (case fs_dir fs n of None \<Rightarrow> Inl NoSuchFile | Some i \<Rightarrow> if ok then Inr i else Inl OpenFailed)"

definition load_lock :: "nat \<Rightarrow> nat \<Rightarrow> fsys \<Rightarrow> load_error + fsys" where
  "load_lock who i fs = (case fs_flock who i fs of None \<Rightarrow> Inl LockFailed | Some fs' \<Rightarrow> Inr fs')"

definition load_finish :: "nat \<Rightarrow> nat \<Rightarrow> bool \<Rightarrow> fsys \<Rightarrow> fsys \<times> (load_error + string)" where
  "load_finish who i ok fs = (fs_unlock who i fs, if ok then Inr (fs_data fs i) else Inl ReadFailed)"

definition load_raw :: "nat \<Rightarrow> bool \<Rightarrow> bool \<Rightarrow> string \<Rightarrow> fsys \<Rightarrow> fsys \<times> (load_error + string)" where
  "load_raw who ok_open ok_read n fs =
     (case load_open ok_open fs n of
        Inl e \<Rightarrow> (fs, Inl e)
      | Inr i \<Rightarrow> (case load_lock who i fs of
          Inl e \<Rightarrow> (fs, Inl e)
        | Inr fs' \<Rightarrow> load_finish who i ok_read fs'))"

definition decode_with :: "(string \<Rightarrow> 'a option) \<Rightarrow> load_error + string \<Rightarrow> load_error + 'a" where
  "decode_with dec r =
     (case r of Inl e \<Rightarrow> Inl e | Inr d \<Rightarrow> (case dec d of None \<Rightarrow> Inl DecodeFailed | Some x \<Rightarrow> Inr x))"

text \<open>A \<open>Save\<close> that nobody disturbs and whose system calls succeed runs its fourteen steps.\<close>

definition save_alone :: "store_kind \<Rightarrow> nat \<Rightarrow> string \<Rightarrow> fsys \<Rightarrow> string \<Rightarrow> string option \<Rightarrow> fsys \<times> saver" where
  "save_alone k who rnd fs ident payload = (save_step k who Works rnd ^^ 14) (fs, save_start ident payload)"

section \<open>TaskStore\<close>

definition task_save :: "(task \<Rightarrow> string option) \<Rightarrow> nat \<Rightarrow> string \<Rightarrow> fsys \<Rightarrow> task \<Rightarrow> fsys \<times> save_error option" where
  "task_save enc who rnd fs t =
     (let (fs', sv) = save_alone TaskFiles who rnd fs (t_id t) (enc (get_safe t)) in (fs', sv_err sv))"

definition task_load :: "(string \<Rightarrow> task option) \<Rightarrow> nat \<Rightarrow> bool \<Rightarrow> bool \<Rightarrow> fsys \<Rightarrow> string \<Rightarrow> fsys \<times> (load_error + task)" where
  "task_load dec who ok_open ok_read fs ident =
     (let (fs', r) = load_raw who ok_open ok_read (target_name TaskFiles ident) fs in (fs', decode_with dec r))"

definition delete_file :: "store_kind \<Rightarrow> bool \<Rightarrow> fsys \<Rightarrow> string \<Rightarrow> fsys \<times> load_error option" where
  "delete_file k ok fs ident =
     (if fs_dir fs (target_name k ident) = None then (fs, Some NoSuchFile)
      else if ok then (fs_remove (target_name k ident) fs, None) else (fs, Some DeleteFailed))"

definition task_delete :: "bool \<Rightarrow> fsys \<Rightarrow> string \<Rightarrow> fsys \<times> load_error option" where
  "task_delete ok fs ident = delete_file TaskFiles ok fs ident"

text \<open>
  The loop of \<open>LoadAll\<close> over the entries of \<open>os.ReadDir\<close> (a name and whether it is a directory).
  \<open>removable\<close> and \<open>readable\<close> say for which names \<open>os.Remove\<close> and \<open>os.ReadFile\<close> succeed.
\<close>

fun load_all_loop :: "(string \<Rightarrow> task option) \<Rightarrow> (string \<Rightarrow> bool) \<Rightarrow> (string \<Rightarrow> bool) \<Rightarrow>
    (string \<times> bool) list \<Rightarrow> fsys \<Rightarrow> task list \<Rightarrow> fsys \<times> task list" where
  "load_all_loop dec removable readable [] fs ts = (fs, ts)"
| "load_all_loop dec removable readable ((n, is_dir) # es) fs ts =
     (if is_dir then load_all_loop dec removable readable es fs ts
      else if path_ext n = ''.tmp'' then
        load_all_loop dec removable readable es (if removable n then fs_remove n fs else fs) ts
      else if path_ext n \<noteq> ''.json'' then load_all_loop dec removable readable es fs ts
      else (case (if readable n then fs_content fs n else None) of
          None \<Rightarrow> load_all_loop dec removable readable es fs ts
        | Some d \<Rightarrow> (case dec d of
            None \<Rightarrow> load_all_loop dec removable readable es fs ts
          | Some t \<Rightarrow> load_all_loop dec removable readable es fs (ts @ [t]))))"

text \<open>\<open>listing\<close> is what \<open>MkdirAll\<close> and \<open>ReadDir\<close> come to; a directory that vanished in between counts as empty.\<close>

datatype dir_listing = MkdirFailed | ReadDirFailed | DirGone | Entries "(string \<times> bool) list"

definition task_load_all :: "(string \<Rightarrow> task option) \<Rightarrow> (string \<Rightarrow> bool) \<Rightarrow> (string \<Rightarrow> bool) \<Rightarrow> dir_listing \<Rightarrow>
    fsys \<Rightarrow> fsys \<times> (load_error + task list)" where
  "task_load_all dec removable readable listing fs =
     (case listing of
        MkdirFailed \<Rightarrow> (fs, Inl OpenFailed)
      | ReadDirFailed \<Rightarrow> (fs, Inl ListFailed)
      | DirGone \<Rightarrow> (fs, Inr [])
      | Entries es \<Rightarrow> let (fs', ts) = load_all_loop dec removable readable es fs [] in (fs', Inr ts))"

section \<open>ControlFileStore\<close>

record control_file =
  cf_infohash :: string
  cf_total_length :: int
  cf_completed_length :: int
  cf_piece_length :: int
  cf_piece_hashes :: string
  cf_bitfield :: string
  cf_num_pieces :: int
  cf_piece_bitfields :: "piece_bitfield_entry list"
  cf_created :: instant
  cf_updated :: instant
  cf_status :: string
  cf_last_modified :: string
  cf_etag :: string
  cf_url :: string

text \<open>\<open>time.Time{}\<close>, the zero time: the first of January of the year 1, in nanoseconds of Unix time.\<close>

definition zero_time :: instant where
  "zero_time = - 62135596800 * 1000000000"

text \<open>The time stamps that \<open>Save\<close> writes into the caller's record before it marshals it.\<close>

definition control_stamp :: "instant \<Rightarrow> control_file \<Rightarrow> control_file" where
  "control_stamp now cf =
     (let cf1 = cf\<lparr>cf_updated := now\<rparr> in
      if cf_created cf1 = zero_time then cf1\<lparr>cf_created := cf_updated cf1\<rparr> else cf1)"

text \<open>\<open>UnmarshalJSON\<close> on top of the plain decoder.\<close>

definition control_unmarshal :: "(string \<Rightarrow> control_file option) \<Rightarrow> instant \<Rightarrow> string \<Rightarrow> control_file option" where
  "control_unmarshal dec now d =
     (case dec d of
        None \<Rightarrow> None
      | Some cf \<Rightarrow>
          let cf1 = (if cf_created cf = zero_time then cf\<lparr>cf_created := now\<rparr> else cf)
          in Some (if cf_updated cf1 = zero_time then cf1\<lparr>cf_updated := now\<rparr> else cf1))"

definition control_save :: "(control_file \<Rightarrow> string option) \<Rightarrow> nat \<Rightarrow> string \<Rightarrow> instant \<Rightarrow> fsys \<Rightarrow> string \<Rightarrow> control_file \<Rightarrow>
    fsys \<times> control_file \<times> save_error option" where
  "control_save enc who rnd now fs ident cf =
     (let cf' = control_stamp now cf; (fs', sv) = save_alone ControlFiles who rnd fs ident (enc cf')
      in (fs', cf', sv_err sv))"

definition control_load :: "(string \<Rightarrow> control_file option) \<Rightarrow> nat \<Rightarrow> bool \<Rightarrow> bool \<Rightarrow> instant \<Rightarrow> fsys \<Rightarrow> string \<Rightarrow>
    fsys \<times> (load_error + control_file)" where
  "control_load dec who ok_open ok_read now fs ident =
     (let (fs', r) = load_raw who ok_open ok_read (target_name ControlFiles ident) fs
      in (fs', decode_with (control_unmarshal dec now) r))"

definition control_delete :: "bool \<Rightarrow> fsys \<Rightarrow> string \<Rightarrow> fsys \<times> load_error option" where
  "control_delete ok fs ident = delete_file ControlFiles ok fs ident"

definition control_list :: "dir_listing \<Rightarrow> load_error + string list" where
  "control_list listing =
     (case listing of
        MkdirFailed \<Rightarrow> Inl OpenFailed
      | ReadDirFailed \<Rightarrow> Inl ListFailed
      | DirGone \<Rightarrow> Inr []
      | Entries es \<Rightarrow> Inr (map (\<lambda>(n, _). take (length n - 4) n) (filter (\<lambda>(n, d). \<not> (d \<or> path_ext n \<noteq> ''.ctl'')) es)))"

section \<open>A save that nobody disturbs\<close>

lemma funpow_14: "(f ^^ 14) x = f (f (f (f (f (f (f (f (f (f (f (f (f (f x)))))))))))))"
  by (simp add: numeral_eq_Suc)

text \<open>The lock file can be taken, and the temporary name is new.\<close>

definition can_save :: "store_kind \<Rightarrow> nat \<Rightarrow> string \<Rightarrow> fsys \<Rightarrow> string \<Rightarrow> bool" where
  "can_save k who rnd fs ident \<longleftrightarrow> fs_dir fs (temp_name k ident rnd) = None \<and>
     (case fs_dir fs (lock_name k ident) of None \<Rightarrow> True | Some i \<Rightarrow> i < fs_next fs \<and> fs_lock fs i = None)"

lemma names_distinct [simp]:
  "target_name k ident \<noteq> lock_name k ident" "target_name k ident \<noteq> temp_name k ident rnd"
  "lock_name k ident \<noteq> temp_name k ident rnd"
proof -
  have "''.lock'' \<noteq> ''.tmp''" by simp
  then show "lock_name k ident \<noteq> temp_name k ident rnd"
    by (metis names_of_kind(5) [of k ident] names_of_kind(4) [of k ident rnd])
  show "target_name k ident \<noteq> lock_name k ident" using names_of_kind(1,2) by metis
  show "target_name k ident \<noteq> temp_name k ident rnd" using names_of_kind(1,3) by metis
qed

lemmas names_distinct_sym [simp] = names_distinct [symmetric]

lemma save_alone_states:
  assumes "fs_create (lock_name k ident) fs = (f1, i)" "fs_flock who i f1 = Some f2"
    "fs_create (temp_name k ident rnd) f2 = (f3, j)"
    "fs_rename (temp_name k ident rnd) (target_name k ident) (fs_sync j (fs_append j d f3)) = Some f4"
  shows "let (g, sv) = save_alone k who rnd fs ident (Some d);
             f5 = (if k = TaskFiles then fs_sync_dir f4 else fs_remove (temp_name k ident rnd) (fs_sync_dir f4)) in
    g = fs_unlock who i (fs_remove (lock_name k ident) (fs_unlock who i f5)) \<and> sv_pc sv = Finished \<and> sv_err sv = None"
  using assms
  by (cases k) (simp_all add: save_alone_def funpow_14 save_step_at save_start_def goto_pc_def Let_def del: target_name.simps temp_name.simps)

lemma save_alone_works:
  assumes "can_save k who rnd fs ident"
  shows "let (g, sv) = save_alone k who rnd fs ident (Some d) in
    sv_pc sv = Finished \<and> sv_err sv = None \<and> fs_content g (target_name k ident) = Some d \<and>
    fs_dir g (lock_name k ident) = None \<and>
    (\<forall>i. fs_dir g (target_name k ident) = Some i \<longrightarrow> fs_durable g i \<and> fs_lock g i = None) \<and>
    (\<forall>n. n \<noteq> target_name k ident \<longrightarrow> n \<noteq> lock_name k ident \<longrightarrow> fs_dir g n = fs_dir fs n)"
proof -
  let ?t = "temp_name k ident rnd" and ?l = "lock_name k ident" and ?g = "target_name k ident"
  obtain f1 i where c1: "fs_create ?l fs = (f1, i)" by (cases "fs_create ?l fs")
  have f1: "fs_lock f1 i = None" "fs_dir f1 = (fs_dir fs)(?l \<mapsto> i)" "i < fs_next f1"
    using assms c1 by (auto simp: can_save_def fs_create_def Let_def split: option.splits)
  obtain f2 where c2: "fs_flock who i f1 = Some f2" using f1 by (simp add: fs_flock_def)
  then have f2: "fs_dir f2 = fs_dir f1" "fs_lock f2 = (fs_lock f1)(i \<mapsto> who)" "fs_next f2 = fs_next f1"
    using f1(1) by (auto simp: fs_flock_def)
  have none: "fs_dir f2 ?t = None" using assms f1(2) f2(1) by (simp add: can_save_def)
  obtain f3 j where c3: "fs_create ?t f2 = (f3, j)" by (cases "fs_create ?t f2")
  then have f3: "fs_dir f3 = (fs_dir f2)(?t \<mapsto> j)" "fs_lock f3 = (fs_lock f2)(j := None)" "fs_data f3 j = []" "j = fs_next f2"
    using none by (auto simp: fs_create_def Let_def)
  let ?f = "fs_sync j (fs_append j d f3)"
  have f: "fs_dir ?f = fs_dir f3" "fs_lock ?f = fs_lock f3" "fs_data ?f j = d" "fs_durable ?f j"
    using f3(3) by (simp_all add: fs_sync_def fs_append_def)
  let ?f4 = "?f\<lparr>fs_dir := (fs_dir f3)(?t := None, ?g \<mapsto> j)\<rparr>"
  have c4: "fs_rename ?t ?g ?f = Some ?f4"
    using f3(1) f(1) names_distinct(2) [of k ident rnd] by (simp add: fs_rename_def)
  have ij: "i \<noteq> j" using f1(3) f2(3) f3(4) by simp
  show ?thesis
    using save_alone_states [OF c1 c2 c3 c4] f f1 f2 f3 ij none assms
    by (cases k) (auto simp: Let_def fs_content_def fs_unlock_def fs_remove_def fs_sync_dir_def can_save_def fun_eq_iff
      simp del: target_name.simps temp_name.simps split: prod.splits)
qed

end
