(* ===== verification/TaskStoreProps.thy ===== *)
theory TaskStoreProps
  imports TaskStore
begin

text \<open>
  What the stores promise: files are never torn, whatever the interleaving and wherever the machine
  crashes; a saved task is loaded back; and two weaknesses of the locking.
\<close>

section \<open>No torn files\<close>

definition offered :: "store_kind \<Rightarrow> store_event list \<Rightarrow> string \<Rightarrow> string \<Rightarrow> bool" where
  "offered k evs n d \<longleftrightarrow> (\<exists>p ident. EvSave p ident (Some d) \<in> set evs \<and> n = target_name k ident)"

text \<open>A store at rest: what is on disk is what is in the directory, and no process is saving.\<close>

definition at_rest :: "store_kind \<Rightarrow> store_sys \<Rightarrow> bool" where
  "at_rest k s \<longleftrightarrow> files_ok k (\<lambda>_ _. True) (ss_fs s) \<and> fs_disk (ss_fs s) = fs_dir (ss_fs s) \<and> ss_procs s = Map.empty"

lemma at_rest_inv:
  assumes "at_rest k s"
  shows "store_inv k (\<lambda>n d. fs_content (ss_fs s) n = Some d \<or> offered k evs n d) s"
  using assms by (auto simp: at_rest_def store_inv_def files_ok_def fs_content_def)

text \<open>
  C7: Saving is atomic. Take a store at rest and any events: any number of processes running \<open>Save\<close>, each
  interrupted between any two system calls, with any call failing and writes cut short; files being
  deleted and stale temporary files removed under them; and machine crashes that lose every write and
  directory update not yet synced. Whatever is found under a task's name afterwards is complete: it
  is what was there at the start, or all of what some call of \<open>Save\<close> was given for that very name.
\<close>
theorem save_atomic:
  assumes "at_rest k s" "fs_content (ss_fs (store_run k s evs)) n = Some d" "path_ext n = target_ext k"
  shows "fs_content (ss_fs s) n = Some d \<or> offered k evs n d"
proof -
  let ?A = "\<lambda>n d. fs_content (ss_fs s) n = Some d \<or> offered k evs n d"
  have "store_inv k ?A (store_run k s evs)"
    by (rule store_inv_run [OF at_rest_inv [OF assms(1)]]) (auto simp: offers_ok_def offered_def)
  then show ?thesis using assms(2,3)
    by (auto simp: store_inv_def files_ok_def fs_content_def is_target_def)
qed

definition stored_once :: store_sys where
  "stored_once = \<lparr>ss_fs = empty_fs\<lparr>fs_dir := [''t.json'' \<mapsto> 0], fs_disk := [''t.json'' \<mapsto> 0],
     fs_data := (\<lambda>_. [])(0 := ''old''), fs_durable := (\<lambda>_. False)(0 := True), fs_next := 1\<rparr>,
     ss_procs = Map.empty, ss_used = {}\<rparr>"

text \<open>The machine dies after the rename, before the directory is synced, and comes back with the old file.\<close>

lemma save_atomic_witness:
  "let s = store_run TaskFiles stored_once
       (EvSave 1 ''t'' (Some ''new'') # replicate 10 (EvStep 1 Works ''x'') @ [EvCrash False (\<lambda>_. [])]) in
     fs_content (ss_fs s) ''t.json'' = Some ''old'' \<and>
     (fs_content (ss_fs stored_once) ''t.json'' = Some ''old'' \<or>
      offered TaskFiles (EvSave 1 ''t'' (Some ''new'') # replicate 10 (EvStep 1 Works ''x'') @ [EvCrash False (\<lambda>_. [])])
        ''t.json'' ''old'')"
proof -
  let ?e = "EvSave 1 ''t'' (Some ''new'') # replicate 10 (EvStep 1 Works ''x'') @ [EvCrash False (\<lambda>_. [])]"
  have rest: "at_rest TaskFiles stored_once"
    by (auto simp: at_rest_def files_ok_def stored_once_def empty_fs_def split: if_splits)
  have content: "fs_content (ss_fs (store_run TaskFiles stored_once ?e)) ''t.json'' = Some ''old''" by code_simp
  have ext: "path_ext ''t.json'' = target_ext TaskFiles" using path_ext_known(1) [of "''t''"] by simp
  show ?thesis using save_atomic [OF rest content ext] content by (simp only: Let_def)
qed

section \<open>Every call of Save returns\<close>

fun save_rank :: "save_pc \<Rightarrow> nat" where
  "save_rank EnsureDir = 16" | "save_rank MkdirAgain = 15" | "save_rank Marshal = 14" | "save_rank OpenLock = 13"
| "save_rank TakeLock = 12" | "save_rank CreateTemp = 11" | "save_rank WriteTemp = 10" | "save_rank SyncTemp = 9"
| "save_rank CloseTemp = 8" | "save_rank RenameTemp = 7" | "save_rank SyncDir = 6" | "save_rank AbandonClose = 5"
| "save_rank RemoveTemp = 4" | "save_rank DropLock = 3" | "save_rank RemoveLock = 2" | "save_rank CloseLock = 1"
| "save_rank Finished = 0"

lemma save_step_rank:
  "sv_pc sv \<noteq> Finished \<Longrightarrow> save_rank (sv_pc (snd (save_step k who out rnd (fs, sv)))) < save_rank (sv_pc sv)"
  by (cases "sv_pc sv"; cases out) (simp_all add: save_step_at split: option.split)

section \<open>What was saved is loaded\<close>

lemma load_raw_works:
  assumes "fs_content fs n = Some d" "\<And>i. fs_dir fs n = Some i \<Longrightarrow> fs_lock fs i = None"
  shows "\<exists>fs'. load_raw who True True n fs = (fs', Inr d)"
  using assms by (auto simp: load_raw_def load_open_def load_lock_def load_finish_def fs_flock_def fs_content_def)

text \<open>
  When nobody else is saving the same task, a call of \<open>Save\<close> whose system calls succeed returns no
  error, leaves every other task's file and no lock file behind, and \<open>Load\<close> then gives back the task
  as it was saved (\<open>GetSafe\<close> drops the context and the cancel function), for every codec that decodes
  what it encoded.
\<close>
theorem task_save_load:
  assumes "can_save TaskFiles who rnd fs (t_id t)" "enc (get_safe t) = Some d" "dec d = Some (get_safe t)"
  shows "let (fs', err) = task_save enc who rnd fs t in
    err = None \<and> snd (task_load dec reader True True fs' (t_id t)) = Inr (get_safe t) \<and>
    fs_dir fs' (lock_name TaskFiles (t_id t)) = None \<and>
    (\<forall>ident. ident \<noteq> t_id t \<longrightarrow> fs_dir fs' (target_name TaskFiles ident) = fs_dir fs (target_name TaskFiles ident))"
proof -
  obtain g sv where r: "save_alone TaskFiles who rnd fs (t_id t) (Some d) = (g, sv)"
    by (cases "save_alone TaskFiles who rnd fs (t_id t) (Some d)")
  note w = save_alone_works [OF assms(1), of d, unfolded r, simplified Let_def prod.case]
  have "target_name TaskFiles ident \<noteq> lock_name TaskFiles (t_id t)" for ident
    using names_of_kind(1,2) by metis
  moreover have "\<exists>fs'. load_raw reader True True (target_name TaskFiles (t_id t)) g = (fs', Inr d)"
    by (rule load_raw_works) (use w in auto)
  ultimately show ?thesis using w assms(2,3) r
    by (auto simp: task_save_def task_load_def decode_with_def)
qed

lemma task_save_load_witness:
  "let t = new_task ''a1'' 5 ''http://h/f'' ''f''; enc = (\<lambda>t. Some (t_id t @ ''#''));
       dec = (\<lambda>d. if d = ''a1#'' then Some (get_safe t) else None);
       (fs', err) = task_save enc 7 ''r'' empty_fs t in
     err = None \<and> snd (task_load dec 9 True True fs' ''a1'') = Inr (get_safe t)"
proof -
  let ?t = "new_task ''a1'' 5 ''http://h/f'' ''f''" and ?enc = "\<lambda>t. Some (t_id t @ ''#'')"
  let ?dec = "\<lambda>d. if d = ''a1#'' then Some (get_safe ?t) else None"
  have i: "t_id ?t = ''a1''" "t_id (get_safe ?t) = ''a1''" by (simp_all add: new_task_def get_safe_def)
  show ?thesis
    using task_save_load [of 7 "''r''" empty_fs ?t ?enc "''a1#''" ?dec 9]
    by (auto simp: i can_save_def empty_fs_def Let_def split: prod.splits)
qed

text \<open>The same for control files, whose time stamps are set on the way.\<close>

theorem control_save_load:
  assumes "can_save ControlFiles who rnd fs ident" "now \<noteq> zero_time"
    "enc (control_stamp now cf) = Some d" "dec d = Some (control_stamp now cf)"
  shows "let (fs', cf', err) = control_save enc who rnd now fs ident cf in
    err = None \<and> snd (control_load dec reader True True later fs' ident) = Inr cf' \<and> cf_updated cf' = now \<and>
    cf_created cf' = (if cf_created cf = zero_time then now else cf_created cf)"
proof -
  let ?cf = "control_stamp now cf"
  obtain g sv where r: "save_alone ControlFiles who rnd fs ident (Some d) = (g, sv)"
    by (cases "save_alone ControlFiles who rnd fs ident (Some d)")
  note w = save_alone_works [OF assms(1), of d, unfolded r, simplified Let_def prod.case]
  have "\<exists>fs'. load_raw reader True True (target_name ControlFiles ident) g = (fs', Inr d)"
    by (rule load_raw_works) (use w in auto)
  moreover have "cf_created ?cf \<noteq> zero_time" "cf_updated ?cf = now"
    "cf_created ?cf = (if cf_created cf = zero_time then now else cf_created cf)"
    using assms(2) by (simp_all add: control_stamp_def Let_def)
  ultimately show ?thesis using w assms(2-4) r
    by (auto simp: control_save_def control_load_def decode_with_def control_unmarshal_def Let_def)
qed

section \<open>The whole directory\<close>

text \<open>What \<open>LoadAll\<close> makes of one entry.\<close>

definition entry_task :: "(string \<Rightarrow> task option) \<Rightarrow> (string \<Rightarrow> bool) \<Rightarrow> fsys \<Rightarrow> string \<times> bool \<Rightarrow> task option" where
  "entry_task dec readable fs e =
     (if snd e \<or> path_ext (fst e) \<noteq> ''.json'' \<or> \<not> readable (fst e) then None
      else Option.bind (fs_content fs (fst e)) dec)"

lemma load_all_loop_eq:
  "load_all_loop dec removable readable es fs ts =
     (fs\<lparr>fs_dir := (\<lambda>n. if (n, False) \<in> set es \<and> path_ext n = ''.tmp'' \<and> removable n then None else fs_dir fs n)\<rparr>,
      ts @ List.map_filter (entry_task dec readable fs) es)"
proof (induction es arbitrary: fs ts)
  case Nil
  then show ?case by simp
next
  case (Cons e es)
  obtain n is_dir where e: "e = (n, is_dir)" by (cases e)
  show ?case
  proof (cases "\<not> is_dir \<and> path_ext n = ''.tmp''")
    case True
    then have none: "entry_task dec readable fs e = None" by (simp add: e entry_task_def)
    have same: "entry_task dec readable (fs_remove n fs) = entry_task dec readable fs"
      using True by (auto simp: fun_eq_iff entry_task_def fs_content_def fs_remove_def)
    have "fs_remove n fs\<lparr>fs_dir := D\<rparr> = fs\<lparr>fs_dir := D\<rparr>" for D by (simp add: fs_remove_def)
    then show ?thesis using True none
      by (auto simp: e Cons.IH List.map_filter_simps same intro!: fsys.fold_congs) (auto simp: fs_remove_def)
  next
    case False
    then have "load_all_loop dec removable readable (e # es) fs ts =
        load_all_loop dec removable readable es fs (ts @ (case entry_task dec readable fs e of None \<Rightarrow> [] | Some t \<Rightarrow> [t]))"
      by (auto simp: e entry_task_def split: option.split)
    also have "\<dots> = (fs\<lparr>fs_dir := (\<lambda>n. if (n, False) \<in> set (e # es) \<and> path_ext n = ''.tmp'' \<and> removable n then None else fs_dir fs n)\<rparr>,
        ts @ List.map_filter (entry_task dec readable fs) (e # es))"
      using False by (auto simp: e Cons.IH List.map_filter_simps split: option.split intro!: fsys.fold_congs)
    finally show ?thesis .
  qed
qed

text \<open>
  \<open>LoadAll\<close> returns the decoded content of every readable task file of the directory, in directory
  order, silently leaving out those that do not decode; it removes exactly the stale temporary files
  it may remove, and touches nothing else.
\<close>
theorem task_load_all_spec:
  "task_load_all dec removable readable (Entries es) fs =
     (fs\<lparr>fs_dir := (\<lambda>n. if (n, False) \<in> set es \<and> path_ext n = ''.tmp'' \<and> removable n then None else fs_dir fs n)\<rparr>,
      Inr (List.map_filter (entry_task dec readable fs) es))"
  by (simp add: task_load_all_def load_all_loop_eq)

section \<open>Two weaknesses of the locks\<close>

text \<open>
  The lock file does not exclude anybody. \<open>Save\<close> removes it on every path, also when it failed to
  get the lock; the next caller then creates and locks a new file of the same name. Three calls for
  one task, the second refused, put the first and the third in the critical section together.
\<close>
theorem lock_file_not_exclusive:
  "\<exists>evs p q sv sw. let s = store_run k \<lparr>ss_fs = empty_fs, ss_procs = Map.empty, ss_used = {}\<rparr> evs in
     p \<noteq> q \<and> ss_procs s p = Some sv \<and> ss_procs s q = Some sw \<and> sv_id sv = sv_id sw \<and>
     in_critical sv \<and> in_critical sw \<and>
     fs_lock (ss_fs s) (sv_lock_ino sv) = Some p \<and> fs_lock (ss_fs s) (sv_lock_ino sw) = Some q"
proof -
  let ?n = "if k = TaskFiles then 5 else 4 :: nat"
  let ?evs = "EvSave 1 ''t'' (Some ''a'') # replicate ?n (EvStep 1 Works []) @
    EvSave 2 ''t'' (Some ''b'') # replicate (?n + 1) (EvStep 2 Works []) @
    EvSave 3 ''t'' (Some ''c'') # replicate ?n (EvStep 3 Works [])"
  let ?s = "store_run k \<lparr>ss_fs = empty_fs, ss_procs = Map.empty, ss_used = {}\<rparr> ?evs"
  have "case (ss_procs ?s 1, ss_procs ?s 3) of
      (Some sv, Some sw) \<Rightarrow> sv_id sv = sv_id sw \<and> in_critical sv \<and> in_critical sw \<and>
        fs_lock (ss_fs ?s) (sv_lock_ino sv) = Some 1 \<and> fs_lock (ss_fs ?s) (sv_lock_ino sw) = Some 3
    | _ \<Rightarrow> False"
    by (cases k; hypsubst; code_simp)
  then obtain sv sw where "ss_procs ?s 1 = Some sv" "ss_procs ?s 3 = Some sw" "sv_id sv = sv_id sw"
    "in_critical sv" "in_critical sw" "fs_lock (ss_fs ?s) (sv_lock_ino sv) = Some 1"
    "fs_lock (ss_fs ?s) (sv_lock_ino sw) = Some 3"
    by (auto split: option.splits)
  then show ?thesis
    by (intro exI [of _ ?evs] exI [of _ "1 :: nat"] exI [of _ "3 :: nat"] exI [of _ sv] exI [of _ sw])
      (simp only: Let_def, simp)
qed

text \<open>
  Readers exclude each other. \<open>Load\<close> takes the read side of the store's mutex, so two calls may
  overlap, but then asks for an exclusive lock without waiting: while the first holds it, the second
  fails on a task file that is intact.
\<close>
theorem concurrent_loads_fail:
  assumes "fs_content fs (target_name TaskFiles ident) = Some d" "dec d = Some t" "first \<noteq> second"
    "load_open True fs (target_name TaskFiles ident) = Inr i" "load_lock first i fs = Inr fs1"
  shows "snd (task_load dec second True True fs1 ident) = Inl LockFailed \<and>
    decode_with dec (snd (load_finish first i True fs1)) = Inr t"
  using assms
  by (auto simp: task_load_def load_raw_def load_open_def load_lock_def load_finish_def decode_with_def fs_flock_def
      fs_content_def split: option.splits if_splits)

lemma concurrent_loads_fail_witness:
  "let fs = ss_fs stored_once; fs1 = the (fs_flock 1 0 fs); t = new_task ''t'' 5 ''u'' ''f'' in
     snd (task_load (\<lambda>_. Some t) 2 True True fs1 ''t'') = Inl LockFailed \<and>
     decode_with (\<lambda>_. Some t) (snd (load_finish 1 0 True fs1)) = Inr t"
proof -
  let ?fs = "ss_fs stored_once" and ?t = "new_task ''t'' 5 ''u'' ''f''"
  have f: "fs_content ?fs (target_name TaskFiles ''t'') = Some ''old''" "load_open True ?fs (target_name TaskFiles ''t'') = Inr 0"
    "load_lock 1 0 ?fs = Inr (the (fs_flock 1 0 ?fs))"
    by (simp_all add: stored_once_def empty_fs_def fs_content_def load_open_def load_lock_def fs_flock_def)
  show ?thesis
    using concurrent_loads_fail [OF f(1) _ _ f(2,3), of "\<lambda>_. Some ?t" ?t 2] by (simp add: Let_def)
qed

end
