(* ===== verification/Checksum.thy ===== *)
theory Checksum
  imports TaskModel
begin

text \<open>
  Verification of a finished download (\<open>internal/task/checksum.go\<close>) and the free-space check
  (\<open>diskspace.go\<close>, \<open>diskspace_unix.go\<close>). The hash functions of the standard library are the argument
  \<open>hash\<close>, by the name the code selects them with; \<open>files\<close> is what opening and reading a path gives.
\<close>

datatype file_read = CannotOpen | CannotRead | FileBytes "8 word list"

datatype checksum_error = CkOpen | CkUnsupported string | CkRead | CkHalfSet

definition checksum_names :: "string list" where
  "checksum_names = [''md5'', ''sha1'', ''sha256'', ''crc32'']"

definition compute_checksum :: "(string \<Rightarrow> 8 word list \<Rightarrow> 8 word list) \<Rightarrow> (string \<Rightarrow> file_read) \<Rightarrow> string \<Rightarrow> string \<Rightarrow>
    checksum_error + string" where
  "compute_checksum hash files path cktype =
     (case files path of
        CannotOpen \<Rightarrow> Inl CkOpen
      | r \<Rightarrow> if to_lower cktype \<notin> set checksum_names then Inl (CkUnsupported cktype)
          else (case r of
              FileBytes bs \<Rightarrow> Inr (hex_encode (hash (to_lower cktype) bs))
            | _ \<Rightarrow> Inl CkRead))"

definition verify_checksum :: "(string \<Rightarrow> 8 word list \<Rightarrow> 8 word list) \<Rightarrow> (string \<Rightarrow> file_read) \<Rightarrow> string \<Rightarrow> string \<Rightarrow> string \<Rightarrow>
    checksum_error + bool" where
  "verify_checksum hash files path cktype expected =
     (case compute_checksum hash files path cktype of
        Inl e \<Rightarrow> Inl e
      | Inr actual \<Rightarrow> Inr (equal_fold actual expected))"

definition verify_download :: "(string \<Rightarrow> 8 word list \<Rightarrow> 8 word list) \<Rightarrow> (string \<Rightarrow> file_read) \<Rightarrow> task \<Rightarrow> checksum_error + bool" where
  "verify_download hash files t =
     (if t_cktype t = [] \<and> t_ckvalue t = [] then Inr True
      else if t_cktype t = [] \<or> t_ckvalue t = [] then Inl CkHalfSet
      else verify_checksum hash files (t_output t) (t_cktype t) (t_ckvalue t))"

definition set_checksum :: "instant \<Rightarrow> string \<Rightarrow> string \<Rightarrow> task \<Rightarrow> task" where
  "set_checksum now cktype ckvalue t =
     t\<lparr>t_cktype := to_lower cktype, t_ckvalue := ckvalue, t_updated := now\<rparr>"

section \<open>Free space\<close>

text \<open>
  \<open>statfs\<close> gives the free blocks (unsigned 64 bit) and the block size; the product is taken in \<open>int64\<close>.
\<close>

definition get_available_space :: "(int \<times> int) option \<Rightarrow> int option" where
  "get_available_space statfs =
     (case statfs of None \<Rightarrow> None | Some (bavail, bsize) \<Rightarrow> Some (i64 (i64 bavail * i64 bsize)))"

datatype space_error = StatFailed | Insufficient int int

definition check_disk_space :: "(int \<times> int) option \<Rightarrow> int \<Rightarrow> space_error option" where
  "check_disk_space statfs required =
     (case get_available_space statfs of
        None \<Rightarrow> Some StatFailed
      | Some available \<Rightarrow> if available < required then Some (Insufficient required available) else None)"

section \<open>Hexadecimal digests\<close>

lemma hex_digit_lower: "n < 16 \<Longrightarrow> to_lower_char (hex_digit n) = hex_digit n"
proof -
  have "\<forall>n \<in> set [0..<16]. to_lower_char (hex_digit n) = hex_digit n" by code_simp
  then show "n < 16 \<Longrightarrow> to_lower_char (hex_digit n) = hex_digit n" by simp
qed

lemma hex_digit_inj: "m < 16 \<Longrightarrow> n < 16 \<Longrightarrow> hex_digit m = hex_digit n \<Longrightarrow> m = n"
proof -
  have "\<forall>m \<in> set [0..<16]. \<forall>n \<in> set [0..<16]. hex_digit m = hex_digit n \<longrightarrow> m = n" by code_simp
  then show "m < 16 \<Longrightarrow> n < 16 \<Longrightarrow> hex_digit m = hex_digit n \<Longrightarrow> m = n" by simp
qed

lemma nibbles_less: "unat (b :: 8 word) div 16 < 16" "unat b mod 16 < 16"
  using unsigned_less [of b, where 'a = nat] by (simp_all add: less_mult_imp_div_less)

lemma hex_byte_inj: "hex_byte a = hex_byte b \<Longrightarrow> a = b"
proof -
  assume "hex_byte a = hex_byte b"
  then have "unat a div 16 = unat b div 16" "unat a mod 16 = unat b mod 16"
    using hex_digit_inj nibbles_less by (auto simp: hex_byte_def)
  then have "unat a = unat b" by (metis div_mult_mod_eq)
  then show "a = b" by (metis word_unat_eq_iff)
qed

lemma hex_encode_inj: "hex_encode xs = hex_encode ys \<Longrightarrow> xs = ys"
proof (induction xs arbitrary: ys)
  case Nil
  then show ?case by (cases ys) (simp_all add: hex_encode_def hex_byte_def)
next
  case (Cons x xs)
  then obtain y ys' where ys: "ys = y # ys'" by (cases ys) (simp_all add: hex_encode_def hex_byte_def)
  have "hex_byte x = hex_byte y" "hex_encode xs = hex_encode ys'"
    using Cons.prems by (simp_all add: ys hex_encode_def hex_byte_def)
  then show ?case using Cons.IH hex_byte_inj by (simp add: ys)
qed

lemma hex_encode_lower: "to_lower (hex_encode bs) = hex_encode bs"
  using nibbles_less hex_digit_lower
  by (induction bs) (simp_all add: hex_encode_def hex_byte_def to_lower_def)

section \<open>What verification decides\<close>

text \<open>
  A task whose checksum was set from the digest \<open>want\<close>, written in hexadecimal with any mixture of
  upper and lower case, passes verification exactly when the file on disk has that digest; the name
  of the algorithm may be written in any case too. A file that cannot be opened or read is an error
  and not a mismatch, and so is an algorithm the code does not know.
\<close>
theorem verify_download_exact:
  assumes "equal_fold given (hex_encode want)" "want \<noteq> []" "to_lower cktype \<noteq> []"
  shows "verify_download hash files (set_checksum now cktype given t) =
    (case files (t_output t) of
       CannotOpen \<Rightarrow> Inl CkOpen
     | r \<Rightarrow> if to_lower cktype \<notin> set checksum_names then Inl (CkUnsupported (to_lower cktype))
         else (case r of FileBytes bs \<Rightarrow> Inr (hash (to_lower cktype) bs = want) | _ \<Rightarrow> Inl CkRead))"
proof -
  have given: "to_lower given = hex_encode want" using assms(1) by (simp add: equal_fold_def hex_encode_lower)
  have "given \<noteq> []" using given assms(2) by (cases want) (auto simp: to_lower_def hex_encode_def hex_byte_def)
  moreover have "equal_fold (hex_encode d) given \<longleftrightarrow> d = want" for d
    using hex_encode_inj by (auto simp: equal_fold_def hex_encode_lower given)
  ultimately show ?thesis using assms(3)
    by (simp add: verify_download_def set_checksum_def verify_checksum_def compute_checksum_def split: file_read.split)
qed

lemma verify_download_exact_witness:
  "let t = set_checksum 9 ''CRC32'' ''00Ff'' (new_task ''i'' 1 ''u'' ''f'') in
     verify_download (\<lambda>_ bs. take 2 bs) (\<lambda>_. FileBytes [0, 255, 7]) t = Inr True \<and>
     verify_download (\<lambda>_ bs. take 2 bs) (\<lambda>_. FileBytes [0, 254, 7]) t = Inr False"
proof -
  have "equal_fold ''00Ff'' (hex_encode [0, 255])" "to_lower ''CRC32'' = ''crc32''" by (code_simp, code_simp)
  then show ?thesis
    using verify_download_exact [of "''00Ff''" "[0, 255]" "''CRC32''" "\<lambda>_ bs. take 2 bs" _ 9 "new_task ''i'' 1 ''u'' ''f''"]
    by (simp add: checksum_names_def)
qed

end
