(* ===== verification/Netrc.thy ===== *)
theory Netrc
  imports GoString
begin

text \<open>
  The credentials file of \<open>internal/downloader/netrc.go\<close>: reading it line by line, and the lookup of a host.
  The entry that is being read is shared with \<open>Default\<close> when it was opened by the \<open>default\<close> keyword, so the
  parser keeps a flag instead of a second copy.
\<close>

record netrc_entry =
  ne_machine :: string
  ne_login :: string
  ne_password :: string
  ne_account :: string

record netrc =
  nr_entries :: "netrc_entry list"
  nr_default :: "netrc_entry option"

definition empty_entry :: netrc_entry where
  "empty_entry = \<lparr>ne_machine = [], ne_login = [], ne_password = [], ne_account = []\<rparr>"

record netrc_parser =
  np_entries :: "netrc_entry list"
  np_current :: "netrc_entry option"
  np_is_default :: bool  \<comment> \<open>\<open>Default\<close> points to the current entry\<close>
  np_default :: "netrc_entry option"  \<comment> \<open>an earlier \<open>default\<close> entry\<close>

definition netrc_start :: netrc_parser where
  "netrc_start = \<lparr>np_entries = [], np_current = None, np_is_default = False, np_default = None\<rparr>"

text \<open>The current entry is complete: it joins the list, and a default keeps its value.\<close>

definition push_current :: "netrc_parser \<Rightarrow> netrc_parser" where
  "push_current p =
     (case np_current p of
        None \<Rightarrow> p
      | Some e \<Rightarrow> p\<lparr>np_entries := np_entries p @ [e],
                    np_default := (if np_is_default p then Some e else np_default p)\<rparr>)"

definition set_current :: "(netrc_entry \<Rightarrow> netrc_entry) \<Rightarrow> netrc_parser \<Rightarrow> netrc_parser" where
  "set_current f p = p\<lparr>np_current := map_option f (np_current p)\<rparr>"

text \<open>The keywords that set a field of the current entry.\<close>

definition netrc_field :: "string \<Rightarrow> (string \<Rightarrow> netrc_entry \<Rightarrow> netrc_entry) option" where
  "netrc_field t =
     (if t = ''login'' then Some (\<lambda>v e. e\<lparr>ne_login := v\<rparr>)
      else if t = ''password'' then Some (\<lambda>v e. e\<lparr>ne_password := v\<rparr>)
      else if t = ''account'' then Some (\<lambda>v e. e\<lparr>ne_account := v\<rparr>)
      else None)"

fun netrc_tokens :: "string list \<Rightarrow> netrc_parser \<Rightarrow> netrc_parser" where
  "netrc_tokens [] p = p"
| "netrc_tokens (t # ts) p =
     (if t = ''machine'' then
        (let p1 = (push_current p)\<lparr>np_current := Some empty_entry, np_is_default := False\<rparr> in
         case ts of
           [] \<Rightarrow> p1
         | m # ts' \<Rightarrow> netrc_tokens ts' (set_current (\<lambda>e. e\<lparr>ne_machine := m\<rparr>) p1))
      else if t = ''default'' then
        netrc_tokens ts ((push_current p)\<lparr>np_current := Some empty_entry, np_is_default := True\<rparr>)
      else case netrc_field t of
          None \<Rightarrow> netrc_tokens ts p
        | Some f \<Rightarrow> (case ts of
              [] \<Rightarrow> p
            | v # ts' \<Rightarrow>
                if np_current p \<noteq> None then netrc_tokens ts' (set_current (f v) p) else netrc_tokens ts p))"

text \<open>
  \<open>bufio.Scanner\<close>: lines without their line feed and carriage return; a line that does not fit its
  buffer of 64 KiB stops the scan with an error.
\<close>

definition scan_lines :: "string \<Rightarrow> string list" where
  "scan_lines s =
     (let ls = split_on (CHR 0x0A) s; ls1 = (if last ls = [] then butlast ls else ls)
      in map (\<lambda>l. if l \<noteq> [] \<and> last l = CHR 0x0D then butlast l else l) ls1)"

definition line_fits :: "string \<Rightarrow> bool" where
  "line_fits l \<longleftrightarrow> length l < 64 * 1024"

definition netrc_finish :: "netrc_parser \<Rightarrow> netrc" where
  "netrc_finish p =
     \<lparr>nr_entries = (case np_current p of
          None \<Rightarrow> np_entries p
        | Some e \<Rightarrow> if ne_machine e \<noteq> [] then np_entries p @ [e] else np_entries p),
      nr_default = (if np_is_default p then np_current p else np_default p)\<rparr>"

definition parse_netrc :: "string \<Rightarrow> netrc \<times> bool" where
  "parse_netrc s =
     (let ls = scan_lines s; ok = takeWhile line_fits ls in
      (netrc_finish (foldl (\<lambda>p l. netrc_tokens (GoString.fields l) p) netrc_start ok), list_all line_fits ls))"

text \<open>\<open>LoadNetrc\<close>: \<open>home\<close> is the user's directory, \<open>files\<close> the readable files; \<open>None\<close> is an error.\<close>

definition load_netrc :: "string option \<Rightarrow> (string \<rightharpoonup> string) \<Rightarrow> string \<Rightarrow> netrc option" where
  "load_netrc home files path =
     (let p = (if path \<noteq> [] then path else case home of
            None \<Rightarrow> path
          | Some h \<Rightarrow> if files (h @ ''/.netrc'') = None then h @ ''/_netrc'' else h @ ''/.netrc'')
      in case files p of
          None \<Rightarrow> None
        | Some s \<Rightarrow> let (n, ok) = parse_netrc s in if ok then Some n else None)"

definition find_entry :: "netrc \<Rightarrow> string \<Rightarrow> netrc_entry option" where
  "find_entry n machine =
     (case find (\<lambda>e. ne_machine e = machine) (nr_entries n) of Some e \<Rightarrow> Some e | None \<Rightarrow> nr_default n)"

definition get_credentials :: "netrc \<Rightarrow> string \<Rightarrow> string \<times> string" where
  "get_credentials n host =
     (case find_entry n host of None \<Rightarrow> ([], []) | Some e \<Rightarrow> (ne_login e, ne_password e))"

section \<open>Reading back what was written\<close>

definition token :: "string \<Rightarrow> bool" where
  "token t \<longleftrightarrow> t \<noteq> [] \<and> list_all (\<lambda>c. \<not> is_space c) t"

definition entry_fields :: "netrc_entry \<Rightarrow> string list" where
  "entry_fields e = [''login'', ne_login e, ''password'', ne_password e, ''account'', ne_account e]"

definition join_blank :: "string list \<Rightarrow> string" where
  "join_blank ts = concat (map (\<lambda>t. t @ '' '') ts)"

text \<open>One line per entry, as the manual pages show it, and the default entry last.\<close>

definition print_netrc :: "netrc_entry list \<Rightarrow> netrc_entry option \<Rightarrow> string" where
  "print_netrc es d =
     concat (map (\<lambda>e. join_blank (''machine'' # ne_machine e # entry_fields e) @ [CHR 0x0A]) es) @
     (case d of None \<Rightarrow> [] | Some e \<Rightarrow> join_blank (''default'' # entry_fields e) @ [CHR 0x0A])"

definition entry_ok :: "netrc_entry \<Rightarrow> bool" where
  "entry_ok e \<longleftrightarrow> token (ne_login e) \<and> token (ne_password e) \<and> token (ne_account e) \<and>
     length (ne_machine e) + length (ne_login e) + length (ne_password e) + length (ne_account e) < 60000"

lemma fields_from_token:
  "list_all (\<lambda>c. \<not> is_space c) t \<Longrightarrow> w @ t \<noteq> [] \<Longrightarrow> fields_from w (t @ CHR '' '' # s) = (w @ t) # fields_from [] s"
  by (induction t arbitrary: w) (auto simp: is_space_def Let_def)

lemma fields_join: "list_all token ts \<Longrightarrow> GoString.fields (join_blank ts) = ts"
  unfolding GoString.fields_def join_blank_def
  by (induction ts) (simp_all add: token_def fields_from_token)

lemma join_no_newline: "list_all token ts \<Longrightarrow> CHR 0x0A \<notin> set (join_blank ts)"
proof -
  have "is_space (CHR 0x0A)" by code_simp
  then show "list_all token ts \<Longrightarrow> CHR 0x0A \<notin> set (join_blank ts)"
    by (auto simp: join_blank_def token_def list_all_iff)
qed

lemma split_on_line:
  "d \<notin> set l \<Longrightarrow> split_on d (l @ d # s) = l # split_on d s"
  by (induction l) auto

lemma split_on_lines:
  "\<forall>l \<in> set ls. d \<notin> set l \<Longrightarrow> split_on d (concat (map (\<lambda>l. l @ [d]) ls)) = ls @ [[]]"
  by (induction ls) (simp_all add: split_on_line)

text \<open>The printed lines, before joining.\<close>

definition netrc_lines :: "netrc_entry list \<Rightarrow> netrc_entry option \<Rightarrow> string list list" where
  "netrc_lines es d = map (\<lambda>e. ''machine'' # ne_machine e # entry_fields e) es @
     (case d of None \<Rightarrow> [] | Some e \<Rightarrow> [''default'' # entry_fields e])"

lemma print_netrc_lines: "print_netrc es d = concat (map (\<lambda>l. l @ [CHR 0x0A]) (map join_blank (netrc_lines es d)))"
  by (simp add: print_netrc_def netrc_lines_def comp_def split: option.split)

lemma scan_printed:
  assumes "\<forall>ts \<in> set tss. ts \<noteq> [] \<and> list_all token ts"
  shows "scan_lines (concat (map (\<lambda>l. l @ [CHR 0x0A]) (map join_blank tss))) = map join_blank tss"
proof -
  have nl: "\<forall>l \<in> set (map join_blank tss). CHR 0x0A \<notin> set l" using assms join_no_newline by auto
  have "(if l \<noteq> [] \<and> last l = CHR 0x0D then butlast l else l) = l" if l: "l \<in> set (map join_blank tss)" for l
  proof -
    obtain ts where ts: "ts \<in> set tss" "l = join_blank ts" using l by auto
    then have "ts \<noteq> []" using assms by auto
    then have "last l = CHR '' ''" using ts(2) by (induction ts rule: rev_induct) (simp_all add: join_blank_def)
    then show ?thesis by simp
  qed
  then have "map (\<lambda>l. if l \<noteq> [] \<and> last l = CHR 0x0D then butlast l else l) (map join_blank tss) = map join_blank tss"
    by (intro map_idI)
  then show ?thesis unfolding scan_lines_def Let_def split_on_lines [OF nl] by simp
qed


lemma token_keywords: "token ''machine''" "token ''default''" "token ''login''" "token ''password''" "token ''account''"
  by (simp_all add: token_def is_space_def)

lemma tokens_machine:
  "netrc_tokens (''machine'' # ne_machine e # entry_fields e) p =
     (push_current p)\<lparr>np_current := Some e, np_is_default := False\<rparr>"
  by (simp add: entry_fields_def netrc_field_def set_current_def empty_entry_def Let_def)

lemma tokens_default:
  assumes "ne_machine e = []"
  shows "netrc_tokens (''default'' # entry_fields e) p = (push_current p)\<lparr>np_current := Some e, np_is_default := True\<rparr>"
  using assms by (simp add: entry_fields_def netrc_field_def set_current_def empty_entry_def Let_def)

lemma parse_entries:
  "foldl (\<lambda>p ts. netrc_tokens ts p) netrc_start (map (\<lambda>e. ''machine'' # ne_machine e # entry_fields e) es) =
     \<lparr>np_entries = butlast es, np_current = (if es = [] then None else Some (last es)), np_is_default = False, np_default = None\<rparr>"
proof (induction es rule: rev_induct)
  case Nil
  then show ?case by (simp add: netrc_start_def)
next
  case (snoc e es)
  then show ?case by (simp add: tokens_machine push_current_def del: netrc_tokens.simps)
qed

lemma parse_lines:
  assumes "\<forall>e \<in> set es. ne_machine e \<noteq> []" "\<forall>e. d = Some e \<longrightarrow> ne_machine e = []"
  shows "netrc_finish (foldl (\<lambda>p ts. netrc_tokens ts p) netrc_start (netrc_lines es d)) = \<lparr>nr_entries = es, nr_default = d\<rparr>"
proof (cases d)
  case None
  have "es \<noteq> [] \<Longrightarrow> ne_machine (last es) \<noteq> []" using assms(1) last_in_set by blast
  then show ?thesis
    unfolding None netrc_lines_def by (simp add: parse_entries netrc_finish_def)
next
  case (Some e)
  then show ?thesis
    unfolding netrc_lines_def using assms(2)
    by (simp add: parse_entries tokens_default netrc_finish_def push_current_def del: netrc_tokens.simps)
qed

lemma netrc_lines_tokens:
  assumes "\<forall>e \<in> set es. token (ne_machine e) \<and> entry_ok e" "\<forall>e. d = Some e \<longrightarrow> entry_ok e"
  shows "\<forall>ts \<in> set (netrc_lines es d). ts \<noteq> [] \<and> list_all token ts \<and> line_fits (join_blank ts)"
  using assms token_keywords
  by (auto simp: netrc_lines_def entry_fields_def entry_ok_def line_fits_def join_blank_def split: option.splits)

text \<open>
  A netrc file written with one line per machine and the default entry last is read back exactly:
  the same entries in the same order and the same default. A host then gets the credentials of the
  first entry with its very name, and otherwise those of the default entry.
\<close>
theorem netrc_roundtrip:
  assumes "\<forall>e \<in> set es. token (ne_machine e) \<and> entry_ok e"
    "\<forall>e. d = Some e \<longrightarrow> entry_ok e \<and> ne_machine e = []"
  shows "parse_netrc (print_netrc es d) = (\<lparr>nr_entries = es, nr_default = d\<rparr>, True)"
proof -
  have ok: "\<forall>ts \<in> set (netrc_lines es d). ts \<noteq> [] \<and> list_all token ts \<and> line_fits (join_blank ts)"
    by (rule netrc_lines_tokens) (use assms in auto)
  have scan: "scan_lines (print_netrc es d) = map join_blank (netrc_lines es d)"
    unfolding print_netrc_lines by (rule scan_printed) (use ok in auto)
  have fit: "takeWhile line_fits (map join_blank (netrc_lines es d)) = map join_blank (netrc_lines es d)"
    using ok by (simp add: takeWhile_eq_all_conv)
  have "foldl (\<lambda>p l. netrc_tokens (GoString.fields l) p) netrc_start (map join_blank (netrc_lines es d)) =
      foldl (\<lambda>p ts. netrc_tokens ts p) netrc_start (netrc_lines es d)"
    unfolding foldl_map by (rule foldl_cong) (use ok fields_join in auto)
  moreover have "ne_machine e \<noteq> []" if "e \<in> set es" for e using assms(1) that by (auto simp: token_def)
  ultimately show ?thesis
    using parse_lines [of es d] assms(2) ok by (simp add: parse_netrc_def scan fit Let_def list_all_iff)
qed

definition demo_entry :: "string \<Rightarrow> string \<Rightarrow> netrc_entry" where
  "demo_entry m l = \<lparr>ne_machine = m, ne_login = l, ne_password = ''pw'', ne_account = ''a''\<rparr>"

lemma netrc_roundtrip_witness:
  "let r = parse_netrc (print_netrc [demo_entry ''h1'' ''ann'', demo_entry ''h2'' ''login''] (Some (demo_entry [] ''guest''))) in
     snd r \<and> get_credentials (fst r) ''h2'' = (''login'', ''pw'') \<and> get_credentials (fst r) ''h3'' = (''guest'', ''pw'')"
proof -
  have "\<forall>e \<in> set [demo_entry ''h1'' ''ann'', demo_entry ''h2'' ''login'']. token (ne_machine e) \<and> entry_ok e"
    "\<forall>e. Some (demo_entry [] ''guest'') = Some e \<longrightarrow> entry_ok e \<and> ne_machine e = []"
    by (simp_all add: demo_entry_def entry_ok_def token_def is_space_def)
  from netrc_roundtrip [OF this] show ?thesis
    by (simp add: get_credentials_def find_entry_def demo_entry_def)
qed

end
