(* ===== verification/Requests.thy ===== *)
theory Requests
  imports Netrc GoUrl Base64 Retry AppConfig
begin

text \<open>
  The requests of \<open>internal/downloader/downloader.go\<close> apart from their bodies: the headers every request
  carries, the credentials taken from netrc, and the two probes that find the size of the resource
  and whether ranges are served. The server is a function from request headers to answers.
\<close>

section \<open>Headers\<close>

text \<open>\<open>http.CanonicalHeaderKey\<close>: upper case after a dash and at the start, unless a byte is not a token byte.\<close>

definition token_char :: "char \<Rightarrow> bool" where
  "token_char c \<longleftrightarrow> is_alpha c \<or> is_digit c \<or> c \<in> set ''!#$%&*+-.^_`|~'' \<or> char_code c = 39"

definition upper_char :: "char \<Rightarrow> char" where
  "upper_char c = (if is_lower_alpha c then char_of (char_code c - 32) else c)"

fun capitalise :: "bool \<Rightarrow> string \<Rightarrow> string" where
  "capitalise up [] = []"
| "capitalise up (c # cs) = (if up then upper_char c else to_lower_char c) # capitalise (c = CHR ''-'') cs"

definition canonical_key :: "string \<Rightarrow> string" where
  "canonical_key k = (if list_all token_char k then capitalise True k else k)"

type_synonym headers = "string \<rightharpoonup> string"

definition header_set :: "string \<Rightarrow> string \<Rightarrow> headers \<Rightarrow> headers" where
  "header_set k v h = h(canonical_key k \<mapsto> v)"

definition basic_auth :: "string \<Rightarrow> string \<Rightarrow> string" where
  "basic_auth user pass = ''Basic '' @ b64_encode (map of_char (user @ '':'' @ pass))"

text \<open>
  \<open>applyCustomHeaders\<close>; \<open>ks\<close> is the order in which \<open>range\<close> visits the custom headers and \<open>host\<close> the host name of
  the request.
\<close>

definition apply_custom_headers :: "string list \<Rightarrow> download_config \<Rightarrow> netrc option \<Rightarrow> string \<Rightarrow> headers \<Rightarrow> headers" where
  "apply_custom_headers ks cfg nr host h =
     (let opts = dc_http cfg;
          h1 = header_set ''User-Agent'' (if ho_user_agent opts \<noteq> [] then ho_user_agent opts else ''AFD/0.3'') h;
          h2 = (if ho_referer opts \<noteq> [] then header_set ''Referer'' (ho_referer opts) h1 else h1);
          h3 = foldl (\<lambda>g k. header_set k (the (ho_headers opts k)) g) h2 ks;
          h4 = (if ho_username opts \<noteq> [] then header_set ''Authorization'' (basic_auth (ho_username opts) (ho_password opts)) h3
            else case nr of
                None \<Rightarrow> h3
              | Some n \<Rightarrow> (case get_credentials n host of (user, pass) \<Rightarrow>
                  if user \<noteq> [] then header_set ''Authorization'' (basic_auth user pass) h3 else h3))
      in if ho_accept_gzip opts then header_set ''Accept-Encoding'' ''gzip'' h4 else h4)"

section \<open>The configuration a downloader keeps\<close>

text \<open>
  \<open>SetURL\<close>: the credentials of the host are written into the configuration, which all downloaders of one
  manager share.
\<close>

definition set_url :: "netrc option \<Rightarrow> string \<Rightarrow> download_config \<Rightarrow> download_config" where
  "set_url nr raw cfg =
     (case nr of
        None \<Rightarrow> cfg
      | Some n \<Rightarrow>
          if ho_username (dc_http cfg) \<noteq> [] then cfg
          else (case url_parse raw of
              None \<Rightarrow> cfg
            | Some u \<Rightarrow> (case get_credentials n (url_hostname u) of (user, pass) \<Rightarrow>
                if user \<noteq> [] then cfg\<lparr>dc_http := (dc_http cfg)\<lparr>ho_username := user, ho_password := pass\<rparr>\<rparr> else cfg)))"

text \<open>
  What \<open>NewDownloader\<close> makes of the configuration: the default buffer size (also written into the shared
  configuration), the connections per host, the retry budget, the save interval and whether there is
  a rate limiter.
\<close>

definition with_buffer :: "download_config \<Rightarrow> download_config" where
  "with_buffer cfg = (if dc_buffer cfg \<le> 0 then cfg\<lparr>dc_buffer := 32 * 1024\<rparr> else cfg)"

definition conns_per_host :: "download_config \<Rightarrow> int" where
  "conns_per_host cfg = (if dc_max_per_server cfg > 0 then dc_max_per_server cfg else 10)"

definition downloader_retry_config :: "download_config \<Rightarrow> retry_config" where
  "downloader_retry_config cfg =
     (if dc_retry cfg > 0 then default_retry_config\<lparr>max_retries := dc_retry cfg\<rparr> else default_retry_config)"

definition save_interval :: "download_config \<Rightarrow> duration" where
  "save_interval cfg =
     (if ho_auto_save (dc_http cfg) > 0 then ho_auto_save (dc_http cfg) * 1000000000 else 5 * 1000000000)"

definition initial_rate :: "download_config \<Rightarrow> int option" where
  "initial_rate cfg = (if dc_speed_limit cfg > 0 then Some (dc_speed_limit cfg) else None)"

definition downloader_netrc :: "download_config \<Rightarrow> string option \<Rightarrow> (string \<rightharpoonup> string) \<Rightarrow> netrc option" where
  "downloader_netrc cfg home files = (if ho_no_netrc (dc_http cfg) then None else load_netrc home files [])"

section \<open>Probing\<close>

record reply =
  rp_status :: int
  rp_text :: string
  rp_header :: "string \<Rightarrow> string"  \<comment> \<open>\<open>Header.Get\<close>: empty when absent\<close>
  rp_length :: int  \<comment> \<open>\<open>ContentLength\<close>, \<open>-1\<close> when unknown\<close>

datatype answer = NoAnswer go_error | Answer reply

text \<open>What the downloader remembers of the resource.\<close>

record remote =
  rm_last_modified :: string
  rm_etag :: string
  rm_disposition :: string

datatype probe_result = ProbeError go_error | NotModified | Size int bool

record probe_env =
  pv_create :: "go_error option"
  pv_head :: "headers \<Rightarrow> answer"
  pv_get :: "headers \<Rightarrow> answer"

definition note_modified :: "reply \<Rightarrow> remote \<Rightarrow> remote" where
  "note_modified r m =
     (let lm = rp_header r ''Last-Modified''; cd = rp_header r ''Content-Disposition'';
          m1 = (if lm \<noteq> [] then m\<lparr>rm_last_modified := lm\<rparr> else m)
      in if cd \<noteq> [] then m1\<lparr>rm_disposition := cd\<rparr> else m1)"

definition content_range_total :: "string \<Rightarrow> int option" where
  "content_range_total cr =
     (case split_on (CHR ''/'') cr of [a, b] \<Rightarrow> atoi b | _ \<Rightarrow> None)"

definition get_size_via_get :: "probe_env \<Rightarrow> headers \<Rightarrow> remote \<Rightarrow> remote \<times> probe_result" where
  "get_size_via_get env h m =
     (case pv_create env of
        Some e \<Rightarrow> (m, ProbeError (Wrapped ''create get request'' e))
      | None \<Rightarrow> (case pv_get env (header_set ''Range'' ''bytes=0-0'' h) of
          NoAnswer e \<Rightarrow> (m, ProbeError (Wrapped ''get request failed'' e))
        | Answer r \<Rightarrow>
            let m1 = note_modified r m in
            if rp_status r = 206 then
              (case (if rp_header r ''Content-Range'' \<noteq> [] then content_range_total (rp_header r ''Content-Range'') else None) of
                 Some tot \<Rightarrow> (m1, Size tot True)
               | None \<Rightarrow> if rp_length r < 0 then (m1, Size 0 True) else (m1, Size (i64 (rp_length r + 1)) True))
            else if rp_status r = 200 then (m1, Size (if rp_length r < 0 then 0 else rp_length r) False)
            else (m1, ProbeError (Plain (''get request returned status: '' @ show_int (rp_status r) @ '' '' @ rp_text r)))))"

definition conditional_headers :: "bool \<Rightarrow> remote \<Rightarrow> headers \<Rightarrow> headers" where
  "conditional_headers cond m h =
     (if \<not> cond then h
      else let h1 = (if rm_last_modified m \<noteq> [] then header_set ''If-Modified-Since'' (rm_last_modified m) h else h)
        in if rm_etag m \<noteq> [] then header_set ''If-None-Match'' (rm_etag m) h1 else h1)"

definition head_request :: "probe_env \<Rightarrow> bool \<Rightarrow> headers \<Rightarrow> remote \<Rightarrow> remote \<times> probe_result" where
  "head_request env cond h m =
     (case pv_create env of
        Some e \<Rightarrow> (m, ProbeError (Wrapped ''create head request'' e))
      | None \<Rightarrow> (case pv_head env (conditional_headers cond m h) of
          NoAnswer e \<Rightarrow> get_size_via_get env h m
        | Answer r \<Rightarrow>
            if cond \<and> rp_status r = 304 then (m, NotModified)
            else if rp_status r \<noteq> 200 then
              (if rp_status r \<ge> 400
               then (m, ProbeError (Plain (''HTTP '' @ show_int (rp_status r) @ '' '' @ rp_text r)))
               else get_size_via_get env h m)
            else
              (let m1 = note_modified r m;
                   m2 = (if cond \<and> rp_header r ''ETag'' \<noteq> [] then m1\<lparr>rm_etag := rp_header r ''ETag''\<rparr> else m1)
               in (m2, Size (if rp_length r < 0 then 0 else rp_length r) (rp_header r ''Accept-Ranges'' = ''bytes'')))))"

section \<open>The suggested file name\<close>

text \<open>The position of the first occurrence, \<open>strings.Index\<close>.\<close>

fun string_index :: "string \<Rightarrow> string \<Rightarrow> nat option" where
  "string_index [] p = (if p = [] then Some 0 else None)"
| "string_index (c # cs) p = (if has_prefix (c # cs) p then Some 0 else map_option Suc (string_index cs p))"

definition trim_quotes :: "string \<Rightarrow> string" where
  "trim_quotes s = rev (dropWhile (\<lambda>c. c = CHR 0x22) (rev (dropWhile (\<lambda>c. c = CHR 0x22) s)))"

definition parameter_value :: "string \<Rightarrow> nat \<Rightarrow> string" where
  "parameter_value cd i = trim_quotes (before (CHR '';'') (drop i cd))"

definition parse_content_disposition_filename :: "string \<Rightarrow> string" where
  "parse_content_disposition_filename cd =
     (if cd = [] then []
      else case string_index (to_lower cd) ''filename*='' of
          Some i \<Rightarrow>
            let v = parameter_value cd (i + 10); parts = split_on (CHR 0x27) v in
            if length parts \<ge> 3 then
              (let x = drop (length (parts ! 0) + length (parts ! 1) + 2) v in
               case unescape False x of Some d \<Rightarrow> d | None \<Rightarrow> x)
            else v
        | None \<Rightarrow> (case string_index (to_lower cd) ''filename='' of
              Some i \<Rightarrow> parameter_value cd (i + 9)
            | None \<Rightarrow> []))"

section \<open>Credentials\<close>

lemma canonical_authorization: "canonical_key ''Authorization'' = ''Authorization''"
  by code_simp

lemma accept_not_authorization: "canonical_key ''Accept-Encoding'' \<noteq> ''Authorization''"
  by code_simp

lemma username_sent:
  assumes "ho_username (dc_http cfg) \<noteq> []"
  shows "apply_custom_headers ks cfg nr host h ''Authorization'' =
    Some (basic_auth (ho_username (dc_http cfg)) (ho_password (dc_http cfg)))"
  using assms accept_not_authorization
  by (auto simp: apply_custom_headers_def header_set_def canonical_authorization Let_def)

text \<open>
  Credentials of one host reach every other. Once a downloader has been given a URL whose host has a
  netrc entry, the shared configuration holds that login: every later downloader of the same manager
  sends it to whatever host it talks to, also to hosts that have an entry of their own.
\<close>
theorem netrc_credentials_leak:
  assumes "ho_username (dc_http cfg) = []" "url_parse url_a = Some ua"
    "get_credentials n (url_hostname ua) = (user, pass)" "user \<noteq> []"
  shows "let shared = set_url (Some n) url_a cfg in
    set_url (Some n) url_b shared = shared \<and>
    apply_custom_headers ks shared (Some n) host_b h ''Authorization'' = Some (basic_auth user pass)"
  using assms by (simp add: set_url_def username_sent Let_def)

text \<open>The login for \<open>internal\<close> goes to \<open>mirror.example\<close>, which has its own.\<close>

lemma netrc_credentials_leak_witness:
  "let n = \<lparr>nr_entries = [demo_entry ''internal'' ''root'', demo_entry ''mirror.example'' ''anon''], nr_default = None\<rparr>;
       shared = set_url (Some n) ''http://internal/f'' default_download_config in
     set_url (Some n) ''http://mirror.example/g'' shared = shared \<and>
     get_credentials n ''mirror.example'' = (''anon'', ''pw'') \<and>
     apply_custom_headers [] shared (Some n) ''mirror.example'' Map.empty ''Authorization'' = Some (basic_auth ''root'' ''pw'')"
proof -
  let ?n = "\<lparr>nr_entries = [demo_entry ''internal'' ''root'', demo_entry ''mirror.example'' ''anon''], nr_default = None\<rparr>"
  have u: "url_parse ''http://internal/f'' = Some \<lparr>u_scheme = ''http'', u_host = ''internal'', u_path = ''/f''\<rparr>"
    by code_simp
  have h: "url_hostname \<lparr>u_scheme = ''http'', u_host = ''internal'', u_path = ''/f''\<rparr> = ''internal''" by code_simp
  have c: "get_credentials ?n (url_hostname \<lparr>u_scheme = ''http'', u_host = ''internal'', u_path = ''/f''\<rparr>) = (''root'', ''pw'')"
    unfolding h by (simp add: get_credentials_def find_entry_def demo_entry_def)
  have e: "ho_username (dc_http default_download_config) = []" by (simp add: default_download_config_def)
  show ?thesis
    using netrc_credentials_leak [OF e u c, of "''http://mirror.example/g''" "[]" "''mirror.example''" Map.empty]
    by (simp add: Let_def get_credentials_def find_entry_def demo_entry_def)
qed

section \<open>What the probes report\<close>

text \<open>
  Ranges are used only when the server offered them: a probe that reports a range-capable resource has
  seen either a HEAD answer 200 that says so, with its length, or a GET answer 206 whose total (or
  whose length and one more) is the size reported.
\<close>
theorem head_request_range_offered:
  assumes "head_request env cond h m = (m', Size n True)"
  shows "(\<exists>r. pv_head env (conditional_headers cond m h) = Answer r \<and> rp_status r = 200 \<and>
      rp_header r ''Accept-Ranges'' = ''bytes'' \<and> n = max 0 (rp_length r)) \<or>
    (\<exists>r. pv_get env (header_set ''Range'' ''bytes=0-0'' h) = Answer r \<and> rp_status r = 206 \<and>
      (content_range_total (rp_header r ''Content-Range'') = Some n \<or> n = 0 \<or> n = i64 (rp_length r + 1)))"
  using assms
  by (auto simp: head_request_def get_size_via_get_def Let_def max_def split: option.splits answer.splits if_splits)

lemma head_request_range_offered_witness:
  "let r = \<lparr>rp_status = 206, rp_text = [], rp_header = (\<lambda>k. if k = ''Content-Range'' then ''bytes 0-0/1234'' else []), rp_length = 1\<rparr>;
       env = \<lparr>pv_create = None, pv_head = (\<lambda>_. NoAnswer (Plain ''reset'')), pv_get = (\<lambda>_. Answer r)\<rparr>;
       m = \<lparr>rm_last_modified = [], rm_etag = [], rm_disposition = []\<rparr> in
     snd (head_request env False Map.empty m) = Size 1234 True \<and> content_range_total (rp_header r ''Content-Range'') = Some 1234"
proof -
  let ?r = "\<lparr>rp_status = 206, rp_text = [], rp_header = (\<lambda>k. if k = ''Content-Range'' then ''bytes 0-0/1234'' else []), rp_length = 1\<rparr>"
  let ?env = "\<lparr>pv_create = None, pv_head = (\<lambda>_. NoAnswer (Plain ''reset'')), pv_get = (\<lambda>_. Answer ?r)\<rparr>"
  let ?m = "\<lparr>rm_last_modified = [], rm_etag = [], rm_disposition = []\<rparr>"
  have h: "head_request ?env False Map.empty ?m = (?m, Size 1234 True)" by code_simp
  have w: "i64 2 \<noteq> 1234" by code_simp
  show ?thesis using head_request_range_offered [OF h] h w by (simp add: Let_def)
qed

end
