(* ===== verification/SingleDownload.thy ===== *)
theory SingleDownload
  imports Requests TaskStore PieceDownload Adaptive
begin

text \<open>
  The single-connection download of \<open>internal/downloader/downloader.go\<close> with its progress file:
  \<open>LoadProgress\<close>, \<open>SaveProgress\<close>, \<open>recordSpeedAndCheckSave\<close>, \<open>singleThreadDownload\<close> and \<open>singleThreadResume\<close>.
  The server answers the n-th request, by the start of the range it asks for, with a status and a script
  of reads; the output file is a list of bytes. Cookies, the file time of \<open>applyRemoteTime\<close> and log lines
  are left out.
\<close>

section \<open>State\<close>

text \<open>The ring of speed samples of the downloader itself.\<close>

record speed_ring =
  sr_samples :: "(instant \<times> int) list"
  sr_head :: nat
  sr_count :: nat

record fetch =
  ft_url :: string
  ft_local :: "8 word list option"  \<comment> \<open>the output file\<close>
  ft_cf :: "control_file option"
  ft_path :: bool  \<comment> \<open>whether \<open>controlFilePath\<close> is set\<close>
  ft_stored :: "control_file option"  \<comment> \<open>the control file on disk\<close>
  ft_conditional :: bool
  ft_remote :: remote
  ft_total :: int
  ft_size :: int
  ft_pieces :: "piece_manager option"
  ft_since :: int
  ft_last_save :: instant
  ft_interval :: duration
  ft_ring :: speed_ring
  ft_adaptive :: "adaptive_controller option"  \<comment> \<open>present when \<open>cfg.Adaptive\<close>\<close>
  ft_requests :: nat

definition local_bytes :: "fetch \<Rightarrow> 8 word list" where
  "local_bytes s = (case ft_local s of None \<Rightarrow> [] | Some xs \<Rightarrow> xs)"

section \<open>Progress\<close>

definition blank_control_file :: control_file where
  "blank_control_file = \<lparr>cf_infohash = [], cf_total_length = 0, cf_completed_length = 0, cf_piece_length = 0,
     cf_piece_hashes = [], cf_bitfield = [], cf_num_pieces = 0, cf_piece_bitfields = [], cf_created = zero_time,
     cf_updated = zero_time, cf_status = [], cf_last_modified = [], cf_etag = [], cf_url = []\<rparr>"

definition progress_record :: "instant \<Rightarrow> fetch \<Rightarrow> control_file" where
  "progress_record now s =
     (let c = (case ft_cf s of None \<Rightarrow> blank_control_file\<lparr>cf_status := ''downloading''\<rparr> | Some c \<Rightarrow> c);
          c1 = c\<lparr>cf_completed_length := ft_total s, cf_total_length := ft_size s, cf_url := ft_url s, cf_updated := now\<rparr>;
          c2 = (if ft_conditional s
            then c1\<lparr>cf_last_modified := rm_last_modified (ft_remote s), cf_etag := rm_etag (ft_remote s)\<rparr> else c1)
      in case ft_pieces s of
          None \<Rightarrow> c2
        | Some pm \<Rightarrow> let es = serialize_piece_bitfields pm in
            if es \<noteq> [] then c2\<lparr>cf_piece_bitfields := es, cf_num_pieces := int (length (pm_pieces pm))\<rparr> else c2)"

text \<open>\<open>ok\<close> says at which times the store can be written; a failure is only logged.\<close>

definition save_progress :: "(instant \<Rightarrow> bool) \<Rightarrow> instant \<Rightarrow> fetch \<Rightarrow> fetch \<times> bool" where
  "save_progress ok now s =
     (if \<not> ft_path s then (s, True)
      else let cf = progress_record now s; s1 = s\<lparr>ft_cf := Some cf\<rparr> in
        if ok now then (s1\<lparr>ft_stored := Some (control_stamp now cf), ft_last_save := now, ft_since := 0\<rparr>, True)
        else (s1, False))"

definition save_or_log :: "(instant \<Rightarrow> bool) \<Rightarrow> instant \<Rightarrow> fetch \<Rightarrow> fetch" where
  "save_or_log ok now s = fst (save_progress ok now s)"

text \<open>\<open>readable\<close> says whether an existing control file can be read; the result is whether there was an error.\<close>

definition load_progress :: "bool \<Rightarrow> fetch \<Rightarrow> fetch \<times> bool" where
  "load_progress readable s =
     (if \<not> ft_path s then (s, True)
      else case ft_stored s of
          None \<Rightarrow> (s, True)
        | Some cf \<Rightarrow>
            if \<not> readable then (s, False)
            else if cf_url cf \<noteq> [] \<and> ft_url s \<noteq> [] \<and> cf_url cf \<noteq> ft_url s then (s, True)
            else (s\<lparr>ft_cf := Some cf,
                    ft_remote := (ft_remote s)\<lparr>rm_last_modified := cf_last_modified cf, rm_etag := cf_etag cf\<rparr>\<rparr>, True))"

definition ring_add :: "instant \<Rightarrow> int \<Rightarrow> speed_ring \<Rightarrow> speed_ring" where
  "ring_add now n r =
     r\<lparr>sr_samples := (sr_samples r)[sr_head r := (now, n)],
       sr_head := (sr_head r + 1) mod length (sr_samples r),
       sr_count := (if sr_count r < length (sr_samples r) then sr_count r + 1 else sr_count r)\<rparr>"

definition record_speed_and_check_save :: "instant \<Rightarrow> int \<Rightarrow> fetch \<Rightarrow> fetch \<times> bool" where
  "record_speed_and_check_save now n s =
     (let s1 = s\<lparr>ft_ring := ring_add now n (ft_ring s),
                 ft_adaptive := map_option (\<lambda>ac. fst (should_adjust (add_sample ac n now) now)) (ft_adaptive s),
                 ft_since := ft_since s + n\<rparr>
      in (s1, ft_since s1 \<ge> 1024 * 1024 \<or> (ft_last_save s1 \<noteq> zero_time \<and> now - ft_last_save s1 \<ge> ft_interval s1)))"

definition downloader_speed :: "instant \<Rightarrow> speed_ring \<Rightarrow> int" where
  "downloader_speed now r =
     (if sr_count r < 2 then 0
      else let w = length (sr_samples r); old = (sr_head r + w - sr_count r) mod w;
               total_bytes = sum_list (map (\<lambda>i. snd (sr_samples r ! ((old + i) mod w))) [0..<sr_count r]);
               d = now - fst (sr_samples r ! old)
        in if d \<le> 0 then 0 else f64_to_int (f64 (f64 (of_int total_bytes) / duration_seconds d)))"

definition downloader_progress :: "fetch \<Rightarrow> rat" where
  "downloader_progress s =
     (if ft_size s \<le> 0 then 0
      else let done_bytes = (case ft_pieces s of Some pm \<Rightarrow> total_completed_length pm | None \<Rightarrow> ft_total s)
        in f64 (f64 (f64 (of_int done_bytes) / f64 (of_int (ft_size s))) * 100))"

section \<open>Reading a body into the file\<close>

text \<open>A write at offset \<open>p\<close>; a gap before it reads as zeros.\<close>

definition overwrite :: "8 word list \<Rightarrow> nat \<Rightarrow> 8 word list \<Rightarrow> 8 word list" where
  "overwrite xs p bs =
     (if bs = [] then xs else take p (xs @ replicate (p - length xs) 0) @ bs @ drop (p + length bs) xs)"

definition write_local :: "nat \<Rightarrow> 8 word list \<Rightarrow> fetch \<Rightarrow> fetch" where
  "write_local p bs s = s\<lparr>ft_local := Some (overwrite (local_bytes s) p bs)\<rparr>"

text \<open>What can happen next: the ticker of \<open>periodicSaveProgress\<close>, or a read.\<close>

datatype fetch_event = Tick instant | Arrives read_event

text \<open>One pass through the loop body; \<open>Inl\<close> leaves the loop with an error.\<close>

definition body_data :: "(instant \<Rightarrow> bool) \<Rightarrow> read_event \<Rightarrow> nat \<Rightarrow> fetch \<Rightarrow> (fetch \<times> go_error) + fetch" where
  "body_data ok ev p s =
     (if ev_data ev = [] then Inr s
      else case ev_limit ev of
          Some e \<Rightarrow> Inl (save_or_log ok (ev_now ev) s, e)
        | None \<Rightarrow> (case ev_write ev of
            Some (j, e) \<Rightarrow> Inl (write_local p (take j (ev_data ev)) s, Wrapped ''write'' e)
          | None \<Rightarrow>
              let n = int (length (ev_data ev));
                  s1 = (write_local p (ev_data ev) s)\<lparr>ft_total := ft_total s + n\<rparr>;
                  (s2, save) = record_speed_and_check_save (ev_now ev) n s1
              in Inr (if save then save_or_log ok (ev_now ev) s2 else s2)))"

text \<open>\<open>None\<close> when the script ends while the loop waits for more.\<close>

fun body_loop :: "(instant \<Rightarrow> bool) \<Rightarrow> fetch_event list \<Rightarrow> nat \<Rightarrow> fetch \<Rightarrow> fetch \<times> go_error option option" where
  "body_loop ok [] p s = (s, None)"
| "body_loop ok (Tick now # es) p s = body_loop ok es p (save_or_log ok now s)"
| "body_loop ok (Arrives ev # es) p s =
     (case ev_ctx ev of
        Some e \<Rightarrow> (save_or_log ok (ev_now ev) s, Some (Some e))
      | None \<Rightarrow> (case body_data ok ev p s of
          Inl (s1, e) \<Rightarrow> (s1, Some (Some e))
        | Inr s1 \<Rightarrow> (case ev_end ev of
              MoreData \<Rightarrow> body_loop ok es (p + length (ev_data ev)) s1
            | EndOfBody \<Rightarrow> (s1, Some None)
            | ReadError e \<Rightarrow> (save_or_log ok (ev_now ev) s1, Some (Some (Wrapped ''read'' e))))))"

section \<open>The download\<close>

record http_answer =
  an_create :: "go_error option"
  an_do :: "go_error option"
  an_status :: int
  an_text :: string
  an_mkdir :: "go_error option"
  an_open :: "go_error option"
  an_seek :: "go_error option"
  an_remove :: "go_error option"
  an_body :: "fetch_event list"
  an_now :: instant  \<comment> \<open>the clock after the body\<close>

type_synonym server = "nat \<Rightarrow> int option \<Rightarrow> http_answer"

definition ask :: "server \<Rightarrow> int option \<Rightarrow> fetch \<Rightarrow> http_answer \<times> fetch" where
  "ask srv from s = (srv (ft_requests s) from, s\<lparr>ft_requests := ft_requests s + 1\<rparr>)"

text \<open>\<open>deletable\<close> says whether the control file can be removed; a failure is only logged.\<close>

record fetch_env =
  en_save :: "instant \<Rightarrow> bool"
  en_deletable :: bool

definition drop_control_file :: "fetch_env \<Rightarrow> fetch \<Rightarrow> fetch" where
  "drop_control_file env s =
     (if ft_path s \<and> \<not> ft_conditional s \<and> en_deletable env then s\<lparr>ft_stored := None\<rparr> else s)"

definition finish_transfer :: "fetch_env \<Rightarrow> instant \<Rightarrow> fetch \<Rightarrow> fetch" where
  "finish_transfer env now s = drop_control_file env (save_or_log (en_save env) now s)"

definition existing_progress :: "fetch \<Rightarrow> int" where
  "existing_progress s =
     (case ft_cf s of
        Some c \<Rightarrow> if cf_completed_length c > 0 then cf_completed_length c else 0
      | None \<Rightarrow> 0)"

datatype single_plan = AlreadyDone | StartOver | ResumeAt int

definition plan_single :: "fetch \<Rightarrow> single_plan" where
  "plan_single s =
     (let existing = existing_progress s; onDisk = int (length (local_bytes s)) in
      if existing > 0 then
        (if existing \<ge> ft_size s \<and> ft_size s > 0
         then (if ft_local s \<noteq> None \<and> onDisk = ft_size s then AlreadyDone else StartOver)
         else if existing < ft_size s then ResumeAt existing else StartOver)
      else if onDisk > 0 \<and> onDisk < ft_size s then ResumeAt onDisk else StartOver)"

definition reset_progress :: "fetch \<Rightarrow> fetch" where
  "reset_progress s =
     s\<lparr>ft_cf := map_option (\<lambda>c. c\<lparr>cf_completed_length := 0, cf_piece_bitfields := []\<rparr>) (ft_cf s), ft_total := 0\<rparr>"

definition fresh_download :: "fetch_env \<Rightarrow> server \<Rightarrow> fetch \<Rightarrow> fetch \<times> go_error option option" where
  "fresh_download env srv s0 =
     (let (a, s) = ask srv None s0 in
      case an_create a of Some e \<Rightarrow> (s, Some (Some e)) | None \<Rightarrow>
      case an_do a of Some e \<Rightarrow> (s, Some (Some e)) | None \<Rightarrow>
      if an_status a \<noteq> 200 then (s, Some (Some (err_status (an_status a) (an_text a)))) else
      case an_mkdir a of Some e \<Rightarrow> (s, Some (Some (Wrapped ''create output directory'' e))) | None \<Rightarrow>
      case an_open a of Some e \<Rightarrow> (s, Some (Some e)) | None \<Rightarrow>
      (case body_loop (en_save env) (an_body a) 0 (s\<lparr>ft_local := Some []\<rparr>) of
         (s1, Some None) \<Rightarrow> (finish_transfer env (an_now a) s1, Some None)
       | x \<Rightarrow> x))"

datatype resume_result = Restart fetch | Ended fetch "go_error option option"

definition resume_download :: "fetch_env \<Rightarrow> server \<Rightarrow> int \<Rightarrow> fetch \<Rightarrow> resume_result" where
  "resume_download env srv k s0 =
     (let (a, s) = ask srv (Some k) s0 in
      case an_create a of Some e \<Rightarrow> Ended s (Some (Some e)) | None \<Rightarrow>
      case an_do a of Some e \<Rightarrow> Ended s (Some (Some e)) | None \<Rightarrow>
      if an_status a = 416 then
        (case an_remove a of
           Some e \<Rightarrow> Ended s (Some (Some (Wrapped ''remove partial file'' e)))
         | None \<Rightarrow> Restart (reset_progress (s\<lparr>ft_local := None\<rparr>)))
      else if an_status a = 200 then
        (case an_open a of
           Some e \<Rightarrow> Ended (reset_progress s) (Some (Some e))
         | None \<Rightarrow>
             (case body_loop (en_save env) (an_body a) 0 ((reset_progress s)\<lparr>ft_local := Some []\<rparr>) of
                (s1, Some None) \<Rightarrow> Ended (save_or_log (en_save env) (an_now a) s1) (Some None)
              | (s1, r) \<Rightarrow> Ended s1 r))
      else if an_status a \<noteq> 206 then Ended s (Some (Some (err_status (an_status a) (an_text a))))
      else case an_open a of Some e \<Rightarrow> Ended s (Some (Some e)) | None \<Rightarrow>
      let s1 = s\<lparr>ft_local := Some (local_bytes s)\<rparr> in
      case an_seek a of Some e \<Rightarrow> Ended s1 (Some (Some (Wrapped ''seek to position'' e))) | None \<Rightarrow>
      (case body_loop (en_save env) (an_body a) (nat k) (s1\<lparr>ft_total := k\<rparr>) of
         (s2, Some None) \<Rightarrow> Ended (finish_transfer env (an_now a) s2) (Some None)
       | (s2, r) \<Rightarrow> Ended s2 r))"

text \<open>
  The two functions call each other; the answer 416 removes the file and the progress, so the second
  call starts over.
\<close>

definition has_progress :: "fetch \<Rightarrow> bool" where
  "has_progress s \<longleftrightarrow> existing_progress s > 0 \<or> local_bytes s \<noteq> []"

lemma plan_resume_progress: "plan_single s = ResumeAt k \<Longrightarrow> has_progress s"
  by (auto simp: plan_single_def has_progress_def Let_def split: if_splits)

lemma restart_no_progress:
  assumes "resume_download env srv k s = Restart t"
  shows "\<not> has_progress t"
  using assms
  by (auto simp: resume_download_def has_progress_def existing_progress_def local_bytes_def reset_progress_def Let_def
      split: option.splits if_splits prod.splits)

function single_download :: "fetch_env \<Rightarrow> server \<Rightarrow> fetch \<Rightarrow> fetch \<times> go_error option option" where
  "single_download env srv s =
     (case plan_single s of
        AlreadyDone \<Rightarrow> (s\<lparr>ft_total := ft_size s\<rparr>, Some None)
      | StartOver \<Rightarrow> fresh_download env srv s
      | ResumeAt k \<Rightarrow> (case resume_download env srv k s of
            Ended t r \<Rightarrow> (t, r)
          | Restart t \<Rightarrow> single_download env srv t))"
  by pat_completeness auto

termination
proof (relation "measure (\<lambda>(env, srv, s). if has_progress s then 1 else 0)", goal_cases)
  case 1
  show ?case by simp
next
  case (2 env srv s k t)
  then show ?case using plan_resume_progress [of s k] restart_no_progress [of env srv k s t] by simp
qed

declare single_download.simps [simp del]

end
