(* ===== verification/WorkerPool.thy ===== *)
theory WorkerPool
  imports PieceDownload
begin

text \<open>
  The workers of \<open>doDownload\<close> in \<open>internal/downloader/downloader.go\<close>, turn by turn: claiming pieces, stealing
  ranges, the attempts of \<open>downloadPiece\<close> and \<open>downloadRange\<close> and their retries. A turn of a worker runs from
  one wait to the next (the semaphore, a timer, the answer to a request, a read of the body), and the
  turns of the workers interleave in any order.
\<close>

section \<open>One attempt at a piece, step by step\<close>

text \<open>\<open>Requesting off len final tot\<close>: a request for the bytes from \<open>off\<close> to \<open>final\<close> is under way.\<close>

datatype phase = Waiting | AtTop int | Requesting int int int int | Reading reader

datatype phase_end = Stay phase | AttemptEnds "go_error option"

definition top_step :: "int \<Rightarrow> int \<Rightarrow> int \<Rightarrow> int \<Rightarrow> download_state \<Rightarrow> download_state \<times> phase_end" where
  "top_step k end_offset fsize tot s =
     (if is_complete (piece_of s k) then (finish_piece s k, AttemptEnds None)
      else case next_unused_block (piece_of s k) of (p, off, len) \<Rightarrow>
        let s1 = with_piece s k p in
        if off < 0 then
          (if is_complete p then (finish_piece s1 k, AttemptEnds None) else (s1, Stay (AtTop tot)))
        else (s1, Stay (Requesting off len (requested_end off len end_offset fsize) tot)))"

definition answer_step :: "int \<Rightarrow> int \<Rightarrow> int \<Rightarrow> int \<Rightarrow> exchange \<Rightarrow> download_state \<Rightarrow> download_state \<times> phase_end" where
  "answer_step k off len tot ex s =
     (let i = block_index_for_offset (piece_of s k) off;
          cancelled = with_piece s k (cancel_block (piece_of s k) i) in
      case ex_create ex of
        Some e \<Rightarrow> (cancelled, AttemptEnds (Some (Wrapped ''create request'' e)))
      | None \<Rightarrow> (case ex_do ex of
          Some e \<Rightarrow> (cancelled, AttemptEnds (Some (Wrapped ''request'' e)))
        | None \<Rightarrow>
            if ex_status ex = 416 \<or> ex_status ex = 200 then (cancelled, AttemptEnds (Some err_range_not_supported))
            else if ex_status ex \<noteq> 206
            then (cancelled, AttemptEnds (Some (err_status (ex_status ex) (ex_status_text ex))))
            else (s, Stay (Reading \<lparr>rd_offset = off, rd_block = i, rd_remaining = len, rd_low_bytes = 0,
                                     rd_low_start = ex_start ex, rd_total = tot\<rparr>))))"

definition body_step :: "speed_floor \<Rightarrow> int \<Rightarrow> reader \<Rightarrow> read_event \<Rightarrow> download_state \<Rightarrow> download_state \<times> phase_end" where
  "body_step fl k r ev s =
     (case read_step fl k s r ev of
        (s1, r1, GoOn) \<Rightarrow> (s1, Stay (Reading r1))
      | (s1, r1, LeaveInner slow) \<Rightarrow>
          (s1, if slow then AttemptEnds (Some err_low_speed) else Stay (AtTop (rd_total r1)))
      | (s1, r1, Return e) \<Rightarrow> (s1, AttemptEnds e))"

section \<open>One attempt at a stolen range, step by step\<close>

datatype range_phase = RangeWaiting | RangeRequesting | RangeReading int

datatype range_end = RangeStay range_phase | RangeEnds "go_error option"

definition range_answer :: "int \<Rightarrow> exchange \<Rightarrow> range_end" where
  "range_answer start ex =
     (case ex_create ex of
        Some e \<Rightarrow> RangeEnds (Some (Wrapped ''create request'' e))
      | None \<Rightarrow> (case ex_do ex of
          Some e \<Rightarrow> RangeEnds (Some (Wrapped ''request'' e))
        | None \<Rightarrow>
            if ex_status ex = 416 \<or> ex_status ex = 200 then RangeEnds (Some err_range_not_supported)
            else if ex_status ex \<noteq> 206 then RangeEnds (Some (err_status (ex_status ex) (ex_status_text ex)))
            else RangeStay (RangeReading start)))"

definition range_step :: "int \<Rightarrow> int \<Rightarrow> int \<Rightarrow> read_event \<Rightarrow> download_state \<Rightarrow> download_state \<times> range_end" where
  "range_step k start off ev s =
     (let n = int (length (ev_data ev)) in
      if ev_data ev \<noteq> [] \<and> ev_limit ev \<noteq> None then (s, RangeEnds (Some (Wrapped ''rate limit'' (the (ev_limit ev)))))
      else if ev_data ev \<noteq> [] \<and> ev_write ev \<noteq> None
      then (case the (ev_write ev) of (j, e) \<Rightarrow>
        (s\<lparr>dl_file := write_at (dl_file s) off (take j (ev_data ev))\<rparr>, RangeEnds (Some (Wrapped ''write range'' e))))
      else let s1 = s\<lparr>dl_file := write_at (dl_file s) off (ev_data ev), dl_total := dl_total s + n\<rparr>; off1 = off + n in
        case ev_end ev of
          MoreData \<Rightarrow> (s1, RangeStay (RangeReading off1))
        | EndOfBody \<Rightarrow> (case range_finish k start s1 off1 of (s2, e) \<Rightarrow> (s2, RangeEnds e))
        | ReadError e \<Rightarrow> (case ev_ctx ev of
              Some ce \<Rightarrow> (s1, RangeEnds (Some ce))
            | None \<Rightarrow> (s1, RangeEnds (Some (Wrapped ''read range'' e)))))"

section \<open>Sources and retries\<close>

text \<open>
  What follows an attempt: the head of \<open>us\<close> is the source it used, \<open>n\<close> counts the retries there. \<open>ctx\<close> is the
  error of the context at that time.
\<close>

datatype job_next = JobEnds "go_error option" | JobWaits "string list" nat | JobNextSource "string list"

definition after_attempt :: "string \<Rightarrow> nat \<Rightarrow> go_error option \<Rightarrow> go_error option \<Rightarrow> string list \<Rightarrow> nat \<Rightarrow> job_next" where
  "after_attempt what retries ctx r us n =
     (case r of
        None \<Rightarrow> JobEnds None
      | Some e \<Rightarrow> (case ctx of
          Some ce \<Rightarrow> JobEnds (Some ce)
        | None \<Rightarrow>
            if \<not> is_permanent_error e \<and> n < retries then JobWaits us (n + 1)
            else (case tl us of
                [] \<Rightarrow> JobEnds (Some (all_sources_failed what (Some e)))
              | u # vs \<Rightarrow> JobNextSource (u # vs))))"

section \<open>A worker\<close>

datatype worker =
    Looping
  | HasPiece int
  | HasRange int int int  \<comment> \<open>first and last byte, and the piece they are stolen from\<close>
  | OnPiece int int "string list" nat phase  \<comment> \<open>the piece, the end offset, the sources left, the retries\<close>
  | OnRange int int int "string list" nat range_phase
  | Exited

text \<open>
  What a turn meets. \<open>Acquire\<close> takes the semaphore and finds the sources in the order the server
  statistics give; \<open>Proceed\<close> is the end of a timer or nothing to wait for.
\<close>

datatype turn_input =
    CtxDone
  | Throttle
  | Claim int  \<comment> \<open>the raw number of the random source\<close>
  | Acquire "string list"
  | Proceed
  | Answered exchange
  | Arrived read_event

datatype turn_news = NoNews | Fails go_error | Panics

record pool_setup =
  ps_retries :: nat
  ps_floor :: speed_floor
  ps_fsize :: int
  ps_min_steal :: int

definition back_to_idle :: "int \<Rightarrow> download_state \<Rightarrow> download_state" where
  "back_to_idle i s = with_piece s i (set_owner (set_piece_status (piece_of s i) PieceIdle) 0)"

definition claim_turn :: "pool_setup \<Rightarrow> int \<Rightarrow> int \<Rightarrow> download_state \<Rightarrow> download_state \<times> worker \<times> turn_news" where
  "claim_turn ps cuid raw s =
     (case get_piece_for_download (dl_pm s) (\<lambda>n. raw mod n) cuid of
        (pm, Some i) \<Rightarrow> (s\<lparr>dl_pm := pm\<rparr>, HasPiece i, NoNews)
      | (pm, None) \<Rightarrow> (case try_steal_piece pm cuid (ps_min_steal ps) of (pm2, start, final, src) \<Rightarrow>
          (s\<lparr>dl_pm := pm2\<rparr>,
           case src of Some i \<Rightarrow> if start \<ge> 0 then HasRange start final i else Exited | None \<Rightarrow> Exited, NoNews)))"

text \<open>A transfer of a piece or a range has got a result or goes on.\<close>

definition piece_next :: "int \<Rightarrow> int \<Rightarrow> download_state \<Rightarrow> job_next \<Rightarrow> download_state \<times> worker \<times> turn_news" where
  "piece_next i eo s j =
     (case j of
        JobEnds None \<Rightarrow> (s, Looping, NoNews)
      | JobEnds (Some e) \<Rightarrow> (back_to_idle i s, Exited, Fails e)
      | JobWaits us n \<Rightarrow> (s, OnPiece i eo us n Waiting, NoNews)
      | JobNextSource us \<Rightarrow> (s, OnPiece i eo us 0 (AtTop 0), NoNews))"

definition range_next :: "int \<Rightarrow> int \<Rightarrow> int \<Rightarrow> download_state \<Rightarrow> job_next \<Rightarrow> download_state \<times> worker \<times> turn_news" where
  "range_next start final i s j =
     (case j of
        JobEnds None \<Rightarrow> (s, Looping, NoNews)
      | JobEnds (Some e) \<Rightarrow> (s, Exited, Fails e)
      | JobWaits us n \<Rightarrow> (s, OnRange start final i us n RangeWaiting, NoNews)
      | JobNextSource us \<Rightarrow> (s, OnRange start final i us 0 RangeRequesting, NoNews))"

text \<open>\<open>ctx\<close> is the error of the workers' context, if it is done.\<close>

definition phase_turn :: "pool_setup \<Rightarrow> go_error option \<Rightarrow> turn_input \<Rightarrow> int \<Rightarrow> int \<Rightarrow> phase \<Rightarrow> download_state \<Rightarrow>
    download_state \<times> phase_end" where
  "phase_turn ps ctx inp i eo ph s =
     (case (ph, inp) of
        (Waiting, Proceed) \<Rightarrow> (s, Stay (AtTop 0))
      | (AtTop t, Proceed) \<Rightarrow> top_step i eo (ps_fsize ps) t s
      | (AtTop t, CtxDone) \<Rightarrow> (s, if ctx = None then Stay ph else AttemptEnds ctx)
      | (Requesting off len final t, Answered ex) \<Rightarrow> answer_step i off len t ex s
      | (Reading r, Arrived ev) \<Rightarrow> body_step (ps_floor ps) i r (ev\<lparr>ev_ctx := ctx\<rparr>) s
      | _ \<Rightarrow> (s, Stay ph))"

definition range_phase_turn :: "go_error option \<Rightarrow> turn_input \<Rightarrow> int \<Rightarrow> int \<Rightarrow> range_phase \<Rightarrow> download_state \<Rightarrow>
    download_state \<times> range_end" where
  "range_phase_turn ctx inp start i ph s =
     (case (ph, inp) of
        (RangeWaiting, Proceed) \<Rightarrow> (s, RangeStay RangeRequesting)
      | (RangeRequesting, Answered ex) \<Rightarrow> (s, range_answer start ex)
      | (RangeReading off, Arrived ev) \<Rightarrow> range_step i start off (ev\<lparr>ev_ctx := ctx\<rparr>) s
      | _ \<Rightarrow> (s, RangeStay ph))"

definition ctx_ends :: "go_error option \<Rightarrow> turn_input \<Rightarrow> bool" where
  "ctx_ends ctx inp = (case inp of CtxDone \<Rightarrow> ctx \<noteq> None | _ \<Rightarrow> False)"

definition worker_turn :: "pool_setup \<Rightarrow> int \<Rightarrow> go_error option \<Rightarrow> turn_input \<Rightarrow> worker \<Rightarrow> download_state \<Rightarrow>
    download_state \<times> worker \<times> turn_news" where
  "worker_turn ps cuid ctx inp w s =
     (case w of
        Looping \<Rightarrow> (case inp of
            CtxDone \<Rightarrow> (s, if ctx = None then w else Exited, NoNews)
          | Claim raw \<Rightarrow> claim_turn ps cuid raw s
          | _ \<Rightarrow> (s, w, NoNews))
      | HasPiece i \<Rightarrow> (case inp of
            CtxDone \<Rightarrow> if ctx = None then (s, w, NoNews) else (back_to_idle i s, Exited, NoNews)
          | Throttle \<Rightarrow> (back_to_idle i s, Looping, NoNews)
          | Acquire us \<Rightarrow> (case get_end_offset (dl_pm s) (p_index (piece_of s i)) of
                Inl _ \<Rightarrow> (s, w, Panics)
              | Inr eo \<Rightarrow> (s, if us = [] then w else OnPiece i eo us 0 (AtTop 0), NoNews))
          | _ \<Rightarrow> (s, w, NoNews))
      | HasRange start final i \<Rightarrow> (case inp of
            CtxDone \<Rightarrow> (s, if ctx = None then w else Exited, NoNews)
          | Throttle \<Rightarrow> (s, Looping, NoNews)
          | Acquire us \<Rightarrow> (s, if us = [] then w else OnRange start final i us 0 RangeRequesting, NoNews)
          | _ \<Rightarrow> (s, w, NoNews))
      | OnPiece i eo us n ph \<Rightarrow>
          if ph = Waiting \<and> ctx_ends ctx inp then piece_next i eo s (JobEnds ctx)
          else (case phase_turn ps ctx inp i eo ph s of
              (s1, Stay ph1) \<Rightarrow> (s1, OnPiece i eo us n ph1, NoNews)
            | (s1, AttemptEnds r) \<Rightarrow> piece_next i eo s1 (after_attempt ''piece'' (ps_retries ps) ctx r us n))
      | OnRange start final i us n ph \<Rightarrow>
          if ph = RangeWaiting \<and> ctx_ends ctx inp then range_next start final i s (JobEnds ctx)
          else (case range_phase_turn ctx inp start i ph s of
              (s1, RangeStay ph1) \<Rightarrow> (s1, OnRange start final i us n ph1, NoNews)
            | (s1, RangeEnds r) \<Rightarrow> range_next start final i s1 (after_attempt ''range'' (ps_retries ps) ctx r us n))
      | Exited \<Rightarrow> (s, w, NoNews))"

section \<open>The pool\<close>

text \<open>
  The first error is kept and cancels the context of all workers; apart from that the context is done
  only if the caller's is (\<open>external\<close>).
\<close>

record pool =
  po_state :: download_state
  po_workers :: "nat \<Rightarrow> worker"
  po_error :: "go_error option"
  po_panic :: bool

record turn =
  tn_worker :: nat
  tn_ctx :: "go_error option"
  tn_input :: turn_input

definition pool_step :: "pool_setup \<Rightarrow> bool \<Rightarrow> pool \<Rightarrow> turn \<Rightarrow> pool" where
  "pool_step ps external p t =
     (if po_panic p then p
      else
        let w = tn_worker t; ctx = (if external \<or> po_error p \<noteq> None then tn_ctx t else None) in
        case worker_turn ps (int w + 1) ctx (tn_input t) (po_workers p w) (po_state p) of
          (s, w', news) \<Rightarrow>
            p\<lparr>po_state := s, po_workers := (po_workers p)(w := w'),
              po_error := (case (po_error p, news) of (None, Fails e) \<Rightarrow> Some e | (e, _) \<Rightarrow> e),
              po_panic := (news = Panics)\<rparr>)"

definition start_pool :: "nat \<Rightarrow> download_state \<Rightarrow> pool" where
  "start_pool workers s =
     \<lparr>po_state = s, po_workers = (\<lambda>w. if w < workers then Looping else Exited), po_error = None, po_panic = False\<rparr>"

definition run_pool :: "pool_setup \<Rightarrow> bool \<Rightarrow> pool \<Rightarrow> turn list \<Rightarrow> pool" where
  "run_pool ps external p turns = foldl (pool_step ps external) p turns"

text \<open>All workers have returned.\<close>

definition pool_finished :: "nat \<Rightarrow> pool \<Rightarrow> bool" where
  "pool_finished workers p \<longleftrightarrow> list_all (\<lambda>w. po_workers p w = Exited) [0..<workers]"

end
