(* ===== verification/DownloadFlow.thy ===== *)
theory DownloadFlow
  imports SingleDownload WorkerPool
begin

text \<open>
  The driver of a download, \<open>internal/downloader/downloader.go\<close>: one attempt (\<open>doDownload\<close>), which probes the
  resource and fetches it over one connection or with the pool of workers, and \<open>Download\<close>, which retries it.
  The turns of the workers are an argument.
\<close>

section \<open>The output file\<close>

text \<open>The file as the workers see it, and back; bytes never written read as zeros.\<close>

definition to_map :: "8 word list \<Rightarrow> int \<rightharpoonup> 8 word" where
  "to_map xs = (\<lambda>x. if 0 \<le> x \<and> x < int (length xs) then Some (xs ! nat x) else None)"

definition written_length :: "nat \<Rightarrow> (int \<rightharpoonup> 8 word) \<Rightarrow> nat" where
  "written_length n f = length (dropWhile (\<lambda>x. f (int x) = None) (rev [0..<n]))"

definition from_map :: "nat \<Rightarrow> (int \<rightharpoonup> 8 word) \<Rightarrow> 8 word list" where
  "from_map n f = map (\<lambda>x. case f (int x) of None \<Rightarrow> 0 | Some b \<Rightarrow> b) [0..<written_length n f]"

section \<open>One attempt\<close>

datatype flow_end = StillRunning | Panicked | Returned "go_error option"

definition single_end :: "fetch \<times> go_error option option \<Rightarrow> fetch \<times> flow_end" where
  "single_end r = (fst r, case snd r of None \<Rightarrow> StillRunning | Some e \<Rightarrow> Returned e)"

definition err_not_modified :: go_error where
  "err_not_modified = Plain ''resource not modified''"

text \<open>Everything one attempt meets outside the file and the progress.\<close>

record attempt_env =
  at_fetch :: fetch_env
  at_readable :: bool
  at_probe :: "nat \<Rightarrow> probe_env"  \<comment> \<open>the first probe and the one after a stale 304\<close>
  at_headers :: headers
  at_server :: server
  at_external :: bool  \<comment> \<open>whether the caller's context may be done\<close>
  at_turns :: "turn list"
  at_mkdir :: "go_error option"
  at_open :: "go_error option"
  at_prealloc_fails :: bool
  at_truncate :: "go_error option"
  at_now :: instant

definition mark_completed :: "fetch \<Rightarrow> fetch" where
  "mark_completed s = s\<lparr>ft_cf := map_option (\<lambda>c. c\<lparr>cf_status := ''completed''\<rparr>) (ft_cf s)\<rparr>"

definition local_size_is :: "fetch \<Rightarrow> int \<Rightarrow> bool" where
  "local_size_is s n \<longleftrightarrow> ft_local s \<noteq> None \<and> int (length (local_bytes s)) = n"

text \<open>The size probe, with the case of a resource that has not changed.\<close>

datatype probe_end = SkipUnchanged fetch | ProbeFailed fetch go_error | Probed fetch int bool

definition unchanged_result :: "attempt_env \<Rightarrow> fetch \<Rightarrow> fetch" where
  "unchanged_result env s =
     (let n = int (length (local_bytes s))
      in save_or_log (en_save (at_fetch env)) (at_now env) (mark_completed (s\<lparr>ft_total := n, ft_size := n\<rparr>)))"

definition probe_size :: "attempt_env \<Rightarrow> fetch \<Rightarrow> probe_end" where
  "probe_size env s =
     (let (m, r) = head_request (at_probe env 0) (ft_conditional s) (at_headers env) (ft_remote s); s1 = s\<lparr>ft_remote := m\<rparr> in
      case r of
        Size n ranged \<Rightarrow> Probed s1 n ranged
      | ProbeError e \<Rightarrow> ProbeFailed s1 (Wrapped ''head request'' e)
      | NotModified \<Rightarrow>
          if local_bytes s1 \<noteq> [] then SkipUnchanged (unchanged_result env s1)
          else
            (let (m2, r2) = head_request (at_probe env 1) (ft_conditional s1) (at_headers env)
                   (m\<lparr>rm_last_modified := [], rm_etag := []\<rparr>);
                 s2 = s1\<lparr>ft_remote := m2\<rparr>
             in case r2 of
                 Size n ranged \<Rightarrow> Probed s2 n ranged
               | ProbeError e \<Rightarrow> ProbeFailed s2 (Wrapped ''head request'' e)
               | NotModified \<Rightarrow> ProbeFailed s2 (Wrapped ''head request'' err_not_modified)))"

text \<open>Is there anything to do, and from where: \<open>None\<close> when the file is taken for complete.\<close>

definition resume_from :: "attempt_env \<Rightarrow> fetch \<Rightarrow> fetch \<times> int option" where
  "resume_from env s =
     (let completed = (case ft_cf s of None \<Rightarrow> 0 | Some c \<Rightarrow> cf_completed_length c) in
      if ft_cf s \<noteq> None \<and> completed > 0 then
        (if completed \<ge> ft_size s \<and> ft_size s > 0 then
           (if local_size_is s (ft_size s)
            then (save_or_log (en_save (at_fetch env)) (at_now env) (mark_completed (s\<lparr>ft_total := ft_size s\<rparr>)), None)
            else (s, Some 0))
         else (s, Some completed))
      else if local_size_is s (ft_size s) \<and> ft_size s > 0 then (s\<lparr>ft_total := ft_size s\<rparr>, None)
      else (s, Some 0))"

text \<open>Marking the pieces that lie wholly below the completed length, when there are no bitmaps.\<close>

definition complete_whole_piece :: "piece \<Rightarrow> piece" where
  "complete_whole_piece p = foldl complete_block p [0..bm_num_blocks (p_blocks p) - 1]"

definition restore_prefix :: "int \<Rightarrow> piece_manager \<Rightarrow> piece_manager \<times> int" where
  "restore_prefix completed pm =
     foldl (\<lambda>(m, got) i. let p = pm_pieces m ! i in
        if completed \<ge> p_start p + p_length p
        then (complete_piece (update_piece m (int i) (complete_whole_piece p)) (p_index p), got + p_length p)
        else (m, got)) (pm, 0) [0..<length (pm_pieces pm)]"

definition restore_progress :: "int \<Rightarrow> piece_manager \<Rightarrow> fetch \<Rightarrow> fetch" where
  "restore_progress completed pm s =
     (let entries = (case ft_cf s of None \<Rightarrow> [] | Some c \<Rightarrow> cf_piece_bitfields c) in
      if completed \<le> 0 then s\<lparr>ft_pieces := Some pm\<rparr>
      else if entries \<noteq> [] then
        (let pm1 = restore_piece_bitfields pm entries
         in s\<lparr>ft_pieces := Some pm1, ft_total := total_completed_length pm1\<rparr>)
      else (case restore_prefix completed pm of
          (pm1, got) \<Rightarrow> s\<lparr>ft_pieces := Some pm1, ft_total := ft_total s + got\<rparr>))"

text \<open>\<open>preallocateFile\<close>, with the fallback to \<open>Truncate\<close>; \<open>Inl\<close> is the error of the latter.\<close>

definition grow_file :: "int \<Rightarrow> 8 word list \<Rightarrow> 8 word list" where
  "grow_file n xs = xs @ replicate (nat n - length xs) 0"

definition preallocate :: "download_config \<Rightarrow> attempt_env \<Rightarrow> int \<Rightarrow> 8 word list \<Rightarrow> go_error + 8 word list" where
  "preallocate cfg env n xs =
     (if \<not> (int (length xs) < n \<and> dc_preallocate cfg) then Inr xs
      else if \<not> at_prealloc_fails env then
        Inr (if ho_allocation (dc_http cfg) = ''none'' then xs else grow_file n xs)
      else case at_truncate env of Some e \<Rightarrow> Inl (Wrapped ''truncate output file'' e) | None \<Rightarrow> Inr (grow_file n xs))"

definition split_config :: "download_config \<Rightarrow> chunk_cfg" where
  "split_config c = \<lparr>default_chunk_size = dc_default_chunk c, min_chunk_size = dc_min_chunk c,
     max_chunk_size = dc_max_chunk c, max_connections = dc_max_connections c\<rparr>"

text \<open>After the workers: the fallback to one connection, the error, or the end of the download.\<close>

definition after_pool :: "attempt_env \<Rightarrow> go_error option \<Rightarrow> fetch \<Rightarrow> fetch \<times> flow_end" where
  "after_pool env err s =
     (let s1 = save_or_log (en_save (at_fetch env)) (at_now env) s in
      case err of
        Some e \<Rightarrow>
          if error_is err_range_not_supported e
          then single_end (single_download (at_fetch env) (at_server env)
            ((reset_progress s1)\<lparr>ft_local := map_option (\<lambda>_. []) (ft_local s1)\<rparr>))
          else (s1, Returned (Some e))
      | None \<Rightarrow>
          (drop_control_file (at_fetch env)
             (save_or_log (en_save (at_fetch env)) (at_now env) (mark_completed s1)), Returned None))"

definition pool_setup_of :: "download_config \<Rightarrow> int \<Rightarrow> pool_setup" where
  "pool_setup_of cfg fsize =
     \<lparr>ps_retries = nat (max_retries (downloader_retry_config cfg)),
      ps_floor = \<lparr>min_speed = dc_min_speed cfg,
        min_speed_timeout = (if dc_min_speed_timeout cfg \<le> 0 then 30 * 1000000000 else dc_min_speed_timeout cfg)\<rparr>,
      ps_fsize = fsize, ps_min_steal = dc_min_chunk cfg\<rparr>"

text \<open>
  The progress saved while the workers run is left out, as the save after them replaces it; so are the
  permissions of the file. An adaptive download starts with one thread.
\<close>

definition piece_download :: "download_config \<Rightarrow> attempt_env \<Rightarrow> int \<Rightarrow> fetch \<Rightarrow> fetch \<times> flow_end" where
  "piece_download cfg env completed s =
     (case split_file_into_pieces (ft_size s) (split_config cfg) of
        Inl _ \<Rightarrow> (s, Panicked)
      | Inr pieces \<Rightarrow>
          let s0 = restore_progress completed (new_piece_manager pieces (ft_size s) (ho_piece_selector (dc_http cfg))) s;
              s1 = s0\<lparr>ft_adaptive := map_option (\<lambda>ac. set_thread_count ac 1) (ft_adaptive s0)\<rparr> in
          case at_mkdir env of Some e \<Rightarrow> (s1, Returned (Some (Wrapped ''create output directory'' e))) | None \<Rightarrow>
          case at_open env of Some e \<Rightarrow> (s1, Returned (Some (Wrapped ''open output file'' e))) | None \<Rightarrow>
          (case preallocate cfg env (ft_size s1) (local_bytes s1) of
             Inl e \<Rightarrow> (s1\<lparr>ft_local := Some (local_bytes s1)\<rparr>, Returned (Some e))
           | Inr xs \<Rightarrow>
               let workers = nat (dc_max_connections cfg);
                   p = run_pool (pool_setup_of cfg (ft_size s1)) (at_external env)
                     (start_pool workers \<lparr>dl_pm = the (ft_pieces s1), dl_file = to_map xs, dl_total = ft_total s1\<rparr>) (at_turns env);
                   s2 = s1\<lparr>ft_local := Some (from_map (max (length xs) (nat (ft_size s1))) (dl_file (po_state p))),
                           ft_pieces := Some (dl_pm (po_state p)), ft_total := dl_total (po_state p)\<rparr>
               in if po_panic p then (s2, Panicked)
                  else if \<not> pool_finished workers p then (s2, StillRunning)
                  else after_pool env (po_error p) s2))"

definition do_download :: "download_config \<Rightarrow> attempt_env \<Rightarrow> fetch \<Rightarrow> fetch \<times> flow_end" where
  "do_download cfg env s =
     (if dc_max_connections cfg \<le> 0
      then (s, Returned (Some (Plain (''MaxConnections must be positive, got '' @ show_int (dc_max_connections cfg)))))
      else case probe_size env (fst (load_progress (at_readable env) s)) of
          SkipUnchanged s1 \<Rightarrow> (s1, Returned None)
        | ProbeFailed s1 e \<Rightarrow> (s1, Returned (Some e))
        | Probed s1 n ranged \<Rightarrow>
            (case resume_from env (s1\<lparr>ft_size := n\<rparr>) of
               (s2, None) \<Rightarrow> (s2, Returned None)
             | (s2, Some completed) \<Rightarrow>
                 if \<not> ranged \<or> n \<le> 0 then single_end (single_download (at_fetch env) (at_server env) s2)
                 else piece_download cfg env completed s2))"

section \<open>Download\<close>

text \<open>
  \<open>Download\<close> retries the attempt; the n-th attempt meets \<open>envs n\<close>. An attempt that panics or never returns
  ends the call there: the retry loop is left and the result says so. \<open>ctx\<close> and \<open>sleep\<close> are the context and
  the waits between attempts.
\<close>

record retry_world =
  rw_fetch :: fetch
  rw_attempts :: nat
  rw_end :: flow_end

definition attempt_call :: "download_config \<Rightarrow> (nat \<Rightarrow> attempt_env) \<Rightarrow> retry_world \<Rightarrow> retry_world \<times> go_error option" where
  "attempt_call cfg envs w =
     (case do_download cfg (envs (rw_attempts w)) (rw_fetch w) of
        (s, r) \<Rightarrow> (w\<lparr>rw_fetch := s, rw_attempts := rw_attempts w + 1, rw_end := r\<rparr>,
          case r of Returned e \<Rightarrow> e | _ \<Rightarrow> None))"

definition download :: "download_config \<Rightarrow> (nat \<Rightarrow> attempt_env) \<Rightarrow> (retry_world \<Rightarrow> go_error option) \<Rightarrow>
    (duration \<Rightarrow> retry_world \<Rightarrow> retry_world \<times> go_error option) \<Rightarrow> instant \<Rightarrow> retry_config \<Rightarrow> fetch \<Rightarrow> fetch \<times> flow_end" where
  "download cfg envs ctx sleep now rc s =
     (if ho_dry_run (dc_http cfg) then (s, Returned None)
      else
        let renv = \<lparr>call = attempt_call cfg envs, ctx_err = ctx, wait = sleep\<rparr>;
            (w, r, _, _) = do_with_retry_with_logger renv rc
              \<lparr>rw_fetch = s\<lparr>ft_last_save := now\<rparr>, rw_attempts = 0, rw_end = Returned None\<rparr>
        in (rw_fetch w, case rw_end w of Returned _ \<Rightarrow> Returned r | e \<Rightarrow> e))"

end
