(* ===== verification/SingleDownloadProps.thy ===== *)
theory SingleDownloadProps
  imports SingleDownload
begin

text \<open>
  What a finished single-connection download leaves on disk: the exact result of a resume, the case
  in which it is right, and the cases in which the file is damaged without an error.
\<close>

section \<open>The loop writes what arrives\<close>

lemma save_local [simp]:
  "ft_local (save_or_log ok now s) = ft_local s" "local_bytes (save_or_log ok now s) = local_bytes s"
  "ft_size (save_or_log ok now s) = ft_size s" "ft_path (save_or_log ok now s) = ft_path s"
  "ft_total (save_or_log ok now s) = ft_total s" "ft_conditional (save_or_log ok now s) = ft_conditional s"
  by (auto simp: save_or_log_def save_progress_def local_bytes_def Let_def)

lemma record_local [simp]:
  "ft_local (fst (record_speed_and_check_save now n s)) = ft_local s"
  "ft_size (fst (record_speed_and_check_save now n s)) = ft_size s"
  "ft_total (fst (record_speed_and_check_save now n s)) = ft_total s"
  by (simp_all add: record_speed_and_check_save_def Let_def)

lemma drop_control_local [simp]:
  "ft_local (drop_control_file env s) = ft_local s" "ft_local (finish_transfer env now s) = ft_local s"
  by (simp_all add: drop_control_file_def finish_transfer_def)

text \<open>Bodies that deliver \<open>rest\<close>: in order, and an end of body only after all of it.\<close>

fun honest_body :: "8 word list \<Rightarrow> fetch_event list \<Rightarrow> bool" where
  "honest_body rest [] \<longleftrightarrow> True"
| "honest_body rest (Tick _ # es) \<longleftrightarrow> honest_body rest es"
| "honest_body rest (Arrives ev # es) \<longleftrightarrow>
     (\<exists>more. rest = ev_data ev @ more \<and>
       (case ev_end ev of MoreData \<Rightarrow> honest_body more es | EndOfBody \<Rightarrow> more = [] | ReadError _ \<Rightarrow> True))"

lemma overwrite_append:
  "overwrite (overwrite xs p as) (p + length as) bs = overwrite xs p (as @ bs)"
proof -
  have e: "min (length xs) p + (p - length xs) = p" by simp
  show ?thesis by (auto simp: overwrite_def e) (simp add: ac_simps)
qed

lemma overwrite_Nil [simp]: "overwrite xs p [] = xs"
  by (simp add: overwrite_def)

lemma local_bytes_Some: "ft_local s = Some xs \<Longrightarrow> local_bytes s = xs"
  by (simp add: local_bytes_def)

lemma body_data_local:
  assumes "body_data ok ev p s = Inr s1" "ft_local s = Some xs"
  shows "ft_local s1 = Some (overwrite xs p (ev_data ev))"
proof (cases "ev_data ev = []")
  case True
  with assms show ?thesis by (simp add: body_data_def)
next
  case False
  obtain s2 b where r: "record_speed_and_check_save (ev_now ev) (int (length (ev_data ev)))
      ((write_local p (ev_data ev) s)\<lparr>ft_total := ft_total s + int (length (ev_data ev))\<rparr>) = (s2, b)"
    by (cases "record_speed_and_check_save (ev_now ev) (int (length (ev_data ev)))
      ((write_local p (ev_data ev) s)\<lparr>ft_total := ft_total s + int (length (ev_data ev))\<rparr>)")
  have "ft_local s2 = Some (overwrite xs p (ev_data ev))"
    using arg_cong [OF r, of "\<lambda>x. ft_local (fst x)"] assms(2) by (simp add: write_local_def local_bytes_Some)
  with False assms(1) r show ?thesis
    by (auto simp: body_data_def Let_def split: option.splits prod.splits if_splits)
qed

lemma body_loop_local:
  "body_loop ok es p s = (s', Some None) \<Longrightarrow> ft_local s = Some xs \<Longrightarrow> honest_body rest es \<Longrightarrow>
   ft_local s' = Some (overwrite xs p rest)"
proof (induction ok es p s arbitrary: xs rest rule: body_loop.induct)
  case (2 ok now es p s)
  then show ?case by simp
next
  case (3 ok ev es p s)
  from "3.prems"(3) obtain more where m: "rest = ev_data ev @ more"
      "case ev_end ev of MoreData \<Rightarrow> honest_body more es | EndOfBody \<Rightarrow> more = [] | ReadError _ \<Rightarrow> True" by auto
  from "3.prems"(1) have c: "ev_ctx ev = None" by (auto split: option.splits)
  from "3.prems"(1) c obtain s1 where d: "body_data ok ev p s = Inr s1" by (auto split: sum.splits)
  note l = body_data_local [OF d "3.prems"(2)]
  show ?case
  proof (cases "ev_end ev")
    case MoreData
    then have "body_loop ok es (p + length (ev_data ev)) s1 = (s', Some None)" "honest_body more es"
      using "3.prems"(1) c d m(2) by simp_all
    from "3.IH" [OF c d MoreData this(1) l this(2)] show ?thesis by (simp add: m(1) overwrite_append)
  next
    case EndOfBody
    then show ?thesis using "3.prems"(1) c d m l by simp
  next
    case (ReadError e)
    then show ?thesis using "3.prems"(1) c d by simp
  qed
qed simp

section \<open>The exact result of a resume\<close>

text \<open>An honest server of \<open>content\<close>: whatever it answers, its bodies are what the status promises.\<close>

definition honest_answer :: "8 word list \<Rightarrow> int option \<Rightarrow> http_answer \<Rightarrow> bool" where
  "honest_answer content from a \<longleftrightarrow>
     (an_status a = 200 \<longrightarrow> honest_body content (an_body a)) \<and>
     (\<forall>k. from = Some k \<longrightarrow> an_status a = 206 \<longrightarrow> honest_body (drop (nat k) content) (an_body a))"

definition honest_server :: "8 word list \<Rightarrow> server \<Rightarrow> bool" where
  "honest_server content srv \<longleftrightarrow> (\<forall>n from. honest_answer content from (srv n from))"

lemma body_loop_ok_prod:
  "(case body_loop ok es p s of (s1, Some None) \<Rightarrow> (f s1, Some None) | x \<Rightarrow> x) = (s', Some None) \<Longrightarrow>
   \<exists>s1. body_loop ok es p s = (s1, Some None) \<and> s' = f s1"
  by (auto split: prod.splits option.splits)

lemma body_loop_ok_ended:
  "(case body_loop ok es p s of (s1, Some None) \<Rightarrow> Ended (f s1) (Some None) | (s1, r) \<Rightarrow> Ended s1 r) = Ended s' (Some None) \<Longrightarrow>
   \<exists>s1. body_loop ok es p s = (s1, Some None) \<and> s' = f s1"
  by (auto split: prod.splits option.splits)

lemma fresh_download_local:
  assumes "fresh_download env srv s = (s', Some None)" "honest_server content srv"
  shows "ft_local s' = Some content"
proof -
  let ?a = "srv (ft_requests s) None"
  have st: "an_status ?a = 200"
    using assms(1) by (auto simp: fresh_download_def ask_def split: option.splits if_splits)
  then have h: "honest_body content (an_body ?a)"
    using assms(2) by (auto simp: honest_server_def honest_answer_def)
  obtain s1 where "body_loop (en_save env) (an_body ?a) 0
      ((s\<lparr>ft_requests := ft_requests s + 1\<rparr>)\<lparr>ft_local := Some []\<rparr>) = (s1, Some None)" "s' = finish_transfer env (an_now ?a) s1"
    using assms(1) st
    by (auto simp: fresh_download_def ask_def split: option.splits if_splits dest!: body_loop_ok_prod)
  from body_loop_local [OF this(1) _ h] this(2) show ?thesis by (simp add: overwrite_def split: if_splits)
qed

lemma resume_result:
  assumes "resume_download env srv k s = Ended s' (Some None)" "honest_server content srv"
    "0 \<le> k" "k < int (length content)"
  shows "ft_local s' = Some
    (if an_status (srv (ft_requests s) (Some k)) = 200 then content
     else take (nat k) (local_bytes s @ replicate (nat k - length (local_bytes s)) 0) @
       drop (nat k) content @ drop (length content) (local_bytes s))"
proof -
  let ?a = "srv (ft_requests s) (Some k)" and ?s = "s\<lparr>ft_requests := ft_requests s + 1\<rparr>"
  have honest: "honest_answer content (Some k) ?a" using assms(2) by (simp add: honest_server_def)
  have none: "an_create ?a = None" "an_do ?a = None" "an_open ?a = None" "an_status ?a = 200 \<or> an_status ?a = 206"
    using assms(1) by (auto simp: resume_download_def ask_def Let_def split: option.splits if_splits)
  show ?thesis
  proof (cases "an_status ?a = 200")
    case True
    then obtain s1 where b: "body_loop (en_save env) (an_body ?a) 0 ((reset_progress ?s)\<lparr>ft_local := Some []\<rparr>) = (s1, Some None)"
      "s' = save_or_log (en_save env) (an_now ?a) s1"
      using assms(1) none by (auto simp: resume_download_def ask_def dest!: body_loop_ok_ended)
    have "honest_body content (an_body ?a)" using honest True by (simp add: honest_answer_def)
    from body_loop_local [OF b(1) _ this] b(2) True show ?thesis by (simp add: overwrite_def split: if_splits)
  next
    case False
    then have st: "an_status ?a = 206" using none(4) by simp
    then have seek: "an_seek ?a = None"
      using assms(1) none by (auto simp: resume_download_def ask_def Let_def split: option.splits)
    obtain s1 where b: "body_loop (en_save env) (an_body ?a) (nat k)
        ((?s\<lparr>ft_local := Some (local_bytes ?s)\<rparr>)\<lparr>ft_total := k\<rparr>) = (s1, Some None)" "s' = finish_transfer env (an_now ?a) s1"
      using assms(1) none(1-3) seek st by (auto simp: resume_download_def ask_def Let_def dest!: body_loop_ok_ended)
    have h: "honest_body (drop (nat k) content) (an_body ?a)" using honest st by (simp add: honest_answer_def)
    have "local_bytes ?s = local_bytes s" by (simp add: local_bytes_def)
    moreover have "drop (nat k) content \<noteq> []" "nat k + length (drop (nat k) content) = length content"
      using assms(3,4) by simp_all
    ultimately show ?thesis
      using body_loop_local [OF b(1) _ h] b(2) st by (simp add: overwrite_def)
  qed
qed

text \<open>
  What a successful resume at byte \<open>k\<close> leaves. With the answer 206: the first \<open>k\<close> bytes of whatever file
  was there, zeros if it was shorter or missing, then the rest of the resource, and behind it whatever
  an older, longer file had there. With the answer 200: the resource.
\<close>
theorem resume_result_exact:
  assumes "resume_download env srv k s = Ended s' (Some None)" "honest_server content srv"
    "0 \<le> k" "k < int (length content)"
  shows "ft_local s' = Some
    (if an_status (srv (ft_requests s) (Some k)) = 200 then content
     else take (nat k) (local_bytes s @ replicate (nat k - length (local_bytes s)) 0) @
       drop (nat k) content @ drop (length content) (local_bytes s))"
  by (rule resume_result [OF assms])

section \<open>When the download is right\<close>

text \<open>What the code takes for granted about the file when it resumes or skips.\<close>

definition local_sound :: "8 word list \<Rightarrow> fetch \<Rightarrow> bool" where
  "local_sound content s \<longleftrightarrow>
     (case plan_single s of
        AlreadyDone \<Rightarrow> ft_local s = Some content
      | StartOver \<Rightarrow> True
      | ResumeAt k \<Rightarrow> nat k \<le> length (local_bytes s) \<and> length (local_bytes s) \<le> length content \<and>
          take (nat k) (local_bytes s) = take (nat k) content)"

lemma no_progress_plan: "\<not> has_progress s \<Longrightarrow> plan_single s = StartOver"
  by (auto simp: plan_single_def has_progress_def existing_progress_def Let_def split: option.splits)

lemma plan_resume_range: "plan_single s = ResumeAt k \<Longrightarrow> 0 < k \<and> k < ft_size s"
  by (auto simp: plan_single_def Let_def split: if_splits)

lemma single_download_correct_lemma:
  assumes "single_download env srv s = (s', Some None)" "honest_server content srv"
    "ft_size s = int (length content)" "local_sound content s"
  shows "ft_local s' = Some content"
proof (cases "plan_single s")
  case AlreadyDone
  then show ?thesis using assms(1,4) by (auto simp: single_download.simps [of env srv s] local_sound_def)
next
  case StartOver
  then show ?thesis using assms(1,2) fresh_download_local by (simp add: single_download.simps [of env srv s])
next
  case (ResumeAt k)
  have k: "0 \<le> k" "k < int (length content)" using plan_resume_range [OF ResumeAt] assms(3) by simp_all
  have sound: "nat k \<le> length (local_bytes s)" "length (local_bytes s) \<le> length content"
      "take (nat k) (local_bytes s) = take (nat k) content"
    using assms(4) ResumeAt by (simp_all add: local_sound_def)
  show ?thesis
  proof (cases "resume_download env srv k s")
    case (Restart t)
    then have "single_download env srv s = fresh_download env srv t"
      using ResumeAt no_progress_plan [OF restart_no_progress [OF Restart]]
      by (simp add: single_download.simps [of env srv s] single_download.simps [of env srv t])
    then show ?thesis using assms(1,2) fresh_download_local by simp
  next
    case (Ended t r)
    then have "resume_download env srv k s = Ended s' (Some None)"
      using assms(1) ResumeAt by (simp add: single_download.simps [of env srv s])
    from resume_result [OF this assms(2) k] sound show ?thesis by (simp split: if_splits)
  qed
qed


text \<open>
  C11: If the beginning of the local file that the download resumes from is indeed the beginning of the
  resource, and no longer than it, then a single-connection download that returns no error leaves
  exactly the resource, whichever of starting over, resuming, the restart after 200 and the restart
  after 416 it goes through, and whatever read, write, rate-limit and save errors it meets on the way.
\<close>
theorem single_download_correct:
  assumes "single_download env srv s = (s', Some None)" "honest_server content srv"
    "ft_size s = int (length content)" "local_sound content s"
  shows "ft_local s' = Some content"
  by (rule single_download_correct_lemma [OF assms])

section \<open>Witnesses, and a download that is wrong\<close>

definition ok_read :: "8 word list \<Rightarrow> read_end \<Rightarrow> fetch_event" where
  "ok_read bs e = Arrives \<lparr>ev_data = bs, ev_end = e, ev_limit = None, ev_write = None, ev_now = 7, ev_ctx = None\<rparr>"

definition ok_answer :: "int \<Rightarrow> fetch_event list \<Rightarrow> http_answer" where
  "ok_answer st es = \<lparr>an_create = None, an_do = None, an_status = st, an_text = [], an_mkdir = None, an_open = None,
     an_seek = None, an_remove = None, an_body = es, an_now = 8\<rparr>"

text \<open>A server of \<open>content\<close> that serves ranges, two bytes and then the rest.\<close>

definition plain_server :: "8 word list \<Rightarrow> server" where
  "plain_server content n from =
     (let rest = (case from of None \<Rightarrow> content | Some k \<Rightarrow> drop (nat k) content) in
      ok_answer (if from = None then 200 else 206) [ok_read (take 2 rest) MoreData, Tick 3, ok_read (drop 2 rest) EndOfBody])"

lemma plain_server_honest: "honest_server content (plain_server content)"
proof -
  have "honest_body rest [ok_read (take 2 rest) MoreData, Tick 3, ok_read (drop 2 rest) EndOfBody]" for rest
    by (auto simp: ok_read_def intro!: exI [of _ "drop 2 rest"])
  then show ?thesis
    by (auto simp: honest_server_def honest_answer_def plain_server_def ok_answer_def Let_def simp del: drop_drop)
qed

definition idle_fetch :: fetch where
  "idle_fetch = \<lparr>ft_url = ''http://h/f'', ft_local = None, ft_cf = None, ft_path = True, ft_stored = None,
     ft_conditional = False, ft_remote = \<lparr>rm_last_modified = [], rm_etag = [], rm_disposition = []\<rparr>, ft_total = 0,
     ft_size = 5, ft_pieces = None, ft_since = 0, ft_last_save = 1, ft_interval = 5000000000,
     ft_ring = \<lparr>sr_samples = replicate 20 (zero_time, 0), sr_head = 0, sr_count = 0\<rparr>, ft_adaptive = None, ft_requests = 0\<rparr>"

definition all_saves :: fetch_env where
  "all_saves = \<lparr>en_save = (\<lambda>_. True), en_deletable = True\<rparr>"

definition half_done :: fetch where
  "half_done = idle_fetch\<lparr>ft_local := Some [1, 2, 3], ft_cf := Some (blank_control_file\<lparr>cf_completed_length := 3\<rparr>)\<rparr>"

text \<open>It never causes an error.\<close>

lemma ok_read_step:
  "\<exists>s1. body_data ok (case ok_read bs e of Arrives ev \<Rightarrow> ev) p s = Inr s1"
  by (auto simp: body_data_def ok_read_def Let_def split: prod.splits)

lemma plain_body_completes:
  "\<exists>s1. body_loop ok [ok_read xs MoreData, Tick 3, ok_read ys EndOfBody] p s = (s1, Some None)"
proof -
  obtain s1 where 1: "body_data ok (case ok_read xs MoreData of Arrives ev \<Rightarrow> ev) p s = Inr s1" using ok_read_step by blast
  obtain s2 where 2: "body_data ok (case ok_read ys EndOfBody of Arrives ev \<Rightarrow> ev) (p + length xs) (save_or_log ok 3 s1) = Inr s2"
    using ok_read_step by blast
  show ?thesis using 1 2 by (simp add: ok_read_def)
qed

lemma plain_resume_completes:
  "\<exists>t. resume_download env (plain_server content) k s = Ended t (Some None)"
  using plain_body_completes [of "en_save env" "take 2 (drop (nat k) content)" "drop 2 (drop (nat k) content)" "nat k"
        "s\<lparr>ft_requests := ft_requests s + 1, ft_local := Some (local_bytes s), ft_total := k\<rparr>"]
  by (auto simp: resume_download_def ask_def plain_server_def ok_answer_def local_bytes_def Let_def simp del: drop_drop)

lemma plain_server_completes: "snd (single_download env (plain_server content) s) = Some None"
proof -
  have fresh: "snd (fresh_download env (plain_server content) s) = Some None" for s
    using plain_body_completes [of "en_save env" "take 2 content" "drop 2 content" 0 "s\<lparr>ft_requests := ft_requests s + 1, ft_local := Some []\<rparr>"]
    by (auto simp: fresh_download_def ask_def plain_server_def ok_answer_def)
  note resume = plain_resume_completes
  show ?thesis
  proof (cases "plan_single s")
    case (ResumeAt k)
    then show ?thesis using resume [of env content k s] by (auto simp: single_download.simps [of env _ s])
  qed (simp_all add: single_download.simps [of env _ s] fresh)
qed

lemma single_download_correct_witness:
  "ft_local (fst (single_download all_saves (plain_server [1, 2, 3, 4, 5]) half_done)) = Some [1, 2, 3, 4, 5]"
proof -
  let ?r = "single_download all_saves (plain_server [1, 2, 3, 4, 5]) half_done"
  have "?r = (fst ?r, Some None)" using plain_server_completes by (simp add: prod_eq_iff)
  moreover have "ft_size half_done = int (length [1, 2, 3, 4, 5 :: 8 word])" by (simp add: half_done_def idle_fetch_def)
  moreover have "local_sound [1, 2, 3, 4, 5] half_done" by code_simp
  ultimately show ?thesis
    using single_download_correct [OF _ plain_server_honest] by blast
qed

text \<open>
  The local file is never looked at before a resume. If the output file has been moved or deleted and
  the control file is still there, the download succeeds with a file whose beginning is zeros.
\<close>
theorem resume_without_file_zeros:
  assumes "single_download env srv s = (s', Some None)" "honest_server content srv"
    "ft_size s = int (length content)" "ft_local s = None" "ft_cf s = Some cf" "0 < cf_completed_length cf"
    "cf_completed_length cf < ft_size s" "an_status (srv (ft_requests s) (Some (cf_completed_length cf))) = 206"
  shows "ft_local s' = Some (replicate (nat (cf_completed_length cf)) 0 @ drop (nat (cf_completed_length cf)) content)"
proof -
  let ?k = "cf_completed_length cf"
  have plan: "plan_single s = ResumeAt ?k" using assms(5-7) by (simp add: plan_single_def existing_progress_def Let_def)
  have lb: "local_bytes s = []" using assms(4) by (simp add: local_bytes_def)
  have no: "resume_download env srv ?k s = Restart t \<Longrightarrow> False" for t
    using assms(8) by (auto simp: resume_download_def ask_def Let_def split: option.splits prod.splits)
  have "resume_download env srv ?k s = Ended s' (Some None)"
    using assms(1) plan no by (cases "resume_download env srv ?k s") (auto simp: single_download.simps [of env srv s])
  from resume_result [OF this assms(2)] show ?thesis using assms(3,6-8) lb by simp
qed

lemma resume_without_file_zeros_witness:
  "ft_local (fst (single_download all_saves (plain_server [1, 2, 3, 4, 5]) (half_done\<lparr>ft_local := None\<rparr>))) = Some [0, 0, 0, 4, 5]"
proof -
  let ?s = "half_done\<lparr>ft_local := None\<rparr>"
  let ?r = "single_download all_saves (plain_server [1, 2, 3, 4, 5]) ?s"
  have "?r = (fst ?r, Some None)" using plain_server_completes by (simp add: prod_eq_iff)
  from resume_without_file_zeros [OF this plain_server_honest, of "blank_control_file\<lparr>cf_completed_length := 3\<rparr>"]
  show ?thesis by (simp add: half_done_def idle_fetch_def plain_server_def ok_answer_def numeral_eq_Suc)
qed

text \<open>A resume after the second byte over an old file of seven bytes: its tail stays.\<close>

lemma resume_result_exact_witness:
  "(case resume_download all_saves (plain_server [1, 2, 3, 4, 5]) 2 (half_done\<lparr>ft_local := Some [9, 9, 9, 9, 9, 9, 9]\<rparr>) of
      Restart t \<Rightarrow> None | Ended t r \<Rightarrow> ft_local t) = Some [9, 9, 3, 4, 5, 9, 9]"
proof -
  let ?s = "half_done\<lparr>ft_local := Some [9, 9, 9, 9, 9, 9, 9]\<rparr>"
  obtain t where "resume_download all_saves (plain_server [1, 2, 3, 4, 5]) 2 ?s = Ended t (Some None)"
    using plain_resume_completes by blast
  from resume_result_exact [OF this plain_server_honest] this show ?thesis
    by (simp add: plain_server_def ok_answer_def local_bytes_def numeral_eq_Suc)
qed

end
