(* ===== verification/WorkerPoolProps.thy ===== *)
theory WorkerPoolProps
  imports WorkerPool PieceDownloadProps
begin

text \<open>
  The pool of workers: its steps make up the attempts of \<open>PieceDownload\<close>, they keep what is on disk right,
  and when all workers have returned without an error the file is complete.
\<close>

section \<open>The steps of an attempt\<close>

lemma piece_round_steps:
  assumes "ex_ctx ex = None" "ex_wait_ctx ex = None"
  shows "piece_round fl k eo fsize s tot ex =
    (case top_step k eo fsize tot s of
       (s1, AttemptEnds r) \<Rightarrow> (s1, tot, Return r)
     | (s1, Stay (Requesting off len final t)) \<Rightarrow> (case answer_step k off len t ex s1 of
           (s2, AttemptEnds r) \<Rightarrow> (s2, tot, Return r)
         | (s2, Stay (Reading r)) \<Rightarrow> (case read_loop fl k s2 r (ex_body ex off final) of
               (s3, r3, LeaveInner slow) \<Rightarrow> (s3, rd_total r3, if slow then Return (Some err_low_speed) else GoOn)
             | (s3, r3, Return e) \<Rightarrow> (s3, rd_total r3, Return e)
             | (s3, r3, GoOn) \<Rightarrow> (s3, rd_total r3, LeaveInner False))
         | (s2, _) \<Rightarrow> (s2, tot, GoOn))
     | (s1, _) \<Rightarrow> (s1, tot, GoOn))"
proof (cases "is_complete (piece_of s k)")
  case True
  then show ?thesis using assms by (simp add: piece_round_def top_step_def)
next
  case False
  obtain p off len where n: "next_unused_block (piece_of s k) = (p, off, len)"
    by (cases "next_unused_block (piece_of s k)")
  show ?thesis
  proof (cases "off < 0")
    case True
    then show ?thesis using assms False n by (simp add: piece_round_def top_step_def Let_def)
  next
    case off: False
    then show ?thesis using assms False n
      by (simp add: piece_round_def top_step_def send_request_def answer_step_def Let_def split: option.split)
  qed
qed

lemma range_loop_steps:
  "range_loop k start s off (ev # evs) =
    (case range_step k start off ev s of
       (s1, RangeStay (RangeReading off1)) \<Rightarrow> range_loop k start s1 off1 evs
     | (s1, RangeStay _) \<Rightarrow> (s1, off, None)
     | (s1, RangeEnds r) \<Rightarrow>
         (s1, if ev_data ev \<noteq> [] \<and> (ev_limit ev \<noteq> None \<or> ev_write ev \<noteq> None) then off
              else off + int (length (ev_data ev)), Some r))"
  by (auto simp: range_step_def Let_def split: read_end.split option.split prod.split)

section \<open>What a step does to the pieces\<close>

definition same_extent :: "piece \<Rightarrow> piece \<Rightarrow> bool" where
  "same_extent p q \<longleftrightarrow> p_index q = p_index p \<and> p_start q = p_start p \<and> p_length q = p_length p \<and>
     bm_num (p_blocks q) = bm_num (p_blocks p) \<and> bm_block (p_blocks q) = bm_block (p_blocks p) \<and>
     bm_total (p_blocks q) = bm_total (p_blocks p)"

text \<open>The same piece, with at least the blocks it had; its status changes only when it is complete.\<close>

definition piece_grows :: "piece \<Rightarrow> piece \<Rightarrow> bool" where
  "piece_grows p q \<longleftrightarrow> same_extent p q \<and> (\<forall>i. bm_is_bit_set (p_blocks p) i \<longrightarrow> bm_is_bit_set (p_blocks q) i)"

definition works_on :: "(int \<Rightarrow> 8 word) \<Rightarrow> int \<Rightarrow> download_state \<Rightarrow> download_state \<Rightarrow> bool" where
  "works_on content k s t \<longleftrightarrow>
     pm_selector (dl_pm t) = pm_selector (dl_pm s) \<and>
     length (pm_pieces (dl_pm t)) = length (pm_pieces (dl_pm s)) \<and>
     (\<forall>j. 0 \<le> j \<and> j \<noteq> k \<longrightarrow> piece_of t j = piece_of s j) \<and>
     piece_grows (piece_of s k) (piece_of t k) \<and>
     (p_status (piece_of t k) = p_status (piece_of s k) \<or> is_complete (piece_of t k)) \<and>
     keeps_good content (dl_file s) (dl_file t)"

lemma piece_grows_refl [simp]: "piece_grows p p"
  by (simp add: piece_grows_def same_extent_def)

lemma piece_grows_trans: "piece_grows p q \<Longrightarrow> piece_grows q r \<Longrightarrow> piece_grows p r"
  by (simp add: piece_grows_def same_extent_def)

lemma grown_complete:
  assumes "piece_grows p q" "piece_wf p" "piece_wf q" "is_complete p"
  shows "is_complete q"
  using assms bm_all_iff [OF piece_wfD(2) [OF assms(2)]] bm_all_iff [OF piece_wfD(2) [OF assms(3)]]
  by (simp add: is_complete_def piece_grows_def same_extent_def)

lemma grows_cancel [simp]: "piece_grows p (cancel_block p i)"
  by (simp add: piece_grows_def same_extent_def cancel_block_def)

lemma grows_use [simp]: "piece_grows p (p\<lparr>p_blocks := bm_set_use_bit (p_blocks p) i\<rparr>)"
  by (simp add: piece_grows_def same_extent_def)

lemma grows_status [simp]:
  "piece_grows p (set_piece_status p st)" "piece_grows p (set_owner p c)"
  by (simp_all add: piece_grows_def same_extent_def set_piece_status_def set_owner_def)

lemma cancel_status [simp]: "p_status (cancel_block p i) = p_status p"
  by (simp add: cancel_block_def)

lemma grows_complete: "piece_wf p \<Longrightarrow> piece_grows p (complete_block p i)"
  using completed.mem_add [OF piece_wfD(7)]
  by (auto simp: piece_grows_def same_extent_def complete_block_def Let_def)

lemma complete_status: "p_status (complete_block p i) = p_status p \<or> is_complete (complete_block p i)"
  by (simp add: complete_block_def Let_def is_complete_def)

lemma works_on_refl [simp]: "works_on content k s s"
  by (simp add: works_on_def)

lemma works_on_trans:
  assumes "works_on content k s t" "works_on content k t u" "piece_wf (piece_of t k)" "piece_wf (piece_of u k)"
  shows "works_on content k s u"
  using assms grown_complete [of "piece_of t k" "piece_of u k"] piece_grows_trans
  by (auto simp: works_on_def keeps_good_def)

lemma works_on_file:
  "keeps_good content (dl_file s) f \<Longrightarrow> works_on content k s (s\<lparr>dl_file := f, dl_total := n\<rparr>)"
  by (simp add: works_on_def piece_of_def)

lemma piece_of_with_piece_other [simp]:
  "0 \<le> j \<Longrightarrow> 0 \<le> k \<Longrightarrow> j \<noteq> k \<Longrightarrow> piece_of (with_piece s k p) j = piece_of s j"
  by (simp add: piece_of_def with_piece_def update_piece_def nat_eq_iff)

lemma works_on_with_piece:
  assumes "piece_slot s k" "piece_grows (piece_of s k) p" "p_status p = p_status (piece_of s k) \<or> is_complete p"
  shows "works_on content k s (with_piece s k p)"
  using assms piece_slotD [OF assms(1)]
  by (simp add: works_on_def) (simp add: with_piece_def update_piece_def)

lemma is_complete_status [simp]: "is_complete (set_piece_status p st) = is_complete p"
  by (simp add: is_complete_def set_piece_status_def)

lemma finish_piece_with:
  assumes "piece_slot s k" "p_index (piece_of s k) = k"
  shows "finish_piece s k = with_piece s k (set_piece_status (piece_of s k) PieceComplete)"
  using assms piece_slotD [OF assms(1)]
  by (simp add: finish_piece_def complete_piece_def with_piece_def piece_of_def)

lemma works_on_finish:
  assumes "piece_slot s k" "p_index (piece_of s k) = k" "is_complete (piece_of s k)"
  shows "works_on content k s (finish_piece s k)"
  unfolding finish_piece_with [OF assms(1,2)] using assms by (intro works_on_with_piece) simp_all

text \<open>Pieces at their own index, with the blocks they claim on disk.\<close>

definition disk_ok :: "(int \<Rightarrow> 8 word) \<Rightarrow> download_state \<Rightarrow> bool" where
  "disk_ok content s \<longleftrightarrow> disk_good content s \<and> (\<forall>k. piece_slot s k \<longrightarrow> p_index (piece_of s k) = k)"

lemma disk_okD:
  "disk_ok content s \<Longrightarrow> disk_good content s"
  "disk_ok content s \<Longrightarrow> piece_slot s k \<Longrightarrow> p_index (piece_of s k) = k"
  "disk_ok content s \<Longrightarrow> piece_slot s k \<Longrightarrow> piece_good content (dl_file s) (piece_of s k)"
  "disk_ok content s \<Longrightarrow> piece_slot s k \<Longrightarrow> piece_wf (piece_of s k)"
  by (auto simp: disk_ok_def piece_slot_def dest: disk_good_piece_of simp: piece_good_def)

lemma works_on_slot: "works_on content k s t \<Longrightarrow> piece_slot t j \<longleftrightarrow> piece_slot s j"
  by (simp add: works_on_def piece_slot_def)

lemma works_on_other: "works_on content k s t \<Longrightarrow> 0 \<le> j \<Longrightarrow> j \<noteq> k \<Longrightarrow> piece_of t j = piece_of s j"
  by (simp add: works_on_def)

lemma works_on_extent: "works_on content k s t \<Longrightarrow> 0 \<le> j \<Longrightarrow> same_extent (piece_of s j) (piece_of t j)"
  by (cases "j = k") (auto simp: works_on_def piece_grows_def same_extent_def)

lemma works_on_disk_ok:
  assumes "works_on content k s t" "disk_ok content s" "disk_good content t"
  shows "disk_ok content t"
  using assms works_on_extent [OF assms(1)] works_on_slot [OF assms(1)]
  by (fastforce simp: disk_ok_def same_extent_def piece_slot_def)

section \<open>The steps keep the disk right\<close>

definition phase_ok :: "(int \<Rightarrow> 8 word) \<Rightarrow> download_state \<Rightarrow> int \<Rightarrow> phase \<Rightarrow> bool" where
  "phase_ok content s k ph \<longleftrightarrow>
     (case ph of
        Requesting off len final t \<Rightarrow> \<exists>i. 0 \<le> i \<and> i < bm_num (p_blocks (piece_of s k)) \<and>
          off = block_start (piece_of s k) i \<and> len = bm_block_length (p_blocks (piece_of s k)) i
      | Reading r \<Rightarrow> reader_at content (dl_file s) (piece_of s k) r \<and> 0 < rd_remaining r
      | _ \<Rightarrow> True)"

lemma phase_ok_simps [simp]: "phase_ok content s k Waiting" "phase_ok content s k (AtTop t)"
  by (simp_all add: phase_ok_def)

definition end_ok :: "(int \<Rightarrow> 8 word) \<Rightarrow> download_state \<Rightarrow> int \<Rightarrow> phase_end \<Rightarrow> bool" where
  "end_ok content s k e \<longleftrightarrow>
     (case e of Stay ph \<Rightarrow> phase_ok content s k ph | AttemptEnds r \<Rightarrow> r = None \<longrightarrow> is_complete (piece_of s k))"

definition step_ok :: "(int \<Rightarrow> 8 word) \<Rightarrow> int \<Rightarrow> download_state \<Rightarrow> download_state \<times> phase_end \<Rightarrow> bool" where
  "step_ok content k s r \<longleftrightarrow> works_on content k s (fst r) \<and> disk_good content (fst r) \<and> end_ok content (fst r) k (snd r)"

lemma step_okI:
  "works_on content k s t \<Longrightarrow> disk_good content t \<Longrightarrow> end_ok content t k e \<Longrightarrow> step_ok content k s (t, e)"
  by (simp add: step_ok_def)

lemma with_same_piece [simp]: "with_piece s k (piece_of s k) = s"
  by (simp add: with_piece_def piece_of_def update_piece_def)

lemma finish_complete:
  assumes "piece_slot s k" "p_index (piece_of s k) = k"
  shows "is_complete (piece_of (finish_piece s k) k) = is_complete (piece_of s k)"
  using assms piece_slotD [OF assms(1)] by (simp add: finish_piece_with)

lemma finish_step:
  assumes "disk_ok content s" "piece_slot s k" "is_complete (piece_of s k)"
  shows "step_ok content k s (finish_piece s k, AttemptEnds None)"
proof (rule step_okI)
  note i = disk_okD(2) [OF assms(1,2)]
  show "works_on content k s (finish_piece s k)" using assms i by (intro works_on_finish)
  show "disk_good content (finish_piece s k)" by (rule disk_good_finish [OF disk_okD(1) [OF assms(1)]])
  show "end_ok content (finish_piece s k) k (AttemptEnds None)"
    using finish_complete [OF assms(2) i] assms(3) by (simp add: end_ok_def)
qed

lemma top_step_ok:
  assumes "disk_ok content s" "piece_slot s k"
  shows "step_ok content k s (top_step k eo fsize tot s)"
proof (cases "is_complete (piece_of s k)")
  case True
  then show ?thesis using finish_step [OF assms] by (simp add: top_step_def)
next
  case False
  note k = piece_slotD [OF assms(2)] and pg = disk_okD(3) [OF assms]
  from disk_okD(4) [OF assms] show ?thesis
  proof (cases rule: next_unused_cases)
    case none
    then show ?thesis using False disk_okD(1) [OF assms(1)]
      by (simp add: top_step_def step_ok_def end_ok_def)
  next
    case (block i)
    let ?p = "(piece_of s k)\<lparr>p_blocks := bm_set_use_bit (p_blocks (piece_of s k)) i\<rparr>"
    have "works_on content k s (with_piece s k ?p)" using assms(2) by (intro works_on_with_piece) simp_all
    moreover have "disk_good content (with_piece s k ?p)"
      using good_next_unused [OF pg] block(5) by (intro disk_good_with_piece disk_okD(1) [OF assms(1)]) simp
    ultimately show ?thesis using False block k
      by (auto simp: top_step_def step_ok_def end_ok_def phase_ok_def Let_def)
  qed
qed

lemma cancel_step:
  assumes "disk_ok content s" "piece_slot s k"
  shows "step_ok content k s (with_piece s k (cancel_block (piece_of s k) i), AttemptEnds (Some e))"
proof (rule step_okI)
  show "works_on content k s (with_piece s k (cancel_block (piece_of s k) i))"
    using assms(2) by (intro works_on_with_piece) simp_all
  show "disk_good content (with_piece s k (cancel_block (piece_of s k) i))"
    by (intro disk_good_with_piece good_cancel disk_okD(1,3) [OF assms(1)] assms(2))
qed (simp add: end_ok_def)

lemma answer_step_ok:
  assumes "disk_ok content s" "piece_slot s k" "phase_ok content s k (Requesting off len final t)"
  shows "step_ok content k s (answer_step k off len t ex s)"
proof -
  obtain i where i: "0 \<le> i" "i < bm_num (p_blocks (piece_of s k))" "off = block_start (piece_of s k) i"
    "len = bm_block_length (p_blocks (piece_of s k)) i"
    using assms(3) by (auto simp: phase_ok_def)
  have w: "piece_wf (piece_of s k)" by (rule disk_okD(4) [OF assms(1,2)])
  note ins = block_inside [OF piece_wfD(1) [OF w] i(1,2)]
  have idx: "block_index_for_offset (piece_of s k) off = i"
    using offset_block [OF w i(1,2), of 0] ins i(3) by (simp add: block_start_def)
  note c = cancel_step [OF assms(1,2), of i]
  have r: "step_ok content k s (s, Stay (Reading \<lparr>rd_offset = off, rd_block = i, rd_remaining = len,
      rd_low_bytes = 0, rd_low_start = ex_start ex, rd_total = t\<rparr>))"
    using i ins(4) disk_okD(1) [OF assms(1)] by (auto simp: step_ok_def end_ok_def phase_ok_def reader_at_def)
  show ?thesis
    using c r by (simp add: answer_step_def idx Let_def split: option.split)
qed

text \<open>The read loop.\<close>

lemma works_on_cancel: "piece_slot s k \<Longrightarrow> works_on content k s (cancel_current s k r)"
  unfolding cancel_current_def by (intro works_on_with_piece) simp_all

lemma block_advance_works:
  assumes "disk_ok content s" "piece_slot s k" "block_advance s k r = (t, r', v)"
  shows "works_on content k s t \<and> (v = Return None \<longrightarrow> is_complete (piece_of t k)) \<and> (\<forall>e. v \<noteq> Return (Some e))"
proof -
  let ?q = "complete_block (piece_of s k) (rd_block r)"
  note k = piece_slotD [OF assms(2)] and w = disk_okD(4) [OF assms(1,2)]
  have q: "piece_grows (piece_of s k) ?q" "piece_wf ?q" using grows_complete [OF w] wf_complete [OF w] by simp_all
  then have qi: "p_index ?q = k" using disk_okD(2) [OF assms(1,2)] by (simp add: piece_grows_def same_extent_def)
  have slot: "piece_slot (with_piece s k ?q) k" using assms(2) by (simp add: piece_slot_def)
  show ?thesis
  proof (cases "is_complete ?q")
    case True
    have f: "finish_piece (with_piece s k ?q) k = with_piece s k (set_piece_status ?q PieceComplete)"
      using finish_piece_with [OF slot] qi k by simp
    have "works_on content k s (with_piece s k (set_piece_status ?q PieceComplete))"
      using q(1) True by (intro works_on_with_piece assms(2)) (auto intro: piece_grows_trans)
    then show ?thesis using True assms(3) f k by (auto simp: block_advance_def Let_def)
  next
    case False
    have st: "p_status ?q = p_status (piece_of s k)" using complete_status [of "piece_of s k"] False by blast
    from q(2) show ?thesis
    proof (cases rule: next_unused_cases)
      case none
      then have "t = with_piece s k ?q" "v = LeaveInner False" using False assms(3) by (auto simp: block_advance_def Let_def)
      then show ?thesis using q(1) st assms(2) by (auto intro: works_on_with_piece)
    next
      case (block i)
      let ?q' = "?q\<lparr>p_blocks := bm_set_use_bit (p_blocks ?q) i\<rparr>"
      have "t = with_piece s k ?q'" "v \<noteq> Return e" for e
        using block(5,7) False assms(3) by (auto simp: block_advance_def Let_def split: if_splits)
      moreover have "works_on content k s (with_piece s k ?q')"
        using q(1) st by (intro works_on_with_piece assms(2)) (auto intro: piece_grows_trans)
      ultimately show ?thesis by blast
    qed
  qed
qed

lemma read_data_works:
  assumes "disk_ok content s" "reader_ok content s k r" "ev_data ev \<noteq> []"
    "\<forall>j < length (ev_data ev). ev_data ev ! j = content (rd_offset r + int j)"
    "read_data fl k s r ev = (t, r', v)"
  shows "works_on content k s t \<and> (v = Return None \<longrightarrow> is_complete (piece_of t k))"
proof -
  let ?n = "int (length (ev_data ev))"
  have k: "piece_slot s k" using assms(2) by (simp add: reader_ok_def)
  have short: "works_on content k s (s\<lparr>dl_file := write_at (dl_file s) (rd_offset r) (take j (ev_data ev))\<rparr>)" for j
    using works_on_file [of content s "write_at (dl_file s) (rd_offset r) (take j (ev_data ev))" k "dl_total s"] assms(4)
    by (simp add: write_at_keeps)
  show ?thesis
  proof (cases "ev_limit ev")
    case (Some e)
    with assms(5) have "t = cancel_current s k r" "v \<noteq> Return None" by (auto simp: read_data_def Let_def)
    then show ?thesis using works_on_cancel [OF k] by simp
  next
    case lim: None
    show ?thesis
    proof (cases "ev_write ev")
      case (Some we)
      then obtain j e where we: "ev_write ev = Some (j, e)" by (cases we) auto
      let ?s = "s\<lparr>dl_file := write_at (dl_file s) (rd_offset r) (take j (ev_data ev))\<rparr>"
      have t: "t = cancel_current ?s k r" "v \<noteq> Return None" using assms(5) lim we by (auto simp: read_data_def Let_def)
      have p: "piece_of ?s k = piece_of s k" "piece_slot ?s k" using k by (simp_all add: piece_of_def piece_slot_def)
      have w: "piece_wf (piece_of s k)" by (rule disk_okD(4) [OF assms(1) k])
      have "piece_wf (piece_of (cancel_current ?s k r) k)"
        using p piece_slotD [OF p(2)] wf_cancel [OF w] by (simp add: cancel_current_def)
      with works_on_trans [OF short works_on_cancel [OF p(2)]] p w t show ?thesis by simp
    next
      case None
      let ?s1 = "s\<lparr>dl_file := write_at (dl_file s) (rd_offset r) (ev_data ev), dl_total := dl_total s + ?n\<rparr>"
      let ?r1 = "r\<lparr>rd_offset := rd_offset r + ?n, rd_remaining := rd_remaining r - ?n, rd_total := rd_total r + ?n\<rparr>"
      obtain r2 slow where ls: "low_speed_check fl ?r1 ?n (ev_now ev) = (r2, slow)"
        by (cases "low_speed_check fl ?r1 ?n (ev_now ev)")
      have w1: "works_on content k s ?s1" using assms(4) by (intro works_on_file write_at_keeps)
      have k1: "piece_slot ?s1 k" using k by (simp add: piece_slot_def)
      have "disk_good content ?s1" using assms(4) by (intro disk_good_file disk_okD(1) [OF assms(1)] write_at_keeps)
      then have d1: "disk_ok content ?s1" by (rule works_on_disk_ok [OF w1 assms(1)])
      have good: "disk_good content t" "piece_slot t k" by (rule read_data_good [OF assms(2-5)])+
      have wt: "piece_wf (piece_of t k)" using disk_good_piece_of [OF good(1) piece_slotD [OF good(2)]] by (simp add: piece_good_def)
      note join = works_on_trans [OF w1 _ disk_okD(4) [OF d1 k1] wt]
      consider (slow) "slow" "t = cancel_current ?s1 k r2" "v = LeaveInner True"
        | (full) "\<not> slow" "block_advance ?s1 k r2 = (t, r', v)"
        | (more) "\<not> slow" "t = ?s1" "v = GoOn"
        using assms(5) lim None ls by (auto simp: read_data_def Let_def split: if_splits)
      then show ?thesis
      proof cases
        case slow
        then show ?thesis using join works_on_cancel [OF k1] by simp
      next
        case full
        from block_advance_works [OF d1 k1 full(2)] join show ?thesis by blast
      next
        case more
        then show ?thesis using w1 by simp
      qed
    qed
  qed
qed

lemma read_step_works:
  assumes "disk_ok content s" "reader_ok content s k r"
    "\<forall>j < length (ev_data ev). ev_data ev ! j = content (rd_offset r + int j)"
    "read_step fl k s r ev = (t, r', v)"
  shows "works_on content k s t \<and> (v = Return None \<longrightarrow> is_complete (piece_of t k))"
proof -
  have fin: "works_on content k a t \<and> v \<noteq> Return None"
    if "reader_ok content a k b" "read_finish k a b ev = (t, r', v)" for a b
  proof -
    have "piece_slot a k" using that(1) by (simp add: reader_ok_def)
    then show ?thesis using that read_finish_good(4) [OF that] works_on_cancel [of a k content b]
      by (auto simp: read_finish_def reader_ok_def Let_def split: read_end.splits option.splits if_splits)
  qed
  show ?thesis
  proof (cases "ev_data ev = []")
    case True
    with assms(4) have "read_finish k s r ev = (t, r', v)" by (simp add: read_step_def)
    from fin [OF assms(2) this] show ?thesis by simp
  next
    case False
    obtain s1 r1 v1 where d: "read_data fl k s r ev = (s1, r1, v1)" by (cases "read_data fl k s r ev") auto
    note w = read_data_works [OF assms(1,2) False assms(3) d] and g = read_data_good [OF assms(2) False assms(3) d]
    show ?thesis
    proof (cases "v1 = GoOn")
      case True
      with assms(4) False d have f: "read_finish k s1 r1 ev = (t, r', v)" by (simp add: read_step_def)
      from True g(3) have ok: "reader_ok content s1 k r1" by simp
      have wf: "piece_wf (piece_of a k)" if "disk_good content a" "piece_slot a k" for a
        using disk_good_piece_of [OF that(1) piece_slotD [OF that(2)]] by (simp add: piece_good_def)
      note rg = read_finish_good(1,2) [OF ok f]
      from fin [OF ok f] works_on_trans [OF _ _ wf [OF g(1,2)] wf [OF rg]] w show ?thesis by blast
    next
      case no: False
      with assms(4) False d have "t = s1 \<and> v = v1" by (cases v1) (auto simp: read_step_def)
      with w show ?thesis by simp
    qed
  qed
qed

lemma body_step_ok:
  assumes "disk_ok content s" "piece_slot s k" "phase_ok content s k (Reading r)"
    "\<forall>j < length (ev_data ev). ev_data ev ! j = content (rd_offset r + int j)"
  shows "step_ok content k s (body_step fl k r ev s)"
proof -
  have ok: "reader_ok content s k r"
    using assms(1-3) by (simp add: reader_ok_def phase_ok_def disk_okD(1))
  obtain t r1 v where st: "read_step fl k s r ev = (t, r1, v)" by (cases "read_step fl k s r ev") auto
  from read_step_works [OF assms(1) ok assms(4) st] read_step_good [OF ok assms(4) st] st show ?thesis
    by (auto simp: body_step_def step_ok_def end_ok_def phase_ok_def reader_ok_def split: verdict.split)
qed

section \<open>Stolen ranges\<close>

text \<open>A stolen range starts and ends on block borders of its piece.\<close>

definition range_ok :: "download_state \<Rightarrow> int \<Rightarrow> int \<Rightarrow> int \<Rightarrow> bool" where
  "range_ok s k start final \<longleftrightarrow>
     (\<exists>i0 il. 0 \<le> i0 \<and> i0 \<le> il \<and> il < bm_num (p_blocks (piece_of s k)) \<and> start = block_start (piece_of s k) i0 \<and>
        final + 1 = block_start (piece_of s k) il + bm_block_length (p_blocks (piece_of s k)) il)"

definition range_phase_ok :: "(int \<Rightarrow> 8 word) \<Rightarrow> download_state \<Rightarrow> int \<Rightarrow> range_phase \<Rightarrow> bool" where
  "range_phase_ok content s start ph \<longleftrightarrow>
     (case ph of RangeReading off \<Rightarrow>
        start \<le> off \<and> (\<forall>x. start \<le> x \<and> x < off \<longrightarrow> dl_file s x = Some (content x))
      | _ \<Rightarrow> True)"

definition range_step_ok :: "(int \<Rightarrow> 8 word) \<Rightarrow> int \<Rightarrow> int \<Rightarrow> download_state \<Rightarrow> download_state \<times> range_end \<Rightarrow> bool" where
  "range_step_ok content k start s r \<longleftrightarrow> works_on content k s (fst r) \<and> disk_good content (fst r) \<and>
     (case snd r of RangeStay ph \<Rightarrow> range_phase_ok content (fst r) start ph | RangeEnds _ \<Rightarrow> True)"

lemma mark_fold_grows: "piece_wf p \<Longrightarrow> piece_grows p (foldl complete_block p is)"
  by (induction "is" arbitrary: p) (auto intro: piece_grows_trans grows_complete wf_complete)

lemma mark_fold_status: "p_status (foldl complete_block p is) = p_status p \<or> is_complete (foldl complete_block p is) \<or> \<not> piece_wf p"
proof (induction "is" arbitrary: p)
  case Nil
  then show ?case by simp
next
  case (Cons i "is")
  show ?case
  proof (cases "piece_wf p \<and> is_complete (complete_block p i)")
    case True
    then have "piece_wf (complete_block p i)" by (simp add: wf_complete)
    then have "is_complete (foldl complete_block (complete_block p i) is)"
      using grown_complete [OF mark_fold_grows _ _] mark_fold_set [of "complete_block p i" "is"] True by blast
    then show ?thesis by simp
  next
    case False
    then show ?thesis using Cons.IH [of "complete_block p i"] complete_status [of p i] wf_complete [of p i] by auto
  qed
qed

lemma range_finish_ok:
  assumes "disk_ok content s" "piece_slot s k" "range_ok s k start final"
    "\<forall>x. start \<le> x \<and> x < final + 1 \<longrightarrow> dl_file s x = Some (content x)"
    "range_finish k start s (final + 1) = (t, e)"
  shows "works_on content k s t \<and> disk_good content t"
proof -
  let ?p = "piece_of s k"
  note g = disk_okD(1) [OF assms(1)] and pg = disk_okD(3) [OF assms(1,2)] and w = disk_okD(4) [OF assms(1,2)]
  note k = piece_slotD [OF assms(2)]
  obtain i0 il where i: "0 \<le> i0" "i0 \<le> il" "il < bm_num (p_blocks ?p)" "start = block_start ?p i0"
      "final + 1 = block_start ?p il + bm_block_length (p_blocks ?p) il"
    using assms(3) by (auto simp: range_ok_def)
  have il: "0 \<le> il" "i0 < bm_num (p_blocks ?p)" using i by simp_all
  note insl = block_inside [OF piece_wfD(1) [OF w] il(1) i(3)] and ins0 = block_inside [OF piece_wfD(1) [OF w] i(1) il(2)]
  have "final = p_start ?p + il * bm_block (p_blocks ?p) + (bm_block_length (p_blocks ?p) il - 1)"
    using i(5) by (simp add: block_start_def)
  then have last: "block_index_for_offset ?p final = il"
    using offset_block [OF w il(1) i(3), of "bm_block_length (p_blocks ?p) il - 1"] insl by simp
  have first: "block_index_for_offset ?p start = i0"
    using offset_block [OF w i(1) il(2), of 0] ins0 i(4) by (simp add: block_start_def)
  let ?m = "mark_range ?p start final"
  have m: "?m = foldl complete_block ?p [i0..il]" by (simp add: mark_range_def first last)
  have "\<forall>i \<in> set [i0..il]. 0 \<le> i \<and> i < bm_num (p_blocks ?p) \<longrightarrow> block_on_disk content (dl_file s) ?p i"
  proof (intro ballI impI)
    fix j
    assume "j \<in> set [i0..il]"
    then have j: "i0 \<le> j" "j \<le> il" by simp_all
    show "block_on_disk content (dl_file s) ?p j"
      unfolding block_on_disk_def using assms(4) blocks_between [OF w i(1) j i(3)] i(4,5) by auto
  qed
  then have mg: "piece_good content (dl_file s) ?m" unfolding m by (rule mark_fold_good [OF pg])
  have grow: "piece_grows ?p ?m" unfolding m by (rule mark_fold_grows [OF w])
  have wm: "works_on content k s (with_piece s k ?m)"
    using grow mark_fold_status [of ?p "[i0..il]"] w unfolding m by (intro works_on_with_piece assms(2)) auto
  have gm: "disk_good content (with_piece s k ?m)" by (rule disk_good_with_piece [OF g mg])
  have "start \<le> final" using blocks_between(1) [OF w i(1,2) order_refl i(3)] insl(4) i(4,5) by simp
  then consider (part) "t = with_piece s k ?m" | (all) "t = finish_piece (with_piece s k ?m) k" "is_complete ?m"
    using assms(5) k by (auto simp: range_finish_def Let_def split: if_splits)
  then show ?thesis
  proof cases
    case part
    then show ?thesis using wm gm by simp
  next
    case all
    have slot: "piece_slot (with_piece s k ?m) k" using assms(2) by (simp add: piece_slot_def)
    have "p_index ?m = k" using grow disk_okD(2) [OF assms(1,2)] by (simp add: piece_grows_def same_extent_def)
    then have "t = with_piece s k (set_piece_status ?m PieceComplete)"
      using all finish_piece_with [OF slot] k by simp
    moreover have "works_on content k s (with_piece s k (set_piece_status ?m PieceComplete))"
      using grow all(2) by (intro works_on_with_piece assms(2)) (auto intro: piece_grows_trans)
    ultimately show ?thesis using all disk_good_finish [OF gm, of k] by simp
  qed
qed

lemma range_step_ok:
  assumes "disk_ok content s" "piece_slot s k" "range_ok s k start final" "range_phase_ok content s start (RangeReading off)"
    "\<forall>j < length (ev_data ev). ev_data ev ! j = content (off + int j)"
    "ev_end ev = EndOfBody \<longrightarrow> off + int (length (ev_data ev)) = final + 1"
  shows "range_step_ok content k start s (range_step k start off ev s)"
proof -
  let ?n = "int (length (ev_data ev))"
  let ?f = "write_at (dl_file s) off"
  let ?s1 = "s\<lparr>dl_file := ?f (ev_data ev), dl_total := dl_total s + ?n\<rparr>"
  note g = disk_okD(1) [OF assms(1)]
  have kg: "keeps_good content (dl_file s) (?f (take j (ev_data ev)))" for j using assms(5) by (intro write_at_keeps) simp
  have part: "range_step_ok content k start s (s\<lparr>dl_file := ?f (take j (ev_data ev))\<rparr>, RangeEnds e)" for j e
    using works_on_file [OF kg [of j], of k "dl_total s"] disk_good_file [OF g kg [of j], of "dl_total s"] by (simp add: range_step_ok_def)
  have w1: "works_on content k s ?s1" "disk_good content ?s1"
    using works_on_file [OF kg [of "length (ev_data ev)"], of k] disk_good_file [OF g kg [of "length (ev_data ev)"]] by simp_all
  have bytes: "dl_file ?s1 x = Some (content x)" if "start \<le> x" "x < off + ?n" for x
  proof (cases "x < off")
    case True
    then show ?thesis using assms(4) kg [of "length (ev_data ev)"] that(1) by (auto simp: range_phase_ok_def keeps_good_def)
  next
    case False
    then show ?thesis using write_at_written [OF assms(5)] that(2) by simp
  qed
  have stop: "range_step_ok content k start s (?s1, RangeEnds e)" for e using w1 by (simp add: range_step_ok_def)
  have more: "range_step_ok content k start s (?s1, RangeStay (RangeReading (off + ?n)))"
    using w1 bytes assms(4) by (simp add: range_step_ok_def range_phase_ok_def)
  have eof: "range_step_ok content k start s (t, RangeEnds e)"
    if f: "range_finish k start ?s1 (off + ?n) = (t, e)" and en: "ev_end ev = EndOfBody" for t e
  proof -
    have k1: "piece_slot ?s1 k" using assms(2) by (simp add: piece_slot_def)
    have d1: "disk_ok content ?s1" by (rule works_on_disk_ok [OF w1(1) assms(1) w1(2)])
    have r1: "range_ok ?s1 k start final" using assms(3) by (simp add: range_ok_def piece_of_def)
    have oe: "off + ?n = final + 1" using assms(6) en by simp
    have b: "\<forall>x. start \<le> x \<and> x < final + 1 \<longrightarrow> dl_file ?s1 x = Some (content x)" using bytes oe by simp
    note fin = range_finish_ok [OF d1 k1 r1 b f [unfolded oe]]
    have wt: "piece_wf (piece_of t k)"
    proof -
      have "piece_slot t k" using fin works_on_slot k1 by blast
      with fin show ?thesis using disk_good_piece_of piece_slotD by (fastforce simp: piece_good_def)
    qed
    from fin works_on_trans [OF w1(1) _ disk_okD(4) [OF d1 k1] wt] show ?thesis by (simp add: range_step_ok_def)
  qed
  have same: "range_step_ok content k start s (s, RangeEnds e)" for e using g by (simp add: range_step_ok_def)
  show ?thesis
  proof (cases "ev_data ev \<noteq> [] \<and> ev_limit ev \<noteq> None")
    case True
    then show ?thesis using same by (simp add: range_step_def)
  next
    case lim: False
    show ?thesis
    proof (cases "ev_data ev \<noteq> [] \<and> ev_write ev \<noteq> None")
      case True
      then obtain j e where "ev_write ev = Some (j, e)" by auto
      with True lim part show ?thesis by (simp add: range_step_def)
    next
      case False
      have run: "range_step k start off ev s =
        (case ev_end ev of
          MoreData \<Rightarrow> (?s1, RangeStay (RangeReading (off + ?n)))
        | EndOfBody \<Rightarrow> (case range_finish k start ?s1 (off + ?n) of (s2, e) \<Rightarrow> (s2, RangeEnds e))
        | ReadError e \<Rightarrow> (case ev_ctx ev of
              Some ce \<Rightarrow> (?s1, RangeEnds (Some ce))
            | None \<Rightarrow> (?s1, RangeEnds (Some (Wrapped ''read range'' e)))))"
        using lim False by (simp only: range_step_def Let_def if_False)
      show ?thesis
      proof (cases "ev_end ev")
        case MoreData
        then show ?thesis unfolding run using more by simp
      next
        case EndOfBody
        obtain t e where f: "range_finish k start ?s1 (off + ?n) = (t, e)" by (cases "range_finish k start ?s1 (off + ?n)")
        show ?thesis unfolding run EndOfBody using eof [OF f EndOfBody] f by simp
      next
        case (ReadError e)
        show ?thesis unfolding run ReadError using stop by (simp split: option.split)
      qed
    qed
  qed
qed

lemma range_phase_mono:
  "range_phase_ok content s start ph \<Longrightarrow> keeps_good content (dl_file s) (dl_file t) \<Longrightarrow> range_phase_ok content t start ph"
  by (auto simp: range_phase_ok_def keeps_good_def split: range_phase.splits)

lemma same_extent_blocks:
  assumes "same_extent p q"
  shows "bm_block_length (p_blocks q) i = bm_block_length (p_blocks p) i" "block_start q i = block_start p i"
    "bm_num (p_blocks q) = bm_num (p_blocks p)"
  using assms by (simp_all add: same_extent_def bm_block_length_def block_start_def Let_def)

lemma phase_mono:
  assumes "phase_ok content s k ph" "keeps_good content (dl_file s) (dl_file t)" "same_extent (piece_of s k) (piece_of t k)"
  shows "phase_ok content t k ph"
  using assms(1,2) by (auto simp: phase_ok_def reader_at_def keeps_good_def same_extent_blocks [OF assms(3)] split: phase.splits)

lemma range_ok_mono: "range_ok s k start final \<Longrightarrow> same_extent (piece_of s k) (piece_of t k) \<Longrightarrow> range_ok t k start final"
  by (simp add: range_ok_def same_extent_blocks)

section \<open>Workers\<close>

definition worker_ok :: "(int \<Rightarrow> 8 word) \<Rightarrow> download_state \<Rightarrow> worker \<Rightarrow> bool" where
  "worker_ok content s w \<longleftrightarrow>
     (case w of
        HasPiece i \<Rightarrow> piece_slot s i
      | HasRange start final i \<Rightarrow> piece_slot s i \<and> range_ok s i start final
      | OnPiece i eo us n ph \<Rightarrow> piece_slot s i \<and> phase_ok content s i ph
      | OnRange start final i us n ph \<Rightarrow> piece_slot s i \<and> range_ok s i start final \<and> range_phase_ok content s start ph
      | _ \<Rightarrow> True)"

definition holds :: "worker \<Rightarrow> int \<Rightarrow> bool" where
  "holds w i \<longleftrightarrow> (case w of HasPiece j \<Rightarrow> j = i | OnPiece j _ _ _ _ \<Rightarrow> j = i | _ \<Rightarrow> False)"

lemma holds_simps [simp]:
  "\<not> holds Looping i" "\<not> holds Exited i" "\<not> holds (HasRange a b k) i" "\<not> holds (OnRange a b k us n rp) i"
  "holds (HasPiece k) i \<longleftrightarrow> k = i" "holds (OnPiece k eo us n ph) i \<longleftrightarrow> k = i"
  by (simp_all add: holds_def)

text \<open>What a turn of one worker leaves to the others.\<close>

definition turn_keeps :: "(int \<Rightarrow> 8 word) \<Rightarrow> download_state \<Rightarrow> download_state \<Rightarrow> bool" where
  "turn_keeps content s t \<longleftrightarrow>
     pm_selector (dl_pm t) = pm_selector (dl_pm s) \<and> length (pm_pieces (dl_pm t)) = length (pm_pieces (dl_pm s)) \<and>
     (\<forall>j. piece_slot s j \<longrightarrow> piece_grows (piece_of s j) (piece_of t j)) \<and> keeps_good content (dl_file s) (dl_file t)"

text \<open>A piece that is not complete is idle, or its holder still holds it.\<close>

definition holder_step :: "download_state \<Rightarrow> worker \<Rightarrow> download_state \<Rightarrow> worker \<Rightarrow> bool" where
  "holder_step s w t w' \<longleftrightarrow>
     (\<forall>j. piece_slot s j \<and> \<not> is_complete (piece_of t j) \<longrightarrow>
        (p_status (piece_of t j) = p_status (piece_of s j) \<and> (holds w j \<longrightarrow> holds w' j)) \<or>
        p_status (piece_of t j) = PieceIdle \<or> holds w' j)"

lemma turn_keeps_refl [simp]: "turn_keeps content s s"
  by (simp add: turn_keeps_def)

lemma works_on_turn: "works_on content k s t \<Longrightarrow> turn_keeps content s t"
  by (auto simp: works_on_def turn_keeps_def piece_slot_def)

lemma turn_keeps_slot: "turn_keeps content s t \<Longrightarrow> piece_slot t j = piece_slot s j"
  by (simp add: turn_keeps_def piece_slot_def)

lemma turn_keeps_extent: "turn_keeps content s t \<Longrightarrow> piece_slot s j \<Longrightarrow> same_extent (piece_of s j) (piece_of t j)"
  by (simp add: turn_keeps_def piece_slot_def piece_grows_def)

lemma worker_ok_mono:
  assumes "turn_keeps content s t" "worker_ok content s w"
  shows "worker_ok content t w"
proof -
  have k: "keeps_good content (dl_file s) (dl_file t)" using assms(1) by (simp add: turn_keeps_def)
  show ?thesis
    using assms(2) turn_keeps_slot [OF assms(1)] turn_keeps_extent [OF assms(1)] range_ok_mono phase_mono [OF _ k] range_phase_mono [OF _ k]
    by (auto simp: worker_ok_def split: worker.splits)
qed

lemma works_on_holder:
  assumes "works_on content k s t" "0 \<le> k" "is_complete (piece_of t k) \<or> \<not> holds w k \<or> holds w' k" "\<And>j. j \<noteq> k \<Longrightarrow> \<not> holds w j"
  shows "holder_step s w t w'"
proof -
  have "piece_of t j = piece_of s j" if "piece_slot s j" "j \<noteq> k" for j
    using works_on_other [OF assms(1)] that by (simp add: piece_slot_def)
  moreover have "p_status (piece_of t k) = p_status (piece_of s k) \<or> is_complete (piece_of t k)"
    using assms(1) by (simp add: works_on_def)
  ultimately show ?thesis using assms(3,4) unfolding holder_step_def by metis
qed

lemma turn_keeps_with_piece:
  assumes "piece_slot s k" "piece_grows (piece_of s k) p"
  shows "turn_keeps content s (with_piece s k p)"
proof -
  note k = piece_slotD [OF assms(1)]
  have "piece_grows (piece_of s j) (piece_of (with_piece s k p) j)" if "piece_slot s j" for j
    using assms(2) k that by (cases "j = k") (simp_all add: piece_slot_def)
  then show ?thesis by (simp add: turn_keeps_def) (simp add: with_piece_def update_piece_def)
qed

text \<open>Putting a piece back.\<close>

lemma back_to_idle_facts:
  assumes "disk_ok content s" "piece_slot s k"
  shows "turn_keeps content s (back_to_idle k s)" "disk_ok content (back_to_idle k s)"
    "p_status (piece_of (back_to_idle k s) k) = PieceIdle" "piece_slot s j \<Longrightarrow> j \<noteq> k \<Longrightarrow> piece_of (back_to_idle k s) j = piece_of s j"
proof -
  note k = piece_slotD [OF assms(2)]
  let ?q = "set_owner (set_piece_status (piece_of s k) PieceIdle) 0"
  have g: "piece_grows (piece_of s k) ?q" by (rule piece_grows_trans [OF grows_status(1) grows_status(2)])
  have pg: "piece_good content (dl_file s) ?q"
    using piece_good_status [OF disk_okD(3) [OF assms]] by (simp add: piece_good_def set_owner_def block_on_disk_def block_start_def)
  show keep: "turn_keeps content s (back_to_idle k s)"
    unfolding back_to_idle_def by (rule turn_keeps_with_piece [OF assms(2) g])
  show "p_status (piece_of (back_to_idle k s) k) = PieceIdle"
    using k by (simp add: back_to_idle_def set_owner_def set_piece_status_def)
  show other: "piece_slot s j \<Longrightarrow> j \<noteq> k \<Longrightarrow> piece_of (back_to_idle k s) j = piece_of s j"
    using k by (simp add: back_to_idle_def piece_slot_def)
  have "disk_good content (back_to_idle k s)"
    unfolding back_to_idle_def by (rule disk_good_with_piece [OF disk_okD(1) [OF assms(1)] pg])
  then show "disk_ok content (back_to_idle k s)"
    using disk_okD(2) [OF assms(1)] turn_keeps_slot [OF keep] turn_keeps_extent [OF keep]
    by (simp add: disk_ok_def same_extent_def)
qed

text \<open>Claiming and stealing.\<close>

definition rand_ok :: "(int \<Rightarrow> int) \<Rightarrow> bool" where
  "rand_ok rnd \<longleftrightarrow> (\<forall>n. 0 < n \<longrightarrow> 0 \<le> rnd n \<and> rnd n < n)"

lemma claim_facts:
  assumes "disk_ok content s" "rand_ok rnd" "select_piece (dl_pm s) rnd = Some i"
    "t = s\<lparr>dl_pm := fst (get_piece_for_download (dl_pm s) rnd cuid)\<rparr>"
  shows "piece_slot s i \<and> turn_keeps content s t \<and> disk_ok content t \<and> (\<forall>j. piece_slot s j \<and> j \<noteq> i \<longrightarrow> piece_of t j = piece_of s j)"
proof -
  let ?q = "set_owner (set_piece_status (piece_of s i) PieceActive) cuid"
  have i: "piece_idle_at (pm_pieces (dl_pm s)) i" using assms(2,3) by (intro select_piece_idle) (simp_all add: rand_ok_def)
  then have slot: "piece_slot s i" by (simp add: piece_idle_at_def piece_slot_def)
  note k = piece_slotD [OF slot]
  have t: "t = with_piece s i ?q"
    using assms(3) by (simp add: assms(4) get_piece_for_download_def with_piece_def piece_of_def)
  have g: "piece_grows (piece_of s i) ?q" by (rule piece_grows_trans [OF grows_status(1) grows_status(2)])
  have pg: "piece_good content (dl_file s) ?q"
    using piece_good_status [OF disk_okD(3) [OF assms(1) slot]] by (simp add: piece_good_def set_owner_def block_on_disk_def block_start_def)
  have keep: "turn_keeps content s t"
    unfolding t by (rule turn_keeps_with_piece [OF slot g])
  have "disk_good content t" unfolding t by (rule disk_good_with_piece [OF disk_okD(1) [OF assms(1)] pg])
  then have "disk_ok content t"
    using disk_okD(2) [OF assms(1)] turn_keeps_slot [OF keep] turn_keeps_extent [OF keep]
    by (simp add: disk_ok_def same_extent_def)
  moreover have "piece_of t j = piece_of s j" if "piece_slot s j" "j \<noteq> i" for j
    unfolding t using that k by (simp add: piece_slot_def)
  ultimately show ?thesis using slot keep by blast
qed

lemma ceiling_covers:
  assumes "0 < (b :: int)" "n = t div b + (if t mod b \<noteq> 0 then 1 else 0)"
  shows "t \<le> n * b"
proof -
  have e: "t - t mod b = t div b * b" by (rule minus_mod_eq_div_mult)
  have l: "t mod b < b" using assms(1) by simp
  show ?thesis
  proof (cases "t mod b = 0")
    case True
    then show ?thesis using e assms(2) by simp
  next
    case False
    then have "n * b = t div b * b + b" using assms(2) by (simp add: distrib_right)
    then show ?thesis using e l by linarith
  qed
qed

lemma steal_piece:
  assumes "piece_good content f p" "stealable_range p m = (q, off, len)"
  shows "piece_grows p q" "piece_good content f q" "p_status q = p_status p"
    "0 \<le> off \<Longrightarrow> \<exists>i0. 0 \<le> i0 \<and> i0 < bm_num (p_blocks p) \<and> off = block_start p i0 \<and>
       off + len = block_start p (bm_num (p_blocks p) - 1) + bm_block_length (p_blocks p) (bm_num (p_blocks p) - 1)"
proof -
  have w: "piece_wf p" using assms(1) by (simp add: piece_good_def)
  note D = piece_wfD [OF w]
  let ?s = "steal_start (p_blocks p)" and ?b = "p_blocks p"
  note r = release_missing_spec [OF D(1), of ?s]
  have q: "q = p \<or> q = p\<lparr>p_blocks := release_missing ?b ?s\<rparr>"
    using assms(2) by (auto simp: stealable_range_eq [OF w] Let_def split: if_splits)
  then show "piece_grows p q" "p_status q = p_status p" using r by (auto simp: piece_grows_def same_extent_def)
  from q show "piece_good content f q" using assms(1) r by (auto intro: good_blocks)
  show "\<exists>i0. 0 \<le> i0 \<and> i0 < bm_num ?b \<and> off = block_start p i0 \<and>
      off + len = block_start p (bm_num ?b - 1) + bm_block_length ?b (bm_num ?b - 1)" if "0 \<le> off"
  proof -
    from that assms(2) have e: "0 \<le> bm_first_missing ?b" "off = block_start p ?s" "off + len = p_start p + p_length p"
      by (auto simp: stealable_range_eq [OF w] block_start_def Let_def split: if_splits)
    note st = steal_start_range [OF D(1) e(1)]
    have n: "0 \<le> bm_num ?b - 1" "bm_num ?b - 1 < bm_num ?b" using st e(1) by simp_all
    have "bm_total ?b \<le> bm_num ?b * bm_block ?b"
      using D(1) by (intro ceiling_covers [OF D(3)]) (auto simp: bm_fits_def)
    then have "(bm_num ?b - 1) * bm_block ?b + bm_block_length ?b (bm_num ?b - 1) = bm_total ?b"
      using block_end [OF D(1) n] by simp
    with e st D(6) show ?thesis by (intro exI [of _ ?s]) (simp add: block_start_def)
  qed
qed

lemma steal_loop_facts:
  assumes "\<forall>p \<in> set ps. piece_good content f p" "try_steal_loop cuid m n ps = (qs, start, final, src)"
  shows "length qs = length ps \<and> (\<forall>j < length ps. piece_grows (ps ! j) (qs ! j) \<and> p_status (qs ! j) = p_status (ps ! j)) \<and>
    (\<forall>q \<in> set qs. piece_good content f q) \<and>
    (\<forall>i. src = Some i \<longrightarrow> 0 \<le> start \<and> n \<le> i \<and> i < n + int (length ps) \<and>
      (\<exists>i0. 0 \<le> i0 \<and> i0 < bm_num (p_blocks (ps ! nat (i - n))) \<and> start = block_start (ps ! nat (i - n)) i0 \<and>
        final + 1 = block_start (ps ! nat (i - n)) (bm_num (p_blocks (ps ! nat (i - n))) - 1) +
          bm_block_length (p_blocks (ps ! nat (i - n))) (bm_num (p_blocks (ps ! nat (i - n))) - 1)))"
  using assms
proof (induction cuid m n ps arbitrary: qs rule: try_steal_loop.induct)
  case (1 cuid m n)
  then show ?case by simp
next
  case (2 cuid m n p ps)
  have g: "piece_good content f p" "\<forall>p \<in> set ps. piece_good content f p" using "2.prems"(1) by simp_all
  have skip: ?case if l: "try_steal_loop cuid m (n + 1) ps = (qs', start, final, src)" and qs: "qs = q # qs'"
      and q: "piece_grows p q" "piece_good content f q" "p_status q = p_status p"
      and IH: "length qs' = length ps \<and> (\<forall>j < length ps. piece_grows (ps ! j) (qs' ! j) \<and> p_status (qs' ! j) = p_status (ps ! j)) \<and>
        (\<forall>q \<in> set qs'. piece_good content f q) \<and>
        (\<forall>i. src = Some i \<longrightarrow> 0 \<le> start \<and> n + 1 \<le> i \<and> i < n + 1 + int (length ps) \<and>
          (\<exists>i0. 0 \<le> i0 \<and> i0 < bm_num (p_blocks (ps ! nat (i - (n + 1)))) \<and> start = block_start (ps ! nat (i - (n + 1))) i0 \<and>
            final + 1 = block_start (ps ! nat (i - (n + 1))) (bm_num (p_blocks (ps ! nat (i - (n + 1)))) - 1) +
              bm_block_length (p_blocks (ps ! nat (i - (n + 1)))) (bm_num (p_blocks (ps ! nat (i - (n + 1)))) - 1)))"
      for q qs'
  proof -
    have nth: "(p # ps) ! nat (i - n) = ps ! nat (i - (n + 1))" if "n + 1 \<le> i" for i
    proof -
      have "nat (i - n) = Suc (nat (i - (n + 1)))" using that by simp
      then show ?thesis by simp
    qed
    have idx: "piece_grows ((p # ps) ! j) (qs ! j) \<and> p_status (qs ! j) = p_status ((p # ps) ! j)" if "j < length (p # ps)" for j
      using that IH q qs by (cases j) simp_all
    show ?thesis using IH q qs idx nth by auto
  qed
  show ?case
  proof (cases "get_piece_status p = PieceActive \<and> get_owner p \<noteq> cuid")
    case False
    obtain qs' where l: "try_steal_loop cuid m (n + 1) ps = (qs', start, final, src)" "qs = p # qs'"
      using "2.prems"(2) False by (auto split: prod.splits)
    from skip [OF l _ g(1) _ "2.IH"(2) [OF False g(2) l(1)]] show ?thesis by simp
  next
    case True
    obtain q off len where s: "stealable_range p m = (q, off, len)" by (cases "stealable_range p m")
    note q = steal_piece [OF g(1) s]
    show ?thesis
    proof (cases "0 \<le> off \<and> m \<le> len")
      case hit: True
      then have e: "qs = q # ps" "start = off" "final + 1 = off + len" "src = Some n" using "2.prems"(2) True s by auto
      have idx: "piece_grows ((p # ps) ! j) (qs ! j) \<and> p_status (qs ! j) = p_status ((p # ps) ! j)" if "j < length (p # ps)" for j
        using that q e(1) by (cases j) simp_all
      show ?thesis using e q hit g idx by auto
    next
      case miss: False
      obtain qs' where l: "try_steal_loop cuid m (n + 1) ps = (qs', start, final, src)" "qs = q # qs'"
        using "2.prems"(2) True miss s by (auto split: prod.splits)
      from skip [OF l q(1-3) "2.IH"(1) [OF True s [symmetric] refl _ g(2) l(1)]] miss show ?thesis by auto
    qed
  qed
qed

section \<open>Turns\<close>

lemma ctx_ends_simps [simp]: "\<not> ctx_ends None inp" "ctx_ends (Some e) inp \<longleftrightarrow> inp = CtxDone"
  by (simp_all add: ctx_ends_def split: turn_input.split)

text \<open>Bytes of a resource of \<open>n\<close> bytes, at their place.\<close>

definition data_at :: "(int \<Rightarrow> 8 word) \<Rightarrow> int \<Rightarrow> int \<Rightarrow> 8 word list \<Rightarrow> bool" where
  "data_at content n off bs \<longleftrightarrow>
     0 \<le> off \<and> off + int (length bs) \<le> n \<and> (\<forall>j < length bs. bs ! j = content (off + int j))"

text \<open>
  What the servers do right: a body delivers the bytes of the resource from the offset asked for. The body of a stolen range ends only after its last
  byte; with a \<open>Content-Length\<close> the HTTP client reports a shorter one as an error.
\<close>

definition honest_turn :: "(int \<Rightarrow> 8 word) \<Rightarrow> int \<Rightarrow> worker \<Rightarrow> turn_input \<Rightarrow> bool" where
  "honest_turn content n w inp \<longleftrightarrow>
     (case inp of
        Arrived ev \<Rightarrow> (case w of
            OnPiece i eo us m (Reading r) \<Rightarrow> data_at content n (rd_offset r) (ev_data ev)
          | OnRange start final i us m (RangeReading off) \<Rightarrow>
              data_at content n off (ev_data ev) \<and>
              (ev_end ev = EndOfBody \<longrightarrow> off + int (length (ev_data ev)) = final + 1)
          | _ \<Rightarrow> True)
      | _ \<Rightarrow> True)"

definition turn_ok :: "(int \<Rightarrow> 8 word) \<Rightarrow> download_state \<Rightarrow> worker \<Rightarrow> download_state \<Rightarrow> worker \<Rightarrow> bool" where
  "turn_ok content s w t w' \<longleftrightarrow>
     turn_keeps content s t \<and> disk_ok content t \<and> worker_ok content t w' \<and> holder_step s w t w'"

lemma turn_ok_same:
  "disk_ok content s \<Longrightarrow> worker_ok content s w' \<Longrightarrow> (\<And>j. holds w j \<Longrightarrow> holds w' j) \<Longrightarrow> turn_ok content s w s w'"
  by (simp add: turn_ok_def holder_step_def)

lemma turn_ok_idle:
  assumes "disk_ok content s" "piece_slot s k" "\<And>j. j \<noteq> k \<Longrightarrow> \<not> holds w j" "worker_ok content (back_to_idle k s) w'"
  shows "turn_ok content s w (back_to_idle k s) w'"
proof -
  note b = back_to_idle_facts [OF assms(1,2)]
  have "holder_step s w (back_to_idle k s) w'"
    unfolding holder_step_def using b(3,4) assms(3) by metis
  then show ?thesis using b(1,2) assms(4) by (simp add: turn_ok_def)
qed

lemma rand_mod: "rand_ok (\<lambda>n. raw mod n)"
  by (simp add: rand_ok_def)

lemma claim_turn_ok:
  assumes "disk_ok content s" "claim_turn ps cuid raw s = (t, w', news)"
  shows "turn_ok content s Looping t w'"
proof (cases "select_piece (dl_pm s) (\<lambda>n. raw mod n)")
  case (Some i)
  note c = claim_facts [OF assms(1) rand_mod Some refl, of cuid]
  have e: "t = s\<lparr>dl_pm := fst (get_piece_for_download (dl_pm s) (\<lambda>n. raw mod n) cuid)\<rparr>" "w' = HasPiece i"
    using assms(2) Some by (auto simp: claim_turn_def get_piece_for_download_def)
  from c e have "holder_step s Looping t w'" by (auto simp: holder_step_def)
  moreover have "worker_ok content t w'" using c e turn_keeps_slot by (auto simp: worker_ok_def)
  ultimately show ?thesis using c e by (simp add: turn_ok_def)
next
  case None
  let ?ps = "pm_pieces (dl_pm s)"
  obtain qs start final src where l: "try_steal_loop cuid (ps_min_steal ps) 0 ?ps = (qs, start, final, src)"
    by (cases "try_steal_loop cuid (ps_min_steal ps) 0 ?ps") auto
  have good: "\<forall>p \<in> set ?ps. piece_good content (dl_file s) p" using disk_okD(1) [OF assms(1)] by (simp add: disk_good_def)
  note f = steal_loop_facts [OF good l, simplified]
  have t: "t = s\<lparr>dl_pm := (dl_pm s)\<lparr>pm_pieces := qs\<rparr>\<rparr>"
    and w': "w' = (case src of Some i \<Rightarrow> if start \<ge> 0 then HasRange start final i else Exited | None \<Rightarrow> Exited)"
    using assms(2) None l by (auto simp: claim_turn_def get_piece_for_download_def try_steal_piece_def)
  have grow: "piece_grows (piece_of s j) (piece_of t j)" "p_status (piece_of t j) = p_status (piece_of s j)"
    if "piece_slot s j" for j
    using f that by (simp_all add: t piece_of_def piece_slot_def nat_less_iff)
  have keep: "turn_keeps content s t" using f grow by (simp add: turn_keeps_def t)
  have "disk_good content t" using f by (simp add: disk_good_def t)
  then have "disk_ok content t"
    using disk_okD(2) [OF assms(1)] turn_keeps_slot [OF keep] turn_keeps_extent [OF keep]
    by (simp add: disk_ok_def same_extent_def)
  moreover have "worker_ok content t w'"
  proof (cases src)
    case (Some i)
    then have i: "piece_slot s i" using f by (auto simp: piece_slot_def)
    obtain i0 where i0: "0 \<le> i0" "i0 < bm_num (p_blocks (piece_of s i))" "start = block_start (piece_of s i) i0"
      "final + 1 = block_start (piece_of s i) (bm_num (p_blocks (piece_of s i)) - 1) +
        bm_block_length (p_blocks (piece_of s i)) (bm_num (p_blocks (piece_of s i)) - 1)"
      using f Some unfolding piece_of_def by blast
    then have "range_ok s i start final"
      unfolding range_ok_def by (intro exI [of _ i0] exI [of _ "bm_num (p_blocks (piece_of s i)) - 1"]) simp
    then have "range_ok t i start final" using turn_keeps_extent [OF keep i] by (rule range_ok_mono)
    then show ?thesis using Some i w' turn_keeps_slot [OF keep] by (simp add: worker_ok_def)
  qed (simp add: w' worker_ok_def)
  moreover have "holder_step s Looping t w'" using grow by (simp add: holder_step_def)
  ultimately show ?thesis using keep by (simp add: turn_ok_def)
qed

lemma turn_keeps_trans: "turn_keeps content s t \<Longrightarrow> turn_keeps content t u \<Longrightarrow> turn_keeps content s u"
  using turn_keeps_slot [of content s t] by (auto simp: turn_keeps_def keeps_good_def intro: piece_grows_trans)

lemma phase_turn_ok:
  assumes "disk_ok content s" "piece_slot s i" "phase_ok content s i ph" "honest_turn content n (OnPiece i eo us m ph) inp"
  shows "step_ok content i s (phase_turn ps ctx inp i eo ph s)"
proof -
  have stay: "step_ok content i s (s, Stay ph)"
    using disk_okD(1) [OF assms(1)] assms(3) by (simp add: step_ok_def end_ok_def)
  have top: "step_ok content i s (s, Stay (AtTop t))" for t
    using disk_okD(1) [OF assms(1)] by (simp add: step_ok_def end_ok_def)
  have fin: "step_ok content i s (s, AttemptEnds (Some e))" for e
    using disk_okD(1) [OF assms(1)] by (simp add: step_ok_def end_ok_def)
  show ?thesis
  proof (cases ph)
    case Waiting
    then show ?thesis using stay top by (simp add: phase_turn_def split: turn_input.split)
  next
    case (AtTop t)
    then show ?thesis using stay fin top_step_ok [OF assms(1,2)]
      by (auto simp: phase_turn_def split: turn_input.split)
  next
    case (Requesting off len final t)
    then show ?thesis using stay answer_step_ok [OF assms(1,2)] assms(3)
      by (simp add: phase_turn_def split: turn_input.split)
  next
    case (Reading r)
    have "step_ok content i s (body_step (ps_floor ps) i r (ev\<lparr>ev_ctx := ctx\<rparr>) s)" if "inp = Arrived ev" for ev
      using assms(3,4) Reading that by (intro body_step_ok [OF assms(1,2)]) (simp_all add: honest_turn_def data_at_def)
    then show ?thesis using stay Reading by (simp add: phase_turn_def split: turn_input.split)
  qed
qed

lemma after_attempt_ends [simp]: "after_attempt what retries ctx r us n = JobEnds None \<longleftrightarrow> r = None"
  by (auto simp: after_attempt_def split: option.split list.split)

lemma piece_next_ok:
  assumes "works_on content i s s1" "disk_ok content s1" "piece_slot s1 i"
    "j = JobEnds None \<Longrightarrow> is_complete (piece_of s1 i)" "piece_next i eo s1 j = (t, w', news)"
  shows "turn_ok content s (OnPiece i eo0 us0 n0 ph0) t w'"
proof -
  let ?w = "OnPiece i eo0 us0 n0 ph0"
  have k: "turn_keeps content s s1" by (rule works_on_turn [OF assms(1)])
  note i0 = piece_slotD(1) [OF assms(3)]
  have on: "turn_ok content s ?w s1 w'"
    if "worker_ok content s1 w'" "is_complete (piece_of s1 i) \<or> holds w' i" for w'
    using that works_on_holder [OF assms(1) i0, of ?w w'] k assms(2) by (auto simp: turn_ok_def)
  show ?thesis
  proof (cases j)
    case (JobEnds r)
    show ?thesis
    proof (cases r)
      case None
      then show ?thesis using assms(4,5) JobEnds on [of Looping] by (simp add: piece_next_def worker_ok_def)
    next
      case (Some e)
      then have e: "t = back_to_idle i s1" "w' = Exited" using assms(5) JobEnds by (simp_all add: piece_next_def)
      note b = back_to_idle_facts [OF assms(2,3)]
      have "holder_step s ?w t w'"
      proof -
        have "piece_of t l = piece_of s l" if "piece_slot s l" "l \<noteq> i" for l
          using b(4) [of l] works_on_other [OF assms(1), of l] works_on_slot [OF assms(1), of l] that e(1)
          by (simp add: piece_slot_def)
        then show ?thesis unfolding holder_step_def using b(3) e(1) by (metis holds_simps(6))
      qed
      then show ?thesis using b(1,2) e turn_keeps_trans [OF k] by (simp add: turn_ok_def worker_ok_def)
    qed
  next
    case (JobWaits us n)
    then show ?thesis using assms(3,5) on [of "OnPiece i eo us n Waiting"] by (auto simp: piece_next_def worker_ok_def)
  next
    case (JobNextSource us)
    then show ?thesis using assms(3,5) on [of "OnPiece i eo us 0 (AtTop 0)"] by (auto simp: piece_next_def worker_ok_def)
  qed
qed

lemma range_phase_turn_ok:
  assumes "disk_ok content s" "piece_slot s i" "range_ok s i start final" "range_phase_ok content s start ph"
    "honest_turn content n (OnRange start final i us m ph) inp"
  shows "range_step_ok content i start s (range_phase_turn ctx inp start i ph s)"
proof -
  have g: "disk_good content s" by (rule disk_okD(1) [OF assms(1)])
  have stay: "range_step_ok content i start s (s, RangeStay ph)" "range_step_ok content i start s (s, RangeStay RangeRequesting)"
    using g assms(4) by (simp_all add: range_step_ok_def range_phase_ok_def)
  show ?thesis
  proof (cases ph)
    case RangeWaiting
    then show ?thesis using stay by (simp add: range_phase_turn_def split: turn_input.split)
  next
    case RangeRequesting
    have "range_step_ok content i start s (s, range_answer start ex)" for ex
      using g by (auto simp: range_step_ok_def range_answer_def range_phase_ok_def split: option.split)
    then show ?thesis using stay RangeRequesting by (simp add: range_phase_turn_def split: turn_input.split)
  next
    case (RangeReading off)
    have "range_step_ok content i start s (range_step i start off (ev\<lparr>ev_ctx := ctx\<rparr>) s)" if "inp = Arrived ev" for ev
      using assms(4,5) RangeReading that
      by (intro range_step_ok [OF assms(1-3)]) (simp_all add: honest_turn_def data_at_def)
    then show ?thesis using stay RangeReading by (simp add: range_phase_turn_def split: turn_input.split)
  qed
qed

lemma worker_turn_ok:
  assumes "disk_ok content s" "worker_ok content s w" "honest_turn content n w inp"
    "worker_turn ps cuid ctx inp w s = (t, w', news)"
  shows "turn_ok content s w t w'"
proof (cases w)
  case Looping
  have loop: "turn_ok content s w s Looping" "turn_ok content s w s Exited"
    using assms(1) Looping by (auto intro!: turn_ok_same simp: worker_ok_def)
  show ?thesis
  proof (cases "\<exists>raw. inp = Claim raw")
    case True
    then show ?thesis using claim_turn_ok [OF assms(1)] assms(3,4) Looping by (auto simp: worker_turn_def honest_turn_def)
  next
    case False
    then show ?thesis using assms(4) loop Looping by (auto simp: worker_turn_def split: turn_input.splits if_splits)
  qed
next
  case (HasPiece i)
  have i: "piece_slot s i" using assms(2) HasPiece by (simp add: worker_ok_def)
  have same: "turn_ok content s w s (HasPiece i)" "turn_ok content s w s (OnPiece i eo us 0 (AtTop 0))" for eo us
    using assms(1) i HasPiece by (auto intro!: turn_ok_same simp: worker_ok_def)
  have idle: "turn_ok content s w (back_to_idle i s) Looping" "turn_ok content s w (back_to_idle i s) Exited"
    using i HasPiece by (auto intro!: turn_ok_idle [OF assms(1)] simp: worker_ok_def)
  show ?thesis using assms(4) same idle HasPiece
    by (auto simp: worker_turn_def split: turn_input.splits if_splits sum.splits)
next
  case (HasRange start final i)
  have i: "piece_slot s i" "range_ok s i start final" using assms(2) HasRange by (simp_all add: worker_ok_def)
  have same: "turn_ok content s w s w'" if "w' \<in> {w, Looping, Exited} \<or> (\<exists>us. w' = OnRange start final i us 0 RangeRequesting)" for w'
    using assms(1) i HasRange that by (auto intro!: turn_ok_same simp: worker_ok_def range_phase_ok_def)
  have "t = s \<and> (w' \<in> {w, Looping, Exited} \<or> (\<exists>us. w' = OnRange start final i us 0 RangeRequesting))"
    using assms(4) HasRange by (auto simp: worker_turn_def split: turn_input.splits if_splits)
  with same show ?thesis by blast
next
  case (OnPiece i eo us m ph)
  have i: "piece_slot s i" "phase_ok content s i ph" using assms(2) OnPiece by (simp_all add: worker_ok_def)
  show ?thesis
  proof (cases "ph = Waiting \<and> ctx_ends ctx inp")
    case True
    then have "piece_next i eo s (JobEnds ctx) = (t, w', news)" using assms(4) OnPiece by (simp add: worker_turn_def)
    then show ?thesis unfolding OnPiece using True by (cases ctx) (auto intro: piece_next_ok [OF works_on_refl assms(1) i(1)])
  next
    case False
    obtain s1 e where p: "phase_turn ps ctx inp i eo ph s = (s1, e)" by (cases "phase_turn ps ctx inp i eo ph s")
    have run: "worker_turn ps cuid ctx inp w s =
      (case e of Stay ph1 \<Rightarrow> (s1, OnPiece i eo us m ph1, NoNews)
        | AttemptEnds r \<Rightarrow> piece_next i eo s1 (after_attempt ''piece'' (ps_retries ps) ctx r us m))"
      by (simp only: worker_turn_def OnPiece worker.case if_not_P [OF False] p prod.case)
    have st: "step_ok content i s (s1, e)"
      using phase_turn_ok [OF assms(1) i, of n eo us m inp ps ctx] assms(3) p unfolding OnPiece by simp
    then have w: "works_on content i s s1" and g: "disk_good content s1" and e: "end_ok content s1 i e" by (simp_all add: step_ok_def)
    have d: "disk_ok content s1" by (rule works_on_disk_ok [OF w assms(1) g])
    have i1: "piece_slot s1 i" using works_on_slot [OF w] i by simp
    show ?thesis
    proof (cases e)
      case (Stay ph1)
      then have r: "t = s1" "w' = OnPiece i eo us m ph1" using assms(4) run by simp_all
      have "holder_step s w t w'"
        unfolding OnPiece r by (rule works_on_holder [OF w piece_slotD(1) [OF i(1)]]) simp_all
      then show ?thesis using w d i1 e Stay r by (simp add: turn_ok_def works_on_turn worker_ok_def end_ok_def)
    next
      case (AttemptEnds r)
      then have "piece_next i eo s1 (after_attempt ''piece'' (ps_retries ps) ctx r us m) = (t, w', news)"
        using assms(4) run by simp
      then show ?thesis unfolding OnPiece using e AttemptEnds by (intro piece_next_ok [OF w d i1]) (simp_all add: end_ok_def)
    qed
  qed
next
  case (OnRange start final i us m ph)
  have i: "piece_slot s i" "range_ok s i start final" "range_phase_ok content s start ph"
    using assms(2) OnRange by (simp_all add: worker_ok_def)
  have next_ok: "turn_ok content s w t w'"
    if "works_on content i s s1" "disk_good content s1" "range_next start final i s1 j = (t, w', news)" for s1 j
  proof -
    have d: "disk_ok content s1" by (rule works_on_disk_ok [OF that(1) assms(1) that(2)])
    have "worker_ok content s1 w'" "t = s1"
      using that(3) i works_on_slot [OF that(1)] range_ok_mono [OF i(2) works_on_extent [OF that(1) piece_slotD(1) [OF i(1)]]]
      by (auto simp: range_next_def worker_ok_def range_phase_ok_def split: job_next.splits option.splits)
    moreover have "holder_step s w s1 w'"
      using OnRange by (intro works_on_holder [OF that(1) piece_slotD(1) [OF i(1)]]) simp_all
    ultimately show ?thesis using d works_on_turn [OF that(1)] by (simp add: turn_ok_def)
  qed
  show ?thesis
  proof (cases "ph = RangeWaiting \<and> ctx_ends ctx inp")
    case True
    then have "range_next start final i s (JobEnds ctx) = (t, w', news)" using assms(4) OnRange by (simp add: worker_turn_def)
    from next_ok [OF works_on_refl disk_okD(1) [OF assms(1)] this] show ?thesis .
  next
    case False
    obtain s1 e where p: "range_phase_turn ctx inp start i ph s = (s1, e)" by (cases "range_phase_turn ctx inp start i ph s")
    have run: "worker_turn ps cuid ctx inp w s =
      (case e of RangeStay ph1 \<Rightarrow> (s1, OnRange start final i us m ph1, NoNews)
        | RangeEnds r \<Rightarrow> range_next start final i s1 (after_attempt ''range'' (ps_retries ps) ctx r us m))"
      by (simp only: worker_turn_def OnRange worker.case if_not_P [OF False] p prod.case)
    have st: "range_step_ok content i start s (s1, e)"
      using range_phase_turn_ok [OF assms(1) i, of n us m inp ctx] assms(3) p unfolding OnRange by simp
    then have w: "works_on content i s s1" and g: "disk_good content s1" by (simp_all add: range_step_ok_def)
    show ?thesis
    proof (cases e)
      case (RangeStay ph1)
      then have r: "t = s1" "w' = OnRange start final i us m ph1" using assms(4) run by simp_all
      have "holder_step s w t w'"
        unfolding OnRange r by (rule works_on_holder [OF w piece_slotD(1) [OF i(1)]]) simp_all
      moreover have "worker_ok content t w'"
        using st RangeStay r i works_on_slot [OF w] range_ok_mono [OF i(2) works_on_extent [OF w piece_slotD(1) [OF i(1)]]]
        by (simp add: worker_ok_def range_step_ok_def)
      ultimately show ?thesis using w works_on_disk_ok [OF w assms(1) g] r by (simp add: turn_ok_def works_on_turn)
    next
      case (RangeEnds r)
      then have "range_next start final i s1 (after_attempt ''range'' (ps_retries ps) ctx r us m) = (t, w', news)"
        using assms(4) run by simp
      from next_ok [OF w g this] show ?thesis .
    qed
  qed
next
  case Exited
  then show ?thesis using assms(1,4) by (auto simp: worker_turn_def worker_ok_def intro!: turn_ok_same)
qed

section \<open>The pool\<close>

fun honest_run :: "(int \<Rightarrow> 8 word) \<Rightarrow> int \<Rightarrow> pool_setup \<Rightarrow> bool \<Rightarrow> pool \<Rightarrow> turn list \<Rightarrow> bool" where
  "honest_run content n ps external p [] \<longleftrightarrow> True"
| "honest_run content n ps external p (t # ts) \<longleftrightarrow>
     honest_turn content n (po_workers p (tn_worker t)) (tn_input t) \<and>
     honest_run content n ps external (pool_step ps external p t) ts"

definition pool_good :: "(int \<Rightarrow> 8 word) \<Rightarrow> pool \<Rightarrow> bool" where
  "pool_good content p \<longleftrightarrow>
     disk_ok content (po_state p) \<and> (\<forall>w. worker_ok content (po_state p) (po_workers p w)) \<and>
     (\<forall>j. piece_slot (po_state p) j \<and> \<not> is_complete (piece_of (po_state p) j) \<longrightarrow>
        p_status (piece_of (po_state p) j) = PieceIdle \<or> (\<exists>w. holds (po_workers p w) j))"

lemma pool_step_cases:
  obtains (same) "pool_step ps external p t = p" "po_panic p"
    | (turn) s w news ctx where "\<not> po_panic p" "ctx = (if external \<or> po_error p \<noteq> None then tn_ctx t else None)"
        "worker_turn ps (int (tn_worker t) + 1) ctx (tn_input t) (po_workers p (tn_worker t)) (po_state p) = (s, w, news)"
        "po_state (pool_step ps external p t) = s" "po_workers (pool_step ps external p t) = (po_workers p)(tn_worker t := w)"
        "po_error (pool_step ps external p t) = (case (po_error p, news) of (None, Fails e) \<Rightarrow> Some e | (e, _) \<Rightarrow> e)"
proof (cases "po_panic p")
  case True
  then show ?thesis by (intro same) (simp_all add: pool_step_def)
next
  case False
  obtain s w news where r: "worker_turn ps (int (tn_worker t) + 1) (if external \<or> po_error p \<noteq> None then tn_ctx t else None)
      (tn_input t) (po_workers p (tn_worker t)) (po_state p) = (s, w, news)"
    by (cases "worker_turn ps (int (tn_worker t) + 1) (if external \<or> po_error p \<noteq> None then tn_ctx t else None)
      (tn_input t) (po_workers p (tn_worker t)) (po_state p)")
  show ?thesis by (rule turn [OF False refl r]) (use False r in \<open>simp_all add: pool_step_def Let_def\<close>)
qed

lemma turn_complete_mono:
  assumes "turn_keeps content s t" "disk_ok content s" "disk_ok content t" "piece_slot s j" "is_complete (piece_of s j)"
  shows "is_complete (piece_of t j)"
proof (rule grown_complete [OF _ _ _ assms(5)])
  show "piece_grows (piece_of s j) (piece_of t j)" using assms(1,4) by (simp add: turn_keeps_def)
  show "piece_wf (piece_of s j)" by (rule disk_okD(4) [OF assms(2,4)])
  show "piece_wf (piece_of t j)" using assms(4) turn_keeps_slot [OF assms(1)] by (intro disk_okD(4) [OF assms(3)]) simp
qed

lemma pool_step_good:
  assumes "pool_good content p" "honest_turn content n (po_workers p (tn_worker t)) (tn_input t)"
  shows "pool_good content (pool_step ps external p t) \<and> turn_keeps content (po_state p) (po_state (pool_step ps external p t))"
proof (cases rule: pool_step_cases [of ps external p t])
  case same
  then show ?thesis using assms(1) by simp
next
  case (turn s w news ctx)
  let ?w = "tn_worker t" and ?p = "pool_step ps external p t"
  have d: "disk_ok content (po_state p)" and ok: "\<And>v. worker_ok content (po_state p) (po_workers p v)"
    and held: "\<And>j. piece_slot (po_state p) j \<Longrightarrow> \<not> is_complete (piece_of (po_state p) j) \<Longrightarrow>
        p_status (piece_of (po_state p) j) = PieceIdle \<or> (\<exists>w. holds (po_workers p w) j)"
    using assms(1) by (auto simp: pool_good_def)
  from worker_turn_ok [OF d ok assms(2) turn(3)] have k: "turn_keeps content (po_state p) s" and ds: "disk_ok content s"
    and wo: "worker_ok content s w" and h: "holder_step (po_state p) (po_workers p ?w) s w"
    by (simp_all add: turn_ok_def)
  have "worker_ok content s (po_workers ?p v)" for v
    using wo worker_ok_mono [OF k ok] by (simp add: turn(5))
  moreover have "p_status (piece_of s j) = PieceIdle \<or> (\<exists>v. holds (po_workers ?p v) j)"
    if j: "piece_slot s j" "\<not> is_complete (piece_of s j)" for j
  proof -
    have j0: "piece_slot (po_state p) j" using j turn_keeps_slot [OF k] by simp
    have inc: "\<not> is_complete (piece_of (po_state p) j)" using turn_complete_mono [OF k d ds j0] j(2) by blast
    from h j0 j(2) consider "p_status (piece_of s j) = p_status (piece_of (po_state p) j)" "holds (po_workers p ?w) j \<longrightarrow> holds w j"
      | "p_status (piece_of s j) = PieceIdle" | "holds w j" unfolding holder_step_def by blast
    then show ?thesis
    proof cases
      case 1
      from held [OF j0 inc] show ?thesis
      proof (elim disjE exE)
        fix v
        assume "holds (po_workers p v) j"
        then have "holds (po_workers ?p v) j" using 1 by (auto simp: turn(5))
        then show ?thesis by blast
      qed (use 1 in simp)
    next
      case 3
      then have "holds (po_workers ?p ?w) j" by (simp add: turn(5))
      then show ?thesis by blast
    qed blast
  qed
  ultimately show ?thesis using k ds by (simp add: pool_good_def turn(4))
qed

lemma run_pool_good:
  "pool_good content p \<Longrightarrow> honest_run content n ps external p ts \<Longrightarrow>
   pool_good content (run_pool ps external p ts) \<and> turn_keeps content (po_state p) (po_state (run_pool ps external p ts))"
proof (induction ts arbitrary: p)
  case Nil
  then show ?case by (simp add: run_pool_def)
next
  case (Cons t ts)
  from pool_step_good [OF Cons.prems(1), of n t ps external] Cons.prems(2) Cons.IH [of "pool_step ps external p t"]
  show ?case by (auto simp: run_pool_def intro: turn_keeps_trans)
qed

section \<open>When all workers have returned\<close>

definition selector_complete :: "piece_manager \<Rightarrow> bool" where
  "selector_complete pm \<longleftrightarrow> pm_selector pm \<noteq> ''geom'' \<or> odd (length (pm_pieces pm))"

lemma none_idle:
  assumes "selector_complete pm" "select_piece pm rnd = None" "k < length (pm_pieces pm)"
  shows "p_status (pm_pieces pm ! k) \<noteq> PieceIdle"
proof (cases "pm_selector pm = ''geom''")
  case True
  then show ?thesis using assms geom_odd_complete [of pm rnd 0] by (simp add: selector_complete_def get_piece_for_download_def)
next
  case False
  then have "\<not> piece_idle_at (pm_pieces pm) (int k)"
    using assms(2,3) by (auto simp: select_piece_def Let_def first_idle_None filter_empty_conv split: if_splits)
  then show ?thesis using assms(3) by (simp add: piece_idle_at_def)
qed

text \<open>A worker that returns without an error, while the context is not done, has found no idle piece.\<close>

lemma worker_returns:
  assumes "worker_turn ps cuid None inp w s = (t, Exited, news)" "w \<noteq> Exited" "\<And>e. news \<noteq> Fails e"
    "selector_complete (dl_pm s)" "disk_good content s" "piece_slot t j"
  shows "p_status (piece_of t j) \<noteq> PieceIdle"
proof -
  have "\<exists>raw. w = Looping \<and> inp = Claim raw \<and> claim_turn ps cuid raw s = (t, Exited, news)"
    using assms(1-3)
    by (auto simp: worker_turn_def piece_next_def range_next_def split: worker.splits turn_input.splits if_splits
        sum.splits prod.splits phase_end.splits range_end.splits job_next.splits option.splits)
  then obtain raw where c: "claim_turn ps cuid raw s = (t, Exited, news)" by blast
  have none: "select_piece (dl_pm s) (\<lambda>n. raw mod n) = None"
    using c by (cases "select_piece (dl_pm s) (\<lambda>n. raw mod n)") (simp_all add: claim_turn_def get_piece_for_download_def)
  obtain qs start final src where l: "try_steal_loop cuid (ps_min_steal ps) 0 (pm_pieces (dl_pm s)) = (qs, start, final, src)"
    by (cases "try_steal_loop cuid (ps_min_steal ps) 0 (pm_pieces (dl_pm s))") auto
  have good: "\<forall>p \<in> set (pm_pieces (dl_pm s)). piece_good content (dl_file s) p" using assms(5) by (simp add: disk_good_def)
  note f = steal_loop_facts [OF good l]
  have t: "t = s\<lparr>dl_pm := (dl_pm s)\<lparr>pm_pieces := qs\<rparr>\<rparr>"
    using c none l by (auto simp: claim_turn_def get_piece_for_download_def try_steal_piece_def)
  then have "nat j < length (pm_pieces (dl_pm s))" "p_status (piece_of t j) = p_status (pm_pieces (dl_pm s) ! nat j)"
    using f assms(6) by (auto simp: piece_slot_def piece_of_def nat_less_iff)
  then show ?thesis using none_idle [OF assms(4) none] by simp
qed

definition still_working :: "nat \<Rightarrow> pool \<Rightarrow> bool" where
  "still_working workers p \<longleftrightarrow>
     (\<forall>w. workers \<le> w \<longrightarrow> po_workers p w = Exited) \<and>
     (po_error p = None \<longrightarrow> (\<forall>j. piece_slot (po_state p) j \<and> \<not> is_complete (piece_of (po_state p) j) \<longrightarrow>
        (\<exists>w < workers. po_workers p w \<noteq> Exited)))"

lemma pool_step_working:
  assumes "pool_good content p" "honest_turn content n (po_workers p (tn_worker t)) (tn_input t)"
    "still_working workers p" "selector_complete (dl_pm (po_state p))"
  shows "still_working workers (pool_step ps False p t)"
proof (cases rule: pool_step_cases [of ps False p t])
  case same
  then show ?thesis using assms(3) by simp
next
  case (turn s w news ctx)
  let ?w = "tn_worker t" and ?p = "pool_step ps False p t"
  have good: "pool_good content ?p" and keep: "turn_keeps content (po_state p) s"
    using pool_step_good [OF assms(1,2), of ps False] turn(4) by simp_all
  show ?thesis
  proof (cases "po_workers p ?w = Exited")
    case True
    then have "s = po_state p" "w = Exited" "news = NoNews" using turn(3) by (simp_all add: worker_turn_def)
    then show ?thesis using assms(3) True turn(4-6) by (auto simp: still_working_def fun_upd_idem split: option.splits)
  next
    case False
    then have w: "?w < workers" using assms(3) by (meson not_le still_working_def)
    have "\<exists>v < workers. po_workers ?p v \<noteq> Exited"
      if e: "po_error ?p = None" and j: "piece_slot s j" "\<not> is_complete (piece_of s j)" for j
    proof (cases "w = Exited")
      case no: False
      then show ?thesis using w turn(5) by (intro exI [of _ ?w]) simp
    next
      case True
      have n: "po_error p = None" "\<And>e. news \<noteq> Fails e" using e turn(6) by (auto split: option.splits turn_news.splits)
      then have "ctx = None" using turn(2) by simp
      then have "p_status (piece_of s j) \<noteq> PieceIdle"
        using turn(3) True assms(1) by (intro worker_returns [OF _ False n(2) assms(4) _ j(1)]) (auto simp: pool_good_def disk_ok_def)
      then obtain v where v: "holds (po_workers ?p v) j" using good j turn(4) by (auto simp: pool_good_def)
      then have "po_workers ?p v \<noteq> Exited" by auto
      moreover from this have "po_workers p v \<noteq> Exited" using turn(5) True by (auto split: if_splits)
      then have "v < workers" using assms(3) by (meson not_le still_working_def)
      ultimately show ?thesis by blast
    qed
    moreover have "\<forall>v. workers \<le> v \<longrightarrow> po_workers ?p v = Exited" using assms(3) w turn(5) by (auto simp: still_working_def)
    ultimately show ?thesis using turn(4) unfolding still_working_def by blast
  qed
qed

lemma run_pool_working:
  "pool_good content p \<Longrightarrow> honest_run content n ps False p ts \<Longrightarrow> still_working workers p \<Longrightarrow>
   selector_complete (dl_pm (po_state p)) \<Longrightarrow> still_working workers (run_pool ps False p ts)"
proof (induction ts arbitrary: p)
  case Nil
  then show ?case by (simp add: run_pool_def)
next
  case (Cons t ts)
  note g = pool_step_good [OF Cons.prems(1), of n t ps False]
  have "selector_complete (dl_pm (po_state (pool_step ps False p t)))"
    using Cons.prems(2,4) g by (simp add: selector_complete_def turn_keeps_def)
  with Cons.IH [of "pool_step ps False p t"] pool_step_working [OF Cons.prems(1) _ Cons.prems(3,4)] g Cons.prems(2)
  show ?case by (auto simp: run_pool_def)
qed

text \<open>A complete piece has all its bytes on disk.\<close>

lemma complete_piece_bytes:
  assumes "piece_good content f p" "is_complete p" "x \<in> set (piece_bytes p)"
  shows "f x = Some (content x)"
proof -
  let ?b = "p_blocks p" and ?d = "x - p_start p"
  have w: "piece_wf p" using assms(1) by (simp add: piece_good_def)
  note D = piece_wfD [OF w]
  have d: "0 \<le> ?d" "?d < bm_total ?b" using assms(3) D(6) by (simp_all add: piece_bytes_def)
  let ?i = "?d div bm_block ?b"
  have e: "?i * bm_block ?b \<le> ?d" "?d < (?i + 1) * bm_block ?b"
    using minus_mod_eq_div_mult [of ?d "bm_block ?b"] pos_mod_sign [OF D(3), of ?d] pos_mod_bound [OF D(3), of ?d]
    unfolding distrib_right mult_1 by linarith+
  have i: "0 \<le> ?i" using D(3) d(1) by (simp add: pos_imp_zdiv_nonneg_iff)
  have "bm_total ?b \<le> bm_num ?b * bm_block ?b"
    using D(1) by (intro ceiling_covers [OF D(3)]) (auto simp: bm_fits_def)
  then have "?i * bm_block ?b < bm_num ?b * bm_block ?b" using e d by linarith
  then have i2: "?i < bm_num ?b" using D(3) by simp
  have "bm_is_bit_set ?b ?i" using assms(2) bm_all_iff [OF D(2)] i i2 by (simp add: is_complete_def)
  then have "block_on_disk content f p ?i" using assms(1) by (simp add: piece_good_def)
  moreover have "x < block_start p ?i + bm_block_length ?b ?i"
    using block_end [OF D(1) i i2] e d by (simp add: block_start_def)
  ultimately show ?thesis using e by (simp add: block_on_disk_def block_start_def)
qed

text \<open>
  C4: The parallel download is right. Take pieces that cover the file and are idle or complete, with the
  blocks they claim on disk, and any number of workers that take their turns in any order: claiming
  pieces, stealing ranges, reading, failing, retrying from other sources. If the servers deliver the
  bytes they are asked for, the selector reaches every piece and the caller's context is not done,
  then, when all workers have returned without an error, every byte of the file is that of the resource.
\<close>
theorem parallel_download_correct:
  assumes "disk_ok content s" "\<And>j. piece_slot s j \<Longrightarrow> is_complete (piece_of s j) \<or> p_status (piece_of s j) = PieceIdle"
    "concat (map piece_bytes (pm_pieces (dl_pm s))) = [0..n - 1]" "selector_complete (dl_pm s)" "0 < workers"
    "honest_run content n ps False (start_pool workers s) turns"
    "pool_finished workers (run_pool ps False (start_pool workers s) turns)"
    "po_error (run_pool ps False (start_pool workers s) turns) = None" "0 \<le> x" "x < n"
  shows "dl_file (po_state (run_pool ps False (start_pool workers s) turns)) x = Some (content x)"
proof -
  let ?p = "run_pool ps False (start_pool workers s) turns"
  have start: "pool_good content (start_pool workers s)"
    using assms(1,2) by (auto simp: pool_good_def start_pool_def worker_ok_def)
  have "still_working workers (start_pool workers s)"
    using assms(5) by (auto simp: still_working_def start_pool_def)
  from run_pool_working [OF start assms(6) this] assms(4) have work: "still_working workers ?p" by (simp add: start_pool_def)
  have good: "pool_good content ?p" and keep: "turn_keeps content s (po_state ?p)"
    using run_pool_good [OF start assms(6)] by (simp_all add: start_pool_def)
  have all: "is_complete (piece_of (po_state ?p) j)" if "piece_slot (po_state ?p) j" for j
    using work assms(7,8) that by (auto simp: still_working_def pool_finished_def list_all_iff)
  have "x \<in> set (concat (map piece_bytes (pm_pieces (dl_pm s))))" using assms(3,9,10) by simp
  then obtain q where "q \<in> set (pm_pieces (dl_pm s))" "x \<in> set (piece_bytes q)" by auto
  then obtain j where j: "j < length (pm_pieces (dl_pm s))" "x \<in> set (piece_bytes (pm_pieces (dl_pm s) ! j))"
    by (metis in_set_conv_nth)
  then have slot: "piece_slot s (int j)" by (simp add: piece_slot_def)
  have slot': "piece_slot (po_state ?p) (int j)" using slot turn_keeps_slot [OF keep] by simp
  have "x \<in> set (piece_bytes (piece_of (po_state ?p) (int j)))"
    using j turn_keeps_extent [OF keep slot] by (simp add: same_extent_def piece_bytes_def piece_of_def)
  moreover have "piece_good content (dl_file (po_state ?p)) (piece_of (po_state ?p) (int j))"
    using good slot' by (intro disk_okD(3)) (simp_all add: pool_good_def)
  ultimately show ?thesis using all [OF slot'] by (intro complete_piece_bytes)
qed

section \<open>A run of two workers\<close>

text \<open>
  Three blocks. While the first worker reads the first block, the second steals the rest of the piece; the
  first goes on, its second request times out and is repeated, both bring the third block.
\<close>

definition turn_by :: "nat \<Rightarrow> turn_input \<Rightarrow> turn" where
  "turn_by w inp = \<lparr>tn_worker = w, tn_ctx = None, tn_input = inp\<rparr>"

definition tiny_data :: "int \<Rightarrow> int \<Rightarrow> read_end \<Rightarrow> turn_input" where
  "tiny_data a b e = Arrived (plain_read (map tiny_content [a..b]) e)"

definition tiny_setup :: pool_setup where
  "tiny_setup = \<lparr>ps_retries = 1, ps_floor = no_floor, ps_fsize = 10, ps_min_steal = 2\<rparr>"

definition tiny_turns :: "turn list" where
  "tiny_turns =
     [turn_by 0 (Claim 0), turn_by 0 (Acquire [''u'']), turn_by 0 Proceed, turn_by 0 (Answered (answer_206 (\<lambda>_ _. []))),
      turn_by 0 (tiny_data 0 2 MoreData), turn_by 1 (Claim 0), turn_by 1 (Acquire [''v'']),
      turn_by 1 (Answered (answer_206 (\<lambda>_ _. []))), turn_by 1 (tiny_data 4 7 MoreData),
      turn_by 0 (tiny_data 3 3 MoreData), turn_by 0 (tiny_data 4 6 (ReadError (Plain ''timeout''))),
      turn_by 0 Proceed, turn_by 0 Proceed, turn_by 0 (Answered (answer_206 (\<lambda>_ _. []))),
      turn_by 0 (tiny_data 4 7 MoreData), turn_by 0 (tiny_data 8 9 MoreData), turn_by 0 (Claim 0),
      turn_by 1 (tiny_data 8 9 EndOfBody), turn_by 1 (Claim 0)]"

lemma tiny_pieces: "pm_pieces (dl_pm tiny_state) = [tiny_piece]"
  by (simp add: tiny_state_def new_piece_manager_def)

lemma tiny_run: "honest_run tiny_content 10 tiny_setup False (start_pool 2 tiny_state) tiny_turns"
  by code_simp

lemma tiny_end:
  "let p = run_pool tiny_setup False (start_pool 2 tiny_state) tiny_turns in pool_finished 2 p \<and> po_error p = None"
  by code_simp

lemma parallel_download_correct_witness:
  "dl_file (po_state (run_pool tiny_setup False (start_pool 2 tiny_state) tiny_turns)) 9 = Some 64"
proof -
  have slot: "piece_slot tiny_state j \<Longrightarrow> j = 0" for j by (simp add: piece_slot_def tiny_pieces)
  have p0: "piece_of tiny_state 0 = tiny_piece" by (simp add: piece_of_def tiny_pieces)
  have "p_index (piece_of tiny_state j) = j" if "piece_slot tiny_state j" for j
    using slot [OF that] p0 by (simp add: tiny_piece_def new_piece_def)
  then have d: "disk_ok tiny_content tiny_state" using tiny_state_good by (simp add: disk_ok_def)
  have idle: "is_complete (piece_of tiny_state j) \<or> p_status (piece_of tiny_state j) = PieceIdle" if "piece_slot tiny_state j" for j
    using slot [OF that] p0 by (simp add: tiny_piece_def new_piece_def)
  have bytes: "concat (map piece_bytes (pm_pieces (dl_pm tiny_state))) = [0..10 - 1]" by code_simp
  have sel: "selector_complete (dl_pm tiny_state)"
    by (simp add: selector_complete_def tiny_state_def new_piece_manager_def)
  have "dl_file (po_state (run_pool tiny_setup False (start_pool 2 tiny_state) tiny_turns)) 9 = Some (tiny_content 9)"
    using tiny_end by (intro parallel_download_correct [OF d idle bytes sel _ tiny_run]) (simp_all add: Let_def)
  then show ?thesis by (simp add: tiny_content_def)
qed

end
