(* ===== verification/DownloadFlowProps.thy ===== *)
theory DownloadFlowProps
  imports DownloadFlow SingleDownloadProps WorkerPoolProps
begin

text \<open>
  Retried downloads without a control file, as the download manager runs them: right when the server
  has no ranges, and wrong with several connections.
\<close>

section \<open>Without a control file\<close>

definition no_control :: "fetch \<Rightarrow> bool" where
  "no_control s \<longleftrightarrow> \<not> ft_path s \<and> ft_cf s = None \<and> \<not> ft_conditional s"

lemma save_no_path [simp]: "\<not> ft_path s \<Longrightarrow> save_or_log ok now s = s"
  by (simp add: save_or_log_def save_progress_def)

lemma load_no_path [simp]: "\<not> ft_path s \<Longrightarrow> load_progress readable s = (s, True)"
  by (simp add: load_progress_def)

lemma drop_no_path [simp]: "\<not> ft_path s \<Longrightarrow> drop_control_file env s = s"
  by (simp add: drop_control_file_def)

lemma record_control [simp]:
  "ft_path (fst (record_speed_and_check_save now n s)) = ft_path s"
  "ft_cf (fst (record_speed_and_check_save now n s)) = ft_cf s"
  "ft_conditional (fst (record_speed_and_check_save now n s)) = ft_conditional s"
  by (simp_all add: record_speed_and_check_save_def Let_def)

lemma write_control [simp]:
  "ft_path (write_local p bs s) = ft_path s" "ft_cf (write_local p bs s) = ft_cf s" "ft_size (write_local p bs s) = ft_size s"
  "ft_conditional (write_local p bs s) = ft_conditional s"
  by (simp_all add: write_local_def)

lemma write_local_bytes [simp]:
  "local_bytes (write_local p bs s) = overwrite (local_bytes s) p bs" "ft_local (write_local p bs s) \<noteq> None"
  by (simp_all add: write_local_def local_bytes_def)

text \<open>The loop keeps this, and the size; what it writes is a beginning of what it is to write.\<close>

lemma body_data_control:
  assumes "no_control s"
  shows "case body_data ok ev p s of
      Inl (s1, e) \<Rightarrow> no_control s1 \<and> ft_size s1 = ft_size s \<and> (\<exists>j. local_bytes s1 = overwrite (local_bytes s) p (take j (ev_data ev)))
    | Inr s1 \<Rightarrow> no_control s1 \<and> ft_size s1 = ft_size s"
proof -
  obtain s2 b where r: "record_speed_and_check_save (ev_now ev) (int (length (ev_data ev)))
      ((write_local p (ev_data ev) s)\<lparr>ft_total := ft_total s + int (length (ev_data ev))\<rparr>) = (s2, b)"
    by (cases "record_speed_and_check_save (ev_now ev) (int (length (ev_data ev)))
      ((write_local p (ev_data ev) s)\<lparr>ft_total := ft_total s + int (length (ev_data ev))\<rparr>)")
  have "no_control s2" "ft_size s2 = ft_size s"
    using assms arg_cong [OF r, of "\<lambda>x. ft_path (fst x)"] arg_cong [OF r, of "\<lambda>x. ft_cf (fst x)"]
      arg_cong [OF r, of "\<lambda>x. ft_size (fst x)"] arg_cong [OF r, of "\<lambda>x. ft_conditional (fst x)"] by (simp_all add: no_control_def)
  with assms show ?thesis
    by (auto simp: body_data_def no_control_def r Let_def intro: exI [of _ 0] split: option.split)
qed

definition prefix_of :: "8 word list \<Rightarrow> fetch \<Rightarrow> bool" where
  "prefix_of content s \<longleftrightarrow> no_control s \<and> (\<exists>k. local_bytes s = take k content)"

lemma take_all_prefix: "\<exists>k. xs @ take j ys = take k (xs @ ys @ zs)"
  by (intro exI [of _ "length xs + min j (length ys)"]) (simp add: min_def)

lemma body_loop_prefix:
  "no_control s \<Longrightarrow> ft_local s = Some xs \<Longrightarrow> length xs = p \<Longrightarrow> honest_body rest es \<Longrightarrow>
   prefix_of (xs @ rest) (fst (body_loop ok es p s)) \<and> ft_size (fst (body_loop ok es p s)) = ft_size s"
proof (induction ok es p s arbitrary: xs rest rule: body_loop.induct)
  case (1 ok p s)
  then show ?case by (auto simp: prefix_of_def local_bytes_def intro!: exI [of _ p])
next
  case (2 ok now es p s)
  then show ?case by (simp add: no_control_def)
next
  case (3 ok ev es p s)
  have nc: "\<not> ft_path s" using "3.prems"(1) by (simp add: no_control_def)
  have here: "prefix_of (xs @ rest) s"
    using "3.prems"(1-3) by (auto simp: prefix_of_def local_bytes_def intro!: exI [of _ p])
  from "3.prems"(4) obtain more where m: "rest = ev_data ev @ more"
      "case ev_end ev of MoreData \<Rightarrow> honest_body more es | EndOfBody \<Rightarrow> more = [] | ReadError _ \<Rightarrow> True" by auto
  have ow: "overwrite xs p bs = xs @ bs" for bs using "3.prems"(3) by (simp add: overwrite_def)
  show ?case
  proof (cases "ev_ctx ev")
    case (Some e)
    then show ?thesis using here nc by simp
  next
    case c: None
    note bc = body_data_control [OF "3.prems"(1), where ok = ok and ev = ev and p = p]
    show ?thesis
    proof (cases "body_data ok ev p s")
      case (Inl r)
      then obtain s1 e where r: "body_data ok ev p s = Inl (s1, e)" by (cases r) auto
      then obtain j where "no_control s1" "ft_size s1 = ft_size s" "local_bytes s1 = xs @ take j (ev_data ev)"
        using bc "3.prems"(2) ow by (auto simp: local_bytes_def)
      then show ?thesis using c r m(1) take_all_prefix [of xs j "ev_data ev" more] by (auto simp: prefix_of_def)
    next
      case (Inr s1)
      then have s1: "no_control s1" "ft_size s1 = ft_size s" using bc by simp_all
      have l: "ft_local s1 = Some (xs @ ev_data ev)" using body_data_local [OF Inr "3.prems"(2)] ow by simp
      have p1: "prefix_of (xs @ rest) s1"
        using s1 l m(1) by (auto simp: prefix_of_def local_bytes_def intro!: exI [of _ "length xs + length (ev_data ev)"])
      show ?thesis
      proof (cases "ev_end ev")
        case MoreData
        with m(2) have "honest_body more es" by simp
        from "3.IH" [OF c Inr MoreData s1(1) l _ this] "3.prems"(3) s1(2) MoreData Inr c m(1)
        show ?thesis by simp
      next
        case EndOfBody
        then show ?thesis using c Inr p1 s1 by simp
      next
        case (ReadError e)
        then show ?thesis using c Inr p1 s1 by (simp add: no_control_def)
      qed
    qed
  qed
qed

section \<open>One connection: right, across retries\<close>

lemma prefix_of_None: "no_control s \<Longrightarrow> ft_local s = None \<Longrightarrow> prefix_of content s"
  by (auto simp: prefix_of_def local_bytes_def intro: exI [of _ 0])

lemma fresh_download_prefix:
  assumes "prefix_of content s" "honest_server content srv"
  shows "prefix_of content (fst (fresh_download env srv s)) \<and> ft_size (fst (fresh_download env srv s)) = ft_size s"
proof -
  let ?a = "srv (ft_requests s) None" and ?s = "s\<lparr>ft_requests := ft_requests s + 1\<rparr>"
  let ?r = "body_loop (en_save env) (an_body ?a) 0 (?s\<lparr>ft_local := Some []\<rparr>)"
  have s: "prefix_of content ?s" using assms(1) by (simp add: prefix_of_def no_control_def local_bytes_def)
  have b: "prefix_of content (fst ?r) \<and> ft_size (fst ?r) = ft_size s" if "an_status ?a = 200"
    using body_loop_prefix [of "?s\<lparr>ft_local := Some []\<rparr>" "[]" 0 content "an_body ?a" "en_save env"] that assms
    by (simp add: prefix_of_def no_control_def honest_server_def honest_answer_def)
  have "finish_transfer env now t = t" if "prefix_of content t" for now t
    using that by (simp add: finish_transfer_def prefix_of_def no_control_def)
  with b s show ?thesis
    by (auto simp: fresh_download_def ask_def split: option.split prod.splits)
qed


lemma resume_download_prefix:
  assumes "prefix_of content s" "honest_server content srv" "k = int (length (local_bytes s))" "k \<le> int (length content)"
  shows "case resume_download env srv k s of
      Restart t \<Rightarrow> prefix_of content t \<and> ft_size t = ft_size s
    | Ended t r \<Rightarrow> prefix_of content t \<and> ft_size t = ft_size s"
proof -
  let ?a = "srv (ft_requests s) (Some k)" and ?s = "s\<lparr>ft_requests := ft_requests s + 1\<rparr>"
  have s: "prefix_of content ?s" "no_control ?s" "ft_size ?s = ft_size s" "local_bytes ?s = local_bytes s"
    using assms(1) by (simp_all add: prefix_of_def no_control_def local_bytes_def)
  have reset: "no_control (reset_progress t) \<and> ft_size (reset_progress t) = ft_size t \<and> local_bytes (reset_progress t) = local_bytes t"
    if "no_control t" for t using that by (simp add: reset_progress_def no_control_def local_bytes_def)
  have gone': "prefix_of content (reset_progress (?s\<lparr>ft_local := None\<rparr>)) \<and> ft_size (reset_progress (?s\<lparr>ft_local := None\<rparr>)) = ft_size s"
    using s reset [of "?s\<lparr>ft_local := None\<rparr>"] by (auto simp: prefix_of_def no_control_def local_bytes_def intro: exI [of _ 0])
  let ?fresh = "body_loop (en_save env) (an_body ?a) 0 ((reset_progress ?s)\<lparr>ft_local := Some []\<rparr>)"
  have again: "prefix_of content (fst ?fresh) \<and> ft_size (fst ?fresh) = ft_size s" if "an_status ?a = 200"
    using body_loop_prefix [of "(reset_progress ?s)\<lparr>ft_local := Some []\<rparr>" "[]" 0 content "an_body ?a" "en_save env"]
      that assms(2) reset [OF s(2)] s(3) by (simp add: no_control_def honest_server_def honest_answer_def)
  obtain m where "local_bytes s = take m content" using assms(1) by (auto simp: prefix_of_def)
  then have lb: "local_bytes s = take (nat k) content" using assms(3,4) by (simp add: min_def split: if_splits)
  let ?t = "?s\<lparr>ft_local := Some (local_bytes s), ft_total := k\<rparr>"
  let ?r = "body_loop (en_save env) (an_body ?a) (nat k) ?t"
  have on: "prefix_of content (fst ?r) \<and> ft_size (fst ?r) = ft_size s" if st: "an_status ?a = 206"
  proof -
    have h: "honest_body (drop (nat k) content) (an_body ?a)"
      using assms(2) st by (simp add: honest_server_def honest_answer_def)
    have l: "length (local_bytes s) = nat k" using assms(3) by simp
    have n: "no_control ?t" "ft_local ?t = Some (local_bytes s)" "ft_size ?t = ft_size s" using s(2) by (simp_all add: no_control_def)
    have whole: "local_bytes s @ drop (nat k) content = content" by (subst lb) (rule append_take_drop_id)
    from body_loop_prefix [OF n(1,2) l h, of "en_save env"] show ?thesis unfolding whole n(3) .
  qed
  have open_only: "prefix_of content (?s\<lparr>ft_local := Some (local_bytes s)\<rparr>)"
    using assms(1) by (simp add: prefix_of_def no_control_def local_bytes_def)
  have idle: "finish_transfer env now t = t" "save_or_log (en_save env) now t = t" if "prefix_of content t" for now t
    using that by (simp_all add: finish_transfer_def prefix_of_def no_control_def)
  have rs: "prefix_of content (reset_progress ?s) \<and> ft_size (reset_progress ?s) = ft_size s"
    using reset [OF s(2)] s(1,3) by (simp add: prefix_of_def)
  consider (create) e where "an_create ?a = Some e" | (failed) e where "an_create ?a = None" "an_do ?a = Some e"
    | (gone) "an_create ?a = None" "an_do ?a = None" "an_status ?a = 416"
    | (whole) "an_create ?a = None" "an_do ?a = None" "an_status ?a = 200"
    | (part) "an_create ?a = None" "an_do ?a = None" "an_status ?a = 206"
    | (other) "an_create ?a = None" "an_do ?a = None" "an_status ?a \<notin> {416, 200, 206}"
    by (cases "an_create ?a"; cases "an_do ?a") auto
  then show ?thesis
  proof cases
    case create
    then show ?thesis using s(1,3) by (simp add: resume_download_def ask_def)
  next
    case failed
    then show ?thesis using s(1,3) by (simp add: resume_download_def ask_def)
  next
    case gone
    then show ?thesis using s(1,3) gone' by (simp add: resume_download_def ask_def split: option.split)
  next
    case whole
    obtain t r where b: "?fresh = (t, r)" by (cases ?fresh)
    then have t: "prefix_of content t" "ft_size t = ft_size s" using again whole by simp_all
    show ?thesis
      using whole rs b t idle [OF t(1)] by (simp add: resume_download_def ask_def split: option.split)
  next
    case part
    obtain t r where b: "?r = (t, r)" by (cases ?r)
    then have t: "prefix_of content t" "ft_size t = ft_size s" using on part by simp_all
    have lb: "local_bytes ?s = local_bytes s" by (rule s(4))
    show ?thesis
      using part b t idle [OF t(1)] s(1,3) open_only lb
      by (simp add: resume_download_def ask_def Let_def split: option.split)
  next
    case other
    then show ?thesis using s(1,3) by (simp add: resume_download_def ask_def)
  qed
qed

lemma single_download_prefix:
  assumes "prefix_of content s" "honest_server content srv" "ft_size s = int (length content)"
  shows "prefix_of content (fst (single_download env srv s)) \<and> ft_size (fst (single_download env srv s)) = ft_size s \<and>
    (snd (single_download env srv s) = Some None \<longrightarrow> ft_local (fst (single_download env srv s)) = Some content)"
proof -
  have ep: "existing_progress s = 0" using assms(1) by (simp add: prefix_of_def no_control_def existing_progress_def)
  obtain m where lb: "local_bytes s = take m content" using assms(1) by (auto simp: prefix_of_def)
  have sound: "local_sound content s"
    using ep lb assms(3) by (auto simp: local_sound_def plan_single_def Let_def min_def split: if_splits)
  have right: "snd (single_download env srv s) = Some None \<longrightarrow> ft_local (fst (single_download env srv s)) = Some content"
    using single_download_correct_lemma [OF _ assms(2,3) sound] by (metis prod.collapse)
  have pre: "prefix_of content (fst (single_download env srv s)) \<and> ft_size (fst (single_download env srv s)) = ft_size s"
  proof (cases "plan_single s")
    case AlreadyDone
    then show ?thesis using ep by (simp add: plan_single_def Let_def split: if_splits)
  next
    case StartOver
    then show ?thesis using fresh_download_prefix [OF assms(1,2)] by (simp add: single_download.simps [of env srv s])
  next
    case (ResumeAt k)
    then have k: "k = int (length (local_bytes s))" "k \<le> int (length content)"
      using ep assms(3) by (auto simp: plan_single_def Let_def split: if_splits)
    note r = resume_download_prefix [OF assms(1,2) k, of env]
    show ?thesis
    proof (cases "resume_download env srv k s")
      case (Ended t e)
      then show ?thesis using r ResumeAt by (simp add: single_download.simps [of env srv s])
    next
      case (Restart t)
      then have "single_download env srv s = fresh_download env srv t"
        using ResumeAt no_progress_plan [OF restart_no_progress [OF Restart]]
        by (simp add: single_download.simps [of env srv s] single_download.simps [of env srv t])
      then show ?thesis using r Restart fresh_download_prefix [of content t srv env] assms(2) by simp
    qed
  qed
  from pre right show ?thesis by blast
qed

section \<open>Retries\<close>

lemma retry_log_loop_invariant:
  assumes "retry_log_loop env cfg n a interval s = (s', r, ws, ls)" "keep s"
    and call: "\<And>t t' e. keep t \<Longrightarrow> call env t = (t', e) \<Longrightarrow> keep t' \<and> (e = None \<longrightarrow> goal t')"
    and sleep: "\<And>d t. keep t \<Longrightarrow> keep (fst (wait env d t))"
  shows "keep s' \<and> (r = None \<longrightarrow> goal s')"
  using assms(1,2)
proof (induction n arbitrary: a interval s s' r ws ls)
  case 0
  then show ?case
    using call [of s] by (subst (asm) retry_log_loop.simps) (auto split: option.splits prod.splits if_splits)
next
  case (Suc n)
  show ?case
  proof (cases "ctx_err env s")
    case (Some e)
    then show ?thesis using Suc.prems by (subst (asm) retry_log_loop.simps) auto
  next
    case ctx: None
    obtain t e where c: "call env s = (t, e)" by (cases "call env s")
    have t: "keep t" "e = None \<longrightarrow> goal t" using call [OF Suc.prems(2) c] by simp_all
    show ?thesis
    proof (cases e)
      case None
      then show ?thesis using Suc.prems(1) ctx c t by (subst (asm) retry_log_loop.simps) simp
    next
      case (Some err)
      let ?b = "next_backoff cfg interval"
      obtain u x where w: "wait env ?b t = (u, x)" by (cases "wait env ?b t")
      have u: "keep u" using sleep [OF t(1), of ?b] w by simp
      obtain s3 r3 ws3 ls3 where l: "retry_log_loop env cfg n (a + 1) ?b u = (s3, r3, ws3, ls3)"
        by (cases "retry_log_loop env cfg n (a + 1) ?b u")
      note rec = Suc.IH [OF l u]
      show ?thesis
      proof (cases "is_permanent_error err \<or> x \<noteq> None")
        case True
        then show ?thesis using Suc.prems(1) ctx c Some w t(1) u
          by (subst (asm) retry_log_loop.simps) (auto simp: Let_def split: if_splits)
      next
        case False
        then show ?thesis using Suc.prems(1) ctx c Some w l rec
          by (subst (asm) retry_log_loop.simps) (auto simp: Let_def)
      qed
    qed
  qed
qed

lemma download_invariant:
  assumes "download cfg envs ctx sleep now rc s = (s', Returned r)" "keep (s\<lparr>ft_last_save := now\<rparr>)" "\<not> ho_dry_run (dc_http cfg)"
    and step: "\<And>i t t' e. keep t \<Longrightarrow> do_download cfg (envs i) t = (t', e) \<Longrightarrow> keep t' \<and> (e = Returned None \<longrightarrow> goal t')"
    and sleep: "\<And>d w. rw_fetch (fst (sleep d w)) = rw_fetch w"
  shows "keep s' \<and> (r = None \<longrightarrow> goal s')"
proof -
  let ?env = "\<lparr>call = attempt_call cfg envs, ctx_err = ctx, wait = sleep\<rparr>"
  let ?w = "\<lparr>rw_fetch = s\<lparr>ft_last_save := now\<rparr>, rw_attempts = 0, rw_end = Returned None\<rparr>"
  have c: "keep (rw_fetch w') \<and> (e = None \<longrightarrow> (\<forall>e'. rw_end w' = Returned e' \<longrightarrow> goal (rw_fetch w')))"
    if "keep (rw_fetch w)" "attempt_call cfg envs w = (w', e)" for w w' e
    using that(2) step [OF that(1), of "rw_attempts w"]
    by (auto simp: attempt_call_def split: prod.splits flow_end.splits)
  obtain w r' ws ls where l: "do_with_retry_with_logger ?env rc ?w = (w, r', ws, ls)"
    by (cases "do_with_retry_with_logger ?env rc ?w")
  have "keep (rw_fetch w) \<and> (r' = None \<longrightarrow> (\<forall>e'. rw_end w = Returned e' \<longrightarrow> goal (rw_fetch w)))"
  proof (cases "max_retries rc \<le> 0")
    case True
    then show ?thesis using l c [of ?w] assms(2) by (auto simp: do_with_retry_with_logger_def split: prod.splits)
  next
    case False
    then have "retry_log_loop ?env rc (nat (max_retries rc)) 0 (initial_interval rc) ?w = (w, r', ws, ls)"
      using l by (simp add: do_with_retry_with_logger_def)
    from retry_log_loop_invariant [OF this, of "\<lambda>w. keep (rw_fetch w)"
        "\<lambda>w. \<forall>e'. rw_end w = Returned e' \<longrightarrow> goal (rw_fetch w)"] c sleep assms(2)
    show ?thesis by auto
  qed
  then show ?thesis using assms(1,3) l by (auto simp: download_def split: flow_end.splits)
qed

section \<open>A download from a server without ranges\<close>

text \<open>What the probe may say of \<open>content\<close>: that there are no ranges, and the length, or that it is unknown.\<close>

definition plain_probe :: "8 word list \<Rightarrow> attempt_env \<Rightarrow> bool" where
  "plain_probe content env \<longleftrightarrow>
     (\<forall>m. case snd (head_request (at_probe env 0) False (at_headers env) m) of
        Size n ranged \<Rightarrow> \<not> ranged \<and> (n = int (length content) \<or> n \<le> 0)
      | ProbeError _ \<Rightarrow> True
      | NotModified \<Rightarrow> False)"

lemma plain_probe_size:
  assumes "plain_probe content env" "\<not> ft_conditional s"
  shows "\<exists>m. (\<exists>e. probe_size env s = ProbeFailed (s\<lparr>ft_remote := m\<rparr>) e) \<or>
    (\<exists>n. probe_size env s = Probed (s\<lparr>ft_remote := m\<rparr>) n False \<and> (n = int (length content) \<or> n \<le> 0))"
proof -
  obtain m r where h: "head_request (at_probe env 0) False (at_headers env) (ft_remote s) = (m, r)"
    by (cases "head_request (at_probe env 0) False (at_headers env) (ft_remote s)")
  then have "case r of Size n ranged \<Rightarrow> \<not> ranged \<and> (n = int (length content) \<or> n \<le> 0) | ProbeError _ \<Rightarrow> True | NotModified \<Rightarrow> False"
    using assms(1) by (metis plain_probe_def snd_conv)
  then show ?thesis using h assms(2)
    by (intro exI [of _ m]) (auto simp: probe_size_def Let_def split: probe_result.splits)
qed

lemma single_download_unsized:
  assumes "prefix_of content s" "honest_server content srv" "ft_size s \<le> 0"
  shows "prefix_of content (fst (single_download env srv s)) \<and>
    (snd (single_download env srv s) = Some None \<longrightarrow> ft_local (fst (single_download env srv s)) = Some content)"
proof -
  have "plan_single s = StartOver"
    using assms(1,3) by (auto simp: plan_single_def existing_progress_def prefix_of_def no_control_def Let_def)
  then have "single_download env srv s = fresh_download env srv s" by (simp add: single_download.simps [of env srv s])
  then show ?thesis using fresh_download_prefix [OF assms(1,2)] fresh_download_local [OF _ assms(2)]
    by (metis prod.collapse)
qed

text \<open>One attempt: it keeps the file a beginning of the resource, and with success it is the resource.\<close>

lemma plain_attempt:
  assumes "prefix_of content s" "plain_probe content env" "honest_server content (at_server env)"
    "do_download cfg env s = (s', r)"
  shows "prefix_of content s' \<and> (r = Returned None \<longrightarrow> ft_local s' = Some content)"
proof (cases "dc_max_connections cfg \<le> 0")
  case True
  then show ?thesis using assms(1,4) by (auto simp: do_download_def)
next
  case False
  have p: "prefix_of content s" "\<not> ft_conditional s" "\<not> ft_path s" "ft_cf s = None"
    using assms(1) by (simp_all add: prefix_of_def no_control_def)
  have probed: "prefix_of content (s\<lparr>ft_remote := m\<rparr>)" "prefix_of content (s\<lparr>ft_remote := m, ft_size := n\<rparr>)"
    "prefix_of content (s\<lparr>ft_remote := m, ft_size := n, ft_total := n\<rparr>)" for m n
    using p(1) by (simp_all add: prefix_of_def no_control_def local_bytes_def)
  obtain m where "(\<exists>e. probe_size env s = ProbeFailed (s\<lparr>ft_remote := m\<rparr>) e) \<or>
      (\<exists>n. probe_size env s = Probed (s\<lparr>ft_remote := m\<rparr>) n False \<and> (n = int (length content) \<or> n \<le> 0))"
    using plain_probe_size [OF assms(2) p(2)] by blast
  then consider (fail) e where "probe_size env s = ProbeFailed (s\<lparr>ft_remote := m\<rparr>) e"
    | (size) n where "probe_size env s = Probed (s\<lparr>ft_remote := m\<rparr>) n False" "n = int (length content) \<or> n \<le> 0" by blast
  then show ?thesis
  proof cases
    case fail
    then show ?thesis using assms(4) False p(3) probed(1) by (auto simp: do_download_def)
  next
    case size
    let ?s = "s\<lparr>ft_remote := m, ft_size := n\<rparr>"
    show ?thesis
    proof (cases "local_size_is ?s n \<and> n > 0")
      case True
      obtain k where k: "local_bytes s = take k content" using p(1) by (auto simp: prefix_of_def)
      have "local_bytes ?s = local_bytes s" by (simp add: local_bytes_def)
      with True size(2) k have "local_bytes s = content" "ft_local s \<noteq> None" by (auto simp: local_size_is_def min_def split: if_splits)
      then have "ft_local s = Some content" by (auto simp: local_bytes_def)
      then show ?thesis using True assms(4) False p(3,4) size(1) probed(3)
        by (auto simp: do_download_def resume_from_def local_size_is_def local_bytes_def)
    next
      case part: False
      have d: "do_download cfg env s = single_end (single_download (at_fetch env) (at_server env) ?s)"
        using part False p(3,4) size(1) by (auto simp: do_download_def resume_from_def)
      note one = single_download_prefix [OF probed(2) assms(3), of n m "at_fetch env"]
        single_download_unsized [OF probed(2) assms(3), of n m "at_fetch env"]
      show ?thesis using d assms(4) one size(2) by (auto simp: single_end_def split: option.splits)
    qed
  qed
qed

text \<open>
  C5: A download as the manager runs it, without a control file, from a server that does not offer ranges:
  whatever attempts it takes, with whatever errors in the probes, the requests, the reads and the
  writes, if the call returns without an error then the file is exactly the resource. The file may
  hold a beginning of the resource at the start, and the size may be unknown.
\<close>
theorem download_without_ranges_correct:
  assumes "download cfg envs ctx sleep now rc s = (s', Returned None)" "\<not> ho_dry_run (dc_http cfg)"
    "prefix_of content s" "\<And>i. plain_probe content (envs i)" "\<And>i. honest_server content (at_server (envs i))"
    "\<And>d w. rw_fetch (fst (sleep d w)) = rw_fetch w"
  shows "ft_local s' = Some content"
proof -
  have "prefix_of content (s\<lparr>ft_last_save := now\<rparr>)"
    using assms(3) by (simp add: prefix_of_def no_control_def local_bytes_def)
  from download_invariant [where keep = "prefix_of content" and goal = "\<lambda>t. ft_local t = Some content", OF assms(1) this assms(2)]
  show ?thesis using plain_attempt [OF _ assms(4,5)] assms(6) by auto
qed

section \<open>Several connections: a failed attempt that is taken for success\<close>

lemma full_size_file_skipped:
  assumes "no_control s" "head_request (at_probe env 0) False (at_headers env) (ft_remote s) = (m, Size n ranged)"
    "local_size_is s n" "0 < n" "0 < dc_max_connections cfg"
  shows "do_download cfg env s = (s\<lparr>ft_remote := m, ft_size := n, ft_total := n\<rparr>, Returned None)"
  using assms
  by (simp add: do_download_def probe_size_def resume_from_def no_control_def local_size_is_def local_bytes_def)

text \<open>
  Without a control file the size of the file is all that is looked at, so an attempt that fails after it
  has brought the file to its full length (preallocation does that before the first byte arrives) is
  followed by an attempt that succeeds at once: \<open>Download\<close> returns no error and the file is what the failed
  attempt left.
\<close>
theorem failed_attempt_reported_complete:
  assumes "do_download cfg (envs 0) (s\<lparr>ft_last_save := now\<rparr>) = (s1, Returned (Some e))" "\<not> is_permanent_error e"
    "no_control s1" "head_request (at_probe (envs 1) 0) False (at_headers (envs 1)) (ft_remote s1) = (m, Size n ranged)"
    "local_size_is s1 n" "0 < n" "0 < dc_max_connections cfg" "\<not> ho_dry_run (dc_http cfg)" "0 < max_retries rc"
  shows "download cfg envs (\<lambda>_. None) (\<lambda>_ w. (w, None)) now rc s =
    (s1\<lparr>ft_remote := m, ft_size := n, ft_total := n\<rparr>, Returned None)"
proof -
  obtain j where j: "nat (max_retries rc) = Suc j" using assms(9) by (metis gr0_conv_Suc zero_less_nat_eq)
  have second: "do_download cfg (envs (Suc 0)) s1 = (s1\<lparr>ft_remote := m, ft_size := n, ft_total := n\<rparr>, Returned None)"
    using full_size_file_skipped [OF assms(3,4,5,6,7)] by simp
  show ?thesis
    using assms(1,2,8,9) second
    by (subst download_def, subst do_with_retry_with_logger_def, simp add: j,
        subst retry_log_loop.simps, simp add: attempt_call_def Let_def,
        subst retry_log_loop.simps, simp add: attempt_call_def)
qed

section \<open>Witnesses\<close>

text \<open>A server that answers the probe with a length of five bytes; its transfers of pieces time out.\<close>

definition size_probe :: "string \<Rightarrow> probe_env" where
  "size_probe ranges = \<lparr>pv_create = None,
     pv_head = (\<lambda>_. Answer \<lparr>rp_status = 200, rp_text = [], rp_header = (\<lambda>k. if k = ''Accept-Ranges'' then ranges else []), rp_length = 5\<rparr>),
     pv_get = (\<lambda>_. NoAnswer (Plain ''refused''))\<rparr>"

definition timed_out :: go_error where
  "timed_out = Plain ''net/http: timeout awaiting response headers''"

definition no_answer :: exchange where
  "no_answer = \<lparr>ex_ctx = None, ex_wait_ctx = None, ex_create = None, ex_do = Some timed_out, ex_status = 0,
     ex_status_text = [], ex_start = 0, ex_body = (\<lambda>_ _. [])\<rparr>"

definition turn_of :: "turn_input \<Rightarrow> turn" where
  "turn_of inp = \<lparr>tn_worker = 0, tn_ctx = None, tn_input = inp\<rparr>"

text \<open>The worker claims the piece and tries its only source four times.\<close>

definition failing_turns :: "turn list" where
  "failing_turns = map turn_of ([Claim 0, Acquire [''http://h/f''], Proceed, Answered no_answer] @
     concat (replicate 3 [Proceed, Proceed, Answered no_answer]))"

definition demo_attempt :: "string \<Rightarrow> attempt_env" where
  "demo_attempt ranges = \<lparr>at_fetch = all_saves, at_readable = True, at_probe = (\<lambda>_. size_probe ranges), at_headers = Map.empty,
     at_server = plain_server [1, 2, 3, 4, 5], at_external = False, at_turns = failing_turns,
     at_mkdir = None, at_open = None, at_prealloc_fails = False, at_truncate = None, at_now = 9\<rparr>"

definition managed_fetch :: fetch where
  "managed_fetch = idle_fetch\<lparr>ft_path := False, ft_local := Some [1, 2]\<rparr>"

lemma demo_plain_probe: "plain_probe [1, 2, 3, 4, 5] (demo_attempt [])"
  by (simp add: plain_probe_def head_request_def demo_attempt_def size_probe_def conditional_headers_def note_modified_def Let_def)

lemma single_default: "\<not> dc_max_connections default_download_config \<le> 0" "\<not> ho_dry_run (dc_http default_download_config)"
  by (simp_all add: default_download_config_def)

lemma download_without_ranges_correct_witness:
  "ft_local (fst (download default_download_config (\<lambda>_. demo_attempt []) (\<lambda>_. None) (\<lambda>_ w. (w, None)) 1 default_retry_config managed_fetch)) =
   Some [1, 2, 3, 4, 5]"
proof -
  let ?r = "download default_download_config (\<lambda>_. demo_attempt []) (\<lambda>_. None) (\<lambda>_ w. (w, None)) 1 default_retry_config managed_fetch"
  have pre: "prefix_of [1, 2, 3, 4, 5] managed_fetch"
    by (auto simp: prefix_of_def no_control_def managed_fetch_def idle_fetch_def local_bytes_def intro: exI [of _ 2])
  have fin: "snd (single_download all_saves (plain_server [1, 2, 3, 4, 5]) s) = Some None" for s
    by (rule plain_server_completes)
  have "snd (do_download default_download_config (demo_attempt []) (managed_fetch\<lparr>ft_last_save := 1\<rparr>)) = Returned None"
    using fin
    by (simp add: do_download_def probe_size_def head_request_def demo_attempt_def size_probe_def resume_from_def managed_fetch_def
        idle_fetch_def local_size_is_def local_bytes_def note_modified_def conditional_headers_def single_end_def single_default)
  then obtain t where "do_download default_download_config (demo_attempt []) (managed_fetch\<lparr>ft_last_save := 1\<rparr>) = (t, Returned None)"
    by (metis prod.collapse)
  then have "snd ?r = Returned None"
    by (simp add: download_def single_default do_with_retry_with_logger_def default_retry_config_def retry_log_loop.simps
        attempt_call_def Let_def)
  then have "?r = (fst ?r, Returned None)" by (simp add: prod_eq_iff)
  from download_without_ranges_correct [OF this single_default(2) pre demo_plain_probe] show ?thesis
    using plain_server_honest by (simp add: demo_attempt_def)
qed

text \<open>One connection, files grown to their size in advance.\<close>

definition one_connection :: download_config where
  "one_connection = default_download_config\<lparr>dc_max_connections := 1, dc_preallocate := True\<rparr>"

text \<open>Every transfer has failed, and the file of five zeros is reported as a finished download.\<close>

definition all_failed :: go_error where
  "all_failed = Wrapped ''piece download failed from all sources'' (Wrapped ''request'' timed_out)"

definition failed_attempt :: fetch where
  "failed_attempt = fst (do_download one_connection (demo_attempt ''bytes'') ((managed_fetch\<lparr>ft_local := None\<rparr>)\<lparr>ft_last_save := 1\<rparr>))"

lemma failed_attempt_end:
  "do_download one_connection (demo_attempt ''bytes'') ((managed_fetch\<lparr>ft_local := None\<rparr>)\<lparr>ft_last_save := 1\<rparr>) =
   (failed_attempt, Returned (Some all_failed))"
  by code_simp

lemma failed_attempt_file: "ft_local failed_attempt = Some [0, 0, 0, 0, 0]"
  by code_simp

lemma failed_attempt_rest: "\<not> ft_path failed_attempt" "ft_cf failed_attempt = None" "\<not> ft_conditional failed_attempt"
  by code_simp+

lemma all_failed_retried: "\<not> is_permanent_error all_failed"
  by code_simp

lemma failed_attempt_reported_complete_witness:
  "(case download one_connection (\<lambda>_. demo_attempt ''bytes'') (\<lambda>_. None) (\<lambda>_ w. (w, None)) 1 default_retry_config
      (managed_fetch\<lparr>ft_local := None\<rparr>) of (s, r) \<Rightarrow> (ft_local s, r)) = (Some [0, 0, 0, 0, 0], Returned None)"
proof -
  have h: "head_request (at_probe (demo_attempt ''bytes'') 0) False (at_headers (demo_attempt ''bytes'')) m = (m, Size 5 True)" for m
    by (simp add: head_request_def demo_attempt_def size_probe_def conditional_headers_def note_modified_def Let_def)
  have "no_control failed_attempt" "local_size_is failed_attempt 5"
    using failed_attempt_rest failed_attempt_file by (simp_all add: no_control_def local_size_is_def local_bytes_def)
  from failed_attempt_reported_complete [where envs = "\<lambda>_. demo_attempt ''bytes''", OF failed_attempt_end all_failed_retried this(1) h this(2), of default_retry_config]
  show ?thesis using failed_attempt_file
    by (simp add: one_connection_def default_download_config_def default_retry_config_def)
qed

end
