(* ===== verification/Metrics.thy ===== *)
theory Metrics
  imports GoUrl GoPath TaskModel
begin

text \<open>
  The labels of the metrics, \<open>internal/api/metrics.go\<close>: route patterns in place of request paths, and the
  bounded set of tasks that own a label. A gauge is the map from its labels to values.
\<close>

section \<open>Route patterns\<close>

definition split_path :: "string \<Rightarrow> string list" where
  "split_path p = filter (\<lambda>s. s \<noteq> []) (split_on CHR ''/'' p)"

text \<open>The loop over the characters: dashes and hexadecimal digits seen, or another character.\<close>

fun id_counts :: "string \<Rightarrow> nat \<Rightarrow> nat \<Rightarrow> (nat \<times> nat) option" where
  "id_counts [] dash hex = Some (dash, hex)"
| "id_counts (c # cs) dash hex =
     (if c = CHR ''-'' then id_counts cs (dash + 1) hex
      else if is_hex c then id_counts cs dash (hex + 1)
      else None)"

definition is_likely_id :: "string \<Rightarrow> bool" where
  "is_likely_id seg =
     (if length seg < 8 then False
      else case id_counts seg 0 0 of
        None \<Rightarrow> False
      | Some (dash, hex) \<Rightarrow>
          if dash > 0 then int hex = int (length seg) - int dash
          else hex = length seg \<and> length seg \<ge> 16)"

definition normalize_endpoint :: "string \<Rightarrow> string" where
  "normalize_endpoint path =
     (if path = [] then ''<empty>''
      else
        let segs = map (\<lambda>s. if is_likely_id s then ''{id}'' else s) (split_path path) in
        if segs = [] then ''/''
        else (if has_prefix path ''/'' then ''/'' else []) @ join_with CHR ''/'' segs)"

section \<open>Labels per task\<close>

definition max_per_task_labels :: nat where
  "max_per_task_labels = 256"

text \<open>\<open>pt_lru\<close> has the most recent task first.\<close>

record task_labels =
  pt_lru :: "string list"
  pt_entry :: "string set"
  pt_speed :: "string \<rightharpoonup> rat"
  pt_progress :: "string \<rightharpoonup> rat"

definition no_labels :: task_labels where
  "no_labels = \<lparr>pt_lru = [], pt_entry = {}, pt_speed = Map.empty, pt_progress = Map.empty\<rparr>"

definition delete_labels :: "string \<Rightarrow> task_labels \<Rightarrow> task_labels" where
  "delete_labels t p = p\<lparr>pt_speed := (pt_speed p)(t := None), pt_progress := (pt_progress p)(t := None)\<rparr>"

function evict_labels :: "task_labels \<Rightarrow> task_labels" where
  "evict_labels p =
     (if length (pt_lru p) > max_per_task_labels then
        let evicted = List.last (pt_lru p) in
        evict_labels (delete_labels evicted
          (p\<lparr>pt_lru := butlast (pt_lru p), pt_entry := pt_entry p - {evicted}\<rparr>))
      else p)"
  by pat_completeness auto
termination
  by (relation "measure (\<lambda>p. length (pt_lru p))") (auto simp: delete_labels_def)

declare evict_labels.simps [simp del]

definition touch_per_task :: "string \<Rightarrow> task_labels \<Rightarrow> task_labels" where
  "touch_per_task t p =
     (if t \<in> pt_entry p then p\<lparr>pt_lru := t # remove1 t (pt_lru p)\<rparr>
      else evict_labels (p\<lparr>pt_lru := t # pt_lru p, pt_entry := insert t (pt_entry p)\<rparr>))"

definition forget_per_task :: "string \<Rightarrow> task_labels \<Rightarrow> task_labels" where
  "forget_per_task t p =
     delete_labels t
       (if t \<in> pt_entry p then p\<lparr>pt_lru := remove1 t (pt_lru p), pt_entry := pt_entry p - {t}\<rparr> else p)"

text \<open>
  The recorders touch the list under its lock and set the gauge after the lock is released, so other
  calls may come between their two steps.
\<close>

definition set_speed_label :: "string \<Rightarrow> int \<Rightarrow> task_labels \<Rightarrow> task_labels" where
  "set_speed_label t v p = p\<lparr>pt_speed := (pt_speed p)(t \<mapsto> f64 (of_int v))\<rparr>"

definition set_progress_label :: "string \<Rightarrow> rat \<Rightarrow> task_labels \<Rightarrow> task_labels" where
  "set_progress_label t v p = p\<lparr>pt_progress := (pt_progress p)(t \<mapsto> v)\<rparr>"

definition record_download_speed :: "string \<Rightarrow> int \<Rightarrow> task_labels \<Rightarrow> task_labels" where
  "record_download_speed t v p = set_speed_label t v (touch_per_task t p)"

definition record_download_progress :: "string \<Rightarrow> rat \<Rightarrow> task_labels \<Rightarrow> task_labels" where
  "record_download_progress t v p = set_progress_label t v (touch_per_task t p)"

datatype label_op = RecordSpeed string int | RecordProgress string rat | Forget string

fun label_exec :: "label_op \<Rightarrow> task_labels \<Rightarrow> task_labels" where
  "label_exec (RecordSpeed t v) p = record_download_speed t v p"
| "label_exec (RecordProgress t v) p = record_download_progress t v p"
| "label_exec (Forget t) p = forget_per_task t p"

section \<open>Facts\<close>

lemma id_counts_Some:
  "list_all (\<lambda>c. c = CHR ''-'' \<or> is_hex c) s \<Longrightarrow>
     \<exists>a b. id_counts s d h = Some (d + a, h + b) \<and> a + b = length s \<and> (a = 0 \<longleftrightarrow> CHR ''-'' \<notin> set s)"
proof (induction s arbitrary: d h)
  case (Cons c s)
  then have "list_all (\<lambda>c. c = CHR ''-'' \<or> is_hex c) s" by simp
  from Cons.IH [OF this, of "d + 1" h] Cons.IH [OF this, of d "h + 1"] Cons.prems show ?case by force
qed simp

lemma hex_encode_hex: "c \<in> set (hex_encode bs) \<Longrightarrow> is_hex c"
proof -
  have h: "\<forall>n \<in> set [0..<16]. is_hex (hex_digit n)" by code_simp
  have "unat b div 16 < 16" "unat b mod 16 < 16" for b :: "8 word"
    using unsigned_less [of b, where 'a = nat] by (simp_all add: less_mult_imp_div_less)
  with h have "is_hex (hex_digit (unat b div 16))" "is_hex (hex_digit (unat b mod 16))" for b :: "8 word" by simp_all
  then show "c \<in> set (hex_encode bs) \<Longrightarrow> is_hex c" by (induction bs) auto
qed

lemma format_id_likely: "length b = 16 \<Longrightarrow> is_likely_id (format_id b)"
proof -
  assume b: "length b = 16"
  have all: "list_all (\<lambda>c. c = CHR ''-'' \<or> is_hex c) (format_id b)"
    using hex_encode_hex by (auto simp: format_id_def list_all_iff)
  have "CHR ''-'' \<in> set (format_id b)" by (simp add: format_id_def)
  with id_counts_Some [OF all, of 0 0] obtain x y where
    "id_counts (format_id b) 0 0 = Some (x, y)" "x + y = length (format_id b)" "x > 0" by auto
  moreover have "length (format_id b) \<ge> 8" using b by (simp add: format_id_def)
  ultimately show ?thesis by (auto simp: is_likely_id_def)
qed

text \<open>Touched tasks are distinct, at most the maximum, and own every label.\<close>

definition labels_ok :: "task_labels \<Rightarrow> bool" where
  "labels_ok p \<longleftrightarrow> distinct (pt_lru p) \<and> pt_entry p = set (pt_lru p) \<and>
     dom (pt_speed p) \<subseteq> set (pt_lru p) \<and> dom (pt_progress p) \<subseteq> set (pt_lru p)"

lemma labels_delete:
  "distinct (l @ [t]) \<Longrightarrow> labels_ok (p\<lparr>pt_lru := l @ [t], pt_entry := set (l @ [t])\<rparr>) \<Longrightarrow>
   labels_ok (delete_labels t (p\<lparr>pt_lru := l, pt_entry := set l\<rparr>))"
  by (auto simp: labels_ok_def delete_labels_def)

lemma evict_labels_ok:
  "labels_ok p \<Longrightarrow> labels_ok (evict_labels p) \<and> length (pt_lru (evict_labels p)) \<le> max_per_task_labels \<and>
     pt_lru (evict_labels p) = take max_per_task_labels (pt_lru p)"
proof (induction p rule: evict_labels.induct)
  case (1 p)
  show ?case
  proof (cases "length (pt_lru p) > max_per_task_labels")
    case True
    define t l where "t = List.last (pt_lru p)" and "l = butlast (pt_lru p)"
    from True have ne: "pt_lru p \<noteq> []" by auto
    then have lt: "pt_lru p = l @ [t]" by (simp add: t_def l_def)
    have d: "distinct (l @ [t])" "pt_entry p = set (l @ [t])" using 1(2) lt by (simp_all add: labels_ok_def)
    have "pt_entry p - {t} = set l" using d by auto
    then have step: "evict_labels p = evict_labels (delete_labels t (p\<lparr>pt_lru := l, pt_entry := set l\<rparr>))"
      using True by (subst evict_labels.simps) (simp add: Let_def t_def l_def)
    have "labels_ok (delete_labels t (p\<lparr>pt_lru := l, pt_entry := set l\<rparr>))"
      using labels_delete [OF d(1), of p] 1(2) lt d(2) by (simp add: labels_ok_def)
    with 1(1) [OF True t_def] \<open>pt_entry p - {t} = set l\<close>
    have "labels_ok (evict_labels p)" "length (pt_lru (evict_labels p)) \<le> max_per_task_labels"
      "pt_lru (evict_labels p) = take max_per_task_labels l"
      by (simp_all add: step l_def delete_labels_def)
    moreover have "take max_per_task_labels (pt_lru p) = take max_per_task_labels l" using True lt by simp
    ultimately show ?thesis by simp
  next
    case False
    with 1(2) show ?thesis by (simp add: evict_labels.simps [of p])
  qed
qed

lemma touch_ok:
  assumes "labels_ok p" "length (pt_lru p) \<le> max_per_task_labels"
  shows "labels_ok (touch_per_task t p)" "length (pt_lru (touch_per_task t p)) \<le> max_per_task_labels"
    "t \<in> set (pt_lru (touch_per_task t p))"
proof -
  have "max_per_task_labels > 0" by (simp add: max_per_task_labels_def)
  then have front: "t \<in> set (take max_per_task_labels (t # xs))" for xs
    by (simp add: max_per_task_labels_def numeral_eq_Suc)
  have *: "labels_ok (touch_per_task t p) \<and> length (pt_lru (touch_per_task t p)) \<le> max_per_task_labels \<and>
    t \<in> set (pt_lru (touch_per_task t p))"
  proof (cases "t \<in> pt_entry p")
    case True
    then have "t \<in> set (pt_lru p)" using assms(1) by (simp add: labels_ok_def)
    then have "Suc (length (pt_lru p) - Suc 0) = length (pt_lru p)" using length_pos_if_in_set by fastforce
    with assms True show ?thesis
      by (auto simp: touch_per_task_def labels_ok_def length_remove1 set_remove1_eq)
  next
    case False
    with assms have "labels_ok (p\<lparr>pt_lru := t # pt_lru p, pt_entry := insert t (pt_entry p)\<rparr>)"
      by (auto simp: labels_ok_def)
    from evict_labels_ok [OF this] front [of "pt_lru p"] False show ?thesis by (auto simp: touch_per_task_def)
  qed
  then show "labels_ok (touch_per_task t p)" "length (pt_lru (touch_per_task t p)) \<le> max_per_task_labels"
    "t \<in> set (pt_lru (touch_per_task t p))" by simp_all
qed

lemma label_exec_ok:
  "labels_ok p \<Longrightarrow> length (pt_lru p) \<le> max_per_task_labels \<Longrightarrow>
     labels_ok (label_exec op p) \<and> length (pt_lru (label_exec op p)) \<le> max_per_task_labels"
proof (cases op)
  case (Forget t)
  assume "labels_ok p" "length (pt_lru p) \<le> max_per_task_labels"
  then show ?thesis
    by (auto simp: Forget forget_per_task_def delete_labels_def labels_ok_def length_remove1 set_remove1_eq)
qed (use touch_ok in \<open>auto simp: record_download_speed_def record_download_progress_def set_speed_label_def
       set_progress_label_def labels_ok_def\<close>)

lemma label_run_ok:
  "labels_ok p \<Longrightarrow> length (pt_lru p) \<le> max_per_task_labels \<Longrightarrow>
     labels_ok (fold label_exec ops p) \<and> length (pt_lru (fold label_exec ops p)) \<le> max_per_task_labels"
  by (induction ops arbitrary: p) (simp_all add: label_exec_ok)

section \<open>Properties\<close>

text \<open>
  However many tasks report, as long as no recorder is overtaken between its two steps, the gauges never
  have more labels than the maximum; and the requests for a task share one route pattern whatever its
  identifier.
\<close>
theorem metric_labels_bounded:
  assumes "length b = 16"
  shows "card (dom (pt_speed (fold label_exec ops no_labels)) \<union> dom (pt_progress (fold label_exec ops no_labels)))
      \<le> max_per_task_labels \<and>
    normalize_endpoint (''/api/tasks/'' @ format_id b @ ''/pause'') = ''/api/tasks/{id}/pause''"
proof
  let ?p = "fold label_exec ops no_labels"
  have ok: "labels_ok ?p" "length (pt_lru ?p) \<le> max_per_task_labels"
    using label_run_ok [of no_labels ops] by (simp_all add: no_labels_def labels_ok_def)
  then have "card (dom (pt_speed ?p) \<union> dom (pt_progress ?p)) \<le> card (set (pt_lru ?p))"
    by (intro card_mono) (auto simp: labels_ok_def)
  then show "card (dom (pt_speed ?p) \<union> dom (pt_progress ?p)) \<le> max_per_task_labels"
    using ok(2) card_length [of "pt_lru ?p"] by linarith
  have ns: "CHR ''/'' \<notin> set (format_id b)"
    using hex_encode_hex by (fastforce simp: format_id_def is_hex_def is_digit_def char_code_def)
  have ne: "format_id b \<noteq> []" by (simp add: format_id_def)
  have sp: "split_path (''/api/tasks/'' @ format_id b @ ''/pause'') = [''api'', ''tasks'', format_id b, ''pause'']"
    using split_on_append [OF ns, of "''pause''"] ne by (simp add: split_path_def)
  have short: "\<not> is_likely_id ''api''" "\<not> is_likely_id ''tasks''" "\<not> is_likely_id ''pause''"
    by (simp_all add: is_likely_id_def)
  show "normalize_endpoint (''/api/tasks/'' @ format_id b @ ''/pause'') = ''/api/tasks/{id}/pause''"
    unfolding normalize_endpoint_def sp by (simp add: format_id_likely [OF assms] short)
qed

text \<open>
  A recorder overtaken by \<open>ForgetPerTask\<close> between its two steps leaves a label that no task owns, which
  the bound does not see.
\<close>

lemma overtaken_recorder_leaks_label:
  assumes "labels_ok p" "length (pt_lru p) \<le> max_per_task_labels"
  shows "let p' = set_speed_label t v (forget_per_task t (touch_per_task t p)) in
    t \<in> dom (pt_speed p') \<and> t \<notin> set (pt_lru p')"
  using touch_ok [OF assms, of t]
  by (auto simp: Let_def set_speed_label_def forget_per_task_def delete_labels_def labels_ok_def set_remove1_eq)

end
