(* ===== verification/GoNet.thy ===== *)
theory GoNet
  imports GoUrl
begin

text \<open>
  Addresses of the \<open>net\<close> package: their kinds, and the host and the port of a network address.
\<close>

section \<open>Addresses\<close>

text \<open>An address is its four or sixteen bytes, as \<open>net.IP\<close> holds it.\<close>

type_synonym ip = "int list"

definition ip_to4 :: "ip \<Rightarrow> ip option" where
  "ip_to4 ip =
     (if length ip = 4 then Some ip
      else if length ip = 16 \<and> take 10 ip = replicate 10 0 \<and> ip ! 10 = 255 \<and> ip ! 11 = 255 then Some (drop 12 ip)
      else None)"

definition is_loopback :: "ip \<Rightarrow> bool" where
  "is_loopback ip = (case ip_to4 ip of Some a \<Rightarrow> a ! 0 = 127 | None \<Rightarrow> ip = replicate 15 0 @ [1])"

definition is_private :: "ip \<Rightarrow> bool" where
  "is_private ip =
     (case ip_to4 ip of
        Some a \<Rightarrow> a ! 0 = 10 \<or> (a ! 0 = 172 \<and> a ! 1 div 16 = 1) \<or> (a ! 0 = 192 \<and> a ! 1 = 168)
      | None \<Rightarrow> length ip = 16 \<and> ip ! 0 div 2 = 126)"

definition is_link_local_unicast :: "ip \<Rightarrow> bool" where
  "is_link_local_unicast ip =
     (case ip_to4 ip of
        Some a \<Rightarrow> a ! 0 = 169 \<and> a ! 1 = 254
      | None \<Rightarrow> length ip = 16 \<and> ip ! 0 = 254 \<and> ip ! 1 div 64 = 2)"

definition is_unspecified :: "ip \<Rightarrow> bool" where
  "is_unspecified ip \<longleftrightarrow> ip = [0, 0, 0, 0] \<or> ip = replicate 10 0 @ [255, 255, 0, 0, 0, 0] \<or> ip = replicate 16 0"

section \<open>Hosts and ports\<close>

text \<open>\<open>net.SplitHostPort\<close>.\<close>

definition split_host_port :: "string \<Rightarrow> (string \<times> string) option" where
  "split_host_port hp =
     (if CHR '':'' \<notin> set hp then None
      else if has_prefix hp ''['' then
        (let host = before CHR '']'' (tl hp); rest = after CHR '']'' (tl hp) in
         if CHR '']'' \<notin> set hp \<or> \<not> has_prefix rest '':'' then None
         else if CHR '':'' \<in> set (tl rest) \<or> CHR ''['' \<in> set host \<or> CHR ''['' \<in> set rest \<or> CHR '']'' \<in> set rest then None
         else Some (host, tl rest))
      else
        (let host = before_last CHR '':'' hp in
         if CHR '':'' \<in> set host \<or> CHR ''['' \<in> set hp \<or> CHR '']'' \<in> set hp then None
         else Some (host, after_last CHR '':'' hp)))"

end
