(* ===== verification/Middleware.thy ===== *)
theory Middleware
  imports Metrics GoNet
begin

text \<open>
  The HTTP middleware of the control interface, \<open>internal/api/middleware.go\<close>. A handler maps a request, the
  header fields set so far and the state of the server to the new state and an outcome. A middleware maps
  handlers to handlers.
\<close>

section \<open>Requests and responses\<close>

type_synonym header = "string \<rightharpoonup> string"

text \<open>Header and query look-ups answer the empty string for a missing entry, as \<open>Get\<close> does.\<close>

record request =
  rq_method :: string
  rq_path :: string
  rq_query :: "string \<Rightarrow> string"
  rq_header :: "string \<Rightarrow> string"
  rq_remote :: string
  rq_length :: int
  rq_body :: string
  rq_now :: instant

datatype 'b payload = NoBody | ErrorBody string int string | Body 'b

record 'b response =
  rs_status :: int
  rs_header :: header
  rs_body :: "'b payload"

text \<open>A panic leaves the header fields that were set before it.\<close>

datatype 'b outcome = Reply "'b response" | Panicked header

record window =
  rw_count :: int
  rw_start :: instant

record 'a server =
  sv_windows :: "string \<rightharpoonup> window"
  sv_counts :: "string \<times> string \<times> int \<Rightarrow> nat"
  sv_access :: "(string \<times> string \<times> int) list"
  sv_app :: 'a

type_synonym ('a, 'b) handler = "request \<Rightarrow> header \<Rightarrow> 'a server \<Rightarrow> 'a server \<times> 'b outcome"

definition reply :: "int \<Rightarrow> header \<Rightarrow> 'b payload \<Rightarrow> 'b outcome" where
  "reply code h b = Reply \<lparr>rs_status = code, rs_header = h, rs_body = b\<rparr>"

definition write_json :: "int \<Rightarrow> 'b payload \<Rightarrow> header \<Rightarrow> 'b outcome" where
  "write_json code b h = reply code (h(''Content-Type'' \<mapsto> ''application/json'')) b"

definition send_error :: "int \<Rightarrow> string \<Rightarrow> string \<Rightarrow> header \<Rightarrow> 'b outcome" where
  "send_error code msg details = write_json code (ErrorBody msg code details)"

definition chain :: "('a, 'b) handler \<Rightarrow> (('a, 'b) handler \<Rightarrow> ('a, 'b) handler) list \<Rightarrow> ('a, 'b) handler" where
  "chain h ms = foldr (\<lambda>m next. m next) ms h"

section \<open>Origins, panics and tokens\<close>

definition cors :: "bool \<Rightarrow> string list \<Rightarrow> ('a, 'b) handler \<Rightarrow> ('a, 'b) handler" where
  "cors enabled origins next rq h s =
     (let allowed = trim_space ` set origins;
          origin = rq_header rq ''Origin'';
          rejected = (origins \<noteq> [] \<and> origin \<noteq> [] \<and> origin \<notin> allowed);
          h1 = (if origins = [] then h(''Access-Control-Allow-Origin'' \<mapsto> ''*'')
                 else if origin \<noteq> [] then
                   h(''Access-Control-Allow-Origin'' \<mapsto> origin, ''Vary'' \<mapsto> ''Origin'',
                      ''Access-Control-Allow-Credentials'' \<mapsto> ''true'')
                 else h);
          h2 = h1(''Access-Control-Allow-Methods'' \<mapsto> ''GET, POST, PUT, DELETE, OPTIONS'',
                    ''Access-Control-Allow-Headers'' \<mapsto> ''Content-Type, Authorization, X-API-Key'') in
      if \<not> enabled then next rq h s
      else if rejected then (s, reply 403 h NoBody)
      else if rq_method rq = ''OPTIONS'' then (s, reply 200 h2 NoBody)
      else next rq h2 s)"

definition recovery :: "('a, 'b) handler \<Rightarrow> ('a, 'b) handler" where
  "recovery next rq h s =
     (case next rq h s of
        (s1, Panicked h1) \<Rightarrow> (s1, send_error 500 ''Internal Server Error'' [] h1)
      | r \<Rightarrow> r)"

definition secure_compare :: "string \<Rightarrow> string \<Rightarrow> bool" where
  "secure_compare a b \<longleftrightarrow> a = b"

definition validate_token :: "request \<Rightarrow> string \<Rightarrow> bool" where
  "validate_token rq token =
     (let authHeader = rq_header rq ''Authorization''; apiKey = rq_header rq ''X-API-Key'' in
      if authHeader \<noteq> [] \<and> CHR '' '' \<in> set authHeader \<and> before CHR '' '' authHeader = ''Bearer'' \<and>
         secure_compare (after CHR '' '' authHeader) token then True
      else apiKey \<noteq> [] \<and> secure_compare apiKey token)"

definition auth :: "string \<Rightarrow> ('a, 'b) handler \<Rightarrow> ('a, 'b) handler" where
  "auth token next rq h s =
     (if token = [] then next rq h s
      else if \<not> validate_token rq token then (s, send_error 401 ''Unauthorized'' [] h)
      else next rq h s)"

section \<open>Observation\<close>

text \<open>The status a wrapped response writer has seen: 200 until a header is written.\<close>

definition seen_status :: "'b outcome \<Rightarrow> int option" where
  "seen_status out = (case out of Reply r \<Rightarrow> Some (rs_status r) | Panicked _ \<Rightarrow> None)"

definition logging :: "('a, 'b) handler \<Rightarrow> ('a, 'b) handler" where
  "logging next rq h s =
     (case next rq h s of (s1, out) \<Rightarrow>
        (case seen_status out of
           None \<Rightarrow> s1
         | Some c \<Rightarrow> s1\<lparr>sv_access := sv_access s1 @ [(rq_method rq, rq_path rq, c)]\<rparr>, out))"

definition prometheus_middleware :: "('a, 'b) handler \<Rightarrow> ('a, 'b) handler" where
  "prometheus_middleware next rq h s =
     (case next rq h s of (s1, out) \<Rightarrow>
        (case seen_status out of
           None \<Rightarrow> s1
         | Some c \<Rightarrow>
             let k = (rq_method rq, normalize_endpoint (rq_path rq), c)
             in s1\<lparr>sv_counts := (sv_counts s1)(k := sv_counts s1 k + 1)\<rparr>, out))"

section \<open>Rate limit\<close>

definition get_client_ip :: "request \<Rightarrow> string" where
  "get_client_ip rq =
     (case split_host_port (rq_remote rq) of
        Some (ip, _) \<Rightarrow> ip
      | None \<Rightarrow>
          let xff = rq_header rq ''X-Forwarded-For'' in
          if xff \<noteq> [] then trim_space (hd (split_on CHR '','' xff)) else rq_remote rq)"

definition allow :: "int \<Rightarrow> duration \<Rightarrow> instant \<Rightarrow> string \<Rightarrow> (string \<rightharpoonup> window) \<Rightarrow> (string \<rightharpoonup> window) \<times> bool" where
  "allow limit win now ip ws =
     (case ws ip of
        None \<Rightarrow> (ws(ip \<mapsto> \<lparr>rw_count = 1, rw_start = now\<rparr>), True)
      | Some rw \<Rightarrow>
          if now - rw_start rw \<ge> win then (ws(ip \<mapsto> \<lparr>rw_count = 1, rw_start = now\<rparr>), True)
          else if rw_count rw \<ge> limit then (ws, False)
          else (ws(ip \<mapsto> rw\<lparr>rw_count := rw_count rw + 1\<rparr>), True))"

text \<open>One tick of the cleaning goroutine.\<close>

definition cleanup_windows :: "duration \<Rightarrow> instant \<Rightarrow> (string \<rightharpoonup> window) \<Rightarrow> (string \<rightharpoonup> window)" where
  "cleanup_windows win now ws =
     (\<lambda>ip. case ws ip of None \<Rightarrow> None | Some rw \<Rightarrow> if now - rw_start rw \<ge> win then None else Some rw)"

definition rate_limit :: "int \<Rightarrow> duration \<Rightarrow> ('a, 'b) handler \<Rightarrow> ('a, 'b) handler" where
  "rate_limit limit win next rq h s =
     (if limit \<le> 0 then next rq h s
      else case allow limit win (rq_now rq) (get_client_ip rq) (sv_windows s) of
        (ws, ok) \<Rightarrow>
          if \<not> ok
          then (s\<lparr>sv_windows := ws\<rparr>, send_error 429 ''Rate limit exceeded'' []
                  (h(''Retry-After'' \<mapsto> show_int (f64_to_int (duration_seconds win)))))
          else next rq h (s\<lparr>sv_windows := ws\<rparr>))"

section \<open>Validation\<close>

definition request_validation :: "('a, 'b) handler \<Rightarrow> ('a, 'b) handler" where
  "request_validation next rq h s =
     (let contentType = rq_header rq ''Content-Type'' in
      if rq_length rq > 10 * 1024 * 1024 then (s, send_error 413 ''Request too large'' ''max: 10MB'' h)
      else if rq_method rq = ''POST'' \<and> contentType \<noteq> [] \<and> \<not> has_prefix contentType ''application/json'' \<and>
              \<not> has_prefix contentType ''application/x-www-form-urlencoded''
      then (s, send_error 415 ''Unsupported content type'' contentType h)
      else next rq h s)"

definition deprecation :: "('a, 'b) handler \<Rightarrow> ('a, 'b) handler" where
  "deprecation next rq h s =
     next rq (h(''Deprecation'' \<mapsto> ''true'', ''Link'' \<mapsto> ''</api/v1/>; rel=\"successor-version\"'',
       ''X-AFD-Deprecation-Notice'' \<mapsto>
         ''Use /api/v1/ instead; this path will be removed in a future major version'')) s"

end
