(* ===== verification/MiddlewareProps.thy ===== *)
theory MiddlewareProps
  imports Middleware
begin

text \<open>
  What the rate limiter of the control interface guarantees for one client over every run of requests and
  cleaning ticks.
\<close>

section \<open>Runs of the limiter\<close>

datatype limiter_event = Asks string instant | Tick instant

fun limiter_time :: "limiter_event \<Rightarrow> instant" where
  "limiter_time (Asks ip t) = t"
| "limiter_time (Tick t) = t"

text \<open>The list has the client, the time and the answer of every request.\<close>

fun limiter_step :: "int \<Rightarrow> duration \<Rightarrow> (string \<rightharpoonup> window) \<times> (string \<times> instant \<times> bool) list \<Rightarrow> limiter_event \<Rightarrow>
    (string \<rightharpoonup> window) \<times> (string \<times> instant \<times> bool) list" where
  "limiter_step limit win (ws, seen) (Asks ip t) =
     (case allow limit win t ip ws of (ws1, ok) \<Rightarrow> (ws1, seen @ [(ip, t, ok)]))"
| "limiter_step limit win (ws, seen) (Tick t) = (cleanup_windows win t ws, seen)"

definition limiter_run :: "int \<Rightarrow> duration \<Rightarrow> limiter_event list \<Rightarrow> (string \<rightharpoonup> window) \<times> (string \<times> instant \<times> bool) list" where
  "limiter_run limit win evs = foldl (limiter_step limit win) (Map.empty, []) evs"

text \<open>How many requests of a client passed at times with \<open>P\<close>.\<close>

definition passed :: "string \<Rightarrow> (instant \<Rightarrow> bool) \<Rightarrow> (string \<times> instant \<times> bool) list \<Rightarrow> int" where
  "passed ip P seen = int (length (filter (\<lambda>(i, t, ok). i = ip \<and> ok \<and> P t) seen))"

lemma passed_Nil [simp]: "passed ip P [] = 0"
  by (simp add: passed_def)

lemma passed_snoc [simp]:
  "passed ip P (seen @ [(i, t, ok)]) = passed ip P seen + (if i = ip \<and> ok \<and> P t then 1 else 0)"
  by (simp add: passed_def)

lemma passed_mono:
  assumes "\<And>t. P t \<Longrightarrow> Q t"
  shows "passed ip P seen \<le> passed ip Q seen"
proof -
  have "filter (\<lambda>(i, t, ok). i = ip \<and> ok \<and> P t) seen =
      filter (\<lambda>(i, t, ok). i = ip \<and> ok \<and> P t) (filter (\<lambda>(i, t, ok). i = ip \<and> ok \<and> Q t) seen)"
    unfolding filter_filter using assms by (intro filter_cong) auto
  then show ?thesis
    by (metis (no_types, lifting) length_filter_le of_nat_mono passed_def)
qed

lemma passed_nonneg: "0 \<le> passed ip P seen"
  by (simp add: passed_def)

section \<open>The invariant\<close>

text \<open>
  A window holds the requests since its start; the requests that still matter from before it belong to one
  earlier window and exclude the request that opened it.
\<close>

definition window_ok :: "int \<Rightarrow> duration \<Rightarrow> string \<Rightarrow> instant \<Rightarrow> (string \<rightharpoonup> window) \<times> (string \<times> instant \<times> bool) list \<Rightarrow> bool" where
  "window_ok limit win ip now st \<longleftrightarrow>
     (case st of (ws, seen) \<Rightarrow> case ws ip of
        None \<Rightarrow> passed ip (\<lambda>t. t > now - win) seen \<le> limit - 1
      | Some rw \<Rightarrow> rw_start rw \<le> now \<and> rw_count rw \<le> limit \<and>
          passed ip (\<lambda>t. t > rw_start rw) seen \<le> rw_count rw - 1 \<and>
          passed ip (\<lambda>t. t > rw_start rw - win) seen \<le> rw_count rw + limit - 1)"

lemma window_ok_later:
  assumes "window_ok limit win ip now st" "now \<le> later"
  shows "window_ok limit win ip later st"
proof -
  obtain ws seen where st: "st = (ws, seen)" by (cases st)
  have "passed ip (\<lambda>t. t > later - win) seen \<le> passed ip (\<lambda>t. t > now - win) seen"
    using assms(2) by (intro passed_mono) simp
  with assms st show ?thesis by (auto simp: window_ok_def split: option.splits)
qed

lemma window_ok_recent:
  assumes "window_ok limit win ip now (ws, seen)" "\<And>rw. ws ip = Some rw \<Longrightarrow> now - rw_start rw \<ge> win"
  shows "passed ip (\<lambda>t. t > now - win) seen \<le> limit - 1"
proof (cases "ws ip")
  case (Some rw)
  with assms(2) have "passed ip (\<lambda>t. t > now - win) seen \<le> passed ip (\<lambda>t. t > rw_start rw) seen"
    by (intro passed_mono) force
  with assms(1) Some show ?thesis by (simp add: window_ok_def)
qed (use assms in \<open>simp add: window_ok_def\<close>)

lemma window_ok_opens:
  assumes "0 < limit" "\<forall>(i, t, ok) \<in> set seen. t \<le> now" "passed ip (\<lambda>t. t > now - win) seen \<le> limit - 1"
    "ws ip = Some \<lparr>rw_count = 1, rw_start = now\<rparr>" "0 < win"
  shows "window_ok limit win ip now (ws, seen @ [(ip, now, True)])"
proof -
  have "filter (\<lambda>(i, t, ok). i = ip \<and> ok \<and> t > now) seen = []"
    using assms(2) by (fastforce simp: filter_empty_conv)
  then have "passed ip (\<lambda>t. t > now) seen = 0" by (simp add: passed_def)
  with assms show ?thesis by (simp add: window_ok_def)
qed

lemma allow_ok:
  assumes "0 < limit" "0 < win" "\<forall>(i, t, ok) \<in> set seen. t \<le> now" "window_ok limit win ip now (ws, seen)"
  shows "window_ok limit win ip now (limiter_step limit win (ws, seen) (Asks jp now))"
proof (cases "jp = ip")
  case False
  then have "fst (allow limit win now jp ws) ip = ws ip"
    by (auto simp: allow_def split: option.splits)
  with assms(4) False show ?thesis by (auto simp: window_ok_def split: prod.splits option.splits)
next
  case True
  show ?thesis
  proof (cases "ws ip")
    case None
    with window_ok_opens [OF assms(1,3) window_ok_recent [OF assms(4)]] True assms(2) show ?thesis
      by (simp add: allow_def)
  next
    case (Some rw)
    show ?thesis
    proof (cases "now - rw_start rw \<ge> win")
      case expired: True
      with window_ok_opens [OF assms(1,3) window_ok_recent [OF assms(4)]] True Some assms(2) show ?thesis
        by (simp add: allow_def)
    next
      case False
      with assms(4) True Some show ?thesis by (auto simp: allow_def window_ok_def)
    qed
  qed
qed

lemma tick_ok:
  assumes "window_ok limit win ip now (ws, seen)"
  shows "window_ok limit win ip now (limiter_step limit win (ws, seen) (Tick now))"
proof (cases "ws ip")
  case (Some rw)
  show ?thesis
  proof (cases "now - rw_start rw \<ge> win")
    case True
    with Some window_ok_recent [OF assms] show ?thesis by (simp add: window_ok_def cleanup_windows_def)
  next
    case False
    with Some assms show ?thesis by (simp add: window_ok_def cleanup_windows_def)
  qed
qed (use assms in \<open>simp add: window_ok_def cleanup_windows_def\<close>)

lemma limiter_run_snoc:
  "limiter_run limit win (evs @ [e]) = limiter_step limit win (limiter_run limit win evs) e"
  by (simp add: limiter_run_def)

lemma limiter_run_ok:
  assumes "0 < limit" "0 < win" "sorted (map limiter_time evs)" "\<forall>e \<in> set evs. limiter_time e \<le> now"
  shows "window_ok limit win ip now (limiter_run limit win evs) \<and>
    (\<forall>(i, t, ok) \<in> set (snd (limiter_run limit win evs)). t \<le> now)"
  using assms(3,4)
proof (induction evs arbitrary: now rule: rev_induct)
  case Nil
  then show ?case using assms(1) by (simp add: limiter_run_def window_ok_def)
next
  case (snoc e evs)
  let ?t = "limiter_time e"
  obtain ws seen where st: "limiter_run limit win evs = (ws, seen)" by (cases "limiter_run limit win evs")
  have prev: "window_ok limit win ip ?t (ws, seen)" "\<forall>(i, t, ok) \<in> set seen. t \<le> ?t"
    using snoc.IH [of ?t] snoc.prems(1) st by (auto simp: sorted_append)
  have "window_ok limit win ip ?t (limiter_step limit win (ws, seen) e)"
    using allow_ok [OF assms(1,2) prev(2,1)] tick_ok [OF prev(1)] by (cases e) simp_all
  moreover have "\<forall>(i, t, ok) \<in> set (snd (limiter_step limit win (ws, seen) e)). t \<le> ?t"
    using prev(2) by (cases e) (auto split: prod.splits)
  ultimately show ?case
    using snoc.prems(2) window_ok_later [of limit win ip ?t _ now]
    by (fastforce simp: limiter_run_snoc st)
qed

text \<open>
  C27: In every interval of one window's length a client gets at most twice the limit less one request
  through, whatever the other clients do and whenever the cleaning runs.
\<close>
theorem client_rate_bounded:
  assumes "0 < limit" "0 < win" "sorted (map limiter_time evs)"
  shows "passed ip (\<lambda>t. a \<le> t \<and> t < a + win) (snd (limiter_run limit win evs)) \<le> 2 * limit - 1"
  using assms(3)
proof (induction evs rule: rev_induct)
  case Nil
  then show ?case using assms(1) by (simp add: limiter_run_def)
next
  case (snoc e evs)
  obtain ws seen where st: "limiter_run limit win evs = (ws, seen)" by (cases "limiter_run limit win evs")
  have IH: "passed ip (\<lambda>t. a \<le> t \<and> t < a + win) seen \<le> 2 * limit - 1" using snoc st by (simp add: sorted_append)
  show ?case
  proof (cases "\<exists>t. e = Asks ip t \<and> a \<le> t \<and> t < a + win \<and> snd (allow limit win t ip ws)")
    case False
    with IH show ?thesis by (cases e) (auto simp: limiter_run_snoc st split: prod.splits)
  next
    case True
    then obtain t where e: "e = Asks ip t" and t: "a \<le> t" "t < a + win" and al: "snd (allow limit win t ip ws)" by auto
    let ?st = "limiter_run limit win (evs @ [e])"
    have "\<forall>x \<in> set (evs @ [e]). limiter_time x \<le> t" using snoc.prems e by (auto simp: sorted_append)
    then have ok: "window_ok limit win ip t ?st" using limiter_run_ok [OF assms(1,2) snoc.prems] by blast
    obtain rw where rw: "fst ?st ip = Some rw" "rw_start rw \<le> t" "rw_count rw \<le> limit"
      using al ok by (auto simp: limiter_run_snoc st e allow_def window_ok_def split: option.splits if_splits prod.splits)
    have "passed ip (\<lambda>u. a \<le> u \<and> u < a + win) (snd ?st) \<le> passed ip (\<lambda>u. u > rw_start rw - win) (snd ?st)"
      using t rw(2) by (intro passed_mono) simp
    also have "\<dots> \<le> rw_count rw + limit - 1" using ok rw(1) by (auto simp: window_ok_def split: prod.splits)
    finally show ?thesis using rw(3) by simp
  qed
qed

text \<open>The bound is reached: with limit 3 and windows of 10, five requests within 9.\<close>

theorem client_rate_bounded_witness:
  "let evs = map (Asks ''c'') [0, 9, 9, 10, 10, 10, 11]; seen = snd (limiter_run 3 10 evs) in
    passed ''c'' (\<lambda>t. 1 \<le> t \<and> t < 1 + 10) seen \<le> 2 * 3 - 1 \<and> passed ''c'' (\<lambda>t. 1 \<le> t \<and> t < 1 + 10) seen = 5"
proof -
  let ?evs = "map (Asks ''c'') [0, 9, 9, 10, 10, 10, 11]"
  have "passed ''c'' (\<lambda>t. 1 \<le> t \<and> t < 1 + 10) (snd (limiter_run 3 10 ?evs)) = 5" by code_simp
  with client_rate_bounded [of 3 10 ?evs "''c''" 1] show ?thesis by (simp add: Let_def)
qed

end
