(* ===== verification/ApiState.thy ===== *)
theory ApiState
  imports TaskQueueInv GoUrl GoNet GoPath AppConfig ClusterNode
begin

text \<open>
  What the request handlers of \<open>internal/api\<close> share: the checks of URLs and paths of \<open>server.go\<close>, the objects
  they work on, and what they ask of the task store, the hub and the process. Those requests are recorded
  in \<open>ap_effects\<close>, since no handler looks at their results except to log them.
\<close>

section \<open>Checks\<close>

text \<open>\<open>lookup\<close> is the name service; \<open>None\<close> is its error.\<close>

definition is_private_ip :: "(string \<Rightarrow> ip list option) \<Rightarrow> string \<Rightarrow> bool" where
  "is_private_ip lookup host =
     (case lookup host of
        None \<Rightarrow> False
      | Some ips \<Rightarrow> list_ex (\<lambda>a. is_loopback a \<or> is_private a \<or> is_link_local_unicast a \<or> is_unspecified a) ips)"

definition valid_schemes :: "string list" where
  "valid_schemes = [''http'', ''https'', ''ftp'', ''ftps'', ''sftp'', ''s3'', ''webdav'', ''webdavs'']"

definition is_valid_url :: "(string \<Rightarrow> ip list option) \<Rightarrow> string \<Rightarrow> bool" where
  "is_valid_url lookup raw =
     (if raw = [] then False
      else if has_prefix raw ''magnet:'' then has_prefix raw ''magnet:?xt=urn:''
      else case url_parse raw of
        None \<Rightarrow> False
      | Some u \<Rightarrow>
          if u_scheme u \<in> set valid_schemes then u_host u \<noteq> [] \<and> \<not> is_private_ip lookup (url_hostname u)
          else False)"

definition is_safe_path :: "string \<Rightarrow> bool" where
  "is_safe_path path =
     (let cleaned = path_clean path in ''..'' \<notin> set (split_on CHR ''/'' cleaned) \<and> \<not> path_is_abs cleaned)"

section \<open>State\<close>

datatype api_effect =
    StoreSave task
  | StoreDelete string
  | HubTaskUpdate task
  | HubTaskGone string
  | LoggerInit string
  | ShutdownRequest int  \<comment> \<open>after this many milliseconds\<close>
  | HubServe

record app =
  ap_queue :: tqueue
  ap_cfg :: "app_config option"
  ap_store :: bool
  ap_next :: nat
  ap_members :: "unit membership"
  ap_local :: local_node
  ap_effects :: "api_effect list"

text \<open>
  \<open>ap_next\<close> is the address of the next allocated task. The environment of one operation: the clock, the
  identifiers drawn by \<open>NewTask\<close>, the order in which the queue's map is visited, the name service, and
  which task saves succeed.
\<close>

record env =
  ev_now :: instant
  ev_ids :: "nat \<Rightarrow> string"
  ev_order :: "(string \<rightharpoonup> nat) \<Rightarrow> string list"
  ev_lookup :: "string \<Rightarrow> ip list option"

definition effect :: "api_effect \<Rightarrow> app \<Rightarrow> app" where
  "effect e a = a\<lparr>ap_effects := ap_effects a @ [e]\<rparr>"

definition app_task :: "app \<Rightarrow> nat \<Rightarrow> task" where
  "app_task a r = tq_store (ap_queue a) r"

definition app_write :: "nat \<Rightarrow> (task \<Rightarrow> task) \<Rightarrow> app \<Rightarrow> app" where
  "app_write r f a = a\<lparr>ap_queue := write_task r f (ap_queue a)\<rparr>"

text \<open>\<open>NewTask\<close> puts a fresh task at the next address.\<close>

definition app_alloc :: "env \<Rightarrow> string \<Rightarrow> string \<Rightarrow> app \<Rightarrow> app \<times> nat" where
  "app_alloc ev url out a =
     (let r = ap_next a in
      (app_write r (\<lambda>_. new_task (ev_ids ev r) (ev_now ev) url out) (a\<lparr>ap_next := r + 1\<rparr>), r))"

definition app_list :: "env \<Rightarrow> app \<Rightarrow> nat list" where
  "app_list ev a = queue_list (ev_order ev (tq_tasks (ap_queue a))) (ap_queue a)"

text \<open>The texts of the queue's errors.\<close>

definition queue_error_text :: "queue_error \<Rightarrow> string" where
  "queue_error_text e =
     (case e of
        AlreadyExists t \<Rightarrow> ''task '' @ t @ '' already exists''
      | TaskNotFound t \<Rightarrow> ''task '' @ t @ '': task not found''
      | NotDownloading t \<Rightarrow> ''task '' @ t @ '' is not downloading''
      | NotPaused t \<Rightarrow> ''task '' @ t @ '' is not paused''
      | StillActive t \<Rightarrow> ''task '' @ t @ '' is still active''
      | PausedNotRemovable t \<Rightarrow> ''task '' @ t @ '' is paused, cannot remove as download result''
      | NotWaiting t \<Rightarrow> ''task '' @ t @ '' is not in waiting queue''
      | NotInHeap t \<Rightarrow> ''task '' @ t @ '' not found in waiting queue''
      | InvalidHow h \<Rightarrow> ''invalid how parameter: '' @ h)"

section \<open>Facts\<close>

text \<open>A path that passes the check stays below every directory it is joined to.\<close>

lemma is_safe_path_iff: "is_safe_path p \<longleftrightarrow> ''..'' \<notin> set (clean_elems p) \<and> \<not> path_is_abs p"
  by (auto simp: is_safe_path_def clean_abs path_clean_parts Let_def)

lemma safe_path_below:
  assumes "is_safe_path p" "base \<noteq> []"
  shows "clean_elems (base @ ''/'' @ p) = clean_elems base @ clean_elems p"
  using assms join_below [of base p] by (simp add: is_safe_path_iff)

end
