(* ===== verification/JsonRpc.thy ===== *)
theory JsonRpc
  imports ApiState Middleware
begin

text \<open>
  The JSON-RPC interface, \<open>internal/api/jsonrpc.go\<close>: parameters, options, one definition per method, and the
  dispatcher with its batch method. The JSON codec is an argument of \<open>serve_jsonrpc\<close>.
\<close>

section \<open>Values\<close>

text \<open>
  The dynamic types that occur behind \<open>any\<close>. A map is an association list of distinct keys, in the order
  in which a loop over it runs.
\<close>

datatype any =
    ANil
  | ABool bool
  | AFloat rat
  | AInt int
  | AStr string
  | AList "any list"
  | AMap "(string \<times> any) list"
  | AStrs "string list"
  | AInts "int list"
  | AStrMap "(string \<times> string) list"
  | AMaps "(string \<times> any) list list"
  | AStrMaps "(string \<times> string) list list"

type_synonym options = "(string \<times> any) list"

datatype rpc_error = RpcError int string | OtherError string

datatype rpc_result = Value any | Fails rpc_error | Crashes

type_synonym rpc = "app \<times> rpc_result"

definition fail_rpc :: "int \<Rightarrow> string \<Rightarrow> app \<Rightarrow> rpc" where
  "fail_rpc code msg a = (a, Fails (RpcError code msg))"

section \<open>Parameters\<close>

text \<open>\<open>strconv.Atoi\<close> with its error dropped: 0 for a syntax error, the nearest value for a range error.\<close>

definition atoi_lossy :: "string \<Rightarrow> int" where
  "atoi_lossy s =
     (let v = (case s of
          [] \<Rightarrow> None
        | c # cs \<Rightarrow> if c = CHR ''-'' then map_option uminus (atoi_digits cs)
                    else if c = CHR ''+'' then atoi_digits cs else atoi_digits s)
      in case v of None \<Rightarrow> 0 | Some n \<Rightarrow> max (- (2 ^ 63)) (min (2 ^ 63 - 1) n))"

text \<open>The conversion of a float to \<open>int\<close>, out of range as on amd64.\<close>

definition float_to_int :: "rat \<Rightarrow> int" where
  "float_to_int x = (let n = f64_to_int x in if in_i64 n then n else - (2 ^ 63))"

definition param_string :: "any list \<Rightarrow> nat \<Rightarrow> string" where
  "param_string ps i = (if length ps \<le> i then [] else case ps ! i of AStr s \<Rightarrow> s | _ \<Rightarrow> [])"

definition param_map :: "any list \<Rightarrow> nat \<Rightarrow> options option" where
  "param_map ps i = (if length ps \<le> i then None else case ps ! i of AMap m \<Rightarrow> Some m | _ \<Rightarrow> None)"

definition param_int :: "any list \<Rightarrow> nat \<Rightarrow> int" where
  "param_int ps i =
     (if length ps \<le> i then 0
      else case ps ! i of
        AFloat v \<Rightarrow> float_to_int v
      | AInt v \<Rightarrow> v
      | AStr v \<Rightarrow> atoi_lossy v
      | _ \<Rightarrow> 0)"

definition strings_of :: "any list \<Rightarrow> string list" where
  "strings_of vs = concat (map (\<lambda>v. case v of AStr s \<Rightarrow> [s] | _ \<Rightarrow> []) vs)"

definition param_string_slice :: "any list \<Rightarrow> nat \<Rightarrow> string list" where
  "param_string_slice ps i =
     (if length ps \<le> i then [] else case ps ! i of AList vs \<Rightarrow> strings_of vs | _ \<Rightarrow> [])"

definition param_keys :: "any list \<Rightarrow> nat \<Rightarrow> string list" where
  "param_keys = param_string_slice"

section \<open>Speed limits\<close>

definition parse_speed_limit :: "string \<Rightarrow> int option" where
  "parse_speed_limit raw =
     (let s = trim_space raw in
      if s = [] \<or> s = ''0'' then Some 0
      else
        let c = List.last s;
            mult = (if c \<in> set ''Kk'' then 1024 else if c \<in> set ''Mm'' then 1024 * 1024
                    else if c \<in> set ''Gg'' then 1024 * 1024 * 1024 else 1) :: int;
            body = (if c \<in> set ''KkMmGg'' then butlast s else s)
        in map_option (\<lambda>n. i64 (n * mult)) (atoi body))"

definition format_speed_limit :: "int \<Rightarrow> string" where
  "format_speed_limit n =
     (if n \<le> 0 then ''0''
      else if go_rem n (1024 * 1024) = 0 then show_int (go_div n (1024 * 1024)) @ ''M''
      else if go_rem n 1024 = 0 then show_int (go_div n 1024) @ ''K''
      else show_int n)"

section \<open>Options of a task\<close>

definition output_dir :: "app_config option \<Rightarrow> options option \<Rightarrow> string" where
  "output_dir cfg opts =
     (case Option.bind opts (\<lambda>m. map_of m ''dir'') of
        Some (AStr v) \<Rightarrow>
          if v \<noteq> [] \<and> is_safe_path v then v
          else (case cfg of
              Some c \<Rightarrow> if nc_data_dir (cf_node c) \<noteq> [] then path_join (nc_data_dir (cf_node c)) ''downloads'' else ''downloads''
            | None \<Rightarrow> ''downloads'')
      | _ \<Rightarrow> (case cfg of
            Some c \<Rightarrow> if nc_data_dir (cf_node c) \<noteq> [] then path_join (nc_data_dir (cf_node c)) ''downloads'' else ''downloads''
          | None \<Rightarrow> ''downloads''))"

definition bad_priority :: string where
  "bad_priority = ''Priority must be between 0 and 10''"

definition set_option_priority :: "int \<Rightarrow> task \<Rightarrow> task \<times> string option" where
  "set_option_priority n t = (if n < 0 \<or> n > 10 then (t, Some bad_priority) else (t\<lparr>t_priority := n\<rparr>, None))"

text \<open>What was applied before an error stays.\<close>

definition apply_options :: "options option \<Rightarrow> task \<Rightarrow> task \<times> string option" where
  "apply_options opts t =
     (case opts of
        None \<Rightarrow> (t, None)
      | Some m \<Rightarrow>
          let t1 = (case map_of m ''dir'' of
                Some (AStr v) \<Rightarrow> if v \<noteq> [] \<and> is_safe_path v then t\<lparr>t_output := v\<rparr> else t
              | _ \<Rightarrow> t);
              t2 = (case map_of m ''out'' of
                Some (AStr v) \<Rightarrow> if v \<noteq> [] then t1\<lparr>t_metadata := (t_metadata t1)(''filename'' \<mapsto> v)\<rparr> else t1
              | _ \<Rightarrow> t1)
          in case map_of m ''priority'' of
            Some (AFloat x) \<Rightarrow> set_option_priority (float_to_int x) t2
          | Some (AInt n) \<Rightarrow> set_option_priority n t2
          | Some (AStr s) \<Rightarrow> (case atoi s of Some n \<Rightarrow> set_option_priority n t2 | None \<Rightarrow> (t2, None))
          | _ \<Rightarrow> (t2, None))"

definition persist_task :: "nat \<Rightarrow> app \<Rightarrow> app" where
  "persist_task r a = (if ap_store a then effect (StoreSave (get_safe (app_task a r))) a else a)"

section \<open>Adding\<close>

definition add_task :: "env \<Rightarrow> nat \<Rightarrow> app \<Rightarrow> app \<times> queue_error option" where
  "add_task ev r a =
     (case queue_add (ev_now ev) r (ap_queue a) of
        (q, Inl e) \<Rightarrow> (a\<lparr>ap_queue := q\<rparr>, Some e)
      | (q, Inr _) \<Rightarrow> (a\<lparr>ap_queue := q\<rparr>, None))"

text \<open>The loop over the URIs; the identifiers of the tasks added so far are in \<open>gids\<close>.\<close>

fun add_uris :: "env \<Rightarrow> options option \<Rightarrow> string list \<Rightarrow> string list \<Rightarrow> app \<Rightarrow> rpc" where
  "add_uris ev opts [] gids a = (a, Value (AStrs gids))"
| "add_uris ev opts (u # us) gids a =
     (if \<not> is_valid_url (ev_lookup ev) u then fail_rpc (-1) (''Invalid URI: '' @ u) a
      else case app_alloc ev u (output_dir (ap_cfg a) opts) a of
        (a1, r) \<Rightarrow>
          let a2 = app_write r (\<lambda>t. fst (apply_options opts t)) a1 in
          (case add_task ev r a2 of
             (a3, Some e) \<Rightarrow> fail_rpc (-1) (queue_error_text e) a3
           | (a3, None) \<Rightarrow> add_uris ev opts us (gids @ [t_id (app_task a3 r)]) (persist_task r a3)))"

definition rpc_add_uri :: "env \<Rightarrow> any list \<Rightarrow> app \<Rightarrow> rpc" where
  "rpc_add_uri ev ps a =
     (let uris = param_string_slice ps 0 in
      if uris = [] then fail_rpc (-32602) ''Missing URIs parameter'' a
      else add_uris ev (param_map ps 1) uris [] a)"

definition rpc_add_torrent :: "env \<Rightarrow> any list \<Rightarrow> app \<Rightarrow> rpc" where
  "rpc_add_torrent ev ps a =
     (if ps = [] then fail_rpc (-32602) ''Missing torrent parameter'' a
      else case ps ! 0 of
        AStr b64 \<Rightarrow>
          let opts = param_map ps 1 in
          if b64 = [] then fail_rpc (-1) ''Empty torrent'' a
          else (case app_alloc ev b64 (output_dir (ap_cfg a) opts) a of
            (a1, r) \<Rightarrow>
              let res = apply_options opts (app_task a1 r); a2 = app_write r (\<lambda>_. fst res) a1 in
              (case snd res of
                 Some e \<Rightarrow> fail_rpc (-1) e a2
               | None \<Rightarrow> (case add_task ev r a2 of
                     (a3, Some e) \<Rightarrow> fail_rpc (-1) (queue_error_text e) a3
                   | (a3, None) \<Rightarrow> (persist_task r a3, Value (AStr (t_id (app_task a3 r)))))))
      | _ \<Rightarrow> fail_rpc (-1) ''Invalid torrent parameter'' a)"

definition rpc_add_metalink :: "env \<Rightarrow> any list \<Rightarrow> app \<Rightarrow> rpc" where
  "rpc_add_metalink ev ps a =
     (if ps = [] then fail_rpc (-32602) ''Missing metalink parameter'' a
      else case ps ! 0 of
        AStr ml \<Rightarrow>
          if ml = [] then fail_rpc (-1) ''Empty metalink'' a
          else (case app_alloc ev ml (output_dir (ap_cfg a) None) a of
            (a1, r) \<Rightarrow> (case add_task ev r a1 of
                (a2, Some e) \<Rightarrow> fail_rpc (-1) (queue_error_text e) a2
              | (a2, None) \<Rightarrow> (persist_task r a2, Value (AStrs [t_id (app_task a2 r)]))))
      | _ \<Rightarrow> fail_rpc (-1) ''Invalid metalink parameter'' a)"

section \<open>Control\<close>

text \<open>A queue operation on the task whose identifier is the first parameter.\<close>

definition on_gid :: "any list \<Rightarrow> (string \<Rightarrow> tqueue \<Rightarrow> tqueue \<times> (queue_error + unit)) \<Rightarrow> (app \<Rightarrow> string \<Rightarrow> rpc) \<Rightarrow> app \<Rightarrow> rpc" where
  "on_gid ps op k a =
     (let gid = param_string ps 0 in
      if gid = [] then fail_rpc (-32602) ''Missing gid parameter'' a
      else case op gid (ap_queue a) of
        (q, Inl e) \<Rightarrow> fail_rpc (-1) (queue_error_text e) (a\<lparr>ap_queue := q\<rparr>)
      | (q, Inr _) \<Rightarrow> k (a\<lparr>ap_queue := q\<rparr>) gid)"

definition rpc_remove :: "any list \<Rightarrow> app \<Rightarrow> rpc" where
  "rpc_remove ps = on_gid ps queue_remove
     (\<lambda>a gid. (if ap_store a then effect (StoreDelete gid) a else a, Value (AStr gid)))"

definition rpc_pause :: "env \<Rightarrow> any list \<Rightarrow> app \<Rightarrow> rpc" where
  "rpc_pause ev ps = on_gid ps (queue_pause (ev_now ev)) (\<lambda>a gid. (a, Value (AStr gid)))"

definition rpc_unpause :: "env \<Rightarrow> any list \<Rightarrow> app \<Rightarrow> rpc" where
  "rpc_unpause ev ps = on_gid ps (queue_resume (ev_now ev)) (\<lambda>a gid. (a, Value (AStr gid)))"

text \<open>The loops of \<open>pauseAll\<close> and \<open>unpauseAll\<close> over the listed tasks; an error is only logged.\<close>

definition pause_listed :: "instant \<Rightarrow> nat \<Rightarrow> tqueue \<Rightarrow> tqueue" where
  "pause_listed now r q =
     (if get_status (tq_store q r) = StatusDownloading then fst (queue_pause now (t_id (tq_store q r)) q) else q)"

definition resume_listed :: "instant \<Rightarrow> nat \<Rightarrow> tqueue \<Rightarrow> tqueue" where
  "resume_listed now r q =
     (if get_status (tq_store q r) = StatusPaused then fst (queue_resume now (t_id (tq_store q r)) q) else q)"

definition rpc_pause_all :: "env \<Rightarrow> app \<Rightarrow> rpc" where
  "rpc_pause_all ev a =
     (a\<lparr>ap_queue := fold (pause_listed (ev_now ev)) (app_list ev a) (ap_queue a)\<rparr>, Value (AStr ''OK''))"

definition rpc_unpause_all :: "env \<Rightarrow> app \<Rightarrow> rpc" where
  "rpc_unpause_all ev a =
     (a\<lparr>ap_queue := fold (resume_listed (ev_now ev)) (app_list ev a) (ap_queue a)\<rparr>, Value (AStr ''OK''))"

definition rpc_change_position :: "any list \<Rightarrow> app \<Rightarrow> rpc" where
  "rpc_change_position ps a =
     (let gid = param_string ps 0; pos = param_int ps 1; how0 = param_string ps 2;
          how = (if how0 = [] then ''POS_SET'' else how0) in
      if gid = [] then fail_rpc (-32602) ''Missing gid parameter'' a
      else case change_position gid pos how (ap_queue a) of
        (q, Inl e) \<Rightarrow> fail_rpc (-1) (queue_error_text e) (a\<lparr>ap_queue := q\<rparr>)
      | (q, Inr n) \<Rightarrow> (a\<lparr>ap_queue := q\<rparr>, Value (AInt (int n))))"

definition rpc_purge_download_result :: "env \<Rightarrow> app \<Rightarrow> rpc" where
  "rpc_purge_download_result ev a =
     (let q = ap_queue a in
      (a\<lparr>ap_queue := fst (purge_stopped (ev_order ev (tq_tasks q)) q)\<rparr>, Value (AStr ''OK'')))"

text \<open>Without a store the deletion dereferences a nil pointer.\<close>

definition rpc_remove_download_result :: "any list \<Rightarrow> app \<Rightarrow> rpc" where
  "rpc_remove_download_result ps = on_gid ps remove_stopped
     (\<lambda>a gid. if ap_store a then (effect (StoreDelete gid) a, Value (AStr gid)) else (a, Crashes))"

section \<open>Queries\<close>

text \<open>The task of the first parameter, as a safe copy and as a pointer.\<close>

definition with_task :: "any list \<Rightarrow> (nat \<Rightarrow> rpc) \<Rightarrow> app \<Rightarrow> rpc" where
  "with_task ps k a =
     (let gid = param_string ps 0 in
      if gid = [] then fail_rpc (-32602) ''Missing gid parameter'' a
      else case queue_get gid (ap_queue a) of
        Inl _ \<Rightarrow> fail_rpc (-1) (''Task not found: '' @ gid) a
      | Inr r \<Rightarrow> k r)"

definition uri_entry :: "string \<Rightarrow> (string \<times> string) list" where
  "uri_entry url = [(''uri'', url), (''status'', ''used'')]"

definition file_entry :: "task \<Rightarrow> (string \<times> any) list" where
  "file_entry t =
     [(''index'', AStr ''1''), (''path'', AStr (path_base (t_output t))), (''length'', AStr (show_int (t_total t))),
      (''completedLength'', AStr (show_int (t_downloaded t))), (''selected'', AStr ''true''),
      (''uris'', AStrMaps [uri_entry (t_url t)])]"

definition status_fields :: "task \<Rightarrow> (string \<times> any) list" where
  "status_fields t =
     [(''gid'', AStr (t_id t)), (''status'', AStr (status_name (t_status t))),
      (''totalLength'', AStr (show_int (t_total t))), (''completedLength'', AStr (show_int (t_downloaded t))),
      (''uploadLength'', AStr ''0''), (''downloadSpeed'', AStr (show_int (t_speed t))), (''uploadSpeed'', AStr ''0''),
      (''errorMessage'', AStr (t_error t)), (''dir'', AStr (t_output t)), (''files'', AMaps [file_entry t]),
      (''bittorrent'', AMap [(''info'', AStrMap [(''name'', path_base (t_output t))])]),
      (''followedBy'', AStrs []), (''following'', AStr []), (''belongsTo'', AStr []), (''pieceLength'', AStr ''0''),
      (''numPieces'', AStr ''0''), (''connections'', AStr ''0''), (''seeder'', AStr ''false''), (''leecher'', AStr ''false'')]"

definition task_to_status :: "task \<Rightarrow> string list \<Rightarrow> any" where
  "task_to_status t keys =
     (let fields = status_fields (get_safe t) in
      if keys = [] then AMap fields
      else AMap (concat (map (\<lambda>k. case map_of fields k of Some v \<Rightarrow> [(k, v)] | None \<Rightarrow> []) (remdups keys))))"

definition rpc_tell_status :: "any list \<Rightarrow> app \<Rightarrow> rpc" where
  "rpc_tell_status ps a = with_task ps (\<lambda>r. (a, Value (task_to_status (app_task a r) (param_keys ps 1)))) a"

definition tasks_in :: "(task_status \<Rightarrow> bool) \<Rightarrow> env \<Rightarrow> app \<Rightarrow> task list" where
  "tasks_in P ev a = filter (\<lambda>t. P (get_status t)) (map (app_task a) (app_list ev a))"

definition rpc_tell_active :: "env \<Rightarrow> any list \<Rightarrow> app \<Rightarrow> rpc" where
  "rpc_tell_active ev ps a =
     (a, Value (AList (map (\<lambda>t. task_to_status t (param_keys ps 0))
       (tasks_in (\<lambda>st. st = StatusDownloading \<or> st = StatusPending) ev a))))"

text \<open>The slice \<open>[offset:end]\<close> after the clamping of its bounds; \<open>None\<close> is the slice-bounds panic.\<close>

definition page :: "int \<Rightarrow> int \<Rightarrow> 'x list \<Rightarrow> 'x list option" where
  "page offset num xs =
     (let n = int (length xs);
          e0 = i64 (offset + num);
          e = (if e0 > n then n else e0);
          o1 = (if offset > n then n else offset);
          o2 = (if o1 < 0 then 0 else o1)
      in if e < o2 then None else Some (take (nat (e - o2)) (drop (nat o2) xs)))"

definition tell_page :: "(task_status \<Rightarrow> bool) \<Rightarrow> env \<Rightarrow> any list \<Rightarrow> app \<Rightarrow> rpc" where
  "tell_page P ev ps a =
     (case page (param_int ps 0) (param_int ps 1) (tasks_in P ev a) of
        None \<Rightarrow> (a, Crashes)
      | Some ts \<Rightarrow> (a, Value (AList (map (\<lambda>t. task_to_status t (param_keys ps 2)) ts))))"

definition rpc_tell_waiting :: "env \<Rightarrow> any list \<Rightarrow> app \<Rightarrow> rpc" where
  "rpc_tell_waiting = tell_page (\<lambda>st. st = StatusPending)"

definition rpc_tell_stopped :: "env \<Rightarrow> any list \<Rightarrow> app \<Rightarrow> rpc" where
  "rpc_tell_stopped = tell_page (\<lambda>st. st = StatusDone \<or> st = StatusFailed \<or> st = StatusCancelled)"

definition rpc_get_files :: "any list \<Rightarrow> app \<Rightarrow> rpc" where
  "rpc_get_files ps a =
     with_task ps (\<lambda>r. let t = get_safe (app_task a r) in
       (a, Value (AMaps (if t_chunks t \<noteq> [] then [file_entry t] else [])))) a"

definition rpc_get_uris :: "any list \<Rightarrow> app \<Rightarrow> rpc" where
  "rpc_get_uris ps a =
     with_task ps (\<lambda>r. let t = get_safe (app_task a r) in
       (a, Value (AMaps [[(''uri'', AStr (t_url t)), (''status'', AStr ''used'')]]))) a"

definition rpc_get_option :: "any list \<Rightarrow> app \<Rightarrow> rpc" where
  "rpc_get_option ps a =
     with_task ps (\<lambda>r.
       let t = get_safe (app_task a r);
           conns = (case ap_cfg a of None \<Rightarrow> 0 | Some c \<Rightarrow> dc_max_connections (cf_download c));
           per_server = (case ap_cfg a of None \<Rightarrow> 0 | Some c \<Rightarrow> dc_max_per_server (cf_download c));
           meta = (\<lambda>k. case t_metadata t k of None \<Rightarrow> [] | Some v \<Rightarrow> v);
           out = (if meta ''filename'' = [] then path_base (t_output t) else meta ''filename'');
           lim = (if meta ''max-download-limit'' = [] then ''0'' else meta ''max-download-limit'')
       in (a, Value (AStrMap [(''dir'', t_output t), (''out'', out), (''split'', show_int conns),
           (''max-connection-per-server'', show_int per_server), (''max-download-limit'', lim),
           (''priority'', show_int (t_priority t))]))) a"

definition rpc_get_global_option :: "app \<Rightarrow> rpc" where
  "rpc_get_global_option a =
     (case ap_cfg a of
        None \<Rightarrow> (a, Value (AStrMap []))
      | Some c \<Rightarrow> (a, Value (AStrMap
          [(''dir'', nc_data_dir (cf_node c)), (''log-level'', nc_log_level (cf_node c)),
           (''max-concurrent-downloads'', show_int (max_concurrent (ap_queue a))),
           (''max-overall-download-limit'', format_speed_limit (dc_speed_limit (cf_download c))),
           (''max-download-limit'', format_speed_limit (dc_speed_limit (cf_download c))),
           (''max-connection-per-server'', show_int (dc_max_per_server (cf_download c))),
           (''split'', show_int (dc_max_connections (cf_download c))), (''continue'', ''true''),
           (''min-split-size'', show_int (dc_default_chunk (cf_download c)))])))"

definition rpc_get_global_stat :: "env \<Rightarrow> app \<Rightarrow> rpc" where
  "rpc_get_global_stat ev a =
     (let ts = map (\<lambda>r. get_safe (app_task a r)) (app_list ev a);
          active = length (filter (\<lambda>t. t_status t = StatusDownloading \<or> t_status t = StatusPending) ts);
          waiting = length (filter (\<lambda>t. t_status t = StatusPaused) ts);
          stopped = length (filter (\<lambda>t. t_status t \<notin> {StatusDownloading, StatusPending, StatusPaused}) ts);
          speed = foldl (\<lambda>n t. i64 (n + t_speed t)) 0 ts
      in (a, Value (AMap [(''downloadSpeed'', AStr (show_int speed)), (''uploadSpeed'', AStr ''0''),
           (''numActive'', AStr (show_int (int active))), (''numWaiting'', AStr (show_int (int waiting))),
           (''numStopped'', AStr (show_int (int stopped))), (''numStoppedTotal'', AStr (show_int (int stopped)))])))"

section \<open>Changing options\<close>

text \<open>One global option; \<open>None\<close> is an invalid value.\<close>

definition change_global :: "env \<Rightarrow> string \<Rightarrow> string \<Rightarrow> app_config \<times> app \<Rightarrow> (app_config \<times> app) option" where
  "change_global ev k s ca =
     (case ca of (c, a) \<Rightarrow>
        if k = ''max-concurrent-downloads'' then
          (case atoi s of
             None \<Rightarrow> None
           | Some n \<Rightarrow>
               if n < 1 then None
               else Some (c, a\<lparr>ap_queue := set_max_concurrent (ev_now ev) n (ap_queue a)\<rparr>))
        else if k = ''max-overall-download-limit'' \<or> k = ''max-download-limit'' then
          map_option (\<lambda>n. (c\<lparr>cf_download := (cf_download c)\<lparr>dc_speed_limit := n\<rparr>\<rparr>, a)) (parse_speed_limit s)
        else if k = ''log-level'' then Some (c\<lparr>cf_node := (cf_node c)\<lparr>nc_log_level := s\<rparr>\<rparr>, a)
        else if k = ''dir'' then
          Some (if is_safe_path s then c\<lparr>cf_node := (cf_node c)\<lparr>nc_data_dir := s\<rparr>\<rparr> else c, a)
        else Some (c, a))"

definition any_string :: "any \<Rightarrow> string option" where
  "any_string v = (case v of AStr s \<Rightarrow> Some s | _ \<Rightarrow> None)"

text \<open>The loop over the option map, in the order of the list; it stops at the first invalid value.\<close>

fun change_globals :: "env \<Rightarrow> options \<Rightarrow> app_config \<Rightarrow> app \<Rightarrow> rpc" where
  "change_globals ev [] c a = (a\<lparr>ap_cfg := Some c\<rparr>, Value (AStr ''OK''))"
| "change_globals ev ((k, v) # os) c a =
     (case any_string v of
        None \<Rightarrow> change_globals ev os c a
      | Some s \<Rightarrow> (case change_global ev k s (c, a) of
          None \<Rightarrow> fail_rpc (-1) (''Invalid '' @ k @ '': '' @ s) (a\<lparr>ap_cfg := Some c\<rparr>)
        | Some (c1, a1) \<Rightarrow> change_globals ev os c1 a1))"

definition rpc_change_global_option :: "env \<Rightarrow> any list \<Rightarrow> app \<Rightarrow> rpc" where
  "rpc_change_global_option ev ps a =
     (case param_map ps 0 of
        None \<Rightarrow> fail_rpc (-32602) ''Missing options parameter'' a
      | Some m \<Rightarrow> (case ap_cfg a of
          None \<Rightarrow> fail_rpc (-1) ''Config not available'' a
        | Some c \<Rightarrow> change_globals ev m c a))"

definition rpc_change_option :: "any list \<Rightarrow> app \<Rightarrow> rpc" where
  "rpc_change_option ps a =
     (let gid = param_string ps 0 in
      if gid = [] then fail_rpc (-32602) ''Missing gid parameter'' a
      else case param_map ps 1 of
        None \<Rightarrow> fail_rpc (-32602) ''Missing options parameter'' a
      | Some m \<Rightarrow> with_task ps (\<lambda>r.
          let res = apply_options (Some m) (app_task a r); a1 = app_write r (\<lambda>_. fst res) a in
          case snd res of
            Some e \<Rightarrow> fail_rpc (-1) e a1
          | None \<Rightarrow>
              let a2 = (case map_of m ''max-download-limit'' of
                    Some (AStr s) \<Rightarrow> app_write r (\<lambda>t. t\<lparr>t_metadata := (t_metadata t)(''max-download-limit'' \<mapsto> s)\<rparr>) a1
                  | _ \<Rightarrow> a1)
              in (persist_task r a2, Value (AStr ''OK''))) a)"

definition rpc_change_uri :: "env \<Rightarrow> any list \<Rightarrow> app \<Rightarrow> rpc" where
  "rpc_change_uri ev ps a =
     (let gid = param_string ps 0; delUris = param_string_slice ps 2; addUris = param_string_slice ps 3 in
      if gid = [] then fail_rpc (-32602) ''Missing gid parameter'' a
      else case find (\<lambda>u. \<not> is_valid_url (ev_lookup ev) u) addUris of
        Some u \<Rightarrow> fail_rpc (-1) (''Invalid URI: '' @ u) a
      | None \<Rightarrow> with_task ps (\<lambda>r.
          let currentURL = t_url (get_safe (app_task a r));
              removed = (if currentURL \<in> set delUris then 1 else 0);
              a1 = (case addUris of [] \<Rightarrow> a | u # _ \<Rightarrow> app_write r (\<lambda>t. t\<lparr>t_url := u\<rparr>) a)
          in (persist_task r a1, Value (AInts [removed, int (length addUris)]))) a)"

section \<open>Session and process\<close>

definition save_tasks :: "nat list \<Rightarrow> app \<Rightarrow> app" where
  "save_tasks rs a = foldl (\<lambda>b r. effect (StoreSave (get_safe (app_task a r))) b) a rs"

definition rpc_save_session :: "env \<Rightarrow> app \<Rightarrow> rpc" where
  "rpc_save_session ev a = (if ap_store a then save_tasks (app_list ev a) a else a, Value (AStr ''OK''))"

definition rpc_shutdown :: "app \<Rightarrow> rpc" where
  "rpc_shutdown a = (effect (ShutdownRequest 100) a, Value (AStr ''OK''))"

definition rpc_force_shutdown :: "app \<Rightarrow> rpc" where
  "rpc_force_shutdown a = (effect (ShutdownRequest 50) a, Value (AStr ''OK''))"

definition rpc_version :: "string \<Rightarrow> string" where
  "rpc_version ver = (if ver = [] then ''1.0.0'' else ver)"

definition rpc_get_version :: "string \<Rightarrow> app \<Rightarrow> rpc" where
  "rpc_get_version ver a =
     (a, Value (AMap [(''version'', AStr (rpc_version ver)),
        (''enabledFeatures'', AStrs [''Async DNS'', ''BitTorrent'', ''FTP'', ''HTTPS'', ''Message Digest'', ''Metalink'',
           ''S3'', ''XML-RPC'', ''WebDAV''])]))"

text \<open>\<open>started\<close> is the start time as the format writes it.\<close>

definition rpc_get_session_info :: "string \<Rightarrow> app \<Rightarrow> rpc" where
  "rpc_get_session_info started a = (a, Value (AStrMap [(''sessionId'', ''afd-'' @ started)]))"

definition listed_methods :: "string list" where
  "listed_methods =
     [''aria2.addUri'', ''aria2.addTorrent'', ''aria2.addMetalink'', ''aria2.remove'', ''aria2.forceRemove'',
      ''aria2.pause'', ''aria2.pauseAll'', ''aria2.forcePause'', ''aria2.forcePauseAll'', ''aria2.unpause'',
      ''aria2.unpauseAll'', ''aria2.tellStatus'', ''aria2.tellActive'', ''aria2.tellWaiting'', ''aria2.tellStopped'',
      ''aria2.getFiles'', ''aria2.getPeers'', ''aria2.getServers'', ''aria2.getUris'', ''aria2.changeGlobalOption'',
      ''aria2.changeOption'', ''aria2.getGlobalOption'', ''aria2.getOption'', ''aria2.getGlobalStat'',
      ''aria2.changePosition'', ''aria2.changeUri'', ''aria2.saveSession'', ''aria2.shutdown'', ''aria2.forceShutdown'',
      ''aria2.getVersion'', ''aria2.getSessionInfo'', ''aria2.purgeDownloadResult'', ''aria2.removeDownloadResult'',
      ''system.multicall'', ''system.listMethods'', ''system.listNotifications'']"

definition listed_notifications :: "string list" where
  "listed_notifications =
     [''aria2.onDownloadStart'', ''aria2.onDownloadPause'', ''aria2.onDownloadStop'', ''aria2.onDownloadComplete'',
      ''aria2.onDownloadError'', ''aria2.onBtDownloadComplete'']"

section \<open>Dispatch\<close>

record rpc_server =
  js_version :: string
  js_started :: string

text \<open>Every method but the batch method; \<open>None\<close> if the name is unknown.\<close>

definition method_table :: "rpc_server \<Rightarrow> env \<Rightarrow> any list \<Rightarrow> app \<Rightarrow> (string \<times> (unit \<Rightarrow> rpc)) list" where
  "method_table js ev ps a =
     [(''aria2.addUri'', \<lambda>_. rpc_add_uri ev ps a), (''aria2.addTorrent'', \<lambda>_. rpc_add_torrent ev ps a),
      (''aria2.addMetalink'', \<lambda>_. rpc_add_metalink ev ps a), (''aria2.remove'', \<lambda>_. rpc_remove ps a),
      (''aria2.forceRemove'', \<lambda>_. rpc_remove ps a), (''aria2.pause'', \<lambda>_. rpc_pause ev ps a),
      (''aria2.pauseAll'', \<lambda>_. rpc_pause_all ev a), (''aria2.forcePause'', \<lambda>_. rpc_pause ev ps a),
      (''aria2.forcePauseAll'', \<lambda>_. rpc_pause_all ev a), (''aria2.unpause'', \<lambda>_. rpc_unpause ev ps a),
      (''aria2.unpauseAll'', \<lambda>_. rpc_unpause_all ev a), (''aria2.tellStatus'', \<lambda>_. rpc_tell_status ps a),
      (''aria2.tellActive'', \<lambda>_. rpc_tell_active ev ps a), (''aria2.tellWaiting'', \<lambda>_. rpc_tell_waiting ev ps a),
      (''aria2.tellStopped'', \<lambda>_. rpc_tell_stopped ev ps a), (''aria2.getFiles'', \<lambda>_. rpc_get_files ps a),
      (''aria2.getPeers'', \<lambda>_. (a, Value (AMaps []))), (''aria2.getServers'', \<lambda>_. (a, Value (AStrMaps []))),
      (''aria2.getUris'', \<lambda>_. rpc_get_uris ps a), (''aria2.changeGlobalOption'', \<lambda>_. rpc_change_global_option ev ps a),
      (''aria2.changeOption'', \<lambda>_. rpc_change_option ps a), (''aria2.getGlobalOption'', \<lambda>_. rpc_get_global_option a),
      (''aria2.getOption'', \<lambda>_. rpc_get_option ps a), (''aria2.getGlobalStat'', \<lambda>_. rpc_get_global_stat ev a),
      (''aria2.changePosition'', \<lambda>_. rpc_change_position ps a), (''aria2.changeUri'', \<lambda>_. rpc_change_uri ev ps a),
      (''aria2.saveSession'', \<lambda>_. rpc_save_session ev a), (''aria2.shutdown'', \<lambda>_. rpc_shutdown a),
      (''aria2.forceShutdown'', \<lambda>_. rpc_force_shutdown a), (''aria2.getVersion'', \<lambda>_. rpc_get_version (js_version js) a),
      (''aria2.getSessionInfo'', \<lambda>_. rpc_get_session_info (js_started js) a),
      (''aria2.purgeDownloadResult'', \<lambda>_. rpc_purge_download_result ev a),
      (''aria2.removeDownloadResult'', \<lambda>_. rpc_remove_download_result ps a),
      (''system.listMethods'', \<lambda>_. (a, Value (AStrs listed_methods))),
      (''system.listNotifications'', \<lambda>_. (a, Value (AStrs listed_notifications)))]"

definition handle_single :: "rpc_server \<Rightarrow> env \<Rightarrow> string \<Rightarrow> any list \<Rightarrow> app \<Rightarrow> rpc" where
  "handle_single js ev name ps a =
     (case map_of (method_table js ev ps a) name of
        Some f \<Rightarrow> f ()
      | None \<Rightarrow> fail_rpc (-32601) (''Method not found: '' @ name) a)"

definition rpc_code :: "rpc_error \<Rightarrow> int" where
  "rpc_code e = (case e of RpcError c _ \<Rightarrow> c | OtherError _ \<Rightarrow> -32500)"

definition rpc_message :: "rpc_error \<Rightarrow> string" where
  "rpc_message e = (case e of RpcError _ m \<Rightarrow> m | OtherError m \<Rightarrow> m)"

definition error_any :: "int \<Rightarrow> string \<Rightarrow> string \<times> any" where
  "error_any code msg = (''error'', AMap [(''code'', AInt code), (''message'', AStr msg)])"

text \<open>One entry of a batch; \<open>Crashes\<close> ends the request.\<close>

definition multicall_entry :: "rpc_server \<Rightarrow> env \<Rightarrow> any \<Rightarrow> app \<Rightarrow> rpc" where
  "multicall_entry js ev c a =
     (case c of
        AMap m \<Rightarrow>
          let name = (case map_of m ''methodName'' of Some (AStr s) \<Rightarrow> s | _ \<Rightarrow> []);
              ps = (case map_of m ''params'' of Some (AList xs) \<Rightarrow> xs | _ \<Rightarrow> []) in
          if name = ''system.multicall''
          then (a, Value (AMap [error_any (-32600) ''Nested multicall is not allowed'']))
          else (case handle_single js ev name ps a of
              (a1, Value v) \<Rightarrow> (a1, Value (AMap [(''result'', v)]))
            | (a1, Fails e) \<Rightarrow> (a1, Value (AMap [error_any (rpc_code e) (rpc_message e),
                (''code'', AInt (rpc_code e)), (''message'', AStr (rpc_message e))]))
            | (a1, Crashes) \<Rightarrow> (a1, Crashes))
      | _ \<Rightarrow> (a, Value (AMap [error_any (-32602) ''Invalid call object''])))"

text \<open>The calls run in order; each has its own environment.\<close>

fun multicall_loop :: "rpc_server \<Rightarrow> (nat \<Rightarrow> env) \<Rightarrow> nat \<Rightarrow> any list \<Rightarrow> any list \<Rightarrow> app \<Rightarrow> rpc" where
  "multicall_loop js evs i [] results a = (a, Value (AList [AList results]))"
| "multicall_loop js evs i (c # cs) results a =
     (case multicall_entry js (evs i) c a of
        (a1, Value v) \<Rightarrow> multicall_loop js evs (i + 1) cs (results @ [v]) a1
      | (a1, bad) \<Rightarrow> (a1, bad))"

definition rpc_multicall :: "rpc_server \<Rightarrow> (nat \<Rightarrow> env) \<Rightarrow> any list \<Rightarrow> app \<Rightarrow> rpc" where
  "rpc_multicall js evs ps a =
     (if ps = [] then fail_rpc (-32602) ''Missing multicall params'' a
      else case ps ! 0 of
        AList calls \<Rightarrow>
          if length calls > 32 then fail_rpc (-32603) ''Too many multicall requests (max 32)'' a
          else multicall_loop js evs 0 calls [] a
      | _ \<Rightarrow> fail_rpc (-32602) ''Invalid multicall params'' a)"

definition handle_method :: "rpc_server \<Rightarrow> (nat \<Rightarrow> env) \<Rightarrow> string \<Rightarrow> any list \<Rightarrow> app \<Rightarrow> rpc" where
  "handle_method js evs name ps a =
     (if name = ''system.multicall'' then rpc_multicall js evs ps a else handle_single js (evs 0) name ps a)"

section \<open>The HTTP side\<close>

record rpc_request =
  rr_version :: string
  rr_method :: string
  rr_params :: string
  rr_id :: string

record rpc_response =
  ro_result :: "any option"
  ro_error :: "(int \<times> string) option"
  ro_id :: string

text \<open>
  The codec: whole requests, and parameters as a list or as an object. \<open>rb_readable\<close> is whether the body
  can be read.
\<close>

record rpc_codec =
  rc_request :: "string \<Rightarrow> rpc_request option"
  rc_list :: "string \<Rightarrow> any list option"
  rc_object :: "string \<Rightarrow> options option"

definition max_rpc_body :: nat where
  "max_rpc_body = 10 * 1024 * 1024"

definition no_rpc_request :: rpc_request where
  "no_rpc_request = \<lparr>rr_version = [], rr_method = [], rr_params = [], rr_id = []\<rparr>"

datatype rpc_reply = RpcReply int rpc_response | RpcPanics

definition rpc_failure :: "string \<Rightarrow> int \<Rightarrow> int \<Rightarrow> string \<Rightarrow> rpc_reply" where
  "rpc_failure ident http code msg = RpcReply http \<lparr>ro_result = None, ro_error = Some (code, msg), ro_id = ident\<rparr>"

definition decode_params :: "rpc_codec \<Rightarrow> string \<Rightarrow> any list option" where
  "decode_params cd raw =
     (if raw = [] then Some []
      else case rc_list cd raw of
        Some ps \<Rightarrow> Some ps
      | None \<Rightarrow> (case rc_object cd raw of Some m \<Rightarrow> Some [AMap m] | None \<Rightarrow> None))"

definition rpc_answer :: "string \<Rightarrow> rpc_result \<Rightarrow> rpc_reply" where
  "rpc_answer ident res =
     (case res of
        Value v \<Rightarrow> RpcReply 200 \<lparr>ro_result = (if v = ANil then None else Some v), ro_error = None, ro_id = ident\<rparr>
      | Fails e \<Rightarrow> rpc_failure ident 200 (rpc_code e) (rpc_message e)
      | Crashes \<Rightarrow> RpcPanics)"

definition serve_jsonrpc :: "rpc_codec \<Rightarrow> rpc_server \<Rightarrow> (nat \<Rightarrow> env) \<Rightarrow> string \<Rightarrow> string option \<Rightarrow> app \<Rightarrow> app \<times> rpc_reply" where
  "serve_jsonrpc cd js evs meth body a =
     (if meth \<noteq> ''POST'' then (a, rpc_failure [] 405 (-32600) ''Invalid request: only POST is allowed'')
      else case body of
        None \<Rightarrow> (a, rpc_failure [] 400 (-32700) ''Failed to read request body'')
      | Some b \<Rightarrow>
          let bytes = take max_rpc_body b in
          (case (if bytes = [] then Some no_rpc_request else rc_request cd bytes) of
             None \<Rightarrow> (a, rpc_failure [] 400 (-32700) ''Parse error'')
           | Some req \<Rightarrow>
               if rr_version req \<noteq> [] \<and> rr_version req \<noteq> ''2.0''
               then (a, rpc_failure (rr_id req) 400 (-32600) ''Invalid JSON-RPC version'')
               else (case decode_params cd (rr_params req) of
                   None \<Rightarrow> (a, rpc_failure (rr_id req) 400 (-32602) ''Invalid params'')
                 | Some ps \<Rightarrow>
                     (case handle_method js evs (rr_method req) ps a of
                        (a1, res) \<Rightarrow> (a1, rpc_answer (rr_id req) res)))))"

end
