(* ===== verification/XmlRpc.thy ===== *)
theory XmlRpc
  imports JsonRpc "HOL-Library.List_Lexorder"
begin

text \<open>
  The XML-RPC interface, \<open>internal/api/xmlrpc.go\<close>: requests are turned into JSON-RPC parameters, results and
  errors into XML-RPC values. The XML codec is an argument; a request value has the fields its \<open>string\<close>,
  \<open>int\<close>, \<open>i4\<close> and \<open>array\<close> elements fill, and nothing for other elements or bare text.
\<close>

section \<open>Values\<close>

record xml_scalar =
  xs_string :: string
  xs_int :: int
  xs_i4 :: int

record xml_param = xml_scalar +
  xs_array :: "xml_scalar list"

record xml_request =
  xr_method :: string
  xr_params :: "xml_param list"

text \<open>Response values; \<open>XText\<close> is a value with only its string set, \<open>XInt\<close> and \<open>XI4\<close> with only that field.\<close>

datatype xml_value =
    XText string
  | XInt int
  | XI4 int
  | XArray "xml_value list"
  | XStruct "(string \<times> xml_value) list"

datatype xml_response = XResult xml_value | XFault int string

section \<open>Requests\<close>

definition scalar_any :: "'z xml_scalar_scheme \<Rightarrow> any" where
  "scalar_any v =
     (if xs_string v \<noteq> [] then AStr (xs_string v)
      else if xs_int v \<noteq> 0 \<or> xs_i4 v \<noteq> 0 then AInt (i64 (xs_int v + xs_i4 v))
      else AStr [])"

definition xml_param_any :: "xml_param \<Rightarrow> any" where
  "xml_param_any v =
     (if xs_string v \<noteq> [] then AStr (xs_string v)
      else if xs_array v \<noteq> [] then AList (map scalar_any (xs_array v))
      else scalar_any v)"

definition params_to_interface :: "xml_request \<Rightarrow> any list" where
  "params_to_interface req = map xml_param_any (xr_params req)"

section \<open>Responses\<close>

text \<open>\<open>fmt.Sprintf("%v")\<close> of the types without a case of their own; the keys of a map are printed in order.\<close>

definition sprint_pairs :: "(string \<times> string) list \<Rightarrow> string" where
  "sprint_pairs m = ''map['' @ join_with CHR '' '' (map (\<lambda>(k, v). k @ '':'' @ v) (sort_key (\<lambda>(k, v). map (of_char :: char \<Rightarrow> nat) k) m)) @ '']''"

definition sprint_ints :: "int list \<Rightarrow> string" where
  "sprint_ints xs = ''['' @ join_with CHR '' '' (map show_int xs) @ '']''"

definition sprint_maps :: "(string \<times> string) list list \<Rightarrow> string" where
  "sprint_maps ms = ''['' @ join_with CHR '' '' (map sprint_pairs ms) @ '']''"

fun interface_to_value :: "any \<Rightarrow> xml_value" where
  "interface_to_value ANil = XText []"
| "interface_to_value (AStr s) = XText s"
| "interface_to_value (AInt n) = XI4 n"
| "interface_to_value (AFloat x) = XI4 (float_to_int x)"
| "interface_to_value (ABool b) = XText (if b then ''true'' else ''false'')"
| "interface_to_value (AMap m) = XStruct (map (\<lambda>(k, v). (k, interface_to_value v)) m)"
| "interface_to_value (AList xs) = XArray (map interface_to_value xs)"
| "interface_to_value (AStrs ss) = XArray (map XText ss)"
| "interface_to_value (AMaps ms) = XArray (map (\<lambda>m. XStruct (map (\<lambda>(k, v). (k, interface_to_value v)) m)) ms)"
| "interface_to_value (AInts xs) = XText (sprint_ints xs)"
| "interface_to_value (AStrMap m) = XText (sprint_pairs m)"
| "interface_to_value (AStrMaps ms) = XText (sprint_maps ms)"

text \<open>
  What a client reads back: the encoder leaves out empty strings, zero integers and empty structs' fields,
  so such a value is an empty element.
\<close>

fun visible_value :: "xml_value \<Rightarrow> xml_value option" where
  "visible_value (XText s) = (if s = [] then None else Some (XText s))"
| "visible_value (XInt n) = (if n = 0 then None else Some (XInt n))"
| "visible_value (XI4 n) = (if n = 0 then None else Some (XI4 n))"
| "visible_value v = Some v"

text \<open>An error without a text keeps the wrapper, whose text is empty too.\<close>

definition make_error :: "int \<Rightarrow> string \<Rightarrow> xml_response" where
  "make_error code msg = XFault code msg"

datatype xml_reply = XmlReply int xml_response | XmlText int string | XmlPanics

definition xml_answer :: "rpc_result \<Rightarrow> xml_reply" where
  "xml_answer res =
     (case res of
        Value v \<Rightarrow> XmlReply 200 (XResult (interface_to_value v))
      | Fails e \<Rightarrow> XmlReply 200 (make_error (rpc_code e) (rpc_message e))
      | Crashes \<Rightarrow> XmlPanics)"

text \<open>\<open>wired\<close> is whether the server has a JSON-RPC server behind it.\<close>

definition serve_xmlrpc :: "(string \<Rightarrow> xml_request option) \<Rightarrow> bool \<Rightarrow> rpc_server \<Rightarrow> (nat \<Rightarrow> env) \<Rightarrow> string \<Rightarrow> string option \<Rightarrow>
    app \<Rightarrow> app \<times> xml_reply" where
  "serve_xmlrpc dec wired js evs meth body a =
     (if meth \<noteq> ''POST'' then (a, XmlText 405 ''Method Not Allowed'')
      else case body of
        None \<Rightarrow> (a, XmlText 400 ''Bad Request'')
      | Some b \<Rightarrow> (case dec (take max_rpc_body b) of
          None \<Rightarrow> (a, XmlText 400 ''Bad Request'')
        | Some req \<Rightarrow>
            if \<not> wired
            then (a, XmlReply 200 (make_error (-32500) ''XML-RPC server is not wired to a JSON-RPC backend''))
            else (case handle_method js evs (xr_method req) (params_to_interface req) a of
                (a1, res) \<Rightarrow> (a1, xml_answer res))))"

section \<open>Facts\<close>

lemma xml_never_map: "param_map (params_to_interface req) i = None"
  by (auto simp: param_map_def params_to_interface_def xml_param_any_def scalar_any_def)

end
