(* ===== verification/RestApi.thy ===== *)
theory RestApi
  imports XmlRpc
begin

text \<open>
  The HTTP server of the control interface, \<open>internal/api/server.go\<close>: the handlers of tasks, nodes, status, log
  level and configuration, the routing tables of \<open>NewServer\<close> and the middleware around each route. The
  codecs, the result of reading the configuration again and the like are the services of a request.
\<close>

section \<open>Requests and bodies\<close>

record create_request =
  cq_url :: string
  cq_output :: string
  cq_priority :: int
  cq_metadata :: "(string \<rightharpoonup> string) option"

record cluster_status =
  cs_node_count :: int
  cs_online_count :: int
  cs_task_count :: int
  cs_active_tasks :: int
  cs_local :: node
  cs_version :: string
  cs_uptime :: duration

datatype api_body =
    TaskBody task
  | TaskListBody "task list" int int int int  \<comment> \<open>total, active, limit and offset\<close>
  | NodesBody "node list"
  | StatusBody cluster_status
  | FieldsBody "(string \<times> string) list"
  | RpcBody rpc_response
  | XmlBody xml_response
  | TextBody string

text \<open>\<open>rv_load\<close> is what \<open>config.Load\<close> returns; \<open>rv_members\<close> is the order of the member map.\<close>

record services =
  rv_envs :: "nat \<Rightarrow> env"
  rv_rpc :: rpc_codec
  rv_xml :: "string \<Rightarrow> xml_request option"
  rv_create :: "string \<Rightarrow> create_request option"
  rv_level :: "string \<Rightarrow> string option"
  rv_load :: "string + app_config"
  rv_clone :: "app_config \<Rightarrow> app_config option"
  rv_logger :: "string \<Rightarrow> string option"
  rv_readable :: bool
  rv_members :: "string list"
  rv_started :: instant

type_synonym app_handler = "services \<Rightarrow> request \<Rightarrow> header \<Rightarrow> app \<Rightarrow> app \<times> api_body outcome"

definition not_allowed :: "header \<Rightarrow> app \<Rightarrow> app \<times> api_body outcome" where
  "not_allowed h a = (a, send_error 405 ''Method not allowed'' [] h)"

definition task_reply :: "int \<Rightarrow> nat \<Rightarrow> header \<Rightarrow> app \<Rightarrow> app \<times> api_body outcome" where
  "task_reply code r h a =
     (effect (HubTaskUpdate (get_safe (app_task a r))) a, write_json code (Body (TaskBody (get_safe (app_task a r)))) h)"

section \<open>Tasks\<close>

definition positive_query :: "string \<Rightarrow> int \<Rightarrow> int" where
  "positive_query s least = (case atoi s of Some v \<Rightarrow> if v \<ge> least then v else 0 | None \<Rightarrow> 0)"

definition list_tasks :: app_handler where
  "list_tasks sv rq h a =
     (let tasks = app_list (rv_envs sv 0) a;
          limit = (if rq_query rq ''limit'' \<noteq> [] then positive_query (rq_query rq ''limit'') 1 else 0);
          offset0 = (if rq_query rq ''offset'' \<noteq> [] then positive_query (rq_query rq ''offset'') 0 else 0);
          tot = int (length tasks);
          offset = (if offset0 > tot then tot else offset0);
          fin = (if limit > 0 \<and> i64 (offset + limit) < tot then i64 (offset + limit) else tot)
      in if fin < offset then (a, Panicked h)
         else (a, write_json 200 (Body (TaskListBody
             (map (\<lambda>r. get_safe (app_task a r)) (take (nat (fin - offset)) (drop (nat offset) tasks)))
             tot (active_count (ap_queue a)) limit offset)) h))"

definition max_create_body :: nat where
  "max_create_body = 1048576"

definition create_task :: app_handler where
  "create_task sv rq h a =
     (let ev = rv_envs sv 0 in
      case rv_create sv (take max_create_body (rq_body rq)) of
        None \<Rightarrow> (a, send_error 400 ''Invalid request body'' [] h)
      | Some req \<Rightarrow>
          if cq_url req = [] then (a, send_error 400 ''URL is required'' [] h)
          else if \<not> is_valid_url (ev_lookup ev) (cq_url req) then (a, send_error 400 ''Invalid URL format'' (cq_url req) h)
          else if cq_output req \<noteq> [] \<and> \<not> is_safe_path (cq_output req)
          then (a, send_error 400 ''Invalid output path'' ''path traversal detected'' h)
          else if cq_output req = [] \<and> ap_cfg a = None then (a, Panicked h)
          else
            let out = (if cq_output req = [] then path_join (nc_data_dir (cf_node (the (ap_cfg a)))) ''downloads''
                       else cq_output req) in
            if cq_priority req < 0 \<or> cq_priority req > 10
            then (a, send_error 400 ''Priority must be between 0 and 10'' [] h)
            else (case app_alloc ev (cq_url req) out a of
              (a1, r) \<Rightarrow>
                let a2 = app_write r (\<lambda>t. case cq_metadata req of
                        None \<Rightarrow> t\<lparr>t_priority := cq_priority req\<rparr>
                      | Some md \<Rightarrow> t\<lparr>t_priority := cq_priority req, t_metadata := md\<rparr>) a1 in
                (case add_task ev r a2 of
                   (a3, Some e) \<Rightarrow> (a3, send_error 500 ''Failed to add task'' (queue_error_text e) h)
                 | (a3, None) \<Rightarrow>
                     if \<not> ap_store a3 then (a3, Panicked h)
                     else task_reply 201 r h (effect (StoreSave (get_safe (app_task a3 r))) a3))))"

definition handle_tasks :: app_handler where
  "handle_tasks sv rq h a =
     (if rq_method rq = ''GET'' then list_tasks sv rq h a
      else if rq_method rq = ''POST'' then create_task sv rq h a
      else not_allowed h a)"

definition get_task :: "string \<Rightarrow> header \<Rightarrow> app \<Rightarrow> app \<times> api_body outcome" where
  "get_task tid h a =
     (case queue_get tid (ap_queue a) of
        Inl e \<Rightarrow> (a, send_error 404 ''Task not found'' (queue_error_text e) h)
      | Inr r \<Rightarrow> (a, write_json 200 (Body (TaskBody (get_safe (app_task a r)))) h))"

definition delete_task :: "string \<Rightarrow> header \<Rightarrow> app \<Rightarrow> app \<times> api_body outcome" where
  "delete_task tid h a =
     (case queue_remove tid (ap_queue a) of
        (q, Inl e) \<Rightarrow> (a\<lparr>ap_queue := q\<rparr>, send_error 404 ''Task not found'' (queue_error_text e) h)
      | (q, Inr _) \<Rightarrow>
          if \<not> ap_store a then (a\<lparr>ap_queue := q\<rparr>, Panicked h)
          else (effect (HubTaskGone tid) (effect (StoreDelete tid) (a\<lparr>ap_queue := q\<rparr>)), reply 204 h NoBody))"

text \<open>Pausing and resuming share their shape.\<close>

definition switch_task :: "string \<Rightarrow> (string \<Rightarrow> tqueue \<Rightarrow> tqueue \<times> (queue_error + unit)) \<Rightarrow> string \<Rightarrow> header \<Rightarrow> app \<Rightarrow>
    app \<times> api_body outcome" where
  "switch_task what op tid h a =
     (case op tid (ap_queue a) of
        (q, Inl e) \<Rightarrow> (a\<lparr>ap_queue := q\<rparr>, send_error 400 (''Failed to '' @ what @ '' task'') (queue_error_text e) h)
      | (q, Inr _) \<Rightarrow> (case queue_get tid q of
            Inl e \<Rightarrow> (a\<lparr>ap_queue := q\<rparr>,
              send_error 500 (''Failed to get task after '' @ what) (queue_error_text e) h)
          | Inr r \<Rightarrow> task_reply 200 r h (a\<lparr>ap_queue := q\<rparr>)))"

definition trim_suffix :: "string \<Rightarrow> string \<Rightarrow> string" where
  "trim_suffix s p = (if has_suffix s p then take (length s - length p) s else s)"

definition handle_task_by_id :: app_handler where
  "handle_task_by_id sv rq h a =
     (let now = ev_now (rv_envs sv 0);
          id0 = drop (length ''/api/tasks/'') (rq_path rq);
          id1 = trim_suffix id0 ''/pause'';
          id2 = trim_suffix id1 ''/resume'' in
      if has_suffix id0 ''/pause'' \<and> rq_method rq = ''POST'' then switch_task ''pause'' (queue_pause now) id1 h a
      else if has_suffix id1 ''/resume'' \<and> rq_method rq = ''POST'' then switch_task ''resume'' (queue_resume now) id2 h a
      else if id2 = [] then (a, send_error 400 ''Task ID required'' [] h)
      else if rq_method rq = ''GET'' then get_task id2 h a
      else if rq_method rq = ''DELETE'' then delete_task id2 h a
      else not_allowed h a)"

definition ok_fields :: "string \<Rightarrow> header \<Rightarrow> api_body outcome" where
  "ok_fields msg = write_json 200 (Body (FieldsBody [(''status'', ''ok''), (''message'', msg)]))"

definition pause_tracked :: "instant \<Rightarrow> nat \<Rightarrow> tqueue \<Rightarrow> tqueue" where
  "pause_tracked now r q =
     (if get_status (tq_store q r) = StatusDownloading \<or> get_status (tq_store q r) = StatusPending
      then fst (queue_pause now (t_id (tq_store q r)) q) else q)"

definition handle_pause_all :: app_handler where
  "handle_pause_all sv rq h a =
     (let ev = rv_envs sv 0 in
      if rq_method rq \<noteq> ''POST'' then not_allowed h a
      else (a\<lparr>ap_queue := fold (pause_tracked (ev_now ev)) (app_list ev a) (ap_queue a)\<rparr>, ok_fields ''All tasks paused'' h))"

definition handle_resume_all :: app_handler where
  "handle_resume_all sv rq h a =
     (let ev = rv_envs sv 0 in
      if rq_method rq \<noteq> ''POST'' then not_allowed h a
      else (a\<lparr>ap_queue := fold (resume_listed (ev_now ev)) (app_list ev a) (ap_queue a)\<rparr>, ok_fields ''All tasks resumed'' h))"

section \<open>Nodes, status and configuration\<close>

definition handle_nodes :: app_handler where
  "handle_nodes sv rq h a =
     (if rq_method rq \<noteq> ''GET'' then not_allowed h a
      else (a, write_json 200 (Body (NodesBody
        (members (rv_members sv) (ap_members a) @ [fst (local_node_info (ap_local a))]))) h))"

definition handle_status :: app_handler where
  "handle_status sv rq h a =
     (if rq_method rq \<noteq> ''GET'' then not_allowed h a
      else (a, write_json 200 (Body (StatusBody
        \<lparr>cs_node_count = member_count (ap_members a) + 1, cs_online_count = online_count (rv_members sv) (ap_members a) + 1,
         cs_task_count = int (total_count (ap_queue a)), cs_active_tasks = active_count (ap_queue a),
         cs_local = fst (local_node_info (ap_local a)), cs_version = snd (snd (local_node_info (ap_local a))),
         cs_uptime = rq_now rq - rv_started sv\<rparr>)) h))"

definition log_levels :: "string list" where
  "log_levels = [''debug'', ''info'', ''warn'', ''error'']"

definition set_log_level :: "string \<Rightarrow> app_config \<Rightarrow> app_config" where
  "set_log_level lv c = c\<lparr>cf_node := (cf_node c)\<lparr>nc_log_level := lv\<rparr>\<rparr>"

definition handle_log_level :: app_handler where
  "handle_log_level sv rq h a =
     (if rq_method rq = ''GET'' then
        (case ap_cfg a of
           None \<Rightarrow> (a, Panicked h)
         | Some c \<Rightarrow> (a, write_json 200 (Body (FieldsBody [(''level'', nc_log_level (cf_node c))])) h))
      else if rq_method rq = ''POST'' then
        (case rv_level sv (take 4096 (rq_body rq)) of
           None \<Rightarrow> (a, send_error 400 ''Invalid request body'' [] h)
         | Some lv \<Rightarrow>
             if lv \<notin> set log_levels then (a, send_error 400 ''Invalid log level'' lv h)
             else (case rv_logger sv lv of
                 Some e \<Rightarrow> (a, send_error 500 ''Failed to update log level'' e h)
               | None \<Rightarrow> (case ap_cfg a of
                     None \<Rightarrow> (effect (LoggerInit lv) a, Panicked h)
                   | Some c \<Rightarrow> (effect (LoggerInit lv) (a\<lparr>ap_cfg := Some (set_log_level lv c)\<rparr>),
                       write_json 200 (Body (FieldsBody [(''status'', ''ok''), (''level'', lv)])) h))))
      else not_allowed h a)"

definition reload_note :: string where
  "reload_note = ''Config reloaded successfully. Note: listener address, TLS settings, auth token, rate-limit, CORS and middleware chain require a process restart to take effect.''"

definition handle_reload_config :: app_handler where
  "handle_reload_config sv rq h a =
     (if rq_method rq \<noteq> ''POST'' then not_allowed h a
      else case rv_load sv of
        Inl e \<Rightarrow> (a, send_error 500 ''Failed to reload config'' e h)
      | Inr new \<Rightarrow> (case config_validate new of
          Some e \<Rightarrow> (a, send_error 400 ''Invalid reloaded config'' e h)
        | None \<Rightarrow> (case Option.bind (ap_cfg a) (rv_clone sv) of
            None \<Rightarrow> (a, send_error 500 ''failed to backup config'' [] h)
          | Some old \<Rightarrow>
              let a1 = a\<lparr>ap_cfg := Some new\<rparr>; lv = nc_log_level (cf_node new) in
              if nc_log_level (cf_node old) \<noteq> lv then
                (case rv_logger sv lv of
                   Some e \<Rightarrow> (a1\<lparr>ap_cfg := Some old\<rparr>, send_error 500 ''Failed to apply new log level'' e h)
                 | None \<Rightarrow> (effect (LoggerInit lv) a1, ok_fields reload_note h))
              else (a1, ok_fields reload_note h))))"

section \<open>Sockets and sessions\<close>

definition handle_web_socket :: app_handler where
  "handle_web_socket sv rq h a =
     (case ap_cfg a of
        None \<Rightarrow> (a, Panicked h)
      | Some c \<Rightarrow>
          let q = rq_query rq ''token''; b = rq_header rq ''Authorization'';
              token = (if q \<noteq> [] then q else if has_prefix b ''Bearer '' then drop 7 b else b) in
          if ac_token (cf_api c) \<noteq> [] \<and> \<not> secure_compare token (ac_token (cf_api c))
          then (a, reply 401 h NoBody)
          else (effect HubServe a, reply 101 h NoBody))"

text \<open>\<open>saveSession\<close>, one tick of the automatic saving.\<close>

definition auto_save_tick :: "env \<Rightarrow> app \<Rightarrow> app" where
  "auto_save_tick ev a = (if ap_store a then save_tasks (app_list ev a) a else a)"

section \<open>Routing\<close>

text \<open>
  \<open>http.ServeMux\<close>: the longest pattern that is the path or a prefix of it ending in a slash. A path without
  a pattern of its own is redirected to the pattern with a slash after it, an unclean path to its clean form.
\<close>

datatype 'p mux_result = Serve 'p | Redirect string | NoRoute

definition mux_matches :: "string \<Rightarrow> string \<Rightarrow> bool" where
  "mux_matches pat path \<longleftrightarrow> pat = path \<or> (has_suffix pat ''/'' \<and> has_prefix path pat)"

fun mux_longest :: "(string \<times> 'p) list \<Rightarrow> string \<Rightarrow> (string \<times> 'p) option" where
  "mux_longest [] path = None"
| "mux_longest ((pat, p) # ps) path =
     (if mux_matches pat path then
        (case mux_longest ps path of
           None \<Rightarrow> Some (pat, p)
         | Some (pat', p') \<Rightarrow> if length pat' > length pat then Some (pat', p') else Some (pat, p))
      else mux_longest ps path)"

definition mux_clean :: "string \<Rightarrow> string" where
  "mux_clean p =
     (if p = [] then ''/''
      else let p1 = (if has_prefix p ''/'' then p else CHR ''/'' # p); np = path_clean p1 in
        if has_suffix p1 ''/'' \<and> np \<noteq> ''/'' then np @ ''/'' else np)"

definition mux_find :: "(string \<times> 'p) list \<Rightarrow> string \<Rightarrow> string \<Rightarrow> 'p mux_result" where
  "mux_find pats meth raw =
     (let path = (if meth = ''CONNECT'' then raw else mux_clean raw);
          found = mux_longest pats path;
          exact = (case found of None \<Rightarrow> False | Some (pat, _) \<Rightarrow> pat = path) in
      if \<not> exact \<and> \<not> has_suffix path ''/'' \<and> path \<noteq> [] \<and> map_of pats (path @ ''/'') \<noteq> None
      then Redirect (mux_clean raw @ ''/'')
      else if meth \<noteq> ''CONNECT'' \<and> path \<noteq> raw then Redirect path
      else case found of None \<Rightarrow> NoRoute | Some (_, p) \<Rightarrow> Serve p)"

datatype endpoint =
    EpJsonRpc | EpXmlRpc | EpTasks | EpTaskById | EpPauseAll | EpResumeAll | EpReload | EpLogLevel | EpNodes | EpStatus
  | EpHealth | EpReady | EpMetrics

text \<open>The routes of \<open>apiMux\<close>.\<close>

definition api_routes :: "(string \<times> endpoint) list" where
  "api_routes =
     [(''/jsonrpc'', EpJsonRpc), (''/rpc'', EpJsonRpc), (''/xmlrpc'', EpXmlRpc), (''/api/tasks'', EpTasks),
      (''/api/tasks/'', EpTaskById), (''/api/tasks/pause-all'', EpPauseAll), (''/api/tasks/resume-all'', EpResumeAll),
      (''/api/config/reload'', EpReload), (''/api/log-level'', EpLogLevel), (''/api/nodes'', EpNodes),
      (''/api/status'', EpStatus), (''/health'', EpHealth), (''/ready'', EpReady), (''/metrics'', EpMetrics)]"

definition rpc_handler :: "rpc_server \<Rightarrow> app_handler" where
  "rpc_handler js sv rq h a =
     (case serve_jsonrpc (rv_rpc sv) js (rv_envs sv) (rq_method rq) (if rv_readable sv then Some (rq_body rq) else None) a of
        (a1, RpcReply code r) \<Rightarrow> (a1, write_json code (Body (RpcBody r)) h)
      | (a1, RpcPanics) \<Rightarrow> (a1, Panicked h))"

definition xml_handler :: "rpc_server \<Rightarrow> app_handler" where
  "xml_handler js sv rq h a =
     (case serve_xmlrpc (rv_xml sv) True js (rv_envs sv) (rq_method rq)
         (if rv_readable sv then Some (rq_body rq) else None) a of
        (a1, XmlReply code r) \<Rightarrow> (a1, reply code (h(''Content-Type'' \<mapsto> ''text/xml'')) (Body (XmlBody r)))
      | (a1, XmlText code s) \<Rightarrow> (a1, reply code (h(''Content-Type'' \<mapsto> ''text/plain; charset=utf-8'')) (Body (TextBody s)))
      | (a1, XmlPanics) \<Rightarrow> (a1, Panicked h))"

definition run_endpoint :: "rpc_server \<Rightarrow> endpoint \<Rightarrow> app_handler" where
  "run_endpoint js ep =
     (case ep of
        EpJsonRpc \<Rightarrow> rpc_handler js
      | EpXmlRpc \<Rightarrow> xml_handler js
      | EpTasks \<Rightarrow> handle_tasks
      | EpTaskById \<Rightarrow> handle_task_by_id
      | EpPauseAll \<Rightarrow> handle_pause_all
      | EpResumeAll \<Rightarrow> handle_resume_all
      | EpReload \<Rightarrow> handle_reload_config
      | EpLogLevel \<Rightarrow> handle_log_level
      | EpNodes \<Rightarrow> handle_nodes
      | EpStatus \<Rightarrow> handle_status
      | EpHealth \<Rightarrow> (\<lambda>sv rq h a. (a, write_json 200 (Body (FieldsBody [(''status'', ''healthy'')])) h))
      | EpReady \<Rightarrow> (\<lambda>sv rq h a. (a, write_json 200 (Body (FieldsBody [(''status'', ''ready'')])) h))
      | EpMetrics \<Rightarrow> (\<lambda>sv rq h a. (a, reply 200 h (Body (TextBody ''metrics'')))))"

text \<open>An application handler as a handler of the whole server, and \<open>apiMux\<close> as one.\<close>

definition on_app :: "(request \<Rightarrow> header \<Rightarrow> app \<Rightarrow> app \<times> api_body outcome) \<Rightarrow> (app, api_body) handler" where
  "on_app f rq h s = (case f rq h (sv_app s) of (a, out) \<Rightarrow> (s\<lparr>sv_app := a\<rparr>, out))"

definition redirect_to :: "string \<Rightarrow> header \<Rightarrow> api_body outcome" where
  "redirect_to path h = reply 301 (h(''Location'' \<mapsto> path)) NoBody"

definition not_found :: "header \<Rightarrow> api_body outcome" where
  "not_found h = reply 404 (h(''Content-Type'' \<mapsto> ''text/plain; charset=utf-8'')) (Body (TextBody ''404 page not found''))"

definition serve_mux :: "(string \<times> 'p) list \<Rightarrow> ('p \<Rightarrow> (app, api_body) handler) \<Rightarrow> (app, api_body) handler" where
  "serve_mux pats run rq h s =
     (case mux_find pats (rq_method rq) (rq_path rq) of
        Serve p \<Rightarrow> run p rq h s
      | Redirect path \<Rightarrow> (s, redirect_to path h)
      | NoRoute \<Rightarrow> (s, not_found h))"

definition api_mux :: "rpc_server \<Rightarrow> services \<Rightarrow> (app, api_body) handler" where
  "api_mux js sv = serve_mux api_routes (\<lambda>ep. on_app (run_endpoint js ep sv))"

text \<open>\<open>/api/v1\<close> is stripped and \<open>/api\<close> put in its place.\<close>

definition v1_handler :: "rpc_server \<Rightarrow> services \<Rightarrow> (app, api_body) handler" where
  "v1_handler js sv rq h s =
     (if has_prefix (rq_path rq) ''/api/v1''
      then api_mux js sv (rq\<lparr>rq_path := ''/api'' @ drop (length ''/api/v1'') (rq_path rq)\<rparr>) h s
      else (s, not_found h))"

datatype route = RtSocket | RtV1 | RtApi | RtRpc | RtProbe | RtMetrics | RtPprof | RtRoot

definition minute :: duration where
  "minute = 60 * 1000000000"

definition api_middlewares :: "api_config \<Rightarrow> ((app, api_body) handler \<Rightarrow> (app, api_body) handler) list" where
  "api_middlewares c =
     [recovery, prometheus_middleware, logging, rate_limit (ac_rate_limit c) minute, cors (ac_cors c) (ac_origins c),
      auth (ac_token c), request_validation]"

definition top_routes :: "api_config \<Rightarrow> (string \<times> route) list" where
  "top_routes c =
     [(''/ws'', RtSocket)]
     @ (if ac_pprof c = None \<or> ac_pprof c = Some True
        then [(''/debug/pprof/'', RtPprof), (''/debug/pprof/cmdline'', RtPprof), (''/debug/pprof/profile'', RtPprof),
              (''/debug/pprof/symbol'', RtPprof), (''/debug/pprof/trace'', RtPprof)] else [])
     @ [(''/api/v1/'', RtV1), (''/api/'', RtApi), (''/jsonrpc'', RtRpc), (''/xmlrpc'', RtRpc), (''/rpc'', RtRpc),
        (''/health'', RtProbe), (''/ready'', RtProbe), (''/metrics'', RtMetrics), (''/'', RtRoot)]"

definition run_route :: "api_config \<Rightarrow> rpc_server \<Rightarrow> services \<Rightarrow> route \<Rightarrow> (app, api_body) handler" where
  "run_route c js sv rt =
     (case rt of
        RtSocket \<Rightarrow> on_app (handle_web_socket sv)
      | RtV1 \<Rightarrow> chain (v1_handler js sv) (api_middlewares c)
      | RtApi \<Rightarrow> chain (api_mux js sv) (deprecation # api_middlewares c)
      | RtRpc \<Rightarrow> chain (api_mux js sv) (api_middlewares c)
      | RtProbe \<Rightarrow> chain (api_mux js sv) [recovery, logging, cors (ac_cors c) (ac_origins c)]
      | RtMetrics \<Rightarrow> chain (api_mux js sv) [recovery, logging, cors (ac_cors c) (ac_origins c), auth (ac_token c)]
      | RtPprof \<Rightarrow> chain (\<lambda>rq h s. (s, reply 200 h (Body (TextBody ''pprof'')))) [recovery, auth (ac_token c)]
      | RtRoot \<Rightarrow> (\<lambda>rq h s. (s, send_error 404
            ''AFD Core is a pure JSON/WebSocket API. Please deploy the UI separately from the ui/ repository.'' []
            (h(''X-AFD-Service'' \<mapsto> ''core'')))))"

text \<open>\<open>c\<close> is the interface's configuration when the server was made.\<close>

definition serve :: "api_config \<Rightarrow> rpc_server \<Rightarrow> services \<Rightarrow> request \<Rightarrow> app server \<Rightarrow> app server \<times> api_body outcome" where
  "serve c js sv rq s = serve_mux (top_routes c) (run_route c js sv) rq Map.empty s"

end
