(* ===== verification/ControlSound.thy ===== *)
theory ControlSound
  imports RestApi TaskQueueProps
begin

text \<open>
  The control interface as a client of the task queue: every request, over REST, JSON-RPC and XML-RPC,
  leads from a reachable state of the queue to a reachable one, so the queue's invariant survives all of
  them. Addresses of tasks stay below the next free one.
\<close>

section \<open>Addresses\<close>

definition queue_below :: "nat \<Rightarrow> tqueue \<Rightarrow> bool" where
  "queue_below n q \<longleftrightarrow> (\<forall>tid r. tq_tasks q tid = Some r \<longrightarrow> r < n) \<and> (\<forall>r \<in> pq_refs (tq_pq q). r < n)"

lemma below_sub:
  "queue_below n q \<Longrightarrow> tq_tasks q' \<subseteq>\<^sub>m tq_tasks q \<Longrightarrow> pq_refs (tq_pq q') \<subseteq> pq_refs (tq_pq q) \<Longrightarrow> queue_below n q'"
  unfolding queue_below_def map_le_def by (metis domI in_mono)

lemma below_cong:
  "queue_below n q \<Longrightarrow> tq_tasks q' = tq_tasks q \<Longrightarrow> tq_pq q' = tq_pq q \<Longrightarrow> queue_below n q'"
  by (simp add: queue_below_def)

lemma try_start_loop_refs:
  "pqh.heap_inv (tq_pq q) \<Longrightarrow> pq_refs (tq_pq (fst (try_start_loop now q started))) \<subseteq> pq_refs (tq_pq q)"
proof (induction "length (tq_pq q)" arbitrary: q started rule: less_induct)
  case less
  show ?case
  proof (cases "tq_active q < tq_max q \<and> tq_pq q \<noteq> []")
    case False
    then show ?thesis by (simp add: try_start_loop_stop)
  next
    case True
    let ?r = "pi_task (fst (hpop (tq_pq q)))" and ?q1 = "q\<lparr>tq_pq := snd (hpop (tq_pq q))\<rparr>"
    have short: "length (tq_pq ?q1) < length (tq_pq q)" using True by (simp add: pqh.heap_pop_length)
    have h: "pqh.heap_inv (tq_pq ?q1)" using pqh.heap_pop_ok(1) less.prems True by simp
    have sub: "pq_refs (tq_pq ?q1) \<subseteq> pq_refs (tq_pq q)" using pq_refs_pop [OF less.prems] True by auto
    show ?thesis
    proof (cases "t_status (tq_store q ?r) = StatusPending")
      case False
      from less.hyps [OF short h, of started] True False sub show ?thesis by (auto simp: try_start_loop_skip)
    next
      case pend: True
      let ?q2 = "(write_task ?r (set_status now StatusDownloading) ?q1)\<lparr>tq_active := tq_active ?q1 + 1\<rparr>"
      have "length (tq_pq ?q2) < length (tq_pq q)" using short by simp
      from less.hyps [OF this, of "started @ [?r]"] h True pend sub show ?thesis
        by (auto simp: try_start_loop_go [OF _ _ refl _ refl])
    qed
  qed
qed

lemma try_start_next_refs: "pqh.heap_inv (tq_pq q) \<Longrightarrow> pq_refs (tq_pq (try_start_next now q)) \<subseteq> pq_refs (tq_pq q)"
  using try_start_loop_refs by (simp add: try_start_next_def Let_def)

lemma below_try_start: "pqh.heap_inv (tq_pq q) \<Longrightarrow> queue_below n q \<Longrightarrow> queue_below n (try_start_next now q)"
  by (rule below_sub [of n q]) (simp_all add: try_start_next_refs)

lemma below_drop:
  "pqh.heap_inv (tq_pq q) \<Longrightarrow> queue_below n q \<Longrightarrow>
     queue_below n (drop_waiting tid (q\<lparr>tq_tasks := (tq_tasks q)(k := None)\<rparr>))"
  using drop_waiting_refs [of "q\<lparr>tq_tasks := (tq_tasks q)(k := None)\<rparr>" tid]
  by (auto simp: queue_below_def)

lemma below_push: "pqh.heap_inv (tq_pq q) \<Longrightarrow> queue_below n q \<Longrightarrow> r < n \<Longrightarrow> queue_below n (push_waiting r q)"
  by (auto simp: queue_below_def push_waiting_def pq_refs_push)

lemma below_start: "queue_below n q \<Longrightarrow> queue_below n (start_task now r q)"
  by (erule below_cong) (simp_all add: start_task_def Let_def)

lemma below_add:
  assumes "pqh.heap_inv (tq_pq q)" "queue_below n q" "r < n"
  shows "queue_below n (fst (queue_add now r q))"
proof -
  let ?q = "q\<lparr>tq_tasks := (tq_tasks q)(t_id (tq_store q r) \<mapsto> r)\<rparr>"
  have b: "queue_below n ?q" using assms(2,3) by (simp add: queue_below_def)
  have "queue_below n (start_task now r ?q)" "queue_below n (push_waiting r ?q)"
    using below_start [OF b] below_push [of ?q n r] assms(1,3) b by simp_all
  with assms(2) show ?thesis
    by (cases "tq_tasks q (t_id (tq_store q r))") (simp_all add: queue_add_def queue_add_enter_def Let_def)
qed

lemma below_purge:
  "pqh.heap_inv (tq_pq q) \<Longrightarrow> queue_below n q \<Longrightarrow> queue_below n (fst (purge_loop ids q k))"
proof (induction ids arbitrary: q k)
  case (Cons tid ids)
  have "pqh.heap_inv (tq_pq (drop_waiting tid (q\<lparr>tq_tasks := (tq_tasks q)(tid := None)\<rparr>)))"
    using drop_waiting_refs [of "q\<lparr>tq_tasks := (tq_tasks q)(tid := None)\<rparr>"] Cons.prems(1) by simp
  with Cons below_drop [OF Cons.prems] show ?case by (simp add: Let_def split: option.splits)
qed simp

lemma below_resume:
  assumes "queue_inv {} q" "queue_below n q"
  shows "queue_below n (fst (queue_resume now tid q))"
proof (cases "tq_tasks q tid")
  case (Some r)
  then have r: "r < n" using assms(2) by (simp add: queue_below_def)
  let ?q = "write_task r (set_status now StatusPending) q"
  have b: "queue_below n ?q" using assms(2) by (rule below_cong) simp_all
  from below_push [of ?q n r] below_start [OF b, of now r] queue_invD(1) [OF assms(1)] b r Some assms(2)
  show ?thesis by (simp add: queue_resume_def queue_resume_enter_def Let_def)
qed (use assms in \<open>simp add: queue_resume_def queue_resume_enter_def\<close>)

lemma below_remove:
  assumes "queue_inv {} q" "queue_below n q"
  shows "queue_below n (fst (queue_remove tid q))"
proof (cases "tq_tasks q tid")
  case (Some r)
  from below_drop [OF queue_invD(1) [OF assms(1)] assms(2), of tid tid] Some
  show ?thesis by (auto simp: queue_remove_def Let_def queue_below_def split: option.splits)
qed (use assms in \<open>simp add: queue_remove_def\<close>)

lemma below_change_position:
  assumes "queue_inv {} q" "queue_below n q"
  shows "queue_below n (fst (change_position tid pos how q))"
proof (cases "change_position tid pos how q")
  case (Pair q' res)
  let ?items = "pq_drain (tq_pq q)"
  note h = queue_invD(1) [OF assms(1)]
  from Pair have "queue_below n q'"
  proof (cases rule: change_position_cases)
    case (moved cur p)
    let ?new = "clamp_position p (length ?items)"
    have "cur < length ?items" using position_of_Some [OF moved(1)] by simp
    moreover from this have "?new < length ?items" by (intro clamp_position_less) auto
    ultimately have "set (move_item ?items cur ?new) = set ?items" by (intro mset_eq_setD mset_move_item)
    then show ?thesis
      using assms(2) pq_refs_push_all [of "[]" "numbered (move_item ?items cur ?new) 0"] pq_drain_refs [OF h]
      by (simp add: moved(3) queue_below_def renumber_frame renumber_pq)
  qed (use assms(2) pq_refs_push_all [of "[]" ?items] pq_drain_refs [OF h] in \<open>auto simp: queue_below_def\<close>)
  with Pair show ?thesis by simp
qed

section \<open>Reachable applications\<close>

text \<open>Only an added task has to be an allocated one.\<close>

definition app_op :: "queue_op \<Rightarrow> nat \<Rightarrow> bool" where
  "app_op op n \<longleftrightarrow> (case op of OpAdd r \<Rightarrow> r < n | _ \<Rightarrow> True)"

lemma below_end:
  assumes "pqh.heap_inv (tq_pq q)" "queue_below n q"
  shows "queue_below n (try_start_next now (emit b es ((release_slot (write_task r f q))\<lparr>tq_tasks := (tq_tasks q)(k := None)\<rparr>)))"
proof (rule below_try_start)
  let ?q = "emit b es ((release_slot (write_task r f q))\<lparr>tq_tasks := (tq_tasks q)(k := None)\<rparr>)"
  show "pqh.heap_inv (tq_pq ?q)" using assms(1) by (simp add: release_slot_def Let_def)
  show "queue_below n ?q"
    using assms(2) by (rule below_sub) (simp_all add: release_slot_def Let_def map_le_def)
qed

lemma exec_op_below:
  assumes "queue_inv {} q" "queue_below n q" "app_op op n"
  shows "queue_below n (exec_op now op q)"
proof (cases op)
  case (OpPause tid)
  show ?thesis
  proof (cases "tq_tasks q tid")
    case (Some r)
    let ?q = "(write_task r (set_status now StatusPaused) q)\<lparr>tq_active := tq_active q - 1\<rparr>"
    have "queue_below n ?q" using assms(2) by (rule below_cong) simp_all
    then show ?thesis
      using Some OpPause assms(2) below_try_start [of ?q n now] queue_invD(1) [OF assms(1)]
      by (simp add: queue_pause_def Let_def)
  qed (use OpPause assms in \<open>simp add: queue_pause_def\<close>)
next
  case (OpSetMax m)
  have "queue_below n (q\<lparr>tq_max := m\<rparr>)" using assms(2) by (rule below_cong) simp_all
  then show ?thesis
    using OpSetMax below_try_start [of "q\<lparr>tq_max := m\<rparr>" n now] queue_invD(1) [OF assms(1)]
    by (simp add: set_max_concurrent_def)
next
  case (OpRemoveStopped tid)
  with assms below_drop [OF queue_invD(1) [OF assms(1)] assms(2), of tid tid] show ?thesis
    by (simp add: remove_stopped_def Let_def split: option.splits)
next
  case (OpComplete tid)
  with assms below_end [OF queue_invD(1) [OF assms(1)] assms(2)] show ?thesis
    by (simp add: complete_task_def Let_def release_slot_def split: option.split)
next
  case (OpFail tid msg)
  with assms below_end [OF queue_invD(1) [OF assms(1)] assms(2)] show ?thesis
    by (simp add: fail_task_def Let_def release_slot_def split: option.split)
next
  case (OpNotify r)
  have "queue_below n (notify_progress r q)"
    using assms(2) by (rule below_cong) (simp_all add: notify_progress_def)
  then show ?thesis by (simp add: OpNotify)
qed (use assms below_add [OF queue_invD(1) [OF assms(1)]] below_remove below_resume below_change_position
       below_purge [OF queue_invD(1) [OF assms(1)]] in \<open>simp_all add: app_op_def purge_stopped_def\<close>)

definition app_ok :: "app \<Rightarrow> bool" where
  "app_ok a \<longleftrightarrow> queue_reach (ap_queue a) \<and> queue_below (ap_next a) (ap_queue a)"

lemma app_ok_cong: "ap_queue b = ap_queue a \<Longrightarrow> ap_next b = ap_next a \<Longrightarrow> app_ok b = app_ok a"
  by (simp add: app_ok_def)

lemma app_ok_fields [simp]:
  "app_ok (effect e a) = app_ok a" "app_ok (a\<lparr>ap_cfg := c\<rparr>) = app_ok a"
  by (simp_all add: app_ok_def effect_def)


lemma app_ok_op:
  assumes "app_ok a" "op_ok op (ap_queue a)" "app_op op (ap_next a)"
  shows "app_ok (a\<lparr>ap_queue := exec_op now op (ap_queue a)\<rparr>)"
  using assms queue_reach.op [of "ap_queue a" op now] exec_op_below [OF queue_reach_inv]
  by (simp add: app_ok_def)

text \<open>The operations, as the handlers write them.\<close>

lemma app_ok_pause: "app_ok a \<Longrightarrow> app_ok (a\<lparr>ap_queue := fst (queue_pause now tid (ap_queue a))\<rparr>)"
  using app_ok_op [of a "OpPause tid" now] by (simp add: app_op_def)

lemma app_ok_resume: "app_ok a \<Longrightarrow> app_ok (a\<lparr>ap_queue := fst (queue_resume now tid (ap_queue a))\<rparr>)"
  using app_ok_op [of a "OpResume tid" now] by (simp add: app_op_def)

lemma app_ok_remove: "app_ok a \<Longrightarrow> app_ok (a\<lparr>ap_queue := fst (queue_remove tid (ap_queue a))\<rparr>)"
  using app_ok_op [of a "OpRemove tid"] by (simp add: app_op_def)

lemma app_ok_remove_stopped: "app_ok a \<Longrightarrow> app_ok (a\<lparr>ap_queue := fst (remove_stopped tid (ap_queue a))\<rparr>)"
  using app_ok_op [of a "OpRemoveStopped tid"] by (simp add: app_op_def)

lemma app_ok_purge: "app_ok a \<Longrightarrow> app_ok (a\<lparr>ap_queue := fst (purge_stopped ids (ap_queue a))\<rparr>)"
  using app_ok_op [of a "OpPurge ids"] by (simp add: app_op_def)

lemma app_ok_set_max: "app_ok a \<Longrightarrow> app_ok (a\<lparr>ap_queue := set_max_concurrent now n (ap_queue a)\<rparr>)"
  using app_ok_op [of a "OpSetMax n" now] by (simp add: app_op_def)

lemma app_ok_change_position: "app_ok a \<Longrightarrow> app_ok (a\<lparr>ap_queue := fst (change_position tid pos how (ap_queue a))\<rparr>)"
  using app_ok_op [of a "OpChangePosition tid pos how"] by (simp add: app_op_def)

lemma app_ok_edit:
  assumes "app_ok a" "\<And>t. t_id (f t) = t_id t \<and> t_status (f t) = t_status t"
  shows "app_ok (app_write r f a)"
proof -
  have "queue_below (ap_next a) (write_task r f (ap_queue a))"
    using assms(1) below_cong [of "ap_next a" "ap_queue a"] by (simp add: app_ok_def)
  then show ?thesis
    using assms queue_reach.edit [of "ap_queue a" f r] by (simp add: app_ok_def app_write_def)
qed

text \<open>A write of what an edit of the current task gives.\<close>

lemma app_ok_edit_const:
  assumes "app_ok a" "t_id t = t_id (app_task a r)" "t_status t = t_status (app_task a r)"
  shows "app_ok (app_write r (\<lambda>_. t) a)"
proof -
  have "app_write r (\<lambda>_. t) a = app_write r (\<lambda>u. t\<lparr>t_id := t_id u, t_status := t_status u\<rparr>) a"
    using assms(2,3) [symmetric] by (simp add: app_write_def write_task_def app_task_def)
  then show ?thesis using app_ok_edit [OF assms(1), of "\<lambda>u. t\<lparr>t_id := t_id u, t_status := t_status u\<rparr>" r] by simp
qed

lemma app_alloc_ok:
  assumes "app_ok a" "app_alloc ev u out a = (b, r)"
  shows "app_ok b" "r < ap_next b" "t_status (app_task b r) = StatusPending"
proof -
  have r: "r = ap_next a" and b: "b = app_write r (\<lambda>_. new_task (ev_ids ev r) (ev_now ev) u out) (a\<lparr>ap_next := r + 1\<rparr>)"
    using assms(2) by (auto simp: app_alloc_def Let_def)
  have q: "queue_below (ap_next a) (ap_queue a)" using assms(1) by (simp add: app_ok_def)
  then have "r \<notin> ran (tq_tasks (ap_queue a))" "r \<notin> pq_refs (tq_pq (ap_queue a))"
    by (auto simp: queue_below_def r ran_def)
  from queue_reach.alloc [OF _ this] assms(1) have "queue_reach (ap_queue b)"
    by (simp add: app_ok_def b app_write_def)
  moreover have "queue_below (ap_next b) (ap_queue b)"
    using q by (force simp: queue_below_def b app_write_def r)
  ultimately show "app_ok b" by (simp add: app_ok_def)
  show "r < ap_next b" by (simp add: b app_write_def)
  show "t_status (app_task b r) = StatusPending" by (simp add: b app_write_def app_task_def new_task_def)
qed

lemma add_task_ok:
  assumes "app_ok a" "r < ap_next a" "t_status (app_task a r) = StatusPending"
  shows "app_ok (fst (add_task ev r a))"
proof -
  have "fst (add_task ev r a) = a\<lparr>ap_queue := fst (queue_add (ev_now ev) r (ap_queue a))\<rparr>"
    by (cases "queue_add (ev_now ev) r (ap_queue a)") (simp add: add_task_def split: sum.split)
  then show ?thesis using app_ok_op [of a "OpAdd r" "ev_now ev"] assms by (simp add: app_op_def app_task_def)
qed

lemma app_write_next [simp]: "ap_next (app_write r f a) = ap_next a"
  by (simp add: app_write_def)

lemma app_task_write [simp]: "app_task (app_write r f a) r = f (app_task a r)"
  by (simp add: app_write_def app_task_def)

lemma apply_options_keeps: "t_id (fst (apply_options os t)) = t_id t \<and> t_status (fst (apply_options os t)) = t_status t"
proof (cases os)
  case (Some m)
  define t1 where "t1 = (case map_of m ''dir'' of
      Some (AStr v) \<Rightarrow> if v \<noteq> [] \<and> is_safe_path v then t\<lparr>t_output := v\<rparr> else t | _ \<Rightarrow> t)"
  define t2 where "t2 = (case map_of m ''out'' of
      Some (AStr v) \<Rightarrow> if v \<noteq> [] then t1\<lparr>t_metadata := (t_metadata t1)(''filename'' \<mapsto> v)\<rparr> else t1 | _ \<Rightarrow> t1)"
  have k1: "t_id t1 = t_id t \<and> t_status t1 = t_status t"
    by (simp add: t1_def split: option.split any.split)
  have k2: "t_id t2 = t_id t1 \<and> t_status t2 = t_status t1"
    by (simp add: t2_def split: option.split any.split)
  have p: "t_id (fst (set_option_priority n t2)) = t_id t2 \<and> t_status (fst (set_option_priority n t2)) = t_status t2" for n
    by (simp add: set_option_priority_def)
  show ?thesis
    unfolding apply_options_def Some option.case Let_def t1_def [symmetric] t2_def [symmetric]
    using p k1 k2 by (simp split: option.split any.split)
qed (simp add: apply_options_def)

lemma persist_ok [simp]: "app_ok (persist_task r a) = app_ok a"
  by (simp add: persist_task_def)

section \<open>Remote procedure calls\<close>

lemma fail_rpc_state [simp]: "fst (fail_rpc c m a) = a"
  by (simp add: fail_rpc_def)

lemma add_uris_ok: "app_ok a \<Longrightarrow> app_ok (fst (add_uris ev os us gids a))"
proof (induction us arbitrary: gids a)
  case (Cons u us)
  obtain b r where b: "app_alloc ev u (output_dir (ap_cfg a) os) a = (b, r)" by fastforce
  let ?b = "app_write r (\<lambda>t. fst (apply_options os t)) b"
  note al = app_alloc_ok [OF Cons.prems b]
  have "app_ok ?b" using al(1) apply_options_keeps by (intro app_ok_edit)
  then have "app_ok (fst (add_task ev r ?b))" using al apply_options_keeps by (intro add_task_ok) simp_all
  with Cons b show ?case by (auto split: prod.splits option.splits)
qed simp

lemma add_torrent_ok: "app_ok a \<Longrightarrow> app_ok (fst (rpc_add_torrent ev ps a))"
proof -
  assume a: "app_ok a"
  show ?thesis
  proof (cases "\<exists>s. ps \<noteq> [] \<and> ps ! 0 = AStr s \<and> s \<noteq> []")
    case True
    then obtain s where s: "ps \<noteq> []" "ps ! 0 = AStr s" "s \<noteq> []" by blast
    let ?os = "param_map ps 1"
    obtain b r where b: "app_alloc ev s (output_dir (ap_cfg a) ?os) a = (b, r)" by fastforce
    let ?b = "app_write r (\<lambda>_. fst (apply_options ?os (app_task b r))) b"
    note al = app_alloc_ok [OF a b]
    have ok: "app_ok ?b" using al(1) by (intro app_ok_edit_const) (simp_all add: apply_options_keeps)
    then have "app_ok (fst (add_task ev r ?b))" using al apply_options_keeps by (intro add_task_ok) simp_all
    with s b ok show ?thesis by (auto simp: rpc_add_torrent_def Let_def split: prod.splits option.splits)
  qed (use a in \<open>auto simp: rpc_add_torrent_def split: any.splits\<close>)
qed

lemma add_metalink_ok: "app_ok a \<Longrightarrow> app_ok (fst (rpc_add_metalink ev ps a))"
proof -
  assume a: "app_ok a"
  show ?thesis
  proof (cases "\<exists>s. ps \<noteq> [] \<and> ps ! 0 = AStr s \<and> s \<noteq> []")
    case True
    then obtain s where s: "ps \<noteq> []" "ps ! 0 = AStr s" "s \<noteq> []" by blast
    obtain b r where b: "app_alloc ev s (output_dir (ap_cfg a) None) a = (b, r)" by fastforce
    note al = app_alloc_ok [OF a b]
    then have "app_ok (fst (add_task ev r b))" by (rule add_task_ok)
    with s b show ?thesis by (auto simp: rpc_add_metalink_def split: prod.splits option.splits)
  qed (use a in \<open>auto simp: rpc_add_metalink_def split: any.splits\<close>)
qed

lemma on_gid_ok:
  assumes "app_ok a" "\<And>gid. app_ok (a\<lparr>ap_queue := fst (op gid (ap_queue a))\<rparr>)"
    "\<And>b gid. app_ok b \<Longrightarrow> app_ok (fst (k b gid))"
  shows "app_ok (fst (on_gid ps op k a))"
  using assms(1) assms(2) [of "param_string ps 0"] assms(3)
  by (auto simp: on_gid_def Let_def split: prod.splits sum.splits)

lemma with_task_ok: "app_ok a \<Longrightarrow> (\<And>r. app_ok (fst (k r))) \<Longrightarrow> app_ok (fst (with_task ps k a))"
  by (auto simp: with_task_def Let_def split: sum.splits)

lemma fold_queue_ok:
  assumes "\<And>r a. app_ok a \<Longrightarrow> app_ok (a\<lparr>ap_queue := f r (ap_queue a)\<rparr>)"
  shows "app_ok a \<Longrightarrow> app_ok (a\<lparr>ap_queue := fold f rs (ap_queue a)\<rparr>)"
proof (induction rs arbitrary: a)
  case (Cons r rs)
  from Cons.IH [OF assms [OF Cons.prems, of r]] show ?case by simp
qed simp

lemma pause_listed_ok: "app_ok a \<Longrightarrow> app_ok (a\<lparr>ap_queue := pause_listed now r (ap_queue a)\<rparr>)"
  by (simp add: pause_listed_def app_ok_pause)

lemma resume_listed_ok: "app_ok a \<Longrightarrow> app_ok (a\<lparr>ap_queue := resume_listed now r (ap_queue a)\<rparr>)"
  by (simp add: resume_listed_def app_ok_resume)

lemma pause_tracked_ok: "app_ok a \<Longrightarrow> app_ok (a\<lparr>ap_queue := pause_tracked now r (ap_queue a)\<rparr>)"
  by (simp add: pause_tracked_def app_ok_pause)

lemma save_tasks_ok [simp]: "app_ok (save_tasks rs a) = app_ok a"
proof -
  have "app_ok (foldl (\<lambda>b r. effect (g r) b) c rs) = app_ok c" for g c
    by (induction rs arbitrary: c) simp_all
  then show ?thesis by (simp add: save_tasks_def)
qed

lemma change_globals_ok: "app_ok a \<Longrightarrow> app_ok (fst (change_globals ev os c a))"
proof (induction ev os c a rule: change_globals.induct)
  case (2 ev k v os c a)
  have "app_ok b" if "change_global ev k s (c, a) = Some (d, b)" for s d b
    using that 2(3) app_ok_set_max [of a]
    by (auto simp: change_global_def split: if_splits option.splits)
  with 2 show ?case by (auto split: option.splits)
qed simp

lemma change_option_ok: "app_ok a \<Longrightarrow> app_ok (fst (rpc_change_option ps a))"
proof -
  assume a: "app_ok a"
  have w: "app_ok (app_write r (\<lambda>_. fst (apply_options os (app_task a r))) a)" for r os
    using a by (intro app_ok_edit_const) (simp_all add: apply_options_keeps)
  show ?thesis
    using a w app_ok_edit [OF w]
    by (auto simp: rpc_change_option_def Let_def intro!: with_task_ok split: option.splits any.splits)
qed

lemma change_uri_ok: "app_ok a \<Longrightarrow> app_ok (fst (rpc_change_uri ev ps a))"
  using app_ok_edit [of a "\<lambda>t. t\<lparr>t_url := u\<rparr>" for u]
  by (auto simp: rpc_change_uri_def Let_def intro!: with_task_ok split: option.splits list.splits)

lemma change_position_ok: "app_ok a \<Longrightarrow> app_ok (fst (rpc_change_position ps a))"
proof -
  assume a: "app_ok a"
  let ?how = "if param_string ps 2 = [] then ''POS_SET'' else param_string ps 2"
  show ?thesis
    using a app_ok_change_position [OF a, of "param_string ps 0" "param_int ps 1" ?how]
    by (cases "change_position (param_string ps 0) (param_int ps 1) ?how (ap_queue a)")
      (simp add: rpc_change_position_def Let_def split: sum.split)
qed

lemma queries_keep_state [simp]:
  "fst (rpc_tell_active ev ps a) = a" "fst (tell_page P ev ps a) = a" "fst (rpc_get_global_stat ev a) = a"
  "fst (rpc_get_global_option a) = a" "fst (rpc_get_version v a) = a" "fst (rpc_get_session_info v a) = a"
  by (simp_all add: rpc_tell_active_def tell_page_def rpc_get_global_stat_def rpc_get_global_option_def
      rpc_get_version_def rpc_get_session_info_def Let_def split: option.split)

lemma task_queries_keep_state [simp]:
  "fst (rpc_tell_status ps a) = a" "fst (rpc_get_files ps a) = a" "fst (rpc_get_uris ps a) = a"
  "fst (rpc_get_option ps a) = a"
  by (simp_all add: rpc_tell_status_def rpc_get_files_def rpc_get_uris_def rpc_get_option_def with_task_def Let_def
      split: sum.split)

lemma gid_methods_ok:
  assumes "app_ok a"
  shows "app_ok (fst (rpc_remove ps a))" "app_ok (fst (rpc_pause ev ps a))" "app_ok (fst (rpc_unpause ev ps a))"
    "app_ok (fst (rpc_remove_download_result ps a))"
  unfolding rpc_remove_def rpc_pause_def rpc_unpause_def rpc_remove_download_result_def
  using assms by (auto intro!: on_gid_ok app_ok_pause app_ok_resume app_ok_remove app_ok_remove_stopped)

lemma global_methods_ok:
  assumes "app_ok a"
  shows "app_ok (fst (rpc_pause_all ev a))" "app_ok (fst (rpc_unpause_all ev a))"
    "app_ok (fst (rpc_purge_download_result ev a))" "app_ok (fst (rpc_save_session ev a))"
    "app_ok (fst (rpc_shutdown a))" "app_ok (fst (rpc_force_shutdown a))" "app_ok (fst (rpc_add_uri ev ps a))"
    "app_ok (fst (rpc_change_global_option ev ps a))"
  using assms fold_queue_ok [OF pause_listed_ok] fold_queue_ok [OF resume_listed_ok] app_ok_purge
  by (simp_all add: rpc_pause_all_def rpc_unpause_all_def rpc_purge_download_result_def rpc_save_session_def
      rpc_shutdown_def rpc_force_shutdown_def rpc_add_uri_def add_uris_ok rpc_change_global_option_def
      change_globals_ok Let_def split: option.split)

lemma handle_single_ok:
  assumes "app_ok a"
  shows "app_ok (fst (handle_single js ev name ps a))"
proof -
  have "list_all (\<lambda>(n, f). app_ok (fst (f ()))) (method_table js ev ps a)"
    unfolding method_table_def rpc_tell_waiting_def rpc_tell_stopped_def list.pred_inject
    by (simp add: assms gid_methods_ok global_methods_ok add_torrent_ok add_metalink_ok change_option_ok
        change_uri_ok change_position_ok)
  then show ?thesis
    using assms unfolding handle_single_def list_all_iff
    by (auto dest!: map_of_SomeD split: option.split)
qed

lemma multicall_loop_ok: "app_ok a \<Longrightarrow> app_ok (fst (multicall_loop js evs i cs rs a))"
proof (induction cs arbitrary: i rs a)
  case (Cons c cs)
  have "app_ok (fst (multicall_entry js (evs i) c a))"
  proof (cases c)
    case (AMap m)
    then show ?thesis
      using Cons.prems handle_single_ok [OF Cons.prems] unfolding multicall_entry_def Let_def
      by (auto split: prod.splits rpc_result.splits) (metis fst_conv)+
  qed (use Cons.prems in \<open>simp_all add: multicall_entry_def\<close>)
  with Cons.IH show ?case by (auto split: prod.splits rpc_result.splits)
qed simp

lemma handle_method_ok: "app_ok a \<Longrightarrow> app_ok (fst (handle_method js evs name ps a))"
  by (auto simp: handle_method_def rpc_multicall_def handle_single_ok multicall_loop_ok split: any.splits)


section \<open>Requests\<close>

lemma task_reply_ok [simp]: "app_ok (fst (task_reply code r h a)) = app_ok a"
  by (simp add: task_reply_def)

lemma not_allowed_state [simp]: "fst (not_allowed h a) = a"
  by (simp add: not_allowed_def)

lemma create_task_ok: "app_ok a \<Longrightarrow> app_ok (fst (create_task sv rq h a))"
proof -
  assume a: "app_ok a"
  have add: "app_ok (fst (add_task ev' r (app_write r (\<lambda>t. case md of None \<Rightarrow> t\<lparr>t_priority := p\<rparr>
      | Some m \<Rightarrow> t\<lparr>t_priority := p, t_metadata := m\<rparr>) b)))"
    if "app_alloc ev url out a = (b, r)" for ev url out b r md p ev'
  proof -
    note al = app_alloc_ok [OF a that]
    show ?thesis
      using al by (intro add_task_ok app_ok_edit) (simp_all split: option.split)
  qed
  show ?thesis
  proof (cases "rv_create sv (take max_create_body (rq_body rq))")
    case None
    then show ?thesis using a by (simp add: create_task_def)
  next
    case (Some req)
    let ?ev = "rv_envs sv 0"
    let ?out = "if cq_output req = [] then path_join (nc_data_dir (cf_node (the (ap_cfg a)))) ''downloads'' else cq_output req"
    obtain b r where b: "app_alloc ?ev (cq_url req) ?out a = (b, r)" by fastforce
    obtain c e where c: "add_task ?ev r (app_write r (\<lambda>t. case cq_metadata req of None \<Rightarrow> t\<lparr>t_priority := cq_priority req\<rparr>
        | Some m \<Rightarrow> t\<lparr>t_priority := cq_priority req, t_metadata := m\<rparr>) b) = (c, e)" by fastforce
    have "app_ok c" using add [OF b, where md = "cq_metadata req" and p = "cq_priority req" and ev' = ?ev] c by simp
    then have "app_ok (fst (case e of Some e \<Rightarrow> (c, send_error 500 ''Failed to add task'' (queue_error_text e) h)
        | None \<Rightarrow> if \<not> ap_store c then (c, Panicked h)
                 else task_reply 201 r h (effect (StoreSave (get_safe (app_task c r))) c)))"
      by (simp split: option.split)
    then show ?thesis
      using a by (simp only: create_task_def Let_def Some option.case b prod.case c if_distrib [of fst] if_distrib [of app_ok] fst_conv) simp
  qed
qed

lemma switch_task_ok:
  assumes "app_ok a" "app_ok (a\<lparr>ap_queue := fst (op tid (ap_queue a))\<rparr>)"
  shows "app_ok (fst (switch_task what op tid h a))"
  using assms by (cases "op tid (ap_queue a)") (simp add: switch_task_def split: sum.split)

lemma delete_task_ok: "app_ok a \<Longrightarrow> app_ok (fst (delete_task tid h a))"
  using app_ok_remove [of a tid]
  by (cases "queue_remove tid (ap_queue a)") (simp add: delete_task_def split: sum.split)

lemma task_by_id_ok: "app_ok a \<Longrightarrow> app_ok (fst (handle_task_by_id sv rq h a))"
proof -
  assume a: "app_ok a"
  have "app_ok (fst (switch_task what (queue_pause now) tid h a))"
    "app_ok (fst (switch_task what (queue_resume now) tid h a))" for what now tid
    using a by (simp_all add: switch_task_ok app_ok_pause app_ok_resume)
  moreover have "fst (get_task tid h a) = a" for tid by (simp add: get_task_def split: sum.split)
  ultimately show ?thesis using a delete_task_ok [OF a] by (simp add: handle_task_by_id_def Let_def)
qed

lemma list_tasks_state [simp]: "fst (list_tasks sv rq h a) = a"
  by (simp only: list_tasks_def Let_def if_distrib [of fst] fst_conv if_cancel)

lemma config_handlers_ok:
  assumes "app_ok a"
  shows "app_ok (fst (handle_log_level sv rq h a))" "app_ok (fst (handle_reload_config sv rq h a))"
  using assms
  by (simp_all add: handle_log_level_def handle_reload_config_def Let_def split: option.split sum.split)

lemma web_socket_ok: "app_ok a \<Longrightarrow> app_ok (fst (handle_web_socket sv rq h a))"
  by (simp add: handle_web_socket_def Let_def split: option.split)

lemma serve_jsonrpc_ok:
  assumes "app_ok a"
  shows "app_ok (fst (serve_jsonrpc cd js evs meth body a))"
proof (cases body)
  case (Some b)
  let ?d = "if take max_rpc_body b = [] then Some no_rpc_request else rc_request cd (take max_rpc_body b)"
  show ?thesis
  proof (cases ?d)
    case None
    then show ?thesis using Some assms by (simp only: serve_jsonrpc_def Let_def) simp
  next
    case req: (Some req)
    have m: "app_ok (fst (case handle_method js evs n ps a of (b, r) \<Rightarrow> (b, g r)))" for n ps g
      using handle_method_ok [OF assms, of js evs n ps] by (cases "handle_method js evs n ps a") simp_all
    show ?thesis
      by (simp only: serve_jsonrpc_def Let_def Some option.case req) (simp add: assms m split: option.split)
  qed
qed (use assms in \<open>simp add: serve_jsonrpc_def\<close>)

lemma serve_xmlrpc_ok:
  assumes "app_ok a"
  shows "app_ok (fst (serve_xmlrpc dec w js evs meth body a))"
proof -
  have m: "app_ok (fst (case handle_method js evs n ps a of (b, r) \<Rightarrow> (b, g r)))" for n ps g
    using handle_method_ok [OF assms, of js evs n ps] by (cases "handle_method js evs n ps a") simp_all
  show ?thesis by (simp add: serve_xmlrpc_def assms m split: option.split)
qed

lemma rpc_handler_ok: "app_ok a \<Longrightarrow> app_ok (fst (rpc_handler js sv rq h a))"
proof -
  assume a: "app_ok a"
  let ?r = "serve_jsonrpc (rv_rpc sv) js (rv_envs sv) (rq_method rq) (if rv_readable sv then Some (rq_body rq) else None) a"
  obtain b r where r: "?r = (b, r)" by fastforce
  with serve_jsonrpc_ok [OF a, of "rv_rpc sv" js "rv_envs sv" "rq_method rq"] have "app_ok b" by (metis fst_conv)
  then show ?thesis unfolding rpc_handler_def r by (cases r) simp_all
qed

lemma xml_handler_ok: "app_ok a \<Longrightarrow> app_ok (fst (xml_handler js sv rq h a))"
proof -
  assume a: "app_ok a"
  let ?r = "serve_xmlrpc (rv_xml sv) True js (rv_envs sv) (rq_method rq) (if rv_readable sv then Some (rq_body rq) else None) a"
  obtain b r where r: "?r = (b, r)" by fastforce
  with serve_xmlrpc_ok [OF a, of "rv_xml sv" True js "rv_envs sv" "rq_method rq"] have "app_ok b" by (metis fst_conv)
  then show ?thesis unfolding xml_handler_def r by (cases r) simp_all
qed

lemma all_tasks_ok:
  assumes "app_ok a"
  shows "app_ok (a\<lparr>ap_queue := fold (pause_tracked now) rs (ap_queue a)\<rparr>)"
    "app_ok (a\<lparr>ap_queue := fold (resume_listed now) rs (ap_queue a)\<rparr>)"
proof -
  show "app_ok (a\<lparr>ap_queue := fold (pause_tracked now) rs (ap_queue a)\<rparr>)"
    by (rule fold_queue_ok [OF pause_tracked_ok assms])
  show "app_ok (a\<lparr>ap_queue := fold (resume_listed now) rs (ap_queue a)\<rparr>)"
    by (rule fold_queue_ok [OF resume_listed_ok assms])
qed

lemma run_endpoint_ok: "app_ok a \<Longrightarrow> app_ok (fst (run_endpoint js ep sv rq h a))"
  using all_tasks_ok [of a]
  by (cases ep) (simp_all add: run_endpoint_def rpc_handler_ok xml_handler_ok handle_tasks_def create_task_ok
      task_by_id_ok handle_pause_all_def handle_resume_all_def config_handlers_ok handle_nodes_def handle_status_def
      Let_def)

text \<open>A handler that keeps the application sound, and the middleware that keeps such handlers.\<close>

definition keeps_ok :: "(app, api_body) handler \<Rightarrow> bool" where
  "keeps_ok f \<longleftrightarrow> (\<forall>rq h s. app_ok (sv_app s) \<longrightarrow> app_ok (sv_app (fst (f rq h s))))"

lemma keeps_okI: "(\<And>rq h s. app_ok (sv_app s) \<Longrightarrow> app_ok (sv_app (fst (f rq h s)))) \<Longrightarrow> keeps_ok f"
  by (simp add: keeps_ok_def)

lemma keeps_okD: "keeps_ok f \<Longrightarrow> app_ok (sv_app s) \<Longrightarrow> app_ok (sv_app (fst (f rq h s)))"
  by (simp add: keeps_ok_def)

lemma observer_app [simp]:
  "sv_app (fst (recovery f rq h s)) = sv_app (fst (f rq h s))"
  "sv_app (fst (logging f rq h s)) = sv_app (fst (f rq h s))"
  "sv_app (fst (prometheus_middleware f rq h s)) = sv_app (fst (f rq h s))"
  by (simp_all add: recovery_def logging_def prometheus_middleware_def Let_def split: prod.split outcome.split option.split)

lemma middleware_keeps_ok:
  assumes "keeps_ok f"
  shows "keeps_ok (recovery f)" "keeps_ok (logging f)" "keeps_ok (prometheus_middleware f)" "keeps_ok (cors e os f)"
    "keeps_ok (auth tok f)" "keeps_ok (rate_limit n w f)" "keeps_ok (request_validation f)" "keeps_ok (deprecation f)"
  using assms
  by (auto simp: keeps_ok_def cors_def auth_def rate_limit_def request_validation_def deprecation_def Let_def
      split: prod.split)

lemma serve_mux_keeps_ok: "(\<And>p. keeps_ok (run p)) \<Longrightarrow> keeps_ok (serve_mux pats run)"
  by (auto simp: keeps_ok_def serve_mux_def split: mux_result.split)

lemma on_app_keeps_ok: "(\<And>rq h a. app_ok a \<Longrightarrow> app_ok (fst (f rq h a))) \<Longrightarrow> keeps_ok (on_app f)"
  by (rule keeps_okI) (simp add: on_app_def split: prod.split, metis fst_conv)

lemma api_mux_keeps_ok: "keeps_ok (api_mux js sv)"
  unfolding api_mux_def by (intro serve_mux_keeps_ok on_app_keeps_ok run_endpoint_ok)

lemma v1_keeps_ok: "keeps_ok (v1_handler js sv)"
  using api_mux_keeps_ok by (auto simp: keeps_ok_def v1_handler_def)

lemma run_route_keeps_ok: "keeps_ok (run_route c js sv rt)"
proof (cases rt)
  case RtPprof
  have "keeps_ok (\<lambda>rq h s. (s, reply 200 h (Body (TextBody ''pprof''))))" by (simp add: keeps_ok_def)
  then show ?thesis by (simp add: RtPprof run_route_def chain_def middleware_keeps_ok)
qed (simp_all add: run_route_def chain_def api_middlewares_def middleware_keeps_ok api_mux_keeps_ok v1_keeps_ok
      on_app_keeps_ok web_socket_ok keeps_ok_def [of "\<lambda>rq h s. (s, _ rq h s)"])

lemma serve_ok: "app_ok (sv_app s) \<Longrightarrow> app_ok (sv_app (fst (serve c js sv rq s)))"
  unfolding serve_def by (rule keeps_okD [OF serve_mux_keeps_ok [OF run_route_keeps_ok]])

section \<open>Runs\<close>

text \<open>
  What happens to a running server: requests, the saving tick, and the calls the downloads make to the
  queue when they end or report progress.
\<close>

datatype control_event =
    HttpRequest services request
  | SaveTick env
  | QueueEvent instant queue_op

definition control_exec :: "api_config \<Rightarrow> rpc_server \<Rightarrow> control_event \<Rightarrow> app server \<Rightarrow> app server" where
  "control_exec c js e s =
     (case e of
        HttpRequest sv rq \<Rightarrow> fst (serve c js sv rq s)
      | SaveTick ev \<Rightarrow> s\<lparr>sv_app := auto_save_tick ev (sv_app s)\<rparr>
      | QueueEvent now op \<Rightarrow> s\<lparr>sv_app := (sv_app s)\<lparr>ap_queue := exec_op now op (ap_queue (sv_app s))\<rparr>\<rparr>)"

text \<open>Tasks are added by requests only.\<close>

definition adds_itself :: "control_event \<Rightarrow> bool" where
  "adds_itself e \<longleftrightarrow> (case e of QueueEvent _ (OpAdd _) \<Rightarrow> True | _ \<Rightarrow> False)"

lemma control_exec_ok:
  assumes "app_ok (sv_app s)" "\<not> adds_itself e"
  shows "app_ok (sv_app (control_exec c js e s))"
proof (cases e)
  case (QueueEvent now op)
  with assms(2) have "op_ok op (ap_queue (sv_app s))" "app_op op (ap_next (sv_app s))"
    by (auto simp: adds_itself_def app_op_def split: queue_op.splits)
  with assms(1) app_ok_op [of "sv_app s" op now] QueueEvent show ?thesis by (simp add: control_exec_def)
qed (use assms serve_ok in \<open>simp_all add: control_exec_def auto_save_tick_def\<close>)



definition demo_env :: env where
  "demo_env = \<lparr>ev_now = 5, ev_ids = (\<lambda>r. [char_of (97 + r)]), ev_order = (\<lambda>m. filter (\<lambda>k. m k \<noteq> None) [''a'', ''b'']),
     ev_lookup = (\<lambda>_. Some [[93, 184, 216, 34]])\<rparr>"

text \<open>Every body asks for two downloads.\<close>

definition demo_uris :: "any list" where
  "demo_uris = [AList [AStr ''http://h/f'', AStr ''http://h/g'']]"

definition demo_services :: services where
  "demo_services = \<lparr>rv_envs = (\<lambda>_. demo_env),
     rv_rpc = \<lparr>rc_request = (\<lambda>_. Some \<lparr>rr_version = ''2.0'', rr_method = ''aria2.addUri'', rr_params = ''p'', rr_id = ''1''\<rparr>),
       rc_list = (\<lambda>_. Some demo_uris), rc_object = (\<lambda>_. None)\<rparr>,
     rv_xml = (\<lambda>_. None), rv_create = (\<lambda>_. None), rv_level = (\<lambda>_. None), rv_load = Inl ''none'', rv_clone = (\<lambda>c. Some c),
     rv_logger = (\<lambda>_. None), rv_readable = True, rv_members = [], rv_started = 0\<rparr>"

definition demo_request :: "string \<Rightarrow> string \<Rightarrow> request" where
  "demo_request path token = \<lparr>rq_method = ''POST'', rq_path = path, rq_query = (\<lambda>_. []),
     rq_header = (\<lambda>k. if k = ''X-API-Key'' then token else []), rq_remote = ''9.9.9.9:80'', rq_length = 1,
     rq_body = ''x'', rq_now = 5\<rparr>"

definition demo_api :: api_config where
  "demo_api = \<lparr>ac_port = 6800, ac_host = [], ac_token = ''secret'', ac_rate_limit = 9, ac_cors = True, ac_origins = [],
     ac_tls = False, ac_cert = [], ac_key = [], ac_pprof = None\<rparr>"

definition demo_server :: "app server" where
  "demo_server = \<lparr>sv_windows = Map.empty, sv_counts = (\<lambda>_. 0), sv_access = [],
     sv_app = \<lparr>ap_queue = new_task_queue 1 (\<lambda>_. new_task [] 0 [] []), ap_cfg = None, ap_store = True, ap_next = 0,
       ap_members = new_membership ''n'', ap_local = new_local_node None 0 ''n'' ''n'' 1 2 Map.empty, ap_effects = []\<rparr>\<rparr>"

definition demo_js :: rpc_server where
  "demo_js = \<lparr>js_version = ''1'', js_started = ''t''\<rparr>"

definition demo_events :: "control_event list" where
  "demo_events = [HttpRequest demo_services (demo_request ''/jsonrpc'' ''secret''),
     HttpRequest demo_services (demo_request ''/api/v1/tasks/pause-all'' ''secret''), QueueEvent 7 (OpComplete ''b'')]"


end
