(* ===== verification/AccessControl.thy ===== *)
theory AccessControl
  imports ControlSound
begin

text \<open>
  Who may do what over HTTP: without the token a request changes nothing and learns nothing, whatever its
  method, path and body.
\<close>

section \<open>Routing\<close>

lemma mux_longest_matches: "mux_longest ps path = Some (pat, p) \<Longrightarrow> (pat, p) \<in> set ps \<and> mux_matches pat path"
  by (induction ps arbitrary: pat p) (auto split: if_splits option.splits prod.splits)

lemma mux_find_Serve: "mux_find ps meth raw = Serve p \<Longrightarrow> \<exists>pat. (pat, p) \<in> set ps \<and> mux_matches pat raw"
  by (auto simp: mux_find_def Let_def split: if_splits option.splits dest!: mux_longest_matches)

lemma probe_endpoints:
  "mux_find api_routes meth ''/health'' = Serve EpHealth" "mux_find api_routes meth ''/ready'' = Serve EpReady"
proof -
  have "mux_clean ''/health'' = ''/health''" "mux_clean ''/ready'' = ''/ready''"
    "mux_longest api_routes ''/health'' = Some (''/health'', EpHealth)"
    "mux_longest api_routes ''/ready'' = Some (''/ready'', EpReady)" by code_simp+
  then show "mux_find api_routes meth ''/health'' = Serve EpHealth" "mux_find api_routes meth ''/ready'' = Serve EpReady"
    by (simp_all add: mux_find_def Let_def)
qed

lemma probe_paths:
  assumes "mux_find (top_routes c) meth raw = Serve RtProbe"
  shows "raw = ''/health'' \<or> raw = ''/ready''"
proof -
  obtain pat where "(pat, RtProbe) \<in> set (top_routes c)" "mux_matches pat raw" using mux_find_Serve [OF assms] by blast
  then show ?thesis by (auto simp: top_routes_def mux_matches_def has_suffix_def split: if_splits)
qed

lemma socket_path:
  assumes "mux_find (top_routes c) meth raw = Serve RtSocket"
  shows "raw = ''/ws''"
proof -
  obtain pat where "(pat, RtSocket) \<in> set (top_routes c)" "mux_matches pat raw" using mux_find_Serve [OF assms] by blast
  then show ?thesis by (auto simp: top_routes_def mux_matches_def has_suffix_def split: if_splits)
qed

section \<open>Harmless handlers\<close>

text \<open>A reply without data of the application: no body, an error, or the fixed answer of a probe.\<close>

definition public_reply :: "api_body outcome \<Rightarrow> bool" where
  "public_reply out \<longleftrightarrow>
     (case out of
        Panicked _ \<Rightarrow> False
      | Reply r \<Rightarrow> rs_body r = NoBody \<or> (\<exists>e n d. rs_body r = ErrorBody e n d) \<or>
          rs_body r \<in> {Body (FieldsBody [(''status'', ''healthy'')]), Body (FieldsBody [(''status'', ''ready'')]),
            Body (TextBody ''404 page not found'')})"

definition harmless :: "request \<Rightarrow> (app, api_body) handler \<Rightarrow> bool" where
  "harmless rq f \<longleftrightarrow> (\<forall>h s. sv_app (fst (f rq h s)) = sv_app s \<and> public_reply (snd (f rq h s)))"

lemma public_simps [simp]:
  "public_reply (send_error n e d h)" "public_reply (reply n h NoBody)" "public_reply (redirect_to p h)"
  "public_reply (not_found h)"
  by (simp_all add: public_reply_def send_error_def write_json_def reply_def redirect_to_def not_found_def)

lemma harmless_observers:
  assumes "harmless rq f"
  shows "harmless rq (recovery f)" "harmless rq (logging f)" "harmless rq (prometheus_middleware f)"
  using assms
  by (auto simp: harmless_def recovery_def logging_def prometheus_middleware_def Let_def split: prod.split outcome.split
      option.split) (metis fst_conv snd_conv public_simps(1))+

lemma harmless_filters:
  assumes "harmless rq f"
  shows "harmless rq (cors e os f)" "harmless rq (rate_limit n w f)" "harmless rq (deprecation f)"
  using assms by (auto simp: harmless_def cors_def rate_limit_def deprecation_def Let_def split: prod.split)

lemma harmless_auth: "tok \<noteq> [] \<Longrightarrow> \<not> validate_token rq tok \<Longrightarrow> harmless rq (auth tok f)"
  by (simp add: harmless_def auth_def)

lemma harmless_probe:
  assumes "rq_path rq = ''/health'' \<or> rq_path rq = ''/ready''"
  shows "harmless rq (api_mux js sv)"
  using assms probe_endpoints
  by (auto simp: harmless_def api_mux_def serve_mux_def on_app_def run_endpoint_def public_reply_def write_json_def reply_def)



end
