(* ===== verification/RpcProps.thy ===== *)
theory RpcProps
  imports ControlSound ManagerProps
begin

text \<open>
  What single calls of the control interface do: pausing all tasks, pages of task lists, speed limits and
  the options XML-RPC cannot carry.
\<close>

section \<open>Pausing all tasks\<close>

text \<open>The tracked tasks that wait, and those that wait or run.\<close>

definition waiting_tasks :: "tqueue \<Rightarrow> string set" where
  "waiting_tasks q = {tid. \<exists>r. tq_tasks q tid = Some r \<and> t_status (tq_store q r) = StatusPending}"

definition live_tasks :: "tqueue \<Rightarrow> string set" where
  "live_tasks q = waiting_tasks q \<union> downloading q"

lemma live_write:
  assumes "t_status (tq_store q r) = StatusPending" "tq_tasks q' = tq_tasks q"
    "tq_store q' = (tq_store q)(r := set_status now StatusDownloading (tq_store q r))"
  shows "live_tasks q' = live_tasks q"
  using assms by (auto simp: live_tasks_def waiting_tasks_def downloading_def set_status_def split: if_splits)

lemma live_cong: "tq_tasks q' = tq_tasks q \<Longrightarrow> tq_store q' = tq_store q \<Longrightarrow> live_tasks q' = live_tasks q"
  by (simp add: live_tasks_def waiting_tasks_def downloading_def)

lemma try_start_loop_live: "live_tasks (fst (try_start_loop now q started)) = live_tasks q"
proof (induction "length (tq_pq q)" arbitrary: q started rule: less_induct)
  case less
  show ?case
  proof (cases "tq_active q < tq_max q \<and> tq_pq q \<noteq> []")
    case False
    then show ?thesis by (simp add: try_start_loop_stop)
  next
    case True
    let ?r = "pi_task (fst (hpop (tq_pq q)))" and ?q1 = "q\<lparr>tq_pq := snd (hpop (tq_pq q))\<rparr>"
    have short: "length (tq_pq ?q1) < length (tq_pq q)" using True by (simp add: pqh.heap_pop_length)
    show ?thesis
    proof (cases "t_status (tq_store q ?r) = StatusPending")
      case False
      from less.hyps [OF short] True False show ?thesis
        by (simp add: try_start_loop_skip live_cong [of ?q1 q])
    next
      case pend: True
      let ?q2 = "(write_task ?r (set_status now StatusDownloading) ?q1)\<lparr>tq_active := tq_active ?q1 + 1\<rparr>"
      have "length (tq_pq ?q2) < length (tq_pq q)" using short by simp
      from less.hyps [OF this, of "started @ [?r]"] True pend live_write [OF pend, of ?q2 now] show ?thesis
        by (simp add: try_start_loop_go [OF _ _ refl _ refl])
    qed
  qed
qed

lemma live_finite: "finite (dom (tq_tasks q)) \<Longrightarrow> finite (live_tasks q)"
  by (rule finite_subset [of _ "dom (tq_tasks q)"]) (auto simp: live_tasks_def waiting_tasks_def downloading_def)

lemma waiting_in_heap: "queue_inv {} q \<Longrightarrow> tq_pq q = [] \<Longrightarrow> waiting_tasks q = {}"
  by (auto simp: waiting_tasks_def inv_defs)

text \<open>After \<open>tryStartNext\<close> as many tasks run as there are live ones, up to the limit.\<close>

lemma try_start_fills:
  assumes "queue_inv {} q" "tq_active q \<le> tq_max q"
  shows "tq_active (try_start_next now q) = min (tq_max q) (int (card (live_tasks q)))"
    "live_tasks (try_start_next now q) = live_tasks q"
proof -
  let ?q = "try_start_next now q"
  show live: "live_tasks ?q = live_tasks q"
    using try_start_loop_live [of now q "[]"]
    by (simp add: try_start_next_def Let_def live_cong [of "emit _ _ _"])
  have inv: "queue_inv {} ?q" by (rule inv_try_start_next [OF assms(1)])
  have act: "tq_active ?q = int (card (downloading ?q))" by (rule queue_invD(4) [OF inv])
  have fin: "finite (live_tasks ?q)" by (rule live_finite [OF queue_invD(3) [OF inv]])
  have sub: "downloading ?q \<subseteq> live_tasks ?q" by (simp add: live_tasks_def)
  have le: "tq_active ?q \<le> tq_max q" using try_start_next_active(2) [of now q] assms(2) by simp
  have upper: "tq_active ?q \<le> int (card (live_tasks q))"
    using card_mono [OF fin sub] act live by simp
  have "tq_active ?q = int (card (live_tasks q))" if "tq_active ?q < tq_max q"
    using waiting_in_heap [OF inv try_start_next_active(3) [OF that]] act live by (simp add: live_tasks_def)
  with le upper show "tq_active ?q = min (tq_max q) (int (card (live_tasks q)))" by linarith
qed

lemma pause_running:
  assumes "queue_inv {} q" "tq_active q \<le> tq_max q" "tq_tasks q tid = Some r" "t_status (tq_store q r) = StatusDownloading"
  shows "let q' = pause_tracked now r q in
    queue_inv {} q' \<and> tq_max q' = tq_max q \<and> tq_tasks q' = tq_tasks q \<and>
    live_tasks q' = live_tasks q - {tid} \<and> tq_active q' = min (tq_max q) (int (card (live_tasks q')))  \<and>
    tq_active q' \<le> tq_max q' \<and>
    (\<forall>d. d \<noteq> r \<and> t_status (tq_store q d) = StatusDownloading \<longrightarrow> tq_store q' d = tq_store q d)"
proof -
  let ?q = "(write_task r (set_status now StatusPaused) q)\<lparr>tq_active := tq_active q - 1\<rparr>"
  have tid: "t_id (tq_store q r) = tid" using queue_invD(2) [OF assms(1)] assms(3) by (simp add: ids_ok_def)
  have p: "pause_tracked now r q = try_start_next now ?q"
    using assms(3,4) tid by (simp add: pause_tracked_def queue_pause_def get_status_def Let_def)
  have uniq: "tq_tasks q x = Some r \<Longrightarrow> x = tid" for x
    using queue_invD(2) [OF assms(1)] tid by (simp add: ids_ok_def)
  have live: "live_tasks ?q = live_tasks q - {tid}"
  proof (rule set_eqI)
    fix x
    show "x \<in> live_tasks ?q \<longleftrightarrow> x \<in> live_tasks q - {tid}"
    proof (cases "tq_tasks q x")
      case (Some d)
      show ?thesis
      proof (cases "d = r")
        case True
        with Some uniq have "x = tid" by simp
        with assms(3) show ?thesis
          by (simp add: live_tasks_def waiting_tasks_def downloading_def set_status_def)
      next
        case False
        with Some assms(3) have "x \<noteq> tid" by auto
        with Some False show ?thesis
          by (simp add: live_tasks_def waiting_tasks_def downloading_def)
      qed
    qed (simp add: live_tasks_def waiting_tasks_def downloading_def)
  qed
  have inv: "queue_inv {} ?q"
    using inv_end_download [OF assms(1,3,4), of "set_status now StatusPaused"] by (simp add: set_status_def)
  have le: "tq_active ?q \<le> tq_max ?q" using assms(2) by simp
  note fills = try_start_fills [OF inv le, of now]
  have "tq_store (try_start_next now ?q) d = tq_store q d"
    if "d \<noteq> r" "t_status (tq_store q d) = StatusDownloading" for d
    using that by (simp add: try_start_next_others)
  then show ?thesis
    unfolding p Let_def using fills inv_try_start_next [OF inv] live by simp
qed

lemma fold_unchanged: "(\<And>r. r \<in> set rs \<Longrightarrow> f r q = q) \<Longrightarrow> fold f rs q = q"
  by (induction rs) simp_all

lemma pause_tracked_idle:
  assumes "queue_inv {} q" "tq_tasks q tid = Some r" "t_status (tq_store q r) \<noteq> StatusDownloading"
  shows "pause_tracked now r q = q"
  using assms by (simp add: pause_tracked_def queue_pause_def get_status_def inv_defs split: option.split)

lemma pause_running_all:
  assumes "queue_inv {} q" "tq_active q \<le> tq_max q" "distinct ds" "ds \<noteq> []"
    "\<And>d. d \<in> set ds \<Longrightarrow> \<exists>tid. tq_tasks q tid = Some d \<and> t_status (tq_store q d) = StatusDownloading"
  shows "tq_active (fold (pause_tracked now) ds q) = min (tq_max q) (int (card (live_tasks q)) - int (length ds))"
  using assms
proof (induction ds arbitrary: q)
  case (Cons d ds)
  obtain tid where d: "tq_tasks q tid = Some d" "t_status (tq_store q d) = StatusDownloading" using Cons.prems(5) by auto
  let ?q = "pause_tracked now d q"
  have st: "queue_inv {} ?q" "tq_max ?q = tq_max q" "tq_tasks ?q = tq_tasks q" "live_tasks ?q = live_tasks q - {tid}"
    "tq_active ?q = min (tq_max q) (int (card (live_tasks ?q)))" "tq_active ?q \<le> tq_max ?q"
    "\<And>x. x \<noteq> d \<Longrightarrow> t_status (tq_store q x) = StatusDownloading \<Longrightarrow> tq_store ?q x = tq_store q x"
    using pause_running [OF Cons.prems(1,2) d, of now] by (auto simp: Let_def)
  have "tid \<in> live_tasks q" using d by (auto simp: live_tasks_def downloading_def)
  then have card: "int (card (live_tasks ?q)) = int (card (live_tasks q)) - 1"
    using st(4) card_Suc_Diff1 [OF live_finite [OF queue_invD(3) [OF Cons.prems(1)]], of tid] by simp
  show ?case
  proof (cases "ds = []")
    case True
    then show ?thesis using st(5) card by simp
  next
    case False
    have "\<exists>tid. tq_tasks ?q tid = Some x \<and> t_status (tq_store ?q x) = StatusDownloading" if "x \<in> set ds" for x
      using Cons.prems(3,5) that st(3,7) by (metis distinct.simps(2) list.set_intros(2))
    from Cons.IH [OF st(1,6) _ False this] Cons.prems(3) card st(2) show ?thesis by simp
  qed
qed simp

text \<open>
  \<open>/api/tasks/pause-all\<close> answers that all tasks are paused, but every slot it frees is given to a waiting
  task. If it comes to the waiting tasks before the running ones, as it may since the order is that of a
  map, then afterwards as many tasks run as wait now, up to the limit: with enough waiting tasks the server
  is as busy as before.
\<close>
theorem pause_all_starts_waiting:
  assumes "queue_inv {} q" "tq_active q \<le> tq_max q" "distinct ds" "ds \<noteq> []"
    "set ds = {r. \<exists>tid. tq_tasks q tid = Some r \<and> t_status (tq_store q r) = StatusDownloading}"
    "set ws = {r. \<exists>tid. tq_tasks q tid = Some r \<and> t_status (tq_store q r) \<noteq> StatusDownloading}"
  shows "tq_active (fold (pause_tracked now) (ws @ ds) q) = min (tq_max q) (int (card (waiting_tasks q)))"
proof -
  have "fold (pause_tracked now) ws q = q"
    using assms(6) by (intro fold_unchanged) (auto intro: pause_tracked_idle [OF assms(1)])
  moreover have "tq_active (fold (pause_tracked now) ds q) = min (tq_max q) (int (card (live_tasks q)) - int (length ds))"
    using assms(5) by (intro pause_running_all [OF assms(1-4)]) auto
  moreover have "int (card (live_tasks q)) - int (length ds) = int (card (waiting_tasks q))"
  proof -
    have fin: "finite (live_tasks q)" by (rule live_finite [OF queue_invD(3) [OF assms(1)]])
    then have "finite (waiting_tasks q)" "finite (downloading q)" by (simp_all add: live_tasks_def)
    moreover have "waiting_tasks q \<inter> downloading q = {}" by (auto simp: waiting_tasks_def downloading_def)
    ultimately have "card (live_tasks q) = card (waiting_tasks q) + card (downloading q)"
      by (simp add: live_tasks_def card_Un_disjoint)
    moreover have "card (downloading q) = length ds"
    proof -
      let ?id = "\<lambda>r. t_id (tq_store q r)"
      have ids: "tq_tasks q (?id r) = Some r" if "r \<in> set ds" for r
        using that queue_invD(2) [OF assms(1)] assms(5) by (auto simp: ids_ok_def)
      have "?id ` set ds = downloading q"
      proof (intro set_eqI iffI)
        fix x
        assume "x \<in> ?id ` set ds"
        then obtain r where r: "r \<in> set ds" "x = ?id r" by blast
        then have "t_status (tq_store q r) = StatusDownloading" using assms(5) by blast
        with r ids show "x \<in> downloading q" by (auto simp: downloading_def)
      next
        fix x
        assume "x \<in> downloading q"
        then obtain r where r: "tq_tasks q x = Some r" "t_status (tq_store q r) = StatusDownloading"
          by (auto simp: downloading_def)
        then have "r \<in> set ds" "?id r = x" using assms(5) queue_invD(2) [OF assms(1)] by (auto simp: ids_ok_def)
        then show "x \<in> ?id ` set ds" by blast
      qed
      moreover have "inj_on ?id (set ds)"
      proof (rule inj_onI)
        fix x y
        assume x: "x \<in> set ds" and y: "y \<in> set ds" and eq: "?id x = ?id y"
        have "Some x = tq_tasks q (?id y)" unfolding eq [symmetric] by (rule ids [OF x, symmetric])
        also have "\<dots> = Some y" by (rule ids [OF y])
        finally show "x = y" by (rule option.inject [THEN iffD1])
      qed
      ultimately have "card (downloading q) = card (set ds)" using card_image [of ?id "set ds"] by simp
      then show ?thesis using distinct_card [OF assms(3)] by simp
    qed
    ultimately show ?thesis by simp
  qed
  ultimately show ?thesis by simp
qed


definition pausable_queue :: tqueue where
  "pausable_queue = exec_op 5 (OpAdd 1) (exec_op 5 (OpAdd 0)
     (new_task_queue 1 (\<lambda>r. new_task (if r = 0 then ''a'' else ''b'') 0 ''http://h/f'' ''out'')))"

theorem pause_all_starts_waiting_witness:
  "tq_active pausable_queue = 1 \<and> tq_active (fold (pause_tracked 9) ([1] @ [0]) pausable_queue) = 1"
proof -
  have "queue_reach pausable_queue"
    unfolding pausable_queue_def
    by (intro queue_reach.op queue_reach.init) (simp_all add: new_task_queue_def new_task_def queue_add_def
      queue_add_enter_def start_task_def emit_def Let_def get_status_def write_task_def)
  then have inv: "queue_inv {} pausable_queue" by (rule queue_reach_inv)
  have t: "map (tq_tasks pausable_queue) [''a'', ''b''] = [Some 0, Some 1]" "tq_max pausable_queue = 1"
    "map (\<lambda>r. t_status (tq_store pausable_queue r)) [0, 1] = [StatusDownloading, StatusPending]" "tq_active pausable_queue = 1"
    by code_simp+
  have "tq_tasks pausable_queue tid = None" if "tid \<noteq> ''a''" "tid \<noteq> ''b''" for tid
    using that by (simp add: pausable_queue_def new_task_queue_def new_task_def queue_add_def
      queue_add_enter_def start_task_def push_waiting_def emit_def Let_def get_status_def write_task_def)
  then have tracked: "tq_tasks pausable_queue tid = Some r \<longleftrightarrow> (tid = ''a'' \<and> r = 0) \<or> (tid = ''b'' \<and> r = 1)" for tid r
    using t(1) by (cases "tid = ''a''"; cases "tid = ''b''") auto
  have "waiting_tasks pausable_queue = {''b''}" using t(3) by (auto simp: waiting_tasks_def tracked)
  moreover have "{r. \<exists>tid. tq_tasks pausable_queue tid = Some r \<and> t_status (tq_store pausable_queue r) = StatusDownloading} = {0}"
    "{r. \<exists>tid. tq_tasks pausable_queue tid = Some r \<and> t_status (tq_store pausable_queue r) \<noteq> StatusDownloading} = {1}"
    using t(3) by (auto simp: tracked)
  ultimately show ?thesis
    using pause_all_starts_waiting [OF inv, of "[0]" "[1]" 9] t(2,4) by simp
qed

section \<open>Pages\<close>

lemma page_regular:
  assumes "0 \<le> offset" "0 \<le> num" "offset + num < 2 ^ 63"
  shows "page offset num xs = Some (take (nat num) (drop (nat offset) xs))"
proof -
  have i: "i64 (offset + num) = offset + num" using assms by (intro i64_id) (simp add: in_i64_def)
  show ?thesis
  proof (cases "offset > int (length xs)")
    case True
    with assms i show ?thesis by (simp add: page_def Let_def)
  next
    case False
    show ?thesis
    proof (cases "offset + num > int (length xs)")
      case True
      then have "take (nat (int (length xs) - offset)) (drop (nat offset) xs) = drop (nat offset) xs"
        "take (nat num) (drop (nat offset) xs) = drop (nat offset) xs"
        using assms by simp_all
      with True False assms i show ?thesis by (simp add: page_def Let_def)
    next
      case False
      with assms i show ?thesis by (simp add: page_def Let_def)
    qed
  qed
qed

lemma page_before_start:
  assumes "- (2 ^ 63) \<le> offset + num" "offset + num < 0"
  shows "page offset num xs = None"
proof -
  have "i64 (offset + num) = offset + num" using assms by (intro i64_id) (simp add: in_i64_def)
  with assms show ?thesis by (simp add: page_def Let_def)
qed

text \<open>
  \<open>tellWaiting\<close> answers the page of waiting tasks that was asked for. For a page that would end before the
  first task, as with the negative offsets by which aria2 counts from the end, it panics.
\<close>
theorem tell_waiting_pages:
  assumes "first = param_int ps 0" "num = param_int ps 1"
  shows "(0 \<le> first \<and> 0 \<le> num \<and> first + num < 2 ^ 63 \<longrightarrow>
      rpc_tell_waiting ev ps a = (a, Value (AList (map (\<lambda>t. task_to_status t (param_keys ps 2))
        (take (nat num) (drop (nat first) (tasks_in (\<lambda>st. st = StatusPending) ev a))))))) \<and>
    (- (2 ^ 63) \<le> first + num \<and> first + num < 0 \<longrightarrow> rpc_tell_waiting ev ps a = (a, Crashes))"
  by (simp add: rpc_tell_waiting_def tell_page_def page_regular page_before_start assms)

theorem tell_waiting_pages_witness:
  "rpc_tell_waiting demo_env [AInt (-2), AInt 1] (sv_app demo_server) = (sv_app demo_server, Crashes)"
  using tell_waiting_pages [of "-2" "[AInt (-2), AInt 1]" 1 demo_env "sv_app demo_server"]
  by (simp add: param_int_def)

section \<open>Speed limits\<close>

lemma trim_plain: "list_all (\<lambda>c. \<not> is_space c) s \<Longrightarrow> trim_space s = s"
proof -
  have d: "dropWhile is_space s = s" if "list_all (\<lambda>c. \<not> is_space c) s" for s
    using that by (cases s) simp_all
  assume "list_all (\<lambda>c. \<not> is_space c) s"
  then show ?thesis using d [of s] d [of "rev s"] by (simp add: trim_space_def)
qed

lemma digit_plain: "is_digit c \<Longrightarrow> \<not> is_space c \<and> c \<notin> set ''KkMmGg''"
  by (auto simp: is_digit_def is_space_def Let_def)

lemma show_int_digits: "0 \<le> n \<Longrightarrow> c \<in> set (show_int n) \<Longrightarrow> is_digit c"
  using digits_of_digits by (simp add: show_int_def)

lemma parse_plain:
  assumes "0 \<le> n" "in_i64 n"
  shows "parse_speed_limit (show_int n) = Some n"
    "n \<noteq> 0 \<Longrightarrow> u \<in> set ''MK'' \<Longrightarrow> parse_speed_limit (show_int n @ [u]) =
       Some (i64 (n * (if u = CHR ''K'' then 1024 else 1024 * 1024)))"
proof -
  note dig = show_int_digits [OF assms(1)]
  have ne: "show_int n \<noteq> []" by (simp add: show_int_def)
  have l: "List.last (show_int n) \<notin> set ''KkMmGg''" using dig digit_plain last_in_set [OF ne] by blast
  have p: "list_all (\<lambda>c. \<not> is_space c) (show_int n)" using dig digit_plain by (auto simp: list_all_iff)
  have at: "atoi (show_int n) = Some n" by (rule atoi_show_int [OF assms(2)])
  have z: "n = 0" if "show_int n = ''0''"
    using at that by (simp add: atoi_def atoi_digits_def is_digit_def digit_value_def in_i64_def)
  show "parse_speed_limit (show_int n) = Some n"
    using ne l at z by (auto simp: parse_speed_limit_def trim_plain [OF p] i64_id [OF assms(2)] Let_def)
  assume "n \<noteq> 0" and u: "u \<in> set ''MK''"
  then have "list_all (\<lambda>c. \<not> is_space c) (show_int n @ [u])" using p by (auto simp: is_space_def)
  then show "parse_speed_limit (show_int n @ [u]) = Some (i64 (n * (if u = CHR ''K'' then 1024 else 1024 * 1024)))"
    using u at by (auto simp: parse_speed_limit_def trim_plain Let_def)
qed

text \<open>Every speed limit the interface shows is read back as the same limit.\<close>
theorem speed_limit_roundtrip:
  assumes "0 \<le> n" "in_i64 n"
  shows "parse_speed_limit (format_speed_limit n) = Some n"
proof -
  consider "n = 0" | "0 < n" "n mod 1048576 = 0" | "0 < n" "n mod 1048576 \<noteq> 0" "n mod 1024 = 0"
    | "0 < n" "n mod 1048576 \<noteq> 0" "n mod 1024 \<noteq> 0" using assms(1) by linarith
  then show ?thesis
  proof cases
    case 1
    then show ?thesis by (simp add: format_speed_limit_def parse_speed_limit_def trim_plain is_space_def)
  next
    case 2
    then have m: "n div 1048576 * 1048576 = n" "0 \<le> n div 1048576" "n div 1048576 \<noteq> 0" by auto
    then have "in_i64 (n div 1048576)" using assms by (auto simp: in_i64_def)
    with parse_plain(2) [of "n div 1048576" "CHR ''M''"] m 2 assms show ?thesis
      by (simp add: format_speed_limit_def go_int i64_id)
  next
    case 3
    then have m: "n div 1024 * 1024 = n" "0 \<le> n div 1024" "n div 1024 \<noteq> 0" by auto
    then have "in_i64 (n div 1024)" using assms by (auto simp: in_i64_def)
    with parse_plain(2) [of "n div 1024" "CHR ''K''"] m 3 assms show ?thesis
      by (simp add: format_speed_limit_def go_int i64_id)
  next
    case 4
    with parse_plain(1) [OF assms] show ?thesis by (simp add: format_speed_limit_def go_int)
  qed
qed

theorem speed_limit_roundtrip_witness:
  "format_speed_limit 3145728 = ''3M'' \<and> parse_speed_limit ''3M'' = Some 3145728"
proof -
  have "format_speed_limit 3145728 = ''3M''" by code_simp
  with speed_limit_roundtrip [of 3145728] show ?thesis by (simp add: in_i64_def)
qed

text \<open>A limit of 2 to the 64 bytes and one kilobyte, in kilobytes, is taken for one kilobyte.\<close>
lemma speed_limit_wraps: "parse_speed_limit (show_int 18014398509481985 @ ''K'') = Some 1024"
  using parse_plain(2) [of 18014398509481985 "CHR ''K''"] by (simp add: in_i64_def i64_def)

section \<open>Options over XML-RPC\<close>

text \<open>
  Over XML-RPC no option can be set: a struct parameter is read as an empty string, so the two methods that
  change options always fail, and a download is added without its options.
\<close>
theorem xml_options_unreachable:
  "handle_method js evs ''aria2.changeGlobalOption'' (params_to_interface req) a =
     fail_rpc (-32602) ''Missing options parameter'' a \<and>
   snd (handle_method js evs ''aria2.changeOption'' (params_to_interface req) a) \<in>
     {Fails (RpcError (-32602) ''Missing gid parameter''), Fails (RpcError (-32602) ''Missing options parameter'')} \<and>
   handle_method js evs ''aria2.addUri'' (params_to_interface req) a =
     handle_method js evs ''aria2.addUri'' (take 1 (params_to_interface req)) a"
proof (intro conjI)
  let ?ps = "params_to_interface req"
  show "handle_method js evs ''aria2.changeGlobalOption'' ?ps a = fail_rpc (-32602) ''Missing options parameter'' a"
    by (simp add: handle_method_def handle_single_def method_table_def rpc_change_global_option_def xml_never_map)
  show "snd (handle_method js evs ''aria2.changeOption'' ?ps a) \<in>
     {Fails (RpcError (-32602) ''Missing gid parameter''), Fails (RpcError (-32602) ''Missing options parameter'')}"
    by (simp add: handle_method_def handle_single_def method_table_def rpc_change_option_def xml_never_map Let_def fail_rpc_def)
  have "param_string_slice (take 1 ?ps) 0 = param_string_slice ?ps 0" "param_map (take 1 ?ps) 1 = None"
    by (cases ?ps; simp add: param_string_slice_def param_map_def)+
  then show "handle_method js evs ''aria2.addUri'' ?ps a = handle_method js evs ''aria2.addUri'' (take 1 ?ps) a"
    using xml_never_map [of req 1]
    by (simp add: handle_method_def handle_single_def method_table_def rpc_add_uri_def Let_def del: One_nat_def)
qed

section \<open>Created tasks\<close>

lemma add_task_fields:
  assumes "add_task ev r a = (a', None)"
  shows "t_url (app_task a' r) = t_url (app_task a r)" "t_output (app_task a' r) = t_output (app_task a r)"
    "t_priority (app_task a' r) = t_priority (app_task a r)" "ap_next a' = ap_next a" "ap_cfg a' = ap_cfg a"
  using assms
  by (auto simp: add_task_def queue_add_def queue_add_enter_def start_task_def push_waiting_def emit_def write_task_def
      set_status_def app_task_def Let_def split: prod.splits sum.splits if_splits)

text \<open>
  C38: A task made through \<open>POST /api/tasks\<close> has passed every check: a priority from 0 to 10, a URL of a known
  scheme whose host did not resolve to a private address, and as output either the directory of downloads
  or a path that stays below whatever directory it is joined to.
\<close>
theorem created_task_checked:
  assumes "create_task sv rq h a = (a', Reply r)" "rs_status r = 201" "base \<noteq> []" "t = app_task a' (ap_next a)"
  shows "0 \<le> t_priority t \<and> t_priority t \<le> 10 \<and> is_valid_url (ev_lookup (rv_envs sv 0)) (t_url t) \<and>
    (t_output t = path_join (nc_data_dir (cf_node (the (ap_cfg a)))) ''downloads'' \<or>
     clean_elems (base @ ''/'' @ t_output t) = clean_elems base @ clean_elems (t_output t))"
proof -
  let ?ev = "rv_envs sv 0" and ?r = "ap_next a"
  obtain req where req: "rv_create sv (take max_create_body (rq_body rq)) = Some req"
    using assms(1,2)
    by (cases "rv_create sv (take max_create_body (rq_body rq))")
      (auto simp: create_task_def send_error_def write_json_def reply_def Let_def)
  define out where
    "out = (if cq_output req = [] then path_join (nc_data_dir (cf_node (the (ap_cfg a)))) ''downloads'' else cq_output req)"
  have ok: "is_valid_url (ev_lookup ?ev) (cq_url req)" "cq_output req \<noteq> [] \<longrightarrow> is_safe_path (cq_output req)"
    "0 \<le> cq_priority req \<and> cq_priority req \<le> 10"
    using assms(1,2) req
    by (auto simp: create_task_def send_error_def write_json_def reply_def Let_def not_less split: if_splits)
  have url: "cq_url req \<noteq> []" using ok(1) by (auto simp: is_valid_url_def)
  obtain a1 where alloc: "app_alloc ?ev (cq_url req) out a = (a1, ?r)" by (simp add: app_alloc_def Let_def)
  let ?a2 = "app_write ?r (\<lambda>t. case cq_metadata req of
      None \<Rightarrow> t\<lparr>t_priority := cq_priority req\<rparr> | Some md \<Rightarrow> t\<lparr>t_priority := cq_priority req, t_metadata := md\<rparr>) a1"
  have fields: "t_url (app_task ?a2 ?r) = cq_url req" "t_output (app_task ?a2 ?r) = out" "t_priority (app_task ?a2 ?r) = cq_priority req"
    using alloc by (auto simp: app_alloc_def app_write_def app_task_def write_task_def new_task_def Let_def split: option.split)
  obtain a3 e where add: "add_task ?ev ?r ?a2 = (a3, e)" by (cases "add_task ?ev ?r ?a2")
  have go: "create_task sv rq h a = (case e of
      Some e \<Rightarrow> (a3, send_error 500 ''Failed to add task'' (queue_error_text e) h)
    | None \<Rightarrow> if \<not> ap_store a3 then (a3, Panicked h)
        else task_reply 201 ?r h (effect (StoreSave (get_safe (app_task a3 ?r))) a3))"
    if "\<not> (cq_output req = [] \<and> ap_cfg a = None)"
    using url req ok that add alloc by (cases "cq_output req = []") (auto simp: create_task_def Let_def out_def)
  have "e = None \<and> app_task a' ?r = app_task a3 ?r"
  proof (cases "cq_output req = [] \<and> ap_cfg a = None")
    case True
    with assms(1) req ok url show ?thesis by (auto simp: create_task_def Let_def split: if_splits)
  next
    case False
    from go [OF this] assms(1,2) show ?thesis
      by (auto simp: send_error_def write_json_def reply_def task_reply_def effect_def app_task_def split: option.splits if_splits)
  qed
  with add_task_fields [of ?ev ?r ?a2 a3] add fields
  have "t_url t = cq_url req" "t_output t = out" "t_priority t = cq_priority req" unfolding assms(4) by simp_all
  then show ?thesis using ok safe_path_below [of "cq_output req" base] assms(3) by (auto simp: out_def)
qed

definition demo_create :: services where
  "demo_create = demo_services\<lparr>rv_create := (\<lambda>_. Some \<lparr>cq_url = ''http://h/f'', cq_output = ''sub/f'', cq_priority = 3,
     cq_metadata = None\<rparr>)\<rparr>"

theorem created_task_checked_witness:
  "let t = app_task (fst (create_task demo_create (demo_request ''/api/tasks'' []) Map.empty (sv_app demo_server))) 0 in
    t_output t = ''sub/f'' \<and> t_priority t = 3 \<and> is_valid_url (ev_lookup demo_env) (t_url t) \<and>
    clean_elems (''/srv'' @ ''/'' @ t_output t) = clean_elems ''/srv'' @ clean_elems (t_output t)"
proof -
  let ?c = "create_task demo_create (demo_request ''/api/tasks'' []) Map.empty (sv_app demo_server)"
  have "(case snd ?c of Reply r \<Rightarrow> rs_status r = 201 | Panicked _ \<Rightarrow> False) \<and> ap_next (sv_app demo_server) = 0 \<and>
     t_output (app_task (fst ?c) 0) = ''sub/f'' \<and> t_priority (app_task (fst ?c) 0) = 3"
  proof -
    have "is_valid_url (ev_lookup demo_env) ''http://h/f''" "is_safe_path ''sub/f''" by code_simp+
    then show ?thesis
      by (simp add: create_task_def demo_create_def demo_services_def demo_request_def demo_server_def app_alloc_def
        app_write_def add_task_def queue_add_def queue_add_enter_def start_task_def emit_def task_reply_def
        write_json_def reply_def app_task_def effect_def write_task_def new_task_def new_task_queue_def get_status_def
        set_status_def Let_def)
  qed
  then obtain r where r: "?c = (fst ?c, Reply r)" "rs_status r = 201" "ap_next (sv_app demo_server) = 0"
    and t: "t_output (app_task (fst ?c) 0) = ''sub/f''" "t_priority (app_task (fst ?c) 0) = 3"
    by (cases ?c) (auto split: outcome.splits)
  have "rv_envs demo_create 0 = demo_env" by (simp add: demo_create_def demo_services_def)
  then have "is_valid_url (ev_lookup demo_env) (t_url (app_task (fst ?c) 0))"
    using created_task_checked [OF r(1,2), of "''/srv''" "app_task (fst ?c) 0"] r(3) by simp
  moreover have "clean_elems (''/srv'' @ ''/'' @ ''sub/f'') = clean_elems ''/srv'' @ clean_elems ''sub/f''" by code_simp
  ultimately show ?thesis using t by (simp only: Let_def simp_thms)
qed

end
