(* ===== verification/WebSocketHub.thy ===== *)
theory WebSocketHub
  imports TaskModel ClusterNode
begin

text \<open>
  The hub of the WebSocket clients, \<open>internal/api/websocket.go\<close>: one step of the loop of \<open>Run\<close>, the senders that
  never block, and what the pumps of a client do with its queue. Messages are of any type.
\<close>

section \<open>State\<close>

text \<open>
  \<open>cl_closed\<close> is whether the send channel of a client is closed; sending on it or closing it again panics.
\<close>

record 'm client =
  cl_queue :: "'m list"
  cl_closed :: bool

record 'm hub =
  hb_clients :: "nat set"
  hb_chan :: "nat \<Rightarrow> 'm client"
  hb_broadcast :: "'m list"
  hb_done :: bool
  hb_running :: bool
  hb_panicked :: bool

definition hub_capacity :: nat where
  "hub_capacity = 256"

definition new_hub :: "'m hub" where
  "new_hub = \<lparr>hb_clients = {}, hb_chan = (\<lambda>_. \<lparr>cl_queue = [], cl_closed = False\<rparr>), hb_broadcast = [],
     hb_done = False, hb_running = True, hb_panicked = False\<rparr>"

section \<open>Channels\<close>

definition close_client :: "nat \<Rightarrow> 'm hub \<Rightarrow> 'm hub" where
  "close_client c h =
     (if cl_closed (hb_chan h c) then h\<lparr>hb_panicked := True\<rparr>
      else h\<lparr>hb_chan := (hb_chan h)(c := (hb_chan h c)\<lparr>cl_closed := True\<rparr>)\<rparr>)"

text \<open>A send that drops the message if the queue is full; the answer is whether it was sent.\<close>

definition try_send :: "nat \<Rightarrow> 'm \<Rightarrow> 'm hub \<Rightarrow> 'm hub \<times> bool" where
  "try_send c msg h =
     (if cl_closed (hb_chan h c) then (h\<lparr>hb_panicked := True\<rparr>, True)
      else if length (cl_queue (hb_chan h c)) < hub_capacity
      then (h\<lparr>hb_chan := (hb_chan h)(c := (hb_chan h c)\<lparr>cl_queue := cl_queue (hb_chan h c) @ [msg]\<rparr>)\<rparr>, True)
      else (h, False))"

section \<open>The loop of the hub\<close>

text \<open>The visit of one client by a broadcast, and the visits in the order of the map.\<close>

definition offer :: "'m \<Rightarrow> nat \<Rightarrow> 'm hub \<Rightarrow> 'm hub" where
  "offer msg c h =
     (if hb_panicked h \<or> c \<notin> hb_clients h then h
      else case try_send c msg h of
        (h1, True) \<Rightarrow> h1
      | (h1, False) \<Rightarrow> (close_client c h1)\<lparr>hb_clients := hb_clients h1 - {c}\<rparr>)"

definition close_visited :: "nat \<Rightarrow> 'm hub \<Rightarrow> 'm hub" where
  "close_visited c h =
     (if hb_panicked h \<or> c \<notin> hb_clients h then h else close_client c (h\<lparr>hb_clients := hb_clients h - {c}\<rparr>))"

datatype hub_turn =
    Finish "nat list"  \<comment> \<open>the order in which the clients are closed\<close>
  | Register nat
  | Unregister nat
  | Deliver "nat list"

definition hub_step :: "hub_turn \<Rightarrow> 'm hub \<Rightarrow> 'm hub" where
  "hub_step t h =
     (if hb_panicked h \<or> \<not> hb_running h then h
      else case t of
        Finish cs \<Rightarrow>
          if \<not> hb_done h then h
          else (fold close_visited cs h)\<lparr>hb_clients := {}, hb_running := False\<rparr>
      | Register c \<Rightarrow> h\<lparr>hb_clients := insert c (hb_clients h)\<rparr>
      | Unregister c \<Rightarrow>
          if c \<in> hb_clients h then close_client c (h\<lparr>hb_clients := hb_clients h - {c}\<rparr>) else h
      | Deliver cs \<Rightarrow> (case hb_broadcast h of
            [] \<Rightarrow> h
          | msg # rest \<Rightarrow> fold (offer msg) cs (h\<lparr>hb_broadcast := rest\<rparr>)))"

section \<open>Senders\<close>

definition close_hub :: "'m hub \<Rightarrow> 'm hub" where
  "close_hub h = h\<lparr>hb_done := True\<rparr>"

text \<open>\<open>tryBroadcast\<close>: dropped after \<open>Close\<close> or when the buffer is full.\<close>

definition try_broadcast :: "'m \<Rightarrow> 'm hub \<Rightarrow> 'm hub" where
  "try_broadcast msg h =
     (if hb_done h then h
      else if length (hb_broadcast h) < hub_capacity then h\<lparr>hb_broadcast := hb_broadcast h @ [msg]\<rparr>
      else h)"

text \<open>The read pump answers a ping on the client's own queue, whether or not the hub has closed it.\<close>

definition answer_ping :: "nat \<Rightarrow> 'm \<Rightarrow> 'm hub \<Rightarrow> 'm hub" where
  "answer_ping c pong h = fst (try_send c pong h)"

text \<open>The write pump takes the next message; \<open>None\<close> if there is none (or the channel is closed and drained).\<close>

definition pump_write :: "nat \<Rightarrow> 'm hub \<Rightarrow> 'm hub \<times> 'm option" where
  "pump_write c h =
     (case cl_queue (hb_chan h c) of
        [] \<Rightarrow> (h, None)
      | msg # rest \<Rightarrow> (h\<lparr>hb_chan := (hb_chan h)(c := (hb_chan h c)\<lparr>cl_queue := rest\<rparr>)\<rparr>, Some msg))"

section \<open>Messages\<close>

text \<open>What the hub sends, before it is encoded; the pumps add the heartbeats and the answers to pings.\<close>

datatype ws_message =
    WSTaskUpdate "task option"
  | WSNodeUpdate "node list"
  | WSClusterEvent cluster_event
  | WSHeartbeat
  | WSPong
  | WSNotification string string

definition broadcast_task_update :: "task option \<Rightarrow> ws_message hub \<Rightarrow> ws_message hub" where
  "broadcast_task_update t = try_broadcast (WSTaskUpdate (map_option get_safe t))"

definition broadcast_notification :: "string \<Rightarrow> string \<Rightarrow> ws_message hub \<Rightarrow> ws_message hub" where
  "broadcast_notification meth gid = try_broadcast (WSNotification meth gid)"

definition broadcast_node_update :: "string list \<Rightarrow> 'h membership option \<Rightarrow> node option \<Rightarrow> ws_message hub \<Rightarrow>
    ws_message hub" where
  "broadcast_node_update ks ms lnode =
     try_broadcast (WSNodeUpdate ((case ms of None \<Rightarrow> [] | Some m \<Rightarrow> members ks m) @
       (case lnode of None \<Rightarrow> [] | Some n \<Rightarrow> [n])))"

definition broadcast_cluster_event :: "cluster_event \<Rightarrow> ws_message hub \<Rightarrow> ws_message hub" where
  "broadcast_cluster_event e = try_broadcast (WSClusterEvent e)"

text \<open>\<open>handleMessage\<close> looks at the type of a client's message only.\<close>

definition handle_message :: "nat \<Rightarrow> string \<Rightarrow> ws_message hub \<Rightarrow> ws_message hub" where
  "handle_message c kind h = (if kind = ''ping'' then answer_ping c WSPong h else h)"

section \<open>Runs\<close>

datatype 'm hub_event =
    Turn hub_turn
  | Broadcast 'm
  | Write nat
  | CloseHub
  | Ping nat 'm

fun hub_exec :: "'m hub_event \<Rightarrow> 'm hub \<Rightarrow> 'm hub" where
  "hub_exec (Turn t) h = hub_step t h"
| "hub_exec (Broadcast m) h = try_broadcast m h"
| "hub_exec (Write c) h = fst (pump_write c h)"
| "hub_exec CloseHub h = close_hub h"
| "hub_exec (Ping c m) h = answer_ping c m h"

end
