(* ===== verification/HubProps.thy ===== *)
theory HubProps
  imports WebSocketHub "HOL-Library.Sublist"
begin

text \<open>
  What the WebSocket hub promises its clients: no panic, bounded queues and messages in the order they were
  broadcast; and the panic that a ping from an evicted client causes.
\<close>

section \<open>Runs\<close>

definition hub_run :: "'m hub_event list \<Rightarrow> 'm hub" where
  "hub_run es = fold hub_exec es new_hub"

text \<open>What a run wrote to the connection of a client, what was broadcast, and who registered.\<close>

fun written :: "nat \<Rightarrow> 'm hub_event list \<Rightarrow> 'm hub \<Rightarrow> 'm list" where
  "written c [] h = []"
| "written c (e # es) h =
     (case e of
        Write d \<Rightarrow> if d = c then (case snd (pump_write c h) of None \<Rightarrow> [] | Some m \<Rightarrow> [m]) else []
      | _ \<Rightarrow> []) @ written c es (hub_exec e h)"

fun broadcasts :: "'m hub_event list \<Rightarrow> 'm list" where
  "broadcasts [] = []"
| "broadcasts (e # es) = (case e of Broadcast m \<Rightarrow> m # broadcasts es | _ \<Rightarrow> broadcasts es)"

fun registrations :: "'m hub_event list \<Rightarrow> nat list" where
  "registrations [] = []"
| "registrations (e # es) = (case e of Turn (Register c) \<Rightarrow> c # registrations es | _ \<Rightarrow> registrations es)"

text \<open>A client is a fresh object for each connection, a broadcast visits it once, and nobody pings.\<close>

definition quiet :: "'m hub_event \<Rightarrow> bool" where
  "quiet e \<longleftrightarrow> (case e of Ping _ _ \<Rightarrow> False | Turn (Deliver cs) \<Rightarrow> distinct cs | _ \<Rightarrow> True)"

section \<open>The invariant\<close>

definition hub_core :: "nat set \<Rightarrow> 'm hub \<Rightarrow> bool" where
  "hub_core R h \<longleftrightarrow> \<not> hb_panicked h \<and> hb_clients h \<subseteq> R \<and>
     (\<forall>c. cl_closed (hb_chan h c) \<longrightarrow> c \<in> R - hb_clients h) \<and>
     (\<forall>c. length (cl_queue (hb_chan h c)) \<le> hub_capacity)"

definition hub_order :: "(nat \<Rightarrow> 'm list) \<Rightarrow> 'm list \<Rightarrow> 'm hub \<Rightarrow> bool" where
  "hub_order W B h \<longleftrightarrow> (\<exists>D. (\<forall>c. subseq (W c @ cl_queue (hb_chan h c)) D) \<and> subseq (D @ hb_broadcast h) B)"

lemma hub_core_mono: "hub_core R h \<Longrightarrow> R \<subseteq> S \<Longrightarrow> hub_core S h"
  by (auto simp: hub_core_def)

lemma close_client_open:
  assumes "hub_core R h" "c \<in> hb_clients h"
  shows "hub_core R (close_client c (h\<lparr>hb_clients := hb_clients h - {c}\<rparr>))"
    "hub_core R ((close_client c h)\<lparr>hb_clients := hb_clients h - {c}\<rparr>)"
  using assms by (auto simp: hub_core_def close_client_def)

lemma close_client_queues [simp]:
  "cl_queue (hb_chan (close_client c h) d) = cl_queue (hb_chan h d)"
  "hb_broadcast (close_client c h) = hb_broadcast h" "hb_clients (close_client c h) = hb_clients h"
  by (simp_all add: close_client_def)

lemma offer_core:
  assumes "hub_core R h"
  shows "hub_core R (offer msg c h)"
proof (cases "c \<in> hb_clients h")
  case True
  then have open_c: "\<not> cl_closed (hb_chan h c)" using assms by (auto simp: hub_core_def)
  show ?thesis
  proof (cases "length (cl_queue (hb_chan h c)) < hub_capacity")
    case True
    with open_c assms show ?thesis by (auto simp: offer_def try_send_def hub_core_def)
  next
    case False
    with open_c True assms close_client_open(2) [OF assms True] show ?thesis by (simp add: offer_def try_send_def)
  qed
qed (use assms in \<open>simp add: offer_def\<close>)

lemma offer_queue:
  "cl_queue (hb_chan (offer msg c h) d) \<in>
     {cl_queue (hb_chan h d)} \<union> (if d = c then {cl_queue (hb_chan h c) @ [msg]} else {})"
  "hb_broadcast (offer msg c h) = hb_broadcast h"
  by (simp_all add: offer_def try_send_def)

lemma deliver_core: "hub_core R h \<Longrightarrow> hub_core R (fold (offer msg) cs h)"
  by (induction cs arbitrary: h) (simp_all add: offer_core)

lemma deliver_queue:
  assumes "distinct cs"
  shows "cl_queue (hb_chan (fold (offer msg) cs h) d) \<in>
     {cl_queue (hb_chan h d)} \<union> (if d \<in> set cs then {cl_queue (hb_chan h d) @ [msg]} else {})"
    "hb_broadcast (fold (offer msg) cs h) = hb_broadcast h"
proof -
  show "cl_queue (hb_chan (fold (offer msg) cs h) d) \<in>
     {cl_queue (hb_chan h d)} \<union> (if d \<in> set cs then {cl_queue (hb_chan h d) @ [msg]} else {})"
    using assms
  proof (induction cs arbitrary: h)
    case (Cons c cs)
    show ?case using Cons.prems Cons.IH [of "offer msg c h"] offer_queue(1) [of msg c h d] by (auto split: if_splits)
  qed simp
  show "hb_broadcast (fold (offer msg) cs h) = hb_broadcast h"
    by (induction cs arbitrary: h) (simp_all add: offer_queue(2))
qed

lemma close_visited_core: "hub_core R h \<Longrightarrow> hub_core R (close_visited c h)"
  using close_client_open(1) by (auto simp: close_visited_def)

lemma close_all:
  "hub_core R h \<Longrightarrow> hub_core R (fold close_visited cs h)"
  "cl_queue (hb_chan (fold close_visited cs h) d) = cl_queue (hb_chan h d)"
  "hb_broadcast (fold close_visited cs h) = hb_broadcast h"
  by (induction cs arbitrary: h) (simp_all add: close_visited_core, simp_all add: close_visited_def)

section \<open>Steps keep the invariant\<close>

lemma hub_exec_core:
  assumes "hub_core R h" "quiet e" "set (registrations [e]) \<inter> R = {}"
  shows "hub_core (R \<union> set (registrations [e])) (hub_exec e h)"
proof (cases e)
  case (Turn t)
  show ?thesis
  proof (cases t)
    case (Finish cs)
    have "hub_core R ((fold close_visited cs h)\<lparr>hb_clients := {}, hb_running := False\<rparr>)"
      using close_all(1) [OF assms(1), of cs] by (auto simp: hub_core_def)
    with Turn Finish assms(1) show ?thesis by (simp add: hub_step_def)
  next
    case (Register c)
    with Turn assms show ?thesis by (auto simp: hub_step_def hub_core_def)
  next
    case (Unregister c)
    with Turn assms(1) close_client_open(1) [OF assms(1), of c] show ?thesis by (simp add: hub_step_def)
  next
    case (Deliver cs)
    have "hub_core R (h\<lparr>hb_broadcast := b\<rparr>)" for b using assms(1) by (simp add: hub_core_def)
    with Turn Deliver assms(1) show ?thesis by (auto simp: hub_step_def intro: deliver_core split: list.split)
  qed
next
  case (Write d)
  have "length (cl_queue (hb_chan h d)) \<le> hub_capacity" using assms(1) by (simp add: hub_core_def)
  with Write assms(1) show ?thesis by (cases "cl_queue (hb_chan h d)") (auto simp: pump_write_def hub_core_def)
qed (use assms in \<open>auto simp: quiet_def try_broadcast_def close_hub_def hub_core_def\<close>)

definition sent_by :: "nat \<Rightarrow> 'm hub_event \<Rightarrow> 'm hub \<Rightarrow> 'm list" where
  "sent_by c e h = written c [e] h"

lemma hub_exec_order:
  assumes "hub_order W B h" "quiet e"
  shows "hub_order (\<lambda>c. W c @ sent_by c e h) (B @ broadcasts [e]) (hub_exec e h)"
proof -
  obtain D where D: "\<And>c. subseq (W c @ cl_queue (hb_chan h c)) D" "subseq (D @ hb_broadcast h) B"
    using assms(1) by (auto simp: hub_order_def)
  have drop: "subseq (D @ hb_broadcast h) (B @ ms)" for ms using D(2) by (metis list_emb_append2 subseq_order.order_trans subseq_order.order_refl append_Nil2 list_emb_append_mono list_emb_Nil)
  show ?thesis
  proof (cases e)
    case (Turn t)
    have none: "sent_by c e h = []" "broadcasts [e] = []" for c using Turn by (simp_all add: sent_by_def)
    show ?thesis
    proof (cases t)
      case (Deliver cs)
      show ?thesis
      proof (cases "hb_broadcast h = [] \<or> hb_panicked h \<or> \<not> hb_running h")
        case True
        with Turn Deliver assms(1) none show ?thesis by (auto simp: hub_step_def)
      next
        case False
        then obtain m rest where m: "hb_broadcast h = m # rest" by (cases "hb_broadcast h") auto
        let ?h = "fold (offer m) cs (h\<lparr>hb_broadcast := rest\<rparr>)"
        have dist: "distinct cs" using assms(2) Turn Deliver by (simp add: quiet_def)
        have q: "subseq (W c @ cl_queue (hb_chan ?h c)) (D @ [m])" for c
        proof -
          have "subseq ((W c @ cl_queue (hb_chan h c)) @ xs) (D @ [m])" if "xs = [] \<or> xs = [m]" for xs
            using that D(1) [of c] by (intro list_emb_append_mono) auto
          from this [of "[]"] this [of "[m]"] deliver_queue(1) [OF dist, of m "h\<lparr>hb_broadcast := rest\<rparr>" c]
          show ?thesis by (auto split: if_splits)
        qed
        have "subseq ((D @ [m]) @ hb_broadcast ?h) B" using D(2) m deliver_queue(2) [OF dist, of m "h\<lparr>hb_broadcast := rest\<rparr>"] by simp
        with q have "hub_order W B ?h" unfolding hub_order_def by blast
        with Turn Deliver False m none show ?thesis by (simp add: hub_step_def)
      qed
    next
      case (Finish cs)
      with Turn none D show ?thesis by (auto simp: hub_step_def hub_order_def close_all(2,3))
    qed (use Turn none D in \<open>auto simp: hub_step_def hub_order_def\<close>)
  next
    case (Broadcast m)
    have "subseq (D @ hb_broadcast (try_broadcast m h)) (B @ [m])"
      using drop [of "[m]"] D(2) by (auto simp: try_broadcast_def simp flip: append_assoc intro: list_emb_append_mono)
    moreover have "hb_chan (try_broadcast m h) = hb_chan h" by (simp add: try_broadcast_def)
    ultimately show ?thesis using Broadcast D(1) by (auto simp: hub_order_def sent_by_def)
  next
    case (Write d)
    have "sent_by c e h @ cl_queue (hb_chan (hub_exec e h) c) = cl_queue (hb_chan h c)" "hb_broadcast (hub_exec e h) = hb_broadcast h" for c
      by (auto simp: Write sent_by_def pump_write_def split: list.split)
    with D Write show ?thesis by (auto simp: hub_order_def)
  next
    case CloseHub
    with assms(1) show ?thesis by (simp add: hub_order_def sent_by_def close_hub_def)
  qed (use assms(2) in \<open>simp add: quiet_def\<close>)
qed

lemma hub_runs:
  assumes "hub_core R h" "hub_order W B h" "list_all quiet es" "distinct (registrations es)"
    "set (registrations es) \<inter> R = {}"
  shows "hub_core (R \<union> set (registrations es)) (fold hub_exec es h) \<and>
    hub_order (\<lambda>c. W c @ written c es h) (B @ broadcasts es) (fold hub_exec es h)"
  using assms
proof (induction es arbitrary: R h W B)
  case (Cons e es)
  have split: "registrations (e # es) = registrations [e] @ registrations es" "broadcasts (e # es) = broadcasts [e] @ broadcasts es"
    "written c (e # es) h = sent_by c e h @ written c es (hub_exec e h)" for c
    by (simp_all add: sent_by_def split: hub_event.split hub_turn.split)
  have "quiet e" "list_all quiet es" "set (registrations [e]) \<inter> R = {}" "distinct (registrations es)"
    "set (registrations es) \<inter> (R \<union> set (registrations [e])) = {}"
    using Cons.prems(3-5) unfolding split by auto
  from Cons.IH [OF hub_exec_core [OF Cons.prems(1) this(1,3)] hub_exec_order [OF Cons.prems(2) this(1)] this(2,4,5)]
  show ?case unfolding split by (simp add: Un_assoc)
qed simp

lemma new_hub_sound: "hub_core {} new_hub" "hub_order (\<lambda>_. []) [] new_hub"
  by (auto simp: hub_core_def hub_order_def new_hub_def intro: exI [of _ "[]"])

text \<open>
  C23: The hub never panics while nobody pings, no client's queue grows past 256 messages, and what a client has
  received or has still queued is a part of what was broadcast, in that order and without repetition:
  slow clients and full buffers only lose messages.
\<close>
theorem hub_delivers_in_order:
  assumes "list_all quiet es" "distinct (registrations es)"
  shows "\<not> hb_panicked (hub_run es) \<and> length (cl_queue (hb_chan (hub_run es) c)) \<le> 256 \<and>
    subseq (written c es new_hub @ cl_queue (hb_chan (hub_run es) c)) (broadcasts es)"
proof -
  have core: "hub_core ({} \<union> set (registrations es)) (hub_run es)"
    and order: "hub_order (\<lambda>c. [] @ written c es new_hub) ([] @ broadcasts es) (hub_run es)"
    using hub_runs [OF new_hub_sound assms(1,2)] by (simp_all add: hub_run_def)
  from order obtain D where "subseq (written c es new_hub @ cl_queue (hb_chan (hub_run es) c)) D"
    "subseq (D @ hb_broadcast (hub_run es)) (broadcasts es)" by (auto simp: hub_order_def)
  then have "subseq (written c es new_hub @ cl_queue (hb_chan (hub_run es) c)) (broadcasts es)"
    by (meson list_emb_append2 subseq_order.order_trans prefix_imp_subseq prefixI)
  with core show ?thesis by (simp add: hub_core_def hub_capacity_def)
qed

theorem hub_delivers_in_order_witness:
  "let es = [Turn (Register 0), Broadcast ''a'', Broadcast ''b'', Turn (Deliver [0]), Turn (Deliver [0]), Write 0] in
    written 0 es new_hub = [''a''] \<and> cl_queue (hb_chan (hub_run es) 0) = [''b''] \<and> \<not> hb_panicked (hub_run es)"
proof -
  let ?es = "[Turn (Register 0), Broadcast ''a'', Broadcast ''b'', Turn (Deliver [0]), Turn (Deliver [0]), Write 0]"
  have "written 0 ?es new_hub = [''a'']" "cl_queue (hb_chan (hub_run ?es) 0) = [''b'']" by code_simp+
  moreover have "list_all quiet ?es" "distinct (registrations ?es)" by (simp_all add: quiet_def)
  from hub_delivers_in_order [OF this] have "\<not> hb_panicked (hub_run ?es)" by simp
  ultimately show ?thesis by (simp add: Let_def)
qed

text \<open>
  A client whose queue is full is evicted by the next broadcast, which closes its channel; the pump that reads
  from it is not told, and the next ping it answers is a send on a closed channel.
\<close>
lemma ping_after_eviction_panics:
  assumes "\<not> hb_panicked h" "hb_running h" "hb_broadcast h = msg # rest" "c \<in> hb_clients h"
    "\<not> cl_closed (hb_chan h c)" "length (cl_queue (hb_chan h c)) = 256"
  shows "hb_panicked (fold hub_exec [Turn (Deliver [c]), Ping c pong] h)"
  using assms
  by (simp add: hub_step_def offer_def try_send_def hub_capacity_def close_client_def answer_ping_def)

end
