(* ===== verification/DiskTree.thy ===== *)
theory DiskTree
  imports GoPath "HOL-Library.Sublist" "HOL-Library.List_Lexorder"
begin

text \<open>
  A tree of directories and files without links, as the code uses it through \<open>os\<close> and \<open>path/filepath\<close>, and
  the matching of file names against patterns. A path is the list of its elements from the root. Every
  call that can fail draws from \<open>ho_fault\<close> whether it does; a failing write has written the bytes given
  there. Nothing here models code of the repository.
\<close>

section \<open>The tree\<close>

datatype entry = Dir | Data string

record disk =
  dk_tree :: "(string list \<times> entry) list"
  dk_clock :: nat

record host =
  ho_cwd :: string
  ho_fault :: "nat \<Rightarrow> nat option"
  ho_same_device :: "string list \<Rightarrow> string list \<Rightarrow> bool"

definition lookup :: "disk \<Rightarrow> string list \<Rightarrow> entry option" where
  "lookup d p = (if p = [] then Some Dir else map_of (dk_tree d) p)"

definition put_entry :: "string list \<Rightarrow> entry \<Rightarrow> disk \<Rightarrow> disk" where
  "put_entry p e d = d\<lparr>dk_tree := (p, e) # filter (\<lambda>x. fst x \<noteq> p) (dk_tree d)\<rparr>"

definition drop_entry :: "string list \<Rightarrow> disk \<Rightarrow> disk" where
  "drop_entry p d = d\<lparr>dk_tree := filter (\<lambda>x. fst x \<noteq> p) (dk_tree d)\<rparr>"

definition tick :: "disk \<Rightarrow> disk" where
  "tick d = d\<lparr>dk_clock := dk_clock d + 1\<rparr>"

definition is_dir :: "disk \<Rightarrow> string list \<Rightarrow> bool" where
  "is_dir d p = (lookup d p = Some Dir)"

definition empty_dir :: "disk \<Rightarrow> string list \<Rightarrow> bool" where
  "empty_dir d p = list_all (\<lambda>x. \<not> strict_prefix p (fst x)) (dk_tree d)"

text \<open>The elements of a path as the calls resolve it; the empty path names nothing.\<close>

definition abs_elems :: "host \<Rightarrow> string \<Rightarrow> string list" where
  "abs_elems h p = clean_elems (path_abs (ho_cwd h) p)"

definition os_path :: "host \<Rightarrow> string \<Rightarrow> string list option" where
  "os_path h p = (if p = [] then None else Some (abs_elems h p))"

section \<open>Calls\<close>

text \<open>The second component is whether the call returned without an error.\<close>

definition os_exists :: "host \<Rightarrow> string \<Rightarrow> disk \<Rightarrow> bool" where
  "os_exists h p d = (case os_path h p of None \<Rightarrow> False | Some q \<Rightarrow> lookup d q \<noteq> None)"

definition os_read :: "host \<Rightarrow> string \<Rightarrow> disk \<Rightarrow> string option" where
  "os_read h p d =
     (case os_path h p of
        None \<Rightarrow> None
      | Some q \<Rightarrow> (case lookup d q of Some (Data s) \<Rightarrow> Some s | _ \<Rightarrow> None))"

text \<open>\<open>os.MkdirAll\<close>: the elements already passed are in \<open>got\<close>.\<close>

fun mkdirs :: "host \<Rightarrow> string list \<Rightarrow> string list \<Rightarrow> disk \<Rightarrow> disk \<times> bool" where
  "mkdirs h got [] d = (d, True)"
| "mkdirs h got (c # cs) d =
     (case lookup d (got @ [c]) of
        Some Dir \<Rightarrow> mkdirs h (got @ [c]) cs d
      | Some (Data _) \<Rightarrow> (d, False)
      | None \<Rightarrow>
          if ho_fault h (dk_clock d) \<noteq> None then (tick d, False)
          else mkdirs h (got @ [c]) cs (put_entry (got @ [c]) Dir (tick d)))"

definition os_mkdir_all :: "host \<Rightarrow> string \<Rightarrow> disk \<Rightarrow> disk \<times> bool" where
  "os_mkdir_all h p d = (case os_path h p of None \<Rightarrow> (d, False) | Some q \<Rightarrow> mkdirs h [] q d)"

text \<open>\<open>os.OpenFile\<close> with \<open>O_CREATE\<close> and \<open>O_TRUNC\<close>: the file is there and empty.\<close>

definition os_create :: "host \<Rightarrow> string \<Rightarrow> disk \<Rightarrow> disk \<times> bool" where
  "os_create h p d =
     (case os_path h p of
        None \<Rightarrow> (d, False)
      | Some q \<Rightarrow>
          if q = [] \<or> is_dir d q \<or> \<not> is_dir d (butlast q) \<or> ho_fault h (dk_clock d) \<noteq> None then (tick d, False)
          else (put_entry q (Data []) (tick d), True))"

text \<open>All of \<open>io.Copy\<close> into the file just opened: \<open>s\<close> is what the reader delivers.\<close>

definition os_fill :: "host \<Rightarrow> string \<Rightarrow> string \<Rightarrow> disk \<Rightarrow> disk \<times> bool" where
  "os_fill h p s d =
     (case os_path h p of
        None \<Rightarrow> (d, False)
      | Some q \<Rightarrow> (case ho_fault h (dk_clock d) of
            Some k \<Rightarrow> (put_entry q (Data (take k s)) (tick d), False)
          | None \<Rightarrow> (put_entry q (Data s) (tick d), True)))"

text \<open>\<open>os.Remove\<close>: a file or an empty directory.\<close>

definition os_remove :: "host \<Rightarrow> string \<Rightarrow> disk \<Rightarrow> disk \<times> bool" where
  "os_remove h p d =
     (case os_path h p of
        None \<Rightarrow> (d, False)
      | Some q \<Rightarrow>
          if q = [] \<or> lookup d q = None \<or> (is_dir d q \<and> \<not> empty_dir d q) \<or> ho_fault h (dk_clock d) \<noteq> None
          then (tick d, False)
          else (drop_entry q (tick d), True))"

text \<open>\<open>os.Rename\<close>: a file replaces a file, a directory an empty directory outside of itself.\<close>

definition moved_path :: "string list \<Rightarrow> string list \<Rightarrow> string list \<Rightarrow> string list" where
  "moved_path a b q = (if prefix a q then b @ drop (length a) q else q)"

definition rename_ok :: "disk \<Rightarrow> string list \<Rightarrow> string list \<Rightarrow> bool" where
  "rename_ok d a b \<longleftrightarrow> a \<noteq> [] \<and> b \<noteq> [] \<and> is_dir d (butlast b) \<and>
     (case lookup d a of
        None \<Rightarrow> False
      | Some (Data _) \<Rightarrow> \<not> is_dir d b
      | Some Dir \<Rightarrow> \<not> strict_prefix a b \<and> (lookup d b = None \<or> (is_dir d b \<and> (empty_dir d b \<or> a = b))))"

definition os_rename :: "host \<Rightarrow> string \<Rightarrow> string \<Rightarrow> disk \<Rightarrow> disk \<times> bool" where
  "os_rename h from to d =
     (case (os_path h from, os_path h to) of
        (Some a, Some b) \<Rightarrow>
          if \<not> rename_ok d a b \<or> \<not> ho_same_device h a b \<or> ho_fault h (dk_clock d) \<noteq> None then (tick d, False)
          else if a = b then (tick d, True)
          else (d\<lparr>dk_tree := map (\<lambda>x. (moved_path a b (fst x), snd x)) (filter (\<lambda>x. fst x \<noteq> b) (dk_tree d)),
                   dk_clock := dk_clock d + 1\<rparr>, True)
      | _ \<Rightarrow> (d, False))"

section \<open>Relative paths\<close>

definition path_rel :: "string list \<Rightarrow> string list \<Rightarrow> string" where
  "path_rel base targ =
     (if base = targ then ''.''
      else let k = length (longest_common_prefix base targ)
        in join_with CHR ''/'' (replicate (length base - k) ''..'' @ drop k targ))"

section \<open>Patterns\<close>

datatype pattern_item = Star | AnyChar | Lit char | Class bool "(nat \<times> nat) list"

text \<open>One character of a class, an escaped one after a backslash.\<close>

definition class_char :: "string \<Rightarrow> (char \<times> string) option" where
  "class_char s =
     (case s of
        [] \<Rightarrow> None
      | c # cs \<Rightarrow>
          if c = CHR ''-'' \<or> c = CHR '']'' then None
          else if c = CHR 0x5C then (case cs of x # y # r \<Rightarrow> Some (x, y # r) | _ \<Rightarrow> None)
          else if cs = [] then None else Some (c, cs))"

text \<open>The ranges up to the closing bracket; \<open>n\<close> bounds their number.\<close>

fun class_ranges :: "nat \<Rightarrow> (nat \<times> nat) list \<Rightarrow> string \<Rightarrow> ((nat \<times> nat) list \<times> string) option" where
  "class_ranges 0 rs s = None"
| "class_ranges (Suc n) rs s =
     (if rs \<noteq> [] \<and> s \<noteq> [] \<and> hd s = CHR '']'' then Some (rs, tl s)
      else case class_char s of
        None \<Rightarrow> None
      | Some (lo, r) \<Rightarrow>
          if hd r = CHR ''-'' then
            (case class_char (tl r) of
               None \<Rightarrow> None
             | Some (hi, r2) \<Rightarrow> class_ranges n (rs @ [(of_char lo, of_char hi)]) r2)
          else class_ranges n (rs @ [(of_char lo, of_char lo)]) r)"

fun parse_pattern :: "nat \<Rightarrow> string \<Rightarrow> pattern_item list option" where
  "parse_pattern 0 s = (if s = [] then Some [] else None)"
| "parse_pattern (Suc n) s =
     (case s of
        [] \<Rightarrow> Some []
      | c # cs \<Rightarrow>
          if c = CHR ''*'' then map_option ((#) Star) (parse_pattern n cs)
          else if c = CHR ''?'' then map_option ((#) AnyChar) (parse_pattern n cs)
          else if c = CHR ''['' then
            (let neg = (cs \<noteq> [] \<and> hd cs = CHR ''^''); body = (if neg then tl cs else cs) in
             case class_ranges (length body + 1) [] body of
               None \<Rightarrow> None
             | Some (rs, r) \<Rightarrow> map_option ((#) (Class neg rs)) (parse_pattern n r))
          else if c = CHR 0x5C then
            (case cs of [] \<Rightarrow> None | x # r \<Rightarrow> map_option ((#) (Lit x)) (parse_pattern n r))
          else map_option ((#) (Lit c)) (parse_pattern n cs))"

fun match_items :: "pattern_item list \<Rightarrow> string \<Rightarrow> bool" where
  "match_items [] s = (s = [])"
| "match_items (Star # is) s =
     (match_items is s \<or> (case s of [] \<Rightarrow> False | c # cs \<Rightarrow> c \<noteq> CHR ''/'' \<and> match_items (Star # is) cs))"
| "match_items (AnyChar # is) s = (case s of [] \<Rightarrow> False | c # cs \<Rightarrow> c \<noteq> CHR ''/'' \<and> match_items is cs)"
| "match_items (Lit x # is) s = (case s of [] \<Rightarrow> False | c # cs \<Rightarrow> c = x \<and> match_items is cs)"
| "match_items (Class neg rs # is) s =
     (case s of
        [] \<Rightarrow> False
      | c # cs \<Rightarrow> list_ex (\<lambda>(lo, hi). lo \<le> of_char c \<and> of_char c \<le> hi) rs \<noteq> neg \<and> match_items is cs)"

text \<open>\<open>filepath.Match\<close>; \<open>None\<close> is \<open>ErrBadPattern\<close>.\<close>

definition path_match :: "string \<Rightarrow> string \<Rightarrow> bool option" where
  "path_match pat name = map_option (\<lambda>is. match_items is name) (parse_pattern (length pat) pat)"

definition has_meta :: "string \<Rightarrow> bool" where
  "has_meta s = list_ex (\<lambda>c. c \<in> {CHR ''*'', CHR ''?'', CHR ''['', CHR 0x5C}) s"

definition split_file :: "string \<Rightarrow> string \<times> string" where
  "split_file s = (rev (dropWhile (\<lambda>c. c \<noteq> CHR ''/'') (rev s)), rev (takeWhile (\<lambda>c. c \<noteq> CHR ''/'') (rev s)))"

definition clean_glob_dir :: "string \<Rightarrow> string" where
  "clean_glob_dir s = (if s = [] then ''.'' else if s = ''/'' then s else butlast s)"

text \<open>The names in a directory, sorted by \<open>srt\<close>, and those that match.\<close>

definition dir_names :: "host \<Rightarrow> string \<Rightarrow> disk \<Rightarrow> string list" where
  "dir_names h p d =
     (case os_path h p of
        None \<Rightarrow> []
      | Some q \<Rightarrow>
          if is_dir d q
          then sort_key (map (of_char :: char \<Rightarrow> nat))
            (map (last \<circ> fst) (filter (\<lambda>x. fst x \<noteq> [] \<and> butlast (fst x) = q) (dk_tree d)))
          else [])"

definition glob_dir :: "host \<Rightarrow> disk \<Rightarrow> string \<Rightarrow> string \<Rightarrow> string list" where
  "glob_dir h d dir pat =
     map (path_join dir) (filter (\<lambda>n. path_match pat n = Some True) (dir_names h dir d))"

text \<open>\<open>filepath.Glob\<close>, with the depth of the pattern as fuel; a bad pattern matches nothing.\<close>

fun glob_loop :: "nat \<Rightarrow> host \<Rightarrow> disk \<Rightarrow> string \<Rightarrow> string list" where
  "glob_loop 0 h d pat = []"
| "glob_loop (Suc n) h d pat =
     (if path_match pat [] = None then []
      else if \<not> has_meta pat then (if os_exists h pat d then [pat] else [])
      else
        let dir = clean_glob_dir (fst (split_file pat)); file = snd (split_file pat) in
        if \<not> has_meta dir then glob_dir h d dir file
        else if dir = pat then []
        else concat (map (\<lambda>m. glob_dir h d m file) (glob_loop n h d dir)))"

definition path_glob :: "host \<Rightarrow> disk \<Rightarrow> string \<Rightarrow> string list" where
  "path_glob h d pat = glob_loop (length pat + 1) h d pat"

section \<open>Facts\<close>

lemma map_of_drop: "map_of (filter (\<lambda>x. fst x \<noteq> p) xs) q = (if q = p then None else map_of xs q)"
  by (induction xs) auto

lemma lookup_put [simp]: "lookup (put_entry p e d) q = (if q = p \<and> p \<noteq> [] then Some e else lookup d q)"
  by (auto simp: lookup_def put_entry_def map_of_drop)

lemma lookup_drop [simp]: "lookup (drop_entry p d) q = (if q = p \<and> p \<noteq> [] then None else lookup d q)"
  by (auto simp: lookup_def drop_entry_def map_of_drop)

lemma lookup_tick [simp]: "lookup (tick d) q = lookup d q" "dk_clock (tick d) = dk_clock d + 1"
  by (simp_all add: lookup_def tick_def)

lemma clock_entries [simp]: "dk_clock (put_entry p e d) = dk_clock d" "dk_clock (drop_entry p d) = dk_clock d"
  by (simp_all add: put_entry_def drop_entry_def)

lemma moved_to:
  assumes "q \<noteq> b"
  shows "moved_path a b q = b \<longleftrightarrow> q = a" "b = moved_path a b q \<longleftrightarrow> q = a"
  using assms by (auto simp: moved_path_def prefix_def)

lemma rename_target:
  assumes "os_rename h from to d = (d', ok)" "os_path h from = Some a" "os_path h to = Some b" ok
  shows "lookup d' b = lookup d a"
proof (cases "a = b")
  case True
  with assms show ?thesis by (auto simp: os_rename_def split: if_splits)
next
  case False
  have "map_of (map (\<lambda>x. (moved_path a b (fst x), snd x)) (filter (\<lambda>x. fst x \<noteq> b) xs)) b = map_of xs a" for xs :: "(string list \<times> entry) list"
    using False by (induction xs) (auto simp: moved_to)
  moreover have "rename_ok d a b" "dk_tree d' = map (\<lambda>x. (moved_path a b (fst x), snd x)) (filter (\<lambda>x. fst x \<noteq> b) (dk_tree d))"
    using assms False by (auto simp: os_rename_def split: if_splits)
  ultimately show ?thesis by (simp add: lookup_def rename_ok_def)
qed

lemma rename_others:
  assumes "os_rename h from to d = (d', ok)" "os_path h from = Some a" "os_path h to = Some b"
    "\<not> prefix a q" "\<not> prefix b q"
  shows "lookup d' q = lookup d q"
proof -
  have "map_of (map (\<lambda>x. (moved_path a b (fst x), snd x)) (filter (\<lambda>x. fst x \<noteq> b) xs)) q = map_of xs q" for xs :: "(string list \<times> entry) list"
    using assms(4,5) by (induction xs) (auto simp: moved_path_def)
  with assms(1-3) show ?thesis by (auto simp: os_rename_def lookup_def tick_def split: if_splits)
qed

lemma rename_fails: "os_rename h from to d = (d', False) \<Longrightarrow> lookup d' q = lookup d q"
  by (auto simp: os_rename_def split: if_splits option.splits)

lemma remove_others: "lookup (fst (os_remove h p d)) q = lookup d q" if "os_path h p \<noteq> Some q"
  using that by (auto simp: os_remove_def split: option.splits)

section \<open>Resolving paths\<close>

lemma resolve_dots_pop: "t \<noteq> ''..'' \<Longrightarrow> resolve_dots r st (as @ t # ''..'' # cs) = resolve_dots r st (as @ cs)"
  by (simp add: resolve_dots_append [of r st as])

lemma resolve_dots_again: "resolve_dots True st (resolve_dots False acc cs) = resolve_dots True st (rev acc @ cs)"
proof (induction cs arbitrary: acc)
  case (Cons c cs)
  show ?case
  proof (cases "c = ''..'' \<and> acc \<noteq> [] \<and> hd acc \<noteq> ''..''")
    case True
    then obtain t ts where t: "acc = t # ts" "t \<noteq> ''..''" "c = ''..''" by (cases acc) auto
    then show ?thesis using Cons.IH [of ts] resolve_dots_pop [of t True st "rev ts" cs] by simp
  next
    case False
    then show ?thesis using Cons.IH [of "c # acc"] by (cases acc) auto
  qed
qed simp

lemma resolve_dots_rooted: "''..'' \<notin> set st \<Longrightarrow> ''..'' \<notin> set (resolve_dots True st cs)"
  by (induction True st cs rule: resolve_dots.induct) (auto split: list.splits)

lemma resolve_dots_plain: "''..'' \<notin> set cs \<Longrightarrow> resolve_dots r st cs = rev st @ cs"
  by (induction r st cs rule: resolve_dots.induct) auto

lemma components_clean: "path_components (path_clean s) = clean_elems s"
  by (auto simp: path_components_def path_clean_parts filter_id_conv dest: clean_elems_plain)

lemma clean_elems_again: "path_is_abs s \<Longrightarrow> clean_elems (path_clean s) = clean_elems s"
  using resolve_dots_plain [OF resolve_dots_rooted [of "[]" "path_components s"], of True "[]"]
  by (simp add: clean_elems_def [of "path_clean s"] clean_abs components_clean) (simp add: clean_elems_def)

lemma abs_elems_eq:
  assumes "path_is_abs (ho_cwd h)"
  shows "abs_elems h p = resolve_dots True [] ((if path_is_abs p then [] else path_components (ho_cwd h)) @ path_components p)"
proof (cases "path_is_abs p")
  case True
  then show ?thesis by (simp add: abs_elems_def path_abs_def clean_elems_again) (simp add: clean_elems_def)
next
  case False
  have c: "ho_cwd h \<noteq> []" using assms by (auto simp: path_is_abs_def)
  have a: "path_is_abs (ho_cwd h @ CHR ''/'' # p)" using assms c by (cases "ho_cwd h") (simp_all add: path_is_abs_def)
  show ?thesis
  proof (cases "p = []")
    case True
    with False assms c show ?thesis
      by (simp add: abs_elems_def path_abs_def path_join_def clean_elems_again) (simp add: clean_elems_def path_components_def)
  next
    case False
    with \<open>\<not> path_is_abs p\<close> a c show ?thesis
      by (simp add: abs_elems_def path_abs_def path_join_def clean_elems_again) (simp add: clean_elems_def path_components_join)
  qed
qed

lemma abs_elems_clean:
  assumes "path_is_abs (ho_cwd h)"
  shows "abs_elems h (path_clean p) = abs_elems h p"
proof (cases "path_is_abs p")
  case True
  then show ?thesis by (simp add: abs_elems_def path_abs_def clean_abs clean_elems_again)
next
  case False
  then show ?thesis
    using resolve_dots_again [of "rev (resolve_dots True [] (path_components (ho_cwd h)))" "[]" "path_components p"]
    by (simp add: abs_elems_eq [OF assms] clean_abs components_clean resolve_dots_append) (simp add: clean_elems_def)
qed

lemma abs_elems_slash:
  assumes "path_is_abs (ho_cwd h)" "b \<noteq> []" "n \<noteq> []"
  shows "abs_elems h (path_join b n) =
    resolve_dots True [] (((if path_is_abs b then [] else path_components (ho_cwd h)) @ path_components b) @ path_components n)"
proof -
  have a: "path_is_abs (b @ ''/'' @ n) = path_is_abs b" using assms(2) by (cases b) (simp_all add: path_is_abs_def)
  have "abs_elems h (path_join b n) = abs_elems h (b @ ''/'' @ n)"
    using abs_elems_clean [OF assms(1), of "b @ ''/'' @ n"] assms(2,3) by (simp add: path_join_def)
  then show ?thesis unfolding abs_elems_eq [OF assms(1)] a by (simp add: path_components_join)
qed

lemma abs_elems_dot:
  assumes "path_is_abs (ho_cwd h)" "b \<noteq> []"
  shows "abs_elems h (path_join b ''.'') = abs_elems h b"
  unfolding abs_elems_slash [OF assms, of "''.''", simplified] abs_elems_eq [OF assms(1), of b]
  by (simp add: path_components_def)

lemma abs_elems_join:
  assumes "path_is_abs (ho_cwd h)" "b \<noteq> []" "n \<noteq> []" "n \<noteq> ''.''" "n \<noteq> ''..''" "CHR ''/'' \<notin> set n"
  shows "abs_elems h (path_join b n) = abs_elems h b @ [n]"
proof -
  have "path_components n = [n]" using assms(3,4) split_on_single [OF assms(6)] by (simp add: path_components_def)
  then show ?thesis
    unfolding abs_elems_slash [OF assms(1-3)] resolve_dots_append abs_elems_eq [OF assms(1), of b] using assms(5) by simp
qed

end
