(* ===== verification/PostProcess.thy ===== *)
theory PostProcess
  imports DiskTree AppConfig
begin

text \<open>
  What is done with a finished file, \<open>internal/postprocess.go\<close>: archives are extracted, the file is moved,
  and files are cleaned up. The archive formats are arguments: what the readers deliver for given bytes.
\<close>

section \<open>Paths in archives\<close>

definition apply_strip :: "string \<Rightarrow> int \<Rightarrow> string" where
  "apply_strip name n =
     (if n \<le> 0 then name
      else let parts = split_on CHR ''/'' name in
        if int (length parts) \<le> n then []
        else let result = join_with CHR ''/'' (drop (nat n) parts) in
          if result = ''.'' then [] else result)"

definition is_safe_extract :: "host \<Rightarrow> string \<Rightarrow> string \<Rightarrow> bool" where
  "is_safe_extract h path destDir =
     (let rel = path_rel (abs_elems h destDir) (abs_elems h path)
      in rel \<noteq> ''.'' \<and> \<not> has_prefix rel ''..'' \<and> \<not> has_prefix rel ''../'')"

section \<open>Extraction\<close>

text \<open>
  \<open>ze_open\<close> is what opening an entry with a password yields: nothing, or the bytes that come out and
  whether they come to an end without an error.
\<close>

record zip_entry =
  ze_name :: string
  ze_dir :: bool
  ze_encrypted :: bool
  ze_open :: "string \<Rightarrow> (string \<times> bool) option"

datatype tar_kind = TarDir | TarReg | TarSymlink | TarOther

record tar_entry =
  te_name :: string
  te_kind :: tar_kind
  te_data :: string
  te_ok :: bool

text \<open>A tar reader delivers entries and then ends or fails; \<open>None\<close> if the decompressor cannot start.\<close>

record archives =
  ar_zip :: "string \<Rightarrow> zip_entry list option"
  ar_tar :: "string \<Rightarrow> string \<Rightarrow> (tar_entry list \<times> bool) option"

datatype extract_error = ErrUnsupported string | ErrOpen | ErrReader | ErrDest | ErrTarRead

type_synonym extraction = "disk \<times> extract_error option"

text \<open>
  The part both formats share: an existing file, the parent directories, the new file, the copy. The
  archive is read as it was at the start, so an entry that overwrites the archive itself is not followed.
\<close>

definition copy_entry :: "host \<Rightarrow> string \<Rightarrow> string \<Rightarrow> disk \<Rightarrow> disk" where
  "copy_entry h path s d =
     (case os_create h path d of
        (d1, False) \<Rightarrow> d1
      | (d1, True) \<Rightarrow> fst (os_fill h path s d1))"

definition place_file :: "host \<Rightarrow> bool \<Rightarrow> string \<Rightarrow> string option \<Rightarrow> disk \<Rightarrow> disk" where
  "place_file h overwrite path content d =
     (if \<not> overwrite \<and> os_exists h path d then d
      else case os_mkdir_all h (path_dir path) d of
        (d1, False) \<Rightarrow> d1
      | (d1, True) \<Rightarrow> (case content of None \<Rightarrow> d1 | Some s \<Rightarrow> copy_entry h path s d1))"

text \<open>What opening a zip entry gives to copy; an encrypted one is skipped without a password.\<close>

definition zip_content :: "extract_config \<Rightarrow> zip_entry \<Rightarrow> string option" where
  "zip_content c f =
     (if ze_encrypted f \<and> ex_password c = [] then None
      else map_option fst (ze_open f (if ze_encrypted f then ex_password c else [])))"

definition zip_step :: "host \<Rightarrow> extract_config \<Rightarrow> string \<Rightarrow> zip_entry \<Rightarrow> disk \<Rightarrow> disk" where
  "zip_step h c destDir f d =
     (let name = apply_strip (ze_name f) (ex_strip c); path = path_join destDir name in
      if name = [] \<or> \<not> is_safe_extract h path destDir then d
      else if ze_dir f then fst (os_mkdir_all h path d)
      else place_file h (ex_overwrite c) path (zip_content c f) d)"

definition tar_step :: "host \<Rightarrow> extract_config \<Rightarrow> string \<Rightarrow> tar_entry \<Rightarrow> disk \<Rightarrow> disk" where
  "tar_step h c destDir e d =
     (let name = apply_strip (te_name e) (ex_strip c); path = path_join destDir name in
      if name = [] \<or> \<not> is_safe_extract h path destDir then d
      else case te_kind e of
        TarDir \<Rightarrow> fst (os_mkdir_all h path d)
      | TarReg \<Rightarrow> place_file h (ex_overwrite c) path (Some (te_data e)) d
      | _ \<Rightarrow> d)"

definition extract_zip :: "host \<Rightarrow> archives \<Rightarrow> extract_config \<Rightarrow> string \<Rightarrow> string \<Rightarrow> disk \<Rightarrow> extraction" where
  "extract_zip h ar c archive destDir d =
     (case Option.bind (os_read h archive d) (ar_zip ar) of
        None \<Rightarrow> (d, Some ErrOpen)
      | Some fs \<Rightarrow> (case os_mkdir_all h destDir d of
          (d1, False) \<Rightarrow> (d1, Some ErrDest)
        | (d1, True) \<Rightarrow> (fold (zip_step h c destDir) fs d1, None)))"

definition extract_tar :: "host \<Rightarrow> archives \<Rightarrow> extract_config \<Rightarrow> string \<Rightarrow> string \<Rightarrow> string \<Rightarrow> disk \<Rightarrow> extraction" where
  "extract_tar h ar c compression archive destDir d =
     (case os_read h archive d of
        None \<Rightarrow> (d, Some ErrOpen)
      | Some bytes \<Rightarrow> (case ar_tar ar compression bytes of
          None \<Rightarrow> (d, Some ErrReader)
        | Some (es, ends) \<Rightarrow> (case os_mkdir_all h destDir d of
            (d1, False) \<Rightarrow> (d1, Some ErrDest)
          | (d1, True) \<Rightarrow> (fold (tar_step h c destDir) es d1, if ends then None else Some ErrTarRead))))"

definition extract_archive :: "host \<Rightarrow> archives \<Rightarrow> extract_config \<Rightarrow> string \<Rightarrow> string \<Rightarrow> disk \<Rightarrow> extraction" where
  "extract_archive h ar c archive destDir d =
     (let low = to_lower archive; ends = has_suffix low in
      if ends ''.zip'' then extract_zip h ar c archive destDir d
      else if ends ''.tar.gz'' \<or> ends ''.tgz'' then extract_tar h ar c ''gz'' archive destDir d
      else if ends ''.tar.bz2'' \<or> ends ''.tbz2'' then extract_tar h ar c ''bz2'' archive destDir d
      else if ends ''.gz'' then extract_tar h ar c ''gz'' archive destDir d
      else if ends ''.bz2'' then extract_tar h ar c ''bz2'' archive destDir d
      else if ends ''.tar'' then extract_tar h ar c [] archive destDir d
      else (d, Some (ErrUnsupported (path_ext archive))))"

section \<open>Moving and cleaning\<close>

definition copy_file :: "host \<Rightarrow> string \<Rightarrow> string \<Rightarrow> disk \<Rightarrow> disk \<times> bool" where
  "copy_file h src dst d =
     (case os_read h src d of
        None \<Rightarrow> (d, False)
      | Some s \<Rightarrow> (case os_mkdir_all h (path_dir dst) d of
          (d1, False) \<Rightarrow> (d1, False)
        | (d1, True) \<Rightarrow> (case os_create h (dst @ ''.tmp'') d1 of
            (d2, False) \<Rightarrow> (d2, False)
          | (d2, True) \<Rightarrow> (case os_fill h (dst @ ''.tmp'') s d2 of
              (d3, False) \<Rightarrow> (fst (os_remove h (dst @ ''.tmp'') d3), False)
            | (d3, True) \<Rightarrow> os_rename h (dst @ ''.tmp'') dst d3))))"

definition move_target :: "move_config \<Rightarrow> string \<Rightarrow> string" where
  "move_target c file = path_join (mv_destination c) (path_base file)"

definition move_file :: "host \<Rightarrow> move_config \<Rightarrow> string \<Rightarrow> disk \<Rightarrow> disk" where
  "move_file h c file d =
     (if \<not> mv_enabled c then d
      else
        let dest = move_target c file;
            d1 = (if mv_overwrite c then fst (os_remove h dest d) else d) in
        case os_rename h file dest d1 of
          (d2, True) \<Rightarrow> d2
        | (d2, False) \<Rightarrow> (case copy_file h file dest d2 of
            (d3, False) \<Rightarrow> d3
          | (d3, True) \<Rightarrow> if mv_delete c then fst (os_remove h file d3) else d3))"

definition temp_patterns :: "string list" where
  "temp_patterns = [''*.tmp'', ''*.part'', ''*.ctl'', ''*.aria2'']"

definition remove_matches :: "host \<Rightarrow> string \<Rightarrow> string \<Rightarrow> disk \<Rightarrow> disk" where
  "remove_matches h dir pat d = fold (\<lambda>m d. fst (os_remove h m d)) (path_glob h d (path_join dir pat)) d"

definition cleanup_files :: "host \<Rightarrow> cleanup_config \<Rightarrow> string \<Rightarrow> disk \<Rightarrow> disk" where
  "cleanup_files h c file d =
     (if \<not> cl_enabled c then d
      else
        let dir = path_dir file;
            d1 = fold (remove_matches h dir) (cl_patterns c) d;
            d2 = (if cl_delete_temp c then fold (remove_matches h dir) temp_patterns d1 else d1)
        in if cl_delete_source c then fst (os_remove h file d2) else d2)"

section \<open>Processing\<close>

definition extract_step :: "host \<Rightarrow> archives \<Rightarrow> extract_config \<Rightarrow> string \<Rightarrow> disk \<Rightarrow> disk" where
  "extract_step h ar c file d =
     (let destDir = (if ex_output_dir c = [] then path_dir file else ex_output_dir c);
          d1 = fst (extract_archive h ar c file destDir d)
      in if ex_delete c then fst (os_remove h file d1) else d1)"

definition process :: "host \<Rightarrow> archives \<Rightarrow> post_process_config \<Rightarrow> string \<Rightarrow> disk \<Rightarrow> disk" where
  "process h ar c file d =
     cleanup_files h (pp_cleanup c) file (move_file h (pp_move c) file
       (if ex_enabled (pp_extract c) then extract_step h ar (pp_extract c) file d else d))"

definition process_with_extract :: "host \<Rightarrow> archives \<Rightarrow> post_process_config \<Rightarrow> string \<Rightarrow> disk \<Rightarrow> disk" where
  "process_with_extract h ar c file d =
     cleanup_files h (pp_cleanup c) file (move_file h (pp_move c) file (extract_step h ar (pp_extract c) file d))"

section \<open>The processor\<close>

text \<open>Named processors of any type can be registered; nothing calls them.\<close>

record 'f post_processor =
  po_config :: post_process_config
  po_registry :: "string \<rightharpoonup> 'f"

definition new_post_processor :: "post_process_config option \<Rightarrow> 'f post_processor" where
  "new_post_processor cfg =
     \<lparr>po_config = (case cfg of None \<Rightarrow> default_post_process_config | Some c \<Rightarrow> c), po_registry = Map.empty\<rparr>"

definition register_processor :: "string \<Rightarrow> 'f \<Rightarrow> 'f post_processor \<Rightarrow> 'f post_processor" where
  "register_processor name f p = p\<lparr>po_registry := (po_registry p)(name \<mapsto> f)\<rparr>"

definition get_processor :: "string \<Rightarrow> 'f post_processor \<Rightarrow> 'f option" where
  "get_processor name p = po_registry p name"

definition set_post_config :: "post_process_config \<Rightarrow> 'f post_processor \<Rightarrow> 'f post_processor" where
  "set_post_config c p = p\<lparr>po_config := c\<rparr>"

definition get_post_config :: "'f post_processor \<Rightarrow> post_process_config" where
  "get_post_config p = po_config p"

end
