(* ===== verification/PostProcessProps.thy ===== *)
theory PostProcessProps
  imports PostProcess Manager
begin

text \<open>
  What post-processing does to the disk: extraction stays inside its directory and overwrites nothing unless
  told to, moving never loses the file, and the settings that do lose it.
\<close>

section \<open>Resolving paths\<close>

text \<open>The directory of a path that lies strictly below \<open>D\<close> is \<open>D\<close> or lies below it.\<close>

lemma path_dir_below:
  assumes "path_is_abs (ho_cwd h)" "strict_prefix D (abs_elems h p)"
  shows "prefix D (abs_elems h (path_dir p))"
proof -
  define u where "u = rev (dropWhile (\<lambda>c. c \<noteq> CHR ''/'') (rev p))"
  define f where "f = rev (takeWhile (\<lambda>c. c \<noteq> CHR ''/'') (rev p))"
  have p: "p = u @ f" unfolding u_def f_def by (metis rev_append rev_rev_ident takeWhile_dropWhile_id)
  have f: "CHR ''/'' \<notin> set f" unfolding f_def using set_takeWhileD by fastforce
  have single: "path_components f = (if f = [] \<or> f = ''.'' then [] else [f])"
    using split_on_single [OF f] by (simp add: path_components_def)
  have "u = [] \<or> (\<exists>v. u = v @ ''/'')"
  proof (cases "dropWhile (\<lambda>c. c \<noteq> CHR ''/'') (rev p)")
    case (Cons c cs)
    then have "c = CHR ''/''" using hd_dropWhile [of "\<lambda>c. c \<noteq> CHR ''/''" "rev p"] by auto
    with Cons show ?thesis by (auto simp: u_def)
  qed (simp add: u_def)
  then have comps: "path_components p = path_components u @ path_components f" and abs: "path_is_abs u = path_is_abs p"
  proof -
    assume *: "u = [] \<or> (\<exists>v. u = v @ ''/'')"
    show "path_components p = path_components u @ path_components f"
      using * by (auto simp: p path_components_join) (simp_all add: path_components_def)
    show "path_is_abs u = path_is_abs p"
    proof (cases "u = []")
      case True
      with f show ?thesis by (cases f) (auto simp: p path_is_abs_def)
    next
      case False
      then show ?thesis by (cases u) (auto simp: p path_is_abs_def)
    qed
  qed
  have dir: "abs_elems h (path_dir p) = abs_elems h u"
    using abs_elems_clean [OF assms(1), of u] by (simp add: path_dir_def u_def)
  let ?U = "abs_elems h u"
  have P: "abs_elems h p = resolve_dots True (rev ?U) (path_components f)"
    unfolding abs_elems_eq [OF assms(1)] comps abs by (simp add: resolve_dots_append flip: append_assoc)
  show ?thesis
  proof (cases "f = [] \<or> f = ''.'' \<or> f \<noteq> ''..''")
    case True
    with P single have "abs_elems h p = ?U \<or> abs_elems h p = ?U @ [f]" by (auto split: list.splits)
    with assms(2) dir show ?thesis by (auto simp: strict_prefix_def)
  next
    case False
    then have pc: "path_components f = [''..'']" using single by simp
    have "''..'' \<notin> set ?U" by (simp add: abs_elems_eq [OF assms(1)] resolve_dots_rooted)
    then have "abs_elems h p = butlast ?U"
      unfolding P pc by (cases ?U rule: rev_cases) auto
    with assms(2) dir show ?thesis by (metis prefix_order.less_imp_le prefix_order.order_trans prefixeq_butlast)
  qed
qed


section \<open>Extraction stays inside\<close>

lemma safe_extract_below:
  assumes "is_safe_extract h path destDir"
  shows "strict_prefix (abs_elems h destDir) (abs_elems h path)"
proof -
  let ?D = "abs_elems h destDir" and ?A = "abs_elems h path"
  let ?k = "length (longest_common_prefix ?D ?A)"
  have ne: "?D \<noteq> ?A" using assms by (auto simp: is_safe_extract_def path_rel_def)
  have "?k = length ?D"
  proof (rule ccontr)
    assume "?k \<noteq> length ?D"
    moreover have "?k \<le> length ?D" by (rule prefix_length_le [OF longest_common_prefix_prefix1])
    ultimately obtain n where n: "length ?D - ?k = Suc n" by (metis Suc_diff_Suc le_neq_implies_less)
    have "has_prefix (join_with CHR ''/'' (''..'' # xs)) ''..''" for xs
      by (cases xs) simp_all
    with n ne assms show False by (simp add: is_safe_extract_def path_rel_def)
  qed
  then have "longest_common_prefix ?D ?A = ?D"
    using longest_common_prefix_prefix1 [of ?D ?A] by (metis append_eq_conv_conj prefix_def take_all order_refl)
  then have "prefix ?D ?A" by (metis longest_common_prefix_prefix2)
  with ne show ?thesis by (simp add: strict_prefix_def)
qed

text \<open>Making directories only adds directories, between the starting point and the target.\<close>

lemma mkdirs_adds:
  "lookup (fst (mkdirs h got cs d)) q = lookup d q \<or>
   (lookup d q = None \<and> lookup (fst (mkdirs h got cs d)) q = Some Dir \<and> prefix q (got @ cs))"
proof (induction h got cs d rule: mkdirs.induct)
  case (2 h got c cs d)
  show ?case
  proof (cases "lookup d (got @ [c])")
    case None
    show ?thesis
    proof (cases "ho_fault h (dk_clock d) = None")
      case True
      from 2(1) [OF None] True None show ?thesis by (auto simp: prefix_def split: if_splits)
    qed (simp add: None)
  next
    case (Some e)
    with 2(2) show ?thesis by (cases e) auto
  qed
qed simp

lemma mkdirs_keeps: "lookup d q = Some e \<Longrightarrow> lookup (fst (mkdirs h got cs d)) q = Some e"
  using mkdirs_adds [of h got cs d q] by auto

lemma mkdirs_made:
  "snd (mkdirs h got cs d) \<Longrightarrow> n \<le> length cs \<Longrightarrow> is_dir d got \<Longrightarrow> is_dir (fst (mkdirs h got cs d)) (got @ take n cs)"
proof (induction h got cs d arbitrary: n rule: mkdirs.induct)
  case (2 h got c cs d)
  have start: "is_dir (fst (mkdirs h got (c # cs) d)) got"
    using 2(5) mkdirs_keeps [of d got Dir h got "c # cs"] unfolding is_dir_def by blast
  show ?case
  proof (cases n)
    case 0
    then show ?thesis using start by simp
  next
    case (Suc k)
    show ?thesis
    proof (cases "lookup d (got @ [c])")
      case None
      with 2(3) have "ho_fault h (dk_clock d) = None" by (auto split: if_splits)
      with None 2(1) [OF None, of k] 2(3,4) Suc show ?thesis by (simp add: is_dir_def)
    next
      case (Some e)
      with 2(3) have "e = Dir" by (cases e) auto
      with Some 2(2) [OF Some, of k] 2(3,4) Suc show ?thesis by (simp add: is_dir_def)
    qed
  qed
qed (simp add: is_dir_def)

text \<open>
  What extraction may do to the disk when \<open>D\<close> is its directory: with \<open>D\<close> and all above it being directories,
  change entries below \<open>D\<close> only, and if nothing may be overwritten, keep every file.
\<close>

definition rooted_dir :: "string list \<Rightarrow> disk \<Rightarrow> bool" where
  "rooted_dir D d \<longleftrightarrow> (\<forall>q. prefix q D \<longrightarrow> is_dir d q)"

definition stays_below :: "bool \<Rightarrow> string list \<Rightarrow> disk \<Rightarrow> disk \<Rightarrow> bool" where
  "stays_below ow D d d' \<longleftrightarrow> (\<forall>q. \<not> strict_prefix D q \<longrightarrow> lookup d' q = lookup d q) \<and>
     (\<not> ow \<longrightarrow> (\<forall>q s. lookup d q = Some (Data s) \<longrightarrow> lookup d' q = Some (Data s)))"

lemma stays_refl: "stays_below ow D d d"
  by (simp add: stays_below_def)

lemma stays_trans: "stays_below ow D d1 d2 \<Longrightarrow> stays_below ow D d2 d3 \<Longrightarrow> stays_below ow D d1 d3"
  by (auto simp: stays_below_def)

lemma stays_rooted: "stays_below ow D d d' \<Longrightarrow> rooted_dir D d \<Longrightarrow> rooted_dir D d'"
  unfolding stays_below_def rooted_dir_def is_dir_def by (metis prefix_order.less_le_not_le)

lemma mkdirs_stays:
  assumes "rooted_dir D d" "prefix D q"
  shows "stays_below ow D d (fst (mkdirs h [] q d))"
  unfolding stays_below_def
proof (intro conjI allI impI)
  fix p
  assume "\<not> strict_prefix D p"
  then have "prefix p D" if "prefix p q" using that assms(2) prefix_same_cases [of p q D] by (auto simp: strict_prefix_def)
  with assms(1) mkdirs_adds [of h "[]" q d p] show "lookup (fst (mkdirs h [] q d)) p = lookup d p"
    by (auto simp: rooted_dir_def is_dir_def)
qed (rule mkdirs_keeps)

lemma mkdir_stays:
  assumes "rooted_dir D d" "prefix D (abs_elems h p)"
  shows "stays_below ow D d (fst (os_mkdir_all h p d))"
  using mkdirs_stays [OF assms] by (simp add: os_mkdir_all_def os_path_def stays_refl)

lemma copy_stays:
  assumes "strict_prefix D (abs_elems h p)" "ow \<or> \<not> os_exists h p d \<or> is_dir d (abs_elems h p)"
  shows "stays_below ow D d (copy_entry h p s d)"
  using assms
  by (auto simp: stays_below_def copy_entry_def os_create_def os_fill_def os_path_def os_exists_def is_dir_def
      split: option.splits)


lemma place_stays:
  assumes "path_is_abs (ho_cwd h)" "rooted_dir D d" "strict_prefix D (abs_elems h p)"
  shows "stays_below ow D d (place_file h ow p content d)"
proof (cases "\<not> ow \<and> os_exists h p d")
  case False
  obtain d1 ok where mk: "os_mkdir_all h (path_dir p) d = (d1, ok)" by fastforce
  have st: "stays_below ow D d d1"
    using mkdir_stays [OF assms(2) path_dir_below [OF assms(1,3)], of ow] mk by simp
  have "ow \<or> \<not> os_exists h p d1 \<or> is_dir d1 (abs_elems h p)"
    using False mk mkdirs_adds [of h "[]" "abs_elems h (path_dir p)" d "abs_elems h p"]
    by (auto simp: os_exists_def os_mkdir_all_def os_path_def is_dir_def split: if_splits option.splits)
  then have "stays_below ow D d (copy_entry h p s d1)" for s
    using copy_stays [OF assms(3)] stays_trans [OF st] by blast
  with st mk False show ?thesis by (auto simp: place_file_def split: option.split bool.split)
qed (simp add: place_file_def stays_refl)

lemma archive_step_stays:
  assumes "path_is_abs (ho_cwd h)" "rooted_dir (abs_elems h destDir) d"
  shows "stays_below (ex_overwrite c) (abs_elems h destDir) d (zip_step h c destDir f d)"
    "stays_below (ex_overwrite c) (abs_elems h destDir) d (tar_step h c destDir e d)"
proof -
  have dir: "stays_below (ex_overwrite c) (abs_elems h destDir) d (fst (os_mkdir_all h p d))"
    and place: "stays_below (ex_overwrite c) (abs_elems h destDir) d (place_file h (ex_overwrite c) p content d)"
    if "is_safe_extract h p destDir" for p content
    using safe_extract_below [OF that] mkdir_stays [OF assms(2)] place_stays [OF assms]
    by (simp_all add: strict_prefix_def)
  show "stays_below (ex_overwrite c) (abs_elems h destDir) d (zip_step h c destDir f d)"
    unfolding zip_step_def Let_def using dir place stays_refl by simp
  show "stays_below (ex_overwrite c) (abs_elems h destDir) d (tar_step h c destDir e d)"
    unfolding tar_step_def Let_def using dir place stays_refl by (simp split: tar_kind.split)
qed

lemma fold_stays:
  assumes "\<And>x d. rooted_dir D d \<Longrightarrow> stays_below ow D d (f x d)" "rooted_dir D d"
  shows "stays_below ow D d (fold f xs d)"
  using assms(2)
proof (induction xs arbitrary: d)
  case (Cons x xs)
  from assms(1) [OF Cons.prems, of x] Cons.IH [of "f x d"] stays_rooted [OF _ Cons.prems] show ?case
    by (auto intro: stays_trans)
qed (simp add: stays_refl)

lemma mkdir_rooted:
  assumes "os_mkdir_all h p d = (d1, True)"
  shows "rooted_dir (abs_elems h p) d1"
  unfolding rooted_dir_def
proof (intro allI impI)
  fix q
  assume "prefix q (abs_elems h p)"
  then have "q = take (length q) (abs_elems h p)" "length q \<le> length (abs_elems h p)"
    by (auto simp: prefix_def)
  with assms mkdirs_made [of h "[]" "abs_elems h p" d "length q"] show "is_dir d1 q"
    by (auto simp: os_mkdir_all_def os_path_def is_dir_def lookup_def split: if_splits)
qed

text \<open>What may differ outside: directories above the target that were not there.\<close>

definition only_adds_parents :: "string list \<Rightarrow> disk \<Rightarrow> disk \<Rightarrow> string list \<Rightarrow> bool" where
  "only_adds_parents D d d' q \<longleftrightarrow>
     lookup d' q = lookup d q \<or> (prefix q D \<and> lookup d q = None \<and> lookup d' q = Some Dir)"

lemma mkdir_then_stays:
  assumes "os_mkdir_all h destDir d = (d1, ok)" "stays_below ow (abs_elems h destDir) d1 d2"
  shows "(\<not> strict_prefix (abs_elems h destDir) q \<longrightarrow> only_adds_parents (abs_elems h destDir) d d2 q) \<and>
    (\<not> ow \<and> lookup d q = Some (Data s) \<longrightarrow> lookup d2 q = Some (Data s))"
proof -
  have "lookup d1 q = lookup d q \<or> (prefix q (abs_elems h destDir) \<and> lookup d q = None \<and> lookup d1 q = Some Dir)"
    using assms(1) mkdirs_adds [of h "[]" "abs_elems h destDir" d q]
    by (auto simp: os_mkdir_all_def os_path_def split: if_splits)
  with assms(2) show ?thesis by (auto simp: only_adds_parents_def stays_below_def)
qed

text \<open>
  C8: Whatever names an archive holds, extraction changes nothing outside the output directory, apart from
  making that directory; and unless it is told to overwrite, every file there was keeps its contents.
\<close>
theorem extraction_contained:
  assumes "path_is_abs (ho_cwd h)" "extract_archive h ar c archive destDir d = (d', e)"
  shows "(\<not> strict_prefix (abs_elems h destDir) q \<longrightarrow> only_adds_parents (abs_elems h destDir) d d' q) \<and>
    (\<not> ex_overwrite c \<and> lookup d q = Some (Data s) \<longrightarrow> lookup d' q = Some (Data s))"
proof -
  let ?D = "abs_elems h destDir"
  obtain d1 ok where mk: "os_mkdir_all h destDir d = (d1, ok)" by fastforce
  have "d' = d \<or> d' = d1 \<or> ok \<and> (\<exists>fs. d' = fold (zip_step h c destDir) fs d1) \<or> ok \<and> (\<exists>es. d' = fold (tar_step h c destDir) es d1)"
    using assms(2) mk
    by (auto simp: extract_archive_def extract_zip_def extract_tar_def Let_def split: if_splits option.splits bool.splits)
  moreover have "stays_below (ex_overwrite c) ?D d1 (fold (zip_step h c destDir) fs d1)"
      "stays_below (ex_overwrite c) ?D d1 (fold (tar_step h c destDir) es d1)" if ok for fs es
    using mkdir_rooted mk that
    by (auto intro!: fold_stays archive_step_stays [OF assms(1)])
  ultimately have "d' = d \<or> stays_below (ex_overwrite c) ?D d1 d'" using stays_refl by blast
  then show ?thesis
    using mkdir_then_stays [OF mk, of "ex_overwrite c" d' q s] by (auto simp: only_adds_parents_def)
qed


section \<open>Archives that cannot be extracted\<close>

lemma to_lower_append: "to_lower (a @ b) = to_lower a @ to_lower b"
  by (simp add: to_lower_def)

text \<open>
  The manager takes files with these endings for archives, but no extractor knows them, and the archive is
  deleted although extracting it has failed: a finished download is gone, with nothing in its place.
\<close>
theorem unsupported_archive_deleted:
  assumes "ext \<in> {''.rar'', ''.7z'', ''.txz'', ''.tar.xz''}" "file = stem @ ext" "ex_delete (pp_extract c)"
    "\<not> mv_enabled (pp_move c)" "\<not> cl_enabled (pp_cleanup c)" "abs_elems h file \<noteq> []"
    "lookup d (abs_elems h file) = Some (Data s)" "ho_fault h (dk_clock d) = None"
  shows "is_archive file \<and>
    lookup (process_with_extract h ar c file d) q = (if q = abs_elems h file then None else lookup d q)"
proof
  have low: "to_lower file = to_lower stem @ ext" using assms(1,2) by (auto simp: to_lower_append) (simp_all add: to_lower_def to_lower_char_def)
  show "is_archive file" using assms(1,2) by (auto simp: is_archive_def path_ext_def has_suffix_def Let_def)
  have "extract_archive h ar (pp_extract c) file destDir d = (d, Some (ErrUnsupported (path_ext file)))" for destDir
  proof -
    have "\<not> has_suffix (to_lower file) x"
      if "x \<in> {''.zip'', ''.tar.gz'', ''.tgz'', ''.tar.bz2'', ''.tbz2'', ''.gz'', ''.bz2'', ''.tar''}" for x
      using assms(1) that unfolding low by (auto simp: has_suffix_def)
    then show ?thesis by (simp add: extract_archive_def Let_def)
  qed
  then have "process_with_extract h ar c file d = fst (os_remove h file d)"
    using assms(3-5) by (simp add: process_with_extract_def cleanup_files_def move_file_def extract_step_def Let_def)
  moreover have "os_path h file = Some (abs_elems h file)" using assms(1,2) by (auto simp: os_path_def)
  ultimately show "lookup (process_with_extract h ar c file d) q = (if q = abs_elems h file then None else lookup d q)"
    using assms(6-8) by (simp add: os_remove_def is_dir_def)
qed

section \<open>Moving\<close>

lemma copy_file_keeps:
  assumes "copy_file h src dst d = (d', ok)" "os_path h src = Some a" "os_path h dst = Some b"
    "lookup d a = Some (Data s)" "abs_elems h (dst @ ''.tmp'') \<noteq> a"
  shows "if ok then lookup d' b = Some (Data s) else lookup d' a = Some (Data s)"
proof -
  let ?t = "abs_elems h (dst @ ''.tmp'')"
  have t: "os_path h (dst @ ''.tmp'') = Some ?t" by (simp add: os_path_def)
  have read: "os_read h src d = Some s" using assms(2,4) by (simp add: os_read_def)
  obtain d1 k1 where m: "os_mkdir_all h (path_dir dst) d = (d1, k1)" by fastforce
  have a1: "lookup d1 a = Some (Data s)"
    using m mkdirs_keeps [OF assms(4)] assms(4) by (auto simp: os_mkdir_all_def split: option.splits) (metis fst_conv)+
  obtain d2 k2 where c: "os_create h (dst @ ''.tmp'') d1 = (d2, k2)" by fastforce
  have a2: "lookup d2 a = Some (Data s)" using c t a1 assms(5) by (auto simp: os_create_def split: if_splits)
  obtain d3 k3 where f: "os_fill h (dst @ ''.tmp'') s d2 = (d3, k3)" by fastforce
  have a3: "lookup d3 a = Some (Data s)" using f t a2 assms(5) by (auto simp: os_fill_def split: option.splits)
  have t3: "lookup d3 ?t = Some (Data s)" if k3 k2
    using f t that c by (auto simp: os_fill_def os_create_def split: option.splits if_splits)
  obtain d4 k4 where r: "os_rename h (dst @ ''.tmp'') dst d3 = (d4, k4)" by fastforce
  have a4: "lookup d4 a = Some (Data s)" if "\<not> k4" using rename_fails [of h _ dst d3 d4 a] r that a3 by simp
  have b4: "lookup d4 b = Some (Data s)" if k4 k3 k2 using rename_target [OF r t assms(3)] that t3 by simp
  have x3: "lookup (fst (os_remove h (dst @ ''.tmp'') d3)) a = Some (Data s)" using remove_others [of h _ a d3] t assms(5) a3 by simp
  show ?thesis
    using assms(1) read m c f r a1 a2 a3 a4 b4 x3
    by (cases k1; cases k2; cases k3; cases k4) (auto simp: copy_file_def)
qed


text \<open>
  If they are the same, as when the destination is the directory of the downloads, moving with the permission
  to overwrite deletes the file before it tries to move it.
\<close>
theorem move_onto_itself_deletes:
  assumes "mv_enabled c" "mv_overwrite c" "abs_elems h (move_target c file) = abs_elems h file" "abs_elems h file \<noteq> []"
    "file \<noteq> []" "move_target c file \<noteq> []" "lookup d (abs_elems h file) = Some (Data s)" "ho_fault h (dk_clock d) = None"
  shows "lookup (move_file h c file d) (abs_elems h file) = None"
proof -
  let ?t = "move_target c file"
  have paths: "os_path h file = Some (abs_elems h file)" "os_path h ?t = Some (abs_elems h file)"
    using assms(3,5,6) by (simp_all add: os_path_def)
  let ?d1 = "fst (os_remove h ?t d)"
  have gone: "lookup ?d1 (abs_elems h file) = None" using assms(4,7,8) paths by (simp add: os_remove_def is_dir_def)
  have r: "os_rename h file ?t ?d1 = (tick ?d1, False)" using gone paths by (simp add: os_rename_def rename_ok_def)
  have "copy_file h file ?t (tick ?d1) = (tick ?d1, False)" using gone paths by (simp add: copy_file_def os_read_def)
  with r gone assms(1,2) show ?thesis by (simp add: move_file_def Let_def)
qed


section \<open>Instances\<close>

definition demo_host :: host where
  "demo_host = \<lparr>ho_cwd = ''/srv'', ho_fault = (\<lambda>_. None), ho_same_device = (\<lambda>_ _. True)\<rparr>"

definition demo_disk :: disk where
  "demo_disk = \<lparr>dk_tree = [([''srv''], Dir), ([''srv'', ''f.zip''], Data ''z''), ([''srv'', ''f.rar''], Data ''r''),
     ([''srv'', ''b''], Data ''old'')], dk_clock = 0\<rparr>"

text \<open>An archive that wants to write beside its directory and over a file that is there.\<close>

definition demo_archives :: archives where
  "demo_archives = \<lparr>ar_zip = (\<lambda>_. Some (map (\<lambda>n. \<lparr>ze_name = n, ze_dir = False, ze_encrypted = False,
       ze_open = (\<lambda>_. Some (''new'', True))\<rparr>) [''../evil'', ''b'', ''c/d''])), ar_tar = (\<lambda>_ _. None)\<rparr>"

definition demo_post :: post_process_config where
  "demo_post = \<lparr>pp_extract = default_extract_config\<lparr>ex_delete := True\<rparr>, pp_move = default_move_config,
     pp_cleanup = default_cleanup_config\<rparr>"

definition demo_move :: move_config where
  "demo_move = \<lparr>mv_enabled = True, mv_destination = ''/srv'', mv_overwrite = True, mv_delete = True\<rparr>"

lemma demo_paths:
  "abs_elems demo_host ''f.rar'' = [''srv'', ''f.rar'']" "abs_elems demo_host ''f.zip'' = [''srv'', ''f.zip'']"
  "abs_elems demo_host ''/srv'' = [''srv'']"
  "move_target demo_move ''f.zip'' = ''/srv/f.zip''" "abs_elems demo_host ''/srv/f.zip'' = [''srv'', ''f.zip'']"
  "move_target (demo_move\<lparr>mv_destination := ''/o''\<rparr>) ''f.zip'' = ''/o/f.zip''"
  "abs_elems demo_host ''/o/f.zip'' = [''o'', ''f.zip'']" "abs_elems demo_host ''/o/f.zip.tmp'' = [''o'', ''f.zip.tmp'']"
  by code_simp+

lemma demo_fields:
  "ho_fault demo_host n = None" "path_is_abs (ho_cwd demo_host)" "ex_delete (pp_extract demo_post)"
  "\<not> mv_enabled (pp_move demo_post)" "\<not> cl_enabled (pp_cleanup demo_post)" "mv_enabled demo_move" "mv_overwrite demo_move"
  "\<not> ex_overwrite default_extract_config"
  by (simp_all add: demo_host_def path_is_abs_def demo_post_def demo_move_def default_move_config_def
      default_cleanup_config_def default_extract_config_def)

theorem extraction_contained_witness:
  "let d' = fst (extract_archive demo_host demo_archives default_extract_config ''f.zip'' ''/srv'' demo_disk) in
    only_adds_parents [''srv''] demo_disk d' [''evil''] \<and> lookup d' [''srv'', ''b''] = Some (Data ''old'') \<and>
    lookup d' [''srv'', ''c'', ''d''] = Some (Data ''new'')"
proof -
  let ?x = "extract_archive demo_host demo_archives default_extract_config ''f.zip'' ''/srv'' demo_disk"
  have "lookup (fst ?x) [''srv'', ''c'', ''d''] = Some (Data ''new'')" "lookup demo_disk [''srv'', ''b''] = Some (Data ''old'')"
    by code_simp+
  then show ?thesis
    using extraction_contained [of demo_host demo_archives default_extract_config "''f.zip''" "''/srv''" demo_disk "fst ?x" "snd ?x"]
    by (simp add: demo_paths demo_fields Let_def)
qed

theorem unsupported_archive_deleted_witness:
  "is_archive ''f.rar'' \<and> lookup demo_disk [''srv'', ''f.rar''] = Some (Data ''r'') \<and>
   lookup (process_with_extract demo_host demo_archives demo_post ''f.rar'' demo_disk) [''srv'', ''f.rar''] = None"
proof -
  have "lookup demo_disk [''srv'', ''f.rar''] = Some (Data ''r'')" by code_simp
  then show ?thesis
    using unsupported_archive_deleted [of "''.rar''" "''f.rar''" "''f''" demo_post demo_host demo_disk "''r''" demo_archives "[''srv'', ''f.rar'']"]
    by (simp add: demo_paths demo_fields)
qed


theorem move_onto_itself_deletes_witness:
  "lookup demo_disk [''srv'', ''f.zip''] = Some (Data ''z'') \<and>
   lookup (move_file demo_host demo_move ''f.zip'' demo_disk) [''srv'', ''f.zip''] = None"
proof -
  have "lookup demo_disk [''srv'', ''f.zip''] = Some (Data ''z'')" by code_simp
  then show ?thesis
    using move_onto_itself_deletes [of demo_move demo_host "''f.zip''" demo_disk "''z''"]
    by (simp add: demo_paths demo_fields)
qed

end
