(* ===== verification/EventBus.thy ===== *)
theory EventBus
  imports GoString
begin

text \<open>
  The events of the program and who hears of them, \<open>internal/events.go\<close>: the emitter with its queue and
  workers, and the three kinds of handlers. The encoder, the HTTP client and the process runner are
  arguments of the handlers. \<open>'d\<close> is the type of the data of an event, \<open>'h\<close> the identity of a handler.
\<close>

section \<open>Events\<close>

datatype event_type =
    EventTaskStarted
  | EventTaskPaused
  | EventTaskResumed
  | EventTaskCompleted
  | EventTaskFailed
  | EventTaskProgress
  | EventDownloadSpeedChanged

definition event_type_name :: "event_type \<Rightarrow> string" where
  "event_type_name t =
     (case t of
        EventTaskStarted \<Rightarrow> ''task_started''
      | EventTaskPaused \<Rightarrow> ''task_paused''
      | EventTaskResumed \<Rightarrow> ''task_resumed''
      | EventTaskCompleted \<Rightarrow> ''task_completed''
      | EventTaskFailed \<Rightarrow> ''task_failed''
      | EventTaskProgress \<Rightarrow> ''task_progress''
      | EventDownloadSpeedChanged \<Rightarrow> ''download_speed_changed'')"

record 'd event =
  en_type :: event_type
  en_task :: string
  en_data :: 'd
  en_time :: instant

section \<open>Handlers\<close>

text \<open>\<open>HandleEvent\<close> of each kind; the error is a text, what is done is the second component.\<close>

datatype handler_error = ErrMarshal | ErrRequest | ErrSend | ErrStatus int | ErrQueueFull | ErrCommand string

record http_handler =
  hh_url :: string
  hh_headers :: "(string \<times> string) list"

text \<open>A request: address, headers as they are set one after the other, body. The client answers with a status.\<close>

type_synonym post_request = "string \<times> (string \<times> string) list \<times> string"

definition handle_http :: "('e \<Rightarrow> string option) \<Rightarrow> (string \<Rightarrow> bool) \<Rightarrow> (post_request \<Rightarrow> int option) \<Rightarrow> http_handler \<Rightarrow> 'e \<Rightarrow>
    handler_error option \<times> post_request option" where
  "handle_http enc valid client h e =
     (case enc e of
        None \<Rightarrow> (Some ErrMarshal, None)
      | Some body \<Rightarrow>
          if \<not> valid (hh_url h) then (Some ErrRequest, None)
          else
            let req = (hh_url h, (''Content-Type'', ''application/json'') # hh_headers h, body) in
            (case client req of
               None \<Rightarrow> (Some ErrSend, Some req)
             | Some code \<Rightarrow> (if code < 200 \<or> code \<ge> 300 then Some (ErrStatus code) else None, Some req)))"

record command_handler =
  ch_command :: string
  ch_args :: "string list"

text \<open>\<open>run\<close> gets command, arguments and input; its error is the output.\<close>

definition handle_command :: "('e \<Rightarrow> string option) \<Rightarrow> (string \<times> string list \<times> string \<Rightarrow> string option) \<Rightarrow> command_handler \<Rightarrow> 'e \<Rightarrow>
    handler_error option \<times> (string \<times> string list \<times> string) option" where
  "handle_command enc run h e =
     (case enc e of
        None \<Rightarrow> (Some ErrMarshal, None)
      | Some body \<Rightarrow> (map_option ErrCommand (run (ch_command h, ch_args h, body)), Some (ch_command h, ch_args h, body)))"

text \<open>A socket has a queue of its own, which a pump writes out until it is closed or a write fails.\<close>

record socket_handler =
  sh_queue :: "string list"
  sh_done :: bool
  sh_pumping :: bool
  sh_sent :: "string list"
  sh_panicked :: bool

definition socket_capacity :: nat where
  "socket_capacity = 100"

definition new_socket_handler :: socket_handler where
  "new_socket_handler = \<lparr>sh_queue = [], sh_done = False, sh_pumping = True, sh_sent = [], sh_panicked = False\<rparr>"

definition handle_socket :: "('e \<Rightarrow> string option) \<Rightarrow> 'e \<Rightarrow> socket_handler \<Rightarrow> socket_handler \<times> handler_error option" where
  "handle_socket enc e h =
     (case enc e of
        None \<Rightarrow> (h, Some ErrMarshal)
      | Some body \<Rightarrow>
          if length (sh_queue h) < socket_capacity then (h\<lparr>sh_queue := sh_queue h @ [body]\<rparr>, None)
          else (h, Some ErrQueueFull))"

text \<open>One turn of the pump: \<open>prefer\<close> is whether it takes a message when it could also end.\<close>

definition socket_pump :: "bool \<Rightarrow> bool \<Rightarrow> socket_handler \<Rightarrow> socket_handler" where
  "socket_pump prefer write_ok h =
     (if \<not> sh_pumping h then h
      else if sh_queue h \<noteq> [] \<and> (prefer \<or> \<not> sh_done h)
      then (if write_ok then h\<lparr>sh_queue := tl (sh_queue h), sh_sent := sh_sent h @ [hd (sh_queue h)]\<rparr>
            else h\<lparr>sh_queue := tl (sh_queue h), sh_pumping := False\<rparr>)
      else if sh_done h then h\<lparr>sh_pumping := False\<rparr>
      else h)"

text \<open>\<open>Close\<close> closes a channel, which panics the second time.\<close>

definition socket_close :: "socket_handler \<Rightarrow> socket_handler" where
  "socket_close h = (if sh_done h then h\<lparr>sh_panicked := True\<rparr> else h\<lparr>sh_done := True\<rparr>)"

section \<open>The emitter\<close>

text \<open>A worker that is busy has the handlers still to be called for its event.\<close>

datatype ('h, 'e) event_worker = Idle | Busy 'e "'h list" | Gone

record ('h, 'e) emitter =
  em_handlers :: "'h list"
  em_async :: bool
  em_queue :: "'e list"
  em_done :: bool
  em_workers :: "('h, 'e) event_worker list"
  em_log :: "('h \<times> 'e) list"  \<comment> \<open>the calls of \<open>HandleEvent\<close>\<close>
  em_closes :: "'h list"  \<comment> \<open>the calls of \<open>Close\<close>\<close>

definition event_queue_capacity :: nat where
  "event_queue_capacity = 1000"

definition new_event_emitter :: "bool \<Rightarrow> nat \<Rightarrow> ('h, 'e) emitter" where
  "new_event_emitter async n =
     \<lparr>em_handlers = [], em_async = async, em_queue = [], em_done = False,
      em_workers = (if async then replicate n Idle else []), em_log = [], em_closes = []\<rparr>"

definition subscribe :: "'h \<Rightarrow> ('h, 'e) emitter \<Rightarrow> ('h, 'e) emitter" where
  "subscribe h em = em\<lparr>em_handlers := em_handlers em @ [h]\<rparr>"

definition unsubscribe :: "'h \<Rightarrow> ('h, 'e) emitter \<Rightarrow> ('h, 'e) emitter" where
  "unsubscribe h em = em\<lparr>em_handlers := remove1 h (em_handlers em)\<rparr>"

text \<open>
  \<open>Emit\<close>. If the emitter is closed and the queue has room, either case of the selection may be taken:
  \<open>late\<close> is whether it is the queue. Without workers the handlers are called at once.
\<close>

definition emit_event_to :: "bool \<Rightarrow> 'e \<Rightarrow> ('h, 'e) emitter \<Rightarrow> ('h, 'e) emitter" where
  "emit_event_to late e em =
     (if em_async em then
        (if length (em_queue em) < event_queue_capacity \<and> (late \<or> \<not> em_done em) then em\<lparr>em_queue := em_queue em @ [e]\<rparr>
         else em)
      else if em_done em then em
      else em\<lparr>em_log := em_log em @ map (\<lambda>h. (h, e)) (em_handlers em)\<rparr>)"

text \<open>The methods \<open>EmitTaskStarted\<close> and so on differ in the type of the event only.\<close>

definition emit_task_event :: "event_type \<Rightarrow> string \<Rightarrow> 'd \<Rightarrow> instant \<Rightarrow> bool \<Rightarrow> ('h, 'd event) emitter \<Rightarrow> ('h, 'd event) emitter" where
  "emit_task_event t tid dat now late em =
     emit_event_to late \<lparr>en_type = t, en_task = tid, en_data = dat, en_time = now\<rparr> em"

text \<open>
  One turn of a worker: it ends, takes the next event with the handlers of that moment, or calls the next
  handler. \<open>stop\<close> is whether it ends when it may also take an event.
\<close>

definition worker_step :: "nat \<Rightarrow> bool \<Rightarrow> ('h, 'e) emitter \<Rightarrow> ('h, 'e) emitter" where
  "worker_step i stop em =
     (if length (em_workers em) \<le> i then em
      else case em_workers em ! i of
        Gone \<Rightarrow> em
      | Busy e [] \<Rightarrow> em\<lparr>em_workers := (em_workers em)[i := Idle]\<rparr>
      | Busy e (h # hs) \<Rightarrow> em\<lparr>em_workers := (em_workers em)[i := Busy e hs], em_log := em_log em @ [(h, e)]\<rparr>
      | Idle \<Rightarrow>
          if em_done em \<and> (stop \<or> em_queue em = []) then em\<lparr>em_workers := (em_workers em)[i := Gone]\<rparr>
          else (case em_queue em of
              [] \<Rightarrow> em
            | e # es \<Rightarrow> em\<lparr>em_queue := es, em_workers := (em_workers em)[i := Busy e (em_handlers em)]\<rparr>))"

text \<open>\<open>Close\<close> signals the end; once the workers are gone it closes the handlers.\<close>

definition close_signal :: "('h, 'e) emitter \<Rightarrow> ('h, 'e) emitter" where
  "close_signal em = em\<lparr>em_done := True\<rparr>"

definition close_handlers :: "('h, 'e) emitter \<Rightarrow> ('h, 'e) emitter" where
  "close_handlers em =
     (if em_done em \<and> list_all (\<lambda>w. w = Gone) (em_workers em) then em\<lparr>em_closes := em_closes em @ em_handlers em\<rparr> else em)"

section \<open>Runs\<close>

datatype ('h, 'e) bus_step =
    Subscribe 'h
  | Unsubscribe 'h
  | Emit bool 'e
  | Work nat bool
  | CloseSignal
  | CloseHandlers

fun bus_exec :: "('h, 'e) bus_step \<Rightarrow> ('h, 'e) emitter \<Rightarrow> ('h, 'e) emitter" where
  "bus_exec (Subscribe h) em = subscribe h em"
| "bus_exec (Unsubscribe h) em = unsubscribe h em"
| "bus_exec (Emit late e) em = emit_event_to late e em"
| "bus_exec (Work i stop) em = worker_step i stop em"
| "bus_exec CloseSignal em = close_signal em"
| "bus_exec CloseHandlers em = close_handlers em"

fun emitted :: "('h, 'e) bus_step list \<Rightarrow> 'e list" where
  "emitted [] = []"
| "emitted (s # ss) = (case s of Emit _ e \<Rightarrow> e # emitted ss | _ \<Rightarrow> emitted ss)"

fun subscribed :: "('h, 'e) bus_step list \<Rightarrow> 'h list" where
  "subscribed [] = []"
| "subscribed (s # ss) = (case s of Subscribe h \<Rightarrow> h # subscribed ss | _ \<Rightarrow> subscribed ss)"

section \<open>Delivery\<close>

text \<open>The deliveries of \<open>e\<close> to \<open>h\<close>: made, promised by a worker, or possible for a queued event.\<close>

definition owed :: "'h \<Rightarrow> 'e \<Rightarrow> ('h, 'e) event_worker \<Rightarrow> nat" where
  "owed h e w = (case w of Busy e' hs \<Rightarrow> if e' = e then count_list hs h else 0 | _ \<Rightarrow> 0)"

definition deliveries :: "'h \<Rightarrow> 'e \<Rightarrow> ('h, 'e) emitter \<Rightarrow> nat" where
  "deliveries h e em =
     count_list (em_log em) (h, e) + sum_list (map (owed h e) (em_workers em)) + count_list (em_queue em) e"

lemma sum_list_replace:
  "i < length ws \<Longrightarrow> sum_list (map f (ws[i := w])) + f (ws ! i) = sum_list (map f ws) + (f w :: nat)"
proof (induction ws arbitrary: i)
  case (Cons x ws)
  then show ?case by (cases i) (auto simp: add.assoc)
qed simp

lemma count_handlers: "distinct hs \<Longrightarrow> count_list hs h \<le> 1"
  by (induction hs) (auto simp: count_list_0_iff)

lemma count_log: "count_list (map (\<lambda>h. (h, e')) hs) (h, e) = (if e' = e then count_list hs h else 0)"
  by (induction hs) auto

lemma worker_step_deliveries:
  assumes "distinct (em_handlers em)"
  shows "deliveries h e (worker_step i stop em) \<le> deliveries h e em" "em_handlers (worker_step i stop em) = em_handlers em"
proof -
  show "em_handlers (worker_step i stop em) = em_handlers em"
    by (simp add: worker_step_def split: event_worker.split list.split)
  show "deliveries h e (worker_step i stop em) \<le> deliveries h e em"
  proof (cases "i < length (em_workers em)")
    case True
    have w: "sum_list (map (owed h e) ((em_workers em)[i := w])) + owed h e (em_workers em ! i) =
        sum_list (map (owed h e) (em_workers em)) + owed h e w" for w
      by (rule sum_list_replace [OF True])
    note c = count_handlers [OF assms, of h]
    show ?thesis
    proof (cases "em_workers em ! i")
      case Idle
      show ?thesis
      proof (cases "em_queue em")
        case Nil
        with Idle True w [of Gone] show ?thesis by (simp add: worker_step_def deliveries_def owed_def)
      next
        case (Cons e' es)
        with Idle True w [of Gone] w [of "Busy e' (em_handlers em)"] c show ?thesis
          by (auto simp: worker_step_def deliveries_def owed_def)
      qed
    next
      case (Busy e' hs)
      then show ?thesis
        using True w [of Idle] w [of "Busy e' (tl hs)"]
        by (cases hs) (auto simp: worker_step_def deliveries_def owed_def split: if_splits)
    qed (simp add: worker_step_def)
  qed (simp add: worker_step_def)
qed

lemma emit_deliveries:
  assumes "distinct (em_handlers em)"
  shows "deliveries h e (emit_event_to late e' em) \<le> deliveries h e em + (if e' = e then 1 else 0)"
  using count_handlers [OF assms, of h] by (auto simp: emit_event_to_def deliveries_def count_log)

lemma run_deliveries:
  assumes "distinct (em_handlers em)" "distinct (subscribed ss)" "set (subscribed ss) \<inter> set (em_handlers em) = {}"
  shows "deliveries h e (fold bus_exec ss em) \<le> deliveries h e em + count_list (emitted ss) e"
  using assms
proof (induction ss arbitrary: em)
  case (Cons s ss)
  have step: "deliveries h e (bus_exec s em) \<le> deliveries h e em + count_list (emitted [s]) e"
  proof (cases s)
    case (Emit late e')
    then show ?thesis using emit_deliveries [OF Cons.prems(1), of h e late e'] by (cases "e' = e") simp_all
  next
    case (Work i stop)
    then show ?thesis using worker_step_deliveries(1) [OF Cons.prems(1)] by simp
  qed (simp_all add: subscribe_def unsubscribe_def close_signal_def close_handlers_def deliveries_def)
  have "em_handlers (bus_exec s em) = (case s of Subscribe h \<Rightarrow> em_handlers em @ [h] | Unsubscribe h \<Rightarrow> remove1 h (em_handlers em) | _ \<Rightarrow> em_handlers em)"
    using worker_step_deliveries(2) [OF Cons.prems(1)]
    by (cases s) (simp_all add: subscribe_def unsubscribe_def close_signal_def close_handlers_def emit_event_to_def)
  then have "distinct (em_handlers (bus_exec s em))" "set (subscribed ss) \<inter> set (em_handlers (bus_exec s em)) = {}"
    using Cons.prems by (cases s; auto dest: in_set_remove1 [THEN iffD1] notin_set_remove1 set_remove1_subset [THEN subsetD])+
  moreover have "distinct (subscribed ss)" using Cons.prems(2) by (cases s) simp_all
  ultimately have "deliveries h e (fold bus_exec ss (bus_exec s em)) \<le> deliveries h e (bus_exec s em) + count_list (emitted ss) e"
    using Cons.IH by blast
  moreover have "count_list (emitted (s # ss)) e = count_list (emitted [s]) e + count_list (emitted ss) e" by (cases s) simp_all
  ultimately show ?case using step by simp
qed simp

text \<open>
  C30: A handler hears of an event at most as often as it was emitted, whatever the workers do and whenever the
  emitter is closed, if it is subscribed once.
\<close>
theorem delivered_at_most_once:
  assumes "distinct (subscribed ss)"
  shows "count_list (em_log (fold bus_exec ss (new_event_emitter async n))) (h, e) \<le> count_list (emitted ss) e"
proof -
  have start: "deliveries h e (new_event_emitter async n) = 0" "em_handlers (new_event_emitter async n :: ('a, 'b) emitter) = []"
    by (simp_all add: deliveries_def new_event_emitter_def owed_def sum_list_replicate)
  have "deliveries h e (fold bus_exec ss (new_event_emitter async n)) \<le> count_list (emitted ss) e"
    using run_deliveries [of "new_event_emitter async n" ss h e] assms start by simp
  then show ?thesis by (simp add: deliveries_def)
qed

text \<open>Two workers can swap two events, and closing throws away what is queued.\<close>

lemma workers_swap_events:
  "em_log (fold bus_exec [Subscribe ''h'', Emit False (1::nat), Emit False 2, Work 0 False, Work 1 False, Work 1 False, Work 0 False]
     (new_event_emitter True 4)) = [(''h'', 2), (''h'', 1)]"
  by code_simp

theorem delivered_at_most_once_witness:
  "let ss = [Subscribe ''h'', Emit False (1::nat), Emit False 2, Work 0 False, CloseSignal, Work 0 False, Work 0 False, Work 0 True] in
    count_list (em_log (fold bus_exec ss (new_event_emitter True 1))) (''h'', 1) \<le> 1 \<and>
    em_log (fold bus_exec ss (new_event_emitter True 1)) = [(''h'', 1)] \<and>
    em_queue (fold bus_exec ss (new_event_emitter True 1)) = [2]"
proof -
  let ?ss = "[Subscribe ''h'', Emit False (1::nat), Emit False 2, Work 0 False, CloseSignal, Work 0 False, Work 0 False, Work 0 True]"
  have "em_log (fold bus_exec ?ss (new_event_emitter True 1)) = [(''h'', 1)]"
    "em_queue (fold bus_exec ?ss (new_event_emitter True 1)) = [2]" by code_simp+
  then show ?thesis using delivered_at_most_once [of ?ss True 1 "''h''" 1] by (simp add: Let_def)
qed

text \<open>The command for completed downloads is run for every event, whatever its type.\<close>

lemma command_runs_for_all: "enc e = Some body \<Longrightarrow> snd (handle_command enc run h e) = Some (ch_command h, ch_args h, body)"
  by (simp add: handle_command_def)

lemma socket_closed_twice: "sh_panicked (socket_close (socket_close h))"
  by (simp add: socket_close_def)

end
