(* ===== verification/Proxy.thy ===== *)
theory Proxy
  imports Requests GoNet AppConfig
begin

text \<open>
  Downloads through proxies, \<open>internal/downloader/proxy.go\<close>: authentication towards an HTTP proxy, the clients
  made for each type of proxy, the SOCKS4 request, and the proxies of single tasks. The MD5 digest, the
  random parts, the transport and the parser of addresses are arguments.
\<close>

section \<open>Authentication\<close>

record proxy_auth =
  pa_username :: string
  pa_password :: string
  pa_digest :: bool
  pa_exclude :: "string list"
  pa_nonce :: string
  pa_realm :: string
  pa_qop :: string

text \<open>What the transport looks at: method, host name, request URI and header fields.\<close>

record proxied_request =
  qr_method :: string
  qr_host :: string
  qr_uri :: string
  qr_header :: "string \<rightharpoonup> string"

record proxy_response =
  qs_status :: int
  qs_challenge :: string

definition new_proxy_auth :: "string \<Rightarrow> string \<Rightarrow> bool \<Rightarrow> string list \<Rightarrow> proxy_auth" where
  "new_proxy_auth user pass digest exclude =
     \<lparr>pa_username = user, pa_password = pass, pa_digest = digest, pa_exclude = exclude, pa_nonce = [], pa_realm = [],
      pa_qop = []\<rparr>"

definition should_exclude :: "proxy_auth \<Rightarrow> string \<Rightarrow> bool" where
  "should_exclude t host = list_ex (\<lambda>x. has_suffix host x \<or> host = x) (pa_exclude t)"

definition trim_quotes :: "string \<Rightarrow> string" where
  "trim_quotes s =
     rev (dropWhile (\<lambda>c. c = CHR 0x22) (rev (dropWhile (\<lambda>c. c = CHR 0x22) s)))"

definition parse_challenge_params :: "string \<Rightarrow> (string \<rightharpoonup> string)" where
  "parse_challenge_params challenge =
     fold (\<lambda>param m.
         let p = trim_space param in
         if CHR ''='' \<in> set p
         then m(trim_space (before CHR ''='' p) \<mapsto> trim_quotes (trim_space (after CHR ''='' p)))
         else m)
       (split_on CHR '','' challenge) Map.empty"

definition param_or_empty :: "(string \<rightharpoonup> string) \<Rightarrow> string \<Rightarrow> string" where
  "param_or_empty m k = (case m k of None \<Rightarrow> [] | Some v \<Rightarrow> v)"

definition parse_digest_challenge :: "string \<Rightarrow> proxy_auth \<Rightarrow> proxy_auth" where
  "parse_digest_challenge challenge t =
     (if \<not> has_prefix challenge ''Digest '' then t
      else let ps = parse_challenge_params (drop 7 challenge) in
        t\<lparr>pa_realm := param_or_empty ps ''realm'', pa_nonce := param_or_empty ps ''nonce'', pa_qop := param_or_empty ps ''qop''\<rparr>)"

text \<open>\<open>md5\<close> is the hexadecimal digest; \<open>cnonce\<close> the first eight digits of one.\<close>

definition create_digest_auth :: "(string \<Rightarrow> string) \<Rightarrow> string \<Rightarrow> string \<Rightarrow> string \<Rightarrow> proxy_auth \<Rightarrow> string" where
  "create_digest_auth md5 cnonce meth uri t =
     (let ha1 = md5 (pa_username t @ '':'' @ pa_realm t @ '':'' @ pa_password t);
          ha2 = md5 (meth @ '':'' @ uri);
          nc = ''00000001'';
          response = md5 (ha1 @ '':'' @ pa_nonce t @ '':'' @ nc @ '':'' @ cnonce @ '':'' @ pa_qop t @ '':'' @ ha2);
          q = (\<lambda>s. CHR 0x22 # s @ [CHR 0x22])
      in ''Digest username='' @ q (pa_username t) @ '', realm='' @ q (pa_realm t) @ '', nonce='' @ q (pa_nonce t) @
         '', uri='' @ q uri @ '', qop='' @ pa_qop t @ '', nc='' @ nc @ '', cnonce='' @ q cnonce @
         '', response='' @ q response)"

definition generate_cnonce :: "(string \<Rightarrow> string) \<Rightarrow> string \<Rightarrow> string" where
  "generate_cnonce md5 now = take 8 (md5 now)"

definition set_proxy_authorization :: "string \<Rightarrow> proxied_request \<Rightarrow> proxied_request" where
  "set_proxy_authorization v rq = rq\<lparr>qr_header := (qr_header rq)(''Proxy-Authorization'' \<mapsto> v)\<rparr>"

definition authorize :: "(string \<Rightarrow> string) \<Rightarrow> string \<Rightarrow> proxy_auth \<Rightarrow> proxied_request \<Rightarrow> proxied_request" where
  "authorize md5 now t rq =
     (if pa_username t \<noteq> [] \<and> pa_password t \<noteq> [] then
        (if pa_digest t \<and> pa_nonce t \<noteq> []
         then set_proxy_authorization (create_digest_auth md5 (generate_cnonce md5 now) (qr_method rq) (qr_uri rq) t) rq
         else set_proxy_authorization (basic_auth (pa_username t) (pa_password t)) rq)
      else rq)"

text \<open>
  \<open>RoundTrip\<close>: the transport with what it learned, the requests it sent, and the answer. \<open>send i\<close> is the
  answer to the i-th of them, \<open>None\<close> for an error.
\<close>

definition round_trip :: "(string \<Rightarrow> string) \<Rightarrow> (nat \<Rightarrow> string) \<Rightarrow> (nat \<Rightarrow> proxied_request \<Rightarrow> proxy_response option) \<Rightarrow>
    proxied_request \<Rightarrow> proxy_auth \<Rightarrow> proxy_auth \<times> proxied_request list \<times> proxy_response option" where
  "round_trip md5 now send rq t =
     (if should_exclude t (qr_host rq) then (t, [rq], send 0 rq)
      else
        let rq1 = authorize md5 (now 0) t rq in
        (case send 0 rq1 of
           None \<Rightarrow> (t, [rq1], None)
         | Some resp \<Rightarrow>
             if qs_status resp = 407 \<and> pa_digest t \<and> qs_challenge resp \<noteq> [] then
               let t1 = parse_digest_challenge (qs_challenge resp) t in
               (if pa_nonce t1 \<noteq> [] then
                  let auth = create_digest_auth md5 (generate_cnonce md5 (now 1)) (qr_method rq1) (qr_uri rq1) t1;
                      rq2 = set_proxy_authorization auth rq1
                  in (t1, [rq1, rq2], send 1 rq2)
                else (t1, [rq1], Some resp))
             else (t, [rq1], Some resp)))"

section \<open>Clients\<close>

datatype proxy_client =
    DirectClient
  | HttpProxy string string "(string \<times> string) option" "proxy_auth option"
      \<comment> \<open>scheme, address, user information of the proxy's URL, and the transport around it\<close>
  | Socks5Proxy string "(string \<times> string) option"
  | Socks4Proxy string string bool

definition proxy_address :: "proxy_config \<Rightarrow> string" where
  "proxy_address p = px_host p @ '':'' @ show_int (px_port p)"

definition proxy_credentials :: "proxy_config \<Rightarrow> (string \<times> string) option" where
  "proxy_credentials p =
     (if px_username p \<noteq> [] \<and> px_password p \<noteq> [] then Some (px_username p, px_password p) else None)"

definition new_http_proxy_client :: "proxy_config \<Rightarrow> bool \<Rightarrow> string list \<Rightarrow> string + proxy_client" where
  "new_http_proxy_client p digest exclude =
     (if \<not> proxy_valid (Some p) then Inl ''invalid proxy config''
      else Inr (HttpProxy (px_type p) (proxy_address p) (proxy_credentials p)
        (map_option (\<lambda>(user, pass). new_proxy_auth user pass digest exclude) (proxy_credentials p))))"

text \<open>\<open>dialer\<close> is whether the SOCKS5 dialer can be made.\<close>

definition create_socks5_client :: "bool \<Rightarrow> proxy_config \<Rightarrow> string + proxy_client" where
  "create_socks5_client dialer p =
     (if \<not> proxy_valid (Some p) then Inl ''invalid proxy config''
      else if \<not> dialer then Inl ''create socks5 proxy dialer''
      else Inr (Socks5Proxy (proxy_address p) (proxy_credentials p)))"

definition create_socks4_client :: "proxy_config \<Rightarrow> bool \<Rightarrow> string + proxy_client" where
  "create_socks4_client p is4a =
     (if \<not> proxy_valid (Some p) then Inl ''invalid proxy config''
      else Inr (Socks4Proxy (proxy_address p) (px_username p) is4a))"

definition create_proxy_client :: "bool \<Rightarrow> proxy_config option \<Rightarrow> bool \<Rightarrow> string list \<Rightarrow> string + proxy_client" where
  "create_proxy_client dialer cfg digest exclude =
     (if \<not> proxy_valid cfg then Inr DirectClient
      else
        let p = the cfg in
        if px_type p = ''http'' \<or> px_type p = ''https'' then new_http_proxy_client p digest exclude
        else if px_type p = ''socks5'' then create_socks5_client dialer p
        else if px_type p = ''socks4'' then create_socks4_client p False
        else if px_type p = ''socks4a'' then create_socks4_client p True
        else Inl (''unsupported proxy type: '' @ px_type p))"

text \<open>The downloader falls back to a direct client.\<close>

definition create_client_with_proxy :: "bool \<Rightarrow> proxy_config option \<Rightarrow> proxy_client" where
  "create_client_with_proxy dialer cfg =
     (if \<not> proxy_valid cfg then DirectClient
      else case create_proxy_client dialer cfg (px_digest (the cfg)) (px_exclude (the cfg)) of
        Inl _ \<Rightarrow> DirectClient
      | Inr c \<Rightarrow> c)"

section \<open>SOCKS4\<close>

definition string_bytes :: "string \<Rightarrow> 8 word list" where
  "string_bytes s = map of_char s"

text \<open>\<open>fmt.Sscanf\<close> with \<open>%d\<close> on a port without leading blanks; 0 if it fails.\<close>

definition scan_port :: "string \<Rightarrow> int" where
  "scan_port s =
     (let neg = has_prefix s ''-''; body = (if neg \<or> has_prefix s ''+'' then tl s else s) in
      case atoi_digits (takeWhile is_digit body) of
        None \<Rightarrow> 0
      | Some n \<Rightarrow> let v = (if neg then - n else n) in if in_i64 v then v else 0)"

definition socks4_address :: "(string \<Rightarrow> ip option) \<Rightarrow> bool \<Rightarrow> string \<Rightarrow> 8 word list" where
  "socks4_address parse_ip is4a host =
     (if is4a then [0, 0, 0, 1]
      else
        let ip = (case parse_ip host of None \<Rightarrow> [127, 0, 0, 1] | Some a \<Rightarrow> a) in
        (case ip_to4 ip of None \<Rightarrow> [] | Some a \<Rightarrow> map word_of_int a))"

definition socks4_request :: "(string \<Rightarrow> ip option) \<Rightarrow> string \<Rightarrow> bool \<Rightarrow> string \<times> string \<Rightarrow> 8 word list" where
  "socks4_request parse_ip username is4a hp =
     (case hp of (host, portStr) \<Rightarrow>
        let port = scan_port portStr in
        [4, 1, word_of_int (port div 256), word_of_int port] @ socks4_address parse_ip is4a host @
        string_bytes username @ [0] @ (if is4a then string_bytes host @ [0] else []))"

datatype socks4_error = SocksConnect | SocksAddress | SocksWrite | SocksRead | SocksRejected "8 word"

text \<open>
  \<open>Dial\<close>: \<open>connects\<close> is whether the proxy can be reached, \<open>talk\<close> what it answers to the bytes written,
  \<open>None\<close> if writing fails. The bytes sent are part of the result.
\<close>

definition socks4_dial :: "(string \<Rightarrow> ip option) \<Rightarrow> bool \<Rightarrow> (8 word list \<Rightarrow> 8 word list option) \<Rightarrow> string \<Rightarrow> bool \<Rightarrow> string \<Rightarrow>
    socks4_error + 8 word list" where
  "socks4_dial parse_ip connects talk username is4a addr =
     (if \<not> connects then Inl SocksConnect
      else case split_host_port addr of
        None \<Rightarrow> Inl SocksAddress
      | Some hp \<Rightarrow>
          let req = socks4_request parse_ip username is4a hp in
          (case talk req of
             None \<Rightarrow> Inl SocksWrite
           | Some resp \<Rightarrow>
               if length resp < 8 then Inl SocksRead
               else if resp ! 1 \<noteq> 90 then Inl (SocksRejected (resp ! 1))
               else Inr req))"

section \<open>Proxies of tasks\<close>

record proxy_manager =
  pm_global :: "proxy_config option"
  pm_tasks :: "string \<rightharpoonup> proxy_config"

definition new_proxy_manager :: proxy_manager where
  "new_proxy_manager = \<lparr>pm_global = None, pm_tasks = Map.empty\<rparr>"

definition set_global_proxy :: "proxy_config option \<Rightarrow> proxy_manager \<Rightarrow> proxy_manager" where
  "set_global_proxy p pm = pm\<lparr>pm_global := p\<rparr>"

definition get_global_proxy :: "proxy_manager \<Rightarrow> proxy_config option" where
  "get_global_proxy pm = pm_global pm"

definition set_task_proxy :: "string \<Rightarrow> proxy_config option \<Rightarrow> proxy_manager \<Rightarrow> proxy_manager" where
  "set_task_proxy tid p pm = pm\<lparr>pm_tasks := (pm_tasks pm)(tid := p)\<rparr>"

definition get_task_proxy :: "string \<Rightarrow> proxy_manager \<Rightarrow> proxy_config option" where
  "get_task_proxy tid pm = (case pm_tasks pm tid of Some p \<Rightarrow> Some p | None \<Rightarrow> pm_global pm)"

definition remove_task_proxy :: "string \<Rightarrow> proxy_manager \<Rightarrow> proxy_manager" where
  "remove_task_proxy tid pm = pm\<lparr>pm_tasks := (pm_tasks pm)(tid := None)\<rparr>"

definition clear_global_proxy :: "proxy_manager \<Rightarrow> proxy_manager" where
  "clear_global_proxy pm = pm\<lparr>pm_global := None\<rparr>"

definition get_proxy_for_task :: "string \<Rightarrow> proxy_manager \<Rightarrow> proxy_config option" where
  "get_proxy_for_task tid pm = get_task_proxy tid pm"

text \<open>The proxy of a downloader and the client made for it; \<open>SetProxy\<close> replaces both.\<close>

record downloader_proxy =
  dp_proxy :: "proxy_config option"
  dp_client :: proxy_client

definition set_proxy :: "bool \<Rightarrow> proxy_config option \<Rightarrow> downloader_proxy" where
  "set_proxy dialer cfg = \<lparr>dp_proxy = cfg, dp_client = create_client_with_proxy dialer cfg\<rparr>"

definition get_proxy :: "downloader_proxy \<Rightarrow> proxy_config option" where
  "get_proxy d = dp_proxy d"

section \<open>Digest authentication sends the password\<close>

text \<open>
  A transport that is to use digest authentication sends the user name and the password themselves, in
  basic authentication, with its first request, before the proxy has asked for anything.
\<close>
theorem digest_sends_password:
  assumes "pa_digest t" "pa_username t \<noteq> []" "pa_password t \<noteq> []" "pa_nonce t = []" "\<not> should_exclude t (qr_host rq)"
  shows "\<exists>code. qr_header (hd (fst (snd (round_trip md5 now send rq t)))) ''Proxy-Authorization'' = Some (''Basic '' @ code) \<and>
    b64_decode code = Some (string_bytes (pa_username t @ '':'' @ pa_password t))"
proof -
  have "hd (fst (snd (round_trip md5 now send rq t))) = authorize md5 (now 0) t rq"
    using assms(5) by (simp add: round_trip_def Let_def split: option.split)
  then show ?thesis
    using assms(2-4) by (simp add: authorize_def set_proxy_authorization_def basic_auth_def string_bytes_def)
qed

theorem digest_sends_password_witness:
  "let rq = \<lparr>qr_method = ''GET'', qr_host = ''h'', qr_uri = ''/f'', qr_header = Map.empty\<rparr>;
       t = new_proxy_auth ''user'' ''pass'' True [] in
    \<exists>code. qr_header (hd (fst (snd (round_trip id (\<lambda>_. ''now'') (\<lambda>_ _. None) rq t)))) ''Proxy-Authorization'' = Some (''Basic '' @ code) \<and>
      b64_decode code = Some (string_bytes ''user:pass'')"
  using digest_sends_password [of "new_proxy_auth ''user'' ''pass'' True []"
      "\<lparr>qr_method = ''GET'', qr_host = ''h'', qr_uri = ''/f'', qr_header = Map.empty\<rparr>" id "\<lambda>_. ''now''" "\<lambda>_ _. None"]
  by (simp add: new_proxy_auth_def should_exclude_def Let_def)

section \<open>What a SOCKS4 server reads\<close>

text \<open>The protocol: version, command, port, address, user; a name follows an address of the form 0.0.0.x.\<close>

datatype socks_target = SocksAddr "8 word list" | SocksName "8 word list"

definition until_zero :: "8 word list \<Rightarrow> (8 word list \<times> 8 word list) option" where
  "until_zero bs = (if 0 \<in> set bs then Some (takeWhile (\<lambda>b. b \<noteq> 0) bs, tl (dropWhile (\<lambda>b. b \<noteq> 0) bs)) else None)"

definition socks4_parse :: "8 word list \<Rightarrow> (int \<times> 8 word list \<times> socks_target) option" where
  "socks4_parse bs =
     (case bs of
        v # c # p1 # p2 # a # b # d # e # rest \<Rightarrow>
          if v \<noteq> 4 \<or> c \<noteq> 1 then None
          else (case until_zero rest of
              None \<Rightarrow> None
            | Some (user, names) \<Rightarrow>
                let port = 256 * uint p1 + uint p2 in
                if a = 0 \<and> b = 0 \<and> d = 0 \<and> e \<noteq> 0
                then (case until_zero names of
                    None \<Rightarrow> None | Some (name, _) \<Rightarrow> Some (port, user, SocksName name))
                else Some (port, user, SocksAddr [a, b, d, e]))
      | _ \<Rightarrow> None)"

lemma until_zero_append: "0 \<notin> set xs \<Longrightarrow> until_zero (xs @ 0 # ys) = Some (xs, ys)"
  by (induction xs) (auto simp: until_zero_def)

lemma port_bytes:
  assumes "0 \<le> p" "p < 65536"
  shows "256 * uint (word_of_int (p div 256) :: 8 word) + uint (word_of_int p :: 8 word) = p"
proof -
  have "p div 256 < 256" using assms by linarith
  then show ?thesis using assms by (simp add: uint_word_of_int take_bit_eq_mod)
qed

lemma scan_port_digits: "s \<noteq> [] \<Longrightarrow> list_all is_digit s \<Longrightarrow> atoi_digits s = Some p \<Longrightarrow> in_i64 p \<Longrightarrow> scan_port s = p"
proof -
  assume s: "s \<noteq> []" "list_all is_digit s" "atoi_digits s = Some p" "in_i64 p"
  then have t: "takeWhile is_digit s = s" by (simp add: takeWhile_eq_all_conv list_all_iff)
  have "\<not> has_prefix s ''-''" "\<not> has_prefix s ''+''" using s(1,2) by (cases s; auto simp: is_digit_def)+
  then show ?thesis using s(3,4) by (simp add: scan_port_def t)
qed

text \<open>
  The request says what it should over SOCKS4a and for literal IPv4 addresses. A host name over plain SOCKS4
  is replaced by 127.0.0.1: the proxy is asked to connect to itself.
\<close>
theorem socks4_request_target:
  assumes "port \<noteq> []" "list_all is_digit port" "atoi_digits port = Some p" "0 \<le> p" "p < 65536"
    "0 \<notin> set (string_bytes user)" "0 \<notin> set (string_bytes host)" "0 < (hd a :: int)" "hd a < 256" "length a = 4"
    "target = (if is4a then SocksName (string_bytes host)
       else if parse_ip host = Some a then SocksAddr (map word_of_int a) else SocksAddr [127, 0, 0, 1])"
    "is4a \<or> parse_ip host \<in> {Some a, None}"
  shows "socks4_parse (socks4_request parse_ip user is4a (host, port)) = Some (p, string_bytes user, target)"
proof -
  have "scan_port port = p" using scan_port_digits assms(1-5) by (simp add: in_i64_def)
  moreover obtain a1 a2 a3 a4 where a: "a = [a1, a2, a3, a4]"
    using assms(10) by (auto simp: numeral_eq_Suc length_Suc_conv)
  have "(word_of_int a1 :: 8 word) \<noteq> 0"
  proof
    assume "(word_of_int a1 :: 8 word) = 0"
    then have "uint (word_of_int a1 :: 8 word) = 0" by simp
    then show False using assms(8,9) a by (simp add: uint_word_of_int take_bit_eq_mod)
  qed
  ultimately show ?thesis
    using assms(4-7,11,12) a until_zero_append port_bytes
    by (auto simp: socks4_request_def socks4_address_def socks4_parse_def ip_to4_def Let_def)
qed

theorem socks4_request_target_witness:
  "let parse = (\<lambda>h. if h = ''1.2.3.4'' then Some [1, 2, 3, 4] else None) in
    socks4_parse (socks4_request parse ''u'' False (''example.com'', ''443'')) = Some (443, string_bytes ''u'', SocksAddr [127, 0, 0, 1]) \<and>
    socks4_parse (socks4_request parse ''u'' True (''example.com'', ''443'')) = Some (443, string_bytes ''u'', SocksName (string_bytes ''example.com''))"
proof -
  have "atoi_digits ''443'' = Some 443" "list_all is_digit ''443''" "0 \<notin> set (string_bytes ''u'')" "0 \<notin> set (string_bytes ''example.com'')"
    by code_simp+
  then show ?thesis
    using socks4_request_target [of "''443''" 443 "''u''" "''example.com''" "[1, 2, 3, 4]" _ False "\<lambda>h. if h = ''1.2.3.4'' then Some [1, 2, 3, 4] else None"]
      socks4_request_target [of "''443''" 443 "''u''" "''example.com''" "[1, 2, 3, 4]" _ True "\<lambda>h. if h = ''1.2.3.4'' then Some [1, 2, 3, 4] else None"]
    by (simp add: Let_def)
qed

end
