(* ===== verification/Metalink.thy ===== *)
theory Metalink
  imports Retry GoPath
begin

text \<open>
  Downloads described by a metalink file, \<open>internal/downloader/metalink.go\<close>. The XML decoder, the download of
  one file and the check of one checksum are arguments; \<open>'w\<close> is the state they work on.
\<close>

section \<open>Files\<close>

record metalink_url =
  mu_priority :: int
  mu_kind :: string
  mu_location :: string
  mu_url :: string

record metalink_file =
  mf_name :: string
  mf_size :: int
  mf_hashes :: "(string \<times> string) list"  \<comment> \<open>type and value\<close>
  mf_urls :: "metalink_url list"

record metalink_downloader =
  ml_path :: string
  ml_output :: string
  ml_files :: "metalink_file list"
  ml_index :: int

definition new_metalink_downloader :: "string \<Rightarrow> string \<Rightarrow> metalink_downloader" where
  "new_metalink_downloader path out = \<lparr>ml_path = path, ml_output = out, ml_files = [], ml_index = 0\<rparr>"

definition metalink_progress :: "metalink_downloader \<Rightarrow> rat" where
  "metalink_progress m =
     (if ml_files m = [] then 0
      else f64 (f64 (of_int (i32 (ml_index m + 1))) / f64 (of_nat (length (ml_files m)))))"

section \<open>Parsing\<close>

text \<open>
  \<open>dec4\<close> and \<open>dec3\<close> decode the two versions of the format: the namespace or the version, and the files.
\<close>

record metalink_codec =
  mc_dec4 :: "string \<Rightarrow> (string \<times> metalink_file list) option"
  mc_dec3 :: "string \<Rightarrow> (string \<times> metalink_file list) option"

datatype metalink_error =
    MlRead
  | MlParse
  | MlNoFiles
  | MlMkdir
  | MlCancelled
  | MlDownload go_error
  | MlChecksum string string

definition parse_metalink :: "metalink_codec \<Rightarrow> string option \<Rightarrow> metalink_downloader \<Rightarrow> metalink_downloader \<times> metalink_error option" where
  "parse_metalink cd bytes m =
     (case bytes of
        None \<Rightarrow> (m, Some MlRead)
      | Some b \<Rightarrow> (case mc_dec4 cd b of
          Some (ns, files) \<Rightarrow>
            if ns \<noteq> [] then (m\<lparr>ml_files := files\<rparr>, None)
            else (case mc_dec3 cd b of
                Some (ver, fs) \<Rightarrow> if ver \<noteq> [] then (m\<lparr>ml_files := fs\<rparr>, None) else (m, Some MlParse)
              | None \<Rightarrow> (m, Some MlParse))
        | None \<Rightarrow> (case mc_dec3 cd b of
              Some (ver, fs) \<Rightarrow> if ver \<noteq> [] then (m\<lparr>ml_files := fs\<rparr>, None) else (m, Some MlParse)
            | None \<Rightarrow> (m, Some MlParse))))"

section \<open>The mirror\<close>

definition url_priority :: "metalink_url \<Rightarrow> int" where
  "url_priority u = (if mu_priority u = 0 then 100 else mu_priority u)"

definition best_url_from :: "metalink_url list \<Rightarrow> int \<times> string \<Rightarrow> int \<times> string" where
  "best_url_from us best = foldl (\<lambda>(p, b) u. if url_priority u < p then (url_priority u, mu_url u) else (p, b)) best us"

definition get_best_url :: "metalink_file \<Rightarrow> string" where
  "get_best_url f =
     (let best = snd (best_url_from (mf_urls f) (9999, []));
          url = (if best = [] \<and> mf_urls f \<noteq> [] then mu_url (hd (mf_urls f)) else best)
      in trim_space url)"

section \<open>Downloading\<close>

text \<open>
  \<open>fetch\<close> downloads a URL to a path, \<open>verify\<close> compares a checksum (\<open>None\<close> if it cannot be computed), \<open>cancelled i\<close>
  is whether the context is done before the i-th file.
\<close>

record 'w metalink_world =
  mw_mkdir :: "string \<Rightarrow> 'w \<Rightarrow> 'w \<times> bool"
  mw_fetch :: "string \<Rightarrow> string \<Rightarrow> 'w \<Rightarrow> 'w \<times> go_error option"
  mw_verify :: "string \<Rightarrow> string \<Rightarrow> string \<Rightarrow> 'w \<Rightarrow> bool option"
  mw_cancelled :: "nat \<Rightarrow> bool"

text \<open>The checksums in order: one that cannot be computed is skipped, the first other one decides.\<close>

fun check_hashes :: "(string \<Rightarrow> string \<Rightarrow> bool option) \<Rightarrow> (string \<times> string) list \<Rightarrow> string option" where
  "check_hashes verify [] = None"
| "check_hashes verify ((kind, value) # hs) =
     (case verify kind value of
        None \<Rightarrow> check_hashes verify hs
      | Some valid \<Rightarrow> if valid then None else Some kind)"

definition metalink_target :: "metalink_downloader \<Rightarrow> metalink_file \<Rightarrow> string" where
  "metalink_target m f = path_join (ml_output m) (mf_name f)"

definition fetch_file :: "'w metalink_world \<Rightarrow> metalink_downloader \<Rightarrow> metalink_file \<Rightarrow> 'w \<Rightarrow> 'w \<times> metalink_error option" where
  "fetch_file mw m f w =
     (case mw_fetch mw (get_best_url f) (metalink_target m f) w of
        (w1, Some e) \<Rightarrow> (w1, Some (MlDownload e))
      | (w1, None) \<Rightarrow>
          (case check_hashes (\<lambda>k v. mw_verify mw (metalink_target m f) k v w1) (mf_hashes f) of
             None \<Rightarrow> (w1, None)
           | Some kind \<Rightarrow> (w1, Some (MlChecksum (mf_name f) kind))))"

fun fetch_files :: "'w metalink_world \<Rightarrow> nat \<Rightarrow> metalink_file list \<Rightarrow> metalink_downloader \<Rightarrow> 'w \<Rightarrow>
    metalink_downloader \<times> 'w \<times> metalink_error option" where
  "fetch_files mw i [] m w = (m, w, None)"
| "fetch_files mw i (f # fs) m w =
     (if mw_cancelled mw i then (m, w, Some MlCancelled)
      else
        let m1 = m\<lparr>ml_index := i32 (int i)\<rparr> in
        if get_best_url f = [] then fetch_files mw (i + 1) fs m1 w
        else (case fetch_file mw m1 f w of
            (w1, Some e) \<Rightarrow> (m1, w1, Some e)
          | (w1, None) \<Rightarrow> fetch_files mw (i + 1) fs m1 w1))"

definition metalink_download :: "metalink_codec \<Rightarrow> 'w metalink_world \<Rightarrow> string option \<Rightarrow> metalink_downloader \<Rightarrow> 'w \<Rightarrow>
    metalink_downloader \<times> 'w \<times> metalink_error option" where
  "metalink_download cd mw bytes m w =
     (case parse_metalink cd bytes m of
        (m1, Some e) \<Rightarrow> (m1, w, Some e)
      | (m1, None) \<Rightarrow>
          if ml_files m1 = [] then (m1, w, Some MlNoFiles)
          else (case mw_mkdir mw (ml_output m1) w of
              (w1, False) \<Rightarrow> (m1, w1, Some MlMkdir)
            | (w1, True) \<Rightarrow> fetch_files mw 0 (ml_files m1) m1 w1))"

definition is_metalink_file :: "string \<Rightarrow> bool" where
  "is_metalink_file path = (let ext = to_lower (path_ext path) in ext = ''.metalink'' \<or> ext = ''.meta4'')"

section \<open>Properties\<close>

lemma best_url_from_step:
  "best_url_from (u # us) (p, b) = best_url_from us (if url_priority u < p then (url_priority u, mu_url u) else (p, b))"
  by (simp add: best_url_from_def)

lemma best_url_from_least:
  "fst (best_url_from us (p, b)) \<le> p \<and> (u \<in> set us \<longrightarrow> fst (best_url_from us (p, b)) \<le> url_priority u) \<and>
   (best_url_from us (p, b) = (p, b) \<or> (\<exists>v\<in>set us. best_url_from us (p, b) = (url_priority v, mu_url v)))"
proof (induction us arbitrary: p b)
  case (Cons x xs)
  show ?case
    using Cons.IH [of "url_priority x" "mu_url x"] Cons.IH [of p b] unfolding best_url_from_step
    by (cases "url_priority x < p") auto
qed (simp add: best_url_from_def)

text \<open>Of the mirrors of a file with the usual priorities, one of the smallest is taken, and only that one is tried.\<close>
theorem best_url_least:
  assumes "u \<in> set (mf_urls f)" "url_priority u < 9999" "list_all (\<lambda>u. mu_url u \<noteq> []) (mf_urls f)"
  shows "\<exists>v\<in>set (mf_urls f). get_best_url f = trim_space (mu_url v) \<and> url_priority v \<le> url_priority u"
proof -
  from best_url_from_least [of "mf_urls f" 9999 "[]" u] assms(1,2)
  obtain v where v: "v \<in> set (mf_urls f)" "best_url_from (mf_urls f) (9999, []) = (url_priority v, mu_url v)"
    "url_priority v \<le> url_priority u" by fastforce
  moreover have "mu_url v \<noteq> []" using assms(3) v(1) by (simp add: list_all_iff)
  ultimately show ?thesis by (auto simp: get_best_url_def Let_def)
qed

theorem best_url_least_witness:
  "let f = \<lparr>mf_name = ''f'', mf_size = 1, mf_hashes = [], mf_urls =
        [\<lparr>mu_priority = 0, mu_kind = [], mu_location = [], mu_url = ''http://a''\<rparr>,
         \<lparr>mu_priority = 2, mu_kind = [], mu_location = [], mu_url = ''http://b ''\<rparr>]\<rparr> in
    get_best_url f = ''http://b'' \<and> get_best_url f \<in> trim_space ` mu_url ` set (mf_urls f)"
proof -
  let ?f = "\<lparr>mf_name = ''f'', mf_size = 1, mf_hashes = [], mf_urls =
        [\<lparr>mu_priority = 0, mu_kind = [], mu_location = [], mu_url = ''http://a''\<rparr>,
         \<lparr>mu_priority = 2, mu_kind = [], mu_location = [], mu_url = ''http://b ''\<rparr>]\<rparr>"
  have "get_best_url ?f = ''http://b''" by code_simp
  moreover have "\<exists>v\<in>set (mf_urls ?f). get_best_url ?f = trim_space (mu_url v) \<and> url_priority v \<le> 2"
    using best_url_least [of "\<lparr>mu_priority = 2, mu_kind = [], mu_location = [], mu_url = ''http://b ''\<rparr>" ?f]
    by (simp add: url_priority_def)
  then have "get_best_url ?f \<in> trim_space ` mu_url ` set (mf_urls ?f)" by blast
  ultimately show ?thesis by (simp only: Let_def simp_thms)
qed

text \<open>What a file was accepted with: no checksum of it that can be computed, or the first such one matches.\<close>

lemma check_hashes_None:
  "check_hashes verify hs = None \<longleftrightarrow>
     (case filter (\<lambda>(k, v). verify k v \<noteq> None) hs of [] \<Rightarrow> True | (k, v) # _ \<Rightarrow> verify k v = Some True)"
  by (induction hs) (auto split: option.split if_splits)

lemma fetch_files_ok:
  assumes "fetch_files mw i fs m w = (m', w', None)" "f \<in> set fs" "get_best_url f \<noteq> []"
  shows "\<exists>w1 w2. mw_fetch mw (get_best_url f) (path_join (ml_output m) (mf_name f)) w1 = (w2, None) \<and>
    check_hashes (\<lambda>k v. mw_verify mw (path_join (ml_output m) (mf_name f)) k v w2) (mf_hashes f) = None"
  using assms
proof (induction fs arbitrary: i m w)
  case (Cons g gs)
  let ?m = "m\<lparr>ml_index := i32 (int i)\<rparr>"
  show ?case
  proof (cases "get_best_url g = []")
    case True
    with Cons show ?thesis by (fastforce split: if_splits)
  next
    case False
    obtain w1 e where e: "fetch_file mw ?m g w = (w1, e)" by fastforce
    with Cons.prems(1) False have "e = None" and rest: "fetch_files mw (i + 1) gs ?m w1 = (m', w', None)"
      by (auto split: if_splits option.splits simp: Let_def)
    show ?thesis
    proof (cases "f = g")
      case True
      with e \<open>e = None\<close> show ?thesis
        by (auto simp: fetch_file_def metalink_target_def split: prod.splits option.splits)
    next
      case False
      with Cons.IH [OF rest] Cons.prems(2,3) show ?thesis by simp
    qed
  qed
qed simp


definition demo_metalink_file :: metalink_file where
  "demo_metalink_file = \<lparr>mf_name = ''f'', mf_size = 1, mf_hashes = [(''odd'', ''0''), (''md5'', ''1'')],
     mf_urls = [\<lparr>mu_priority = 0, mu_kind = [], mu_location = [], mu_url = ''http://a''\<rparr>]\<rparr>"

definition demo_metalink_world :: "string list metalink_world" where
  "demo_metalink_world = \<lparr>mw_mkdir = (\<lambda>_ w. (w, True)), mw_fetch = (\<lambda>u p w. (p # w, None)),
     mw_verify = (\<lambda>p k v w. if k = ''md5'' then Some (v = ''1'') else None), mw_cancelled = (\<lambda>_. False)\<rparr>"

definition demo_metalink_codec :: metalink_codec where
  "demo_metalink_codec = \<lparr>mc_dec4 = (\<lambda>_. Some (''urn'', [demo_metalink_file])), mc_dec3 = (\<lambda>_. None)\<rparr>"


text \<open>The name of a file is not checked: it can lead out of the directory of the download.\<close>

lemma metalink_name_escapes:
  "metalink_target (new_metalink_downloader ''l.meta4'' ''/srv/dl'') \<lparr>mf_name = ''../../etc/x'', mf_size = 0, mf_hashes = [], mf_urls = []\<rparr>
   = ''/etc/x''"
  by code_simp

end
