(* ===== verification/CommandLine.thy ===== *)
theory CommandLine
  imports Requests DiskTree JsonRpc EventBus
begin

text \<open>
  The command line program, \<open>cmd/afd/main.go\<close>: the options of a download and what becomes of its arguments,
  the download itself with the file name the server suggests, batches, the progress line, the client of
  the RPC server, and the order in which the service is taken down. Flag parsing is not code of the
  repository: the commands get their options as a record. Downloader, server and disk are arguments.
\<close>

section \<open>Sizes\<close>

text \<open>
  \<open>formatBytes\<close>. The loop multiplies a divisor of type \<open>int64\<close> until it is large enough, so it is written as a
  partial function: \<open>None\<close> if it does not end.
\<close>

partial_function (option) unit_loop :: "int \<Rightarrow> int \<Rightarrow> int \<Rightarrow> (int \<times> int) option" where
  "unit_loop n divisor e =
     (if i64 (divisor * 1024) \<le> n then unit_loop n (i64 (divisor * 1024)) (i64 (e + 1)) else Some (divisor, e))"

text \<open>\<open>fmt\<close> with the verb \<open>%.1f\<close> of a float that is not negative.\<close>

definition show_tenths :: "rat \<Rightarrow> string" where
  "show_tenths x = (let n = round_half_even (x * 10) in show_int (n div 10) @ ''.'' @ show_int (n mod 10))"

definition format_bytes :: "int \<Rightarrow> string option" where
  "format_bytes n =
     (if n < 1024 then Some (show_int n @ '' B'')
      else map_option (\<lambda>(divisor, e).
          show_tenths (f64 (f64 (of_int n) / f64 (of_int divisor))) @ '' '' @ [''KMGTPE'' ! nat e] @ ''B'')
        (unit_loop n 1024 0))"

section \<open>Options\<close>

record dl_options =
  op_parallel :: int
  op_output :: string
  op_explicit :: bool
  op_speed_limit :: string
  op_timeout :: int
  op_input_file :: string
  op_dir :: string
  op_adaptive :: bool
  op_insecure :: bool
  op_quiet :: bool
  op_no_netrc :: bool
  op_piece_selector :: string
  op_uri_selector :: string
  op_user_agent :: string
  op_headers :: "string list"
  op_referer :: string
  op_http_user :: string
  op_http_password :: string
  op_spider :: bool
  op_server_response :: bool
  op_no_disposition :: bool
  op_remote_time :: bool
  op_max_time :: int

datatype cl_error =
    BadLimit string
  | BadLimitSuffix string
  | BadHeader string
  | NotCreated go_error
  | NotDownloaded go_error
  | Interrupted
  | BadRequest
  | NoReply go_error
  | BadStatus string
  | OutputMissing
  | UnreadableFile
  | NoLinks

text \<open>\<open>fmt.Sscanf\<close> skips blanks, but not a newline.\<close>

definition scan_skip :: "string \<Rightarrow> string option" where
  "scan_skip s =
     (let t = dropWhile (\<lambda>c. is_space c \<and> c \<noteq> CHR 0x0A) s in
      if t \<noteq> [] \<and> hd t = CHR 0x0A then None else Some t)"

text \<open>\<open>fmt.Sscanf\<close> with \<open>%d%s\<close>: no number is an error, no text is not.\<close>

definition scan_limit :: "string \<Rightarrow> (int \<times> string) option" where
  "scan_limit s =
     (case scan_skip s of
        None \<Rightarrow> None
      | Some t \<Rightarrow>
          let sign = (if has_prefix t ''-'' \<or> has_prefix t ''+'' then take 1 t else []);
              digits = takeWhile is_digit (drop (length sign) t) in
          (case atoi (sign @ digits) of
             None \<Rightarrow> None
           | Some n \<Rightarrow> Some (n, case scan_skip (drop (length sign + length digits) t) of
                 None \<Rightarrow> [] | Some u \<Rightarrow> takeWhile (\<lambda>c. \<not> is_space c) u)))"

definition parse_limit :: "string \<Rightarrow> cl_error + int" where
  "parse_limit s =
     (case scan_limit s of
        None \<Rightarrow> Inl (BadLimit s)
      | Some (limit, sfx) \<Rightarrow>
          let low = to_lower sfx in
          if low = [] \<or> low = ''b'' then Inr limit
          else if low = ''k'' then Inr (i64 (limit * 1024))
          else if low = ''m'' then Inr (i64 (limit * (1024 * 1024)))
          else if low = ''g'' then Inr (i64 (limit * (1024 * 1024 * 1024)))
          else Inl (BadLimitSuffix low))"

text \<open>Header options in the form \<open>Key: Value\<close>; a later one replaces an earlier one with the same key.\<close>

fun parse_headers :: "string list \<Rightarrow> (string \<rightharpoonup> string) \<Rightarrow> cl_error + (string \<rightharpoonup> string)" where
  "parse_headers [] m = Inr m"
| "parse_headers (h # hs) m =
     (if CHR '':'' \<in> set h \<and> before CHR '':'' h \<noteq> [] then
        let key = trim_space (before CHR '':'' h); val = trim_space (after CHR '':'' h)
        in parse_headers hs (if key \<noteq> [] then m(key \<mapsto> val) else m)
      else Inl (BadHeader h))"

definition http_settings :: "dl_options \<Rightarrow> http_options \<Rightarrow> http_options" where
  "http_settings p o0 =
     (let o1 = (if op_no_netrc p then o0\<lparr>ho_no_netrc := True\<rparr> else o0);
          o2 = (if op_piece_selector p \<noteq> [] then o1\<lparr>ho_piece_selector := op_piece_selector p\<rparr> else o1);
          o3 = (if op_uri_selector p \<noteq> [] then o2\<lparr>ho_uri_selector := op_uri_selector p\<rparr> else o2);
          o4 = (if op_user_agent p \<noteq> [] then o3\<lparr>ho_user_agent := op_user_agent p\<rparr> else o3);
          o5 = (if op_referer p \<noteq> [] then o4\<lparr>ho_referer := op_referer p\<rparr> else o4);
          o6 = (if op_http_user p \<noteq> [] then o5\<lparr>ho_username := op_http_user p, ho_password := op_http_password p\<rparr> else o5);
          o7 = (if op_remote_time p then o6\<lparr>ho_remote_time := True\<rparr> else o6)
      in o7\<lparr>ho_quiet := op_quiet p\<rparr>)"

definition transfer_settings :: "dl_options \<Rightarrow> int \<Rightarrow> download_config \<Rightarrow> download_config" where
  "transfer_settings p limit c0 =
     (let c1 = c0\<lparr>dc_speed_limit := limit\<rparr>;
          c2 = (if op_timeout p > 0 then c1\<lparr>dc_timeout := i64 (op_timeout p * 1000000000)\<rparr> else c1);
          c3 = (if op_parallel p > 0 then c2\<lparr>dc_max_connections := op_parallel p\<rparr> else c2);
          c4 = (if op_adaptive p then c3\<lparr>dc_adaptive := True\<rparr> else c3)
      in if op_insecure p then c4\<lparr>dc_insecure := True\<rparr> else c4)"

text \<open>All of \<open>doDownload\<close> up to the start of the logger.\<close>

definition option_config :: "dl_options \<Rightarrow> cl_error + download_config" where
  "option_config p =
     (let c0 = default_download_config in
      case (if op_speed_limit p \<noteq> [] then parse_limit (op_speed_limit p) else Inr (dc_speed_limit c0)) of
        Inl e \<Rightarrow> Inl e
      | Inr limit \<Rightarrow>
          let c1 = transfer_settings p limit c0; c2 = c1\<lparr>dc_http := http_settings p (dc_http c1)\<rparr> in
          if op_headers p = [] then Inr c2
          else (case parse_headers (op_headers p) Map.empty of
              Inl e \<Rightarrow> Inl e
            | Inr m \<Rightarrow> Inr (c2\<lparr>dc_http := (dc_http c2)\<lparr>ho_headers := m\<rparr>\<rparr>)))"

section \<open>Arguments\<close>

definition looks_like_host_port :: "string \<Rightarrow> bool" where
  "looks_like_host_port s \<longleftrightarrow> CHR '':'' \<in> set s \<and> list_all is_digit (after_last CHR '':'' s)"

definition complete_scheme :: "string \<Rightarrow> string" where
  "complete_scheme s =
     (if contains s ''://'' then s
      else if CHR '':'' \<notin> set s \<or> looks_like_host_port s then ''http://'' @ s else s)"

definition forbidden_char :: "char \<Rightarrow> bool" where
  "forbidden_char c \<longleftrightarrow> c \<in> {CHR 0x5C, CHR ''/'', CHR '':'', CHR ''*'', CHR ''?'', CHR 0x22, CHR ''<'', CHR ''>'', CHR ''|''}"

definition sanitize_filename :: "string \<Rightarrow> string" where
  "sanitize_filename = map (\<lambda>c. if forbidden_char c then CHR ''_'' else c)"

text \<open>\<open>inferFilename\<close>: a name is always found.\<close>

definition infer_filename :: "string \<Rightarrow> string" where
  "infer_filename raw =
     (case url_parse raw of
        None \<Rightarrow>
          let name = path_base raw in
          if name = ''.'' \<or> name = ''/'' \<or> name = [] \<or> name = [CHR 0x5C] then ''index.html'' else sanitize_filename name
      | Some u \<Rightarrow>
          let name = path_base (u_path u) in
          if name = ''.'' \<or> name = ''/'' \<or> name = [] then ''index.html'' else sanitize_filename name)"

text \<open>What \<open>dl\<close> makes of its options and arguments.\<close>

datatype dl_plan = ShowHelp | BatchFile string | NoOutputPath | SingleFile string string bool

definition single_plan :: "dl_options \<Rightarrow> string \<Rightarrow> string list \<Rightarrow> dl_plan" where
  "single_plan p arg more_args =
     (let url = complete_scheme arg;
          second = op_output p = [] \<and> more_args \<noteq> [];
          given = (if second then hd more_args else op_output p);
          explicit = second \<or> op_explicit p;
          name = infer_filename url;
          out = (if given = [] then (if op_dir p \<noteq> [] then path_join (op_dir p) name else name) else given)
      in if out = [] \<or> has_prefix out ''-'' then NoOutputPath else SingleFile url out explicit)"

definition dl_plan_of :: "dl_options \<Rightarrow> string list \<Rightarrow> dl_plan" where
  "dl_plan_of p args =
     (if op_input_file p \<noteq> [] then BatchFile (op_input_file p)
      else case args of [] \<Rightarrow> ShowHelp | a # rest \<Rightarrow> single_plan p a rest)"

section \<open>The suggested file name\<close>

text \<open>The new path of the file.\<close>

definition rename_suggested :: "host \<Rightarrow> dl_options \<Rightarrow> string \<Rightarrow> bool \<Rightarrow> string \<Rightarrow> disk \<Rightarrow> disk \<times> string" where
  "rename_suggested h p out explicit cd d =
     (let name = parse_content_disposition_filename cd in
      if explicit \<or> op_no_disposition p \<or> cd = [] \<or> name = [] then (d, out)
      else
        let new = path_join (path_dir out) (sanitize_filename name) in
        if new = out \<or> os_exists h new d then (d, out)
        else (case os_rename h out new d of (d1, ok) \<Rightarrow> (d1, if ok then new else out)))"

section \<open>Probing only\<close>

text \<open>\<open>ks\<close> is the order in which the custom headers are visited.\<close>

definition apply_cfg_headers :: "string list \<Rightarrow> download_config \<Rightarrow> headers \<Rightarrow> headers" where
  "apply_cfg_headers ks cfg h =
     (let opts = dc_http cfg;
          h1 = header_set ''User-Agent'' (if ho_user_agent opts \<noteq> [] then ho_user_agent opts else ''AFD/0.3'') h;
          h2 = (if ho_referer opts \<noteq> [] then header_set ''Referer'' (ho_referer opts) h1 else h1);
          h3 = foldl (\<lambda>g k. header_set k (the (ho_headers opts k)) g) h2 ks
      in if ho_username opts \<noteq> [] then header_set ''Authorization'' (basic_auth (ho_username opts) (ho_password opts)) h3
         else h3)"

text \<open>
  What a command meets: whether a request and a downloader can be made for the URL, the answer to a HEAD
  request and its header as it is printed, the download (which may change the disk and fails with an
  error), whether its context is done by then, and what the downloader knows afterwards.
\<close>

record cl_world =
  cw_request_ok :: "string \<Rightarrow> bool"
  cw_header_keys :: "string list"
  cw_head :: "string \<Rightarrow> headers \<Rightarrow> answer"
  cw_print :: "reply \<Rightarrow> string"
  cw_make :: "string \<Rightarrow> string \<Rightarrow> download_config \<Rightarrow> go_error option"
  cw_fetch :: "string \<Rightarrow> string \<Rightarrow> download_config \<Rightarrow> disk \<Rightarrow> disk \<times> go_error option"
  cw_cancelled :: bool
  cw_disposition :: string
  cw_size :: int
  cw_downloaded :: int
  cw_elapsed :: duration

definition head_reply :: "cl_world \<Rightarrow> string \<Rightarrow> download_config \<Rightarrow> cl_error + reply" where
  "head_reply w url cfg =
     (if \<not> cw_request_ok w url then Inl BadRequest
      else case cw_head w url (apply_cfg_headers (cw_header_keys w) cfg Map.empty) of
        NoAnswer e \<Rightarrow> Inl (NoReply e)
      | Answer r \<Rightarrow> Inr r)"

definition reply_status :: "reply \<Rightarrow> string" where
  "reply_status r = show_int (rp_status r) @ '' '' @ rp_text r"

text \<open>The lines \<open>doSpider\<close> prints; \<open>None\<close> if it does not come to an end.\<close>

definition spider_lines :: "cl_world \<Rightarrow> string \<Rightarrow> bool \<Rightarrow> reply \<Rightarrow> string list option" where
  "spider_lines w url headers_too r =
     (case (if rp_length r \<ge> 0
            then map_option (\<lambda>s. ''Size: '' @ show_int (rp_length r) @ '' ('' @ s @ '')'') (format_bytes (rp_length r))
            else Some ''Size: unknown'') of
        None \<Rightarrow> None
      | Some sz \<Rightarrow> Some ([''HTTP '' @ reply_status r] @ (if headers_too then [cw_print w r] else []) @
          [''URL: '' @ url, sz] @
          (if rp_header r ''Content-Type'' \<noteq> [] then [''Content-Type: '' @ rp_header r ''Content-Type''] else []) @
          [''Supports Range: '' @ (if rp_header r ''Accept-Ranges'' = ''bytes'' then ''true'' else ''false'')]))"

datatype cl_outcome = Stuck | Returned "cl_error option"

definition do_spider :: "cl_world \<Rightarrow> string \<Rightarrow> download_config \<Rightarrow> bool \<Rightarrow> cl_outcome" where
  "do_spider w url cfg headers_too =
     (case head_reply w url cfg of
        Inl e \<Rightarrow> Returned (Some e)
      | Inr r \<Rightarrow> (case spider_lines w url headers_too r of
            None \<Rightarrow> Stuck
          | Some _ \<Rightarrow> Returned (if rp_status r \<ge> 400 then Some (BadStatus (reply_status r)) else None)))"

text \<open>The headers printed before a download with \<open>--server-response\<close>; an error is only logged.\<close>

definition probe_and_print_headers :: "cl_world \<Rightarrow> string \<Rightarrow> download_config \<Rightarrow> cl_error + string list" where
  "probe_and_print_headers w url cfg =
     (case head_reply w url cfg of
        Inl e \<Rightarrow> Inl e
      | Inr r \<Rightarrow> Inr [''HTTP '' @ reply_status r, cw_print w r])"

section \<open>One download\<close>

definition average_speed :: "int \<Rightarrow> int \<Rightarrow> duration \<Rightarrow> int" where
  "average_speed sz downloaded elapsed =
     (let base = (if sz \<le> 0 then downloaded else sz); secs = duration_seconds elapsed in
      if secs > 0 then float_to_int (f64 (f64 (of_int base) / secs)) else 0)"

text \<open>The last message holds three sizes.\<close>

definition summary_ends :: "cl_world \<Rightarrow> bool" where
  "summary_ends w \<longleftrightarrow> format_bytes (cw_size w) \<noteq> None \<and> format_bytes (cw_downloaded w) \<noteq> None \<and>
     format_bytes (average_speed (cw_size w) (cw_downloaded w) (cw_elapsed w)) \<noteq> None"

definition do_download :: "host \<Rightarrow> cl_world \<Rightarrow> dl_options \<Rightarrow> string \<Rightarrow> string \<Rightarrow> bool \<Rightarrow> disk \<Rightarrow> disk \<times> cl_outcome" where
  "do_download h w p url out explicit d =
     (case option_config p of
        Inl e \<Rightarrow> (d, Returned (Some e))
      | Inr cfg \<Rightarrow>
          if op_spider p then (d, do_spider w url cfg (op_server_response p))
          else (case cw_make w url out cfg of
              Some e \<Rightarrow> (d, Returned (Some (NotCreated e)))
            | None \<Rightarrow> (case cw_fetch w url out cfg d of
                (d1, Some e) \<Rightarrow> (d1, Returned (Some (if cw_cancelled w then Interrupted else NotDownloaded e)))
              | (d1, None) \<Rightarrow>
                  (fst (rename_suggested h p out explicit (cw_disposition w) d1),
                   if summary_ends w then Returned None else Stuck))))"

section \<open>Batches\<close>

record batch =
  ba_links :: "(string \<times> string) list"  \<comment> \<open>the link and the name that was asked for, or nothing\<close>
  ba_dir :: string
  ba_pending :: string

definition is_link :: "string \<Rightarrow> bool" where
  "is_link l \<longleftrightarrow> has_prefix l ''http://'' \<or> has_prefix l ''https://'' \<or> has_prefix l ''ftp://'' \<or>
     has_prefix l ''magnet:'' \<or> has_prefix l ''file://''"

definition batch_line :: "batch \<Rightarrow> string \<Rightarrow> batch" where
  "batch_line b raw =
     (let l = trim_space raw in
      if l = [] \<or> has_prefix l ''#'' then b
      else if has_prefix l ''dir='' then b\<lparr>ba_dir := drop 4 l\<rparr>
      else if has_prefix l ''out='' then b\<lparr>ba_pending := drop 4 l\<rparr>
      else if is_link l then b\<lparr>ba_links := ba_links b @ [(l, ba_pending b)], ba_pending := []\<rparr>
      else b)"

definition parse_batch :: "string \<Rightarrow> string \<Rightarrow> batch" where
  "parse_batch dir text =
     foldl batch_line \<lparr>ba_links = [], ba_dir = dir, ba_pending = []\<rparr> (split_on CHR 0x0A text)"

definition batch_target :: "batch \<Rightarrow> string \<times> string \<Rightarrow> string" where
  "batch_target b l =
     (let name = (if snd l \<noteq> [] then snd l else path_base (fst l)) in
      if ba_dir b \<noteq> [] then path_join (ba_dir b) name else name)"

text \<open>The downloads one after the other; what has succeeded and what has failed is counted. \<open>None\<close> if one hangs.\<close>

fun batch_loop :: "host \<Rightarrow> (nat \<Rightarrow> cl_world) \<Rightarrow> dl_options \<Rightarrow> batch \<Rightarrow> nat \<Rightarrow> (string \<times> string) list \<Rightarrow> disk \<Rightarrow> int \<times> int \<Rightarrow>
    disk \<times> (int \<times> int) option" where
  "batch_loop h ws p b i [] d cnt = (d, Some cnt)"
| "batch_loop h ws p b i (l # ls) d cnt =
     (case do_download h (ws i) p (fst l) (batch_target b l) True d of
        (d1, Stuck) \<Rightarrow> (d1, None)
      | (d1, Returned e) \<Rightarrow> batch_loop h ws p b (i + 1) ls d1
          (if e = None then (fst cnt + 1, snd cnt) else (fst cnt, snd cnt + 1)))"

definition do_batch_download :: "host \<Rightarrow> (nat \<Rightarrow> cl_world) \<Rightarrow> dl_options \<Rightarrow> disk \<Rightarrow> disk \<times> cl_outcome" where
  "do_batch_download h ws p d =
     (case os_read h (op_input_file p) d of
        None \<Rightarrow> (d, Returned (Some UnreadableFile))
      | Some text \<Rightarrow>
          let b = parse_batch (op_dir p) text in
          if ba_links b = [] then (d, Returned (Some NoLinks))
          else (case batch_loop h ws p b 0 (ba_links b) d (0, 0) of
              (d1, None) \<Rightarrow> (d1, Stuck)
            | (d1, Some _) \<Rightarrow> (d1, Returned None)))"

section \<open>The command and its exit code\<close>

definition run_dl :: "host \<Rightarrow> (nat \<Rightarrow> cl_world) \<Rightarrow> dl_options \<Rightarrow> string list \<Rightarrow> disk \<Rightarrow> disk \<times> cl_outcome" where
  "run_dl h ws p args d =
     (case dl_plan_of p args of
        ShowHelp \<Rightarrow> (d, Returned None)
      | BatchFile _ \<Rightarrow> do_batch_download h ws p d
      | NoOutputPath \<Rightarrow> (d, Returned (Some OutputMissing))
      | SingleFile url out explicit \<Rightarrow> do_download h (ws 0) p url out explicit d)"

definition exit_code :: "cl_outcome \<Rightarrow> nat option" where
  "exit_code r =
     (case r of
        Stuck \<Rightarrow> None
      | Returned None \<Rightarrow> Some 0
      | Returned (Some e) \<Rightarrow> Some (if e = Interrupted then 130 else 1))"

section \<open>The progress line\<close>

definition pad_left :: "nat \<Rightarrow> string \<Rightarrow> string" where
  "pad_left n s = replicate (n - length s) CHR '' '' @ s"

definition pad_right :: "nat \<Rightarrow> string \<Rightarrow> string" where
  "pad_right n s = s @ replicate (n - length s) CHR '' ''"

definition progress_bar :: "int \<Rightarrow> int \<Rightarrow> string" where
  "progress_bar width pct =
     (let filled = width * pct div 100 in
      if filled < width then replicate (nat filled) CHR ''='' @ ''>'' @ replicate (nat (width - filled - 1)) CHR '' ''
      else replicate (nat width) CHR ''='')"

definition remaining_time :: "int \<Rightarrow> int \<Rightarrow> int \<Rightarrow> string" where
  "remaining_time downloaded sz speed =
     (if speed > 0 \<and> sz > 0 \<and> downloaded < sz then
        let secs = go_div (i64 (sz - downloaded)) speed in
        if secs < 60 then show_int secs @ ''s''
        else show_int (go_div secs 60) @ ''m'' @ show_int (go_rem secs 60) @ ''s''
      else ''--'')"

text \<open>\<open>render\<close>, after the carriage return.\<close>

definition render_progress :: "int \<Rightarrow> int \<Rightarrow> int \<Rightarrow> int \<Rightarrow> int \<Rightarrow> string option" where
  "render_progress width pct downloaded sz speed =
     (let p = (if pct < 0 then 0 else if pct > 100 then 100 else pct) in
      case (format_bytes sz, format_bytes speed, format_bytes downloaded) of
        (Some whole, Some rate, Some got) \<Rightarrow> Some (''['' @ progress_bar width p @ ''] '' @ pad_left 3 (show_int p) @ ''% | '' @
          pad_left 8 rate @ ''/s | '' @ got @ '' / '' @ (if sz \<le> 0 then ''?'' else whole) @ '' | ETA '' @
          remaining_time downloaded sz speed @ ''   '')
      | _ \<Rightarrow> None)"

section \<open>The client of the RPC server\<close>

text \<open>A request as it is posted: address, bearer token if there is one, method and parameters.\<close>

record client_post =
  cp_addr :: string
  cp_token :: string
  cp_method :: string
  cp_params :: any

datatype client_answer = Unreachable | Undecodable | Decoded "any option" "(int \<times> string) option"

datatype client_error = ClientRequest | ClientConnect | ClientDecode | ClientRpc int string | ClientUnexpected

record rpc_client =
  rc_addr :: string
  rc_token :: string

definition new_rpc_client :: "string \<Rightarrow> string \<Rightarrow> rpc_client" where
  "new_rpc_client addr tok =
     \<lparr>rc_addr = (if addr = [] then ''http://localhost:6800/jsonrpc'' else addr), rc_token = tok\<rparr>"

text \<open>What a client works with: whether an address is one, and the server, with a state of its own.\<close>

record 's client_world =
  cc_address_ok :: "string \<Rightarrow> bool"
  cc_send :: "client_post \<Rightarrow> 's \<Rightarrow> 's \<times> client_answer"

definition client_call :: "'s client_world \<Rightarrow> rpc_client \<Rightarrow> string \<Rightarrow> any \<Rightarrow> 's \<Rightarrow> 's \<times> (client_error + any option)" where
  "client_call cw c meth ps s =
     (if \<not> cc_address_ok cw (rc_addr c) then (s, Inl ClientRequest)
      else case cc_send cw \<lparr>cp_addr = rc_addr c, cp_token = rc_token c, cp_method = meth, cp_params = ps\<rparr> s of
        (s1, Unreachable) \<Rightarrow> (s1, Inl ClientConnect)
      | (s1, Undecodable) \<Rightarrow> (s1, Inl ClientDecode)
      | (s1, Decoded res err) \<Rightarrow> (s1, case err of Some (code, msg) \<Rightarrow> Inl (ClientRpc code msg) | None \<Rightarrow> Inr res))"

text \<open>The decoder of a list of texts, and of a list of objects; \<open>null\<close> is the empty list of both.\<close>

fun text_items :: "any list \<Rightarrow> string list option" where
  "text_items [] = Some []"
| "text_items (AStr s # xs) = map_option ((#) s) (text_items xs)"
| "text_items (ANil # xs) = map_option ((#) []) (text_items xs)"
| "text_items (_ # xs) = None"

definition decode_texts :: "any option \<Rightarrow> string list option" where
  "decode_texts r = (case r of Some (AList xs) \<Rightarrow> text_items xs | Some ANil \<Rightarrow> Some [] | _ \<Rightarrow> None)"

fun object_items :: "any list \<Rightarrow> options list option" where
  "object_items [] = Some []"
| "object_items (AMap m # xs) = map_option ((#) m) (object_items xs)"
| "object_items (ANil # xs) = map_option ((#) []) (object_items xs)"
| "object_items (_ # xs) = None"

definition decode_objects :: "any option \<Rightarrow> options list option" where
  "decode_objects r = (case r of Some (AList xs) \<Rightarrow> object_items xs | Some ANil \<Rightarrow> Some [] | _ \<Rightarrow> None)"

text \<open>The commands with what they print; \<open>run_add\<close> prints the identifiers.\<close>

definition run_add :: "'s client_world \<Rightarrow> rpc_client \<Rightarrow> string \<Rightarrow> 's \<Rightarrow> 's \<times> (client_error + string list)" where
  "run_add cw c url s =
     (case client_call cw c ''aria2.addUri'' (AList [AStrs [url]]) s of
        (s1, Inl e) \<Rightarrow> (s1, Inl e)
      | (s1, Inr res) \<Rightarrow> (s1,
          case decode_texts res of
            Some gids \<Rightarrow> Inr gids
          | None \<Rightarrow> (case res of Some (AStr gid) \<Rightarrow> Inr [gid] | _ \<Rightarrow> Inl ClientUnexpected)))"

definition text_field :: "options \<Rightarrow> string \<Rightarrow> string" where
  "text_field m k = (case map_of m k of Some (AStr v) \<Rightarrow> v | _ \<Rightarrow> [])"

definition list_row :: "options \<Rightarrow> string" where
  "list_row m =
     pad_right 36 (text_field m ''gid'') @ '' '' @ pad_right 12 (text_field m ''status'') @ '' '' @
     pad_right 20 (text_field m ''completedLength'' @ ''/'' @ text_field m ''totalLength'') @ '' '' @
     text_field m ''downloadSpeed'' @ '' B/s''"

definition list_params :: "string \<Rightarrow> any" where
  "list_params meth =
     (if meth = ''aria2.tellWaiting'' \<or> meth = ''aria2.tellStopped'' then AList [AInt 0, AInt 1000] else ANil)"

fun list_loop :: "'s client_world \<Rightarrow> rpc_client \<Rightarrow> string list \<Rightarrow> string list \<Rightarrow> 's \<Rightarrow> 's \<times> client_error option \<times> string list" where
  "list_loop cw c [] rows s = (s, None, rows)"
| "list_loop cw c (meth # ms) rows s =
     (case client_call cw c meth (list_params meth) s of
        (s1, Inl e) \<Rightarrow> (s1, Some e, rows)
      | (s1, Inr res) \<Rightarrow> list_loop cw c ms
          (rows @ (case decode_objects res of None \<Rightarrow> [] | Some ts \<Rightarrow> map list_row ts)) s1)"

definition run_list :: "'s client_world \<Rightarrow> rpc_client \<Rightarrow> 's \<Rightarrow> 's \<times> client_error option \<times> string list" where
  "run_list cw c = list_loop cw c [''aria2.tellActive'', ''aria2.tellWaiting'', ''aria2.tellStopped''] []"

definition run_on_gid :: "string \<Rightarrow> 's client_world \<Rightarrow> rpc_client \<Rightarrow> string \<Rightarrow> 's \<Rightarrow> 's \<times> client_error option" where
  "run_on_gid meth cw c gid s =
     (case client_call cw c meth (AList [AStr gid]) s of
        (s1, Inl e) \<Rightarrow> (s1, Some e)
      | (s1, Inr _) \<Rightarrow> (s1, None))"

definition run_pause :: "'s client_world \<Rightarrow> rpc_client \<Rightarrow> string \<Rightarrow> 's \<Rightarrow> 's \<times> client_error option" where
  "run_pause = run_on_gid ''aria2.pause''"

definition run_resume :: "'s client_world \<Rightarrow> rpc_client \<Rightarrow> string \<Rightarrow> 's \<Rightarrow> 's \<times> client_error option" where
  "run_resume = run_on_gid ''aria2.unpause''"

definition run_remove :: "'s client_world \<Rightarrow> rpc_client \<Rightarrow> string \<Rightarrow> 's \<Rightarrow> 's \<times> client_error option" where
  "run_remove = run_on_gid ''aria2.remove''"

text \<open>\<open>toString\<close>; \<open>show\<close> prints the values without a case of their own.\<close>

definition to_string :: "(any \<Rightarrow> string) \<Rightarrow> any option \<Rightarrow> string" where
  "to_string show v =
     (case v of
        None \<Rightarrow> []
      | Some ANil \<Rightarrow> []
      | Some (AStr s) \<Rightarrow> s
      | Some (AFloat x) \<Rightarrow> show_int (float_to_int x)
      | Some x \<Rightarrow> show x)"

definition run_status :: "(any \<Rightarrow> string) \<Rightarrow> 's client_world \<Rightarrow> rpc_client \<Rightarrow> 's \<Rightarrow> 's \<times> (client_error + string list)" where
  "run_status show cw c s =
     (case client_call cw c ''aria2.getGlobalStat'' (AList []) s of
        (s1, Inl e) \<Rightarrow> (s1, Inl e)
      | (s1, Inr res) \<Rightarrow> (s1,
          case (case res of Some (AMap m) \<Rightarrow> Some m | Some ANil \<Rightarrow> Some [] | _ \<Rightarrow> None) of
            None \<Rightarrow> Inl ClientUnexpected
          | Some m \<Rightarrow> Inr (map (\<lambda>k. to_string show (map_of m k))
              [''downloadSpeed'', ''uploadSpeed'', ''numActive'', ''numWaiting'', ''numStopped''])))"

text \<open>
  The server of \<open>JsonRpc\<close> as the other end: values arrive as the JSON decoder delivers them, which knows
  floats, lists and objects only.
\<close>

primrec json_view :: "any \<Rightarrow> any" where
  "json_view ANil = ANil"
| "json_view (ABool b) = ABool b"
| "json_view (AFloat x) = AFloat x"
| "json_view (AInt n) = AFloat (f64 (of_int n))"
| "json_view (AStr s) = AStr s"
| "json_view (AList xs) = AList (map json_view xs)"
| "json_view (AMap m) = AMap (map (map_prod id json_view) m)"
| "json_view (AStrs ss) = AList (map AStr ss)"
| "json_view (AInts ns) = AList (map (\<lambda>n. AFloat (f64 (of_int n))) ns)"
| "json_view (AStrMap m) = AMap (map (map_prod id AStr) m)"
| "json_view (AMaps ms) = AList (map AMap (map (map (map_prod id json_view)) ms))"
| "json_view (AStrMaps ms) = AList (map (\<lambda>m. AMap (map (map_prod id AStr) m)) ms)"

definition local_send :: "rpc_server \<Rightarrow> (nat \<Rightarrow> env) \<Rightarrow> client_post \<Rightarrow> app \<Rightarrow> app \<times> client_answer" where
  "local_send js evs rq a =
     (case handle_method js evs (cp_method rq) (case json_view (cp_params rq) of AList ps \<Rightarrow> ps | _ \<Rightarrow> []) a of
        (a1, res) \<Rightarrow> (a1, case rpc_answer ''1'' res of
            RpcReply _ r \<Rightarrow> Decoded (map_option json_view (ro_result r)) (ro_error r)
          | RpcPanics \<Rightarrow> Undecodable))"

section \<open>The service\<close>

datatype event_sink = HttpSink http_handler | CommandSink command_handler

text \<open>The handlers \<open>runServe\<close> subscribes; \<open>ks\<close> orders the headers of the webhook.\<close>

definition serve_handlers :: "string list \<Rightarrow> events_config \<Rightarrow> event_sink list" where
  "serve_handlers ks c =
     (if ev_webhook c \<noteq> []
      then [HttpSink \<lparr>hh_url = ev_webhook c, hh_headers = map (\<lambda>k. (k, the (ev_webhook_headers c k))) ks\<rparr>] else []) @
     (if ev_complete_cmd c \<noteq> []
      then [CommandSink \<lparr>ch_command = ev_complete_cmd c, ch_args = ev_complete_args c\<rparr>] else [])"

definition serve_emitter :: "string list \<Rightarrow> events_config \<Rightarrow> (event_sink, 'e) emitter" where
  "serve_emitter ks c = fold subscribe (serve_handlers ks c) (new_event_emitter True 4)"

text \<open>A hangup: the configuration is read again, but only the log level changes what runs.\<close>

definition reload_config :: "(string \<Rightarrow> bool) \<Rightarrow> app_config option \<Rightarrow> string \<times> app_config \<Rightarrow> string \<times> app_config" where
  "reload_config level_ok loaded st =
     (case loaded of
        None \<Rightarrow> st
      | Some c \<Rightarrow> let lv = nc_log_level (cf_node c) in (if level_ok lv then lv else fst st, c))"

datatype shutdown_call =
    StopServer
  | StopDownloads
  | CloseEvents
  | ShutdownRpc
  | ShutdownDiscovery
  | StopSync
  | StopFailover
  | StopScheduler
  | CloseNat

definition shutdown_calls :: "shutdown_call list" where
  "shutdown_calls =
     [StopServer, StopDownloads, CloseEvents, ShutdownRpc, ShutdownDiscovery, StopSync, StopFailover, StopScheduler, CloseNat]"

text \<open>
  Two goroutines end the service. The handler of the signal makes the calls one after the other; the main
  goroutine is in the server, which returns as soon as the first call has begun, and then the process
  ends. \<open>sd_begun\<close> and \<open>sd_done\<close> count the calls.
\<close>

record shutdown_state =
  sd_begun :: nat
  sd_done :: nat
  sd_exited :: bool

inductive shutdown_step :: "shutdown_state \<Rightarrow> shutdown_state \<Rightarrow> bool" where
  Call: "\<lbrakk>\<not> sd_exited s; sd_begun s = sd_done s; sd_begun s < length shutdown_calls\<rbrakk> \<Longrightarrow>
    shutdown_step s (s\<lparr>sd_begun := sd_begun s + 1\<rparr>)"
| CallDone: "\<lbrakk>\<not> sd_exited s; sd_done s < sd_begun s\<rbrakk> \<Longrightarrow> shutdown_step s (s\<lparr>sd_done := sd_done s + 1\<rparr>)"
| ServerReturns: "\<lbrakk>\<not> sd_exited s; 0 < sd_begun s\<rbrakk> \<Longrightarrow> shutdown_step s (s\<lparr>sd_exited := True\<rparr>)"

definition shutdown_start :: shutdown_state where
  "shutdown_start = \<lparr>sd_begun = 0, sd_done = 0, sd_exited = False\<rparr>"

end
