(* ===== verification/CommandLineProps.thy ===== *)
theory CommandLineProps
  imports CommandLine RpcProps PostProcessProps
begin

text \<open>
  Properties of the command line program: for which sizes \<open>formatBytes\<close> comes to an end, what the file names are
  that are taken from URLs and from servers, which exit code a batch has, and that the commands of the
  client do what they say to the server of \<open>JsonRpc\<close>.
\<close>

section \<open>Sizes\<close>

definition divisors :: "int set" where
  "divisors = {2 ^ 10, 2 ^ 20, 2 ^ 30, 2 ^ 40, 2 ^ 50, 2 ^ 60, 0}"

lemma divisors_step: "v \<in> divisors \<Longrightarrow> i64 (v * 1024) \<in> divisors \<and> i64 (v * 1024) \<le> 2 ^ 60"
  by (auto simp: divisors_def i64_def)

lemma unit_loop_stuck:
  assumes "unit_loop n v e = Some r"
  shows "\<not> (2 ^ 60 \<le> n \<and> v \<in> divisors)"
  using _ assms
proof (rule unit_loop.raw_induct [where P = "\<lambda>n v e r. \<not> (2 ^ 60 \<le> n \<and> v \<in> divisors)"])
  fix loop :: "int \<Rightarrow> int \<Rightarrow> int \<Rightarrow> (int \<times> int) option" and n v e r
  assume IH: "\<And>n v e r. loop n v e = Some r \<Longrightarrow> \<not> (2 ^ 60 \<le> n \<and> v \<in> divisors)"
    and run: "(if i64 (v * 1024) \<le> n then loop n (i64 (v * 1024)) (i64 (e + 1)) else Some (v, e)) = Some r"
  show "\<not> (2 ^ 60 \<le> n \<and> v \<in> divisors)"
  proof
    assume big: "2 ^ 60 \<le> n \<and> v \<in> divisors"
    with divisors_step [of v] have "i64 (v * 1024) \<le> n" "i64 (v * 1024) \<in> divisors" by auto
    with run IH big show False by auto
  qed
qed

lemma unit_loop_returns:
  assumes "n < 2 ^ 60"
  shows "unit_loop n (2 ^ 10) 0 \<noteq> None"
proof -
  have k: "i64 (2 ^ 10 * 1024) = 2 ^ 20" "i64 (2 ^ 20 * 1024) = 2 ^ 30" "i64 (2 ^ 30 * 1024) = 2 ^ 40" "i64 (2 ^ 40 * 1024) = 2 ^ 50"
    "i64 (2 ^ 50 * 1024) = 2 ^ 60" by (simp_all add: i64_def)
  have "unit_loop n (2 ^ 50) e \<noteq> None" for e using assms by (subst unit_loop.simps) (simp only: k, simp)
  then have "unit_loop n (2 ^ 40) e \<noteq> None" for e by (subst unit_loop.simps) (simp only: k, simp)
  then have "unit_loop n (2 ^ 30) e \<noteq> None" for e by (subst unit_loop.simps) (simp only: k, simp)
  then have "unit_loop n (2 ^ 20) e \<noteq> None" for e by (subst unit_loop.simps) (simp only: k, simp)
  then show ?thesis by (subst unit_loop.simps) (simp only: k, simp)
qed

text \<open>
  Printing a size ends exactly when the size is below an exbibyte. From there on the divisor wraps to zero and
  stays zero: the \<open>E\<close> of the unit letters is never printed, and a server that announces such a length hangs
  the commands that print it.
\<close>
theorem format_bytes_returns: "(\<exists>s. format_bytes n = Some s) \<longleftrightarrow> n < 2 ^ 60"
proof -
  have "unit_loop n 1024 0 \<noteq> None \<longleftrightarrow> n < 2 ^ 60"
    using unit_loop_returns [of n] unit_loop_stuck [of n "2 ^ 10" 0] by (force simp: divisors_def)
  then show ?thesis by (auto simp: format_bytes_def)
qed

lemma spider_hangs:
  assumes "head_reply w url cfg = Inr r" "2 ^ 60 \<le> rp_length r"
  shows "do_spider w url cfg verbose = Stuck"
proof -
  have "format_bytes (rp_length r) = None" using assms(2) format_bytes_returns [of "rp_length r"] by auto
  then have "spider_lines w url verbose r = None" using assms(2) by (simp add: spider_lines_def)
  then show ?thesis using assms(1) by (simp add: do_spider_def)
qed

section \<open>File names\<close>

lemma sanitized_plain: "c \<in> set (sanitize_filename s) \<Longrightarrow> \<not> forbidden_char c"
  by (auto simp: sanitize_filename_def forbidden_char_def)

lemma sanitized_empty [simp]: "sanitize_filename s = [] \<longleftrightarrow> s = []"
  by (simp add: sanitize_filename_def)

lemma sanitized_dot: "sanitize_filename s = ''.'' \<Longrightarrow> s = ''.''"
  by (auto simp: sanitize_filename_def map_eq_Cons_conv split: if_splits)

lemma slash_forbidden: "forbidden_char CHR ''/''"
  by (simp add: forbidden_char_def)

lemma path_base_plain: "path_base s \<noteq> ''/'' \<Longrightarrow> CHR ''/'' \<notin> set (path_base s) \<and> path_base s \<noteq> []"
proof -
  define t where "t = rev (dropWhile (\<lambda>c. c = CHR ''/'') (rev s))"
  assume "path_base s \<noteq> ''/''"
  then have eq: "s \<noteq> [] \<Longrightarrow> t \<noteq> [] \<and> path_base s = rev (takeWhile (\<lambda>c. c \<noteq> CHR ''/'') (rev t))"
    by (auto simp: path_base_def t_def Let_def split: if_splits)
  have "hd (rev t) \<noteq> CHR ''/''" if "t \<noteq> []"
    using that hd_dropWhile [of "\<lambda>c. c = CHR ''/''" "rev s"] by (simp add: t_def)
  then have "takeWhile (\<lambda>c. c \<noteq> CHR ''/'') (rev t) \<noteq> []" if "t \<noteq> []" using that by (cases "rev t") auto
  with eq show ?thesis by (cases "s = []") (auto simp: path_base_def dest: set_takeWhileD)
qed

lemma index_plain: "c \<in> set ''index.html'' \<Longrightarrow> \<not> forbidden_char c"
  by (auto simp: forbidden_char_def)

lemma inferred_name:
  "infer_filename raw = ''index.html'' \<or> (\<exists>s. path_base s \<noteq> ''.'' \<and> path_base s \<noteq> ''/'' \<and> infer_filename raw = sanitize_filename (path_base s))"
  unfolding infer_filename_def Let_def by (auto split: option.splits)

text \<open>
  The name inferred from a URL is never empty and holds none of the forbidden characters, in particular no
  slash. Without \<open>-o\<close> the file therefore lies directly in the chosen directory, unless the path of the URL
  ends in two dots.
\<close>
theorem inferred_file_in_directory:
  assumes "path_is_abs (ho_cwd h)" "op_output p = []" "op_dir p \<noteq> []" "infer_filename (complete_scheme arg) \<noteq> ''..''"
    "single_plan p arg [] = SingleFile url out explicit"
  shows "\<exists>name. (\<forall>c \<in> set name. \<not> forbidden_char c) \<and> abs_elems h out = abs_elems h (op_dir p) @ [name]"
proof -
  let ?n = "infer_filename (complete_scheme arg)"
  have plain: "?n \<noteq> [] \<and> ?n \<noteq> ''.'' \<and> (\<forall>c \<in> set ?n. \<not> forbidden_char c)"
    using inferred_name [of "complete_scheme arg"]
  proof
    assume i: "?n = ''index.html''"
    show ?thesis unfolding i using index_plain by simp
  next
    assume "\<exists>s. path_base s \<noteq> ''.'' \<and> path_base s \<noteq> ''/'' \<and> ?n = sanitize_filename (path_base s)"
    then obtain s where "path_base s \<noteq> ''.''" "path_base s \<noteq> ''/''" and n: "?n = sanitize_filename (path_base s)" by blast
    then show ?thesis unfolding n using sanitized_plain path_base_plain sanitized_dot by (metis sanitized_empty)
  qed
  have "out = path_join (op_dir p) ?n" using assms(2,3,5) by (auto simp: single_plan_def Let_def split: if_splits)
  moreover have "CHR ''/'' \<notin> set ?n" using plain slash_forbidden by blast
  ultimately have "abs_elems h out = abs_elems h (op_dir p) @ [?n]"
    using abs_elems_join [OF assms(1,3)] plain assms(4) by simp
  with plain show ?thesis by blast
qed

text \<open>
  C40: A file is renamed as the server suggests only to a name that is free, in its own directory, and no other
  file is touched, whatever the server sends (paths below the file or below the free name hold none).
\<close>
theorem suggested_name_safe:
  assumes "path_is_abs (ho_cwd h)" "rename_suggested h p out explicit cd d = (d', new)" "out \<noteq> []"
    "lookup d (abs_elems h out) = Some (Data s)" "is_dir d (abs_elems h (path_dir out))"
    "is_dir d (abs_elems h (path_join (path_dir out) ''..''))"
  shows "lookup d' (abs_elems h new) = Some (Data s) \<and>
    (new = out \<or> (\<exists>name. abs_elems h new = abs_elems h (path_dir out) @ [name])) \<and>
    (\<not> prefix (abs_elems h out) q \<and> \<not> strict_prefix (abs_elems h new) q \<and> lookup d q = Some (Data u) \<longrightarrow> lookup d' q = Some (Data u))"
proof -
  let ?name = "sanitize_filename (parse_content_disposition_filename cd)"
  let ?new = "path_join (path_dir out) ?name"
  have dir: "path_dir out \<noteq> []" by (auto simp: path_dir_def path_clean_def Let_def)
  consider (kept) "lookup d' = lookup d" "new = out"
    | (moved) "os_rename h out ?new d = (d', True)" "new = ?new" "\<not> os_exists h ?new d" "?name \<noteq> []"
  proof (cases "d' = d \<and> new = out")
    case False
    with assms(2) obtain d1 ok where r: "os_rename h out ?new d = (d1, ok)" "d' = d1" "new = (if ok then ?new else out)"
      "\<not> os_exists h ?new d" "?name \<noteq> []"
      by (auto simp: rename_suggested_def Let_def split: if_splits prod.splits)
    show ?thesis
    proof (cases ok)
      case False
      with r have "os_rename h out ?new d = (d', False)" by simp
      then have "lookup d' q = lookup d q" for q by (rule rename_fails)
      with False r that(1) show ?thesis by auto
    qed (use r that(2) in simp)
  qed (use that(1) in blast)
  then show ?thesis
  proof cases
    case kept
    with assms(4) show ?thesis by simp
  next
    case moved
    have new: "?new \<noteq> []" "os_path h ?new = Some (abs_elems h ?new)" "os_path h out = Some (abs_elems h out)"
      using moved(4) dir assms(3) by (auto simp: os_path_def path_join_def path_clean_def Let_def)
    have free: "lookup d (abs_elems h ?new) = None" using moved(3) new by (simp add: os_exists_def)
    have "?name \<noteq> ''..''" using free assms(6) by (auto simp: is_dir_def)
    moreover have "?name \<noteq> ''.''"
    proof
      assume "?name = ''.''"
      then have "abs_elems h ?new = abs_elems h (path_dir out)" using abs_elems_dot [OF assms(1) dir] by simp
      with free assms(5) show False by (simp add: is_dir_def)
    qed
    moreover have "CHR ''/'' \<notin> set ?name" using sanitized_plain slash_forbidden by blast
    ultimately have at: "abs_elems h ?new = abs_elems h (path_dir out) @ [?name]"
      using abs_elems_join [OF assms(1) dir moved(4)] by simp
    have "lookup d' (abs_elems h ?new) = Some (Data s)"
      using rename_target [OF moved(1) new(3,2)] assms(4) by simp
    moreover have "lookup d' q = Some (Data u)" 
      if q: "\<not> prefix (abs_elems h out) q" "\<not> strict_prefix (abs_elems h new) q" "lookup d q = Some (Data u)"
    proof -
      have "q \<noteq> abs_elems h ?new" using q(3) free by auto
      then have "\<not> prefix (abs_elems h ?new) q" using q(2) moved(2) by (simp add: strict_prefix_def)
      with rename_others [OF moved(1) new(3,2) q(1)] q(3) show ?thesis by simp
    qed
    ultimately show ?thesis using at moved(2) by blast
  qed
qed

section \<open>Batches\<close>

lemma foldl_dir:
  "ba_dir (foldl batch_line b ls) =
     (case filter (\<lambda>l. has_prefix l ''dir='') (map trim_space ls) of [] \<Rightarrow> ba_dir b | ds \<Rightarrow> drop 4 (List.last ds))"
proof (induction ls arbitrary: b)
  case (Cons l ls)
  have e: "ba_dir (batch_line b l) = (if has_prefix (trim_space l) ''dir='' then drop 4 (trim_space l) else ba_dir b)"
    by (cases "trim_space l" rule: list.exhaust) (auto simp: batch_line_def Let_def)
  show ?case by (auto simp: Cons.IH e split: list.splits)
qed simp

text \<open>
  The last \<open>dir=\<close> line of a batch decides for every link of the file, also for those above it: the directory is
  one for the whole batch, not one for each link.
\<close>
theorem batch_single_directory:
  "filter (\<lambda>l. has_prefix l ''dir='') (map trim_space (split_on CHR 0x0A txt)) = ds \<Longrightarrow>
    ba_dir (parse_batch dir txt) = (if ds = [] then dir else drop 4 (List.last ds))"
  by (simp add: parse_batch_def foldl_dir split: list.splits)

lemma batch_loop_counts:
  "batch_loop h ws p b i ls d (x, y) = (d', Some (x', y')) \<Longrightarrow> x' + y' = x + y + int (length ls)"
  by (induction ls arbitrary: i d x y) (force split: prod.splits cl_outcome.splits if_splits)+

text \<open>A batch that is read and holds a link reports success, however many of its downloads fail.\<close>

theorem batch_failure_unreported:
  assumes "run_dl h ws p args d = (d', r)" "op_input_file p \<noteq> []" "os_read h (op_input_file p) d = Some txt"
    "ba_links (parse_batch (op_dir p) txt) \<noteq> []"
  shows "exit_code r \<in> {None, Some 0}"
  using assms
  by (auto simp: run_dl_def dl_plan_of_def do_batch_download_def exit_code_def Let_def split: prod.splits option.splits)

section \<open>Speed limits\<close>

text \<open>A limit is multiplied without a check: eight exbibytes are a negative limit.\<close>

lemma command_limit_wraps:
  "scan_limit s = Some (8589934592, ''G'') \<Longrightarrow> parse_limit s = Inr (- (2 ^ 63))"
proof -
  have "to_lower ''G'' = ''g''" by code_simp
  then show "scan_limit s = Some (8589934592, ''G'') \<Longrightarrow> parse_limit s = Inr (- (2 ^ 63))"
    by (simp add: parse_limit_def i64_def Let_def)
qed

section \<open>The client and the server\<close>

lemma text_items_strings: "text_items (map AStr ss) = Some ss"
  by (induction ss) simp_all

lemma string_slice_one: "param_string_slice [AList [AStr url]] 0 = [url]"
  by code_simp


section \<open>Instances\<close>

definition demo_dl_options :: dl_options where
  "demo_dl_options =
     \<lparr>op_parallel = 0, op_output = [], op_explicit = False, op_speed_limit = [], op_timeout = 0, op_input_file = [],
      op_dir = ''/srv'', op_adaptive = False, op_insecure = False, op_quiet = False, op_no_netrc = False,
      op_piece_selector = [], op_uri_selector = [], op_user_agent = [], op_headers = [], op_referer = [],
      op_http_user = [], op_http_password = [], op_spider = False, op_server_response = False,
      op_no_disposition = False, op_remote_time = False, op_max_time = 0\<rparr>"

definition demo_cl_world :: cl_world where
  "demo_cl_world =
     \<lparr>cw_request_ok = (\<lambda>_. True), cw_header_keys = [], cw_head = (\<lambda>_ _. NoAnswer (Plain ''down'')), cw_print = (\<lambda>_. []),
      cw_make = (\<lambda>_ _ _. None), cw_fetch = (\<lambda>_ _ _ d. (d, Some (Plain ''down''))), cw_cancelled = False,
      cw_disposition = [], cw_size = 0, cw_downloaded = 0, cw_elapsed = 0\<rparr>"

theorem inferred_file_in_directory_witness:
  "single_plan demo_dl_options ''h/a/f?x=1'' [] = SingleFile ''http://h/a/f?x=1'' ''/srv/f'' False \<and>
   (\<exists>name. abs_elems demo_host ''/srv/f'' = abs_elems demo_host ''/srv'' @ [name])"
proof -
  have run: "single_plan demo_dl_options ''h/a/f?x=1'' [] = SingleFile ''http://h/a/f?x=1'' ''/srv/f'' False"
    "infer_filename (complete_scheme ''h/a/f?x=1'') \<noteq> ''..''" "op_output demo_dl_options = []" "op_dir demo_dl_options = ''/srv''"
    by code_simp+
  from inferred_file_in_directory [OF demo_fields(2) run(3) _ run(2,1)] run show ?thesis by auto
qed

theorem suggested_name_safe_witness:
  "let (d', new) = rename_suggested demo_host demo_dl_options ''/srv/f.zip'' False ''attachment; filename=../g'' demo_disk in
    new = ''/srv/.._g'' \<and> lookup d' (abs_elems demo_host new) = Some (Data ''z'')"
proof -
  let ?res = "rename_suggested demo_host demo_dl_options ''/srv/f.zip'' False ''attachment; filename=../g'' demo_disk"
  have facts: "snd ?res = ''/srv/.._g''" "lookup demo_disk (abs_elems demo_host ''/srv/f.zip'') = Some (Data ''z'')"
    "is_dir demo_disk (abs_elems demo_host (path_dir ''/srv/f.zip''))"
    "is_dir demo_disk (abs_elems demo_host (path_join (path_dir ''/srv/f.zip'') ''..''))" by code_simp+
  have "lookup (fst ?res) (abs_elems demo_host (snd ?res)) = Some (Data ''z'')"
    by (rule suggested_name_safe [OF demo_fields(2) prod.collapse [symmetric] _ facts(2-4), THEN conjunct1]) simp
  then show ?thesis using facts(1) by (simp add: case_prod_beta)
qed

definition demo_batch_text :: string where
  "demo_batch_text = ''ftp://h'' @ [CHR 0x0A] @ ''dir=b''"

theorem batch_single_directory_witness:
  "map (batch_target (parse_batch [] demo_batch_text)) (ba_links (parse_batch [] demo_batch_text)) = [''b/h''] \<and>
   ba_dir (parse_batch [] demo_batch_text) = ''b''"
proof -
  have "filter (\<lambda>l. has_prefix l ''dir='') (map trim_space (split_on CHR 0x0A demo_batch_text)) = [''dir=b'']"
    "map (batch_target (parse_batch [] demo_batch_text)) (ba_links (parse_batch [] demo_batch_text)) = [''b/h'']"
    by code_simp+
  with batch_single_directory [OF this(1), of "[]"] show ?thesis by simp
qed

theorem batch_failure_unreported_witness:
  "let d = put_entry [''srv'', ''l''] (Data demo_batch_text) demo_disk;
       res = run_dl demo_host (\<lambda>_. demo_cl_world) (demo_dl_options\<lparr>op_input_file := ''/srv/l''\<rparr>) [] d in
    exit_code (snd res) = Some 0 \<and>
    snd (do_download demo_host demo_cl_world demo_dl_options ''http://h/1'' ''b/1'' True d) = Returned (Some (NotDownloaded (Plain ''down'')))"
proof -
  let ?d = "put_entry [''srv'', ''l''] (Data demo_batch_text) demo_disk" and ?p = "demo_dl_options\<lparr>op_input_file := ''/srv/l''\<rparr>"
  let ?res = "run_dl demo_host (\<lambda>_. demo_cl_world) ?p [] ?d"
  have facts: "op_input_file ?p \<noteq> []" "os_read demo_host (op_input_file ?p) ?d = Some demo_batch_text"
    "ba_links (parse_batch (op_dir ?p) demo_batch_text) \<noteq> []" "exit_code (snd ?res) \<noteq> None"
    "snd (do_download demo_host demo_cl_world demo_dl_options ''http://h/1'' ''b/1'' True ?d) = Returned (Some (NotDownloaded (Plain ''down'')))"
    by code_simp+
  have "exit_code (snd ?res) \<in> {None, Some 0}"
    by (rule batch_failure_unreported [OF prod.collapse [symmetric] facts(1-3)])
  then show ?thesis using facts(4,5) by (simp add: Let_def)
qed


end
