(* ===== verification/GoBytes.thy ===== *)
theory GoBytes
  imports GoString "HOL-Library.Word"
begin

text \<open>
  Bytes as \<open>encoding/binary\<close> reads and writes them: unsigned numbers of two and four bytes, the most significant
  byte first, and the text of an IPv4 address. Nothing here models code of the repository.
\<close>

unbundle bit_operations_syntax

type_synonym byte = "8 word"

definition put16 :: "16 word \<Rightarrow> byte list" where
  "put16 w = [ucast (drop_bit 8 w), ucast w]"

definition put32 :: "32 word \<Rightarrow> byte list" where
  "put32 w = [ucast (drop_bit 24 w), ucast (drop_bit 16 w), ucast (drop_bit 8 w), ucast w]"

text \<open>The number at an index; the callers have checked that the bytes are there.\<close>

definition get16 :: "byte list \<Rightarrow> nat \<Rightarrow> 16 word" where
  "get16 bs i = word_cat (bs ! i) (bs ! (i + 1))"

definition get32 :: "byte list \<Rightarrow> nat \<Rightarrow> 32 word" where
  "get32 bs i = word_cat (get16 bs i) (get16 bs (i + 2))"

text \<open>\<open>data[i:j]\<close> within the length.\<close>

definition slice :: "byte list \<Rightarrow> nat \<Rightarrow> nat \<Rightarrow> byte list" where
  "slice bs i j = take (j - i) (drop i bs)"

definition bytes_text :: "byte list \<Rightarrow> string" where
  "bytes_text bs = map (\<lambda>b. char_of (unat b)) bs"

definition text_bytes :: "string \<Rightarrow> byte list" where
  "text_bytes s = map of_char s"

text \<open>\<open>net.IP.String\<close> of four bytes.\<close>

definition show_ip4 :: "byte list \<Rightarrow> string" where
  "show_ip4 bs =
     show_int (uint (bs ! 0)) @ ''.'' @ show_int (uint (bs ! 1)) @ ''.'' @ show_int (uint (bs ! 2)) @ ''.'' @ show_int (uint (bs ! 3))"

section \<open>Facts\<close>

lemma cat16: "(word_cat (ucast (drop_bit 8 (w :: 16 word)) :: 8 word) (ucast w :: 8 word) :: 16 word) = w"
  by (rule bit_word_eqI) (auto simp: bit_word_cat_iff bit_ucast_iff bit_drop_bit_eq not_less)

lemma cat32:
  "(word_cat (word_cat (ucast (drop_bit 24 (w :: 32 word)) :: 8 word) (ucast (drop_bit 16 w) :: 8 word) :: 16 word)
     (word_cat (ucast (drop_bit 8 w) :: 8 word) (ucast w :: 8 word) :: 16 word) :: 32 word) = w"
  by (rule bit_word_eqI) (auto simp: bit_word_cat_iff bit_ucast_iff bit_drop_bit_eq not_less)

lemma put_lengths [simp]: "length (put16 w) = 2" "length (put32 v) = 4"
  by (simp_all add: put16_def put32_def)

lemma get_put16 [simp]: "get16 (put16 w @ bs) 0 = w"
  by (simp add: get16_def put16_def cat16)

lemma get_put32 [simp]: "get32 (put32 w @ bs) 0 = w"
  by (simp add: get32_def get16_def put32_def cat32 numeral_2_eq_2 numeral_3_eq_3)

lemma get16_at: "get16 (xs @ bs) (length xs) = get16 bs 0"
  by (simp add: get16_def nth_append)

lemma get16_later: "length xs = n \<Longrightarrow> get16 (xs @ bs) (n + k) = get16 bs k"
  by (auto simp: get16_def nth_append)

lemma get32_later: "length xs = n \<Longrightarrow> get32 (xs @ bs) (n + k) = get32 bs k"
  using get16_later [of xs n bs k] get16_later [of xs n bs "k + 2"] by (simp add: get32_def add.assoc)

lemma slice_later: "length xs = n \<Longrightarrow> slice (xs @ bs) (n + i) (n + j) = slice bs i j"
  by (auto simp: slice_def)

lemma slice_front [simp]: "length xs = n \<Longrightarrow> slice (xs @ bs) 0 n = xs"
  by (simp add: slice_def)

lemma bytes_text_inverse [simp]: "bytes_text (text_bytes s) = s"
proof -
  have "unat (of_char c :: byte) = of_char c" for c
    using unat_of_nat [of "of_char c :: nat", where 'a = 8] by (simp only: of_nat_of_char) simp
  then have "char_of (unat (of_char c :: byte)) = c" for c by simp
  then show ?thesis by (simp add: bytes_text_def text_bytes_def comp_def)
qed

end
