(* ===== verification/NatWire.thy ===== *)
theory NatWire
  imports GoBytes GoNet
begin

text \<open>
  The datagrams of \<open>internal/nat\<close>: relay messages (\<open>relay.go\<close>), hole punch messages (\<open>holepunch.go\<close>) and STUN requests
  and answers (\<open>stun.go\<close>), byte by byte. The parser of addresses is an argument.
\<close>

section \<open>Relay messages\<close>

definition relay_connect :: "16 word" where "relay_connect = 1"
definition relay_connect_ack :: "16 word" where "relay_connect_ack = 2"
definition relay_data :: "16 word" where "relay_data = 3"
definition relay_close :: "16 word" where "relay_close = 4"

record relay_message =
  re_type :: "16 word"
  re_client :: string
  re_length :: "16 word"
  re_data :: "byte list"

text \<open>The length written is the field of the message, not the length of the data.\<close>

definition encode_relay_message :: "relay_message \<Rightarrow> byte list" where
  "encode_relay_message m =
     put16 (re_type m) @ put16 (of_nat (length (re_client m))) @ text_bytes (re_client m) @ put16 (re_length m) @ re_data m"

text \<open>
  \<open>decodeRelayMessage\<close> on the first \<open>n\<close> bytes of a buffer. Slicing is checked against the capacity of the buffer:
  beyond \<open>n\<close> it yields what earlier datagrams left there, beyond the capacity it panics.
\<close>

datatype 'm decoded = Malformed | Panics | Message 'm

definition decode_relay_message :: "byte list \<Rightarrow> nat \<Rightarrow> relay_message decoded" where
  "decode_relay_message buf n =
     (if n < 6 then Malformed
      else let k = unat (get16 buf 2); offset = 4 + k in
        if n < 4 + k then Malformed
        else
          let len = (if n \<ge> offset + 2 then get16 buf offset else 0) in
          if len > 0 \<and> n > offset + 2 then
            (if offset + 2 + unat len \<le> length buf
             then Message \<lparr>re_type = get16 buf 0, re_client = bytes_text (slice buf 4 (4 + k)), re_length = len,
               re_data = slice buf (offset + 2) (offset + 2 + unat len)\<rparr>
             else Panics)
          else Message \<lparr>re_type = get16 buf 0, re_client = bytes_text (slice buf 4 (4 + k)), re_length = len, re_data = []\<rparr>)"

section \<open>Hole punch messages\<close>

definition hole_punch_request :: "16 word" where "hole_punch_request = 1"
definition hole_punch_response :: "16 word" where "hole_punch_response = 2"
definition hole_punch_ack :: "16 word" where "hole_punch_ack = 3"
definition hole_punch_sync :: "16 word" where "hole_punch_sync = 4"

record punch_message =
  pu_type :: "16 word"
  pu_seq :: "32 word"
  pu_local_ip :: string
  pu_local_port :: "16 word"
  pu_remote_ip :: string
  pu_remote_port :: "16 word"

text \<open>The four bytes of an address; zeros if it is not an IPv4 address.\<close>

definition ip_field :: "(string \<Rightarrow> ip option) \<Rightarrow> string \<Rightarrow> byte list" where
  "ip_field parse_ip s =
     (case Option.bind (parse_ip s) ip_to4 of None \<Rightarrow> [0, 0, 0, 0] | Some a \<Rightarrow> map word_of_int a)"

definition encode_punch :: "(string \<Rightarrow> ip option) \<Rightarrow> punch_message \<Rightarrow> byte list" where
  "encode_punch parse_ip m =
     put16 (pu_type m) @ [0, 0] @ put32 (pu_seq m) @ ip_field parse_ip (pu_local_ip m) @ put16 (pu_local_port m) @
     ip_field parse_ip (pu_remote_ip m) @ put16 (pu_remote_port m) @ [0, 0, 0, 0]"

definition decode_punch :: "byte list \<Rightarrow> punch_message option" where
  "decode_punch bs =
     (if length bs < 20 then None
      else Some \<lparr>pu_type = get16 bs 0, pu_seq = get32 bs 4, pu_local_ip = show_ip4 (slice bs 8 12), pu_local_port = get16 bs 12,
        pu_remote_ip = show_ip4 (slice bs 14 18), pu_remote_port = get16 bs 18\<rparr>)"

section \<open>STUN\<close>

definition stun_binding_response :: "16 word" where "stun_binding_response = 0x101"
definition stun_mapped_address :: "16 word" where "stun_mapped_address = 1"
definition stun_change_request :: "16 word" where "stun_change_request = 3"
definition stun_changed_address :: "16 word" where "stun_changed_address = 5"
definition stun_xor_mapped_address :: "16 word" where "stun_xor_mapped_address = 0x20"

datatype nat_type = NatUnknown | NatOpen | NatFullCone | NatRestrictedCone | NatPortRestrictedCone | NatSymmetric

definition nat_type_name :: "nat_type \<Rightarrow> string" where
  "nat_type_name t =
     (case t of
        NatOpen \<Rightarrow> ''Open''
      | NatFullCone \<Rightarrow> ''Full Cone''
      | NatRestrictedCone \<Rightarrow> ''Restricted Cone''
      | NatPortRestrictedCone \<Rightarrow> ''Port Restricted Cone''
      | NatSymmetric \<Rightarrow> ''Symmetric''
      | NatUnknown \<Rightarrow> ''Unknown'')"

definition create_binding_request :: "byte list" where
  "create_binding_request = put16 1 @ put16 0 @ put16 0 @ put16 0 @ map word_of_int [0..11]"

definition change_request :: "byte list" where
  "change_request = create_binding_request @ put16 stun_change_request @ put16 4 @ put32 2"

definition xor_mask :: "byte list" where
  "xor_mask = [0x21, 0x12, 0xa4, 0x42, 0, 1, 2, 3, 4, 5, 6, 7]"

text \<open>An address attribute whose value starts at \<open>j\<close>: its text, empty if it is not IPv4, and its port.\<close>

definition mapped_value :: "16 word \<Rightarrow> byte list \<Rightarrow> nat \<Rightarrow> string \<times> 16 word" where
  "mapped_value kind bs j =
     (let port = (if kind = stun_xor_mapped_address then get16 bs (j + 2) XOR 0x2112 else get16 bs (j + 2)) in
      (if bs ! (j + 1) = 1 \<and> j + 8 \<le> length bs then
         show_ip4 (if kind = stun_xor_mapped_address then map2 (XOR) (slice bs (j + 4) (j + 8)) xor_mask
                   else slice bs (j + 4) (j + 8))
       else [], port))"

text \<open>The loop over the attributes; it ends at the first mapped address, whatever that holds.\<close>

function mapped_address :: "byte list \<Rightarrow> nat \<Rightarrow> string \<times> 16 word" where
  "mapped_address bs i =
     (if i + 4 < length bs then
        let kind = get16 bs i; len = unat (get16 bs (i + 2)); j = i + 4 in
        if j + len > length bs then ([], 0)
        else if kind = stun_mapped_address \<or> kind = stun_xor_mapped_address
        then (if len \<ge> 8 then mapped_value kind bs j else ([], 0))
        else mapped_address bs (j + len)
      else ([], 0))"
  by pat_completeness auto
termination by (relation "measure (\<lambda>(bs, i). length bs - i)") auto

declare mapped_address.simps [simp del]

datatype stun_error = StunFailed | InvalidResponse | NoMappedAddress | NoChangedAddress | StunSocket

definition parse_binding_response :: "byte list \<Rightarrow> stun_error + string \<times> 16 word" where
  "parse_binding_response bs =
     (if length bs < 20 \<or> get16 bs 0 \<noteq> stun_binding_response then Inl InvalidResponse
      else case mapped_address bs 20 of (ip, port) \<Rightarrow>
        if ip = [] \<or> port = 0 then Inl NoMappedAddress else Inr (ip, port))"

function changed_address :: "byte list \<Rightarrow> nat \<Rightarrow> stun_error + string" where
  "changed_address bs i =
     (if i + 4 < length bs then
        let kind = get16 bs i; len = unat (get16 bs (i + 2)); j = i + 4 in
        if j + len > length bs then Inl NoChangedAddress
        else if kind = stun_changed_address \<and> len \<ge> 8 \<and> bs ! (j + 1) = 1 \<and> j + 8 \<le> length bs
        then Inr (show_ip4 (slice bs (j + 4) (j + 8)))
        else changed_address bs (j + len)
      else Inl NoChangedAddress)"
  by pat_completeness auto
termination by (relation "measure (\<lambda>(bs, i). length bs - i)") auto

declare changed_address.simps [simp del]

definition parse_changed_address :: "byte list \<Rightarrow> stun_error + string" where
  "parse_changed_address bs = changed_address bs 20"

section \<open>Round trips\<close>

lemma text_bytes_length [simp]: "length (text_bytes s) = length s"
  by (simp add: text_bytes_def)

lemma relay_fields:
  defines "k \<equiv> \<lambda>m. length (re_client m)"
  shows "get16 (encode_relay_message m @ stale) 0 = re_type m"
    "get16 (encode_relay_message m @ stale) 2 = of_nat (k m)"
    "slice (encode_relay_message m @ stale) 4 (4 + k m) = text_bytes (re_client m)"
    "get16 (encode_relay_message m @ stale) (4 + k m) = re_length m"
    "slice (encode_relay_message m @ stale) (6 + k m) (6 + k m + j) = take j (re_data m @ stale)"
    "length (encode_relay_message m) = 6 + k m + length (re_data m)"
proof -
  let ?h = "put16 (re_type m) @ put16 (of_nat (k m))"
  have buf: "encode_relay_message m @ stale =
      put16 (re_type m) @ put16 (of_nat (k m)) @ text_bytes (re_client m) @ put16 (re_length m) @ re_data m @ stale"
    by (simp add: encode_relay_message_def k_def)
  show "get16 (encode_relay_message m @ stale) 0 = re_type m" by (simp add: buf)
  show "get16 (encode_relay_message m @ stale) 2 = of_nat (k m)"
    using get16_later [of "put16 (re_type m)" 2 "put16 (of_nat (k m)) @ text_bytes (re_client m) @ put16 (re_length m) @ re_data m @ stale" 0]
    by (simp add: buf)
  show "slice (encode_relay_message m @ stale) 4 (4 + k m) = text_bytes (re_client m)"
    using slice_later [of ?h 4 "text_bytes (re_client m) @ put16 (re_length m) @ re_data m @ stale" 0 "k m"] by (simp add: buf k_def)
  show "get16 (encode_relay_message m @ stale) (4 + k m) = re_length m"
    using get16_later [of "?h @ text_bytes (re_client m)" "4 + k m" "put16 (re_length m) @ re_data m @ stale" 0] by (simp add: buf k_def)
  show "slice (encode_relay_message m @ stale) (6 + k m) (6 + k m + j) = take j (re_data m @ stale)"
    using slice_later [of "?h @ text_bytes (re_client m) @ put16 (re_length m)" "6 + k m" "re_data m @ stale" 0 j]
    by (simp add: buf k_def slice_def)
  show "length (encode_relay_message m) = 6 + k m + length (re_data m)" by (simp add: encode_relay_message_def k_def)
qed

text \<open>What becomes of a message that carries \<open>re_data\<close> and declares \<open>re_length\<close>, in a buffer with \<open>stale\<close> behind it.\<close>

lemma relay_decoded:
  assumes "length (re_client m) < 65536"
  shows "decode_relay_message (encode_relay_message m @ stale) (length (encode_relay_message m)) =
    (if re_length m = 0 \<or> re_data m = [] then Message (m\<lparr>re_data := []\<rparr>)
     else if unat (re_length m) \<le> length (re_data m @ stale)
     then Message (m\<lparr>re_data := take (unat (re_length m)) (re_data m @ stale)\<rparr>)
     else Panics)"
proof -
  have k: "unat (of_nat (length (re_client m)) :: 16 word) = length (re_client m)" using assms by (simp add: unat_of_nat)
  show ?thesis by (simp add: decode_relay_message_def relay_fields k Let_def word_gt_0 del: take_append)
qed

text \<open>
  A relay message whose length field is right is decoded from the first bytes of any buffer, whatever the
  buffer still holds behind it.
\<close>
theorem relay_message_roundtrip:
  assumes "length (re_client m) < 65536" "length (re_data m) < 65536" "re_length m = of_nat (length (re_data m))"
  shows "decode_relay_message (encode_relay_message m @ stale) (length (encode_relay_message m)) = Message m"
proof -
  have "unat (re_length m) = length (re_data m)" using assms(2,3) by (simp add: unat_of_nat)
  then show ?thesis using relay_decoded [OF assms(1)] by (auto simp: unat_eq_0 [symmetric] simp del: unat_eq_0)
qed

text \<open>
  A message that declares more than it carries gets the bytes that follow in the buffer, which are those of an
  earlier datagram, and if they would lie behind the end of the buffer, the process panics.
\<close>
theorem relay_message_overread:
  assumes "length (re_client m) < 65536" "re_data m \<noteq> []" "length (re_data m) < unat (re_length m)"
  shows "decode_relay_message (encode_relay_message m @ stale) (length (encode_relay_message m)) =
    (if unat (re_length m) \<le> length (re_data m) + length stale
     then Message (m\<lparr>re_data := re_data m @ take (unat (re_length m) - length (re_data m)) stale\<rparr>)
     else Panics)"
proof -
  have "re_length m \<noteq> 0" using assms(3) by auto
  then show ?thesis using relay_decoded [OF assms(1)] assms(2,3) by simp
qed

lemma ip_to4_length: "ip_to4 a = Some b \<Longrightarrow> length b = 4"
  by (auto simp: ip_to4_def split: if_splits)

lemma ip_field_length [simp]: "length (ip_field parse_ip s) = 4"
  using ip_to4_length by (auto simp: ip_field_def bind_eq_Some_conv split: option.splits)

text \<open>
  A hole punch message arrives with its type, number, ports and addresses; addresses that are not IPv4 arrive as
  0.0.0.0.
\<close>
theorem punch_roundtrip:
  "decode_punch (encode_punch parse_ip m) = Some (m\<lparr>pu_local_ip := show_ip4 (ip_field parse_ip (pu_local_ip m)),
    pu_remote_ip := show_ip4 (ip_field parse_ip (pu_remote_ip m))\<rparr>)"
proof -
  let ?l = "ip_field parse_ip (pu_local_ip m)" and ?r = "ip_field parse_ip (pu_remote_ip m)"
  let ?t = "put16 (pu_type m)" and ?s = "put32 (pu_seq m)" and ?p = "put16 (pu_local_port m)" and ?q = "put16 (pu_remote_port m)"
  have bs: "encode_punch parse_ip m = ?t @ [0, 0] @ ?s @ ?l @ ?p @ ?r @ ?q @ [0, 0, 0, 0]" by (simp add: encode_punch_def)
  have "get16 (encode_punch parse_ip m) 0 = pu_type m" by (simp add: bs)
  moreover have "get32 (encode_punch parse_ip m) 4 = pu_seq m"
    using get32_later [of "?t @ [0, 0]" 4 "?s @ ?l @ ?p @ ?r @ ?q @ [0, 0, 0, 0]" 0] by (simp add: bs)
  moreover have "slice (encode_punch parse_ip m) 8 12 = ?l"
    using slice_later [of "?t @ [0, 0] @ ?s" 8 "?l @ ?p @ ?r @ ?q @ [0, 0, 0, 0]" 0 4] by (simp add: bs)
  moreover have "get16 (encode_punch parse_ip m) 12 = pu_local_port m"
    using get16_later [of "?t @ [0, 0] @ ?s @ ?l" 12 "?p @ ?r @ ?q @ [0, 0, 0, 0]" 0] by (simp add: bs)
  moreover have "slice (encode_punch parse_ip m) 14 18 = ?r"
    using slice_later [of "?t @ [0, 0] @ ?s @ ?l @ ?p" 14 "?r @ ?q @ [0, 0, 0, 0]" 0 4] by (simp add: bs)
  moreover have "get16 (encode_punch parse_ip m) 18 = pu_remote_port m"
    using get16_later [of "?t @ [0, 0] @ ?s @ ?l @ ?p @ ?r" 18 "?q @ [0, 0, 0, 0]" 0] by (simp add: bs)
  moreover have "length (encode_punch parse_ip m) = 24" by (simp add: bs)
  ultimately show ?thesis by (simp add: decode_punch_def)
qed

section \<open>Answers of a STUN server\<close>

definition stun_attribute :: "16 word \<Rightarrow> byte list \<Rightarrow> byte list" where
  "stun_attribute kind v = put16 kind @ put16 (of_nat (length v)) @ v"

definition stun_address :: "16 word \<Rightarrow> byte list \<Rightarrow> 16 word \<Rightarrow> byte list" where
  "stun_address kind ip port =
     (if kind = stun_xor_mapped_address then [0, 1] @ put16 (port XOR 0x2112) @ map2 (XOR) ip xor_mask else [0, 1] @ put16 port @ ip)"

lemma attribute_length [simp]: "length (stun_attribute kind v) = 4 + length v"
  by (simp add: stun_attribute_def)

lemma attribute_fields:
  assumes "length v < 65536"
  shows "get16 (xs @ stun_attribute kind v @ rest) (length xs) = kind"
    "unat (get16 (xs @ stun_attribute kind v @ rest) (length xs + 2)) = length v"
proof -
  show "get16 (xs @ stun_attribute kind v @ rest) (length xs) = kind" by (simp add: get16_at stun_attribute_def)
  have "get16 (xs @ stun_attribute kind v @ rest) (length xs + 2) = of_nat (length v)"
    using get16_later [of "xs @ put16 kind" "length xs + 2" "put16 (of_nat (length v)) @ v @ rest" 0] by (simp add: stun_attribute_def)
  then show "unat (get16 (xs @ stun_attribute kind v @ rest) (length xs + 2)) = length v" using assms by (simp add: unat_of_nat)
qed

lemma attribute_skipped:
  assumes "length v < 65536" "kind \<noteq> stun_mapped_address" "kind \<noteq> stun_xor_mapped_address" "rest \<noteq> []"
  shows "mapped_address (xs @ stun_attribute kind v @ rest) (length xs) =
    mapped_address ((xs @ stun_attribute kind v) @ rest) (length (xs @ stun_attribute kind v))"
  using assms attribute_fields [OF assms(1), of xs kind rest]
  by (subst mapped_address.simps) (simp add: Let_def add.assoc)

lemma attributes_skipped:
  assumes "list_all (\<lambda>(kind, v). kind \<noteq> stun_mapped_address \<and> kind \<noteq> stun_xor_mapped_address \<and> length v < 65536) as" "rest \<noteq> []"
  shows "mapped_address (xs @ concat (map (case_prod stun_attribute) as) @ rest) (length xs) =
    mapped_address ((xs @ concat (map (case_prod stun_attribute) as)) @ rest) (length (xs @ concat (map (case_prod stun_attribute) as)))"
  using assms(1)
proof (induction as arbitrary: xs)
  case (Cons a as)
  obtain kind v where a: "a = (kind, v)" by fastforce
  have "concat (map (case_prod stun_attribute) as) @ rest \<noteq> []" using assms(2) by simp
  with Cons.prems a attribute_skipped [of v kind "concat (map (case_prod stun_attribute) as) @ rest" xs]
    Cons.IH [of "xs @ stun_attribute kind v"] show ?case by simp
qed simp

lemma mask_twice: "length ip = 4 \<Longrightarrow> map2 (XOR) (map2 (XOR) ip xor_mask) xor_mask = ip"
  by (auto simp: numeral_eq_Suc length_Suc_conv xor_mask_def xor.assoc)

lemma mapped_value_at:
  assumes "length ys = j" "length ip = 4"
  shows "mapped_value kind (ys @ stun_address kind ip port @ rest) j = (show_ip4 ip, port)"
proof -
  let ?v = "stun_address kind ip port" and ?bs = "ys @ stun_address kind ip port @ rest"
  have fam: "?bs ! (j + 1) = 1" using assms(1) by (auto simp: stun_address_def nth_append)
  have port: "get16 ?bs (j + 2) = (if kind = stun_xor_mapped_address then port XOR 0x2112 else port)"
    unfolding get16_later [OF assms(1)] using get16_later [of "[0, 1]" 2 _ 0] by (simp add: stun_address_def)
  have ip: "slice ?bs (j + 4) (j + 8) = (if kind = stun_xor_mapped_address then map2 (XOR) ip xor_mask else ip)"
    unfolding slice_later [OF assms(1)] using assms(2)
    by (auto simp: stun_address_def slice_def put16_def xor_mask_def numeral_eq_Suc)
  have len: "j + 8 \<le> length ?bs" using assms by (auto simp: stun_address_def xor_mask_def)
  show ?thesis unfolding mapped_value_def fam port ip using len mask_twice [OF assms(2)] by (simp add: xor.assoc Let_def)
qed

lemma stun_address_parsed:
  assumes "length header = 20" "get16 header 0 = stun_binding_response"
    "list_all (\<lambda>(kind, v). kind \<noteq> stun_mapped_address \<and> kind \<noteq> stun_xor_mapped_address \<and> length v < 65536) as"
    "kind \<in> {stun_mapped_address, stun_xor_mapped_address}" "length ip = 4" "port \<noteq> 0"
  shows "parse_binding_response (header @ concat (map (case_prod stun_attribute) as) @ stun_attribute kind (stun_address kind ip port) @ rest) =
    Inr (show_ip4 ip, port)"
proof -
  let ?as = "header @ concat (map (case_prod stun_attribute) as)" and ?v = "stun_address kind ip port"
  let ?bs = "?as @ stun_attribute kind ?v @ rest"
  have v: "length ?v = 8" using assms(5) by (auto simp: stun_address_def xor_mask_def)
  note fields = attribute_fields [of ?v ?as kind rest]
  have bs: "?bs = (?as @ put16 kind @ put16 (of_nat (length ?v))) @ ?v @ rest" by (simp add: stun_attribute_def)
  have "mapped_value kind ?bs (length ?as + 4) = (show_ip4 ip, port)"
    unfolding bs by (rule mapped_value_at) (simp_all add: assms(5))
  then have "mapped_address ?bs (length ?as) = (show_ip4 ip, port)"
    using fields v assms(4) by (subst mapped_address.simps) (auto simp: Let_def)
  moreover have "mapped_address ?bs 20 = mapped_address ?bs (length ?as)"
    using attributes_skipped [OF assms(3), of "stun_attribute kind ?v @ rest" header] assms(1) by (simp add: stun_attribute_def put16_def)
  moreover have "get16 ?bs 0 = stun_binding_response" using assms(1,2) by (simp add: get16_def nth_append)
  ultimately show ?thesis using assms(1,6) by (simp add: parse_binding_response_def show_ip4_def)
qed

lemma stun_address_found_plain:
  assumes "length header = 20" "get16 header 0 = stun_binding_response" "length ip = 4" "port \<noteq> 0"
  shows "parse_binding_response (header @ stun_attribute stun_mapped_address (stun_address stun_mapped_address ip port)) = Inr (show_ip4 ip, port)"
  using stun_address_parsed [OF assms(1,2), of "[]" stun_mapped_address ip port "[]"] assms(3,4) by simp

text \<open>
  The address a STUN server reports is found among the attributes of its answer, masked or not, as long as no
  attribute is padded.
\<close>
theorem stun_address_found:
  assumes "length header = 20" "get16 header 0 = stun_binding_response"
    "list_all (\<lambda>(kind, v). kind \<noteq> stun_mapped_address \<and> kind \<noteq> stun_xor_mapped_address \<and> length v < 65536) as"
    "kind \<in> {stun_mapped_address, stun_xor_mapped_address}" "length ip = 4" "port \<noteq> 0"
  shows "parse_binding_response (header @ concat (map (case_prod stun_attribute) as) @ stun_attribute kind (stun_address kind ip port) @ rest) =
    Inr (show_ip4 ip, port)"
  using assms by (rule stun_address_parsed)

section \<open>Instances\<close>

definition demo_relay :: relay_message where
  "demo_relay = \<lparr>re_type = relay_data, re_client = ''c'', re_length = 2, re_data = [7, 8]\<rparr>"

theorem relay_message_roundtrip_witness:
  "decode_relay_message (encode_relay_message demo_relay @ [9, 9]) 9 = Message demo_relay"
proof -
  have "length (encode_relay_message demo_relay) = 9" by (simp add: encode_relay_message_def demo_relay_def)
  then show ?thesis using relay_message_roundtrip [of demo_relay "[9, 9]"] by (simp add: demo_relay_def)
qed

theorem relay_message_overread_witness:
  "let m = demo_relay\<lparr>re_length := 3\<rparr> in
    decode_relay_message (encode_relay_message m @ [9, 9]) 9 = Message (m\<lparr>re_data := [7, 8, 9]\<rparr>) \<and>
    decode_relay_message (encode_relay_message m) 9 = Panics"
proof -
  have "length (encode_relay_message (demo_relay\<lparr>re_length := 3\<rparr>)) = 9" by (simp add: encode_relay_message_def demo_relay_def)
  then show ?thesis
    using relay_message_overread [of "demo_relay\<lparr>re_length := 3\<rparr>" "[9, 9]"] relay_message_overread [of "demo_relay\<lparr>re_length := 3\<rparr>" "[]"]
    by (simp add: demo_relay_def Let_def)
qed

theorem stun_address_found_witness:
  "parse_binding_response (put16 stun_binding_response @ replicate 18 0 @ stun_attribute 0x8022 [1, 2, 3, 4] @
     stun_attribute stun_xor_mapped_address (stun_address stun_xor_mapped_address [1, 2, 3, 4] 443)) = Inr (''1.2.3.4'', 443)"
proof -
  have "show_ip4 [1, 2, 3, 4] = ''1.2.3.4''" by code_simp
  then show ?thesis
    using stun_address_found [of "put16 stun_binding_response @ replicate 18 0" "[(0x8022, [1, 2, 3, 4])]" stun_xor_mapped_address
        "[1, 2, 3, 4]" 443 "[]"]
    by (simp add: stun_mapped_address_def stun_xor_mapped_address_def)
qed

text \<open>Attributes are padded to multiples of four bytes, which the loop does not know of.\<close>

lemma padded_attribute_misread:
  "parse_binding_response (put16 stun_binding_response @ replicate 18 0 @ stun_attribute 0x8022 [1, 2, 3] @ [0] @
     stun_attribute stun_mapped_address (stun_address stun_mapped_address [1, 2, 3, 4] 443)) = Inl NoMappedAddress"
  by code_simp

text \<open>The length in the header of a change request does not count its attribute, so a server does not see it.\<close>

lemma change_request_length: "get16 change_request 2 = 0" "length change_request = 28"
  by code_simp+

end
