(* ===== verification/NatService.thy ===== *)
theory NatService
  imports NatWire Prelude
begin

text \<open>
  The parts of \<open>internal/nat\<close> that keep state: relay server and client (\<open>relay.go\<close>), hole punching
  (\<open>holepunch.go\<close>), signalling (\<open>signaling.go\<close>), the STUN client (\<open>stun.go\<close>) and the manager that tries them in turn
  (\<open>manager.go\<close>). What arrives is an argument, what is sent is part of the result: pairs of an address
  and the bytes. Sockets that cannot be opened are failures of the steps that need them.
\<close>

type_synonym packet = "string \<times> byte list"

section \<open>The relay server\<close>

text \<open>Only the address of a client is looked at again.\<close>

record relay_server =
  rl_clients :: "string \<rightharpoonup> string"
  rl_dead :: bool

definition new_relay_server :: relay_server where
  "new_relay_server = \<lparr>rl_clients = Map.empty, rl_dead = False\<rparr>"

definition relay_handle_connect :: "string \<Rightarrow> string \<Rightarrow> relay_server \<Rightarrow> relay_server \<times> packet list" where
  "relay_handle_connect cid addr r =
     (r\<lparr>rl_clients := (rl_clients r)(cid \<mapsto> addr)\<rparr>,
      [(addr, encode_relay_message \<lparr>re_type = relay_connect_ack, re_client = cid, re_length = 0, re_data = []\<rparr>)])"

definition handle_relay_data :: "string \<Rightarrow> byte list \<Rightarrow> relay_server \<Rightarrow> packet list" where
  "handle_relay_data cid bytes r = (case rl_clients r cid of None \<Rightarrow> [] | Some addr \<Rightarrow> [(addr, bytes)])"

definition relay_handle_close :: "string \<Rightarrow> relay_server \<Rightarrow> relay_server" where
  "relay_handle_close cid r = r\<lparr>rl_clients := (rl_clients r)(cid := None)\<rparr>"

definition relay_handle_message :: "relay_message \<Rightarrow> string \<Rightarrow> relay_server \<Rightarrow> relay_server \<times> packet list" where
  "relay_handle_message m addr r =
     (if re_type m = relay_connect then relay_handle_connect (re_client m) addr r
      else if re_type m = relay_data then (r, handle_relay_data (re_client m) (re_data m) r)
      else if re_type m = relay_close then (relay_handle_close (re_client m) r, [])
      else (r, []))"

text \<open>One turn of the server: \<open>n\<close> bytes from \<open>addr\<close> are in the buffer. A panic ends the process.\<close>

definition relay_receive :: "byte list \<Rightarrow> nat \<Rightarrow> string \<Rightarrow> relay_server \<Rightarrow> relay_server \<times> packet list" where
  "relay_receive buf n addr r =
     (if rl_dead r then (r, [])
      else case decode_relay_message buf n of
        Malformed \<Rightarrow> (r, [])
      | Panics \<Rightarrow> (r\<lparr>rl_dead := True\<rparr>, [])
      | Message m \<Rightarrow> relay_handle_message m addr r)"

section \<open>The relay client\<close>

record relay_client =
  rk_id :: string
  rk_server :: string
  rk_connected :: bool
  rk_stopped :: bool

definition new_relay_client :: "string \<Rightarrow> string \<Rightarrow> relay_client" where
  "new_relay_client server cid = \<lparr>rk_id = cid, rk_server = server, rk_connected = False, rk_stopped = False\<rparr>"

datatype relay_error = RelaySocket | RelayInvalid | RelayNotConnected | RelayPanic

text \<open>\<open>connect\<close>: the message is sent, and \<open>reply\<close> is the buffer after the answer with its length, or nothing.\<close>

definition relay_connect_message :: "relay_client \<Rightarrow> packet" where
  "relay_connect_message c =
     (rk_server c, encode_relay_message \<lparr>re_type = relay_connect, re_client = rk_id c, re_length = 0, re_data = []\<rparr>)"

definition relay_connect_reply :: "(byte list \<times> nat) option \<Rightarrow> relay_client \<Rightarrow> relay_client \<times> relay_error option" where
  "relay_connect_reply reply c =
     (case reply of
        None \<Rightarrow> (c, Some RelaySocket)
      | Some (buf, n) \<Rightarrow> (case decode_relay_message buf n of
          Malformed \<Rightarrow> (c, Some RelayInvalid)
        | Panics \<Rightarrow> (c, Some RelayPanic)
        | Message m \<Rightarrow> (if re_type m = relay_connect_ack then c\<lparr>rk_connected := True\<rparr> else c, None)))"

text \<open>Data longer than the length field can say is sent whole with a length that has wrapped.\<close>

definition relay_send :: "byte list \<Rightarrow> relay_client \<Rightarrow> relay_error + packet" where
  "relay_send bytes c =
     (if \<not> rk_connected c then Inl RelayNotConnected
      else Inr (rk_server c, encode_relay_message
        \<lparr>re_type = relay_data, re_client = rk_id c, re_length = of_nat (length bytes), re_data = bytes\<rparr>))"

definition relay_client_stop :: "relay_client \<Rightarrow> relay_client \<times> packet list" where
  "relay_client_stop c =
     (if rk_stopped c then (c, [])
      else (c\<lparr>rk_stopped := True\<rparr>,
        if rk_connected c
        then [(rk_server c, encode_relay_message \<lparr>re_type = relay_close, re_client = rk_id c, re_length = 0, re_data = []\<rparr>)]
        else []))"

text \<open>The simple relay forwards whatever arrives.\<close>

record relay =
  ry_remote :: string
  ry_active :: bool

definition relay_start :: "string \<Rightarrow> relay" where
  "relay_start remote = \<lparr>ry_remote = remote, ry_active = True\<rparr>"

definition relay_forward :: "byte list \<Rightarrow> relay \<Rightarrow> packet list" where
  "relay_forward bytes r = (if bytes = [] \<or> \<not> ry_active r then [] else [(ry_remote r, bytes)])"

definition relay_stop :: "relay \<Rightarrow> relay" where
  "relay_stop r = r\<lparr>ry_active := False\<rparr>"

section \<open>Hole punching\<close>

record puncher =
  hp_ip :: string
  hp_port :: "16 word"
  hp_connected :: bool
  hp_remote :: string
  hp_ready :: bool

definition new_puncher :: "string \<Rightarrow> 16 word \<Rightarrow> puncher" where
  "new_puncher ip port = \<lparr>hp_ip = ip, hp_port = port, hp_connected = False, hp_remote = [], hp_ready = False\<rparr>"

definition signal_peer_ready :: "puncher \<Rightarrow> puncher" where
  "signal_peer_ready h = h\<lparr>hp_ready := True\<rparr>"

definition punch_packet :: "16 word \<Rightarrow> string \<Rightarrow> 16 word \<Rightarrow> string \<Rightarrow> 16 word \<Rightarrow> punch_message" where
  "punch_packet kind lip lport rip rport =
     \<lparr>pu_type = kind, pu_seq = 0, pu_local_ip = lip, pu_local_port = lport, pu_remote_ip = rip, pu_remote_port = rport\<rparr>"

text \<open>A request is answered with two messages, the response and an acknowledgement.\<close>

definition send_punch_response :: "(string \<Rightarrow> ip option) \<Rightarrow> puncher \<Rightarrow> string \<Rightarrow> packet list" where
  "send_punch_response parse_ip h addr =
     [(addr, encode_punch parse_ip (punch_packet hole_punch_response (hp_ip h) (hp_port h) [] 0)),
      (addr, encode_punch parse_ip (punch_packet hole_punch_ack [] 0 [] 0))]"

definition establish :: "string \<Rightarrow> puncher \<Rightarrow> puncher" where
  "establish addr h = h\<lparr>hp_connected := True, hp_remote := addr\<rparr>"

definition punch_handle :: "(string \<Rightarrow> ip option) \<Rightarrow> punch_message \<Rightarrow> string \<Rightarrow> puncher \<Rightarrow> puncher \<times> packet list" where
  "punch_handle parse_ip m addr h =
     (if pu_type m = hole_punch_request then (h, send_punch_response parse_ip h addr)
      else if pu_type m = hole_punch_response then (signal_peer_ready (establish addr h), [])
      else if pu_type m = hole_punch_ack then (signal_peer_ready (establish addr h), [])
      else if pu_type m = hole_punch_sync
      then (signal_peer_ready (if hp_connected h then h else establish addr h), [])
      else (h, []))"

definition punch_receive :: "(string \<Rightarrow> ip option) \<Rightarrow> byte list \<times> string \<Rightarrow> puncher \<times> packet list \<Rightarrow> puncher \<times> packet list" where
  "punch_receive parse_ip d hs =
     (case decode_punch (fst d) of
        None \<Rightarrow> hs
      | Some m \<Rightarrow> (case punch_handle parse_ip m (snd d) (fst hs) of (h, ps) \<Rightarrow> (h, snd hs @ ps)))"

text \<open>
  \<open>Punch\<close>: up to ten requests; a turn says whether the request could be written and which datagrams arrive in the
  half second after it.
\<close>

fun punch_loop :: "(string \<Rightarrow> ip option) \<Rightarrow> packet \<Rightarrow> (bool \<times> (byte list \<times> string) list) list \<Rightarrow> puncher \<times> packet list \<Rightarrow>
    (puncher \<times> packet list) \<times> bool" where
  "punch_loop parse_ip req [] hs = (hs, False)"
| "punch_loop parse_ip req ((ok, ds) # turns) hs =
     (if \<not> ok then punch_loop parse_ip req turns hs
      else
        let hs1 = fold (punch_receive parse_ip) ds (fst hs, snd hs @ [req]) in
        if hp_connected (fst hs1) then (hs1, True) else punch_loop parse_ip req turns hs1)"

definition punch :: "(string \<Rightarrow> ip option) \<Rightarrow> string \<Rightarrow> string \<times> 16 word \<Rightarrow> string \<times> 16 word \<Rightarrow>
    (bool \<times> (byte list \<times> string) list) list \<Rightarrow> puncher \<Rightarrow> (puncher \<times> packet list) \<times> bool" where
  "punch parse_ip peer loc rem turns h =
     punch_loop parse_ip (peer, encode_punch parse_ip (punch_packet hole_punch_request (fst loc) (snd loc) (fst rem) (snd rem)))
       (take 10 turns) (h, [])"

text \<open>\<open>PunchWithSync\<close>: five messages, then what arrives in the three seconds of sending and waiting.\<close>

definition punch_with_sync :: "(string \<Rightarrow> ip option) \<Rightarrow> string \<Rightarrow> string \<times> 16 word \<Rightarrow> (byte list \<times> string) list \<Rightarrow> puncher \<Rightarrow>
    (puncher \<times> packet list) \<times> bool" where
  "punch_with_sync parse_ip peer loc ds h =
     (let req = (peer, encode_punch parse_ip (punch_packet hole_punch_sync (fst loc) (snd loc) [] 0));
          hs = fold (punch_receive parse_ip) ds (h, replicate 5 req)
      in (hs, hp_connected (fst hs)))"

section \<open>Signalling\<close>

record signal_message =
  sg_type :: string
  sg_peer :: string
  sg_local :: string
  sg_remote :: string
  sg_nat :: string
  sg_data :: string

record peer_info =
  pe_id :: string
  pe_local :: string
  pe_remote :: string
  pe_nat :: string
  pe_seen :: instant

type_synonym signal_server = "string \<rightharpoonup> peer_info"

definition signal_response :: "peer_info \<Rightarrow> signal_message" where
  "signal_response p =
     \<lparr>sg_type = ''response'', sg_peer = pe_id p, sg_local = pe_local p, sg_remote = pe_remote p, sg_nat = pe_nat p, sg_data = []\<rparr>"

text \<open>What is sent are messages before the JSON encoder.\<close>

definition signal_handle :: "instant \<Rightarrow> signal_message \<Rightarrow> string \<Rightarrow> signal_server \<Rightarrow> signal_server \<times> (string \<times> signal_message) list" where
  "signal_handle now m addr ps =
     (if sg_type m = ''register'' then
        (ps(sg_peer m \<mapsto> \<lparr>pe_id = sg_peer m, pe_local = sg_local m, pe_remote = addr, pe_nat = sg_nat m, pe_seen = now\<rparr>), [])
      else if sg_type m = ''query'' then
        (ps, case ps (sg_peer m) of None \<Rightarrow> [] | Some p \<Rightarrow> [(addr, signal_response p)])
      else if sg_type m \<in> {''offer'', ''answer'', ''ice''} then
        (ps, case ps (sg_peer m) of None \<Rightarrow> [] | Some p \<Rightarrow> [(pe_remote p, m)])
      else (ps, []))"

text \<open>A client has room for one response; \<open>QueryPeer\<close> empties it, sends, and takes what is there in time.\<close>

record signal_client =
  sk_id :: string
  sk_local :: string
  sk_response :: "signal_message option"

definition signal_client_message :: "string \<Rightarrow> string \<Rightarrow> string \<Rightarrow> string \<Rightarrow> string \<Rightarrow> signal_message" where
  "signal_client_message kind peer loc ntype dat =
     \<lparr>sg_type = kind, sg_peer = peer, sg_local = loc, sg_remote = [], sg_nat = ntype, sg_data = dat\<rparr>"

definition signal_register :: "string \<Rightarrow> signal_client \<Rightarrow> signal_message" where
  "signal_register ntype c = signal_client_message ''register'' (sk_id c) (sk_local c) ntype []"

definition signal_offer :: "string \<Rightarrow> string \<Rightarrow> signal_message" where
  "signal_offer peer dat = signal_client_message ''offer'' peer [] [] dat"

definition signal_answer :: "string \<Rightarrow> string \<Rightarrow> signal_message" where
  "signal_answer peer dat = signal_client_message ''answer'' peer [] [] dat"

definition signal_client_receive :: "signal_message \<Rightarrow> signal_client \<Rightarrow> signal_client" where
  "signal_client_receive m c =
     (if sg_type m = ''response'' \<and> sk_response c = None then c\<lparr>sk_response := Some m\<rparr> else c)"

definition query_send :: "string \<Rightarrow> signal_client \<Rightarrow> signal_client \<times> signal_message" where
  "query_send peer c = (c\<lparr>sk_response := None\<rparr>, signal_client_message ''query'' peer [] [] [])"

definition query_take :: "signal_client \<Rightarrow> signal_client \<times> signal_message option" where
  "query_take c = (c\<lparr>sk_response := None\<rparr>, sk_response c)"

section \<open>The STUN client\<close>

text \<open>The answer of a server: nothing, or the bytes of a datagram.\<close>

definition default_stun_servers :: "string list" where
  "default_stun_servers = [''stun.l.google.com:19302'', ''stun1.l.google.com:19302'', ''stun2.l.google.com:19302'']"

definition new_stun_client :: "string list \<Rightarrow> string list" where
  "new_stun_client servers = (if servers = [] then default_stun_servers else servers)"

fun query_servers :: "(string \<Rightarrow> byte list option) \<Rightarrow> string list \<Rightarrow> (string \<times> 16 word) option" where
  "query_servers answer [] = None"
| "query_servers answer (s # ss) =
     (case answer s of
        None \<Rightarrow> query_servers answer ss
      | Some bs \<Rightarrow> (case parse_binding_response bs of Inl _ \<Rightarrow> query_servers answer ss | Inr r \<Rightarrow> Some r))"

definition test_change_request :: "byte list option \<Rightarrow> stun_error + string" where
  "test_change_request reply = (case reply of None \<Rightarrow> Inl StunSocket | Some bs \<Rightarrow> parse_changed_address bs)"

text \<open>The two tests that are not implemented: neither finds what it looks for.\<close>

definition test_port_restricted :: "stun_error + bool" where
  "test_port_restricted = Inr False"

definition test_full_cone :: "stun_error + bool" where
  "test_full_cone = Inr False"

definition detect_nat_type :: "string \<Rightarrow> string \<Rightarrow> byte list option \<Rightarrow> string \<Rightarrow> nat_type \<times> stun_error option" where
  "detect_nat_type local_ip local_addr reply public_ip =
     (if local_ip = public_ip \<and> local_addr = [] then (NatOpen, None)
      else case test_change_request reply of
        Inl e \<Rightarrow> (NatSymmetric, Some e)
      | Inr changed \<Rightarrow>
          if changed = [] then (NatSymmetric, None)
          else (case test_port_restricted of
              Inl _ \<Rightarrow> (NatUnknown, None)
            | Inr False \<Rightarrow> (NatPortRestrictedCone, None)
            | Inr True \<Rightarrow> (case test_full_cone of
                Inl _ \<Rightarrow> (NatUnknown, None)
              | Inr full \<Rightarrow> (if full then NatFullCone else NatRestrictedCone, None))))"

text \<open>\<open>Discover\<close>, with the address of the socket, which has been opened.\<close>

definition stun_discover :: "(string \<Rightarrow> byte list option) \<Rightarrow> byte list option \<Rightarrow> string \<Rightarrow> string \<Rightarrow> string list \<Rightarrow>
    stun_error + string \<times> 16 word \<times> nat_type" where
  "stun_discover answer reply local_ip local_addr servers =
     (case query_servers answer servers of
        None \<Rightarrow> Inl StunFailed
      | Some (ip, port) \<Rightarrow>
          if ip = [] then Inl StunFailed
          else Inr (ip, port, case detect_nat_type local_ip local_addr reply ip of
              (t, None) \<Rightarrow> t | (_, Some _) \<Rightarrow> NatUnknown))"

section \<open>The manager\<close>

datatype connection_type = ConnectionDirect | ConnectionHolePunch | ConnectionRelay

text \<open>Connections are numbered; \<open>nm_open\<close> holds those that have not been closed.\<close>

record nat_connection =
  co_peer :: string
  co_type :: connection_type
  co_handle :: nat

record nat_manager =
  nm_relay :: string
  nm_enabled :: bool
  nm_connections :: "string \<rightharpoonup> nat_connection"
  nm_open :: "nat set"
  nm_next :: nat

definition new_nat_manager :: "string \<Rightarrow> bool \<Rightarrow> nat_manager" where
  "new_nat_manager relay_addr enabled =
     \<lparr>nm_relay = relay_addr, nm_enabled = enabled, nm_connections = Map.empty, nm_open = {}, nm_next = 0\<rparr>"

definition store_connection :: "string \<Rightarrow> connection_type \<Rightarrow> nat_manager \<Rightarrow> nat_manager \<times> nat_connection" where
  "store_connection peer t nm =
     (let c = \<lparr>co_peer = peer, co_type = t, co_handle = nm_next nm\<rparr> in
      (nm\<lparr>nm_connections := (nm_connections nm)(peer \<mapsto> c), nm_open := insert (nm_next nm) (nm_open nm),
          nm_next := nm_next nm + 1\<rparr>, c))"

text \<open>\<open>dial\<close> is whether an address can be dialled, \<open>punches\<close> whether hole punching succeeds.\<close>

definition nat_connect :: "(string \<Rightarrow> bool) \<Rightarrow> bool \<Rightarrow> string \<Rightarrow> string \<Rightarrow> nat_manager \<Rightarrow> nat_manager \<times> nat_connection option" where
  "nat_connect dial punches peer addr nm =
     (let via = (if dial addr then Some ConnectionDirect
           else if punches then Some ConnectionHolePunch
           else if nm_relay nm \<noteq> [] \<and> dial (nm_relay nm) then Some ConnectionRelay else None)
      in case via of
        None \<Rightarrow> (nm, None)
      | Some t \<Rightarrow> (case store_connection peer t nm of (nm1, c) \<Rightarrow> (nm1, Some c)))"

text \<open>A connection that comes in is filed under its remote address.\<close>

definition nat_accept :: "string \<Rightarrow> nat_manager \<Rightarrow> nat_manager" where
  "nat_accept remote nm = fst (store_connection remote ConnectionDirect nm)"

definition get_connection :: "string \<Rightarrow> nat_manager \<Rightarrow> nat_connection option" where
  "get_connection peer nm = nm_connections nm peer"

definition remove_connection :: "string \<Rightarrow> nat_manager \<Rightarrow> nat_manager" where
  "remove_connection peer nm =
     (case nm_connections nm peer of
        None \<Rightarrow> nm
      | Some c \<Rightarrow> nm\<lparr>nm_connections := (nm_connections nm)(peer := None), nm_open := nm_open nm - {co_handle c}\<rparr>)"

definition close_manager :: "nat_manager \<Rightarrow> nat_manager" where
  "close_manager nm =
     nm\<lparr>nm_connections := Map.empty, nm_open := nm_open nm - co_handle ` ran (nm_connections nm)\<rparr>"

section \<open>Properties\<close>

text \<open>
  Of the six types of NAT, a discovery reports two: a router that the tests cannot tell apart is called port
  restricted, everything else unknown.
\<close>
theorem discovered_nat_type:
  assumes "stun_discover answer reply local_ip local_addr servers = Inr (ip, port, t)" "local_addr \<noteq> []"
  shows "t \<in> {NatUnknown, NatPortRestrictedCone}"
proof -
  have "changed_address bs i \<noteq> Inr []" for bs i
  proof (induction bs i rule: changed_address.induct)
    case (1 bs i)
    from 1 [OF _ refl refl refl] show ?case by (subst changed_address.simps) (auto simp: Let_def show_ip4_def)
  qed
  then have "fst (detect_nat_type local_ip local_addr reply ip) = NatPortRestrictedCone \<or>
      snd (detect_nat_type local_ip local_addr reply ip) \<noteq> None"
    using assms(2) by (auto simp: detect_nat_type_def test_port_restricted_def test_change_request_def parse_changed_address_def
        split: sum.splits option.splits)
  then show ?thesis using assms(1) by (auto simp: stun_discover_def split: option.splits if_splits prod.splits)
qed

text \<open>A relay sends data back to the client it came from; no other client ever gets it.\<close>

theorem relay_echoes:
  assumes "relay_send bytes c = Inr (server, d)" "length (rk_id c) < 65536" "length bytes < 65536" "bytes \<noteq> []" "\<not> rl_dead r"
    "rl_clients r (rk_id c) = Some home"
  shows "relay_receive (d @ stale) (length d) from r = (r, [(home, bytes)])"
proof -
  let ?m = "\<lparr>re_type = relay_data, re_client = rk_id c, re_length = of_nat (length bytes), re_data = bytes\<rparr>"
  have d: "d = encode_relay_message ?m" using assms(1) by (auto simp: relay_send_def split: if_splits)
  have "decode_relay_message (d @ stale) (length d) = Message ?m"
    unfolding d by (rule relay_message_roundtrip) (use assms in simp_all)
  then show ?thesis
    using assms(5,6)
    by (simp add: relay_receive_def relay_handle_message_def handle_relay_data_def relay_data_def relay_connect_def)
qed

text \<open>A second connection to a peer takes the place of the first, which stays open for ever.\<close>

definition handles_used :: "nat_manager \<Rightarrow> bool" where
  "handles_used nm \<longleftrightarrow> (\<forall>c \<in> ran (nm_connections nm). co_handle c < nm_next nm)"

lemma connected_manager:
  assumes "nat_connect dial punches peer addr nm = (nm', Some c)"
  shows "co_handle c = nm_next nm" "nm_next nm' = nm_next nm + 1" "nm_connections nm' = (nm_connections nm)(peer \<mapsto> c)"
    "nm_open nm' = insert (co_handle c) (nm_open nm)"
  using assms by (auto simp: nat_connect_def store_connection_def Let_def split: option.splits if_splits)

lemma replaced_connection_leaks:
  assumes "handles_used nm" "nat_connect dial punches peer addr nm = (nm1, Some c)"
    "nat_connect dial' punches' peer addr' nm1 = (nm2, Some c')"
  shows "co_handle c \<in> nm_open (close_manager nm2)"
proof -
  note n = connected_manager [OF assms(2)] connected_manager [OF assms(3)]
  have "nm_connections nm2 = (nm_connections nm)(peer \<mapsto> c')" using n by simp
  then have "ran (nm_connections nm2) \<subseteq> insert c' (ran (nm_connections nm))" by (auto simp: ran_def split: if_splits)
  then have "co_handle c \<notin> co_handle ` ran (nm_connections nm2)" using assms(1) n by (fastforce simp: handles_used_def)
  then show ?thesis using n by (simp add: close_manager_def)
qed

lemma handles_kept:
  "handles_used nm \<Longrightarrow> nat_connect dial punches peer addr nm = (nm', Some c) \<Longrightarrow> handles_used nm'"
  using connected_manager [of dial punches peer addr nm nm' c]
  by (fastforce simp: handles_used_def ran_def split: if_splits)

section \<open>Who is connected after a punch\<close>

text \<open>
  A punch that succeeds has sent at most ten requests and has received a response, an acknowledgement or a
  synchronisation from the address it is connected to.
\<close>

definition opens :: "byte list \<Rightarrow> bool" where
  "opens bs \<longleftrightarrow> (case decode_punch bs of
     Some m \<Rightarrow> pu_type m \<in> {hole_punch_response, hole_punch_ack, hole_punch_sync} | None \<Rightarrow> False)"

lemma receive_connects:
  assumes "hp_connected (fst hs) \<longrightarrow> P (hp_remote (fst hs))" "\<And>bs addr. (bs, addr) = d \<Longrightarrow> opens bs \<Longrightarrow> P addr"
  shows "hp_connected (fst (punch_receive parse_ip d hs)) \<longrightarrow> P (hp_remote (fst (punch_receive parse_ip d hs)))"
  using assms
  by (cases d) (auto simp: punch_receive_def punch_handle_def signal_peer_ready_def establish_def opens_def
      hole_punch_request_def hole_punch_response_def hole_punch_ack_def hole_punch_sync_def split: option.splits)

lemma receives_connect:
  assumes "hp_connected (fst hs) \<longrightarrow> P (hp_remote (fst hs))" "\<And>bs addr. (bs, addr) \<in> set ds \<Longrightarrow> opens bs \<Longrightarrow> P addr"
  shows "hp_connected (fst (fold (punch_receive parse_ip) ds hs)) \<longrightarrow> P (hp_remote (fst (fold (punch_receive parse_ip) ds hs)))"
  using assms
proof (induction ds arbitrary: hs)
  case (Cons d ds)
  have "hp_connected (fst (punch_receive parse_ip d hs)) \<longrightarrow> P (hp_remote (fst (punch_receive parse_ip d hs)))"
    using Cons.prems by (intro receive_connects) auto
  then have "hp_connected (fst (fold (punch_receive parse_ip) ds (punch_receive parse_ip d hs))) \<longrightarrow>
      P (hp_remote (fst (fold (punch_receive parse_ip) ds (punch_receive parse_ip d hs))))"
    by (rule Cons.IH) (use Cons.prems(2) in auto)
  then show ?case by simp
qed simp

lemma punch_loop_connects:
  assumes "punch_loop parse_ip req turns hs = (hs', True)" "\<not> hp_connected (fst hs)"
    "\<And>bs addr. (bs, addr) \<in> (\<Union>(ok, ds) \<in> set turns. set ds) \<Longrightarrow> opens bs \<Longrightarrow> P addr"
  shows "P (hp_remote (fst hs'))"
  using assms
proof (induction parse_ip req turns hs rule: punch_loop.induct)
  case (2 parse_ip req ok ds turns hs)
  show ?case
  proof (cases ok)
    case True
    let ?h = "fold (punch_receive parse_ip) ds (fst hs, snd hs @ [req])"
    have "hp_connected (fst ?h) \<longrightarrow> P (hp_remote (fst ?h))" using 2(4,5) by (intro receives_connect) auto
    then show ?thesis using 2(2) [OF _ refl] 2(3,5) True by (auto simp: Let_def split: if_splits)
  next
    case False
    show ?thesis by (rule 2(1)) (use False 2(3-5) in auto)
  qed
qed simp

theorem punch_needs_answer:
  assumes "punch parse_ip peer loc rem turns (new_puncher ip port) = ((h, sent), True)"
  shows "\<exists>bs ok ds. (ok, ds) \<in> set turns \<and> (bs, hp_remote h) \<in> set ds \<and> opens bs"
proof -
  have "(\<lambda>addr. \<exists>bs ok ds. (ok, ds) \<in> set turns \<and> (bs, addr) \<in> set ds \<and> opens bs) (hp_remote (fst (h, sent)))"
    using assms unfolding punch_def
    by (rule punch_loop_connects) (auto simp: new_puncher_def dest: in_set_takeD)
  then show ?thesis by simp
qed

text \<open>The peer that answers a request stays unconnected itself.\<close>

lemma punched_peer_unconnected:
  assumes "decode_punch bs = Some m" "pu_type m = hole_punch_request"
  shows "fst (punch_receive parse_ip (bs, addr) (h, sent)) = h \<and> length (snd (punch_receive parse_ip (bs, addr) (h, sent))) = length sent + 2"
  using assms by (simp add: punch_receive_def punch_handle_def send_punch_response_def)

text \<open>A response that comes late answers the next query.\<close>

lemma late_response_taken:
  assumes "sg_type m = ''response''" "sk_response c = None"
  shows "snd (query_take (signal_client_receive m (fst (query_send peer c)))) = Some m"
  using assms by (simp add: query_take_def signal_client_receive_def query_send_def)

section \<open>Instances\<close>

lemma pair_true: "snd r \<Longrightarrow> r = ((fst (fst r), snd (fst r)), True)"
  by (cases r) auto

theorem discovered_nat_type_witness:
  "stun_discover (\<lambda>_. Some ((put16 stun_binding_response @ replicate 18 0) @
     stun_attribute stun_mapped_address (stun_address stun_mapped_address [1, 2, 3, 4] 443))) None ''::'' ''[::]:9'' [''s''] =
     Inr (show_ip4 [1, 2, 3, 4], 443, NatUnknown) \<and> NatUnknown \<in> {NatUnknown, NatPortRestrictedCone}"
  (is "?run = ?res \<and> _")
proof -
  let ?h = "put16 stun_binding_response @ replicate 18 0 :: byte list"
  have "parse_binding_response (?h @ stun_attribute stun_mapped_address (stun_address stun_mapped_address [1, 2, 3, 4] 443)) =
      Inr (show_ip4 [1, 2, 3, 4], 443)"
    using stun_address_found_plain [of ?h "[1, 2, 3, 4]" 443] by simp
  then have "?run = ?res" by (simp add: stun_discover_def detect_nat_type_def test_change_request_def show_ip4_def)
  moreover from discovered_nat_type [OF this] have "NatUnknown \<in> {NatUnknown, NatPortRestrictedCone}" by simp
  ultimately show ?thesis by simp
qed

theorem relay_echoes_witness:
  "let c = \<lparr>rk_id = ''c'', rk_server = ''s'', rk_connected = True, rk_stopped = False\<rparr>; r = fst (relay_handle_connect ''c'' ''home'' new_relay_server) in
    case relay_send [1, 2] c of Inr (server, d) \<Rightarrow> snd (relay_receive (d @ [9]) (length d) ''x'' r) = [(''home'', [1, 2])] | Inl _ \<Rightarrow> False"
proof -
  let ?c = "\<lparr>rk_id = ''c'', rk_server = ''s'', rk_connected = True, rk_stopped = False\<rparr>"
  let ?r = "fst (relay_handle_connect ''c'' ''home'' new_relay_server)"
  obtain server d where d: "relay_send [1, 2] ?c = Inr (server, d)" by (simp add: relay_send_def)
  from relay_echoes [OF d, of ?r "''home''" "[9]" "''x''"]
  have "relay_receive (d @ [9]) (length d) ''x'' ?r = (?r, [(''home'', [1, 2])])"
    by (simp add: relay_handle_connect_def new_relay_server_def)
  with d show ?thesis by (simp add: Let_def)
qed

theorem punch_needs_answer_witness:
  "let bs = encode_punch (\<lambda>_. None) (punch_packet hole_punch_ack [] 0 [] 0);
       res = punch (\<lambda>_. None) ''p'' (''a'', 1) (''b'', 2) [(True, []), (True, [(bs, ''q'')])] (new_puncher ''::'' 1) in
    snd res \<and> hp_remote (fst (fst res)) = ''q'' \<and> length (snd (fst res)) = 2 \<and> opens bs"
proof -
  let ?bs = "encode_punch (\<lambda>_. None) (punch_packet hole_punch_ack [] 0 [] 0)"
  let ?res = "punch (\<lambda>_. None) ''p'' (''a'', 1) (''b'', 2) [(True, []), (True, [(?bs, ''q'')])] (new_puncher ''::'' 1)"
  have run: "snd ?res" "hp_remote (fst (fst ?res)) = ''q''" "length (snd (fst ?res)) = 2"
    by (simp_all add: punch_def punch_receive_def punch_roundtrip punch_packet_def punch_handle_def signal_peer_ready_def
        establish_def new_puncher_def hole_punch_request_def hole_punch_response_def hole_punch_ack_def Let_def)
  then have "?res = ((fst (fst ?res), snd (fst ?res)), True)" by (rule_tac pair_true)
  from punch_needs_answer [OF this] obtain b ok ds where
    "(ok, ds) \<in> {(True, []), (True, [(?bs, ''q'')])}" "(b, hp_remote (fst (fst ?res))) \<in> set ds" "opens b"
    unfolding list.set by blast
  then have "opens ?bs" by (elim insertE) (simp_all only: prod.inject list.set empty_iff insert_iff, simp_all)
  with run show ?thesis by (simp only: Let_def)
qed

section \<open>The relay loop\<close>

text \<open>A turn of the loop reads a datagram, or nothing in time.\<close>

definition relay_loop :: "byte list option list \<Rightarrow> relay \<Rightarrow> packet list" where
  "relay_loop turns r = concat (map (\<lambda>t. case t of None \<Rightarrow> [] | Some bs \<Rightarrow> relay_forward bs r) turns)"

text \<open>Everything goes to the one remote address, in order; nothing ever comes back.\<close>

lemma relay_loop_forwards:
  "ry_active r \<Longrightarrow> relay_loop turns r = map (Pair (ry_remote r)) (filter (\<lambda>bs. bs \<noteq> []) (List.map_filter (\<lambda>t. t) turns))"
  by (induction turns) (auto simp: relay_loop_def relay_forward_def List.map_filter_simps split: option.split)

section \<open>Attempts to reach a peer\<close>

text \<open>\<open>strconv.ParseUint\<close> with 16 bits.\<close>

definition parse_port :: "string \<Rightarrow> nat option" where
  "parse_port s =
     (if s = [] \<or> \<not> list_all is_digit s then None
      else let n = foldl (\<lambda>n c. 10 * n + digit_value c) 0 s in if n < 65536 then Some n else None)"

datatype nat_error = DialFailed | NoRelay | PunchStart | BadAddress | BadPort | PunchFailed

definition try_direct_connect :: "(string \<Rightarrow> bool) \<Rightarrow> string \<Rightarrow> nat_error + connection_type" where
  "try_direct_connect dial addr = (if dial addr then Inr ConnectionDirect else Inl DialFailed)"

text \<open>
  A hole puncher is started for each attempt: \<open>start\<close> is the address of its socket, unless there is none. The
  second component is the address found.
\<close>

definition try_hole_punch :: "(string \<Rightarrow> ip option) \<Rightarrow> (string \<times> 16 word) option \<Rightarrow> (bool \<times> (byte list \<times> string) list) list \<Rightarrow>
    string \<Rightarrow> nat_error + string" where
  "try_hole_punch parse_ip start turns addr =
     (case start of
        None \<Rightarrow> Inl PunchStart
      | Some (ip, port) \<Rightarrow> (case split_host_port addr of
          None \<Rightarrow> Inl BadAddress
        | Some (host, p) \<Rightarrow> (case parse_port p of
            None \<Rightarrow> Inl BadPort
          | Some n \<Rightarrow>
              (case punch parse_ip addr (ip, port) (host, of_nat n) turns (new_puncher ip port) of
                 ((hp, _), True) \<Rightarrow> Inr (hp_remote hp)
               | (_, False) \<Rightarrow> Inl PunchFailed))))"

text \<open>The peer is not told to the relay.\<close>

definition use_relay :: "(string \<Rightarrow> bool) \<Rightarrow> nat_manager \<Rightarrow> nat_error + connection_type" where
  "use_relay dial nm =
     (if nm_relay nm = [] then Inl NoRelay
      else if dial (nm_relay nm) then Inr ConnectionRelay else Inl DialFailed)"

definition connect_peer :: "(string \<Rightarrow> ip option) \<Rightarrow> (string \<Rightarrow> bool) \<Rightarrow> (string \<times> 16 word) option \<Rightarrow>
    (bool \<times> (byte list \<times> string) list) list \<Rightarrow> string \<Rightarrow> string \<Rightarrow> nat_manager \<Rightarrow> nat_manager \<times> (nat_error + nat_connection)" where
  "connect_peer parse_ip dial start turns peer addr nm =
     (let file = (\<lambda>t. case store_connection peer t nm of (nm1, c) \<Rightarrow> (nm1, Inr c)) in
      case try_direct_connect dial addr of
        Inr t \<Rightarrow> file t
      | Inl _ \<Rightarrow> (case try_hole_punch parse_ip start turns addr of
          Inr _ \<Rightarrow> file ConnectionHolePunch
        | Inl _ \<Rightarrow> (case use_relay dial nm of
            Inr t \<Rightarrow> file t
          | Inl e \<Rightarrow> (nm, Inl e))))"

text \<open>\<open>Listen\<close> and the two questions to the STUN servers.\<close>

definition nat_listen :: "bool \<Rightarrow> nat_manager \<Rightarrow> bool" where
  "nat_listen socket nm = (nm_enabled nm \<and> socket)"

definition public_servers :: "string list \<Rightarrow> string list" where
  "public_servers servers = new_stun_client (if servers = [] then default_stun_servers else servers)"

definition get_public_addr :: "(string \<Rightarrow> byte list option) \<Rightarrow> byte list option \<Rightarrow> string \<Rightarrow> string \<Rightarrow> string list \<Rightarrow>
    stun_error + string \<times> 16 word" where
  "get_public_addr answer rep ip addr servers =
     (case stun_discover answer rep ip addr (public_servers servers) of
        Inl e \<Rightarrow> Inl e
      | Inr (pub, port, _) \<Rightarrow> Inr (pub, port))"

definition detect_type :: "(string \<Rightarrow> byte list option) \<Rightarrow> byte list option \<Rightarrow> string \<Rightarrow> string \<Rightarrow> string list \<Rightarrow>
    nat_type \<times> (stun_error + string \<times> 16 word)" where
  "detect_type answer rep ip addr servers =
     (case stun_discover answer rep ip addr (public_servers servers) of
        Inl e \<Rightarrow> (NatUnknown, Inl e)
      | Inr (pub, port, t) \<Rightarrow> (t, Inr (pub, port)))"

text \<open>
  Connecting in detail is connecting by the outcome of the punch: the simple model of the manager is an abstraction of
  the attempts.
\<close>
theorem connect_refines:
  "case connect_peer parse_ip dial start turns peer addr nm of
     (nm1, r) \<Rightarrow> nat_connect dial (\<exists>remote. try_hole_punch parse_ip start turns addr = Inr remote) peer addr nm =
       (nm1, case r of Inl _ \<Rightarrow> None | Inr c \<Rightarrow> Some c)"
  by (auto simp: connect_peer_def nat_connect_def try_direct_connect_def use_relay_def Let_def split: sum.splits prod.splits)

text \<open>A punch needs a datagram from outside in one of its turns.\<close>

lemma silent_punch_fails:
  assumes "\<And>t. t \<in> set turns \<Longrightarrow> snd t = []"
  shows "\<exists>e. try_hole_punch parse_ip start turns addr = Inl e"
proof -
  have "\<not> snd (punch_loop parse_ip req ts (h, ps))" if "\<not> hp_connected h" "\<And>t. t \<in> set ts \<Longrightarrow> snd t = []" for req ts h ps
    using that
  proof (induction ts arbitrary: ps)
    case (Cons t ts)
    obtain ok ds where t: "t = (ok, ds)" by fastforce
    have "ds = []" using Cons.prems(2) [of t] t by simp
    then show ?case using Cons.IH [of _] Cons.prems t by (simp add: Let_def)
  qed simp
  moreover have "\<not> hp_connected (new_puncher ip port)" for ip port by (simp add: new_puncher_def)
  moreover have "\<And>t. t \<in> set (take 10 turns) \<Longrightarrow> snd t = []" using assms by (meson in_set_takeD)
  ultimately have "\<not> snd (punch parse_ip addr loc rem turns (new_puncher ip port))" for loc rem ip port
    unfolding punch_def by blast
  then show ?thesis
    by (auto simp: try_hole_punch_def split: option.split prod.split bool.split) (metis snd_conv)+
qed

text \<open>The relay is asked in the same way for every peer: it never learns who is wanted.\<close>

lemma relay_for_anyone:
  "nm_relay nm = r \<Longrightarrow> use_relay dial nm = use_relay dial (fst (store_connection peer t nm))"
  by (simp add: use_relay_def store_connection_def Let_def)

text \<open>A manager that is switched off still connects; only listening is refused.\<close>

lemma disabled_still_connects:
  "\<not> nat_listen True (new_nat_manager [] False) \<and>
   snd (nat_connect (\<lambda>_. True) False ''p'' ''h:1'' (new_nat_manager [] False)) \<noteq> None"
  by (simp add: nat_listen_def new_nat_manager_def nat_connect_def store_connection_def Let_def)

end
