(* ===== verification/Gossip.thy ===== *)
theory Gossip
  imports ClusterNode GoBytes
begin

text \<open>
  Discovery by gossip, \<open>internal/cluster/discovery.go\<close>: a node tells a few of its peers whom it knows, and learns from
  what it is told. The codec of the messages and the resolution of addresses are arguments; an address
  is its text. The random order of the peers is an argument too.
\<close>

section \<open>Messages and state\<close>

definition default_gossip_port :: int where "default_gossip_port = 9998"
definition failure_timeout :: duration where "failure_timeout = 8 * 1000000000"
definition max_gossip_packet :: nat where "max_gossip_packet = 8192"
definition gossip_fanout :: nat where "gossip_fanout = 3"

datatype gossip_type = MsgHeartbeat | MsgMembershipList | MsgJoin | MsgLeave | MsgOther

record gossip_message =
  gm_type :: gossip_type
  gm_sender :: node
  gm_members :: "node list"
  gm_time :: instant

record discovery_config =
  gc_addr :: string
  gc_seeds :: "string list"
  gc_port :: int

text \<open>A peer is known by a text; it has no address until that is resolved. Handlers are opaque names.\<close>

record ('h, 'c) discovery =
  gd_config :: discovery_config
  gd_local :: local_node
  gd_members :: "'h membership"
  gd_peers :: "string \<rightharpoonup> string option"
  gd_open :: bool
  gd_running :: bool
  gd_stopped :: bool
  gd_on_join :: "'c list"
  gd_on_leave :: "'c list"
  gd_on_update :: "'c list"
  gd_calls :: "('c \<times> node) list"

type_synonym gossip_out = "(string \<times> gossip_message) list"

definition new_discovery :: "discovery_config \<Rightarrow> local_node \<Rightarrow> 'h membership \<Rightarrow> ('h, 'c) discovery" where
  "new_discovery cfg lnode m =
     \<lparr>gd_config = (if gc_port cfg = 0 then cfg\<lparr>gc_port := default_gossip_port\<rparr> else cfg), gd_local = lnode, gd_members = m,
      gd_peers = fold (\<lambda>s p. p(s \<mapsto> None)) (gc_seeds cfg) Map.empty, gd_open = False, gd_running = False, gd_stopped = False,
      gd_on_join = [], gd_on_leave = [], gd_on_update = [], gd_calls = []\<rparr>"

definition start_discovery :: "(string \<Rightarrow> string option) \<Rightarrow> bool \<Rightarrow> ('h, 'c) discovery \<Rightarrow> ('h, 'c) discovery \<times> bool" where
  "start_discovery resolve bound d =
     (if \<not> bound then (d, False)
      else (d\<lparr>gd_open := True, gd_running := True,
        gd_peers := fold (\<lambda>s p. case resolve s of None \<Rightarrow> p | Some a \<Rightarrow> p(s \<mapsto> Some a)) (gc_seeds (gd_config d)) (gd_peers d)\<rparr>, True))"

section \<open>Sending\<close>

text \<open>\<open>order\<close> is the shuffled list of the peers that have an address; each is resolved again.\<close>

definition shuffled_peers :: "string list \<Rightarrow> ('h, 'c) discovery \<Rightarrow> bool" where
  "shuffled_peers order d \<longleftrightarrow> distinct order \<and> set order = {k. \<exists>a. gd_peers d k = Some (Some a)}"

definition broadcast :: "(string \<Rightarrow> string option) \<Rightarrow> string list \<Rightarrow> gossip_message \<Rightarrow> ('h, 'c) discovery \<Rightarrow> gossip_out" where
  "broadcast resolve order msg d =
     (if \<not> gd_open d \<or> order = [] then []
      else map (\<lambda>a. (a, msg)) (List.map_filter resolve (take gossip_fanout order)))"

definition local_message :: "gossip_type \<Rightarrow> node list \<Rightarrow> instant \<Rightarrow> ('h, 'c) discovery \<Rightarrow> gossip_message" where
  "local_message kind ns now d = \<lparr>gm_type = kind, gm_sender = fst (local_node_info (gd_local d)), gm_members = ns, gm_time = now\<rparr>"

definition heartbeat :: "string list \<Rightarrow> instant \<Rightarrow> ('h, 'c) discovery \<Rightarrow> gossip_message" where
  "heartbeat ks now d = local_message MsgHeartbeat (members ks (gd_members d)) now d"

definition send_heartbeat :: "(string \<Rightarrow> string option) \<Rightarrow> string list \<Rightarrow> string list \<Rightarrow> instant \<Rightarrow> ('h, 'c) discovery \<Rightarrow> gossip_out" where
  "send_heartbeat resolve order ks now d = broadcast resolve order (heartbeat ks now d) d"

definition leave_cluster :: "(string \<Rightarrow> string option) \<Rightarrow> string list \<Rightarrow> instant \<Rightarrow> ('h, 'c) discovery \<Rightarrow> gossip_out" where
  "leave_cluster resolve order now d = broadcast resolve order (local_message MsgLeave [] now d) d"

fun join_seeds :: "(string \<Rightarrow> string option) \<Rightarrow> string list \<Rightarrow> instant \<Rightarrow> ('h, 'c) discovery \<Rightarrow> ('h, 'c) discovery \<times> gossip_out" where
  "join_seeds resolve [] now d = (d, [])"
| "join_seeds resolve (s # ss) now d =
     (case resolve s of
        None \<Rightarrow> join_seeds resolve ss now d
      | Some a \<Rightarrow>
          (case join_seeds resolve ss now (d\<lparr>gd_peers := (gd_peers d)(s \<mapsto> Some a)\<rparr>) of
             (d1, out) \<Rightarrow> (d1, (a, local_message MsgJoin [] now d) # out)))"

section \<open>Receiving\<close>

definition trigger :: "'c list \<Rightarrow> node \<Rightarrow> ('h, 'c) discovery \<Rightarrow> ('h, 'c) discovery" where
  "trigger hs n d = d\<lparr>gd_calls := gd_calls d @ map (\<lambda>h. (h, n)) hs\<rparr>"

definition on_members :: "('h membership \<Rightarrow> 'h membership) \<Rightarrow> ('h, 'c) discovery \<Rightarrow> ('h, 'c) discovery" where
  "on_members f d = d\<lparr>gd_members := f (gd_members d)\<rparr>"

text \<open>\<open>ks\<close> is the order of the members in the answer to a join.\<close>

definition handle_gossip :: "string list \<Rightarrow> instant \<Rightarrow> gossip_message \<Rightarrow> string \<Rightarrow> ('h, 'c) discovery \<Rightarrow> ('h, 'c) discovery \<times> gossip_out" where
  "handle_gossip ks now msg addr d =
     (let s = gm_sender msg in
      if n_id s = n_id (ln_node (gd_local d)) then (d, [])
      else
        let d1 = d\<lparr>gd_peers := (gd_peers d)(addr \<mapsto> Some addr)\<rparr> in
        case gm_type msg of
          MsgHeartbeat \<Rightarrow>
            let d2 = on_members (merge_members (gm_members msg) now) (on_members (add_member s now) d1)
            in (trigger (gd_on_update d2) s d2, [])
        | MsgMembershipList \<Rightarrow> (on_members (merge_members (gm_members msg) now) (on_members (add_member s now) d1), [])
        | MsgJoin \<Rightarrow>
            let d2 = on_members (add_member s now) d1; d3 = trigger (gd_on_join d2) s d2
            in (d3, [(addr, local_message MsgMembershipList (members ks (gd_members d3)) now d3)])
        | MsgLeave \<Rightarrow> (let d2 = on_members (remove_member (n_id s) now) d1 in (trigger (gd_on_leave d2) s d2, []))
        | MsgOther \<Rightarrow> (d1, []))"

text \<open>One turn of the loop that listens: a datagram is cut to the size of the buffer before it is decoded.\<close>

definition listen_turn :: "(byte list \<Rightarrow> gossip_message option) \<Rightarrow> string list \<Rightarrow> instant \<Rightarrow> byte list \<Rightarrow> string \<Rightarrow>
    ('h, 'c) discovery \<Rightarrow> ('h, 'c) discovery \<times> gossip_out" where
  "listen_turn dec ks now datagram addr d =
     (case dec (take max_gossip_packet datagram) of None \<Rightarrow> (d, []) | Some msg \<Rightarrow> handle_gossip ks now msg addr d)"

definition cleanup_failed :: "string list \<Rightarrow> instant \<Rightarrow> ('h, 'c) discovery \<Rightarrow> ('h, 'c) discovery" where
  "cleanup_failed ks now d = on_members (\<lambda>m. fst (check_timeouts ks failure_timeout now m)) d"

definition on_join :: "'c \<Rightarrow> ('h, 'c) discovery \<Rightarrow> ('h, 'c) discovery" where
  "on_join h d = d\<lparr>gd_on_join := gd_on_join d @ [h]\<rparr>"

definition on_leave :: "'c \<Rightarrow> ('h, 'c) discovery \<Rightarrow> ('h, 'c) discovery" where
  "on_leave h d = d\<lparr>gd_on_leave := gd_on_leave d @ [h]\<rparr>"

definition on_update :: "'c \<Rightarrow> ('h, 'c) discovery \<Rightarrow> ('h, 'c) discovery" where
  "on_update h d = d\<lparr>gd_on_update := gd_on_update d @ [h]\<rparr>"

text \<open>The socket is closed after the loops have ended, but the field that holds it stays set.\<close>

definition shutdown_discovery :: "(string \<Rightarrow> string option) \<Rightarrow> string list \<Rightarrow> instant \<Rightarrow> ('h, 'c) discovery \<Rightarrow> ('h, 'c) discovery \<times> gossip_out" where
  "shutdown_discovery resolve order now d =
     (if gd_stopped d then (d, [])
      else (d\<lparr>gd_stopped := True, gd_running := False\<rparr>, leave_cluster resolve order now d))"

section \<open>Runs\<close>

datatype gossip_op =
    Receive "string list" instant gossip_message string
  | Cleanup "string list" instant
  | Deliver
  | JoinSeeds "string list" instant

fun gossip_exec :: "(string \<Rightarrow> string option) \<Rightarrow> ('h, 'c) discovery \<Rightarrow> gossip_op \<Rightarrow> ('h, 'c) discovery" where
  "gossip_exec resolve d (Receive ks now msg addr) = fst (handle_gossip ks now msg addr d)"
| "gossip_exec resolve d (Cleanup ks now) = cleanup_failed ks now d"
| "gossip_exec resolve d Deliver = on_members event_step d"
| "gossip_exec resolve d (JoinSeeds seeds now) = fst (join_seeds resolve seeds now d)"

definition gossip_sound :: "('h, 'c) discovery \<Rightarrow> bool" where
  "gossip_sound d \<longleftrightarrow> members_ok (gd_members d) \<and> ms_local (gd_members d) = n_id (ln_node (gd_local d)) \<and>
     ms_members (gd_members d) (n_id (ln_node (gd_local d))) = None"

section \<open>What stays true\<close>

lemma add_member_local [simp]: "ms_local (add_member n t m) = ms_local m"
  by (simp add: add_member_def Let_def split: option.split)

lemma merge_members_local [simp]: "ms_local (merge_members ns t m) = ms_local m"
  by (induction ns t m rule: merge_members.induct) simp_all

lemma add_member_other: "n_id n \<noteq> k \<Longrightarrow> ms_members (add_member n t m) k = ms_members m k"
  by (simp add: add_member_def Let_def split: option.split)

lemma merge_members_self: "ms_members (merge_members ns t m) (ms_local m) = ms_members m (ms_local m)"
  by (induction ns t m rule: merge_members.induct) (auto simp: add_member_other)

lemma join_seeds_frame:
  "gd_members (fst (join_seeds resolve ss now d)) = gd_members d \<and> gd_local (fst (join_seeds resolve ss now d)) = gd_local d"
  by (induction resolve ss now d rule: join_seeds.induct) (auto split: option.split prod.splits)

lemma member_op_sound:
  assumes "gossip_sound d" "gd_members d' = member_exec (gd_members d) x" "gd_local d' = gd_local d"
    "ms_local (member_exec (gd_members d) x) = ms_local (gd_members d)"
    "ms_members (member_exec (gd_members d) x) (ms_local (gd_members d)) = None"
  shows "gossip_sound d'"
  using assms members_ok_exec [of "gd_members d" x] by (simp add: gossip_sound_def)

lemma new_discovery_local [simp]: "gd_local (new_discovery cfg lnode m) = lnode"
  by (simp add: new_discovery_def)

lemma on_members_simps [simp]: "gd_members (on_members f d) = f (gd_members d)" "gd_local (on_members f d) = gd_local d"
  by (simp_all add: on_members_def)

lemma trigger_simps [simp]: "gd_members (trigger hs n d) = gd_members d" "gd_local (trigger hs n d) = gd_local d"
  by (simp_all add: trigger_def)

lemma sound_add: "gossip_sound d \<Longrightarrow> n_id n \<noteq> n_id (ln_node (gd_local d)) \<Longrightarrow> gossip_sound (on_members (add_member n t) d)"
  by (rule member_op_sound [where x = "AddMember n t"]) (auto simp: add_member_other gossip_sound_def)

lemma sound_merge: "gossip_sound d \<Longrightarrow> gossip_sound (on_members (merge_members ns t) d)"
  by (rule member_op_sound [where x = "MergeMembers ns t"]) (auto simp: merge_members_self gossip_sound_def)

lemma sound_remove: "gossip_sound d \<Longrightarrow> gossip_sound (on_members (remove_member k t) d)"
  by (rule member_op_sound [where x = "RemoveMember k t"]) (auto simp: remove_member_def gossip_sound_def split: option.split)

lemma fold_emit_local [simp]: "ms_local (fold emit_event es m) = ms_local m"
  by (induction es arbitrary: m) simp_all

lemma sound_cleanup: "gossip_sound d \<Longrightarrow> gossip_sound (cleanup_failed ks t d)"
  by (rule member_op_sound [where x = "CheckTimeouts ks failure_timeout t"])
    (auto simp: cleanup_failed_def check_timeouts_def Let_def gossip_sound_def)

lemma sound_event: "gossip_sound d \<Longrightarrow> gossip_sound (on_members event_step d)"
  by (rule member_op_sound [where x = EventTurn])
    (auto simp: event_step_def dispatch_event_def gossip_sound_def split: list.split)

lemma sound_peers [simp]: "gossip_sound (d\<lparr>gd_peers := p\<rparr>) = gossip_sound d"
  by (simp add: gossip_sound_def)

lemma sound_trigger [simp]: "gossip_sound (trigger hs n d) = gossip_sound d"
  by (simp add: gossip_sound_def)

lemma handle_gossip_sound: "gossip_sound d \<Longrightarrow> gossip_sound (fst (handle_gossip ks now msg addr d))"
  by (auto simp: handle_gossip_def Let_def sound_merge sound_add sound_remove split: gossip_type.split)

lemma gossip_exec_sound: "gossip_sound d \<Longrightarrow> gossip_sound (gossip_exec resolve d x)"
proof (cases x)
  case (JoinSeeds seeds now)
  assume "gossip_sound d"
  with JoinSeeds join_seeds_frame [of resolve seeds now d] show ?thesis by (simp add: gossip_sound_def)
qed (simp_all add: handle_gossip_sound sound_cleanup sound_event)

lemma gossip_run_sound: "gossip_sound d \<Longrightarrow> gossip_sound (foldl (gossip_exec resolve) d ops)"
  by (induction ops arbitrary: d) (simp_all add: gossip_exec_sound)

lemma gossip_exec_local [simp]: "gd_local (gossip_exec resolve d x) = gd_local d"
  using join_seeds_frame [of resolve _ _ d]
  by (cases x) (auto simp: handle_gossip_def Let_def cleanup_failed_def split: gossip_type.split)

lemma gossip_run_local [simp]: "gd_local (foldl (gossip_exec resolve) d ops) = gd_local d"
  by (induction ops arbitrary: d) simp_all

text \<open>
  C15: Whatever datagrams arrive, a node never lists itself as a member, and every member is online and filed under its
  own name.
\<close>
theorem gossip_never_lists_itself:
  assumes "n_id (ln_node lnode) = me"
  shows "let d = foldl (gossip_exec resolve) (new_discovery cfg lnode (new_membership me) :: ('h, 'c) discovery) ops in
    ms_members (gd_members d) me = None \<and> members_ok (gd_members d)"
proof -
  let ?d = "new_discovery cfg lnode (new_membership me) :: ('h, 'c) discovery"
  have init: "gossip_sound ?d"
    using assms by (simp add: gossip_sound_def new_discovery_def new_membership_def members_ok_def)
  with gossip_run_sound [OF init, of resolve ops] show ?thesis
    using gossip_run_local [of resolve ?d ops] assms by (simp add: gossip_sound_def Let_def)
qed

section \<open>What is learnt\<close>

lemma add_member_dom: "dom (ms_members (add_member n t m)) = insert (n_id n) (dom (ms_members m))"
  by (auto simp: add_member_def Let_def split: option.split)

lemma merge_members_dom: "dom (ms_members (merge_members ns t m)) = dom (ms_members m) \<union> (n_id ` set ns - {ms_local m})"
  by (induction ns t m rule: merge_members.induct) (auto simp: add_member_dom)

lemma member_names:
  assumes "iter_order ks (ms_members m)" "members_ok m"
  shows "n_id ` set (members ks m) = dom (ms_members m)"
  using assms set_map_values [OF assms(1)] by (force simp: members_def members_ok_def ran_def)

text \<open>
  A join: the seed learns of the node, and by the answer the node learns of the seed and of all members the seed
  had, itself aside.
\<close>
theorem join_teaches_members:
  assumes "gossip_sound a" "gossip_sound b" "n_id (ln_node (gd_local a)) \<noteq> n_id (ln_node (gd_local b))"
    "handle_gossip ks t (local_message MsgJoin [] t0 a) addr_a b = (b', [(addr_a, answer)])"
    "iter_order ks (ms_members (gd_members b'))"
    "handle_gossip ks' t' answer addr_b a = (a', out)"
  shows "dom (ms_members (gd_members b')) = insert (n_id (ln_node (gd_local a))) (dom (ms_members (gd_members b))) \<and>
    dom (ms_members (gd_members a')) = dom (ms_members (gd_members a)) \<union> insert (n_id (ln_node (gd_local b)))
      (dom (ms_members (gd_members b)) - {n_id (ln_node (gd_local a))})"
proof -
  have b': "gd_members b' = add_member (ln_node (gd_local a)) t (gd_members b)"
    and answer: "answer = local_message MsgMembershipList (members ks (gd_members b')) t b'" and l: "gd_local b' = gd_local b"
    using assms(3,4) by (auto simp: handle_gossip_def local_message_def local_node_info_def Let_def)
  have b: "dom (ms_members (gd_members b')) = insert (n_id (ln_node (gd_local a))) (dom (ms_members (gd_members b)))"
    by (simp add: b' add_member_dom)
  have "members_ok (gd_members b')" using assms(2) by (simp add: b' members_ok_add gossip_sound_def)
  from member_names [OF assms(5) this] have names: "n_id ` set (members ks (gd_members b')) = dom (ms_members (gd_members b'))" .
  have "gd_members a' = merge_members (members ks (gd_members b')) t' (add_member (ln_node (gd_local b)) t' (gd_members a))"
    using assms(3,6) by (auto simp: answer handle_gossip_def local_message_def local_node_info_def Let_def l)
  then have "dom (ms_members (gd_members a')) = dom (ms_members (gd_members a)) \<union> insert (n_id (ln_node (gd_local b)))
      (dom (ms_members (gd_members b)) - {n_id (ln_node (gd_local a))})"
    using assms(1,3) by (auto simp: merge_members_dom add_member_dom names b gossip_sound_def)
  with b show ?thesis ..
qed

section \<open>Nodes that have died\<close>

lemma add_member_seen: "\<exists>n'. ms_members (add_member n t m) (n_id n) = Some n' \<and> n_last_seen n' = t"
  by (auto simp: add_member_def Let_def refresh_member_def update_seen_def split: option.split)

lemma add_member_seen_at: "n_id n = k \<Longrightarrow> \<exists>n'. ms_members (add_member n t m) k = Some n' \<and> n_last_seen n' = t"
  using add_member_seen by blast

lemma merge_members_seen:
  assumes "k \<in> n_id ` set ns \<or> (\<exists>n. ms_members m k = Some n \<and> n_last_seen n = t)" "k \<noteq> ms_local m"
  shows "\<exists>n. ms_members (merge_members ns t m) k = Some n \<and> n_last_seen n = t"
  using assms
proof (induction ns t m rule: merge_members.induct)
  case (2 n ns t m)
  let ?m = "if n_id n = ms_local m then m else add_member n t m"
  have "k \<in> n_id ` set ns \<or> (\<exists>n. ms_members ?m k = Some n \<and> n_last_seen n = t)"
  proof (cases "n_id n = k")
    case True
    then show ?thesis using add_member_seen_at [OF True, of t m] 2(3) by auto
  next
    case False
    then show ?thesis using 2(2) add_member_other [OF False, of t m] by auto
  qed
  moreover have "k \<noteq> ms_local ?m" using 2(3) by simp
  ultimately show ?case using 2(1) by simp
qed auto

text \<open>A round of two nodes: \<open>a\<close> sends its heartbeat to \<open>b\<close>, \<open>b\<close> to \<open>a\<close>, and both clean up.\<close>

record gossip_round =
  ro_order_a :: "string list"
  ro_order_b :: "string list"
  ro_sent :: instant
  ro_cleaned :: instant

definition heartbeat_round :: "string \<Rightarrow> string \<Rightarrow> gossip_round \<Rightarrow> ('h, 'c) discovery \<times> ('h, 'c) discovery \<Rightarrow>
    ('h, 'c) discovery \<times> ('h, 'c) discovery" where
  "heartbeat_round addr_a addr_b r ab =
     (let t = ro_sent r;
          b1 = fst (handle_gossip [] t (heartbeat (ro_order_a r) t (fst ab)) addr_a (snd ab));
          a1 = fst (handle_gossip [] t (heartbeat (ro_order_b r) t b1) addr_b (fst ab))
      in (cleanup_failed (ro_order_a r) (ro_cleaned r) a1, cleanup_failed (ro_order_b r) (ro_cleaned r) b1))"

lemma heartbeat_seen:
  assumes "gossip_sound to" "n_id (ln_node (gd_local from)) \<noteq> n_id (ln_node (gd_local to))"
    "k \<noteq> n_id (ln_node (gd_local to))" "k \<in> n_id ` set (members ks (gd_members from))"
  shows "\<exists>n. ms_members (gd_members (fst (handle_gossip os t (heartbeat ks t from) addr to))) k = Some n \<and> n_last_seen n = t"
  using assms
  by (auto simp: handle_gossip_def heartbeat_def local_message_def local_node_info_def Let_def gossip_sound_def
      intro!: merge_members_seen)

lemma cleanup_keeps:
  assumes "ms_members (gd_members d) k = Some n" "now - n_last_seen n \<le> failure_timeout"
  shows "ms_members (gd_members (cleanup_failed ks now d)) k = Some n"
  using assms by (auto simp: cleanup_failed_def check_timeouts_def expired_ids_def Let_def)

definition talking :: "string \<Rightarrow> ('h, 'c) discovery \<times> ('h, 'c) discovery \<Rightarrow> bool" where
  "talking k ab \<longleftrightarrow> gossip_sound (fst ab) \<and> gossip_sound (snd ab) \<and>
     n_id (ln_node (gd_local (fst ab))) \<noteq> n_id (ln_node (gd_local (snd ab))) \<and>
     k \<noteq> n_id (ln_node (gd_local (fst ab))) \<and> k \<noteq> n_id (ln_node (gd_local (snd ab))) \<and>
     ms_members (gd_members (fst ab)) k \<noteq> None \<and> ms_members (gd_members (snd ab)) k \<noteq> None"

lemma handle_gossip_local [simp]: "gd_local (fst (handle_gossip ks now msg addr d)) = gd_local d"
  by (simp add: handle_gossip_def Let_def split: gossip_type.split)

lemma cleanup_local [simp]: "gd_local (cleanup_failed ks now d) = gd_local d"
  by (simp add: cleanup_failed_def)

lemma listed_member:
  assumes "k \<in> set ks" "ms_members (gd_members d) k \<noteq> None" "gossip_sound d"
  shows "k \<in> n_id ` set (members ks (gd_members d))"
proof -
  obtain n where n: "ms_members (gd_members d) k = Some n" using assms(2) by auto
  then have "n_id n = k" using assms(3) by (simp add: gossip_sound_def members_ok_def)
  then show ?thesis using n assms(1) by (force simp: members_def map_values_def)
qed

lemma round_keeps:
  assumes "talking k ab" "k \<in> set (ro_order_a r)" "k \<in> set (ro_order_b r)" "ro_cleaned r \<le> ro_sent r + failure_timeout"
  shows "talking k (heartbeat_round addr_a addr_b r ab)"
proof -
  let ?t = "ro_sent r"
  let ?b = "fst (handle_gossip [] ?t (heartbeat (ro_order_a r) ?t (fst ab)) addr_a (snd ab))"
  let ?a = "fst (handle_gossip [] ?t (heartbeat (ro_order_b r) ?t ?b) addr_b (fst ab))"
  note t = assms(1) [unfolded talking_def]
  obtain nb where nb: "ms_members (gd_members ?b) k = Some nb" "n_last_seen nb = ?t"
    using heartbeat_seen [of "snd ab" "fst ab" k] listed_member [OF assms(2)] t by blast
  have b: "gossip_sound ?b" using t by (simp add: handle_gossip_sound)
  obtain na where na: "ms_members (gd_members ?a) k = Some na" "n_last_seen na = ?t"
    using heartbeat_seen [of "fst ab" ?b k] listed_member [OF assms(3) _ b] nb t by fastforce
  have "gossip_sound ?a" using t by (simp add: handle_gossip_sound)
  moreover have "ms_members (gd_members (cleanup_failed (ro_order_a r) (ro_cleaned r) ?a)) k = Some na"
    using cleanup_keeps [of ?a, OF na(1)] na(2) assms(4) by simp
  moreover have "ms_members (gd_members (cleanup_failed (ro_order_b r) (ro_cleaned r) ?b)) k = Some nb"
    using cleanup_keeps [of ?b, OF nb(1)] nb(2) assms(4) by simp
  ultimately show ?thesis
    using t b unfolding heartbeat_round_def Let_def talking_def fst_conv snd_conv by (simp add: sound_cleanup)
qed

text \<open>
  C16: Two nodes that go on exchanging heartbeats keep a third member for ever, however long that node has been dead:
  each takes the other's list for a sign of life. Nobody times out in a cluster of three or more nodes.
\<close>
theorem dead_member_kept:
  assumes "gossip_sound a" "gossip_sound b" "n_id (ln_node (gd_local a)) \<noteq> n_id (ln_node (gd_local b))"
    "k \<noteq> n_id (ln_node (gd_local a))" "k \<noteq> n_id (ln_node (gd_local b))"
    "k \<in> dom (ms_members (gd_members a))" "k \<in> dom (ms_members (gd_members b))"
    "\<And>r. r \<in> set rounds \<Longrightarrow> k \<in> set (ro_order_a r) \<and> k \<in> set (ro_order_b r) \<and> ro_cleaned r \<le> ro_sent r + failure_timeout"
  shows "k \<in> dom (ms_members (gd_members (fst (fold (heartbeat_round addr_a addr_b) rounds (a, b))))) \<and>
    k \<in> dom (ms_members (gd_members (snd (fold (heartbeat_round addr_a addr_b) rounds (a, b)))))"
proof -
  have "talking k ab \<Longrightarrow> \<forall>r \<in> set rs. k \<in> set (ro_order_a r) \<and> k \<in> set (ro_order_b r) \<and> ro_cleaned r \<le> ro_sent r + failure_timeout \<Longrightarrow>
      talking k (fold (heartbeat_round addr_a addr_b) rs ab)" for rs and ab :: "('a, 'b) discovery \<times> ('a, 'b) discovery"
    by (induction rs arbitrary: ab) (simp_all add: round_keeps)
  moreover have "talking k (a, b)" using assms(1-7) by (auto simp: talking_def)
  ultimately have "talking k (fold (heartbeat_round addr_a addr_b) rounds (a, b))" using assms(8) by blast
  then show ?thesis by (auto simp: talking_def)
qed

text \<open>A node that has said it leaves comes back with the next heartbeat of a node that still lists it.\<close>

lemma left_member_returns:
  assumes "gossip_sound a" "n_id (ln_node (gd_local b)) \<noteq> n_id (ln_node (gd_local a))" "k \<noteq> n_id (ln_node (gd_local a))"
    "ms_members (gd_members b) k \<noteq> None" "k \<in> set ks" "gossip_sound b"
  shows "ms_members (gd_members (fst (handle_gossip os t' (heartbeat ks t' b) addr
      (fst (handle_gossip os' t (\<lparr>gm_type = MsgLeave, gm_sender = n, gm_members = [], gm_time = t0\<rparr>) addr' a))))) k \<noteq> None"
  using heartbeat_seen [of "fst (handle_gossip os' t (\<lparr>gm_type = MsgLeave, gm_sender = n, gm_members = [], gm_time = t0\<rparr>) addr' a)" b k ks os t' addr]
    listed_member [OF assms(5,4,6)] assms(1-3) by (auto simp: handle_gossip_sound)

text \<open>Anybody can remove any member, and every sender of a datagram becomes a peer for good.\<close>

lemma forged_leave:
  assumes "gm_type msg = MsgLeave" "n_id (gm_sender msg) \<noteq> n_id (ln_node (gd_local d))"
  shows "ms_members (gd_members (fst (handle_gossip ks now msg addr d))) (n_id (gm_sender msg)) = None"
  using assms by (auto simp: handle_gossip_def remove_member_def Let_def split: option.split)

lemma join_seeds_peers: "dom (gd_peers d) \<subseteq> dom (gd_peers (fst (join_seeds resolve ss now d)))"
proof (induction resolve ss now d rule: join_seeds.induct)
  case (2 resolve s ss now d)
  then show ?case by (fastforce split: option.split prod.split)
qed simp

lemma peers_never_shrink: "dom (gd_peers d) \<subseteq> dom (gd_peers (gossip_exec resolve d x))"
  using join_seeds_peers [of d]
  by (cases x) (auto simp: handle_gossip_def Let_def cleanup_failed_def on_members_def trigger_def split: gossip_type.split)

text \<open>A message that does not fit the buffer is lost, if the decoder refuses what is cut off.\<close>

lemma large_message_lost:
  assumes "\<And>n. n < length datagram \<Longrightarrow> dec (take n datagram) = None" "length datagram > max_gossip_packet"
  shows "listen_turn dec ks now datagram addr d = (d, [])"
  using assms by (simp add: listen_turn_def)

text \<open>A message goes to three peers at most, each of which has been shuffled to the front.\<close>

lemma broadcast_fanout: "length (broadcast resolve order msg d) \<le> 3"
proof -
  have "length (List.map_filter resolve xs) \<le> length xs" for xs :: "string list"
    by (simp add: List.map_filter_def)
  from this [of "take gossip_fanout order"] show ?thesis by (auto simp: broadcast_def gossip_fanout_def)
qed

section \<open>Instances\<close>

definition gossip_node :: "string \<Rightarrow> (nat, nat) discovery" where
  "gossip_node me =
     new_discovery \<lparr>gc_addr = ''0.0.0.0'', gc_seeds = [''s:1''], gc_port = 0\<rparr> (new_local_node None 0 me me 9000 8080 Map.empty) (new_membership me)"

lemma gossip_node_facts [simp]:
  "gossip_sound (gossip_node me)" "n_id (ln_node (gd_local (gossip_node me))) = me"
  "ms_members (gd_members (gossip_node me)) = Map.empty"
  by (simp_all add: gossip_node_def gossip_sound_def new_discovery_def new_local_node_def resolve_addr_def new_membership_def
      members_ok_def Let_def)

theorem gossip_never_lists_itself_witness:
  "ms_members (gd_members (foldl (gossip_exec (\<lambda>_. None)) (gossip_node ''a'')
     [Receive [] 5 (local_message MsgHeartbeat [demo_node ''a'' 1, demo_node ''c'' 2] 4 (gossip_node ''b'')) ''h:1'', Cleanup [] 6])) ''a'' = None"
proof -
  have ln: "n_id (ln_node (new_local_node None 0 ''a'' ''a'' 9000 8080 Map.empty)) = ''a''"
    by (simp add: new_local_node_def resolve_addr_def Let_def)
  show ?thesis
    unfolding gossip_node_def [of "''a''"] by (rule gossip_never_lists_itself [OF ln, unfolded Let_def, THEN conjunct1])
qed

definition know :: "node \<Rightarrow> (nat, nat) discovery \<Rightarrow> (nat, nat) discovery" where
  "know n d = on_members (add_member n 1) d"

lemma know_facts [simp]:
  "gossip_sound d \<Longrightarrow> n_id n \<noteq> n_id (ln_node (gd_local d)) \<Longrightarrow> gossip_sound (know n d)"
  "gd_local (know n d) = gd_local d" "dom (ms_members (gd_members (know n d))) = insert (n_id n) (dom (ms_members (gd_members d)))"
  by (simp_all add: know_def sound_add add_member_dom)

lemma demo_node_id [simp]: "n_id (demo_node k l) = k"
  by (simp add: demo_node_def)

theorem join_teaches_members_witness:
  "let b = know (demo_node ''c'' 1) (gossip_node ''b''); a = gossip_node ''a'';
       answer = snd (hd (snd (handle_gossip [''a'', ''c''] 3 (local_message MsgJoin [] 2 a) ''h:1'' b))) in
    dom (ms_members (gd_members (fst (handle_gossip [] 4 answer ''s:1'' a)))) = {''b'', ''c''}"
proof -
  let ?b = "know (demo_node ''c'' 1) (gossip_node ''b'')" and ?a = "gossip_node ''a''"
  let ?r = "handle_gossip [''a'', ''c''] 3 (local_message MsgJoin [] 2 ?a) ''h:1'' ?b"
  let ?s = "handle_gossip [] 4 (snd (hd (snd ?r))) ''s:1'' ?a"
  have id: "n_id (fst (local_node_info (gd_local ?a))) = ''a''" by (simp add: local_node_info_def)
  have r: "?r = (fst ?r, [(''h:1'', snd (hd (snd ?r)))])"
    using id by (simp add: handle_gossip_def local_message_def Let_def)
  have b': "gd_members (fst ?r) = add_member (fst (local_node_info (gd_local ?a))) 3 (gd_members ?b)"
    using id by (simp add: handle_gossip_def local_message_def Let_def)
  have order: "iter_order [''a'', ''c''] (ms_members (gd_members (fst ?r)))"
    unfolding b' iter_order_def add_member_dom id by auto
  have "dom (ms_members (gd_members (fst ?s))) = dom (ms_members (gd_members ?a)) \<union> insert ''b'' ({''c''} - {''a''})"
    using join_teaches_members [OF _ _ _ r order, of "[]" 4 "''s:1''" "fst ?s" "snd ?s"] by simp
  then show ?thesis by (auto simp: Let_def)
qed

theorem dead_member_kept_witness:
  "let r = \<lambda>t. \<lparr>ro_order_a = [''c'', ''b''], ro_order_b = [''a'', ''c''], ro_sent = t, ro_cleaned = t + 10\<rparr> in
    ''c'' \<in> dom (ms_members (gd_members (fst (fold (heartbeat_round ''h:1'' ''s:1'') [r 2, r 9000000000000]
      (know (demo_node ''c'' 1) (gossip_node ''a''), know (demo_node ''c'' 1) (gossip_node ''b''))))))"
proof -
  let ?r = "\<lambda>t. \<lparr>ro_order_a = [''c'', ''b''], ro_order_b = [''a'', ''c''], ro_sent = t, ro_cleaned = t + 10\<rparr>"
  have "''c'' \<in> dom (ms_members (gd_members (fst (fold (heartbeat_round ''h:1'' ''s:1'') [?r 2, ?r 9000000000000]
      (know (demo_node ''c'' 1) (gossip_node ''a''), know (demo_node ''c'' 1) (gossip_node ''b''))))))"
    by (rule dead_member_kept [THEN conjunct1]) (auto simp: failure_timeout_def)
  then show ?thesis by (simp only: Let_def)
qed

end
