(* ===== verification/ClusterRpc.thy ===== *)
theory ClusterRpc
  imports Prelude GoFloat GoBytes GoPath
begin

text \<open>
  The calls between cluster nodes, \<open>internal/cluster/grpc.go\<close>, and their token and certificates,
  \<open>internal/cluster/auth.go\<close>. A message is a frame: its length in four bytes, then its body. The codec of the
  bodies (\<open>encoding/gob\<close>) is an argument. A connection delivers a list of bytes and then ends in one of two ways;
  what is written is part of the results.
\<close>

section \<open>Token and certificates\<close>

record cluster_auth =
  ca_token :: string
  ca_cert_file :: string
  ca_key_file :: string
  ca_tls :: bool

datatype auth_error = LoadPairFailed | ReadCertFailed | AppendCertFailed

text \<open>\<open>pair\<close>, \<open>cert\<close> and \<open>pool\<close> say whether loading the key pair, reading the file and parsing it succeed.\<close>

definition new_cluster_auth :: "bool \<Rightarrow> bool \<Rightarrow> bool \<Rightarrow> string \<Rightarrow> string \<Rightarrow> string \<Rightarrow> auth_error + cluster_auth" where
  "new_cluster_auth pair cert pool token cert_file key_file =
     (let ca = \<lparr>ca_token = token, ca_cert_file = cert_file, ca_key_file = key_file, ca_tls = False\<rparr> in
      if cert_file \<noteq> [] \<and> key_file \<noteq> [] then
        (if \<not> pair then Inl LoadPairFailed
         else if \<not> cert then Inl ReadCertFailed
         else if \<not> pool then Inl AppendCertFailed
         else Inr (ca\<lparr>ca_tls := True\<rparr>))
      else Inr ca)"

definition validate_token :: "string \<Rightarrow> cluster_auth \<Rightarrow> bool" where
  "validate_token token ca \<longleftrightarrow> ca_token ca = [] \<or> token = ca_token ca"

text \<open>\<open>GenerateNodeID\<close>, from random bytes.\<close>

definition node_id_length :: nat where
  "node_id_length = 16"

definition generate_node_id :: "byte list option \<Rightarrow> string option" where
  "generate_node_id random = map_option hex_encode random"

text \<open>A character stands for a rune.\<close>

definition cert_char :: "char \<Rightarrow> bool" where
  "cert_char c \<longleftrightarrow> is_lower_alpha c \<or> is_upper_alpha c \<or> is_digit c \<or> c \<in> {CHR ''-'', CHR ''_'', CHR ''.''}"

definition safe_cert_name :: "string \<Rightarrow> string" where
  "safe_cert_name raw =
     (let host = trim_space raw in
      if host = [] then ''afd-node''
      else
        let name = map (\<lambda>c. if cert_char c then c else CHR ''_'') (replace2 CHR ''.'' CHR ''.'' ''_'' (path_base host)) in
        if name = [] \<or> name = ''.'' \<or> name = ''..'' then ''afd-node'' else name)"

definition cert_files :: "string \<Rightarrow> string \<times> string" where
  "cert_files host = (safe_cert_name host @ ''.crt'', safe_cert_name host @ ''.key'')"

section \<open>Frames\<close>

definition max_message_size :: nat where
  "max_message_size = 16 * 1024 * 1024"

datatype stream_end = PeerClosed | StreamBroken

datatype read_error = EndOfStream | UnexpectedEnd | ReadBroken

type_synonym inlet = "byte list \<times> stream_end"

text \<open>\<open>io.ReadFull\<close>.\<close>

definition read_full :: "nat \<Rightarrow> inlet \<Rightarrow> read_error + byte list \<times> byte list" where
  "read_full n inp =
     (case inp of (bs, fin) \<Rightarrow>
        if n \<le> length bs then Inr (take n bs, drop n bs)
        else Inl (case fin of StreamBroken \<Rightarrow> ReadBroken | PeerClosed \<Rightarrow> if bs = [] then EndOfStream else UnexpectedEnd))"

datatype frame_error = HeaderError read_error | InvalidLength nat | BodyError read_error

definition read_frame :: "inlet \<Rightarrow> frame_error + byte list \<times> byte list" where
  "read_frame inp =
     (case read_full 4 inp of
        Inl e \<Rightarrow> Inl (HeaderError e)
      | Inr (header, rest) \<Rightarrow>
          let n = unat (get32 header 0) in
          if n = 0 \<or> n > max_message_size then Inl (InvalidLength n)
          else (case read_full n (rest, snd inp) of Inl e \<Rightarrow> Inl (BodyError e) | Inr r \<Rightarrow> Inr r))"

definition frame :: "byte list \<Rightarrow> byte list" where
  "frame d = put32 (of_nat (length d)) @ d"

text \<open>How far writing a message came.\<close>

datatype write_result = Written | HeaderLost | BodyLost

definition write_frame :: "byte list \<Rightarrow> write_result \<Rightarrow> byte list" where
  "write_frame d w = (case w of Written \<Rightarrow> frame d | HeaderLost \<Rightarrow> [] | BodyLost \<Rightarrow> put32 (of_nat (length d)))"

section \<open>The server\<close>

record rpc_request =
  rq_method :: string
  rq_id :: "64 word"
  rq_payload :: "byte list"
  rq_token :: string

record rpc_response =
  rp_id :: "64 word"
  rp_payload :: "byte list"
  rp_error :: string

text \<open>\<open>HandleRPC\<close>: the payload and the text of the error, if there is one.\<close>

type_synonym 's rpc_handler = "string \<Rightarrow> byte list \<Rightarrow> 's \<Rightarrow> 's \<times> byte list \<times> string option"

record 's rpc_server =
  rs_auth :: "cluster_auth option"
  rs_handler :: "'s rpc_handler option"

text \<open>The answer to a request; the flag says whether the connection ends when it cannot be written.\<close>

definition rpc_answer :: "'s rpc_server \<Rightarrow> rpc_request \<Rightarrow> 's \<Rightarrow> 's \<times> rpc_response \<times> bool" where
  "rpc_answer srv req s =
     (if (case rs_auth srv of None \<Rightarrow> False | Some ca \<Rightarrow> \<not> validate_token (rq_token req) ca)
      then (s, \<lparr>rp_id = rq_id req, rp_payload = [], rp_error = ''unauthorized: invalid token''\<rparr>, False)
      else case rs_handler srv of
        None \<Rightarrow> (s, \<lparr>rp_id = rq_id req, rp_payload = [], rp_error = ''no handler registered''\<rparr>, False)
      | Some h \<Rightarrow> (case h (rq_method req) (rq_payload req) s of
          (s1, payload, err) \<Rightarrow>
            (s1, \<lparr>rp_id = rq_id req, rp_payload = payload, rp_error = (case err of None \<Rightarrow> [] | Some e \<Rightarrow> e)\<rparr>, True)))"

definition write_message :: "(rpc_response \<Rightarrow> byte list option) \<Rightarrow> rpc_response \<Rightarrow> write_result \<Rightarrow> byte list \<times> bool" where
  "write_message enc resp w = (case enc resp of None \<Rightarrow> ([], False) | Some d \<Rightarrow> (write_frame d w, w = Written))"

lemma read_full_length: "read_full n inp = Inr (d, rest) \<Longrightarrow> length (fst inp) = n + length rest \<and> length d = n"
  by (auto simp: read_full_def split: prod.splits if_splits)

lemma read_frame_length:
  "read_frame inp = Inr (d, rest) \<Longrightarrow> length (fst inp) = 4 + length d + length rest \<and> d \<noteq> [] \<and> length d \<le> max_message_size"
  by (auto simp: read_frame_def Let_def dest!: read_full_length split: sum.splits if_splits)

text \<open>
  \<open>handleConn\<close>: one message after the other. \<open>ws\<close> are the outcomes of the writes; missing ones succeed.
\<close>

function serve_conn :: "(byte list \<Rightarrow> rpc_request option) \<Rightarrow> (rpc_response \<Rightarrow> byte list option) \<Rightarrow> 's rpc_server \<Rightarrow>
    byte list \<Rightarrow> stream_end \<Rightarrow> write_result list \<Rightarrow> 's \<Rightarrow> 's \<times> byte list" where
  "serve_conn dec enc srv bs fin ws s =
     (case read_frame (bs, fin) of
        Inl e \<Rightarrow> (s, [])
      | Inr (body, rest) \<Rightarrow> (case dec body of
          None \<Rightarrow> (s, [])
        | Some req \<Rightarrow> (case rpc_answer srv req s of
            (s1, resp, strict) \<Rightarrow> (case write_message enc resp (case ws of [] \<Rightarrow> Written | w # _ \<Rightarrow> w) of
              (out, ok) \<Rightarrow>
                if strict \<and> \<not> ok then (s1, out)
                else (case serve_conn dec enc srv rest fin (tl ws) s1 of (s2, out2) \<Rightarrow> (s2, out @ out2))))))"
  by pat_completeness auto
termination
  by (relation "measure (\<lambda>(dec, enc, srv, bs, fin, ws, s). length bs)") (auto dest: read_frame_length)

declare serve_conn.simps [simp del]

text \<open>
  The life of a server: its listeners, the ones that a loop accepts from, and the open connections. A loop looks at the
  stop channel before it accepts, and that channel stays closed for good.
\<close>

record server_life =
  sl_running :: bool
  sl_stopped :: bool
  sl_listeners :: "nat set"
  sl_current :: "nat option"
  sl_accepting :: "nat set"
  sl_conns :: "nat set"
  sl_next :: nat

definition new_server_life :: server_life where
  "new_server_life = \<lparr>sl_running = False, sl_stopped = False, sl_listeners = {}, sl_current = None, sl_accepting = {}, sl_conns = {}, sl_next = 0\<rparr>"

text \<open>\<open>bound\<close> is whether the address can be listened on. The result is whether \<open>Start\<close> succeeds.\<close>

definition start_server :: "bool \<Rightarrow> server_life \<Rightarrow> server_life \<times> bool" where
  "start_server bound s =
     (if sl_running s \<or> \<not> bound then (s, False)
      else (s\<lparr>sl_running := True, sl_listeners := insert (sl_next s) (sl_listeners s), sl_current := Some (sl_next s),
        sl_accepting := insert (sl_next s) (sl_accepting s), sl_next := sl_next s + 1\<rparr>, True))"

text \<open>One turn of the loop of listener \<open>l\<close>: \<open>conn\<close> is a new connection or an error.\<close>

definition accept_turn :: "nat \<Rightarrow> nat option \<Rightarrow> server_life \<Rightarrow> server_life" where
  "accept_turn l conn s =
     (if l \<notin> sl_accepting s then s
      else if sl_stopped s then s\<lparr>sl_accepting := sl_accepting s - {l}\<rparr>
      else case conn of
        None \<Rightarrow> s\<lparr>sl_accepting := sl_accepting s - {l}\<rparr>
      | Some c \<Rightarrow> s\<lparr>sl_conns := insert c (sl_conns s)\<rparr>)"

definition end_conn :: "nat \<Rightarrow> server_life \<Rightarrow> server_life" where
  "end_conn c s = s\<lparr>sl_conns := sl_conns s - {c}\<rparr>"

definition shutdown_server :: "server_life \<Rightarrow> server_life" where
  "shutdown_server s =
     (if sl_stopped s then s
      else s\<lparr>sl_running := False, sl_stopped := True, sl_conns := {},
        sl_listeners := (case sl_current s of None \<Rightarrow> sl_listeners s | Some l \<Rightarrow> sl_listeners s - {l})\<rparr>)"

section \<open>The client\<close>

text \<open>A connection holds the bytes that have arrived and are not read yet.\<close>

record rpc_client =
  rc_token :: "string option"
  rc_conn :: "byte list option"
  rc_id :: "64 word"

definition new_rpc_client :: "cluster_auth option \<Rightarrow> rpc_client" where
  "new_rpc_client auth = \<lparr>rc_token = map_option ca_token auth, rc_conn = None, rc_id = 0\<rparr>"

datatype call_error =
    DialFailed | EncodeFailed | DeadlineFailed | WriteFailed | ReadFailed frame_error | DecodeFailed
  | RemoteError string | PayloadFailed

definition connect_locked :: "bool \<Rightarrow> rpc_client \<Rightarrow> rpc_client option" where
  "connect_locked dial c =
     (case rc_conn c of Some bs \<Rightarrow> Some c | None \<Rightarrow> if dial then Some (c\<lparr>rc_conn := Some []\<rparr>) else None)"

text \<open>The first half of \<open>Call\<close>: the frame to be written, with the next number.\<close>

definition call_request :: "(rpc_request \<Rightarrow> byte list option) \<Rightarrow> string \<Rightarrow> byte list option \<Rightarrow> rpc_client \<Rightarrow> rpc_client \<times> byte list option" where
  "call_request enc meth payload c =
     (case payload of
        None \<Rightarrow> (c, None)
      | Some p \<Rightarrow>
          let c1 = c\<lparr>rc_id := rc_id c + 1\<rparr> in
          (c1, enc \<lparr>rq_method = meth, rq_id = rc_id c1, rq_payload = p, rq_token = (case rc_token c of None \<Rightarrow> [] | Some t \<Rightarrow> t)\<rparr>))"

text \<open>The second half: the answer is read from what was left over and what arrives.\<close>

definition call_response :: "(byte list \<Rightarrow> rpc_response option) \<Rightarrow> (byte list \<Rightarrow> 'r option) option \<Rightarrow> inlet \<Rightarrow> rpc_client \<Rightarrow>
    rpc_client \<times> (call_error + 'r option)" where
  "call_response dec result arrives c =
     (case read_frame (the (rc_conn c) @ fst arrives, snd arrives) of
        Inl e \<Rightarrow> (c\<lparr>rc_conn := None\<rparr>, Inl (ReadFailed e))
      | Inr (body, rest) \<Rightarrow> (case dec body of
          None \<Rightarrow> (c\<lparr>rc_conn := None\<rparr>, Inl DecodeFailed)
        | Some resp \<Rightarrow>
            let c1 = c\<lparr>rc_conn := Some rest\<rparr> in
            if rp_error resp \<noteq> [] then (c1, Inl (RemoteError (rp_error resp)))
            else (case result of
                None \<Rightarrow> (c1, Inr None)
              | Some f \<Rightarrow>
                  if rp_payload resp = [] then (c1, Inr None)
                  else (case f (rp_payload resp) of None \<Rightarrow> (c1, Inl PayloadFailed) | Some r \<Rightarrow> (c1, Inr (Some r))))))"

text \<open>\<open>arrives\<close> is what comes back when the given bytes have been written.\<close>

definition rpc_call :: "(rpc_request \<Rightarrow> byte list option) \<Rightarrow> (byte list \<Rightarrow> rpc_response option) \<Rightarrow> bool \<Rightarrow> bool \<Rightarrow> write_result \<Rightarrow>
    (byte list \<Rightarrow> inlet) \<Rightarrow> string \<Rightarrow> byte list option \<Rightarrow> (byte list \<Rightarrow> 'r option) option \<Rightarrow> rpc_client \<Rightarrow>
    rpc_client \<times> (call_error + 'r option)" where
  "rpc_call enc dec dial deadline w arrives meth payload result c =
     (case connect_locked dial c of
        None \<Rightarrow> (c, Inl DialFailed)
      | Some c0 \<Rightarrow> (case call_request enc meth payload c0 of
          (c1, None) \<Rightarrow> (c1, Inl EncodeFailed)
        | (c1, Some d) \<Rightarrow>
            if \<not> deadline then (c1, Inl DeadlineFailed)
            else if w \<noteq> Written then (c1\<lparr>rc_conn := None\<rparr>, Inl WriteFailed)
            else call_response dec result (arrives (frame d)) c1))"

definition close_client :: "rpc_client \<Rightarrow> rpc_client" where
  "close_client c = c\<lparr>rc_conn := None\<rparr>"

section \<open>The adapter of the service\<close>

datatype task_status = TaskPending | TaskRunning | TaskPaused | TaskCompleted | TaskFailed | TaskCanceled | OtherStatus string

record task_info =
  ti_id :: string
  ti_url :: string
  ti_output :: string
  ti_status :: task_status
  ti_progress :: rat
  ti_size :: int
  ti_downloaded :: int
  ti_speed :: int
  ti_created :: instant
  ti_updated :: instant
  ti_node :: string
  ti_error :: string

record submit_request =
  su_url :: string
  su_output :: string
  su_node :: string

record list_request =
  lr_node :: string
  lr_status :: task_status
  lr_limit :: int
  lr_offset :: int

record 'n info_response =
  ni_node :: 'n
  ni_tasks :: int
  ni_uptime :: string

text \<open>
  \<open>NexusServiceHandler\<close>, without the streaming method, which the adapter never calls. Requests that consist of the
  name of a task are that name, responses of one field that field.
\<close>

type_synonym ('s, 'q, 'r) service_method = "'q \<Rightarrow> 's \<Rightarrow> 's \<times> (string + 'r)"

record ('s, 'n) nexus_service =
  nx_submit :: "('s, submit_request, string) service_method"
  nx_cancel :: "('s, string, bool) service_method"
  nx_pause :: "('s, string, bool) service_method"
  nx_resume :: "('s, string, bool) service_method"
  nx_status :: "('s, string, task_info) service_method"
  nx_list :: "('s, list_request, task_info list \<times> int) service_method"
  nx_info :: "('s, unit, 'n info_response) service_method"

text \<open>Decoders and encoders of the messages; errors are texts.\<close>

record 'n nexus_codec =
  nc_submit :: "byte list \<Rightarrow> string + submit_request"
  nc_name :: "string \<Rightarrow> byte list \<Rightarrow> string + string"
  nc_list :: "byte list \<Rightarrow> string + list_request"
  nc_task_id :: "string \<Rightarrow> string + byte list"
  nc_success :: "string \<Rightarrow> bool \<Rightarrow> string + byte list"
  nc_info :: "task_info \<Rightarrow> string + byte list"
  nc_tasks :: "task_info list \<times> int \<Rightarrow> string + byte list"
  nc_node :: "'n info_response \<Rightarrow> string + byte list"

definition adapter_step :: "string \<Rightarrow> (byte list \<Rightarrow> string + 'q) \<Rightarrow> ('r \<Rightarrow> string + byte list) \<Rightarrow> ('s, 'q, 'r) service_method \<Rightarrow>
    byte list \<Rightarrow> 's \<Rightarrow> 's \<times> byte list \<times> string option" where
  "adapter_step label dec enc f payload s =
     (case dec payload of
        Inl e \<Rightarrow> (s, [], Some (label @ e))
      | Inr req \<Rightarrow> (case f req s of
          (s1, Inl e) \<Rightarrow> (s1, [], Some e)
        | (s1, Inr resp) \<Rightarrow> (case enc resp of Inl e \<Rightarrow> (s1, [], Some e) | Inr d \<Rightarrow> (s1, d, None))))"

definition streaming_refused :: string where
  "streaming_refused = ''StreamTaskProgress must be called via streaming client''"

definition handle_rpc :: "'n nexus_codec \<Rightarrow> ('s, 'n) nexus_service \<Rightarrow> 's rpc_handler" where
  "handle_rpc cd svc meth payload s =
     (if meth = ''SubmitTask'' then adapter_step ''decode SubmitTaskRequest: '' (nc_submit cd) (nc_task_id cd) (nx_submit svc) payload s
      else if meth = ''CancelTask'' then adapter_step [] (nc_name cd meth) (nc_success cd meth) (nx_cancel svc) payload s
      else if meth = ''PauseTask'' then adapter_step [] (nc_name cd meth) (nc_success cd meth) (nx_pause svc) payload s
      else if meth = ''ResumeTask'' then adapter_step [] (nc_name cd meth) (nc_success cd meth) (nx_resume svc) payload s
      else if meth = ''GetTaskStatus'' then adapter_step [] (nc_name cd meth) (nc_info cd) (nx_status svc) payload s
      else if meth = ''ListTasks'' then adapter_step [] (nc_list cd) (nc_tasks cd) (nx_list svc) payload s
      else if meth = ''GetNodeInfo'' then adapter_step [] (\<lambda>_. Inr ()) (nc_node cd) (nx_info svc) payload s
      else if meth = ''StreamTaskProgress'' then (s, [], Some streaming_refused)
      else (s, [], Some (''unknown method: '' @ meth)))"

section \<open>The streaming client\<close>

record progress_update =
  pu_task :: string
  pu_progress :: rat
  pu_speed :: int
  pu_status :: string
  pu_time :: int

definition no_update :: progress_update where
  "no_update = \<lparr>pu_task = [], pu_progress = 0, pu_speed = 0, pu_status = [], pu_time = 0\<rparr>"

datatype stream_error =
    StreamDial | StreamEncode | StreamWrite | StreamRead read_error | StreamLength nat | StreamDecode
  | StreamRemote string | StreamPayload | StreamCallback

text \<open>The callback changes a state of its own and says whether it fails. The result is nothing when the stream ended well.\<close>

function stream_loop :: "(byte list \<Rightarrow> rpc_response option) \<Rightarrow> (byte list \<Rightarrow> progress_update option) \<Rightarrow>
    (progress_update \<Rightarrow> 'c \<Rightarrow> 'c \<times> bool) \<Rightarrow> byte list \<Rightarrow> stream_end \<Rightarrow> 'c \<Rightarrow> 'c \<times> stream_error option" where
  "stream_loop dec update callback bs fin x =
     (case read_frame (bs, fin) of
        Inl (HeaderError e) \<Rightarrow> (x, if e = EndOfStream then None else Some (StreamRead e))
      | Inl (InvalidLength n) \<Rightarrow> (x, Some (StreamLength n))
      | Inl (BodyError e) \<Rightarrow> (x, Some (StreamRead e))
      | Inr (body, rest) \<Rightarrow> (case dec body of
          None \<Rightarrow> (x, Some StreamDecode)
        | Some resp \<Rightarrow>
            if rp_error resp = ''EOF'' then (x, None)
            else if rp_error resp \<noteq> [] then (x, Some (StreamRemote (rp_error resp)))
            else (case (if rp_payload resp = [] then Some no_update else update (rp_payload resp)) of
                None \<Rightarrow> (x, Some StreamPayload)
              | Some u \<Rightarrow> (case callback u x of
                  (x1, failed) \<Rightarrow> if failed then (x1, Some StreamCallback) else stream_loop dec update callback rest fin x1))))"
  by pat_completeness auto
termination
  by (relation "measure (\<lambda>(dec, update, callback, bs, fin, x). length bs)") (auto dest: read_frame_length)

declare stream_loop.simps [simp del]

text \<open>A connection of its own, with a number from the shared counter.\<close>

definition stream_task_progress :: "(rpc_request \<Rightarrow> byte list option) \<Rightarrow> (byte list \<Rightarrow> rpc_response option) \<Rightarrow>
    (byte list \<Rightarrow> progress_update option) \<Rightarrow> bool \<Rightarrow> write_result \<Rightarrow> (byte list \<Rightarrow> inlet) \<Rightarrow> byte list option \<Rightarrow>
    (progress_update \<Rightarrow> 'c \<Rightarrow> 'c \<times> bool) \<Rightarrow> rpc_client \<Rightarrow> 'c \<Rightarrow> rpc_client \<times> 'c \<times> stream_error option" where
  "stream_task_progress enc dec update dial w arrives payload callback c x =
     (if \<not> dial then (c, x, Some StreamDial)
      else
        let c1 = c\<lparr>rc_id := rc_id c + 1\<rparr> in
        case payload of
          None \<Rightarrow> (c1, x, Some StreamEncode)
        | Some p \<Rightarrow>
            (case enc \<lparr>rq_method = ''StreamTaskProgress'', rq_id = rc_id c1, rq_payload = p,
                  rq_token = (case rc_token c of None \<Rightarrow> [] | Some t \<Rightarrow> t)\<rparr> of
               None \<Rightarrow> (c1, x, Some StreamEncode)
             | Some d \<Rightarrow>
                 if w \<noteq> Written then (c1, x, Some StreamWrite)
                 else (case arrives (frame d) of (bs, fin) \<Rightarrow> (c1, stream_loop dec update callback bs fin x))))"

end
