(* ===== verification/ClusterRpcProps.thy ===== *)
theory ClusterRpcProps
  imports ClusterRpc
begin

text \<open>
  What the calls between cluster nodes amount to: frames arrive whole, a call over the wire is a call of the handler,
  and what a wrong token, an answer that is too large and the streaming call lead to.
\<close>

section \<open>Frames\<close>

lemma frame_length [simp]: "length (frame d) = 4 + length d"
  by (simp add: frame_def)

text \<open>A body of admissible size is read back from its frame, whatever follows on the connection.\<close>

lemma read_frame_frame:
  assumes "d \<noteq> []" "length d \<le> max_message_size"
  shows "read_frame (frame d @ bs, fin) = Inr (d, bs)"
proof -
  have "unat (of_nat (length d) :: 32 word) = length d" using assms(2) by (simp add: unat_of_nat max_message_size_def)
  then show ?thesis
    using assms get_put32 [of "of_nat (length d)" "[]"] by (simp add: read_frame_def read_full_def frame_def)
qed

lemma read_frame_large:
  assumes "length d > max_message_size" "length d < 2 ^ 32"
  shows "read_frame (frame d @ bs, fin) = Inl (InvalidLength (length d))"
proof -
  have "unat (of_nat (length d) :: 32 word) = length d" using assms(2) by (simp add: unat_of_nat)
  then show ?thesis
    using assms get_put32 [of "of_nat (length d)" "[]"] by (simp add: read_frame_def read_full_def frame_def Let_def)
qed

lemma read_frame_nothing [simp]: "read_frame ([], PeerClosed) = Inl (HeaderError EndOfStream)"
    "read_frame ([], StreamBroken) = Inl (HeaderError ReadBroken)"
  by (simp_all add: read_frame_def read_full_def)

section \<open>Calls over the wire\<close>

text \<open>A message the codec carries, in a frame that is not too large.\<close>

definition carried :: "('m \<Rightarrow> byte list option) \<Rightarrow> (byte list \<Rightarrow> 'm option) \<Rightarrow> 'm \<Rightarrow> bool" where
  "carried enc dec m \<longleftrightarrow> (case enc m of None \<Rightarrow> False | Some d \<Rightarrow> dec d = Some m \<and> d \<noteq> [] \<and> length d \<le> max_message_size)"

lemma carriedE:
  assumes "carried enc dec m"
  obtains d where "enc m = Some d" "dec d = Some m" "d \<noteq> []" "length d \<le> max_message_size"
  using assms by (auto simp: carried_def split: option.splits)

definition token_of :: "rpc_client \<Rightarrow> string" where
  "token_of c = (case rc_token c of None \<Rightarrow> [] | Some t \<Rightarrow> t)"

definition admitted :: "'s rpc_server \<Rightarrow> string \<Rightarrow> bool" where
  "admitted srv token \<longleftrightarrow> (case rs_auth srv of None \<Rightarrow> True | Some ca \<Rightarrow> validate_token token ca)"

text \<open>What a call gets when the handler is called directly.\<close>

definition direct_result :: "(byte list \<Rightarrow> 'r option) option \<Rightarrow> byte list \<times> string option \<Rightarrow> call_error + 'r option" where
  "direct_result result answer =
     (case answer of (payload, err) \<Rightarrow>
        (case err of
           Some (x # xs) \<Rightarrow> Inl (RemoteError (x # xs))
         | _ \<Rightarrow> (case result of
             None \<Rightarrow> Inr None
           | Some f \<Rightarrow> if payload = [] then Inr None else (case f payload of None \<Rightarrow> Inl PayloadFailed | Some r \<Rightarrow> Inr (Some r)))))"

fun direct_calls :: "'s rpc_handler \<Rightarrow> (byte list \<Rightarrow> 'r option) option \<Rightarrow> (string \<times> byte list) list \<Rightarrow> 's \<Rightarrow> 's \<times> (call_error + 'r option) list" where
  "direct_calls h result [] s = (s, [])"
| "direct_calls h result ((meth, p) # cs) s =
     (case h meth p s of (s1, answer) \<Rightarrow>
        (case direct_calls h result cs s1 of (s2, rs) \<Rightarrow> (s2, direct_result result answer # rs)))"

text \<open>
  The calls of one client to one server: what the client writes is served at once, the connection stays open, and the
  client reads what comes back.
\<close>

record 's rpc_link =
  lk_enc_request :: "rpc_request \<Rightarrow> byte list option"
  lk_dec_request :: "byte list \<Rightarrow> rpc_request option"
  lk_enc_response :: "rpc_response \<Rightarrow> byte list option"
  lk_dec_response :: "byte list \<Rightarrow> rpc_response option"
  lk_server :: "'s rpc_server"

definition link_serve :: "'s rpc_link \<Rightarrow> 's \<Rightarrow> byte list \<Rightarrow> 's \<times> byte list" where
  "link_serve lk s bs = serve_conn (lk_dec_request lk) (lk_enc_response lk) (lk_server lk) bs StreamBroken [] s"

definition link_call :: "'s rpc_link \<Rightarrow> (byte list \<Rightarrow> 'r option) option \<Rightarrow> string \<Rightarrow> byte list \<Rightarrow> rpc_client \<times> 's \<Rightarrow>
    (rpc_client \<times> 's) \<times> (call_error + 'r option)" where
  "link_call lk result meth p cs =
     (case cs of (c, s) \<Rightarrow>
        (case rpc_call (lk_enc_request lk) (lk_dec_response lk) True True Written
             (\<lambda>bs. (snd (link_serve lk s bs), StreamBroken)) meth (Some p) result c of
           (c1, r) \<Rightarrow>
             ((c1, case snd (call_request (lk_enc_request lk) meth (Some p) c) of None \<Rightarrow> s | Some d \<Rightarrow> fst (link_serve lk s (frame d))), r)))"

fun link_calls :: "'s rpc_link \<Rightarrow> (byte list \<Rightarrow> 'r option) option \<Rightarrow> (string \<times> byte list) list \<Rightarrow> rpc_client \<times> 's \<Rightarrow>
    (rpc_client \<times> 's) \<times> (call_error + 'r option) list" where
  "link_calls lk result [] cs = (cs, [])"
| "link_calls lk result ((meth, p) # calls) cs =
     (case link_call lk result meth p cs of (cs1, r) \<Rightarrow>
        (case link_calls lk result calls cs1 of (cs2, rs) \<Rightarrow> (cs2, r # rs)))"

lemma serve_one:
  assumes "dec d = Some req" "d \<noteq> []" "length d \<le> max_message_size" "rpc_answer srv req s = (s1, resp, strict)" "enc resp = Some out"
  shows "serve_conn dec enc srv (frame d @ bs) fin [] s =
    (case serve_conn dec enc srv bs fin [] s1 of (s2, rest) \<Rightarrow> (s2, frame out @ rest))"
  using assms by (subst serve_conn.simps) (simp add: read_frame_frame write_message_def write_frame_def)

lemma serve_nothing [simp]: "serve_conn dec enc srv [] fin ws s = (s, [])"
  by (subst serve_conn.simps) (cases fin; simp)

text \<open>Serving two requests that arrive together is serving one after the other.\<close>

lemma serve_split:
  assumes "dec d = Some req" "d \<noteq> []" "length d \<le> max_message_size" "rpc_answer srv req s = (s1, resp, strict)" "enc resp = Some out"
  shows "serve_conn dec enc srv (frame d @ bs) fin [] s =
    (case serve_conn dec enc srv (frame d) fin [] s of (s1, out1) \<Rightarrow>
      (case serve_conn dec enc srv bs fin [] s1 of (s2, out2) \<Rightarrow> (s2, out1 @ out2)))"
  using serve_one [where dec = dec and enc = enc and bs = bs, OF assms]
    serve_one [where dec = dec and enc = enc and bs = "[]", OF assms] by (simp split: prod.split)

definition idle_client :: "rpc_client \<Rightarrow> bool" where
  "idle_client c \<longleftrightarrow> rc_conn c \<in> {None, Some []}"

lemma link_call_direct:
  assumes "idle_client c" "admitted (lk_server lk) (token_of c)" "rs_handler (lk_server lk) = Some h" "h meth p s = (s1, payload, err)"
    "\<And>i. carried (lk_enc_request lk) (lk_dec_request lk) \<lparr>rq_method = meth, rq_id = i, rq_payload = p, rq_token = token_of c\<rparr>"
    "\<And>i. carried (lk_enc_response lk) (lk_dec_response lk)
      \<lparr>rp_id = i, rp_payload = payload, rp_error = (case err of None \<Rightarrow> [] | Some e \<Rightarrow> e)\<rparr>"
  shows "link_call lk result meth p (c, s) =
    ((c\<lparr>rc_conn := Some [], rc_id := rc_id c + 1\<rparr>, s1), direct_result result (payload, err))"
proof -
  let ?req = "\<lparr>rq_method = meth, rq_id = rc_id c + 1, rq_payload = p, rq_token = token_of c\<rparr>"
  let ?resp = "\<lparr>rp_id = rc_id c + 1, rp_payload = payload, rp_error = (case err of None \<Rightarrow> [] | Some e \<Rightarrow> e)\<rparr>"
  obtain d where d: "lk_enc_request lk ?req = Some d" "lk_dec_request lk d = Some ?req" "d \<noteq> []" "length d \<le> max_message_size"
    using assms(5) by (rule carriedE)
  obtain out where out: "lk_enc_response lk ?resp = Some out" "lk_dec_response lk out = Some ?resp" "out \<noteq> []" "length out \<le> max_message_size"
    using assms(6) by (rule carriedE)
  have answer: "rpc_answer (lk_server lk) ?req s = (s1, ?resp, True)"
    using assms(2-4) by (auto simp: rpc_answer_def admitted_def split: option.splits)
  have served: "link_serve lk s (frame d) = (s1, frame out)"
    using serve_one [where dec = "lk_dec_request lk" and enc = "lk_enc_response lk" and bs = "[]" and fin = StreamBroken, OF d(2-4) answer out(1)]
    by (simp add: link_serve_def)
  have req: "call_request (lk_enc_request lk) meth (Some p) (c\<lparr>rc_conn := x\<rparr>) = (c\<lparr>rc_conn := x, rc_id := rc_id c + 1\<rparr>, Some d)" for x
    using d(1) by (simp add: call_request_def token_of_def Let_def)
  have conn: "connect_locked True c = Some (c\<lparr>rc_conn := Some []\<rparr>)" using assms(1) by (auto simp: idle_client_def connect_locked_def)
  have "call_response (lk_dec_response lk) result (frame out, StreamBroken) (c\<lparr>rc_conn := Some [], rc_id := rc_id c + 1\<rparr>) =
      (c\<lparr>rc_conn := Some [], rc_id := rc_id c + 1\<rparr>, direct_result result (payload, err))"
    using read_frame_frame [OF out(3,4), of "[]" StreamBroken] out(2)
    by (auto simp: call_response_def direct_result_def Let_def split: option.split list.split)
  then show ?thesis
    using req [of "Some []"] req [of "rc_conn c"] by (simp add: link_call_def rpc_call_def conn served)
qed

text \<open>
  C9: Calls over the wire are calls of the handler: a client with an admitted token gets, call by call, the
  results of the handler, whose state changes as if it had been called directly, as long as the messages are
  carried by the codec and within the limit.
\<close>
theorem rpc_calls_refine_handler:
  assumes "rs_handler (lk_server lk) = Some h" "idle_client c" "admitted (lk_server lk) (token_of c)"
    "\<And>meth p i. (meth, p) \<in> set calls \<Longrightarrow>
      carried (lk_enc_request lk) (lk_dec_request lk) \<lparr>rq_method = meth, rq_id = i, rq_payload = p, rq_token = token_of c\<rparr>"
    "\<And>meth p s s1 payload err i. (meth, p) \<in> set calls \<Longrightarrow> h meth p s = (s1, payload, err) \<Longrightarrow>
      carried (lk_enc_response lk) (lk_dec_response lk) \<lparr>rp_id = i, rp_payload = payload, rp_error = (case err of None \<Rightarrow> [] | Some e \<Rightarrow> e)\<rparr>"
  shows "case link_calls lk result calls (c, s) of ((c', s'), rs) \<Rightarrow> (s', rs) = direct_calls h result calls s \<and> idle_client c'"
  using assms(2-)
proof (induction calls arbitrary: c s)
  case (Cons call calls)
  obtain meth p where call: "call = (meth, p)" by fastforce
  obtain s1 payload err where h: "h meth p s = (s1, payload, err)" by (metis prod_cases3)
  let ?c = "c\<lparr>rc_conn := Some [], rc_id := rc_id c + 1\<rparr>"
  have step: "link_call lk result meth p (c, s) = ((?c, s1), direct_result result (payload, err))"
    by (rule link_call_direct [OF Cons.prems(1,2) assms(1) h]) (use Cons.prems(3) Cons.prems(4) [OF _ h] call in simp_all)
  have tok: "token_of ?c = token_of c" by (simp add: token_of_def)
  have "case link_calls lk result calls (?c, s1) of ((c', s'), rs) \<Rightarrow> (s', rs) = direct_calls h result calls s1 \<and> idle_client c'"
  proof (rule Cons.IH)
    show "idle_client ?c" by (simp add: idle_client_def)
    show "admitted (lk_server lk) (token_of ?c)" using Cons.prems(2) by (simp only: tok)
  next
    fix meth' p' i assume "(meth', p') \<in> set calls"
    then show "carried (lk_enc_request lk) (lk_dec_request lk) \<lparr>rq_method = meth', rq_id = i, rq_payload = p', rq_token = token_of ?c\<rparr>"
      unfolding tok using Cons.prems(3) by simp
  next
    fix meth' p' s' s1' payload' err' i assume c: "(meth', p') \<in> set calls" "h meth' p' s' = (s1', payload', err')"
    show "carried (lk_enc_response lk) (lk_dec_response lk)
        \<lparr>rp_id = i, rp_payload = payload', rp_error = (case err' of None \<Rightarrow> [] | Some e \<Rightarrow> e)\<rparr>"
      by (rule Cons.prems(4) [OF _ c(2)]) (simp add: c(1))
  qed
  then show ?case using step h call by (auto split: prod.splits)
qed simp

section \<open>Refusals\<close>

text \<open>
  Without the token nothing reaches the handler: whatever bytes arrive, as long as no message among them carries
  the token, the state stays as it is.
\<close>
theorem wrong_token_changes_nothing:
  assumes "rs_auth srv = Some ca" "ca_token ca \<noteq> []" "\<And>body req. dec body = Some req \<Longrightarrow> rq_token req \<noteq> ca_token ca"
  shows "fst (serve_conn dec enc srv bs fin ws s) = s"
proof (induction bs arbitrary: ws s rule: length_induct)
  case (1 bs)
  have refused: "rpc_answer srv req s = (s, \<lparr>rp_id = rq_id req, rp_payload = [], rp_error = ''unauthorized: invalid token''\<rparr>, False)"
    if "dec body = Some req" for body req
    using assms that by (simp add: rpc_answer_def validate_token_def)
  have "s' = s" if "read_frame (bs, fin) = Inr (body, rest)" "serve_conn dec enc srv rest fin ws' s = (s', out)" for body rest ws' s' out
    using 1 read_frame_length [OF that(1)] that(2) by (metis (no_types, lifting) add_lessD1 fst_conv le_add2 length_greater_0_conv less_add_same_cancel2 less_le_trans)
  then show ?case using refused by (subst serve_conn.simps) (auto split: sum.split prod.split option.split)
qed

text \<open>With an empty token, as the service is started, everybody is admitted.\<close>

lemma empty_token_admits: "rs_auth srv = Some ca \<Longrightarrow> ca_token ca = [] \<Longrightarrow> admitted srv token"
  by (simp add: admitted_def validate_token_def)

text \<open>An answer over the limit is written by the server and refused by the client, which drops the connection.\<close>

lemma large_answer_refused:
  assumes "length out > max_message_size" "length out < 2 ^ 32" "rc_conn c = Some []"
  shows "call_response dec result (frame out, StreamBroken) c = (c\<lparr>rc_conn := None\<rparr>, Inl (ReadFailed (InvalidLength (length out))))"
  using read_frame_large [OF assms(1,2), of "[]"] assms(3) by (simp add: call_response_def)

text \<open>
  The streaming client cannot stream: the server of the same file answers its request with an error, so the call
  fails and the callback never runs.
\<close>
theorem streaming_always_refused:
  assumes "rs_handler srv = Some (handle_rpc cd svc)" "admitted srv (token_of c)"
    "carried enc_req dec_req \<lparr>rq_method = ''StreamTaskProgress'', rq_id = rc_id c + 1, rq_payload = p, rq_token = token_of c\<rparr>"
    "carried enc_resp dec_resp \<lparr>rp_id = rc_id c + 1, rp_payload = [], rp_error = streaming_refused\<rparr>"
  shows "stream_task_progress enc_req dec_resp update True Written
      (\<lambda>bs. (snd (serve_conn dec_req enc_resp srv bs StreamBroken [] s), StreamBroken)) (Some p) callback c x =
    (c\<lparr>rc_id := rc_id c + 1\<rparr>, x, Some (StreamRemote streaming_refused))"
proof -
  let ?req = "\<lparr>rq_method = ''StreamTaskProgress'', rq_id = rc_id c + 1, rq_payload = p, rq_token = token_of c\<rparr>"
  let ?resp = "\<lparr>rp_id = rc_id c + 1, rp_payload = [], rp_error = streaming_refused\<rparr>"
  obtain d where d: "enc_req ?req = Some d" "dec_req d = Some ?req" "d \<noteq> []" "length d \<le> max_message_size"
    using assms(3) by (rule carriedE)
  obtain out where out: "enc_resp ?resp = Some out" "dec_resp out = Some ?resp" "out \<noteq> []" "length out \<le> max_message_size"
    using assms(4) by (rule carriedE)
  have answer: "rpc_answer srv ?req s = (s, ?resp, True)"
    using assms(1,2) by (auto simp: rpc_answer_def admitted_def handle_rpc_def split: option.splits)
  have served: "serve_conn dec_req enc_resp srv (frame d) StreamBroken [] s = (s, frame out)"
    using serve_one [where dec = dec_req and enc = enc_resp and bs = "[]" and fin = StreamBroken, OF d(2-4) answer out(1)] by simp
  have "stream_loop dec_resp update callback (frame out) StreamBroken x = (x, Some (StreamRemote streaming_refused))"
    using read_frame_frame [OF out(3,4), of "[]" StreamBroken] out(2)
    by (subst stream_loop.simps) (simp add: streaming_refused_def)
  then show ?thesis using d(1) by (simp add: stream_task_progress_def token_of_def served Let_def)
qed

text \<open>
  A server that was shut down can be started again without an error, but it never accepts a connection, and its second
  listener stays open.
\<close>

lemma restarted_server_deaf:
  assumes "start_server True (shutdown_server s) = (s1, True)" "\<not> sl_stopped s"
  shows "sl_conns (accept_turn l conn s1) = {} \<and> sl_next s \<in> sl_listeners (shutdown_server s1) \<and> sl_running s1"
  using assms by (auto simp: start_server_def shutdown_server_def accept_turn_def split: if_splits option.splits)

section \<open>Names of certificates\<close>

lemma cert_char_plain: "cert_char c \<Longrightarrow> c \<noteq> CHR ''/''"
  by (auto simp: cert_char_def is_lower_alpha_def is_upper_alpha_def is_digit_def)

text \<open>
  Whatever the host is, the files of its certificate are plain names in the working directory.
\<close>
theorem cert_name_plain:
  "list_all cert_char (safe_cert_name host) \<and> CHR ''/'' \<notin> set (safe_cert_name host) \<and>
   safe_cert_name host \<noteq> [] \<and> safe_cert_name host \<noteq> ''.'' \<and> safe_cert_name host \<noteq> ''..''"
proof -
  have all: "list_all cert_char (safe_cert_name host)"
    by (auto simp: safe_cert_name_def Let_def list_all_iff cert_char_def is_lower_alpha_def)
  then have "CHR ''/'' \<notin> set (safe_cert_name host)" using cert_char_plain by (fastforce simp: list_all_iff)
  with all show ?thesis by (auto simp: safe_cert_name_def Let_def)
qed

section \<open>Instances\<close>

definition demo_put64 :: "64 word \<Rightarrow> byte list" where
  "demo_put64 w = put32 (ucast (drop_bit 32 w)) @ put32 (ucast w)"

definition demo_get64 :: "byte list \<Rightarrow> 64 word" where
  "demo_get64 bs = word_cat (get32 bs 0) (get32 bs 4)"

lemma demo_put64_length [simp]: "length (demo_put64 w) = 8"
  by (simp add: demo_put64_def)

lemma demo_put64_nonempty [simp]: "demo_put64 w \<noteq> []"
  by (simp add: demo_put64_def put32_def)

lemma demo_get_put64 [simp]: "demo_get64 (demo_put64 w @ bs) = w"
proof -
  have "(word_cat (ucast (drop_bit 32 w) :: 32 word) (ucast w :: 32 word) :: 64 word) = w"
    by (rule bit_word_eqI) (auto simp: bit_word_cat_iff bit_ucast_iff bit_drop_bit_eq not_less)
  then show ?thesis
    using get32_later [of "put32 (ucast (drop_bit 32 w))" 4 "put32 (ucast w) @ bs" 0] by (simp add: demo_get64_def demo_put64_def)
qed

definition demo_link :: "int rpc_link" where
  "demo_link = \<lparr>
     lk_enc_request = (\<lambda>r. Some (demo_put64 (rq_id r) @ rq_payload r)),
     lk_dec_request = (\<lambda>bs. Some \<lparr>rq_method = ''Echo'', rq_id = demo_get64 bs, rq_payload = drop 8 bs, rq_token = ''t''\<rparr>),
     lk_enc_response = (\<lambda>r. Some (demo_put64 (rp_id r) @ rp_payload r)),
     lk_dec_response = (\<lambda>bs. Some \<lparr>rp_id = demo_get64 bs, rp_payload = drop 8 bs, rp_error = []\<rparr>),
     lk_server = \<lparr>rs_auth = Some \<lparr>ca_token = ''t'', ca_cert_file = [], ca_key_file = [], ca_tls = False\<rparr>,
       rs_handler = Some (\<lambda>meth p n. (n + 1, p, None))\<rparr>\<rparr>"

theorem rpc_calls_refine_handler_witness:
  "case link_calls demo_link (Some Some) [(''Echo'', [1, 2]), (''Echo'', [])] (\<lparr>rc_token = Some ''t'', rc_conn = None, rc_id = 6\<rparr>, 0) of
     ((c, n), rs) \<Rightarrow> n = 2 \<and> rs = [Inr (Some [1, 2]), Inr None] \<and> idle_client c"
proof -
  let ?c = "\<lparr>rc_token = Some ''t'', rc_conn = None, rc_id = 6\<rparr>" and ?calls = "[(''Echo'', [1, 2]), (''Echo'', [])] :: (string \<times> byte list) list"
  have "case link_calls demo_link (Some Some) ?calls (?c, 0) of ((c', s'), rs) \<Rightarrow>
      (s', rs) = direct_calls (\<lambda>meth p n. (n + 1, p, None)) (Some Some) ?calls 0 \<and> idle_client c'"
  proof (rule rpc_calls_refine_handler)
    show "rs_handler (lk_server demo_link) = Some (\<lambda>meth p n. (n + 1, p, None))" by (simp add: demo_link_def)
    show "idle_client ?c" by (simp add: idle_client_def)
    show "admitted (lk_server demo_link) (token_of ?c)" by (simp add: demo_link_def admitted_def validate_token_def token_of_def)
  next
    fix meth and p :: "byte list" and i assume "(meth, p) \<in> set ?calls"
    then show "carried (lk_enc_request demo_link) (lk_dec_request demo_link) \<lparr>rq_method = meth, rq_id = i, rq_payload = p, rq_token = token_of ?c\<rparr>"
      by (auto simp: carried_def demo_link_def token_of_def max_message_size_def)
  next
    fix meth and p payload :: "byte list" and n s1 :: int and err :: "string option" and i assume "(meth, p) \<in> set ?calls" "(n + 1, p, None) = (s1, payload, err)"
    then show "carried (lk_enc_response demo_link) (lk_dec_response demo_link)
        \<lparr>rp_id = i, rp_payload = payload, rp_error = (case err of None \<Rightarrow> [] | Some e \<Rightarrow> e)\<rparr>"
      by (auto simp: carried_def demo_link_def max_message_size_def)
  qed
  then show ?thesis by (simp add: direct_result_def split: prod.splits)
qed

theorem wrong_token_changes_nothing_witness:
  "fst (serve_conn (lk_dec_request demo_link) (lk_enc_response demo_link)
     ((lk_server demo_link)\<lparr>rs_auth := Some \<lparr>ca_token = ''u'', ca_cert_file = [], ca_key_file = [], ca_tls = False\<rparr>\<rparr>)
     (frame [0, 0, 0, 0, 0, 0, 0, 1, 5]) PeerClosed [] 3) = 3"
  by (rule wrong_token_changes_nothing [where ca = "\<lparr>ca_token = ''u'', ca_cert_file = [], ca_key_file = [], ca_tls = False\<rparr>"])
    (auto simp: demo_link_def)

definition demo_service :: "(nat, unit) nexus_service" where
  "demo_service = \<lparr>nx_submit = (\<lambda>r n. (n + 1, Inr ''t'')), nx_cancel = (\<lambda>i n. (n, Inr True)), nx_pause = (\<lambda>i n. (n, Inr True)),
     nx_resume = (\<lambda>i n. (n, Inr True)), nx_status = (\<lambda>i n. (n, Inl ''unknown'')), nx_list = (\<lambda>r n. (n, Inr ([], 0))),
     nx_info = (\<lambda>_ n. (n, Inl ''unknown''))\<rparr>"

definition demo_nexus_codec :: "unit nexus_codec" where
  "demo_nexus_codec = \<lparr>nc_submit = (\<lambda>_. Inl ''EOF''), nc_name = (\<lambda>_ bs. Inr (bytes_text bs)), nc_list = (\<lambda>_. Inl ''EOF''),
     nc_task_id = (\<lambda>t. Inr (text_bytes t)), nc_success = (\<lambda>_ b. Inr [if b then 1 else 0]), nc_info = (\<lambda>_. Inr [1]),
     nc_tasks = (\<lambda>_. Inr [1]), nc_node = (\<lambda>_. Inr [1])\<rparr>"

theorem streaming_always_refused_witness:
  "let req = \<lparr>rq_method = ''StreamTaskProgress'', rq_id = 1, rq_payload = [7], rq_token = []\<rparr>;
       resp = \<lparr>rp_id = 1, rp_payload = [], rp_error = streaming_refused\<rparr>;
       srv = \<lparr>rs_auth = None, rs_handler = Some (handle_rpc demo_nexus_codec demo_service)\<rparr> in
    snd (snd (stream_task_progress (\<lambda>_. Some [1]) (\<lambda>_. Some resp) (\<lambda>_. None) True Written
      (\<lambda>bs. (snd (serve_conn (\<lambda>_. Some req) (\<lambda>_. Some [2]) srv bs StreamBroken [] 0), StreamBroken)) (Some [7]) (\<lambda>u n. (n + 1, False))
      (new_rpc_client None) (0 :: nat))) = Some (StreamRemote streaming_refused)"
proof -
  let ?req = "\<lparr>rq_method = ''StreamTaskProgress'', rq_id = 1, rq_payload = [7], rq_token = []\<rparr>"
  let ?resp = "\<lparr>rp_id = 1, rp_payload = [], rp_error = streaming_refused\<rparr>"
  let ?srv = "\<lparr>rs_auth = None, rs_handler = Some (handle_rpc demo_nexus_codec demo_service)\<rparr>" and ?c = "new_rpc_client None"
  have "stream_task_progress (\<lambda>_. Some [1]) (\<lambda>_. Some ?resp) (\<lambda>_. None) True Written
      (\<lambda>bs. (snd (serve_conn (\<lambda>_. Some ?req) (\<lambda>_. Some [2]) ?srv bs StreamBroken [] 0), StreamBroken)) (Some [7]) (\<lambda>u n. (n + 1, False))
      ?c (0 :: nat) = (?c\<lparr>rc_id := rc_id ?c + 1\<rparr>, 0, Some (StreamRemote streaming_refused))"
    by (rule streaming_always_refused)
      (simp_all add: admitted_def carried_def new_rpc_client_def token_of_def max_message_size_def)
  then show ?thesis by (simp add: Let_def)
qed

end
