(* ===== verification/Plugins.thy ===== *)
theory Plugins
  imports Prelude GoPath
begin

text \<open>
  Hooks and plugins: \<open>internal/plugin/hooks.go\<close>, \<open>plugin.go\<close> and \<open>registry.go\<close>. A handler has an identity, by which
  \<open>Unregister\<close> finds it, and running it changes a state and may give an error. \<open>sort.Slice\<close> is an argument, since the
  order of equal priorities is up to it. Shared libraries are opened by an argument too.
\<close>

section \<open>Hooks\<close>

record 'h hook =
  hk_name :: string
  hk_priority :: int
  hk_handler :: 'h

type_synonym 'h hook_system = "string \<rightharpoonup> 'h hook list"

type_synonym 'h slice_sort = "'h hook list \<Rightarrow> 'h hook list"

text \<open>What \<open>sort.Slice\<close> promises for the comparison of priorities.\<close>

definition sorts_slices :: "'h slice_sort \<Rightarrow> bool" where
  "sorts_slices srt \<longleftrightarrow> (\<forall>hs. mset (srt hs) = mset hs \<and> sorted (map hk_priority (srt hs)))"

definition pre_download_hook :: string where "pre_download_hook = ''pre_download''"
definition post_download_hook :: string where "post_download_hook = ''post_download''"

definition new_hook_system :: "'h hook_system" where
  "new_hook_system = Map.empty"

definition hooks_of :: "'h hook_system \<Rightarrow> string \<Rightarrow> 'h hook list" where
  "hooks_of hs event = (case hs event of None \<Rightarrow> [] | Some l \<Rightarrow> l)"

definition register_with_priority :: "'h slice_sort \<Rightarrow> string \<Rightarrow> 'h \<Rightarrow> int \<Rightarrow> 'h hook_system \<Rightarrow> 'h hook_system" where
  "register_with_priority srt event h prio hs =
     hs(event \<mapsto> srt (hooks_of hs event @ [\<lparr>hk_name = event, hk_priority = prio, hk_handler = h\<rparr>]))"

definition register :: "'h slice_sort \<Rightarrow> string \<Rightarrow> 'h \<Rightarrow> 'h hook_system \<Rightarrow> 'h hook_system" where
  "register srt event h hs = register_with_priority srt event h 0 hs"

fun remove_handler :: "'h \<Rightarrow> 'h hook list \<Rightarrow> 'h hook list option" where
  "remove_handler h [] = None"
| "remove_handler h (k # ks) = (if hk_handler k = h then Some ks else map_option ((#) k) (remove_handler h ks))"

definition unregister :: "string \<Rightarrow> 'h \<Rightarrow> 'h hook_system \<Rightarrow> 'h hook_system" where
  "unregister event h hs = (case remove_handler h (hooks_of hs event) of None \<Rightarrow> hs | Some l \<Rightarrow> hs(event \<mapsto> l))"

text \<open>All hooks run, whatever the others return; the errors are collected in order.\<close>

fun run_hooks :: "('h \<Rightarrow> 's \<Rightarrow> 's \<times> 'e option) \<Rightarrow> 'h hook list \<Rightarrow> 's \<Rightarrow> 's \<times> 'e list" where
  "run_hooks run [] s = (s, [])"
| "run_hooks run (k # ks) s =
     (case run (hk_handler k) s of (s1, e) \<Rightarrow>
        (case run_hooks run ks s1 of (s2, es) \<Rightarrow> (s2, case e of None \<Rightarrow> es | Some x \<Rightarrow> x # es)))"

definition execute :: "('h \<Rightarrow> 's \<Rightarrow> 's \<times> 'e option) \<Rightarrow> string \<Rightarrow> 'h hook_system \<Rightarrow> 's \<Rightarrow> 's \<times> 'e list option" where
  "execute run event hs s =
     (case hooks_of hs event of
        [] \<Rightarrow> (s, None)
      | ks \<Rightarrow> (case run_hooks run ks s of (s1, es) \<Rightarrow> (s1, if es = [] then None else Some es)))"

definition list_hooks :: "string \<Rightarrow> 'h hook_system \<Rightarrow> 'h hook list" where
  "list_hooks event hs = hooks_of hs event"

definition clear_hooks :: "string \<Rightarrow> 'h hook_system \<Rightarrow> 'h hook_system" where
  "clear_hooks event hs = hs(event := None)"

definition clear_all :: "'h hook_system \<Rightarrow> 'h hook_system" where
  "clear_all hs = Map.empty"

datatype 'h hook_op =
    Register string 'h int
  | Unregister string 'h
  | Clear string
  | ClearAll

fun hook_exec :: "'h slice_sort \<Rightarrow> 'h hook_system \<Rightarrow> 'h hook_op \<Rightarrow> 'h hook_system" where
  "hook_exec srt hs (Register event h prio) = register_with_priority srt event h prio hs"
| "hook_exec srt hs (Unregister event h) = unregister event h hs"
| "hook_exec srt hs (Clear event) = clear_hooks event hs"
| "hook_exec srt hs ClearAll = clear_all hs"

text \<open>
  The abstract view: a multiset of handlers with their priorities for each event. Removing a handler takes one with the
  lowest priority among its registrations.
\<close>

type_synonym 'h hook_bag = "string \<Rightarrow> ('h \<times> int) multiset"

definition bag_of :: "'h hook_system \<Rightarrow> 'h hook_bag" where
  "bag_of hs event = mset (map (\<lambda>k. (hk_handler k, hk_priority k)) (hooks_of hs event))"

definition lowest_priority :: "'h \<Rightarrow> ('h \<times> int) multiset \<Rightarrow> int" where
  "lowest_priority h b = Min (snd ` {x \<in> set_mset b. fst x = h})"

fun bag_exec :: "'h hook_bag \<Rightarrow> 'h hook_op \<Rightarrow> 'h hook_bag" where
  "bag_exec b (Register event h prio) = b(event := add_mset (h, prio) (b event))"
| "bag_exec b (Unregister event h) =
     (if h \<in> fst ` set_mset (b event) then b(event := b event - {#(h, lowest_priority h (b event))#}) else b)"
| "bag_exec b (Clear event) = b(event := {#})"
| "bag_exec b ClearAll = (\<lambda>_. {#})"

definition hooks_sorted :: "'h hook_system \<Rightarrow> bool" where
  "hooks_sorted hs \<longleftrightarrow> (\<forall>event. sorted (map hk_priority (hooks_of hs event)))"

lemma hooks_of_update [simp]: "hooks_of (hs(event \<mapsto> l)) e = (if e = event then l else hooks_of hs e)"
    "hooks_of (hs(event := None)) e = (if e = event then [] else hooks_of hs e)" "hooks_of Map.empty e = []"
  by (simp_all add: hooks_of_def)

lemma remove_handler_None: "remove_handler h ks = None \<longleftrightarrow> h \<notin> hk_handler ` set ks"
  by (induction ks) auto

lemma remove_handler_Some:
  "remove_handler h ks = Some l \<Longrightarrow> \<exists>xs k ys. ks = xs @ k # ys \<and> l = xs @ ys \<and> hk_handler k = h \<and> h \<notin> hk_handler ` set xs"
proof (induction ks arbitrary: l)
  case (Cons k ks)
  show ?case
  proof (cases "hk_handler k = h")
    case True
    then show ?thesis using Cons.prems by fastforce
  next
    case False
    then obtain l' where l': "remove_handler h ks = Some l'" "l = k # l'" using Cons.prems by auto
    then obtain xs j ys where j: "ks = xs @ j # ys \<and> l' = xs @ ys \<and> hk_handler j = h \<and> h \<notin> hk_handler ` set xs"
      using Cons.IH by blast
    have "k # ks = (k # xs) @ j # ys \<and> l = (k # xs) @ ys \<and> hk_handler j = h \<and> h \<notin> hk_handler ` set (k # xs)"
      using j l'(2) False by auto
    then show ?thesis by blast
  qed
qed simp

lemma lowest_at_first:
  assumes "sorted (map hk_priority (xs @ k # ys))" "hk_handler k = h" "h \<notin> hk_handler ` set xs"
  shows "lowest_priority h (mset (map (\<lambda>k. (hk_handler k, hk_priority k)) (xs @ k # ys))) = hk_priority k"
  unfolding lowest_priority_def
proof (rule Min_eqI)
  fix p assume "p \<in> snd ` {x \<in> set_mset (mset (map (\<lambda>k. (hk_handler k, hk_priority k)) (xs @ k # ys))). fst x = h}"
  moreover have "\<forall>x \<in> set xs. hk_handler x \<noteq> h" using assms(3) by auto
  ultimately show "hk_priority k \<le> p" using assms(1,2) by (auto simp: sorted_append)
next
  show "hk_priority k \<in> snd ` {x \<in> set_mset (mset (map (\<lambda>k. (hk_handler k, hk_priority k)) (xs @ k # ys))). fst x = h}"
    using assms(2) by force
qed simp

lemma hook_exec_sorted: "sorts_slices srt \<Longrightarrow> hooks_sorted hs \<Longrightarrow> hooks_sorted (hook_exec srt hs x)"
proof (cases x)
  case (Unregister event h)
  assume "hooks_sorted hs"
  then have sorted: "sorted (map hk_priority (hooks_of hs e))" for e by (simp add: hooks_sorted_def)
  show ?thesis
  proof (cases "remove_handler h (hooks_of hs event)")
    case None
    then show ?thesis using sorted by (simp add: Unregister unregister_def hooks_sorted_def)
  next
    case (Some l)
    then have "sorted (map hk_priority l)" using remove_handler_Some sorted [of event] by (fastforce simp: sorted_append)
    with Some show ?thesis using sorted by (simp add: Unregister unregister_def hooks_sorted_def)
  qed
qed (auto simp: hooks_sorted_def sorts_slices_def register_with_priority_def clear_hooks_def clear_all_def)

lemma hook_exec_bag:
  assumes "sorts_slices srt" "hooks_sorted hs"
  shows "bag_of (hook_exec srt hs x) = bag_exec (bag_of hs) x"
proof (cases x)
  case (Register event h prio)
  let ?k = "\<lparr>hk_name = event, hk_priority = prio, hk_handler = h\<rparr>"
  have "mset (srt (hooks_of hs event @ [?k])) = add_mset ?k (mset (hooks_of hs event))"
    using assms(1) by (simp add: sorts_slices_def)
  then have "bag_of (hook_exec srt hs x) event = add_mset (h, prio) (bag_of hs event)"
    unfolding Register hook_exec.simps register_with_priority_def bag_of_def hooks_of_update by simp
  moreover have "bag_of (hook_exec srt hs x) e = bag_of hs e" if "e \<noteq> event" for e
    using that by (simp add: Register register_with_priority_def bag_of_def)
  ultimately show ?thesis by (auto simp: Register)
next
  case (Unregister event h)
  show ?thesis
  proof (cases "remove_handler h (hooks_of hs event)")
    case None
    then have "h \<notin> fst ` set_mset (bag_of hs event)" by (auto simp: remove_handler_None bag_of_def)
    with None show ?thesis by (simp add: Unregister unregister_def)
  next
    case (Some l)
    from remove_handler_Some [OF Some] obtain xs k ys where k: "hooks_of hs event = xs @ k # ys" "l = xs @ ys" "hk_handler k = h" "h \<notin> hk_handler ` set xs"
      by blast
    have "sorted (map hk_priority (xs @ k # ys))" using assms(2) k(1) by (metis hooks_sorted_def)
    from lowest_at_first [OF this k(3,4)] have low: "lowest_priority h (bag_of hs event) = hk_priority k"
      by (simp add: bag_of_def k(1))
    have "h \<in> fst ` set_mset (bag_of hs event)" using k(1,3) by (force simp: bag_of_def)
    then have "bag_exec (bag_of hs) x = (bag_of hs)(event := bag_of hs event - {#(h, hk_priority k)#})" by (simp add: Unregister low)
    moreover have "bag_of (hook_exec srt hs x) e = ((bag_of hs)(event := bag_of hs event - {#(h, hk_priority k)#})) e" for e
      using Some k(1-3) by (cases "e = event") (simp_all add: Unregister unregister_def bag_of_def)
    ultimately show ?thesis by auto
  qed
qed (simp_all add: bag_of_def clear_hooks_def clear_all_def fun_eq_iff)

text \<open>
  C19: Whatever is registered and unregistered in whatever order, the hooks of an event are those of the abstract view, in
  ascending order of their priorities.
\<close>
theorem hooks_refine_bag:
  fixes srt :: "'h slice_sort"
  assumes "sorts_slices srt"
  shows "let hs = foldl (hook_exec srt) new_hook_system ops in
    hooks_sorted hs \<and> bag_of hs = foldl bag_exec (\<lambda>_. {#}) ops"
proof -
  have "hooks_sorted hs \<Longrightarrow> hooks_sorted (foldl (hook_exec srt) hs ops) \<and> bag_of (foldl (hook_exec srt) hs ops) = foldl bag_exec (bag_of hs) ops" for hs
    by (induction ops arbitrary: hs) (simp_all add: hook_exec_sorted [OF assms] hook_exec_bag [OF assms])
  moreover have "hooks_sorted (new_hook_system :: 'h hook_system)" "bag_of (new_hook_system :: 'h hook_system) = (\<lambda>_. {#})"
    by (simp_all add: hooks_sorted_def new_hook_system_def bag_of_def fun_eq_iff)
  ultimately show ?thesis by (simp add: Let_def)
qed

lemma run_hooks_fold: "fst (run_hooks run ks s) = fold (\<lambda>k s. fst (run (hk_handler k) s)) ks s"
  by (induction ks arbitrary: s) (simp_all add: case_prod_beta)

text \<open>A hook that fails does not keep the later ones from running.\<close>

lemma execute_runs_all: "fst (execute run event hs s) = fold (\<lambda>k s. fst (run (hk_handler k) s)) (list_hooks event hs) s"
  using run_hooks_fold [of run "hooks_of hs event" s] by (auto simp: execute_def list_hooks_def case_prod_beta split: list.split)

section \<open>Plugins\<close>

text \<open>A plugin instance has a number of its own.\<close>

record plugin_instance =
  pg_number :: nat
  pg_name :: string
  pg_version :: string

datatype plugin_error = OpenFailed | NoSymbol | NotAPlugin | InitFailed | NotFound | DirFailed

text \<open>What is found in a shared library.\<close>

datatype library = Unreadable | WithoutSymbol | OtherSymbol | Library plugin_instance

type_synonym plugin_loader = "string \<rightharpoonup> plugin_instance"

definition open_library :: "(plugin_instance \<Rightarrow> bool) \<Rightarrow> library \<Rightarrow> plugin_error + plugin_instance" where
  "open_library init lib =
     (case lib of
        Unreadable \<Rightarrow> Inl OpenFailed
      | WithoutSymbol \<Rightarrow> Inl NoSymbol
      | OtherSymbol \<Rightarrow> Inl NotAPlugin
      | Library p \<Rightarrow> if init p then Inr p else Inl InitFailed)"

definition loader_load_file :: "(plugin_instance \<Rightarrow> bool) \<Rightarrow> library \<Rightarrow> plugin_loader \<Rightarrow> plugin_loader \<times> (plugin_error + plugin_instance)" where
  "loader_load_file init lib pl =
     (case open_library init lib of Inl e \<Rightarrow> (pl, Inl e) | Inr p \<Rightarrow> (pl(pg_name p \<mapsto> p), Inr p))"

definition loader_load :: "(plugin_instance \<Rightarrow> bool) \<Rightarrow> plugin_instance \<Rightarrow> plugin_loader \<Rightarrow> plugin_loader \<times> plugin_error option" where
  "loader_load init p pl = (if init p then (pl(pg_name p \<mapsto> p), None) else (pl, Some InitFailed))"

definition loader_get :: "string \<Rightarrow> plugin_loader \<Rightarrow> plugin_instance option" where
  "loader_get name pl = pl name"

definition loader_list :: "string list \<Rightarrow> plugin_loader \<Rightarrow> plugin_instance list" where
  "loader_list ks pl = map_values ks pl"

definition loader_unload :: "string \<Rightarrow> plugin_loader \<Rightarrow> plugin_loader \<times> plugin_error option" where
  "loader_unload name pl = (case pl name of None \<Rightarrow> (pl, Some NotFound) | Some _ \<Rightarrow> (pl(name := None), None))"

record 'h plugin_manager =
  pm_loader :: plugin_loader
  pm_hooks :: "'h hook_system"

definition new_plugin_manager :: "'h plugin_manager" where
  "new_plugin_manager = \<lparr>pm_loader = Map.empty, pm_hooks = new_hook_system\<rparr>"

definition register_hook :: "'h slice_sort \<Rightarrow> string \<Rightarrow> 'h \<Rightarrow> 'h plugin_manager \<Rightarrow> 'h plugin_manager" where
  "register_hook srt event h pm = pm\<lparr>pm_hooks := register srt event h (pm_hooks pm)\<rparr>"

definition execute_pre_download :: "('h \<Rightarrow> 's \<Rightarrow> 's \<times> 'e option) \<Rightarrow> 'h plugin_manager \<Rightarrow> 's \<Rightarrow> 's \<times> 'e list option" where
  "execute_pre_download run pm s = execute run pre_download_hook (pm_hooks pm) s"

definition execute_post_download :: "('h \<Rightarrow> 's \<Rightarrow> 's \<times> 'e option) \<Rightarrow> 'h plugin_manager \<Rightarrow> 's \<Rightarrow> 's \<times> 'e list option" where
  "execute_post_download run pm s = execute run post_download_hook (pm_hooks pm) s"

section \<open>The registry\<close>

text \<open>A factory makes the instance with the given number. \<open>rg_live\<close> holds what was initialised and not closed.\<close>

record registry =
  rg_builtin :: "string \<rightharpoonup> (nat \<Rightarrow> plugin_instance)"
  rg_discovered :: "string \<rightharpoonup> plugin_instance"
  rg_live :: "nat set"
  rg_next :: nat

definition new_registry :: registry where
  "new_registry = \<lparr>rg_builtin = Map.empty, rg_discovered = Map.empty, rg_live = {}, rg_next = 0\<rparr>"

definition register_builtin :: "string \<Rightarrow> (nat \<Rightarrow> plugin_instance) \<Rightarrow> registry \<Rightarrow> registry" where
  "register_builtin name factory r = r\<lparr>rg_builtin := (rg_builtin r)(name \<mapsto> factory)\<rparr>"

definition get_builtin :: "string \<Rightarrow> registry \<Rightarrow> (nat \<Rightarrow> plugin_instance) option" where
  "get_builtin name r = rg_builtin r name"

definition keep_plugin :: "string \<Rightarrow> plugin_instance \<Rightarrow> registry \<Rightarrow> registry" where
  "keep_plugin name p r = r\<lparr>rg_discovered := (rg_discovered r)(name \<mapsto> p), rg_live := insert (pg_number p) (rg_live r)\<rparr>"

definition is_library_name :: "string \<Rightarrow> bool" where
  "is_library_name name \<longleftrightarrow> path_ext name \<in> {''.so'', ''.dll'', ''.dylib''}"

text \<open>The entries of a directory: name, whether it is a directory, and what opening it as a library gives.\<close>

fun discover_entries :: "(plugin_instance \<Rightarrow> bool) \<Rightarrow> (string \<times> bool \<times> library) list \<Rightarrow> registry \<Rightarrow> registry" where
  "discover_entries init [] r = r"
| "discover_entries init ((name, isdir, lib) # es) r =
     (if isdir \<or> \<not> is_library_name name then discover_entries init es r
      else (case open_library init lib of
          Inl _ \<Rightarrow> discover_entries init es r
        | Inr p \<Rightarrow> discover_entries init es (keep_plugin (pg_name p) p r)))"

datatype dir_listing = Missing | Unlistable | Entries "(string \<times> bool \<times> library) list"

definition discover_from_dir :: "(plugin_instance \<Rightarrow> bool) \<Rightarrow> dir_listing \<Rightarrow> registry \<Rightarrow> registry \<times> plugin_error option" where
  "discover_from_dir init dir r =
     (case dir of
        Missing \<Rightarrow> (r, None)
      | Unlistable \<Rightarrow> (r, Some DirFailed)
      | Entries es \<Rightarrow> (discover_entries init es r, None))"

text \<open>A built-in plugin is kept under the name of its factory, not under its own.\<close>

definition load_builtin :: "(plugin_instance \<Rightarrow> bool) \<Rightarrow> string \<Rightarrow> registry \<Rightarrow> registry \<times> (plugin_error + plugin_instance)" where
  "load_builtin init name r =
     (case rg_builtin r name of
        None \<Rightarrow> (r, Inl NotFound)
      | Some factory \<Rightarrow>
          let p = factory (rg_next r); r1 = r\<lparr>rg_next := rg_next r + 1\<rparr> in
          if init p then (keep_plugin name p r1, Inr p) else (r1, Inl InitFailed))"

definition get_discovered :: "string \<Rightarrow> registry \<Rightarrow> plugin_instance option" where
  "get_discovered name r = rg_discovered r name"

definition list_discovered :: "string list \<Rightarrow> registry \<Rightarrow> plugin_instance list" where
  "list_discovered ks r = map_values ks (rg_discovered r)"

text \<open>An error of \<open>Close\<close> is logged only; \<open>closes\<close> is whether the plugin has such a method.\<close>

definition registry_unload :: "(plugin_instance \<Rightarrow> bool) \<Rightarrow> string \<Rightarrow> registry \<Rightarrow> registry \<times> plugin_error option" where
  "registry_unload closes name r =
     (case rg_discovered r name of
        None \<Rightarrow> (r, Some NotFound)
      | Some p \<Rightarrow>
          (r\<lparr>rg_discovered := (rg_discovered r)(name := None), rg_live := (if closes p then rg_live r - {pg_number p} else rg_live r)\<rparr>, None))"

text \<open>
  Loading a plugin under a name that is taken drops the one that was there, which is never closed.
\<close>

lemma replaced_plugin_stays_live:
  assumes "rg_discovered r name = Some p" "pg_number p \<in> rg_live r" "pg_number q \<noteq> pg_number p"
  shows "pg_number p \<in> rg_live (fst (registry_unload closes name (keep_plugin name q r)))"
    "get_discovered name (fst (registry_unload closes name (keep_plugin name q r))) = None"
  using assms by (simp_all add: registry_unload_def keep_plugin_def get_discovered_def)

section \<open>Instance\<close>

definition demo_sort :: "nat hook list \<Rightarrow> nat hook list" where
  "demo_sort = sort_key hk_priority"

lemma demo_sorts: "sorts_slices demo_sort"
  by (simp add: sorts_slices_def demo_sort_def)

theorem hooks_refine_bag_witness:
  "let hs = foldl (hook_exec demo_sort) new_hook_system
     [Register ''pre'' 1 5, Register ''pre'' 2 3, Register ''pre'' 1 (- 2), Unregister ''pre'' 1] in
   hooks_sorted hs \<and> bag_of hs ''pre'' = {#(1, 5), (2, 3)#}"
proof -
  let ?ops = "[Register ''pre'' 1 5, Register ''pre'' 2 3, Register ''pre'' 1 (- 2), Unregister ''pre'' 1] :: nat hook_op list"
  have low: "lowest_priority (1 :: nat) {#(1, - 2), (2, 3), (1, 5)#} = - 2"
  proof -
    have "snd ` {x \<in> set_mset {#(1 :: nat, - 2 :: int), (2, 3), (1, 5)#}. fst x = 1} = {- 2, 5}" by force
    then show ?thesis by (simp add: lowest_priority_def)
  qed
  have "foldl bag_exec (\<lambda>_. {#}) ?ops ''pre'' = {#(1, 5), (2, 3)#}" using low by (simp add: add_mset_commute)
  with hooks_refine_bag [OF demo_sorts, of ?ops] show ?thesis by (simp only: Let_def)
qed

end
