(* ===== verification/Transfers.thy ===== *)
theory Transfers
  imports GoBytes Retry PieceDownload GoUrl GoPath Requests
begin

text \<open>
  The downloads of \<open>downloader/sftp.go\<close>, \<open>s3.go\<close> and \<open>webdav.go\<close>: a size is asked for, a local file is opened, and what a
  reader delivers is written to it from some position on. The clients of the protocols are arguments: what
  they return and what the readers deliver.
\<close>

section \<open>Copying to a file\<close>

text \<open>
  One turn of a copying loop: whether the context has ended before it, the bytes and the end that \<open>Read\<close> returns, and
  the error of \<open>Write\<close>, if there is one, with the number of bytes it wrote before.
\<close>

record copy_event =
  cv_cancelled :: "go_error option"
  cv_data :: "byte list"
  cv_end :: read_end
  cv_write :: "(nat \<times> go_error) option"

text \<open>An open file with the position of its descriptor, and the counter of the download.\<close>

record sink =
  sk_file :: "byte list"
  sk_pos :: nat
  sk_total :: int

definition write_pos :: "nat \<Rightarrow> byte list \<Rightarrow> byte list \<Rightarrow> byte list" where
  "write_pos p bs f = (if bs = [] then f else take p f @ replicate (p - length f) 0 @ bs @ drop (p + length bs) f)"

definition sink_write :: "byte list \<Rightarrow> sink \<Rightarrow> sink" where
  "sink_write bs k = k\<lparr>sk_file := write_pos (sk_pos k) bs (sk_file k), sk_pos := sk_pos k + length bs\<rparr>"

text \<open>The result is nothing while the reader has not ended; otherwise the error, if there is one.\<close>

fun copy_loop :: "string \<Rightarrow> string \<Rightarrow> copy_event list \<Rightarrow> sink \<Rightarrow> sink \<times> go_error option option" where
  "copy_loop wr rd [] k = (k, None)"
| "copy_loop wr rd (ev # evs) k =
     (case cv_cancelled ev of
        Some e \<Rightarrow> (k, Some (Some e))
      | None \<Rightarrow> (case cv_write ev of
          Some (n, e) \<Rightarrow>
            if cv_data ev = [] then
              (case cv_end ev of
                 MoreData \<Rightarrow> copy_loop wr rd evs k
               | EndOfBody \<Rightarrow> (k, Some None)
               | ReadError x \<Rightarrow> (k, Some (Some (Wrapped rd x))))
            else (sink_write (take n (cv_data ev)) k, Some (Some (Wrapped wr e)))
        | None \<Rightarrow>
            let k1 = (sink_write (cv_data ev) k)\<lparr>sk_total := i64 (sk_total k + int (length (cv_data ev)))\<rparr> in
            (case cv_end ev of
               MoreData \<Rightarrow> copy_loop wr rd evs k1
             | EndOfBody \<Rightarrow> (k1, Some None)
             | ReadError x \<Rightarrow> (k1, Some (Some (Wrapped rd x))))))"

text \<open>The bytes a reader has delivered when it ends.\<close>

fun delivered :: "copy_event list \<Rightarrow> byte list" where
  "delivered [] = []"
| "delivered (ev # evs) = cv_data ev @ (case cv_end ev of MoreData \<Rightarrow> delivered evs | _ \<Rightarrow> [])"

text \<open>The local file: nothing if it does not exist.\<close>

type_synonym local_file = "byte list option"

definition local_size :: "local_file \<Rightarrow> int" where
  "local_size f = (case f of None \<Rightarrow> 0 | Some bs \<Rightarrow> int (length bs))"

text \<open>A download ends with what is in the file, the counter, and its result, if it has ended.\<close>

type_synonym transfer = "local_file \<times> int \<times> go_error option option"

definition copied :: "sink \<times> go_error option option \<Rightarrow> transfer" where
  "copied r = (case r of (k, e) \<Rightarrow> (Some (sk_file k), sk_total k, e))"

definition failed :: "local_file \<Rightarrow> int \<Rightarrow> string \<Rightarrow> go_error \<Rightarrow> transfer" where
  "failed f tot label e = (f, tot, Some (Some (Wrapped label e)))"

section \<open>SFTP\<close>

record sftp_config =
  sf_host :: string
  sf_port :: int
  sf_user :: string
  sf_password :: string
  sf_key :: string
  sf_passphrase :: string
  sf_timeout :: duration
  sf_known_hosts :: string

definition no_sftp_config :: sftp_config where
  "no_sftp_config = \<lparr>sf_host = [], sf_port = 0, sf_user = [], sf_password = [], sf_key = [], sf_passphrase = [], sf_timeout = 0, sf_known_hosts = []\<rparr>"

definition is_sftp_url :: "string \<Rightarrow> bool" where
  "is_sftp_url s = has_prefix s ''sftp://''"

text \<open>\<open>URL.Port\<close>.\<close>

definition url_port_text :: "url \<Rightarrow> string" where
  "url_port_text u =
     (if CHR '':'' \<in> set (u_host u) \<and> valid_optional_port (CHR '':'' # after_last CHR '':'' (u_host u))
      then after_last CHR '':'' (u_host u) else [])"

text \<open>\<open>userinfo\<close> are the decoded name and password of the URL.\<close>

definition parse_sftp_url :: "string \<times> string \<Rightarrow> string \<Rightarrow> (sftp_config \<times> string) option" where
  "parse_sftp_url userinfo s =
     (case url_parse s of
        None \<Rightarrow> None
      | Some u \<Rightarrow>
          if u_scheme u \<noteq> ''sftp'' then None
          else
            let p = url_port_text u; port = (if p = [] then 22 else case atoi p of None \<Rightarrow> 22 | Some n \<Rightarrow> n) in
            Some (no_sftp_config\<lparr>sf_host := url_hostname u, sf_port := port, sf_user := fst userinfo, sf_password := snd userinfo,
              sf_timeout := 30 * 1000000000\<rparr>, u_path u))"

text \<open>How host keys are checked, and the ways of authentication in the order in which they are offered.\<close>

datatype host_key_check = KnownHosts string | AcceptAny

definition known_hosts_file :: "string option \<Rightarrow> sftp_config \<Rightarrow> string option" where
  "known_hosts_file home c =
     (if sf_known_hosts c \<noteq> [] then Some (sf_known_hosts c) else map_option (\<lambda>h. path_join h ''.ssh/known_hosts'') home)"

text \<open>\<open>readable\<close> is whether a file exists and is a list of hosts.\<close>

definition host_key_callback :: "string option \<Rightarrow> (string \<Rightarrow> bool) \<Rightarrow> sftp_config \<Rightarrow> host_key_check" where
  "host_key_callback home readable c =
     (case known_hosts_file home c of
        None \<Rightarrow> AcceptAny
      | Some f \<Rightarrow> if readable f then KnownHosts f else AcceptAny)"

datatype auth_method = AuthPassword string | AuthKey string | AuthAgent

definition auth_methods :: "(string \<Rightarrow> string \<Rightarrow> bool) \<Rightarrow> bool \<Rightarrow> sftp_config \<Rightarrow> auth_method list" where
  "auth_methods signer agent c =
     (if sf_password c \<noteq> [] then [AuthPassword (sf_password c)] else []) @
     (if sf_key c \<noteq> [] \<and> signer (sf_key c) (sf_passphrase c) then [AuthKey (sf_key c)] else []) @
     (if agent then [AuthAgent] else [])"

text \<open>The settings of \<open>connect\<close>: those of the URL unless a host was given. The name of the local file.\<close>

definition sftp_settings :: "sftp_config option \<Rightarrow> sftp_config \<Rightarrow> sftp_config" where
  "sftp_settings given url =
     (let c = (case given of None \<Rightarrow> no_sftp_config | Some c \<Rightarrow> c) in if sf_host c = [] then url else c)"

definition sftp_local_path :: "string \<Rightarrow> string \<Rightarrow> string" where
  "sftp_local_path out remote = (if out = [] then path_base remote else out)"

text \<open>What the server does: dial, client, open and stat of the remote file, and the reads.\<close>

record sftp_server =
  ss_dial :: "go_error option"
  ss_client :: "go_error option"
  ss_open :: "string \<Rightarrow> go_error option"
  ss_stat :: "go_error option"
  ss_create :: "go_error option"
  ss_reads :: "copy_event list"

definition sftp_download :: "string \<times> string \<Rightarrow> sftp_server \<Rightarrow> string \<Rightarrow> local_file \<Rightarrow> transfer" where
  "sftp_download userinfo srv url f =
     (case parse_sftp_url userinfo url of
        None \<Rightarrow> (f, 0, Some (Some (Plain ''not an sftp url'')))
      | Some (cfg, path) \<Rightarrow> (case ss_dial srv of
          Some e \<Rightarrow> failed f 0 ''failed to dial ssh'' e
        | None \<Rightarrow> (case ss_client srv of
            Some e \<Rightarrow> failed f 0 ''failed to create sftp client'' e
          | None \<Rightarrow> (case ss_open srv path of
              Some e \<Rightarrow> failed f 0 ''failed to open remote file'' e
            | None \<Rightarrow> (case ss_stat srv of
                Some e \<Rightarrow> failed f 0 ''failed to stat remote file'' e
              | None \<Rightarrow> (case ss_create srv of
                  Some e \<Rightarrow> failed f 0 ''failed to create local file'' e
                | None \<Rightarrow> copied (copy_loop ''failed to write to local file'' ''failed to read remote file'' (ss_reads srv)
                    \<lparr>sk_file = [], sk_pos = 0, sk_total = 0\<rparr>)))))))"

section \<open>S3\<close>

definition is_s3_url :: "string \<Rightarrow> bool" where
  "is_s3_url s = has_prefix s ''s3://''"

definition parse_s3_url :: "string \<Rightarrow> (string \<times> string) option" where
  "parse_s3_url s =
     (if \<not> is_s3_url s then None
      else let r = drop 5 s in
        if CHR ''/'' \<notin> set r then None
        else if before CHR ''/'' r = [] \<or> after CHR ''/'' r = [] then None
        else Some (before CHR ''/'' r, after CHR ''/'' r))"

text \<open>The region and the fixed keys that the environment gives.\<close>

definition aws_settings :: "(string \<Rightarrow> string) \<Rightarrow> string \<times> (string \<times> string) option" where
  "aws_settings env =
     (let key = env ''AWS_ACCESS_KEY_ID''; secret = env ''AWS_SECRET_ACCESS_KEY'' in
      (if env ''AWS_REGION'' = [] then ''us-east-1'' else env ''AWS_REGION'',
       if key \<noteq> [] \<and> secret \<noteq> [] then Some (key, secret) else None))"

text \<open>\<open>SetURL\<close> does not look at the error: bucket and key are empty then.\<close>

definition s3_set_url :: "string \<Rightarrow> string \<times> string" where
  "s3_set_url s = (case parse_s3_url s of None \<Rightarrow> ([], []) | Some bk \<Rightarrow> bk)"

text \<open>Decimal digits as an \<open>int64\<close>, which wraps.\<close>

definition wrapping_digits :: "string \<Rightarrow> int" where
  "wrapping_digits s = foldl (\<lambda>n c. i64 (n * 10 + int (digit_value c))) 0 s"

definition parse_content_range_total :: "string \<Rightarrow> int option" where
  "parse_content_range_total s = (if s = [] \<or> s = ''*'' \<or> \<not> list_all is_digit s then None else Some (wrapping_digits s))"

record s3_answer =
  sa_range :: "string option"
  sa_reads :: "copy_event list"

text \<open>\<open>sv_get\<close> is given the \<open>Range\<close> header, if one is sent.\<close>

record s3_server =
  sv_head :: "go_error + int option"
  sv_get :: "string option \<Rightarrow> go_error + s3_answer"
  sv_mkdir :: "go_error option"
  sv_open :: "go_error option"
  sv_seek :: "go_error option"

definition range_from :: "int \<Rightarrow> string" where
  "range_from k = ''bytes='' @ show_int k @ ''-''"

definition range_total :: "string option \<Rightarrow> int option" where
  "range_total cr =
     (case cr of
        None \<Rightarrow> None
      | Some r \<Rightarrow>
          if \<not> has_prefix r ''bytes '' then None
          else (case split_on CHR ''/'' r of [a, b] \<Rightarrow> if b = ''*'' then None else parse_content_range_total b | _ \<Rightarrow> None))"

text \<open>The size of the object is zero if the head does not tell it.\<close>

definition s3_download :: "s3_server \<Rightarrow> local_file \<Rightarrow> transfer" where
  "s3_download srv f =
     (case sv_head srv of
        Inl e \<Rightarrow> failed f 0 ''head object'' e
      | Inr len \<Rightarrow>
          let n = (case len of None \<Rightarrow> 0 | Some x \<Rightarrow> x); k = local_size f in
          if k = n \<and> n > 0 then (f, n, Some None)
          else (case sv_mkdir srv of
            Some e \<Rightarrow> failed f 0 ''create output directory'' e
          | None \<Rightarrow> (case sv_open srv of
              Some e \<Rightarrow> failed f 0 (if k > 0 then ''open output file'' else ''create output file'') e
            | None \<Rightarrow>
                let f1 = (if k > 0 then f else Some []) in
                (case (if k > 0 then sv_seek srv else None) of
                   Some e \<Rightarrow> failed f1 0 ''seek to end of file'' e
                 | None \<Rightarrow>
                     let resume = k > 0 \<and> k < n; tot = (if resume then k else 0) in
                     (case sv_get srv (if resume then Some (range_from k) else None) of
                        Inl e \<Rightarrow> failed f1 tot ''get object'' e
                      | Inr a \<Rightarrow>
                          (case range_total (sa_range a) of
                             Some t \<Rightarrow>
                               if k = t \<and> t > 0 then (f1, t, Some None)
                               else copied (copy_loop ''write file'' ''read object'' (sa_reads a)
                                 \<lparr>sk_file = the f1, sk_pos = length (the f1), sk_total = tot\<rparr>)
                           | None \<Rightarrow> copied (copy_loop ''write file'' ''read object'' (sa_reads a)
                               \<lparr>sk_file = the f1, sk_pos = length (the f1), sk_total = tot\<rparr>)))))))"

text \<open>\<open>GetFileInfo\<close>: unlike a download it needs the length. \<open>conf\<close> is the error of loading the settings.\<close>

definition s3_file_info :: "go_error option \<Rightarrow> s3_server \<Rightarrow> string \<Rightarrow> go_error + int" where
  "s3_file_info conf srv url =
     (if parse_s3_url url = None then Inl (Plain ''parse S3 URL'')
      else case conf of
        Some e \<Rightarrow> Inl (Wrapped ''load AWS config'' e)
      | None \<Rightarrow> (case sv_head srv of
          Inl e \<Rightarrow> Inl (Wrapped ''head object'' e)
        | Inr None \<Rightarrow> Inl (Plain ''content length not available'')
        | Inr (Some n) \<Rightarrow> Inr n))"

section \<open>WebDAV\<close>

definition is_webdav_url :: "string \<Rightarrow> bool" where
  "is_webdav_url s \<longleftrightarrow> has_prefix s ''webdav://'' \<or> has_prefix s ''webdavs://''"

text \<open>The URL to ask, and the path.\<close>

definition parse_webdav_url :: "string \<Rightarrow> (string \<times> string) option" where
  "parse_webdav_url s =
     (if \<not> is_webdav_url s then None
      else
        let tls = has_prefix s ''webdavs://''; r = (if tls then drop 10 s else drop 9 s);
            host = before CHR ''/'' r; path = (if CHR ''/'' \<in> set r then CHR ''/'' # after CHR ''/'' r else ''/'');
            host = (if CHR '':'' \<in> set host then host else host @ (if tls then '':443'' else '':80''))
        in Some ((if tls then ''https://'' else ''http://'') @ host @ path, path))"

text \<open>The text from the first occurrence of \<open>p\<close> on.\<close>

fun from_first :: "string \<Rightarrow> string \<Rightarrow> string option" where
  "from_first p [] = (if p = [] then Some [] else None)"
| "from_first p (c # cs) = (if has_prefix (c # cs) p then Some (c # cs) else from_first p cs)"

definition parse_propfind :: "string \<Rightarrow> string + int" where
  "parse_propfind body =
     (case (case from_first ''<D:getcontentlength>'' body of
              None \<Rightarrow> from_first ''<d:getcontentlength>'' body | Some t \<Rightarrow> Some t) of
        None \<Rightarrow> Inl ''content length not found in response''
      | Some t \<Rightarrow>
          let v = drop 20 t in
          if CHR ''<'' \<notin> set v then Inl ''invalid XML response''
          else let digits = trim_space (before CHR ''<'' v) in
            if \<not> list_all is_digit digits then Inl (''invalid size value: '' @ digits) else Inr (wrapping_digits digits))"

text \<open>An answer: status and body. The body of the size probe is a text, or an error of reading it.\<close>

record webdav_server =
  wv_propfind :: "go_error + int \<times> (go_error + string)"
  wv_get :: "string option \<Rightarrow> go_error + int \<times> copy_event list"
  wv_mkdir :: "go_error option"
  wv_open :: "go_error option"
  wv_truncate :: "go_error option"

definition webdav_size :: "webdav_server \<Rightarrow> string \<Rightarrow> string \<Rightarrow> go_error + int" where
  "webdav_size srv user pass =
     (case wv_propfind srv of
        Inl e \<Rightarrow> Inl (Wrapped ''PROPFIND request failed'' e)
      | Inr (code, body) \<Rightarrow>
          if code = 401
          then Inl (Plain (if user = [] \<or> pass = [] then ''WebDAV server requires authentication'' else ''WebDAV authentication failed''))
          else if code \<noteq> 207 \<and> code \<noteq> 200 then Inl (Plain (''PROPFIND returned status: '' @ show_int code))
          else (case body of
              Inl e \<Rightarrow> Inl (Wrapped ''read response body'' e)
            | Inr t \<Rightarrow> (case parse_propfind t of Inl m \<Rightarrow> Inl (Wrapped ''parse PROPFIND response'' (Plain m)) | Inr n \<Rightarrow> Inr n)))"

text \<open>The header for the credentials.\<close>

definition webdav_auth :: "string \<Rightarrow> string \<Rightarrow> string option" where
  "webdav_auth user pass = (if user = [] then None else Some (basic_auth user pass))"

text \<open>The file is opened with its position at the start, and stays there when the download is resumed.\<close>

definition webdav_download :: "webdav_server \<Rightarrow> string \<Rightarrow> string \<Rightarrow> local_file \<Rightarrow> transfer" where
  "webdav_download srv user pass f =
     (case webdav_size srv user pass of
        Inl e \<Rightarrow> failed f 0 ''get file size'' e
      | Inr n \<Rightarrow>
          let k = local_size f in
          if k = n \<and> n > 0 then (f, n, Some None)
          else (case wv_mkdir srv of
            Some e \<Rightarrow> failed f 0 ''create output directory'' e
          | None \<Rightarrow> (case wv_open srv of
              Some e \<Rightarrow> failed f 0 (if k > 0 then ''open output file'' else ''create output file'') e
            | None \<Rightarrow>
                let f1 = (if k > 0 then f else Some []); resume = k > 0 \<and> k < n; tot = (if resume then k else 0) in
                (case wv_get srv (if resume then Some (range_from k) else None) of
                   Inl e \<Rightarrow> failed f1 tot ''GET request failed'' e
                 | Inr (code, reads) \<Rightarrow>
                     if code = 401 then (f1, tot, Some (Some (Plain ''WebDAV authentication failed'')))
                     else if code \<noteq> 200 \<and> code \<noteq> 206 then (f1, tot, Some (Some (Plain (''GET returned status: '' @ show_int code))))
                     else if k > 0 \<and> code = 200 then
                       (case wv_truncate srv of
                          Some e \<Rightarrow> failed f1 tot ''truncate file'' e
                        | None \<Rightarrow> copied (copy_loop ''write file'' ''read response'' reads \<lparr>sk_file = [], sk_pos = 0, sk_total = 0\<rparr>))
                     else copied (copy_loop ''write file'' ''read response'' reads \<lparr>sk_file = the f1, sk_pos = 0, sk_total = tot\<rparr>)))))"

end
