(* ===== verification/Ftp.thy ===== *)
theory Ftp
  imports Transfers
begin

text \<open>
  The FTP client and downloader, \<open>downloader/ftp.go\<close>. The control connection delivers chunks of text; every reading
  of a response starts with an empty buffer and drops what it has read beyond its lines. What a data
  connection delivers may depend on the commands sent so far. A slice out of range panics, which ends the process.
\<close>

section \<open>Responses\<close>

definition line_end :: char where
  "line_end = CHR 0x0A"

definition strip_cr :: "string \<Rightarrow> string" where
  "strip_cr l = (if l \<noteq> [] \<and> last l = CHR 0x0D then butlast l else l)"

text \<open>\<open>ReadLine\<close>: the line, the rest of the buffer and the chunks that are left. At the end a partial line counts.\<close>

fun read_line :: "string \<Rightarrow> string list \<Rightarrow> (string \<times> string \<times> string list) option" where
  "read_line buf [] =
     (if line_end \<in> set buf then Some (strip_cr (before line_end buf), after line_end buf, [])
      else if buf = [] then None else Some (buf, [], []))"
| "read_line buf (c # cs) =
     (if line_end \<in> set buf then Some (strip_cr (before line_end buf), after line_end buf, c # cs)
      else read_line (buf @ c) cs)"

datatype 'a ftp_result = FtpOk 'a | FtpError go_error | FtpPanic

text \<open>The lines that follow the first one of a long response.\<close>

function more_lines :: "string \<Rightarrow> string \<Rightarrow> string \<Rightarrow> string list \<Rightarrow> string ftp_result \<times> string list" where
  "more_lines code msg buf cs =
     (case read_line buf cs of
        None \<Rightarrow> (FtpError (Plain ''EOF''), [])
      | Some (l, buf1, cs1) \<Rightarrow>
          if length l \<ge> 4 \<and> take 3 l = code \<and> l ! 3 = CHR '' '' then (FtpOk (drop 4 l), cs1)
          else more_lines code (msg @ line_end # l) buf1 cs1)"
  by pat_completeness auto

lemma read_line_shrinks:
  "read_line buf cs = Some (l, buf1, cs1) \<Longrightarrow> length buf1 + length (concat cs1) < length buf + length (concat cs)"
proof (induction buf cs rule: read_line.induct)
  case (1 buf)
  have "line_end \<in> set buf \<Longrightarrow> length (after line_end buf) < length buf"
    by (induction buf) (auto simp: after_def)
  with 1 show ?case by (auto split: if_splits)
next
  case (2 buf c cs)
  have "line_end \<in> set buf \<Longrightarrow> length (after line_end buf) < length buf"
    by (induction buf) (auto simp: after_def)
  with 2 show ?case by (auto split: if_splits)
qed

termination more_lines
  by (relation "measure (\<lambda>(code, msg, buf, cs). length buf + length (concat cs))") (auto dest: read_line_shrinks)

declare more_lines.simps [simp del]

definition read_response :: "string list \<Rightarrow> (int \<times> string) ftp_result \<times> string list" where
  "read_response cs =
     (case read_line [] cs of
        None \<Rightarrow> (FtpError (Plain ''EOF''), [])
      | Some (l, buf, cs1) \<Rightarrow>
          if length l < 3 then (FtpError (Plain (''invalid response: '' @ l)), cs1)
          else (case atoi (take 3 l) of
            None \<Rightarrow> (FtpError (Plain (''invalid response code: '' @ take 3 l)), cs1)
          | Some code \<Rightarrow>
              if length l = 3 then (FtpPanic, cs1)
              else if length l > 4 \<and> l ! 3 = CHR ''-'' then
                (case more_lines (take 3 l) (drop 4 l) buf cs1 of
                   (FtpOk m, cs2) \<Rightarrow> (FtpOk (code, m), cs2)
                 | (FtpError e, cs2) \<Rightarrow> (FtpError e, cs2)
                 | (FtpPanic, cs2) \<Rightarrow> (FtpPanic, cs2))
              else (FtpOk (code, drop 4 l), cs1)))"

section \<open>The client\<close>

text \<open>\<open>fc_writes\<close> are the outcomes of the writes of commands; missing ones succeed.\<close>

record ftp_client =
  fc_host :: string
  fc_port :: string
  fc_user :: string
  fc_password :: string
  fc_tls :: bool
  fc_passive :: bool
  fc_type :: string
  fc_open :: bool
  fc_in :: "string list"
  fc_sent :: "string list"
  fc_writes :: "go_error option list"

definition default_port :: "bool \<Rightarrow> string" where
  "default_port tls = (if tls then ''990'' else ''21'')"

definition new_ftp_client :: "string \<Rightarrow> string \<Rightarrow> string \<Rightarrow> string \<Rightarrow> bool \<Rightarrow> bool \<Rightarrow> ftp_client" where
  "new_ftp_client host port user pass tls passive =
     \<lparr>fc_host = host, fc_port = (if port = [] then default_port tls else port),
      fc_user = (if user = [] then ''anonymous'' else user), fc_password = (if pass = [] then ''anonymous@'' else pass),
      fc_tls = tls, fc_passive = passive, fc_type = ''binary'', fc_open = False, fc_in = [], fc_sent = [], fc_writes = []\<rparr>"

type_synonym 'a ftp = "ftp_client \<Rightarrow> ftp_client \<times> 'a ftp_result"

definition ftp_bind :: "'a ftp \<Rightarrow> ('a \<Rightarrow> 'b ftp) \<Rightarrow> 'b ftp" where
  "ftp_bind m f c =
     (case m c of
        (c1, FtpOk x) \<Rightarrow> f x c1
      | (c1, FtpError e) \<Rightarrow> (c1, FtpError e)
      | (c1, FtpPanic) \<Rightarrow> (c1, FtpPanic))"

definition ftp_return :: "'a \<Rightarrow> 'a ftp" where
  "ftp_return x c = (c, FtpOk x)"

definition ftp_fail :: "go_error \<Rightarrow> 'a ftp" where
  "ftp_fail e c = (c, FtpError e)"

text \<open>Errors of \<open>m\<close> get the label.\<close>

definition ftp_label :: "string \<Rightarrow> 'a ftp \<Rightarrow> 'a ftp" where
  "ftp_label label m c = (case m c of (c1, FtpError e) \<Rightarrow> (c1, FtpError (Wrapped label e)) | r \<Rightarrow> r)"

definition client_read :: "(int \<times> string) ftp" where
  "client_read c = (case read_response (fc_in c) of (r, cs) \<Rightarrow> (c\<lparr>fc_in := cs\<rparr>, r))"

definition send_command :: "string \<Rightarrow> (int \<times> string) ftp" where
  "send_command cmd c =
     (let c1 = c\<lparr>fc_writes := tl (fc_writes c)\<rparr> in
      case (case fc_writes c of [] \<Rightarrow> None | w # _ \<Rightarrow> w) of
        Some e \<Rightarrow> (c1, FtpError e)
      | None \<Rightarrow> client_read (c1\<lparr>fc_sent := fc_sent c @ [cmd]\<rparr>))"

text \<open>\<open>dial\<close> gives the error, or what the control connection will deliver. Whatever the greeting says, it is accepted.\<close>

definition ftp_connect :: "go_error + string list \<Rightarrow> unit ftp" where
  "ftp_connect dial c =
     (case dial of
        Inl e \<Rightarrow> (c, FtpError (Wrapped (if fc_tls c then ''TLS connection failed'' else ''TCP connection failed'') e))
      | Inr cs \<Rightarrow> ftp_bind (ftp_label ''connection failed'' client_read) (\<lambda>_. ftp_return ()) (c\<lparr>fc_open := True, fc_in := cs\<rparr>))"

definition ftp_login :: "string \<Rightarrow> string \<Rightarrow> unit ftp" where
  "ftp_login user pass c =
     (let user = (if user = [] then fc_user c else user); pass = (if pass = [] then fc_password c else pass) in
      ftp_bind (ftp_label ''USER command failed'' (send_command (''USER '' @ user))) (\<lambda>r.
      ftp_bind (if fst r = 331 then ftp_label ''PASS command failed'' (send_command (''PASS '' @ pass)) else ftp_return r) (\<lambda>r.
        if fst r \<noteq> 230 \<and> fst r \<noteq> 202 then ftp_fail (Plain (''login failed with code: '' @ show_int (fst r)))
        else ftp_bind (ftp_label ''TYPE command failed'' (send_command (''TYPE '' @ fc_type c))) (\<lambda>_. ftp_return ()))) c)"

definition ftp_size :: "string \<Rightarrow> int ftp" where
  "ftp_size path =
     ftp_bind (ftp_label ''SIZE command failed'' (send_command (''SIZE '' @ path))) (\<lambda>(code, msg).
       if code \<noteq> 213 then ftp_fail (Plain (''SIZE command returned: '' @ show_int code @ '' '' @ msg))
       else (case atoi msg of
         None \<Rightarrow> ftp_fail (Plain ''parse size failed'')
       | Some n \<Rightarrow> ftp_return n))"

section \<open>Data connections\<close>

text \<open>The value \<open>Atoi\<close> gives when its error is dropped: the nearest integer of 64 bits, 0 for what is no number.\<close>

definition atoi_value :: "string \<Rightarrow> int" where
  "atoi_value s =
     (case (case s of
          [] \<Rightarrow> None
        | c # cs \<Rightarrow> if c = CHR ''-'' then map_option uminus (atoi_digits cs)
                    else if c = CHR ''+'' then atoi_digits cs else atoi_digits s) of
        None \<Rightarrow> 0
      | Some n \<Rightarrow> max (- (2 ^ 63)) (min (2 ^ 63 - 1) n))"

lemma atoi_value_Some: "atoi s = Some n \<Longrightarrow> atoi_value s = n"
  by (auto simp: atoi_def atoi_value_def in_i64_def Let_def split: option.splits if_splits)

text \<open>A slice \<open>response[start+1:end]\<close> panics when the parentheses are in the wrong order.\<close>

definition parse_pasv :: "string \<Rightarrow> (string \<times> int) ftp_result" where
  "parse_pasv r =
     (if CHR ''('' \<notin> set r \<or> CHR '')'' \<notin> set r then FtpError (Plain (''invalid PASV response: '' @ r))
      else if length (before CHR '')'' r) < length (before CHR ''('' r) + 1 then FtpPanic
      else
        (case split_on CHR '','' (drop (length (before CHR ''('' r) + 1) (before CHR '')'' r)) of
           [h1, h2, h3, h4, p1, p2] \<Rightarrow>
             let n = atoi_value in
             FtpOk (show_int (n h1) @ ''.'' @ show_int (n h2) @ ''.'' @ show_int (n h3) @ ''.'' @ show_int (n h4),
               i64 (i64 (n p1 * 256) + n p2))
         | _ \<Rightarrow> FtpError (Plain (''invalid PASV response: '' @ r))))"

text \<open>
  The network: whether a data connection can be dialled, the address of a listener in active mode, whether the
  server connects to it, and what the data connection delivers after the given commands.
\<close>

record ftp_net =
  fn_dial :: "string \<Rightarrow> int \<Rightarrow> go_error option"
  fn_listen :: "go_error + string \<times> int"
  fn_accept :: "go_error option"
  fn_data :: "string list \<Rightarrow> copy_event list"

text \<open>The commands both modes share: the offset, then the file.\<close>

definition rest_and_retr :: "string \<Rightarrow> int \<Rightarrow> unit ftp" where
  "rest_and_retr path offset =
     ftp_bind
       (if offset > 0 then
          ftp_bind (ftp_label ''REST command failed'' (send_command (''REST '' @ show_int offset))) (\<lambda>r.
            if fst r \<noteq> 350 then ftp_fail (Plain (''REST command returned: '' @ show_int (fst r))) else ftp_return ())
        else ftp_return ())
       (\<lambda>_. ftp_bind (ftp_label ''RETR command failed'' (send_command (''RETR '' @ path))) (\<lambda>r.
          if fst r \<noteq> 125 \<and> fst r \<noteq> 150 then ftp_fail (Plain (''RETR command returned: '' @ show_int (fst r))) else ftp_return ()))"

definition retr_passive :: "ftp_net \<Rightarrow> string \<Rightarrow> int \<Rightarrow> copy_event list ftp" where
  "retr_passive net path offset =
     ftp_bind (ftp_label ''PASV command failed'' (send_command ''PASV'')) (\<lambda>(code, msg).
       if code \<noteq> 227 then ftp_fail (Plain (''PASV command returned: '' @ show_int code @ '' '' @ msg))
       else (\<lambda>c. case parse_pasv msg of
          FtpPanic \<Rightarrow> (c, FtpPanic)
        | FtpError e \<Rightarrow> (c, FtpError (Wrapped ''parse PASV response'' e))
        | FtpOk (host, port) \<Rightarrow> (case fn_dial net host port of
            Some e \<Rightarrow> (c, FtpError (Wrapped (if fc_tls c then ''data TLS connection failed'' else ''data connection failed'') e))
          | None \<Rightarrow> ftp_bind (rest_and_retr path offset) (\<lambda>_ c. (c, FtpOk (fn_data net (fc_sent c)))) c)))"

definition port_command :: "string \<Rightarrow> int \<Rightarrow> string" where
  "port_command ip port =
     ''PORT '' @ map (\<lambda>ch. if ch = CHR ''.'' then CHR '','' else ch) ip @ '','' @ show_int (port div 256) @ '','' @ show_int (port mod 256)"

definition retr_active :: "ftp_net \<Rightarrow> string \<Rightarrow> int \<Rightarrow> copy_event list ftp" where
  "retr_active net path offset =
     (case fn_listen net of
        Inl e \<Rightarrow> ftp_fail (Wrapped ''listen for data connection'' e)
      | Inr (ip, port) \<Rightarrow>
          ftp_bind (ftp_label ''PORT command failed'' (send_command (port_command ip port))) (\<lambda>r.
            if fst r \<noteq> 200 then ftp_fail (Plain (''PORT command returned: '' @ show_int (fst r)))
            else ftp_bind (rest_and_retr path offset) (\<lambda>_. case fn_accept net of
                Some e \<Rightarrow> ftp_fail (Wrapped ''accept data connection'' e)
              | None \<Rightarrow> (\<lambda>c. (c, FtpOk (fn_data net (fc_sent c)))))))"

definition ftp_retr :: "ftp_net \<Rightarrow> string \<Rightarrow> int \<Rightarrow> copy_event list ftp" where
  "ftp_retr net path offset c = (if fc_passive c then retr_passive net path offset c else retr_active net path offset c)"

text \<open>Errors of \<open>QUIT\<close> are ignored, a panic is not.\<close>

definition ftp_quit :: "unit ftp" where
  "ftp_quit c =
     (if \<not> fc_open c then (c, FtpOk ())
      else (case send_command ''QUIT'' c of
        (c1, FtpPanic) \<Rightarrow> (c1, FtpPanic)
      | (c1, _) \<Rightarrow> (c1\<lparr>fc_open := False\<rparr>, FtpOk ())))"

section \<open>Addresses\<close>

record parsed_ftp =
  pf_scheme :: string
  pf_host :: string
  pf_port :: string
  pf_user :: string
  pf_password :: string
  pf_path :: string
  pf_tls :: bool
  pf_passive :: string

text \<open>Credentials end at the first \<open>@\<close> of the whole rest of the text.\<close>

definition ftp_credentials :: "string \<Rightarrow> string \<times> string \<times> string" where
  "ftp_credentials s =
     (if CHR ''@'' \<in> set s then
        (let cr = before CHR ''@'' s; rest = after CHR ''@'' s in
         if CHR '':'' \<in> set cr then (before CHR '':'' cr, after CHR '':'' cr, rest) else (cr, [], rest))
      else ([], [], s))"

definition ftp_host_port :: "string \<Rightarrow> (string \<times> string) option" where
  "ftp_host_port hp =
     (if has_prefix hp ''['' then
        (if CHR '']'' \<notin> set hp then None
         else let rest = after CHR '']'' hp in
           Some (tl (before CHR '']'' hp), if has_prefix rest '':'' then tl rest else []))
      else if CHR '':'' \<in> set hp then Some (before CHR '':'' hp, after CHR '':'' hp)
      else Some (hp, []))"

text \<open>The parameters between the first and the second question mark; the path keeps them.\<close>

definition ftp_param :: "string \<Rightarrow> parsed_ftp \<Rightarrow> parsed_ftp" where
  "ftp_param p u =
     (case split_on CHR ''='' p of
        [k, v] \<Rightarrow> if k = ''passive'' then u\<lparr>pf_passive := v\<rparr> else if k = ''tls'' \<and> v = ''true'' then u\<lparr>pf_tls := True\<rparr> else u
      | _ \<Rightarrow> u)"

definition parse_ftp_url :: "string \<Rightarrow> parsed_ftp option" where
  "parse_ftp_url s =
     (if \<not> has_prefix s ''ftps://'' \<and> \<not> has_prefix s ''ftp://'' then None
      else
        let tls = has_prefix s ''ftps://''; r = (if tls then drop 7 s else drop 6 s) in
        case ftp_credentials r of (user, pass, rest) \<Rightarrow>
          let path = (if CHR ''/'' \<in> set rest then CHR ''/'' # after CHR ''/'' rest else ''/'') in
          (case ftp_host_port (before CHR ''/'' rest) of
             None \<Rightarrow> None
           | Some (host, port) \<Rightarrow>
               let u = \<lparr>pf_scheme = (if tls then ''ftps'' else ''ftp''), pf_host = host, pf_port = (if port = [] then default_port tls else port),
                     pf_user = user, pf_password = pass, pf_path = path, pf_tls = tls, pf_passive = []\<rparr>
               in Some (if CHR ''?'' \<in> set path then fold ftp_param (split_on CHR ''&'' (split_on CHR ''?'' path ! 1)) u else u)))"

definition is_ftp_url :: "string \<Rightarrow> bool" where
  "is_ftp_url s \<longleftrightarrow> has_prefix s ''ftp://'' \<or> has_prefix s ''ftps://''"

definition ftp_client_of :: "parsed_ftp \<Rightarrow> ftp_client" where
  "ftp_client_of u = new_ftp_client (pf_host u) (pf_port u) (pf_user u) (pf_password u) (pf_tls u) (pf_passive u = [] \<or> pf_passive u = ''passive'')"

definition new_ftp_downloader :: "string \<Rightarrow> ftp_client option" where
  "new_ftp_downloader url = map_option ftp_client_of (parse_ftp_url url)"

section \<open>Downloads\<close>

text \<open>The state of a download besides the client: the local file and the counter.\<close>

datatype ftp_end = FtpRunning | FtpReturned "go_error option" | FtpCrashed

record ftp_outcome =
  fo_client :: ftp_client
  fo_file :: local_file
  fo_total :: int
  fo_end :: ftp_end

text \<open>\<open>Quit\<close> is deferred: it runs whatever the result is, and its panic replaces the result.\<close>

definition with_quit :: "ftp_outcome \<Rightarrow> ftp_outcome" where
  "with_quit o' =
     (case fo_end o' of
        FtpReturned r \<Rightarrow> (case ftp_quit (fo_client o') of
            (c, FtpPanic) \<Rightarrow> o'\<lparr>fo_client := c, fo_end := FtpCrashed\<rparr>
          | (c, _) \<Rightarrow> o'\<lparr>fo_client := c\<rparr>)
      | _ \<Rightarrow> o')"

definition outcome :: "ftp_client \<Rightarrow> local_file \<Rightarrow> int \<Rightarrow> ftp_end \<Rightarrow> ftp_outcome" where
  "outcome c f tot e = \<lparr>fo_client = c, fo_file = f, fo_total = tot, fo_end = e\<rparr>"

text \<open>The outcome of a step that has failed or panicked.\<close>

definition ftp_stop :: "string \<Rightarrow> ftp_client \<Rightarrow> local_file \<Rightarrow> int \<Rightarrow> 'a ftp_result \<Rightarrow> ftp_outcome" where
  "ftp_stop label c f tot r =
     outcome c f tot (case r of FtpError e \<Rightarrow> FtpReturned (Some (Wrapped label e)) | _ \<Rightarrow> FtpCrashed)"

text \<open>From the size on, without \<open>Quit\<close>. \<open>opened\<close> is the error of opening the file, \<open>seek\<close> that of seeking.\<close>

definition ftp_fetch :: "ftp_net \<Rightarrow> go_error option \<Rightarrow> go_error option \<Rightarrow> string \<Rightarrow> int \<Rightarrow> local_file \<Rightarrow> ftp_client \<Rightarrow> ftp_outcome" where
  "ftp_fetch net opened seek path n f c =
     (let k = local_size f in
      if k = n \<and> n > 0 then outcome c f n (FtpReturned None)
      else case opened of
        Some e \<Rightarrow> outcome c f 0 (FtpReturned (Some (Wrapped (if k > 0 then ''open output file'' else ''create output file'') e)))
      | None \<Rightarrow>
          let f1 = (if k > 0 then f else Some []) in
          (case (if k > 0 then seek else None) of
             Some e \<Rightarrow> outcome c f1 0 (FtpReturned (Some (Wrapped ''seek file'' e)))
           | None \<Rightarrow> (case ftp_retr net path k c of
               (c1, FtpOk reads) \<Rightarrow>
                 (case copy_loop ''write file'' ''read data'' reads \<lparr>sk_file = the f1, sk_pos = nat k, sk_total = k\<rparr> of
                    (s, e) \<Rightarrow> outcome c1 (Some (sk_file s)) (sk_total s)
                      (case e of None \<Rightarrow> FtpRunning | Some r \<Rightarrow> FtpReturned r))
             | (c1, r) \<Rightarrow> ftp_stop ''RETR command failed'' c1 f1 k r)))"

definition ftp_download :: "ftp_net \<Rightarrow> go_error + string list \<Rightarrow> go_error option \<Rightarrow> go_error option \<Rightarrow> string \<Rightarrow> ftp_client \<Rightarrow> local_file \<Rightarrow> ftp_outcome" where
  "ftp_download net dial opened seek url c f =
     (case ftp_connect dial c of
        (c1, FtpOk _) \<Rightarrow> with_quit
          (case ftp_login (fc_user c1) (fc_password c1) c1 of
             (c2, FtpOk _) \<Rightarrow> (case parse_ftp_url url of
                 None \<Rightarrow> outcome c2 f 0 (FtpReturned (Some (Plain ''parse URL'')))
               | Some u \<Rightarrow> (case ftp_size (pf_path u) c2 of
                   (c3, FtpOk n) \<Rightarrow> ftp_fetch net opened seek (pf_path u) n f c3
                 | (c3, r) \<Rightarrow> ftp_stop ''get file size'' c3 f 0 r))
           | (c2, r) \<Rightarrow> ftp_stop ''FTP login failed'' c2 f 0 r)
      | (c1, r) \<Rightarrow> ftp_stop ''FTP connect failed'' c1 f 0 r)"

text \<open>\<open>GetFileInfo\<close> of the protocol handler: \<open>Quit\<close> runs before the result is given.\<close>

definition ftp_file_info :: "go_error + string list \<Rightarrow> string \<Rightarrow> int ftp_result" where
  "ftp_file_info dial url =
     (case parse_ftp_url url of
        None \<Rightarrow> FtpError (Plain ''parse FTP URL'')
      | Some u \<Rightarrow> (case ftp_label ''FTP connect failed'' (ftp_connect dial) (ftp_client_of u) of
          (c1, FtpOk _) \<Rightarrow>
            (case ftp_bind (ftp_label ''FTP login failed'' (ftp_login (pf_user u) (pf_password u))) (\<lambda>_. ftp_size (pf_path u)) c1 of
               (c2, FtpPanic) \<Rightarrow> FtpPanic
             | (c2, r) \<Rightarrow> (case ftp_quit c2 of (_, FtpPanic) \<Rightarrow> FtpPanic | _ \<Rightarrow> r))
        | (c1, FtpError e) \<Rightarrow> FtpError e
        | (c1, FtpPanic) \<Rightarrow> FtpPanic))"

section \<open>The client without a downloader\<close>

text \<open>
  \<open>DownloadFile\<close> and \<open>DownloadFileRange\<close>: the errors of removing, opening and seeking are arguments. There is no
  context that could end the copy.
\<close>

record file_errors =
  fe_remove :: "go_error option"
  fe_open :: "go_error option"
  fe_seek :: "go_error option"

type_synonym ftp_file_result = "ftp_client \<times> local_file \<times> ftp_end"

definition ftp_abort :: "string \<Rightarrow> ftp_client \<Rightarrow> local_file \<Rightarrow> 'a ftp_result \<Rightarrow> ftp_file_result" where
  "ftp_abort label c f r = (c, f, (case r of FtpError e \<Rightarrow> FtpReturned (Some (Wrapped label e)) | _ \<Rightarrow> FtpCrashed))"

definition ftp_copy_at :: "copy_event list \<Rightarrow> byte list \<Rightarrow> nat \<Rightarrow> ftp_client \<Rightarrow> ftp_file_result" where
  "ftp_copy_at reads old pos c =
     (case copy_loop ''write file'' ''read data'' (map (cv_cancelled_update (\<lambda>_. None)) reads) \<lparr>sk_file = old, sk_pos = pos, sk_total = 0\<rparr> of
        (s, e) \<Rightarrow> (c, Some (sk_file s), (case e of None \<Rightarrow> FtpRunning | Some r \<Rightarrow> FtpReturned r)))"

definition ftp_create :: "file_errors \<Rightarrow> copy_event list \<Rightarrow> ftp_client \<Rightarrow> local_file \<Rightarrow> ftp_file_result" where
  "ftp_create fe reads c f =
     (case fe_open fe of
        Some e \<Rightarrow> (c, f, FtpReturned (Some (Wrapped ''create local file'' e)))
      | None \<Rightarrow> ftp_copy_at reads [] 0 c)"

definition ftp_file_range :: "ftp_net \<Rightarrow> file_errors \<Rightarrow> string \<Rightarrow> int \<Rightarrow> local_file \<Rightarrow> ftp_client \<Rightarrow> ftp_file_result" where
  "ftp_file_range net fe path start f c =
     (case ftp_size path c of
        (c1, FtpOk n) \<Rightarrow>
          if start \<ge> n then (c1, f, FtpReturned (Some (Plain ''start position >= file size'')))
          else (case ftp_retr net path start c1 of
            (c2, FtpOk reads) \<Rightarrow>
              if start > 0 then
                (case fe_open fe of
                   Some e \<Rightarrow> (c2, f, FtpReturned (Some (Wrapped ''open local file'' e)))
                 | None \<Rightarrow>
                     let old = (case f of None \<Rightarrow> [] | Some bs \<Rightarrow> bs) in
                     (case fe_seek fe of
                        Some e \<Rightarrow> (c2, Some old, FtpReturned (Some (Wrapped ''seek file'' e)))
                      | None \<Rightarrow> ftp_copy_at reads old (nat start) c2))
              else
                (case fe_remove fe of
                   Some e \<Rightarrow> (c2, f, FtpReturned (Some (Wrapped ''remove existing file'' e)))
                 | None \<Rightarrow> ftp_create fe reads c2 None)
          | (c2, r) \<Rightarrow> ftp_abort ''RETR command failed'' c2 f r)
      | (c1, r) \<Rightarrow> ftp_abort ''get file size'' c1 f r)"

definition ftp_file_download :: "ftp_net \<Rightarrow> file_errors \<Rightarrow> string \<Rightarrow> bool \<Rightarrow> local_file \<Rightarrow> ftp_client \<Rightarrow> ftp_file_result" where
  "ftp_file_download net fe path resume f c =
     (case ftp_size path c of
        (c1, FtpOk n) \<Rightarrow>
          let k = (if resume then local_size f else 0) in
          if resume \<and> k > 0 \<and> k < n then ftp_file_range net fe path k f c1
          else (case fe_remove fe of
            Some e \<Rightarrow> (c1, f, FtpReturned (Some (Wrapped ''remove existing file'' e)))
          | None \<Rightarrow> (case ftp_retr net path 0 c1 of
              (c2, FtpOk reads) \<Rightarrow> ftp_create fe reads c2 None
            | (c2, r) \<Rightarrow> ftp_abort ''RETR command failed'' c2 None r))
      | (c1, r) \<Rightarrow> ftp_abort ''get file size'' c1 f r)"

end
