(* ===== verification/TransfersProps.thy ===== *)
theory TransfersProps
  imports Transfers
begin

text \<open>
  What the downloads over SFTP, S3 and WebDAV leave in the local file when they report no error.
\<close>

section \<open>The copying loop\<close>

lemma write_pos_length: "bs \<noteq> [] \<Longrightarrow> length (write_pos p bs f) = max (length f) (p + length bs)"
  by (auto simp: write_pos_def)

lemma write_pos_end [simp]: "write_pos (length f) bs f = f @ bs"
  by (simp add: write_pos_def)

lemma write_pos_twice: "write_pos (p + length as) bs (write_pos p as f) = write_pos p (as @ bs) f"
proof -
  consider "as = []" | "bs = []" | "as \<noteq> []" "bs \<noteq> []" by blast
  then show ?thesis
  proof cases
    case 3
    have 1: "length (take p f @ replicate (p - length f) 0 @ as) = p + length as" by simp
    have "take (p + length as) (write_pos p as f) = take p f @ replicate (p - length f) 0 @ as"
      using 3(1) by (simp add: write_pos_def)
    moreover have "length (write_pos p as f) \<ge> p + length as" using 3(1) by (simp add: write_pos_length)
    moreover have "drop (p + length as + length bs) (write_pos p as f) = drop (p + (length as + length bs)) f"
      using 3(1) by (cases "p \<le> length f") (simp_all add: write_pos_def min_def ac_simps)
    ultimately show ?thesis using 3 by (simp add: write_pos_def add.assoc)
  qed (simp_all add: write_pos_def)
qed

text \<open>A loop that ends well has written all that was delivered, at the place where it began.\<close>

lemma copy_loop_done:
  assumes "copy_loop wr rd evs k = (k', Some None)"
  shows "sk_file k' = write_pos (sk_pos k) (delivered evs) (sk_file k)"
  using assms
proof (induction wr rd evs k rule: copy_loop.induct)
  case (2 wr rd ev evs k)
  from 2(3) have c: "cv_cancelled ev = None" by (cases "cv_cancelled ev") auto
  show ?case
  proof (cases "cv_write ev")
    case None
    show ?thesis
    proof (cases "cv_end ev")
      case MoreData
      then show ?thesis using 2(1) [OF c None refl MoreData] 2(3) c None by (simp add: sink_write_def write_pos_twice)
    qed (use 2(3) c None in \<open>auto simp: sink_write_def\<close>)
  next
    case (Some w)
    then obtain n e where w: "cv_write ev = Some (n, e)" by (cases w) auto
    then have d: "cv_data ev = []" using 2(3) c by (auto split: if_splits)
    show ?thesis
    proof (cases "cv_end ev")
      case MoreData
      then show ?thesis using 2(2) [OF c w refl d MoreData] 2(3) c w d by simp
    qed (use 2(3) c w d in \<open>auto simp: write_pos_def\<close>)
  qed
qed simp

lemma copied_done:
  assumes "copied (copy_loop wr rd evs k) = (f, tot, Some None)"
  shows "f = Some (write_pos (sk_pos k) (delivered evs) (sk_file k))"
  using assms copy_loop_done [of wr rd evs k] by (auto simp: copied_def split: prod.splits)

section \<open>SFTP\<close>

text \<open>
  An SFTP download without an error has written exactly what the remote file delivered, whatever was there before.
\<close>
theorem sftp_exact:
  assumes "sftp_download userinfo srv url f = (f', tot, Some None)"
  shows "f' = Some (delivered (ss_reads srv))"
proof -
  have "copied (copy_loop ''failed to write to local file'' ''failed to read remote file'' (ss_reads srv)
      \<lparr>sk_file = [], sk_pos = 0, sk_total = 0\<rparr>) = (f', tot, Some None)"
    using assms by (auto simp: sftp_download_def failed_def split: option.splits prod.splits)
  from copied_done [OF this] show ?thesis by (simp add: write_pos_def)
qed

text \<open>Without a list of known hosts any host key is accepted.\<close>

lemma missing_known_hosts: "\<not> readable f \<Longrightarrow> known_hosts_file home c = Some f \<Longrightarrow> host_key_callback home readable c = AcceptAny"
  by (simp add: host_key_callback_def)

section \<open>S3\<close>

text \<open>An object store that serves what it is asked for.\<close>

definition honest_s3 :: "byte list \<Rightarrow> s3_server \<Rightarrow> bool" where
  "honest_s3 content srv \<longleftrightarrow> sv_head srv = Inr (Some (int (length content))) \<and>
     (\<forall>a. sv_get srv None = Inr a \<longrightarrow> sa_range a = None \<and> delivered (sa_reads a) = content) \<and>
     (\<forall>k a. k < length content \<longrightarrow> sv_get srv (Some (range_from (int k))) = Inr a \<longrightarrow>
        (range_total (sa_range a) \<noteq> None \<longrightarrow> range_total (sa_range a) = Some (int (length content))) \<and>
        delivered (sa_reads a) = drop k content)"

lemma s3_done:
  assumes "s3_download srv f = (f', tot, Some None)" "sv_head srv = Inr (Some n)" "local_size f \<noteq> n \<or> n = 0" "n \<ge> 0"
  shows "\<exists>a. sv_get srv (if 0 < local_size f \<and> local_size f < n then Some (range_from (local_size f)) else None) = Inr a \<and>
    (if range_total (sa_range a) = Some (local_size f) \<and> local_size f > 0 then f' = f
     else f' = Some ((case f of None \<Rightarrow> [] | Some bs \<Rightarrow> bs) @ delivered (sa_reads a)))"
proof -
  let ?k = "local_size f"
  let ?f1 = "if ?k > 0 then f else Some []"
  obtain a where a: "sv_get srv (if 0 < ?k \<and> ?k < n then Some (range_from ?k) else None) = Inr a"
    using assms by (auto simp: s3_download_def failed_def Let_def split: option.splits sum.splits if_splits)
  have old: "the ?f1 = (case f of None \<Rightarrow> [] | Some bs \<Rightarrow> bs)" "?k > 0 \<Longrightarrow> f \<noteq> None"
    by (auto simp: local_size_def split: option.splits)
  have run: "(case range_total (sa_range a) of
      Some t \<Rightarrow> if ?k = t \<and> t > 0 then (?f1, t, Some None)
        else copied (copy_loop ''write file'' ''read object'' (sa_reads a)
          \<lparr>sk_file = the ?f1, sk_pos = length (the ?f1), sk_total = (if 0 < ?k \<and> ?k < n then ?k else 0)\<rparr>)
    | None \<Rightarrow> copied (copy_loop ''write file'' ''read object'' (sa_reads a)
        \<lparr>sk_file = the ?f1, sk_pos = length (the ?f1), sk_total = (if 0 < ?k \<and> ?k < n then ?k else 0)\<rparr>)) = (f', tot, Some None)"
    using assms a by (auto simp: s3_download_def failed_def Let_def split: option.splits sum.splits if_splits)
  show ?thesis
  proof (cases "range_total (sa_range a) = Some ?k \<and> ?k > 0")
    case True
    with run a show ?thesis by auto
  next
    case False
    then have "copied (copy_loop ''write file'' ''read object'' (sa_reads a)
        \<lparr>sk_file = the ?f1, sk_pos = length (the ?f1), sk_total = (if 0 < ?k \<and> ?k < n then ?k else 0)\<rparr>) = (f', tot, Some None)"
      using run by (auto split: option.splits if_splits)
    from copied_done [OF this] have "f' = Some ((case f of None \<Rightarrow> [] | Some bs \<Rightarrow> bs) @ delivered (sa_reads a))"
      using old(1) by simp
    with False a show ?thesis by auto
  qed
qed

lemma take_full: "length (take k xs) = length xs \<Longrightarrow> take k xs = xs"
  by (simp add: min_def split: if_splits)

text \<open>
  A download of an object into no file, or into a file that holds a beginning of it, leaves the object. Into a file
  that is longer than the object it appends the object and reports no error.
\<close>
theorem s3_download_result:
  assumes "s3_download srv f = (f', tot, Some None)" "honest_s3 content srv"
  shows "(\<forall>k. f = Some (take k content) \<or> f = None \<longrightarrow> f' = Some content) \<and>
    (\<forall>bs. f = Some bs \<and> length bs > length content \<longrightarrow> f' = Some (bs @ content))"
proof -
  let ?n = "int (length content)" and ?k = "local_size f"
  note h = assms(2) [unfolded honest_s3_def]
  have full: "f' = f" if "?k = ?n" "content \<noteq> []"
    using assms(1) h that by (auto simp: s3_download_def)
  show ?thesis
  proof (cases "?k = ?n \<and> content \<noteq> []")
    case True
    then obtain bs where bs: "f = Some bs" "length bs = length content" by (auto simp: local_size_def split: option.splits)
    then have "bs = content" if "bs = take k content" for k using take_full [of k content] that by simp
    moreover have "f' = Some bs" using full True bs(1) by simp
    ultimately show ?thesis using bs by (metis less_irrefl option.distinct(1) option.inject)
  next
    case False
    from s3_done [OF assms(1), of ?n] h False obtain a where
      a: "sv_get srv (if 0 < ?k \<and> ?k < ?n then Some (range_from ?k) else None) = Inr a"
      and f': "if range_total (sa_range a) = Some ?k \<and> ?k > 0 then f' = f
        else f' = Some ((case f of None \<Rightarrow> [] | Some bs \<Rightarrow> bs) @ delivered (sa_reads a))" by auto
    show ?thesis
    proof (cases "0 < ?k \<and> ?k < ?n")
      case True
      then obtain bs where bs: "f = Some bs" "0 < length bs" "length bs < length content"
        by (auto simp: local_size_def split: option.splits)
      have "sv_get srv (Some (range_from (int (length bs)))) = Inr a" using a bs by (simp add: local_size_def)
      with h bs(3) have "range_total (sa_range a) \<noteq> Some ?k" "delivered (sa_reads a) = drop (length bs) content"
        using bs by (auto simp: local_size_def)
      with f' bs have "f' = Some (bs @ drop (length bs) content)" by simp
      then show ?thesis using bs by (auto simp: min_def split: if_splits)
    next
      case False
      then have "range_total (sa_range a) = None" "delivered (sa_reads a) = content"
        using a h by (auto simp: range_total_def)
      with f' have f'': "f' = Some ((case f of None \<Rightarrow> [] | Some bs \<Rightarrow> bs) @ content)" by simp
      have "take k content = []" if "f = Some (take k content)" for k
        using False \<open>\<not> (?k = ?n \<and> content \<noteq> [])\<close> that by (auto simp: local_size_def min_def split: if_splits)
      with f'' show ?thesis by fastforce
    qed
  qed
qed

section \<open>WebDAV\<close>

lemma webdav_ends:
  assumes "webdav_download srv user pass f = (f', tot, Some None)" "webdav_size srv user pass = Inr n" "local_size f \<noteq> n \<or> n = 0"
  shows "\<exists>code reads. wv_get srv (if 0 < local_size f \<and> local_size f < n then Some (range_from (local_size f)) else None) = Inr (code, reads) \<and>
    code \<in> {200, 206} \<and>
    f' = Some (if code = 200 \<or> local_size f = 0 then delivered reads else write_pos 0 (delivered reads) (the f))"
proof -
  let ?k = "local_size f"
  let ?f1 = "if ?k > 0 then f else Some []"
  obtain code reads where g: "wv_get srv (if 0 < ?k \<and> ?k < n then Some (range_from ?k) else None) = Inr (code, reads)" "code \<in> {200, 206}"
    using assms by (auto simp: webdav_download_def failed_def Let_def split: option.splits sum.splits if_splits prod.splits)
  have k: "?k \<ge> 0" by (simp add: local_size_def split: option.split)
  have "f' = Some (if code = 200 \<or> ?k = 0 then delivered reads else write_pos 0 (delivered reads) (the f))"
  proof (cases "?k > 0 \<and> code = 200")
    case True
    then have "copied (copy_loop ''write file'' ''read response'' reads \<lparr>sk_file = [], sk_pos = 0, sk_total = 0\<rparr>) = (f', tot, Some None)"
      using assms g by (auto simp: webdav_download_def failed_def Let_def split: option.splits if_splits)
    from copied_done [OF this] True show ?thesis by (simp add: write_pos_def)
  next
    case False
    then have "copied (copy_loop ''write file'' ''read response'' reads
        \<lparr>sk_file = the ?f1, sk_pos = 0, sk_total = (if 0 < ?k \<and> ?k < n then ?k else 0)\<rparr>) = (f', tot, Some None)"
      using assms g by (auto simp: webdav_download_def failed_def Let_def split: option.splits if_splits)
    from copied_done [OF this] False k show ?thesis by (auto simp: write_pos_def)
  qed
  with g show ?thesis by blast
qed

text \<open>
  C18: A WebDAV download that starts afresh leaves what the server sent. One that is resumed, with an honest server, writes
  the rest of the file over its beginning: it reports no error, and what it leaves is too short.
\<close>
theorem webdav_resume_corrupts:
  assumes "webdav_download srv user pass (Some (take k content)) = (f', tot, Some None)"
    "webdav_size srv user pass = Inr (int (length content))" "0 < k" "k < length content"
    "wv_get srv (Some (range_from (int k))) = Inr (206, reads)" "delivered reads = drop k content"
  shows "f' = Some (write_pos 0 (drop k content) (take k content)) \<and> length (the f') < length content"
proof -
  have size: "local_size (Some (take k content)) = int k" using assms(4) by (simp add: local_size_def)
  have "f' = Some (write_pos 0 (drop k content) (take k content))"
    using webdav_ends [OF assms(1,2)] assms(3-6) by (auto simp: size)
  moreover have "length (write_pos 0 (drop k content) (take k content)) < length content"
    using assms(3,4) by (simp add: write_pos_length)
  ultimately show ?thesis by simp
qed

lemma webdav_fresh_exact:
  assumes "webdav_download srv user pass None = (f', tot, Some None)" "webdav_size srv user pass = Inr n"
    "wv_get srv None = Inr (code, reads)"
  shows "f' = Some (delivered reads)"
  using webdav_ends [OF assms(1,2)] assms(3) by (auto simp: local_size_def)

text \<open>A size with more digits than \<open>int64\<close> holds wraps instead of being refused.\<close>

lemma propfind_size_wraps:
  "parse_propfind ''<D:getcontentlength>18446744073709551617</D:getcontentlength>'' = Inr 1"
  by code_simp

text \<open>The elements of other name space prefixes are not found.\<close>

lemma propfind_prefix_unknown:
  "parse_propfind ''<lp1:getcontentlength>5</lp1:getcontentlength>'' = Inl ''content length not found in response''"
  by code_simp

section \<open>Instances\<close>

definition demo_reads :: "byte list \<Rightarrow> copy_event list" where
  "demo_reads bs = [\<lparr>cv_cancelled = None, cv_data = bs, cv_end = MoreData, cv_write = None\<rparr>,
     \<lparr>cv_cancelled = None, cv_data = [], cv_end = EndOfBody, cv_write = None\<rparr>]"

lemma demo_delivered [simp]: "delivered (demo_reads bs) = bs"
  by (simp add: demo_reads_def)

lemma demo_copied: "copy_loop wr rd (demo_reads bs) k =
    ((sink_write bs k)\<lparr>sk_total := i64 (i64 (sk_total k + int (length bs)))\<rparr>, Some None)"
  by (simp add: demo_reads_def sink_write_def write_pos_def Let_def)

theorem sftp_exact_witness:
  "fst (sftp_download ([], []) \<lparr>ss_dial = None, ss_client = None, ss_open = (\<lambda>_. None), ss_stat = None, ss_create = None,
     ss_reads = demo_reads [1, 2]\<rparr> ''sftp://h/f'' (Some [9, 9, 9])) = Some [1, 2]"
proof -
  let ?srv = "\<lparr>ss_dial = None, ss_client = None, ss_open = (\<lambda>_. None), ss_stat = None, ss_create = None, ss_reads = demo_reads [1, 2]\<rparr>"
  let ?r = "sftp_download ([], []) ?srv ''sftp://h/f'' (Some [9, 9, 9])"
  have "parse_sftp_url ([], []) ''sftp://h/f'' \<noteq> None" by code_simp
  then have "?r = (fst ?r, fst (snd ?r), Some None)"
    by (auto simp: sftp_download_def demo_copied copied_def)
  from sftp_exact [OF this] show ?thesis by simp
qed

definition demo_store :: "byte list \<Rightarrow> s3_server" where
  "demo_store content = \<lparr>sv_head = Inr (Some (int (length content))),
     sv_get = (\<lambda>r. Inr \<lparr>sa_range = None, sa_reads = demo_reads (if r = None \<or> r = Some ''bytes=0-'' then content else drop 1 content)\<rparr>),
     sv_mkdir = None, sv_open = None, sv_seek = None\<rparr>"

lemma demo_store_honest: "honest_s3 [4, 5] (demo_store [4, 5])"
proof -
  have k: "k < length [4 :: byte, 5] \<longleftrightarrow> k = 0 \<or> k = 1" for k by auto
  have "range_from (int 0) = ''bytes=0-''" "range_from (int 1) \<noteq> ''bytes=0-''" by code_simp+
  then show ?thesis unfolding honest_s3_def k by (auto simp: demo_store_def range_total_def)
qed

theorem s3_download_result_witness:
  "fst (s3_download (demo_store [4, 5]) (Some [7, 8, 9])) = Some [7, 8, 9, 4, 5]"
proof -
  let ?r = "s3_download (demo_store [4, 5]) (Some [7, 8, 9])"
  have "?r = (fst ?r, fst (snd ?r), Some None)"
    by (simp add: s3_download_def demo_store_def local_size_def demo_copied copied_def range_total_def Let_def)
  from s3_download_result [OF this demo_store_honest] show ?thesis by simp
qed

definition demo_dav :: webdav_server where
  "demo_dav = \<lparr>wv_propfind = Inr (207, Inr ''<D:getcontentlength>3</D:getcontentlength>''),
     wv_get = (\<lambda>r. Inr (if r = None then 200 else 206, demo_reads (if r = None then [1, 2, 3] else [3]))),
     wv_mkdir = None, wv_open = None, wv_truncate = None\<rparr>"

theorem webdav_resume_corrupts_witness:
  "fst (webdav_download demo_dav [] [] (Some (take 2 [1, 2, 3]))) = Some [3, 2]"
proof -
  let ?r = "webdav_download demo_dav [] [] (Some (take 2 [1, 2, 3]))"
  have p: "parse_propfind ''<D:getcontentlength>3</D:getcontentlength>'' = Inr 3" by code_simp
  have size: "webdav_size demo_dav [] [] = Inr (int (length ([1, 2, 3] :: byte list)))" by (simp add: webdav_size_def demo_dav_def p)
  have "?r = (fst ?r, fst (snd ?r), Some None)"
    using size by (simp add: webdav_download_def local_size_def demo_dav_def demo_copied copied_def)
  from webdav_resume_corrupts [OF this size, of "demo_reads [3]"] show ?thesis
    by (simp add: demo_dav_def write_pos_def)
qed

end
