(* ===== verification/FtpProps.thy ===== *)
theory FtpProps
  imports Ftp TransfersProps
begin

text \<open>
  What an FTP download leaves in the local file, how addresses and replies are taken apart, and where that goes wrong.
\<close>

section \<open>Commands\<close>

lemma send_command_sent:
  "send_command cmd c = (c', r) \<Longrightarrow> (\<exists>x. r = FtpOk x) \<Longrightarrow> fc_sent c' = fc_sent c @ [cmd]"
  by (auto simp: send_command_def client_read_def Let_def split: option.splits list.splits prod.splits)

lemma ftp_label_Ok: "ftp_label l m c = (c', FtpOk x) \<longleftrightarrow> m c = (c', FtpOk x)"
  by (auto simp: ftp_label_def split: prod.splits ftp_result.splits)

lemma ftp_bind_Ok: "ftp_bind m f c = (c', FtpOk y) \<longleftrightarrow> (\<exists>c1 x. m c = (c1, FtpOk x) \<and> f x c1 = (c', FtpOk y))"
  by (auto simp: ftp_bind_def split: prod.splits ftp_result.splits)

lemma ftp_fail_Ok [simp]: "ftp_fail e c \<noteq> (c', FtpOk x)"
  by (simp add: ftp_fail_def)

lemma ftp_return_Ok [simp]: "ftp_return x c = (c', FtpOk y) \<longleftrightarrow> c' = c \<and> x = y"
  by (auto simp: ftp_return_def)

lemmas ftp_runs = ftp_label_Ok ftp_bind_Ok send_command_sent

definition rest_command :: "int \<Rightarrow> string list" where
  "rest_command k = (if k > 0 then [''REST '' @ show_int k] else [])"

lemma rest_and_retr_sent:
  assumes "rest_and_retr path k c = (c', FtpOk x)"
  shows "fc_sent c' = fc_sent c @ rest_command k @ [''RETR '' @ path]"
  using assms by (auto simp: rest_and_retr_def rest_command_def ftp_runs split: if_splits)

text \<open>The data connection of a download follows the announcement of the connection, the offset and the file.\<close>

lemma ftp_retr_sent:
  assumes "ftp_retr net path k c = (c', FtpOk reads)"
  shows "\<exists>cmd. (cmd = ''PASV'' \<or> (\<exists>ip port. cmd = port_command ip port)) \<and>
    reads = fn_data net (fc_sent c @ [cmd] @ rest_command k @ [''RETR '' @ path])"
proof (cases "fc_passive c")
  case True
  then have "retr_passive net path k c = (c', FtpOk reads)" using assms by (simp add: ftp_retr_def)
  then obtain c1 c2 u where c1: "send_command ''PASV'' c = (c1, FtpOk u)"
    and c2: "\<exists>x. rest_and_retr path k c1 = (c2, FtpOk x)" "reads = fn_data net (fc_sent c2)"
    by (auto simp: retr_passive_def ftp_runs split: if_splits ftp_result.splits prod.splits option.splits)
  have "fc_sent c2 = fc_sent c1 @ rest_command k @ [''RETR '' @ path]" using c2(1) rest_and_retr_sent by blast
  moreover have "fc_sent c1 = fc_sent c @ [''PASV'']" using send_command_sent [OF c1] by blast
  ultimately have "reads = fn_data net (fc_sent c @ [''PASV''] @ rest_command k @ [''RETR '' @ path])" using c2(2) by simp
  then show ?thesis by blast
next
  case False
  then have "retr_active net path k c = (c', FtpOk reads)" using assms by (simp add: ftp_retr_def)
  then obtain ip port c1 c2 u where c1: "send_command (port_command ip port) c = (c1, FtpOk u)"
    and c2: "\<exists>x. rest_and_retr path k c1 = (c2, FtpOk x)" "reads = fn_data net (fc_sent c2)"
    by (auto simp: retr_active_def ftp_runs split: sum.splits if_splits prod.splits option.splits)
  have "fc_sent c2 = fc_sent c1 @ rest_command k @ [''RETR '' @ path]" using c2(1) rest_and_retr_sent by blast
  moreover have "fc_sent c1 = fc_sent c @ [port_command ip port]" using send_command_sent [OF c1] by blast
  ultimately have "reads = fn_data net (fc_sent c @ [port_command ip port] @ rest_command k @ [''RETR '' @ path])" using c2(2) by simp
  then show ?thesis by blast
qed

section \<open>What a download leaves\<close>

lemma ftp_fetch_done:
  assumes "fo_end (ftp_fetch net opened seek path n f c) = FtpReturned None" "local_size f \<noteq> n \<or> n \<le> 0"
  shows "\<exists>cmd. (cmd = ''PASV'' \<or> (\<exists>ip port. cmd = port_command ip port)) \<and>
    fo_file (ftp_fetch net opened seek path n f c) =
      Some ((case f of None \<Rightarrow> [] | Some bs \<Rightarrow> bs) @
        delivered (fn_data net (fc_sent c @ [cmd] @ rest_command (local_size f) @ [''RETR '' @ path])))"
proof -
  let ?k = "local_size f"
  let ?f1 = "if ?k > 0 then f else Some []"
  obtain c1 reads where r: "ftp_retr net path ?k c = (c1, FtpOk reads)"
    using assms by (auto simp: ftp_fetch_def outcome_def ftp_stop_def Let_def split: option.splits if_splits prod.splits ftp_result.splits)
  have old: "the ?f1 = (case f of None \<Rightarrow> [] | Some bs \<Rightarrow> bs)" "length (the ?f1) = nat ?k"
    by (auto simp: local_size_def split: option.splits)
  obtain s e where s: "copy_loop ''write file'' ''read data'' reads \<lparr>sk_file = the ?f1, sk_pos = nat ?k, sk_total = ?k\<rparr> = (s, e)"
    by (metis surj_pair)
  have "fo_file (ftp_fetch net opened seek path n f c) = Some (sk_file s) \<and> e = Some None"
    using assms r s by (auto simp: ftp_fetch_def outcome_def Let_def split: option.splits if_splits)
  moreover have "sk_file s = the ?f1 @ delivered reads" if "e = Some None"
    using copy_loop_done [of "''write file''" "''read data''" reads] s that old(2) [symmetric] by simp
  ultimately show ?thesis using ftp_retr_sent [OF r] old(1) by auto
qed

text \<open>A server that sends the file from the offset that the command before \<open>RETR\<close> asks for.\<close>

definition offset_after :: "string list \<Rightarrow> nat" where
  "offset_after cmds =
     (if cmds \<noteq> [] \<and> has_prefix (last cmds) ''REST '' then nat (the (atoi (drop 5 (last cmds)))) else 0)"

definition honest_ftp :: "byte list \<Rightarrow> string \<Rightarrow> ftp_net \<Rightarrow> bool" where
  "honest_ftp content path net \<longleftrightarrow> (\<forall>cmds. delivered (fn_data net (cmds @ [''RETR '' @ path])) = drop (offset_after cmds) content)"

lemma offset_after_rest:
  assumes "0 \<le> k" "k < 2 ^ 63" "cmd = ''PASV'' \<or> (\<exists>ip port. cmd = port_command ip port)"
  shows "offset_after (cmds @ [cmd] @ rest_command k) = nat k"
proof (cases "k > 0")
  case True
  have "atoi (show_int k) = Some k" using assms(1,2) by (intro atoi_show_int) (simp add: in_i64_def)
  with True show ?thesis by (simp add: offset_after_def rest_command_def)
next
  case False
  then show ?thesis using assms(1,3) by (auto simp: offset_after_def rest_command_def port_command_def)
qed


lemma ftp_copy_at_done:
  assumes "ftp_copy_at reads old (length old) c = (c', g, FtpReturned None)"
  shows "g = Some (old @ delivered reads)"
proof -
  have d: "delivered (map (cv_cancelled_update (\<lambda>_. None)) reads) = delivered reads"
    by (induction reads) (auto split: read_end.split)
  show ?thesis
    using assms copy_loop_done [of "''write file''" "''read data''" "map (cv_cancelled_update (\<lambda>_. None)) reads"
        "\<lparr>sk_file = old, sk_pos = length old, sk_total = 0\<rparr>"]
    by (auto simp: ftp_copy_at_def d split: prod.splits option.splits)
qed

lemma honest_retr:
  assumes "honest_ftp content path net" "ftp_retr net path k c = (c', FtpOk reads)" "0 \<le> k" "k < 2 ^ 63"
  shows "delivered reads = drop (nat k) content"
proof -
  obtain cmd where cmd: "cmd = ''PASV'' \<or> (\<exists>ip port. cmd = port_command ip port)"
    and reads: "reads = fn_data net ((fc_sent c @ [cmd] @ rest_command k) @ [''RETR '' @ path])"
    using ftp_retr_sent [OF assms(2)] by auto
  show ?thesis using assms(1) offset_after_rest [OF assms(3,4) cmd] reads unfolding honest_ftp_def by presburger
qed

text \<open>
  The client alone keeps the same promise, whether it resumes or not; the size is asked for a second time, and
  the second answer may even be another one.
\<close>

lemma ftp_file_download_exact:
  assumes "ftp_file_download net fe path resume f c = (c', g, FtpReturned None)" "honest_ftp content path net"
    "f = None \<or> f = Some (take j content)" "length content < 2 ^ 63"
  shows "g = Some content"
proof -
  have new: "g = Some content" if "ftp_create fe reads c1 None = (c', g, FtpReturned None)" "ftp_retr net path 0 c0 = (c1, FtpOk reads)"
    for reads c1 c0
    using that ftp_copy_at_done [of reads "[]"] honest_retr [OF assms(2) that(2)] by (auto simp: ftp_create_def split: option.splits)
  let ?k = "local_size f"
  have k: "0 \<le> ?k" "?k < 2 ^ 63" using assms(3,4) by (auto simp: local_size_def min_def)
  obtain c1 n where c1: "ftp_size path c = (c1, FtpOk n)"
    using assms(1) by (auto simp: ftp_file_download_def ftp_abort_def split: prod.splits ftp_result.splits)
  show ?thesis
  proof (cases "resume \<and> ?k > 0 \<and> ?k < n")
    case True
    then have r: "ftp_file_range net fe path ?k f c1 = (c', g, FtpReturned None)" using assms(1) c1 by (simp add: ftp_file_download_def)
    from True obtain bs where bs: "f = Some bs" by (auto simp: local_size_def split: option.splits)
    have kb: "nat ?k = length bs" using bs by (simp add: local_size_def)
    obtain c2 reads where c2: "\<exists>c1. ftp_retr net path ?k c1 = (c2, FtpOk reads)" "ftp_copy_at reads bs (nat ?k) c2 = (c', g, FtpReturned None)"
      using r True bs by (auto simp: ftp_file_range_def ftp_abort_def Let_def split: prod.splits ftp_result.splits if_splits option.splits)
    from c2(1) have "delivered reads = drop (length bs) content" using honest_retr [OF assms(2) _ k] kb by auto
    moreover have "g = Some (bs @ delivered reads)" using ftp_copy_at_done c2(2) kb by metis
    ultimately show ?thesis using assms(3) bs by (auto simp: min_def)
  next
    case False
    then show ?thesis using assms(1) c1 new
      by (auto simp: ftp_file_download_def ftp_abort_def Let_def split: prod.splits ftp_result.splits if_splits option.splits)
  qed
qed

text \<open>
  A connection that ends early is taken for the end of the file: neither the size nor the reply after the transfer is
  looked at.
\<close>
lemma ftp_short_transfer_accepted:
  assumes "fo_end (ftp_fetch net opened seek path n None c) = FtpReturned None"
    "\<And>cmds. delivered (fn_data net cmds) = bytes" "n > 0"
  shows "fo_file (ftp_fetch net opened seek path n None c) = Some bytes"
  using ftp_fetch_done [OF assms(1)] assms(2,3) by (auto simp: local_size_def)

section \<open>Addresses\<close>

lemma before_after:
  assumes "d \<notin> set xs"
  shows "before d (xs @ d # ys) = xs" "after d (xs @ d # ys) = ys"
  using assms by (auto simp: before_def after_def takeWhile_append dropWhile_append)

lemma before_none: "d \<notin> set xs \<Longrightarrow> before d xs = xs"
  by (auto simp: before_def takeWhile_eq_all_conv)

text \<open>
  User, password, host, port and path of an FTP address are found, as long as none of them holds a character that
  separates the parts.
\<close>
theorem ftp_url_roundtrip:
  assumes "CHR '':'' \<notin> set user" "CHR ''@'' \<notin> set user" "CHR ''@'' \<notin> set pass" "CHR '':'' \<notin> set host" "CHR ''/'' \<notin> set host"
    "host \<noteq> []" "hd host \<noteq> CHR ''[''" "CHR ''/'' \<notin> set port" "port \<noteq> []" "CHR ''?'' \<notin> set path"
  shows "parse_ftp_url (''ftp://'' @ user @ '':'' @ pass @ ''@'' @ host @ '':'' @ port @ ''/'' @ path) =
    Some \<lparr>pf_scheme = ''ftp'', pf_host = host, pf_port = port, pf_user = user, pf_password = pass, pf_path = CHR ''/'' # path,
      pf_tls = False, pf_passive = []\<rparr>"
proof -
  let ?rest = "host @ CHR '':'' # port @ CHR ''/'' # path"
  have at: "CHR ''@'' \<notin> set (user @ CHR '':'' # pass)" using assms(2,3) by simp
  have "ftp_credentials ((user @ CHR '':'' # pass) @ CHR ''@'' # ?rest) = (user, pass, ?rest)"
    unfolding ftp_credentials_def Let_def before_after [OF at] before_after [OF assms(1)] by simp
  moreover have "CHR ''/'' \<notin> set (host @ CHR '':'' # port)" using assms(5,8) by simp
  from before_after [OF this, of path] have "before CHR ''/'' ?rest = host @ CHR '':'' # port" "after CHR ''/'' ?rest = path" by simp_all
  moreover have "\<not> has_prefix (host @ CHR '':'' # port) ''[''" using assms(6,7) by (cases host) auto
  then have "ftp_host_port (host @ CHR '':'' # port) = Some (host, port)"
    unfolding ftp_host_port_def before_after [OF assms(4)] by simp
  ultimately show ?thesis using assms(9,10) by (simp add: parse_ftp_url_def)
qed

text \<open>An \<open>@\<close> in the path is taken for the end of credentials, and parameters stay in the path that is sent.\<close>

lemma at_sign_in_path:
  "map_option (\<lambda>u. (pf_host u, pf_user u)) (parse_ftp_url ''ftp://h/a@b/c'') = Some (''b'', ''h/a'')"
  by code_simp

lemma parameters_stay_in_path:
  "map_option (\<lambda>u. (pf_path u, pf_passive u)) (parse_ftp_url ''ftp://h/f?passive=active'') = Some (''/f?passive=active'', ''active'')"
  by code_simp

section \<open>Replies\<close>

lemma digits_plain: "c \<in> set (show_int (int n)) \<Longrightarrow> is_digit c"
  using digits_of_digits by (auto simp: show_int_def)

lemma not_digits: "\<not> is_digit CHR '',''" "\<not> is_digit CHR '')''" "\<not> is_digit CHR ''(''"
  by code_simp+

text \<open>
  The address of a data connection is read back from the six numbers of a reply to \<open>PASV\<close>.
\<close>
theorem pasv_roundtrip:
  assumes "h1 < 256" "h2 < 256" "h3 < 256" "h4 < 256" "p1 < 256" "p2 < 256" "CHR ''('' \<notin> set text" "CHR '')'' \<notin> set text"
  shows "parse_pasv (text @ ''('' @ show_int (int h1) @ '','' @ show_int (int h2) @ '','' @ show_int (int h3) @ '','' @ show_int (int h4) @ '','' @
      show_int (int p1) @ '','' @ show_int (int p2) @ '')'' @ rest) =
    FtpOk (show_int (int h1) @ ''.'' @ show_int (int h2) @ ''.'' @ show_int (int h3) @ ''.'' @ show_int (int h4), int (p1 * 256 + p2))"
proof -
  let ?c = "CHR '',''"
  let ?nums = "show_int (int h1) @ ?c # show_int (int h2) @ ?c # show_int (int h3) @ ?c # show_int (int h4) @ ?c # show_int (int p1) @ ?c # show_int (int p2)"
  have plain: "?c \<notin> set (show_int (int n))" "CHR '')'' \<notin> set (show_int (int n))" "CHR ''('' \<notin> set (show_int (int n))" for n
    using digits_plain [of _ n] not_digits by blast+
  have "CHR '')'' \<notin> set (text @ CHR ''('' # ?nums)" using assms(8) plain by simp
  from before_after(1) [OF this, of rest] have close: "before CHR '')'' (text @ CHR ''('' # ?nums @ CHR '')'' # rest) = text @ CHR ''('' # ?nums" by simp
  have open': "before CHR ''('' (text @ CHR ''('' # ?nums @ CHR '')'' # rest) = text" using assms(7) by (rule before_after(1))
  have split: "split_on ?c ?nums = [show_int (int h1), show_int (int h2), show_int (int h3), show_int (int h4), show_int (int p1), show_int (int p2)]"
    using plain by (simp add: split_on_append split_on_single)
  have num: "atoi_value (show_int (int n)) = int n" if "n < 256" for n
    using that by (intro atoi_value_Some atoi_show_int) (simp add: in_i64_def)
  have "i64 (i64 (int p1 * 256) + int p2) = int (p1 * 256 + p2)"
    using assms(5,6) by (simp add: i64_id_nonneg)
  moreover have "drop (length text + 1) (text @ CHR ''('' # ?nums) = ?nums" by simp
  ultimately show ?thesis using assms(1-6)
    by (simp add: parse_pasv_def close [simplified] open' [simplified] split [simplified] num del: split_on.simps)
qed

text \<open>A reply of three digits alone ends the process, and so do parentheses in the wrong order.\<close>

lemma bare_code_panics: "fst (read_response [''220'' @ [CHR 0x0D, line_end]]) = FtpPanic"
  by code_simp

lemma swapped_parentheses_panic: "parse_pasv ''227 )('' = FtpPanic"
  by code_simp

text \<open>Replies that arrive together: the second one is lost, and the client waits for it.\<close>

lemma second_reply_lost:
  "read_response [''331 user'' @ [line_end] @ ''230 in'' @ [line_end]] = (FtpOk (331, ''user''), [])"
  by code_simp

text \<open>A first line with nothing after the hyphen is taken for the whole reply.\<close>

lemma empty_long_reply_cut:
  "read_response [''230-'' @ [line_end], ''230 in'' @ [line_end]] = (FtpOk (230, []), [''230 in'' @ [line_end]])"
  by code_simp

text \<open>The mode of transfer is asked for by a word that no server knows, and the reply is not looked at.\<close>

lemma type_word:
  "(let (c, r) = ftp_login [] [] ((new_ftp_client ''h'' [] [] [] False True)\<lparr>fc_in :=
       [''331 user'' @ [line_end], ''230 in'' @ [line_end], ''504 no such type'' @ [line_end]]\<rparr>)
    in (fc_sent c, r)) = ([''USER anonymous'', ''PASS anonymous@'', ''TYPE binary''], FtpOk ())"
  by code_simp

text \<open>In active mode the client announces the address it listens on, which is not an address anybody can reach.\<close>

lemma active_mode_address: "port_command ''::'' 5121 = ''PORT ::,20,1''"
  by code_simp

section \<open>Witnesses\<close>

definition demo_ftp_net :: "byte list \<Rightarrow> ftp_net" where
  "demo_ftp_net content = \<lparr>fn_dial = (\<lambda>_ _. None), fn_listen = Inr (''::'', 5121), fn_accept = None,
     fn_data = (\<lambda>cmds. demo_reads (drop (offset_after (butlast cmds)) content))\<rparr>"

definition demo_ftp_client :: ftp_client where
  "demo_ftp_client = (new_ftp_client ''h'' [] [] [] False True)\<lparr>fc_in :=
     [''227 ok (1,2,3,4,5,6)'' @ [line_end], ''350 ok'' @ [line_end], ''150 ok'' @ [line_end]]\<rparr>"

lemma demo_ftp_honest: "honest_ftp content path (demo_ftp_net content)"
  by (simp add: honest_ftp_def demo_ftp_net_def demo_delivered butlast_append)


theorem ftp_url_roundtrip_witness:
  "parse_ftp_url ''ftp://u:p@h:2121/f'' = Some \<lparr>pf_scheme = ''ftp'', pf_host = ''h'', pf_port = ''2121'', pf_user = ''u'',
     pf_password = ''p'', pf_path = ''/f'', pf_tls = False, pf_passive = []\<rparr>"
  using ftp_url_roundtrip [of "''u''" "''p''" "''h''" "''2121''" "''f''"] by simp

theorem pasv_roundtrip_witness:
  "parse_pasv ''ok (10,0,0,1,4,1).'' = FtpOk (''10.0.0.1'', 1025)"
proof -
  have n: "show_int 10 = ''10''" "show_int 0 = ''0''" "show_int 1 = ''1''" "show_int 4 = ''4''" by code_simp+
  show ?thesis using pasv_roundtrip [of 10 0 0 1 4 1 "''ok ''" "''.''"] by (simp add: n)
qed

end
