(* ===== verification/Torrent.thy ===== *)
theory Torrent
  imports FtpProps Metalink DiskTree AppConfig Manager GoFloat
begin

text \<open>
  BitTorrent downloads, \<open>downloader/torrent.go\<close>, and the choice of a downloader by address, \<open>NewDownloaderFromURL\<close> of
  \<open>downloader/downloader.go\<close>. The engine is third-party code: what it finds and reports is an argument, and the calls
  made on it are recorded in order.
\<close>

section \<open>Settings\<close>

text \<open>The settings of the downloader: those of the configuration, and the files to select.\<close>

record bt_settings =
  bs_config :: bt_config
  bs_select :: "string list"

definition no_bt_config :: bt_config where
  "no_bt_config = \<lparr>bt_enabled = False, bt_download_limit = 0, bt_upload_limit = 0, bt_port = 0, bt_data_dir = [],
     bt_torrent_dir = [], bt_max_connections = 0, bt_max_peers = 0, bt_seed_ratio = Some 0, bt_seed_time = 0,
     bt_trackers = [], bt_dht = False, bt_dht_nodes = [], bt_disable_tcp = False, bt_disable_utp = False,
     bt_piece_length = 0, bt_sequential = False, bt_first_piece = False, bt_upnp = False, bt_lpd = False,
     bt_seeding = False, bt_require_encryption = False, bt_min_crypto = [], bt_web_seeds = []\<rparr>"

text \<open>\<open>NewDownloaderFromURL\<close> copies some fields of the configuration.\<close>

definition inline_bt_settings :: "download_config option \<Rightarrow> bt_settings" where
  "inline_bt_settings cfg =
     (let base = no_bt_config\<lparr>bt_enabled := True, bt_port := 6881, bt_data_dir := ''./bt-data'', bt_max_connections := 100,
            bt_max_peers := 100, bt_dht := True\<rparr>
      in \<lparr>bs_config = (case Option.bind cfg dc_bt of
            None \<Rightarrow> base
          | Some b \<Rightarrow> base\<lparr>bt_enabled := bt_enabled b, bt_download_limit := bt_download_limit b, bt_upload_limit := bt_upload_limit b,
              bt_port := bt_port b, bt_data_dir := bt_data_dir b, bt_max_connections := bt_max_connections b,
              bt_max_peers := bt_max_peers b, bt_dht := bt_dht b, bt_disable_tcp := bt_disable_tcp b,
              bt_disable_utp := bt_disable_utp b, bt_sequential := bt_sequential b\<rparr>),
          bs_select = []\<rparr>)"

text \<open>\<open>NewBTDownloaderFromURL\<close> copies all of them.\<close>

definition full_bt_settings :: "download_config option \<Rightarrow> bt_settings" where
  "full_bt_settings cfg =
     \<lparr>bs_config = (case Option.bind cfg dc_bt of
        None \<Rightarrow> no_bt_config\<lparr>bt_enabled := True, bt_dht := True, bt_port := 6881, bt_data_dir := ''./bt-data'',
          bt_max_connections := 100, bt_max_peers := 100, bt_upnp := True, bt_lpd := True, bt_seeding := True\<rparr>
      | Some b \<Rightarrow> b), bs_select = []\<rparr>"

section \<open>The choice of a downloader\<close>

datatype chosen_downloader =
    MetalinkChosen | FtpChosen ftp_client | SftpChosen | S3Chosen string string | WebdavChosen string
  | TorrentChosen bt_settings | HttpChosen

text \<open>\<open>aws\<close> is the error of loading the settings of S3.\<close>

definition choose_downloader :: "go_error option \<Rightarrow> download_config option \<Rightarrow> string \<Rightarrow> go_error + chosen_downloader" where
  "choose_downloader aws cfg url =
     (if is_metalink_file url then Inr MetalinkChosen
      else if is_ftp_url url then
        (case new_ftp_downloader url of None \<Rightarrow> Inl (Plain ''parse FTP URL'') | Some c \<Rightarrow> Inr (FtpChosen c))
      else if is_sftp_url url then Inr SftpChosen
      else if is_s3_url url then
        (case parse_s3_url url of
           None \<Rightarrow> Inl (Plain ''parse S3 URL'')
         | Some (b, k) \<Rightarrow> (case aws of None \<Rightarrow> Inr (S3Chosen b k) | Some e \<Rightarrow> Inl (Wrapped ''load AWS config'' e)))
      else if is_webdav_url url then
        (case parse_webdav_url url of
           None \<Rightarrow> Inl (Plain ''parse WebDAV URL'')
         | Some (h, _) \<Rightarrow> if url_parse url = None then Inl (Plain ''invalid URL'') else Inr (WebdavChosen h))
      else if is_torrent_file url \<or> is_magnet_link url then Inr (TorrentChosen (inline_bt_settings cfg))
      else Inr HttpChosen)"

section \<open>The client of the engine\<close>

datatype crypto_selector = OnlyRc4 | DefaultSelector

record torrent_client =
  tc_data_dir :: string
  tc_disable_tcp :: bool
  tc_disable_utp :: bool
  tc_no_forwarding :: bool
  tc_no_dht :: bool
  tc_port :: "int option"
  tc_dht_nodes :: "string list option"
  tc_download_limit :: "int option"
  tc_upload_limit :: "int option"
  tc_connections :: "nat option"
  tc_require_obfuscation :: bool
  tc_provides_plain :: bool
  tc_provides_rc4 :: bool
  tc_selector :: crypto_selector

definition min_crypto_level :: "bt_config \<Rightarrow> string" where
  "min_crypto_level b =
     (let l = to_lower (trim_space (bt_min_crypto b)) in if bt_require_encryption b \<and> l = [] then ''arc4'' else l)"

definition torrent_client_config :: "bt_config \<Rightarrow> torrent_client" where
  "torrent_client_config b =
     (let limit = (\<lambda>n. if n > 0 then Some n else None) in
      \<lparr>tc_data_dir = (if bt_data_dir b = [] then ''./bt-data'' else bt_data_dir b),
       tc_disable_tcp = bt_disable_tcp b, tc_disable_utp = bt_disable_utp b,
       tc_no_forwarding = (\<not> bt_upnp b), tc_no_dht = (\<not> bt_dht b), tc_port = limit (bt_port b),
       tc_dht_nodes = (if bt_dht b \<and> bt_dht_nodes b \<noteq> [] then Some (bt_dht_nodes b) else None),
       tc_download_limit = limit (bt_download_limit b), tc_upload_limit = limit (bt_upload_limit b),
       tc_connections = (if bt_download_limit b > 0 \<or> bt_upload_limit b > 0 then Some 50 else None),
       tc_require_obfuscation = bt_require_encryption b, tc_provides_plain = (\<not> bt_require_encryption b), tc_provides_rc4 = True,
       tc_selector = (if min_crypto_level b = ''arc4'' then OnlyRc4 else DefaultSelector)\<rparr>)"

text \<open>
  The method chosen for a connection that comes in, for what the peer provides (plain text, RC4); \<open>dflt\<close> is the
  selector of the engine.
\<close>

datatype crypto = NoCrypto | PlainText | Rc4

definition select_crypto :: "(bool \<times> bool \<Rightarrow> crypto) \<Rightarrow> torrent_client \<Rightarrow> bool \<times> bool \<Rightarrow> crypto" where
  "select_crypto dflt c provided =
     (case tc_selector c of OnlyRc4 \<Rightarrow> (if snd provided then Rc4 else NoCrypto) | DefaultSelector \<Rightarrow> dflt provided)"

section \<open>Selection of files\<close>

definition match_file_path :: "string \<Rightarrow> string \<Rightarrow> bool" where
  "match_file_path file pat \<longleftrightarrow> file = pat \<or> has_suffix file pat \<or> has_prefix file pat \<or>
     (CHR ''*'' \<in> set pat \<and> path_match pat file = Some True)"

definition selects :: "bt_settings \<Rightarrow> string \<Rightarrow> bool" where
  "selects s file = list_ex (match_file_path file) (bs_select s)"

datatype piece_priority = PriorityNone | PriorityNormal | PriorityHigh

datatype bt_call = WebSeeds "string list" | FilePriority nat piece_priority | PiecePriority nat piece_priority | DownloadAll

record bt_info =
  bi_files :: "(string \<times> int) list"
  bi_pieces :: nat
  bi_total :: int

text \<open>The calls between the arrival of the info and the wait.\<close>

definition start_calls :: "bt_settings \<Rightarrow> bt_info \<Rightarrow> bt_call list" where
  "start_calls s info =
     (let n = length (bi_files info) in
      (if bs_select s \<noteq> [] then
         map (\<lambda>i. FilePriority i PriorityNone) [0..<n] @
         map (\<lambda>i. FilePriority i PriorityNormal) (filter (\<lambda>i. selects s (fst (bi_files info ! i))) [0..<n])
       else if bt_sequential (bs_config s) then
         map (\<lambda>i. PiecePriority i (if i < max 1 (bi_pieces info div 10) then PriorityHigh else PriorityNormal)) [0..<bi_pieces info] @
         [DownloadAll]
       else map (\<lambda>i. FilePriority i PriorityNormal) [0..<n]) @
      (if bt_first_piece (bs_config s) \<and> bi_pieces info > 0 then [PiecePriority 0 PriorityHigh] else []) @
      (if bs_select s = [] then [DownloadAll] else []))"

text \<open>What the timer sees: the bytes completed of each file and of the torrent.\<close>

datatype bt_event = BtCancelled go_error | BtTick "int list" int

definition is_download_complete :: "bt_settings \<Rightarrow> bt_info \<Rightarrow> int list \<Rightarrow> int \<Rightarrow> bool" where
  "is_download_complete s info by_file got_all =
     (if bs_select s \<noteq> []
      then list_all (\<lambda>((path, len), got). \<not> selects s path \<or> got \<ge> len) (zip (bi_files info) by_file)
      else got_all \<ge> bi_total info)"

text \<open>\<open>None\<close> while neither the download nor the context has ended.\<close>

fun wait_complete :: "bt_settings \<Rightarrow> bt_info \<Rightarrow> bt_event list \<Rightarrow> go_error option option" where
  "wait_complete s info [] = None"
| "wait_complete s info (BtCancelled e # evs) = Some (Some e)"
| "wait_complete s info (BtTick fs t # evs) =
     (if is_download_complete s info fs t then Some None else wait_complete s info evs)"

section \<open>After the download\<close>

text \<open>\<open>moveFiles\<close> moves all files, in the order of the torrent; an error ends it.\<close>

fun move_each :: "host \<Rightarrow> string \<Rightarrow> string \<Rightarrow> string list \<Rightarrow> disk \<Rightarrow> disk \<times> bool" where
  "move_each h dir target [] d = (d, True)"
| "move_each h dir target (p # ps) d =
     (case os_mkdir_all h (path_dir (path_join target p)) d of
        (d1, False) \<Rightarrow> (d1, False)
      | (d1, True) \<Rightarrow> (case os_rename h (path_join dir p) (path_join target p) d1 of
          (d2, False) \<Rightarrow> (d2, False)
        | (d2, True) \<Rightarrow> move_each h dir target ps d2))"

definition move_files :: "host \<Rightarrow> bt_settings \<Rightarrow> bt_info \<Rightarrow> string \<Rightarrow> disk \<Rightarrow> disk \<times> bool" where
  "move_files h s info target d =
     (case os_mkdir_all h target d of
        (d1, False) \<Rightarrow> (d1, False)
      | (d1, True) \<Rightarrow> move_each h (bt_data_dir (bs_config s)) target (map fst (bi_files info)) d1)"

text \<open>What the ticker of the seeding sees: the bytes uploaded and the time since its start.\<close>

datatype seed_event = SeedStopped | SeedTick int duration

definition seed_total :: "bt_info \<Rightarrow> int" where
  "seed_total info = fold (\<lambda>f t. i64 (t + snd f)) (bi_files info) 0"

definition seed_reached :: "bt_config \<Rightarrow> int \<Rightarrow> int \<Rightarrow> duration \<Rightarrow> bool" where
  "seed_reached b tot up elapsed \<longleftrightarrow>
     (case bt_seed_ratio b of None \<Rightarrow> False | Some r \<Rightarrow> r > 0 \<and> f64 (f64 (of_int up) / f64 (of_int tot)) \<ge> r) \<or>
     (bt_seed_time b > 0 \<and> elapsed \<ge> bt_seed_time b)"

text \<open>Whether the loop has ended.\<close>

fun seed_loop :: "bt_config \<Rightarrow> int \<Rightarrow> seed_event list \<Rightarrow> bool" where
  "seed_loop b tot [] = False"
| "seed_loop b tot (SeedStopped # evs) = True"
| "seed_loop b tot (SeedTick up t # evs) = (seed_reached b tot up t \<or> seed_loop b tot evs)"

definition seed :: "bt_config \<Rightarrow> bt_info \<Rightarrow> seed_event list \<Rightarrow> bool" where
  "seed b info evs = (seed_total info = 0 \<or> seed_loop b (seed_total info) evs)"

section \<open>A download\<close>

text \<open>
  What the engine does: errors of creating it, of reading the torrent file and of adding the torrent, the info or the end of the context, what
  the two timers see. The seeding is told apart from the wait.
\<close>

record bt_engine =
  en_client :: "go_error option"
  en_load :: "go_error option"
  en_add :: "go_error option"
  en_info :: "go_error + bt_info"
  en_ticks :: "bt_event list"
  en_seed :: "seed_event list"

datatype bt_end = BtDownloading | BtSeeding | BtReturned "go_error option"

definition bt_finish :: "host \<Rightarrow> bt_settings \<Rightarrow> string \<Rightarrow> bt_engine \<Rightarrow> bt_info \<Rightarrow> disk \<Rightarrow> disk \<times> bt_end" where
  "bt_finish h s out en info d =
     (if out \<noteq> [] \<and> out \<noteq> bt_data_dir (bs_config s) then fst (move_files h s info out d) else d,
      if bt_seeding (bs_config s) \<and> \<not> seed (bs_config s) info (en_seed en) then BtSeeding else BtReturned None)"

definition create_torrent_client :: "host \<Rightarrow> bt_config \<Rightarrow> bt_engine \<Rightarrow> disk \<Rightarrow> disk \<times> (go_error + torrent_client)" where
  "create_torrent_client h b en d =
     (let c = torrent_client_config b in
      case os_mkdir_all h (tc_data_dir c) d of
        (d1, False) \<Rightarrow> (d1, Inl (Plain ''failed to create bt data dir''))
      | (d1, True) \<Rightarrow> (case en_client en of
          Some e \<Rightarrow> (d1, Inl (Wrapped ''failed to create torrent client'' e))
        | None \<Rightarrow> (d1, Inr c)))"

definition add_torrent :: "bt_config \<Rightarrow> string \<Rightarrow> bt_engine \<Rightarrow> go_error + bt_call list" where
  "add_torrent b url en =
     (let calls = (if bt_web_seeds b \<noteq> [] then [WebSeeds (bt_web_seeds b)] else []) in
      if is_magnet_link url then
        (case en_add en of None \<Rightarrow> Inr calls | Some e \<Rightarrow> Inl (Wrapped ''failed to add magnet link'' e))
      else if is_torrent_file url then
        (case en_load en of
           Some e \<Rightarrow> Inl (Wrapped ''failed to load torrent file'' e)
         | None \<Rightarrow> (case en_add en of None \<Rightarrow> Inr calls | Some e \<Rightarrow> Inl (Wrapped ''failed to add torrent'' e)))
      else Inl (Plain (''unsupported torrent source: '' @ url)))"

definition bt_download :: "host \<Rightarrow> bt_settings \<Rightarrow> string \<Rightarrow> string \<Rightarrow> bt_engine \<Rightarrow> disk \<Rightarrow> disk \<times> bt_call list \<times> bt_end" where
  "bt_download h s url out en d =
     (case create_torrent_client h (bs_config s) en d of
        (d1, Inl e) \<Rightarrow> (d1, [], BtReturned (Some e))
      | (d1, Inr c) \<Rightarrow> (case add_torrent (bs_config s) url en of
          Inl e \<Rightarrow> (d1, [], BtReturned (Some e))
        | Inr calls \<Rightarrow> (case en_info en of
            Inl e \<Rightarrow> (d1, calls, BtReturned (Some e))
          | Inr info \<Rightarrow>
              let calls = calls @ start_calls s info in
              (case wait_complete s info (en_ticks en) of
                 None \<Rightarrow> (d1, calls, BtDownloading)
               | Some (Some e) \<Rightarrow> (d1, calls, BtReturned (Some e))
               | Some None \<Rightarrow> (case bt_finish h s out en info d1 of (d2, r) \<Rightarrow> (d2, calls, r))))))"

text \<open>
  What the monitor keeps, for the bytes completed at its ticks: the last count, the counter and the speed of the
  last second.
\<close>

definition monitor_tick :: "int \<Rightarrow> int \<times> int \<times> int \<Rightarrow> int \<times> int \<times> int" where
  "monitor_tick cur m = (cur, cur, i64 (cur - fst m))"

text \<open>The percentage, before and after the info has come.\<close>

definition bt_progress :: "bt_info option \<Rightarrow> int \<Rightarrow> rat" where
  "bt_progress info completed =
     (case info of
        None \<Rightarrow> 0
      | Some i \<Rightarrow> if bi_total i = 0 then 0 else f64 (f64 (f64 (of_int completed) / f64 (of_int (bi_total i))) * 100))"

section \<open>Magnet links\<close>

text \<open>\<open>url.Values.Get\<close> of a raw query: pairs that cannot be decoded, or hold a semicolon, do not count.\<close>

definition query_unescape :: "string \<Rightarrow> string option" where
  "query_unescape s = unescape False (map (\<lambda>c. if c = CHR ''+'' then CHR '' '' else c) s)"

definition query_pair :: "string \<Rightarrow> (string \<times> string) option" where
  "query_pair p =
     (if CHR '';'' \<in> set p \<or> p = [] then None
      else case (query_unescape (before CHR ''='' p), query_unescape (after CHR ''='' p)) of
        (Some k, Some v) \<Rightarrow> Some (k, v)
      | _ \<Rightarrow> None)"

definition query_get :: "string \<Rightarrow> string \<Rightarrow> string" where
  "query_get key q = (case map_of (List.map_filter query_pair (split_on CHR ''&'' q)) key of None \<Rightarrow> [] | Some v \<Rightarrow> v)"

definition btih_prefix :: string where
  "btih_prefix = ''urn:btih:''"

definition parse_magnet_link :: "string \<Rightarrow> (string \<times> string) option" where
  "parse_magnet_link m =
     (if \<not> has_prefix m ''magnet:?'' \<or> url_parse m = None then None
      else
        let q = after CHR ''?'' (before CHR ''#'' m); xt = query_get ''xt'' q in
        Some (if has_prefix xt btih_prefix then drop (length btih_prefix) xt else xt, query_get ''dn'' q))"

section \<open>Selection\<close>

text \<open>The last priority a file has been given.\<close>

definition file_priority :: "nat \<Rightarrow> bt_call list \<Rightarrow> piece_priority option" where
  "file_priority i cs = fold (\<lambda>c p. case c of FilePriority j q \<Rightarrow> if j = i then Some q else p | _ \<Rightarrow> p) cs None"

lemma fold_file_priority:
  "fold (\<lambda>c p. case c of FilePriority j q \<Rightarrow> if j = i then Some q else p | _ \<Rightarrow> p) (map (\<lambda>j. FilePriority j q) js) p =
     (if i \<in> set js then Some q else p)"
  by (induction js arbitrary: p) auto

text \<open>
  With a selection exactly the selected files are wanted, and the call that would load everything is not made;
  without one everything is asked for.
\<close>
theorem torrent_selection:
  "(bs_select s \<noteq> [] \<longrightarrow> DownloadAll \<notin> set (start_calls s info) \<and>
      list_all (\<lambda>i. file_priority i (start_calls s info) =
        Some (if selects s (fst (bi_files info ! i)) then PriorityNormal else PriorityNone)) [0..<length (bi_files info)]) \<and>
   (bs_select s = [] \<longrightarrow> DownloadAll \<in> set (start_calls s info))"
proof (cases "bs_select s = []")
  case True
  then show ?thesis by (simp add: start_calls_def Let_def)
next
  case False
  let ?n = "length (bi_files info)"
  have "file_priority i (start_calls s info) = Some (if selects s (fst (bi_files info ! i)) then PriorityNormal else PriorityNone)"
    if "i < ?n" for i
    using False that by (simp add: file_priority_def start_calls_def Let_def fold_file_priority)
  moreover have "DownloadAll \<notin> set (start_calls s info)" using False by (auto simp: start_calls_def Let_def)
  ultimately show ?thesis using False by (simp add: list_all_iff)
qed

section \<open>The end of a download\<close>

lemma wait_complete_tick:
  "wait_complete s info evs = Some None \<Longrightarrow> \<exists>fs t. BtTick fs t \<in> set evs \<and> is_download_complete s info fs t"
  by (induction s info evs rule: wait_complete.induct) (auto split: if_splits)

text \<open>A download that returns without an error, or seeds, has seen all wanted bytes.\<close>

lemma bt_download_done:
  assumes "bt_download h s url out en d = (d', calls, r)" "r = BtReturned None \<or> r = BtSeeding"
  shows "\<exists>info d1. en_info en = Inr info \<and> wait_complete s info (en_ticks en) = Some None \<and> bt_finish h s out en info d1 = (d', r)"
  using assms by (auto simp: bt_download_def Let_def split: prod.splits bool.splits option.splits if_splits sum.splits)

lemma bt_download_complete:
  assumes "bt_download h s url out en d = (d', calls, r)" "r = BtReturned None \<or> r = BtSeeding"
  shows "\<exists>info fs t. en_info en = Inr info \<and> BtTick fs t \<in> set (en_ticks en) \<and> is_download_complete s info fs t"
  using bt_download_done [OF assms] wait_complete_tick by blast

text \<open>A selection that matches no file is complete at once.\<close>

lemma unmatched_selection_complete:
  assumes "bs_select s \<noteq> []" "\<And>p l. (p, l) \<in> set (bi_files info) \<Longrightarrow> \<not> selects s p"
  shows "wait_complete s info (BtTick fs t # evs) = Some None"
  using assms by (auto simp: is_download_complete_def list_all_iff dest: set_zip_leftD)

section \<open>Seeding\<close>

lemma seed_loop_never:
  assumes "case bt_seed_ratio b of None \<Rightarrow> True | Some r \<Rightarrow> r \<le> 0" "bt_seed_time b \<le> 0" "SeedStopped \<notin> set evs"
  shows "\<not> seed_loop b tot evs"
proof -
  have "\<not> seed_reached b tot up t" for up t using assms(1,2) by (auto simp: seed_reached_def split: option.splits)
  then show ?thesis using assms(3)
  proof (induction evs)
    case (Cons ev evs)
    then show ?case by (cases ev) auto
  qed simp
qed

text \<open>
  Without a configuration \<open>NewBTDownloaderFromURL\<close> turns seeding on and sets no target: a download that has all its
  data never returns, unless it is cancelled.
\<close>
theorem seeding_without_targets:
  assumes "Option.bind cfg dc_bt = None" "en_info en = Inr info" "seed_total info \<noteq> 0" "SeedStopped \<notin> set (en_seed en)"
  shows "snd (snd (bt_download h (full_bt_settings cfg) url out en d)) \<noteq> BtReturned None"
proof -
  let ?b = "bs_config (full_bt_settings cfg)"
  have b: "bt_seed_ratio ?b = Some 0" "bt_seed_time ?b = 0" "bt_seeding ?b"
    using assms(1) by (simp_all add: full_bt_settings_def no_bt_config_def)
  have "\<not> seed ?b info (en_seed en)" using seed_loop_never [of ?b "en_seed en"] b assms(3,4) by (simp add: seed_def)
  then have fin: "bt_finish h (full_bt_settings cfg) out en info d1 \<noteq> (d', BtReturned None)" for d1 d' using b by (simp add: bt_finish_def)
  show ?thesis
  proof
    assume "snd (snd (bt_download h (full_bt_settings cfg) url out en d)) = BtReturned None"
    then obtain d' calls where "bt_download h (full_bt_settings cfg) url out en d = (d', calls, BtReturned None)"
      by (metis prod.collapse)
    from bt_download_done [OF this] show False using assms(2) fin by auto
  qed
qed

section \<open>Encryption\<close>

text \<open>
  C20: Encryption that is required in the configuration does not reach the downloader that \<open>NewDownloaderFromURL\<close> makes:
  whatever the configuration says, plain text is offered, accepted by the selector of the engine, and no obfuscation is asked for.
\<close>
theorem required_encryption_ignored:
  assumes "choose_downloader aws cfg url = Inr (TorrentChosen s)"
  shows "tc_provides_plain (torrent_client_config (bs_config s)) \<and>
    \<not> tc_require_obfuscation (torrent_client_config (bs_config s)) \<and>
    tc_selector (torrent_client_config (bs_config s)) = DefaultSelector \<and> \<not> bt_seeding (bs_config s)"
proof -
  have s: "s = inline_bt_settings cfg"
    using assms by (auto simp: choose_downloader_def split: if_splits option.splits)
  have b: "\<not> bt_require_encryption (bs_config s)" "bt_min_crypto (bs_config s) = []" "\<not> bt_seeding (bs_config s)"
    unfolding s by (auto simp: inline_bt_settings_def no_bt_config_def Let_def split: option.split)
  have "min_crypto_level (bs_config s) = []" using b by (simp add: min_crypto_level_def) (simp add: trim_space_def to_lower_def)
  then show ?thesis using b by (simp add: torrent_client_config_def Let_def)
qed

text \<open>The other constructor keeps it: only RC4 is provided, and chosen unless a level is configured.\<close>

lemma required_encryption_kept:
  assumes "Option.bind cfg dc_bt = Some b" "bt_require_encryption b"
  shows "\<not> tc_provides_plain (torrent_client_config (bs_config (full_bt_settings cfg)))"
    "tc_require_obfuscation (torrent_client_config (bs_config (full_bt_settings cfg)))"
    "to_lower (trim_space (bt_min_crypto b)) \<in> {[], ''arc4''} \<Longrightarrow>
       select_crypto dflt (torrent_client_config (bs_config (full_bt_settings cfg))) p \<noteq> PlainText"
  using assms by (auto simp: full_bt_settings_def torrent_client_config_def select_crypto_def min_crypto_level_def Let_def)

text \<open>A level with a spelling mistake falls back to the selector of the engine, which may choose plain text.\<close>

lemma misspelt_level:
  "tc_selector (torrent_client_config (no_bt_config\<lparr>bt_require_encryption := True, bt_min_crypto := ''rc4''\<rparr>)) = DefaultSelector"
  by code_simp

section \<open>Moving\<close>

text \<open>
  Files that were not selected, and so not written, are moved as well: the first of them ends the moving, and the
  download returns without an error while the selected file stays where it was.
\<close>

definition demo_torrent_host :: host where
  "demo_torrent_host = \<lparr>ho_cwd = ''/'', ho_fault = (\<lambda>_. None), ho_same_device = (\<lambda>_ _. True)\<rparr>"

definition demo_torrent_disk :: disk where
  "demo_torrent_disk = \<lparr>dk_tree = [([''d''], Dir), ([''d'', ''b''], Data ''x'')], dk_clock = 0\<rparr>"

definition demo_engine :: "int list \<Rightarrow> bt_engine" where
  "demo_engine got = \<lparr>en_client = None, en_load = None, en_add = None, en_info = Inr \<lparr>bi_files = [(''a'', 1), (''b'', 1)], bi_pieces = 2, bi_total = 2\<rparr>,
     en_ticks = [BtTick got (sum_list got)], en_seed = []\<rparr>"

lemma selected_file_not_moved:
  "(case bt_download demo_torrent_host \<lparr>bs_config = no_bt_config\<lparr>bt_data_dir := ''/d''\<rparr>, bs_select = [''b'']\<rparr> ''magnet:?x'' ''/out''
      (demo_engine [0, 1]) demo_torrent_disk of (d, calls, r) \<Rightarrow>
      (os_read demo_torrent_host ''/out/b'' d, os_read demo_torrent_host ''/d/b'' d, r)) = (None, Some ''x'', BtReturned None)"
  by code_simp

text \<open>Without a data directory the engine writes to \<open>./bt-data\<close>, and the files are looked for elsewhere.\<close>

lemma moved_from_wrong_directory:
  "tc_data_dir (torrent_client_config no_bt_config) = ''./bt-data'' \<and> path_join (bt_data_dir no_bt_config) ''a'' = ''a''"
  by code_simp

section \<open>Addresses\<close>

text \<open>Torrent and metalink files on a server are taken for local files.\<close>

lemma remote_torrent_taken_for_file:
  "choose_downloader None None ''http://h/a.torrent'' = Inr (TorrentChosen (inline_bt_settings None))"
  "choose_downloader None None ''ftp://h/a.meta4'' = Inr MetalinkChosen"
  by code_simp+

text \<open>A link in capitals is recognised, and refused by the parser.\<close>

lemma magnet_in_capitals: "is_magnet_link ''MAGNET:?xt=urn:btih:ab'' \<and> parse_magnet_link ''MAGNET:?xt=urn:btih:ab'' = None"
  by code_simp

definition plain_query_char :: "char \<Rightarrow> bool" where
  "plain_query_char c \<longleftrightarrow> is_alpha c \<or> is_digit c \<or> c \<in> {CHR ''-'', CHR ''.'', CHR ''_''}"

lemma plain_query_char_not [simp]:
  "\<not> plain_query_char CHR ''%''" "\<not> plain_query_char CHR ''+''" "\<not> plain_query_char CHR ''&''" "\<not> plain_query_char CHR '';''"
  "\<not> plain_query_char CHR ''#''" "\<not> plain_query_char CHR ''=''"
  by code_simp+

lemma plain_not_ctl: "plain_query_char c \<Longrightarrow> \<not> is_ctl c"
  by (auto simp: plain_query_char_def is_ctl_def is_alpha_def is_digit_def is_lower_alpha_def is_upper_alpha_def char_code_def)

lemma unescape_no_percent: "CHR ''%'' \<notin> set s \<Longrightarrow> unescape host s = Some s"
  by (induction s) auto

lemma query_unescape_plain: "CHR ''%'' \<notin> set s \<Longrightarrow> CHR ''+'' \<notin> set s \<Longrightarrow> query_unescape s = Some s"
proof -
  assume a: "CHR ''%'' \<notin> set s" "CHR ''+'' \<notin> set s"
  then have "map (\<lambda>c. if c = CHR ''+'' then CHR '' '' else c) s = s" by (auto intro: map_idI)
  then show ?thesis using a(1) by (simp add: query_unescape_def unescape_no_percent)
qed

lemma query_pair_plain:
  assumes "list_all plain_query_char v" "k \<in> {''xt'', ''dn''}" "p \<in> {[], ''urn:btih:''}"
  shows "query_pair (k @ ''='' @ p @ v) = Some (k, p @ v)"
proof -
  have not: "c \<notin> set v" if "\<not> plain_query_char c" for c using assms(1) that by (auto simp: list_all_iff)
  have eq: "CHR ''='' \<notin> set k" using assms(2) by auto
  have split: "before CHR ''='' (k @ ''='' @ p @ v) = k" "after CHR ''='' (k @ ''='' @ p @ v) = p @ v"
    using before_after [OF eq, of "p @ v"] by simp_all
  have "query_unescape k = Some k" "query_unescape (p @ v) = Some (p @ v)"
    using assms(2,3) not by (auto intro!: query_unescape_plain)
  moreover have "CHR '';'' \<notin> set (k @ ''='' @ p @ v)" using assms(2,3) not by auto
  ultimately show ?thesis unfolding query_pair_def split by simp
qed

lemma after_none: "d \<notin> set xs \<Longrightarrow> after d xs = []"
  by (induction xs) (auto simp: after_def)

lemma magnet_scheme: "get_scheme raw [] (''magnet:'' @ r) = Some (''magnet'', r)"
proof -
  have "is_alpha CHR ''m''" "is_alpha CHR ''a''" "is_alpha CHR ''g''" "is_alpha CHR ''n''" "is_alpha CHR ''e''" "is_alpha CHR ''t''"
    "\<not> is_alpha CHR '':''" "\<not> is_digit CHR '':''"
    by code_simp+
  then show ?thesis by simp
qed

lemma magnet_parses:
  assumes "CHR ''#'' \<notin> set r" "\<not> list_ex is_ctl r"
  shows "url_parse (''magnet:?'' @ r) \<noteq> None"
proof -
  let ?m = "''magnet:'' @ CHR ''?'' # r"
  have hash: "CHR ''#'' \<notin> set ?m" using assms(1) by simp
  have ctl: "\<not> list_ex is_ctl ''magnet:?''" by code_simp
  then have "\<not> list_ex is_ctl ?m" using assms(2) by simp
  moreover have "to_lower ''magnet'' = ''magnet''" by code_simp
  moreover have "before CHR ''?'' (CHR ''?'' # r) = []" by (simp add: before_def)
  ultimately have "url_parse ?m = Some \<lparr>u_scheme = ''magnet'', u_host = [], u_path = []\<rparr>"
    unfolding url_parse_def Let_def before_none [OF hash] after_none [OF hash] magnet_scheme by simp
  then show ?thesis by simp
qed

text \<open>Hash and name of a magnet link are read back.\<close>
theorem magnet_roundtrip:
  assumes "list_all plain_query_char hash" "list_all plain_query_char name"
  shows "parse_magnet_link (''magnet:?xt=urn:btih:'' @ hash @ ''&dn='' @ name) = Some (hash, name)"
proof -
  let ?m = "''magnet:?xt=urn:btih:'' @ hash @ ''&dn='' @ name"
  have not: "c \<notin> set hash" "c \<notin> set name" if "\<not> plain_query_char c" for c using assms that by (auto simp: list_all_iff)
  have hash: "CHR ''#'' \<notin> set ?m" using not by simp
  have frag: "before CHR ''#'' ?m = ?m" using hash by (rule before_none)
  let ?r = "''xt=urn:btih:'' @ hash @ ''&dn='' @ name"
  have ctl: "\<not> list_ex is_ctl ''xt=urn:btih:''" "\<not> list_ex is_ctl ''&dn=''" by code_simp+
  have "\<not> list_ex is_ctl hash" "\<not> list_ex is_ctl name" using assms plain_not_ctl by (auto simp: list_ex_iff list_all_iff)
  then have "\<not> list_ex is_ctl ?r" using ctl unfolding list_ex_append by simp
  then have parsed: "url_parse ?m \<noteq> None" using magnet_parses [of ?r] hash by simp
  have query: "after CHR ''?'' ?m = ''xt=urn:btih:'' @ hash @ ''&dn='' @ name"
    by (simp add: after_def)
  have amp: "CHR ''&'' \<notin> set (''xt=urn:btih:'' @ hash)" "CHR ''&'' \<notin> set (''dn='' @ name)" using not by auto
  have "split_on CHR ''&'' (''xt=urn:btih:'' @ hash @ ''&dn='' @ name) = [''xt=urn:btih:'' @ hash, ''dn='' @ name]"
    using split_on_append [OF amp(1), of "''dn='' @ name"] split_on_single [OF amp(2)] by simp
  then have get: "query_get ''xt'' (''xt=urn:btih:'' @ hash @ ''&dn='' @ name) = ''urn:btih:'' @ hash"
    "query_get ''dn'' (''xt=urn:btih:'' @ hash @ ''&dn='' @ name) = name"
    using query_pair_plain [OF assms(1), of "''xt''" "''urn:btih:''"] query_pair_plain [OF assms(2), of "''dn''" "[]"]
    by (simp_all add: query_get_def List.map_filter_simps)
  show ?thesis
    unfolding parse_magnet_link_def frag query Let_def get using parsed by (simp add: btih_prefix_def)
qed

section \<open>Witnesses\<close>

theorem seeding_without_targets_witness:
  "snd (snd (bt_download demo_torrent_host (full_bt_settings None) ''magnet:?x'' [] (demo_engine [1, 1]) demo_torrent_disk)) \<noteq> BtReturned None"
proof -
  have "seed_total \<lparr>bi_files = [(''a'', 1), (''b'', 1)], bi_pieces = 2, bi_total = 2\<rparr> \<noteq> 0" by code_simp
  then show ?thesis
    using seeding_without_targets [of None "demo_engine [1, 1]"] by (simp add: demo_engine_def)
qed

theorem required_encryption_ignored_witness:
  "tc_provides_plain (torrent_client_config (bs_config (inline_bt_settings
     (Some (default_download_config\<lparr>dc_bt := Some (default_bt_config\<lparr>bt_require_encryption := True\<rparr>)\<rparr>)))))"
proof -
  let ?c = "Some (default_download_config\<lparr>dc_bt := Some (default_bt_config\<lparr>bt_require_encryption := True\<rparr>)\<rparr>)"
  have u: "\<not> is_metalink_file ''magnet:?x''" "\<not> is_ftp_url ''magnet:?x''" "\<not> is_sftp_url ''magnet:?x''" "\<not> is_s3_url ''magnet:?x''"
    "\<not> is_webdav_url ''magnet:?x''" "is_magnet_link ''magnet:?x''"
    by code_simp+
  have "choose_downloader None ?c ''magnet:?x'' = Inr (TorrentChosen (inline_bt_settings ?c))"
    unfolding choose_downloader_def using u by simp
  from required_encryption_ignored [OF this] show ?thesis by blast
qed

theorem magnet_roundtrip_witness: "parse_magnet_link ''magnet:?xt=urn:btih:ab12&dn=file.iso'' = Some (''ab12'', ''file.iso'')"
proof -
  have "list_all plain_query_char ''ab12''" "list_all plain_query_char ''file.iso''" by code_simp+
  from magnet_roundtrip [OF this] show ?thesis by simp
qed

end
