(* ===== verification/TaskHandlers.thy ===== *)
theory TaskHandlers
  imports ControlSound
begin

text \<open>
  The second set of handlers, \<open>internal/api/handlers.go\<close>, which no route uses, and the shutdown request of
  \<open>internal/api/signals.go\<close>. The handlers work on the same objects as those of \<open>server.go\<close>; the theorems compare the two.
\<close>

section \<open>Paths\<close>

definition tasks_prefix :: string where
  "tasks_prefix = ''/api/tasks/''"

definition is_task_path :: "string \<Rightarrow> bool" where
  "is_task_path p \<longleftrightarrow> length p > length tasks_prefix \<and> take (length tasks_prefix) p = tasks_prefix"

definition extract_task_id :: "string \<Rightarrow> string" where
  "extract_task_id p = drop (length tasks_prefix) p"

definition is_pause_action :: "string \<Rightarrow> bool" where
  "is_pause_action p \<longleftrightarrow> length p > length tasks_prefix + length ''/pause'' \<and> has_suffix p ''/pause''"

definition is_resume_action :: "string \<Rightarrow> bool" where
  "is_resume_action p \<longleftrightarrow> length p > length tasks_prefix + length ''/resume'' \<and> has_suffix p ''/resume''"

text \<open>The part between the prefix and a suffix of length \<open>n\<close>.\<close>

definition inner_part :: "nat \<Rightarrow> string \<Rightarrow> string" where
  "inner_part n p = drop (length tasks_prefix) (take (length p - n) p)"

definition parse_task_path :: "string \<Rightarrow> bool \<times> string \<times> string" where
  "parse_task_path p =
     (if \<not> is_task_path p then (False, [], [])
      else if is_pause_action p then (True, inner_part (length ''/pause'') p, ''pause'')
      else if is_resume_action p then (True, inner_part (length ''/resume'') p, ''resume'')
      else (True, extract_task_id p, []))"

section \<open>Tasks\<close>

record update_request =
  up_priority :: "int option"
  up_metadata :: "(string \<rightharpoonup> string) option"

definition list_tasks_handler :: "env \<Rightarrow> header \<Rightarrow> app \<Rightarrow> app \<times> api_body outcome" where
  "list_tasks_handler ev h a =
     (let tasks = app_list ev a in
      (a, write_json 200 (Body (TaskListBody (map (\<lambda>r. get_safe (app_task a r)) tasks) (int (length tasks))
         (active_count (ap_queue a)) 0 0)) h))"

text \<open>Neither the URL nor the path nor the priority is checked.\<close>

definition create_task_handler :: "env \<Rightarrow> create_request option \<Rightarrow> header \<Rightarrow> app \<Rightarrow> app \<times> api_body outcome" where
  "create_task_handler ev body h a =
     (case body of
        None \<Rightarrow> (a, send_error 400 ''Invalid request body'' [] h)
      | Some req \<Rightarrow>
          if cq_url req = [] then (a, send_error 400 ''URL is required'' [] h)
          else if cq_output req = [] \<and> ap_cfg a = None then (a, Panicked h)
          else
            let out = (if cq_output req = [] then path_join (nc_data_dir (cf_node (the (ap_cfg a)))) ''downloads''
                       else cq_output req) in
            (case app_alloc ev (cq_url req) out a of
              (a1, r) \<Rightarrow>
                let a2 = app_write r (\<lambda>t. case cq_metadata req of
                        None \<Rightarrow> t\<lparr>t_priority := cq_priority req\<rparr>
                      | Some md \<Rightarrow> t\<lparr>t_priority := cq_priority req, t_metadata := md\<rparr>) a1 in
                (case add_task ev r a2 of
                   (a3, Some e) \<Rightarrow> (a3, send_error 500 ''Failed to add task'' (queue_error_text e) h)
                 | (a3, None) \<Rightarrow>
                     if \<not> ap_store a3 then (a3, Panicked h)
                     else task_reply 201 r h (effect (StoreSave (get_safe (app_task a3 r))) a3))))"

definition get_task_handler :: "string \<Rightarrow> header \<Rightarrow> app \<Rightarrow> app \<times> api_body outcome" where
  "get_task_handler tid h a =
     (case queue_get tid (ap_queue a) of
        Inl e \<Rightarrow> (a, send_error 404 (queue_error_text e) [] h)
      | Inr r \<Rightarrow> (a, write_json 200 (Body (TaskBody (get_safe (app_task a r)))) h))"

definition update_task_handler :: "instant \<Rightarrow> update_request option \<Rightarrow> string \<Rightarrow> header \<Rightarrow> app \<Rightarrow> app \<times> api_body outcome" where
  "update_task_handler now body tid h a =
     (case body of
        None \<Rightarrow> (a, send_error 400 ''Invalid request body'' [] h)
      | Some req \<Rightarrow> (case queue_get tid (ap_queue a) of
          Inl e \<Rightarrow> (a, send_error 404 (queue_error_text e) [] h)
        | Inr r \<Rightarrow>
            if (case up_priority req of None \<Rightarrow> False | Some p \<Rightarrow> p < 0 \<or> p > 10)
            then (a, send_error 400 ''Priority must be between 0 and 10'' [] h)
            else
              let a1 = (case up_priority req of None \<Rightarrow> a | Some p \<Rightarrow> app_write r (set_priority now p) a);
                  a2 = (case up_metadata req of None \<Rightarrow> a1 | Some md \<Rightarrow> app_write r (set_metadata now md) a1)
              in task_reply 200 r h a2))"

definition delete_task_handler :: "string \<Rightarrow> header \<Rightarrow> app \<Rightarrow> app \<times> api_body outcome" where
  "delete_task_handler tid h a =
     (case queue_remove tid (ap_queue a) of
        (q, Inl e) \<Rightarrow> (a\<lparr>ap_queue := q\<rparr>, send_error 404 (queue_error_text e) [] h)
      | (q, Inr _) \<Rightarrow>
          if \<not> ap_store a then (a\<lparr>ap_queue := q\<rparr>, Panicked h)
          else (effect (HubTaskGone tid) (effect (StoreDelete tid) (a\<lparr>ap_queue := q\<rparr>)), reply 204 h NoBody))"

definition pause_task_handler :: "instant \<Rightarrow> string \<Rightarrow> header \<Rightarrow> app \<Rightarrow> app \<times> api_body outcome" where
  "pause_task_handler now tid h a =
     (case queue_pause now tid (ap_queue a) of
        (q, Inl e) \<Rightarrow> (a\<lparr>ap_queue := q\<rparr>, send_error 400 (queue_error_text e) [] h)
      | (q, Inr _) \<Rightarrow> (case queue_get tid q of
            Inl e \<Rightarrow> (a\<lparr>ap_queue := q\<rparr>, send_error 500 ''Failed to get task after pause'' (queue_error_text e) h)
          | Inr r \<Rightarrow> task_reply 200 r h (a\<lparr>ap_queue := q\<rparr>)))"

definition resume_task_handler :: "instant \<Rightarrow> string \<Rightarrow> header \<Rightarrow> app \<Rightarrow> app \<times> api_body outcome" where
  "resume_task_handler now tid h a =
     (case queue_resume now tid (ap_queue a) of
        (q, Inl e) \<Rightarrow> (a\<lparr>ap_queue := q\<rparr>, send_error 400 (queue_error_text e) [] h)
      | (q, Inr _) \<Rightarrow> (case queue_get tid q of
            Inl e \<Rightarrow> (a\<lparr>ap_queue := q\<rparr>, send_error 500 ''Failed to get task after resume'' [] h)
          | Inr r \<Rightarrow> task_reply 200 r h (a\<lparr>ap_queue := q\<rparr>)))"

definition handle_task_action :: "instant \<Rightarrow> string \<Rightarrow> string \<Rightarrow> header \<Rightarrow> app \<Rightarrow> app \<times> api_body outcome" where
  "handle_task_action now tid action h a =
     (if action = ''pause'' then pause_task_handler now tid h a
      else if action = ''resume'' then resume_task_handler now tid h a
      else (a, send_error 400 ''Unknown action'' action h))"

record task_stats =
  st_total :: nat
  st_active :: nat
  st_pending :: nat
  st_paused :: nat
  st_done :: nat
  st_failed :: nat

definition task_stats_of :: "env \<Rightarrow> app \<Rightarrow> task_stats" where
  "task_stats_of ev a =
     (let ss = map (\<lambda>r. get_status (app_task a r)) (app_list ev a); n = (\<lambda>s. length (filter (\<lambda>x. x = s) ss)) in
      \<lparr>st_total = length ss, st_active = n StatusDownloading, st_pending = n StatusPending, st_paused = n StatusPaused,
       st_done = n StatusDone, st_failed = n StatusFailed\<rparr>)"

section \<open>Nodes and status\<close>

text \<open>\<open>ks\<close> is the order in which the map of members is visited.\<close>

definition list_nodes_handler :: "string list \<Rightarrow> header \<Rightarrow> app \<Rightarrow> api_body outcome" where
  "list_nodes_handler ks h a =
     write_json 200 (Body (NodesBody (members ks (ap_members a) @ [fst (local_node_info (ap_local a))]))) h"

definition get_status_handler :: "string list \<Rightarrow> instant \<Rightarrow> header \<Rightarrow> app \<Rightarrow> api_body outcome" where
  "get_status_handler ks now h a =
     write_json 200 (Body (StatusBody
       \<lparr>cs_node_count = member_count (ap_members a) + 1, cs_online_count = online_count ks (ap_members a) + 1,
        cs_task_count = int (total_count (ap_queue a)), cs_active_tasks = active_count (ap_queue a),
        cs_local = fst (local_node_info (ap_local a)), cs_version = snd (snd (local_node_info (ap_local a))),
        cs_uptime = now - fst (snd (local_node_info (ap_local a)))\<rparr>)) h"

text \<open>Total, online and offline nodes.\<close>

definition node_stats :: "string list \<Rightarrow> app \<Rightarrow> int \<times> int \<times> int" where
  "node_stats ks a =
     (let n = member_count (ap_members a); k = online_count ks (ap_members a) in
      (n + 1, k + 1, if n - k < 0 then 0 else n - k))"

text \<open>The services with their status and message.\<close>

definition health :: "app \<Rightarrow> string \<times> (string \<times> string \<times> string) list" where
  "health a =
     (''healthy'',
      [(''api'', ''healthy'', ''API server is running''),
       (''cluster'', ''healthy'', ''Connected to '' @ show_int (member_count (ap_members a)) @ '' nodes''),
       (''task_queue'', ''healthy'', show_int (int (total_count (ap_queue a))) @ '' tasks in queue''),
       (''node'', ''healthy'', ''Node '' @ n_id (fst (local_node_info (ap_local a))) @ '' is online'')])"

section \<open>Shutdown\<close>

definition sigint :: int where "sigint = 2"
definition sigterm :: int where "sigterm = 15"

text \<open>\<open>found\<close> is the error of finding the process, \<open>signal\<close> that of sending a signal to it.\<close>

definition proc_signal :: "'e option \<Rightarrow> (int \<Rightarrow> 'e option) \<Rightarrow> int \<Rightarrow> 'e option" where
  "proc_signal found signal sig =
     (case found of
        Some e \<Rightarrow> Some e
      | None \<Rightarrow> (case signal sig of None \<Rightarrow> None | Some _ \<Rightarrow> signal sigint))"

definition request_graceful_shutdown :: "(int \<Rightarrow> 'e option) option \<Rightarrow> 'e option \<Rightarrow> (int \<Rightarrow> 'e option) \<Rightarrow> 'e option" where
  "request_graceful_shutdown handler found signal =
     (case handler of Some f \<Rightarrow> f sigterm | None \<Rightarrow> proc_signal found signal sigterm)"

section \<open>The invariant of the queue\<close>

datatype handler_call =
    CallCreate "create_request option"
  | CallUpdate "update_request option" string
  | CallDelete string
  | CallAction string string

fun run_call :: "env \<Rightarrow> handler_call \<Rightarrow> app \<Rightarrow> app" where
  "run_call ev (CallCreate body) a = fst (create_task_handler ev body Map.empty a)"
| "run_call ev (CallUpdate body tid) a = fst (update_task_handler (ev_now ev) body tid Map.empty a)"
| "run_call ev (CallDelete tid) a = fst (delete_task_handler tid Map.empty a)"
| "run_call ev (CallAction tid action) a = fst (handle_task_action (ev_now ev) tid action Map.empty a)"

lemma create_handler_ok: "app_ok a \<Longrightarrow> app_ok (fst (create_task_handler ev body h a))"
proof (cases body)
  case (Some req)
  assume a: "app_ok a"
  let ?out = "if cq_output req = [] then path_join (nc_data_dir (cf_node (the (ap_cfg a)))) ''downloads'' else cq_output req"
  let ?f = "\<lambda>t. case cq_metadata req of None \<Rightarrow> t\<lparr>t_priority := cq_priority req\<rparr>
      | Some md \<Rightarrow> t\<lparr>t_priority := cq_priority req, t_metadata := md\<rparr>"
  obtain b r where b: "app_alloc ev (cq_url req) ?out a = (b, r)" by fastforce
  note al = app_alloc_ok [OF a b]
  have "app_ok (fst (add_task ev r (app_write r ?f b)))"
    using al by (intro add_task_ok app_ok_edit) (simp_all split: option.split)
  moreover obtain c e where c: "add_task ev r (app_write r ?f b) = (c, e)" by fastforce
  ultimately have "app_ok c" by simp
  then show ?thesis using a
    by (simp only: create_task_handler_def Some option.case Let_def b prod.case c if_distrib [of fst] if_distrib [of app_ok] fst_conv)
      (simp split: option.split)
qed (simp add: create_task_handler_def)

lemma update_handler_ok: "app_ok a \<Longrightarrow> app_ok (fst (update_task_handler now body tid h a))"
proof -
  assume a: "app_ok a"
  have p: "app_ok (app_write r (set_priority now p) b)" if "app_ok b" for r p b
    using that by (intro app_ok_edit) (simp_all add: set_priority_def)
  have m: "app_ok (app_write r (set_metadata now md) b)" if "app_ok b" for r md b
    using that by (intro app_ok_edit) (simp_all add: set_metadata_def)
  show ?thesis using a p m by (simp add: update_task_handler_def Let_def split: option.split sum.split)
qed

lemma delete_handler_ok: "app_ok a \<Longrightarrow> app_ok (fst (delete_task_handler tid h a))"
  using app_ok_remove [of a tid]
  by (cases "queue_remove tid (ap_queue a)") (simp add: delete_task_handler_def split: sum.split)

lemma action_handler_ok: "app_ok a \<Longrightarrow> app_ok (fst (handle_task_action now tid action h a))"
  using app_ok_pause [of a now tid] app_ok_resume [of a now tid]
  by (cases "queue_pause now tid (ap_queue a)"; cases "queue_resume now tid (ap_queue a)")
    (simp add: handle_task_action_def pause_task_handler_def resume_task_handler_def split: sum.split)

lemma run_call_ok: "app_ok a \<Longrightarrow> app_ok (run_call ev c a)"
  by (cases c) (simp_all add: create_handler_ok update_handler_ok delete_handler_ok action_handler_ok)

lemma new_app_ok: "ap_queue a = new_task_queue mx store \<Longrightarrow> app_ok a"
  using pq_refs_Nil queue_reach.init [of mx store]
  by (simp add: app_ok_def queue_below_def new_task_queue_def heap_init_def)

text \<open>
  These handlers keep the invariant of the queue as well, whatever calls are made and whatever the clock and the
  identifiers are.
\<close>
theorem handlers_keep_queue_sound:
  assumes "ap_queue a = new_task_queue mx store"
  shows "queue_inv {} (ap_queue (fold (\<lambda>(ev, c). run_call ev c) calls a))"
proof -
  have "app_ok (fold (\<lambda>(ev, c). run_call ev c) calls a)"
    using new_app_ok [OF assms] by (induction calls arbitrary: a) (auto intro: run_call_ok)
  then show ?thesis using queue_reach_inv by (auto simp: app_ok_def)
qed

section \<open>Agreement with the server\<close>

definition outcome_status :: "'b outcome \<Rightarrow> int option" where
  "outcome_status o' = (case o' of Reply r \<Rightarrow> Some (rs_status r) | Panicked _ \<Rightarrow> None)"

text \<open>Same state, same status.\<close>

definition agrees :: "app \<times> 'b outcome \<Rightarrow> app \<times> 'c outcome \<Rightarrow> bool" where
  "agrees x y \<longleftrightarrow> fst x = fst y \<and> outcome_status (snd x) = outcome_status (snd y)"

lemma status_simps [simp]:
  "outcome_status (send_error c m d h) = Some c" "outcome_status (write_json c b h) = Some c" "outcome_status (reply c h b) = Some c"
  "outcome_status (Panicked h) = None"
  by (simp_all add: outcome_status_def send_error_def write_json_def reply_def)

lemma switch_agrees:
  "agrees (switch_task ''pause'' (queue_pause now) tid h a) (pause_task_handler now tid h a)"
  "agrees (switch_task ''resume'' (queue_resume now) tid h a) (resume_task_handler now tid h a)"
  by (auto simp: agrees_def switch_task_def pause_task_handler_def resume_task_handler_def task_reply_def
      split: prod.split sum.split)

lemma delete_agrees: "agrees (delete_task tid h a) (delete_task_handler tid h a)"
  by (auto simp: agrees_def delete_task_def delete_task_handler_def split: prod.split sum.split)

lemma get_agrees: "agrees (get_task tid h a) (get_task_handler tid h a)"
  by (auto simp: agrees_def get_task_def get_task_handler_def split: sum.split)

lemma suffix_append [simp]: "has_suffix (xs @ ys) ys"
  by (auto simp: has_suffix_iff)

lemma resume_not_pause: "\<not> has_suffix (tid @ ''/resume'') ''/pause''"
  by (simp add: has_suffix_def)

lemma long_suffix: "length ys \<ge> length p \<Longrightarrow> has_suffix (xs @ ys) p \<Longrightarrow> has_suffix ys p"
  by (auto simp: has_suffix_iff append_eq_append_conv2)

lemma split_path:
  assumes "tid \<noteq> []" "\<not> has_suffix tid ''/pause''" "\<not> has_suffix tid ''/resume''"
  shows "parse_task_path (tasks_prefix @ tid @ ''/pause'') = (True, tid, ''pause'')"
    "parse_task_path (tasks_prefix @ tid @ ''/resume'') = (True, tid, ''resume'')"
    "parse_task_path (tasks_prefix @ tid) = (True, tid, [])"
proof -
  have len: "length tid > 0" using assms(1) by simp
  have pause: "has_suffix (tasks_prefix @ tid @ ''/pause'') ''/pause''" "has_suffix (tasks_prefix @ tid @ ''/resume'') ''/resume''"
    "\<not> has_suffix (tasks_prefix @ tid @ ''/resume'') ''/pause''"
    by (simp_all add: has_suffix_def)
  have plain: "\<not> (length tid > 6 \<and> has_suffix (tasks_prefix @ tid) ''/pause'')" "\<not> (length tid > 7 \<and> has_suffix (tasks_prefix @ tid) ''/resume'')"
    using long_suffix [of "''/pause''" tid tasks_prefix] long_suffix [of "''/resume''" tid tasks_prefix] assms(2,3) by auto
  show "parse_task_path (tasks_prefix @ tid @ ''/pause'') = (True, tid, ''pause'')"
    using len pause by (simp add: parse_task_path_def is_task_path_def is_pause_action_def inner_part_def)
  show "parse_task_path (tasks_prefix @ tid @ ''/resume'') = (True, tid, ''resume'')"
    using len pause by (simp add: parse_task_path_def is_task_path_def is_pause_action_def is_resume_action_def inner_part_def)
  show "parse_task_path (tasks_prefix @ tid) = (True, tid, [])"
    using len plain by (simp add: parse_task_path_def is_task_path_def is_pause_action_def is_resume_action_def extract_task_id_def)
qed

lemma dispatch:
  assumes "tid \<noteq> []" "\<not> has_suffix tid ''/pause''" "\<not> has_suffix tid ''/resume''"
  shows "handle_task_by_id sv (rq\<lparr>rq_method := ''POST'', rq_path := tasks_prefix @ tid @ ''/pause''\<rparr>) h a =
      switch_task ''pause'' (queue_pause (ev_now (rv_envs sv 0))) tid h a"
    "handle_task_by_id sv (rq\<lparr>rq_method := ''POST'', rq_path := tasks_prefix @ tid @ ''/resume''\<rparr>) h a =
      switch_task ''resume'' (queue_resume (ev_now (rv_envs sv 0))) tid h a"
    "handle_task_by_id sv (rq\<lparr>rq_method := ''GET'', rq_path := tasks_prefix @ tid\<rparr>) h a = get_task tid h a"
    "handle_task_by_id sv (rq\<lparr>rq_method := ''DELETE'', rq_path := tasks_prefix @ tid\<rparr>) h a = delete_task tid h a"
  using assms by (simp_all add: handle_task_by_id_def tasks_prefix_def trim_suffix_def resume_not_pause Let_def)

text \<open>
  Paths are taken apart alike, and pausing, resuming, reading and deleting have the effect and the status that they
  have in the server.
\<close>
theorem handlers_agree:
  assumes "tid \<noteq> []" "\<not> has_suffix tid ''/pause''" "\<not> has_suffix tid ''/resume''"
  shows "parse_task_path (tasks_prefix @ tid @ ''/pause'') = (True, tid, ''pause'') \<and>
    parse_task_path (tasks_prefix @ tid @ ''/resume'') = (True, tid, ''resume'') \<and>
    parse_task_path (tasks_prefix @ tid) = (True, tid, []) \<and>
    agrees (handle_task_by_id sv (rq\<lparr>rq_method := ''POST'', rq_path := tasks_prefix @ tid @ ''/pause''\<rparr>) h a)
      (handle_task_action (ev_now (rv_envs sv 0)) tid ''pause'' h a) \<and>
    agrees (handle_task_by_id sv (rq\<lparr>rq_method := ''POST'', rq_path := tasks_prefix @ tid @ ''/resume''\<rparr>) h a)
      (handle_task_action (ev_now (rv_envs sv 0)) tid ''resume'' h a) \<and>
    agrees (handle_task_by_id sv (rq\<lparr>rq_method := ''GET'', rq_path := tasks_prefix @ tid\<rparr>) h a) (get_task_handler tid h a) \<and>
    agrees (handle_task_by_id sv (rq\<lparr>rq_method := ''DELETE'', rq_path := tasks_prefix @ tid\<rparr>) h a) (delete_task_handler tid h a)"
  using split_path [OF assms] switch_agrees delete_agrees get_agrees
  unfolding dispatch [OF assms] by (simp add: handle_task_action_def)

section \<open>Differences\<close>

text \<open>A task that the server refuses is created: its address, its path and its priority are not checked.\<close>

definition bad_request :: create_request where
  "bad_request = \<lparr>cq_url = ''file:///etc/passwd'', cq_output = ''../../x'', cq_priority = 99, cq_metadata = None\<rparr>"

lemma unchecked_create:
  "let a = fst (create_task_handler demo_env (Some bad_request) Map.empty (sv_app demo_server)); t = app_task a 0 in
   (t_url t, t_output t, t_priority t, tq_tasks (ap_queue a) (t_id t)) = (''file:///etc/passwd'', ''../../x'', 99, Some 0) \<and>
   \<not> is_valid_url (ev_lookup demo_env) (t_url t) \<and> \<not> is_safe_path (t_output t)"
  by code_simp

text \<open>A new priority is shown, and does not change the place of the task in the queue.\<close>

lemma update_keeps_order:
  "tq_pq (ap_queue (fst (update_task_handler now body tid h a))) = tq_pq (ap_queue a)"
  by (simp add: update_task_handler_def Let_def task_reply_def effect_def app_write_def split: option.split sum.split)

text \<open>The counters of the statistics cover exactly the five states.\<close>

lemma stats_add_up:
  "st_active (task_stats_of ev a) + st_pending (task_stats_of ev a) + st_paused (task_stats_of ev a) +
     st_done (task_stats_of ev a) + st_failed (task_stats_of ev a) \<le> st_total (task_stats_of ev a)"
proof -
  have "length (filter (\<lambda>x. x = StatusDownloading) ss) + length (filter (\<lambda>x. x = StatusPending) ss) +
      length (filter (\<lambda>x. x = StatusPaused) ss) + length (filter (\<lambda>x. x = StatusDone) ss) +
      length (filter (\<lambda>x. x = StatusFailed) ss) \<le> length ss" for ss
    by (induction ss) auto
  then show ?thesis unfolding task_stats_of_def Let_def task_stats.simps by blast
qed

section \<open>Witnesses\<close>

theorem handlers_keep_queue_sound_witness:
  "queue_inv {} (ap_queue (fold (\<lambda>(ev, c). run_call ev c) [(demo_env, CallCreate (Some bad_request)), (demo_env, CallAction ''a'' ''pause'')]
     (sv_app demo_server)))"
proof -
  have "ap_queue (sv_app demo_server) = new_task_queue 1 (\<lambda>_. new_task [] 0 [] [])" by (simp add: demo_server_def)
  from handlers_keep_queue_sound [OF this] show ?thesis .
qed

theorem handlers_agree_witness:
  "agrees (handle_task_by_id demo_services (demo_request [] []\<lparr>rq_method := ''POST'', rq_path := tasks_prefix @ ''a'' @ ''/pause''\<rparr>) Map.empty
     (sv_app demo_server)) (handle_task_action (ev_now (rv_envs demo_services 0)) ''a'' ''pause'' Map.empty (sv_app demo_server))"
proof -
  have "\<not> has_suffix ''a'' ''/pause''" "\<not> has_suffix ''a'' ''/resume''" by code_simp+
  then show ?thesis using handlers_agree [of "''a''"] by blast
qed

end
