(* ===== verification/DownloadSettings.thy ===== *)
theory DownloadSettings
  imports DiskTree GoUrl RateLimiter
begin

text \<open>
  What can be set on a \<open>Downloader\<close> of \<open>downloader/downloader.go\<close>: the speed limit, the check of certificates, the time of
  the file, and the cookies that are kept on disk between downloads. The cookie jar, the codec and the hash of the
  address are arguments.
\<close>

section \<open>Speed limit and certificates\<close>

definition set_rate_limit :: "int \<Rightarrow> instant \<Rightarrow> rate_limiter option \<Rightarrow> rate_limiter option" where
  "set_rate_limit rate now lm =
     (case lm of
        None \<Rightarrow> if rate > 0 then Some (new_rate_limiter rate rate now) else None
      | Some r \<Rightarrow> Some (set_rate r rate))"

definition get_rate_limit :: "rate_limiter option \<Rightarrow> int" where
  "get_rate_limit lm = (case lm of None \<Rightarrow> 0 | Some r \<Rightarrow> get_rate r)"

lemma get_set_rate_limit: "get_rate_limit (set_rate_limit rate now lm) = (if lm = None \<and> rate \<le> 0 then 0 else rate)"
  by (simp add: get_rate_limit_def set_rate_limit_def get_rate_def set_rate_def new_rate_limiter_def Let_def split: option.split)

text \<open>The burst of a limiter is that of the first rate: a later, higher rate does not raise it.\<close>

lemma burst_stays:
  "r > 0 \<Longrightarrow> map_option rl_burst (set_rate_limit r2 now2 (set_rate_limit r now None)) = Some r"
  by (simp add: set_rate_limit_def set_rate_def new_rate_limiter_def Let_def)

text \<open>The setting of the configuration, and whether the transport skips the check of certificates.\<close>

definition set_insecure :: "bool \<Rightarrow> bool \<times> bool \<Rightarrow> bool \<times> bool" where
  "set_insecure insecure s = (insecure, if insecure then True else snd s)"

lemma insecure_sticks: "set_insecure False (set_insecure True s) = (False, True)"
  by (simp add: set_insecure_def)

text \<open>The time of the file; \<open>parse_time\<close> reads a date of HTTP, \<open>chtimes\<close> is whether the time can be set.\<close>

definition apply_remote_time :: "bool \<Rightarrow> string \<Rightarrow> (string \<Rightarrow> instant option) \<Rightarrow> bool \<Rightarrow> instant \<Rightarrow> instant" where
  "apply_remote_time remote_time last_modified parse_time chtimes mtime =
     (if remote_time \<and> last_modified \<noteq> [] then
        (case parse_time last_modified of Some t \<Rightarrow> if chtimes then t else mtime | None \<Rightarrow> mtime)
      else mtime)"

section \<open>Cookies\<close>

record ('j, 'c) cookie_lib =
  ck_set :: "string \<Rightarrow> 'c list \<Rightarrow> 'j \<Rightarrow> 'j"
  ck_get :: "string \<Rightarrow> 'j \<Rightarrow> 'c list"
  ck_encode :: "'c list \<Rightarrow> string option"
  ck_decode :: "string \<Rightarrow> 'c list option"
  ck_hash :: "string \<Rightarrow> string"
  ck_temp :: string

definition cookie_file_path :: "('j, 'c) cookie_lib \<Rightarrow> string \<Rightarrow> string \<Rightarrow> string" where
  "cookie_file_path lib file url = (if file \<noteq> [] then file else path_join (ck_temp lib) (''afd-cookies-'' @ ck_hash lib url @ ''.gob''))"

text \<open>The jar afterwards, and whether there was no error; \<open>readable\<close> is whether a file that exists can be opened.\<close>

definition load_cookies :: "('j, 'c) cookie_lib \<Rightarrow> host \<Rightarrow> bool \<Rightarrow> string \<Rightarrow> string \<Rightarrow> disk \<Rightarrow> 'j option \<Rightarrow> 'j option \<times> bool" where
  "load_cookies lib h readable file url d jar =
     (case jar of
        None \<Rightarrow> (jar, True)
      | Some j \<Rightarrow>
          let path = cookie_file_path lib file url in
          if \<not> os_exists h path d then (jar, True)
          else if \<not> readable then (jar, False)
          else (case Option.bind (os_read h path d) (ck_decode lib) of
              None \<Rightarrow> (jar, False)
            | Some cs \<Rightarrow> (if url_parse url = None then jar else Some (ck_set lib url cs j), True)))"

definition save_cookies :: "('j, 'c) cookie_lib \<Rightarrow> host \<Rightarrow> string \<Rightarrow> string \<Rightarrow> 'j option \<Rightarrow> disk \<Rightarrow> disk \<times> bool" where
  "save_cookies lib h file url jar d =
     (case jar of
        None \<Rightarrow> (d, True)
      | Some j \<Rightarrow>
          if url_parse url = None then (d, False)
          else let cs = ck_get lib url j; path = cookie_file_path lib file url; tmp = path @ ''.tmp'' in
            if cs = [] then (d, True)
            else (case os_create h tmp d of
                (d1, False) \<Rightarrow> (d1, False)
              | (d1, True) \<Rightarrow> (case ck_encode lib cs of
                  None \<Rightarrow> (fst (os_remove h tmp d1), False)
                | Some s \<Rightarrow> (case os_fill h tmp s d1 of
                    (d2, False) \<Rightarrow> (fst (os_remove h tmp d2), False)
                  | (d2, True) \<Rightarrow> (case os_rename h tmp path d2 of
                      (d3, True) \<Rightarrow> (d3, True)
                    | (d3, False) \<Rightarrow> (fst (os_remove h tmp d3), False))))))"

text \<open>Reading a path does not change when another path is written.\<close>

lemma create_others: "os_path h p \<noteq> Some q \<Longrightarrow> lookup (fst (os_create h p d)) q = lookup d q"
  by (auto simp: os_create_def split: option.split)

lemma fill_others: "os_path h p \<noteq> Some q \<Longrightarrow> lookup (fst (os_fill h p s d)) q = lookup d q"
  by (auto simp: os_fill_def split: option.split)

lemma fill_reads:
  "os_path h p = Some q \<Longrightarrow> q \<noteq> [] \<Longrightarrow> os_fill h p s d = (d', True) \<Longrightarrow> lookup d' q = Some (Data s)"
  by (auto simp: os_fill_def split: option.splits)

lemma create_named: "os_create h p d = (d', True) \<Longrightarrow> \<exists>q. os_path h p = Some q \<and> q \<noteq> []"
  by (auto simp: os_create_def split: option.splits if_splits)

text \<open>
  Whatever call fails, the cookies kept so far are not damaged: after a save the file holds the new
  cookies if there was no error, and what it held before if there was one.
\<close>
theorem cookie_save_atomic:
  assumes "save_cookies lib h file url (Some j) d = (d', ok)" "ck_get lib url j \<noteq> []"
    "os_path h (cookie_file_path lib file url) = Some p" "os_path h (cookie_file_path lib file url @ ''.tmp'') \<noteq> Some p"
  shows "lookup d' p = (if ok then map_option Data (ck_encode lib (ck_get lib url j)) else lookup d p)"
proof -
  let ?path = "cookie_file_path lib file url"
  let ?tmp = "?path @ ''.tmp''"
  show ?thesis
  proof (cases "url_parse url = None")
    case True
    then show ?thesis using assms(1) by (simp add: save_cookies_def)
  next
    case False
    obtain d1 k1 where c: "os_create h ?tmp d = (d1, k1)" by fastforce
    have l1: "lookup d1 p = lookup d p" using create_others [OF assms(4), of d] c by simp
    show ?thesis
    proof (cases "k1 \<and> ck_encode lib (ck_get lib url j) \<noteq> None")
      case no: False
      then show ?thesis using assms(1,2) False c l1 remove_others [OF assms(4), of d1]
        by (cases k1) (auto simp: save_cookies_def Let_def)
    next
      case yes: True
      then obtain s where s: "ck_encode lib (ck_get lib url j) = Some s" and k1 by blast
      then obtain t where t: "os_path h ?tmp = Some t" "t \<noteq> []" using create_named c by (metis (full_types))
      obtain d2 k2 where f: "os_fill h ?tmp s d1 = (d2, k2)" by fastforce
      have l2: "lookup d2 p = lookup d p" using fill_others [OF assms(4), of s d1] f l1 by simp
      obtain d3 k3 where r: "os_rename h ?tmp ?path d2 = (d3, k3)" by fastforce
      have kept: "lookup d3 p = lookup d p" if "\<not> k3" using rename_fails [of h ?tmp ?path d2 d3 p] r that l2 by simp
      have new: "lookup d3 p = Some (Data s)" if k3 k2 using rename_target [OF r t(1) assms(3)] fill_reads [OF t] f that by simp
      show ?thesis
        using assms(1,2) False c s f r l2 kept new \<open>k1\<close> remove_others [OF assms(4), of d2] remove_others [OF assms(4), of d3]
        by (cases k2; cases k3) (auto simp: save_cookies_def Let_def)
    qed
  qed
qed

text \<open>What is saved is loaded again by the next download of the address, if the codec reads what it writes.\<close>

lemma cookies_survive:
  assumes "save_cookies lib h file url (Some j) d = (d', True)" "ck_get lib url j \<noteq> []"
    "os_path h (cookie_file_path lib file url) = Some p" "os_path h (cookie_file_path lib file url @ ''.tmp'') \<noteq> Some p"
    "\<And>cs s. ck_encode lib cs = Some s \<Longrightarrow> ck_decode lib s = Some cs"
  shows "load_cookies lib h True file url d' (Some j2) = (Some (ck_set lib url (ck_get lib url j) j2), True)"
proof -
  have u: "url_parse url \<noteq> None" using assms(1) by (cases "url_parse url = None") (simp_all add: save_cookies_def)
  have e: "ck_encode lib (ck_get lib url j) \<noteq> None"
    using assms(1,2) u by (auto simp: save_cookies_def Let_def split: prod.splits bool.splits option.splits)
  then obtain s where s: "ck_encode lib (ck_get lib url j) = Some s" by blast
  have "lookup d' p = Some (Data s)" using cookie_save_atomic [OF assms(1-4)] s by simp
  then have "os_exists h (cookie_file_path lib file url) d'" "os_read h (cookie_file_path lib file url) d' = Some s"
    using assms(3) by (simp_all add: os_exists_def os_read_def)
  then show ?thesis using assms(5) [OF s] u by (auto simp: load_cookies_def Let_def)
qed

section \<open>Witness\<close>

definition demo_cookies :: "((string \<times> string) list, string) cookie_lib" where
  "demo_cookies = \<lparr>ck_set = (\<lambda>u cs j. map (Pair u) cs @ j), ck_get = (\<lambda>u j. map snd (filter (\<lambda>x. fst x = u) j)),
     ck_encode = (\<lambda>cs. case cs of [c] \<Rightarrow> Some c | _ \<Rightarrow> None), ck_decode = (\<lambda>s. Some [s]), ck_hash = (\<lambda>u. u), ck_temp = ''/t''\<rparr>"

definition cookie_host :: host where
  "cookie_host = \<lparr>ho_cwd = ''/'', ho_fault = (\<lambda>_. None), ho_same_device = (\<lambda>_ _. True)\<rparr>"

definition cookie_disk :: disk where
  "cookie_disk = \<lparr>dk_tree = [([''t''], Dir)], dk_clock = 0\<rparr>"

theorem cookie_save_atomic_witness:
  "lookup (fst (save_cookies demo_cookies cookie_host ''/t/c'' ''a'' (Some [(''a'', ''x'')]) cookie_disk)) [''t'', ''c''] = Some (Data ''x'')"
proof -
  have p: "os_path cookie_host (cookie_file_path demo_cookies ''/t/c'' ''a'') = Some [''t'', ''c'']"
    "os_path cookie_host (cookie_file_path demo_cookies ''/t/c'' ''a'' @ ''.tmp'') \<noteq> Some [''t'', ''c'']"
    "snd (save_cookies demo_cookies cookie_host ''/t/c'' ''a'' (Some [(''a'', ''x'')]) cookie_disk)"
    "ck_get demo_cookies ''a'' [(''a'', ''x'')] \<noteq> []"
    "ck_encode demo_cookies (ck_get demo_cookies ''a'' [(''a'', ''x'')]) = Some ''x''"
    by code_simp+
  have "save_cookies demo_cookies cookie_host ''/t/c'' ''a'' (Some [(''a'', ''x'')]) cookie_disk =
      (fst (save_cookies demo_cookies cookie_host ''/t/c'' ''a'' (Some [(''a'', ''x'')]) cookie_disk), True)"
    using p(3) by (metis (full_types) prod.collapse)
  from cookie_save_atomic [OF this p(4) p(1) p(2)] show ?thesis using p(5) by simp
qed

end
