(* ===== verification/Spec2Isabelle.thy ===== *)
theory Spec2Isabelle
  imports TaskQueueProps PieceDownloadProps RateLimiter ServerStat Adaptive Scheduler Failover
    StateSync ManagerProps ConfigLoad BitfieldSpec TaskStoreProps Checksum DownloadFlowProps
    MiddlewareProps ControlSound AccessControl RpcProps HubProps Metrics PostProcessProps EventBus
    Proxy Metalink CommandLineProps NatService Gossip ClusterRpcProps Plugins Torrent TaskHandlers DownloadSettings
begin

text \<open>
  A verification library for AFD, a download manager in Go with an aria2-like interface. This is the
  root theory: it imports the others and holds the properties that span components.

  \<^bold>\<open>The program.\<close> A task (\<open>internal/task/model.go\<close>) is queued by \<open>task.TaskQueue\<close>, a priority queue with a bound
  on the running tasks. When a task starts, \<open>downloader.DownloadManager\<close> runs a download for it in a
  goroutine. \<open>Downloader.Download\<close> probes the resource and fetches it, either over one connection or as
  pieces of blocks over several workers that claim pieces from a \<open>PieceManager\<close> and steal parts of
  pieces from each other. Rate limiter, mirror statistics, adaptive thread count and retry policy
  serve the downloader. Control files and task files are written by two stores with the same
  protocol of lock, temporary file and rename. The cluster part keeps members, schedules tasks onto
  nodes, moves the tasks of a failed node and exchanges a replicated state. A configuration is read
  from files and the environment. Clients control the queue over HTTP: a REST interface, JSON-RPC and
  XML-RPC in the style of aria2, and a socket on which they are told of changes.

  \<^bold>\<open>Reading the library.\<close> Each theory models one source file or a part of one, keeps the names of the
  source where it can, and ends with the theorems about it (or has them in a sister theory \<open>...Props\<close>).
  A Go struct is a record, an enumeration a datatype; an error is a value of \<open>go_error\<close> (wrapped errors
  keep their chain) or of an error type of the component, a panic a value of \<open>panic\<close>. Times and durations
  are integers of nanoseconds, \<open>int64\<close> arithmetic is written out with \<open>i64\<close> where it can wrap, \<open>float64\<close> is
  rational arithmetic rounded by \<open>f64\<close>. Maps of Go are partial functions, and where the code ranges over
  a map, the order is an argument. What the network, the disk, the clock and third-party code do is
  an argument too: scripts of answers and reads, functions for the codecs, outcomes of system calls.
  Goroutines are sequences of atomic steps under the locks the code takes, in any order.

  \<^item> \<open>Prelude\<close>, \<open>GoHeap\<close> (\<open>container/heap\<close>), \<open>GoFloat\<close>, \<open>GoString\<close>, \<open>GoPath\<close>, \<open>GoUrl\<close>, \<open>GoNet\<close>, \<open>Base64\<close>, \<open>FileSys\<close>: what the code
    uses of Go and its standard library, written out, with the lemmas the components share.
  \<^item> \<open>TaskModel\<close>, \<open>PriorityQueue\<close>, \<open>TaskQueue\<close>, \<open>TaskQueueInv\<close>, \<open>TaskQueueProps\<close>: \<open>task/model.go\<close> and \<open>task/queue.go\<close>.
    The queue invariant ties heap, index map and list of started tasks and holds in every reachable
    state; the bound on running tasks, the choice of the next task and the effect of \<open>ChangePosition\<close>
    follow from it.
  \<^item> \<open>Bitfield\<close>, \<open>BitfieldSpec\<close>, \<open>Pieces\<close>, \<open>PieceProps\<close>, \<open>PieceManagerProps\<close>: \<open>downloader/chunk.go\<close>. The bitmap of words
    refines a pair of sets of blocks; the split tiles the file; claims are exclusive; saving and
    restoring the bitmaps loses no completed block.
  \<^item> \<open>Retry\<close>, \<open>RateLimiter\<close>, \<open>ServerStat\<close>, \<open>Adaptive\<close>: the files of these names. How often a call is repeated, how
    many bytes pass a limiter in an interval, in which order mirrors are tried, the bounds of the
    thread count.
  \<^item> \<open>PieceDownload\<close>, \<open>PieceDownloadProps\<close>: \<open>downloadPiece\<close> and \<open>downloadRange\<close> of \<open>downloader/downloader.go\<close> over scripts
    of reads. A completed block holds the bytes of the resource, and the ways in which a block is lost.
  \<^item> \<open>WorkerPool\<close>, \<open>WorkerPoolProps\<close>: the workers of \<open>doDownload\<close> in the same file, turn by turn. The turns of one
    attempt compose to \<open>PieceDownload\<close>; for every interleaving of the workers, a pool that ends without
    an error has written the resource.
  \<^item> \<open>Netrc\<close>, \<open>Requests\<close>, \<open>SingleDownload\<close>, \<open>SingleDownloadProps\<close>, \<open>DownloadFlow\<close>, \<open>DownloadFlowProps\<close>: the rest of the
    download path: credentials and headers, size probes, the single connection with its progress file,
    one attempt (\<open>doDownload\<close>) and the retried \<open>Download\<close>. What a finished download leaves on disk.
  \<^item> \<open>Manager\<close>, \<open>ManagerProps\<close>: \<open>downloader/manager.go\<close> on top of the queue: the life of a download, the
    schedule of speed limits, the low-speed monitor.
  \<^item> \<open>FileSys\<close>, \<open>SaveProtocol\<close>, \<open>TaskStore\<close>, \<open>TaskStoreProps\<close>, \<open>Checksum\<close>: \<open>task/store.go\<close>, \<open>task/controlfile.go\<close> and
    \<open>task/checksum.go\<close> over a file system of names, inodes, locks and durable contents. Saving is atomic
    under interleaving, failures and crashes.
  \<^item> \<open>ClusterNode\<close>, \<open>Scheduler\<close>, \<open>Failover\<close>, \<open>StateSync\<close>: \<open>internal/cluster\<close>. Membership is replayed by its events, a
    task is dispatched at most once, three strikes remove a node, merging is monotone.
  \<^item> \<open>AppConfig\<close>, \<open>ConfigLoad\<close>: \<open>pkg/config\<close>. Whatever the files and the environment say, an accepted
    configuration is well formed, and loading ends.
  \<^item> \<open>ApiState\<close>, \<open>Middleware\<close>, \<open>JsonRpc\<close>, \<open>XmlRpc\<close>, \<open>RestApi\<close>, \<open>Metrics\<close>, \<open>WebSocketHub\<close>: \<open>internal/api\<close>. \<open>serve\<close> is the
    whole server: it routes a request through the middleware to a handler that works on the
    queue, the configuration, the members and the list of effects (what is asked of the store, the hub and
    the process). \<open>ControlSound\<close>: no sequence of requests and reports breaks the queue invariant.
    \<open>AccessControl\<close>: without the token nothing is changed or told. \<open>MiddlewareProps\<close>: the request
    limiter. \<open>RpcProps\<close>: what single calls do. \<open>HubProps\<close>: what the socket delivers.

  \<^item> \<open>EventBus\<close>, \<open>PostProcess\<close>, \<open>PostProcessProps\<close>: \<open>internal/events.go\<close> and \<open>internal/postprocess.go\<close>. Events
    go to handlers through a bounded queue and workers. A finished file is extracted, moved and its
    directory cleaned, over the tree of directories of \<open>DiskTree\<close>, in which every system call may fail.
    Extraction stays in its directory and a move loses no data, with the exceptions stated.
  \<^item> \<open>Proxy\<close>, \<open>Metalink\<close>: \<open>downloader/proxy.go\<close> and \<open>downloader/metalink.go\<close>. What proxies are told, and what a
    metalink download has verified when it reports no error.
  \<^item> \<open>CommandLine\<close>, \<open>CommandLineProps\<close>: \<open>cmd/afd/main.go\<close>. Options, file names and batches of the command, the
    client of the RPC server (composed with the server of \<open>JsonRpc\<close>), and the end of the service.

  \<^item> \<open>Gossip\<close>: \<open>cluster/discovery.go\<close> on top of \<open>ClusterNode\<close>: what a node learns of others from their heartbeats, and
    why a dead one is never forgotten.
  \<^item> \<open>GoBytes\<close>, \<open>ClusterRpc\<close>, \<open>ClusterRpcProps\<close>: \<open>cluster/grpc.go\<close> and \<open>cluster/auth.go\<close>. Calls over frames on a
    connection refine calls of the handler.
  \<^item> \<open>NatWire\<close>, \<open>NatService\<close>: \<open>internal/nat\<close>. Its datagrams byte by byte, the state machines of relay, hole
    puncher, signalling, STUN client and manager, and the attempts by which the manager reaches a peer.

  \<^item> \<open>Transfers\<close>, \<open>TransfersProps\<close>, \<open>Ftp\<close>, \<open>FtpProps\<close>: \<open>sftp.go\<close>, \<open>s3.go\<close>, \<open>webdav.go\<close> and \<open>ftp.go\<close> of \<open>internal/downloader\<close>. What
    a download over each protocol leaves in the local file, over scripts of what the server delivers.
  \<^item> \<open>Plugins\<close>: \<open>internal/plugin\<close>. The hooks of an event refine a multiset of handlers, run by priority.

  \<^item> \<open>Torrent\<close>: \<open>downloader/torrent.go\<close> and \<open>NewDownloaderFromURL\<close>. Which downloader and which settings an
    address gets, and what is asked of the BitTorrent engine, over what the engine reports.

  \<^item> \<open>TaskHandlers\<close>: \<open>api/handlers.go\<close> and \<open>api/signals.go\<close>, which no route uses, compared with the handlers of the server.
  \<^item> \<open>DownloadSettings\<close>: what can be set on a downloader, and the cookies it keeps on disk.

  \<^bold>\<open>Bounds and fuel.\<close> Loops of the code are structural recursions over scripts, lists or counters, or
  functions with a measure. \<open>load_config_file\<close> takes fuel for nested includes, and any fuel above the
  number of files is enough (\<open>load_config_total\<close>). A script that ends while the code would wait
  for more input yields a value of its own (no result yet), which no theorem takes for success.

  \<^bold>\<open>Not modelled.\<close> Flag parsing and the construction and start of the services in \<open>main.go\<close>; the opening, closing
  and deadlines of sockets, TLS and the contents of certificates, which only pass values to Go's library; the
  BitTorrent engine, the clients of SSH, SFTP and S3, and the codecs of gob, JSON and XML, which are third-party or
  library code and are arguments; logging, counters of the metrics without labels, file permissions, fields that
  are only stored and read back, and the system calls of other platforms. Go's \<open>http.ServeMux\<close> is written out as far
  as the routes use it.
\<close>

section \<open>From the configuration file to the split\<close>

lemma split_config_sel [simp]:
  "default_chunk_size (split_config c) = dc_default_chunk c" "min_chunk_size (split_config c) = dc_min_chunk c"
  "max_chunk_size (split_config c) = dc_max_chunk c" "max_connections (split_config c) = dc_max_connections c"
  by (simp_all add: split_config_def)

lemma loaded_chunk_cfg_valid:
  assumes "load_config n w path = Some (Inr c)"
  shows "chunk_cfg_valid (split_config (cf_download c))"
proof -
  have "download_validate (cf_download c) = None"
    using load_config_validated [OF assms] by (auto simp: config_validate_def split: option.splits)
  then show ?thesis by (simp add: download_validate_def chunk_cfg_valid_def split: if_splits)
qed

text \<open>
  C22: Whatever configuration \<open>Load\<close> accepts, splitting a non-empty file with it either tiles the file or
  crashes with a division by zero; and it crashes exactly when the accepted default chunk size is
  zero, or the accepted minimum is zero and the file has fewer bytes than there are connections.
\<close>
theorem loaded_config_splits:
  assumes "load_config n w path = Some (Inr c)" "0 < fs" "fs + dc_max_chunk (cf_download c) < 2 ^ 63"
  shows "case split_file_into_pieces fs (split_config (cf_download c)) of
      Inl e \<Rightarrow> e = DivideByZero \<and> (dc_default_chunk (cf_download c) = 0 \<or>
        dc_min_chunk (cf_download c) = 0 \<and> fs < dc_max_connections (cf_download c))
    | Inr ps \<Rightarrow> concat (map piece_bytes ps) = [0..fs - 1] \<and> \<not> (dc_default_chunk (cf_download c) = 0 \<or>
        dc_min_chunk (cf_download c) = 0 \<and> fs < dc_max_connections (cf_download c))"
proof -
  let ?k = "split_config (cf_download c)"
  note valid = loaded_chunk_cfg_valid [OF assms(1)]
  note panics = split_panics_iff [OF valid, of fs]
  show ?thesis
  proof (cases "dc_default_chunk (cf_download c) = 0 \<or>
      dc_min_chunk (cf_download c) = 0 \<and> fs < dc_max_connections (cf_download c)")
    case True
    then show ?thesis using panics assms(2) by auto
  next
    case False
    have "0 < default_chunk_size ?k" "0 < min_chunk_size ?k \<or> max_connections ?k \<le> fs"
      using valid False by (auto simp: chunk_cfg_valid_def)
    from choose_piece_size_ok [OF valid assms(2) this] obtain s
      where "choose_piece_size fs ?k = Inr s" "0 < s" "s \<le> max_chunk_size ?k" by blast
    from split_of_size [OF assms(2) this] assms(3) False show ?thesis by auto
  qed
qed

text \<open>The built-in defaults and a file of a hundred million bytes.\<close>

lemma loaded_config_splits_witness:
  "case split_file_into_pieces 100000000
       (split_config (cf_download (apply_env_overrides (\<lambda>_. []) default_config))) of
     Inl e \<Rightarrow> False | Inr ps \<Rightarrow> concat (map piece_bytes ps) = [0..99999999]"
proof -
  let ?c = "apply_env_overrides (\<lambda>_. []) default_config"
  have "config_validate ?c = None" by code_simp
  moreover have "config_path (demo_world Map.empty) [] = []" by (simp add: config_path_def demo_world_def)
  ultimately have "load_config 1 (demo_world Map.empty) [] = Some (Inr ?c)"
    by (simp add: load_config_def Let_def) (simp add: demo_world_def)
  moreover have "dc_default_chunk (cf_download ?c) = 10485760 \<and> dc_min_chunk (cf_download ?c) = 1048576 \<and>
      dc_max_chunk (cf_download ?c) = 52428800" by code_simp
  ultimately show ?thesis using loaded_config_splits [of 1 "demo_world Map.empty" "[]" ?c 100000000]
    by (auto split: sum.splits)
qed

end
